(* ===== verification/VdsPrelude.thy ===== *)
theory VdsPrelude
  imports Main "HOL-Library.Word" "HOL-Library.Sublist"
begin

unbundle bit_operations_syntax

text \<open>
  Shared vocabulary of the development: the machine integers of the C++ code, exceptions
  as values, byte buffers (\<open>std::memcpy\<close> and \<open>std::copy\<close> into a fixed array are
  \<open>blit\<close>), little- and big-endian integer encodings, the character classes of
  \<open><cctype>\<close> in the C locale and \<open>std::to_string\<close> on unsigned integers, each with
  the lemmas the components share.
\<close>

named_theorems result_simps \<open>equations of the exception monad\<close>
named_theorems layout_simps \<open>lengths and indices of byte layouts\<close>

section \<open>Machine integers\<close>

type_synonym u8 = "8 word"
type_synonym u16 = "16 word"
type_synonym u32 = "32 word"
type_synonym u64 = "64 word"
type_synonym bytes = "8 word list"

text \<open>
  Signed 8, 16 and 32 bit values are carried as \<open>int\<close>; a \<open>static_cast\<close> to the signed
  type is \<open>signed_take_bit\<close> at the sign position (two's complement).
\<close>

definition cast_s8 :: "int \<Rightarrow> int" where
  "cast_s8 v = signed_take_bit 7 v"

definition cast_s16 :: "int \<Rightarrow> int" where
  "cast_s16 v = signed_take_bit 15 v"

definition cast_s32 :: "int \<Rightarrow> int" where
  "cast_s32 v = signed_take_bit 31 v"

text \<open>Division of C++ integers truncates towards zero.\<close>

definition c_div :: "int \<Rightarrow> int \<Rightarrow> int" where
  "c_div a b = sgn a * sgn b * (\<bar>a\<bar> div \<bar>b\<bar>)"

definition clamp_int :: "int \<Rightarrow> int \<Rightarrow> int \<Rightarrow> int" where
  "clamp_int v lo hi = (if v < lo then lo else if hi < v then hi else v)"

lemma ucast_u32_via_u64 [simp]: "(ucast (ucast (v :: u32) :: u64) :: u32) = v"
  by (rule bit_word_eqI) (simp add: bit_simps)

lemma bit_high [simp]:
  "8 \<le> n \<Longrightarrow> \<not> bit (a :: u8) n"
  "16 \<le> n \<Longrightarrow> \<not> bit (b :: u16) n"
  "32 \<le> n \<Longrightarrow> \<not> bit (c :: u32) n"
  by (auto dest: bit_imp_le_length)

text \<open>A byte is its eight bits.\<close>

lemma u8_eq_iff:
  "(a :: u8) = b \<longleftrightarrow>
   (bit a 0 = bit b 0) \<and> (bit a 1 = bit b 1) \<and> (bit a 2 = bit b 2) \<and> (bit a 3 = bit b 3) \<and>
   (bit a 4 = bit b 4) \<and> (bit a 5 = bit b 5) \<and> (bit a 6 = bit b 6) \<and> (bit a 7 = bit b 7)"
proof
  assume e: "(bit a 0 = bit b 0) \<and> (bit a 1 = bit b 1) \<and> (bit a 2 = bit b 2) \<and> (bit a 3 = bit b 3) \<and>
    (bit a 4 = bit b 4) \<and> (bit a 5 = bit b 5) \<and> (bit a 6 = bit b 6) \<and> (bit a 7 = bit b 7)"
  show "a = b"
  proof (rule bit_word_eqI)
    fix n assume "n < LENGTH(8)"
    then consider "n = 0" | "n = 1" | "n = 2" | "n = 3" | "n = 4" | "n = 5" | "n = 6" | "n = 7"
      by fastforce
    then show "bit a n = bit b n" using e by cases (simp_all only:)
  qed
qed simp

section \<open>Exceptions as values\<close>

datatype exn = Runtime_error (what: string) | Invalid_argument (what: string)

type_synonym 'a result = "exn + 'a"

definition res_bind :: "'a result \<Rightarrow> ('a \<Rightarrow> 'b result) \<Rightarrow> 'b result" where
  "res_bind m f = (case m of Inl e \<Rightarrow> Inl e | Inr x \<Rightarrow> f x)"

fun res_mapM :: "('a \<Rightarrow> 'b result) \<Rightarrow> 'a list \<Rightarrow> 'b list result" where
  "res_mapM f [] = Inr []"
| "res_mapM f (x # xs) =
     res_bind (f x) (\<lambda>y. res_bind (res_mapM f xs) (\<lambda>ys. Inr (y # ys)))"

lemma res_bind_simps [simp, result_simps]:
  "res_bind (Inl e) f = Inl e"
  "res_bind (Inr x) f = f x"
  by (simp_all add: res_bind_def)

lemma res_bind_Inr_iff [result_simps]:
  "res_bind m f = Inr y \<longleftrightarrow> (\<exists>x. m = Inr x \<and> f x = Inr y)"
  by (cases m) auto

lemma res_bind_Inl_iff [result_simps]:
  "res_bind m f = Inl e \<longleftrightarrow> m = Inl e \<or> (\<exists>x. m = Inr x \<and> f x = Inl e)"
  by (cases m) auto

lemma res_bind_cong [fundef_cong]:
  "m = m' \<Longrightarrow> (\<And>x. m' = Inr x \<Longrightarrow> f x = g x) \<Longrightarrow> res_bind m f = res_bind m' g"
  by (cases m') auto

lemma res_mapM_Inr: "(\<And>x. x \<in> set xs \<Longrightarrow> f x = Inr (g x)) \<Longrightarrow> res_mapM f xs = Inr (map g xs)"
  by (induction xs) auto

lemma res_mapM_length: "res_mapM f xs = Inr ys \<Longrightarrow> length ys = length xs"
  by (induction xs arbitrary: ys) (auto simp: res_bind_Inr_iff)

section \<open>Byte buffers\<close>

text \<open>\<open>blit off src dst\<close>: copy \<open>src\<close> over \<open>dst\<close> starting at index \<open>off\<close>.\<close>

definition blit :: "nat \<Rightarrow> 'a list \<Rightarrow> 'a list \<Rightarrow> 'a list" where
  "blit off src dst = take off dst @ src @ drop (off + length src) dst"

lemma length_blit [simp, layout_simps]:
  "off + length src \<le> length dst \<Longrightarrow> length (blit off src dst) = length dst"
  by (simp add: blit_def)

lemma nth_blit [layout_simps]:
  "off + length src \<le> length dst \<Longrightarrow> i < length dst \<Longrightarrow>
   blit off src dst ! i = (if off \<le> i \<and> i < off + length src then src ! (i - off) else dst ! i)"
  by (auto simp: blit_def nth_append min_def)

lemma take_blit_before [layout_simps]:
  "n \<le> off \<Longrightarrow> off \<le> length dst \<Longrightarrow> take n (blit off src dst) = take n dst"
  by (simp add: blit_def)

lemma slice_blit [layout_simps]:
  "off + length src \<le> length dst \<Longrightarrow> take (length src) (drop off (blit off src dst)) = src"
  by (simp add: blit_def)

section \<open>Integer encodings\<close>

definition le16 :: "u16 \<Rightarrow> bytes" where
  "le16 v = [ucast v, ucast (drop_bit 8 v)]"

definition le32 :: "u32 \<Rightarrow> bytes" where
  "le32 v = [ucast v, ucast (drop_bit 8 v), ucast (drop_bit 16 v), ucast (drop_bit 24 v)]"

definition le64 :: "u64 \<Rightarrow> bytes" where
  "le64 v = map (\<lambda>k. ucast (drop_bit (8 * k) v)) [0..<8]"

definition be16 :: "u16 \<Rightarrow> bytes" where
  "be16 v = rev (le16 v)"

definition be32 :: "u32 \<Rightarrow> bytes" where
  "be32 v = rev (le32 v)"

definition from_le16 :: "bytes \<Rightarrow> u16" where
  "from_le16 b = ucast (b ! 0) OR push_bit 8 (ucast (b ! 1))"

definition from_le32 :: "bytes \<Rightarrow> u32" where
  "from_le32 b = ucast (b ! 0) OR push_bit 8 (ucast (b ! 1)) OR
     push_bit 16 (ucast (b ! 2)) OR push_bit 24 (ucast (b ! 3))"

definition from_be32 :: "bytes \<Rightarrow> u32" where
  "from_be32 b = from_le32 (rev b)"

definition from_be16 :: "bytes \<Rightarrow> u16" where
  "from_be16 b = from_le16 (rev b)"

lemma length_le16 [simp, layout_simps]: "length (le16 v) = 2"
  by (simp add: le16_def)

lemma length_le32 [simp, layout_simps]: "length (le32 v) = 4"
  by (simp add: le32_def)

lemma length_le64 [simp, layout_simps]: "length (le64 v) = 8"
  by (simp add: le64_def)

lemma length_be16 [simp, layout_simps]: "length (be16 v) = 2"
  by (simp add: be16_def)

lemma length_be32 [simp, layout_simps]: "length (be32 v) = 4"
  by (simp add: be32_def)

lemma from_le16_le16 [simp]: "from_le16 (le16 v) = v"
  by (rule bit_word_eqI)
    (auto simp: from_le16_def le16_def bit_simps)

lemma from_le32_le32 [simp]: "from_le32 (le32 v) = v"
proof (rule bit_word_eqI)
  fix n assume "n < LENGTH(32)"
  then consider "n < 8" | "8 \<le> n" "n < 16" | "16 \<le> n" "n < 24" | "24 \<le> n" "n < 32"
    by fastforce
  then show "bit (from_le32 (le32 v)) n = bit v n"
    by cases (auto simp: from_le32_def le32_def bit_simps)
qed

lemma le32_from_le32: "length b = 4 \<Longrightarrow> le32 (from_le32 b) = b"
proof -
  assume "length b = 4"
  then obtain p q r t where b: "b = [p, q, r, t]" by (auto simp: length_Suc_conv numeral_eq_Suc)
  have "ucast (from_le32 b) = p" "ucast (drop_bit 8 (from_le32 b)) = q"
    "ucast (drop_bit 16 (from_le32 b)) = r" "ucast (drop_bit 24 (from_le32 b)) = t"
    by (auto simp: b from_le32_def bit_simps intro!: bit_word_eqI)
  then show ?thesis by (simp add: le32_def b)
qed

lemma from_be32_be32 [simp]: "from_be32 (be32 v) = v"
  by (simp add: from_be32_def be32_def)

lemma from_be16_be16 [simp]: "from_be16 (be16 v) = v"
  by (simp add: from_be16_def be16_def)

section \<open>Text\<close>

text \<open>
  A \<open>char\<close> is an 8-bit unit; \<open>of_char c :: nat\<close> is \<open>static_cast<unsigned char>\<close>.
  The character classes are those of the C locale.
\<close>

definition is_space :: "char \<Rightarrow> bool" where
  "is_space c \<longleftrightarrow> (let n = of_char c :: nat in n = 32 \<or> (9 \<le> n \<and> n \<le> 13))"

definition is_digit :: "char \<Rightarrow> bool" where
  "is_digit c \<longleftrightarrow> (let n = of_char c :: nat in 48 \<le> n \<and> n \<le> 57)"

definition is_upper :: "char \<Rightarrow> bool" where
  "is_upper c \<longleftrightarrow> (let n = of_char c :: nat in 65 \<le> n \<and> n \<le> 90)"

definition is_xdigit :: "char \<Rightarrow> bool" where
  "is_xdigit c \<longleftrightarrow> (let n = of_char c :: nat in
     (48 \<le> n \<and> n \<le> 57) \<or> (65 \<le> n \<and> n \<le> 70) \<or> (97 \<le> n \<and> n \<le> 102))"

definition to_lower :: "char \<Rightarrow> char" where
  "to_lower c = (if is_upper c then char_of (of_char c + 32 :: nat) else c)"

definition digit_val :: "char \<Rightarrow> nat" where
  "digit_val c = of_char c - 48"

definition digit_char :: "nat \<Rightarrow> char" where
  "digit_char d = char_of (48 + d)"

text \<open>\<open>std::to_string\<close> on an unsigned value.\<close>

fun nat_text :: "nat \<Rightarrow> string" where
  "nat_text n = (if n < 10 then [digit_char n] else nat_text (n div 10) @ [digit_char (n mod 10)])"

declare nat_text.simps [simp del]

definition u32_text :: "u32 \<Rightarrow> string" where
  "u32_text v = nat_text (unat v)"

lemma of_char_digit_char [simp]: "d < 10 \<Longrightarrow> of_char (digit_char d) = (48 + d :: nat)"
  by (simp add: digit_char_def)

lemma digit_char_facts [simp]:
  "d < 10 \<Longrightarrow> is_digit (digit_char d)"
  "d < 10 \<Longrightarrow> digit_val (digit_char d) = d"
  by (simp_all add: is_digit_def digit_val_def Let_def)

lemma digit_val_less: "is_digit c \<Longrightarrow> digit_val c < 10"
  by (auto simp: is_digit_def digit_val_def Let_def)

lemma nat_text_digits: "c \<in> set (nat_text n) \<Longrightarrow> is_digit c"
proof (induction n rule: nat_text.induct)
  case (1 n)
  then show ?case
    by (cases "n < 10") (auto simp: nat_text.simps [of n])
qed

lemma nat_text_nonempty [simp]: "nat_text n \<noteq> []"
  by (subst nat_text.simps) simp

lemma u32_text_nonempty [simp]: "u32_text v \<noteq> []"
  by (simp add: u32_text_def)

lemma u32_text_digits: "c \<in> set (u32_text v) \<Longrightarrow> is_digit c"
  by (simp add: u32_text_def nat_text_digits)

text \<open>The value a string of decimal digits denotes.\<close>

definition dec_value :: "string \<Rightarrow> nat" where
  "dec_value cs = foldl (\<lambda>v c. v * 10 + digit_val c) 0 cs"

lemma dec_value_snoc: "dec_value (cs @ [c]) = dec_value cs * 10 + digit_val c"
  by (simp add: dec_value_def)

lemma dec_value_nat_text [simp]: "dec_value (nat_text n) = n"
proof (induction n rule: nat_text.induct)
  case (1 n)
  show ?case
  proof (cases "n < 10")
    case True
    then show ?thesis by (subst nat_text.simps) (simp add: dec_value_def)
  next
    case False
    with 1 have "dec_value (nat_text (n div 10)) = n div 10" by simp
    with False show ?thesis
      by (subst nat_text.simps) (simp add: dec_value_snoc)
  qed
qed

lemma is_digit_not_special:
  "is_digit c \<Longrightarrow> \<not> is_space c"
  "is_digit c \<Longrightarrow> c \<noteq> CHR '',''"
  "is_digit c \<Longrightarrow> c \<noteq> CHR '']''"
  by (auto simp: is_digit_def is_space_def Let_def)

end
