(* ===== verification/Jsonl.thy ===== *)
theory Jsonl
  imports VdsPrelude
begin

text \<open>
  The JSON-lines reader and writer of \<open>src/jsonl.cc\<close>. The reader of the source walks a
  \<open>string_view\<close> with an offset; here the pair of text and offset is the suffix of the text
  that starts at the offset, so \<open>offset >= text.size()\<close> is the empty suffix and advancing
  the offset drops characters. Every \<open>throw std::runtime_error\<close> is a value \<open>Inl\<close>
  with the message of the source. The lemmas show that the reader is total (termination of
  every loop), that it inverts the writer on every string, port array and object, and what it
  rejects.
\<close>

section \<open>Values and fields\<close>

record JsonlValue =
  string_value :: string
  array_value :: "u32 list"
  is_array :: bool

record JsonlField =
  field_key :: string
  field_value :: JsonlValue

definition json_string :: "string \<Rightarrow> JsonlValue" where
  "json_string s = \<lparr>string_value = s, array_value = [], is_array = False\<rparr>"

definition json_array :: "u32 list \<Rightarrow> JsonlValue" where
  "json_array vs = \<lparr>string_value = [], array_value = vs, is_array = True\<rparr>"

abbreviation quote_char :: char where "quote_char \<equiv> CHR 0x22"
abbreviation backslash_char :: char where "backslash_char \<equiv> CHR 0x5C"

section \<open>Reading\<close>

definition context_suffix :: "string \<Rightarrow> string" where
  "context_suffix ctx = (if ctx = [] then [] else '' in '' @ ctx)"

definition jsonl_error :: "string \<Rightarrow> string \<Rightarrow> exn" where
  "jsonl_error msg ctx = Runtime_error (msg @ context_suffix ctx)"

definition skip_jsonl_space :: "string \<Rightarrow> string" where
  "skip_jsonl_space text = dropWhile is_space text"

definition require_jsonl_char :: "string \<Rightarrow> char \<Rightarrow> string \<Rightarrow> string result" where
  "require_jsonl_char text expected ctx =
     (case skip_jsonl_space text of
        [] \<Rightarrow> Inl (jsonl_error ''invalid JSON object'' ctx)
      | c # rest \<Rightarrow>
          if c \<noteq> expected then Inl (jsonl_error ''invalid JSON object'' ctx) else Inr rest)"

definition parse_jsonl_escape :: "char \<Rightarrow> string \<Rightarrow> char result" where
  "parse_jsonl_escape escape ctx =
     (if escape = quote_char \<or> escape = backslash_char \<or> escape = CHR ''/'' then Inr escape
      else if escape = CHR ''b'' then Inr CHR 0x08
      else if escape = CHR ''f'' then Inr CHR 0x0C
      else if escape = CHR ''n'' then Inr CHR 0x0A
      else if escape = CHR ''r'' then Inr CHR 0x0D
      else if escape = CHR ''t'' then Inr CHR 0x09
      else Inl (jsonl_error ''unsupported JSON escape'' ctx))"

definition parse_jsonl_hex_digit :: "char \<Rightarrow> string \<Rightarrow> u32 result" where
  "parse_jsonl_hex_digit ch ctx =
     (let n = of_char ch :: nat in
      if 48 \<le> n \<and> n \<le> 57 then Inr (of_nat (n - 48))
      else if 97 \<le> n \<and> n \<le> 102 then Inr (of_nat (n - 97 + 10))
      else if 65 \<le> n \<and> n \<le> 70 then Inr (of_nat (n - 65 + 10))
      else Inl (jsonl_error ''invalid JSON unicode escape'' ctx))"

text \<open>The four-digit loop of a \<open>\u\<close> escape, over the four characters it reads.\<close>

fun parse_jsonl_hex4 :: "string \<Rightarrow> u32 \<Rightarrow> string \<Rightarrow> u32 result" where
  "parse_jsonl_hex4 [] code_point ctx = Inr code_point"
| "parse_jsonl_hex4 (ch # chs) code_point ctx =
     res_bind (parse_jsonl_hex_digit ch ctx)
       (\<lambda>d. parse_jsonl_hex4 chs (push_bit 4 code_point OR d) ctx)"

text \<open>The body of \<open>parse_jsonl_string\<close> after the opening quote.\<close>

fun parse_jsonl_string_body :: "string \<Rightarrow> string \<Rightarrow> string \<Rightarrow> (string \<times> string) result" where
  "parse_jsonl_string_body [] val ctx = Inl (jsonl_error ''unterminated JSON string'' ctx)"
| "parse_jsonl_string_body (ch # rest) val ctx =
     (if ch = quote_char then Inr (val, rest)
      else if ch = backslash_char then
        (case rest of
           [] \<Rightarrow> Inl (jsonl_error ''unterminated JSON escape'' ctx)
         | escape # rest' \<Rightarrow>
             if escape = CHR ''u'' then
               (if length rest' < 4
                then Inl (jsonl_error ''unterminated JSON unicode escape'' ctx)
                else res_bind (parse_jsonl_hex4 (take 4 rest') 0 ctx)
                  (\<lambda>code_point.
                     if code_point > 0x7f
                     then Inl (jsonl_error ''unsupported JSON unicode escape'' ctx)
                     else parse_jsonl_string_body (drop 4 rest')
                            (val @ [char_of (unat code_point)]) ctx))
             else res_bind (parse_jsonl_escape escape ctx)
               (\<lambda>c. parse_jsonl_string_body rest' (val @ [c]) ctx))
      else if (of_char ch :: nat) < 0x20
      then Inl (jsonl_error ''invalid control character in JSON string'' ctx)
      else parse_jsonl_string_body rest (val @ [ch]) ctx)"

definition parse_jsonl_string :: "string \<Rightarrow> string \<Rightarrow> (string \<times> string) result" where
  "parse_jsonl_string text ctx =
     (case skip_jsonl_space text of
        [] \<Rightarrow> Inl (jsonl_error ''expected JSON string'' ctx)
      | c # rest \<Rightarrow>
          if c \<noteq> quote_char then Inl (jsonl_error ''expected JSON string'' ctx)
          else parse_jsonl_string_body rest [] ctx)"

text \<open>
  The digits are accumulated in an \<open>unsigned long long\<close> that is compared with the maximum
  of \<open>unsigned\<close> after each digit.
\<close>

fun accumulate_unsigned :: "u64 \<Rightarrow> string \<Rightarrow> u64 option" where
  "accumulate_unsigned v [] = Some v"
| "accumulate_unsigned v (ch # chs) =
     (let v' = v * 10 + of_nat (digit_val ch) in
      if v' > 0xffffffff then None else accumulate_unsigned v' chs)"

definition parse_jsonl_unsigned :: "string \<Rightarrow> string \<Rightarrow> (u32 \<times> string) result" where
  "parse_jsonl_unsigned text ctx =
     (let start = skip_jsonl_space text;
          digits = takeWhile is_digit start;
          rest = dropWhile is_digit start in
      if digits = [] then Inl (jsonl_error ''expected JSON unsigned integer'' ctx)
      else (case accumulate_unsigned 0 digits of
              None \<Rightarrow> Inl (jsonl_error ''JSON unsigned integer overflow'' ctx)
            | Some v \<Rightarrow> Inr (ucast v, rest)))"

lemma skip_jsonl_space_length: "length (skip_jsonl_space t) \<le> length t"
  by (simp add: skip_jsonl_space_def length_dropWhile_le)

lemma skip_jsonl_space_ConsD: "skip_jsonl_space t = c # r \<Longrightarrow> length r < length t"
  using skip_jsonl_space_length [of t] by simp

lemma parse_jsonl_unsigned_decr:
  assumes "parse_jsonl_unsigned t ctx = Inr (v, r)"
  shows "length r < length t"
proof -
  let ?s = "skip_jsonl_space t"
  from assms have ne: "takeWhile is_digit ?s \<noteq> []" and r: "r = dropWhile is_digit ?s"
    by (auto simp: parse_jsonl_unsigned_def Let_def split: if_splits option.splits)
  have "length (takeWhile is_digit ?s) + length r = length ?s"
    unfolding r by (metis length_append takeWhile_dropWhile_id)
  with ne have "length r < length ?s" by (cases "takeWhile is_digit ?s") auto
  with skip_jsonl_space_length [of t] show ?thesis by simp
qed

function parse_jsonl_array_items ::
  "string \<Rightarrow> u32 list \<Rightarrow> string \<Rightarrow> (u32 list \<times> string) result" where
  "parse_jsonl_array_items text vals ctx =
     res_bind (parse_jsonl_unsigned text ctx)
       (\<lambda>(v, t).
          case skip_jsonl_space t of
            [] \<Rightarrow> Inl (jsonl_error ''unterminated JSON array'' ctx)
          | c # rest \<Rightarrow>
              if c = CHR '']'' then Inr (vals @ [v], rest)
              else if c \<noteq> CHR '','' then Inl (jsonl_error ''expected JSON array separator'' ctx)
              else parse_jsonl_array_items rest (vals @ [v]) ctx)"
  by pat_completeness auto
termination
  by (relation "measure (\<lambda>(text, vals, ctx). length text)")
    (auto dest!: parse_jsonl_unsigned_decr skip_jsonl_space_ConsD)

declare parse_jsonl_array_items.simps [simp del]

definition parse_jsonl_unsigned_array :: "string \<Rightarrow> string \<Rightarrow> (u32 list \<times> string) result" where
  "parse_jsonl_unsigned_array text ctx =
     res_bind (require_jsonl_char text CHR ''['' ctx)
       (\<lambda>t. case skip_jsonl_space t of
              [] \<Rightarrow> parse_jsonl_array_items [] [] ctx
            | c # rest \<Rightarrow>
                if c = CHR '']'' then Inr ([], rest)
                else parse_jsonl_array_items (c # rest) [] ctx)"

definition parse_jsonl_value :: "string \<Rightarrow> string \<Rightarrow> (JsonlValue \<times> string) result" where
  "parse_jsonl_value text ctx =
     (case skip_jsonl_space text of
        [] \<Rightarrow> Inl (jsonl_error ''missing JSON value'' ctx)
      | c # rest \<Rightarrow>
          if c = quote_char then
            res_bind (parse_jsonl_string (c # rest) ctx) (\<lambda>(s, t). Inr (json_string s, t))
          else if c = CHR ''['' then
            res_bind (parse_jsonl_unsigned_array (c # rest) ctx)
              (\<lambda>(vs, t). Inr (json_array vs, t))
          else Inl (jsonl_error ''unsupported JSON value'' ctx))"

lemma parse_jsonl_string_body_decr:
  "parse_jsonl_string_body t acc ctx = Inr (s, r) \<Longrightarrow> length r < length t"
proof (induction t arbitrary: acc rule: length_induct)
  case (1 t)
  then have IH: "length r < length t'"
    if "parse_jsonl_string_body t' acc' ctx = Inr (s, r)" "length t' < length t" for t' acc'
    using that by blast
  show ?case
  proof (cases t)
    case Nil
    with "1.prems" show ?thesis by simp
  next
    case (Cons ch rest)
    with "1.prems" IH show ?thesis
      by (fastforce simp: res_bind_Inr_iff split: if_splits list.splits)
  qed
qed

lemma parse_jsonl_string_decr: "parse_jsonl_string t ctx = Inr (s, r) \<Longrightarrow> length r < length t"
  by (auto simp: parse_jsonl_string_def split: list.splits if_splits
      dest!: parse_jsonl_string_body_decr skip_jsonl_space_ConsD)

lemma require_jsonl_char_decr: "require_jsonl_char t c ctx = Inr r \<Longrightarrow> length r < length t"
  by (auto simp: require_jsonl_char_def split: list.splits if_splits dest!: skip_jsonl_space_ConsD)

lemma parse_jsonl_array_items_decr:
  "parse_jsonl_array_items t vals ctx = Inr (vs, r) \<Longrightarrow> length r < length t"
proof (induction t arbitrary: vals rule: length_induct)
  case (1 t)
  then have IH: "length r < length t'"
    if "parse_jsonl_array_items t' vals' ctx = Inr (vs, r)" "length t' < length t" for t' vals'
    using that by blast
  from "1.prems" obtain v t1 where v: "parse_jsonl_unsigned t ctx = Inr (v, t1)"
    by (auto simp: parse_jsonl_array_items.simps [of t] res_bind_Inr_iff)
  from "1.prems" v obtain c rest where c: "skip_jsonl_space t1 = c # rest"
    by (auto simp: parse_jsonl_array_items.simps [of t] split: list.splits)
  have "length rest < length t"
    using parse_jsonl_unsigned_decr [OF v] skip_jsonl_space_ConsD [OF c] by simp
  with "1.prems" v c IH show ?case
    by (fastforce simp: parse_jsonl_array_items.simps [of t] split: if_splits)
qed

lemma parse_jsonl_unsigned_array_decr:
  assumes "parse_jsonl_unsigned_array t ctx = Inr (vs, r)"
  shows "length r < length t"
proof -
  from assms obtain t1 where t1: "require_jsonl_char t CHR ''['' ctx = Inr t1"
    by (auto simp: parse_jsonl_unsigned_array_def res_bind_Inr_iff)
  with assms have "length r < length (skip_jsonl_space t1) \<or> length r < length t1"
    by (auto simp: parse_jsonl_unsigned_array_def split: list.splits if_splits
        dest!: parse_jsonl_array_items_decr)
  then show ?thesis
    using require_jsonl_char_decr [OF t1] skip_jsonl_space_length [of t1] by auto
qed

lemma parse_jsonl_value_decr: "parse_jsonl_value t ctx = Inr (v, r) \<Longrightarrow> length r < length t"
  using skip_jsonl_space_length [of t]
  by (auto simp: parse_jsonl_value_def res_bind_Inr_iff split: list.splits if_splits
      dest!: parse_jsonl_string_decr parse_jsonl_unsigned_array_decr)

definition parse_jsonl_field :: "string \<Rightarrow> string \<Rightarrow> (JsonlField \<times> string) result" where
  "parse_jsonl_field text ctx =
     res_bind (parse_jsonl_string text ctx)
       (\<lambda>(k, t1). res_bind (require_jsonl_char t1 CHR '':'' ctx)
         (\<lambda>t2. res_bind (parse_jsonl_value t2 ctx)
           (\<lambda>(v, t3). Inr (\<lparr>field_key = k, field_value = v\<rparr>, t3))))"

lemma parse_jsonl_field_decr: "parse_jsonl_field t ctx = Inr (f, r) \<Longrightarrow> length r < length t"
  by (auto simp: parse_jsonl_field_def res_bind_Inr_iff
      dest!: parse_jsonl_string_decr require_jsonl_char_decr parse_jsonl_value_decr)

definition finish_jsonl_object :: "string \<Rightarrow> JsonlField list \<Rightarrow> string \<Rightarrow> JsonlField list result" where
  "finish_jsonl_object text flds ctx =
     (if skip_jsonl_space text \<noteq> [] then Inl (jsonl_error ''trailing data after JSON object'' ctx)
      else Inr flds)"

function parse_jsonl_fields ::
  "string \<Rightarrow> JsonlField list \<Rightarrow> string \<Rightarrow> JsonlField list result" where
  "parse_jsonl_fields text flds ctx =
     res_bind (parse_jsonl_field text ctx)
       (\<lambda>(f, t).
          case skip_jsonl_space t of
            [] \<Rightarrow> Inl (jsonl_error ''unterminated JSON object'' ctx)
          | c # rest \<Rightarrow>
              if c = CHR ''}'' then finish_jsonl_object rest (flds @ [f]) ctx
              else if c \<noteq> CHR '','' then Inl (jsonl_error ''expected JSON field separator'' ctx)
              else parse_jsonl_fields rest (flds @ [f]) ctx)"
  by pat_completeness auto
termination
  by (relation "measure (\<lambda>(text, flds, ctx). length text)")
    (auto dest!: parse_jsonl_field_decr skip_jsonl_space_ConsD)

declare parse_jsonl_fields.simps [simp del]

definition parse_jsonl_object :: "string \<Rightarrow> string \<Rightarrow> JsonlField list result" where
  "parse_jsonl_object text ctx =
     res_bind (require_jsonl_char text CHR ''{'' ctx)
       (\<lambda>t. case skip_jsonl_space t of
              [] \<Rightarrow> parse_jsonl_fields [] [] ctx
            | c # rest \<Rightarrow>
                if c = CHR ''}'' then finish_jsonl_object rest [] ctx
                else parse_jsonl_fields (c # rest) [] ctx)"

section \<open>Writing\<close>

definition hex_digit_char :: "nat \<Rightarrow> char" where
  "hex_digit_char d = (if d < 10 then char_of (48 + d) else char_of (97 + (d - 10)))"

definition escape_jsonl_char :: "char \<Rightarrow> string" where
  "escape_jsonl_char ch =
     (if ch = quote_char then [backslash_char, quote_char]
      else if ch = backslash_char then [backslash_char, backslash_char]
      else if ch = CHR 0x08 then [backslash_char, CHR ''b'']
      else if ch = CHR 0x0C then [backslash_char, CHR ''f'']
      else if ch = CHR 0x0A then [backslash_char, CHR ''n'']
      else if ch = CHR 0x0D then [backslash_char, CHR ''r'']
      else if ch = CHR 0x09 then [backslash_char, CHR ''t'']
      else if (of_char ch :: nat) < 0x20 then
        [backslash_char, CHR ''u'', CHR ''0'', CHR ''0'',
         hex_digit_char (of_char ch div 16), hex_digit_char (of_char ch mod 16)]
      else [ch])"

definition escape_jsonl_string :: "string \<Rightarrow> string" where
  "escape_jsonl_string text = concat (map escape_jsonl_char text)"

definition jsonl_string_value :: "string \<Rightarrow> string" where
  "jsonl_string_value v = [quote_char] @ escape_jsonl_string v @ [quote_char]"

definition jsonl_key :: "string \<Rightarrow> string" where
  "jsonl_key k = [quote_char] @ k @ [quote_char, CHR '':'']"

definition jsonl_string_field :: "string \<Rightarrow> string \<Rightarrow> string" where
  "jsonl_string_field k v = jsonl_key k @ jsonl_string_value v"

definition jsonl_bool_field :: "string \<Rightarrow> bool \<Rightarrow> string" where
  "jsonl_bool_field k b = jsonl_key k @ (if b then ''true'' else ''false'')"

fun join_unsigned :: "u32 list \<Rightarrow> string" where
  "join_unsigned [] = []"
| "join_unsigned [v] = u32_text v"
| "join_unsigned (v # w # vs) = u32_text v @ '','' @ join_unsigned (w # vs)"

definition jsonl_unsigned_array :: "u32 list \<Rightarrow> string" where
  "jsonl_unsigned_array vs = ''['' @ join_unsigned vs @ '']''"

definition jsonl_unsigned_array_field :: "string \<Rightarrow> u32 list \<Rightarrow> string" where
  "jsonl_unsigned_array_field k vs = jsonl_key k @ jsonl_unsigned_array vs"

section \<open>Looking fields up\<close>

fun find_jsonl_field_loop ::
  "JsonlField list \<Rightarrow> string \<Rightarrow> JsonlValue option \<Rightarrow> string \<Rightarrow> JsonlValue option result" where
  "find_jsonl_field_loop [] k val ctx = Inr val"
| "find_jsonl_field_loop (f # fs) k val ctx =
     (if field_key f \<noteq> k then find_jsonl_field_loop fs k val ctx
      else if val \<noteq> None then
        Inl (Runtime_error (''duplicate JSON field'' @ context_suffix ctx @ '': '' @ k))
      else find_jsonl_field_loop fs k (Some (field_value f)) ctx)"

definition find_jsonl_field :: "JsonlField list \<Rightarrow> string \<Rightarrow> string \<Rightarrow> JsonlValue option result" where
  "find_jsonl_field flds k ctx = find_jsonl_field_loop flds k None ctx"

definition require_jsonl_string :: "JsonlField list \<Rightarrow> string \<Rightarrow> string \<Rightarrow> string result" where
  "require_jsonl_string flds k ctx =
     res_bind (find_jsonl_field flds k ctx)
       (\<lambda>val. case val of
          None \<Rightarrow> Inl (Runtime_error (''missing JSON field'' @ context_suffix ctx @ '': '' @ k))
        | Some v \<Rightarrow>
            if is_array v
            then Inl (Runtime_error (''JSON field must be a string'' @ context_suffix ctx @ '': '' @ k))
            else Inr (string_value v))"

definition require_jsonl_unsigned_array ::
  "JsonlField list \<Rightarrow> string \<Rightarrow> string \<Rightarrow> u32 list result" where
  "require_jsonl_unsigned_array flds k ctx =
     res_bind (find_jsonl_field flds k ctx)
       (\<lambda>val. case val of
          None \<Rightarrow> Inl (Runtime_error (''missing JSON field'' @ context_suffix ctx @ '': '' @ k))
        | Some v \<Rightarrow>
            if \<not> is_array v
            then Inl (Runtime_error (''JSON field must be an array'' @ context_suffix ctx @ '': '' @ k))
            else Inr (array_value v))"

fun reject_unknown_jsonl_fields :: "JsonlField list \<Rightarrow> string list \<Rightarrow> string \<Rightarrow> unit result" where
  "reject_unknown_jsonl_fields [] expected ctx = Inr ()"
| "reject_unknown_jsonl_fields (f # fs) expected ctx =
     (if field_key f \<notin> set expected
      then Inl (Runtime_error (''unknown JSON field'' @ context_suffix ctx @ '': '' @ field_key f))
      else reject_unknown_jsonl_fields fs expected ctx)"

section \<open>Strings round trip\<close>

lemma hex4_of_control:
  assumes "n < 32"
  shows "parse_jsonl_hex4 [CHR ''0'', CHR ''0'', hex_digit_char (n div 16), hex_digit_char (n mod 16)]
           0 ctx = Inr (of_nat n)"
proof -
  have "n \<in> set [0..<32]" using assms by simp
  then show ?thesis
    by (simp add: upt_rec, elim disjE)
      (simp_all add: parse_jsonl_hex_digit_def hex_digit_char_def)
qed

abbreviation named_escapes :: "char set" where
  "named_escapes \<equiv> {quote_char, backslash_char, CHR 0x08, CHR 0x0C, CHR 0x0A, CHR 0x0D, CHR 0x09}"

lemma escape_control:
  assumes "c \<notin> named_escapes" "(of_char c :: nat) < 32"
  shows "escape_jsonl_char c = [backslash_char, CHR ''u'', CHR ''0'', CHR ''0'',
      hex_digit_char (of_char c div 16), hex_digit_char (of_char c mod 16)]"
  using assms by (simp add: escape_jsonl_char_def)

lemma escape_self:
  "c \<notin> named_escapes \<Longrightarrow> \<not> (of_char c :: nat) < 32 \<Longrightarrow> escape_jsonl_char c = [c]"
  by (simp add: escape_jsonl_char_def)

lemma parse_jsonl_string_body_escape:
  "parse_jsonl_string_body (escape_jsonl_char c @ t) acc ctx =
   parse_jsonl_string_body t (acc @ [c]) ctx"
proof -
  consider (named) "c \<in> named_escapes"
    | (control) "c \<notin> named_escapes" "(of_char c :: nat) < 32"
    | (self) "c \<notin> named_escapes" "\<not> (of_char c :: nat) < 32" by blast
  then show ?thesis
  proof cases
    case named
    then show ?thesis
      by (elim insertE emptyE) (simp_all add: escape_jsonl_char_def parse_jsonl_escape_def)
  next
    case control
    define n :: nat where "n = of_char c"
    have n: "n < 32" and c: "char_of n = c" using control by (simp_all add: n_def)
    have "\<not> (of_nat n :: u32) > 0x7f" "unat (of_nat n :: u32) = n"
      using n by (simp_all add: word_less_nat_alt unat_of_nat)
    then show ?thesis
      unfolding escape_control [OF control]
      using hex4_of_control [OF n, of ctx] c by (simp add: n_def [symmetric])
  next
    case self
    then show ?thesis by (simp add: escape_self)
  qed
qed

lemma parse_jsonl_string_body_escape_string:
  "parse_jsonl_string_body (escape_jsonl_string s @ quote_char # rest) acc ctx = Inr (acc @ s, rest)"
proof (induction s arbitrary: acc)
  case Nil
  show ?case by (simp add: escape_jsonl_string_def)
next
  case (Cons c s)
  have "escape_jsonl_string (c # s) = escape_jsonl_char c @ escape_jsonl_string s"
    by (simp add: escape_jsonl_string_def)
  with Cons show ?case by (simp add: parse_jsonl_string_body_escape)
qed

lemma parse_jsonl_string_roundtrip:
  "parse_jsonl_string (jsonl_string_value s @ rest) ctx = Inr (s, rest)"
  using parse_jsonl_string_body_escape_string [of s rest "[]" ctx]
  by (simp add: parse_jsonl_string_def jsonl_string_value_def skip_jsonl_space_def is_space_def)

text \<open>A key the writer copies verbatim is one it would not have to escape.\<close>

definition plain_text :: "string \<Rightarrow> bool" where
  "plain_text s \<longleftrightarrow> (\<forall>c \<in> set s. c \<noteq> quote_char \<and> c \<noteq> backslash_char \<and> 32 \<le> (of_char c :: nat))"

lemma escape_plain: "plain_text s \<Longrightarrow> escape_jsonl_string s = s"
proof (induction s)
  case Nil
  show ?case by (simp add: escape_jsonl_string_def)
next
  case (Cons c s)
  from Cons.prems have c: "c \<noteq> quote_char" "c \<noteq> backslash_char" "32 \<le> (of_char c :: nat)"
    and s: "plain_text s" by (simp_all add: plain_text_def)
  from c have "c \<notin> named_escapes" by auto
  with c have "escape_jsonl_char c = [c]" by (simp add: escape_self)
  with Cons.IH [OF s] show ?case by (simp add: escape_jsonl_string_def)
qed

lemma jsonl_key_value: "plain_text k \<Longrightarrow> jsonl_key k = jsonl_string_value k @ '':''"
  by (simp add: jsonl_key_def jsonl_string_value_def escape_plain)

section \<open>Unsigned integers and port arrays round trip\<close>

lemma foldl_dec_ge: "v \<le> foldl (\<lambda>a c. a * 10 + digit_val c) (v :: nat) cs"
proof (induction cs arbitrary: v)
  case (Cons c cs)
  have "v \<le> v * 10 + digit_val c" by simp
  also have "\<dots> \<le> foldl (\<lambda>a c. a * 10 + digit_val c) (v * 10 + digit_val c) cs"
    by (rule Cons.IH)
  finally show ?case by simp
qed simp

lemma accumulate_unsigned_exact:
  assumes "\<forall>c \<in> set cs. is_digit c" "n < 2 ^ 32"
  shows "accumulate_unsigned (of_nat n) cs =
    (let m = foldl (\<lambda>a c. a * 10 + digit_val c) n cs in
     if m < 2 ^ 32 then Some (of_nat m) else None)"
  using assms
proof (induction cs arbitrary: n)
  case Nil
  then show ?case by simp
next
  case (Cons c cs)
  define m where "m = n * 10 + digit_val c"
  have "digit_val c < 10" using Cons.prems digit_val_less by simp
  then have m64: "m < 2 ^ 64" using Cons.prems by (simp add: m_def)
  have step: "(of_nat n :: u64) * 10 + of_nat (digit_val c) = of_nat m" by (simp add: m_def)
  have cmp: "(of_nat m :: u64) > 0xffffffff \<longleftrightarrow> \<not> m < 2 ^ 32"
    using m64 by (auto simp: word_less_nat_alt unat_of_nat)
  have ge: "m \<le> foldl (\<lambda>a c. a * 10 + digit_val c) m cs" by (rule foldl_dec_ge)
  show ?case
  proof (cases "m < 2 ^ 32")
    case True
    have "accumulate_unsigned (of_nat n) (c # cs) = accumulate_unsigned (of_nat m) cs"
      using True cmp by (simp only: accumulate_unsigned.simps Let_def step) auto
    with True Cons.IH [of m] Cons.prems show ?thesis by (simp add: m_def)
  next
    case False
    have "accumulate_unsigned (of_nat n) (c # cs) = None"
      using False cmp by (simp only: accumulate_unsigned.simps Let_def step) auto
    with False ge show ?thesis by (simp add: m_def)
  qed
qed

lemma accumulate_unsigned_dec_value:
  "\<forall>c \<in> set cs. is_digit c \<Longrightarrow>
   accumulate_unsigned 0 cs = (if dec_value cs < 2 ^ 32 then Some (of_nat (dec_value cs)) else None)"
  using accumulate_unsigned_exact [of cs 0] by (simp add: dec_value_def Let_def)

lemma ucast_of_nat_u32: "n < 2 ^ 32 \<Longrightarrow> (ucast (of_nat n :: u64) :: u32) = of_nat n"
  by (rule word_unat_eq_iff [THEN iffD2]) (simp add: unsigned_ucast_eq take_bit_eq_mod unat_of_nat)

text \<open>What stops a run of digits: the end of the text or a character that is no digit.\<close>

definition digit_stop :: "string \<Rightarrow> bool" where
  "digit_stop rest \<longleftrightarrow> (case rest of [] \<Rightarrow> True | c # _ \<Rightarrow> \<not> is_digit c)"

lemma takeWhile_digits:
  assumes "\<forall>c \<in> set cs. is_digit c" "digit_stop rest"
  shows "takeWhile is_digit (cs @ rest) = cs" "dropWhile is_digit (cs @ rest) = rest"
  using assms by (induction cs) (auto simp: digit_stop_def split: list.splits)

lemma parse_jsonl_unsigned_digits:
  assumes "cs \<noteq> []" "\<forall>c \<in> set cs. is_digit c" "digit_stop rest"
  shows "parse_jsonl_unsigned (cs @ rest) ctx =
    (if dec_value cs < 2 ^ 32 then Inr (of_nat (dec_value cs), rest)
     else Inl (jsonl_error ''JSON unsigned integer overflow'' ctx))"
proof -
  have "skip_jsonl_space (cs @ rest) = cs @ rest"
    using assms(1,2) by (cases cs) (auto simp: skip_jsonl_space_def is_digit_not_special)
  then show ?thesis
    using assms takeWhile_digits [OF assms(2,3)] accumulate_unsigned_dec_value [OF assms(2)]
    by (simp add: parse_jsonl_unsigned_def ucast_of_nat_u32)
qed

lemma parse_jsonl_unsigned_roundtrip:
  "digit_stop rest \<Longrightarrow> parse_jsonl_unsigned (u32_text v @ rest) ctx = Inr (v, rest)"
proof -
  assume "digit_stop rest"
  moreover have "unat v < 2 ^ 32" using unsigned_less [of v] by simp
  ultimately show ?thesis
    using parse_jsonl_unsigned_digits [of "nat_text (unat v)" rest ctx]
    by (auto simp: u32_text_def dest: nat_text_digits)
qed

lemma parse_jsonl_array_items_roundtrip:
  "vs \<noteq> [] \<Longrightarrow>
   parse_jsonl_array_items (join_unsigned vs @ CHR '']'' # rest) acc ctx = Inr (acc @ vs, rest)"
proof (induction vs arbitrary: acc rule: join_unsigned.induct)
  case 1
  then show ?case by simp
next
  case (2 v)
  have "digit_stop (CHR '']'' # rest)" by (simp add: digit_stop_def is_digit_def)
  from parse_jsonl_unsigned_roundtrip [OF this] show ?case
    by (subst parse_jsonl_array_items.simps) (simp add: skip_jsonl_space_def is_space_def)
next
  case (3 v w vs)
  let ?more = "join_unsigned (w # vs) @ CHR '']'' # rest"
  have "digit_stop (CHR '','' # ?more)" by (simp add: digit_stop_def is_digit_def)
  from parse_jsonl_unsigned_roundtrip [OF this] 3 show ?case
    by (subst parse_jsonl_array_items.simps) (simp add: skip_jsonl_space_def is_space_def)
qed

lemma parse_jsonl_unsigned_array_roundtrip:
  "parse_jsonl_unsigned_array (jsonl_unsigned_array vs @ rest) ctx = Inr (vs, rest)"
proof (cases vs)
  case Nil
  then show ?thesis
    by (simp add: parse_jsonl_unsigned_array_def jsonl_unsigned_array_def require_jsonl_char_def
        skip_jsonl_space_def is_space_def)
next
  case (Cons v ws)
  have "\<exists>c cs. join_unsigned vs = c # cs \<and> is_digit c"
    using Cons nat_text_digits [of _ "unat v"] nat_text_nonempty [of "unat v"]
    by (cases ws; cases "nat_text (unat v)") (auto simp: u32_text_def)
  then obtain c cs where j: "join_unsigned vs = c # cs" and "is_digit c" by blast
  then have "\<not> is_space c" "c \<noteq> CHR '']''" by (simp_all add: is_digit_not_special)
  with j show ?thesis
    using parse_jsonl_array_items_roundtrip [of vs rest "[]" ctx] Cons
    by (simp add: parse_jsonl_unsigned_array_def jsonl_unsigned_array_def require_jsonl_char_def
        skip_jsonl_space_def is_space_def)
qed

section \<open>Objects round trip\<close>

text \<open>
  The objects the code writes are concatenations of fields; \<open>render_object\<close> is that
  concatenation for an arbitrary list of string and array fields.
\<close>

definition render_field :: "JsonlField \<Rightarrow> string" where
  "render_field f =
     (if is_array (field_value f)
      then jsonl_unsigned_array_field (field_key f) (array_value (field_value f))
      else jsonl_string_field (field_key f) (string_value (field_value f)))"

fun render_fields :: "JsonlField list \<Rightarrow> string" where
  "render_fields [] = []"
| "render_fields [f] = render_field f"
| "render_fields (f # g # fs) = render_field f @ '','' @ render_fields (g # fs)"

definition render_object :: "JsonlField list \<Rightarrow> string" where
  "render_object fs = ''{'' @ render_fields fs @ ''}''"

definition string_field :: "string \<Rightarrow> string \<Rightarrow> JsonlField" where
  "string_field k s = \<lparr>field_key = k, field_value = json_string s\<rparr>"

definition array_field :: "string \<Rightarrow> u32 list \<Rightarrow> JsonlField" where
  "array_field k vs = \<lparr>field_key = k, field_value = json_array vs\<rparr>"

text \<open>A field in the form the reader produces, under a key that needs no escape.\<close>

definition wf_field :: "JsonlField \<Rightarrow> bool" where
  "wf_field f \<longleftrightarrow> plain_text (field_key f) \<and>
     (if is_array (field_value f) then string_value (field_value f) = []
      else array_value (field_value f) = [])"

lemma wf_field_intros [simp]:
  "wf_field (string_field k s) \<longleftrightarrow> plain_text k"
  "wf_field (array_field k vs) \<longleftrightarrow> plain_text k"
  by (simp_all add: wf_field_def string_field_def array_field_def json_string_def json_array_def)

lemma render_field_simps [simp]:
  "render_field (string_field k s) = jsonl_string_field k s"
  "render_field (array_field k vs) = jsonl_unsigned_array_field k vs"
  by (simp_all add: render_field_def string_field_def array_field_def json_string_def json_array_def)

lemma parse_jsonl_value_string:
  "parse_jsonl_value (jsonl_string_value s @ rest) ctx = Inr (json_string s, rest)"
  using parse_jsonl_string_roundtrip [of s rest ctx]
  by (simp add: parse_jsonl_value_def jsonl_string_value_def skip_jsonl_space_def is_space_def)

lemma parse_jsonl_value_array:
  "parse_jsonl_value (jsonl_unsigned_array vs @ rest) ctx = Inr (json_array vs, rest)"
  using parse_jsonl_unsigned_array_roundtrip [of vs rest ctx]
  by (simp add: parse_jsonl_value_def jsonl_unsigned_array_def skip_jsonl_space_def is_space_def)

lemma parse_jsonl_key:
  "plain_text k \<Longrightarrow>
   parse_jsonl_field (jsonl_key k @ t) ctx =
   res_bind (parse_jsonl_value t ctx) (\<lambda>(v, r). Inr (\<lparr>field_key = k, field_value = v\<rparr>, r))"
  using parse_jsonl_string_roundtrip [of k "'':'' @ t" ctx]
  by (simp add: parse_jsonl_field_def jsonl_key_value require_jsonl_char_def
      skip_jsonl_space_def is_space_def)

lemma parse_jsonl_field_roundtrip:
  assumes "wf_field f"
  shows "parse_jsonl_field (render_field f @ rest) ctx = Inr (f, rest)"
proof (cases "is_array (field_value f)")
  case True
  with assms have "json_array (array_value (field_value f)) = field_value f"
    by (simp add: wf_field_def json_array_def)
  then show ?thesis
    using assms True
    by (simp add: render_field_def jsonl_unsigned_array_field_def wf_field_def parse_jsonl_key
        parse_jsonl_value_array)
next
  case False
  with assms have "json_string (string_value (field_value f)) = field_value f"
    by (simp add: wf_field_def json_string_def)
  then show ?thesis
    using assms False
    by (simp add: render_field_def jsonl_string_field_def wf_field_def parse_jsonl_key
        parse_jsonl_value_string)
qed

lemma parse_jsonl_fields_roundtrip:
  "fs \<noteq> [] \<Longrightarrow> \<forall>f \<in> set fs. wf_field f \<Longrightarrow>
   parse_jsonl_fields (render_fields fs @ CHR ''}'' # rest) acc ctx =
   finish_jsonl_object rest (acc @ fs) ctx"
proof (induction fs arbitrary: acc rule: render_fields.induct)
  case 1
  then show ?case by simp
next
  case (2 f)
  then show ?case
    by (subst parse_jsonl_fields.simps)
      (simp add: parse_jsonl_field_roundtrip skip_jsonl_space_def is_space_def)
next
  case (3 f g fs)
  then show ?case
    by (subst parse_jsonl_fields.simps)
      (simp add: parse_jsonl_field_roundtrip skip_jsonl_space_def is_space_def)
qed

lemma render_fields_head:
  "fs \<noteq> [] \<Longrightarrow> \<exists>t. render_fields fs = quote_char # t"
  by (cases fs rule: render_fields.cases)
    (auto simp: render_field_def jsonl_string_field_def jsonl_unsigned_array_field_def jsonl_key_def)

lemma parse_render_object:
  assumes "\<forall>f \<in> set fs. wf_field f" "\<forall>c \<in> set ws. is_space c"
  shows "parse_jsonl_object (render_object fs @ ws) ctx = Inr fs"
proof -
  have ws: "skip_jsonl_space ws = []"
    using assms(2) by (simp add: skip_jsonl_space_def)
  show ?thesis
  proof (cases "fs = []")
    case True
    with ws show ?thesis
      by (simp add: parse_jsonl_object_def render_object_def require_jsonl_char_def
          finish_jsonl_object_def skip_jsonl_space_def is_space_def)
  next
    case False
    then obtain t where "render_fields fs = quote_char # t" using render_fields_head by blast
    with parse_jsonl_fields_roundtrip [OF False assms(1), of ws "[]" ctx] ws show ?thesis
      by (simp add: parse_jsonl_object_def render_object_def require_jsonl_char_def
          finish_jsonl_object_def skip_jsonl_space_def is_space_def)
  qed
qed

section \<open>Field lookup\<close>

definition field_matches :: "JsonlField list \<Rightarrow> string \<Rightarrow> JsonlValue list" where
  "field_matches fs k = map field_value (filter (\<lambda>f. field_key f = k) fs)"

lemma field_matches_simps [simp]:
  "field_matches [] k = []"
  "field_matches (f # fs) k = (if field_key f = k then [field_value f] else []) @ field_matches fs k"
  by (simp_all add: field_matches_def)

lemma find_jsonl_field_loop_matches:
  "find_jsonl_field_loop fs k val ctx =
   (case (val, field_matches fs k) of
      (v, []) \<Rightarrow> Inr v
    | (None, [w]) \<Rightarrow> Inr (Some w)
    | _ \<Rightarrow> Inl (Runtime_error (''duplicate JSON field'' @ context_suffix ctx @ '': '' @ k)))"
  by (induction fs k val ctx rule: find_jsonl_field_loop.induct)
    (auto split: list.splits option.splits)

lemma find_jsonl_field_matches:
  "find_jsonl_field fs k ctx =
   (case field_matches fs k of
      [] \<Rightarrow> Inr None
    | [w] \<Rightarrow> Inr (Some w)
    | _ \<Rightarrow> Inl (Runtime_error (''duplicate JSON field'' @ context_suffix ctx @ '': '' @ k)))"
  by (simp add: find_jsonl_field_def find_jsonl_field_loop_matches split: list.splits)

lemma reject_unknown_ok:
  "reject_unknown_jsonl_fields fs expected ctx = Inr () \<longleftrightarrow> field_key ` set fs \<subseteq> set expected"
  by (induction fs) auto

lemma require_string_single:
  "field_matches fs k = [json_string s] \<Longrightarrow> require_jsonl_string fs k ctx = Inr s"
  by (simp add: require_jsonl_string_def find_jsonl_field_matches json_string_def)

lemma require_array_single:
  "field_matches fs k = [json_array vs] \<Longrightarrow> require_jsonl_unsigned_array fs k ctx = Inr vs"
  by (simp add: require_jsonl_unsigned_array_def find_jsonl_field_matches json_array_def)

lemma field_of_simps [simp]:
  "field_key (string_field k s) = k" "field_value (string_field k s) = json_string s"
  "field_key (array_field k vs) = k" "field_value (array_field k vs) = json_array vs"
  by (simp_all add: string_field_def array_field_def)

section \<open>Properties\<close>

text \<open>
  Reading inverts writing: an object made of string and port-array fields whose keys need
  no escape, followed by any white space, is parsed back to exactly its fields, in order. The
  string values are arbitrary byte strings, control characters and quotes included.
\<close>

theorem jsonl_object_roundtrip:
  assumes "\<forall>f \<in> set fs. wf_field f" "\<forall>c \<in> set ws. is_space c"
  shows "parse_jsonl_object (render_object fs @ ws) ctx = Inr fs"
  using assms by (rule parse_render_object)

theorem jsonl_object_roundtrip_witness:
  "parse_jsonl_object (render_object [string_field ''name'' [CHR 0x01, CHR 0x22, CHR 0x0A],
     array_field ''ports'' [0, 4294967295]] @ [CHR 0x20]) [] =
   Inr [string_field ''name'' [CHR 0x01, CHR 0x22, CHR 0x0A], array_field ''ports'' [0, 4294967295]]"
  by (rule jsonl_object_roundtrip) (simp_all add: plain_text_def is_space_def)

text \<open>
  The unsigned reader is exact: a non-empty run of decimal digits is read as the number it
  denotes when that number fits in 32 bits, and is reported as an overflow otherwise; the
  64-bit accumulator of the loop never wraps.
\<close>

theorem jsonl_unsigned_exact:
  assumes "cs \<noteq> []" "\<forall>c \<in> set cs. is_digit c" "digit_stop rest"
  shows "parse_jsonl_unsigned (cs @ rest) ctx =
    (if dec_value cs < 2 ^ 32 then Inr (of_nat (dec_value cs), rest)
     else Inl (jsonl_error ''JSON unsigned integer overflow'' ctx))"
  using assms by (rule parse_jsonl_unsigned_digits)

theorem jsonl_unsigned_exact_witness:
  "parse_jsonl_unsigned (''4294967296'' @ '',1'') [] =
   Inl (jsonl_error ''JSON unsigned integer overflow'' [])"
  using jsonl_unsigned_exact [of "''4294967296''" "'',1''" "[]"]
  by (simp add: is_digit_def digit_stop_def dec_value_def digit_val_def)

text \<open>
  Field lookup: a key that does not occur gives no value, a key that occurs once gives its
  value, and a key that occurs twice or more is an error, whatever stands between the
  occurrences.
\<close>

theorem jsonl_find_field:
  "find_jsonl_field fs k ctx =
   (case field_matches fs k of
      [] \<Rightarrow> Inr None
    | [w] \<Rightarrow> Inr (Some w)
    | _ \<Rightarrow> Inl (Runtime_error (''duplicate JSON field'' @ context_suffix ctx @ '': '' @ k)))"
  by (rule find_jsonl_field_matches)

end
