(* ===== verification/VdsText.thy ===== *)
theory VdsText
  imports VdsPrelude
begin

text \<open>
  The text helpers of \<open>src/vds_common.cc\<close>: the decimal test and the hexadecimal dumps used
  in log and trace lines. The lemmas give the exact length of a dump, that the digits of a
  byte determine it, and that a dump without separator can be read back.
\<close>

definition kHexDigits :: string where
  "kHexDigits = ''0123456789abcdef''"

definition append_byte_hex_digits :: "string \<Rightarrow> u8 \<Rightarrow> string" where
  "append_byte_hex_digits text v =
     text @ [kHexDigits ! unat (drop_bit 4 v AND 0x0f), kHexDigits ! unat (v AND 0x0f)]"

definition is_decimal_number :: "string \<Rightarrow> bool" where
  "is_decimal_number text \<longleftrightarrow> text \<noteq> [] \<and> list_all is_digit text"

definition hex_u8 :: "u8 \<Rightarrow> string" where
  "hex_u8 v = append_byte_hex_digits ''0x'' v"

definition hex_u16 :: "u16 \<Rightarrow> string" where
  "hex_u16 v =
     (((''0x0000''
        [2 := kHexDigits ! unat (drop_bit 12 v AND 0x0f)])
        [3 := kHexDigits ! unat (drop_bit 8 v AND 0x0f)])
        [4 := kHexDigits ! unat (drop_bit 4 v AND 0x0f)])
        [5 := kHexDigits ! unat (v AND 0x0f)]"

fun hex_bytes_loop :: "nat \<Rightarrow> bytes \<Rightarrow> char \<Rightarrow> string \<Rightarrow> string" where
  "hex_bytes_loop index [] separator text = text"
| "hex_bytes_loop index (b # bs) separator text =
     (let text' = (if index > 0 \<and> separator \<noteq> CHR 0x00 then text @ [separator] else text) in
      hex_bytes_loop (Suc index) bs separator (append_byte_hex_digits text' b))"

definition hex_bytes :: "bytes \<Rightarrow> nat \<Rightarrow> char \<Rightarrow> bool \<Rightarrow> string" where
  "hex_bytes bs max_bytes separator append_ellipsis =
     (let count = min (length bs) max_bytes;
          text = hex_bytes_loop 0 (take count bs) separator [] in
      if append_ellipsis \<and> length bs > max_bytes then text @ '' ...'' else text)"

section \<open>Reading a dump back\<close>

definition hex_val :: "char \<Rightarrow> nat" where
  "hex_val c = (let n = of_char c in if n < 58 then n - 48 else n - 87)"

fun hex_pairs :: "string \<Rightarrow> bytes" where
  "hex_pairs (h # l # rest) = of_nat (16 * hex_val h + hex_val l) # hex_pairs rest"
| "hex_pairs _ = []"

lemma unat_and_nibble: "unat ((v :: u8) AND 0x0f) = unat v mod 16"
proof -
  have "v AND 0x0f = take_bit 4 v" by (simp add: take_bit_eq_mask mask_eq_exp_minus_1)
  then show ?thesis by (simp add: take_bit_eq_mod unat_mod_distrib)
qed

lemma unat_drop_nibble: "unat (drop_bit 4 (v :: u8)) = unat v div 16"
  by (simp add: drop_bit_eq_div unat_div_distrib)

lemma kHexDigits_val: "n < 16 \<Longrightarrow> hex_val (kHexDigits ! n) = n"
proof -
  assume "n < 16"
  then have "n \<in> set [0..<16]" by simp
  then show ?thesis
    by (simp add: upt_rec, elim disjE) (simp_all add: kHexDigits_def hex_val_def)
qed

lemma hex_pairs_byte:
  "hex_pairs (kHexDigits ! unat (drop_bit 4 v AND 0x0f) # kHexDigits ! unat (v AND 0x0f) # t) =
   v # hex_pairs t"
proof -
  have "unat v < 256" using unsigned_less [of v] by simp
  then have "unat v div 16 mod 16 = unat v div 16" by simp
  then have "16 * (unat v div 16 mod 16) + unat v mod 16 = unat v" by simp
  moreover have "hex_val (kHexDigits ! unat (v AND 0x0f)) = unat v mod 16"
    "hex_val (kHexDigits ! unat (drop_bit 4 v AND 0x0f)) = unat v div 16 mod 16"
    by (simp_all only: unat_and_nibble unat_drop_nibble) (simp_all add: kHexDigits_val)
  ultimately show ?thesis by (simp del: of_nat_add of_nat_mult)
qed

lemma hex_bytes_loop_append:
  "hex_bytes_loop i bs sep (pre @ acc) = pre @ hex_bytes_loop i bs sep acc"
  by (induction bs arbitrary: i acc) (auto simp: append_byte_hex_digits_def Let_def)

lemma hex_bytes_loop_plain:
  "hex_pairs (hex_bytes_loop i bs CHR 0x00 []) = bs"
proof (induction bs arbitrary: i)
  case (Cons b bs)
  have "hex_bytes_loop i (b # bs) CHR 0x00 [] =
        append_byte_hex_digits [] b @ hex_bytes_loop (Suc i) bs CHR 0x00 []"
    using hex_bytes_loop_append [of "Suc i" bs "CHR 0x00" "append_byte_hex_digits [] b" "[]"]
    by simp
  with Cons show ?case by (simp add: append_byte_hex_digits_def hex_pairs_byte del: hex_pairs.simps)
qed simp

lemma length_hex_bytes_loop:
  "length (hex_bytes_loop i bs sep acc) =
   length acc + 2 * length bs +
     (if sep = CHR 0x00 then 0 else if i = 0 then length bs - 1 else length bs)"
  by (induction bs arbitrary: i acc) (auto simp: append_byte_hex_digits_def Let_def)

section \<open>Properties\<close>

text \<open>
  A dump without separator and ellipsis determines the bytes it shows: reading its digit
  pairs back gives the first \<open>max_bytes\<close> bytes of the input.
\<close>

theorem hex_bytes_readable:
  "hex_pairs (hex_bytes bs max_bytes CHR 0x00 False) = take max_bytes bs"
  by (simp add: hex_bytes_def Let_def hex_bytes_loop_plain min_def)

text \<open>
  The space the dump needs is the space its caller reserves: at most three characters for
  each byte shown and four for the ellipsis.
\<close>

theorem hex_bytes_within_reserve:
  "length (hex_bytes bs max_bytes sep ell) \<le>
   3 * min (length bs) max_bytes + (if length bs > max_bytes then 4 else 0)"
  by (auto simp: hex_bytes_def Let_def length_hex_bytes_loop)

end
