(* ===== verification/Config.thy ===== *)
theory Config
  imports Jsonl VdsText
begin

text \<open>
  The controller database of \<open>src/vds_config.cc\<close> and the profile helpers of
  \<open>src/vds_profile.hh\<close>: addresses, profiles, port lists and port paths, port selection,
  the text format of the database file, and the operations on it. The file system of
  \<open>load_config_db\<close> and \<open>update_config_db\<close> appears as the outcome of its steps: what
  the locked read returned (or threw) and whether the atomic replacement of the file was
  completed, failed before the rename or failed after it. Paths of both platforms are modelled;
  the \<open>#ifdef\<close> is the argument \<open>os\<close>.
\<close>

section \<open>Data\<close>

datatype platform = Linux | Windows

datatype ControllerProfile = Unspecified | Ds5 | Dse

record ControllerConfig =
  cfg_address :: string
  cfg_profile :: ControllerProfile
  cfg_ports :: "u32 list"

record ControllerTarget =
  tgt_address :: string
  tgt_name :: string
  tgt_profile :: ControllerProfile
  tgt_online :: bool

record ConfigDb =
  controllers :: "ControllerConfig list"

definition kMinPortCount :: u32 where "kMinPortCount = 1"
definition kMaxPortCount :: u32 where "kMaxPortCount = 4"

section \<open>Addresses, profiles and ports\<close>

definition is_hex_digit :: "char \<Rightarrow> bool" where
  "is_hex_digit ch = is_xdigit ch"

definition lowercase_hex :: "char \<Rightarrow> char" where
  "lowercase_hex ch = to_lower ch"

definition address_separator :: "nat \<Rightarrow> bool" where
  "address_separator i \<longleftrightarrow> i = 2 \<or> i = 5 \<or> i = 8 \<or> i = 11 \<or> i = 14"

fun normalize_address_loop :: "nat \<Rightarrow> string \<Rightarrow> string \<Rightarrow> string option" where
  "normalize_address_loop i [] normalized = Some normalized"
| "normalize_address_loop i (ch # chs) normalized =
     (if address_separator i then
        (if ch \<noteq> CHR '':'' then None
         else normalize_address_loop (Suc i) chs (normalized @ '':''))
      else if \<not> is_hex_digit ch then None
      else normalize_address_loop (Suc i) chs (normalized @ [lowercase_hex ch]))"

definition normalize_bluetooth_address :: "string \<Rightarrow> string result" where
  "normalize_bluetooth_address address =
     (let bad = Inl (Runtime_error (''invalid Bluetooth address: '' @ address)) in
      if length address \<noteq> 17 then bad
      else case normalize_address_loop 0 address [] of None \<Rightarrow> bad | Some n \<Rightarrow> Inr n)"

definition parse_controller_profile :: "string \<Rightarrow> ControllerProfile result" where
  "parse_controller_profile p =
     (if p = [] then Inr Unspecified
      else if p = ''ds5'' then Inr Ds5
      else if p = ''dse'' then Inr Dse
      else Inl (Runtime_error (''unknown profile: '' @ p)))"

fun controller_profile_name :: "ControllerProfile \<Rightarrow> string" where
  "controller_profile_name Unspecified = []"
| "controller_profile_name Ds5 = ''ds5''"
| "controller_profile_name Dse = ''dse''"

function split_commas :: "string \<Rightarrow> string list result" where
  "split_commas text =
     (let part = takeWhile (\<lambda>c. c \<noteq> CHR '','') text in
      if part = [] then Inl (Runtime_error ''empty port in ports list'')
      else case dropWhile (\<lambda>c. c \<noteq> CHR '','') text of
             [] \<Rightarrow> Inr [part]
           | comma # rest \<Rightarrow> res_bind (split_commas rest) (\<lambda>parts. Inr (part # parts)))"
  by pat_completeness auto
termination
proof (relation "measure length")
  fix t part comma rest
  assume d: "dropWhile (\<lambda>c. c \<noteq> CHR '','') t = comma # rest"
  have "length (dropWhile (\<lambda>c. c \<noteq> CHR '','') t) \<le> length t" by (rule length_dropWhile_le)
  with d show "(rest, t) \<in> measure length" by simp
qed simp

declare split_commas.simps [simp del]

fun adjacent_find :: "u32 list \<Rightarrow> u32 option" where
  "adjacent_find (p # q # ps) = (if p = q then Some p else adjacent_find (q # ps))"
| "adjacent_find _ = None"

definition port_range_error :: "u32 \<Rightarrow> exn" where
  "port_range_error port =
     Runtime_error (''port must be in range 0..'' @ u32_text (kMaxPortCount - 1) @ '': '' @
       u32_text port)"

text \<open>The source sorts its argument in place; the sorted list is the result here.\<close>

definition validate_ports :: "u32 list \<Rightarrow> u32 list result" where
  "validate_ports ports =
     (let sorted_ports = sort ports in
      case adjacent_find sorted_ports of
        Some p \<Rightarrow> Inl (Runtime_error (''duplicate port: '' @ u32_text p))
      | None \<Rightarrow>
          (case find (\<lambda>p. p \<ge> kMaxPortCount) sorted_ports of
             Some p \<Rightarrow> Inl (port_range_error p)
           | None \<Rightarrow> Inr sorted_ports))"

definition parse_port_number :: "string \<Rightarrow> u32 result" where
  "parse_port_number part =
     (if \<not> is_decimal_number part then Inl (Runtime_error (''port must be a number: '' @ part))
      else case accumulate_unsigned 0 part of
             None \<Rightarrow> Inl (Runtime_error (''port number overflow: '' @ part))
           | Some v \<Rightarrow> Inr (ucast v))"

definition parse_ports :: "string \<Rightarrow> u32 list result" where
  "parse_ports text =
     (if text = [] then Inr []
      else res_bind (split_commas text)
        (\<lambda>parts. res_bind (res_mapM parse_port_number parts) validate_ports))"

definition format_ports :: "u32 list \<Rightarrow> string" where
  "format_ports ports = join_unsigned ports"

definition port_prefixes :: "platform \<Rightarrow> string list" where
  "port_prefixes os =
     (case os of
        Linux \<Rightarrow> [''/dev/vds'']
      | Windows \<Rightarrow> [[CHR 0x5C, CHR 0x5C, CHR ''.'', CHR 0x5C] @ ''vds'',
                    [CHR 0x5C, CHR 0x5C, CHR ''?'', CHR 0x5C] @ ''vds'',
                    ''vds''])"

definition port_path_for_index :: "platform \<Rightarrow> u32 \<Rightarrow> string result" where
  "port_path_for_index os port =
     (if port \<ge> kMaxPortCount then Inl (port_range_error port)
      else Inr (hd (port_prefixes os) @ u32_text port))"

fun accumulate_port_index :: "u32 \<Rightarrow> string \<Rightarrow> u32 option" where
  "accumulate_port_index v [] = Some v"
| "accumulate_port_index v (ch # chs) =
     (let v' = v * 10 + of_nat (digit_val ch) in
      if v' \<ge> kMaxPortCount then None else accumulate_port_index v' chs)"

definition port_index_from_path :: "platform \<Rightarrow> string \<Rightarrow> u32 option" where
  "port_index_from_path os path =
     (case find (\<lambda>pre. prefix pre path) (port_prefixes os) of
        None \<Rightarrow> None
      | Some pre \<Rightarrow>
          (let port_text = drop (length pre) path in
           if \<not> is_decimal_number port_text then None else accumulate_port_index 0 port_text))"

section \<open>Port selection\<close>

definition controller_config_allows_port :: "ControllerConfig \<Rightarrow> u32 \<Rightarrow> bool" where
  "controller_config_allows_port config port \<longleftrightarrow>
     cfg_ports config = [] \<or> port \<in> set (cfg_ports config)"

definition controller_config_allows_path :: "platform \<Rightarrow> ControllerConfig \<Rightarrow> string \<Rightarrow> bool" where
  "controller_config_allows_path os config path =
     (case port_index_from_path os path of
        None \<Rightarrow> False
      | Some port \<Rightarrow> controller_config_allows_port config port)"

definition controller_config_port_targets :: "ControllerConfig \<Rightarrow> u32 list" where
  "controller_config_port_targets config =
     (if cfg_ports config \<noteq> [] then cfg_ports config
      else map of_nat [0..<unat kMaxPortCount])"

fun select_port_loop :: "u32 list \<Rightarrow> u32 list \<Rightarrow> u32 list \<Rightarrow> u32 option" where
  "select_port_loop [] candidates occupied = None"
| "select_port_loop (port # ports) candidates occupied =
     (if port \<notin> set candidates then select_port_loop ports candidates occupied
      else if port \<in> set occupied then select_port_loop ports candidates occupied
      else Some port)"

definition select_controller_config_port ::
  "ControllerConfig \<Rightarrow> u32 list \<Rightarrow> u32 list \<Rightarrow> u32 option" where
  "select_controller_config_port config candidates occupied =
     select_port_loop (controller_config_port_targets config) candidates occupied"

definition controller_config_has_candidate_port :: "ControllerConfig \<Rightarrow> u32 list \<Rightarrow> bool" where
  "controller_config_has_candidate_port config candidates \<longleftrightarrow>
     select_controller_config_port config candidates [] \<noteq> None"

section \<open>The database\<close>

definition find_controller_config_by_address ::
  "ConfigDb \<Rightarrow> string \<Rightarrow> ControllerConfig option result" where
  "find_controller_config_by_address db address =
     res_bind (normalize_bluetooth_address address)
       (\<lambda>normalized. Inr (find (\<lambda>c. cfg_address c = normalized) (controllers db)))"

fun upsert_loop :: "ControllerConfig list \<Rightarrow> ControllerConfig \<Rightarrow> ControllerConfig list" where
  "upsert_loop [] config = [config]"
| "upsert_loop (c # cs) config =
     (if cfg_address c = cfg_address config then config # cs else c # upsert_loop cs config)"

definition upsert_controller_config :: "ConfigDb \<Rightarrow> ControllerConfig \<Rightarrow> ConfigDb result" where
  "upsert_controller_config db config =
     res_bind (normalize_bluetooth_address (cfg_address config))
       (\<lambda>address. res_bind (validate_ports (cfg_ports config))
         (\<lambda>ports. Inr (db\<lparr>controllers :=
            upsert_loop (controllers db) (config\<lparr>cfg_address := address, cfg_ports := ports\<rparr>)\<rparr>)))"

definition remove_controller_config :: "ConfigDb \<Rightarrow> string \<Rightarrow> (bool \<times> ConfigDb) result" where
  "remove_controller_config db address =
     res_bind (normalize_bluetooth_address address)
       (\<lambda>normalized.
          let kept = filter (\<lambda>c. cfg_address c \<noteq> normalized) (controllers db) in
          Inr (length kept \<noteq> length (controllers db), db\<lparr>controllers := kept\<rparr>))"

definition assignment_missing :: "u32 list \<Rightarrow> ControllerConfig \<Rightarrow> bool" where
  "assignment_missing available config \<longleftrightarrow>
     cfg_ports config \<noteq> [] \<and> list_all (\<lambda>port. port \<notin> set available) (cfg_ports config)"

definition validate_config_assignments :: "platform \<Rightarrow> ConfigDb \<Rightarrow> string list \<Rightarrow> unit result" where
  "validate_config_assignments os db devices =
     (if controllers db = [] then Inr ()
      else if devices = [] then Inl (Runtime_error ''virtual port provider unavailable'')
      else
        (let available = sort (List.map_filter (port_index_from_path os) devices) in
         case find (assignment_missing available) (controllers db) of
           Some config \<Rightarrow>
             Inl (Runtime_error (''no allowed virtual port for '' @ cfg_address config))
         | None \<Rightarrow> Inr ()))"

section \<open>The database file\<close>

definition serialize_controller :: "ControllerConfig \<Rightarrow> string" where
  "serialize_controller c =
     ''{'' @ jsonl_string_field ''address'' (cfg_address c) @ '','' @
     jsonl_string_field ''profile'' (controller_profile_name (cfg_profile c)) @ '','' @
     jsonl_unsigned_array_field ''ports'' (cfg_ports c) @ ''}'' @ [CHR 0x0A]"

definition serialize_config_db :: "ConfigDb \<Rightarrow> string" where
  "serialize_config_db db = concat (map serialize_controller (controllers db))"

definition parse_controller_line :: "string \<Rightarrow> nat \<Rightarrow> ControllerConfig result" where
  "parse_controller_line line line_number =
     (let ctx = ''config record at line '' @ nat_text line_number in
      res_bind (parse_jsonl_object line ctx)
        (\<lambda>flds. res_bind (reject_unknown_jsonl_fields flds [''address'', ''profile'', ''ports''] ctx)
          (\<lambda>_. res_bind (require_jsonl_string flds ''address'' ctx)
            (\<lambda>a. res_bind (normalize_bluetooth_address a)
              (\<lambda>address. res_bind (require_jsonl_string flds ''profile'' ctx)
                (\<lambda>p. res_bind (parse_controller_profile p)
                  (\<lambda>pr. res_bind (require_jsonl_unsigned_array flds ''ports'' ctx)
                    (\<lambda>ps. res_bind (validate_ports ps)
                      (\<lambda>ports. Inr \<lparr>cfg_address = address, cfg_profile = pr,
                                     cfg_ports = ports\<rparr>)))))))))"

text \<open>\<open>std::getline\<close> over the whole text: a final empty segment is not a line.\<close>

function getlines :: "string \<Rightarrow> string list" where
  "getlines text =
     (if text = [] then []
      else takeWhile (\<lambda>x. x \<noteq> CHR 0x0A) text #
           getlines (drop 1 (dropWhile (\<lambda>x. x \<noteq> CHR 0x0A) text)))"
  by pat_completeness auto
termination
proof (relation "measure length")
  fix t :: string
  assume "t \<noteq> []"
  then show "(drop 1 (dropWhile (\<lambda>x. x \<noteq> CHR 0x0A) t), t) \<in> measure length"
    using length_dropWhile_le [of "\<lambda>x. x \<noteq> CHR 0x0A" t] by (cases t) auto
qed simp

declare getlines.simps [simp del]

definition strip_cr :: "string \<Rightarrow> string" where
  "strip_cr line = (if line \<noteq> [] \<and> last line = CHR 0x0D then butlast line else line)"

fun parse_config_lines :: "string list \<Rightarrow> nat \<Rightarrow> ControllerConfig list \<Rightarrow> ControllerConfig list result"
  where
  "parse_config_lines [] n cs = Inr cs"
| "parse_config_lines (l # ls) n cs =
     (let line = strip_cr l in
      if line = [] then parse_config_lines ls (Suc n) cs
      else res_bind (parse_controller_line line (Suc n))
        (\<lambda>config.
           if cfg_address config \<in> cfg_address ` set cs
           then Inl (Runtime_error (''duplicate controller address at line '' @ nat_text (Suc n)))
           else parse_config_lines ls (Suc n) (cs @ [config])))"

definition parse_config_db :: "string \<Rightarrow> ConfigDb result" where
  "parse_config_db text =
     res_bind (parse_config_lines (getlines text) 0 []) (\<lambda>cs. Inr \<lparr>controllers = cs\<rparr>)"

text \<open>
  \<open>file_view\<close>: the outcome of creating the directory, taking the lock and reading the file
  (a missing file reads as the empty text). \<open>write_outcome\<close>: the outcome of replacing it.
\<close>

type_synonym file_view = "string result"

datatype write_outcome = Written | Failed_before_rename exn | Failed_after_rename exn

definition load_config_db :: "file_view \<Rightarrow> ConfigDb result" where
  "load_config_db view = res_bind view parse_config_db"

text \<open>
  The update closure of the source may also assign captured variables; \<open>'s\<close> is what it
  assigns. The result is that assignment (if the closure returned), the value or exception of
  the call, and the text that replaced the file, if any did.
\<close>

definition update_config_db ::
  "file_view \<Rightarrow> (ConfigDb \<Rightarrow> (ConfigDb \<times> 's) result) \<Rightarrow> write_outcome \<Rightarrow>
   's option \<times> ConfigDb result \<times> string option" where
  "update_config_db view update outcome =
     (case load_config_db view of
        Inl e \<Rightarrow> (None, Inl e, None)
      | Inr db \<Rightarrow>
          (case update db of
             Inl e \<Rightarrow> (None, Inl e, None)
           | Inr (db', s) \<Rightarrow>
               (let text = serialize_config_db db' in
                case outcome of
                  Written \<Rightarrow> (Some s, Inr db', Some text)
                | Failed_before_rename e \<Rightarrow> (Some s, Inl e, None)
                | Failed_after_rename e \<Rightarrow> (Some s, Inl e, Some text))))"

section \<open>USB identities of the profiles\<close>

record DeviceId =
  vendor :: u16
  product :: u16

definition VDS_PROFILE_DS5 :: u32 where "VDS_PROFILE_DS5 = 0"
definition VDS_PROFILE_DSE :: u32 where "VDS_PROFILE_DSE = 1"
definition VDS_SONY_VENDOR_ID :: u16 where "VDS_SONY_VENDOR_ID = 0x054c"
definition VDS_DS5_PRODUCT_ID :: u16 where "VDS_DS5_PRODUCT_ID = 0x0ce6"
definition VDS_DSE_PRODUCT_ID :: u16 where "VDS_DSE_PRODUCT_ID = 0x0df2"

fun usb_profile_from_controller_profile :: "ControllerProfile \<Rightarrow> u32 result" where
  "usb_profile_from_controller_profile Ds5 = Inr VDS_PROFILE_DS5"
| "usb_profile_from_controller_profile Dse = Inr VDS_PROFILE_DSE"
| "usb_profile_from_controller_profile Unspecified =
     Inl (Runtime_error ''empty profile has no fixed USB profile'')"

definition usb_profile_name :: "u32 \<Rightarrow> string" where
  "usb_profile_name p = (if p = VDS_PROFILE_DSE then ''dse'' else ''ds5'')"

text \<open>
  \<open>text\<close> is the suffix of the line that starts at the offset; \<open>None\<close> in the nibble
  is the \<open>break\<close> of the loop.
\<close>

definition hex_nibble :: "char \<Rightarrow> u32 option" where
  "hex_nibble ch =
     (let n = of_char ch :: nat in
      if 48 \<le> n \<and> n \<le> 57 then Some (of_nat (n - 48))
      else if 97 \<le> n \<and> n \<le> 102 then Some (of_nat (10 + n - 97))
      else if 65 \<le> n \<and> n \<le> 70 then Some (of_nat (10 + n - 65))
      else None)"

fun parse_hex_loop :: "string \<Rightarrow> nat \<Rightarrow> u32 \<Rightarrow> nat \<Rightarrow> u32 \<times> nat" where
  "parse_hex_loop [] max_digits v digits = (v, digits)"
| "parse_hex_loop (ch # chs) max_digits v digits =
     (if \<not> digits < max_digits then (v, digits)
      else case hex_nibble ch of
             None \<Rightarrow> (v, digits)
           | Some nibble \<Rightarrow> parse_hex_loop chs max_digits (push_bit 4 v OR nibble) (Suc digits))"

definition parse_hex_token :: "string \<Rightarrow> nat \<Rightarrow> u32 option" where
  "parse_hex_token text max_digits =
     (let (v, digits) = parse_hex_loop text max_digits 0 0 in if digits = 0 then None else Some v)"

text \<open>The text after the first occurrence of a character (\<open>find\<close> and \<open>+ 1\<close>).\<close>

definition after_char :: "char \<Rightarrow> string \<Rightarrow> string option" where
  "after_char c text =
     (case dropWhile (\<lambda>x. x \<noteq> c) text of [] \<Rightarrow> None | _ # rest \<Rightarrow> Some rest)"

definition parse_modalias_device_id :: "string \<Rightarrow> DeviceId option" where
  "parse_modalias_device_id line =
     (case after_char CHR ''v'' line of
        None \<Rightarrow> None
      | Some at_vendor \<Rightarrow>
          (case after_char CHR ''p'' at_vendor of
             None \<Rightarrow> None
           | Some at_product \<Rightarrow>
               (let digits = (if sublist ''usb:'' line then 4 else 8) in
                case (parse_hex_token at_vendor digits, parse_hex_token at_product digits) of
                  (Some v, Some p) \<Rightarrow>
                    Some \<lparr>vendor = ucast (v AND 0xffff), product = ucast (p AND 0xffff)\<rparr>
                | _ \<Rightarrow> None)))"

definition controller_profile_from_device_id :: "DeviceId \<Rightarrow> ControllerProfile option" where
  "controller_profile_from_device_id i =
     (if vendor i \<noteq> VDS_SONY_VENDOR_ID then None
      else if product i = VDS_DS5_PRODUCT_ID then Some Ds5
      else if product i = VDS_DSE_PRODUCT_ID then Some Dse
      else None)"

definition controller_profile_from_modalias :: "string \<Rightarrow> ControllerProfile option" where
  "controller_profile_from_modalias modalias =
     (case parse_modalias_device_id modalias of
        None \<Rightarrow> None
      | Some i \<Rightarrow> controller_profile_from_device_id i)"

section \<open>Canonical addresses and port lists\<close>

lemma lowercase_hex_facts:
  assumes "is_hex_digit c"
  shows "is_hex_digit (lowercase_hex c)" "lowercase_hex (lowercase_hex c) = lowercase_hex c"
proof -
  have "of_char (char_of (of_char c + 32 :: nat)) = (of_char c + 32 :: nat)" if "is_upper c"
    using that by (simp add: is_upper_def Let_def)
  with assms show "is_hex_digit (lowercase_hex c)"
    "lowercase_hex (lowercase_hex c) = lowercase_hex c"
    by (auto simp: is_hex_digit_def lowercase_hex_def to_lower_def is_xdigit_def is_upper_def Let_def)
qed

lemma normalize_address_loop_idem:
  "normalize_address_loop i cs acc = Some r \<Longrightarrow>
   \<exists>s. r = acc @ s \<and> length s = length cs \<and>
       (\<forall>acc'. normalize_address_loop i s acc' = Some (acc' @ s))"
proof (induction i cs acc arbitrary: r rule: normalize_address_loop.induct)
  case (1 i acc)
  then show ?case by simp
next
  case (2 i ch chs acc)
  show ?case
  proof (cases "address_separator i")
    case True
    with "2.prems" have "normalize_address_loop (Suc i) chs (acc @ '':'') = Some r" and "ch = CHR '':''"
      by (auto split: if_splits)
    with "2.IH"(1) True obtain s where "r = (acc @ '':'') @ s" "length s = length chs"
      "\<forall>acc'. normalize_address_loop (Suc i) s acc' = Some (acc' @ s)" by blast
    with True show ?thesis by (intro exI [of _ "CHR '':'' # s"]) simp
  next
    case False
    with "2.prems" have h: "is_hex_digit ch"
      and "normalize_address_loop (Suc i) chs (acc @ [lowercase_hex ch]) = Some r"
      by (auto split: if_splits)
    with "2.IH"(2) False obtain s where "r = (acc @ [lowercase_hex ch]) @ s" "length s = length chs"
      "\<forall>acc'. normalize_address_loop (Suc i) s acc' = Some (acc' @ s)" by blast
    with False lowercase_hex_facts [OF h] show ?thesis
      by (intro exI [of _ "lowercase_hex ch # s"]) simp
  qed
qed

lemma normalize_idem:
  "normalize_bluetooth_address a = Inr n \<Longrightarrow> normalize_bluetooth_address n = Inr n"
proof -
  assume "normalize_bluetooth_address a = Inr n"
  then have len: "length a = 17" and "normalize_address_loop 0 a [] = Some n"
    by (auto simp: normalize_bluetooth_address_def Let_def split: if_splits option.splits)
  from normalize_address_loop_idem [OF this(2)] len
  have "length n = 17" "normalize_address_loop 0 n [] = Some n" by auto
  then show ?thesis by (simp add: normalize_bluetooth_address_def Let_def)
qed

lemma adjacent_find_sorted: "sorted ps \<Longrightarrow> adjacent_find ps = None \<longleftrightarrow> distinct ps"
proof (induction ps rule: adjacent_find.induct)
  case (1 p q ps)
  show ?case
  proof (cases "p = q")
    case False
    with "1.prems" have "p \<notin> set (q # ps)" by auto
    with False 1 show ?thesis by simp
  qed simp
qed auto

definition valid_ports :: "u32 list \<Rightarrow> bool" where
  "valid_ports ps \<longleftrightarrow> distinct ps \<and> (\<forall>p \<in> set ps. p < kMaxPortCount)"

lemma find_None_all: "find P xs = None \<longleftrightarrow> (\<forall>x \<in> set xs. \<not> P x)"
  by (auto simp: find_None_iff)

lemma validate_ports_Inr: "validate_ports ps = Inr qs \<longleftrightarrow> qs = sort ps \<and> valid_ports ps"
proof -
  have "adjacent_find (sort ps) = None \<longleftrightarrow> distinct ps"
    by (simp add: adjacent_find_sorted)
  moreover have "find (\<lambda>p. p \<ge> kMaxPortCount) (sort ps) = None \<longleftrightarrow> (\<forall>p \<in> set ps. p < kMaxPortCount)"
    by (simp add: find_None_all not_le)
  ultimately show ?thesis
    by (auto simp: validate_ports_def valid_ports_def Let_def split: option.splits)
qed

definition wf_config :: "ControllerConfig \<Rightarrow> bool" where
  "wf_config c \<longleftrightarrow> normalize_bluetooth_address (cfg_address c) = Inr (cfg_address c) \<and>
     sorted (cfg_ports c) \<and> valid_ports (cfg_ports c)"

definition wf_db :: "ConfigDb \<Rightarrow> bool" where
  "wf_db db \<longleftrightarrow> distinct (map cfg_address (controllers db)) \<and> list_all wf_config (controllers db)"

lemma wf_config_validate: "wf_config c \<Longrightarrow> validate_ports (cfg_ports c) = Inr (cfg_ports c)"
  by (simp add: wf_config_def validate_ports_Inr sort_key_id_if_sorted sorted_sort_id)

section \<open>The file format round trips\<close>

lemma profile_roundtrip [simp]: "parse_controller_profile (controller_profile_name p) = Inr p"
  by (cases p) (simp_all add: parse_controller_profile_def)

definition controller_fields :: "ControllerConfig \<Rightarrow> JsonlField list" where
  "controller_fields c =
     [string_field ''address'' (cfg_address c),
      string_field ''profile'' (controller_profile_name (cfg_profile c)),
      array_field ''ports'' (cfg_ports c)]"

lemma serialize_controller_render:
  "serialize_controller c = render_object (controller_fields c) @ [CHR 0x0A]"
  by (simp add: serialize_controller_def render_object_def controller_fields_def)

lemma controller_fields_wf: "\<forall>f \<in> set (controller_fields c). wf_field f"
  by (simp add: controller_fields_def plain_text_def)

lemma parse_controller_line_render:
  assumes "wf_config c"
  shows "parse_controller_line (render_object (controller_fields c)) n = Inr c"
proof -
  have "parse_jsonl_object (render_object (controller_fields c)) ctx = Inr (controller_fields c)" for ctx
    using parse_render_object [OF controller_fields_wf, of "[]"] by simp
  moreover have "normalize_bluetooth_address (cfg_address c) = Inr (cfg_address c)"
    using assms by (simp add: wf_config_def)
  ultimately show ?thesis
    using wf_config_validate [OF assms]
    by (simp add: parse_controller_line_def Let_def controller_fields_def
        require_string_single require_array_single)
qed

lemma escape_char_printable: "x \<in> set (escape_jsonl_char c) \<Longrightarrow> 32 \<le> (of_char x :: nat)"
proof -
  assume x: "x \<in> set (escape_jsonl_char c)"
  have hex: "32 \<le> (of_char (hex_digit_char d) :: nat)" if "d < 16" for d
    using that by (simp add: hex_digit_char_def)
  show ?thesis
  proof (cases "c \<in> named_escapes")
    case True
    with x show ?thesis by (elim insertE emptyE) (auto simp: escape_jsonl_char_def)
  next
    case False
    show ?thesis
    proof (cases "(of_char c :: nat) < 32")
      case True
      then have "of_char c div 16 < (16 :: nat)" "of_char c mod 16 < (16 :: nat)" by simp_all
      with x False True hex show ?thesis by (auto simp: escape_control)
    next
      case False': False
      with x False show ?thesis by (simp add: escape_self)
    qed
  qed
qed

lemma newline_not_printable: "32 \<le> (of_char x :: nat) \<Longrightarrow> x \<noteq> CHR 0x0A"
  by auto

lemma newline_not_in_string: "CHR 0x0A \<notin> set (jsonl_string_value s)"
  using escape_char_printable newline_not_printable
  by (force simp: jsonl_string_value_def escape_jsonl_string_def)

lemma newline_not_in_array: "CHR 0x0A \<notin> set (jsonl_unsigned_array vs)"
proof -
  have d: "\<not> is_digit CHR 0x0A" by (simp add: is_digit_def)
  have "CHR 0x0A \<notin> set (join_unsigned vs)"
    by (induction vs rule: join_unsigned.induct) (use d nat_text_digits in \<open>auto simp: u32_text_def\<close>)
  then show ?thesis by (simp add: jsonl_unsigned_array_def)
qed

lemma newline_not_in_controller: "CHR 0x0A \<notin> set (render_object (controller_fields c))"
  using newline_not_in_string newline_not_in_array
  by (simp add: render_object_def controller_fields_def jsonl_string_field_def
      jsonl_unsigned_array_field_def jsonl_key_def)

lemma getlines_line: "CHR 0x0A \<notin> set l \<Longrightarrow> getlines (l @ CHR 0x0A # rest) = l # getlines rest"
  by (subst getlines.simps) (simp add: takeWhile_append)

lemma getlines_serialize:
  "getlines (concat (map serialize_controller cs)) = map (\<lambda>c. render_object (controller_fields c)) cs"
proof (induction cs)
  case Nil
  show ?case by (simp add: getlines.simps)
next
  case (Cons c cs)
  then show ?case
    using getlines_line [OF newline_not_in_controller] by (simp add: serialize_controller_render)
qed

lemma strip_cr_render: "strip_cr (render_object fs) = render_object fs"
  by (simp add: strip_cr_def render_object_def)

lemma parse_config_lines_render:
  "distinct (map cfg_address (acc @ cs)) \<Longrightarrow> list_all wf_config cs \<Longrightarrow>
   parse_config_lines (map (\<lambda>c. render_object (controller_fields c)) cs) n acc = Inr (acc @ cs)"
proof (induction cs arbitrary: n acc)
  case (Cons c cs)
  have "render_object (controller_fields c) \<noteq> []" by (simp add: render_object_def)
  moreover have "cfg_address c \<notin> cfg_address ` set acc" using Cons.prems(1) by auto
  ultimately show ?case
    using Cons.IH [of "acc @ [c]" "Suc n"] Cons.prems
    by (simp add: strip_cr_render parse_controller_line_render)
qed simp

lemma parse_serialize_db: "wf_db db \<Longrightarrow> parse_config_db (serialize_config_db db) = Inr db"
  using parse_config_lines_render [of "[]" "controllers db" 0]
  by (simp add: parse_config_db_def serialize_config_db_def getlines_serialize wf_db_def)

lemma parse_controller_line_wf: "parse_controller_line l n = Inr c \<Longrightarrow> wf_config c"
  by (auto simp: parse_controller_line_def Let_def res_bind_Inr_iff wf_config_def validate_ports_Inr
      valid_ports_def normalize_idem)

lemma parse_config_lines_wf:
  "parse_config_lines ls n acc = Inr cs \<Longrightarrow> distinct (map cfg_address acc) \<Longrightarrow>
   list_all wf_config acc \<Longrightarrow> distinct (map cfg_address cs) \<and> list_all wf_config cs"
  by (induction ls n acc rule: parse_config_lines.induct)
    (auto simp: Let_def res_bind_Inr_iff image_iff
      split: if_splits dest: parse_controller_line_wf)

lemma parse_config_db_wf: "parse_config_db t = Inr db \<Longrightarrow> wf_db db"
  using parse_config_lines_wf [of "getlines t" 0 "[]"]
  by (auto simp: parse_config_db_def res_bind_Inr_iff wf_db_def)

section \<open>The database as a finite map\<close>

text \<open>
  What clients rely on: the database is a map from normalised addresses to normalised
  configurations. An operation that throws leaves the database as it was.
\<close>

datatype 'c db_op = Put 'c | Del string

fun run_op :: "('db \<Rightarrow> 'c \<Rightarrow> 'db result) \<Rightarrow> ('db \<Rightarrow> string \<Rightarrow> (bool \<times> 'db) result) \<Rightarrow>
  'db \<Rightarrow> 'c db_op \<Rightarrow> 'db" where
  "run_op put del db (Put c) = (case put db c of Inl e \<Rightarrow> db | Inr db' \<Rightarrow> db')"
| "run_op put del db (Del a) = (case del db a of Inl e \<Rightarrow> db | Inr (b, db') \<Rightarrow> db')"

fun spec_op :: "('c \<Rightarrow> 'c result) \<Rightarrow> ('c \<Rightarrow> string) \<Rightarrow> (string \<Rightarrow> string result) \<Rightarrow>
  (string \<rightharpoonup> 'c) \<Rightarrow> 'c db_op \<Rightarrow> (string \<rightharpoonup> 'c)" where
  "spec_op canon key norm m (Put c) = (case canon c of Inl e \<Rightarrow> m | Inr c' \<Rightarrow> m(key c' \<mapsto> c'))"
| "spec_op canon key norm m (Del a) = (case norm a of Inl e \<Rightarrow> m | Inr n \<Rightarrow> m(n := None))"

locale address_map =
  fixes get :: "'db \<Rightarrow> string \<Rightarrow> 'c option"
    and put :: "'db \<Rightarrow> 'c \<Rightarrow> 'db result"
    and del :: "'db \<Rightarrow> string \<Rightarrow> (bool \<times> 'db) result"
    and norm :: "string \<Rightarrow> string result"
    and canon :: "'c \<Rightarrow> 'c result"
    and key :: "'c \<Rightarrow> string"
    and wf :: "'db \<Rightarrow> bool"
  assumes put_fails: "canon c = Inl e \<Longrightarrow> put db c = Inl e"
    and put_get: "canon c = Inr c' \<Longrightarrow> wf db \<Longrightarrow>
      \<exists>db'. put db c = Inr db' \<and> wf db' \<and> get db' = (get db)(key c' \<mapsto> c')"
    and del_fails: "norm a = Inl e \<Longrightarrow> del db a = Inl e"
    and del_get: "norm a = Inr n \<Longrightarrow> wf db \<Longrightarrow>
      \<exists>db'. del db a = Inr (get db n \<noteq> None, db') \<and> wf db' \<and> get db' = (get db)(n := None)"
begin

lemma run_op_refines:
  "wf db \<Longrightarrow> wf (run_op put del db x) \<and> get (run_op put del db x) = spec_op canon key norm (get db) x"
proof (cases x)
  case (Put c)
  assume "wf db"
  with Put show ?thesis
    using put_fails [of c] put_get [of c] by (cases "canon c") fastforce+
next
  case (Del a)
  assume "wf db"
  with Del show ?thesis
    using del_fails [of a] del_get [of a] by (cases "norm a") fastforce+
qed

lemma run_refines:
  "wf db \<Longrightarrow>
   wf (foldl (run_op put del) db ops) \<and>
   get (foldl (run_op put del) db ops) = foldl (spec_op canon key norm) (get db) ops"
proof (induction ops arbitrary: db)
  case Nil
  then show ?case by simp
next
  case (Cons x ops)
  from run_op_refines [OF Cons.prems, of x] Cons.IH [of "run_op put del db x"] show ?case by simp
qed

lemma put_then_get: "canon c = Inr c' \<Longrightarrow> wf db \<Longrightarrow> get (run_op put del db (Put c)) (key c') = Some c'"
  using run_op_refines [of db "Put c"] by simp

end

definition db_get :: "ConfigDb \<Rightarrow> string \<Rightarrow> ControllerConfig option" where
  "db_get db n = find (\<lambda>c. cfg_address c = n) (controllers db)"

definition canon_config :: "ControllerConfig \<Rightarrow> ControllerConfig result" where
  "canon_config c =
     res_bind (normalize_bluetooth_address (cfg_address c))
       (\<lambda>a. res_bind (validate_ports (cfg_ports c))
         (\<lambda>ps. Inr (c\<lparr>cfg_address := a, cfg_ports := ps\<rparr>)))"

lemma canon_config_wf: "canon_config c = Inr c' \<Longrightarrow> wf_config c'"
  by (auto simp: canon_config_def res_bind_Inr_iff wf_config_def validate_ports_Inr valid_ports_def
      normalize_idem)

lemma upsert_canon:
  "upsert_controller_config db c =
   res_bind (canon_config c) (\<lambda>c'. Inr (db\<lparr>controllers := upsert_loop (controllers db) c'\<rparr>))"
  by (cases "normalize_bluetooth_address (cfg_address c)"; cases "validate_ports (cfg_ports c)")
    (simp_all add: upsert_controller_config_def canon_config_def)

lemma upsert_loop_addresses:
  "cfg_address ` set (upsert_loop cs c) = insert (cfg_address c) (cfg_address ` set cs)"
  by (induction cs) auto

lemma upsert_loop_distinct:
  "distinct (map cfg_address cs) \<Longrightarrow> distinct (map cfg_address (upsert_loop cs c))"
proof (induction cs)
  case (Cons d cs)
  have "cfg_address ` set (upsert_loop cs c) = insert (cfg_address c) (cfg_address ` set cs)"
    by (rule upsert_loop_addresses)
  with Cons show ?case by auto
qed simp

lemma upsert_loop_wf: "list_all wf_config cs \<Longrightarrow> wf_config c \<Longrightarrow> list_all wf_config (upsert_loop cs c)"
  by (induction cs) auto

lemma upsert_loop_find:
  "find (\<lambda>d. cfg_address d = n) (upsert_loop cs c) =
   (if n = cfg_address c then Some c else find (\<lambda>d. cfg_address d = n) cs)"
  by (induction cs) auto

lemma filter_find:
  "find (\<lambda>d. cfg_address d = n) (filter (\<lambda>d. cfg_address d \<noteq> m) cs) =
   (if n = m then None else find (\<lambda>d. cfg_address d = n) cs)"
  by (induction cs) auto

lemma filter_shrinks:
  "length (filter (\<lambda>d. cfg_address d \<noteq> m) cs) \<noteq> length cs \<longleftrightarrow>
   find (\<lambda>d. cfg_address d = m) cs \<noteq> None"
proof (induction cs)
  case (Cons d cs)
  have "length (filter (\<lambda>d. cfg_address d \<noteq> m) cs) \<noteq> Suc (length cs)"
    using length_filter_le [of "\<lambda>d. cfg_address d \<noteq> m" cs] by linarith
  with Cons show ?case by (cases "cfg_address d = m") simp_all
qed simp

interpretation config_map: address_map db_get upsert_controller_config remove_controller_config
  normalize_bluetooth_address canon_config cfg_address wf_db
proof
  fix c e and db :: ConfigDb
  assume "canon_config c = Inl e"
  then show "upsert_controller_config db c = Inl e" by (simp add: upsert_canon)
next
  fix c c' and db :: ConfigDb
  assume c: "canon_config c = Inr c'" and db: "wf_db db"
  let ?db' = "db\<lparr>controllers := upsert_loop (controllers db) c'\<rparr>"
  have "wf_db ?db'"
    using db canon_config_wf [OF c] upsert_loop_distinct upsert_loop_wf by (simp add: wf_db_def)
  moreover have "db_get ?db' = (db_get db)(cfg_address c' \<mapsto> c')"
    by (auto simp: db_get_def upsert_loop_find fun_eq_iff)
  ultimately show "\<exists>db'. upsert_controller_config db c = Inr db' \<and> wf_db db' \<and>
      db_get db' = (db_get db)(cfg_address c' \<mapsto> c')"
    using c by (simp add: upsert_canon)
next
  fix a e and db :: ConfigDb
  assume "normalize_bluetooth_address a = Inl e"
  then show "remove_controller_config db a = Inl e" by (simp add: remove_controller_config_def)
next
  fix a n and db :: ConfigDb
  assume a: "normalize_bluetooth_address a = Inr n" and db: "wf_db db"
  let ?db' = "db\<lparr>controllers := filter (\<lambda>c. cfg_address c \<noteq> n) (controllers db)\<rparr>"
  have "wf_db ?db'"
    using db by (auto simp: wf_db_def list_all_iff distinct_map intro: inj_on_subset)
  moreover have "db_get ?db' = (db_get db)(n := None)"
    by (auto simp: db_get_def filter_find fun_eq_iff)
  ultimately show "\<exists>db'. remove_controller_config db a = Inr (db_get db n \<noteq> None, db') \<and>
      wf_db db' \<and> db_get db' = (db_get db)(n := None)"
    using a filter_shrinks [of n "controllers db"]
    by (simp add: remove_controller_config_def db_get_def Let_def)
qed

section \<open>Ports and port paths\<close>

lemma port_targets_allowed:
  "p \<in> set (controller_config_port_targets c) \<longleftrightarrow>
   controller_config_allows_port c p \<and> (cfg_ports c = [] \<longrightarrow> p < kMaxPortCount)"
proof -
  have "p \<in> set (map of_nat [0..<4]) \<longleftrightarrow> p < 4" for p :: u32
  proof
    assume "p < 4"
    then have "unat p \<in> set [0..<4]" by (simp add: word_less_nat_alt)
    then show "p \<in> set (map of_nat [0..<4])" 
      unfolding set_map by (rule image_eqI [where x = "unat p", rotated]) simp
  qed (auto simp: word_less_nat_alt unat_of_nat)
  then show ?thesis
    by (auto simp: controller_config_port_targets_def controller_config_allows_port_def kMaxPortCount_def)
qed

lemma select_port_loop_find:
  "select_port_loop ps cand occ = find (\<lambda>p. p \<in> set cand \<and> p \<notin> set occ) ps"
  by (induction ps) auto

lemma find_sorted_least:
  "find P ps = Some p \<Longrightarrow> sorted ps \<Longrightarrow> P p \<and> p \<in> set ps \<and> (\<forall>q \<in> set ps. P q \<longrightarrow> p \<le> q)"
  by (induction ps) (auto split: if_splits)

lemma port_targets_sorted:
  assumes "sorted (cfg_ports c)"
  shows "sorted (controller_config_port_targets c)"
proof -
  have "map of_nat [0..<unat kMaxPortCount] = [0, 1, 2, 3 :: u32]"
    by (simp add: kMaxPortCount_def upt_rec)
  with assms show ?thesis by (simp add: controller_config_port_targets_def)
qed

lemma select_port_spec:
  assumes "sorted (cfg_ports config)"
    and "\<forall>p \<in> set candidates. p < kMaxPortCount"
  shows "case select_controller_config_port config candidates occupied of
      Some p \<Rightarrow> controller_config_allows_port config p \<and> p \<in> set candidates \<and> p \<notin> set occupied \<and>
        (\<forall>q \<in> set candidates. controller_config_allows_port config q \<longrightarrow> q \<notin> set occupied \<longrightarrow> p \<le> q)
    | None \<Rightarrow> \<forall>q \<in> set candidates. controller_config_allows_port config q \<longrightarrow> q \<in> set occupied"
proof (cases "select_controller_config_port config candidates occupied")
  case None
  then have "\<forall>q \<in> set (controller_config_port_targets config). q \<in> set candidates \<longrightarrow> q \<in> set occupied"
    by (auto simp: select_controller_config_port_def select_port_loop_find find_None_iff)
  with assms(2) None show ?thesis by (auto simp: port_targets_allowed)
next
  case (Some p)
  then have "find (\<lambda>p. p \<in> set candidates \<and> p \<notin> set occupied) (controller_config_port_targets config) = Some p"
    by (simp add: select_controller_config_port_def select_port_loop_find)
  from find_sorted_least [OF this port_targets_sorted [OF assms(1)]] assms(2) Some show ?thesis
    by (auto simp: port_targets_allowed)
qed

lemma is_decimal_nat_text: "is_decimal_number (nat_text n)"
  using nat_text_digits by (auto simp: is_decimal_number_def list_all_iff)

lemma u32_text_single: "p < kMaxPortCount \<Longrightarrow> u32_text p = [digit_char (unat p)]"
  by (simp add: u32_text_def nat_text.simps [of "unat p"] kMaxPortCount_def word_less_nat_alt)

lemma accumulate_port_index_single:
  "p < kMaxPortCount \<Longrightarrow> accumulate_port_index 0 [digit_char (unat p)] = Some p"
  by (simp add: kMaxPortCount_def word_less_nat_alt word_le_nat_alt)

lemma port_index_from_main_prefix:
  "port_index_from_path os (hd (port_prefixes os) @ t) =
   (if is_decimal_number t then accumulate_port_index 0 t else None)"
  by (cases os) (simp_all add: port_prefixes_def port_index_from_path_def Let_def)

lemma port_index_of_path:
  assumes "port_path_for_index os p = Inr path"
  shows "port_index_from_path os path = Some p"
proof -
  from assms have p: "p < kMaxPortCount" and path: "path = hd (port_prefixes os) @ u32_text p"
    by (auto simp: port_path_for_index_def split: if_splits)
  have "is_decimal_number (u32_text p)" by (simp add: u32_text_def is_decimal_nat_text)
  then show ?thesis
    unfolding path port_index_from_main_prefix u32_text_single [OF p]
    using accumulate_port_index_single [OF p] by simp
qed

lemma accumulate_port_index_bound:
  "accumulate_port_index v cs = Some p \<Longrightarrow> v < kMaxPortCount \<Longrightarrow> p < kMaxPortCount"
  by (induction v cs rule: accumulate_port_index.induct) (auto simp: Let_def split: if_splits)

lemma port_index_bound: "port_index_from_path os path = Some p \<Longrightarrow> p < kMaxPortCount"
  by (auto simp: port_index_from_path_def Let_def kMaxPortCount_def split: option.splits if_splits
      dest!: accumulate_port_index_bound)

lemma split_commas_join:
  "ps \<noteq> [] \<Longrightarrow> split_commas (join_unsigned ps) = Inr (map u32_text ps)"
proof (induction ps rule: join_unsigned.induct)
  case 1
  then show ?case by simp
next
  case (2 v)
  have "\<forall>c \<in> set (u32_text v). c \<noteq> CHR '',''"
    using u32_text_digits is_digit_not_special by blast
  then have c: "takeWhile (\<lambda>c. c \<noteq> CHR '','') (u32_text v) = u32_text v"
    "dropWhile (\<lambda>c. c \<noteq> CHR '','') (u32_text v) = []" by simp_all
  show ?case by (subst split_commas.simps) (simp add: c Let_def)
next
  case (3 v w vs)
  have c: "\<forall>c \<in> set (u32_text v). c \<noteq> CHR '',''"
    using u32_text_digits is_digit_not_special by blast
  let ?t = "u32_text v @ CHR '','' # join_unsigned (w # vs)"
  have "takeWhile (\<lambda>c. c \<noteq> CHR '','') ?t = u32_text v"
    "dropWhile (\<lambda>c. c \<noteq> CHR '','') ?t = CHR '','' # join_unsigned (w # vs)"
    using c by (simp_all add: takeWhile_append)
  with 3 show ?case by (subst split_commas.simps) (simp add: Let_def)
qed

lemma parse_port_number_text: "parse_port_number (u32_text p) = Inr p"
proof -
  have "unat p < 2 ^ 32" using unsigned_less [of p] by simp
  moreover have "\<forall>c \<in> set (nat_text (unat p)). is_digit c" using nat_text_digits by blast
  ultimately show ?thesis
    using accumulate_unsigned_dec_value [of "nat_text (unat p)"] is_decimal_nat_text [of "unat p"]
    by (simp add: parse_port_number_def u32_text_def ucast_of_nat_u32)
qed

lemma parse_format_ports:
  assumes "sorted ps" "valid_ports ps"
  shows "parse_ports (format_ports ps) = Inr ps"
proof (cases "ps = []")
  case True
  then show ?thesis by (simp add: parse_ports_def format_ports_def)
next
  case False
  then have "join_unsigned ps \<noteq> []"
    by (cases ps rule: join_unsigned.cases) (simp_all add: u32_text_def)
  moreover have "res_mapM parse_port_number (map u32_text ps) = Inr ps"
    by (induction ps) (simp_all add: parse_port_number_text)
  ultimately show ?thesis
    using assms split_commas_join [OF False]
    by (simp add: parse_ports_def format_ports_def validate_ports_Inr sorted_sort_id)
qed

section \<open>Device identities\<close>

text \<open>The four hexadecimal digits a modalias prints for an identifier.\<close>

definition hex_upper :: "nat \<Rightarrow> char" where
  "hex_upper d = ''0123456789ABCDEF'' ! d"

definition hex4 :: "u16 \<Rightarrow> string" where
  "hex4 v = (let n = unat v in
     map hex_upper [n div 16 div 16 div 16, n div 16 div 16 mod 16, n div 16 mod 16, n mod 16])"

lemma hex_nibble_upper: "n < 16 \<Longrightarrow> hex_nibble (hex_upper n) = Some (of_nat n)"
proof -
  assume "n < 16"
  then have "n \<in> set [0..<16]" by simp
  then show ?thesis by (simp add: upt_rec, elim disjE) (simp_all add: hex_nibble_def hex_upper_def)
qed

lemma push4_or:
  assumes "n < 2 ^ 20" "d < 16"
  shows "push_bit 4 (of_nat n :: u32) OR of_nat d = of_nat (16 * n + d)"
proof -
  have "push_bit 4 (of_nat n :: u32) OR of_nat d = push_bit 4 (of_nat n) + of_nat d"
  proof (rule disjunctive_add [symmetric])
    fix k
    have "\<not> bit (of_nat d :: u32) k" if "4 \<le> k"
    proof -
      have "take_bit 4 d = d" using assms(2) by (simp add: take_bit_eq_mod)
      then have "bit d k \<Longrightarrow> k < 4" by (metis bit_take_bit_iff)
      with that show ?thesis by (auto simp: bit_simps)
    qed
    then show "\<not> bit (push_bit 4 (of_nat n :: u32)) k \<or> \<not> bit (of_nat d :: u32) k"
      by (auto simp: bit_simps)
  qed
  also have "\<dots> = of_nat (16 * n + d)"
    by (simp add: push_bit_eq_mult)
  finally show ?thesis .
qed

lemma parse_hex_loop_digits:
  "\<forall>d \<in> set ds. d < 16 \<Longrightarrow> (n + 1) * 16 ^ length ds \<le> 2 ^ 16 \<Longrightarrow> k + length ds \<le> m \<Longrightarrow>
   parse_hex_loop (map hex_upper ds @ rest) m (of_nat n) k =
   parse_hex_loop rest m (of_nat (foldl (\<lambda>a d. 16 * a + d) n ds)) (k + length ds)"
proof (induction ds arbitrary: n k)
  case (Cons d ds)
  have "(n + 1) * 1 \<le> (n + 1) * 16 ^ length (d # ds)" by (intro mult_le_mono) simp_all
  with Cons.prems have n: "n < 2 ^ 20" by simp
  have d: "d < 16" using Cons.prems by simp
  have "(16 * n + d + 1) * 16 ^ length ds \<le> (16 * (n + 1)) * 16 ^ length ds"
    using d by (intro mult_le_mono) auto
  also have "\<dots> \<le> 2 ^ 16" using Cons.prems by (simp add: algebra_simps)
  finally have "(16 * n + d + 1) * 16 ^ length ds \<le> 2 ^ 16" .
  with Cons.IH [of "16 * n + d" "Suc k"] Cons.prems push4_or [OF n d] d show ?case
    by (simp add: hex_nibble_upper)
qed simp

lemma hex4_value:
  "foldl (\<lambda>a d. 16 * a + d) 0 [n div 16 div 16 div 16, n div 16 div 16 mod 16, n div 16 mod 16, n mod 16] =
   (n :: nat)"
  by (simp add: mult_div_mod_eq)

lemma parse_hex_token_hex4:
  assumes "4 \<le> m" "m = 4 \<or> hex_nibble c = None"
  shows "parse_hex_token (hex4 v @ c # rest) m = Some (ucast v)"
proof -
  let ?n = "unat v"
  let ?ds = "[?n div 16 div 16 div 16, ?n div 16 div 16 mod 16, ?n div 16 mod 16, ?n mod 16]"
  have "?n < 65536" using unsigned_less [of v] by simp
  then have "\<forall>d \<in> set ?ds. d < 16" by (simp add: div_mult2_eq [symmetric])
  then have "parse_hex_loop (map hex_upper ?ds @ c # rest) m (of_nat 0) 0 =
      parse_hex_loop (c # rest) m (of_nat (foldl (\<lambda>a d. 16 * a + d) 0 ?ds)) (0 + length ?ds)"
    by (rule parse_hex_loop_digits) (use assms(1) in simp_all)
  also have "\<dots> = (ucast v, length ?ds)" using assms(2) unfolding hex4_value by auto
  finally show ?thesis by (simp only: parse_hex_token_def hex4_def Let_def of_nat_0) simp
qed

lemma hex4_no_p: "CHR ''p'' \<notin> set (hex4 v)"
proof -
  have p: "hex_upper d \<noteq> CHR ''p''" if "d < 16" for d
    using hex_nibble_upper [OF that] by (auto simp: hex_nibble_def)
  have "unat v < 65536" using unsigned_less [of v] by simp
  then have "unat v div 16 div 16 div 16 < 16" by (simp add: div_mult2_eq [symmetric])
  with p show ?thesis by (auto simp: hex4_def Let_def dest: sym)
qed

lemma sublist_usb: "sublist ''usb:'' (''usb:'' @ t)"
  unfolding sublist_def by (rule exI [of _ "[]"]) blast

lemma modalias_usb:
  "parse_modalias_device_id (''usb:v'' @ hex4 v @ ''p'' @ hex4 p @ c # rest) =
   Some \<lparr>vendor = v, product = p\<rparr>"
proof -
  let ?tail = "hex4 v @ CHR ''p'' # hex4 p @ c # rest"
  have line: "''usb:v'' @ hex4 v @ ''p'' @ hex4 p @ c # rest = ''usb:'' @ CHR ''v'' # ?tail" by simp
  have "dropWhile (\<lambda>x. x \<noteq> CHR ''p'') ?tail = CHR ''p'' # hex4 p @ c # rest"
    using hex4_no_p [of v] by (subst dropWhile_append2) auto
  then have "after_char CHR ''p'' ?tail = Some (hex4 p @ c # rest)"
    by (simp add: after_char_def)
  moreover have "after_char CHR ''v'' (''usb:'' @ CHR ''v'' # ?tail) = Some ?tail"
    by (simp add: after_char_def)
  moreover have "sublist ''usb:'' (''usb:'' @ CHR ''v'' # ?tail)" by (rule sublist_usb)
  moreover have "(ucast (ucast w AND 0xffff :: u32) :: u16) = w" for w :: u16
  proof -
    have "ucast w AND 0xffff = take_bit 16 (ucast w :: u32)"
      by (simp add: take_bit_eq_mask mask_eq_exp_minus_1)
    then show ?thesis by (simp only:) (rule bit_word_eqI, simp add: bit_simps)
  qed
  moreover have "parse_hex_token ?tail 4 = Some (ucast v)" "parse_hex_token (hex4 p @ c # rest) 4 = Some (ucast p)"
    by (simp_all add: parse_hex_token_hex4)
  ultimately show ?thesis
    unfolding line parse_modalias_device_id_def
    by (simp only: Let_def option.case prod.case if_True)
qed

section \<open>Properties\<close>

text \<open>
  The database file round trips: writing a well-formed database (normalised distinct
  addresses, sorted distinct ports below the maximum) and reading the text back gives the same
  database, whatever the profiles and port restrictions of its controllers.
\<close>

theorem config_db_roundtrip:
  assumes "wf_db db"
  shows "parse_config_db (serialize_config_db db) = Inr db"
  using assms by (rule parse_serialize_db)

theorem config_db_roundtrip_witness:
  "parse_config_db (serialize_config_db
     \<lparr>controllers = [\<lparr>cfg_address = ''aa:bb:cc:dd:ee:01'', cfg_profile = Dse, cfg_ports = [1, 3]\<rparr>,
                    \<lparr>cfg_address = ''aa:bb:cc:dd:ee:02'', cfg_profile = Unspecified, cfg_ports = []\<rparr>]\<rparr>) =
   Inr \<lparr>controllers = [\<lparr>cfg_address = ''aa:bb:cc:dd:ee:01'', cfg_profile = Dse, cfg_ports = [1, 3]\<rparr>,
                    \<lparr>cfg_address = ''aa:bb:cc:dd:ee:02'', cfg_profile = Unspecified, cfg_ports = []\<rparr>]\<rparr>"
  by (rule config_db_roundtrip) code_simp

text \<open>
  C12. The database file stays readable: when an update closure keeps databases well-formed, any
  text that replaces the file, also when the call then fails after the rename, parses to a
  well-formed database, and on success it parses to exactly the database the call returns.
\<close>

theorem config_file_stays_valid:
  assumes "\<And>db db' s. wf_db db \<Longrightarrow> update db = Inr (db', s) \<Longrightarrow> wf_db db'"
    and "update_config_db view update outcome = (s, r, Some t)"
  shows "\<exists>db. parse_config_db t = Inr db \<and> wf_db db \<and> (outcome = Written \<longrightarrow> r = Inr db)"
proof -
  from assms(2) obtain db0 db where db0: "load_config_db view = Inr db0" and
    db: "update db0 = Inr (db, the s)" and t: "t = serialize_config_db db" and
    r: "outcome = Written \<longrightarrow> r = Inr db"
    by (auto simp: update_config_db_def Let_def split: sum.splits write_outcome.splits prod.splits)
  from db0 have "wf_db db0" by (auto simp: load_config_db_def res_bind_Inr_iff dest: parse_config_db_wf)
  with assms(1) db have "wf_db db" by blast
  with r show ?thesis unfolding t by (auto simp: parse_serialize_db)
qed

theorem config_file_stays_valid_witness:
  "\<exists>db. parse_config_db (serialize_config_db \<lparr>controllers = [\<lparr>cfg_address = ''aa:bb:cc:dd:ee:01'', cfg_profile = Dse, cfg_ports = [1, 3]\<rparr>]\<rparr>) = Inr db \<and>
     wf_db db \<and> (Written = Written \<longrightarrow>
       Inr \<lparr>controllers = [\<lparr>cfg_address = ''aa:bb:cc:dd:ee:01'', cfg_profile = Dse, cfg_ports = [1, 3]\<rparr>]\<rparr> = (Inr db :: ConfigDb result))"
proof (rule config_file_stays_valid [where view = "Inr []" and update = "\<lambda>db. res_bind (upsert_controller_config db
    \<lparr>cfg_address = ''AA:BB:CC:DD:EE:01'', cfg_profile = Dse, cfg_ports = [3, 1]\<rparr>) (\<lambda>db'. Inr (db', ()))"])
  show "update_config_db (Inr []) (\<lambda>db. res_bind (upsert_controller_config db
      \<lparr>cfg_address = ''AA:BB:CC:DD:EE:01'', cfg_profile = Dse, cfg_ports = [3, 1]\<rparr>) (\<lambda>db'. Inr (db', ()))) Written =
    (Some (), Inr \<lparr>controllers = [\<lparr>cfg_address = ''aa:bb:cc:dd:ee:01'', cfg_profile = Dse, cfg_ports = [1, 3]\<rparr>]\<rparr>,
     Some (serialize_config_db \<lparr>controllers = [\<lparr>cfg_address = ''aa:bb:cc:dd:ee:01'', cfg_profile = Dse, cfg_ports = [1, 3]\<rparr>]\<rparr>))"
    by code_simp
  have "canon_config \<lparr>cfg_address = ''AA:BB:CC:DD:EE:01'', cfg_profile = Dse, cfg_ports = [3, 1]\<rparr> =
    Inr \<lparr>cfg_address = ''aa:bb:cc:dd:ee:01'', cfg_profile = Dse, cfg_ports = [1, 3]\<rparr>" by code_simp
  from config_map.put_get [OF this] show "wf_db db'" if "wf_db db"
    "res_bind (upsert_controller_config db \<lparr>cfg_address = ''AA:BB:CC:DD:EE:01'', cfg_profile = Dse, cfg_ports = [3, 1]\<rparr>)
      (\<lambda>db'. Inr (db', ())) = Inr (db', s)" for db db' s
    using that by (fastforce simp: res_bind_Inr_iff)
qed

text \<open>
  C21. The database implements a finite map from normalised addresses to normalised
  configurations: after any sequence of upserts and removals, failing ones included, it is
  well-formed and holds exactly what the same updates on a map give.
\<close>

theorem config_db_refines_map:
  assumes "wf_db db"
  shows "wf_db (foldl (run_op upsert_controller_config remove_controller_config) db ops) \<and>
    db_get (foldl (run_op upsert_controller_config remove_controller_config) db ops) =
    foldl (spec_op canon_config cfg_address normalize_bluetooth_address) (db_get db) ops"
  using assms by (rule config_map.run_refines)

theorem config_db_refines_map_witness:
  "wf_db \<lparr>controllers = []\<rparr> \<and>
   db_get (foldl (run_op upsert_controller_config remove_controller_config) \<lparr>controllers = []\<rparr>
     [Put \<lparr>cfg_address = ''AA:bb:cc:dd:ee:01'', cfg_profile = Ds5, cfg_ports = [2, 0]\<rparr>, Del ''bad''])
     ''aa:bb:cc:dd:ee:01'' =
   Some \<lparr>cfg_address = ''aa:bb:cc:dd:ee:01'', cfg_profile = Ds5, cfg_ports = [0, 2]\<rparr>"
proof -
  have wf: "wf_db \<lparr>controllers = []\<rparr>" by (simp add: wf_db_def)
  have "foldl (spec_op canon_config cfg_address normalize_bluetooth_address)
      (db_get \<lparr>controllers = []\<rparr>)
      [Put \<lparr>cfg_address = ''AA:bb:cc:dd:ee:01'', cfg_profile = Ds5, cfg_ports = [2, 0]\<rparr>, Del ''bad'']
      ''aa:bb:cc:dd:ee:01'' =
    Some \<lparr>cfg_address = ''aa:bb:cc:dd:ee:01'', cfg_profile = Ds5, cfg_ports = [0, 2]\<rparr>"
    by code_simp
  with config_db_refines_map [OF wf, of "[Put \<lparr>cfg_address = ''AA:bb:cc:dd:ee:01'',
      cfg_profile = Ds5, cfg_ports = [2, 0]\<rparr>, Del ''bad'']"] wf
  show ?thesis by metis
qed

text \<open>
  C22. Port selection: a configuration with sorted ports gets the least port that it allows,
  that is present and that no one occupies; it gets none exactly when there is no such port.
\<close>

theorem select_port_correct:
  assumes "sorted (cfg_ports config)"
    and "\<forall>p \<in> set candidates. p < kMaxPortCount"
  shows "case select_controller_config_port config candidates occupied of
      Some p \<Rightarrow> controller_config_allows_port config p \<and> p \<in> set candidates \<and> p \<notin> set occupied \<and>
        (\<forall>q \<in> set candidates. controller_config_allows_port config q \<longrightarrow> q \<notin> set occupied \<longrightarrow> p \<le> q)
    | None \<Rightarrow> \<forall>q \<in> set candidates. controller_config_allows_port config q \<longrightarrow> q \<in> set occupied"
  using assms by (rule select_port_spec)

theorem select_port_correct_witness:
  "select_controller_config_port \<lparr>cfg_address = [], cfg_profile = Ds5, cfg_ports = [1, 2, 3]\<rparr>
     [0, 3, 2, 1] [1] = Some 2 \<and>
   controller_config_allows_port \<lparr>cfg_address = [], cfg_profile = Ds5, cfg_ports = [1, 2, 3]\<rparr> 2"
proof -
  let ?c = "\<lparr>cfg_address = [], cfg_profile = Ds5, cfg_ports = [1, 2, 3]\<rparr>"
  have sel: "select_controller_config_port ?c [0, 3, 2, 1] [1] = Some 2" by code_simp
  have "sorted (cfg_ports ?c)" "\<forall>p \<in> set [0, 3, 2, 1 :: u32]. p < kMaxPortCount" by code_simp+
  from select_port_correct [OF this, of "[1]"] sel show ?thesis by simp
qed

text \<open>
  Port paths: on both platforms the path built for a port index is recognised as that
  index, and every index recognised in any path is below the maximum, so an index out of range
  is never produced.
\<close>

theorem port_path_roundtrip:
  "(port_path_for_index os p = Inr path \<longrightarrow> port_index_from_path os path = Some p) \<and>
   (port_index_from_path os path = Some q \<longrightarrow> q < kMaxPortCount)"
  using port_index_of_path port_index_bound by blast

theorem port_path_roundtrip_witness:
  "port_index_from_path Windows ([CHR 0x5C, CHR 0x5C, CHR ''.'', CHR 0x5C] @ ''vds3'') = Some 3"
proof -
  have "port_path_for_index Windows 3 = Inr ([CHR 0x5C, CHR 0x5C, CHR ''.'', CHR 0x5C] @ ''vds3'')"
    by code_simp
  with port_path_roundtrip show ?thesis by blast
qed

text \<open>
  The port list of the command line round trips: formatting a sorted list of distinct ports
  below the maximum and parsing it gives the list back.
\<close>

theorem ports_text_roundtrip:
  assumes "sorted ps" "valid_ports ps"
  shows "parse_ports (format_ports ps) = Inr ps"
  using assms by (rule parse_format_ports)

theorem ports_text_roundtrip_witness: "parse_ports (format_ports [0, 2, 3]) = Inr [0, 2, 3]"
  by (rule ports_text_roundtrip) (simp_all add: valid_ports_def kMaxPortCount_def)

text \<open>
  A USB modalias identifies its device: the vendor and product printed as four hexadecimal
  digits each are recovered exactly, so a controller profile is detected precisely for the two
  Sony product identifiers.
\<close>

theorem modalias_profile:
  "controller_profile_from_modalias (''usb:v'' @ hex4 v @ ''p'' @ hex4 p @ c # rest) =
   (if v = VDS_SONY_VENDOR_ID \<and> p = VDS_DS5_PRODUCT_ID then Some Ds5
    else if v = VDS_SONY_VENDOR_ID \<and> p = VDS_DSE_PRODUCT_ID then Some Dse
    else None)"
  unfolding controller_profile_from_modalias_def modalias_usb
  by (auto simp: controller_profile_from_device_id_def)

end
