(* ===== verification/Log.thy ===== *)
theory Log
  imports Config
begin

text \<open>
  The logger of \<open>src/vds_log.cc\<close>: names of levels and scopes, the time stamp, and the
  text of one record. Opening and reopening the file is input and output and is not modelled;
  the clock and \<open>localtime\<close> are arguments. Components that log return the list of their
  records, in order.
\<close>

datatype LogLevel = Debug | Info | Warn | Error

datatype LogScope = Bluetooth | Config | Control | Daemon | Hid | InputAudio | InputControl
  | Output | Port | Usb

type_synonym log_record = "LogScope \<times> LogLevel \<times> string"

fun log_level_name :: "LogLevel \<Rightarrow> string" where
  "log_level_name Debug = ''DEBUG''"
| "log_level_name Info = ''INFO''"
| "log_level_name Warn = ''WARN''"
| "log_level_name Error = ''ERROR''"

fun log_scope_name :: "LogScope \<Rightarrow> string" where
  "log_scope_name Bluetooth = ''bluetooth''"
| "log_scope_name Config = ''config''"
| "log_scope_name Control = ''control''"
| "log_scope_name Daemon = ''daemon''"
| "log_scope_name Hid = ''hid''"
| "log_scope_name InputAudio = ''input-audio''"
| "log_scope_name InputControl = ''input-control''"
| "log_scope_name Output = ''output''"
| "log_scope_name Port = ''port''"
| "log_scope_name Usb = ''usb''"

text \<open>
  The broken-down local time (\<open>std::tm\<close>), with the full year and the month from 1, and the
  offset from UTC in seconds.
\<close>

record local_time =
  tm_year :: nat
  tm_mon :: nat
  tm_mday :: nat
  tm_hour :: nat
  tm_min :: nat
  tm_sec :: nat
  tm_gmtoff :: int

text \<open>\<open>std::setw(width) << std::setfill('0')\<close>.\<close>

definition zero_pad :: "nat \<Rightarrow> nat \<Rightarrow> string" where
  "zero_pad width n = replicate (width - length (nat_text n)) CHR ''0'' @ nat_text n"

definition put_time :: "local_time \<Rightarrow> string" where
  "put_time t = nat_text (tm_year t) @ ''-'' @ zero_pad 2 (tm_mon t) @ ''-'' @ zero_pad 2 (tm_mday t) @
     ''T'' @ zero_pad 2 (tm_hour t) @ '':'' @ zero_pad 2 (tm_min t) @ '':'' @ zero_pad 2 (tm_sec t)"

definition local_timestamp :: "local_time option \<Rightarrow> nat \<Rightarrow> string result" where
  "local_timestamp local_tm milliseconds =
     (case local_tm of
        None \<Rightarrow> Inl (Runtime_error ''failed to get local time'')
      | Some t \<Rightarrow>
          (let offset_sign = (if tm_gmtoff t < 0 then CHR ''-'' else CHR ''+'');
               abs_offset = nat \<bar>tm_gmtoff t\<bar>;
               offset_hours = abs_offset div 3600;
               offset_minutes = (abs_offset mod 3600) div 60 in
           Inr (put_time t @ ''.'' @ zero_pad 3 milliseconds @ [offset_sign] @
                zero_pad 2 offset_hours @ '':'' @ zero_pad 2 offset_minutes)))"

definition write_log_message :: "string \<Rightarrow> string" where
  "write_log_message message =
     map (\<lambda>ch. if ch = CHR 0x0A \<or> ch = CHR 0x0D \<or> ch = CHR 0x7C then CHR 0x20 else ch) message"

text \<open>What \<open>Logger::log\<close> appends to the file.\<close>

definition log_line :: "string \<Rightarrow> log_record \<Rightarrow> string" where
  "log_line timestamp rec =
     (case rec of (scope, level, message) \<Rightarrow>
        timestamp @ [CHR 0x7C] @ log_scope_name scope @ [CHR 0x7C] @ log_level_name level @
        [CHR 0x7C] @ write_log_message message @ [CHR 0x0A])"

definition Logger_log :: "string \<Rightarrow> local_time option \<Rightarrow> nat \<Rightarrow> log_record \<Rightarrow> string result" where
  "Logger_log file local_tm milliseconds rec =
     res_bind (local_timestamp local_tm milliseconds) (\<lambda>ts. Inr (file @ log_line ts rec))"

section \<open>Records keep their shape\<close>

text \<open>A reader of the log: the fields of a line, separated by bars.\<close>

fun split_bars :: "string \<Rightarrow> string list" where
  "split_bars [] = [[]]"
| "split_bars (c # cs) =
     (if c = CHR 0x7C then [] # split_bars cs
      else (c # hd (split_bars cs)) # tl (split_bars cs))"

definition clean :: "string \<Rightarrow> bool" where
  "clean s \<longleftrightarrow> CHR 0x7C \<notin> set s \<and> CHR 0x0A \<notin> set s"

lemma clean_simps [simp]:
  "clean []"
  "clean (c # s) \<longleftrightarrow> c \<noteq> CHR 0x7C \<and> c \<noteq> CHR 0x0A \<and> clean s"
  "clean (s @ t) \<longleftrightarrow> clean s \<and> clean t"
  by (auto simp: clean_def)

lemma clean_nat_text [simp]: "clean (nat_text n)"
proof -
  have "\<not> is_digit CHR 0x7C" "\<not> is_digit CHR 0x0A" by (simp_all add: is_digit_def)
  then show ?thesis using nat_text_digits by (auto simp: clean_def)
qed

lemma clean_zero_pad [simp]: "clean (zero_pad w n)"
proof -
  have "clean (replicate k CHR ''0'')" for k by (induction k) simp_all
  then show ?thesis by (simp add: zero_pad_def)
qed

lemma clean_timestamp: "local_timestamp tm ms = Inr ts \<Longrightarrow> clean ts"
  by (auto simp: local_timestamp_def put_time_def Let_def split: option.splits)

lemma clean_names [simp]: "clean (log_scope_name s)" "clean (log_level_name l)"
  by (cases s; simp) (cases l; simp)

lemma clean_message [simp]: "clean (write_log_message m)"
  by (induction m) (auto simp: write_log_message_def)

lemma split_bars_clean: "clean s \<Longrightarrow> split_bars s = [s]"
  by (induction s) auto

lemma split_bars_append: "clean s \<Longrightarrow> split_bars (s @ CHR 0x7C # t) = s # split_bars t"
  by (induction s) auto

lemma getlines_append_line:
  "CHR 0x0A \<notin> set l \<Longrightarrow> f = [] \<or> last f = CHR 0x0A \<Longrightarrow>
   getlines (f @ l @ [CHR 0x0A]) = getlines f @ [l]"
proof (induction "length f" arbitrary: f rule: less_induct)
  case less
  show ?case
  proof (cases "f = []")
    case True
    with less show ?thesis using getlines_line [of l "[]"] by (simp add: getlines.simps [of "[]"])
  next
    case False
    with less.prems have "CHR 0x0A \<in> set f" using last_in_set by fastforce
    then obtain t rest where f: "f = t @ CHR 0x0A # rest" and t: "CHR 0x0A \<notin> set t"
      by (meson split_list_first)
    have "rest = [] \<or> last rest = CHR 0x0A" using less.prems f by (auto split: if_splits)
    with less f have "getlines (rest @ l @ [CHR 0x0A]) = getlines rest @ [l]" by simp
    then show ?thesis using getlines_line [OF t] unfolding f by simp
  qed
qed

section \<open>Properties\<close>

text \<open>
  Log records cannot be forged by their message: appending a record to a log file that is
  empty or ends a line adds exactly one line, and the four fields a reader splits it into are the
  time stamp, the scope, the level and the sanitised message, whatever characters the message has.
\<close>

theorem log_record_shape:
  assumes "Logger_log file tm ms (scope, level, message) = Inr file'"
    and "file = [] \<or> last file = CHR 0x0A"
  shows "\<exists>ts l. local_timestamp tm ms = Inr ts \<and> getlines file' = getlines file @ [l] \<and>
    split_bars l = [ts, log_scope_name scope, log_level_name level, write_log_message message] \<and>
    last file' = CHR 0x0A"
proof -
  from assms(1) obtain ts where ts: "local_timestamp tm ms = Inr ts"
    and file': "file' = file @ log_line ts (scope, level, message)"
    by (auto simp: Logger_log_def res_bind_Inr_iff)
  define l where "l = ts @ [CHR 0x7C] @ log_scope_name scope @ [CHR 0x7C] @ log_level_name level @
    [CHR 0x7C] @ write_log_message message"
  have c: "clean ts" by (rule clean_timestamp [OF ts])
  have "file' = file @ l @ [CHR 0x0A]" by (simp add: file' log_line_def l_def)
  moreover have "CHR 0x0A \<notin> set l"
    using c clean_names(1) [of scope] clean_names(2) [of level] clean_message [of message] by (simp add: clean_def l_def)
  moreover have "split_bars l = [ts, log_scope_name scope, log_level_name level, write_log_message message]"
    using c by (simp add: l_def split_bars_append split_bars_clean)
  ultimately show ?thesis using getlines_append_line [OF _ assms(2)] ts
    by (intro exI [of _ ts] exI [of _ l]) simp
qed

theorem log_record_shape_witness:
  "\<exists>ts l. local_timestamp (Some \<lparr>tm_year = 2026, tm_mon = 1, tm_mday = 2, tm_hour = 3, tm_min = 4,
        tm_sec = 5, tm_gmtoff = - 12600\<rparr>) 7 = Inr ts \<and>
    getlines (log_line ts (Usb, Warn, ''a|b'' @ [CHR 0x0A, CHR 0x0D])) = [l] \<and>
    split_bars l = [ts, ''usb'', ''WARN'', ''a b  '']"
proof -
  define t where "t = \<lparr>tm_year = 2026, tm_mon = 1, tm_mday = 2, tm_hour = 3, tm_min = 4,
    tm_sec = 5, tm_gmtoff = - 12600\<rparr>"
  obtain ts where ts: "local_timestamp (Some t) 7 = Inr ts" by (simp add: local_timestamp_def Let_def)
  then have "Logger_log [] (Some t) 7 (Usb, Warn, ''a|b'' @ [CHR 0x0A, CHR 0x0D]) =
      Inr (log_line ts (Usb, Warn, ''a|b'' @ [CHR 0x0A, CHR 0x0D]))"
    by (simp add: Logger_log_def)
  from log_record_shape [OF this] ts show ?thesis
    by (auto simp: t_def getlines.simps [of "[]"] write_log_message_def)
qed

end
