(* ===== verification/Control.thy ===== *)
theory Control
  imports Log "HOL-Library.List_Lexorder" "HOL-Library.Char_ord"
begin

text \<open>
  The control plane of the daemon, \<open>src/vdsd_common.cc\<close>: command line options, trace scopes,
  the memory of warnings, port statuses, the decision to launch a worker, failure backoffs, and
  the control requests with their replies. A request handler returns its reply together with the
  values it leaves in the variables it is given by reference, the log records it writes and the
  text with which it replaced the database file, if it did. The calls of the file system and the
  callback \<open>list_targets\<close> are arguments: the view of the file at the first read, the view at the
  locked read of the update (another process may write in between), the outcome of the write, and
  the targets or the exception of the callback. The logger is taken not to throw.
\<close>

section \<open>Data\<close>

definition kTraceInputAudio :: u32 where "kTraceInputAudio = 1"
definition kTraceInputControl :: u32 where "kTraceInputControl = 2"
definition kTraceInput :: u32 where "kTraceInput = kTraceInputAudio OR kTraceInputControl"
definition kTraceOutput :: u32 where "kTraceOutput = 4"
definition kTraceAll :: u32 where "kTraceAll = kTraceInput OR kTraceOutput"

record VdsdCommonOptions =
  db_path :: string
  log_path :: string
  help_requested :: bool

record VdsdControlControllerStatus =
  ccs_address :: string
  ccs_connected :: bool
  ccs_path :: string

record VdsdControlPortStatus =
  ps_port :: u32
  ps_path :: string
  ps_occupied :: bool
  ps_address :: string
  ps_device_address :: string

record VdsdControlPortCandidate =
  pc_port :: u32
  pc_path :: string

record VdsdControlPortBinding =
  pb_port :: u32
  pb_address :: string
  pb_device_address :: string

datatype VdsdWorkerLaunchStatus = Ready | VirtualPortProviderUnavailable | DeviceAddressReserved
  | NoAvailablePort

record VdsdWorkerLaunchDecision =
  ld_status :: VdsdWorkerLaunchStatus
  ld_config :: ControllerConfig
  ld_port :: u32
  ld_device_address :: string

text \<open>Points of the steady clock are counts of its ticks.\<close>

record VdsdWorkerFailureBackoff =
  bo_address :: string
  bo_retry_after :: int

section \<open>Options\<close>

definition kDefaultDbPath :: "platform \<Rightarrow> string" where
  "kDefaultDbPath os = (case os of Linux \<Rightarrow> ''/var/lib/vds/vdsd.db''
     | Windows \<Rightarrow> ''C:'' @ [CHR 0x5C] @ ''ProgramData'' @ [CHR 0x5C] @ ''vDS'' @ [CHR 0x5C] @ ''vdsd.db'')"

definition kDefaultLogPath :: "platform \<Rightarrow> string" where
  "kDefaultLogPath os = (case os of Linux \<Rightarrow> ''/var/log/vdsd.log''
     | Windows \<Rightarrow> ''C:'' @ [CHR 0x5C] @ ''ProgramData'' @ [CHR 0x5C] @ ''vDS'' @ [CHR 0x5C] @ ''vdsd.log'')"

definition default_vdsd_common_options :: "platform \<Rightarrow> VdsdCommonOptions" where
  "default_vdsd_common_options os =
     \<lparr>db_path = kDefaultDbPath os, log_path = kDefaultLogPath os, help_requested = False\<rparr>"

definition vdsd_usage :: "platform \<Rightarrow> string \<Rightarrow> string \<Rightarrow> string \<Rightarrow> string" where
  "vdsd_usage os version build_year platform_options =
     ''vdsd ('' @ version @ ''): vDS daemon - Copyright (C) '' @ build_year @
     '' Jihong Min'' @ [CHR 0x0A] @ ''usage:'' @ [CHR 0x0A] @ ''  vdsd [--db-path '' @ kDefaultDbPath os @
     ''] [--log '' @ kDefaultLogPath os @ '']'' @
     (if platform_options \<noteq> [] then '' '' @ platform_options else []) @ [CHR 0x0A]"

text \<open>
  \<open>argv\<close> has \<open>argc\<close> entries; the result is whether the option was recognised, the index
  of the last argument it used and the options.
\<close>

definition parse_vdsd_common_option ::
  "string list \<Rightarrow> nat \<Rightarrow> VdsdCommonOptions \<Rightarrow> (bool \<times> nat \<times> VdsdCommonOptions) result" where
  "parse_vdsd_common_option argv index options =
     (let arg = argv ! index in
      if arg = ''--db-path'' then
        (if index + 1 \<ge> length argv then Inl (Runtime_error ''--db-path requires a path'')
         else Inr (True, index + 1, options\<lparr>db_path := argv ! (index + 1)\<rparr>))
      else if arg = ''--log'' then
        (if index + 1 \<ge> length argv then Inl (Runtime_error ''--log requires a path'')
         else Inr (True, index + 1, options\<lparr>log_path := argv ! (index + 1)\<rparr>))
      else if arg = ''--help'' \<or> arg = ''-h'' then
        Inr (True, index, options\<lparr>help_requested := True\<rparr>)
      else Inr (False, index, options))"

definition trim_command :: "string \<Rightarrow> string" where
  "trim_command command =
     rev (dropWhile (\<lambda>c. c = CHR 0x0A \<or> c = CHR 0x0D \<or> c = CHR 0x20 \<or> c = CHR 0x09) (rev command))"

section \<open>Trace scopes\<close>

definition trace_enabled :: "u32 \<Rightarrow> u32 \<Rightarrow> bool" where
  "trace_enabled trace_flags target \<longleftrightarrow> trace_flags AND target \<noteq> 0"

definition trace_scope_item :: "string \<Rightarrow> u32 option" where
  "trace_scope_item item =
     (if item = ''input'' then Some kTraceInput
      else if item = ''all'' then Some (kTraceInput OR kTraceOutput)
      else if item = ''input-audio'' then Some kTraceInputAudio
      else if item = ''input-control'' then Some kTraceInputControl
      else if item = ''output'' then Some kTraceOutput
      else None)"

function parse_trace_scope_loop :: "string \<Rightarrow> u32 \<Rightarrow> u32 result" where
  "parse_trace_scope_loop scope flags =
     (case trace_scope_item (takeWhile (\<lambda>c. c \<noteq> CHR '','') scope) of
        None \<Rightarrow> Inl (Runtime_error (''trace scope must be all, input, input-audio, input-control, output, '' @
                  ''or comma-separated scopes''))
      | Some f \<Rightarrow>
          (case dropWhile (\<lambda>c. c \<noteq> CHR '','') scope of
             [] \<Rightarrow> Inr (flags OR f)
           | separator # rest \<Rightarrow> parse_trace_scope_loop rest (flags OR f)))"
  by pat_completeness auto
termination
proof (relation "measure (\<lambda>(scope, flags). length scope)")
  fix scope flags f separator rest
  assume "dropWhile (\<lambda>c. c \<noteq> CHR '','') scope = separator # rest"
  then show "((rest, flags OR f), (scope, flags :: u32)) \<in> measure (\<lambda>(scope, flags). length scope)"
    using length_dropWhile_le [of "\<lambda>c. c \<noteq> CHR '',''" scope] by simp
qed simp

declare parse_trace_scope_loop.simps [simp del]

definition parse_trace_scope :: "string \<Rightarrow> u32 result" where
  "parse_trace_scope scope = parse_trace_scope_loop scope 0"

text \<open>\<open>if (!name.empty()) name += ','; name += item\<close>, when the bit is set.\<close>

definition append_scope :: "bool \<Rightarrow> string \<Rightarrow> string \<Rightarrow> string" where
  "append_scope enabled item name =
     (if \<not> enabled then name else (if name \<noteq> [] then name @ '','' else name) @ item)"

definition trace_scope_name :: "u32 \<Rightarrow> string" where
  "trace_scope_name scope =
     (if scope = kTraceAll then ''all''
      else if scope = kTraceInput then ''input''
      else if scope = kTraceInputAudio then ''input-audio''
      else if scope = kTraceInputControl then ''input-control''
      else if scope = kTraceOutput then ''output''
      else
        (let name = append_scope (trace_enabled scope kTraceOutput) ''output''
               (append_scope (trace_enabled scope kTraceInputControl) ''input-control''
                 (append_scope (trace_enabled scope kTraceInputAudio) ''input-audio'' [])) in
         if name = [] then ''none'' else name))"

definition format_controller_config :: "ControllerConfig \<Rightarrow> string" where
  "format_controller_config config =
     cfg_address config @ '' profile='' @ [CHR 0x22] @ controller_profile_name (cfg_profile config) @
     [CHR 0x22] @ '' ports='' @
     (if cfg_ports config = [] then ''[]'' else ''['' @ format_ports (cfg_ports config) @ '']'')"

definition active_trace_name :: "u32 \<Rightarrow> string" where
  "active_trace_name trace_flags =
     (let flags = trace_flags AND kTraceAll in
      if flags = 0 then ''none'' else trace_scope_name flags)"

section \<open>Warnings, port statuses, worker launch, backoffs\<close>

definition remember_vdsd_warning :: "string list \<Rightarrow> string \<Rightarrow> bool \<times> string list" where
  "remember_vdsd_warning warnings key =
     (if key \<in> set warnings then (False, warnings) else (True, warnings @ [key]))"

definition forget_vdsd_warning :: "string list \<Rightarrow> string \<Rightarrow> string list" where
  "forget_vdsd_warning warnings key = filter (\<lambda>item. item \<noteq> key) warnings"

definition remember_vdsd_warning_state :: "string list \<Rightarrow> string \<Rightarrow> string \<Rightarrow> bool \<times> string list" where
  "remember_vdsd_warning_state warnings key state =
     (let pre = key @ [CHR 0x0A]; entry = pre @ state in
      if entry \<in> set warnings then (False, warnings)
      else (True, filter (\<lambda>existing. \<not> prefix pre existing) warnings @ [entry]))"

definition forget_vdsd_warning_state :: "string list \<Rightarrow> string \<Rightarrow> string list" where
  "forget_vdsd_warning_state warnings key =
     filter (\<lambda>existing. \<not> prefix (key @ [CHR 0x0A]) existing) warnings"

definition build_vdsd_control_port_statuses ::
  "VdsdControlPortCandidate list \<Rightarrow> VdsdControlPortBinding list \<Rightarrow> VdsdControlPortStatus list" where
  "build_vdsd_control_port_statuses candidates bindings =
     map (\<lambda>c. let binding = find (\<lambda>b. pb_port b = pc_port c) bindings in
            \<lparr>ps_port = pc_port c, ps_path = pc_path c, ps_occupied = (binding \<noteq> None),
             ps_address = (case binding of None \<Rightarrow> [] | Some b \<Rightarrow> pb_address b),
             ps_device_address = (case binding of None \<Rightarrow> [] | Some b \<Rightarrow> pb_device_address b)\<rparr>)
       candidates"

definition select_vdsd_worker_launch_decision ::
  "ControllerConfig \<Rightarrow> u32 list \<Rightarrow> u32 list \<Rightarrow> string \<Rightarrow> bool \<Rightarrow> string list \<Rightarrow>
   VdsdWorkerLaunchDecision" where
  "select_vdsd_worker_launch_decision config available_ports reserved_ports device_address
     virtual_port_provider_available reserved_device_addresses =
     (if \<not> virtual_port_provider_available then
        \<lparr>ld_status = VirtualPortProviderUnavailable, ld_config = config, ld_port = 0,
         ld_device_address = device_address\<rparr>
      else if device_address \<in> set reserved_device_addresses then
        \<lparr>ld_status = DeviceAddressReserved, ld_config = config, ld_port = 0,
         ld_device_address = device_address\<rparr>
      else case select_controller_config_port config available_ports reserved_ports of
        None \<Rightarrow>
          \<lparr>ld_status = NoAvailablePort, ld_config = config, ld_port = 0,
           ld_device_address = device_address\<rparr>
      | Some port \<Rightarrow>
          \<lparr>ld_status = Ready, ld_config = config\<lparr>cfg_ports := [port]\<rparr>, ld_port = port,
           ld_device_address = device_address\<rparr>)"

definition vdsd_worker_config_is_stale ::
  "ConfigDb \<Rightarrow> string \<Rightarrow> ControllerProfile \<Rightarrow> u32 \<Rightarrow> bool \<Rightarrow> bool result" where
  "vdsd_worker_config_is_stale db address profile port port_enabled =
     res_bind (find_controller_config_by_address db address)
       (\<lambda>config. Inr (case config of
          None \<Rightarrow> True
        | Some c \<Rightarrow> cfg_profile c \<noteq> profile \<or> \<not> controller_config_allows_port c port \<or> \<not> port_enabled))"

fun record_vdsd_worker_failure ::
  "VdsdWorkerFailureBackoff list \<Rightarrow> string \<Rightarrow> int \<Rightarrow> VdsdWorkerFailureBackoff list" where
  "record_vdsd_worker_failure [] address retry_after =
     [\<lparr>bo_address = address, bo_retry_after = retry_after\<rparr>]"
| "record_vdsd_worker_failure (entry # entries) address retry_after =
     (if bo_address entry = address then entry\<lparr>bo_retry_after := retry_after\<rparr> # entries
      else entry # record_vdsd_worker_failure entries address retry_after)"

fun erase_first :: "('a \<Rightarrow> bool) \<Rightarrow> 'a list \<Rightarrow> 'a list" where
  "erase_first p [] = []"
| "erase_first p (x # xs) = (if p x then xs else x # erase_first p xs)"

definition consume_vdsd_worker_retry ::
  "VdsdWorkerFailureBackoff list \<Rightarrow> string \<Rightarrow> int \<Rightarrow> bool \<times> VdsdWorkerFailureBackoff list" where
  "consume_vdsd_worker_retry backoffs address now =
     (case find (\<lambda>e. bo_address e = address) backoffs of
        None \<Rightarrow> (True, backoffs)
      | Some existing \<Rightarrow>
          if now < bo_retry_after existing then (False, backoffs)
          else (True, erase_first (\<lambda>e. bo_address e = address) backoffs))"

section \<open>Replies\<close>

definition end_object :: string where "end_object = ''}'' @ [CHR 0x0A]"

definition format_control_list_line ::
  "VdsdControlControllerStatus list \<Rightarrow> ControllerConfig \<Rightarrow> string" where
  "format_control_list_line statuses controller =
     (let status = find (\<lambda>s. ccs_address s = cfg_address controller) statuses;
          connected = (case status of None \<Rightarrow> False | Some s \<Rightarrow> ccs_connected s) in
      ''{'' @ jsonl_string_field ''address'' (cfg_address controller) @ '','' @
      jsonl_bool_field ''connected'' connected @ '','' @
      jsonl_string_field ''path''
        (case status of None \<Rightarrow> [] | Some s \<Rightarrow> if connected then ccs_path s else []) @ '','' @
      jsonl_string_field ''profile'' (controller_profile_name (cfg_profile controller)) @ '','' @
      jsonl_unsigned_array_field ''ports'' (cfg_ports controller) @ end_object)"

definition format_control_list_reply :: "ConfigDb \<Rightarrow> VdsdControlControllerStatus list \<Rightarrow> string" where
  "format_control_list_reply db statuses =
     concat (map (format_control_list_line statuses) (controllers db))"

definition find_controller_target_by_address ::
  "ControllerTarget list \<Rightarrow> string \<Rightarrow> ControllerTarget option" where
  "find_controller_target_by_address targets address = find (\<lambda>t. tgt_address t = address) targets"

definition format_control_target_jsonl :: "ControllerTarget \<Rightarrow> bool \<Rightarrow> string" where
  "format_control_target_jsonl target registered =
     ''{'' @ jsonl_string_field ''address'' (tgt_address target) @ '','' @
     jsonl_string_field ''name'' (tgt_name target) @ '','' @
     jsonl_bool_field ''online'' (tgt_online target) @ '','' @
     jsonl_bool_field ''registered'' registered @ end_object"

text \<open>Targets with the same address, whose order \<open>std::sort\<close> leaves open, keep theirs here.\<close>

definition format_control_list_targets_reply :: "ConfigDb \<Rightarrow> ControllerTarget list \<Rightarrow> string result" where
  "format_control_list_targets_reply db targets =
     res_bind (res_mapM (\<lambda>t. res_bind (find_controller_config_by_address db (tgt_address t))
                 (\<lambda>c. Inr (format_control_target_jsonl t (c \<noteq> None))))
               (sort_key tgt_address targets))
       (\<lambda>lines. Inr (concat lines))"

definition port_status_paths :: "VdsdControlPortStatus list \<Rightarrow> string list" where
  "port_status_paths ports = map ps_path ports"

definition format_control_error_reply :: "string \<Rightarrow> string" where
  "format_control_error_reply error =
     ''{'' @ jsonl_bool_field ''OK'' False @ '','' @ jsonl_string_field ''error'' error @ end_object"

definition format_control_attach_reply :: "bool \<Rightarrow> string \<Rightarrow> ControllerConfig \<Rightarrow> string" where
  "format_control_attach_reply ok error config =
     ''{'' @ jsonl_bool_field ''OK'' ok @ '','' @ jsonl_string_field ''error'' error @ '','' @
     jsonl_string_field ''address'' (cfg_address config) @ '','' @
     jsonl_unsigned_array_field ''ports'' (cfg_ports config) @ '','' @
     jsonl_string_field ''profile'' (controller_profile_name (cfg_profile config)) @ end_object"

definition format_control_detach_reply :: "bool \<Rightarrow> string \<Rightarrow> string \<Rightarrow> string" where
  "format_control_detach_reply ok error address =
     ''{'' @ jsonl_bool_field ''OK'' ok @ '','' @ jsonl_string_field ''error'' error @ '','' @
     jsonl_string_field ''address'' address @ end_object"

definition format_control_trace_reply :: "bool \<Rightarrow> string \<Rightarrow> u32 \<Rightarrow> string" where
  "format_control_trace_reply ok error trace_flags =
     ''{'' @ jsonl_bool_field ''OK'' ok @ '','' @ jsonl_string_field ''error'' error @ '','' @
     jsonl_bool_field ''trace'' (trace_flags AND kTraceAll \<noteq> 0) @
     '','' @ [CHR 0x22] @ ''scope'' @ [CHR 0x22] @ '':['' @
     append_scope (trace_enabled trace_flags kTraceOutput) (jsonl_string_value ''output'')
       (append_scope (trace_enabled trace_flags kTraceInputControl) (jsonl_string_value ''input-control'')
         (append_scope (trace_enabled trace_flags kTraceInputAudio) (jsonl_string_value ''input-audio'') [])) @
     '']'' @ end_object"

section \<open>Requests\<close>

text \<open>What a request meets: the ports and statuses of the daemon, its callback and the file.\<close>

record control_env =
  env_os :: platform
  env_controllers :: "VdsdControlControllerStatus list"
  env_ports :: "VdsdControlPortStatus list"
  env_targets :: "ControllerTarget list result"
  env_load :: file_view
  env_update :: file_view
  env_outcome :: write_outcome

text \<open>What it leaves: the reply, the two flags passed by reference, log records and the file.\<close>

record control_result =
  reply :: string
  trace_flags :: u32
  reload_requested :: bool
  log_records :: "log_record list"
  file_text :: "string option"

text \<open>\<open>try { x = m; k(x) } catch (e) { handler(e.what()) }\<close>, one throwing step at a time.\<close>

definition try_step :: "(string \<Rightarrow> 'r) \<Rightarrow> 'a result \<Rightarrow> ('a \<Rightarrow> 'r) \<Rightarrow> 'r" where
  "try_step handler m k = (case m of Inl e \<Rightarrow> handler (what e) | Inr x \<Rightarrow> k x)"

definition control_context :: string where "control_context = ''control request''"

definition empty_config :: ControllerConfig where
  "empty_config = \<lparr>cfg_address = [], cfg_profile = Unspecified, cfg_ports = []\<rparr>"

definition quiet_result :: "u32 \<Rightarrow> bool \<Rightarrow> string \<Rightarrow> control_result" where
  "quiet_result flags reload text =
     \<lparr>reply = text, trace_flags = flags, reload_requested = reload, log_records = [], file_text = None\<rparr>"

definition attach_catch :: "u32 \<Rightarrow> bool \<Rightarrow> ControllerConfig \<Rightarrow> string \<Rightarrow> control_result" where
  "attach_catch flags reload config error =
     quiet_result flags reload (format_control_attach_reply False error config)"

definition attach_reject ::
  "u32 \<Rightarrow> bool \<Rightarrow> string \<Rightarrow> string \<Rightarrow> ControllerConfig \<Rightarrow> string option \<Rightarrow> control_result" where
  "attach_reject flags reload error detail config written =
     \<lparr>reply = format_control_attach_reply False error config, trace_flags = flags,
      reload_requested = reload,
      log_records = [(Control, Warn, ''attach rejected '' @ error @ detail)], file_text = written\<rparr>"

definition attach_update ::
  "platform \<Rightarrow> string list \<Rightarrow> ControllerConfig \<Rightarrow> ConfigDb \<Rightarrow>
   (ConfigDb \<times> ControllerConfig \<times> bool) result" where
  "attach_update os devices config db =
     res_bind (find_controller_config_by_address db (cfg_address config))
       (\<lambda>registered. case registered of
          Some r \<Rightarrow> Inr (db, r, True)
        | None \<Rightarrow> res_bind (upsert_controller_config db config)
            (\<lambda>db'. res_bind (validate_config_assignments os db' devices)
              (\<lambda>_. Inr (db', config, False))))"

definition attach_commit :: "control_env \<Rightarrow> u32 \<Rightarrow> bool \<Rightarrow> ControllerConfig \<Rightarrow> control_result" where
  "attach_commit env flags reload config =
     (case update_config_db (env_update env)
             (attach_update (env_os env) (port_status_paths (env_ports env)) config)
             (env_outcome env) of
        (assigned, Inl e, written) \<Rightarrow>
          (attach_catch flags reload (case assigned of None \<Rightarrow> config | Some (c, _) \<Rightarrow> c) (what e))
            \<lparr>file_text := written\<rparr>
      | (assigned, Inr db, written) \<Rightarrow>
          (case the assigned of (c, already_registered) \<Rightarrow>
             if already_registered then
               attach_reject flags reload ''address is already registered'' ('': '' @ cfg_address c) c written
             else
               \<lparr>reply = format_control_attach_reply True [] c, trace_flags = flags,
                reload_requested = True,
                log_records = [(Control, Info, ''attached controller config '' @ format_controller_config c)],
                file_text = written\<rparr>))"

definition handle_attach_control_request ::
  "JsonlField list \<Rightarrow> control_env \<Rightarrow> u32 \<Rightarrow> bool \<Rightarrow> control_result" where
  "handle_attach_control_request flds env flags reload =
     (let catch = attach_catch flags reload in
      try_step (catch empty_config)
        (res_bind (require_jsonl_string flds ''address'' control_context) normalize_bluetooth_address)
        (\<lambda>address. try_step (catch empty_config) (load_config_db (env_load env))
          (\<lambda>current_db. try_step (catch empty_config) (find_controller_config_by_address current_db address)
            (\<lambda>registered.
               let config = (case registered of None \<Rightarrow> empty_config | Some c \<Rightarrow> c) in
               try_step (catch config)
                 (reject_unknown_jsonl_fields flds [''command'', ''address'', ''profile'', ''ports'']
                    control_context)
                 (\<lambda>_.
                    if cfg_address config \<noteq> [] then
                      attach_reject flags reload ''address is already registered''
                        ('': '' @ cfg_address config) config None
                    else
                      (let config = config\<lparr>cfg_address := address\<rparr> in
                       try_step (catch config)
                         (res_bind (require_jsonl_string flds ''profile'' control_context)
                            parse_controller_profile)
                         (\<lambda>profile. let config = config\<lparr>cfg_profile := profile\<rparr> in
                            try_step (catch config)
                              (require_jsonl_unsigned_array flds ''ports'' control_context)
                              (\<lambda>ports. let config = config\<lparr>cfg_ports := ports\<rparr> in
                                 try_step (catch config) (env_targets env)
                                   (\<lambda>targets.
                                      if find_controller_target_by_address targets (cfg_address config) = None
                                      then attach_reject flags reload
                                             (''address is not paired, not supported, or not attachable; run '' @
                                              ''vdsctl list-targets'') [] empty_config None
                                      else attach_commit env flags reload config)))))))))"

definition detach_catch :: "u32 \<Rightarrow> bool \<Rightarrow> string \<Rightarrow> string \<Rightarrow> control_result" where
  "detach_catch flags reload address error =
     quiet_result flags reload (format_control_detach_reply False error address)"

definition detach_update :: "string \<Rightarrow> ConfigDb \<Rightarrow> (ConfigDb \<times> bool) result" where
  "detach_update address db =
     res_bind (remove_controller_config db address) (\<lambda>(removed, db'). Inr (db', removed))"

definition detach_commit :: "control_env \<Rightarrow> u32 \<Rightarrow> bool \<Rightarrow> string \<Rightarrow> control_result" where
  "detach_commit env flags reload address =
     (case update_config_db (env_update env) (detach_update address) (env_outcome env) of
        (assigned, Inl e, written) \<Rightarrow>
          (detach_catch flags reload address (what e))\<lparr>file_text := written\<rparr>
      | (assigned, Inr db, written) \<Rightarrow>
          (let removed = the assigned in
           \<lparr>reply = (if removed then format_control_detach_reply True [] address
                     else format_control_detach_reply False ''address is not registered'' []),
            trace_flags = flags, reload_requested = removed,
            log_records = [(Control, Info, (if removed then ''detached '' else ''detach ignored '') @ address)],
            file_text = written\<rparr>))"

definition handle_detach_control_request ::
  "JsonlField list \<Rightarrow> control_env \<Rightarrow> u32 \<Rightarrow> bool \<Rightarrow> control_result" where
  "handle_detach_control_request flds env flags reload =
     (let catch = detach_catch flags reload in
      try_step (catch [])
        (res_bind (require_jsonl_string flds ''address'' control_context) normalize_bluetooth_address)
        (\<lambda>normalized. try_step (catch normalized) (load_config_db (env_load env))
          (\<lambda>current_db. try_step (catch normalized) (find_controller_config_by_address current_db normalized)
            (\<lambda>registered.
               let address = (if registered = None then [] else normalized) in
               try_step (catch address)
                 (reject_unknown_jsonl_fields flds [''command'', ''address''] control_context)
                 (\<lambda>_.
                    if address = [] then
                      quiet_result flags reload
                        (format_control_detach_reply False ''address is not registered'' address)
                    else detach_commit env flags reload address)))))"

definition handle_list_control_request :: "JsonlField list \<Rightarrow> control_env \<Rightarrow> string result" where
  "handle_list_control_request flds env =
     res_bind (reject_unknown_jsonl_fields flds [''command''] control_context)
       (\<lambda>_. res_bind (load_config_db (env_load env))
         (\<lambda>db. Inr (format_control_list_reply db (env_controllers env))))"

text \<open>
  The two arguments of the call, the load and the callback, are evaluated in an order the
  language leaves open: \<open>targets_first\<close> chooses it (it decides which exception wins).
\<close>

definition handle_list_targets_control_request ::
  "bool \<Rightarrow> JsonlField list \<Rightarrow> control_env \<Rightarrow> string result" where
  "handle_list_targets_control_request targets_first flds env =
     res_bind (reject_unknown_jsonl_fields flds [''command''] control_context)
       (\<lambda>_. if targets_first
            then res_bind (env_targets env) (\<lambda>targets. res_bind (load_config_db (env_load env))
                   (\<lambda>db. format_control_list_targets_reply db targets))
            else res_bind (load_config_db (env_load env)) (\<lambda>db. res_bind (env_targets env)
                   (\<lambda>targets. format_control_list_targets_reply db targets)))"

definition apply_trace_mode :: "string \<Rightarrow> u32 \<Rightarrow> u32 \<Rightarrow> (bool \<times> u32) result" where
  "apply_trace_mode mode scope flags =
     (if mode = ''on'' then Inr (True, flags OR scope)
      else if mode = ''off'' then Inr (False, flags AND NOT scope)
      else Inl (Runtime_error ''trace mode must be on or off''))"

definition handle_trace_control_request :: "JsonlField list \<Rightarrow> u32 \<Rightarrow> bool \<Rightarrow> control_result" where
  "handle_trace_control_request flds flags reload =
     (case res_bind (reject_unknown_jsonl_fields flds [''command'', ''mode'', ''scope''] control_context)
             (\<lambda>_. res_bind (require_jsonl_string flds ''mode'' control_context)
               (\<lambda>mode. res_bind (require_jsonl_string flds ''scope'' control_context)
                 (\<lambda>s. res_bind (parse_trace_scope s)
                   (\<lambda>scope. res_bind (apply_trace_mode mode scope flags)
                     (\<lambda>(enabled, flags'). Inr (scope, enabled, flags')))))) of
        Inl e \<Rightarrow> quiet_result flags reload (format_control_trace_reply False (what e) flags)
      | Inr (scope, enabled, flags') \<Rightarrow>
          \<lparr>reply = format_control_trace_reply True [] flags', trace_flags = flags',
           reload_requested = reload,
           log_records = [(Control, Info, ''trace '' @ trace_scope_name scope @ '' '' @
              (if enabled then ''enabled'' else ''disabled'') @ '' active='' @ active_trace_name flags')],
           file_text = None\<rparr>)"

definition reply_or_error :: "u32 \<Rightarrow> bool \<Rightarrow> string result \<Rightarrow> control_result" where
  "reply_or_error flags reload r =
     try_step (\<lambda>e. quiet_result flags reload (format_control_error_reply e)) r (quiet_result flags reload)"

definition handle_vdsd_control_command ::
  "bool \<Rightarrow> string \<Rightarrow> control_env \<Rightarrow> u32 \<Rightarrow> bool \<Rightarrow> control_result" where
  "handle_vdsd_control_command targets_first request env flags reload =
     try_step (\<lambda>e. quiet_result flags reload (format_control_error_reply e))
       (res_bind (parse_jsonl_object request control_context)
          (\<lambda>flds. res_bind (require_jsonl_string flds ''command'' control_context)
            (\<lambda>command. Inr (flds, command))))
       (\<lambda>(flds, command).
          if command = ''attach'' then handle_attach_control_request flds env flags reload
          else if command = ''detach'' then handle_detach_control_request flds env flags reload
          else if command = ''list'' then
            reply_or_error flags reload (handle_list_control_request flds env)
          else if command = ''list-targets'' then
            reply_or_error flags reload (handle_list_targets_control_request targets_first flds env)
          else if command = ''trace'' then handle_trace_control_request flds flags reload
          else \<lparr>reply = format_control_error_reply (''unknown command: '' @ command),
                trace_flags = flags, reload_requested = reload,
                log_records = [(Control, Warn, ''unknown command: '' @ command)], file_text = None\<rparr>)"

section \<open>Trace flags\<close>

lemmas trace_defs = kTraceAll_def kTraceInput_def kTraceInputAudio_def kTraceInputControl_def
  kTraceOutput_def

lemma trace_scope_item_range: "trace_scope_item item = Some f \<Longrightarrow> f \<noteq> 0 \<and> f AND NOT kTraceAll = 0"
  by (auto simp: trace_scope_item_def trace_defs split: if_splits)

lemma or_subset: "(a :: u32) AND NOT m = 0 \<Longrightarrow> b AND NOT m = 0 \<Longrightarrow> (a OR b) AND NOT m = 0"
  by (simp add: bit_eq_iff bit_simps) blast

lemma or_nonzero: "(b :: u32) \<noteq> 0 \<Longrightarrow> a OR b \<noteq> 0"
  by (simp add: bit_eq_iff bit_simps) blast

lemma parse_trace_scope_loop_range:
  "parse_trace_scope_loop scope flags = Inr f \<Longrightarrow> flags AND NOT kTraceAll = 0 \<Longrightarrow>
   f \<noteq> 0 \<and> f AND NOT kTraceAll = 0"
proof (induction scope flags rule: parse_trace_scope_loop.induct)
  case (1 scope flags)
  from "1.prems"(1) obtain g where
    g: "trace_scope_item (takeWhile (\<lambda>c. c \<noteq> CHR '','') scope) = Some g"
    by (subst (asm) parse_trace_scope_loop.simps) (auto split: option.splits)
  have sub: "(flags OR g) AND NOT kTraceAll = 0" "flags OR g \<noteq> 0"
    using trace_scope_item_range [OF g] "1.prems"(2) or_subset or_nonzero by blast+
  show ?case
  proof (cases "dropWhile (\<lambda>c. c \<noteq> CHR '','') scope")
    case Nil
    with "1.prems"(1) g have "f = flags OR g"
      by (subst (asm) parse_trace_scope_loop.simps) simp
    with sub show ?thesis by simp
  next
    case (Cons s rest)
    with "1.prems"(1) g have "parse_trace_scope_loop rest (flags OR g) = Inr f"
      by (subst (asm) parse_trace_scope_loop.simps) simp
    with "1.IH" [OF g Cons] sub show ?thesis by blast
  qed
qed

lemma parse_trace_scope_range: "parse_trace_scope s = Inr f \<Longrightarrow> f \<noteq> 0 \<and> f AND NOT kTraceAll = 0"
  unfolding parse_trace_scope_def
  by (rule parse_trace_scope_loop_range, assumption) (simp add: bit_eq_iff bit_simps)

lemma trace_handler_flags:
  "trace_flags (handle_trace_control_request flds flags reload) AND NOT kTraceAll = flags AND NOT kTraceAll"
proof -
  have k: "(flags OR f) AND NOT kTraceAll = flags AND NOT kTraceAll"
    "(flags AND NOT f) AND NOT kTraceAll = flags AND NOT kTraceAll" if "f AND NOT kTraceAll = 0" for f :: u32
    using that by (simp_all add: bit_eq_iff bit_simps) blast+
  show ?thesis
    using k parse_trace_scope_range
    by (auto simp: handle_trace_control_request_def quiet_result_def res_bind_Inr_iff apply_trace_mode_def
        split: sum.splits prod.splits if_splits)
qed

section \<open>What requests do to the database\<close>

lemma try_step_simps [simp]:
  "try_step h (Inl e) k = h (what e)"
  "try_step h (Inr x) k = k x"
  by (simp_all add: try_step_def)

text \<open>A result that leaves the file, the reload flag and the trace flags alone.\<close>

definition untouched :: "u32 \<Rightarrow> bool \<Rightarrow> control_result \<Rightarrow> bool" where
  "untouched flags reload r \<longleftrightarrow> file_text r = None \<and> reload_requested r = reload \<and> trace_flags r = flags"

lemma untouched_results [simp]:
  "untouched flags reload (quiet_result flags reload t)"
  "untouched flags reload (attach_catch flags reload c e)"
  "untouched flags reload (attach_reject flags reload e d c None)"
  "untouched flags reload (detach_catch flags reload a e)"
  "untouched flags reload (reply_or_error flags reload q)"
  by (auto simp: untouched_def quiet_result_def attach_catch_def attach_reject_def detach_catch_def
      reply_or_error_def try_step_def split: sum.splits)

lemma find_by_address_get:
  "find_controller_config_by_address db a = res_bind (normalize_bluetooth_address a) (\<lambda>n. Inr (db_get db n))"
  by (simp add: find_controller_config_by_address_def db_get_def)

lemma normalized_nonempty: "normalize_bluetooth_address a = Inr n \<Longrightarrow> n \<noteq> []"
  using normalize_idem by (fastforce simp: normalize_bluetooth_address_def)

lemma wf_config_address: "wf_config c \<Longrightarrow> cfg_address c \<noteq> []"
  using normalized_nonempty by (auto simp: wf_config_def)

lemma db_get_wf: "wf_db db \<Longrightarrow> db_get db n = Some c \<Longrightarrow> wf_config c \<and> cfg_address c = n"
  by (auto simp: db_get_def wf_db_def list_all_iff find_Some_iff)

lemma load_config_db_wf: "load_config_db view = Inr db \<Longrightarrow> wf_db db"
  by (auto simp: load_config_db_def res_bind_Inr_iff dest: parse_config_db_wf)

lemma try_step_cases:
  assumes "\<And>e. P (h e)" "\<And>x. m = Inr x \<Longrightarrow> P (k x)"
  shows "P (try_step h m k)"
  using assms by (cases m) simp_all

definition attach_done :: "control_env \<Rightarrow> u32 \<Rightarrow> bool \<Rightarrow> control_result \<Rightarrow> bool" where
  "attach_done env flags reload r \<longleftrightarrow> untouched flags reload r \<or>
     (\<exists>config. normalize_bluetooth_address (cfg_address config) = Inr (cfg_address config) \<and>
        r = attach_commit env flags reload config)"

definition detach_done :: "control_env \<Rightarrow> u32 \<Rightarrow> bool \<Rightarrow> control_result \<Rightarrow> bool" where
  "detach_done env flags reload r \<longleftrightarrow> untouched flags reload r \<or>
     (\<exists>a. normalize_bluetooth_address a = Inr a \<and> r = detach_commit env flags reload a)"

lemma attach_done_untouched: "untouched flags reload r \<Longrightarrow> attach_done env flags reload r"
  by (simp add: attach_done_def)

lemma attach_done_commit:
  "normalize_bluetooth_address (cfg_address config) = Inr (cfg_address config) \<Longrightarrow>
   attach_done env flags reload (attach_commit env flags reload config)"
  unfolding attach_done_def by blast

lemma if_step_cases: "(b \<Longrightarrow> P x) \<Longrightarrow> (\<not> b \<Longrightarrow> P y) \<Longrightarrow> P (if b then x else y)"
  by simp

lemma attach_outcome: "attach_done env flags reload (handle_attach_control_request flds env flags reload)"
  unfolding handle_attach_control_request_def Let_def
  by (intro try_step_cases [where P = "attach_done env flags reload"]
      if_step_cases [where P = "attach_done env flags reload"]
      attach_done_commit attach_done_untouched [OF untouched_results(2)]
      attach_done_untouched [OF untouched_results(3)])
    (auto simp: res_bind_Inr_iff dest: normalize_idem)

lemma detach_outcome: "detach_done env flags reload (handle_detach_control_request flds env flags reload)"
  unfolding handle_detach_control_request_def Let_def
  by (intro try_step_cases [where P = "detach_done env flags reload"])
    (auto simp: detach_done_def res_bind_Inr_iff dest: normalize_idem)

text \<open>
  The three things an update can do to the map of controllers: nothing, add one configuration at
  a free address, remove one registered address.
\<close>

inductive db_step :: "(string \<rightharpoonup> ControllerConfig) \<Rightarrow> (string \<rightharpoonup> ControllerConfig) \<Rightarrow> bool" where
  keep: "db_step m m"
| add: "wf_config c \<Longrightarrow> m (cfg_address c) = None \<Longrightarrow> db_step m (m(cfg_address c \<mapsto> c))"
| drop: "m a \<noteq> None \<Longrightarrow> db_step m (m(a := None))"

text \<open>
  A written result: the new file holds a well-formed database one step away; the reload flag
  is set when the write was completed and the map changed, and in no other case unless it was set before.
\<close>

definition stepped :: "ConfigDb \<Rightarrow> write_outcome \<Rightarrow> bool \<Rightarrow> control_result \<Rightarrow> bool" where
  "stepped db outcome reload r \<longleftrightarrow>
     (case file_text r of
        None \<Rightarrow> True
      | Some t \<Rightarrow> \<exists>db'. parse_config_db t = Inr db' \<and> wf_db db' \<and> db_step (db_get db) (db_get db') \<and>
          (outcome = Written \<and> db_get db' \<noteq> db_get db \<longrightarrow> reload_requested r) \<and>
          (reload_requested r \<longrightarrow> reload \<or> outcome = Written \<and> db_get db' \<noteq> db_get db))"

lemma update_config_db_cases:
  assumes "load_config_db view = Inr db" "update_config_db view update outcome = (s, r, w)"
  shows "(\<exists>e. update db = Inl e \<and> s = None \<and> r = Inl e \<and> w = None) \<or>
    (\<exists>db' x. update db = Inr (db', x) \<and> s = Some x \<and>
      (outcome = Written \<and> r = Inr db' \<and> w = Some (serialize_config_db db') \<or>
       outcome \<noteq> Written \<and> (\<exists>e. r = Inl e) \<and> (w = None \<or> w = Some (serialize_config_db db'))))"
  using assms unfolding update_config_db_def Let_def
  by (cases "update db"; cases outcome) auto

lemma attach_update_cases:
  assumes "attach_update os devices config db = Inr (db', c, already)" "wf_db db"
    and "normalize_bluetooth_address (cfg_address config) = Inr (cfg_address config)"
  shows "(already \<and> db' = db \<and> db_get db (cfg_address config) = Some c) \<or>
    (\<not> already \<and> c = config \<and> wf_db db' \<and> db_get db (cfg_address config) = None \<and>
     (\<exists>c'. canon_config config = Inr c' \<and> cfg_address c' = cfg_address config \<and> wf_config c' \<and>
        db_get db' = (db_get db)(cfg_address config \<mapsto> c')))"
proof (cases "db_get db (cfg_address config)")
  case None
  with assms have "upsert_controller_config db config = Inr db'" and r: "\<not> already" "c = config"
    by (auto simp: attach_update_def find_by_address_get res_bind_Inr_iff)
  then obtain c' where c': "canon_config config = Inr c'" by (auto simp: upsert_canon res_bind_Inr_iff)
  moreover have "cfg_address c' = cfg_address config"
    using c' assms(3) by (auto simp: canon_config_def res_bind_Inr_iff)
  moreover have "wf_config c'" by (rule canon_config_wf [OF c'])
  moreover have "wf_db db' \<and> db_get db' = (db_get db)(cfg_address c' \<mapsto> c')"
    using config_map.put_get [OF c' assms(2)] \<open>upsert_controller_config db config = Inr db'\<close> by auto
  ultimately show ?thesis using None r by auto
next
  case (Some c')
  with assms show ?thesis by (auto simp: attach_update_def find_by_address_get)
qed

lemma stepped_serialize:
  assumes "file_text r = Some (serialize_config_db db')" "wf_db db'" "db_step (db_get db) (db_get db')"
    and "outcome = Written \<and> db_get db' \<noteq> db_get db \<longrightarrow> reload_requested r"
    and "reload_requested r \<longrightarrow> reload \<or> outcome = Written \<and> db_get db' \<noteq> db_get db"
  shows "stepped db outcome reload r"
  using assms parse_serialize_db unfolding stepped_def by fastforce

lemma attach_commit_stepped:
  assumes db: "load_config_db (env_update env) = Inr db"
    and config: "normalize_bluetooth_address (cfg_address config) = Inr (cfg_address config)"
  shows "stepped db (env_outcome env) reload (attach_commit env flags reload config)"
proof -
  let ?upd = "attach_update (env_os env) (port_status_paths (env_ports env)) config"
  let ?r = "attach_commit env flags reload config"
  obtain s r w where u: "update_config_db (env_update env) ?upd (env_outcome env) = (s, r, w)"
    by (metis prod_cases3)
  have wf: "wf_db db" by (rule load_config_db_wf [OF db])
  from update_config_db_cases [OF db u] show ?thesis
  proof (elim disjE exE conjE)
    fix e assume "s = None" "r = Inl e" "w = None"
    then show ?thesis by (simp add: stepped_def attach_commit_def u)
  next
    fix db' x
    assume x: "?upd db = Inr (db', x)" and s: "s = Some x"
      and o: "env_outcome env = Written" and r: "r = Inr db'" and w: "w = Some (serialize_config_db db')"
    obtain c al where [simp]: "x = (c, al)" by (cases x)
    from attach_update_cases [OF _ wf config, of "env_os env" "port_status_paths (env_ports env)" db' c al] x
    have "db_step (db_get db) (db_get db')" "wf_db db'" "al \<longleftrightarrow> db_get db' = db_get db"
      using wf by (auto intro: db_step.intros dest: fun_cong [where x = "cfg_address config"])
         (metis db_step.add)
    then show ?thesis
      by (intro stepped_serialize [of _ db'])
        (auto simp: attach_commit_def o u [unfolded o] s r w attach_reject_def)
  next
    fix db' x e
    assume x: "?upd db = Inr (db', x)" and s: "s = Some x"
      and o: "env_outcome env \<noteq> Written" and r: "r = Inl e"
    obtain c al where [simp]: "x = (c, al)" by (cases x)
    show "w = None \<Longrightarrow> ?thesis" by (simp add: stepped_def attach_commit_def u s r)
    assume w: "w = Some (serialize_config_db db')"
    from attach_update_cases [OF _ wf config, of "env_os env" "port_status_paths (env_ports env)" db' c al] x
    have "db_step (db_get db) (db_get db')" "wf_db db'"
      using wf by (auto intro: db_step.intros) (metis db_step.add)
    with o show ?thesis
      by (intro stepped_serialize [of _ db'])
        (auto simp: attach_commit_def u s r w attach_catch_def quiet_result_def)
  qed
qed

lemma remove_step:
  assumes "wf_db db" "normalize_bluetooth_address a = Inr a" "detach_update a db = Inr (db', removed)"
  shows "wf_db db'" "db_step (db_get db) (db_get db')" "removed \<longleftrightarrow> db_get db' \<noteq> db_get db"
    "removed \<longleftrightarrow> db_get db a \<noteq> None" "db_get db' = (db_get db)(a := None)"
proof -
  from assms config_map.del_get [OF assms(2,1)]
  have *: "removed \<longleftrightarrow> db_get db a \<noteq> None" "wf_db db'" "db_get db' = (db_get db)(a := None)"
    by (auto simp: detach_update_def res_bind_Inr_iff)
  then show "wf_db db'" "removed \<longleftrightarrow> db_get db a \<noteq> None" "db_get db' = (db_get db)(a := None)" by blast+
  show "removed \<longleftrightarrow> db_get db' \<noteq> db_get db"
    using *(1,3) by (metis fun_upd_same fun_upd_triv)
  show "db_step (db_get db) (db_get db')"
    using * by (cases "db_get db a = None") (auto intro: db_step.intros simp: fun_upd_idem)
qed

lemma detach_commit_stepped:
  assumes db: "load_config_db (env_update env) = Inr db" and a: "normalize_bluetooth_address a = Inr a"
  shows "stepped db (env_outcome env) reload (detach_commit env flags reload a)"
proof -
  obtain s r w where u: "update_config_db (env_update env) (detach_update a) (env_outcome env) = (s, r, w)"
    by (metis prod_cases3)
  have wf: "wf_db db" by (rule load_config_db_wf [OF db])
  from update_config_db_cases [OF db u] show ?thesis
  proof (elim disjE exE conjE)
    fix e assume "r = Inl e" "w = None"
    then show ?thesis by (simp add: stepped_def detach_commit_def u)
  next
    fix db' x
    assume x: "detach_update a db = Inr (db', x)" and s: "s = Some x"
      and o: "env_outcome env = Written" and r: "r = Inr db'" and w: "w = Some (serialize_config_db db')"
    from remove_step [OF wf a x] show ?thesis
      by (intro stepped_serialize [of _ db']) (auto simp: detach_commit_def o u [unfolded o] s r w)
  next
    fix db' x e
    assume x: "detach_update a db = Inr (db', x)" and o: "env_outcome env \<noteq> Written" and r: "r = Inl e"
    show "w = None \<Longrightarrow> ?thesis" by (simp add: stepped_def detach_commit_def u r)
    assume w: "w = Some (serialize_config_db db')"
    from remove_step [OF wf a x] o show ?thesis
      by (intro stepped_serialize [of _ db'])
        (auto simp: detach_commit_def u r w detach_catch_def quiet_result_def)
  qed
qed

lemma untouched_stepped: "untouched flags reload r \<Longrightarrow> stepped db outcome reload r"
  by (simp add: untouched_def stepped_def)

lemma trace_stepped: "stepped db outcome reload (handle_trace_control_request flds flags reload)"
  by (auto simp: stepped_def handle_trace_control_request_def quiet_result_def
      split: sum.splits prod.splits)

lemma command_stepped:
  assumes db: "load_config_db (env_update env) = Inr db"
  shows "stepped db (env_outcome env) reload (handle_vdsd_control_command tf request env flags reload)"
proof -
  have a: "stepped db (env_outcome env) reload (handle_attach_control_request flds env flags reload)" for flds
    using attach_outcome [of env flags reload flds] untouched_stepped attach_commit_stepped [OF db]
    unfolding attach_done_def by metis
  have d: "stepped db (env_outcome env) reload (handle_detach_control_request flds env flags reload)" for flds
    using detach_outcome [of env flags reload flds] untouched_stepped detach_commit_stepped [OF db]
    unfolding detach_done_def by metis
  note q = untouched_stepped [OF untouched_results(1)] untouched_stepped [OF untouched_results(5)]
  show ?thesis
    unfolding handle_vdsd_control_command_def
    by (rule try_step_cases) (auto simp: a d q trace_stepped split: prod.splits, simp add: stepped_def)
qed

section \<open>Sessions\<close>

text \<open>
  One request served by the daemon while no other process writes the file: both reads see the
  current text. The state is the file, the trace flags and the reload flag.
\<close>

record control_state =
  cs_file :: string
  cs_trace :: u32
  cs_reload :: bool

definition serve :: "control_state \<Rightarrow> string \<times> control_env \<Rightarrow> control_state" where
  "serve s req =
     (let r = handle_vdsd_control_command False (fst req)
                ((snd req)\<lparr>env_load := Inr (cs_file s), env_update := Inr (cs_file s)\<rparr>)
                (cs_trace s) (cs_reload s) in
      \<lparr>cs_file = (case file_text r of None \<Rightarrow> cs_file s | Some t \<Rightarrow> t),
       cs_trace = trace_flags r, cs_reload = reload_requested r\<rparr>)"

definition holds_db :: "control_state \<Rightarrow> ConfigDb \<Rightarrow> bool" where
  "holds_db s db \<longleftrightarrow> parse_config_db (cs_file s) = Inr db \<and> wf_db db"

lemma serve_step:
  assumes "holds_db s db"
  shows "\<exists>db'. holds_db (serve s req) db' \<and> db_step (db_get db) (db_get db')"
proof -
  let ?env = "(snd req)\<lparr>env_load := Inr (cs_file s), env_update := Inr (cs_file s)\<rparr>"
  let ?r = "handle_vdsd_control_command False (fst req) ?env (cs_trace s) (cs_reload s)"
  have "load_config_db (env_update ?env) = Inr db" using assms by (simp add: load_config_db_def holds_db_def)
  from command_stepped [OF this, of "cs_reload s" False "fst req" "cs_trace s"]
  have st: "stepped db (env_outcome ?env) (cs_reload s) ?r" .
  show ?thesis
  proof (cases "file_text ?r")
    case None
    with assms show ?thesis by (auto simp: serve_def Let_def holds_db_def intro: db_step.keep)
  next
    case (Some t)
    with st show ?thesis by (auto simp: serve_def Let_def holds_db_def stepped_def)
  qed
qed

lemma serve_all:
  "holds_db s db \<Longrightarrow> \<exists>db'. holds_db (foldl serve s reqs) db' \<and> db_step\<^sup>*\<^sup>* (db_get db) (db_get db')"
proof (induction reqs arbitrary: s db)
  case (Cons req reqs)
  from serve_step [OF Cons.prems, of req] obtain db1 where
    db1: "holds_db (serve s req) db1" "db_step (db_get db) (db_get db1)" by blast
  from Cons.IH [OF db1(1)] db1(2) show ?case by (auto intro: converse_rtranclp_into_rtranclp)
qed auto

lemma command_trace_flags:
  "trace_flags (handle_vdsd_control_command tf request env flags reload) AND NOT kTraceAll =
   flags AND NOT kTraceAll"
proof -
  let ?P = "\<lambda>r. trace_flags r AND NOT kTraceAll = flags AND NOT kTraceAll"
  have c: "?P (attach_commit env flags reload config)" "?P (detach_commit env flags reload a)" for config a
    by (auto simp: attach_commit_def detach_commit_def attach_catch_def attach_reject_def detach_catch_def
        quiet_result_def Let_def split: prod.splits sum.splits)
  have u: "untouched flags reload r \<Longrightarrow> ?P r" for r by (simp add: untouched_def)
  have a: "?P (handle_attach_control_request flds env flags reload)" for flds
    using attach_outcome [of env flags reload flds] c(1) u by (auto simp: attach_done_def)
  have d: "?P (handle_detach_control_request flds env flags reload)" for flds
    using detach_outcome [of env flags reload flds] c(2) u by (auto simp: detach_done_def)
  have q: "?P (quiet_result flags reload t)" "?P (reply_or_error flags reload x)" for t x
    by (auto intro: u)
  show ?thesis
    unfolding handle_vdsd_control_command_def
    by (rule try_step_cases [where P = ?P]) (auto simp: a d q trace_handler_flags split: prod.splits)
qed

section \<open>Backoffs and warnings\<close>

definition backoff_get :: "VdsdWorkerFailureBackoff list \<Rightarrow> string \<Rightarrow> int option" where
  "backoff_get bs a = map_option bo_retry_after (find (\<lambda>e. bo_address e = a) bs)"

definition wf_backoffs :: "VdsdWorkerFailureBackoff list \<Rightarrow> bool" where
  "wf_backoffs bs \<longleftrightarrow> distinct (map bo_address bs)"

lemma record_addresses:
  "bo_address ` set (record_vdsd_worker_failure bs a t) = insert a (bo_address ` set bs)"
  by (induction bs) auto

lemma record_wf: "wf_backoffs bs \<Longrightarrow> wf_backoffs (record_vdsd_worker_failure bs a t)"
proof (induction bs)
  case (Cons b bs)
  have "bo_address ` set (record_vdsd_worker_failure bs a t) = insert a (bo_address ` set bs)"
    by (rule record_addresses)
  with Cons show ?case by (auto simp: wf_backoffs_def)
qed (simp add: wf_backoffs_def)

lemma record_get: "backoff_get (record_vdsd_worker_failure bs a t) = (backoff_get bs)(a \<mapsto> t)"
  by (induction bs) (auto simp: backoff_get_def fun_eq_iff)

lemma erase_first_subset: "set (erase_first p xs) \<subseteq> set xs"
  by (induction xs) auto

lemma erase_first_wf: "wf_backoffs bs \<Longrightarrow> wf_backoffs (erase_first p bs)"
proof (induction bs)
  case (Cons b bs)
  then show ?case using erase_first_subset [of p bs] by (auto simp: wf_backoffs_def)
qed (simp add: wf_backoffs_def)

lemma find_absent: "a \<notin> bo_address ` set bs \<Longrightarrow> find (\<lambda>e. bo_address e = a) bs = None"
  by (auto simp: find_None_iff)

lemma erase_first_get:
  "wf_backoffs bs \<Longrightarrow> backoff_get (erase_first (\<lambda>e. bo_address e = a) bs) = (backoff_get bs)(a := None)"
  by (induction bs) (auto simp: backoff_get_def wf_backoffs_def fun_eq_iff find_absent)

lemma consume_get:
  assumes "wf_backoffs bs"
  shows "consume_vdsd_worker_retry bs a now =
    (if (case backoff_get bs a of None \<Rightarrow> True | Some t \<Rightarrow> t \<le> now)
     then (True, erase_first (\<lambda>e. bo_address e = a) bs) else (False, bs))"
proof (cases "find (\<lambda>e. bo_address e = a) bs")
  case None
  then have "erase_first (\<lambda>e. bo_address e = a) bs = bs" by (induction bs) (auto split: if_splits)
  with None show ?thesis by (simp add: consume_vdsd_worker_retry_def backoff_get_def)
next
  case (Some e)
  then show ?thesis by (auto simp: consume_vdsd_worker_retry_def backoff_get_def)
qed

text \<open>The contract of a retry gate, and what a client that polls it can rely on.\<close>

fun poll :: "('g \<Rightarrow> string \<Rightarrow> int \<Rightarrow> bool \<times> 'g) \<Rightarrow> 'g \<Rightarrow> string \<Rightarrow> int list \<Rightarrow> bool list \<times> 'g" where
  "poll attempt g a [] = ([], g)"
| "poll attempt g a (now # nows) =
     (let (ok, g') = attempt g a now; (oks, g'') = poll attempt g' a nows in (ok # oks, g''))"

locale retry_gate =
  fixes deadline :: "'g \<Rightarrow> string \<Rightarrow> int option"
    and fail :: "'g \<Rightarrow> string \<Rightarrow> int \<Rightarrow> 'g"
    and attempt :: "'g \<Rightarrow> string \<Rightarrow> int \<Rightarrow> bool \<times> 'g"
    and wf :: "'g \<Rightarrow> bool"
  assumes fail_wf: "wf g \<Longrightarrow> wf (fail g a t)"
    and fail_deadline: "wf g \<Longrightarrow> deadline (fail g a t) = (deadline g)(a \<mapsto> t)"
    and refused: "wf g \<Longrightarrow> deadline g a = Some t \<Longrightarrow> now < t \<Longrightarrow> attempt g a now = (False, g)"
    and granted: "wf g \<Longrightarrow> deadline g a = None \<or> deadline g a = Some t \<and> t \<le> now \<Longrightarrow>
      \<exists>g'. attempt g a now = (True, g') \<and> wf g' \<and> deadline g' = (deadline g)(a := None)"
begin

lemma poll_free: "wf g \<Longrightarrow> deadline g a = None \<Longrightarrow> fst (poll attempt g a nows) = replicate (length nows) True"
proof (induction nows arbitrary: g)
  case (Cons now nows)
  from granted [OF Cons.prems(1), of a] Cons.prems(2) obtain g' where
    g': "attempt g a now = (True, g')" "wf g'" "deadline g' a = None" by fastforce
  with Cons.IH show ?case by (simp add: split_def Let_def)
qed simp

lemma poll_until_deadline:
  assumes "wf g" "deadline g a = Some t" "\<forall>x \<in> set early. x < t" "t \<le> now"
  shows "fst (poll attempt g a (early @ now # later)) =
    replicate (length early) False @ replicate (Suc (length later)) True"
  using assms(3)
proof (induction early)
  case Nil
  from granted [OF assms(1), of a t now] assms(2,4) obtain g' where
    g': "attempt g a now = (True, g')" "wf g'" "deadline g' a = None" by fastforce
  then show ?case using poll_free [OF g'(2,3), of later] by (simp add: split_def Let_def)
next
  case (Cons x early)
  with refused [OF assms(1,2), of x] show ?case by (simp add: split_def Let_def)
qed

lemma fail_then_poll:
  "wf g \<Longrightarrow> \<forall>x \<in> set early. x < t \<Longrightarrow> t \<le> now \<Longrightarrow>
   fst (poll attempt (fail g a t) a (early @ now # later)) =
   replicate (length early) False @ replicate (Suc (length later)) True"
  using poll_until_deadline [OF fail_wf] fail_deadline by simp

end

interpretation worker_backoff: retry_gate backoff_get record_vdsd_worker_failure
  consume_vdsd_worker_retry wf_backoffs
  by unfold_locales (auto simp: record_wf record_get consume_get erase_first_wf erase_first_get)

lemma remember_state_once:
  assumes "length (filter (prefix (key @ [CHR 0x0A])) ws) \<le> 1"
  shows "filter (prefix (key @ [CHR 0x0A])) (snd (remember_vdsd_warning_state ws key st)) =
    [key @ [CHR 0x0A] @ st]"
proof (cases "key @ [CHR 0x0A] @ st \<in> set ws")
  case True
  let ?e = "key @ [CHR 0x0A] @ st"
  let ?f = "filter (prefix (key @ [CHR 0x0A])) ws"
  have "prefix (key @ [CHR 0x0A]) ?e" by (metis append.assoc prefixI)
  with True have "?e \<in> set ?f" by simp
  with assms have "?f = [?e]" by (cases ?f) auto
  with True show ?thesis by (simp add: remember_vdsd_warning_state_def Let_def)
next
  case False
  have "prefix (key @ [CHR 0x0A]) (key @ CHR 0x0A # st)" by (metis append.assoc append_Cons append_Nil prefixI)
  with False show ?thesis
    by (simp add: remember_vdsd_warning_state_def Let_def)
qed

lemma remember_state_frame:
  assumes "\<not> prefix (key @ [CHR 0x0A]) w"
  shows "w \<in> set (snd (remember_vdsd_warning_state ws key st)) \<longleftrightarrow> w \<in> set ws"
proof -
  have "w \<noteq> key @ CHR 0x0A # st" using assms by (metis append.assoc append_Cons append_Nil prefixI)
  with assms show ?thesis by (auto simp: remember_vdsd_warning_state_def Let_def)
qed

section \<open>Properties\<close>



text \<open>
  A detach that finds its address unregistered overwrites the reload flag: a reload that was asked for before and has
  not run yet is lost.
\<close>

theorem ignored_detach_drops_reload:
  assumes "load_config_db (env_update env) = Inr db" "env_outcome env = Written"
    and "normalize_bluetooth_address a = Inr a" "db_get db a = None"
  shows "\<not> reload_requested (detach_commit env flags reload a)"
proof -
  obtain db' where "detach_update a db = Inr (db', False)"
    using config_map.del_get [OF assms(3) load_config_db_wf [OF assms(1)]] assms(3,4)
    by (auto simp: detach_update_def res_bind_def)
  then show ?thesis using assms(1,2) by (simp add: detach_commit_def update_config_db_def Let_def)
qed

text \<open>
  Sessions: starting from a valid database file, after any sequence of control requests
  (malformed ones, failing writes and failing callbacks included) the file is still valid and its
  map of controllers was reached by single additions and removals.
\<close>

theorem control_session_invariant:
  assumes "holds_db s db"
  shows "\<exists>db'. holds_db (foldl serve s reqs) db' \<and> db_step\<^sup>*\<^sup>* (db_get db) (db_get db')"
  using assms by (rule serve_all)

theorem control_session_invariant_witness:
  "\<exists>db'. holds_db (foldl serve \<lparr>cs_file = [], cs_trace = 0, cs_reload = False\<rparr>
      [(''{}'', \<lparr>env_os = Linux, env_controllers = [], env_ports = [], env_targets = Inr [], env_load = Inr [],
         env_update = Inr [], env_outcome = Written\<rparr>)]) db' \<and>
    db_step\<^sup>*\<^sup>* (db_get \<lparr>controllers = []\<rparr>) (db_get db')"
  by (rule control_session_invariant)
    (simp add: holds_db_def wf_db_def parse_config_db_def getlines.simps)

text \<open>
  Requests are confined to the trace bits: no request, trace requests included, changes a
  flag outside the three trace bits, and a scope that is accepted names at least one of them.
\<close>

theorem trace_requests_confined:
  "trace_flags (handle_vdsd_control_command tf request env flags reload) AND NOT kTraceAll =
     flags AND NOT kTraceAll \<and>
   (parse_trace_scope sc = Inr f \<longrightarrow> f \<noteq> 0 \<and> f AND NOT kTraceAll = 0)"
  using command_trace_flags parse_trace_scope_range by blast

theorem trace_requests_confined_witness:
  "parse_trace_scope ''output,input'' = Inr 7 \<and> (7 :: u32) AND NOT kTraceAll = 0"
proof -
  have p: "parse_trace_scope ''output,input'' = Inr 7" by code_simp
  with trace_requests_confined [of _ _ _ _ _ "''output,input''" 7] show ?thesis by blast
qed

text \<open>
  Scope names round trip: the name the daemon prints for a non-empty set of trace bits is
  accepted by its own scope parser and denotes the same bits.
\<close>

theorem trace_scope_roundtrip:
  assumes "0 < scope" "scope \<le> kTraceAll"
  shows "parse_trace_scope (trace_scope_name scope) = Inr scope"
proof -
  have "unat scope \<in> set [1..<8]"
    using assms by (auto simp: trace_defs word_less_nat_alt word_le_nat_alt)
  then have "scope \<in> set (map of_nat [1..<8])"
    unfolding set_map by (rule image_eqI [where x = "unat scope", rotated]) simp
  then have "scope \<in> {1, 2, 3, 4, 5, 6, 7}" by (simp add: upt_rec)
  moreover have "parse_trace_scope (trace_scope_name 1) = Inr 1" "parse_trace_scope (trace_scope_name 2) = Inr 2"
    "parse_trace_scope (trace_scope_name 3) = Inr 3" "parse_trace_scope (trace_scope_name 4) = Inr 4"
    "parse_trace_scope (trace_scope_name 5) = Inr 5" "parse_trace_scope (trace_scope_name 6) = Inr 6"
    "parse_trace_scope (trace_scope_name 7) = Inr 7" by code_simp+
  ultimately show ?thesis by auto
qed

theorem trace_scope_roundtrip_witness: "parse_trace_scope (trace_scope_name 6) = Inr 6"
  by (rule trace_scope_roundtrip) (simp_all add: trace_defs)

text \<open>
  The decision to launch a worker is exact: every verdict is given precisely for its reason,
  and a worker that is ready gets the least port that its configuration allows, that exists and
  that no worker has reserved, pinned as the only port of its configuration.
\<close>

theorem launch_decision_correct:
  assumes "sorted (cfg_ports config)" "\<forall>p \<in> set available. p < kMaxPortCount"
    and "select_vdsd_worker_launch_decision config available reserved device provider devices = d"
  shows "case ld_status d of
      VirtualPortProviderUnavailable \<Rightarrow> \<not> provider
    | DeviceAddressReserved \<Rightarrow> provider \<and> device \<in> set devices
    | NoAvailablePort \<Rightarrow> provider \<and> device \<notin> set devices \<and>
        (\<forall>q \<in> set available. controller_config_allows_port config q \<longrightarrow> q \<in> set reserved)
    | Ready \<Rightarrow> provider \<and> device \<notin> set devices \<and> ld_device_address d = device \<and>
        ld_config d = config\<lparr>cfg_ports := [ld_port d]\<rparr> \<and> controller_config_allows_port config (ld_port d) \<and>
        ld_port d \<in> set available \<and> ld_port d \<notin> set reserved \<and>
        (\<forall>q \<in> set available. controller_config_allows_port config q \<longrightarrow> q \<notin> set reserved \<longrightarrow> ld_port d \<le> q)"
  using select_port_spec [OF assms(1,2), of reserved] assms(3)
  by (cases "select_controller_config_port config available reserved")
    (auto simp: select_vdsd_worker_launch_decision_def split: if_splits)

theorem launch_decision_correct_witness:
  "controller_config_allows_port (empty_config\<lparr>cfg_ports := [1, 2]\<rparr>) 2 \<and>
   (2 :: u32) \<in> set [0, 1, 2] \<and> (2 :: u32) \<notin> set [1]"
proof -
  let ?c = "empty_config\<lparr>cfg_ports := [1, 2]\<rparr>"
  let ?d = "select_vdsd_worker_launch_decision ?c [0, 1, 2] [1] ''a'' True []"
  have "?d = \<lparr>ld_status = Ready, ld_config = ?c\<lparr>cfg_ports := [2]\<rparr>, ld_port = 2, ld_device_address = ''a''\<rparr>"
    by code_simp
  with launch_decision_correct [of ?c "[0, 1, 2]" "[1]" "''a''" True "[]" ?d] show ?thesis
    by (simp add: kMaxPortCount_def)
qed

text \<open>
  Backoff: after a worker failure every attempt before the recorded time is refused, however
  many there are, and the first attempt at or after it and all later ones are granted.
\<close>

theorem worker_backoff_gate:
  assumes "wf_backoffs bs" "\<forall>x \<in> set early. x < t" "t \<le> now"
  shows "fst (poll consume_vdsd_worker_retry (record_vdsd_worker_failure bs a t) a (early @ now # later)) =
    replicate (length early) False @ replicate (Suc (length later)) True"
  using assms by (rule worker_backoff.fail_then_poll)

theorem worker_backoff_gate_witness:
  "fst (poll consume_vdsd_worker_retry (record_vdsd_worker_failure [] ''a'' 10) ''a'' ([3, 9] @ 10 # [4])) =
   replicate 2 False @ replicate 2 True"
  using worker_backoff_gate [of "[]" "[3, 9]" 10 10 "''a''" "[4]"]
  by (simp add: wf_backoffs_def numeral_2_eq_2)

text \<open>
  Warnings are remembered per key: after a warning state is remembered it is the only state
  kept for its key, all entries of other keys are kept, and the caller is told to print exactly
  when the state is new.
\<close>

theorem warning_state_memory:
  assumes "length (filter (prefix (key @ [CHR 0x0A])) ws) \<le> 1"
    and "remember_vdsd_warning_state ws key st = (fresh, ws')"
  shows "filter (prefix (key @ [CHR 0x0A])) ws' = [key @ [CHR 0x0A] @ st] \<and>
    (fresh \<longleftrightarrow> key @ [CHR 0x0A] @ st \<notin> set ws) \<and>
    (\<not> prefix (key @ [CHR 0x0A]) w \<longrightarrow> (w \<in> set ws' \<longleftrightarrow> w \<in> set ws))"
proof -
  have "fresh \<longleftrightarrow> key @ [CHR 0x0A] @ st \<notin> set ws"
    using assms(2) by (auto simp: remember_vdsd_warning_state_def Let_def split: if_splits)
  with remember_state_once [OF assms(1), of st] remember_state_frame [of key w ws st] assms(2)
  show ?thesis by simp
qed

theorem warning_state_memory_witness:
  "filter (prefix (''k'' @ [CHR 0x0A])) [''other'', ''k'' @ [CHR 0x0A] @ ''new''] = [''k'' @ [CHR 0x0A] @ ''new'']"
proof -
  have "remember_vdsd_warning_state [''k'' @ [CHR 0x0A] @ ''old'', ''other''] ''k'' ''new'' =
      (True, [''other'', ''k'' @ [CHR 0x0A] @ ''new''])" by code_simp
  from warning_state_memory [OF _ this, of "[]"] show ?thesis by simp
qed

end
