(* ===== verification/Vdsctl.thy ===== *)
theory Vdsctl
  imports Control
begin

text \<open>
  The management utility, \<open>src/vdsctl_common.cc\<close>: its command line, the requests it builds
  and the run of the whole program. The platform's \<open>request_control\<close>, which carries a request
  to the daemon and returns its reply, is an argument. The last part joins it with the daemon's
  control plane.
\<close>

section \<open>Requests\<close>

datatype VdsctlCommand = Attach | Detach | List | ListTargets | Trace | Status | Set

record VdsctlTraceCommand =
  tc_enabled :: bool
  tc_scope :: string

definition attach_request :: "ControllerConfig \<Rightarrow> string" where
  "attach_request config =
     ''{'' @ jsonl_string_field ''command'' ''attach'' @ '','' @
     jsonl_string_field ''address'' (cfg_address config) @ '','' @
     jsonl_string_field ''profile'' (controller_profile_name (cfg_profile config)) @ '','' @
     jsonl_unsigned_array_field ''ports'' (cfg_ports config) @ end_object"

definition detach_request :: "string \<Rightarrow> string" where
  "detach_request address =
     ''{'' @ jsonl_string_field ''command'' ''detach'' @ '','' @
     jsonl_string_field ''address'' address @ end_object"

definition command_object :: "string \<Rightarrow> string" where
  "command_object c =
     [CHR ''{'', CHR 0x22] @ ''command'' @ [CHR 0x22, CHR '':'', CHR 0x22] @ c @ [CHR 0x22] @ end_object"

definition list_request :: string where "list_request = command_object ''list''"

definition status_request :: string where "status_request = command_object ''status''"

definition set_request :: "string \<Rightarrow> string \<Rightarrow> string" where
  "set_request param val =
     ''{'' @ jsonl_string_field ''command'' ''set'' @ '','' @ jsonl_string_field ''param'' param @ '','' @
     jsonl_string_field ''value'' val @ end_object"

definition list_targets_request :: string where
  "list_targets_request = command_object ''list-targets''"

definition trace_request :: "VdsctlTraceCommand \<Rightarrow> string" where
  "trace_request trace =
     ''{'' @ jsonl_string_field ''command'' ''trace'' @ '','' @
     jsonl_string_field ''mode'' (if tc_enabled trace then ''on'' else ''off'') @ '','' @
     jsonl_string_field ''scope'' (tc_scope trace) @ end_object"

section \<open>Command line\<close>

definition parse_vdsctl_command :: "string \<Rightarrow> VdsctlCommand result" where
  "parse_vdsctl_command command =
     (if command = ''attach'' then Inr Attach
      else if command = ''detach'' then Inr Detach
      else if command = ''list'' then Inr List
      else if command = ''list-targets'' then Inr ListTargets
      else if command = ''trace'' then Inr Trace
      else if command = ''status'' then Inr Status
      else if command = ''set'' then Inr Set
      else Inl (Runtime_error (''unknown command: '' @ command)))"

definition require_vdsctl_arg_count :: "nat \<Rightarrow> nat \<Rightarrow> unit result" where
  "require_vdsctl_arg_count argc expected =
     (if argc \<noteq> expected then Inl (Runtime_error ''unexpected argument'') else Inr ())"

definition apply_attach_option :: "string \<Rightarrow> string \<Rightarrow> ControllerConfig \<Rightarrow> ControllerConfig result" where
  "apply_attach_option arg val config =
     (if arg = ''--profile'' then
        res_bind (parse_controller_profile val) (\<lambda>p. Inr (config\<lparr>cfg_profile := p\<rparr>))
      else if arg = ''--ports'' then
        res_bind (parse_ports val) (\<lambda>ps. Inr (config\<lparr>cfg_ports := ps\<rparr>))
      else Inl (Runtime_error (''unknown attach option: '' @ arg)))"

text \<open>The loop over the options: an argument that does not start with two dashes is a value.\<close>

fun parse_attach_options :: "string list \<Rightarrow> ControllerConfig \<Rightarrow> ControllerConfig result" where
  "parse_attach_options [] config = Inr config"
| "parse_attach_options [arg] config = apply_attach_option arg [] config"
| "parse_attach_options (arg # next_arg # args) config =
     (if \<not> prefix ''--'' next_arg
      then res_bind (apply_attach_option arg next_arg config) (parse_attach_options args)
      else res_bind (apply_attach_option arg [] config) (parse_attach_options (next_arg # args)))"

definition parse_vdsctl_attach :: "string list \<Rightarrow> ControllerConfig result" where
  "parse_vdsctl_attach argv =
     (if length argv < 3 then Inl (Runtime_error ''attach requires an address'')
      else res_bind (normalize_bluetooth_address (argv ! 2))
        (\<lambda>a. parse_attach_options (drop 3 argv)
               \<lparr>cfg_address = a, cfg_profile = Unspecified, cfg_ports = []\<rparr>))"

definition parse_vdsctl_trace :: "string list \<Rightarrow> VdsctlTraceCommand result" where
  "parse_vdsctl_trace argv =
     (let argc = length argv in
      if argc \<noteq> 3 \<and> argc \<noteq> 5
      then Inl (Runtime_error ''trace requires on or off with optional --scope'')
      else res_bind
        (if argc = 5 then
           (if argv ! 3 \<noteq> ''--scope'' then Inl (Runtime_error ''trace option must be --scope'')
            else Inr (argv ! 4))
         else Inr ''all'')
        (\<lambda>scope.
           if argv ! 2 = ''on'' then Inr \<lparr>tc_enabled = True, tc_scope = scope\<rparr>
           else if argv ! 2 = ''off'' then Inr \<lparr>tc_enabled = False, tc_scope = scope\<rparr>
           else Inl (Runtime_error ''trace requires on or off'')))"

section \<open>Running a command\<close>

type_synonym request_control = "string \<Rightarrow> string result"

definition run_vdsctl_attach :: "string list \<Rightarrow> request_control \<Rightarrow> string result" where
  "run_vdsctl_attach argv request_control =
     res_bind (parse_vdsctl_attach argv) (\<lambda>config. request_control (attach_request config))"

definition run_vdsctl_detach :: "string list \<Rightarrow> request_control \<Rightarrow> string result" where
  "run_vdsctl_detach argv request_control =
     res_bind (require_vdsctl_arg_count (length argv) 3)
       (\<lambda>_. res_bind (normalize_bluetooth_address (argv ! 2)) (\<lambda>a. request_control (detach_request a)))"

definition run_vdsctl_list :: "nat \<Rightarrow> request_control \<Rightarrow> string result" where
  "run_vdsctl_list argc request_control =
     res_bind (require_vdsctl_arg_count argc 2) (\<lambda>_. request_control list_request)"

definition run_vdsctl_list_targets :: "nat \<Rightarrow> request_control \<Rightarrow> string result" where
  "run_vdsctl_list_targets argc request_control =
     res_bind (require_vdsctl_arg_count argc 2) (\<lambda>_. request_control list_targets_request)"

definition run_vdsctl_trace :: "string list \<Rightarrow> request_control \<Rightarrow> string result" where
  "run_vdsctl_trace argv request_control =
     res_bind (parse_vdsctl_trace argv) (\<lambda>t. request_control (trace_request t))"

definition vdsctl_usage :: "string \<Rightarrow> string \<Rightarrow> string" where
  "vdsctl_usage version build_year =
     ''vdsctl ('' @ version @ ''): vDS management utility - Copyright (C) '' @ build_year @
     concat (map (\<lambda>l. l @ [CHR 0x0A])
       ['' Jihong Min'', ''usage:'',
        ''  vdsctl attach <address> [--ports 0[,1...]|'' @ [CHR 0x22, CHR 0x22] @ ''] [--profile ds5|dse|'' @
          [CHR 0x22, CHR 0x22] @ '']'',
        ''  vdsctl detach <address>'', ''  vdsctl list'', ''  vdsctl list-targets'', ''  vdsctl status'',
        ''  vdsctl set <param> <value>   (param: mic-gain)'',
        ''  vdsctl trace on|off [--scope <scope>[,<scope>...]]'', [],
        ''trace scopes:'', ''  all, input, input-audio, input-control, output''])"

definition run_vdsctl_command :: "VdsctlCommand \<Rightarrow> string list \<Rightarrow> request_control \<Rightarrow> string result" where
  "run_vdsctl_command command argv request_control =
     (case command of
        Attach \<Rightarrow> run_vdsctl_attach argv request_control
      | Detach \<Rightarrow> run_vdsctl_detach argv request_control
      | List \<Rightarrow> run_vdsctl_list (length argv) request_control
      | ListTargets \<Rightarrow> run_vdsctl_list_targets (length argv) request_control
      | Trace \<Rightarrow> run_vdsctl_trace argv request_control
      | Status \<Rightarrow> res_bind (require_vdsctl_arg_count (length argv) 2) (\<lambda>_. request_control status_request)
      | Set \<Rightarrow>
          if length argv \<noteq> 4 then Inl (Runtime_error ''usage: vdsctl set <param> <value>'')
          else request_control (set_request (argv ! 2) (argv ! 3)))"

record vdsctl_run =
  exit_code :: int
  std_out :: string
  std_err :: string

definition run_vdsctl_app :: "string list \<Rightarrow> string \<Rightarrow> string \<Rightarrow> request_control \<Rightarrow> vdsctl_run" where
  "run_vdsctl_app argv version build_year request_control =
     (let catch = (\<lambda>e. \<lparr>exit_code = 1, std_out = [], std_err = ''vdsctl: '' @ e @ [CHR 0x0A]\<rparr>) in
      if length argv < 2 then catch ''command is required''
      else if argv ! 1 = ''-h'' \<or> argv ! 1 = ''--help'' then
        \<lparr>exit_code = 0, std_out = [], std_err = vdsctl_usage version build_year\<rparr>
      else try_step catch
        (res_bind (parse_vdsctl_command (argv ! 1)) (\<lambda>c. run_vdsctl_command c argv request_control))
        (\<lambda>out. \<lparr>exit_code = 0, std_out = out, std_err = []\<rparr>))"

section \<open>The requests reach the daemon\<close>

definition attach_fields :: "ControllerConfig \<Rightarrow> JsonlField list" where
  "attach_fields c =
     [string_field ''command'' ''attach'', string_field ''address'' (cfg_address c),
      string_field ''profile'' (controller_profile_name (cfg_profile c)), array_field ''ports'' (cfg_ports c)]"

definition detach_fields :: "string \<Rightarrow> JsonlField list" where
  "detach_fields a = [string_field ''command'' ''detach'', string_field ''address'' a]"

definition trace_fields :: "VdsctlTraceCommand \<Rightarrow> JsonlField list" where
  "trace_fields t =
     [string_field ''command'' ''trace'', string_field ''mode'' (if tc_enabled t then ''on'' else ''off''),
      string_field ''scope'' (tc_scope t)]"

lemma parse_rendered_request:
  assumes "\<forall>f \<in> set fs. wf_field f"
  shows "parse_jsonl_object (render_object fs @ [CHR 0x0A]) ctx = Inr fs"
  using assms by (rule parse_render_object) (simp add: is_space_def)

lemma requests_parse [simp]:
  "parse_jsonl_object (attach_request c) ctx = Inr (attach_fields c)"
  "parse_jsonl_object (detach_request a) ctx = Inr (detach_fields a)"
  "parse_jsonl_object (trace_request t) ctx = Inr (trace_fields t)"
proof -
  have "attach_request c = render_object (attach_fields c) @ [CHR 0x0A]"
    "detach_request a = render_object (detach_fields a) @ [CHR 0x0A]"
    "trace_request t = render_object (trace_fields t) @ [CHR 0x0A]"
    by (simp_all add: attach_request_def attach_fields_def detach_request_def detach_fields_def
        trace_request_def trace_fields_def render_object_def end_object_def)
  moreover have "\<forall>f \<in> set (attach_fields c). wf_field f" "\<forall>f \<in> set (detach_fields a). wf_field f"
    "\<forall>f \<in> set (trace_fields t). wf_field f"
    by (simp_all add: attach_fields_def detach_fields_def trace_fields_def plain_text_def)
  ultimately show "parse_jsonl_object (attach_request c) ctx = Inr (attach_fields c)"
    "parse_jsonl_object (detach_request a) ctx = Inr (detach_fields a)"
    "parse_jsonl_object (trace_request t) ctx = Inr (trace_fields t)"
    by (simp_all add: parse_rendered_request)
qed

lemma command_dispatch [simp]:
  "handle_vdsd_control_command tf (attach_request c) env flags reload =
   handle_attach_control_request (attach_fields c) env flags reload"
  "handle_vdsd_control_command tf (detach_request a) env flags reload =
   handle_detach_control_request (detach_fields a) env flags reload"
  "handle_vdsd_control_command tf (trace_request t) env flags reload =
   handle_trace_control_request (trace_fields t) flags reload"
  by (simp_all add: handle_vdsd_control_command_def require_string_single attach_fields_def
      detach_fields_def trace_fields_def)

lemma parse_ports_valid: "parse_ports t = Inr ps \<Longrightarrow> sorted ps \<and> valid_ports ps"
  by (auto simp: parse_ports_def res_bind_Inr_iff validate_ports_Inr valid_ports_def split: if_splits)

lemma apply_attach_option_wf:
  "apply_attach_option arg v c = Inr c' \<Longrightarrow> wf_config c \<Longrightarrow> wf_config c'"
  using parse_ports_valid
  by (auto simp: apply_attach_option_def res_bind_Inr_iff wf_config_def split: if_splits)

lemma parse_attach_options_wf:
  "parse_attach_options args c = Inr c' \<Longrightarrow> wf_config c \<Longrightarrow> wf_config c'"
proof (induction args c arbitrary: c' rule: parse_attach_options.induct)
  case (3 arg next_arg args config)
  then show ?case by (auto simp: res_bind_Inr_iff split: if_splits dest: apply_attach_option_wf)
qed (auto dest: apply_attach_option_wf)

lemma parse_vdsctl_attach_wf: "parse_vdsctl_attach argv = Inr config \<Longrightarrow> wf_config config"
proof -
  assume "parse_vdsctl_attach argv = Inr config"
  then obtain a where a: "normalize_bluetooth_address (argv ! 2) = Inr a"
    and c: "parse_attach_options (drop 3 argv) \<lparr>cfg_address = a, cfg_profile = Unspecified, cfg_ports = []\<rparr> =
      Inr config"
    by (auto simp: parse_vdsctl_attach_def res_bind_Inr_iff split: if_splits)
  have "wf_config \<lparr>cfg_address = a, cfg_profile = Unspecified, cfg_ports = []\<rparr>"
    using normalize_idem [OF a] by (simp add: wf_config_def valid_ports_def)
  with parse_attach_options_wf [OF c] show ?thesis by blast
qed

lemma canon_wf: "wf_config c \<Longrightarrow> canon_config c = Inr c"
  using wf_config_validate [of c] by (simp add: canon_config_def wf_config_def)

lemma attach_handler_commit:
  assumes "wf_config config" "load_config_db (env_load env) = Inr db" "db_get db (cfg_address config) = None"
    and "env_targets env = Inr targets" "find_controller_target_by_address targets (cfg_address config) \<noteq> None"
  shows "handle_attach_control_request (attach_fields config) env flags reload =
    attach_commit env flags reload config"
proof -
  have n: "normalize_bluetooth_address (cfg_address config) = Inr (cfg_address config)"
    using assms(1) by (simp add: wf_config_def)
  have known: "reject_unknown_jsonl_fields (attach_fields config)
      [''command'', ''address'', ''profile'', ''ports''] control_context = Inr ()"
    by (simp add: reject_unknown_ok attach_fields_def)
  have f: "require_jsonl_string (attach_fields config) ''address'' ctx = Inr (cfg_address config)"
    "require_jsonl_string (attach_fields config) ''profile'' ctx =
       Inr (controller_profile_name (cfg_profile config))"
    "require_jsonl_unsigned_array (attach_fields config) ''ports'' ctx = Inr (cfg_ports config)" for ctx
    by (simp_all add: attach_fields_def require_string_single require_array_single)
  have e: "empty_config\<lparr>cfg_address := cfg_address config, cfg_profile := cfg_profile config,
      cfg_ports := cfg_ports config\<rparr> = config"
    by (cases config) (simp add: empty_config_def)
  obtain t where t: "find_controller_target_by_address targets (cfg_address config) = Some t"
    using assms(5) by blast
  have "cfg_address empty_config = []" by (simp add: empty_config_def)
  then show ?thesis
    using assms(2-4) t
    by (simp add: handle_attach_control_request_def f known n find_by_address_get e del: not_None_eq)
qed

lemma attach_update_accepts:
  assumes "wf_config config" "db_get db (cfg_address config) = None"
    and "validate_config_assignments os db' devices = Inr ()"
    and "db' = db\<lparr>controllers := upsert_loop (controllers db) config\<rparr>"
  shows "attach_update os devices config db = Inr (db', config, False)"
proof -
  have "normalize_bluetooth_address (cfg_address config) = Inr (cfg_address config)"
    using assms(1) by (simp add: wf_config_def)
  moreover have "upsert_controller_config db config = Inr db'"
    by (simp add: upsert_canon canon_wf [OF assms(1)] assms(4))
  ultimately show ?thesis using assms(2,3) by (simp add: attach_update_def find_by_address_get)
qed

lemma attach_accepted:
  assumes wf: "wf_config config" and load: "load_config_db (env_load env) = Inr db"
    and upd: "load_config_db (env_update env) = Inr db" and free: "db_get db (cfg_address config) = None"
    and targets: "env_targets env = Inr targets"
      "find_controller_target_by_address targets (cfg_address config) \<noteq> None"
    and db': "db' = db\<lparr>controllers := upsert_loop (controllers db) config\<rparr>"
    and valid: "validate_config_assignments (env_os env) db' (port_status_paths (env_ports env)) = Inr ()"
    and w: "env_outcome env = Written"
  shows "handle_attach_control_request (attach_fields config) env flags reload =
    \<lparr>reply = format_control_attach_reply True [] config, trace_flags = flags, reload_requested = True,
     log_records = [(Control, Info, ''attached controller config '' @ format_controller_config config)],
     file_text = Some (serialize_config_db db')\<rparr>"
    and "wf_db db'" "db_get db' = (db_get db)(cfg_address config \<mapsto> config)"
proof -
  have u: "attach_update (env_os env) (port_status_paths (env_ports env)) config db =
      Inr (db', config, False)"
    by (rule attach_update_accepts [OF wf free valid db'])
  then show "handle_attach_control_request (attach_fields config) env flags reload =
    \<lparr>reply = format_control_attach_reply True [] config, trace_flags = flags, reload_requested = True,
     log_records = [(Control, Info, ''attached controller config '' @ format_controller_config config)],
     file_text = Some (serialize_config_db db')\<rparr>"
    unfolding attach_handler_commit [OF wf load free targets]
    by (simp add: attach_commit_def update_config_db_def upd w Let_def)
  have "upsert_controller_config db config = Inr db'"
    by (simp add: upsert_canon canon_wf [OF wf] db')
  with config_map.put_get [OF canon_wf [OF wf] load_config_db_wf [OF load]]
  show "wf_db db'" "db_get db' = (db_get db)(cfg_address config \<mapsto> config)" by auto
qed

lemma detach_accepted:
  assumes a: "normalize_bluetooth_address a = Inr a" and load: "load_config_db (env_load env) = Inr db"
    and upd: "load_config_db (env_update env) = Inr db" and there: "db_get db a \<noteq> None"
    and w: "env_outcome env = Written"
  shows "\<exists>db'. handle_detach_control_request (detach_fields a) env flags reload =
    \<lparr>reply = format_control_detach_reply True [] a, trace_flags = flags, reload_requested = True,
     log_records = [(Control, Info, ''detached '' @ a)], file_text = Some (serialize_config_db db')\<rparr> \<and>
    wf_db db' \<and> db_get db' = (db_get db)(a := None)"
proof -
  have wf: "wf_db db" by (rule load_config_db_wf [OF load])
  from config_map.del_get [OF a wf] there obtain db' where
    "remove_controller_config db a = Inr (True, db')" "wf_db db'" "db_get db' = (db_get db)(a := None)" by auto
  moreover have "reject_unknown_jsonl_fields (detach_fields a) [''command'', ''address''] control_context = Inr ()"
    by (simp add: reject_unknown_ok detach_fields_def)
  moreover have "require_jsonl_string (detach_fields a) ''address'' ctx = Inr a" for ctx
    by (simp add: detach_fields_def require_string_single)
  moreover obtain c where "db_get db a = Some c" using there by blast
  ultimately show ?thesis
    using a load normalized_nonempty [OF a]
    by (intro exI [of _ db']) (simp add: handle_detach_control_request_def find_by_address_get detach_commit_def
        update_config_db_def upd w Let_def detach_update_def)
qed

definition daemon :: "bool \<Rightarrow> control_env \<Rightarrow> u32 \<Rightarrow> bool \<Rightarrow> request_control" where
  "daemon tf env flags reload request =
     Inr (reply (handle_vdsd_control_command tf request env flags reload))"

lemma run_attach_app:
  assumes "argv ! 1 = ''attach''" "parse_vdsctl_attach argv = Inr config"
  shows "run_vdsctl_app argv v y (daemon tf env flags reload) =
    \<lparr>exit_code = 0,
     std_out = reply (handle_vdsd_control_command tf (attach_request config) env flags reload), std_err = []\<rparr>"
proof -
  have "\<not> length argv < 2" using assms(2) by (auto simp: parse_vdsctl_attach_def split: if_splits)
  with assms show ?thesis
    by (simp add: run_vdsctl_app_def run_vdsctl_command_def run_vdsctl_attach_def daemon_def
        parse_vdsctl_command_def Let_def)
qed

lemma trace_handler_mode:
  assumes "parse_trace_scope (tc_scope t) = Inr f"
  shows "trace_flags (handle_trace_control_request (trace_fields t) flags reload) =
    (if tc_enabled t then flags OR f else flags AND NOT f)"
proof -
  have "reject_unknown_jsonl_fields (trace_fields t) [''command'', ''mode'', ''scope''] control_context = Inr ()"
    by (simp add: reject_unknown_ok trace_fields_def)
  moreover have "require_jsonl_string (trace_fields t) ''mode'' ctx = Inr (if tc_enabled t then ''on'' else ''off'')"
    "require_jsonl_string (trace_fields t) ''scope'' ctx = Inr (tc_scope t)" for ctx
    by (simp_all add: trace_fields_def require_string_single)
  ultimately show ?thesis using assms by (simp add: handle_trace_control_request_def apply_trace_mode_def)
qed

section \<open>Properties\<close>

text \<open>
  C23. Attaching works end to end: when \<open>vdsctl attach\<close> accepts its command line, the daemon's
  file holds a database without that address, the controller is among the targets, every
  configuration keeps an allowed port and the file is written, then the utility exits with 0 and
  prints the positive reply, the daemon is told to reload, and the new file holds the old map with
  exactly the requested configuration added.
\<close>

theorem vdsctl_attach_end_to_end:
  assumes "argv ! 1 = ''attach''" "parse_vdsctl_attach argv = Inr config"
    and "load_config_db (env_load env) = Inr db" "load_config_db (env_update env) = Inr db"
    and "db_get db (cfg_address config) = None" "env_targets env = Inr targets"
    and "find_controller_target_by_address targets (cfg_address config) \<noteq> None"
    and "validate_config_assignments (env_os env)
      (db\<lparr>controllers := upsert_loop (controllers db) config\<rparr>) (port_status_paths (env_ports env)) = Inr ()"
    and "env_outcome env = Written"
  shows "run_vdsctl_app argv v y (daemon tf env flags reload) =
      \<lparr>exit_code = 0, std_out = format_control_attach_reply True [] config, std_err = []\<rparr> \<and>
    reload_requested (handle_vdsd_control_command tf (attach_request config) env flags reload) \<and>
    (\<exists>t db'. file_text (handle_vdsd_control_command tf (attach_request config) env flags reload) = Some t \<and>
      parse_config_db t = Inr db' \<and> db_get db' = (db_get db)(cfg_address config \<mapsto> config))"
  using attach_accepted(1) [OF parse_vdsctl_attach_wf [OF assms(2)] assms(3-7) refl assms(8,9), of flags reload]
    attach_accepted(2,3) [OF parse_vdsctl_attach_wf [OF assms(2)] assms(3-7) refl assms(8,9)]
    run_attach_app [OF assms(1,2), of v y tf env flags reload]
  by (simp add: parse_serialize_db)

theorem vdsctl_attach_end_to_end_witness:
  "let argv = [''vdsctl'', ''attach'', ''AA:bb:cc:dd:ee:01'', ''--ports'', ''2,0'', ''--profile''];
       config = \<lparr>cfg_address = ''aa:bb:cc:dd:ee:01'', cfg_profile = Unspecified, cfg_ports = [0, 2]\<rparr>;
       env = \<lparr>env_os = Linux, env_controllers = [],
         env_ports = [\<lparr>ps_port = 2, ps_path = ''/dev/vds2'', ps_occupied = False, ps_address = [], ps_device_address = []\<rparr>],
         env_targets = Inr [\<lparr>tgt_address = ''aa:bb:cc:dd:ee:01'', tgt_name = ''pad'', tgt_profile = Ds5, tgt_online = True\<rparr>],
         env_load = Inr [], env_update = Inr [], env_outcome = Written\<rparr>
   in exit_code (run_vdsctl_app argv [] [] (daemon False env 0 False)) = 0 \<and>
      reload_requested (handle_vdsd_control_command False (attach_request config) env 0 False)"
proof -
  let ?argv = "[''vdsctl'', ''attach'', ''AA:bb:cc:dd:ee:01'', ''--ports'', ''2,0'', ''--profile'']"
  let ?config = "\<lparr>cfg_address = ''aa:bb:cc:dd:ee:01'', cfg_profile = Unspecified, cfg_ports = [0, 2]\<rparr>"
  let ?t = "\<lparr>tgt_address = ''aa:bb:cc:dd:ee:01'', tgt_name = ''pad'', tgt_profile = Ds5, tgt_online = True\<rparr>"
  let ?env = "\<lparr>env_os = Linux, env_controllers = [],
    env_ports = [\<lparr>ps_port = 2, ps_path = ''/dev/vds2'', ps_occupied = False, ps_address = [], ps_device_address = []\<rparr>],
    env_targets = Inr [?t], env_load = Inr [], env_update = Inr [], env_outcome = Written\<rparr>"
  have "parse_vdsctl_attach ?argv = Inr ?config" by code_simp
  moreover have "load_config_db (Inr []) = Inr \<lparr>controllers = []\<rparr>" by code_simp
  moreover have "db_get \<lparr>controllers = []\<rparr> (cfg_address ?config) = None" by code_simp
  moreover have "find_controller_target_by_address [?t] (cfg_address ?config) \<noteq> None" by code_simp
  moreover have "validate_config_assignments Linux
      (\<lparr>controllers = []\<rparr>\<lparr>controllers := upsert_loop (controllers \<lparr>controllers = []\<rparr>) ?config\<rparr>)
      (port_status_paths (env_ports ?env)) = Inr ()" by code_simp
  ultimately show ?thesis
    using vdsctl_attach_end_to_end [of ?argv ?config ?env "\<lparr>controllers = []\<rparr>" "[?t]" "[]" "[]" False 0 False]
    by (simp add: Let_def)
qed

text \<open>
  Detaching undoes attaching: a request to detach a registered controller is answered
  positively, asks for a reload and leaves the map without that address and otherwise unchanged.
\<close>

theorem vdsctl_detach_end_to_end:
  assumes "argv ! 1 = ''detach''" "length argv = 3" "normalize_bluetooth_address (argv ! 2) = Inr a"
    and "load_config_db (env_load env) = Inr db" "load_config_db (env_update env) = Inr db"
    and "db_get db a \<noteq> None" "env_outcome env = Written"
  shows "run_vdsctl_app argv v y (daemon tf env flags reload) =
      \<lparr>exit_code = 0, std_out = format_control_detach_reply True [] a, std_err = []\<rparr> \<and>
    reload_requested (handle_vdsd_control_command tf (detach_request a) env flags reload) \<and>
    (\<exists>t db'. file_text (handle_vdsd_control_command tf (detach_request a) env flags reload) = Some t \<and>
      parse_config_db t = Inr db' \<and> db_get db' = (db_get db)(a := None))"
proof -
  from detach_accepted [OF normalize_idem [OF assms(3)] assms(4-7), of flags reload] obtain db' where
    r: "handle_detach_control_request (detach_fields a) env flags reload =
      \<lparr>reply = format_control_detach_reply True [] a, trace_flags = flags, reload_requested = True,
       log_records = [(Control, Info, ''detached '' @ a)], file_text = Some (serialize_config_db db')\<rparr>"
    and db': "wf_db db'" "db_get db' = (db_get db)(a := None)" by blast
  have "run_vdsctl_app argv v y (daemon tf env flags reload) =
      \<lparr>exit_code = 0, std_out = format_control_detach_reply True [] a, std_err = []\<rparr>"
    using assms(1-3) by (simp add: run_vdsctl_app_def run_vdsctl_command_def run_vdsctl_detach_def daemon_def
        parse_vdsctl_command_def require_vdsctl_arg_count_def Let_def r)
  with r db' show ?thesis by (simp add: parse_serialize_db)
qed

theorem vdsctl_detach_end_to_end_witness:
  "let argv = [''vdsctl'', ''detach'', ''AA:bb:cc:dd:ee:01''];
       db = \<lparr>controllers = [\<lparr>cfg_address = ''aa:bb:cc:dd:ee:01'', cfg_profile = Ds5, cfg_ports = []\<rparr>]\<rparr>;
       env = \<lparr>env_os = Linux, env_controllers = [], env_ports = [], env_targets = Inr [],
         env_load = Inr (serialize_config_db db), env_update = Inr (serialize_config_db db), env_outcome = Written\<rparr>
   in exit_code (run_vdsctl_app argv [] [] (daemon False env 0 False)) = 0"
proof -
  let ?argv = "[''vdsctl'', ''detach'', ''AA:bb:cc:dd:ee:01'']"
  let ?db = "\<lparr>controllers = [\<lparr>cfg_address = ''aa:bb:cc:dd:ee:01'', cfg_profile = Ds5, cfg_ports = []\<rparr>]\<rparr>"
  let ?v = "Inr (serialize_config_db ?db)"
  let ?env = "\<lparr>env_os = Linux, env_controllers = [], env_ports = [], env_targets = Inr [],
    env_load = ?v, env_update = ?v, env_outcome = Written\<rparr>"
  have wf: "wf_db ?db" by code_simp
  have l: "load_config_db ?v = Inr ?db" by (simp add: load_config_db_def parse_serialize_db [OF wf])
  have n: "normalize_bluetooth_address (?argv ! 2) = Inr ''aa:bb:cc:dd:ee:01''" by code_simp
  have g: "db_get ?db ''aa:bb:cc:dd:ee:01'' \<noteq> None" by code_simp
  from vdsctl_detach_end_to_end [of ?argv, OF _ _ n _ _ g, of ?env "[]" "[]" False 0 False] l
  show ?thesis by (simp add: Let_def)
qed

text \<open>
  \<open>vdsctl trace\<close> switches exactly the bits of its scope on or off in the daemon, and
  without an option it switches all of them.
\<close>

theorem vdsctl_trace_end_to_end:
  assumes "parse_vdsctl_trace argv = Inr t" "parse_trace_scope (tc_scope t) = Inr f"
  shows "trace_flags (handle_vdsd_control_command tf (trace_request t) env flags reload) =
      (if argv ! 2 = ''on'' then flags OR f else flags AND NOT f) \<and>
    (length argv = 3 \<longrightarrow> f = kTraceAll)"
proof -
  from assms(1) have t: "tc_enabled t \<longleftrightarrow> argv ! 2 = ''on''" and s: "length argv = 3 \<Longrightarrow> tc_scope t = ''all''"
    by (auto simp: parse_vdsctl_trace_def Let_def res_bind_Inr_iff split: if_splits)
  have "parse_trace_scope ''all'' = Inr kTraceAll" by code_simp
  with s assms(2) t trace_handler_mode [OF assms(2), of flags reload] show ?thesis by auto
qed

theorem vdsctl_trace_end_to_end_witness:
  "trace_flags (handle_vdsd_control_command False (trace_request \<lparr>tc_enabled = False, tc_scope = ''all''\<rparr>)
     \<lparr>env_os = Linux, env_controllers = [], env_ports = [], env_targets = Inr [], env_load = Inr [],
      env_update = Inr [], env_outcome = Written\<rparr> 5 False) = 5 AND NOT kTraceAll"
proof -
  have "parse_vdsctl_trace [''vdsctl'', ''trace'', ''off''] = Inr \<lparr>tc_enabled = False, tc_scope = ''all''\<rparr>"
    "parse_trace_scope (tc_scope \<lparr>tc_enabled = False, tc_scope = ''all''\<rparr>) = Inr kTraceAll" by code_simp+
  from vdsctl_trace_end_to_end [OF this] show ?thesis by simp
qed

text \<open>
  The commands \<open>status\<close> and \<open>set\<close> of the utility are unknown to the shared control
  plane: it answers them with an error and changes nothing (the Windows daemon intercepts them
  first, the Linux daemon does not).
\<close>

theorem status_and_set_unknown:
  "reply (handle_vdsd_control_command tf status_request env flags reload) =
     format_control_error_reply ''unknown command: status'' \<and>
   reply (handle_vdsd_control_command tf (set_request p w) env flags reload) =
     format_control_error_reply ''unknown command: set''"
proof -
  have q: "status_request = render_object [string_field ''command'' ''status''] @ [CHR 0x0A]" by code_simp
  have "parse_jsonl_object status_request ctx = Inr [string_field ''command'' ''status'']" for ctx
    unfolding q by (rule parse_rendered_request) (simp add: plain_text_def)
  moreover have "set_request p w = render_object [string_field ''command'' ''set'', string_field ''param'' p,
      string_field ''value'' w] @ [CHR 0x0A]"
    by (simp add: set_request_def render_object_def end_object_def)
  then have "parse_jsonl_object (set_request p w) ctx =
      Inr [string_field ''command'' ''set'', string_field ''param'' p, string_field ''value'' w]" for ctx
    by (simp add: parse_rendered_request plain_text_def)
  ultimately show ?thesis by (simp add: handle_vdsd_control_command_def require_string_single)
qed

end
