(* ===== verification/Crc.thy ===== *)
theory Crc
  imports VdsPrelude
begin

text \<open>
  The checksums of Bluetooth reports in \<open>src/vds_protocol.cc\<close>: the table-driven CRC-32 with
  a seed, and the functions that write it into the last four bytes of a report. The reference is
  the bitwise CRC of the same polynomial, one shift per bit.
\<close>

section \<open>The code\<close>

definition kOutputCrcSeed :: u32 where "kOutputCrcSeed = 0xeada2d49"
definition kFeatureCrcSeed :: u32 where "kFeatureCrcSeed = 0x2060efc3"

definition crc32_shift :: "u32 \<Rightarrow> u32" where
  "crc32_shift index = drop_bit 1 index XOR (0xedb88320 AND (0 - (index AND 1)))"

definition crc32_table_entry :: "u32 \<Rightarrow> u32" where
  "crc32_table_entry index = (crc32_shift ^^ 8) index"

definition make_crc32_table :: "u32 list" where
  "make_crc32_table = map (\<lambda>i. crc32_table_entry (of_nat i)) [0..<256]"

definition kCrc32Table :: "u32 list" where
  "kCrc32Table = make_crc32_table"

definition crc32_update :: "u32 \<Rightarrow> u8 \<Rightarrow> u32" where
  "crc32_update crc byte = drop_bit 8 crc XOR kCrc32Table ! unat ((crc XOR ucast byte) AND 0xff)"

definition crc32_seeded :: "bytes \<Rightarrow> u32 \<Rightarrow> u32" where
  "crc32_seeded data seed = NOT (foldl crc32_update (NOT seed) data)"

definition output_crc32 :: "bytes \<Rightarrow> u32" where
  "output_crc32 data = crc32_seeded data kOutputCrcSeed"

definition feature_crc32 :: "bytes \<Rightarrow> u32" where
  "feature_crc32 data = crc32_seeded data kFeatureCrcSeed"

text \<open>Both functions write the four bytes of the checksum, the low one first, in place.\<close>

definition write_crc :: "bytes \<Rightarrow> u32 \<Rightarrow> bytes" where
  "write_crc report crc =
     (let offset = length report - 4 in
      report[offset := ucast crc, offset + 1 := ucast (drop_bit 8 crc),
             offset + 2 := ucast (drop_bit 16 crc), offset + 3 := ucast (drop_bit 24 crc)])"

definition fill_output_report_checksum :: "bytes \<Rightarrow> bytes result" where
  "fill_output_report_checksum report =
     (if length report < 4 then Inl (Invalid_argument ''output report is too small for CRC'')
      else Inr (write_crc report (output_crc32 (take (length report - 4) report))))"

definition fill_feature_report_checksum :: "bytes \<Rightarrow> bytes result" where
  "fill_feature_report_checksum report =
     (if length report < 4 then Inl (Invalid_argument ''feature report is too small for CRC'')
      else Inr (write_crc report (feature_crc32 (take (length report - 4) report))))"

section \<open>The bitwise reference\<close>

definition crc_byte :: "u32 \<Rightarrow> u8 \<Rightarrow> u32" where
  "crc_byte crc byte = (crc32_shift ^^ 8) (crc XOR ucast byte)"

definition crc_reference :: "bytes \<Rightarrow> u32 \<Rightarrow> u32" where
  "crc_reference data seed = NOT (foldl crc_byte (NOT seed) data)"

lemma crc32_shift_cases:
  "crc32_shift x = (if bit x 0 then drop_bit 1 x XOR 0xedb88320 else drop_bit 1 x)"
proof -
  have "x AND 1 = (if bit x 0 then 1 else 0)" by (simp add: and_one_eq odd_iff_mod_2_eq_one bit_0)
  then show ?thesis by (simp add: crc32_shift_def)
qed

lemma crc32_shift_linear: "crc32_shift (a XOR b) = crc32_shift a XOR crc32_shift b"
  by (auto simp: crc32_shift_cases xor.assoc xor.left_commute intro!: bit_word_eqI
      simp: bit_simps)

lemma crc32_shifts_linear: "(crc32_shift ^^ n) (a XOR b) = (crc32_shift ^^ n) a XOR (crc32_shift ^^ n) b"
  by (induction n) (simp_all add: crc32_shift_linear)

lemma xor_cancel: "(a :: u32) XOR c = b XOR c \<longleftrightarrow> a = b"
proof
  assume "a XOR c = b XOR c"
  then have "(a XOR c) XOR c = (b XOR c) XOR c" by simp
  then show "a = b" by (simp add: xor.assoc)
qed simp

lemma crc32_shift_inj: "crc32_shift a = crc32_shift b \<Longrightarrow> a = b"
proof -
  assume e: "crc32_shift a = crc32_shift b"
  have top: "bit (crc32_shift x) 31 = bit x 0" for x
    by (auto simp: crc32_shift_cases bit_simps)
  have "bit a 0 = bit b 0" using top [of a] top [of b] e by simp
  with e have d: "drop_bit 1 a = drop_bit 1 b"
    by (auto simp: crc32_shift_cases xor_cancel split: if_splits)
  show "a = b"
  proof (rule bit_word_eqI)
    fix n assume "n < LENGTH(32)"
    show "bit a n = bit b n"
    proof (cases n)
      case 0
      with \<open>bit a 0 = bit b 0\<close> show ?thesis by simp
    next
      case (Suc m)
      with d have "bit (drop_bit 1 a) m = bit (drop_bit 1 b) m" by simp
      with Suc show ?thesis by (simp add: bit_simps)
    qed
  qed
qed

lemma crc32_shifts_inj: "(crc32_shift ^^ n) a = (crc32_shift ^^ n) b \<Longrightarrow> a = b"
  by (induction n) (auto dest: crc32_shift_inj)

lemma crc32_shift_even: "\<not> bit x 0 \<Longrightarrow> crc32_shift x = drop_bit 1 x"
  by (simp add: crc32_shift_cases)

lemma crc32_shifts_low_zero:
  "(\<forall>k < n. \<not> bit x k) \<Longrightarrow> (crc32_shift ^^ n) x = drop_bit n x"
proof (induction n arbitrary: x)
  case (Suc n)
  then have "crc32_shift x = drop_bit 1 x" by (intro crc32_shift_even) simp
  moreover have "\<forall>k < n. \<not> bit (drop_bit 1 x) k" using Suc.prems by (simp add: bit_simps)
  ultimately show ?case
    using Suc.IH [of "drop_bit 1 x"] by (simp add: funpow_Suc_right del: funpow.simps)
qed simp

lemma and_ff: "(x :: u32) AND 0xff = take_bit 8 x"
  by (simp add: take_bit_eq_mask mask_eq_exp_minus_1)

lemma split_low: "(x :: u32) = push_bit 8 (drop_bit 8 x) XOR (x AND 0xff)"
  unfolding and_ff by (rule bit_word_eqI) (auto simp: bit_simps)

lemma table_nth: "i < 256 \<Longrightarrow> kCrc32Table ! i = (crc32_shift ^^ 8) (of_nat i)"
  by (simp add: kCrc32Table_def make_crc32_table_def crc32_table_entry_def)

lemma crc32_update_byte: "crc32_update crc byte = crc_byte crc byte"
proof -
  let ?x = "crc XOR ucast byte"
  have lt: "unat (?x AND 0xff) < 256"
    unfolding and_ff unsigned_take_bit_eq using take_bit_nat_less_exp [of 8] by simp
  then have t: "kCrc32Table ! unat (?x AND 0xff) = (crc32_shift ^^ 8) (?x AND 0xff)"
    using table_nth by simp
  have "drop_bit 8 ?x = drop_bit 8 crc"
    by (rule bit_word_eqI) (auto simp: bit_simps)
  moreover have "(crc32_shift ^^ 8) (push_bit 8 (drop_bit 8 ?x)) = drop_bit 8 ?x"
  proof (subst crc32_shifts_low_zero)
    show "drop_bit 8 (push_bit 8 (drop_bit 8 ?x)) = drop_bit 8 ?x"
    proof (rule bit_word_eqI)
      fix k assume "k < LENGTH(32)"
      show "bit (drop_bit 8 (push_bit 8 (drop_bit 8 ?x))) k = bit (drop_bit 8 ?x) k"
        by (cases "k < 24") (auto simp: bit_simps)
    qed
  qed (simp add: bit_simps)
  ultimately have "crc_byte crc byte = drop_bit 8 crc XOR (crc32_shift ^^ 8) (?x AND 0xff)"
    unfolding crc_byte_def by (subst split_low) (simp add: crc32_shifts_linear)
  with t show ?thesis by (simp add: crc32_update_def)
qed

lemma crc32_seeded_reference: "crc32_seeded data seed = crc_reference data seed"
proof -
  have "crc32_update = crc_byte" by (intro ext) (rule crc32_update_byte)
  then show ?thesis by (simp add: crc32_seeded_def crc_reference_def)
qed

text \<open>Four bytes are absorbed like one word, and the register determines what it absorbed.\<close>

lemma crc32_shift_pushed:
  assumes "k \<le> 16"
  shows "(crc32_shift ^^ 8) (push_bit (8 + k) (ucast (x :: u8))) = push_bit k (ucast x)"
proof (subst crc32_shifts_low_zero)
  show "drop_bit 8 (push_bit (8 + k) (ucast x)) = (push_bit k (ucast x) :: u32)"
  proof (rule bit_word_eqI)
    fix n assume "n < LENGTH(32)"
    show "bit (drop_bit 8 (push_bit (8 + k) (ucast x)) :: u32) n = bit (push_bit k (ucast x) :: u32) n"
      using assms by (cases "n < k + 8") (auto simp: bit_simps)
  qed
qed (simp add: bit_simps)

lemma crc_bytes_word:
  "length bs = 4 \<Longrightarrow> foldl crc_byte crc bs = (crc32_shift ^^ 32) (crc XOR from_le32 bs)"
proof -
  assume "length bs = 4"
  then obtain a b c d where bs: "bs = [a, b, c, d]"
    by (auto simp: length_Suc_conv numeral_eq_Suc)
  have le: "from_le32 bs = ucast a XOR push_bit 8 (ucast b) XOR push_bit 16 (ucast c) XOR push_bit 24 (ucast d)"
  proof (rule bit_word_eqI)
    fix n assume "n < LENGTH(32)"
    then consider "n < 8" | "8 \<le> n" "n < 16" | "16 \<le> n" "n < 24" | "24 \<le> n" "n < 32" by fastforce
    then show "bit (from_le32 bs) n =
        bit (ucast a XOR push_bit 8 (ucast b) XOR push_bit 16 (ucast c) XOR push_bit 24 (ucast d) :: u32) n"
      unfolding bs from_le32_def by cases (simp_all add: bit_simps)
  qed
  have split32: "crc32_shift ^^ 32 = (crc32_shift ^^ 8) \<circ> (crc32_shift ^^ 8) \<circ> (crc32_shift ^^ 8) \<circ> (crc32_shift ^^ 8)"
    by (simp flip: funpow_add add: comp_assoc)
  have shifted: "(crc32_shift ^^ 8) (push_bit 8 (ucast x :: u32)) = ucast x"
    "(crc32_shift ^^ 8) (push_bit 16 (ucast x :: u32)) = push_bit 8 (ucast x)"
    "(crc32_shift ^^ 8) (push_bit 24 (ucast x :: u32)) = push_bit 16 (ucast x)" for x :: u8
    using crc32_shift_pushed [of 0 x] crc32_shift_pushed [of 8 x] crc32_shift_pushed [of 16 x] by simp_all
  show ?thesis
    unfolding split32 le [unfolded bs] bs
    by (simp add: crc_byte_def crc32_shifts_linear shifted xor.assoc)
qed

lemma crc_burst:
  assumes "length u = length v" "length u \<le> 4" "u \<noteq> v"
  shows "foldl crc_byte crc u \<noteq> foldl crc_byte crc v"
proof
  assume e: "foldl crc_byte crc u = foldl crc_byte crc v"
  let ?z = "replicate (4 - length u) 0"
  have len: "length (u @ ?z) = 4" "length (v @ ?z) = 4" using assms by simp_all
  have "foldl crc_byte crc (u @ ?z) = foldl crc_byte crc (v @ ?z)" using e by simp
  then have "(crc32_shift ^^ 32) (crc XOR from_le32 (u @ ?z)) = (crc32_shift ^^ 32) (crc XOR from_le32 (v @ ?z))"
    unfolding crc_bytes_word [OF len(1)] crc_bytes_word [OF len(2)] .
  then have "crc XOR from_le32 (u @ ?z) = crc XOR from_le32 (v @ ?z)" by (rule crc32_shifts_inj)
  then have "from_le32 (u @ ?z) = from_le32 (v @ ?z)" by (simp only: xor.commute [of crc] xor_cancel)
  then have "le32 (from_le32 (u @ ?z)) = le32 (from_le32 (v @ ?z))" by simp
  then have "u @ ?z = v @ ?z" unfolding le32_from_le32 [OF len(1)] le32_from_le32 [OF len(2)] .
  with assms show False by simp
qed

lemma crc_byte_inj: "crc_byte x b = crc_byte y b \<Longrightarrow> x = y"
  unfolding crc_byte_def by (metis crc32_shifts_inj xor_cancel)

lemma crc_fold_inj: "foldl crc_byte x s = foldl crc_byte y s \<Longrightarrow> x = y"
  by (induction s arbitrary: x y) (auto dest: crc_byte_inj)

lemma not_inj: "NOT (a :: u32) = NOT b \<longleftrightarrow> a = b"
  by (metis bit.double_compl)

lemma crc32_shifts_eval:
  "(crc32_shift ^^ 0) x = x"
  "(crc32_shift ^^ Suc k) x = (crc32_shift ^^ k) (crc32_shift x)"
  "(crc32_shift ^^ numeral m) x = (crc32_shift ^^ pred_numeral m) (crc32_shift x)"
  by (simp_all add: numeral_eq_Suc funpow_Suc_right del: funpow.simps(2))

lemma crc_residue: "crc32_seeded (data @ le32 (crc32_seeded data seed)) seed = 0x2144df1c"
proof -
  let ?s = "foldl crc_byte (NOT seed) data"
  have "?s XOR NOT ?s = 0xffffffff" by simp
  then have "foldl crc_byte ?s (le32 (NOT ?s)) = (crc32_shift ^^ 32) 0xffffffff"
    unfolding crc_bytes_word [OF length_le32] from_le32_le32 by (simp only:)
  also have "\<dots> = 0xdebb20e3" by (simp add: crc32_shifts_eval crc32_shift_def del: funpow.simps)
  finally show ?thesis by (simp add: crc32_seeded_reference crc_reference_def)
qed

section \<open>Checksummed reports\<close>

text \<open>
  The contract of a function that seals a report: it refuses reports shorter than the checksum and
  otherwise replaces exactly the last four bytes by the checksum of the bytes before them.
\<close>

definition body :: "bytes \<Rightarrow> bytes" where
  "body report = take (length report - 4) report"

definition trailer :: "bytes \<Rightarrow> bytes" where
  "trailer report = drop (length report - 4) report"

definition sealed :: "(bytes \<Rightarrow> u32) \<Rightarrow> bytes \<Rightarrow> bool" where
  "sealed crc report \<longleftrightarrow> 4 \<le> length report \<and> from_le32 (trailer report) = crc (body report)"

locale report_seal =
  fixes crc :: "bytes \<Rightarrow> u32" and fill :: "bytes \<Rightarrow> bytes result"
  assumes fill_short: "length r < 4 \<Longrightarrow> \<exists>e. fill r = Inl (Invalid_argument e)"
    and fill_eq: "4 \<le> length r \<Longrightarrow> fill r = Inr (body r @ le32 (crc (body r)))"
begin

lemma fill_length: "fill r = Inr r' \<Longrightarrow> length r' = length r"
  using fill_short [of r] fill_eq [of r] by (cases "length r < 4") (auto simp: body_def)

lemma fill_sealed: "fill r = Inr r' \<Longrightarrow> sealed crc r'"
proof -
  assume "fill r = Inr r'"
  with fill_short [of r] have "4 \<le> length r" by fastforce
  with \<open>fill r = Inr r'\<close> fill_eq [of r] show ?thesis
    by (auto simp: sealed_def trailer_def body_def)
qed

lemma fill_body: "fill r = Inr r' \<Longrightarrow> body r' = body r"
  using fill_short [of r] fill_eq [of r] by (cases "length r < 4") (auto simp: body_def)

lemma fill_again: "fill r = Inr r' \<Longrightarrow> fill r' = Inr r'"
  using fill_length [of r r'] fill_body [of r r'] fill_eq [of r] fill_eq [of r'] fill_short [of r]
  by (cases "length r < 4") fastforce+

end

lemma write_crc_eq: "4 \<le> length r \<Longrightarrow> write_crc r c = body r @ le32 c"
proof -
  assume len: "4 \<le> length r"
  then obtain b t where r: "r = b @ t" and t: "length t = 4"
    by (metis append_take_drop_id diff_diff_cancel length_drop)
  then obtain w x y z where "t = [w, x, y, z]" by (auto simp: length_Suc_conv numeral_eq_Suc)
  with r show ?thesis
    by (simp add: write_crc_def body_def le32_def Let_def list_update_append numeral_eq_Suc)
qed

interpretation output_seal: report_seal output_crc32 fill_output_report_checksum
  by unfold_locales (auto simp: fill_output_report_checksum_def write_crc_eq body_def [symmetric])

interpretation feature_seal: report_seal feature_crc32 fill_feature_report_checksum
  by unfold_locales (auto simp: fill_feature_report_checksum_def write_crc_eq body_def [symmetric])

section \<open>Properties\<close>

text \<open>
  C17. The table-driven checksum is the bitwise CRC-32 of the reflected polynomial 0xedb88320: for
  every seed and every sequence of bytes both give the same value.
\<close>

theorem crc32_table_correct: "crc32_seeded data seed = crc_reference data seed"
  by (rule crc32_seeded_reference)

text \<open>
  Error detection: two reports of the same length that differ only within four consecutive
  bytes have different checksums, for every seed.
\<close>

theorem crc32_detects_bursts:
  assumes "length u = length v" "length u \<le> 4" "u \<noteq> v"
  shows "crc32_seeded (p @ u @ s) seed \<noteq> crc32_seeded (p @ v @ s) seed"
  using crc_burst [OF assms] crc_fold_inj
  by (auto simp: crc32_seeded_reference crc_reference_def not_inj)

theorem crc32_detects_bursts_witness:
  "crc32_seeded ([1] @ [2, 3] @ [4]) 0 \<noteq> crc32_seeded ([1] @ [2, 7] @ [4]) 0"
  by (rule crc32_detects_bursts) simp_all

text \<open>
  A sealed output report carries a constant residue: running the checksum over the whole
  report, trailer included, gives 0x2144df1c whatever the report holds, which is what the
  receiver checks; the seal changes only the last four bytes, and sealing twice changes nothing.
\<close>

theorem output_report_residue:
  assumes "fill_output_report_checksum r = Inr r'"
  shows "output_crc32 r' = 0x2144df1c \<and> body r' = body r \<and> length r' = length r \<and>
    fill_output_report_checksum r' = Inr r'"
proof -
  from assms output_seal.fill_short [of r] have "4 \<le> length r" by fastforce
  with assms output_seal.fill_eq [of r] have "r' = body r @ le32 (output_crc32 (body r))" by simp
  then have "output_crc32 r' = 0x2144df1c"
    using crc_residue [of "body r" kOutputCrcSeed] by (simp add: output_crc32_def)
  with output_seal.fill_body [OF assms] output_seal.fill_length [OF assms] output_seal.fill_again [OF assms]
  show ?thesis by blast
qed

theorem output_report_residue_witness: "output_crc32 [0x31, 0x10, 0xca, 0x47, 0x57, 0xfe] = 0x2144df1c"
proof -
  have c: "output_crc32 [0x31, 0x10] = 0xfe5747ca"
    unfolding output_crc32_def crc32_seeded_reference crc_reference_def
    by (simp add: kOutputCrcSeed_def crc_byte_def crc32_shifts_eval crc32_shift_def del: funpow.simps)
  have "fill_output_report_checksum [0x31, 0x10, 0, 0, 0, 0] = Inr [0x31, 0x10, 0xca, 0x47, 0x57, 0xfe]"
    by (simp add: fill_output_report_checksum_def write_crc_def c Let_def)
  with output_report_residue show ?thesis by blast
qed

end
