(* ===== verification/Protocol.thy ===== *)
theory Protocol
  imports Crc
begin

text \<open>
  The report formats of \<open>src/vds_protocol.cc\<close>, \<open>include/vds/ds5_protocol.h\<close> and
  \<open>include/uapi/vds.h\<close>: HIDP packets, the translation of Bluetooth input and feature
  packets, the merged output state of the controller (\<open>DsOutputState\<close>) with the reports built
  from it, the haptics packet and the frames exchanged with the kernel. An array of fixed size is
  a list of that length; bit fields are bits of the packed bytes, the first field lowest.
\<close>

section \<open>Constants\<close>

definition VDS_FRAME_MAX_PAYLOAD :: nat where "VDS_FRAME_MAX_PAYLOAD = 4096"
definition VDS_USB_INPUT_REPORT_ID :: u8 where "VDS_USB_INPUT_REPORT_ID = 0x01"
definition VDS_USB_OUTPUT_REPORT_ID :: u8 where "VDS_USB_OUTPUT_REPORT_ID = 0x02"
definition VDS_BT_STATE_REPORT_ID :: u8 where "VDS_BT_STATE_REPORT_ID = 0x31"
definition VDS_BT_HAPTICS_REPORT_ID :: u8 where "VDS_BT_HAPTICS_REPORT_ID = 0x36"
definition kUsbInputReportSize :: nat where "kUsbInputReportSize = 64"
definition kSetStateSize :: nat where "kSetStateSize = 47"
definition kDsStateSize :: nat where "kDsStateSize = 63"
definition kBtInitReportSize :: nat where "kBtInitReportSize = 142"
definition kBtStateReportSize :: nat where "kBtStateReportSize = 78"
definition kBtHapticsReportSize :: nat where "kBtHapticsReportSize = 398"
definition kHapticsSampleSize :: nat where "kHapticsSampleSize = 64"
definition kSpeakerOpusSize :: nat where "kSpeakerOpusSize = 200"
definition kMicOpusSize :: nat where "kMicOpusSize = 71"
definition kBtStateOffset :: nat where "kBtStateOffset = 3"
definition kSpeakerBlockOffset :: nat where "kSpeakerBlockOffset = 142"
definition kSpeakerDataOffset :: nat where "kSpeakerDataOffset = 144"
definition kBtAudioBufferLength :: u8 where "kBtAudioBufferLength = 64"
definition kBtHidpInputPrefix :: u8 where "kBtHidpInputPrefix = 0xa1"
definition kBtHidpOutputPrefix :: u8 where "kBtHidpOutputPrefix = 0xa2"
definition kBtHidpFeaturePrefix :: u8 where "kBtHidpFeaturePrefix = 0xa3"
definition kBtHidpGetFeaturePrefix :: u8 where "kBtHidpGetFeaturePrefix = 0x43"
definition kBtHidpSetFeaturePrefix :: u8 where "kBtHidpSetFeaturePrefix = 0x53"
definition kBtInputMinimumSize :: nat where "kBtInputMinimumSize = 3 + 63"
definition kBtMicOpusOffset :: nat where "kBtMicOpusOffset = 4"
definition kOutputPathMask :: u8 where "kOutputPathMask = 0x30"
definition kOutputPathSpeaker :: u8 where "kOutputPathSpeaker = 0x30"
definition kOutputPathHeadphones :: u8 where "kOutputPathHeadphones = 0"
definition kOutputAudioControlNonPathMask :: u8 where "kOutputAudioControlNonPathMask = 0xcf"
definition kOutputMicSelectMask :: u8 where "kOutputMicSelectMask = 0x03"
definition kOutputMicSelectAuto :: u8 where "kOutputMicSelectAuto = 0"
definition kOutputMicSelectInternal :: u8 where "kOutputMicSelectInternal = 1"
definition kOutputPowerSaveMicMute :: u8 where "kOutputPowerSaveMicMute = 0x10"
definition kMuteLedOff :: u8 where "kMuteLedOff = 0"
definition kMuteLedOn :: u8 where "kMuteLedOn = 1"

lemmas protocol_consts = VDS_FRAME_MAX_PAYLOAD_def VDS_USB_INPUT_REPORT_ID_def VDS_USB_OUTPUT_REPORT_ID_def
  VDS_BT_STATE_REPORT_ID_def VDS_BT_HAPTICS_REPORT_ID_def kUsbInputReportSize_def kSetStateSize_def
  kDsStateSize_def kBtInitReportSize_def kBtStateReportSize_def kBtHapticsReportSize_def
  kHapticsSampleSize_def kSpeakerOpusSize_def kMicOpusSize_def kBtStateOffset_def kSpeakerBlockOffset_def
  kSpeakerDataOffset_def kBtAudioBufferLength_def kBtHidpInputPrefix_def kBtHidpOutputPrefix_def
  kBtHidpFeaturePrefix_def kBtHidpGetFeaturePrefix_def kBtHidpSetFeaturePrefix_def kBtInputMinimumSize_def
  kBtMicOpusOffset_def kOutputPathMask_def kOutputPathSpeaker_def kOutputPathHeadphones_def
  kOutputAudioControlNonPathMask_def kOutputMicSelectMask_def kOutputMicSelectAuto_def
  kOutputMicSelectInternal_def kOutputPowerSaveMicMute_def kMuteLedOff_def kMuteLedOn_def

section \<open>Packets\<close>

definition hidp_output_packet :: "bytes \<Rightarrow> bytes" where
  "hidp_output_packet report = kBtHidpOutputPrefix # report"

definition feature_get_packet :: "u8 \<Rightarrow> bytes" where
  "feature_get_packet report_id = [kBtHidpGetFeaturePrefix, report_id]"

definition feature_set_packet :: "bytes \<Rightarrow> bytes result" where
  "feature_set_packet report =
     (if report = [] then Inr []
      else res_bind (if length report \<ge> 4 then fill_feature_report_checksum report else Inr report)
        (\<lambda>checked_report. Inr (kBtHidpSetFeaturePrefix # checked_report)))"

datatype BtInputPayloadType = Unknown | Control_payload | Audio_payload

definition bt_input_payload_type :: "bytes \<Rightarrow> BtInputPayloadType" where
  "bt_input_payload_type packet =
     (if length packet \<le> 2 \<or> packet ! 0 \<noteq> kBtHidpInputPrefix \<or> packet ! 1 \<noteq> VDS_BT_STATE_REPORT_ID
      then Unknown
      else (let t = packet ! 2 AND 0x0f in
            if t = 0x01 then Control_payload else if t = 0x02 then Audio_payload else Unknown))"

definition bt_input_to_usb_input :: "bytes \<Rightarrow> bytes option" where
  "bt_input_to_usb_input packet =
     (if length packet < kBtInputMinimumSize \<or> packet ! 0 \<noteq> kBtHidpInputPrefix \<or>
         packet ! 1 \<noteq> VDS_BT_STATE_REPORT_ID \<or> bt_input_payload_type packet \<noteq> Control_payload
      then None
      else Some (blit 1 (take (kBtInputMinimumSize - 3) (drop 3 packet))
                  ((replicate kUsbInputReportSize 0)[0 := VDS_USB_INPUT_REPORT_ID])))"

definition bt_mic_opus_payload :: "bytes \<Rightarrow> bytes option" where
  "bt_mic_opus_payload packet =
     (if bt_input_payload_type packet \<noteq> Audio_payload \<or> length packet < kBtMicOpusOffset + kMicOpusSize
      then None else Some (take kMicOpusSize (drop kBtMicOpusOffset packet)))"

definition bt_feature_to_usb_feature_reply :: "bytes \<Rightarrow> bytes option" where
  "bt_feature_to_usb_feature_reply packet =
     (if length packet < 2 \<or> packet ! 0 \<noteq> kBtHidpFeaturePrefix then None else Some (drop 1 packet))"

section \<open>Output state\<close>

record DsOutputState =
  ds_state :: bytes
  light_color :: bytes
  headphones_volume :: u8
  speaker_volume :: u8
  mic_volume :: u8
  audio_control :: u8
  audio_output_path :: u8
  audio_control2 :: u8
  power_save_control :: u8
  light_brightness :: u8
  emulate_light_brightness :: bool
  headset_mic_plugged :: bool
  report_sequence :: u8
  mic_sequence :: u8

definition kInitialSetStateData :: bytes where
  "kInitialSetStateData =
     [0xfd, 0xf7, 0, 0, 0x7f, 0x64, 0x08, 0x09, 0, 0x0f] @ replicate 27 0 @ [0x01, 0x07, 0, 0, 0x02, 0x01, 0x04, 0, 0, 0]"

definition kInitialDsState :: bytes where
  "kInitialDsState = blit 0 kInitialSetStateData (replicate kDsStateSize 0)"

definition initial_output_state :: DsOutputState where
  "initial_output_state =
     (let st = kInitialDsState in
      \<lparr>ds_state = st, light_color = [st ! 44, st ! 45, st ! 46], headphones_volume = st ! 4,
       speaker_volume = st ! 5, mic_volume = st ! 6,
       audio_control = st ! 7 AND kOutputAudioControlNonPathMask,
       audio_output_path = st ! 7 AND kOutputPathMask, audio_control2 = st ! 37,
       power_save_control = st ! 9, light_brightness = st ! 42, emulate_light_brightness = False,
       headset_mic_plugged = False, report_sequence = 0, mic_sequence = 0\<rparr>)"

definition audio_control_with_output_path :: "u8 \<Rightarrow> u8 \<Rightarrow> u8" where
  "audio_control_with_output_path control output_path = (control AND NOT kOutputPathMask) OR output_path"

definition set_state_bit :: "u8 \<Rightarrow> nat \<Rightarrow> bool \<Rightarrow> u8" where
  "set_state_bit byte b v = (let mask = push_bit b 1 in (byte AND NOT mask) OR (if v then mask else 0))"

definition copy_state_bytes :: "bytes \<Rightarrow> bytes \<Rightarrow> nat \<Rightarrow> nat \<Rightarrow> bytes" where
  "copy_state_bytes state update offset len = blit offset (take len (drop offset update)) state"

definition scale_light_component :: "u8 \<Rightarrow> u8 \<Rightarrow> u8" where
  "scale_light_component component brightness =
     (let scale = (if brightness = 1 then 128 else if brightness = 2 then 64 else 255 :: nat) in
      of_nat ((unat component * scale + 127) div 255))"

text \<open>Statements of the source: an assignment, \<open>|=\<close> and \<open>&= ~\<close> on a byte of the state.\<close>

definition put_byte :: "nat \<Rightarrow> u8 \<Rightarrow> DsOutputState \<Rightarrow> DsOutputState" where
  "put_byte i v s = s\<lparr>ds_state := (ds_state s)[i := v]\<rparr>"

definition or_byte :: "nat \<Rightarrow> u8 \<Rightarrow> DsOutputState \<Rightarrow> DsOutputState" where
  "or_byte i m s = put_byte i (ds_state s ! i OR m) s"

definition clear_byte :: "nat \<Rightarrow> u8 \<Rightarrow> DsOutputState \<Rightarrow> DsOutputState" where
  "clear_byte i m s = put_byte i (ds_state s ! i AND NOT m) s"

definition copy_byte :: "bytes \<Rightarrow> nat \<Rightarrow> nat \<Rightarrow> DsOutputState \<Rightarrow> DsOutputState" where
  "copy_byte u off len s = s\<lparr>ds_state := copy_state_bytes (ds_state s) u off len\<rparr>"

definition put_audio_control :: "u8 \<Rightarrow> DsOutputState \<Rightarrow> DsOutputState" where
  "put_audio_control path s = put_byte 7 (audio_control_with_output_path (audio_control s) path) s"

definition apply_mic_select :: "DsOutputState \<Rightarrow> DsOutputState" where
  "apply_mic_select s =
     (let control = (audio_control s AND NOT kOutputMicSelectMask) OR
            (if headset_mic_plugged s then kOutputMicSelectAuto else kOutputMicSelectInternal);
          s1 = or_byte 0 0x80 (s\<lparr>audio_control := control\<rparr>) in
      put_audio_control (audio_output_path s1) s1)"

text \<open>The update a USB output report carries, if it has one of the two accepted shapes.\<close>

definition output_update :: "bytes \<Rightarrow> bytes option" where
  "output_update report =
     (if length report \<ge> 1 + kSetStateSize \<and> report ! 0 = VDS_USB_OUTPUT_REPORT_ID
      then Some (take kSetStateSize (drop 1 report))
      else if length report = kSetStateSize then Some (take kSetStateSize report)
      else None)"

definition apply_flags :: "bytes \<Rightarrow> DsOutputState \<Rightarrow> DsOutputState" where
  "apply_flags u s0 =
     (let s1 = put_byte 0 (set_state_bit (ds_state s0 ! 0) 0 (bit (u ! 0) 0)) s0;
          s2 = put_byte 0 (set_state_bit (ds_state s1 ! 0) 1 (bit (u ! 0) 1)) s1;
          s3 = put_byte 38 (set_state_bit (ds_state s2 ! 38) 2 (bit (u ! 38) 2)) s2 in
      if bit (u ! 0) 1 \<or> bit (u ! 0) 0 then copy_byte u 2 2 s3 else s3)"

definition apply_volumes :: "bytes \<Rightarrow> DsOutputState \<Rightarrow> DsOutputState" where
  "apply_volumes u s0 =
     (let s1 = (if bit (u ! 0) 4
                then copy_byte u 4 1 ((or_byte 0 0x10 s0)\<lparr>headphones_volume := u ! 4\<rparr>) else s0);
          s2 = (if bit (u ! 0) 5
                then copy_byte u 5 1 ((or_byte 0 0x20 s1)\<lparr>speaker_volume := u ! 5\<rparr>) else s1) in
      if bit (u ! 0) 6 then put_byte 6 (u ! 6) ((or_byte 0 0x40 s2)\<lparr>mic_volume := u ! 6\<rparr>) else s2)"

definition apply_audio_path :: "bytes \<Rightarrow> DsOutputState \<Rightarrow> DsOutputState" where
  "apply_audio_path u s0 =
     (if bit (u ! 0) 7 then
        (let s = or_byte 0 0x80 s0;
             requested_non_path = u ! 7 AND kOutputAudioControlNonPathMask;
             s' = (if requested_non_path \<noteq> 0 then s\<lparr>audio_control := requested_non_path\<rparr> else s) in
         apply_mic_select (s'\<lparr>audio_output_path := u ! 7 AND kOutputPathMask\<rparr>))
      else s0)"

definition apply_audio_control2 :: "bytes \<Rightarrow> DsOutputState \<Rightarrow> DsOutputState" where
  "apply_audio_control2 u s =
     (if bit (u ! 1) 7 then copy_byte u 37 1 ((or_byte 1 0x80 s)\<lparr>audio_control2 := u ! 37\<rparr>) else s)"

definition apply_audio_mute :: "bytes \<Rightarrow> DsOutputState \<Rightarrow> DsOutputState" where
  "apply_audio_mute u s =
     (if bit (u ! 1) 1 then put_byte 9 (u ! 9) ((or_byte 1 0x02 s)\<lparr>power_save_control := u ! 9\<rparr>) else s)"

definition apply_speaker_path :: "bytes \<Rightarrow> DsOutputState \<Rightarrow> DsOutputState" where
  "apply_speaker_path u s =
     (if bit (u ! 0) 5 \<and> u ! 5 \<noteq> 0
      then (let s' = put_audio_control kOutputPathSpeaker (or_byte 1 0x80 (or_byte 0 0xa0 s)) in
            put_byte 37 (audio_control2 s') s')
      else s)"

definition apply_audio_control :: "bytes \<Rightarrow> DsOutputState \<Rightarrow> DsOutputState" where
  "apply_audio_control u s =
     apply_speaker_path u (apply_audio_mute u (apply_audio_control2 u (apply_audio_path u s)))"

definition apply_lights :: "bytes \<Rightarrow> DsOutputState \<Rightarrow> DsOutputState" where
  "apply_lights u s0 =
     (let s1 = (if bit (u ! 38) 1 then copy_byte u 41 1 s0 else s0);
          s2 = (if bit (u ! 38) 0
                then (copy_byte u 42 1 s1)\<lparr>light_brightness := u ! 42, emulate_light_brightness := True\<rparr>
                else s1);
          s3 = (if bit (u ! 1) 4 then copy_byte u 43 1 s2 else s2);
          s4 = (if bit (u ! 1) 2
                then copy_byte u 44 3 (s3\<lparr>light_color := [u ! 44, u ! 45, u ! 46]\<rparr>) else s3) in
      if emulate_light_brightness s4 \<and> (bit (u ! 38) 0 \<or> bit (u ! 1) 2)
      then put_byte 46 (scale_light_component (light_color s4 ! 2) (light_brightness s4))
             (put_byte 45 (scale_light_component (light_color s4 ! 1) (light_brightness s4))
               (put_byte 44 (scale_light_component (light_color s4 ! 0) (light_brightness s4)) s4))
      else s4)"

definition apply_update :: "bytes \<Rightarrow> DsOutputState \<Rightarrow> DsOutputState" where
  "apply_update u s =
     (let s1 = apply_audio_control u (apply_volumes u (apply_flags u s));
          s2 = (if bit (u ! 1) 0 then copy_byte u 8 1 s1 else s1);
          s3 = (if bit (u ! 0) 2 then copy_byte u 10 11 s2 else s2);
          s4 = (if bit (u ! 0) 3 then copy_byte u 21 11 s3 else s3) in
      apply_lights u s4)"

definition apply_usb_output_report :: "bytes \<Rightarrow> DsOutputState \<Rightarrow> bool \<times> DsOutputState" where
  "apply_usb_output_report report s =
     (case output_update report of None \<Rightarrow> (False, s) | Some u \<Rightarrow> (True, apply_update u s))"

definition set_audio_out_stream_active :: "bool \<Rightarrow> bool \<Rightarrow> DsOutputState \<Rightarrow> DsOutputState" where
  "set_audio_out_stream_active active headset_plugged s0 =
     (let s1 = put_byte 4 (headphones_volume s0) (or_byte 0 0x80 s0);
          headphones = (\<lambda>s.
            let t = put_byte 37 0 (put_byte 5 0 (clear_byte 1 0x80 (clear_byte 0 0x20 s))) in
            put_audio_control kOutputPathHeadphones (t\<lparr>audio_output_path := kOutputPathHeadphones\<rparr>)) in
      if active then
        (if headset_plugged then headphones (or_byte 0 0x10 s1)
         else
           (let t = put_byte 37 (audio_control2 s1)
                      (put_byte 5 (speaker_volume s1) (or_byte 1 0x80 (or_byte 0 0x20 s1))) in
            put_audio_control kOutputPathSpeaker (t\<lparr>audio_output_path := kOutputPathSpeaker\<rparr>)))
      else headphones s1)"

definition set_headset_mic_plugged :: "bool \<Rightarrow> DsOutputState \<Rightarrow> DsOutputState" where
  "set_headset_mic_plugged plugged s =
     apply_mic_select (put_byte 6 (mic_volume s) (or_byte 0 0xc0 (s\<lparr>headset_mic_plugged := plugged\<rparr>)))"

section \<open>Reports\<close>

definition next_sequence :: "u8 \<Rightarrow> u8" where
  "next_sequence v = (v + 1) AND 0x0f"

definition build_bt_init_report :: "DsOutputState \<Rightarrow> bytes result" where
  "build_bt_init_report s =
     (let report = (replicate kBtInitReportSize 0)
            [0 := 0x32, 1 := 0x10, 2 := 0x10 OR push_bit 7 1, 3 := of_nat kDsStateSize] in
      fill_output_report_checksum (blit 4 (ds_state s) report))"

definition build_bt_mic_state_report :: "bool \<Rightarrow> bool \<Rightarrow> DsOutputState \<Rightarrow> bytes result \<times> DsOutputState" where
  "build_bt_mic_state_report active muted s0 =
     (let on = active \<and> \<not> muted;
          power_save = (if on then power_save_control s0 AND NOT kOutputPowerSaveMicMute
                        else power_save_control s0 OR kOutputPowerSaveMicMute);
          s1 = or_byte 1 0x83 (or_byte 0 0xc0 s0);
          control = audio_control_with_output_path (audio_control s1) (audio_output_path s1);
          volume = (if on then mic_volume s1 else 0);
          led = (if muted then kMuteLedOn else kMuteLedOff);
          s2 = put_byte 9 power_save (put_byte 8 led (put_byte 37 (audio_control2 s1)
                 (put_byte 7 control (put_byte 6 volume s1))));
          s3 = s2\<lparr>report_sequence := next_sequence (report_sequence s2)\<rparr>;
          report = (replicate kBtStateReportSize 0)
            [0 := VDS_BT_STATE_REPORT_ID, 1 := push_bit 4 (report_sequence s2), 2 := 0x10,
             kBtStateOffset := 0xc0, kBtStateOffset + 1 := 0x83, kBtStateOffset + 6 := volume,
             kBtStateOffset + 7 := control, kBtStateOffset + 8 := led,
             kBtStateOffset + 9 := power_save, kBtStateOffset + 37 := audio_control2 s2] in
      (fill_output_report_checksum report, s3))"

definition build_bt_mic_report :: "bool \<Rightarrow> DsOutputState \<Rightarrow> bytes result \<times> DsOutputState" where
  "build_bt_mic_report active s =
     (let report = (replicate kBtInitReportSize 0)
            [0 := 0x32, 1 := push_bit 4 (mic_sequence s), 2 := 0x91, 3 := 0x07,
             4 := (if active then 0xff else 0xfe), 5 := kBtAudioBufferLength, 6 := kBtAudioBufferLength,
             7 := kBtAudioBufferLength, 8 := kBtAudioBufferLength, 9 := kBtAudioBufferLength,
             10 := mic_sequence s, 11 := 0x92, 12 := 0x40] in
      (fill_output_report_checksum report, s\<lparr>mic_sequence := next_sequence (mic_sequence s)\<rparr>))"

definition build_bt_state_report :: "DsOutputState \<Rightarrow> bytes result \<times> DsOutputState" where
  "build_bt_state_report s =
     (let report = (replicate kBtStateReportSize 0)
            [0 := VDS_BT_STATE_REPORT_ID, 1 := push_bit 4 (report_sequence s), 2 := 0x10] in
      (fill_output_report_checksum (blit kBtStateOffset (take kSetStateSize (ds_state s)) report),
       s\<lparr>report_sequence := next_sequence (report_sequence s)\<rparr>))"

record HapticsPacketBuilder =
  hb_report_sequence :: u8
  hb_packet_sequence :: u8

text \<open>Haptic samples are signed bytes; \<open>memcpy\<close> stores their two's complement.\<close>

definition build_packet ::
  "int list \<Rightarrow> bytes \<Rightarrow> bytes \<Rightarrow> bool \<Rightarrow> bool \<Rightarrow> HapticsPacketBuilder \<Rightarrow> bytes result \<times> HapticsPacketBuilder" where
  "build_packet haptics speaker state audio_sections_enabled headset_plugged b =
     (let p1 = (replicate kBtHapticsReportSize 0)
            [0 := VDS_BT_HAPTICS_REPORT_ID, 1 := push_bit 4 (hb_report_sequence b),
             2 := 0x11 OR push_bit 7 1, 3 := 7, 4 := (if audio_sections_enabled then 0xff else 0xfe),
             5 := kBtAudioBufferLength, 6 := kBtAudioBufferLength, 7 := kBtAudioBufferLength,
             8 := kBtAudioBufferLength, 9 := kBtAudioBufferLength, 10 := hb_packet_sequence b,
             11 := 0x10 OR push_bit 7 1, 12 := of_nat kDsStateSize];
          p2 = (blit 13 state p1)[76 := 0x12 OR push_bit 7 1, 77 := of_nat kHapticsSampleSize];
          p3 = (blit 78 (map word_of_int haptics) p2)
            [kSpeakerBlockOffset := (if headset_plugged then 0x16 else 0x13) OR push_bit 7 1,
             kSpeakerBlockOffset + 1 := of_nat kSpeakerOpusSize];
          p4 = blit kSpeakerDataOffset speaker p3 in
      (fill_output_report_checksum p4,
       \<lparr>hb_report_sequence = next_sequence (hb_report_sequence b),
        hb_packet_sequence = hb_packet_sequence b + 1\<rparr>))"

section \<open>Frames\<close>

definition VDS_FRAME_USB_HID_OUT :: u16 where "VDS_FRAME_USB_HID_OUT = 1"
definition VDS_FRAME_USB_FEATURE_GET :: u16 where "VDS_FRAME_USB_FEATURE_GET = 2"
definition VDS_FRAME_USB_FEATURE_SET :: u16 where "VDS_FRAME_USB_FEATURE_SET = 3"
definition VDS_FRAME_USB_AUDIO_OUT :: u16 where "VDS_FRAME_USB_AUDIO_OUT = 4"
definition VDS_FRAME_USB_HID_IN :: u16 where "VDS_FRAME_USB_HID_IN = 5"
definition VDS_FRAME_USB_FEATURE_REPLY :: u16 where "VDS_FRAME_USB_FEATURE_REPLY = 6"
definition VDS_FRAME_USB_INTERFACE :: u16 where "VDS_FRAME_USB_INTERFACE = 7"
definition VDS_FRAME_USB_AUDIO_IN :: u16 where "VDS_FRAME_USB_AUDIO_IN = 10"

lemmas frame_types = VDS_FRAME_USB_HID_OUT_def VDS_FRAME_USB_FEATURE_GET_def VDS_FRAME_USB_FEATURE_SET_def
  VDS_FRAME_USB_AUDIO_OUT_def VDS_FRAME_USB_HID_IN_def VDS_FRAME_USB_FEATURE_REPLY_def
  VDS_FRAME_USB_INTERFACE_def VDS_FRAME_USB_AUDIO_IN_def

definition VDS_USB_INTERFACE_HID :: u8 where "VDS_USB_INTERFACE_HID = 0"
definition VDS_USB_INTERFACE_AUDIO_OUT :: u8 where "VDS_USB_INTERFACE_AUDIO_OUT = 1"
definition VDS_USB_INTERFACE_AUDIO_IN :: u8 where "VDS_USB_INTERFACE_AUDIO_IN = 2"

record vds_frame_header =
  fh_type :: u16
  fh_flags :: u16
  fh_length :: u32
  fh_sequence :: u64

definition header_bytes :: "vds_frame_header \<Rightarrow> bytes" where
  "header_bytes h = le16 (fh_type h) @ le16 (fh_flags h) @ le32 (fh_length h) @ le64 (fh_sequence h)"

definition frame_bytes :: "u16 \<Rightarrow> bytes \<Rightarrow> bytes result" where
  "frame_bytes type payload =
     (if length payload > VDS_FRAME_MAX_PAYLOAD
      then Inl (Invalid_argument ''frame payload exceeds VDS_FRAME_MAX_PAYLOAD'')
      else Inr (header_bytes \<lparr>fh_type = type, fh_flags = 0, fh_length = of_nat (length payload),
                              fh_sequence = 0\<rparr> @ payload))"

definition frame_type_name :: "u16 \<Rightarrow> string" where
  "frame_type_name type =
     (if type = 0 then ''STATUS''
      else if type = 1 then ''USB_HID_OUT''
      else if type = 2 then ''USB_FEATURE_GET''
      else if type = 3 then ''USB_FEATURE_SET''
      else if type = 4 then ''USB_AUDIO_OUT''
      else if type = 10 then ''USB_AUDIO_IN''
      else if type = 5 then ''USB_HID_IN''
      else if type = 6 then ''USB_FEATURE_REPLY''
      else if type = 7 then ''USB_INTERFACE''
      else if type = 8 then ''BT_CONTROL_PACKET''
      else if type = 9 then ''BT_INTERRUPT_PACKET''
      else ''UNKNOWN'')"

section \<open>Shape of the state\<close>

definition wf_output :: "DsOutputState \<Rightarrow> bool" where
  "wf_output s \<longleftrightarrow> length (ds_state s) = kDsStateSize \<and> length (light_color s) = 3 \<and>
     report_sequence s < 16 \<and> mic_sequence s < 16"

lemma byte_ops_sel [simp]:
  "length (ds_state (put_byte i v s)) = length (ds_state s)"
  "light_color (put_byte i v s) = light_color s"
  "headphones_volume (put_byte i v s) = headphones_volume s"
  "speaker_volume (put_byte i v s) = speaker_volume s"
  "mic_volume (put_byte i v s) = mic_volume s"
  "audio_control (put_byte i v s) = audio_control s"
  "audio_output_path (put_byte i v s) = audio_output_path s"
  "audio_control2 (put_byte i v s) = audio_control2 s"
  "power_save_control (put_byte i v s) = power_save_control s"
  "light_brightness (put_byte i v s) = light_brightness s"
  "emulate_light_brightness (put_byte i v s) = emulate_light_brightness s"
  "headset_mic_plugged (put_byte i v s) = headset_mic_plugged s"
  "report_sequence (put_byte i v s) = report_sequence s"
  "mic_sequence (put_byte i v s) = mic_sequence s"
  by (simp_all add: put_byte_def)

lemma copy_byte_sel [simp]:
  "light_color (copy_byte u off len s) = light_color s"
  "headphones_volume (copy_byte u off len s) = headphones_volume s"
  "speaker_volume (copy_byte u off len s) = speaker_volume s"
  "mic_volume (copy_byte u off len s) = mic_volume s"
  "audio_control (copy_byte u off len s) = audio_control s"
  "audio_output_path (copy_byte u off len s) = audio_output_path s"
  "audio_control2 (copy_byte u off len s) = audio_control2 s"
  "power_save_control (copy_byte u off len s) = power_save_control s"
  "light_brightness (copy_byte u off len s) = light_brightness s"
  "emulate_light_brightness (copy_byte u off len s) = emulate_light_brightness s"
  "headset_mic_plugged (copy_byte u off len s) = headset_mic_plugged s"
  "report_sequence (copy_byte u off len s) = report_sequence s"
  "mic_sequence (copy_byte u off len s) = mic_sequence s"
  by (simp_all add: copy_byte_def)

lemmas byte_ops = or_byte_def clear_byte_def put_audio_control_def

lemma length_copy_byte [simp]:
  "off + len \<le> length (ds_state s) \<Longrightarrow> length (ds_state (copy_byte u off len s)) = length (ds_state s)"
  using length_blit [of off "take len (drop off u)" "ds_state s"]
  by (simp add: copy_byte_def copy_state_bytes_def)

lemma nth_put_byte:
  "i < length (ds_state s) \<Longrightarrow> ds_state (put_byte i v s) ! j = (if i = j then v else ds_state s ! j)"
  by (simp add: put_byte_def nth_list_update)

lemma nth_copy_byte:
  "off + len \<le> length (ds_state s) \<Longrightarrow> off + len \<le> length u \<Longrightarrow> j < length (ds_state s) \<Longrightarrow>
   ds_state (copy_byte u off len s) ! j = (if off \<le> j \<and> j < off + len then u ! j else ds_state s ! j)"
  by (auto simp: copy_byte_def copy_state_bytes_def nth_blit)

text \<open>A transformer keeps the shape: both sizes and both sequence numbers.\<close>

definition keeps_shape :: "(DsOutputState \<Rightarrow> DsOutputState) \<Rightarrow> bool" where
  "keeps_shape f \<longleftrightarrow> (\<forall>s. length (ds_state s) = kDsStateSize \<longrightarrow>
     length (ds_state (f s)) = kDsStateSize \<and> (length (light_color s) = 3 \<longrightarrow> length (light_color (f s)) = 3) \<and>
     report_sequence (f s) = report_sequence s \<and> mic_sequence (f s) = mic_sequence s)"

lemma apply_mic_select_keeps: "keeps_shape apply_mic_select"
  by (simp add: keeps_shape_def apply_mic_select_def byte_ops Let_def)

lemma apply_parts_keep:
  "keeps_shape (apply_flags u)" "keeps_shape (apply_volumes u)"
  "keeps_shape (apply_audio_control u)" "keeps_shape (apply_lights u)"
  by (auto simp: keeps_shape_def apply_flags_def apply_volumes_def apply_audio_control_def apply_lights_def
      apply_audio_path_def apply_audio_control2_def apply_audio_mute_def apply_speaker_path_def
      apply_mic_select_def byte_ops Let_def kDsStateSize_def)

lemma apply_update_keeps: "keeps_shape (apply_update u)"
  using apply_parts_keep [of u]
  by (simp add: keeps_shape_def apply_update_def Let_def kDsStateSize_def)

lemma stream_keeps: "keeps_shape (set_audio_out_stream_active a h)"
  by (auto simp: keeps_shape_def set_audio_out_stream_active_def byte_ops Let_def)

lemma headset_keeps: "keeps_shape (set_headset_mic_plugged p)"
  by (simp add: keeps_shape_def set_headset_mic_plugged_def apply_mic_select_def byte_ops Let_def)

lemma keeps_wf: "keeps_shape f \<Longrightarrow> wf_output s \<Longrightarrow> wf_output (f s)"
  by (auto simp: keeps_shape_def wf_output_def)

lemma and_0f: "(v :: u8) AND 0x0f = take_bit 4 v"
  by (simp add: take_bit_eq_mask mask_eq_exp_minus_1)

lemma next_sequence_less: "next_sequence v < 16"
proof -
  have "unat (take_bit 4 (v + 1)) < 16"
    unfolding unsigned_take_bit_eq using take_bit_nat_less_exp [of 4] by simp
  then show ?thesis by (simp add: next_sequence_def and_0f word_less_nat_alt)
qed

lemma next_sequence_unat: "v < 16 \<Longrightarrow> unat (next_sequence v) = (unat v + 1) mod 16"
proof -
  assume "v < 16"
  then have "unat (v + 1) = unat v + 1"
    by (simp add: word_less_nat_alt unat_word_ariths(1))
  then show ?thesis
    unfolding next_sequence_def and_0f unsigned_take_bit_eq by (simp add: take_bit_eq_mod)
qed

section \<open>The effect of an output report, byte by byte\<close>

lemma apply_flags_nth:
  assumes "length (ds_state s) = 63" "length u = 47" "j < 63"
  shows "ds_state (apply_flags u s) ! j =
    (if j = 0 then set_state_bit (set_state_bit (ds_state s ! 0) 0 (bit (u ! 0) 0)) 1 (bit (u ! 0) 1)
     else if j = 38 then set_state_bit (ds_state s ! 38) 2 (bit (u ! 38) 2)
     else if (j = 2 \<or> j = 3) \<and> (bit (u ! 0) 0 \<or> bit (u ! 0) 1) then u ! j else ds_state s ! j)"
  using assms by (auto simp: apply_flags_def Let_def nth_put_byte nth_copy_byte)

lemma apply_volumes_nth:
  assumes "length (ds_state s) = 63" "length u = 47" "j < 63"
  shows "ds_state (apply_volumes u s) ! j =
    (if j = 0 then ds_state s ! 0 OR (u ! 0 AND 0x70)
     else if j = 4 \<and> bit (u ! 0) 4 \<or> j = 5 \<and> bit (u ! 0) 5 \<or> j = 6 \<and> bit (u ! 0) 6 then u ! j
     else ds_state s ! j)"
proof -
  have m: "u ! 0 AND 0x70 = (if bit (u ! 0) 4 then 0x10 else 0) OR (if bit (u ! 0) 5 then 0x20 else 0) OR
      (if bit (u ! 0) 6 then 0x40 else 0)"
    unfolding u8_eq_iff by (auto simp: bit_simps)
  show ?thesis
    using assms by (auto simp: apply_volumes_def Let_def nth_put_byte nth_copy_byte or_byte_def m or.assoc)
qed

text \<open>
  The specification: what an update asks for. The microphone selection of a requested audio
  control is replaced by the one the plugged state dictates; a speaker volume other than zero
  forces the speaker path.
\<close>

definition spec_control :: "bytes \<Rightarrow> DsOutputState \<Rightarrow> u8" where
  "spec_control u s =
     (if bit (u ! 0) 7 then
        ((if u ! 7 AND 0xcf \<noteq> 0 then u ! 7 AND 0xcf else audio_control s) AND NOT 3) OR
        (if headset_mic_plugged s then 0 else 1)
      else audio_control s)"

definition spec_control2 :: "bytes \<Rightarrow> DsOutputState \<Rightarrow> u8" where
  "spec_control2 u s = (if bit (u ! 1) 7 then u ! 37 else audio_control2 s)"

definition spec_speaker :: "bytes \<Rightarrow> bool" where
  "spec_speaker u \<longleftrightarrow> bit (u ! 0) 5 \<and> u ! 5 \<noteq> 0"

definition spec_brightness :: "bytes \<Rightarrow> DsOutputState \<Rightarrow> u8" where
  "spec_brightness u s = (if bit (u ! 38) 0 then u ! 42 else light_brightness s)"

definition spec_color :: "bytes \<Rightarrow> DsOutputState \<Rightarrow> nat \<Rightarrow> u8" where
  "spec_color u s j = (if bit (u ! 1) 2 then u ! (44 + j) else light_color s ! j)"

definition merged_byte :: "bytes \<Rightarrow> DsOutputState \<Rightarrow> nat \<Rightarrow> u8" where
  "merged_byte u s j =
     (let old = ds_state s ! j; take_if = (\<lambda>b. if b then u ! j else old) in
      if j = 0 then (old AND 0xfc) OR (u ! 0 AND 0xf3) OR (if spec_speaker u then 0xa0 else 0)
      else if j = 1 then old OR (u ! 1 AND 0x82) OR (if spec_speaker u then 0x80 else 0)
      else if j = 2 \<or> j = 3 then take_if (bit (u ! 0) 0 \<or> bit (u ! 0) 1)
      else if j = 4 then take_if (bit (u ! 0) 4)
      else if j = 5 then take_if (bit (u ! 0) 5)
      else if j = 6 then take_if (bit (u ! 0) 6)
      else if j = 7 then
        (if spec_speaker u then (spec_control u s AND 0xcf) OR 0x30
         else if bit (u ! 0) 7 then (spec_control u s AND 0xcf) OR (u ! 7 AND 0x30) else old)
      else if j = 8 then take_if (bit (u ! 1) 0)
      else if j = 9 then take_if (bit (u ! 1) 1)
      else if 10 \<le> j \<and> j < 21 then take_if (bit (u ! 0) 2)
      else if 21 \<le> j \<and> j < 32 then take_if (bit (u ! 0) 3)
      else if j = 37 then
        (if spec_speaker u then spec_control2 u s else take_if (bit (u ! 1) 7))
      else if j = 38 then (old AND 0xfb) OR (u ! 38 AND 0x04)
      else if j = 41 then take_if (bit (u ! 38) 1)
      else if j = 42 then take_if (bit (u ! 38) 0)
      else if j = 43 then take_if (bit (u ! 1) 4)
      else if 44 \<le> j \<and> j < 47 then
        (if (emulate_light_brightness s \<or> bit (u ! 38) 0) \<and> (bit (u ! 38) 0 \<or> bit (u ! 1) 2)
         then scale_light_component (spec_color u s (j - 44)) (spec_brightness u s)
         else take_if (bit (u ! 1) 2))
      else old)"

lemma cf_mask: "NOT 0x30 = (0xcf :: u8)"
  by simp

lemma audio_control_with_output_path_masks:
  "audio_control_with_output_path c p = (c AND 0xcf) OR p"
  unfolding audio_control_with_output_path_def kOutputPathMask_def cf_mask ..

lemma apply_audio_path_sel:
  "audio_control (apply_audio_path u s) = spec_control u s"
  "audio_control2 (apply_audio_path u s) = audio_control2 s"
  "length (ds_state (apply_audio_path u s)) = length (ds_state s)"
  "audio_output_path (apply_audio_path u s) =
     (if bit (u ! 0) 7 then u ! 7 AND 0x30 else audio_output_path s)"
  by (auto simp: apply_audio_path_def spec_control_def apply_mic_select_def byte_ops Let_def protocol_consts)

lemma apply_audio_path_nth:
  assumes "length (ds_state s) = 63" "j < 63"
  shows "ds_state (apply_audio_path u s) ! j =
    (if j = 0 then ds_state s ! 0 OR (if bit (u ! 0) 7 then 0x80 else 0)
     else if j = 7 \<and> bit (u ! 0) 7 then (spec_control u s AND 0xcf) OR (u ! 7 AND 0x30)
     else ds_state s ! j)"
proof (cases "bit (u ! 0) 7")
  case True
  let ?s = "(if u ! 7 AND 0xcf \<noteq> 0 then (or_byte 0 0x80 s)\<lparr>audio_control := u ! 7 AND 0xcf\<rparr> else or_byte 0 0x80 s)
    \<lparr>audio_output_path := u ! 7 AND 0x30\<rparr>"
  have c: "audio_control (apply_mic_select ?s) = spec_control u s"
    using apply_audio_path_sel(1) [of u s] True by (simp add: apply_audio_path_def Let_def protocol_consts)
  have "ds_state (apply_mic_select ?s) ! j =
      (if j = 0 then ds_state s ! 0 OR 0x80
       else if j = 7 then (audio_control (apply_mic_select ?s) AND 0xcf) OR (u ! 7 AND 0x30) else ds_state s ! j)"
    using assms
    by (auto simp: apply_mic_select_def byte_ops Let_def nth_put_byte audio_control_with_output_path_masks)
  with True c show ?thesis by (simp add: apply_audio_path_def Let_def protocol_consts)
qed (simp add: apply_audio_path_def)

lemma apply_audio_control2_nth:
  assumes "length (ds_state s) = 63" "length u = 47" "j < 63"
  shows "ds_state (apply_audio_control2 u s) ! j =
    (if j = 1 then ds_state s ! 1 OR (if bit (u ! 1) 7 then 0x80 else 0)
     else if j = 37 \<and> bit (u ! 1) 7 then u ! 37 else ds_state s ! j)"
  using assms by (auto simp: apply_audio_control2_def or_byte_def nth_put_byte nth_copy_byte)

lemma apply_audio_mute_nth:
  assumes "length (ds_state s) = 63" "j < 63"
  shows "ds_state (apply_audio_mute u s) ! j =
    (if j = 1 then ds_state s ! 1 OR (if bit (u ! 1) 1 then 0x02 else 0)
     else if j = 9 \<and> bit (u ! 1) 1 then u ! 9 else ds_state s ! j)"
  using assms by (auto simp: apply_audio_mute_def or_byte_def nth_put_byte)

lemma apply_speaker_path_nth:
  assumes "length (ds_state s) = 63" "j < 63"
  shows "ds_state (apply_speaker_path u s) ! j =
    (if \<not> spec_speaker u then ds_state s ! j
     else if j = 0 then ds_state s ! 0 OR 0xa0 else if j = 1 then ds_state s ! 1 OR 0x80
     else if j = 7 then (audio_control s AND 0xcf) OR 0x30
     else if j = 37 then audio_control2 s else ds_state s ! j)"
  using assms
  by (simp add: apply_speaker_path_def byte_ops Let_def nth_put_byte spec_speaker_def
      audio_control_with_output_path_masks kOutputPathSpeaker_def)

lemma apply_audio_stages_sel:
  "audio_control (apply_audio_control2 u s) = audio_control s"
  "audio_control2 (apply_audio_control2 u s) = spec_control2 u s"
  "length (ds_state s) = 63 \<Longrightarrow> length (ds_state (apply_audio_control2 u s)) = 63"
  "audio_control (apply_audio_mute u s) = audio_control s"
  "audio_control2 (apply_audio_mute u s) = audio_control2 s"
  "length (ds_state (apply_audio_mute u s)) = length (ds_state s)"
  by (auto simp: apply_audio_control2_def apply_audio_mute_def spec_control2_def or_byte_def)

lemma spec_control2_path [simp]: "spec_control2 u (apply_audio_path u s) = spec_control2 u s"
  by (simp add: spec_control2_def apply_audio_path_sel)

lemma apply_audio_control_nth:
  assumes "length (ds_state s) = 63" "length u = 47" "j < 63"
  shows "ds_state (apply_audio_control u s) ! j =
    (if j = 0 then ds_state s ! 0 OR (u ! 0 AND 0x80) OR (if spec_speaker u then 0xa0 else 0)
     else if j = 1 then ds_state s ! 1 OR (u ! 1 AND 0x82) OR (if spec_speaker u then 0x80 else 0)
     else if j = 7 then
       (if spec_speaker u then (spec_control u s AND 0xcf) OR 0x30
        else if bit (u ! 0) 7 then (spec_control u s AND 0xcf) OR (u ! 7 AND 0x30) else ds_state s ! 7)
     else if j = 9 \<and> bit (u ! 1) 1 then u ! 9
     else if j = 37 \<and> spec_speaker u then spec_control2 u s
     else if j = 37 \<and> bit (u ! 1) 7 then u ! 37 else ds_state s ! j)"
proof -
  have m0: "u ! 0 AND 0x80 = (if bit (u ! 0) 7 then 0x80 else 0)"
    unfolding u8_eq_iff by (auto simp: bit_simps)
  have m1: "u ! 1 AND 0x82 = (if bit (u ! 1) 7 then 0x80 else 0) OR (if bit (u ! 1) 1 then 0x02 else 0)"
    unfolding u8_eq_iff by (auto simp: bit_simps)
  show ?thesis
    using assms
    by (simp add: apply_audio_control_def apply_speaker_path_nth apply_audio_mute_nth apply_audio_control2_nth
        apply_audio_path_nth apply_audio_stages_sel apply_audio_path_sel m0 m1 or.assoc del: One_nat_def)
qed

lemma apply_lights_nth:
  assumes "length (ds_state s) = 63" "length u = 47" "length (light_color s) = 3" "j < 63"
  shows "ds_state (apply_lights u s) ! j =
    (if j = 41 \<and> bit (u ! 38) 1 \<or> j = 42 \<and> bit (u ! 38) 0 \<or> j = 43 \<and> bit (u ! 1) 4 then u ! j
     else if 44 \<le> j \<and> j < 47 then
       (if (emulate_light_brightness s \<or> bit (u ! 38) 0) \<and> (bit (u ! 38) 0 \<or> bit (u ! 1) 2)
        then scale_light_component (spec_color u s (j - 44)) (spec_brightness u s)
        else if bit (u ! 1) 2 then u ! j else ds_state s ! j)
     else ds_state s ! j)"
proof -
  define s1 where "s1 = (if bit (u ! 38) 1 then copy_byte u 41 1 s else s)"
  define s2 where "s2 = (if bit (u ! 38) 0
    then (copy_byte u 42 1 s1)\<lparr>light_brightness := u ! 42, emulate_light_brightness := True\<rparr> else s1)"
  define s3 where "s3 = (if bit (u ! 1) 4 then copy_byte u 43 1 s2 else s2)"
  define s4 where "s4 = (if bit (u ! 1) 2
    then copy_byte u 44 3 (s3\<lparr>light_color := [u ! 44, u ! 45, u ! 46]\<rparr>) else s3)"
  have len: "length (ds_state s1) = 63" "length (ds_state s2) = 63" "length (ds_state s3) = 63"
    "length (ds_state s4) = 63"
    using assms(1) by (simp_all add: s1_def s2_def s3_def s4_def)
  have 1: "ds_state s1 ! i = (if i = 41 \<and> bit (u ! 38) 1 then u ! i else ds_state s ! i)" if "i < 63" for i
    using that assms by (auto simp: s1_def nth_copy_byte)
  have 2: "ds_state s2 ! i = (if i = 42 \<and> bit (u ! 38) 0 then u ! i else ds_state s1 ! i)" if "i < 63" for i
    using that assms len by (auto simp: s2_def nth_copy_byte)
  have 3: "ds_state s3 ! i = (if i = 43 \<and> bit (u ! 1) 4 then u ! i else ds_state s2 ! i)" if "i < 63" for i
    using that assms len by (auto simp: s3_def nth_copy_byte)
  have 4: "ds_state s4 ! i = (if 44 \<le> i \<and> i < 47 \<and> bit (u ! 1) 2 then u ! i else ds_state s3 ! i)" if "i < 63" for i
    using that assms len by (auto simp: s4_def nth_copy_byte)
  have c: "light_color s4 ! k = spec_color u s k" if "k < 3" for k
  proof -
    from that consider "k = 0" | "k = 1" | "k = 2" by linarith
    then show ?thesis by cases (simp_all add: s4_def s3_def s2_def s1_def spec_color_def)
  qed
  have b: "light_brightness s4 = spec_brightness u s"
    "emulate_light_brightness s4 = (emulate_light_brightness s \<or> bit (u ! 38) 0)"
    by (simp_all add: s4_def s3_def s2_def s1_def spec_brightness_def)
  have e: "apply_lights u s = (if emulate_light_brightness s4 \<and> (bit (u ! 38) 0 \<or> bit (u ! 1) 2)
      then put_byte 46 (scale_light_component (light_color s4 ! 2) (light_brightness s4))
             (put_byte 45 (scale_light_component (light_color s4 ! 1) (light_brightness s4))
               (put_byte 44 (scale_light_component (light_color s4 ! 0) (light_brightness s4)) s4))
      else s4)"
    by (simp only: apply_lights_def Let_def s1_def s2_def s3_def s4_def)
  consider "j < 44" | "j = 44" | "j = 45" | "j = 46" | "47 \<le> j" by linarith
  then show ?thesis
    by cases (use assms(4) len c b in \<open>auto simp: e nth_put_byte 4 3 2 1\<close>)
qed

lemma early_stages_sel:
  "audio_control (apply_volumes u (apply_flags u s)) = audio_control s"
  "audio_control2 (apply_volumes u (apply_flags u s)) = audio_control2 s"
  "audio_output_path (apply_volumes u (apply_flags u s)) = audio_output_path s"
  "headset_mic_plugged (apply_volumes u (apply_flags u s)) = headset_mic_plugged s"
  by (simp_all add: apply_volumes_def apply_flags_def or_byte_def Let_def)

lemma early_stages_spec:
  "spec_control u (apply_volumes u (apply_flags u s)) = spec_control u s"
  "spec_control2 u (apply_volumes u (apply_flags u s)) = spec_control2 u s"
  by (simp_all add: spec_control_def spec_control2_def early_stages_sel)

lemma light_stages_sel:
  "light_color (apply_audio_control u (apply_volumes u (apply_flags u s))) = light_color s"
  "light_brightness (apply_audio_control u (apply_volumes u (apply_flags u s))) = light_brightness s"
  "emulate_light_brightness (apply_audio_control u (apply_volumes u (apply_flags u s))) =
     emulate_light_brightness s"
  by (simp_all add: apply_audio_control_def apply_audio_path_def apply_audio_control2_def apply_audio_mute_def
      apply_speaker_path_def apply_mic_select_def apply_volumes_def apply_flags_def byte_ops Let_def)

lemma spec_light_cong:
  "light_color s = light_color s' \<Longrightarrow> spec_color u s = spec_color u s'"
  "light_brightness s = light_brightness s' \<Longrightarrow> spec_brightness u s = spec_brightness u s'"
  by (auto simp: spec_color_def spec_brightness_def fun_eq_iff)

lemma flag_bytes:
  "(set_state_bit (set_state_bit b 0 (bit a 0)) 1 (bit a 1) OR (a AND 0x70)) OR (a AND 0x80) OR c =
   (b AND 0xfc) OR (a AND 0xf3) OR c"
  "set_state_bit b 2 (bit a 2) = (b AND 0xfb) OR (a AND 0x04)"
  unfolding u8_eq_iff set_state_bit_def Let_def by (auto simp: bit_simps)

lemma apply_update_nth:
  assumes "length (ds_state s) = 63" "length (light_color s) = 3" "length u = 47" "j < 63"
  shows "ds_state (apply_update u s) ! j = merged_byte u s j"
proof -
  define s1 where "s1 = apply_audio_control u (apply_volumes u (apply_flags u s))"
  define s2 where "s2 = (if bit (u ! 1) 0 then copy_byte u 8 1 s1 else s1)"
  define s3 where "s3 = (if bit (u ! 0) 2 then copy_byte u 10 11 s2 else s2)"
  define s4 where "s4 = (if bit (u ! 0) 3 then copy_byte u 21 11 s3 else s3)"
  have lf: "length (ds_state (apply_flags u s)) = 63" "length (ds_state (apply_volumes u (apply_flags u s))) = 63"
    using apply_parts_keep [of u] assms(1) by (simp_all add: keeps_shape_def kDsStateSize_def)
  have len: "length (ds_state s1) = 63" "length (ds_state s2) = 63" "length (ds_state s3) = 63"
    "length (ds_state s4) = 63"
    using apply_parts_keep(3) [of u] lf
    by (simp_all add: s1_def s2_def s3_def s4_def keeps_shape_def kDsStateSize_def)
  have sel: "light_color s4 = light_color s" "light_brightness s4 = light_brightness s"
    "emulate_light_brightness s4 = emulate_light_brightness s"
    by (simp_all add: s4_def s3_def s2_def s1_def light_stages_sel)
  have l3: "length (light_color s4) = 3" using assms(2) by (simp add: sel)
  have copied: "ds_state s4 ! i = (if i = 8 \<and> bit (u ! 1) 0 \<or> 10 \<le> i \<and> i < 21 \<and> bit (u ! 0) 2 \<or>
      21 \<le> i \<and> i < 32 \<and> bit (u ! 0) 3 then u ! i else ds_state s1 ! i)" if "i < 63" for i
    using that len assms(3) by (auto simp: s4_def s3_def s2_def nth_copy_byte)
  have e: "apply_update u s = apply_lights u s4"
    by (simp only: apply_update_def Let_def s1_def s2_def s3_def s4_def)
  have lights: "ds_state (apply_update u s) ! j =
    (if j = 41 \<and> bit (u ! 38) 1 \<or> j = 42 \<and> bit (u ! 38) 0 \<or> j = 43 \<and> bit (u ! 1) 4 then u ! j
     else if 44 \<le> j \<and> j < 47 then
       (if (emulate_light_brightness s \<or> bit (u ! 38) 0) \<and> (bit (u ! 38) 0 \<or> bit (u ! 1) 2)
        then scale_light_component (spec_color u s (j - 44)) (spec_brightness u s)
        else if bit (u ! 1) 2 then u ! j else ds_state s4 ! j)
     else ds_state s4 ! j)"
    unfolding e apply_lights_nth [OF len(4) assms(3) l3 assms(4)] sel spec_light_cong(1) [OF sel(1)]
      spec_light_cong(2) [OF sel(2)] ..
  have audio: "ds_state s1 ! j =
    (if j = 0 then (ds_state s ! 0 AND 0xfc) OR (u ! 0 AND 0xf3) OR (if spec_speaker u then 0xa0 else 0)
     else if j = 1 then ds_state s ! 1 OR (u ! 1 AND 0x82) OR (if spec_speaker u then 0x80 else 0)
     else if j = 7 then
       (if spec_speaker u then (spec_control u s AND 0xcf) OR 0x30
        else if bit (u ! 0) 7 then (spec_control u s AND 0xcf) OR (u ! 7 AND 0x30) else ds_state s ! 7)
     else if j = 9 \<and> bit (u ! 1) 1 then u ! 9
     else if j = 37 \<and> spec_speaker u then spec_control2 u s
     else if j = 37 \<and> bit (u ! 1) 7 then u ! 37
     else if j = 38 then (ds_state s ! 38 AND 0xfb) OR (u ! 38 AND 0x04)
     else if (j = 2 \<or> j = 3) \<and> (bit (u ! 0) 0 \<or> bit (u ! 0) 1) \<or>
       j = 4 \<and> bit (u ! 0) 4 \<or> j = 5 \<and> bit (u ! 0) 5 \<or> j = 6 \<and> bit (u ! 0) 6 then u ! j
     else ds_state s ! j)"
  proof (cases "j = 0")
    case True
    have "ds_state (apply_volumes u (apply_flags u s)) ! 0 =
        set_state_bit (set_state_bit (ds_state s ! 0) 0 (bit (u ! 0) 0)) 1 (bit (u ! 0) 1) OR (u ! 0 AND 0x70)"
      by (simp only: apply_volumes_nth [OF lf(1) assms(3)] apply_flags_nth [OF assms(1,3)]) simp
    then have "ds_state s1 ! 0 =
        (ds_state s ! 0 AND 0xfc) OR (u ! 0 AND 0xf3) OR (if spec_speaker u then 0xa0 else 0)"
      using apply_audio_control_nth [OF lf(2) assms(3), of 0, folded s1_def]
      by (simp only: flag_bytes(1) if_True zero_less_numeral simp_thms)
    with True show ?thesis by simp
  next
    case False
    with assms(4) show ?thesis
      by (simp add: apply_audio_control_nth [OF lf(2) assms(3), folded s1_def] apply_volumes_nth [OF lf(1) assms(3)]
          apply_flags_nth [OF assms(1,3)] early_stages_spec flag_bytes(2) del: One_nat_def)
  qed
  consider "j < 10" | "10 \<le> j" "j < 21" | "21 \<le> j" "j < 32" | "32 \<le> j" by linarith
  then show ?thesis
  proof cases
    case 1
    then have "j = 0 \<or> j = 1 \<or> j = 2 \<or> j = 3 \<or> j = 4 \<or> j = 5 \<or> j = 6 \<or> j = 7 \<or> j = 8 \<or> j = 9"
      by presburger
    then show ?thesis
      unfolding lights copied [OF assms(4)] audio merged_byte_def Let_def by (elim disjE) simp_all
  next
    case 2
    then show ?thesis unfolding lights copied [OF assms(4)] audio merged_byte_def Let_def by simp
  next
    case 3
    then show ?thesis unfolding lights copied [OF assms(4)] audio merged_byte_def Let_def by simp
  next
    case 4
    then show ?thesis unfolding lights copied [OF assms(4)] audio merged_byte_def Let_def by simp
  qed
qed

section \<open>Invariant of the output state\<close>

text \<open>
  Path and non-path bits of the audio control are kept apart, the state byte carries the current
  audio control, and its microphone selection is the one the plugged state dictates.
\<close>

definition output_inv :: "DsOutputState \<Rightarrow> bool" where
  "output_inv s \<longleftrightarrow> wf_output s \<and> audio_control s AND 0x30 = 0 \<and> audio_output_path s AND 0xcf = 0 \<and>
     ds_state s ! 7 AND 0xcf = audio_control s \<and>
     audio_control s AND 3 = (if headset_mic_plugged s then 0 else 1)"

datatype output_op = Usb_report bytes | Audio_stream bool bool | Headset_mic bool
  | Mic_state bool bool | Mic_report bool | State_report

fun run_output_op :: "output_op \<Rightarrow> DsOutputState \<Rightarrow> DsOutputState" where
  "run_output_op (Usb_report r) s = snd (apply_usb_output_report r s)"
| "run_output_op (Audio_stream a h) s = set_audio_out_stream_active a h s"
| "run_output_op (Headset_mic p) s = set_headset_mic_plugged p s"
| "run_output_op (Mic_state a m) s = snd (build_bt_mic_state_report a m s)"
| "run_output_op (Mic_report a) s = snd (build_bt_mic_report a s)"
| "run_output_op State_report s = snd (build_bt_state_report s)"

lemma apply_update_sel:
  "audio_control (apply_update u s) = spec_control u s"
  "audio_output_path (apply_update u s) = (if bit (u ! 0) 7 then u ! 7 AND 0x30 else audio_output_path s)"
  "headset_mic_plugged (apply_update u s) = headset_mic_plugged s"
proof -
  have l: "audio_control (apply_lights u t) = audio_control t"
    "audio_output_path (apply_lights u t) = audio_output_path t"
    "headset_mic_plugged (apply_lights u t) = headset_mic_plugged t" for t
    by (simp_all add: apply_lights_def Let_def)
  have a: "audio_control (apply_audio_control u t) = audio_control (apply_audio_path u t)"
    "audio_output_path (apply_audio_control u t) = audio_output_path (apply_audio_path u t)"
    "headset_mic_plugged (apply_audio_control u t) = headset_mic_plugged t" for t
    by (simp_all add: apply_audio_control_def apply_audio_path_def apply_audio_control2_def apply_audio_mute_def
        apply_speaker_path_def apply_mic_select_def byte_ops Let_def)
  show "audio_control (apply_update u s) = spec_control u s"
    "audio_output_path (apply_update u s) = (if bit (u ! 0) 7 then u ! 7 AND 0x30 else audio_output_path s)"
    "headset_mic_plugged (apply_update u s) = headset_mic_plugged s"
    by (simp_all add: apply_update_def Let_def l a apply_audio_path_sel early_stages_spec early_stages_sel)
qed

lemma output_update_length: "output_update r = Some u \<Longrightarrow> length u = 47"
  by (auto simp: output_update_def protocol_consts split: if_splits)

lemma control_masks:
  "(((c :: u8) AND 0xcf) OR (p AND 0x30)) AND 0xcf = c AND 0xcf"
  "((c AND 0xcf) OR 0x30) AND 0xcf = c AND 0xcf"
  "(c AND 0xcf) AND 0xcf = c AND 0xcf"
  "c AND 0x30 = 0 \<Longrightarrow> c AND 0xcf = c"
  "(p AND 0x30) AND 0xcf = 0"
  unfolding u8_eq_iff by (auto simp: bit_simps)

lemma spec_control_masks:
  assumes "audio_control s AND 0x30 = 0" "audio_control s AND 3 = (if headset_mic_plugged s then 0 else 1)"
  shows "spec_control u s AND 0x30 = 0" "spec_control u s AND 3 = (if headset_mic_plugged s then 0 else 1)"
  using assms unfolding u8_eq_iff spec_control_def by (auto simp: bit_simps)

lemma apply_update_inv:
  assumes "output_inv s" "length u = 47"
  shows "output_inv (apply_update u s)"
proof -
  from assms have wf: "wf_output s" and len: "length (ds_state s) = 63" "length (light_color s) = 3"
    and c: "audio_control s AND 0x30 = 0" "audio_control s AND 3 = (if headset_mic_plugged s then 0 else 1)"
    and p: "audio_output_path s AND 0xcf = 0" and b: "ds_state s ! 7 AND 0xcf = audio_control s"
    by (auto simp: output_inv_def wf_output_def kDsStateSize_def)
  note k = spec_control_masks [OF c, of u]
  have "ds_state (apply_update u s) ! 7 AND 0xcf = spec_control u s"
    using apply_update_nth [OF len assms(2), of 7] b k(1) control_masks [of "spec_control u s"]
    by (auto simp: merged_byte_def Let_def) (simp add: spec_control_def)
  with wf k p show ?thesis
    using keeps_wf [OF apply_update_keeps wf] control_masks(5)
    by (simp add: output_inv_def apply_update_sel)
qed

lemma mic_control_masks:
  assumes "c AND 0x30 = (0 :: u8)"
  shows "((c AND NOT 3) OR (if p then 0 else 1)) AND 0x30 = 0"
    "((c AND NOT 3) OR (if p then 0 else 1)) AND 3 = (if p then 0 else 1)"
  using assms unfolding u8_eq_iff by (auto simp: bit_simps)

lemma path_masks:
  assumes "c AND 0x30 = (0 :: u8)" "p AND 0xcf = 0"
  shows "((c AND 0xcf) OR p) AND 0xcf = c"
  using assms unfolding u8_eq_iff by (auto simp: bit_simps)

lemma apply_mic_select_inv:
  assumes "wf_output s" "audio_control s AND 0x30 = 0" "audio_output_path s AND 0xcf = 0"
  shows "output_inv (apply_mic_select s)"
proof -
  let ?c = "(audio_control s AND NOT 3) OR (if headset_mic_plugged s then 0 else 1)"
  have len: "7 < length (ds_state s)" using assms(1) by (simp add: wf_output_def kDsStateSize_def)
  have "ds_state (apply_mic_select s) ! 7 = (?c AND 0xcf) OR audio_output_path s"
    using len by (simp add: apply_mic_select_def byte_ops Let_def nth_put_byte audio_control_with_output_path_masks
        protocol_consts)
  moreover have "audio_control (apply_mic_select s) = ?c" "audio_output_path (apply_mic_select s) = audio_output_path s"
    "headset_mic_plugged (apply_mic_select s) = headset_mic_plugged s"
    by (simp_all add: apply_mic_select_def byte_ops Let_def protocol_consts)
  ultimately show ?thesis
    using mic_control_masks [OF assms(2), of "headset_mic_plugged s"] assms(3)
      path_masks [OF mic_control_masks(1) [OF assms(2)] assms(3)] keeps_wf [OF apply_mic_select_keeps assms(1)]
    by (simp add: output_inv_def)
qed

lemma set_headset_inv: "output_inv s \<Longrightarrow> output_inv (set_headset_mic_plugged p s)"
  unfolding set_headset_mic_plugged_def
  by (rule apply_mic_select_inv) (simp_all add: output_inv_def wf_output_def or_byte_def)

lemma stream_effect:
  assumes "length (ds_state s) = 63"
  shows "ds_state (set_audio_out_stream_active a h s) ! 7 = (audio_control s AND 0xcf) OR (if a \<and> \<not> h then 0x30 else 0)"
    "ds_state (set_audio_out_stream_active a h s) ! 5 = (if a \<and> \<not> h then speaker_volume s else 0)"
    "ds_state (set_audio_out_stream_active a h s) ! 4 = headphones_volume s"
    "ds_state (set_audio_out_stream_active a h s) ! 37 = (if a \<and> \<not> h then audio_control2 s else 0)"
    "bit (ds_state (set_audio_out_stream_active a h s) ! 0) 5 \<longleftrightarrow> a \<and> \<not> h"
    "bit (ds_state (set_audio_out_stream_active a h s) ! 1) 7 \<longleftrightarrow> a \<and> \<not> h"
    "audio_output_path (set_audio_out_stream_active a h s) = (if a \<and> \<not> h then 0x30 else 0)"
    "audio_control (set_audio_out_stream_active a h s) = audio_control s"
    "headset_mic_plugged (set_audio_out_stream_active a h s) = headset_mic_plugged s"
  using assms
  by (simp_all add: set_audio_out_stream_active_def byte_ops Let_def nth_put_byte
      audio_control_with_output_path_masks protocol_consts bit_simps)

lemma stream_frame:
  assumes "length (ds_state s) = 63" "j \<notin> {0, 1, 4, 5, 7, 37}"
  shows "ds_state (set_audio_out_stream_active a h s) ! j = ds_state s ! j"
  using assms
  by (simp add: set_audio_out_stream_active_def byte_ops Let_def nth_put_byte)

lemma stream_inv: "output_inv s \<Longrightarrow> output_inv (set_audio_out_stream_active a h s)"
proof -
  assume s: "output_inv s"
  then have wf: "wf_output s" and len: "length (ds_state s) = 63" by (auto simp: output_inv_def wf_output_def kDsStateSize_def)
  have "(if a \<and> \<not> h then 0x30 else 0 :: u8) AND 0xcf = 0" by simp
  with s path_masks [of "audio_control s" "if a \<and> \<not> h then 0x30 else 0"] show ?thesis
    using keeps_wf [OF stream_keeps wf] by (simp add: output_inv_def stream_effect [OF len])
qed

lemma mic_state_effect:
  assumes "length (ds_state s) = 63"
  shows "ds_state (snd (build_bt_mic_state_report a m s)) ! 7 = (audio_control s AND 0xcf) OR audio_output_path s"
    "length (ds_state (snd (build_bt_mic_state_report a m s))) = 63"
    "audio_control (snd (build_bt_mic_state_report a m s)) = audio_control s"
    "audio_output_path (snd (build_bt_mic_state_report a m s)) = audio_output_path s"
    "headset_mic_plugged (snd (build_bt_mic_state_report a m s)) = headset_mic_plugged s"
    "light_color (snd (build_bt_mic_state_report a m s)) = light_color s"
    "mic_sequence (snd (build_bt_mic_state_report a m s)) = mic_sequence s"
    "report_sequence (snd (build_bt_mic_state_report a m s)) = next_sequence (report_sequence s)"
  using assms
  by (simp_all add: build_bt_mic_state_report_def byte_ops Let_def nth_put_byte
      audio_control_with_output_path_masks)

lemma run_output_op_inv: "output_inv s \<Longrightarrow> output_inv (run_output_op x s)"
proof (cases x)
  case (Usb_report r)
  assume "output_inv s"
  with Usb_report show ?thesis
    using apply_update_inv output_update_length
    by (cases "output_update r") (auto simp: apply_usb_output_report_def)
next
  case (Mic_state a m)
  assume s: "output_inv s"
  then have len: "length (ds_state s) = 63" by (auto simp: output_inv_def wf_output_def kDsStateSize_def)
  from s path_masks [of "audio_control s" "audio_output_path s"] Mic_state show ?thesis
    by (simp add: output_inv_def wf_output_def kDsStateSize_def mic_state_effect [OF len] next_sequence_less)
next
  case (Mic_report a)
  assume "output_inv s"
  with Mic_report show ?thesis
    by (simp add: build_bt_mic_report_def output_inv_def wf_output_def next_sequence_less Let_def)
next
  case State_report
  assume "output_inv s"
  with State_report show ?thesis
    by (simp add: build_bt_state_report_def output_inv_def wf_output_def next_sequence_less Let_def)
qed (simp_all add: stream_inv set_headset_inv)

lemma initial_output_inv: "output_inv initial_output_state"
  by code_simp

lemma run_output_ops_inv: "output_inv (fold run_output_op xs initial_output_state)"
proof -
  have "output_inv s \<Longrightarrow> output_inv (fold run_output_op xs s)" for s
    by (induction xs arbitrary: s) (simp_all add: run_output_op_inv)
  with initial_output_inv show ?thesis by blast
qed

section \<open>Layout of reports and packets\<close>

lemma sealed_report:
  assumes "4 \<le> length r"
  shows "\<exists>r'. fill_output_report_checksum r = Inr r' \<and> sealed output_crc32 r' \<and> length r' = length r \<and>
    (\<forall>i < length r - 4. r' ! i = r ! i)"
proof -
  obtain r' where r': "fill_output_report_checksum r = Inr r'" using output_seal.fill_eq [OF assms] by blast
  have "r' ! i = r ! i" if "i < length r - 4" for i
    using r' output_seal.fill_eq [OF assms] that by (auto simp: body_def nth_append)
  with r' output_seal.fill_sealed [OF r'] output_seal.fill_length [OF r'] show ?thesis by blast
qed

lemma slice_eq:
  assumes "k + length xs \<le> length r" "\<And>i. i < length xs \<Longrightarrow> r ! (k + i) = xs ! i"
  shows "take (length xs) (drop k r) = xs"
  using assms by (intro nth_equalityI) auto

lemma take3: "3 \<le> length r \<Longrightarrow> take 3 r = [r ! 0, r ! 1, r ! 2]"
  by (cases r; cases "tl r"; cases "tl (tl r)") (auto simp: numeral_3_eq_3 numeral_2_eq_2)

lemma state_report_layout:
  assumes "length (ds_state s) = 63"
  shows "\<exists>r. fst (build_bt_state_report s) = Inr r \<and> sealed output_crc32 r \<and> length r = kBtStateReportSize \<and>
    take 3 r = [VDS_BT_STATE_REPORT_ID, push_bit 4 (report_sequence s), 0x10] \<and>
    take kSetStateSize (drop kBtStateOffset r) = take kSetStateSize (ds_state s)"
proof -
  let ?r0 = "(replicate kBtStateReportSize 0)
    [0 := VDS_BT_STATE_REPORT_ID, 1 := push_bit 4 (report_sequence s), 2 := 0x10]"
  let ?r = "blit kBtStateOffset (take kSetStateSize (ds_state s)) ?r0"
  have len: "length ?r = 78" using assms by (simp add: protocol_consts)
  obtain r where r: "fill_output_report_checksum ?r = Inr r" "sealed output_crc32 r" "length r = 78"
    and nth: "\<forall>i < 74. r ! i = ?r ! i"
    using sealed_report [of ?r] len by auto
  have "take (length (take 47 (ds_state s))) (drop 3 r) = take 47 (ds_state s)"
    by (rule slice_eq) (use assms r nth in \<open>auto simp: nth_blit protocol_consts\<close>)
  moreover have "r ! 0 = VDS_BT_STATE_REPORT_ID" "r ! 1 = push_bit 4 (report_sequence s)" "r ! 2 = 0x10"
    using nth assms by (simp_all add: nth_blit protocol_consts)
  then have "take 3 r = [VDS_BT_STATE_REPORT_ID, push_bit 4 (report_sequence s), 0x10]"
    using r(3) by (simp add: take3)
  ultimately show ?thesis
    using r assms by (simp add: build_bt_state_report_def protocol_consts)
qed

lemma haptics_packet_layout:
  assumes "length haptics = 64" "length speaker = 200" "length state = 63"
  shows "\<exists>r. fst (build_packet haptics speaker state en plugged b) = Inr r \<and> sealed output_crc32 r \<and>
    length r = kBtHapticsReportSize \<and> r ! 1 = push_bit 4 (hb_report_sequence b) \<and> r ! 10 = hb_packet_sequence b \<and>
    take 63 (drop 13 r) = state \<and> take 64 (drop 78 r) = map word_of_int haptics \<and>
    take 200 (drop 144 r) = speaker \<and> r ! 142 = (if plugged then 0x96 else 0x93)"
proof -
  define p1 where "p1 = (replicate kBtHapticsReportSize 0)
    [0 := VDS_BT_HAPTICS_REPORT_ID, 1 := push_bit 4 (hb_report_sequence b),
     2 := 0x11 OR push_bit 7 1, 3 := 7, 4 := (if en then 0xff else 0xfe),
     5 := kBtAudioBufferLength, 6 := kBtAudioBufferLength, 7 := kBtAudioBufferLength,
     8 := kBtAudioBufferLength, 9 := kBtAudioBufferLength, 10 := hb_packet_sequence b,
     11 := 0x10 OR push_bit 7 1, 12 := of_nat kDsStateSize]"
  define p2 where "p2 = (blit 13 state p1)[76 := 0x12 OR push_bit 7 1, 77 := of_nat kHapticsSampleSize]"
  define p3 where "p3 = (blit 78 (map word_of_int haptics) p2)
    [142 := (if plugged then 0x16 else 0x13) OR push_bit 7 1, 143 := of_nat kSpeakerOpusSize]"
  define p4 where "p4 = blit 144 speaker p3"
  have len: "length p1 = 398" "length p2 = 398" "length p3 = 398" "length p4 = 398"
    using assms by (simp_all add: p1_def p2_def p3_def p4_def protocol_consts)
  obtain r where r: "fill_output_report_checksum p4 = Inr r" "sealed output_crc32 r" "length r = 398"
    and nth: "\<forall>i < 394. r ! i = p4 ! i"
    using sealed_report [of p4] len by auto
  have low: "p4 ! i = p1 ! i" if "i < 13" for i
    using that assms len by (simp add: p4_def p3_def p2_def nth_blit)
  have st: "p4 ! (13 + i) = state ! i" if "i < 63" for i
    using that assms len by (simp add: p4_def p3_def p2_def nth_blit)
  have ha: "p4 ! (78 + i) = map word_of_int haptics ! i" if "i < 64" for i
    using that assms len by (simp add: p4_def p3_def nth_blit)
  have sp: "p4 ! (144 + i) = speaker ! i" if "i < 200" for i
    using that assms len by (simp add: p4_def nth_blit)
  have "p4 ! 142 = (if plugged then 0x96 else 0x93)"
    using assms len by (simp add: p4_def p3_def nth_blit)
  moreover have "take (length state) (drop 13 r) = state"
    by (rule slice_eq) (use assms r nth st in auto)
  moreover have "take (length (map word_of_int haptics :: bytes)) (drop 78 r) = map word_of_int haptics"
    by (rule slice_eq) (use assms r nth ha in auto)
  moreover have "take (length speaker) (drop 144 r) = speaker"
    by (rule slice_eq) (use assms r nth sp in auto)
  moreover have "p1 ! 1 = push_bit 4 (hb_report_sequence b)" "p1 ! 10 = hb_packet_sequence b"
    by (simp_all add: p1_def protocol_consts)
  ultimately have "r ! 142 = (if plugged then 0x96 else 0x93)" "take 63 (drop 13 r) = state"
    "take 64 (drop 78 r) = map word_of_int haptics" "take 200 (drop 144 r) = speaker"
    "r ! 1 = push_bit 4 (hb_report_sequence b)" "r ! 10 = hb_packet_sequence b"
    using assms nth low by simp_all
  moreover have "fst (build_packet haptics speaker state en plugged b) = fill_output_report_checksum p4"
    by (simp only: build_packet_def Let_def p1_def p2_def p3_def p4_def fst_conv kSpeakerBlockOffset_def
        kSpeakerDataOffset_def) simp
  ultimately show ?thesis using r by (simp add: kBtHapticsReportSize_def)
qed

lemma header_bytes_length [simp]: "length (header_bytes h) = 16"
  by (simp add: header_bytes_def)

lemma header_fields:
  "from_le16 (take 2 (header_bytes h @ p)) = fh_type h"
  "from_le32 (take 4 (drop 4 (header_bytes h @ p))) = fh_length h"
  by (simp_all add: header_bytes_def)

section \<open>Properties\<close>

text \<open>
  A USB output report is merged byte by byte: a report of an accepted shape sets every byte of
  the controller state as the table \<open>merged_byte\<close> says, so a field whose enable bit is clear
  keeps its value, the enable bits of the state are only ever set, a non-zero speaker volume forces
  the speaker path and the light colour is scaled by the brightness in force; any other report is
  refused and changes nothing.
\<close>

theorem usb_output_report_merge:
  assumes "wf_output s"
  shows "apply_usb_output_report report s =
      (case output_update report of None \<Rightarrow> (False, s) | Some u \<Rightarrow> (True, apply_update u s)) \<and>
    (\<forall>u. output_update report = Some u \<longrightarrow> wf_output (apply_update u s) \<and>
      (\<forall>j < kDsStateSize. ds_state (apply_update u s) ! j = merged_byte u s j))"
proof -
  from assms have len: "length (ds_state s) = 63" "length (light_color s) = 3"
    by (auto simp: wf_output_def kDsStateSize_def)
  have "wf_output (apply_update u s) \<and> (\<forall>j < kDsStateSize. ds_state (apply_update u s) ! j = merged_byte u s j)"
    if "output_update report = Some u" for u
    using apply_update_nth [OF len output_update_length [OF that]] keeps_wf [OF apply_update_keeps assms]
    by (simp add: kDsStateSize_def)
  then show ?thesis by (simp add: apply_usb_output_report_def)
qed

theorem usb_output_report_merge_witness:
  "ds_state (apply_update (replicate 47 0) initial_output_state) ! 5 =
   merged_byte (replicate 47 0) initial_output_state 5"
proof -
  have "wf_output initial_output_state" using initial_output_inv by (simp add: output_inv_def)
  moreover have "output_update (replicate 47 0) = Some (replicate 47 0)"
    by (simp add: output_update_def protocol_consts)
  ultimately show ?thesis
    using usb_output_report_merge [of initial_output_state "replicate 47 0"] by (simp add: kDsStateSize_def)
qed

text \<open>
  C19. No sequence of operations lets a game take over the microphone selection: in every state
  reached from the initial one by output reports, stream changes, plug events and report building,
  the selection bits of the audio control byte are exactly those of the plugged state, path bits and
  the remaining control bits never mix, and the state keeps its size and sequence bounds.
\<close>

theorem output_state_invariant:
  "let s = fold run_output_op ops initial_output_state in
   ds_state s ! 7 AND 3 = (if headset_mic_plugged s then 0 else 1) \<and>
   ds_state s ! 7 AND 0xcf = audio_control s \<and> audio_output_path s AND 0xcf = 0 \<and> wf_output s"
proof -
  let ?s = "fold run_output_op ops initial_output_state"
  have s: "output_inv ?s" by (rule run_output_ops_inv)
  have "ds_state ?s ! 7 AND 3 = (ds_state ?s ! 7 AND 0xcf) AND 3"
    unfolding u8_eq_iff by (simp add: bit_simps)
  with s show ?thesis by (simp add: output_inv_def Let_def)
qed

text \<open>
  Switching the audio stream routes the sound consistently: the path, the speaker volume, the
  second audio control byte and the two enable bits all select the speaker exactly when the stream
  is active and no headset is plugged, the remembered headphone volume is restored, and no other
  byte of the state changes.
\<close>

theorem audio_stream_routing:
  assumes "wf_output s" "s' = set_audio_out_stream_active active headset s"
  shows "(let speaker = (active \<and> \<not> headset) in
    ds_state s' ! 7 = (audio_control s AND 0xcf) OR (if speaker then kOutputPathSpeaker else kOutputPathHeadphones) \<and>
    ds_state s' ! 5 = (if speaker then speaker_volume s else 0) \<and> ds_state s' ! 4 = headphones_volume s \<and>
    ds_state s' ! 37 = (if speaker then audio_control2 s else 0) \<and>
    bit (ds_state s' ! 0) 5 = speaker \<and> bit (ds_state s' ! 1) 7 = speaker \<and>
    (\<forall>j. j \<notin> {0, 1, 4, 5, 7, 37} \<longrightarrow> ds_state s' ! j = ds_state s ! j))"
proof -
  have len: "length (ds_state s) = 63" using assms(1) by (simp add: wf_output_def kDsStateSize_def)
  show ?thesis
    unfolding assms(2) Let_def stream_effect [OF len] kOutputPathSpeaker_def kOutputPathHeadphones_def
    using stream_frame [OF len] by blast
qed

theorem audio_stream_routing_witness:
  "ds_state (set_audio_out_stream_active True False initial_output_state) ! 5 = speaker_volume initial_output_state"
proof -
  have "wf_output initial_output_state" using initial_output_inv by (simp add: output_inv_def)
  from audio_stream_routing [OF this refl, of True False] show ?thesis by (simp add: Let_def)
qed

text \<open>
  State reports are well formed: building one never fails, the report has the fixed size, a
  valid checksum, the current sequence number in its high nibble and the 47 bytes of the state, and
  the sequence number then advances modulo 16.
\<close>

theorem state_report_correct:
  assumes "wf_output s"
  shows "\<exists>r. fst (build_bt_state_report s) = Inr r \<and> sealed output_crc32 r \<and> length r = kBtStateReportSize \<and>
    take 3 r = [VDS_BT_STATE_REPORT_ID, push_bit 4 (report_sequence s), 0x10] \<and>
    take kSetStateSize (drop kBtStateOffset r) = take kSetStateSize (ds_state s) \<and>
    unat (report_sequence (snd (build_bt_state_report s))) = (unat (report_sequence s) + 1) mod 16"
proof -
  have "length (ds_state s) = 63" using assms by (simp add: wf_output_def kDsStateSize_def)
  from state_report_layout [OF this] assms show ?thesis
    by (auto simp: build_bt_state_report_def Let_def wf_output_def next_sequence_unat)
qed

theorem state_report_correct_witness:
  "\<exists>r. fst (build_bt_state_report initial_output_state) = Inr r \<and> sealed output_crc32 r"
proof -
  have "wf_output initial_output_state" using initial_output_inv by (simp add: output_inv_def)
  from state_report_correct [OF this] show ?thesis by blast
qed

text \<open>
  The haptics packet carries its three payloads unharmed: for arrays of the declared sizes the
  packet is built without failure, is sealed, and the controller state, the haptic samples and the
  encoded speaker block are found at their offsets, none overwriting another.
\<close>

theorem haptics_packet_correct:
  assumes "length haptics = kHapticsSampleSize" "length speaker = kSpeakerOpusSize" "length state = kDsStateSize"
  shows "\<exists>r. fst (build_packet haptics speaker state en plugged b) = Inr r \<and> sealed output_crc32 r \<and>
    length r = kBtHapticsReportSize \<and> r ! 1 = push_bit 4 (hb_report_sequence b) \<and> r ! 10 = hb_packet_sequence b \<and>
    take 63 (drop 13 r) = state \<and> take 64 (drop 78 r) = map word_of_int haptics \<and>
    take 200 (drop 144 r) = speaker \<and> r ! 142 = (if plugged then 0x96 else 0x93)"
  using assms unfolding kHapticsSampleSize_def kSpeakerOpusSize_def kDsStateSize_def
  by (rule haptics_packet_layout)

theorem haptics_packet_correct_witness:
  "\<exists>r. fst (build_packet (replicate 64 (-1)) (replicate 200 7) (replicate 63 5) True True
      \<lparr>hb_report_sequence = 15, hb_packet_sequence = 255\<rparr>) = Inr r \<and> sealed output_crc32 r \<and>
    take 63 (drop 13 r) = replicate 63 5 \<and> take 200 (drop 144 r) = replicate 200 7"
proof -
  have "length (replicate 64 (-1 :: int)) = kHapticsSampleSize" "length (replicate 200 (7 :: u8)) = kSpeakerOpusSize"
    "length (replicate 63 (5 :: u8)) = kDsStateSize" by (simp_all add: protocol_consts)
  from haptics_packet_correct [OF this] show ?thesis by metis
qed

text \<open>
  Bluetooth input is translated exactly: a control packet yields the 64-byte USB report with its
  identifier and the 63 payload bytes, an audio packet yields the 71 bytes of the microphone frame,
  and no packet is taken for both.
\<close>

theorem bt_input_translation:
  "(bt_input_to_usb_input packet = Some r \<longrightarrow>
      r = VDS_USB_INPUT_REPORT_ID # take 63 (drop 3 packet) \<and> length r = kUsbInputReportSize \<and>
      bt_mic_opus_payload packet = None) \<and>
   (bt_mic_opus_payload packet = Some m \<longrightarrow>
      length m = kMicOpusSize \<and> m = take kMicOpusSize (drop kBtMicOpusOffset packet) \<and>
      bt_input_to_usb_input packet = None)"
proof -
  have "take (Suc 0) ((replicate 64 0)[0 := v]) = [v]" for v :: u8
    by (simp add: take_Suc_conv_app_nth)
  then show ?thesis
    by (auto simp: bt_input_to_usb_input_def bt_mic_opus_payload_def blit_def protocol_consts
        split: if_splits)
qed

theorem bt_input_translation_witness:
  "bt_mic_opus_payload ([0xa1, 0x31, 0x01] @ replicate 80 9) = None"
proof -
  have "bt_input_to_usb_input ([0xa1, 0x31, 0x01] @ replicate 80 9) = Some (1 # replicate 63 9)" by code_simp
  with bt_input_translation show ?thesis by blast
qed

text \<open>
  Frames for the kernel: a payload within the limit is framed by a 16-byte header that holds its
  type and its length, followed by the payload itself; a longer payload is refused.
\<close>

theorem frame_bytes_layout:
  "case frame_bytes type payload of
     Inr f \<Rightarrow> length payload \<le> VDS_FRAME_MAX_PAYLOAD \<and> length f = 16 + length payload \<and> drop 16 f = payload \<and>
       from_le16 (take 2 f) = type \<and> unat (from_le32 (take 4 (drop 4 f))) = length payload
   | Inl e \<Rightarrow> VDS_FRAME_MAX_PAYLOAD < length payload"
proof (cases "VDS_FRAME_MAX_PAYLOAD < length payload")
  case False
  then have l: "length payload \<le> 4096" by (simp add: VDS_FRAME_MAX_PAYLOAD_def)
  let ?h = "\<lparr>fh_type = type, fh_flags = 0, fh_length = of_nat (length payload), fh_sequence = 0\<rparr>"
  have "unat (of_nat (length payload) :: u32) = length payload" using l by (simp add: unat_of_nat)
  with False header_fields [of ?h payload] show ?thesis by (simp add: frame_bytes_def)
qed (simp add: frame_bytes_def)

end
