(* ===== verification/Audio.thy ===== *)
theory Audio
  imports Protocol
begin

text \<open>
  The audio path of \<open>src/vds_protocol.cc\<close>: resampling of the speaker and haptics windows,
  the extractor that cuts the USB audio stream into windows (\<open>PcmAudioExtractor\<close>) and the
  microphone decoder. The Opus codec is an argument: an encoder or decoder state with a function
  that returns an error code or the coded bytes (samples) and the next state, and \<open>opus_strerror\<close>.
  Samples are integers in the range of \<open>std::int16_t\<close>; the 32-bit intermediate results are
  shown to stay in range.
\<close>

section \<open>Samples\<close>

definition kSpeakerChannels :: nat where "kSpeakerChannels = 2"
definition kPcmChannels :: nat where "kPcmChannels = 4"
definition kPcmFrameSize :: nat where "kPcmFrameSize = 8"
definition kPcmWindowFrames :: nat where "kPcmWindowFrames = 512"
definition kSpeakerOpusFrames :: nat where "kSpeakerOpusFrames = 480"
definition kHapticsDecimation :: nat where "kHapticsDecimation = 48000 div 3000"
definition kMicOpusFrames :: nat where "kMicOpusFrames = 480"

lemmas audio_consts = kSpeakerChannels_def kPcmChannels_def kPcmFrameSize_def kPcmWindowFrames_def
  kSpeakerOpusFrames_def kHapticsDecimation_def kMicOpusFrames_def

definition is_s16 :: "int \<Rightarrow> bool" where
  "is_s16 v \<longleftrightarrow> - 32768 \<le> v \<and> v \<le> 32767"

definition s16_to_s8_haptic :: "int \<Rightarrow> int" where
  "s16_to_s8_haptic sample = cast_s8 (clamp_int (c_div sample 256) (- 128) 127)"

definition read_le_s16 :: "bytes \<Rightarrow> int" where
  "read_le_s16 data = cast_s16 (uint (ucast (data ! 0) OR push_bit 8 (ucast (data ! 1)) :: u32))"

definition lerp_i16 :: "int \<Rightarrow> int \<Rightarrow> u32 \<Rightarrow> u32 \<Rightarrow> int" where
  "lerp_i16 left right numerator denominator =
     (let left_part = left * cast_s32 (uint (denominator - numerator));
          right_part = right * cast_s32 (uint numerator);
          mixed = c_div (left_part + right_part) (cast_s32 (uint denominator)) in
      cast_s16 (clamp_int mixed (- 32768) 32767))"

definition resample_speaker_frame :: "int list \<Rightarrow> nat \<Rightarrow> nat \<Rightarrow> int list" where
  "resample_speaker_frame pcm pcm_frames frame =
     (let source_numerator = frame * pcm_frames;
          source_frame = source_numerator div kSpeakerOpusFrames;
          fraction = of_nat (source_numerator mod kSpeakerOpusFrames);
          next_frame = min (source_frame + 1) (pcm_frames - 1) in
      map (\<lambda>channel. lerp_i16 (pcm ! (source_frame * kSpeakerChannels + channel))
             (pcm ! (next_frame * kSpeakerChannels + channel)) fraction (of_nat kSpeakerOpusFrames))
        [0..<kSpeakerChannels])"

definition resample_speaker_pcm :: "int list \<Rightarrow> nat \<Rightarrow> int list" where
  "resample_speaker_pcm pcm pcm_frames =
     concat (map (resample_speaker_frame pcm pcm_frames) [0..<kSpeakerOpusFrames])"

definition haptics_frames :: nat where "haptics_frames = kHapticsSampleSize div kSpeakerChannels"

definition channel_sum :: "int list \<Rightarrow> nat \<Rightarrow> nat \<Rightarrow> nat \<Rightarrow> int" where
  "channel_sum pcm channel from_frame to_frame =
     sum_list (map (\<lambda>sample. pcm ! (sample * kSpeakerChannels + channel)) [from_frame..<to_frame])"

definition resample_haptics_frame :: "int list \<Rightarrow> nat \<Rightarrow> nat \<Rightarrow> int list" where
  "resample_haptics_frame pcm pcm_frames frame =
     (let from_frame = frame * pcm_frames div haptics_frames;
          to_frame = (frame + 1) * pcm_frames div haptics_frames;
          count = max 1 (to_frame - from_frame);
          left = cast_s16 (c_div (channel_sum pcm 0 from_frame to_frame) (int count));
          right = cast_s16 (c_div (channel_sum pcm 1 from_frame to_frame) (int count)) in
      [s16_to_s8_haptic left, s16_to_s8_haptic right])"

definition resample_haptics_pcm :: "int list \<Rightarrow> nat \<Rightarrow> int list" where
  "resample_haptics_pcm pcm pcm_frames =
     concat (map (resample_haptics_frame pcm pcm_frames) [0..<haptics_frames])"

section \<open>The codec\<close>

type_synonym 'e opus_encode = "'e \<Rightarrow> int list \<Rightarrow> (int + bytes) \<times> 'e"
type_synonym 'd opus_decode = "'d \<Rightarrow> bytes \<Rightarrow> (int + int list) \<times> 'd"
type_synonym opus_strerror = "int \<Rightarrow> string"

text \<open>The encoder writes at most the size of the chunk; the rest of the chunk is zero.\<close>

definition SpeakerEncoder_encode ::
  "'e opus_encode \<Rightarrow> opus_strerror \<Rightarrow> int list \<Rightarrow> nat \<Rightarrow> 'e \<Rightarrow> bytes result \<times> 'e" where
  "SpeakerEncoder_encode enc strerror pcm pcm_frames e =
     (case enc e (resample_speaker_pcm pcm pcm_frames) of
        (Inl code, e') \<Rightarrow> (Inl (Runtime_error (''opus_encode failed: '' @ strerror code)), e')
      | (Inr coded, e') \<Rightarrow>
          (Inr (take kSpeakerOpusSize coded @ replicate (kSpeakerOpusSize - length coded) 0), e'))"

definition mic_frame_bytes :: "int \<Rightarrow> bytes" where
  "mic_frame_bytes sample =
     (let s = word_of_int sample :: u16 in [0, 0, ucast (s AND 0xff), ucast (drop_bit 8 s AND 0xff)])"

definition MicAudioDecoder_decode ::
  "'d opus_decode \<Rightarrow> opus_strerror \<Rightarrow> bytes \<Rightarrow> 'd \<Rightarrow> bytes result \<times> 'd" where
  "MicAudioDecoder_decode dec strerror payload d =
     (case dec d payload of
        (Inl code, d') \<Rightarrow> (Inl (Runtime_error (''opus_decode failed: '' @ strerror code)), d')
      | (Inr samples, d') \<Rightarrow> (Inr (concat (map mic_frame_bytes samples)), d'))"

section \<open>The extractor\<close>

record AudioChunk =
  ch_haptics :: "int list"
  ch_speaker :: bytes
  has_signal :: bool
  has_haptics_signal :: bool

record 'e PcmAudioExtractor =
  speaker_encoder :: 'e
  pending_frame :: bytes
  speaker_pcm :: "int list"
  haptics_pcm :: "int list"
  pcm_window_frames :: nat
  pending_frame_pos :: nat
  pcm_window_frame_pos :: nat
  chunk_has_signal :: bool
  chunk_has_haptics_signal :: bool

definition new_extractor :: "'e \<Rightarrow> nat \<Rightarrow> 'e PcmAudioExtractor result" where
  "new_extractor e frames =
     (if frames = 0 \<or> frames > kPcmWindowFrames \<or> frames mod kHapticsDecimation \<noteq> 0
      then Inl (Invalid_argument ''unsupported PCM frame window'')
      else Inr \<lparr>speaker_encoder = e, pending_frame = replicate kPcmFrameSize 0,
                speaker_pcm = replicate (kPcmWindowFrames * kSpeakerChannels) 0,
                haptics_pcm = replicate (kPcmWindowFrames * kSpeakerChannels) 0,
                pcm_window_frames = frames, pending_frame_pos = 0, pcm_window_frame_pos = 0,
                chunk_has_signal = False, chunk_has_haptics_signal = False\<rparr>)"

definition frame_samples :: "bytes \<Rightarrow> int list" where
  "frame_samples base = map (\<lambda>channel. read_le_s16 (drop (channel * 2) base)) [0..<kPcmChannels]"

definition store_frame :: "bytes \<Rightarrow> 'e PcmAudioExtractor \<Rightarrow> 'e PcmAudioExtractor" where
  "store_frame base x =
     (let samples = frame_samples base; p = pcm_window_frame_pos x * kSpeakerChannels in
      x\<lparr>chunk_has_signal := chunk_has_signal x \<or> (\<exists>v \<in> set samples. v \<noteq> 0),
        speaker_pcm := (speaker_pcm x)[p := samples ! 0, p + 1 := samples ! 1],
        haptics_pcm := (haptics_pcm x)[p := samples ! 2, p + 1 := samples ! 3],
        chunk_has_haptics_signal := chunk_has_haptics_signal x \<or> samples ! 2 \<noteq> 0 \<or> samples ! 3 \<noteq> 0,
        pcm_window_frame_pos := pcm_window_frame_pos x + 1\<rparr>)"

definition consume_frame ::
  "'e opus_encode \<Rightarrow> opus_strerror \<Rightarrow> bytes \<Rightarrow> 'e PcmAudioExtractor \<Rightarrow>
   AudioChunk option result \<times> 'e PcmAudioExtractor" where
  "consume_frame enc strerror base x0 =
     (let x1 = store_frame base x0 in
      if pcm_window_frame_pos x1 \<noteq> pcm_window_frames x1 then (Inr None, x1)
      else
        (let x2 = x1\<lparr>pcm_window_frame_pos := 0\<rparr>;
             w = pcm_window_frames x2;
             haptics = resample_haptics_pcm (take (w * kSpeakerChannels) (haptics_pcm x2)) w in
         case SpeakerEncoder_encode enc strerror (take (w * kSpeakerChannels) (speaker_pcm x2)) w
                (speaker_encoder x2) of
           (Inl e, s) \<Rightarrow> (Inl e, x2\<lparr>speaker_encoder := s\<rparr>)
         | (Inr speaker, s) \<Rightarrow>
             (Inr (Some \<lparr>ch_haptics = haptics, ch_speaker = speaker, has_signal = chunk_has_signal x2,
                         has_haptics_signal = chunk_has_haptics_signal x2\<rparr>),
              x2\<lparr>speaker_encoder := s, chunk_has_signal := False, chunk_has_haptics_signal := False\<rparr>)))"

text \<open>The loop over the whole frames of the input; an exception of the codec ends it.\<close>

fun consume_frames ::
  "'e opus_encode \<Rightarrow> opus_strerror \<Rightarrow> nat \<Rightarrow> bytes \<Rightarrow> 'e PcmAudioExtractor \<Rightarrow> AudioChunk list \<Rightarrow>
   AudioChunk list result \<times> 'e PcmAudioExtractor" where
  "consume_frames enc strerror 0 bs x chunks = (Inr chunks, x)"
| "consume_frames enc strerror (Suc n) bs x chunks =
     (case consume_frame enc strerror (take kPcmFrameSize bs) x of
        (Inl e, x') \<Rightarrow> (Inl e, x')
      | (Inr c, x') \<Rightarrow>
          consume_frames enc strerror n (drop kPcmFrameSize bs) x'
            (case c of None \<Rightarrow> chunks | Some ch \<Rightarrow> chunks @ [ch]))"

text \<open>
  The outer loop. The pending position never exceeds the frame size (\<open>wf_extractor\<close>); the
  branch for a larger one, where the subtraction of the source would wrap, ends the loop.
\<close>

function push_loop ::
  "'e opus_encode \<Rightarrow> opus_strerror \<Rightarrow> bytes \<Rightarrow> 'e PcmAudioExtractor \<Rightarrow> AudioChunk list \<Rightarrow>
   AudioChunk list result \<times> 'e PcmAudioExtractor" where
  "push_loop enc strerror bs x chunks =
     (if bs = [] \<or> kPcmFrameSize < pending_frame_pos x then (Inr chunks, x)
      else if pending_frame_pos x = 0 \<and> length bs \<ge> kPcmFrameSize then
        (let frames = length bs div kPcmFrameSize in
         case consume_frames enc strerror frames bs x chunks of
           (Inl e, x') \<Rightarrow> (Inl e, x')
         | (Inr chunks', x') \<Rightarrow> push_loop enc strerror (drop (frames * kPcmFrameSize) bs) x' chunks')
      else
        (let pos = pending_frame_pos x;
             copy_size = min (length bs) (kPcmFrameSize - pos);
             x1 = x\<lparr>pending_frame := blit pos (take copy_size bs) (pending_frame x),
                     pending_frame_pos := pos + copy_size\<rparr>;
             rest = drop copy_size bs in
         if pos + copy_size = kPcmFrameSize then
           (case consume_frame enc strerror (pending_frame x1) x1 of
              (Inl e, x2) \<Rightarrow> (Inl e, x2)
            | (Inr c, x2) \<Rightarrow>
                push_loop enc strerror rest (x2\<lparr>pending_frame_pos := 0\<rparr>)
                  (case c of None \<Rightarrow> chunks | Some ch \<Rightarrow> chunks @ [ch]))
         else push_loop enc strerror rest x1 chunks))"
  by pat_completeness auto
termination
proof (relation "measure (\<lambda>(enc, se, bs, x, chunks). 2 * length bs + (if pending_frame_pos x = kPcmFrameSize then 1 else 0))",
    goal_cases)
  case 1
  show ?case by simp
next
  case (2 enc strerror bs x chunks frames p chunks' x')
  then have "0 < frames" by (simp add: kPcmFrameSize_def div_greater_zero_iff)
  with 2 show ?case by (auto simp: kPcmFrameSize_def)
next
  case (3 enc strerror bs x chunks pos copy_size x1 rest)
  then show ?case by (auto simp: kPcmFrameSize_def)
next
  case (4 enc strerror bs x chunks pos copy_size x1 rest)
  then show ?case by (auto simp: kPcmFrameSize_def min_def split: if_splits)
qed

declare push_loop.simps [simp del]

definition push_usb_audio ::
  "'e opus_encode \<Rightarrow> opus_strerror \<Rightarrow> bytes \<Rightarrow> 'e PcmAudioExtractor \<Rightarrow>
   AudioChunk list result \<times> 'e PcmAudioExtractor" where
  "push_usb_audio enc strerror pcm_bytes x = push_loop enc strerror pcm_bytes x []"

section \<open>The stream as windows of frames\<close>

text \<open>
  The specification sees the whole stream: bytes are cut into frames of eight, frames into windows,
  and each full window gives one chunk, computed from that window alone (the codec apart, whose
  state runs through).
\<close>

fun chop :: "nat \<Rightarrow> bytes \<Rightarrow> bytes list" where
  "chop 0 bs = []"
| "chop (Suc n) bs = take kPcmFrameSize bs # chop n (drop kPcmFrameSize bs)"

definition whole_frames :: "bytes \<Rightarrow> bytes list" where
  "whole_frames bs = chop (length bs div kPcmFrameSize) bs"

definition left_over :: "bytes \<Rightarrow> bytes" where
  "left_over bs = drop (length bs div kPcmFrameSize * kPcmFrameSize) bs"

definition speaker_of :: "int list list \<Rightarrow> int list" where
  "speaker_of W = concat (map (\<lambda>f. [f ! 0, f ! 1]) W)"

definition haptics_of :: "int list list \<Rightarrow> int list" where
  "haptics_of W = concat (map (\<lambda>f. [f ! 2, f ! 3]) W)"

definition window_chunk ::
  "'e opus_encode \<Rightarrow> opus_strerror \<Rightarrow> nat \<Rightarrow> int list list \<Rightarrow> 'e \<Rightarrow> AudioChunk result \<times> 'e" where
  "window_chunk enc strerror w W e =
     (case SpeakerEncoder_encode enc strerror (speaker_of W) w e of
        (Inl err, e') \<Rightarrow> (Inl err, e')
      | (Inr speaker, e') \<Rightarrow>
          (Inr \<lparr>ch_haptics = resample_haptics_pcm (haptics_of W) w, ch_speaker = speaker,
                has_signal = (\<exists>f \<in> set W. \<exists>v \<in> set f. v \<noteq> 0),
                has_haptics_signal = (\<exists>f \<in> set W. f ! 2 \<noteq> 0 \<or> f ! 3 \<noteq> 0)\<rparr>, e'))"

fun spec_frames ::
  "'e opus_encode \<Rightarrow> opus_strerror \<Rightarrow> nat \<Rightarrow> int list list \<Rightarrow> bytes list \<Rightarrow> 'e \<Rightarrow> AudioChunk list \<Rightarrow>
   AudioChunk list result \<times> int list list \<times> 'e" where
  "spec_frames enc strerror w W [] e chunks = (Inr chunks, W, e)"
| "spec_frames enc strerror w W (f # fs) e chunks =
     (let W' = W @ [frame_samples f] in
      if length W' \<noteq> w then spec_frames enc strerror w W' fs e chunks
      else case window_chunk enc strerror w W' e of
             (Inl err, e') \<Rightarrow> (Inl err, W', e')
           | (Inr c, e') \<Rightarrow> spec_frames enc strerror w [] fs e' (chunks @ [c]))"

definition wf_extractor :: "'e PcmAudioExtractor \<Rightarrow> bool" where
  "wf_extractor x \<longleftrightarrow> length (pending_frame x) = 8 \<and> pending_frame_pos x \<le> 8 \<and>
     length (speaker_pcm x) = 1024 \<and> length (haptics_pcm x) = 1024 \<and>
     pcm_window_frames x \<le> 512 \<and> pcm_window_frame_pos x < pcm_window_frames x"

text \<open>The window an extractor holds.\<close>

definition holds_window :: "'e PcmAudioExtractor \<Rightarrow> int list list \<Rightarrow> bool" where
  "holds_window x W \<longleftrightarrow> pcm_window_frame_pos x = length W \<and>
     take (2 * length W) (speaker_pcm x) = speaker_of W \<and>
     take (2 * length W) (haptics_pcm x) = haptics_of W \<and>
     chunk_has_signal x = (\<exists>f \<in> set W. \<exists>v \<in> set f. v \<noteq> 0) \<and>
     chunk_has_haptics_signal x = (\<exists>f \<in> set W. f ! 2 \<noteq> 0 \<or> f ! 3 \<noteq> 0)"

lemma take_two_updates:
  "take (2 * p) xs = ys \<Longrightarrow> 2 * p + 2 \<le> length xs \<Longrightarrow>
   take (2 * p + 2) (xs[2 * p := a, 2 * p + 1 := b]) = ys @ [a, b]"
  by (auto simp: take_Suc_conv_app_nth)

lemma store_frame_window:
  assumes "wf_extractor x" "holds_window x W"
  shows "holds_window (store_frame base x) (W @ [frame_samples base])"
proof -
  let ?f = "frame_samples base"
  from assms have len: "2 * length W + 2 \<le> length (speaker_pcm x)" "2 * length W + 2 \<le> length (haptics_pcm x)"
    and t: "take (2 * length W) (speaker_pcm x) = speaker_of W" "take (2 * length W) (haptics_pcm x) = haptics_of W"
    by (auto simp: wf_extractor_def holds_window_def)
  note u = take_two_updates [OF t(1) len(1), of "?f ! 0" "?f ! 1"] take_two_updates [OF t(2) len(2), of "?f ! 2" "?f ! 3"]
  show ?thesis
    using assms(2) u
    by (auto simp: holds_window_def store_frame_def Let_def kSpeakerChannels_def speaker_of_def haptics_of_def
        mult.commute)
qed

definition same_frame :: "'e PcmAudioExtractor \<Rightarrow> 'e PcmAudioExtractor \<Rightarrow> bool" where
  "same_frame x y \<longleftrightarrow> pending_frame y = pending_frame x \<and> pending_frame_pos y = pending_frame_pos x \<and>
     pcm_window_frames y = pcm_window_frames x"

lemma consume_frame_spec:
  assumes "wf_extractor x" "holds_window x W" "length W < pcm_window_frames x"
    and "W' = W @ [frame_samples base]"
  shows "if length W' \<noteq> pcm_window_frames x then
      \<exists>y. consume_frame enc strerror base x = (Inr None, y) \<and> wf_extractor y \<and> holds_window y W' \<and>
        same_frame x y \<and> speaker_encoder y = speaker_encoder x
    else case window_chunk enc strerror (pcm_window_frames x) W' (speaker_encoder x) of
      (Inl err, e') \<Rightarrow> \<exists>y. consume_frame enc strerror base x = (Inl err, y)
    | (Inr c, e') \<Rightarrow> \<exists>y. consume_frame enc strerror base x = (Inr (Some c), y) \<and> wf_extractor y \<and>
        holds_window y [] \<and> same_frame x y \<and> speaker_encoder y = e'"
proof -
  let ?y = "store_frame base x"
  have w: "holds_window ?y W'" using store_frame_window [OF assms(1,2)] assms(4) by simp
  have y: "same_frame x ?y" "speaker_encoder ?y = speaker_encoder x" "pcm_window_frames ?y = pcm_window_frames x"
    "pcm_window_frame_pos ?y = pcm_window_frame_pos x + 1" "length (speaker_pcm ?y) = length (speaker_pcm x)"
    "length (haptics_pcm ?y) = length (haptics_pcm x)"
    by (simp_all add: same_frame_def store_frame_def Let_def)
  have pos: "pcm_window_frame_pos ?y = length W'" using w by (simp add: holds_window_def)
  show ?thesis
  proof (cases "length W' = pcm_window_frames x")
    case False
    then have "consume_frame enc strerror base x = (Inr None, ?y)"
      using pos y by (simp add: consume_frame_def Let_def)
    moreover have "wf_extractor ?y"
      using assms(1,3,4) False y pos by (auto simp: wf_extractor_def same_frame_def)
    ultimately show ?thesis using False w y by auto
  next
    case True
    have t: "take (length W' * kSpeakerChannels) (speaker_pcm ?y) = speaker_of W'"
      "take (length W' * kSpeakerChannels) (haptics_pcm ?y) = haptics_of W'"
      "chunk_has_signal ?y = (\<exists>f \<in> set W'. \<exists>v \<in> set f. v \<noteq> 0)"
      "chunk_has_haptics_signal ?y = (\<exists>f \<in> set W'. f ! 2 \<noteq> 0 \<or> f ! 3 \<noteq> 0)"
      using w by (simp_all add: holds_window_def kSpeakerChannels_def mult.commute)
    have "0 < pcm_window_frames x" using assms(3) by simp
    obtain r e' where enc: "SpeakerEncoder_encode enc strerror (speaker_of W') (length W') (speaker_encoder x) = (r, e')"
      by (metis surj_pair)
    show ?thesis
      using True t y pos enc assms(1) \<open>0 < pcm_window_frames x\<close>
      by (cases r) (auto simp: consume_frame_def window_chunk_def Let_def wf_extractor_def same_frame_def
          holds_window_def speaker_of_def haptics_of_def)
  qed
qed

text \<open>The extractor holds a window and the bytes of an unfinished frame.\<close>

definition tracks :: "'e PcmAudioExtractor \<Rightarrow> int list list \<Rightarrow> bytes \<Rightarrow> 'e \<Rightarrow> nat \<Rightarrow> bool" where
  "tracks x W part e w \<longleftrightarrow> wf_extractor x \<and> holds_window x W \<and> length W < w \<and> pcm_window_frames x = w \<and>
     pending_frame_pos x = length part \<and> length part < 8 \<and> take (length part) (pending_frame x) = part \<and>
     speaker_encoder x = e"

lemma consume_frames_spec:
  assumes "wf_extractor x" "holds_window x W" "length W < w" "pcm_window_frames x = w"
    and "spec_frames enc strerror w W (chop n bs) (speaker_encoder x) chunks = (Inr cs, W2, e2)"
  shows "\<exists>y. consume_frames enc strerror n bs x chunks = (Inr cs, y) \<and> wf_extractor y \<and> holds_window y W2 \<and>
    length W2 < w \<and> same_frame x y \<and> speaker_encoder y = e2"
  using assms
proof (induction n arbitrary: bs x W chunks)
  case 0
  then show ?case by (auto simp: same_frame_def)
next
  case (Suc n)
  let ?b = "take kPcmFrameSize bs"
  let ?W = "W @ [frame_samples ?b]"
  note step = consume_frame_spec [OF Suc.prems(1,2), of ?W ?b enc strerror]
  show ?case
  proof (cases "length ?W = w")
    case False
    with step Suc.prems obtain y where y: "consume_frame enc strerror ?b x = (Inr None, y)" "wf_extractor y"
      "holds_window y ?W" "same_frame x y" "speaker_encoder y = speaker_encoder x"
      by (auto split: if_splits)
    have "spec_frames enc strerror w ?W (chop n (drop kPcmFrameSize bs)) (speaker_encoder y) chunks = (Inr cs, W2, e2)"
      using Suc.prems(5) False y(5) by simp
    from Suc.IH [OF y(2,3) _ _ this] False y Suc.prems(3,4) show ?thesis by (auto simp: same_frame_def)
  next
    case True
    obtain c e' where c: "window_chunk enc strerror w ?W (speaker_encoder x) = (Inr c, e')"
      and s: "spec_frames enc strerror w [] (chop n (drop kPcmFrameSize bs)) e' (chunks @ [c]) = (Inr cs, W2, e2)"
      using Suc.prems(5) True by (auto simp: Let_def split: prod.splits sum.splits)
    from step c True Suc.prems(3,4) obtain y where y: "consume_frame enc strerror ?b x = (Inr (Some c), y)"
      "wf_extractor y" "holds_window y []" "same_frame x y" "speaker_encoder y = e'"
      by auto
    have "0 < w" using Suc.prems(3) by simp
    with Suc.IH [OF y(2,3), of "drop kPcmFrameSize bs" "chunks @ [c]"] s y Suc.prems(4) show ?thesis
      by (auto simp: same_frame_def)
  qed
qed

lemma whole_frames_short: "length bs < 8 \<Longrightarrow> whole_frames bs = [] \<and> left_over bs = bs"
  by (simp add: whole_frames_def left_over_def kPcmFrameSize_def)

lemma whole_frames_first:
  assumes "length p < 8" "8 \<le> length p + length bs"
  shows "whole_frames (p @ bs) = (p @ take (8 - length p) bs) # whole_frames (drop (8 - length p) bs)"
    "left_over (p @ bs) = left_over (drop (8 - length p) bs)"
proof -
  let ?r = "drop (8 - length p) bs"
  have "length (p @ bs) = 8 + length ?r" using assms by simp
  then have d: "length (p @ bs) div 8 = Suc (length ?r div 8)" by simp
  have dr: "drop 8 (p @ bs) = ?r" "take 8 (p @ bs) = p @ take (8 - length p) bs" using assms by simp_all
  show "whole_frames (p @ bs) = (p @ take (8 - length p) bs) # whole_frames ?r"
    unfolding whole_frames_def kPcmFrameSize_def d by (simp only: chop.simps kPcmFrameSize_def dr)
  have "drop (length (p @ bs) div 8 * 8) (p @ bs) = drop (length ?r div 8 * 8) (drop 8 (p @ bs))"
    unfolding d by (simp only: drop_drop mult_Suc add.commute)
  then show "left_over (p @ bs) = left_over ?r"
    unfolding left_over_def kPcmFrameSize_def dr by blast
qed

lemma push_loop_nil [simp]: "push_loop enc strerror [] x chunks = (Inr chunks, x)"
  by (simp add: push_loop.simps)

lemma push_loop_short:
  assumes "tracks x W part e w" "length part + length bs < 8"
  shows "\<exists>y. push_loop enc strerror bs x chunks = (Inr chunks, y) \<and> tracks y W (part @ bs) e w"
proof (cases "bs = []")
  case True
  with assms show ?thesis by simp
next
  case False
  let ?y = "x\<lparr>pending_frame := blit (length part) bs (pending_frame x), pending_frame_pos := length part + length bs\<rparr>"
  from assms have len: "length (pending_frame x) = 8" by (simp add: tracks_def wf_extractor_def)
  have "push_loop enc strerror bs x chunks = (Inr chunks, ?y)"
    using assms False by (subst push_loop.simps) (simp add: tracks_def kPcmFrameSize_def Let_def min_def)
  moreover have "take (length part + length bs) (blit (length part) bs (pending_frame x)) = part @ bs"
    using assms len by (simp add: blit_def tracks_def)
  moreover have "holds_window ?y W = holds_window x W" by (simp add: holds_window_def)
  ultimately show ?thesis
    using assms len by (auto simp: tracks_def wf_extractor_def)
qed

lemma push_loop_aligned:
  assumes "tracks x W [] e w"
    and "spec_frames enc strerror w W (whole_frames bs) e chunks = (Inr cs, W2, e2)"
  shows "\<exists>y. push_loop enc strerror bs x chunks = (Inr cs, y) \<and> tracks y W2 (left_over bs) e2 w"
proof (cases "length bs < 8")
  case True
  with assms push_loop_short [OF assms(1), of bs] show ?thesis
    by (simp add: whole_frames_short)
next
  case False
  let ?n = "length bs div 8"
  from assms have "wf_extractor x" "holds_window x W" "length W < w" "pcm_window_frames x = w"
    "spec_frames enc strerror w W (chop ?n bs) (speaker_encoder x) chunks = (Inr cs, W2, e2)"
    by (simp_all add: tracks_def whole_frames_def kPcmFrameSize_def)
  from consume_frames_spec [OF this] obtain y where y: "consume_frames enc strerror ?n bs x chunks = (Inr cs, y)"
    "wf_extractor y" "holds_window y W2" "length W2 < w" "same_frame x y" "speaker_encoder y = e2" by blast
  have t: "tracks y W2 [] e2 w" using y assms(1) by (simp add: tracks_def same_frame_def)
  have "push_loop enc strerror bs x chunks = push_loop enc strerror (left_over bs) y cs"
    using False assms(1) y(1)
    by (subst push_loop.simps) (auto simp: tracks_def left_over_def kPcmFrameSize_def Let_def)
  moreover have "length (left_over bs) < 8" by (simp add: left_over_def kPcmFrameSize_def) 
  ultimately show ?thesis using push_loop_short [OF t, of "left_over bs"] by simp
qed

lemma push_loop_spec:
  assumes "tracks x W part e w"
    and "spec_frames enc strerror w W (whole_frames (part @ bs)) e chunks = (Inr cs, W2, e2)"
  shows "\<exists>y. push_loop enc strerror bs x chunks = (Inr cs, y) \<and> tracks y W2 (left_over (part @ bs)) e2 w"
proof (cases "part = [] \<or> length part + length bs < 8")
  case True
  then show ?thesis
  proof
    assume "part = []"
    with push_loop_aligned assms show ?thesis by simp
  next
    assume "length part + length bs < 8"
    with push_loop_short [OF assms(1)] assms(2) show ?thesis by (simp add: whole_frames_short)
  qed
next
  case False
  let ?k = "8 - length part"
  let ?b = "part @ take ?k bs"
  let ?x = "x\<lparr>pending_frame := blit (length part) (take ?k bs) (pending_frame x), pending_frame_pos := 8\<rparr>"
  let ?W = "W @ [frame_samples ?b]"
  from assms(1) have p: "length part < 8" "length (pending_frame x) = 8" "take (length part) (pending_frame x) = part"
    "pending_frame_pos x = length part" "pcm_window_frames x = w" "length W < w"
    by (simp_all add: tracks_def wf_extractor_def)
  have mn: "min (length bs) ?k = ?k" using False by auto
  then have pend: "pending_frame ?x = ?b" using p by (simp add: blit_def)
  have x: "wf_extractor ?x" "holds_window ?x W"
    using assms(1) pend False by (auto simp: tracks_def wf_extractor_def holds_window_def)
  have unf: "push_loop enc strerror bs x chunks =
      (case consume_frame enc strerror ?b ?x of
         (Inl err, y) \<Rightarrow> (Inl err, y)
       | (Inr c, y) \<Rightarrow> push_loop enc strerror (drop ?k bs) (y\<lparr>pending_frame_pos := 0\<rparr>)
           (case c of None \<Rightarrow> chunks | Some ch \<Rightarrow> chunks @ [ch]))"
    unfolding push_loop.simps [of enc strerror bs x chunks] kPcmFrameSize_def Let_def p(4) mn
    using False p pend by auto
  note frames = whole_frames_first [of part bs]
  have finish: "\<exists>z. push_loop enc strerror (drop ?k bs) (y\<lparr>pending_frame_pos := 0\<rparr>) chunks' = (Inr cs, z) \<and>
      tracks z W2 (left_over (part @ bs)) e2 w"
    if "wf_extractor y" "holds_window y V" "length V < w" "same_frame ?x y" "speaker_encoder y = e'"
      "spec_frames enc strerror w V (whole_frames (drop ?k bs)) e' chunks' = (Inr cs, W2, e2)" for y V e' chunks'
  proof -
    have "tracks (y\<lparr>pending_frame_pos := 0\<rparr>) V [] e' w"
      using that p by (auto simp: tracks_def wf_extractor_def holds_window_def same_frame_def)
    from push_loop_aligned [OF this that(6)] frames False p(1) show ?thesis by simp
  qed
  note step = consume_frame_spec [OF x, of ?W ?b enc strerror]
  show ?thesis
  proof (cases "length ?W = w")
    case ne: False
    with step p obtain y where y: "consume_frame enc strerror ?b ?x = (Inr None, y)" "wf_extractor y"
      "holds_window y ?W" "same_frame ?x y" "speaker_encoder y = speaker_encoder ?x" by (auto split: if_splits)
    have "spec_frames enc strerror w ?W (whole_frames (drop ?k bs)) e chunks = (Inr cs, W2, e2)"
      using assms(2) frames False ne p(1) by (simp add: Let_def)
    moreover have "speaker_encoder y = e" using y(5) assms(1) by (simp add: tracks_def)
    ultimately show ?thesis using finish [OF y(2,3) _ y(4)] ne p(6) unf y(1) by simp
  next
    case True
    have e: "speaker_encoder ?x = e" using assms(1) by (simp add: tracks_def)
    obtain c e' where c: "window_chunk enc strerror w ?W e = (Inr c, e')"
      and s: "spec_frames enc strerror w [] (whole_frames (drop ?k bs)) e' (chunks @ [c]) = (Inr cs, W2, e2)"
      using assms(2) frames False True p(1) by (auto simp: Let_def split: prod.splits sum.splits)
    from step c True p e obtain y where y: "consume_frame enc strerror ?b ?x = (Inr (Some c), y)"
      "wf_extractor y" "holds_window y []" "same_frame ?x y" "speaker_encoder y = e'" by auto
    with finish [OF y(2,3) _ y(4,5) s] p(6) unf show ?thesis by simp
  qed
qed

fun push_segments ::
  "'e opus_encode \<Rightarrow> opus_strerror \<Rightarrow> bytes list \<Rightarrow> 'e PcmAudioExtractor \<Rightarrow> AudioChunk list \<Rightarrow>
   AudioChunk list result \<times> 'e PcmAudioExtractor" where
  "push_segments enc strerror [] x acc = (Inr acc, x)"
| "push_segments enc strerror (seg # segs) x acc =
     (case push_usb_audio enc strerror seg x of
        (Inl e, y) \<Rightarrow> (Inl e, y)
      | (Inr cs, y) \<Rightarrow> push_segments enc strerror segs y (acc @ cs))"

lemma chop_add: "chop (m + n) bs = chop m bs @ chop n (drop (m * kPcmFrameSize) bs)"
  by (induction m arbitrary: bs) (simp_all add: add.commute)

lemma chop_append: "n * kPcmFrameSize \<le> length a \<Longrightarrow> chop n (a @ b) = chop n a"
  by (induction n arbitrary: a) (simp_all add: kPcmFrameSize_def)

lemma whole_frames_append:
  "whole_frames (a @ b) = whole_frames a @ whole_frames (left_over a @ b)"
  "left_over (a @ b) = left_over (left_over a @ b)"
proof -
  let ?m = "length a div 8" and ?r = "left_over a @ b"
  have r: "?r = drop (?m * 8) (a @ b)" by (simp add: left_over_def kPcmFrameSize_def)
  have "?m * 8 \<le> length a" by simp
  then have "length (a @ b) = ?m * 8 + length ?r" unfolding r by simp
  then have d: "length (a @ b) div 8 = ?m + length ?r div 8" by simp
  show "whole_frames (a @ b) = whole_frames a @ whole_frames ?r"
    unfolding whole_frames_def kPcmFrameSize_def d chop_add
    by (simp add: r chop_append kPcmFrameSize_def)
  have "drop (length (a @ b) div 8 * 8) (a @ b) = drop (length ?r div 8 * 8) (drop (?m * 8) (a @ b))"
    unfolding d by (simp only: drop_drop add_mult_distrib add.commute)
  then show "left_over (a @ b) = left_over ?r"
    unfolding r by (simp only: left_over_def [of "a @ b"] left_over_def [of "drop (?m * 8) (a @ b)"] kPcmFrameSize_def r)
qed

lemma spec_frames_append:
  "spec_frames enc strerror w W (fs @ gs) e chunks =
   (case spec_frames enc strerror w W fs e chunks of
      (Inl err, W', e') \<Rightarrow> (Inl err, W', e')
    | (Inr cs, W', e') \<Rightarrow> spec_frames enc strerror w W' gs e' cs)"
  by (induction enc strerror w W fs e chunks rule: spec_frames.induct)
    (auto simp: Let_def split: prod.splits sum.splits)

lemma spec_frames_acc:
  "spec_frames enc strerror w W fs e (acc @ chunks) =
   (case spec_frames enc strerror w W fs e chunks of
      (Inl err, W', e') \<Rightarrow> (Inl err, W', e') | (Inr cs, W', e') \<Rightarrow> (Inr (acc @ cs), W', e'))"
  by (induction enc strerror w W fs e chunks rule: spec_frames.induct)
    (auto simp: Let_def split: prod.splits sum.splits)

lemma push_segments_spec:
  "tracks x W part e w \<Longrightarrow>
   spec_frames enc strerror w W (whole_frames (part @ concat segs)) e acc = (Inr cs, W2, e2) \<Longrightarrow>
   \<exists>y. push_segments enc strerror segs x acc = (Inr cs, y) \<and> tracks y W2 (left_over (part @ concat segs)) e2 w"
proof (induction segs arbitrary: x W part e acc)
  case Nil
  then have "length part < 8" by (simp add: tracks_def)
  with Nil show ?case by (simp add: whole_frames_short)
next
  case (Cons seg segs)
  let ?p = "left_over (part @ seg)"
  have w: "whole_frames (part @ concat (seg # segs)) = whole_frames (part @ seg) @ whole_frames (?p @ concat segs)"
    "left_over (part @ concat (seg # segs)) = left_over (?p @ concat segs)"
    using whole_frames_append [of "part @ seg" "concat segs"] by simp_all
  obtain cs1 W1 e1 where s1: "spec_frames enc strerror w W (whole_frames (part @ seg)) e acc = (Inr cs1, W1, e1)"
    and s2: "spec_frames enc strerror w W1 (whole_frames (?p @ concat segs)) e1 cs1 = (Inr cs, W2, e2)"
    using Cons.prems(2) unfolding w spec_frames_append by (auto split: prod.splits sum.splits)
  from s1 spec_frames_acc [of enc strerror w W "whole_frames (part @ seg)" e acc "[]"] obtain c where
    c: "spec_frames enc strerror w W (whole_frames (part @ seg)) e [] = (Inr c, W1, e1)" "cs1 = acc @ c"
    by (auto split: prod.splits sum.splits)
  from push_loop_spec [OF Cons.prems(1) c(1)] obtain y where
    y: "push_loop enc strerror seg x [] = (Inr c, y)" "tracks y W1 ?p e1 w" by blast
  with Cons.IH [OF y(2) s2] c(2) w(2) show ?case by (simp add: push_usb_audio_def)
qed

lemma new_extractor_tracks:
  assumes "new_extractor e w = Inr x"
  shows "tracks x [] [] e w"
  using assms
  by (auto simp: new_extractor_def tracks_def wf_extractor_def holds_window_def speaker_of_def haptics_of_def
      audio_consts split: if_splits)

section \<open>Ranges of samples\<close>

lemma cast_s16_id: "is_s16 v \<Longrightarrow> cast_s16 v = v"
  unfolding cast_s16_def is_s16_def by (intro signed_take_bit_int_eq_self) simp_all

lemma cast_s32_id: "- (2 ^ 31) \<le> v \<Longrightarrow> v < 2 ^ 31 \<Longrightarrow> cast_s32 v = v"
  unfolding cast_s32_def by (intro signed_take_bit_int_eq_self) simp_all

lemma cast_s8_id: "- 128 \<le> v \<Longrightarrow> v \<le> 127 \<Longrightarrow> cast_s8 v = v"
  unfolding cast_s8_def by (intro signed_take_bit_int_eq_self) simp_all

lemma clamp_id: "lo \<le> v \<Longrightarrow> v \<le> hi \<Longrightarrow> clamp_int v lo hi = v"
  by (simp add: clamp_int_def)

lemma c_div_between:
  assumes "0 < d" "a * d \<le> x" "x \<le> b * d"
  shows "a \<le> c_div x d" "c_div x d \<le> b"
proof -
  have pos: "0 \<le> x \<Longrightarrow> c_div x d = x div d" using assms(1) by (cases "x = 0") (simp_all add: c_div_def)
  have neg: "x < 0 \<Longrightarrow> c_div x d = - ((- x) div d)" using assms(1) by (simp add: c_div_def)
  have *: "a \<le> y div d" if "a * d \<le> y" for a y :: int
    using that assms(1) by (metis nonzero_mult_div_cancel_right order_less_irrefl zdiv_mono1)
  show "a \<le> c_div x d"
  proof (cases "0 \<le> x")
    case True
    with pos * [OF assms(2)] show ?thesis by simp
  next
    case False
    have "(- x) div d \<le> ((- a) * d) div d" using assms(1,2) by (intro zdiv_mono1) simp_all
    moreover have "((- a) * d) div d = - a" by (rule nonzero_mult_div_cancel_right) (use assms(1) in simp)
    ultimately show ?thesis using False neg by simp
  qed
  show "c_div x d \<le> b"
  proof (cases "0 \<le> x")
    case True
    have "x div d \<le> (b * d) div d" using assms(1,3) by (intro zdiv_mono1) simp_all
    with True pos assms(1) show ?thesis by simp
  next
    case False
    with neg * [of "- b" "- x"] assms(3) show ?thesis by simp
  qed
qed

lemma lerp_between:
  assumes "f \<le> 480" "lo \<le> l" "l \<le> hi" "lo \<le> r" "r \<le> hi" "is_s16 lo" "is_s16 hi"
  shows "lo \<le> lerp_i16 l r (of_nat f) (of_nat 480) \<and> lerp_i16 l r (of_nat f) (of_nat 480) \<le> hi"
    "\<bar>l * (480 - int f) + r * int f\<bar> < 2 ^ 31"
proof -
  have u: "uint (of_nat 480 - of_nat f :: u32) = 480 - int f" "uint (of_nat f :: u32) = int f"
    "uint (of_nat 480 :: u32) = 480"
  proof -
    have "(of_nat 480 - of_nat f :: u32) = of_nat (480 - f)" using assms(1) by (simp only: of_nat_diff)
    moreover have "uint (of_nat (480 - f) :: u32) = int (480 - f)"
      unfolding unsigned_of_nat by (simp add: take_bit_nat_eq_self)
    ultimately show "uint (of_nat 480 - of_nat f :: u32) = 480 - int f" using assms(1) by simp
    show "uint (of_nat f :: u32) = int f"
      unfolding unsigned_of_nat using assms(1) by (simp add: take_bit_nat_eq_self)
  qed simp
  have c: "cast_s32 (480 - int f) = 480 - int f" "cast_s32 (int f) = int f" "cast_s32 480 = 480"
    using assms(1) by (simp_all add: cast_s32_id)
  let ?x = "l * (480 - int f) + r * int f"
  have "lo * (480 - int f) + lo * int f \<le> ?x" "?x \<le> hi * (480 - int f) + hi * int f"
    using assms by (intro add_mono mult_right_mono; simp)+
  then have x: "lo * 480 \<le> ?x" "?x \<le> hi * 480" by (simp_all add: algebra_simps)
  have b: "lo \<le> c_div ?x 480" "c_div ?x 480 \<le> hi" using c_div_between [OF _ x] by simp_all
  then have "is_s16 (c_div ?x 480)" using assms(6,7) by (simp add: is_s16_def)
  then have "lerp_i16 l r (of_nat f) (of_nat 480) = c_div ?x 480"
    unfolding lerp_i16_def Let_def u c by (simp add: clamp_id cast_s16_id is_s16_def)
  with b show "lo \<le> lerp_i16 l r (of_nat f) (of_nat 480) \<and> lerp_i16 l r (of_nat f) (of_nat 480) \<le> hi" by simp
  show "\<bar>?x\<bar> < 2 ^ 31" using x assms(6,7) by (simp add: is_s16_def)
qed

lemma resample_speaker_hull:
  assumes "length pcm = 2 * n" "0 < n" "\<forall>v \<in> set pcm. lo \<le> v \<and> v \<le> hi" "is_s16 lo" "is_s16 hi"
  shows "\<forall>v \<in> set (resample_speaker_pcm pcm n). lo \<le> v \<and> v \<le> hi"
proof -
  have in_range: "lo \<le> pcm ! (k * 2 + ch) \<and> pcm ! (k * 2 + ch) \<le> hi" if "k < n" "ch < 2" for k ch
    using assms that by simp
  have "lo \<le> v \<and> v \<le> hi" if v: "v \<in> set (resample_speaker_frame pcm n frame)" and fr: "frame < 480" for v frame
  proof -
    have s: "frame * n div 480 < n"
      using fr assms(2) by (simp add: div_less_iff_less_mult)
    have t: "min (frame * n div 480 + 1) (n - 1) < n" using assms(2) by simp
    have f: "frame * n mod 480 \<le> 480" by (simp add: less_imp_le)
    from v obtain ch where "ch < 2" and v': "v = lerp_i16 (pcm ! (frame * n div 480 * 2 + ch))
        (pcm ! (min (frame * n div 480 + 1) (n - 1) * 2 + ch)) (of_nat (frame * n mod 480)) (of_nat 480)"
      by (auto simp: resample_speaker_frame_def Let_def kSpeakerOpusFrames_def kSpeakerChannels_def)
    from in_range [OF s \<open>ch < 2\<close>] in_range [OF t \<open>ch < 2\<close>] lerp_between(1) [OF f _ _ _ _ assms(4,5)]
    show ?thesis unfolding v' by blast
  qed
  then show ?thesis by (auto simp: resample_speaker_pcm_def kSpeakerOpusFrames_def)
qed

lemma length_resample_speaker: "length (resample_speaker_pcm pcm n) = 960"
proof -
  have "length (concat (map (resample_speaker_frame pcm n) fs)) = 2 * length fs" for fs
    by (induction fs) (simp_all add: resample_speaker_frame_def Let_def kSpeakerChannels_def)
  then show ?thesis by (simp add: resample_speaker_pcm_def kSpeakerOpusFrames_def)
qed

lemma s8_range: "is_s16 v \<Longrightarrow> - 128 \<le> s16_to_s8_haptic v \<and> s16_to_s8_haptic v \<le> 127"
proof -
  assume "is_s16 v"
  then have "- 128 \<le> c_div v 256" "c_div v 256 \<le> 127"
    using c_div_between [of 256 "- 128" v 128] by (auto simp: is_s16_def c_div_def sgn_if)
  then show ?thesis by (simp add: s16_to_s8_haptic_def clamp_id cast_s8_id)
qed

lemma sum_list_between:
  "\<forall>v \<in> set xs. lo \<le> v \<and> v \<le> hi \<Longrightarrow> lo * int (length xs) \<le> sum_list xs \<and> sum_list xs \<le> hi * int (length xs)"
  by (induction xs) (auto simp: algebra_simps)

lemma channel_sum_between:
  assumes "length pcm = 2 * n" "b \<le> n" "ch < 2" "\<forall>v \<in> set pcm. is_s16 v"
  shows "- 32768 * int (b - a) \<le> channel_sum pcm ch a b \<and> channel_sum pcm ch a b \<le> 32767 * int (b - a)"
proof -
  let ?xs = "map (\<lambda>k. pcm ! (k * 2 + ch)) [a..<b]"
  have "pcm ! (k * 2 + ch) \<in> set pcm" if "k < b" for k
    using that assms(1-3) by (intro nth_mem) simp
  then have "\<forall>v \<in> set ?xs. - 32768 \<le> v \<and> v \<le> 32767"
    using assms(4) by (auto simp: is_s16_def)
  from sum_list_between [OF this] show ?thesis by (simp add: channel_sum_def kSpeakerChannels_def)
qed

lemma haptics_mean_s16:
  assumes "length pcm = 2 * n" "b \<le> n" "ch < 2" "\<forall>v \<in> set pcm. is_s16 v"
  shows "is_s16 (c_div (channel_sum pcm ch a b) (int (max 1 (b - a))))"
proof (cases "a < b")
  case True
  then have "max 1 (b - a) = b - a" "0 < int (b - a)" by simp_all
  with channel_sum_between [OF assms, of a] c_div_between [of "int (b - a)" "- 32768" "channel_sum pcm ch a b" 32767]
  show ?thesis by (simp only: is_s16_def)
next
  case False
  then show ?thesis by (simp add: channel_sum_def c_div_def is_s16_def)
qed

lemma haptics_bounds:
  assumes "length pcm = 2 * n" "\<forall>v \<in> set pcm. is_s16 v"
  shows "length (resample_haptics_pcm pcm n) = 64"
    "\<forall>v \<in> set (resample_haptics_pcm pcm n). - 128 \<le> v \<and> v \<le> 127"
proof -
  have "length (concat (map (resample_haptics_frame pcm n) fs)) = 2 * length fs" for fs
    by (induction fs) (simp_all add: resample_haptics_frame_def Let_def)
  then show "length (resample_haptics_pcm pcm n) = 64"
    by (simp add: resample_haptics_pcm_def haptics_frames_def kHapticsSampleSize_def kSpeakerChannels_def)
  have "- 128 \<le> v \<and> v \<le> 127" if "v \<in> set (resample_haptics_frame pcm n frame)" "frame < 32" for v frame
  proof -
    let ?a = "frame * n div 32" and ?b = "(frame + 1) * n div 32"
    have "(frame + 1) * n \<le> 32 * n" using that(2) by (intro mult_le_mono1) simp
    then have b: "?b \<le> n" using div_le_mono [of "(frame + 1) * n" "32 * n" 32] by simp
    have m: "is_s16 (c_div (channel_sum pcm ch ?a ?b) (int (max 1 (?b - ?a))))" if "ch < 2" for ch
      by (rule haptics_mean_s16 [OF assms(1) b that assms(2)])
    from that(1) show ?thesis
      using s8_range [OF m [of 0]] s8_range [OF m [of 1]] m [of 0] m [of 1]
      by (auto simp: resample_haptics_frame_def Let_def haptics_frames_def kHapticsSampleSize_def
          kSpeakerChannels_def cast_s16_id)
  qed
  then show "\<forall>v \<in> set (resample_haptics_pcm pcm n). - 128 \<le> v \<and> v \<le> 127"
    by (auto simp: resample_haptics_pcm_def haptics_frames_def kHapticsSampleSize_def kSpeakerChannels_def)
qed

lemma mic_sample_roundtrip: "is_s16 v \<Longrightarrow> read_le_s16 (drop 2 (mic_frame_bytes v)) = v"
proof -
  assume v: "is_s16 v"
  let ?s = "word_of_int v :: u16"
  have "(ucast (ucast (?s AND 0xff) :: u8) OR push_bit 8 (ucast (ucast (drop_bit 8 ?s AND 0xff) :: u8)) :: u32) = ucast ?s"
  proof (rule bit_word_eqI)
    fix n assume "n < LENGTH(32)"
    have ff: "(w :: u16) AND 0xff = take_bit 8 w" for w by (simp add: take_bit_eq_mask mask_eq_exp_minus_1)
    show "bit (ucast (ucast (?s AND 0xff) :: u8) OR push_bit 8 (ucast (ucast (drop_bit 8 ?s AND 0xff) :: u8)) :: u32) n =
        bit (ucast ?s :: u32) n"
      unfolding ff by (cases "n < 8"; cases "n < 16") (auto simp: bit_simps)
  qed
  then have "read_le_s16 (drop 2 (mic_frame_bytes v)) = cast_s16 (uint ?s)"
    using uint_bounded [of ?s] by (simp add: read_le_s16_def mic_frame_bytes_def Let_def unsigned_ucast_eq take_bit_int_eq_self)
  also have "\<dots> = signed_take_bit 15 v"
    by (simp add: cast_s16_def uint_word_of_int_eq signed_take_bit_take_bit)
  also have "\<dots> = v" using cast_s16_id [OF v] by (simp add: cast_s16_def)
  finally show ?thesis .
qed

section \<open>Properties\<close>

text \<open>
  C13. The audio stream is cut correctly however it arrives: when the codec accepts the windows of a
  stream, pushing the stream in any segments (odd sizes and empty ones included) into a new
  extractor yields exactly the chunks of the stream's consecutive windows, each computed from its
  window alone, and keeps precisely the unfinished window and the unfinished frame.
\<close>

theorem audio_stream_segmentation:
  assumes "new_extractor e w = Inr x"
    and "spec_frames enc strerror w [] (whole_frames (concat segs)) e [] = (Inr cs, W, e')"
  shows "\<exists>y. push_segments enc strerror segs x [] = (Inr cs, y) \<and> tracks y W (left_over (concat segs)) e' w"
  using push_segments_spec [OF new_extractor_tracks [OF assms(1)]] assms(2) by simp

theorem audio_stream_segmentation_witness:
  "\<exists>y. push_segments (\<lambda>e pcm. (Inr [7], e + 1)) (\<lambda>_. []) [[1, 0, 0], [], [0, 0, 0, 0, 2, 9]]
      (projr (new_extractor (0 :: nat) 16)) [] = (Inr [], y) \<and> tracks y [[1, 0, 0, 512]] [9] 0 16"
proof -
  let ?enc = "\<lambda>(e :: nat) (pcm :: int list). (Inr [7] :: int + bytes, e + 1)"
  have "new_extractor (0 :: nat) 16 = Inr (projr (new_extractor (0 :: nat) 16))"
    by (simp add: new_extractor_def audio_consts)
  moreover have "whole_frames (concat [[1, 0, 0], [], [0, 0, 0, 0, 2, 9]]) = [[1, 0, 0, 0, 0, 0, 0, 2]]"
    "left_over (concat [[1, 0, 0], [], [0, 0, 0, 0, 2, 9]]) = [9]"
    by (simp_all add: whole_frames_def left_over_def kPcmFrameSize_def)
  moreover have "frame_samples [1, 0, 0, 0, 0, 0, 0, 2] = [1, 0, 0, 512]" by code_simp
  ultimately show ?thesis
    using audio_stream_segmentation [of "0 :: nat" 16 _ ?enc "\<lambda>_. []" "[[1, 0, 0], [], [0, 0, 0, 0, 2, 9]]" "[]"]
    by (simp add: Let_def)
qed

text \<open>
  Speaker resampling stays within the signal: for a window of any size in use, the 960 output
  samples all lie between the least and the greatest input sample, so it reads inside the window,
  clips nothing and keeps a constant signal; the 32-bit products of the interpolation do not
  overflow.
\<close>

theorem speaker_resampling_hull:
  assumes "length pcm = 2 * n" "0 < n" "\<forall>v \<in> set pcm. lo \<le> v \<and> v \<le> hi" "is_s16 lo" "is_s16 hi"
  shows "length (resample_speaker_pcm pcm n) = kSpeakerOpusFrames * kSpeakerChannels \<and>
    (\<forall>v \<in> set (resample_speaker_pcm pcm n). lo \<le> v \<and> v \<le> hi) \<and>
    (\<forall>l \<in> set pcm. \<forall>r \<in> set pcm. \<forall>f \<le> kSpeakerOpusFrames. \<bar>l * (480 - int f) + r * int f\<bar> < 2 ^ 31)"
proof -
  have "\<bar>l * (480 - int f) + r * int f\<bar> < 2 ^ 31" if "l \<in> set pcm" "r \<in> set pcm" "f \<le> 480" for l r f
    using lerp_between(2) [OF that(3) _ _ _ _ assms(4,5), of l r] assms(3) that by blast
  then show ?thesis
    using resample_speaker_hull [OF assms] by (simp add: length_resample_speaker audio_consts)
qed

theorem speaker_resampling_hull_witness: "resample_speaker_pcm [5, 5] 1 ! 959 = 5"
proof -
  have h: "length (resample_speaker_pcm [5, 5] 1) = kSpeakerOpusFrames * kSpeakerChannels \<and>
      (\<forall>v \<in> set (resample_speaker_pcm [5, 5] 1). 5 \<le> v \<and> v \<le> 5)"
    using speaker_resampling_hull [of "[5, 5]" 1 5 5] by (simp add: is_s16_def)
  then have "resample_speaker_pcm [5, 5] 1 ! 959 \<in> set (resample_speaker_pcm [5, 5] 1)"
    by (intro nth_mem) (simp add: audio_consts)
  with h show ?thesis by fastforce
qed

text \<open>
  Haptic resampling yields 64 signed bytes for every window of 16-bit samples, and the mean of
  each group is a 16-bit sample, so no conversion on the way truncates.
\<close>

theorem haptics_resampling_bounds:
  assumes "length pcm = 2 * n" "\<forall>v \<in> set pcm. is_s16 v"
  shows "length (resample_haptics_pcm pcm n) = kHapticsSampleSize \<and>
    (\<forall>v \<in> set (resample_haptics_pcm pcm n). - 128 \<le> v \<and> v \<le> 127) \<and>
    (b \<le> n \<and> ch < 2 \<longrightarrow> is_s16 (c_div (channel_sum pcm ch a b) (int (max 1 (b - a)))))"
  using haptics_bounds [OF assms] haptics_mean_s16 [OF assms(1) _ _ assms(2)]
  by (simp add: kHapticsSampleSize_def)

theorem haptics_resampling_bounds_witness:
  "length (resample_haptics_pcm (replicate 32 (- 32768)) 16) = kHapticsSampleSize"
  using haptics_resampling_bounds [of "replicate 32 (- 32768)" 16] by (simp add: is_s16_def)

text \<open>
  Microphone frames: decoding gives four bytes for every mono sample, silence on the left channel
  and the sample on the right, from which the sample is read back exactly; a codec error is
  reported and yields no audio.
\<close>

theorem mic_decode_layout:
  assumes "\<forall>v \<in> set samples. is_s16 v" "dec d payload = (Inr samples, d')"
  shows "\<exists>pcm. MicAudioDecoder_decode dec strerror payload d = (Inr pcm, d') \<and> length pcm = 4 * length samples \<and>
    (\<forall>i < length samples. read_le_s16 (drop (4 * i) pcm) = 0 \<and> read_le_s16 (drop (4 * i + 2) pcm) = samples ! i)"
proof -
  have len: "length (concat (map mic_frame_bytes xs)) = 4 * length xs" for xs
    by (induction xs) (simp_all add: mic_frame_bytes_def Let_def)
  have "read_le_s16 (drop (4 * i) (concat (map mic_frame_bytes xs))) = 0 \<and>
      read_le_s16 (drop (4 * i + 2) (concat (map mic_frame_bytes xs))) = xs ! i"
    if "i < length xs" "\<forall>v \<in> set xs. is_s16 v" for i xs
    using that
  proof (induction xs arbitrary: i)
    case (Cons x xs)
    have four: "length (mic_frame_bytes x) = 4" by (simp add: mic_frame_bytes_def Let_def)
    show ?case
    proof (cases i)
      case 0
      have "read_le_s16 (drop 2 (mic_frame_bytes x @ t)) = read_le_s16 (drop 2 (mic_frame_bytes x))" for t
        by (simp add: read_le_s16_def mic_frame_bytes_def Let_def)
      moreover have "read_le_s16 (mic_frame_bytes x @ t) = 0" for t
        by (simp add: read_le_s16_def mic_frame_bytes_def Let_def cast_s16_def)
      ultimately have "read_le_s16 (drop 2 (mic_frame_bytes x @ t)) = x \<and> read_le_s16 (mic_frame_bytes x @ t) = 0" for t
        using mic_sample_roundtrip [of x] Cons.prems by simp
      with 0 show ?thesis by (simp add: numeral_2_eq_2 del: drop_append)
    next
      case (Suc k)
      have "drop (4 * Suc k + m) (mic_frame_bytes x @ t) = drop (4 * k + m) t" for m and t :: bytes
        using four by simp
      from this [of 0] this [of 2] Cons.IH [of k] Cons.prems Suc show ?thesis by (simp del: drop_append)
    qed
  qed simp
  with assms len show ?thesis by (simp add: MicAudioDecoder_decode_def)
qed

theorem mic_decode_layout_witness:
  "\<exists>pcm. MicAudioDecoder_decode (\<lambda>d p. (Inr [- 5], d)) (\<lambda>_. []) [] () = (Inr pcm, ()) \<and>
     read_le_s16 (drop 2 pcm) = - 5"
  using mic_decode_layout [of "[- 5]" "\<lambda>d p. (Inr [- 5], d)" "()" "[]" "()" "\<lambda>_. []"]
  by (auto simp: is_s16_def numeral_2_eq_2)

end
