(* ===== verification/Gain.thy ===== *)
theory Gain
  imports Audio
begin

text \<open>
  The two volume controls of the USB/IP port (\<open>src/platform/win32/vds_usbip.cc\<close>): the linear
  boost of the microphone, computed in \<open>float\<close>, and the fixed-point gain of the speaker
  channels that follows the volume the host sets. A \<open>float\<close> is not-a-number, an infinity or a
  finite value \<open>m * 2 ^ e\<close>; a product of a finite value with a 16-bit sample is rounded to 24
  significant bits, to the nearest and ties to even (its exponent is in range: a finite value has
  \<open>e \<ge> -149\<close>, and a product that overflows is cut by the comparison that follows, as here).
  Converting not-a-number to an integer is undefined behaviour and is the value \<open>None\<close>.
\<close>

section \<open>Floating point\<close>

datatype f32 = F32_nan | F32_inf bool | F32 int int

fun bit_length :: "nat \<Rightarrow> nat" where
  "bit_length n = (if n = 0 then 0 else Suc (bit_length (n div 2)))"

declare bit_length.simps [simp del]

definition round_even :: "nat \<Rightarrow> int \<Rightarrow> int \<Rightarrow> int \<times> int" where
  "round_even p m e =
     (let a = \<bar>m\<bar>; n = bit_length (nat a) in
      if n \<le> p then (m, e)
      else
        (let d = n - p; q = a div 2 ^ d; r = a mod 2 ^ d; half = 2 ^ (d - 1);
             q' = (if half < r \<or> (r = half \<and> odd q) then q + 1 else q) in
         (sgn m * q', e + int d)))"

definition f32_mul_s16 :: "int \<Rightarrow> f32 \<Rightarrow> f32" where
  "f32_mul_s16 s g =
     (case g of F32_nan \<Rightarrow> F32_nan
      | F32_inf neg \<Rightarrow> if s = 0 then F32_nan else F32_inf (neg \<noteq> (s < 0))
      | F32 m e \<Rightarrow> (case round_even 24 (s * m) e of (m', e') \<Rightarrow> F32 m' e'))"

text \<open>Comparisons with an integer constant; with not-a-number both are false.\<close>

definition f32_gt :: "f32 \<Rightarrow> int \<Rightarrow> bool" where
  "f32_gt v k =
     (case v of F32_nan \<Rightarrow> False | F32_inf neg \<Rightarrow> \<not> neg
      | F32 m e \<Rightarrow> if 0 \<le> e then k < m * 2 ^ nat e else k * 2 ^ nat (- e) < m)"

definition f32_lt :: "f32 \<Rightarrow> int \<Rightarrow> bool" where
  "f32_lt v k =
     (case v of F32_nan \<Rightarrow> False | F32_inf neg \<Rightarrow> neg
      | F32 m e \<Rightarrow> if 0 \<le> e then m * 2 ^ nat e < k else m < k * 2 ^ nat (- e))"

definition f32_eq :: "f32 \<Rightarrow> int \<Rightarrow> bool" where
  "f32_eq v k =
     (case v of F32 m e \<Rightarrow> (if 0 \<le> e then m * 2 ^ nat e = k else m = k * 2 ^ nat (- e)) | _ \<Rightarrow> False)"

definition f32_trunc :: "f32 \<Rightarrow> int option" where
  "f32_trunc v =
     (case v of F32 m e \<Rightarrow> Some (if 0 \<le> e then m * 2 ^ nat e else c_div m (2 ^ nat (- e))) | _ \<Rightarrow> None)"

section \<open>Microphone boost\<close>

definition default_mic_gain :: f32 where "default_mic_gain = F32 50 0"

definition set_mic_capture_gain :: "f32 \<Rightarrow> f32" where
  "set_mic_capture_gain gain =
     (let g = (if f32_lt gain 0 then F32 0 0 else gain) in
      if f32_gt g 64 then F32 64 0 else g)"

definition gained_sample :: "f32 \<Rightarrow> int \<Rightarrow> int option" where
  "gained_sample gain s =
     (let v0 = f32_mul_s16 s gain;
          v1 = (if f32_gt v0 32767 then F32 32767 0 else v0);
          v2 = (if f32_lt v1 (- 32768) then F32 (- 32768) 0 else v1) in
      f32_trunc v2)"

definition s16_bytes :: "int \<Rightarrow> bytes" where
  "s16_bytes v = le16 (word_of_int v)"

fun gain_loop :: "f32 \<Rightarrow> bytes \<Rightarrow> bytes option" where
  "gain_loop gain (lo # hi # pcm) =
     (case gained_sample gain (read_le_s16 [lo, hi]) of
        None \<Rightarrow> None
      | Some v \<Rightarrow> map_option (\<lambda>rest. s16_bytes v @ rest) (gain_loop gain pcm))"
| "gain_loop gain pcm = Some pcm"

definition apply_pcm_gain_i16 :: "bytes \<Rightarrow> f32 \<Rightarrow> bytes option" where
  "apply_pcm_gain_i16 pcm gain = (if f32_eq gain 1 then Some pcm else gain_loop gain pcm)"

section \<open>Speaker volume\<close>

text \<open>
  \<open>update_speaker_gain\<close>. The value of \<open>std::pow(10.0, db / 20.0)\<close>, which the standard does
  not fix to the last bit, is the argument \<open>pow10\<close>: a double \<open>m * 2 ^ e\<close> for every volume in
  units of 1/256 dB. The sum with one half is rounded to 53 bits.
\<close>

definition unit_clamp :: "int \<times> int \<Rightarrow> int \<times> int" where
  "unit_clamp x = (let l = (if f32_gt (F32 (fst x) (snd x)) 1 then (1, 0) else x) in
     if f32_lt (F32 (fst l) (snd l)) 0 then (0, 0) else l)"

definition add_half :: "int \<times> int \<Rightarrow> int \<times> int" where
  "add_half x =
     (case x of (m, e) \<Rightarrow>
        if - 1 \<le> e then round_even 53 (m * 2 ^ nat (e + 1) + 1) (- 1)
        else round_even 53 (m + 2 ^ nat (- 1 - e)) e)"

definition q15_of_linear :: "int \<times> int \<Rightarrow> int" where
  "q15_of_linear x =
     (case add_half (fst (unit_clamp x), snd (unit_clamp x) + 15) of (m, e) \<Rightarrow>
        if 0 \<le> e then m * 2 ^ nat e else c_div m (2 ^ nat (- e)))"

definition speaker_gain_for :: "(int \<Rightarrow> int \<times> int) \<Rightarrow> bool \<Rightarrow> int \<Rightarrow> int" where
  "speaker_gain_for pow10 muted db256 = (if muted then 0 else q15_of_linear (pow10 db256))"

definition scale_sample :: "int \<Rightarrow> bytes \<Rightarrow> bytes" where
  "scale_sample gain_q15 b =
     (let scaled = drop_bit 15 (read_le_s16 b * gain_q15) in
      s16_bytes (if 32767 < scaled then 32767 else if scaled < - 32768 then - 32768 else scaled))"

fun scale_speaker :: "int \<Rightarrow> bytes \<Rightarrow> bytes" where
  "scale_speaker gain_q15 (a # b # c # d # e # f # g # h # pcm) =
     scale_sample gain_q15 [a, b] @ scale_sample gain_q15 [c, d] @ [e, f, g, h] @ scale_speaker gain_q15 pcm"
| "scale_speaker gain_q15 pcm = pcm"

definition apply_speaker_gain :: "int \<Rightarrow> bytes \<Rightarrow> bytes" where
  "apply_speaker_gain gain_q15 out_data =
     (if gain_q15 \<noteq> 2 ^ 15 then scale_speaker gain_q15 out_data else out_data)"

section \<open>Rounding\<close>

lemma bit_length_less: "n < 2 ^ bit_length n"
proof (induction n rule: bit_length.induct)
  case (1 n)
  then show ?case by (subst bit_length.simps) (auto simp: less_mult_imp_div_less)
qed

lemma bit_length_le: "n < 2 ^ p \<Longrightarrow> bit_length n \<le> p"
proof (induction p arbitrary: n)
  case 0
  then show ?case by (simp add: bit_length.simps)
next
  case (Suc p)
  then have "bit_length (n div 2) \<le> p" by (simp add: less_mult_imp_div_less mult.commute)
  then show ?case by (subst bit_length.simps) simp
qed

lemma round_even_exact: "\<bar>m\<bar> < 2 ^ p \<Longrightarrow> round_even p m e = (m, e)"
  using bit_length_le [of "nat \<bar>m\<bar>" p] by (simp add: round_even_def Let_def nat_less_iff)

text \<open>Rounding does not cross a value that has few enough bits, \<open>N * 2 ^ D\<close>.\<close>

lemma round_even_le:
  assumes "0 \<le> m" "m \<le> N * 2 ^ D" "bit_length (nat m) \<le> p + D" "0 \<le> N"
    and "round_even p m e = (m', e')"
  shows "0 \<le> m' \<and> e \<le> e' \<and> e' - e \<le> int D \<and> m' * 2 ^ nat (e' - e) \<le> N * 2 ^ D"
proof (cases "bit_length (nat m) \<le> p")
  case True
  with assms show ?thesis by (auto simp: round_even_def Let_def)
next
  case False
  define d where "d = bit_length (nat m) - p"
  let ?q = "m div 2 ^ d"
  from False assms(3) have d: "d \<le> D" by (simp add: d_def)
  have "2 ^ (D - d) * 2 ^ d = (2 :: int) ^ D" using d by (simp add: power_add [symmetric])
  then have eq: "N * 2 ^ D = (N * 2 ^ (D - d)) * 2 ^ d" by (simp add: mult.assoc)
  have le: "?q \<le> N * 2 ^ (D - d)"
    using zdiv_mono1 [OF assms(2), of "2 ^ d"] unfolding eq by simp
  have up: "?q + 1 \<le> N * 2 ^ (D - d)" if "0 < m mod 2 ^ d"
  proof (rule ccontr)
    assume "\<not> ?q + 1 \<le> N * 2 ^ (D - d)"
    with le have "?q = N * 2 ^ (D - d)" by simp
    with that mult_div_mod_eq [of "2 ^ d" m] assms(2) show False unfolding eq by (simp add: mult.commute)
  qed
  have "bit_length 0 = 0" by (subst bit_length.simps) simp
  with False have "m \<noteq> 0" by (metis le0 nat_0)
  with assms(1) have m: "\<bar>m\<bar> = m" "sgn m = 1" by simp_all
  have half: "0 < x" if "2 ^ (d - 1) \<le> x" for x :: int
    using that zero_less_power [of "2 :: int" "d - 1"] by linarith
  have "(m', e') = (if 2 ^ (d - 1) < m mod 2 ^ d \<or> m mod 2 ^ d = 2 ^ (d - 1) \<and> odd ?q then ?q + 1 else ?q, e + int d)"
    using assms(5) False unfolding round_even_def Let_def m d_def by (simp only: if_False mult_1)
  then have e': "e' = e + int d" and m': "m' = ?q \<or> m' = ?q + 1 \<and> 0 < m mod 2 ^ d"
    using half [of "m mod 2 ^ d"] by (auto split: if_splits simp del: One_nat_def)
  from m' le up have "m' \<le> N * 2 ^ (D - d)" by auto
  then have "m' * 2 ^ d \<le> N * 2 ^ D" unfolding eq by (rule mult_right_mono) simp
  moreover have "0 \<le> m'" using m' assms(1) by (auto simp: pos_imp_zdiv_nonneg_iff)
  ultimately show ?thesis using e' d by simp
qed

section \<open>Ranges\<close>

lemma set_mic_capture_gain_range:
  assumes "g \<noteq> F32_nan"
  obtains m e where "set_mic_capture_gain g = F32 m e" "\<not> f32_lt (F32 m e) 0" "\<not> f32_gt (F32 m e) 64"
proof (cases g)
  case (F32 m e)
  have "\<not> f32_lt (F32 0 0) 0" "\<not> f32_gt (F32 0 0) 64" "\<not> f32_lt (F32 64 0) 0" "\<not> f32_gt (F32 64 0) 64"
    by (simp_all add: f32_lt_def f32_gt_def)
  moreover have "set_mic_capture_gain g \<in> {F32 0 0, F32 64 0, F32 m e}"
    "set_mic_capture_gain g = F32 m e \<Longrightarrow> \<not> f32_lt (F32 m e) 0 \<and> \<not> f32_gt (F32 m e) 64"
    using F32 calculation by (auto simp: set_mic_capture_gain_def Let_def split: if_splits)
  ultimately show thesis using that by blast
next
  case (F32_inf neg)
  then show thesis
    using that [of "if neg then 0 else 64" 0] by (simp add: set_mic_capture_gain_def Let_def f32_lt_def f32_gt_def split: if_splits)
qed (use assms in simp)

lemma f32_trunc_range:
  assumes "\<not> f32_gt (F32 m e) hi" "\<not> f32_lt (F32 m e) lo"
  shows "\<exists>v. f32_trunc (F32 m e) = Some v \<and> lo \<le> v \<and> v \<le> hi"
proof (cases "0 \<le> e")
  case False
  with assms have "lo * 2 ^ nat (- e) \<le> m" "m \<le> hi * 2 ^ nat (- e)" by (simp_all add: f32_gt_def f32_lt_def)
  with c_div_between [of "2 ^ nat (- e)" lo m hi] False show ?thesis by (simp add: f32_trunc_def)
qed (use assms in \<open>simp add: f32_gt_def f32_lt_def f32_trunc_def\<close>)

lemma gained_sample_range: "\<exists>v. gained_sample (F32 m e) s = Some v \<and> is_s16 v"
proof -
  obtain m' e' where 0: "f32_mul_s16 s (F32 m e) = F32 m' e'"
    by (cases "round_even 24 (s * m) e") (simp add: f32_mul_s16_def)
  define v1 where "v1 = (if f32_gt (F32 m' e') 32767 then F32 32767 0 else F32 m' e')"
  have 1: "\<exists>a b. v1 = F32 a b" "\<not> f32_gt v1 32767" by (auto simp: v1_def f32_gt_def)
  define v2 where "v2 = (if f32_lt v1 (- 32768) then F32 (- 32768) 0 else v1)"
  have 2: "\<exists>a b. v2 = F32 a b" "\<not> f32_gt v2 32767" "\<not> f32_lt v2 (- 32768)"
    using 1 by (auto simp: v2_def f32_gt_def f32_lt_def)
  have "gained_sample (F32 m e) s = f32_trunc v2" by (simp add: gained_sample_def 0 v1_def v2_def)
  with 2 f32_trunc_range show ?thesis by (metis is_s16_def)
qed

lemma gained_sample_integer:
  assumes "is_s16 s" "0 \<le> k" "k \<le> 64"
  shows "gained_sample (F32 k 0) s = Some (clamp_int (s * k) (- 32768) 32767)"
proof -
  have "\<bar>s\<bar> \<le> 32768" "\<bar>k\<bar> \<le> 64" using assms by (auto simp: is_s16_def)
  then have "\<bar>s\<bar> * \<bar>k\<bar> \<le> 32768 * 64" by (intro mult_mono) simp_all
  then have "f32_mul_s16 s (F32 k 0) = F32 (s * k) 0"
    by (simp add: f32_mul_s16_def round_even_exact abs_mult)
  then show ?thesis
    by (simp add: gained_sample_def f32_gt_def f32_lt_def f32_trunc_def clamp_int_def)
qed

lemma is_s16_read: "is_s16 (read_le_s16 b)"
proof -
  have "- (2 ^ 15) \<le> cast_s16 v \<and> cast_s16 v < 2 ^ 15" for v
    unfolding cast_s16_def using signed_take_bit_int_greater_eq_minus_exp [of 15 v] signed_take_bit_int_less_exp [of 15 v] by simp
  from this [of "uint (ucast (b ! 0) OR push_bit 8 (ucast (b ! 1)) :: u32)"]
  show ?thesis by (simp add: read_le_s16_def is_s16_def)
qed

lemma read_s16_bytes:
  assumes "is_s16 v"
  shows "read_le_s16 (s16_bytes v @ t) = v"
proof -
  have "mic_frame_bytes v = [0, 0] @ s16_bytes v"
  proof -
    have ff: "ucast ((w :: u16) AND 0xff) = (ucast w :: u8)" for w
    proof -
      have "w AND 0xff = take_bit 8 w" by (simp add: take_bit_eq_mask mask_eq_exp_minus_1)
      then show ?thesis by (auto simp: bit_simps intro!: bit_word_eqI)
    qed
    show ?thesis by (simp add: mic_frame_bytes_def s16_bytes_def le16_def Let_def ff)
  qed
  with mic_sample_roundtrip [OF assms] have "read_le_s16 (s16_bytes v) = v" by simp
  then show ?thesis by (simp add: read_le_s16_def s16_bytes_def le16_def)
qed

lemma length_s16_bytes [simp]: "length (s16_bytes v) = 2"
  by (simp add: s16_bytes_def)

lemma gain_loop_total: "\<exists>out. gain_loop (F32 m e) pcm = Some out \<and> length out = length pcm"
proof (induction "F32 m e" pcm rule: gain_loop.induct)
  case (1 lo hi pcm)
  with gained_sample_range [of m e "read_le_s16 [lo, hi]"] show ?case by auto
qed simp_all

lemma gain_loop_integer:
  assumes "0 \<le> k" "k \<le> 64" "gain_loop (F32 k 0) pcm = Some out" "2 * i + 1 < length pcm"
  shows "read_le_s16 (drop (2 * i) out) = clamp_int (read_le_s16 (drop (2 * i) pcm) * k) (- 32768) 32767"
  using assms(3,4)
proof (induction "F32 k 0" pcm arbitrary: out i rule: gain_loop.induct)
  case (1 lo hi pcm)
  let ?v = "clamp_int (read_le_s16 [lo, hi] * k) (- 32768) 32767"
  have v: "gained_sample (F32 k 0) (read_le_s16 [lo, hi]) = Some ?v"
    by (rule gained_sample_integer [OF is_s16_read assms(1,2)])
  with 1 obtain rest where r: "gain_loop (F32 k 0) pcm = Some rest" "out = s16_bytes ?v @ rest" by auto
  show ?case
  proof (cases i)
    case 0
    have "is_s16 ?v" by (simp add: is_s16_def clamp_int_def)
    from 0 read_s16_bytes [OF this] show ?thesis by (simp add: r(2) read_le_s16_def)
  next
    case (Suc j)
    have "drop (2 * Suc j) (s16_bytes ?v @ rest) = drop (2 * j) rest" "drop (2 * Suc j) (lo # hi # pcm) = drop (2 * j) pcm"
      by simp_all
    with Suc 1(1) [OF v r(1), of j] 1(3) r(2) show ?thesis by simp
  qed
qed auto

lemma c_div_nonneg: "0 \<le> m \<Longrightarrow> c_div m (2 ^ k) = m div 2 ^ k"
  by (cases "m = 0") (simp_all add: c_div_def)

text \<open>A double between 0 and 1, in units of its exponent.\<close>

lemma unit_clamp_range:
  assumes "unit_clamp x = (m, e)"
  shows "0 \<le> m \<and> (0 \<le> e \<longrightarrow> m * 2 ^ nat e \<le> 1) \<and> (e < 0 \<longrightarrow> m \<le> 2 ^ nat (- e))"
proof -
  have r: "\<not> f32_lt (F32 m e) 0" "\<not> f32_gt (F32 m e) 1"
    using assms by (auto simp: unit_clamp_def Let_def f32_lt_def f32_gt_def split: if_splits)
  have "0 \<le> m" using r(1) by (cases "0 \<le> e") (auto simp: f32_lt_def zero_le_mult_iff not_less)
  with r(2) show ?thesis by (auto simp: f32_gt_def)
qed

lemma q15_coarse:
  assumes "0 \<le> m" "0 \<le> e \<longrightarrow> m * 2 ^ nat e \<le> 1" "e < 0 \<longrightarrow> m \<le> 2 ^ nat (- e)" "- 16 \<le> e"
    and "add_half (m, e + 15) = (m', e')"
  shows "e' = - 1 \<and> 0 \<le> m' \<and> m' \<le> 65537"
proof -
  let ?M = "m * 2 ^ nat (e + 16)"
  have "?M \<le> 65536"
  proof (cases "0 \<le> e")
    case True
    then have "?M = m * 2 ^ nat e * 65536" by (simp add: nat_add_distrib power_add)
    moreover have "m * 2 ^ nat e * 65536 \<le> 1 * 65536" using assms(2) True by (intro mult_right_mono) simp_all
    ultimately show ?thesis by linarith
  next
    case False
    have "?M \<le> 2 ^ nat (- e) * 2 ^ nat (e + 16)" using False assms(3) by (intro mult_right_mono) simp_all
    also have "\<dots> = 2 ^ nat 16" using False assms(4) by (simp only: power_add [symmetric] nat_add_distrib [symmetric]) simp
    finally show ?thesis by simp
  qed
  moreover have "0 \<le> ?M" using assms(1) by simp
  ultimately have "round_even 53 (?M + 1) (- 1) = (?M + 1, - 1)" by (intro round_even_exact) simp
  with assms(4,5) \<open>?M \<le> 65536\<close> \<open>0 \<le> ?M\<close> show ?thesis by (auto simp: add_half_def add.assoc)
qed

lemma q15_fine:
  assumes "0 \<le> m" "m \<le> 2 ^ nat (- e)" "e < - 16" "add_half (m, e + 15) = (m', e')"
  shows "e' < 0 \<and> 0 \<le> m' \<and> m' < 32769 * 2 ^ nat (- e')"
proof -
  define K where "K = nat (- 16 - e)"
  have K: "int K = - 16 - e" "nat (- e) = 16 + K" using assms(3) by (simp_all add: K_def)
  have a: "round_even 53 (m + 2 ^ K) (e + 15) = (m', e')"
    using assms(3,4) by (simp add: add_half_def K_def)
  have "m + 2 ^ K \<le> 65537 * 2 ^ K" using assms(2) by (simp add: K power_add)
  moreover have "bit_length (nat (m + 2 ^ K)) \<le> 53 + K"
  proof (rule bit_length_le)
    have "m + 2 ^ K < 2 ^ 17 * 2 ^ K" using calculation by (rule order.strict_trans1) simp
    also have "\<dots> \<le> 2 ^ (53 + K)" by (simp add: power_add)
    finally show "nat (m + 2 ^ K) < 2 ^ (53 + K)" by (simp add: nat_less_iff assms(1))
  qed
  ultimately have r: "0 \<le> m'" "e + 15 \<le> e'" "e' - (e + 15) \<le> int K" "m' * 2 ^ nat (e' - (e + 15)) \<le> 65537 * 2 ^ K"
    using round_even_le [OF _ _ _ _ a, of 65537 K] assms(1) by auto
  from r(3) K(1) have e': "e' \<le> - 1" by simp
  have "nat (- e') + nat (e' - (e + 15)) = Suc K" using e' r(2) K(1) by linarith
  then have "(2 :: int) ^ nat (- e') * 2 ^ nat (e' - (e + 15)) = 2 * 2 ^ K" by (simp only: power_add [symmetric] power_Suc)
  then have "m' * 2 ^ nat (e' - (e + 15)) < 32769 * 2 ^ nat (- e') * 2 ^ nat (e' - (e + 15))"
    using r(4) zero_less_power [of "2 :: int" K] by (simp only: mult.assoc) linarith
  then show ?thesis using r(1) e' by simp
qed

lemma zdiv_less_mult: "0 < d \<Longrightarrow> m < d * k \<Longrightarrow> m div d < (k :: int)"
  using mult_left_mono [of k "m div d" d] mult_div_mod_eq [of d m] pos_mod_sign [of d m] by linarith

lemma q15_range: "0 \<le> q15_of_linear x \<and> q15_of_linear x \<le> 2 ^ 15"
proof -
  obtain m e where u: "unit_clamp x = (m, e)" by (cases "unit_clamp x")
  obtain m' e' where a: "add_half (m, e + 15) = (m', e')" by (cases "add_half (m, e + 15)")
  have "e' < 0 \<and> 0 \<le> m' \<and> m' < 32769 * 2 ^ nat (- e')"
    using unit_clamp_range [OF u] q15_coarse [OF _ _ _ _ a] q15_fine [OF _ _ _ a] by (cases "e < - 16") fastforce+
  then have "0 \<le> m' div 2 ^ nat (- e') \<and> m' div 2 ^ nat (- e') < 32769"
    by (simp add: pos_imp_zdiv_nonneg_iff) (metis mult.commute zdiv_less_mult zero_less_numeral zero_less_power)
  with \<open>e' < 0 \<and> _\<close> show ?thesis by (simp add: q15_of_linear_def u a c_div_nonneg)
qed

lemma scale_sample_between:
  assumes "0 \<le> g" "g \<le> 2 ^ 15"
  shows "let s = read_le_s16 b; r = read_le_s16 (scale_sample g b @ t) in
    r = drop_bit 15 (s * g) \<and> min s 0 \<le> r \<and> r \<le> max s 0"
proof -
  let ?s = "read_le_s16 b" and ?d = "drop_bit 15 (read_le_s16 b * g)"
  have s: "- 32768 \<le> ?s" "?s \<le> 32767" using is_s16_read [of b] by (simp_all add: is_s16_def)
  have d: "?d = ?s * g div 32768" by (simp add: drop_bit_eq_div)
  have b: "min ?s 0 \<le> ?d \<and> ?d \<le> max ?s 0"
  proof (cases "0 \<le> ?s")
    case True
    have "?s * g \<le> ?s * 32768" "0 \<le> ?s * g" using True assms by (auto intro: mult_left_mono)
    with zdiv_mono1 [of "?s * g" "?s * 32768" 32768] True show ?thesis by (simp add: d pos_imp_zdiv_nonneg_iff)
  next
    case False
    have "?s * 32768 \<le> ?s * g" "?s * g \<le> 0" using False assms by (auto intro: mult_left_mono_neg mult_nonpos_nonneg)
    with zdiv_mono1 [of "?s * 32768" "?s * g" 32768] False show ?thesis
      by (simp add: d)
  qed
  with s have "is_s16 ?d" "\<not> 32767 < ?d" "\<not> ?d < - 32768" by (auto simp: is_s16_def)
  with b show ?thesis by (simp add: scale_sample_def Let_def read_s16_bytes)
qed

lemma length_scale_sample [simp]: "length (scale_sample g b) = 2"
  by (simp add: scale_sample_def Let_def)

text \<open>The frames of a scaled buffer are the scaled frames.\<close>

definition scale_frame :: "int \<Rightarrow> bytes \<Rightarrow> bytes" where
  "scale_frame g fr = scale_sample g (take 2 fr) @ scale_sample g (take 2 (drop 2 fr)) @ drop 4 fr"

lemma one_frame: "length a = 8 \<Longrightarrow> whole_frames (a @ b) = a # whole_frames b \<and> left_over (a @ b) = left_over b"
  using whole_frames_append [of a b] by (simp add: whole_frames_def left_over_def kPcmFrameSize_def)

lemma scale_speaker_frames:
  "whole_frames (scale_speaker g pcm) = map (scale_frame g) (whole_frames pcm) \<and>
   left_over (scale_speaker g pcm) = left_over pcm"
proof (induction g pcm rule: scale_speaker.induct)
  case (1 g a b c d e f x h pcm)
  let ?fr = "[a, b, c, d, e, f, x, h]"
  have st: "scale_speaker g (a # b # c # d # e # f # x # h # pcm) = scale_frame g ?fr @ scale_speaker g pcm"
    by (simp add: scale_frame_def)
  have "length (scale_frame g ?fr) = 8" by (simp add: scale_frame_def)
  from one_frame [OF this, of "scale_speaker g pcm"] one_frame [of ?fr pcm] 1 show ?case
    unfolding st by simp
qed (simp_all add: whole_frames_short)

lemma whole_frames_length: "fr \<in> set (whole_frames bs) \<Longrightarrow> length fr = 8"
proof -
  have "fr \<in> set (chop n bs) \<Longrightarrow> n * 8 \<le> length bs \<Longrightarrow> length fr = 8" for n
    by (induction n arbitrary: bs) (auto simp: kPcmFrameSize_def)
  then show "fr \<in> set (whole_frames bs) \<Longrightarrow> length fr = 8"
    by (simp add: whole_frames_def kPcmFrameSize_def)
qed

lemma frame_samples_eq:
  "frame_samples b = [read_le_s16 b, read_le_s16 (drop 2 b), read_le_s16 (drop 4 b), read_le_s16 (drop 6 b)]"
  by (simp add: frame_samples_def kPcmChannels_def upt_rec numeral_eq_Suc)

lemma scale_frame_samples:
  assumes "length fr = 8" "0 \<le> g" "g \<le> 2 ^ 15"
  shows "frame_samples (scale_frame g fr) =
    (let s = frame_samples fr in [drop_bit 15 (s ! 0 * g), drop_bit 15 (s ! 1 * g), s ! 2, s ! 3])"
proof -
  have t: "read_le_s16 (take 2 b) = read_le_s16 b" for b by (simp add: read_le_s16_def)
  have r: "read_le_s16 (scale_sample g (take 2 b) @ u) = drop_bit 15 (read_le_s16 b * g)" for b u
    using scale_sample_between [OF assms(2,3), of "take 2 b" u] by (simp add: Let_def t)
  have "drop 2 (scale_frame g fr) = scale_sample g (take 2 (drop 2 fr)) @ drop 4 fr"
    "drop 4 (scale_frame g fr) = drop 4 fr" "drop 6 (scale_frame g fr) = drop 6 fr"
    by (simp_all add: scale_frame_def)
  then show ?thesis
    using r [of fr "scale_sample g (take 2 (drop 2 fr)) @ drop 4 fr"] r [of "drop 2 fr" "drop 4 fr"]
    by (simp add: frame_samples_eq Let_def) (simp add: scale_frame_def)
qed

section \<open>Properties\<close>

text \<open>
  The microphone boost is safe and exact: for every requested gain that is a number the stored
  gain lies between 0 and 64 and boosting a buffer of any size is defined and keeps its size; when
  the gain is a whole number each sample becomes the product, saturated to 16 bits, with no
  rounding error.
\<close>

theorem mic_boost_exact:
  assumes "g \<noteq> F32_nan"
  shows "\<exists>out. apply_pcm_gain_i16 pcm (set_mic_capture_gain g) = Some out \<and> length out = length pcm \<and>
    \<not> f32_lt (set_mic_capture_gain g) 0 \<and> \<not> f32_gt (set_mic_capture_gain g) 64 \<and>
    (\<forall>k i. set_mic_capture_gain g = F32 k 0 \<and> 2 * i + 1 < length pcm \<longrightarrow>
       read_le_s16 (drop (2 * i) out) = clamp_int (read_le_s16 (drop (2 * i) pcm) * k) (- 32768) 32767)"
proof -
  from set_mic_capture_gain_range [OF assms] obtain m e where
    g: "set_mic_capture_gain g = F32 m e" "\<not> f32_lt (F32 m e) 0" "\<not> f32_gt (F32 m e) 64" by blast
  show ?thesis
  proof (cases "f32_eq (F32 m e) 1")
    case True
    have "clamp_int (read_le_s16 b) (- 32768) 32767 = read_le_s16 b" for b
      using is_s16_read [of b] by (simp add: clamp_int_def is_s16_def)
    with True g show ?thesis by (auto simp: apply_pcm_gain_i16_def f32_eq_def)
  next
    case False
    obtain out where out: "gain_loop (F32 m e) pcm = Some out" "length out = length pcm"
      using gain_loop_total by blast
    have "0 \<le> m" "m \<le> 64" if "e = 0" using g(2,3) that by (simp_all add: f32_lt_def f32_gt_def)
    with gain_loop_integer [of m pcm out] out False g show ?thesis by (auto simp: apply_pcm_gain_i16_def)
  qed
qed

theorem mic_boost_exact_witness:
  "\<not> f32_gt (set_mic_capture_gain (F32_inf False)) 64 \<and>
   (\<exists>out. apply_pcm_gain_i16 [0xff, 0xff, 0, 0x40] (set_mic_capture_gain (F32 50 0)) = Some out \<and>
     read_le_s16 (drop 2 out) = 32767)"
proof -
  have s: "set_mic_capture_gain (F32 50 0) = F32 50 0"
    by (simp add: set_mic_capture_gain_def f32_lt_def f32_gt_def)
  have "read_le_s16 [0, 0x40] = 16384" by code_simp
  moreover obtain out where "apply_pcm_gain_i16 [0xff, 0xff, 0, 0x40] (set_mic_capture_gain (F32 50 0)) = Some out"
    and o: "\<And>k i. set_mic_capture_gain (F32 50 0) = F32 k 0 \<Longrightarrow> 2 * i + 1 < length [0xff, 0xff, 0, 0x40 :: u8] \<Longrightarrow>
       read_le_s16 (drop (2 * i) out) = clamp_int (read_le_s16 (drop (2 * i) [0xff, 0xff, 0, 0x40]) * k) (- 32768) 32767"
    using mic_boost_exact [of "F32 50 0" "[0xff, 0xff, 0, 0x40]"] by blast
  ultimately have "apply_pcm_gain_i16 [0xff, 0xff, 0, 0x40] (set_mic_capture_gain (F32 50 0)) = Some out \<and>
      read_le_s16 (drop 2 out) = 32767"
    using o [OF s, of 1] by (simp add: clamp_int_def)
  with mic_boost_exact [of "F32_inf False"] show ?thesis by blast
qed

text \<open>
  The one gain that is not safe: a request for \<open>nan\<close> passes both comparisons of
  \<open>set_mic_capture_gain\<close> and is stored, and boosting any sample with it converts
  not-a-number to an integer, which is undefined.
\<close>

theorem nan_gain_undefined:
  "set_mic_capture_gain F32_nan = F32_nan \<and> apply_pcm_gain_i16 (lo # hi # pcm) (set_mic_capture_gain F32_nan) = None"
  by (simp add: set_mic_capture_gain_def f32_lt_def f32_gt_def f32_eq_def apply_pcm_gain_i16_def gained_sample_def
      f32_mul_s16_def f32_trunc_def)

text \<open>
  The volume of the host only attenuates the speaker: whatever value \<open>std::pow\<close> returns,
  the gain lies between 0 and 1 (as a 15-bit fraction), the two speaker samples of every frame are
  multiplied by it and rounded down, never beyond their old magnitude, and the two haptic samples
  and an incomplete frame at the end are untouched.
\<close>

theorem speaker_volume_attenuates:
  "let g = speaker_gain_for pow10 muted db256; out = apply_speaker_gain g pcm in
   0 \<le> g \<and> g \<le> 2 ^ 15 \<and> left_over out = left_over pcm \<and>
   map frame_samples (whole_frames out) =
     map (\<lambda>fr. let s = frame_samples fr in [drop_bit 15 (s ! 0 * g), drop_bit 15 (s ! 1 * g), s ! 2, s ! 3]) (whole_frames pcm) \<and>
   min (read_le_s16 b) 0 \<le> drop_bit 15 (read_le_s16 b * g) \<and> drop_bit 15 (read_le_s16 b * g) \<le> max (read_le_s16 b) 0"
proof -
  let ?g = "speaker_gain_for pow10 muted db256"
  have g: "0 \<le> ?g" "?g \<le> 2 ^ 15" using q15_range by (auto simp: speaker_gain_for_def)
  have "map frame_samples (whole_frames (scale_speaker ?g pcm)) =
      map (\<lambda>fr. let s = frame_samples fr in [drop_bit 15 (s ! 0 * ?g), drop_bit 15 (s ! 1 * ?g), s ! 2, s ! 3]) (whole_frames pcm)"
    using scale_speaker_frames [of ?g pcm] scale_frame_samples [OF whole_frames_length g] by simp
  moreover have "frame_samples fr = (let s = frame_samples fr in [drop_bit 15 (s ! 0 * 2 ^ 15), drop_bit 15 (s ! 1 * 2 ^ 15), s ! 2, s ! 3])" for fr
    by (simp add: frame_samples_def kPcmChannels_def upt_rec Let_def drop_bit_eq_div)
  ultimately show ?thesis
    using g scale_speaker_frames [of ?g pcm] scale_sample_between [OF g, of b "[]"]
    by (cases "?g = 2 ^ 15") (simp_all add: apply_speaker_gain_def Let_def)
qed

end
