(* ===== verification/FrameIo.thy ===== *)
theory FrameIo
  imports Protocol
begin

text \<open>
  Frames on byte streams: \<open>src/platform/win32/vds_io.cc\<close> (exact reads and writes on a handle,
  frames on the pipe between the daemon and a virtual port), \<open>write_full\<close> of
  \<open>src/platform/linux/vds_io.cc\<close>, and \<open>recv_exact\<close> and \<open>send_exact\<close> of
  \<open>src/platform/win32/vds_usbip.cc\<close>. The operating system appears as the outcome of its
  calls: the pieces in which bytes arrive (or the error of a read), and for each write how many
  bytes were taken or which error occurred. A stream that has no further arrival is closed; a
  peer that stays silent for ever is not represented, the read does not return then.
\<close>

section \<open>Reading\<close>

datatype arrival = Piece bytes | Read_error exn

text \<open>
  One read returns at most the requested number of bytes of the first piece and leaves the rest;
  no bytes mean that the stream is closed.
\<close>

fun read_some :: "nat \<Rightarrow> arrival list \<Rightarrow> bytes result \<times> arrival list" where
  "read_some n [] = (Inr [], [])"
| "read_some n (Read_error e # as) = (Inl e, as)"
| "read_some n (Piece bs # as) =
     (Inr (take n bs), if length bs \<le> n then as else Piece (drop n bs) # as)"

lemma read_some_length: "read_some n as = (Inr got, as') \<Longrightarrow> length got \<le> n"
  by (cases "(n, as)" rule: read_some.cases) auto

function read_handle_exact :: "string \<Rightarrow> nat \<Rightarrow> arrival list \<Rightarrow> bytes result \<times> arrival list" where
  "read_handle_exact label remaining as =
     (if remaining = 0 then (Inr [], as)
      else
        (case read_some (min remaining (2 ^ 32 - 1)) as of
           (Inl e, as') \<Rightarrow> (Inl e, as')
         | (Inr got, as') \<Rightarrow>
             if got = [] then (Inl (Runtime_error (label @ '' closed'')), as')
             else
               (case read_handle_exact label (remaining - length got) as' of
                  (Inl e, as'') \<Rightarrow> (Inl e, as'')
                | (Inr bs, as'') \<Rightarrow> (Inr (got @ bs), as''))))"
  by pat_completeness auto
termination
  by (relation "measure (\<lambda>(label, remaining, as). remaining)") auto

function recv_exact :: "nat \<Rightarrow> arrival list \<Rightarrow> bytes option \<times> arrival list" where
  "recv_exact remaining as =
     (if remaining = 0 then (Some [], as)
      else
        (case read_some remaining as of
           (Inl e, as') \<Rightarrow> (None, as')
         | (Inr got, as') \<Rightarrow>
             if got = [] then (None, as')
             else
               (case recv_exact (remaining - length got) as' of
                  (None, as'') \<Rightarrow> (None, as'')
                | (Some bs, as'') \<Rightarrow> (Some (got @ bs), as''))))"
  by pat_completeness auto
termination
  by (relation "measure (\<lambda>(remaining, as). remaining)") auto

declare read_handle_exact.simps [simp del] recv_exact.simps [simp del]

section \<open>Writing\<close>

datatype acceptance = Accepts nat | Write_error exn

text \<open>
  One write of a chunk takes the number of bytes the system accepts, at most the chunk; when the
  list of outcomes is used up every further write is taken whole.
\<close>

fun write_some :: "bytes \<Rightarrow> acceptance list \<Rightarrow> nat result \<times> acceptance list" where
  "write_some bs [] = (Inr (length bs), [])"
| "write_some bs (Write_error e # ws) = (Inl e, ws)"
| "write_some bs (Accepts n # ws) = (Inr (min n (length bs)), ws)"

lemma write_some_le: "write_some bs ws = (Inr n, ws') \<Longrightarrow> n \<le> length bs"
  by (cases "(bs, ws)" rule: write_some.cases) auto

text \<open>The writers return their result, the bytes that reached the stream and the outcomes left.\<close>

function write_handle_exact ::
  "string \<Rightarrow> bytes \<Rightarrow> acceptance list \<Rightarrow> unit result \<times> bytes \<times> acceptance list" where
  "write_handle_exact label bs ws =
     (if bs = [] then (Inr (), [], ws)
      else
        (case write_some (take (64 * 1024) bs) ws of
           (Inl e, ws') \<Rightarrow> (Inl e, [], ws')
         | (Inr n, ws') \<Rightarrow>
             if n = 0 then (Inl (Runtime_error (label @ '' write returned zero bytes'')), [], ws')
             else
               (case write_handle_exact label (drop n bs) ws' of
                  (r, out, ws'') \<Rightarrow> (r, take n bs @ out, ws''))))"
  by pat_completeness auto
termination
  by (relation "measure (\<lambda>(label, bs, ws). length bs)") auto

function send_exact :: "bytes \<Rightarrow> acceptance list \<Rightarrow> bool \<times> bytes \<times> acceptance list" where
  "send_exact bs ws =
     (if bs = [] then (True, [], ws)
      else
        (case write_some bs ws of
           (Inl e, ws') \<Rightarrow> (False, [], ws')
         | (Inr n, ws') \<Rightarrow>
             if n = 0 then (False, [], ws')
             else (case send_exact (drop n bs) ws' of (r, out, ws'') \<Rightarrow> (r, take n bs @ out, ws''))))"
  by pat_completeness auto
termination
  by (relation "measure (\<lambda>(bs, ws). length bs)") auto

declare write_handle_exact.simps [simp del] send_exact.simps [simp del]

text \<open>
  \<open>write_full\<close> on a descriptor that may be non-blocking: an interrupted call is repeated, a
  full buffer is polled when a timeout was given.
\<close>

datatype poll_outcome = Writable | Poll_timeout | Poll_interrupted | Poll_socket_error | Poll_failed string

datatype write_outcome_fd = Written_fd nat | Interrupted | Would_block poll_outcome | Failed_fd string

definition poll_result :: "string \<Rightarrow> poll_outcome \<Rightarrow> exn option" where
  "poll_result label p =
     (case p of Writable \<Rightarrow> None
      | Poll_timeout \<Rightarrow> Some (Runtime_error (label @ '' write timed out''))
      | Poll_interrupted \<Rightarrow> None
      | Poll_socket_error \<Rightarrow> Some (Runtime_error (label @ '' write poll reported socket error''))
      | Poll_failed err \<Rightarrow> Some (Runtime_error (label @ '' write poll failed: '' @ err)))"

text \<open>
  \<open>strerror(EAGAIN)\<close> is an argument. With no outcome left the rest is written at once.
\<close>

fun write_full ::
  "string \<Rightarrow> string \<Rightarrow> int \<Rightarrow> bytes \<Rightarrow> write_outcome_fd list \<Rightarrow> unit result \<times> bytes" where
  "write_full eagain label timeout bs [] = (Inr (), bs)"
| "write_full eagain label timeout bs (w # ws) =
     (if bs = [] then (Inr (), [])
      else
        (case w of
           Interrupted \<Rightarrow> write_full eagain label timeout bs ws
         | Would_block p \<Rightarrow>
             (if timeout \<ge> 0 then
                (case poll_result label p of
                   None \<Rightarrow> write_full eagain label timeout bs ws
                 | Some e \<Rightarrow> (Inl e, []))
              else (Inl (Runtime_error (label @ '' write failed: '' @ eagain)), []))
         | Failed_fd err \<Rightarrow> (Inl (Runtime_error (label @ '' write failed: '' @ err)), [])
         | Written_fd k \<Rightarrow>
             (let n = min k (length bs) in
              if n = 0 then (Inl (Runtime_error (label @ '' write returned zero bytes'')), [])
              else (case write_full eagain label timeout (drop n bs) ws of
                      (r, out) \<Rightarrow> (r, take n bs @ out)))))"

section \<open>Frames\<close>

record Frame =
  fr_header :: vds_frame_header
  fr_payload :: bytes

definition from_le64 :: "bytes \<Rightarrow> u64" where
  "from_le64 b = ucast (from_le32 (take 4 b)) OR push_bit 32 (ucast (from_le32 (drop 4 b)))"

definition parse_header :: "bytes \<Rightarrow> vds_frame_header" where
  "parse_header b =
     \<lparr>fh_type = from_le16 (take 2 b), fh_flags = from_le16 (take 2 (drop 2 b)),
      fh_length = from_le32 (take 4 (drop 4 b)), fh_sequence = from_le64 (take 8 (drop 8 b))\<rparr>"

definition read_handle_frame :: "string \<Rightarrow> arrival list \<Rightarrow> Frame result \<times> arrival list" where
  "read_handle_frame label as =
     (case read_handle_exact label 16 as of
        (Inl e, as') \<Rightarrow> (Inl e, as')
      | (Inr hb, as') \<Rightarrow>
          (let h = parse_header hb in
           if unat (fh_length h) > VDS_FRAME_MAX_PAYLOAD
           then (Inl (Runtime_error (label @ '' oversized frame length='' @ u32_text (fh_length h))), as')
           else
             (case read_handle_exact label (unat (fh_length h)) as' of
                (Inl e, as'') \<Rightarrow> (Inl e, as'')
              | (Inr p, as'') \<Rightarrow> (Inr \<lparr>fr_header = h, fr_payload = p\<rparr>, as''))))"

definition write_handle_frame ::
  "string \<Rightarrow> u16 \<Rightarrow> bytes \<Rightarrow> acceptance list \<Rightarrow> unit result \<times> bytes \<times> acceptance list" where
  "write_handle_frame label type payload ws =
     (case frame_bytes type payload of
        Inl e \<Rightarrow> (Inl e, [], ws)
      | Inr bs \<Rightarrow> write_handle_exact label bs ws)"

section \<open>Exact reads\<close>

text \<open>A stream on which every read delivers something, and the bytes it carries.\<close>

fun pieces :: "arrival list \<Rightarrow> bool" where
  "pieces [] \<longleftrightarrow> True"
| "pieces (Piece bs # as) \<longleftrightarrow> bs \<noteq> [] \<and> pieces as"
| "pieces (Read_error e # as) \<longleftrightarrow> False"

fun arrived :: "arrival list \<Rightarrow> bytes" where
  "arrived [] = []"
| "arrived (Piece bs # as) = bs @ arrived as"
| "arrived (Read_error e # as) = []"

lemma pieces_map [simp]: "pieces (map Piece bss) \<longleftrightarrow> [] \<notin> set bss"
  by (induction bss) auto

lemma arrived_map [simp]: "arrived (map Piece bss) = concat bss"
  by (induction bss) auto

lemma read_some_pieces:
  assumes "pieces as" "arrived as \<noteq> []" "0 < n"
  obtains got as' where "read_some n as = (Inr got, as')" "got \<noteq> []" "length got \<le> n" "pieces as'"
    "arrived as = got @ arrived as'"
proof (cases as)
  case (Cons a as1)
  with assms obtain bs where a: "a = Piece bs" "bs \<noteq> []" "pieces as1" by (cases a) auto
  show thesis
    by (rule that [of "take n bs" "if length bs \<le> n then as1 else Piece (drop n bs) # as1"])
      (use a Cons assms(3) in auto)
qed (use assms in simp)

lemma read_some_closed: "pieces as \<Longrightarrow> arrived as = [] \<Longrightarrow> read_some n as = (Inr [], [])"
  by (cases as rule: arrived.cases) auto

text \<open>
  What an exact read promises: on a stream that carries the bytes it returns them, whatever the
  pieces, and leaves the rest; on a stream that is too short it does not succeed.
\<close>

locale exact_reader =
  fixes rd :: "nat \<Rightarrow> arrival list \<Rightarrow> 'r \<times> arrival list" and ok :: "bytes \<Rightarrow> 'r"
  assumes rd_exact: "pieces as \<Longrightarrow> arrived as = bs @ t \<Longrightarrow>
      \<exists>as'. rd (length bs) as = (ok bs, as') \<and> pieces as' \<and> arrived as' = t"
    and rd_short: "pieces as \<Longrightarrow> length (arrived as) < n \<Longrightarrow> fst (rd n as) \<noteq> ok bs"
begin

lemma rd_segmentation:
  assumes "pieces as" "pieces as2" "arrived as = arrived as2" "n \<le> length (arrived as)"
  shows "fst (rd n as) = fst (rd n as2) \<and> arrived (snd (rd n as)) = arrived (snd (rd n as2))"
proof -
  let ?b = "take n (arrived as)" and ?t = "drop n (arrived as)"
  from assms(4) have "length ?b = n" by simp
  with rd_exact [OF assms(1), of ?b ?t] rd_exact [OF assms(2), of ?b ?t] assms(3)
  show ?thesis by auto
qed

lemma rd_success: "pieces as \<Longrightarrow> n \<le> length (arrived as) \<longleftrightarrow> (\<exists>bs. fst (rd n as) = ok bs)"
  using rd_exact [of as "take n (arrived as)" "drop n (arrived as)"] rd_short [of as n]
  by (cases "n \<le> length (arrived as)") auto

end

lemma read_handle_exact_pieces:
  "pieces as \<Longrightarrow> arrived as = bs @ t \<Longrightarrow> length bs = n \<Longrightarrow>
   \<exists>as'. read_handle_exact label n as = (Inr bs, as') \<and> pieces as' \<and> arrived as' = t"
proof (induction label n as arbitrary: bs rule: read_handle_exact.induct)
  case (1 label n as)
  show ?case
  proof (cases "n = 0")
    case True
    with 1 show ?thesis by (simp add: read_handle_exact.simps)
  next
    case False
    with "1.prems" have "arrived as \<noteq> []" "0 < min n (2 ^ 32 - 1)" by auto
    from read_some_pieces [OF "1.prems"(1) this] obtain got as' where
      g: "read_some (min n (2 ^ 32 - 1)) as = (Inr got, as')" "got \<noteq> []" "length got \<le> n" "pieces as'"
        "arrived as = got @ arrived as'" by (metis min.bounded_iff)
    then have bs: "bs = got @ drop (length got) bs" "arrived as' = drop (length got) bs @ t"
      using "1.prems"(2,3) by (auto simp: append_eq_append_conv2)
    with "1.IH" [OF False g(1) [symmetric] refl g(2) g(4) bs(2)] "1.prems"(3) obtain as'' where
      "read_handle_exact label (n - length got) as' = (Inr (drop (length got) bs), as'')" "pieces as''" "arrived as'' = t"
      by auto
    with g False bs(1) show ?thesis by (subst read_handle_exact.simps) simp
  qed
qed

lemma read_some_split:
  "pieces as \<Longrightarrow> read_some n as = (Inr got, as') \<Longrightarrow> pieces as' \<and> arrived as = got @ arrived as'"
  by (cases "(n, as)" rule: read_some.cases) (auto split: if_splits)

lemma read_handle_exact_split:
  "pieces as \<Longrightarrow> read_handle_exact label n as = (Inr bs, as') \<Longrightarrow> length bs = n \<and> arrived as = bs @ arrived as'"
proof (induction label n as arbitrary: bs as' rule: read_handle_exact.induct)
  case (1 label n as)
  show ?case
  proof (cases "n = 0")
    case True
    with 1 show ?thesis by (simp add: read_handle_exact.simps)
  next
    case False
    with "1.prems"(2) obtain got as1 bs1 where
      g: "read_some (min n (2 ^ 32 - 1)) as = (Inr got, as1)" "got \<noteq> []"
        "read_handle_exact label (n - length got) as1 = (Inr bs1, as')" "bs = got @ bs1"
      by (subst (asm) read_handle_exact.simps) (auto split: prod.splits sum.splits if_splits)
    from read_some_split [OF "1.prems"(1) g(1)] "1.IH" [OF False g(1) [symmetric] refl g(2) _ g(3)]
      read_some_length [OF g(1)]
    show ?thesis using g(4) by auto
  qed
qed

lemma recv_exact_pieces:
  "pieces as \<Longrightarrow> arrived as = bs @ t \<Longrightarrow> length bs = n \<Longrightarrow>
   \<exists>as'. recv_exact n as = (Some bs, as') \<and> pieces as' \<and> arrived as' = t"
proof (induction n as arbitrary: bs rule: recv_exact.induct)
  case (1 n as)
  show ?case
  proof (cases "n = 0")
    case True
    with 1 show ?thesis by (simp add: recv_exact.simps)
  next
    case False
    with "1.prems" have "arrived as \<noteq> []" "0 < n" by auto
    from read_some_pieces [OF "1.prems"(1) this] obtain got as' where
      g: "read_some n as = (Inr got, as')" "got \<noteq> []" "length got \<le> n" "pieces as'"
        "arrived as = got @ arrived as'" by metis
    then have bs: "bs = got @ drop (length got) bs" "arrived as' = drop (length got) bs @ t"
      using "1.prems"(2,3) by (auto simp: append_eq_append_conv2)
    with "1.IH" [OF False g(1) [symmetric] refl g(2) g(4) bs(2)] "1.prems"(3) obtain as'' where
      "recv_exact (n - length got) as' = (Some (drop (length got) bs), as'')" "pieces as''" "arrived as'' = t"
      by auto
    with g False bs(1) show ?thesis by (subst recv_exact.simps) simp
  qed
qed

lemma recv_exact_split:
  "pieces as \<Longrightarrow> recv_exact n as = (Some bs, as') \<Longrightarrow> length bs = n \<and> arrived as = bs @ arrived as'"
proof (induction n as arbitrary: bs as' rule: recv_exact.induct)
  case (1 n as)
  show ?case
  proof (cases "n = 0")
    case True
    with 1 show ?thesis by (simp add: recv_exact.simps)
  next
    case False
    with "1.prems"(2) obtain got as1 bs1 where
      g: "read_some n as = (Inr got, as1)" "got \<noteq> []" "recv_exact (n - length got) as1 = (Some bs1, as')"
        "bs = got @ bs1"
      by (subst (asm) recv_exact.simps) (auto split: prod.splits sum.splits option.splits if_splits)
    from read_some_split [OF "1.prems"(1) g(1)] "1.IH" [OF False g(1) [symmetric] refl g(2) _ g(3)]
      read_some_length [OF g(1)]
    show ?thesis using g(4) by auto
  qed
qed

interpretation handle_reader: exact_reader "read_handle_exact label" Inr for label
proof
  show "\<exists>as'. read_handle_exact label (length bs) as = (Inr bs, as') \<and> pieces as' \<and> arrived as' = t"
    if "pieces as" "arrived as = bs @ t" for as bs t
    using read_handle_exact_pieces [OF that refl] .
  show "fst (read_handle_exact label n as) \<noteq> Inr bs" if "pieces as" "length (arrived as) < n" for as n bs
    using read_handle_exact_split [OF that(1), of label n bs "snd (read_handle_exact label n as)"] that(2)
    by (cases "read_handle_exact label n as") auto
qed

interpretation socket_reader: exact_reader recv_exact Some
proof
  show "\<exists>as'. recv_exact (length bs) as = (Some bs, as') \<and> pieces as' \<and> arrived as' = t"
    if "pieces as" "arrived as = bs @ t" for as bs t
    using recv_exact_pieces [OF that refl] .
  show "fst (recv_exact n as) \<noteq> Some bs" if "pieces as" "length (arrived as) < n" for as n bs
    using recv_exact_split [OF that(1), of n bs "snd (recv_exact n as)"] that(2)
    by (cases "recv_exact n as") auto
qed

section \<open>Exact writes\<close>

text \<open>
  What an exact writer promises: it puts a prefix of the bytes on the stream, all of them exactly
  when it succeeds, and it succeeds when no write fails and none returns zero.
\<close>

definition accepting :: "acceptance list \<Rightarrow> bool" where
  "accepting ws \<longleftrightarrow> (\<forall>w \<in> set ws. \<exists>n. w = Accepts n \<and> 0 < n)"

locale exact_writer =
  fixes wr :: "bytes \<Rightarrow> acceptance list \<Rightarrow> 'r \<times> bytes \<times> acceptance list" and ok :: 'r
  assumes wr_prefix: "wr bs ws = (r, out, ws') \<Longrightarrow> prefix out bs \<and> (r = ok \<longrightarrow> out = bs)"
    and wr_accepting: "accepting ws \<Longrightarrow> \<exists>ws'. wr bs ws = (ok, bs, ws') \<and> accepting ws'"
begin

text \<open>A sequence of messages, stopped by the first failure as an exception stops the caller.\<close>

fun wr_all :: "bytes list \<Rightarrow> acceptance list \<Rightarrow> bool \<times> bytes" where
  "wr_all [] ws = (True, [])"
| "wr_all (m # ms) ws =
     (case wr m ws of (r, out, ws') \<Rightarrow>
        if r = ok then (case wr_all ms ws' of (b, out') \<Rightarrow> (b, out @ out')) else (False, out))"

lemma wr_all_prefix: "wr_all ms ws = (b, out) \<Longrightarrow> prefix out (concat ms) \<and> (b \<longrightarrow> out = concat ms)"
proof (induction ms arbitrary: ws b out)
  case (Cons m ms)
  obtain r o1 ws' where w: "wr m ws = (r, o1, ws')" by (cases "wr m ws") auto
  from wr_prefix [OF this] Cons.prems w Cons.IH [of ws']
  show ?case by (auto split: if_splits prod.splits intro: prefix_order.trans)
qed simp

lemma wr_all_accepting: "accepting ws \<Longrightarrow> wr_all ms ws = (True, concat ms)"
proof (induction ms arbitrary: ws)
  case (Cons m ms)
  from wr_accepting [OF Cons.prems, of m] Cons.IH show ?case by auto
qed simp

end

lemma accepting_Cons: "accepting (w # ws) \<longleftrightarrow> (\<exists>n. w = Accepts n \<and> 0 < n) \<and> accepting ws"
  by (auto simp: accepting_def)

lemma accepting_Nil [simp]: "accepting []"
  by (simp add: accepting_def)

lemma write_some_accepting:
  assumes "accepting ws" "bs \<noteq> []"
  obtains n ws' where "write_some bs ws = (Inr n, ws')" "0 < n" "n \<le> length bs" "accepting ws'"
  using assms by (cases "(bs, ws)" rule: write_some.cases) (auto simp: accepting_Cons)

lemma prefix_take_append:
  "prefix out (drop n bs) \<and> (b \<longrightarrow> out = drop n bs) \<Longrightarrow>
   prefix (take n bs @ out) bs \<and> (b \<longrightarrow> take n bs @ out = bs)"
  by (metis append_take_drop_id same_prefix_prefix)

interpretation handle_writer: exact_writer "write_handle_exact label" "Inr ()" for label
proof
  show "prefix out bs \<and> (r = Inr () \<longrightarrow> out = bs)" if "write_handle_exact label bs ws = (r, out, ws')" for bs ws r out ws'
    using that
  proof (induction label bs ws arbitrary: r out ws' rule: write_handle_exact.induct)
    case (1 label bs ws)
    from "1.prems" consider "r = Inr () \<and> bs = [] \<and> out = []" | e where "r = Inl e" "out = []"
      | n ws1 o1 where "bs \<noteq> []" "write_some (take (64 * 1024) bs) ws = (Inr n, ws1)" "n \<noteq> 0"
          "write_handle_exact label (drop n bs) ws1 = (r, o1, ws')" "out = take n bs @ o1"
      by (subst (asm) write_handle_exact.simps) (auto split: prod.splits sum.splits if_splits)
    then show ?case
    proof cases
      case 3
      show ?thesis unfolding 3(5)
        by (rule prefix_take_append) (rule "1.IH" [OF 3(1) 3(2) [symmetric] refl 3(3,4)])
    qed auto
  qed
  show "\<exists>ws'. write_handle_exact label bs ws = (Inr (), bs, ws') \<and> accepting ws'" if "accepting ws" for bs ws
    using that
  proof (induction label bs ws rule: write_handle_exact.induct)
    case (1 label bs ws)
    show ?case
    proof (cases "bs = []")
      case False
      then have "take (64 * 1024) bs \<noteq> []" by simp
      from write_some_accepting [OF "1.prems" this] obtain n ws1 where
        n: "write_some (take (64 * 1024) bs) ws = (Inr n, ws1)" "0 < n" "accepting ws1" by blast
      with "1.IH" [OF False n(1) [symmetric]] obtain ws2 where
        "write_handle_exact label (drop n bs) ws1 = (Inr (), drop n bs, ws2)" "accepting ws2" by auto
      with n False show ?thesis by (subst write_handle_exact.simps) simp
    qed (simp add: write_handle_exact.simps "1.prems")
  qed
qed

interpretation socket_writer: exact_writer send_exact True
proof
  show "prefix out bs \<and> (r = True \<longrightarrow> out = bs)" if "send_exact bs ws = (r, out, ws')" for bs ws r out ws'
    using that
  proof (induction bs ws arbitrary: r out ws' rule: send_exact.induct)
    case (1 bs ws)
    from "1.prems" consider "r \<and> bs = [] \<and> out = []" | "\<not> r" "out = []"
      | n ws1 o1 where "bs \<noteq> []" "write_some bs ws = (Inr n, ws1)" "n \<noteq> 0"
          "send_exact (drop n bs) ws1 = (r, o1, ws')" "out = take n bs @ o1"
      by (subst (asm) send_exact.simps) (auto split: prod.splits sum.splits if_splits)
    then show ?case
    proof cases
      case 3
      show ?thesis unfolding 3(5)
        by (rule prefix_take_append) (rule "1.IH" [OF 3(1) 3(2) [symmetric] refl 3(3,4)])
    qed auto
  qed
  show "\<exists>ws'. send_exact bs ws = (True, bs, ws') \<and> accepting ws'" if "accepting ws" for bs ws
    using that
  proof (induction bs ws rule: send_exact.induct)
    case (1 bs ws)
    show ?case
    proof (cases "bs = []")
      case False
      from write_some_accepting [OF "1.prems" this] obtain n ws1 where
        n: "write_some bs ws = (Inr n, ws1)" "0 < n" "accepting ws1" by blast
      with "1.IH" [OF False n(1) [symmetric]] obtain ws2 where
        "send_exact (drop n bs) ws1 = (True, drop n bs, ws2)" "accepting ws2" by auto
      with n False show ?thesis by (subst send_exact.simps) simp
    qed (simp add: send_exact.simps "1.prems")
  qed
qed

lemma write_full_prefix:
  "write_full eagain label timeout bs ws = (r, out) \<Longrightarrow> prefix out bs \<and> (r = Inr () \<longrightarrow> out = bs)"
proof (induction ws arbitrary: bs r out)
  case (Cons w ws)
  show ?case
  proof (cases "\<exists>k. w = Written_fd k \<and> k \<noteq> 0 \<and> bs \<noteq> []")
    case True
    then obtain k where k: "w = Written_fd k" "min k (length bs) \<noteq> 0" "bs \<noteq> []" by (auto simp: min_def)
    with Cons.prems have "\<exists>o1. write_full eagain label timeout (drop (min k (length bs)) bs) ws = (r, o1) \<and>
        out = take (min k (length bs)) bs @ o1"
      by (simp only: write_full.simps write_outcome_fd.case Let_def if_False split: prod.splits) blast
    with Cons.IH prefix_take_append show ?thesis by metis
  next
    case False
    with Cons show ?thesis by (cases w) (auto simp: Let_def split: if_splits option.splits)
  qed
qed simp

section \<open>Frames on a stream\<close>

lemma from_le64_le64 [simp]: "from_le64 (le64 v) = v"
proof -
  have "take 4 (le64 v) = le32 (ucast v)" "drop 4 (le64 v) = le32 (ucast (drop_bit 32 v))"
    by (auto simp: le64_def le32_def upt_rec intro!: bit_word_eqI) (auto simp: bit_simps)
  then show ?thesis
    by (auto simp: from_le64_def bit_simps intro!: bit_word_eqI)
qed

lemma parse_header_bytes [simp]: "parse_header (header_bytes h) = h"
  by (simp add: parse_header_def header_bytes_def)

text \<open>The frame a writer means by a type and a payload, and sequences of frames.\<close>

definition frame_of :: "u16 \<Rightarrow> bytes \<Rightarrow> Frame" where
  "frame_of type payload =
     \<lparr>fr_header = \<lparr>fh_type = type, fh_flags = 0, fh_length = of_nat (length payload), fh_sequence = 0\<rparr>,
      fr_payload = payload\<rparr>"

fun write_frames :: "string \<Rightarrow> (u16 \<times> bytes) list \<Rightarrow> acceptance list \<Rightarrow> unit result \<times> bytes \<times> acceptance list" where
  "write_frames label [] ws = (Inr (), [], ws)"
| "write_frames label ((t, p) # ms) ws =
     (case write_handle_frame label t p ws of
        (Inl e, out, ws') \<Rightarrow> (Inl e, out, ws')
      | (Inr _, out, ws') \<Rightarrow>
          (case write_frames label ms ws' of (r, out', ws'') \<Rightarrow> (r, out @ out', ws'')))"

fun read_frames :: "string \<Rightarrow> nat \<Rightarrow> arrival list \<Rightarrow> Frame list result \<times> arrival list" where
  "read_frames label 0 as = (Inr [], as)"
| "read_frames label (Suc n) as =
     (case read_handle_frame label as of
        (Inl e, as') \<Rightarrow> (Inl e, as')
      | (Inr f, as') \<Rightarrow>
          (case read_frames label n as' of
             (Inl e, as'') \<Rightarrow> (Inl e, as'')
           | (Inr fs, as'') \<Rightarrow> (Inr (f # fs), as'')))"

definition framed :: "u16 \<times> bytes \<Rightarrow> bytes" where
  "framed m = header_bytes (fr_header (frame_of (fst m) (snd m))) @ snd m"

lemma frame_bytes_framed: "length p \<le> VDS_FRAME_MAX_PAYLOAD \<Longrightarrow> frame_bytes t p = Inr (framed (t, p))"
  by (simp add: frame_bytes_def framed_def frame_of_def)

lemma read_handle_frame_framed:
  assumes "length p \<le> VDS_FRAME_MAX_PAYLOAD" "pieces as" "arrived as = framed (t, p) @ rest"
  shows "\<exists>as'. read_handle_frame label as = (Inr (frame_of t p), as') \<and> pieces as' \<and> arrived as' = rest"
proof -
  let ?h = "fr_header (frame_of t p)"
  have n: "unat (fh_length ?h) = length p"
    using assms(1) by (simp add: frame_of_def VDS_FRAME_MAX_PAYLOAD_def unsigned_of_nat take_bit_nat_eq_self)
  from handle_reader.rd_exact [OF assms(2), of "header_bytes ?h" "p @ rest" label] assms(3) obtain as1 where
    1: "read_handle_exact label 16 as = (Inr (header_bytes ?h), as1)" "pieces as1" "arrived as1 = p @ rest"
    by (auto simp: framed_def)
  from handle_reader.rd_exact [OF 1(2,3), of label] obtain as2 where
    2: "read_handle_exact label (length p) as1 = (Inr p, as2)" "pieces as2" "arrived as2 = rest" by auto
  from 1 2 n assms(1) show ?thesis
    by (simp add: read_handle_frame_def Let_def) (simp add: frame_of_def)
qed

lemma write_frames_framed:
  "\<forall>m \<in> set ms. length (snd m) \<le> VDS_FRAME_MAX_PAYLOAD \<Longrightarrow> accepting ws \<Longrightarrow>
   \<exists>ws'. write_frames label ms ws = (Inr (), concat (map framed ms), ws')"
proof (induction ms arbitrary: ws)
  case (Cons m ms)
  obtain t p where m: "m = (t, p)" by (cases m)
  from handle_writer.wr_accepting [OF Cons.prems(2), of label "framed m"] obtain ws1 where
    "write_handle_exact label (framed m) ws = (Inr (), framed m, ws1)" "accepting ws1" by blast
  with Cons.IH [of ws1] Cons.prems(1) m show ?case
    by (auto simp: write_handle_frame_def frame_bytes_framed)
qed simp

lemma read_frames_framed:
  "\<forall>m \<in> set ms. length (snd m) \<le> VDS_FRAME_MAX_PAYLOAD \<Longrightarrow> pieces as \<Longrightarrow>
   arrived as = concat (map framed ms) @ rest \<Longrightarrow>
   \<exists>as'. read_frames label (length ms) as = (Inr (map (\<lambda>(t, p). frame_of t p) ms), as') \<and> arrived as' = rest"
proof (induction ms arbitrary: as)
  case (Cons m ms)
  obtain t p where m: "m = (t, p)" by (cases m)
  with Cons.prems read_handle_frame_framed [of p as t "concat (map framed ms) @ rest" label] obtain as1 where
    "read_handle_frame label as = (Inr (frame_of t p), as1)" "pieces as1" "arrived as1 = concat (map framed ms) @ rest"
    by auto
  with Cons.IH [of as1] Cons.prems(1) m show ?case by auto
qed simp

section \<open>Properties\<close>

text \<open>
  C24. Frames survive the stream: frames within the size limit, written one after the other while the
  system takes any positive number of bytes per call, are read back as the same sequence of frames
  from the bytes in whatever pieces these arrive, and exactly the bytes behind them are left.
\<close>

theorem frames_through_stream:
  assumes "\<forall>m \<in> set ms. length (snd m) \<le> VDS_FRAME_MAX_PAYLOAD" "accepting ws"
    and "pieces as" "arrived as = fst (snd (write_frames wlabel ms ws)) @ rest"
  shows "fst (write_frames wlabel ms ws) = Inr () \<and>
    (\<exists>as'. read_frames rlabel (length ms) as = (Inr (map (\<lambda>(t, p). frame_of t p) ms), as') \<and> arrived as' = rest)"
  using write_frames_framed [OF assms(1,2), of wlabel] read_frames_framed [OF assms(1,3), of rest rlabel] assms(4)
  by fastforce

theorem frames_through_stream_witness:
  "fst (read_frames ''r'' 2 [Piece [5, 0, 0, 0, 1], Piece (replicate 11 0), Piece (9 # 1 # replicate 15 0)]) =
   Inr [frame_of 5 [9], frame_of 1 []]"
proof -
  let ?ms = "[(5, [9]), (1, [])] :: (u16 \<times> bytes) list"
  let ?as = "[Piece [5, 0, 0, 0, 1], Piece (replicate 11 0), Piece (9 # 1 # replicate 15 0)]"
  have b: "framed (5, [9]) = [5, 0, 0, 0, 1] @ replicate 11 0 @ [9]" "framed (1, []) = 1 # replicate 15 0"
    by code_simp+
  have "fst (snd (write_frames ''w'' ?ms [Accepts 3])) = [5, 0, 0, 0, 1] @ replicate 11 0 @ [9, 1] @ replicate 15 0"
    using write_frames_framed [of ?ms "[Accepts 3]" "''w''"] b
    by (auto simp: VDS_FRAME_MAX_PAYLOAD_def accepting_def simp del: write_frames.simps)
  then have "arrived ?as = fst (snd (write_frames ''w'' ?ms [Accepts 3])) @ []" by (simp del: write_frames.simps)
  moreover have "accepting [Accepts 3]" "pieces ?as" by (simp_all add: accepting_def)
  moreover have "\<forall>m \<in> set ?ms. length (snd m) \<le> VDS_FRAME_MAX_PAYLOAD" by (simp add: VDS_FRAME_MAX_PAYLOAD_def)
  ultimately show ?thesis
    using frames_through_stream [of ?ms "[Accepts 3]" ?as "''w''" "[]" "''r''"] by (auto simp: numeral_2_eq_2 simp del: write_frames.simps read_frames.simps)
qed

end
