(* ===== verification/Queues.thy ===== *)
theory Queues
  imports VdsPrelude
begin

text \<open>
  Queues with a limit that give up their oldest elements. The daemons and the USB/IP server bound
  every queue this way: input frames, microphone samples, audio chunks.
\<close>

text \<open>
  The contract of a queue that drops its oldest elements beyond a limit, and what follows from it
  for any sequence of insertions: the queue holds the last elements of everything inserted.
\<close>

definition newest :: "nat \<Rightarrow> 'a list \<Rightarrow> 'a list" where
  "newest cap zs = drop (length zs - cap) zs"

lemma newest_all: "length zs \<le> cap \<Longrightarrow> newest cap zs = zs"
  by (simp add: newest_def)

lemma length_newest [simp]: "length (newest cap zs) = min cap (length zs)"
  by (simp add: newest_def min_def)

lemma suffix_newest: "suffix (newest cap zs) zs"
  by (simp add: newest_def suffix_drop)

lemma newest_unique: "suffix ys zs \<Longrightarrow> length ys = min cap (length zs) \<Longrightarrow> ys = newest cap zs"
  using suffix_newest [of cap zs] by (metis length_newest suffix_length_suffix order_refl suffix_order.antisym)

lemma newest_append: "newest cap (newest cap zs @ ws) = newest cap (zs @ ws)"
proof (rule newest_unique)
  have "suffix (newest cap zs @ ws) (zs @ ws)" by (simp add: suffix_newest)
  then show "suffix (newest cap (newest cap zs @ ws)) (zs @ ws)"
    using suffix_newest suffix_order.trans by blast
qed (simp add: min_def)

locale keep_newest =
  fixes cap :: nat and push :: "'a list \<Rightarrow> 'a list \<Rightarrow> 'a list"
  assumes push_suffix: "length q \<le> cap \<Longrightarrow> suffix (push q xs) (q @ xs)"
    and push_length: "length q \<le> cap \<Longrightarrow> length (push q xs) = min cap (length (q @ xs))"
begin

lemma push_eq: "length q \<le> cap \<Longrightarrow> push q xs = newest cap (q @ xs)"
  by (rule newest_unique) (rule push_suffix push_length; assumption)+

lemma push_bound: "length q \<le> cap \<Longrightarrow> length (push q xs) \<le> cap"
  by (simp add: push_length)

lemma push_room: "length (q @ xs) \<le> cap \<Longrightarrow> push q xs = q @ xs"
  using push_eq [of q xs] newest_all [of "q @ xs" cap] by simp

lemma push_all: "length q \<le> cap \<Longrightarrow> fold (\<lambda>xs q. push q xs) xss q = newest cap (q @ concat xss)"
proof (induction xss arbitrary: q)
  case (Cons xs xss)
  with Cons.IH [OF push_bound [OF Cons.prems, of xs]] push_eq [OF Cons.prems, of xs] show ?case
    by (simp add: newest_append)
qed (simp add: newest_all)

end

text \<open>Queues that are filled one element at a time, by either form of the loop body.\<close>

lemma newest_snoc:
  "length q \<le> cap \<Longrightarrow> newest cap (q @ [x]) = (if length q < cap then q @ [x] else tl (q @ [x]))"
  by (cases q) (auto simp: newest_def drop_Suc)

lemma keep_newest_fold:
  assumes one: "\<And>q x. length q \<le> cap \<Longrightarrow> push1 q x = newest cap (q @ [x])"
  shows "keep_newest cap (\<lambda>q xs. fold (\<lambda>x q. push1 q x) xs q)"
proof -
  have "fold (\<lambda>x q. push1 q x) xs q = newest cap (q @ xs)" if "length q \<le> cap" for q xs
    using that
  proof (induction xs arbitrary: q)
    case (Cons x xs)
    then show ?case using one [OF Cons.prems, of x] newest_append [of cap "q @ [x]" xs] by simp
  qed (simp add: newest_all)
  then show ?thesis by unfold_locales (simp_all add: suffix_newest)
qed

end
