(* ===== verification/UsbipPort.thy ===== *)
theory UsbipPort
  imports Gain FrameIo Queues
begin

text \<open>
  The state of a virtual port of the USB/IP server and the operations its threads perform on it
  under their locks (\<open>VirtualPort::Impl\<close> of \<open>src/platform/win32/vds_usbip.cc\<close>): the
  reader that distributes the frames of the daemon, the jitter buffer of the microphone, the waits
  for input and feature frames, and the pacer that holds back the replies of isochronous transfers.
  Each operation is the code between taking and releasing a lock; the steps of the threads
  interleave as the port's step relation in the theory of the session says. Times are nanoseconds
  of the steady clock. The multimap of paced replies is a list in due order.
\<close>

section \<open>State\<close>

record PacedReply =
  pr_client :: nat
  pr_bytes :: bytes

record VirtualPort =
  up_profile :: u32
  hid_in_queue :: "Frame list"
  feature_reply_queue :: "Frame list"
  mic_ring_buffer :: bytes
  mic_primed :: bool
  mic_pull_count :: u64
  mic_underrun_count :: u64
  mic_zero_pad_bytes :: u64
  mic_received_bytes :: u64
  mic_requested_bytes :: u64
  paced_replies :: "(int \<times> PacedReply) list"
  iso_out_next_due :: int
  iso_in_next_due :: int
  speaker_gain_q15 :: int
  fu_volume_db256 :: int
  fu_muted :: bool
  mic_gain :: f32
  attached :: bool
  stop_requested :: bool

definition new_port :: "u32 \<Rightarrow> f32 \<Rightarrow> VirtualPort" where
  "new_port profile gain =
     \<lparr>up_profile = profile, hid_in_queue = [], feature_reply_queue = [], mic_ring_buffer = [],
      mic_primed = False, mic_pull_count = 0, mic_underrun_count = 0, mic_zero_pad_bytes = 0,
      mic_received_bytes = 0, mic_requested_bytes = 0, paced_replies = [], iso_out_next_due = 0,
      iso_in_next_due = 0, speaker_gain_q15 = 2 ^ 15, fu_volume_db256 = 0, fu_muted = False,
      mic_gain = gain, attached = False, stop_requested = False\<rparr>"

definition kMicBytesPerMs :: nat where "kMicBytesPerMs = 192"
definition kMicPrimeBytes :: nat where "kMicPrimeBytes = 40 * kMicBytesPerMs"
definition kMicMaxBufferBytes :: nat where "kMicMaxBufferBytes = 120 * kMicBytesPerMs"

lemmas mic_consts = kMicBytesPerMs_def kMicPrimeBytes_def kMicMaxBufferBytes_def

section \<open>The reader\<close>

definition push_hid :: "Frame list \<Rightarrow> Frame \<Rightarrow> Frame list" where
  "push_hid q f = (let q' = q @ [f] in if length q' > 8 then tl q' else q')"

definition push_mic :: "bytes \<Rightarrow> bytes \<Rightarrow> bytes" where
  "push_mic buffer payload =
     (let b = buffer @ payload in
      if length b > kMicMaxBufferBytes then drop (length b - kMicMaxBufferBytes) b else b)"

text \<open>
  One frame under \<open>demux_mutex\<close>; \<open>None\<close> is the undefined conversion of a boost with
  not-a-number.
\<close>

definition demux_frame :: "Frame \<Rightarrow> VirtualPort \<Rightarrow> VirtualPort option" where
  "demux_frame f p =
     (if fh_type (fr_header f) = VDS_FRAME_USB_HID_IN
      then Some (p\<lparr>hid_in_queue := push_hid (hid_in_queue p) f\<rparr>)
      else if fh_type (fr_header f) = VDS_FRAME_USB_FEATURE_REPLY
      then Some (p\<lparr>feature_reply_queue := feature_reply_queue p @ [f]\<rparr>)
      else if fh_type (fr_header f) = VDS_FRAME_USB_AUDIO_IN
      then map_option
        (\<lambda>payload. p\<lparr>mic_received_bytes := mic_received_bytes p + of_nat (length (fr_payload f)),
                     mic_ring_buffer := push_mic (mic_ring_buffer p) payload\<rparr>)
        (apply_pcm_gain_i16 (fr_payload f) (mic_gain p))
      else Some p)"

fun demux_frames :: "Frame list \<Rightarrow> VirtualPort \<Rightarrow> VirtualPort option" where
  "demux_frames [] p = Some p"
| "demux_frames (f # fs) p = Option.bind (demux_frame f p) (demux_frames fs)"

section \<open>Waits\<close>

text \<open>
  A wait returns at once when its queue holds a frame or the port is stopping; otherwise the lock
  is released and the reader adds the frames \<open>fs\<close> before the wait ends, by their notification
  or by the timeout.
\<close>

definition wait_for_hid_in_frame :: "Frame list \<Rightarrow> VirtualPort \<Rightarrow> (Frame option \<times> VirtualPort) option" where
  "wait_for_hid_in_frame fs p =
     map_option
       (\<lambda>q. case hid_in_queue q of [] \<Rightarrow> (None, q) | f # rest \<Rightarrow> (Some f, q\<lparr>hid_in_queue := rest\<rparr>))
       (if hid_in_queue p \<noteq> [] \<or> stop_requested p then Some p else demux_frames fs p)"

definition wait_for_feature_reply :: "Frame list \<Rightarrow> VirtualPort \<Rightarrow> (Frame option \<times> VirtualPort) option" where
  "wait_for_feature_reply fs p =
     map_option
       (\<lambda>q. case feature_reply_queue q of [] \<Rightarrow> (None, q)
            | f # rest \<Rightarrow> (Some f, q\<lparr>feature_reply_queue := rest\<rparr>))
       (if feature_reply_queue p \<noteq> [] \<or> stop_requested p then Some p else demux_frames fs p)"

section \<open>The jitter buffer\<close>

text \<open>
  A \<open>size_t\<close> of \<open>2 ^ 63\<close> or more, which a negative request becomes, is beyond the size of a
  vector and throws.
\<close>

definition vector_limit :: nat where "vector_limit = 2 ^ 63 - 1"

definition vector_too_long :: exn where "vector_too_long = Runtime_error ''vector too long''"

definition take_mic_bytes :: "nat \<Rightarrow> VirtualPort \<Rightarrow> bytes result \<times> VirtualPort" where
  "take_mic_bytes count p0 =
     (let p1 = p0\<lparr>mic_pull_count := mic_pull_count p0 + 1,
                   mic_requested_bytes := mic_requested_bytes p0 + of_nat count\<rparr>;
          buf = mic_ring_buffer p1 in
      if \<not> mic_primed p1 \<and> length buf < kMicPrimeBytes then
        (if vector_limit < count then Inl vector_too_long else Inr (replicate count 0), p1)
      else
        (let p2 = p1\<lparr>mic_primed := True\<rparr> in
         if length buf \<ge> count then (Inr (take count buf), p2\<lparr>mic_ring_buffer := drop count buf\<rparr>)
         else
           (let p3 = p2\<lparr>mic_zero_pad_bytes := mic_zero_pad_bytes p2 + of_nat (count - length buf)\<rparr> in
            if vector_limit < count then (Inl vector_too_long, p3)
            else
              (Inr (buf @ replicate (count - length buf) 0),
               p3\<lparr>mic_ring_buffer := [], mic_primed := False,
                   mic_underrun_count := mic_underrun_count p3 + 1\<rparr>))))"

definition flush_mic :: "VirtualPort \<Rightarrow> VirtualPort" where
  "flush_mic p = p\<lparr>mic_ring_buffer := [], mic_primed := False\<rparr>"

section \<open>The pacer\<close>

definition millisecond :: int where "millisecond = 1000000"

text \<open>\<open>multimap::emplace\<close>: behind the entries with the same key.\<close>

fun emplace :: "int \<Rightarrow> 'a \<Rightarrow> (int \<times> 'a) list \<Rightarrow> (int \<times> 'a) list" where
  "emplace due r [] = [(due, r)]"
| "emplace due r ((d, x) # xs) = (if due < d then (due, r) # (d, x) # xs else (d, x) # emplace due r xs)"

definition next_anchor :: "int \<Rightarrow> int \<Rightarrow> int" where
  "next_anchor now anchor = (if anchor = 0 \<or> anchor < now - 250 * millisecond then now else anchor)"

definition pace_reply :: "bool \<Rightarrow> int \<Rightarrow> int \<Rightarrow> PacedReply \<Rightarrow> VirtualPort \<Rightarrow> VirtualPort" where
  "pace_reply out now packets r p =
     (let due = next_anchor now (if out then iso_out_next_due p else iso_in_next_due p);
          p' = (if out then p\<lparr>iso_out_next_due := due + packets * millisecond\<rparr>
                else p\<lparr>iso_in_next_due := due + packets * millisecond\<rparr>) in
      p'\<lparr>paced_replies := emplace due r (paced_replies p')\<rparr>)"

text \<open>One round of \<open>iso_pacer_loop\<close> at time \<open>now\<close>: the reply to send, if one is due.\<close>

definition iso_pacer_round :: "int \<Rightarrow> VirtualPort \<Rightarrow> (PacedReply \<times> VirtualPort) option" where
  "iso_pacer_round now p =
     (if stop_requested p then None
      else
        (case paced_replies p of
           [] \<Rightarrow> None
         | (due, r) # rest \<Rightarrow> if now < due then None else Some (r, p\<lparr>paced_replies := rest\<rparr>)))"

definition end_session :: "VirtualPort \<Rightarrow> VirtualPort" where
  "end_session p = p\<lparr>attached := False, paced_replies := [], iso_out_next_due := 0, iso_in_next_due := 0\<rparr>"

section \<open>Volume\<close>

definition update_speaker_gain :: "(int \<Rightarrow> int \<times> int) \<Rightarrow> VirtualPort \<Rightarrow> VirtualPort" where
  "update_speaker_gain pow10 p =
     p\<lparr>speaker_gain_q15 := speaker_gain_for pow10 (fu_muted p) (fu_volume_db256 p)\<rparr>"

section \<open>Buffers that keep the newest\<close>

interpretation hid_queue: keep_newest 8 "\<lambda>q fs. fold (\<lambda>f q. push_hid q f) fs q"
  by (rule keep_newest_fold) (simp add: push_hid_def Let_def newest_snoc)

lemma push_mic_eq: "push_mic buffer payload = newest kMicMaxBufferBytes (buffer @ payload)"
  by (simp add: push_mic_def Let_def newest_def)

interpretation mic_buffer: keep_newest kMicMaxBufferBytes push_mic
  by unfold_locales (simp_all add: push_mic_eq suffix_newest)

section \<open>The microphone stream\<close>

text \<open>The audio a pull hands out; the rest of its reply is silence.\<close>

definition mic_data :: "nat \<Rightarrow> VirtualPort \<Rightarrow> bytes" where
  "mic_data count p =
     (if \<not> mic_primed p \<and> length (mic_ring_buffer p) < kMicPrimeBytes then [] else take count (mic_ring_buffer p))"

lemma take_mic_output:
  assumes "count \<le> vector_limit"
  shows "fst (take_mic_bytes count p) = Inr (mic_data count p @ replicate (count - length (mic_data count p)) 0)"
    and "mic_ring_buffer p = mic_data count p @ mic_ring_buffer (snd (take_mic_bytes count p))"
  using assms by (auto simp: take_mic_bytes_def mic_data_def Let_def)

lemma take_mic_primed:
  "mic_primed (snd (take_mic_bytes count p)) \<Longrightarrow>
   length (mic_data count p) = min count (length (mic_ring_buffer p)) \<and>
   (count \<le> vector_limit \<longrightarrow> count \<le> length (mic_ring_buffer p))"
  by (auto simp: take_mic_bytes_def mic_data_def Let_def split: if_splits)

lemma take_mic_frame:
  "hid_in_queue (snd (take_mic_bytes count p)) = hid_in_queue p"
  "feature_reply_queue (snd (take_mic_bytes count p)) = feature_reply_queue p"
  "paced_replies (snd (take_mic_bytes count p)) = paced_replies p"
  "speaker_gain_q15 (snd (take_mic_bytes count p)) = speaker_gain_q15 p"
  "fu_volume_db256 (snd (take_mic_bytes count p)) = fu_volume_db256 p"
  "mic_gain (snd (take_mic_bytes count p)) = mic_gain p"
  by (simp_all add: take_mic_bytes_def Let_def)

text \<open>Frames of the daemon and pulls of the host, in any order; the results of the pulls.\<close>

datatype mic_event = Mic_frame bytes | Mic_pull nat

fun run_mic :: "mic_event list \<Rightarrow> VirtualPort \<Rightarrow> (bytes result list \<times> VirtualPort) option" where
  "run_mic [] p = Some ([], p)"
| "run_mic (Mic_frame payload # es) p =
     Option.bind (demux_frame (frame_of VDS_FRAME_USB_AUDIO_IN payload) p) (run_mic es)"
| "run_mic (Mic_pull n # es) p =
     (case take_mic_bytes n p of (r, p') \<Rightarrow> map_option (\<lambda>(rs, q). (r # rs, q)) (run_mic es p'))"

fun boosted :: "f32 \<Rightarrow> mic_event list \<Rightarrow> bytes" where
  "boosted g [] = []"
| "boosted g (Mic_frame payload # es) = the (apply_pcm_gain_i16 payload g) @ boosted g es"
| "boosted g (Mic_pull n # es) = boosted g es"

fun pulls :: "mic_event list \<Rightarrow> nat list" where
  "pulls [] = []"
| "pulls (Mic_frame payload # es) = pulls es"
| "pulls (Mic_pull n # es) = n # pulls es"

definition padded :: "nat \<Rightarrow> bytes \<Rightarrow> bytes result" where
  "padded n d = Inr (d @ replicate (n - length d) 0)"

lemma demux_audio_in:
  assumes "demux_frame (frame_of VDS_FRAME_USB_AUDIO_IN payload) p = Some q"
  obtains b where "apply_pcm_gain_i16 payload (mic_gain p) = Some b"
    "mic_ring_buffer q = push_mic (mic_ring_buffer p) b" "mic_gain q = mic_gain p" "mic_primed q = mic_primed p"
  using assms by (auto simp: demux_frame_def frame_of_def frame_types)

lemma subseq_newest: "subseq (newest cap zs) zs"
  using suffix_newest suffix_imp_subseq by blast

text \<open>What a run delivers and keeps, with the audio \<open>ds\<close> of each pull.\<close>

lemma run_mic_stream:
  "run_mic es p = Some (rs, q) \<Longrightarrow> \<forall>n \<in> set (pulls es). n \<le> vector_limit \<Longrightarrow>
   \<exists>ds. rs = map2 padded (pulls es) ds \<and> length ds = length (pulls es) \<and>
     list_all2 (\<lambda>n d. length d \<le> n) (pulls es) ds \<and>
     subseq (concat ds @ mic_ring_buffer q) (mic_ring_buffer p @ boosted (mic_gain p) es) \<and>
     (length (mic_ring_buffer p @ boosted (mic_gain p) es) \<le> kMicMaxBufferBytes \<longrightarrow>
        concat ds @ mic_ring_buffer q = mic_ring_buffer p @ boosted (mic_gain p) es)"
proof (induction es arbitrary: p rs rule: list.induct)
  case (Cons e es)
  show ?case
  proof (cases e)
    case (Mic_frame payload)
    with Cons.prems obtain p1 where p1: "demux_frame (frame_of VDS_FRAME_USB_AUDIO_IN payload) p = Some p1"
      "run_mic es p1 = Some (rs, q)" by (auto simp: bind_eq_Some_conv)
    from demux_audio_in [OF p1(1)] obtain b where b: "apply_pcm_gain_i16 payload (mic_gain p) = Some b"
      "mic_ring_buffer p1 = push_mic (mic_ring_buffer p) b" "mic_gain p1 = mic_gain p" by metis
    let ?R = "boosted (mic_gain p) es"
    have sub: "subseq (mic_ring_buffer p1 @ ?R) (mic_ring_buffer p @ b @ ?R)"
      using subseq_newest [of kMicMaxBufferBytes "mic_ring_buffer p @ b"]
      by (simp add: b(2) push_mic_eq append_assoc [symmetric] del: append_assoc)
    have room: "mic_ring_buffer p1 = mic_ring_buffer p @ b" if "length (mic_ring_buffer p @ b @ ?R) \<le> kMicMaxBufferBytes"
      using that by (simp add: b(2) push_mic_eq newest_all)
    from Cons.IH [OF p1(2)] Cons.prems(2) Mic_frame obtain ds where
      ds: "rs = map2 padded (pulls es) ds" "length ds = length (pulls es)" "list_all2 (\<lambda>n d. length d \<le> n) (pulls es) ds"
      "subseq (concat ds @ mic_ring_buffer q) (mic_ring_buffer p1 @ ?R)"
      "length (mic_ring_buffer p1 @ ?R) \<le> kMicMaxBufferBytes \<longrightarrow> concat ds @ mic_ring_buffer q = mic_ring_buffer p1 @ ?R"
      by (auto simp: b(3))
    have e: "pulls (e # es) = pulls es" "boosted (mic_gain p) (e # es) = b @ ?R" using Mic_frame b(1) by simp_all
    from subseq_order.trans [OF ds(4) sub] ds room show ?thesis unfolding e by (intro exI [of _ ds]) simp
  next
    case (Mic_pull n)
    obtain r p1 where t: "take_mic_bytes n p = (r, p1)" by (cases "take_mic_bytes n p")
    from Cons.prems t Mic_pull obtain rs1 where r: "run_mic es p1 = Some (rs1, q)" "rs = r # rs1" by auto
    have n: "n \<le> vector_limit" using Cons.prems(2) Mic_pull by simp
    obtain d where d: "r = padded n d" "mic_ring_buffer p = d @ mic_ring_buffer p1" "length d \<le> n" "mic_gain p1 = mic_gain p"
    proof
      show "r = padded n (mic_data n p)" "mic_ring_buffer p = mic_data n p @ mic_ring_buffer p1" "mic_gain p1 = mic_gain p"
        using take_mic_output [OF n, of p] t take_mic_frame(6) [of n p] by (simp_all add: padded_def)
      show "length (mic_data n p) \<le> n" by (simp add: mic_data_def)
    qed
    let ?R = "boosted (mic_gain p) es"
    have e: "pulls (e # es) = n # pulls es" "boosted (mic_gain p) (e # es) = ?R" using Mic_pull by simp_all
    from Cons.IH [OF r(1)] Cons.prems(2) obtain ds where
      ds: "rs1 = map2 padded (pulls es) ds" "length ds = length (pulls es)" "list_all2 (\<lambda>n d. length d \<le> n) (pulls es) ds"
      "subseq (concat ds @ mic_ring_buffer q) (mic_ring_buffer p1 @ ?R)"
      "length (mic_ring_buffer p1 @ ?R) \<le> kMicMaxBufferBytes \<longrightarrow> concat ds @ mic_ring_buffer q = mic_ring_buffer p1 @ ?R"
      unfolding e d(4) by auto
    have "subseq (d @ concat ds @ mic_ring_buffer q) (d @ mic_ring_buffer p1 @ ?R)"
      using ds(4) by (simp add: subseq_append' del: append_assoc)
    with ds d(1,3) r(2) show ?thesis unfolding e d(2) by (intro exI [of _ "d # ds"]) simp
  qed
qed simp

section \<open>Pacing\<close>

lemma emplace_set [simp]: "set (emplace due r xs) = insert (due, r) (set xs)"
  by (induction due r xs rule: emplace.induct) auto

lemma emplace_sorted: "sorted (map fst xs) \<Longrightarrow> sorted (map fst (emplace due r xs))"
  by (induction due r xs rule: emplace.induct) auto

lemma emplace_mset: "length (emplace due r xs) = Suc (length xs)"
  by (induction due r xs rule: emplace.induct) auto

text \<open>An entry is placed behind all entries that are not due later.\<close>

lemma emplace_split:
  "sorted (map fst xs) \<Longrightarrow>
   emplace due r xs = filter (\<lambda>x. fst x \<le> due) xs @ (due, r) # filter (\<lambda>x. due < fst x) xs"
proof (induction due r xs rule: emplace.induct)
  case (2 due r d x xs)
  show ?case
  proof (cases "due < d")
    case True
    with 2(2) have "\<forall>y \<in> set xs. due < fst y" by fastforce
    then have "filter (\<lambda>y. fst y \<le> due) xs = []" "filter (\<lambda>y. due < fst y) xs = xs"
      by (auto simp: filter_empty_conv)
    with True show ?thesis by simp
  qed (use 2 in auto)
qed simp

text \<open>Rounds of the pacer at one moment, while the port is not stopping.\<close>

fun pacer_rounds :: "nat \<Rightarrow> int \<Rightarrow> VirtualPort \<Rightarrow> PacedReply list \<times> VirtualPort" where
  "pacer_rounds 0 now p = ([], p)"
| "pacer_rounds (Suc n) now p =
     (case iso_pacer_round now p of
        None \<Rightarrow> ([], p)
      | Some (r, p') \<Rightarrow> (case pacer_rounds n now p' of (rs, q) \<Rightarrow> (r # rs, q)))"

lemma pacer_rounds_due:
  "\<not> stop_requested p \<Longrightarrow> sorted (map fst (paced_replies p)) \<Longrightarrow> length (paced_replies p) \<le> n \<Longrightarrow>
   pacer_rounds n now p =
     (map snd (filter (\<lambda>x. fst x \<le> now) (paced_replies p)),
      p\<lparr>paced_replies := filter (\<lambda>x. now < fst x) (paced_replies p)\<rparr>)"
proof (induction n arbitrary: p)
  case (Suc n)
  show ?case
  proof (cases "paced_replies p")
    case (Cons e rest)
    obtain due r where e: "e = (due, r)" by (cases e)
    show ?thesis
    proof (cases "now < due")
      case True
      with Suc.prems(2) Cons e have "\<forall>y \<in> set rest. now < fst y" by fastforce
      then have "filter (\<lambda>y. fst y \<le> now) rest = []" "filter (\<lambda>y. now < fst y) rest = rest"
        by (auto simp: filter_empty_conv)
      with True Cons e show ?thesis by (simp add: iso_pacer_round_def)
    next
      case False
      with Suc.IH [of "p\<lparr>paced_replies := rest\<rparr>"] Suc.prems Cons e show ?thesis
        by (simp add: iso_pacer_round_def)
    qed
  qed (use Suc.prems in \<open>simp add: iso_pacer_round_def\<close>)
qed simp

section \<open>Properties\<close>

text \<open>
  The microphone stream keeps its order: however frames of the daemon and pulls of the host
  interleave, every pull returns exactly as many bytes as requested, some audio followed by
  silence; the audio handed out so far followed by what is still buffered is a subsequence of the
  boosted audio received, and is all of it, byte for byte, as long as the buffer limit is not
  exceeded; the buffer never exceeds its limit.
\<close>

theorem mic_stream_order:
  assumes "run_mic es p = Some (rs, q)" "\<forall>n \<in> set (pulls es). n \<le> vector_limit"
    and "length (mic_ring_buffer p) \<le> kMicMaxBufferBytes"
  shows "\<exists>ds. rs = map2 padded (pulls es) ds \<and> length ds = length (pulls es) \<and>
     list_all2 (\<lambda>n d. length d \<le> n) (pulls es) ds \<and> length (mic_ring_buffer q) \<le> kMicMaxBufferBytes \<and>
     subseq (concat ds @ mic_ring_buffer q) (mic_ring_buffer p @ boosted (mic_gain p) es) \<and>
     (length (mic_ring_buffer p @ boosted (mic_gain p) es) \<le> kMicMaxBufferBytes \<longrightarrow>
        concat ds @ mic_ring_buffer q = mic_ring_buffer p @ boosted (mic_gain p) es)"
proof -
  have "length (mic_ring_buffer q) \<le> kMicMaxBufferBytes"
    using assms(1,3)
  proof (induction es arbitrary: p rs)
    case (Cons e es)
    show ?case
    proof (cases e)
      case (Mic_frame payload)
      with Cons.prems obtain p1 where "demux_frame (frame_of VDS_FRAME_USB_AUDIO_IN payload) p = Some p1"
        "run_mic es p1 = Some (rs, q)" by (auto simp: bind_eq_Some_conv)
      with Cons.IH demux_audio_in mic_buffer.push_bound [OF Cons.prems(2)] show ?thesis by metis
    next
      case (Mic_pull n)
      have "length (mic_ring_buffer (snd (take_mic_bytes n p))) \<le> length (mic_ring_buffer p)"
        by (simp add: take_mic_bytes_def Let_def)
      with Cons Mic_pull show ?thesis by (fastforce split: prod.splits)
    qed
  qed simp
  with run_mic_stream [OF assms(1,2)] show ?thesis by blast
qed

theorem mic_stream_order_witness:
  "\<exists>rs q ds. run_mic [Mic_frame [1, 2], Mic_pull 3] (new_port 0 (F32 1 0)) = Some (rs, q) \<and>
     rs = map2 padded [3] ds \<and> concat ds @ mic_ring_buffer q = [1, 2]"
proof -
  let ?p = "new_port 0 (F32 1 0)" and ?es = "[Mic_frame [1, 2], Mic_pull 3]"
  have b: "apply_pcm_gain_i16 [1, 2] (F32 1 0) = Some [1, 2]" by (simp add: apply_pcm_gain_i16_def f32_eq_def)
  then have "\<exists>rs q. run_mic ?es ?p = Some (rs, q)"
    by (simp add: demux_frame_def frame_of_def frame_types new_port_def split: prod.splits)
  then obtain rs q where run: "run_mic ?es ?p = Some (rs, q)" by blast
  have e: "\<forall>n \<in> set (pulls ?es). n \<le> vector_limit" "pulls ?es = [3]" "mic_ring_buffer ?p @ boosted (mic_gain ?p) ?es = [1, 2]"
    "length [1, 2 :: u8] \<le> kMicMaxBufferBytes" "length (mic_ring_buffer ?p) \<le> kMicMaxBufferBytes"
    by (simp_all add: vector_limit_def new_port_def b mic_consts)
  from mic_stream_order [OF run e(1) e(5)] run show ?thesis unfolding e(2,3) using e(4) by blast
qed

text \<open>
  The pacer sends what is due and only that, in the order of the due times: at any moment, as
  many rounds as there are waiting replies send exactly the replies whose time has come, earliest
  first, and leave the others, so a reply that is due is never held back by one that is due later.
\<close>

theorem pacer_sends_all_due:
  assumes "\<not> stop_requested p" "sorted (map fst (paced_replies p))" "length (paced_replies p) \<le> n"
  shows "fst (pacer_rounds n now p) = map snd (filter (\<lambda>x. fst x \<le> now) (paced_replies p)) \<and>
    paced_replies (snd (pacer_rounds n now p)) = filter (\<lambda>x. now < fst x) (paced_replies p) \<and>
    sorted (map fst (paced_replies (snd (pacer_rounds n now p))))"
  using pacer_rounds_due [OF assms, of now] assms(2) by (simp add: sorted_filter)

theorem pacer_sends_all_due_witness:
  "fst (pacer_rounds 2 50 ((new_port 0 (F32 1 0))\<lparr>paced_replies :=
     emplace 10 \<lparr>pr_client = 1, pr_bytes = [1]\<rparr> (emplace 90 \<lparr>pr_client = 1, pr_bytes = [2]\<rparr> [])\<rparr>)) =
   [\<lparr>pr_client = 1, pr_bytes = [1]\<rparr>]"
  by (subst pacer_sends_all_due [THEN conjunct1]) (simp_all add: new_port_def)

text \<open>
  Replies are paced in real time: the first reply of a stream is due at once, and each further
  reply of the same direction is due exactly as many milliseconds after the one before as that one
  had packets, unless the stream paused for more than a quarter of a second, when it starts anew;
  the other direction keeps its own clock.
\<close>

theorem pacing_real_time:
  assumes "p1 = pace_reply out now1 n1 r1 p" "p2 = pace_reply out now2 n2 r2 p1"
    and "due1 = next_anchor now1 (if out then iso_out_next_due p else iso_in_next_due p)"
    and "due1 + n1 * millisecond \<noteq> 0"
  shows "(due1, r1) \<in> set (paced_replies p1) \<and>
    (if due1 + n1 * millisecond < now2 - 250 * millisecond then (now2, r2) \<in> set (paced_replies p2)
     else (due1 + n1 * millisecond, r2) \<in> set (paced_replies p2)) \<and>
    (if out then iso_in_next_due p2 = iso_in_next_due p else iso_out_next_due p2 = iso_out_next_due p) \<and>
    now1 - 250 * millisecond \<le> due1"
  using assms by (cases out) (auto simp: pace_reply_def Let_def next_anchor_def millisecond_def)

theorem pacing_real_time_witness:
  "(15000000, \<lparr>pr_client = 1, pr_bytes = [2]\<rparr>) \<in> set (paced_replies
     (pace_reply True 6000000 10 \<lparr>pr_client = 1, pr_bytes = [2]\<rparr>
       (pace_reply True 5000000 10 \<lparr>pr_client = 1, pr_bytes = [1]\<rparr> (new_port 0 (F32 1 0)))))"
  using pacing_real_time [OF refl refl refl, where out = True and ?now1.0 = 5000000 and ?n1.0 = 10 and ?now2.0 = 6000000 and
      ?n2.0 = 10 and p = "new_port 0 (F32 1 0)" and ?r1.0 = "\<lparr>pr_client = 1, pr_bytes = [1]\<rparr>" and
      ?r2.0 = "\<lparr>pr_client = 1, pr_bytes = [2]\<rparr>"]
  by (simp add: next_anchor_def new_port_def millisecond_def)

end
