(* ===== verification/UsbDescriptors.thy ===== *)
theory UsbDescriptors
  imports Protocol
begin

text \<open>
  The USB identity of the virtual controllers: the descriptor tables of
  \<open>include/vds/ds5_usb.h\<close> for the DualSense and the DualSense Edge, and the selection and
  string descriptors of \<open>src/platform/win32/vds_usbip.cc\<close>. The lemmas read the tables the
  way a USB host does: the chain of descriptors of a configuration, its endpoints,
  and the sizes a HID descriptor announces.
\<close>

section \<open>Tables\<close>

definition VDS_USB_MANUFACTURER_STRING :: string where
  "VDS_USB_MANUFACTURER_STRING = ''Sony Interactive Entertainment''"

definition VDS_DS5_USB_PRODUCT_STRING :: string where
  "VDS_DS5_USB_PRODUCT_STRING = ''DualSense Wireless Controller''"

definition VDS_DSE_USB_PRODUCT_STRING :: string where
  "VDS_DSE_USB_PRODUCT_STRING = ''DualSense Edge Wireless Controller''"

definition VDS_USB_DEVICE_BCD :: u16 where "VDS_USB_DEVICE_BCD = 0x0100"
definition VDS_USB_NUM_CONFIGURATIONS :: u8 where "VDS_USB_NUM_CONFIGURATIONS = 1"
definition VDS_USB_CONFIGURATION_VALUE :: u8 where "VDS_USB_CONFIGURATION_VALUE = 1"
definition VDS_USB_AUDIO_OUT_INTERFACE :: u16 where "VDS_USB_AUDIO_OUT_INTERFACE = 1"
definition VDS_USB_AUDIO_IN_INTERFACE :: u16 where "VDS_USB_AUDIO_IN_INTERFACE = 2"
definition VDS_USB_AUDIO_OUT_ENDPOINT :: u8 where "VDS_USB_AUDIO_OUT_ENDPOINT = 0x01"
definition VDS_USB_AUDIO_IN_ENDPOINT :: u8 where "VDS_USB_AUDIO_IN_ENDPOINT = 0x82"
definition VDS_USB_HID_IN_ENDPOINT :: u8 where "VDS_USB_HID_IN_ENDPOINT = 0x84"
definition VDS_USB_HID_OUT_ENDPOINT :: u8 where "VDS_USB_HID_OUT_ENDPOINT = 0x03"
definition VDS_PROFILE_DSE :: u32 where "VDS_PROFILE_DSE = 1"

definition vds_usb_language_descriptor :: bytes where
  "vds_usb_language_descriptor =
     [0x04, 0x03, 0x09, 0x04]"

definition vds_ds5_usb_device_descriptor :: bytes where
  "vds_ds5_usb_device_descriptor =
     [0x12, 0x01, 0, 0x02, 0, 0, 0, 64, 0x4c, 0x05, 0xe6, 0x0c, 0, 0x01, 0x01, 0x02,
      0, 1]"

definition vds_dse_usb_device_descriptor :: bytes where
  "vds_dse_usb_device_descriptor =
     [0x12, 0x01, 0, 0x02, 0, 0, 0, 64, 0x4c, 0x05, 0xf2, 0x0d, 0, 0x01, 0x01, 0x02,
      0, 1]"

definition vds_ds5_usb_configuration_descriptor :: bytes where
  "vds_ds5_usb_configuration_descriptor =
     [0x09, 0x02, 0xe3, 0, 0x04, 0x01, 0, 0xc0, 0xfa, 0x09, 0x04, 0, 0, 0, 0x01, 0x01,
      0, 0, 0x0a, 0x24, 0x01, 0, 0x01, 0x49, 0, 0x02, 0x01, 0x02, 0x0c, 0x24, 0x02, 0x01,
      0x01, 0x01, 0x06, 0x04, 0x33, 0, 0, 0, 0x0c, 0x24, 0x06, 0x02, 0x01, 0x01, 0x03, 0,
      0, 0, 0, 0, 0x09, 0x24, 0x03, 0x03, 0x01, 0x03, 0x04, 0x02, 0, 0x0c, 0x24, 0x02,
      0x04, 0x02, 0x04, 0x03, 0x02, 0x03, 0, 0, 0, 0x09, 0x24, 0x06, 0x05, 0x04, 0x01, 0x03,
      0, 0, 0x09, 0x24, 0x03, 0x06, 0x01, 0x01, 0x01, 0x05, 0, 0x09, 0x04, 0x01, 0, 0,
      0x01, 0x02, 0, 0, 0x09, 0x04, 0x01, 0x01, 0x01, 0x01, 0x02, 0, 0, 0x07, 0x24, 0x01,
      0x01, 0x01, 0x01, 0, 0x0b, 0x24, 0x02, 0x01, 0x04, 0x02, 0x10, 0x01, 0x80, 0xbb, 0, 0x09,
      0x05, 0x01, 0x09, 0x88, 0x01, 0x04, 0, 0, 0x07, 0x25, 0x01, 0, 0, 0, 0, 0x09,
      0x04, 0x02, 0, 0, 0x01, 0x02, 0, 0, 0x09, 0x04, 0x02, 0x01, 0x01, 0x01, 0x02, 0,
      0, 0x07, 0x24, 0x01, 0x06, 0x01, 0x01, 0, 0x0b, 0x24, 0x02, 0x01, 0x02, 0x02, 0x10, 0x01,
      0x80, 0xbb, 0, 0x09, 0x05, 0x82, 0x05, 0xc4, 0, 0x04, 0, 0, 0x07, 0x25, 0x01, 0,
      0, 0, 0, 0x09, 0x04, 0x03, 0, 0x02, 0x03, 0, 0, 0, 0x09, 0x21, 0x11, 0x01,
      0, 0x01, 0x22, 0x21, 0x01, 0x07, 0x05, 0x84, 0x03, 0x40, 0, 0x06, 0x07, 0x05, 0x03, 0x03,
      0x40, 0, 0x06]"

definition vds_ds5_usb_hid_descriptor :: bytes where
  "vds_ds5_usb_hid_descriptor =
     [0x09, 0x21, 0x11, 0x01, 0, 0x01, 0x22, 0x21, 0x01]"

definition vds_ds5_usb_hid_report_descriptor :: bytes where
  "vds_ds5_usb_hid_report_descriptor =
     [0x05, 0x01, 0x09, 0x05, 0xa1, 0x01, 0x85, 0x01, 0x09, 0x30, 0x09, 0x31, 0x09, 0x32, 0x09, 0x35,
      0x09, 0x33, 0x09, 0x34, 0x15, 0, 0x26, 0xff, 0, 0x75, 0x08, 0x95, 0x06, 0x81, 0x02, 0x06,
      0, 0xff, 0x09, 0x20, 0x95, 0x01, 0x81, 0x02, 0x05, 0x01, 0x09, 0x39, 0x15, 0, 0x25, 0x07,
      0x35, 0, 0x46, 0x3b, 0x01, 0x65, 0x14, 0x75, 0x04, 0x95, 0x01, 0x81, 0x42, 0x65, 0, 0x05,
      0x09, 0x19, 0x01, 0x29, 0x0f, 0x15, 0, 0x25, 0x01, 0x75, 0x01, 0x95, 0x0f, 0x81, 0x02, 0x06,
      0, 0xff, 0x09, 0x21, 0x95, 0x0d, 0x81, 0x02, 0x06, 0, 0xff, 0x09, 0x22, 0x15, 0, 0x26,
      0xff, 0, 0x75, 0x08, 0x95, 0x34, 0x81, 0x02, 0x85, 0x02, 0x09, 0x23, 0x95, 0x2f, 0x91, 0x02,
      0x85, 0x05, 0x09, 0x33, 0x95, 0x28, 0xb1, 0x02, 0x85, 0x08, 0x09, 0x34, 0x95, 0x2f, 0xb1, 0x02,
      0x85, 0x09, 0x09, 0x24, 0x95, 0x13, 0xb1, 0x02, 0x85, 0x0a, 0x09, 0x25, 0x95, 0x1a, 0xb1, 0x02,
      0x85, 0x0b, 0x09, 0x41, 0x95, 0x29, 0xb1, 0x02, 0x85, 0x0c, 0x09, 0x42, 0x95, 0x29, 0xb1, 0x02,
      0x85, 0x20, 0x09, 0x26, 0x95, 0x3f, 0xb1, 0x02, 0x85, 0x21, 0x09, 0x27, 0x95, 0x04, 0xb1, 0x02,
      0x85, 0x22, 0x09, 0x40, 0x95, 0x3f, 0xb1, 0x02, 0x85, 0x80, 0x09, 0x28, 0x95, 0x3f, 0xb1, 0x02,
      0x85, 0x81, 0x09, 0x29, 0x95, 0x3f, 0xb1, 0x02, 0x85, 0x82, 0x09, 0x2a, 0x95, 0x09, 0xb1, 0x02,
      0x85, 0x83, 0x09, 0x2b, 0x95, 0x3f, 0xb1, 0x02, 0x85, 0x84, 0x09, 0x2c, 0x95, 0x3f, 0xb1, 0x02,
      0x85, 0x85, 0x09, 0x2d, 0x95, 0x02, 0xb1, 0x02, 0x85, 0xa0, 0x09, 0x2e, 0x95, 0x01, 0xb1, 0x02,
      0x85, 0xe0, 0x09, 0x2f, 0x95, 0x3f, 0xb1, 0x02, 0x85, 0xf0, 0x09, 0x30, 0x95, 0x3f, 0xb1, 0x02,
      0x85, 0xf1, 0x09, 0x31, 0x95, 0x3f, 0xb1, 0x02, 0x85, 0xf2, 0x09, 0x32, 0x95, 0x0f, 0xb1, 0x02,
      0x85, 0xf4, 0x09, 0x35, 0x95, 0x3f, 0xb1, 0x02, 0x85, 0xf5, 0x09, 0x36, 0x95, 0x03, 0xb1, 0x02,
      0xc0]"

definition vds_dse_usb_configuration_descriptor :: bytes where
  "vds_dse_usb_configuration_descriptor =
     [0x09, 0x02, 0xe3, 0, 0x04, 0x01, 0, 0xc0, 0xfa, 0x09, 0x04, 0, 0, 0, 0x01, 0x01,
      0, 0, 0x0a, 0x24, 0x01, 0, 0x01, 0x49, 0, 0x02, 0x01, 0x02, 0x0c, 0x24, 0x02, 0x01,
      0x01, 0x01, 0x06, 0x04, 0x33, 0, 0, 0, 0x0c, 0x24, 0x06, 0x02, 0x01, 0x01, 0x03, 0,
      0, 0, 0, 0, 0x09, 0x24, 0x03, 0x03, 0x01, 0x03, 0x04, 0x02, 0, 0x0c, 0x24, 0x02,
      0x04, 0x02, 0x04, 0x03, 0x02, 0x03, 0, 0, 0, 0x09, 0x24, 0x06, 0x05, 0x04, 0x01, 0x03,
      0, 0, 0x09, 0x24, 0x03, 0x06, 0x01, 0x01, 0x01, 0x05, 0, 0x09, 0x04, 0x01, 0, 0,
      0x01, 0x02, 0, 0, 0x09, 0x04, 0x01, 0x01, 0x01, 0x01, 0x02, 0, 0, 0x07, 0x24, 0x01,
      0x01, 0x01, 0x01, 0, 0x0b, 0x24, 0x02, 0x01, 0x04, 0x02, 0x10, 0x01, 0x80, 0xbb, 0, 0x09,
      0x05, 0x01, 0x09, 0x88, 0x01, 0x04, 0, 0, 0x07, 0x25, 0x01, 0, 0, 0, 0, 0x09,
      0x04, 0x02, 0, 0, 0x01, 0x02, 0, 0, 0x09, 0x04, 0x02, 0x01, 0x01, 0x01, 0x02, 0,
      0, 0x07, 0x24, 0x01, 0x06, 0x01, 0x01, 0, 0x0b, 0x24, 0x02, 0x01, 0x02, 0x02, 0x10, 0x01,
      0x80, 0xbb, 0, 0x09, 0x05, 0x82, 0x05, 0xc4, 0, 0x04, 0, 0, 0x07, 0x25, 0x01, 0,
      0, 0, 0, 0x09, 0x04, 0x03, 0, 0x02, 0x03, 0, 0, 0, 0x09, 0x21, 0x11, 0x01,
      0, 0x01, 0x22, 0x95, 0x01, 0x07, 0x05, 0x84, 0x03, 0x40, 0, 0x04, 0x07, 0x05, 0x03, 0x03,
      0x40, 0, 0x06]"

definition vds_dse_usb_hid_descriptor :: bytes where
  "vds_dse_usb_hid_descriptor =
     [0x09, 0x21, 0x11, 0x01, 0, 0x01, 0x22, 0x95, 0x01]"

definition vds_dse_usb_hid_report_descriptor :: bytes where
  "vds_dse_usb_hid_report_descriptor =
     [0x05, 0x01, 0x09, 0x05, 0xa1, 0x01, 0x85, 0x01, 0x09, 0x30, 0x09, 0x31, 0x09, 0x32, 0x09, 0x35,
      0x09, 0x33, 0x09, 0x34, 0x15, 0, 0x26, 0xff, 0, 0x75, 0x08, 0x95, 0x06, 0x81, 0x02, 0x06,
      0, 0xff, 0x09, 0x20, 0x95, 0x01, 0x81, 0x02, 0x05, 0x01, 0x09, 0x39, 0x15, 0, 0x25, 0x07,
      0x35, 0, 0x46, 0x3b, 0x01, 0x65, 0x14, 0x75, 0x04, 0x95, 0x01, 0x81, 0x42, 0x65, 0, 0x05,
      0x09, 0x19, 0x01, 0x29, 0x0f, 0x15, 0, 0x25, 0x01, 0x75, 0x01, 0x95, 0x0f, 0x81, 0x02, 0x06,
      0, 0xff, 0x09, 0x21, 0x95, 0x0d, 0x81, 0x02, 0x06, 0, 0xff, 0x09, 0x22, 0x15, 0, 0x26,
      0xff, 0, 0x75, 0x08, 0x95, 0x34, 0x81, 0x02, 0x85, 0x02, 0x09, 0x23, 0x95, 0x3f, 0x91, 0x02,
      0x85, 0x05, 0x09, 0x33, 0x95, 0x28, 0xb1, 0x02, 0x85, 0x08, 0x09, 0x34, 0x95, 0x2f, 0xb1, 0x02,
      0x85, 0x09, 0x09, 0x24, 0x95, 0x13, 0xb1, 0x02, 0x85, 0x0a, 0x09, 0x25, 0x95, 0x1a, 0xb1, 0x02,
      0x85, 0x0b, 0x09, 0x41, 0x95, 0x29, 0xb1, 0x02, 0x85, 0x0c, 0x09, 0x42, 0x95, 0x29, 0xb1, 0x02,
      0x85, 0x20, 0x09, 0x26, 0x95, 0x3f, 0xb1, 0x02, 0x85, 0x21, 0x09, 0x27, 0x95, 0x04, 0xb1, 0x02,
      0x85, 0x22, 0x09, 0x40, 0x95, 0x3f, 0xb1, 0x02, 0x85, 0x80, 0x09, 0x28, 0x95, 0x3f, 0xb1, 0x02,
      0x85, 0x81, 0x09, 0x29, 0x95, 0x3f, 0xb1, 0x02, 0x85, 0x82, 0x09, 0x2a, 0x95, 0x09, 0xb1, 0x02,
      0x85, 0x83, 0x09, 0x2b, 0x95, 0x3f, 0xb1, 0x02, 0x85, 0x84, 0x09, 0x2c, 0x95, 0x3f, 0xb1, 0x02,
      0x85, 0x85, 0x09, 0x2d, 0x95, 0x02, 0xb1, 0x02, 0x85, 0xa0, 0x09, 0x2e, 0x95, 0x01, 0xb1, 0x02,
      0x85, 0xe0, 0x09, 0x2f, 0x95, 0x3f, 0xb1, 0x02, 0x85, 0xf0, 0x09, 0x30, 0x95, 0x3f, 0xb1, 0x02,
      0x85, 0xf1, 0x09, 0x31, 0x95, 0x3f, 0xb1, 0x02, 0x85, 0xf2, 0x09, 0x32, 0x95, 0x34, 0xb1, 0x02,
      0x85, 0xf4, 0x09, 0x35, 0x95, 0x3f, 0xb1, 0x02, 0x85, 0xf5, 0x09, 0x36, 0x95, 0x03, 0xb1, 0x02,
      0x85, 0x60, 0x09, 0x41, 0x95, 0x3f, 0xb1, 0x02, 0x85, 0x61, 0x09, 0x42, 0xb1, 0x02, 0x85, 0x62,
      0x09, 0x43, 0xb1, 0x02, 0x85, 0x63, 0x09, 0x44, 0xb1, 0x02, 0x85, 0x64, 0x09, 0x45, 0xb1, 0x02,
      0x85, 0x65, 0x09, 0x46, 0xb1, 0x02, 0x85, 0x68, 0x09, 0x47, 0xb1, 0x02, 0x85, 0x70, 0x09, 0x48,
      0xb1, 0x02, 0x85, 0x71, 0x09, 0x49, 0xb1, 0x02, 0x85, 0x72, 0x09, 0x4a, 0xb1, 0x02, 0x85, 0x73,
      0x09, 0x4b, 0xb1, 0x02, 0x85, 0x74, 0x09, 0x4c, 0xb1, 0x02, 0x85, 0x75, 0x09, 0x4d, 0xb1, 0x02,
      0x85, 0x76, 0x09, 0x4e, 0xb1, 0x02, 0x85, 0x77, 0x09, 0x4f, 0xb1, 0x02, 0x85, 0x78, 0x09, 0x50,
      0xb1, 0x02, 0x85, 0x79, 0x09, 0x51, 0xb1, 0x02, 0x85, 0x7a, 0x09, 0x52, 0xb1, 0x02, 0x85, 0x7b,
      0x09, 0x53, 0xb1, 0x02, 0xc0]"

section \<open>Selection\<close>

record ProfileDescriptors =
  pd_device :: bytes
  pd_config :: bytes
  pd_hid :: bytes
  pd_hid_report :: bytes
  pd_idVendor :: u16
  pd_idProduct :: u16

definition descriptors_for_profile :: "u32 \<Rightarrow> ProfileDescriptors" where
  "descriptors_for_profile profile =
     (if profile = VDS_PROFILE_DSE then
        \<lparr>pd_device = vds_dse_usb_device_descriptor, pd_config = vds_dse_usb_configuration_descriptor,
         pd_hid = vds_dse_usb_hid_descriptor, pd_hid_report = vds_dse_usb_hid_report_descriptor,
         pd_idVendor = 0x054c, pd_idProduct = 0x0df2\<rparr>
      else
        \<lparr>pd_device = vds_ds5_usb_device_descriptor, pd_config = vds_ds5_usb_configuration_descriptor,
         pd_hid = vds_ds5_usb_hid_descriptor, pd_hid_report = vds_ds5_usb_hid_report_descriptor,
         pd_idVendor = 0x054c, pd_idProduct = 0x0ce6\<rparr>)"

definition build_string_descriptor :: "string \<Rightarrow> bytes" where
  "build_string_descriptor text =
     (let bytes = [0, 0x03] @ concat (map (\<lambda>c. [of_char c, 0]) text) in
      bytes[0 := of_nat (length bytes)])"

definition build_langid_descriptor :: bytes where
  "build_langid_descriptor = [0x04, 0x03, 0x09, 0x04]"

section \<open>Reading the tables\<close>

text \<open>The chain of descriptors in a buffer, each as long as its first byte says.\<close>

function descriptor_chain :: "bytes \<Rightarrow> bytes list option" where
  "descriptor_chain bs =
     (if bs = [] then Some []
      else (let n = unat (hd bs) in
            if n < 2 \<or> length bs < n then None
            else map_option (\<lambda>ds. take n bs # ds) (descriptor_chain (drop n bs))))"
  by pat_completeness auto
termination
  by (relation "measure length") auto

declare descriptor_chain.simps [simp del]

definition of_type :: "u8 \<Rightarrow> bytes list \<Rightarrow> bytes list" where
  "of_type t ds = filter (\<lambda>d. d ! 1 = t) ds"

text \<open>The addresses of the endpoint descriptors of a chain, and the size of the packets of one of them.\<close>

definition endpoint_addresses :: "bytes list \<Rightarrow> bytes" where
  "endpoint_addresses ds = map (\<lambda>e. e ! 2) (of_type 5 ds)"

definition packet_size :: "u8 \<Rightarrow> bytes list \<Rightarrow> nat" where
  "packet_size ep ds = sum_list (map (\<lambda>e. unat (from_le16 (take 2 (drop 4 e)))) (filter (\<lambda>e. e ! 2 = ep) (of_type 5 ds)))"

definition coherent_config :: "bytes \<Rightarrow> bytes \<Rightarrow> bool" where
  "coherent_config config hid \<longleftrightarrow>
     (case descriptor_chain config of
        None \<Rightarrow> False
      | Some ds \<Rightarrow>
          endpoint_addresses ds =
            [VDS_USB_AUDIO_OUT_ENDPOINT, VDS_USB_AUDIO_IN_ENDPOINT, VDS_USB_HID_IN_ENDPOINT, VDS_USB_HID_OUT_ENDPOINT] \<and>
          of_type 0x21 ds = [hid] \<and> packet_size VDS_USB_HID_IN_ENDPOINT ds = kUsbInputReportSize \<and>
          packet_size VDS_USB_AUDIO_OUT_ENDPOINT ds = 49 * 8 \<and> packet_size VDS_USB_AUDIO_IN_ENDPOINT ds = 49 * 4)"

lemma coherent_tables:
  "coherent_config vds_ds5_usb_configuration_descriptor vds_ds5_usb_hid_descriptor"
  "coherent_config vds_dse_usb_configuration_descriptor vds_dse_usb_hid_descriptor"
  by code_simp+

lemma table_lengths:
  "length vds_ds5_usb_configuration_descriptor = 227" "length vds_dse_usb_configuration_descriptor = 227"
  "length vds_ds5_usb_hid_report_descriptor = 289" "length vds_dse_usb_hid_report_descriptor = 405"
  by (simp_all add: vds_ds5_usb_configuration_descriptor_def vds_dse_usb_configuration_descriptor_def
      vds_ds5_usb_hid_report_descriptor_def vds_dse_usb_hid_report_descriptor_def)

lemma table_headers:
  "unat (from_le16 (take 2 (drop 2 vds_ds5_usb_configuration_descriptor))) = 227"
  "unat (from_le16 (take 2 (drop 2 vds_dse_usb_configuration_descriptor))) = 227"
  "unat (from_le16 (drop 7 vds_ds5_usb_hid_descriptor)) = 289"
  "unat (from_le16 (drop 7 vds_dse_usb_hid_descriptor)) = 405"
  by code_simp+

lemma string_descriptor_length:
  "length (build_string_descriptor str) = 2 + 2 * length str"
  by (induction str) (simp_all add: build_string_descriptor_def Let_def)

section \<open>Properties\<close>

text \<open>
  The descriptors of each profile agree with each other and with the code: the configuration
  is a chain of descriptors that fills it exactly and announces its length, its endpoints are the
  four the transports serve with packets large enough for an input report and for 49 audio frames,
  the HID descriptor inside it is the one answered on request and announces the length of the
  report descriptor, and the device descriptor names the vendor, product and release that the
  USB/IP replies carry.
\<close>

theorem usb_descriptors_consistent:
  "let d = descriptors_for_profile p in
   coherent_config (pd_config d) (pd_hid d) \<and>
   unat (from_le16 (take 2 (drop 2 (pd_config d)))) = length (pd_config d) \<and>
   unat (from_le16 (drop 7 (pd_hid d))) = length (pd_hid_report d) \<and>
   from_le16 (take 2 (drop 8 (pd_device d))) = pd_idVendor d \<and>
   from_le16 (take 2 (drop 10 (pd_device d))) = pd_idProduct d \<and>
   from_le16 (take 2 (drop 12 (pd_device d))) = VDS_USB_DEVICE_BCD"
proof -
  have "from_le16 (take 2 (drop 8 vds_ds5_usb_device_descriptor)) = 0x054c"
    "from_le16 (take 2 (drop 10 vds_ds5_usb_device_descriptor)) = 0x0ce6"
    "from_le16 (take 2 (drop 12 vds_ds5_usb_device_descriptor)) = 0x0100"
    "from_le16 (take 2 (drop 8 vds_dse_usb_device_descriptor)) = 0x054c"
    "from_le16 (take 2 (drop 10 vds_dse_usb_device_descriptor)) = 0x0df2"
    "from_le16 (take 2 (drop 12 vds_dse_usb_device_descriptor)) = 0x0100"
    by code_simp+
  then show ?thesis
    by (simp add: descriptors_for_profile_def coherent_tables table_lengths table_headers VDS_USB_DEVICE_BCD_def)
qed

end
