(* ===== verification/Usbip.thy ===== *)
theory Usbip
  imports UsbipPort UsbDescriptors
begin

text \<open>
  The USB/IP server of a virtual port, \<open>src/platform/win32/vds_usbip.cc\<close>: the wire format of
  the protocol, the answers to device list and import requests, control transfers, the handler of
  a submitted transfer and the loop of an import session. What the handler meets in its
  environment is a record: the time, the frames the reader distributes while it waits, how far the
  pipe and the socket accept what is written. An exception of the handler ends the session, as the
  \<open>catch\<close> of the loop does. Debug logging is left out.
\<close>

section \<open>Wire format\<close>

definition kProtocolVersion :: u16 where "kProtocolVersion = 0x0111"
definition kOpReqDevlist :: u16 where "kOpReqDevlist = 0x8005"
definition kOpRepDevlist :: u16 where "kOpRepDevlist = 0x0005"
definition kOpReqImport :: u16 where "kOpReqImport = 0x8003"
definition kOpRepImport :: u16 where "kOpRepImport = 0x0003"
definition kCmdSubmit :: u32 where "kCmdSubmit = 1"
definition kRetSubmit :: u32 where "kRetSubmit = 3"
definition kCmdUnlink :: u32 where "kCmdUnlink = 2"
definition kRetUnlink :: u32 where "kRetUnlink = 4"
definition kDirOut :: u32 where "kDirOut = 0"
definition kDirIn :: u32 where "kDirIn = 1"
definition kBusId :: string where "kBusId = ''1-1''"
definition kPath :: string where "kPath = ''/vds/virtual/dualsense''"
definition kEpAudioOut :: u32 where "kEpAudioOut = ucast (VDS_USB_AUDIO_OUT_ENDPOINT AND 0x0f)"
definition kEpAudioIn :: u32 where "kEpAudioIn = ucast (VDS_USB_AUDIO_IN_ENDPOINT AND 0x0f)"
definition kEpHidIn :: u32 where "kEpHidIn = ucast (VDS_USB_HID_IN_ENDPOINT AND 0x0f)"
definition kEpHidOut :: u32 where "kEpHidOut = ucast (VDS_USB_HID_OUT_ENDPOINT AND 0x0f)"

text \<open>\<open>OpCommonHeader\<close> of a reply and \<open>strncpy\<close> into a zeroed array.\<close>

definition op_header :: "u16 \<Rightarrow> bytes" where
  "op_header code = be16 kProtocolVersion @ be16 code @ be32 0"

definition char_array :: "nat \<Rightarrow> string \<Rightarrow> bytes" where
  "char_array n s = (let t = map of_char (take (n - 1) s) in t @ replicate (n - length t) 0)"

definition wire_device :: "u32 \<Rightarrow> bytes" where
  "wire_device profile =
     (let desc = descriptors_for_profile profile in
      char_array 256 kPath @ char_array 32 kBusId @ be32 1 @ be32 1 @ be32 3 @
      be16 (pd_idVendor desc) @ be16 (pd_idProduct desc) @ be16 VDS_USB_DEVICE_BCD @
      [pd_device desc ! 4, pd_device desc ! 5, pd_device desc ! 6, VDS_USB_CONFIGURATION_VALUE,
       VDS_USB_NUM_CONFIGURATIONS, 4])"

definition devlist_reply :: "u32 \<Rightarrow> bytes list" where
  "devlist_reply profile =
     [op_header kOpRepDevlist, be32 1, wire_device profile,
      [0x01, 0x01, 0x00, 0] @ [0x01, 0x02, 0x00, 0] @ [0x01, 0x02, 0x00, 0] @ [0x03, 0x00, 0x00, 0]]"

record UsbipCmdSubmit =
  c_command :: u32
  c_seqnum :: u32
  c_devid :: u32
  c_direction :: u32
  c_ep :: u32
  c_transfer_flags :: u32
  c_transfer_buffer_length :: int
  c_start_frame :: u32
  c_number_of_packets :: int
  c_interval :: u32
  c_setup :: bytes

definition word_at :: "nat \<Rightarrow> bytes \<Rightarrow> u32" where
  "word_at i b = from_be32 (take 4 (drop (4 * i) b))"

text \<open>
  The 48 bytes of a command. \<open>start_frame\<close> and \<open>interval\<close> stay in wire order in the source
  and are not used.
\<close>

definition parse_cmd :: "bytes \<Rightarrow> UsbipCmdSubmit" where
  "parse_cmd b =
     \<lparr>c_command = word_at 0 b, c_seqnum = word_at 1 b, c_devid = word_at 2 b, c_direction = word_at 3 b,
      c_ep = word_at 4 b, c_transfer_flags = word_at 5 b,
      c_transfer_buffer_length = sint (word_at 6 b), c_start_frame = word_at 7 b,
      c_number_of_packets = sint (word_at 8 b), c_interval = word_at 9 b, c_setup = take 8 (drop 40 b)\<rparr>"

record UsbipIsoPacketDescriptor =
  iso_offset :: u32
  iso_length :: u32

fun parse_isos :: "nat \<Rightarrow> bytes \<Rightarrow> UsbipIsoPacketDescriptor list" where
  "parse_isos 0 b = []"
| "parse_isos (Suc n) b = \<lparr>iso_offset = word_at 0 b, iso_length = word_at 1 b\<rparr> # parse_isos n (drop 16 b)"

record UsbipRetSubmit =
  r_seqnum :: u32
  r_devid :: u32
  r_direction :: u32
  r_ep :: u32
  r_status :: int
  r_actual_length :: u32
  r_number_of_packets :: int

definition ret_bytes :: "UsbipRetSubmit \<Rightarrow> bytes" where
  "ret_bytes r =
     be32 kRetSubmit @ be32 (r_seqnum r) @ be32 (r_devid r) @ be32 (r_direction r) @ be32 (r_ep r) @
     be32 (word_of_int (r_status r)) @ be32 (r_actual_length r) @ be32 0 @
     be32 (word_of_int (r_number_of_packets r)) @ be32 0 @ replicate 8 0"

definition unlink_reply :: "UsbipCmdSubmit \<Rightarrow> bytes" where
  "unlink_reply cmd = be32 kRetUnlink @ be32 (c_seqnum cmd) @ replicate 12 0 @ be32 0 @ replicate 24 0"

section \<open>Control transfers\<close>

definition get_descriptor :: "u32 \<Rightarrow> u16 \<Rightarrow> nat \<Rightarrow> bytes" where
  "get_descriptor profile wValue wLength =
     (let desc = descriptors_for_profile profile;
          desc_type = (ucast (drop_bit 8 wValue) :: u8); desc_index = (ucast wValue :: u8) in
      if desc_type = 0x01 then take wLength (pd_device desc)
      else if desc_type = 0x02 then take wLength (pd_config desc)
      else if desc_type = 0x21 then take wLength (pd_hid desc)
      else if desc_type = 0x22 then take wLength (pd_hid_report desc)
      else if desc_type = 0x03 then
        take wLength
          (if desc_index = 0 then build_langid_descriptor
           else if desc_index = 1 then build_string_descriptor VDS_USB_MANUFACTURER_STRING
           else if desc_index = 2 then
             build_string_descriptor
               (if profile = VDS_PROFILE_DSE then VDS_DSE_USB_PRODUCT_STRING else VDS_DS5_USB_PRODUCT_STRING)
           else [])
      else [])"

definition interface_event :: "u16 \<Rightarrow> u16 \<Rightarrow> bytes" where
  "interface_event wIndex wValue =
     [ucast wIndex, ucast wValue,
      if wIndex = VDS_USB_AUDIO_OUT_INTERFACE then 1 else if wIndex = VDS_USB_AUDIO_IN_INTERFACE then 2 else 0, 0]"

text \<open>The answer to a GET request of the audio feature unit, before it is cut to \<open>wLength\<close>.\<close>

definition feature_unit_value :: "bool \<Rightarrow> u8 \<Rightarrow> VirtualPort \<Rightarrow> bytes" where
  "feature_unit_value is_mute bRequest p =
     (if is_mute then [if fu_muted p then 1 else 0]
      else if bRequest = 0x82 then [0x01, 0xda]
      else if bRequest = 0x83 then [0x00, 0x00]
      else if bRequest = 0x84 then [0x01, 0x00]
      else s16_bytes (fu_volume_db256 p))"

definition feature_unit_set :: "(int \<Rightarrow> int \<times> int) \<Rightarrow> u8 \<Rightarrow> bytes \<Rightarrow> VirtualPort \<Rightarrow> VirtualPort" where
  "feature_unit_set pow10 selector out_data p =
     (if selector = 0x01 \<and> out_data \<noteq> [] then update_speaker_gain pow10 (p\<lparr>fu_muted := hd out_data \<noteq> 0\<rparr>)
      else if selector = 0x02 \<and> length out_data \<ge> 2
      then update_speaker_gain pow10 (p\<lparr>fu_volume_db256 := read_le_s16 out_data\<rparr>)
      else p)"

record submit_env =
  env_now :: int
  env_client :: nat
  env_frames :: "Frame list"
  env_pipe :: "acceptance list"
  env_socket :: "acceptance list"
  env_pow10 :: "int \<Rightarrow> int \<times> int"

text \<open>
  A step of the handler yields its value or an exception, the port, and the bytes written to the
  pipe; \<open>None\<close> stands for undefined behaviour of the reader meanwhile.
\<close>

type_synonym 'a port_step = "('a result \<times> VirtualPort \<times> bytes) option"

definition write_daemon_frame :: "u16 \<Rightarrow> bytes \<Rightarrow> acceptance list \<Rightarrow> unit result \<times> bytes" where
  "write_daemon_frame type payload ws =
     (case write_handle_frame ''usbip-bridge'' type payload ws of (r, out, ws') \<Rightarrow> (r, out))"

text \<open>Forward a frame and complete with status 0 and no data.\<close>

definition forward :: "u16 \<Rightarrow> bytes \<Rightarrow> submit_env \<Rightarrow> VirtualPort \<Rightarrow> (bytes \<times> int) port_step" where
  "forward type payload env p =
     (case write_daemon_frame type payload (env_pipe env) of
        (Inl e, out) \<Rightarrow> Some (Inl e, p, out)
      | (Inr _, out) \<Rightarrow> Some (Inr ([], 0), p, out))"

definition get_feature_report :: "u16 \<Rightarrow> nat \<Rightarrow> submit_env \<Rightarrow> VirtualPort \<Rightarrow> (bytes \<times> int) port_step" where
  "get_feature_report wValue wLength env p =
     (case write_daemon_frame VDS_FRAME_USB_FEATURE_GET [ucast wValue] (env_pipe env) of
        (Inl e, out) \<Rightarrow> Some (Inl e, p, out)
      | (Inr _, out) \<Rightarrow>
          map_option
            (\<lambda>(reply, q).
               (Inr (case reply of
                       Some f \<Rightarrow> if fh_type (fr_header f) = VDS_FRAME_USB_FEATURE_REPLY
                                 then take wLength (fr_payload f) else []
                     | None \<Rightarrow> [], 0), q, out))
            (wait_for_feature_reply (env_frames env) p))"

definition control_request :: "UsbipCmdSubmit \<Rightarrow> bytes \<Rightarrow> submit_env \<Rightarrow> VirtualPort \<Rightarrow> (bytes \<times> int) port_step" where
  "control_request cmd out_data env p =
     (let bmRequestType = c_setup cmd ! 0; bRequest = c_setup cmd ! 1;
          wValue = from_le16 (take 2 (drop 2 (c_setup cmd))); wIndex = from_le16 (take 2 (drop 4 (c_setup cmd)));
          wLength = unat (from_le16 (take 2 (drop 6 (c_setup cmd))));
          device_to_host = (bmRequestType AND 0x80 \<noteq> 0); request_type = bmRequestType AND 0x60 in
      if request_type = 0x00 \<and> bRequest = 0x06 \<and> device_to_host
      then Some (Inr (get_descriptor (up_profile p) wValue wLength, 0), p, [])
      else if request_type = 0x00 \<and> bRequest = 0x09 then Some (Inr ([], 0), p, [])
      else if bmRequestType = 0x01 \<and> bRequest = 0x0b
      then forward VDS_FRAME_USB_INTERFACE (interface_event wIndex wValue) env
             (if wIndex = VDS_USB_AUDIO_IN_INTERFACE then flush_mic p else p)
      else if request_type = 0x20 \<and> bRequest = 0x01 \<and> device_to_host
      then get_feature_report wValue wLength env p
      else if request_type = 0x20 \<and> bRequest = 0x09 then forward VDS_FRAME_USB_FEATURE_SET out_data env p
      else if request_type = 0x20 \<and> bmRequestType AND 0x1f = 0x01 \<and>
              bRequest \<in> {0x81, 0x82, 0x83, 0x84, 0x01} then
        (let selector = (ucast (drop_bit 8 wValue) :: u8) in
         if device_to_host \<and> (selector = 0x01 \<or> selector = 0x02)
         then Some (Inr (take wLength (feature_unit_value (selector = 0x01) bRequest p), 0), p, [])
         else if \<not> device_to_host \<and> bRequest = 0x01
         then Some (Inr ([], 0), feature_unit_set (env_pow10 env) selector out_data p, [])
         else Some (Inr ([], 0), p, []))
      else Some (Inr ([], - 32), p, []))"

definition control_transfer :: "UsbipCmdSubmit \<Rightarrow> bytes \<Rightarrow> submit_env \<Rightarrow> VirtualPort \<Rightarrow> (bytes \<times> int) port_step" where
  "control_transfer cmd out_data env p =
     map_option
       (\<lambda>(r, q, out).
          (res_bind r (\<lambda>(reply_data, status).
             Inr (if c_setup cmd ! 0 AND 0x80 \<noteq> 0
                  then take (unat (from_le16 (take 2 (drop 6 (c_setup cmd))))) reply_data else reply_data, status)), q, out))
       (control_request cmd out_data env p)"

section \<open>Transfers\<close>

text \<open>The data, the status and the packet count of the reply, by endpoint and direction.\<close>

definition with_packets :: "int \<Rightarrow> (bytes \<times> int) port_step \<Rightarrow> (bytes \<times> int \<times> int) port_step" where
  "with_packets n st =
     map_option (\<lambda>(r, q, out). (res_bind r (\<lambda>(reply_data, status). Inr (reply_data, status, n)), q, out)) st"

definition run_transfer :: "UsbipCmdSubmit \<Rightarrow> bytes \<Rightarrow> submit_env \<Rightarrow> VirtualPort \<Rightarrow> (bytes \<times> int \<times> int) port_step" where
  "run_transfer cmd out_data env p =
     (if c_ep cmd = 0 then with_packets 0 (control_transfer cmd out_data env p)
      else if c_ep cmd = kEpHidIn \<and> c_direction cmd = kDirIn then
        with_packets 0
          (map_option (\<lambda>(f, q). (Inr (case f of Some fr \<Rightarrow> fr_payload fr | None \<Rightarrow> [], 0), q, []))
            (wait_for_hid_in_frame (env_frames env) p))
      else if c_ep cmd = kEpHidOut \<and> c_direction cmd = kDirOut then
        with_packets 0 (forward VDS_FRAME_USB_HID_OUT out_data env p)
      else if c_ep cmd = kEpAudioOut \<and> c_direction cmd = kDirOut then
        with_packets (c_number_of_packets cmd)
          (forward VDS_FRAME_USB_AUDIO_OUT (apply_speaker_gain (speaker_gain_q15 p) out_data) env p)
      else if c_ep cmd = kEpAudioIn \<and> c_direction cmd = kDirIn then
        with_packets (c_number_of_packets cmd)
          (case take_mic_bytes (nat (c_transfer_buffer_length cmd mod 2 ^ 64)) p of
             (r, q) \<Rightarrow> Some (res_bind r (\<lambda>data. Inr (data, 0)), q, []))
      else Some (Inr ([], - 32, 0), p, []))"

definition iso_actual :: "u32 \<Rightarrow> nat \<Rightarrow> UsbipIsoPacketDescriptor \<Rightarrow> u32" where
  "iso_actual direction available d =
     (if direction = kDirIn then
        (if unat (iso_offset d) \<ge> available then 0
         else of_nat (min (unat (iso_length d)) (available - unat (iso_offset d))))
      else iso_length d)"

definition iso_bytes :: "u32 \<Rightarrow> nat \<Rightarrow> UsbipIsoPacketDescriptor \<Rightarrow> bytes" where
  "iso_bytes direction available d =
     be32 (iso_offset d) @ be32 (iso_length d) @ be32 (iso_actual direction available d) @ be32 0"

text \<open>The reply to a transfer: its header, its data and its packet descriptors, as three messages.\<close>

definition build_reply ::
  "UsbipCmdSubmit \<Rightarrow> UsbipIsoPacketDescriptor list \<Rightarrow> bytes \<Rightarrow> int \<Rightarrow> int \<Rightarrow> bytes \<times> bytes \<times> bytes" where
  "build_reply cmd isos reply_data status packets =
     (let reply_iso = (if c_number_of_packets cmd > 0 then isos else []);
          available = length reply_data;
          iso_actual_total = sum_list (map (iso_actual (c_direction cmd) available) reply_iso);
          ret = \<lparr>r_seqnum = c_seqnum cmd, r_devid = c_devid cmd, r_direction = c_direction cmd, r_ep = c_ep cmd,
                 r_status = status,
                 r_actual_length = (if c_number_of_packets cmd > 0 then iso_actual_total else of_nat available),
                 r_number_of_packets = packets\<rparr> in
      (ret_bytes ret, reply_data, concat (map (iso_bytes (c_direction cmd) available) reply_iso)))"

definition pace_out :: "UsbipCmdSubmit \<Rightarrow> bool" where
  "pace_out cmd \<longleftrightarrow> c_ep cmd = kEpAudioOut \<and> c_direction cmd = kDirOut \<and> c_number_of_packets cmd > 0"

definition pace_in :: "UsbipCmdSubmit \<Rightarrow> bool" where
  "pace_in cmd \<longleftrightarrow> c_ep cmd = kEpAudioIn \<and> c_direction cmd = kDirIn \<and> c_number_of_packets cmd > 0"

fun send_all :: "bytes list \<Rightarrow> acceptance list \<Rightarrow> bool \<times> bytes" where
  "send_all [] ws = (True, [])"
| "send_all (m # ms) ws =
     (case send_exact m ws of (r, out, ws') \<Rightarrow>
        if r then (case send_all ms ws' of (b, out') \<Rightarrow> (b, out @ out')) else (False, out))"

record submit_outcome =
  so_continue :: bool
  so_port :: VirtualPort
  so_pipe :: bytes
  so_sent :: bytes

text \<open>The reply is handed to the pacer or sent at once.\<close>

definition finish_submit ::
  "UsbipCmdSubmit \<Rightarrow> submit_env \<Rightarrow> VirtualPort \<Rightarrow> bytes \<Rightarrow> bytes \<times> bytes \<times> bytes \<Rightarrow> submit_outcome" where
  "finish_submit cmd env q piped reply =
     (case reply of (ret, data, isob) \<Rightarrow>
        if pace_out cmd \<or> pace_in cmd then
          \<lparr>so_continue = True,
           so_port = pace_reply (pace_out cmd) (env_now env) (c_number_of_packets cmd)
             \<lparr>pr_client = env_client env, pr_bytes = ret @ (if pace_in cmd then data else []) @ isob\<rparr> q,
           so_pipe = piped, so_sent = []\<rparr>
        else
          (case send_all ([ret] @ (if data = [] then [] else [data]) @ (if isob = [] then [] else [isob]))
                  (env_socket env) of
             (b, sent) \<Rightarrow> \<lparr>so_continue = b, so_port = q, so_pipe = piped, so_sent = sent\<rparr>))"

definition handle_cmd_submit ::
  "UsbipCmdSubmit \<Rightarrow> bytes \<Rightarrow> UsbipIsoPacketDescriptor list \<Rightarrow> submit_env \<Rightarrow> VirtualPort \<Rightarrow> submit_outcome option" where
  "handle_cmd_submit cmd out_data isos env p =
     map_option
       (\<lambda>(r, q, piped).
          case r of
            Inl e \<Rightarrow> \<lparr>so_continue = False, so_port = q, so_pipe = piped, so_sent = []\<rparr>
          | Inr (reply_data, status, packets) \<Rightarrow>
              finish_submit cmd env q piped (build_reply cmd isos reply_data status packets))
       (run_transfer cmd out_data env p)"

section \<open>Sessions\<close>

text \<open>One round of the loop on the bytes that arrive on the socket.\<close>

definition session_round :: "submit_env \<Rightarrow> arrival list \<Rightarrow> VirtualPort \<Rightarrow> (submit_outcome \<times> arrival list) option" where
  "session_round env as p =
     (let stop = (\<lambda>as'. Some (\<lparr>so_continue = False, so_port = p, so_pipe = [], so_sent = []\<rparr>, as')) in
      case recv_exact 48 as of
        (None, as1) \<Rightarrow> stop as1
      | (Some b, as1) \<Rightarrow>
          (let cmd = parse_cmd b in
           if c_command cmd = kCmdUnlink then
             (case send_all [unlink_reply cmd] (env_socket env) of (b, sent) \<Rightarrow>
                Some (\<lparr>so_continue = True, so_port = p, so_pipe = [], so_sent = sent\<rparr>, as1))
           else if c_command cmd \<noteq> kCmdSubmit then stop as1
           else
             (case (if c_direction cmd = kDirOut \<and> c_transfer_buffer_length cmd > 0
                    then recv_exact (nat (c_transfer_buffer_length cmd)) as1 else (Some [], as1)) of
                (None, as2) \<Rightarrow> stop as2
              | (Some out_data, as2) \<Rightarrow>
                  (case (if c_number_of_packets cmd > 0
                         then recv_exact (nat (c_number_of_packets cmd) * 16) as2 else (Some [], as2)) of
                     (None, as3) \<Rightarrow> stop as3
                   | (Some ib, as3) \<Rightarrow>
                       map_option (\<lambda>so. (so, as3))
                         (handle_cmd_submit cmd out_data (parse_isos (nat (c_number_of_packets cmd)) ib) env p)))))"

text \<open>
  The loop, one environment per round; before each round the frames \<open>fst\<close> of its entry were
  distributed by the reader. The end of the list is the request to stop.
\<close>

fun session_loop :: "(Frame list \<times> submit_env) list \<Rightarrow> arrival list \<Rightarrow> VirtualPort \<Rightarrow> (VirtualPort \<times> bytes \<times> bytes) option" where
  "session_loop [] as p = Some (p, [], [])"
| "session_loop ((fs, env) # envs) as p =
     Option.bind (demux_frames fs p) (\<lambda>p1. Option.bind (session_round env as p1) (\<lambda>(so, as').
       if so_continue so then
         map_option (\<lambda>(q, piped, sent). (q, so_pipe so @ piped, so_sent so @ sent)) (session_loop envs as' (so_port so))
       else Some (so_port so, so_pipe so, so_sent so)))"

definition import_reply :: "u32 \<Rightarrow> bytes list" where
  "import_reply profile = [op_header kOpRepImport, wire_device profile]"

definition handle_import_session ::
  "bool \<Rightarrow> acceptance list \<Rightarrow> acceptance list \<Rightarrow> (Frame list \<times> submit_env) list \<Rightarrow> arrival list \<Rightarrow> VirtualPort \<Rightarrow>
   (VirtualPort \<times> bytes \<times> bytes) option" where
  "handle_import_session pipe_connected ws1 ws2 envs as p =
     (let greeting = snd (send_all [op_header kOpRepImport] ws1) @ snd (send_all [wire_device (up_profile p)] ws2);
          p1 = p\<lparr>attached := True\<rparr> in
      if \<not> pipe_connected then Some (p\<lparr>attached := False\<rparr>, [], greeting)
      else map_option (\<lambda>(q, piped, sent). (end_session q, piped, greeting @ sent)) (session_loop envs as p1))"

section \<open>The port as a state machine\<close>

text \<open>
  The steps of the threads of a port, in any order: the reader distributes a frame, the session
  thread handles a transfer, the pacer sends a reply, the boost is set, a session begins or ends,
  and the port is told to stop.
\<close>

inductive port_moves :: "VirtualPort \<Rightarrow> VirtualPort \<Rightarrow> bool" where
  reader: "demux_frame f p = Some q \<Longrightarrow> port_moves p q"
| submit: "handle_cmd_submit cmd out_data isos env p = Some so \<Longrightarrow> port_moves p (so_port so)"
| pacer: "iso_pacer_round now p = Some (r, q) \<Longrightarrow> port_moves p q"
| boost: "port_moves p (p\<lparr>mic_gain := set_mic_capture_gain g\<rparr>)"
| start: "port_moves p (p\<lparr>attached := True\<rparr>)"
| finish: "port_moves p (end_session p)"
| stop: "port_moves p (p\<lparr>stop_requested := True\<rparr>)"

inductive port_reachable :: "VirtualPort \<Rightarrow> bool" where
  new: "port_reachable (new_port profile g)"
| move: "port_reachable p \<Longrightarrow> port_moves p q \<Longrightarrow> port_reachable q"

definition of_frame_type :: "u16 \<Rightarrow> Frame list \<Rightarrow> bool" where
  "of_frame_type t fs \<longleftrightarrow> (\<forall>f \<in> set fs. fh_type (fr_header f) = t)"

definition port_inv :: "VirtualPort \<Rightarrow> bool" where
  "port_inv p \<longleftrightarrow> length (hid_in_queue p) \<le> 8 \<and> of_frame_type VDS_FRAME_USB_HID_IN (hid_in_queue p) \<and>
     of_frame_type VDS_FRAME_USB_FEATURE_REPLY (feature_reply_queue p) \<and>
     length (mic_ring_buffer p) \<le> kMicMaxBufferBytes \<and> sorted (map fst (paced_replies p)) \<and>
     0 \<le> speaker_gain_q15 p \<and> speaker_gain_q15 p \<le> 2 ^ 15 \<and> is_s16 (fu_volume_db256 p)"

lemma of_frame_type_simps [simp]:
  "of_frame_type t []" "of_frame_type t (f # fs) \<longleftrightarrow> fh_type (fr_header f) = t \<and> of_frame_type t fs"
  "of_frame_type t (fs @ gs) \<longleftrightarrow> of_frame_type t fs \<and> of_frame_type t gs"
  by (auto simp: of_frame_type_def)

lemma of_frame_type_newest: "of_frame_type t fs \<Longrightarrow> of_frame_type t (newest n fs)"
  by (auto simp: of_frame_type_def newest_def dest: in_set_dropD)

lemma push_hid_newest: "length q \<le> 8 \<Longrightarrow> push_hid q f = newest 8 (q @ [f])"
  using hid_queue.push_eq [of q "[f]"] by simp

lemma wait_for_hid_cases:
  assumes "wait_for_hid_in_frame fs p = Some (f, q)"
  obtains z where "z = p \<or> demux_frames fs p = Some z" "hid_in_queue z = []" "f = None" "q = z"
  | z g rest where "z = p \<or> demux_frames fs p = Some z" "hid_in_queue z = g # rest" "f = Some g" "q = z\<lparr>hid_in_queue := rest\<rparr>"
proof -
  from assms obtain z where z: "z = p \<or> demux_frames fs p = Some z"
    "(case hid_in_queue z of [] \<Rightarrow> (None, z) | g # rest \<Rightarrow> (Some g, z\<lparr>hid_in_queue := rest\<rparr>)) = (f, q)"
    by (auto simp: wait_for_hid_in_frame_def split: if_splits)
  with that show thesis by (cases "hid_in_queue z") auto
qed

lemma wait_for_feature_cases:
  assumes "wait_for_feature_reply fs p = Some (f, q)"
  obtains z where "z = p \<or> demux_frames fs p = Some z" "feature_reply_queue z = []" "f = None" "q = z"
  | z g rest where "z = p \<or> demux_frames fs p = Some z" "feature_reply_queue z = g # rest" "f = Some g"
      "q = z\<lparr>feature_reply_queue := rest\<rparr>"
proof -
  from assms obtain z where z: "z = p \<or> demux_frames fs p = Some z"
    "(case feature_reply_queue z of [] \<Rightarrow> (None, z) | g # rest \<Rightarrow> (Some g, z\<lparr>feature_reply_queue := rest\<rparr>)) = (f, q)"
    by (auto simp: wait_for_feature_reply_def split: if_splits)
  with that show thesis by (cases "feature_reply_queue z") auto
qed

lemma forward_port: "forward t payload env p = Some (r, q, out) \<Longrightarrow> q = p"
  by (auto simp: forward_def split: prod.splits sum.splits)

text \<open>
  A predicate on ports that the elementary operations of a transfer keep is kept by every
  transfer: the contract on which the invariants of the port rest.
\<close>

locale transfer_stable =
  fixes P :: "VirtualPort \<Rightarrow> bool"
  assumes demux: "demux_frame f p = Some q \<Longrightarrow> P p \<Longrightarrow> P q"
    and pop_hid: "P p \<Longrightarrow> hid_in_queue p = f # rest \<Longrightarrow> P (p\<lparr>hid_in_queue := rest\<rparr>)"
    and pop_feature: "P p \<Longrightarrow> feature_reply_queue p = f # rest \<Longrightarrow> P (p\<lparr>feature_reply_queue := rest\<rparr>)"
    and take_mic: "P p \<Longrightarrow> P (snd (take_mic_bytes n p))"
    and flush: "P p \<Longrightarrow> P (flush_mic p)"
    and set_unit: "P p \<Longrightarrow> P (feature_unit_set pow10 sel out_data p)"
begin

lemma demux_all: "demux_frames fs p = Some q \<Longrightarrow> P p \<Longrightarrow> P q"
  by (induction fs arbitrary: p) (auto simp: bind_eq_Some_conv dest: demux)

lemma wait_hid: "wait_for_hid_in_frame fs p = Some (f, q) \<Longrightarrow> P p \<Longrightarrow> P q"
  by (erule wait_for_hid_cases) (auto dest: demux_all pop_hid)

lemma wait_feature: "wait_for_feature_reply fs p = Some (f, q) \<Longrightarrow> P p \<Longrightarrow> P q"
  by (erule wait_for_feature_cases) (auto dest: demux_all pop_feature)

lemma get_report: "get_feature_report v n env p = Some (r, q, out) \<Longrightarrow> P p \<Longrightarrow> P q"
  by (auto simp: get_feature_report_def split: prod.splits sum.splits dest: wait_feature)

lemma control:
  assumes "control_transfer cmd out_data env p = Some (r, q, out)" "P p"
  shows "P q"
proof -
  from assms(1) obtain r' where "control_request cmd out_data env p = Some (r', q, out)"
    by (auto simp: control_transfer_def)
  then show ?thesis
    using assms(2) flush [OF assms(2)] set_unit [OF assms(2)] unfolding control_request_def Let_def
    by (auto split: if_splits dest: forward_port get_report [OF _ assms(2)])
qed

lemma transfer:
  assumes "run_transfer cmd out_data env p = Some (r, q, out)" "P p"
  shows "P q"
  using assms(1) assms(2) take_mic [OF assms(2), of "nat (c_transfer_buffer_length cmd mod 2 ^ 64)"]
  unfolding run_transfer_def with_packets_def
  by (auto split: if_splits prod.splits dest: forward_port control wait_hid)

end

lemma update_gain_inv: "port_inv p \<Longrightarrow> port_inv (update_speaker_gain pow10 p)"
  using q15_range by (simp add: port_inv_def update_speaker_gain_def speaker_gain_for_def)

interpretation port_inv: transfer_stable port_inv
proof
  show "demux_frame f p = Some q \<Longrightarrow> port_inv p \<Longrightarrow> port_inv q" for f p q
    by (auto simp: demux_frame_def port_inv_def push_hid_newest push_mic_eq of_frame_type_newest split: if_splits)
  show "port_inv p \<Longrightarrow> port_inv (feature_unit_set pow10 sel out_data p)" for p pow10 sel out_data
    unfolding feature_unit_set_def by (auto intro!: update_gain_inv) (simp_all add: port_inv_def is_s16_read)
qed (auto simp: port_inv_def take_mic_bytes_def flush_mic_def Let_def)

interpretation paced: transfer_stable "\<lambda>p. paced_replies p = ps \<and> stop_requested p = b" for ps b
  by unfold_locales
    (auto simp: demux_frame_def take_mic_bytes_def flush_mic_def feature_unit_set_def update_speaker_gain_def Let_def
      split: if_splits)

lemma pace_reply_inv: "port_inv p \<Longrightarrow> port_inv (pace_reply b now n r p)"
  by (simp add: port_inv_def pace_reply_def Let_def emplace_sorted)

lemma handle_cmd_submit_cases:
  assumes "handle_cmd_submit cmd out_data isos env p = Some so"
  obtains e q piped where "run_transfer cmd out_data env p = Some (Inl e, q, piped)"
      "so = \<lparr>so_continue = False, so_port = q, so_pipe = piped, so_sent = []\<rparr>"
  | reply_data status packets q piped where
      "run_transfer cmd out_data env p = Some (Inr (reply_data, status, packets), q, piped)"
      "so = finish_submit cmd env q piped (build_reply cmd isos reply_data status packets)"
proof -
  from assms obtain r q piped where t: "run_transfer cmd out_data env p = Some (r, q, piped)"
    by (auto simp: handle_cmd_submit_def)
  with assms that show thesis by (cases r) (auto simp: handle_cmd_submit_def)
qed

lemma finish_submit_port:
  "so_port (finish_submit cmd env q piped reply) = q \<or>
   (\<exists>b now n pr. so_port (finish_submit cmd env q piped reply) = pace_reply b now n pr q)"
  unfolding finish_submit_def by (cases "pace_out cmd \<or> pace_in cmd") (auto split: prod.split)

lemma handle_cmd_submit_inv:
  assumes "handle_cmd_submit cmd out_data isos env p = Some so" "port_inv p"
  shows "port_inv (so_port so)"
  using assms(1)
proof (cases rule: handle_cmd_submit_cases)
  case (1 e q piped)
  with port_inv.transfer [OF 1(1) assms(2)] show ?thesis by simp
next
  case (2 reply_data status packets q piped)
  with port_inv.transfer [OF 2(1) assms(2)] finish_submit_port pace_reply_inv show ?thesis by metis
qed

lemma pacer_inv: "iso_pacer_round now p = Some (r, q) \<Longrightarrow> port_inv p \<Longrightarrow> port_inv q"
  by (auto simp: iso_pacer_round_def port_inv_def split: if_splits list.splits)

lemma port_moves_inv: "port_moves p q \<Longrightarrow> port_inv p \<Longrightarrow> port_inv q"
proof (induction rule: port_moves.induct)
  case (finish p)
  then show ?case by (simp add: port_inv_def end_session_def)
qed (auto dest: port_inv.demux handle_cmd_submit_inv pacer_inv simp: port_inv_def)

lemma port_reachable_inv: "port_reachable p \<Longrightarrow> port_inv p"
proof (induction rule: port_reachable.induct)
  case (new profile g)
  show ?case by (simp add: port_inv_def new_port_def is_s16_def)
qed (rule port_moves_inv)

section \<open>Replies\<close>

lemma word_at_simps [simp]:
  "word_at 0 (be32 v @ t) = v" "word_at (Suc i) (be32 v @ t) = word_at i t"
  by (simp_all add: word_at_def)

lemma length_ret_bytes [simp]: "length (ret_bytes r) = 48"
  by (simp add: ret_bytes_def)

lemma ret_bytes_words:
  "word_at 0 (ret_bytes r @ t) = kRetSubmit" "word_at 1 (ret_bytes r @ t) = r_seqnum r"
  "word_at 5 (ret_bytes r @ t) = word_of_int (r_status r)" "word_at 6 (ret_bytes r @ t) = r_actual_length r"
  "word_at 8 (ret_bytes r @ t) = word_of_int (r_number_of_packets r)"
  by (simp_all add: ret_bytes_def eval_nat_numeral)

lemma send_all_eq: "send_all ms ws = socket_writer.wr_all ms ws"
  by (induction ms arbitrary: ws) (auto split: prod.splits)

lemma send_all_success: "send_all ms ws = (True, out) \<Longrightarrow> out = concat ms"
  using socket_writer.wr_all_prefix [of ms ws] by (simp add: send_all_eq)

lemma finish_submit_reply:
  assumes "so = finish_submit cmd env q piped (ret, data, isob)" "so_continue so"
  shows "if pace_out cmd \<or> pace_in cmd
    then so_sent so = [] \<and> (\<exists>due. paced_replies (so_port so) =
      emplace due \<lparr>pr_client = env_client env, pr_bytes = ret @ (if pace_in cmd then data else []) @ isob\<rparr> (paced_replies q))
    else so_sent so = ret @ data @ isob \<and> paced_replies (so_port so) = paced_replies q"
proof (cases "pace_out cmd \<or> pace_in cmd")
  case True
  then have "so_sent so = []" "\<exists>b. so_port so = pace_reply b (env_now env) (c_number_of_packets cmd)
      \<lparr>pr_client = env_client env, pr_bytes = ret @ (if pace_in cmd then data else []) @ isob\<rparr> q"
    using assms(1) by (auto simp: finish_submit_def)
  moreover have "\<exists>due. paced_replies (pace_reply b now n r q) = emplace due r (paced_replies q)" for b now n r
    by (cases b) (auto simp: pace_reply_def Let_def)
  ultimately show ?thesis using True by metis
next
  case False
  let ?ms = "[ret] @ (if data = [] then [] else [data]) @ (if isob = [] then [] else [isob])"
  obtain b sent where st: "send_all ?ms (env_socket env) = (b, sent)" by (cases "send_all ?ms (env_socket env)")
  with False assms have "so = \<lparr>so_continue = b, so_port = q, so_pipe = piped, so_sent = sent\<rparr>" "b"
    by (simp_all only: finish_submit_def prod.case if_False submit_outcome.simps)
  with False send_all_success [of ?ms "env_socket env" sent] st show ?thesis by simp
qed

lemma transfer_paced:
  "run_transfer cmd out_data env p = Some (r, q, out) \<Longrightarrow> paced_replies q = paced_replies p"
  using paced.transfer [where ps = "paced_replies p" and b = "stop_requested p"] by blast

text \<open>The data of a reply: never more than a control transfer asked for, and all that the
  microphone transfer asked for.\<close>

lemma control_data_bound:
  assumes "control_transfer cmd out_data env p = Some (Inr (data, status), q, out)" "c_setup cmd ! 0 AND 0x80 \<noteq> 0"
  shows "length data \<le> unat (from_le16 (take 2 (drop 6 (c_setup cmd))))"
  using assms by (auto simp: control_transfer_def res_bind_Inr_iff)

lemma run_transfer_data:
  assumes "run_transfer cmd out_data env p = Some (Inr (data, status, n), q, out)"
  shows "c_ep cmd = 0 \<and> c_setup cmd ! 0 AND 0x80 \<noteq> 0 \<Longrightarrow> length data \<le> unat (from_le16 (take 2 (drop 6 (c_setup cmd))))"
    and "pace_in cmd \<and> 0 \<le> c_transfer_buffer_length cmd \<and> c_transfer_buffer_length cmd < 2 ^ 31 \<Longrightarrow>
      length data = nat (c_transfer_buffer_length cmd)"
proof -
  show "length data \<le> unat (from_le16 (take 2 (drop 6 (c_setup cmd))))"
    if "c_ep cmd = 0 \<and> c_setup cmd ! 0 AND 0x80 \<noteq> 0"
    using assms that control_data_bound [of cmd out_data env p data status q out]
    by (auto simp: run_transfer_def with_packets_def res_bind_Inr_iff)
  assume *: "pace_in cmd \<and> 0 \<le> c_transfer_buffer_length cmd \<and> c_transfer_buffer_length cmd < 2 ^ 31"
  let ?n = "nat (c_transfer_buffer_length cmd)"
  have "c_transfer_buffer_length cmd mod 2 ^ 64 = c_transfer_buffer_length cmd" using * by (intro mod_pos_pos_trivial) auto
  with assms * have t: "fst (take_mic_bytes ?n p) = Inr data"
    by (auto simp: run_transfer_def with_packets_def res_bind_Inr_iff pace_in_def kEpAudioIn_def kEpAudioOut_def
        kEpHidIn_def kEpHidOut_def VDS_USB_AUDIO_IN_ENDPOINT_def VDS_USB_AUDIO_OUT_ENDPOINT_def kDirIn_def kDirOut_def
        VDS_USB_HID_IN_ENDPOINT_def VDS_USB_HID_OUT_ENDPOINT_def split: prod.splits)
  have "?n \<le> vector_limit" using * by (simp add: vector_limit_def nat_le_iff)
  from take_mic_output(1) [OF this, of p] t show "length data = ?n" by (simp add: mic_data_def split: if_splits)
qed

lemma iso_actual_bound:
  assumes "direction = kDirIn"
  shows "unat (iso_actual direction n d) \<le> unat (iso_length d) \<and>
    (iso_actual direction n d \<noteq> 0 \<longrightarrow> unat (iso_offset d) + unat (iso_actual direction n d) \<le> n)"
proof (cases "unat (iso_offset d) < n")
  case True
  let ?m = "min (unat (iso_length d)) (n - unat (iso_offset d))"
  have "unat (iso_length d) < 2 ^ LENGTH(32)" by (rule unsigned_less)
  then have "?m < 2 ^ 32" by (simp add: min_less_iff_disj)
  then have "unat (of_nat ?m :: u32) = ?m" by (simp add: unsigned_of_nat take_bit_nat_eq_self)
  moreover have "unat (iso_offset d) + ?m \<le> n" using True by linarith
  ultimately show ?thesis using True assms by (simp add: iso_actual_def)
qed (use assms in \<open>simp add: iso_actual_def\<close>)

lemma iso_bytes_words:
  assumes "k < length isos"
  shows "word_at (4 * k + 2) (concat (map (iso_bytes d n) isos)) = iso_actual d n (isos ! k)"
  using assms
proof (induction isos arbitrary: k)
  case (Cons i isos)
  show ?case
  proof (cases k)
    case 0
    then show ?thesis by (simp add: iso_bytes_def eval_nat_numeral)
  next
    case (Suc j)
    have "word_at (4 * Suc j + 2) (iso_bytes d n i @ t) = word_at (4 * j + 2) t" for t
      by (simp add: iso_bytes_def eval_nat_numeral)
    with Suc Cons show ?thesis by simp
  qed
qed simp

section \<open>Requests on the wire\<close>

text \<open>The bytes a client sends for a transfer.\<close>

definition encode_cmd :: "UsbipCmdSubmit \<Rightarrow> bytes" where
  "encode_cmd c =
     be32 (c_command c) @ be32 (c_seqnum c) @ be32 (c_devid c) @ be32 (c_direction c) @ be32 (c_ep c) @
     be32 (c_transfer_flags c) @ be32 (word_of_int (c_transfer_buffer_length c)) @ be32 (c_start_frame c) @
     be32 (word_of_int (c_number_of_packets c)) @ be32 (c_interval c) @ c_setup c"

definition encode_iso :: "UsbipIsoPacketDescriptor \<Rightarrow> bytes" where
  "encode_iso d = be32 (iso_offset d) @ be32 (iso_length d) @ replicate 8 0"

definition is_s32 :: "int \<Rightarrow> bool" where
  "is_s32 v \<longleftrightarrow> - (2 ^ 31) \<le> v \<and> v < 2 ^ 31"

definition wf_cmd :: "UsbipCmdSubmit \<Rightarrow> bool" where
  "wf_cmd c \<longleftrightarrow> is_s32 (c_transfer_buffer_length c) \<and> is_s32 (c_number_of_packets c) \<and> length (c_setup c) = 8"

lemma sint_word_of_int: "is_s32 v \<Longrightarrow> sint (word_of_int v :: u32) = v"
  unfolding is_s32_def by (simp add: signed_of_int signed_take_bit_int_eq_self)

lemma parse_encode_cmd: "wf_cmd c \<Longrightarrow> parse_cmd (encode_cmd c) = c"
  unfolding wf_cmd_def parse_cmd_def encode_cmd_def
  by (cases c) (simp add: eval_nat_numeral sint_word_of_int)

lemma length_encode_cmd: "wf_cmd c \<Longrightarrow> length (encode_cmd c) = 48"
  by (simp add: encode_cmd_def wf_cmd_def)

lemma parse_encode_isos: "parse_isos (length ds) (concat (map encode_iso ds)) = ds"
proof (induction ds)
  case (Cons d ds)
  have "length (encode_iso d) = 16" by (simp add: encode_iso_def)
  with Cons show ?case by (simp add: encode_iso_def numeral_2_eq_2)
qed simp

lemma length_encode_isos: "length (concat (map encode_iso ds)) = length ds * 16"
  by (induction ds) (simp_all add: encode_iso_def)

lemma session_round_submit:
  assumes "wf_cmd cmd" "c_command cmd = kCmdSubmit" "pieces as"
    and "arrived as = encode_cmd cmd @ out_data @ concat (map encode_iso isos) @ rest"
    and "length out_data = (if c_direction cmd = kDirOut \<and> c_transfer_buffer_length cmd > 0
           then nat (c_transfer_buffer_length cmd) else 0)"
    and "length isos = nat (c_number_of_packets cmd)"
  shows "\<exists>as'. session_round env as p = map_option (\<lambda>so. (so, as')) (handle_cmd_submit cmd out_data isos env p) \<and>
    pieces as' \<and> arrived as' = rest"
proof -
  have n: "kCmdSubmit \<noteq> kCmdUnlink" by (simp add: kCmdSubmit_def kCmdUnlink_def)
  from socket_reader.rd_exact [OF assms(3,4)] obtain as1 where
    1: "recv_exact 48 as = (Some (encode_cmd cmd), as1)" "pieces as1"
      "arrived as1 = out_data @ concat (map encode_iso isos) @ rest" using length_encode_cmd [OF assms(1)] by auto
  from socket_reader.rd_exact [OF 1(2,3)] obtain as2 where
    2: "recv_exact (length out_data) as1 = (Some out_data, as2)" "pieces as2" "arrived as2 = concat (map encode_iso isos) @ rest"
    by auto
  have two: "(if c_direction cmd = kDirOut \<and> c_transfer_buffer_length cmd > 0
      then recv_exact (nat (c_transfer_buffer_length cmd)) as1 else (Some [], as1)) = (Some out_data, as2)"
    using 2(1) assms(5) by (auto simp: recv_exact.simps [of 0] split: if_splits)
  from socket_reader.rd_exact [OF 2(2,3)] obtain as3 where
    3: "recv_exact (length isos * 16) as2 = (Some (concat (map encode_iso isos)), as3)" "pieces as3" "arrived as3 = rest"
    by (auto simp: length_encode_isos)
  have three: "(if c_number_of_packets cmd > 0
      then recv_exact (nat (c_number_of_packets cmd) * 16) as2 else (Some [], as2)) =
      (Some (concat (map encode_iso isos)), as3)"
    using 3(1) assms(6) by (auto simp: recv_exact.simps [of 0])
  have "session_round env as p = map_option (\<lambda>so. (so, as3)) (handle_cmd_submit cmd out_data isos env p)"
    using parse_encode_isos [of isos] unfolding assms(6)
    by (simp add: session_round_def 1(1) parse_encode_cmd [OF assms(1)] assms(2) n two three)
  with 3(2,3) show ?thesis by blast
qed

definition sample_cmd :: UsbipCmdSubmit where
  "sample_cmd =
     \<lparr>c_command = kCmdSubmit, c_seqnum = 7, c_devid = 1, c_direction = kDirIn, c_ep = 0, c_transfer_flags = 0,
      c_transfer_buffer_length = 4, c_start_frame = 0, c_number_of_packets = 0, c_interval = 0,
      c_setup = [0x80, 0x06, 0, 0x03, 0x09, 0x04, 2, 0]\<rparr>"

definition sample_env :: submit_env where
  "sample_env = \<lparr>env_now = 0, env_client = 1, env_frames = [], env_pipe = [], env_socket = [], env_pow10 = (\<lambda>_. (1, 0))\<rparr>"

lemma sample_transfer:
  "run_transfer sample_cmd [] sample_env (new_port 0 default_mic_gain) =
     Some (Inr ([0x04, 0x03], 0, 0), new_port 0 default_mic_gain, [])"
proof -
  have "from_le16 [0, 3] = 0x300" "from_le16 [2, 0] = 2" "from_le16 [9, 4] = 0x409" by code_simp+
  then have "control_request sample_cmd [] sample_env (new_port 0 default_mic_gain) =
      Some (Inr ([0x04, 0x03], 0), new_port 0 default_mic_gain, [])"
    by (simp add: control_request_def sample_cmd_def get_descriptor_def build_langid_descriptor_def Let_def)
  moreover have "c_setup sample_cmd = [0x80, 0x06, 0, 0x03, 0x09, 0x04, 2, 0]" "c_ep sample_cmd = 0"
    by (simp_all add: sample_cmd_def)
  ultimately show ?thesis
    using \<open>from_le16 [2, 0] = 2\<close> by (simp add: run_transfer_def with_packets_def control_transfer_def)
qed

lemma sample_submit:
  "\<exists>so. handle_cmd_submit sample_cmd [] [] sample_env (new_port 0 default_mic_gain) = Some so \<and> so_continue so"
proof -
  have "send_all ms [] = (True, concat ms)" for ms
    using socket_writer.wr_all_accepting [of "[]" ms] by (simp add: send_all_eq)
  then show ?thesis
    unfolding handle_cmd_submit_def sample_transfer
    by (simp add: finish_submit_def pace_out_def pace_in_def sample_cmd_def kDirIn_def kDirOut_def sample_env_def split: prod.split)
qed

section \<open>Properties\<close>

text \<open>
  C10. After any sequence of steps of a port (a frame from the daemon is distributed, a transfer is handled with the
  frames that arrive meanwhile, the pacer runs a round, the microphone gain is set, a session starts or ends, the
  port is stopped): at most eight input reports wait; the microphone buffer holds at most \<open>kMicMaxBufferBytes\<close>;
  the input queue and the queue of feature replies hold only frames of their type; the replies that wait for the
  pacer are in the order of their due times; the speaker gain lies between 0 and 1 and the volume is a 16-bit value.
  (The code bounds neither the queue of feature replies nor the replies that wait for the pacer, and neither does
  the theorem; nothing is stated of the microphone gain.)
\<close>

theorem usbip_port_invariant:
  assumes "port_reachable p"
  shows "length (hid_in_queue p) \<le> 8 \<and> of_frame_type VDS_FRAME_USB_HID_IN (hid_in_queue p) \<and>
    of_frame_type VDS_FRAME_USB_FEATURE_REPLY (feature_reply_queue p) \<and>
    length (mic_ring_buffer p) \<le> kMicMaxBufferBytes \<and> sorted (map fst (paced_replies p)) \<and>
    0 \<le> speaker_gain_q15 p \<and> speaker_gain_q15 p \<le> 2 ^ 15 \<and> is_s16 (fu_volume_db256 p)"
  using port_reachable_inv [OF assms] by (simp only: port_inv_def)

theorem usbip_port_invariant_witness:
  "\<exists>p. demux_frame (frame_of VDS_FRAME_USB_HID_IN [1, 2]) (new_port 1 default_mic_gain) = Some p \<and>
     hid_in_queue p = [frame_of VDS_FRAME_USB_HID_IN [1, 2]] \<and> length (hid_in_queue p) \<le> 8 \<and>
     of_frame_type VDS_FRAME_USB_HID_IN (hid_in_queue p)"
proof -
  obtain p where p: "demux_frame (frame_of VDS_FRAME_USB_HID_IN [1, 2]) (new_port 1 default_mic_gain) = Some p"
    "hid_in_queue p = [frame_of VDS_FRAME_USB_HID_IN [1, 2]]"
    by (simp add: demux_frame_def frame_of_def frame_types new_port_def push_hid_newest newest_def)
  then have "port_reachable p" using port_reachable.move [OF port_reachable.new port_moves.reader] by blast
  from usbip_port_invariant [OF this] p show ?thesis by blast
qed

text \<open>
  C20. A transfer is answered exactly once: when the handler of a transfer lets the session continue, the transfer
  ran, and its one reply is the header of 48 bytes with the reply command, the sequence number of the request and
  the status of the transfer, followed by the data of the transfer and 16 bytes for each isochronous packet. Exactly
  these bytes are sent and nothing is added for the pacer; or, for a paced transfer, nothing is sent and exactly one
  entry with these bytes (without data when it goes to the device) is added to the replies that wait for the pacer. When
  the session does not continue, nothing is stated: the connection is closed.
\<close>

theorem submit_replied_once:
  assumes "handle_cmd_submit cmd out_data isos env p = Some so" "so_continue so"
  shows "\<exists>data status packets q piped ret isob.
    run_transfer cmd out_data env p = Some (Inr (data, status, packets), q, piped) \<and>
    length ret = 48 \<and> word_at 0 ret = kRetSubmit \<and> word_at 1 ret = c_seqnum cmd \<and> word_at 5 ret = word_of_int status \<and>
    length isob = (if c_number_of_packets cmd > 0 then 16 * length isos else 0) \<and>
    (if pace_out cmd \<or> pace_in cmd
     then so_sent so = [] \<and>
       (\<exists>due. paced_replies (so_port so) = emplace due \<lparr>pr_client = env_client env,
          pr_bytes = ret @ (if pace_in cmd then data else []) @ isob\<rparr> (paced_replies p))
     else so_sent so = ret @ data @ isob \<and> paced_replies (so_port so) = paced_replies p)"
  using assms(1)
proof (cases rule: handle_cmd_submit_cases)
  case (2 reply_data status packets q piped)
  obtain ret data isob where b: "build_reply cmd isos reply_data status packets = (ret, data, isob)"
    by (cases "build_reply cmd isos reply_data status packets")
  then obtain rr where rr: "ret = ret_bytes rr" "r_seqnum rr = c_seqnum cmd" "r_status rr = status"
    and d: "data = reply_data"
      "isob = (if c_number_of_packets cmd > 0 then concat (map (iso_bytes (c_direction cmd) (length data)) isos) else [])"
    by (auto simp: build_reply_def Let_def)
  have len: "length (concat (map (iso_bytes dir n) isos)) = 16 * length isos" for dir n
    by (induction isos) (simp_all add: iso_bytes_def)
  note f = finish_submit_reply [OF 2(2) [unfolded b] assms(2), unfolded transfer_paced [OF 2(1)] d(1)]
  have r: "length ret = 48" "word_at 0 ret = kRetSubmit" "word_at 1 ret = c_seqnum cmd" "word_at 5 ret = word_of_int status"
    using ret_bytes_words [of rr "[]"] by (simp_all add: rr)
  have "length isob = (if c_number_of_packets cmd > 0 then 16 * length isos else 0)" using len by (simp add: d(2))
  with 2(1) r f show ?thesis by blast
qed (use assms(2) in simp)

theorem submit_replied_once_witness:
  "\<exists>so ret. handle_cmd_submit sample_cmd [] [] sample_env (new_port 0 default_mic_gain) = Some so \<and>
     so_sent so = ret @ [0x04, 0x03] \<and> length ret = 48 \<and> word_at 1 ret = 7"
proof -
  obtain so where so: "handle_cmd_submit sample_cmd [] [] sample_env (new_port 0 default_mic_gain) = Some so" "so_continue so"
    using sample_submit by blast
  have "\<not> pace_out sample_cmd" "\<not> pace_in sample_cmd" "c_seqnum sample_cmd = 7"
    by (simp_all add: sample_cmd_def pace_out_def pace_in_def kDirIn_def kDirOut_def)
  with submit_replied_once [OF so] so(1) show ?thesis by (auto simp: sample_transfer split: if_splits)
qed

text \<open>
  Replies are consistent with what was asked, which the client checks before it accepts them:
  the length field of a reply is the number of data bytes, or for isochronous transfers the sum of
  the lengths of the packets, which for input all lie inside the data; a control transfer to the
  host never returns more than its length field, and a microphone transfer exactly its length.
\<close>

theorem reply_lengths_consistent:
  assumes "run_transfer cmd out_data env p = Some (Inr (data, status, packets), q, piped)"
    and "build_reply cmd isos data status packets = (ret, data', isob)"
  shows "length ret = 48 \<and> data' = data \<and> word_at 5 ret = word_of_int status \<and>
    word_at 6 ret = (if c_number_of_packets cmd > 0
      then sum_list (map (\<lambda>k. word_at (4 * k + 2) isob) [0..<length isos]) else of_nat (length data)) \<and>
    (c_direction cmd = kDirIn \<longrightarrow> (\<forall>d \<in> set isos. iso_actual kDirIn (length data) d \<noteq> 0 \<longrightarrow>
       unat (iso_offset d) + unat (iso_actual kDirIn (length data) d) \<le> length data)) \<and>
    (c_ep cmd = 0 \<and> c_setup cmd ! 0 AND 0x80 \<noteq> 0 \<longrightarrow>
       length data \<le> unat (from_le16 (take 2 (drop 6 (c_setup cmd))))) \<and>
    (pace_in cmd \<and> 0 \<le> c_transfer_buffer_length cmd \<and> c_transfer_buffer_length cmd < 2 ^ 31 \<longrightarrow>
       length data = nat (c_transfer_buffer_length cmd))"
proof -
  let ?a = "iso_actual (c_direction cmd) (length data)"
  from assms(2) have b: "data' = data"
    "isob = (if c_number_of_packets cmd > 0 then concat (map (iso_bytes (c_direction cmd) (length data)) isos) else [])"
    "\<exists>rr. ret = ret_bytes rr \<and> r_status rr = status \<and>
      r_actual_length rr = (if c_number_of_packets cmd > 0 then sum_list (map ?a isos) else of_nat (length data))"
    by (auto simp: build_reply_def Let_def)
  then obtain rr where rr: "ret = ret_bytes rr" "r_status rr = status"
    "r_actual_length rr = (if c_number_of_packets cmd > 0 then sum_list (map ?a isos) else of_nat (length data))" by blast
  have "map (\<lambda>k. word_at (4 * k + 2) isob) [0..<length isos] = map ?a isos" if "c_number_of_packets cmd > 0"
    using that b(2) by (intro nth_equalityI) (simp_all add: iso_bytes_words del: add_2_eq_Suc add_2_eq_Suc')
  moreover have "word_at 5 ret = word_of_int status" "word_at 6 ret = r_actual_length rr" "length ret = 48"
    using ret_bytes_words [of rr "[]"] rr(1,2) by simp_all
  ultimately show ?thesis
    using b(1) rr(3) iso_actual_bound run_transfer_data [OF assms(1)] by simp
qed

theorem reply_lengths_consistent_witness:
  "word_at 6 (fst (build_reply sample_cmd [] [0x04, 0x03] 0 0)) = 2"
proof -
  obtain ret d i where b: "build_reply sample_cmd [] [0x04, 0x03] 0 0 = (ret, d, i)"
    by (cases "build_reply sample_cmd [] [0x04, 0x03] 0 0")
  have "c_number_of_packets sample_cmd = 0" by (simp add: sample_cmd_def)
  with reply_lengths_consistent [OF sample_transfer b] show ?thesis by (simp add: b)
qed

text \<open>
  Requests are read from the socket exactly as the client wrote them: for every transfer request
  in the format of the protocol (header, output data, packet descriptors), in whatever pieces it
  arrives, one round of the session performs the handler on that request, and the bytes of the
  next request are left untouched.
\<close>

theorem session_reads_requests:
  assumes "wf_cmd cmd" "c_command cmd = kCmdSubmit" "pieces as"
    and "arrived as = encode_cmd cmd @ out_data @ concat (map encode_iso isos) @ rest"
    and "length out_data = (if c_direction cmd = kDirOut \<and> c_transfer_buffer_length cmd > 0
           then nat (c_transfer_buffer_length cmd) else 0)"
    and "length isos = nat (c_number_of_packets cmd)"
  shows "\<exists>as'. session_round env as p = map_option (\<lambda>so. (so, as')) (handle_cmd_submit cmd out_data isos env p) \<and>
    pieces as' \<and> arrived as' = rest"
  using assms by (rule session_round_submit)

theorem session_reads_requests_witness:
  "\<exists>so as'. session_round sample_env [Piece (encode_cmd sample_cmd @ [1])] (new_port 0 default_mic_gain) = Some (so, as') \<and>
     so_continue so \<and> arrived as' = [1]"
proof -
  have "wf_cmd sample_cmd" "c_command sample_cmd = kCmdSubmit" "c_direction sample_cmd \<noteq> kDirOut"
    "c_number_of_packets sample_cmd = 0"
    by (simp_all add: sample_cmd_def wf_cmd_def is_s32_def kDirIn_def kDirOut_def)
  with session_reads_requests [of sample_cmd "[Piece (encode_cmd sample_cmd @ [1])]" "[]" "[]" "[1]" sample_env
      "new_port 0 default_mic_gain"] sample_submit
  show ?thesis by fastforce
qed

text \<open>
  C25. A feature report can be answered with the reply to an earlier one: when the wait for a reply
  times out, the request completes without data, and a reply that arrives afterwards stays in the
  queue and is returned for the next feature request, whatever report that asks for.
\<close>

theorem late_feature_reply_misdelivered:
  assumes "feature_reply_queue p = []" "\<not> stop_requested p" "env_frames env = []" "env_pipe env = []"
  shows "\<exists>out1 p1 out2. get_feature_report v1 n1 env p = Some (Inr ([], 0), p, out1) \<and>
    demux_frame (frame_of VDS_FRAME_USB_FEATURE_REPLY payload) p = Some p1 \<and>
    get_feature_report v2 n2 env p1 = Some (Inr (take n2 payload, 0), p, out2)"
proof -
  have w: "\<exists>out. write_daemon_frame VDS_FRAME_USB_FEATURE_GET [b] [] = (Inr (), out)" for b
    using handle_writer.wr_accepting [of "[]" "''usbip-bridge''"]
    by (auto simp: write_daemon_frame_def write_handle_frame_def frame_bytes_def VDS_FRAME_MAX_PAYLOAD_def split: prod.splits)
      (metis fst_conv)
  have q: "feature_reply_queue p = [] \<Longrightarrow> p\<lparr>feature_reply_queue := []\<rparr> = p" by simp
  from w [of "ucast v1"] w [of "ucast v2"] show ?thesis
    using assms q
    by (auto simp: get_feature_report_def wait_for_feature_reply_def demux_frame_def frame_of_def frame_types)
qed

theorem late_feature_reply_misdelivered_witness:
  "\<exists>p1 out. demux_frame (frame_of VDS_FRAME_USB_FEATURE_REPLY [5, 1]) (new_port 0 default_mic_gain) = Some p1 \<and>
     get_feature_report 9 64 sample_env p1 = Some (Inr ([5, 1], 0), new_port 0 default_mic_gain, out)"
  using late_feature_reply_misdelivered [of "new_port 0 default_mic_gain" sample_env 5 64 "[5, 1]" 9 64]
  by (auto simp: new_port_def sample_env_def)

text \<open>
  The volume and mute requests of the audio function do not distinguish its two feature units: a
  request that mutes the microphone (unit 5) sets the gain of the speaker to zero.
\<close>

theorem mic_mute_silences_speaker:
  assumes "c_setup cmd = [0x21, 0x01, 0x00, 0x01, 0x00, 0x05, 0x01, 0x00]"
  shows "\<exists>q. control_request cmd [0x01] env p = Some (Inr ([], 0), q, []) \<and> speaker_gain_q15 q = 0"
proof -
  have "from_le16 [0, 1] = 0x100" by code_simp
  then show ?thesis
    using assms
    by (simp add: control_request_def Let_def feature_unit_set_def update_speaker_gain_def speaker_gain_for_def)
qed

theorem mic_mute_silences_speaker_witness:
  "\<exists>q. control_request (sample_cmd\<lparr>c_setup := [0x21, 0x01, 0x00, 0x01, 0x00, 0x05, 0x01, 0x00]\<rparr>) [0x01] sample_env
      (new_port 0 default_mic_gain) = Some (Inr ([], 0), q, []) \<and> speaker_gain_q15 q = 0"
  using mic_mute_silences_speaker by simp

end
