(* ===== verification/Action.thy ===== *)
theory Action
  imports VdsPrelude
begin

text \<open>
  Statements that read and write a state and may throw. An action maps a state to its result,
  a value or an exception, and the state it leaves, also when it throws: an exception does not
  undo the assignments before it. The rules below carry a relation between the states before and
  after through every construct, for both exits.
\<close>

type_synonym ('s, 'a) action = "'s \<Rightarrow> 'a result \<times> 's"

definition ret :: "'a \<Rightarrow> ('s, 'a) action" where
  "ret x s = (Inr x, s)"

definition throw :: "exn \<Rightarrow> ('s, 'a) action" where
  "throw e s = (Inl e, s)"

definition gets :: "('s \<Rightarrow> 'a) \<Rightarrow> ('s, 'a) action" where
  "gets f s = (Inr (f s), s)"

definition modify :: "('s \<Rightarrow> 's) \<Rightarrow> ('s, unit) action" where
  "modify f s = (Inr (), f s)"

definition of_result :: "'a result \<Rightarrow> ('s, 'a) action" where
  "of_result r s = (r, s)"

definition act_bind :: "('s, 'a) action \<Rightarrow> ('a \<Rightarrow> ('s, 'b) action) \<Rightarrow> ('s, 'b) action" where
  "act_bind m f s = (case m s of (Inl e, s') \<Rightarrow> (Inl e, s') | (Inr x, s') \<Rightarrow> f x s')"

definition act_seq :: "('s, 'a) action \<Rightarrow> ('s, 'b) action \<Rightarrow> ('s, 'b) action" where
  "act_seq m n = act_bind m (\<lambda>_. n)"

definition act_if :: "('s \<Rightarrow> bool) \<Rightarrow> ('s, 'a) action \<Rightarrow> ('s, 'a) action \<Rightarrow> ('s, 'a) action" where
  "act_if b m n s = (if b s then m s else n s)"

definition act_when :: "('s \<Rightarrow> bool) \<Rightarrow> ('s, unit) action \<Rightarrow> ('s, unit) action" where
  "act_when b m = act_if b m (ret ())"

definition catch :: "('s, 'a) action \<Rightarrow> (exn \<Rightarrow> ('s, 'a) action) \<Rightarrow> ('s, 'a) action" where
  "catch m h s = (case m s of (Inl e, s') \<Rightarrow> h e s' | (Inr x, s') \<Rightarrow> (Inr x, s'))"

fun for_each :: "'a list \<Rightarrow> ('a \<Rightarrow> ('s, unit) action) \<Rightarrow> ('s, unit) action" where
  "for_each [] m = ret ()"
| "for_each (x # xs) m = act_seq (m x) (for_each xs m)"

text \<open>A bounded loop that runs while its body returns true.\<close>

fun repeat_while :: "nat \<Rightarrow> ('s, bool) action \<Rightarrow> ('s, unit) action" where
  "repeat_while 0 m = ret ()"
| "repeat_while (Suc n) m = act_bind m (\<lambda>go. if go then repeat_while n m else ret ())"

text \<open>An action on a part of the state.\<close>

definition on_part :: "('s \<Rightarrow> 't) \<Rightarrow> ('t \<Rightarrow> 's \<Rightarrow> 's) \<Rightarrow> ('t, 'a) action \<Rightarrow> ('s, 'a) action" where
  "on_part get put m s = (case m (get s) of (r, t) \<Rightarrow> (r, put t s))"

lemma act_apply [simp]:
  "ret x s = (Inr x, s)"
  "throw e s = (Inl e, s)"
  "gets f s = (Inr (f s), s)"
  "modify g s = (Inr (), g s)"
  "of_result r s = (r, s)"
  "act_if b m n s = (if b s then m s else n s)"
  "act_when b k s = (if b s then k s else (Inr (), s))"
  by (simp_all add: ret_def throw_def gets_def modify_def of_result_def act_if_def act_when_def)

lemma act_bind_Inr: "m s = (Inr x, s') \<Longrightarrow> act_bind m f s = f x s'"
  by (simp add: act_bind_def)

lemma act_bind_Inl: "m s = (Inl e, s') \<Longrightarrow> act_bind m f s = (Inl e, s')"
  by (simp add: act_bind_def)

lemma act_bind_simps [simp]:
  "act_bind (ret x) f = f x"
  "act_bind (gets g) f s = f (g s) s"
  "act_bind (modify h) f' s = f' () (h s)"
  "act_bind (of_result (Inr x)) f s = f x s"
  "act_bind (of_result (Inl e)) f s = (Inl e, s)"
  by (simp_all add: act_bind_def fun_eq_iff)

lemma act_seq_simps [simp]:
  "act_seq (modify h) n s = n (h s)"
  "act_seq (ret x) n = n"
  by (simp_all add: act_seq_def act_bind_def fun_eq_iff)

lemma act_bind_cases:
  obtains (ok) x s' where "m s = (Inr x, s')" "act_bind m f s = f x s'"
  | (thrown) e s' where "m s = (Inl e, s')" "act_bind m f s = (Inl e, s')"
proof (cases "m s")
  case (Pair r s')
  with ok thrown show ?thesis by (cases r) (simp_all add: act_bind_def)
qed

lemma act_seq_cases:
  obtains (ok) x s' where "m s = (Inr x, s')" "act_seq m n s = n s'"
  | (thrown) e s' where "m s = (Inl e, s')" "act_seq m n s = (Inl e, s')"
  by (rule act_bind_cases [of m s "\<lambda>_. n"]) (auto simp: act_seq_def)

lemma act_bind_InrE:
  assumes "act_bind m f s = (Inr y, t)"
  obtains x s' where "m s = (Inr x, s')" "f x s' = (Inr y, t)"
  using assms by (cases rule: act_bind_cases [of m s f]) auto

lemma act_seq_InrE:
  assumes "act_seq m n s = (Inr y, t)"
  obtains x s' where "m s = (Inr x, s')" "n s' = (Inr y, t)"
  using assms unfolding act_seq_def by (rule act_bind_InrE)

section \<open>Relations between the states before and after\<close>

definition within :: "('s \<Rightarrow> 's \<Rightarrow> bool) \<Rightarrow> ('s, 'a) action \<Rightarrow> bool" where
  "within R m \<longleftrightarrow> (\<forall>s. R s (snd (m s)))"

lemma withinI: "(\<And>s r s'. m s = (r, s') \<Longrightarrow> R s s') \<Longrightarrow> within R m"
  unfolding within_def by (metis prod.collapse)

lemma withinD: "within R m \<Longrightarrow> m s = (r, s') \<Longrightarrow> R s s'"
  unfolding within_def by (metis snd_conv)

locale transition =
  fixes R :: "'s \<Rightarrow> 's \<Rightarrow> bool"
  assumes refl: "R s s"
    and trans: "R s t \<Longrightarrow> R t u \<Longrightarrow> R s u"
begin

lemma ret_within: "within R (ret x)"
  and throw_within: "within R (throw e)"
  and gets_within: "within R (gets f)"
  and of_result_within: "within R (of_result r)"
  by (simp_all add: within_def refl)

lemma modify_within: "(\<And>s. R s (f s)) \<Longrightarrow> within R (modify f)"
  by (simp add: within_def)

lemma bind_within:
  assumes "within R m" "\<And>x. within R (f x)"
  shows "within R (act_bind m f)"
proof (rule withinI)
  fix s r s' assume eq: "act_bind m f s = (r, s')"
  show "R s s'"
  proof (cases rule: act_bind_cases [of m s f])
    case (ok x t)
    with eq assms show ?thesis by (metis withinD trans)
  next
    case (thrown e t)
    with eq assms(1) show ?thesis by (metis withinD prod.inject)
  qed
qed

lemma seq_within: "within R m \<Longrightarrow> within R n \<Longrightarrow> within R (act_seq m n)"
  unfolding act_seq_def by (rule bind_within)

lemma if_within: "within R m \<Longrightarrow> within R n \<Longrightarrow> within R (if b then m else n)"
  by simp

lemma act_if_within: "within R m \<Longrightarrow> within R n \<Longrightarrow> within R (act_if b m n)"
  by (simp add: within_def)

lemma act_when_within: "within R m \<Longrightarrow> within R (act_when b m)"
  by (simp add: within_def refl)

lemma catch_within:
  assumes "within R m" "\<And>e. within R (h e)"
  shows "within R (catch m h)"
proof (rule withinI)
  fix s r s' assume eq: "catch m h s = (r, s')"
  obtain q t where q: "m s = (q, t)" by fastforce
  with assms(1) have "R s t" by (rule withinD)
  moreover from q eq have "case q of Inl e \<Rightarrow> h e t = (r, s') | Inr x \<Rightarrow> t = s'"
    by (auto simp: catch_def split: sum.splits)
  ultimately show "R s s'"
    using assms(2) by (cases q) (auto intro: trans withinD)
qed

lemma for_each_within: "(\<And>x. within R (m x)) \<Longrightarrow> within R (for_each xs m)"
  by (induction xs) (auto intro: ret_within seq_within)

lemma repeat_within: "within R m \<Longrightarrow> within R (repeat_while n m)"
  by (induction n) (auto intro!: ret_within bind_within)

lemma case_option_within:
  "within R m \<Longrightarrow> (\<And>x. within R (f x)) \<Longrightarrow> within R (case o' of None \<Rightarrow> m | Some x \<Rightarrow> f x)"
  by (cases o') auto

lemma case_list_within:
  "within R m \<Longrightarrow> (\<And>x xs. within R (f x xs)) \<Longrightarrow> within R (case l of [] \<Rightarrow> m | x # xs \<Rightarrow> f x xs)"
  by (cases l) auto

lemmas rules = ret_within throw_within gets_within of_result_within bind_within seq_within if_within
  act_if_within act_when_within catch_within for_each_within repeat_within case_option_within case_list_within

end

text \<open>An invariant is the relation that preserves it.\<close>

interpretation kept: transition "\<lambda>s s'. I s \<longrightarrow> I s'" for I
  by unfold_locales auto

text \<open>A part of the state that stays the same.\<close>

interpretation same: transition "\<lambda>s s'. f s' = f s" for f
  by unfold_locales auto

lemma sameD: "within (\<lambda>s s'. f s' = f s) m \<Longrightarrow> m s = (r, s') \<Longrightarrow> f s' = f s"
  by (drule withinD) auto

lemma keptI: "(\<And>s r s'. m s = (r, s') \<Longrightarrow> I s \<Longrightarrow> I s') \<Longrightarrow> within (\<lambda>s s'. I s \<longrightarrow> I s') m"
  by (rule withinI) blast

lemma keptD: "within (\<lambda>s s'. I s \<longrightarrow> I s') m \<Longrightarrow> m s = (r, s') \<Longrightarrow> I s \<Longrightarrow> I s'"
  by (drule withinD) auto

text \<open>What is known of the value an action returns from a state of the invariant.\<close>

definition returns :: "('s \<Rightarrow> bool) \<Rightarrow> ('s, 'a) action \<Rightarrow> ('a \<Rightarrow> bool) \<Rightarrow> bool" where
  "returns I m Q \<longleftrightarrow> (\<forall>s x s'. I s \<longrightarrow> m s = (Inr x, s') \<longrightarrow> Q x)"

lemma returnsI: "(\<And>s x s'. I s \<Longrightarrow> m s = (Inr x, s') \<Longrightarrow> Q x) \<Longrightarrow> returns I m Q"
  by (auto simp: returns_def)

lemma returns_gets: "(\<And>s. I s \<Longrightarrow> Q (f s)) \<Longrightarrow> returns I (gets f) Q"
  by (auto simp: returns_def)

lemma bind_returns_within:
  assumes "within (\<lambda>s s'. I s \<longrightarrow> I s') m" "returns I m Q"
    "\<And>x. Q x \<Longrightarrow> within (\<lambda>s s'. I s \<longrightarrow> I s') (f x)"
  shows "within (\<lambda>s s'. I s \<longrightarrow> I s') (act_bind m f)"
proof (rule keptI)
  fix s r s' assume eq: "act_bind m f s = (r, s')" and s: "I s"
  show "I s'"
  proof (cases rule: act_bind_cases [of m s f])
    case (ok x t)
    with assms(2) s have "Q x" by (auto simp: returns_def)
    moreover from ok assms(1) s have "I t" by (auto dest: keptD)
    ultimately show ?thesis using ok eq keptD [OF assms(3), of x t r s'] by simp
  next
    case (thrown e t)
    with eq assms(1) s show ?thesis by (auto dest: keptD)
  qed
qed

lemma on_part_within:
  assumes "within R m" "\<And>s t. R (get s) t \<Longrightarrow> R' s (put t s)"
  shows "within R' (on_part get put m)"
  using assms by (simp add: within_def on_part_def case_prod_beta)

end
