(* ===== verification/L2cap.thy ===== *)
theory L2cap
  imports Action FrameIo
begin

text \<open>
  The Bluetooth backend of the Linux daemon (\<open>src/platform/linux/vds_bt.cc\<close>) on its two
  L2CAP channels. A file descriptor is a channel record: its number, the outcomes of the coming
  system calls and the packets it has taken. A write with no outcome left would block, a read with
  none has nothing to read.
\<close>

section \<open>Descriptors\<close>

datatype sys_write = Took nat | W_eintr | W_eagain | W_enospc | W_error string

datatype sys_read = Got bytes | R_eintr | R_eagain | R_error string

record channel =
  ch_fd :: int
  ch_writes :: "sys_write list"
  ch_fulls :: "write_outcome_fd list list"
  ch_reads :: "sys_read list"
  ch_out :: "bytes list"

definition closed_channel :: channel where
  "closed_channel = \<lparr>ch_fd = -1, ch_writes = [], ch_fulls = [], ch_reads = [], ch_out = []\<rparr>"

definition kBtReadBufferSize :: nat where "kBtReadBufferSize = 1024"
definition kBtWritePollTimeoutMs :: int where "kBtWritePollTimeoutMs = 1000"
definition strerror_enospc :: string where "strerror_enospc = ''No space left on device''"
definition strerror_eagain :: string where "strerror_eagain = ''Resource temporarily unavailable''"
definition bt_label :: string where "bt_label = ''Bluetooth L2CAP''"

text \<open>The loop of \<open>try_write_packet\<close> over the outcomes of \<open>send\<close>.\<close>

fun packet_attempt :: "nat \<Rightarrow> sys_write list \<Rightarrow> bool result \<times> sys_write list" where
  "packet_attempt n [] = (Inr False, [])"
| "packet_attempt n (Took k # ws) =
     (if k = n then Inr True else Inl (Runtime_error (bt_label @ '' short packet write'')), ws)"
| "packet_attempt n (W_eintr # ws) = packet_attempt n ws"
| "packet_attempt n (W_eagain # ws) = (Inr False, ws)"
| "packet_attempt n (W_enospc # ws) = (Inl (Runtime_error (bt_label @ '' write failed: '' @ strerror_enospc)), ws)"
| "packet_attempt n (W_error err # ws) = (Inl (Runtime_error (bt_label @ '' write failed: '' @ err)), ws)"

definition took :: "bytes \<Rightarrow> bool result \<times> sys_write list \<Rightarrow> (channel, bool) action" where
  "took bs res c =
     (fst res, c\<lparr>ch_writes := snd res, ch_out := (if fst res = Inr True then ch_out c @ [bs] else ch_out c)\<rparr>)"

definition try_write_packet :: "bytes \<Rightarrow> (channel, bool) action" where
  "try_write_packet bs c = took bs (packet_attempt (length bs) (ch_writes c)) c"

definition channel_write_full :: "bytes \<Rightarrow> (channel, unit) action" where
  "channel_write_full bs c =
     (let ws = (case ch_fulls c of [] \<Rightarrow> [] | w # _ \<Rightarrow> w);
          res = write_full strerror_eagain bt_label kBtWritePollTimeoutMs bs ws in
      (fst res, c\<lparr>ch_fulls := tl (ch_fulls c),
                   ch_out := (if snd res = [] then ch_out c else ch_out c @ [snd res])\<rparr>))"

text \<open>A read of a packet socket returns one packet, cut to the size of the buffer.\<close>

definition channel_read :: "nat \<Rightarrow> (channel, sys_read) action" where
  "channel_read n c =
     (case ch_reads c of
        [] \<Rightarrow> (Inr R_eagain, c)
      | Got bs # rs \<Rightarrow> (Inr (Got (take n bs)), c\<lparr>ch_reads := rs\<rparr>)
      | r # rs \<Rightarrow> (Inr r, c\<lparr>ch_reads := rs\<rparr>))"

context transition
begin

lemma case_read_within:
  assumes "\<And>bs. within R (g bs)" "within R a" "within R b" "\<And>err. within R (h err)"
  shows "within R (case r of Got bs \<Rightarrow> g bs | R_eintr \<Rightarrow> a | R_eagain \<Rightarrow> b | R_error err \<Rightarrow> h err)"
  using assms by (cases r) auto

end

section \<open>The backend\<close>

record BtL2capBackend =
  bt_address :: string
  control_ch :: channel
  interrupt_ch :: channel

definition on_control :: "(channel, 'a) action \<Rightarrow> (BtL2capBackend, 'a) action" where
  "on_control = on_part control_ch (\<lambda>c b. b\<lparr>control_ch := c\<rparr>)"

definition on_interrupt :: "(channel, 'a) action \<Rightarrow> (BtL2capBackend, 'a) action" where
  "on_interrupt = on_part interrupt_ch (\<lambda>c b. b\<lparr>interrupt_ch := c\<rparr>)"

definition send_output_report :: "bytes \<Rightarrow> (BtL2capBackend, unit) action" where
  "send_output_report report =
     act_if (\<lambda>b. ch_fd (interrupt_ch b) < 0) (ret ())
       (on_interrupt (channel_write_full (hidp_output_packet report)))"

definition try_send_output_report :: "bytes \<Rightarrow> (BtL2capBackend, bool) action" where
  "try_send_output_report report =
     act_if (\<lambda>b. ch_fd (interrupt_ch b) < 0) (ret False)
       (on_interrupt (try_write_packet (hidp_output_packet report)))"

definition send_feature_get :: "u8 \<Rightarrow> (BtL2capBackend, unit) action" where
  "send_feature_get report_id =
     act_if (\<lambda>b. ch_fd (control_ch b) < 0) (ret ())
       (on_control (channel_write_full (feature_get_packet report_id)))"

definition send_feature_set :: "bytes \<Rightarrow> (BtL2capBackend, unit) action" where
  "send_feature_set report =
     act_if (\<lambda>b. ch_fd (control_ch b) < 0) (ret ())
       (act_bind (of_result (feature_set_packet report))
          (\<lambda>packet. if packet \<noteq> [] then on_control (channel_write_full packet) else ret ()))"

definition read_feature_report :: "(BtL2capBackend, bytes option) action" where
  "read_feature_report =
     act_bind (on_control (channel_read kBtReadBufferSize))
       (\<lambda>r. case r of
          Got bs \<Rightarrow>
            (if bs = [] then throw (Runtime_error (bt_label @ '' control channel closed''))
             else ret (bt_feature_to_usb_feature_reply bs))
        | R_eintr \<Rightarrow> ret None
        | R_eagain \<Rightarrow> ret None
        | R_error err \<Rightarrow> throw (Runtime_error (bt_label @ '' control read failed: '' @ err)))"

definition read_interrupt_packet :: "(BtL2capBackend, bytes option) action" where
  "read_interrupt_packet =
     act_bind (on_interrupt (channel_read kBtReadBufferSize))
       (\<lambda>r. case r of
          Got bs \<Rightarrow>
            (if bs = [] then throw (Runtime_error (bt_label @ '' interrupt channel closed'')) else ret (Some bs))
        | R_eintr \<Rightarrow> ret None
        | R_eagain \<Rightarrow> ret None
        | R_error err \<Rightarrow> throw (Runtime_error (bt_label @ '' read failed: '' @ err)))"

definition is_bluetooth_error :: "exn \<Rightarrow> bool" where
  "is_bluetooth_error e \<longleftrightarrow> prefix ''Bluetooth L2CAP'' (what e) \<or> prefix ''failed to connect Bluetooth'' (what e)"

section \<open>Every failure of the backend is a Bluetooth error\<close>

text \<open>The exceptions an action can throw satisfy a predicate.\<close>

lemma bt_label_error: "is_bluetooth_error (Runtime_error (bt_label @ rest))"
  by (simp add: is_bluetooth_error_def bt_label_def)

lemma packet_attempt_error: "packet_attempt n ws = (Inl e, ws') \<Longrightarrow> is_bluetooth_error e"
  by (induction n ws rule: packet_attempt.induct) (auto simp: bt_label_error split: if_splits)

lemma write_full_error:
  "write_full eagain bt_label timeout bs ws = (Inl e, out) \<Longrightarrow> is_bluetooth_error e"
proof (induction ws arbitrary: bs out)
  case (Cons w ws)
  show ?case
  proof (cases w)
    case (Written_fd k)
    with Cons show ?thesis by (auto simp: Let_def bt_label_error split: if_splits prod.splits)
  next
    case (Would_block p)
    with Cons show ?thesis by (cases p) (auto simp: poll_result_def bt_label_error split: if_splits)
  qed (use Cons in \<open>auto simp: bt_label_error split: if_splits\<close>)
qed simp

definition throws_only :: "(exn \<Rightarrow> bool) \<Rightarrow> ('s, 'a) action \<Rightarrow> bool" where
  "throws_only E m \<longleftrightarrow> (\<forall>s e s'. m s = (Inl e, s') \<longrightarrow> E e)"

lemma throws_onlyI: "(\<And>s e s'. m s = (Inl e, s') \<Longrightarrow> E e) \<Longrightarrow> throws_only E m"
  by (auto simp: throws_only_def)

lemma throws_onlyD: "throws_only E m \<Longrightarrow> m s = (Inl e, s') \<Longrightarrow> E e"
  by (auto simp: throws_only_def)

lemma throws_ret: "throws_only E (ret x)"
  and throws_throw: "E e \<Longrightarrow> throws_only E (throw e)"
  and throws_gets: "throws_only E (gets f)"
  and throws_modify: "throws_only E (modify g)"
  and throws_of_result: "(\<And>e. r = Inl e \<Longrightarrow> E e) \<Longrightarrow> throws_only E (of_result r)"
  by (simp_all add: throws_only_def)

lemma throws_bind:
  assumes "throws_only E m" "\<And>x. throws_only E (f x)"
  shows "throws_only E (act_bind m f)"
proof (rule throws_onlyI)
  fix s e s' assume "act_bind m f s = (Inl e, s')"
  with assms show "E e" by (cases rule: act_bind_cases [of m s f]) (auto dest: throws_onlyD)
qed

lemma throws_seq: "throws_only E m \<Longrightarrow> throws_only E n \<Longrightarrow> throws_only E (act_seq m n)"
  unfolding act_seq_def by (rule throws_bind)

lemma throws_if: "throws_only E m \<Longrightarrow> throws_only E n \<Longrightarrow> throws_only E (if b then m else n)"
  and throws_act_if: "throws_only E m \<Longrightarrow> throws_only E n \<Longrightarrow> throws_only E (act_if c m n)"
  and throws_when: "throws_only E k \<Longrightarrow> throws_only E (act_when c k)"
  by (simp_all add: throws_only_def)

lemma throws_case_option:
  "throws_only E m \<Longrightarrow> (\<And>x. throws_only E (f x)) \<Longrightarrow> throws_only E (case o' of None \<Rightarrow> m | Some x \<Rightarrow> f x)"
  by (cases o') auto

lemma throws_on_part: "throws_only E m \<Longrightarrow> throws_only E (on_part get put m)"
  by (auto simp: throws_only_def on_part_def split: prod.splits)

lemma throws_for_each: "(\<And>x. throws_only E (m x)) \<Longrightarrow> throws_only E (for_each xs m)"
  by (induction xs) (auto intro: throws_ret throws_seq)

lemmas throws_rules = throws_ret throws_throw throws_gets throws_modify throws_bind throws_seq throws_if
  throws_act_if throws_when throws_case_option throws_on_part throws_for_each

lemma throws_channel_write_full: "throws_only is_bluetooth_error (channel_write_full bs)"
proof (rule throws_onlyI)
  fix c e c' assume "channel_write_full bs c = (Inl e, c')"
  then obtain out where "write_full strerror_eagain bt_label kBtWritePollTimeoutMs bs
      (case ch_fulls c of [] \<Rightarrow> [] | w # _ \<Rightarrow> w) = (Inl e, out)"
    by (metis (no_types, lifting) channel_write_full_def fst_conv prod.collapse)
  then show "is_bluetooth_error e" by (rule write_full_error)
qed

lemma throws_try_write_packet: "throws_only is_bluetooth_error (try_write_packet bs)"
  by (rule throws_onlyI) (metis fst_conv packet_attempt_error prod.collapse took_def try_write_packet_def)

lemma throws_channel_read: "throws_only E (channel_read n)"
  by (rule throws_onlyI) (simp add: channel_read_def split: list.splits sys_read.splits)

lemma feature_set_packet_ok: "\<exists>packet. feature_set_packet report = Inr packet"
  by (simp add: feature_set_packet_def fill_feature_report_checksum_def)

lemma backend_throws:
  "throws_only is_bluetooth_error (send_output_report report)"
  "throws_only is_bluetooth_error (try_send_output_report report)"
  "throws_only is_bluetooth_error (send_feature_get report_id)"
  "throws_only is_bluetooth_error (send_feature_set report)"
  "throws_only is_bluetooth_error read_feature_report"
  "throws_only is_bluetooth_error read_interrupt_packet"
proof -
  show "throws_only is_bluetooth_error (send_feature_set report)"
    using feature_set_packet_ok [of report] unfolding send_feature_set_def on_control_def
    by (auto intro!: throws_rules throws_of_result throws_channel_write_full)
qed (auto simp: send_output_report_def try_send_output_report_def send_feature_get_def read_feature_report_def
    read_interrupt_packet_def on_control_def on_interrupt_def bt_label_error split: sys_read.split
    intro!: throws_rules throws_channel_write_full throws_try_write_packet throws_channel_read)

section \<open>What a send does\<close>

text \<open>
  The three outcomes of a send that does not wait: the packet is on the channel, nothing happened
  beyond used-up outcomes, or an exception with the same effect.
\<close>

definition interrupt_out :: "BtL2capBackend \<Rightarrow> bytes list" where
  "interrupt_out b = ch_out (interrupt_ch b)"

definition control_out :: "BtL2capBackend \<Rightarrow> bytes list" where
  "control_out b = ch_out (control_ch b)"

lemma try_send_outcome:
  assumes "try_send_output_report report b = (r, b')"
  shows "interrupt_out b' = interrupt_out b @ (if r = Inr True then [hidp_output_packet report] else [])"
    "control_ch b' = control_ch b" "bt_address b' = bt_address b"
    "ch_fd (interrupt_ch b') = ch_fd (interrupt_ch b)"
  using assms
  by (auto simp: try_send_output_report_def on_interrupt_def on_part_def try_write_packet_def took_def
      interrupt_out_def split: if_splits)

end
