(* ===== verification/LinuxPort.thy ===== *)
theory LinuxPort
  imports L2cap Audio Queues VdsText
begin

text \<open>
  A virtual port of the Linux daemon (\<open>VirtualPort\<close> of \<open>src/platform/linux/vdsd.cc\<close>) and
  the handlers that move data between the character device of the kernel module and the Bluetooth
  backend: USB frames towards the controller, Bluetooth input and feature reports towards USB, the
  Bluetooth state report that is deferred while the channel is full, the audio queue and its
  pacing. Handlers are actions on a port and its backend. Log records, and the parts of
  \<open>TraceState\<close> that only feed them (latencies, gaps, last reports), are left out; the codec
  and the samples of the synthesized sine are arguments.
\<close>

section \<open>State\<close>

record ('e, 'd) codec =
  cd_encode :: "'e opus_encode"
  cd_decode :: "'d opus_decode"
  cd_strerror :: opus_strerror
  cd_new_encoder :: "'e result"
  cd_new_decoder :: "'d result"

record TraceState =
  dropped_usb_frame_count :: u64
  dropped_audio_haptics_count :: u64
  queue_dropped_audio_haptics_count :: u64
  stale_audio_haptics_count :: u64
  blocked_audio_haptics_count :: u64
  deferred_bt_state_count :: u64
  coalesced_bt_state_count :: u64
  blocked_bt_state_count :: u64
  bt_mic_packet_count :: u64
  bt_mic_drop_count :: u64
  bt_mic_decode_fail_count :: u64
  audio_in_forward_count :: u64

definition no_traces :: TraceState where
  "no_traces =
     \<lparr>dropped_usb_frame_count = 0, dropped_audio_haptics_count = 0, queue_dropped_audio_haptics_count = 0,
      stale_audio_haptics_count = 0, blocked_audio_haptics_count = 0, deferred_bt_state_count = 0,
      coalesced_bt_state_count = 0, blocked_bt_state_count = 0, bt_mic_packet_count = 0, bt_mic_drop_count = 0,
      bt_mic_decode_fail_count = 0, audio_in_forward_count = 0\<rparr>"

text \<open>Times are nanoseconds of the steady clock, 0 is the default \<open>time_point\<close>.\<close>

record ('e, 'd) LinuxVirtualPort =
  vp_path :: string
  vp_fd :: channel
  extractor :: "'e PcmAudioExtractor"
  waveout_extractor :: "'e PcmAudioExtractor"
  mic_decoder :: 'd
  haptics_builder :: HapticsPacketBuilder
  output_state :: DsOutputState
  pending_audio_chunks :: "AudioChunk list"
  last_sent_bt_state :: "bytes option"
  pending_bt_state :: "bytes option"
  pending_bt_state_report :: "bytes option"
  next_haptics_send_time :: int
  audio_out_stream_active :: bool
  audio_in_stream_active :: bool
  mic_muted :: bool
  mute_button_down :: bool
  vp_headset_plugged :: bool
  vp_headset_mic_plugged :: bool
  speaker_waveout_selected :: bool
  speaker_waveout_active :: bool
  speaker_waveout_phase :: nat
  feature_cache :: "bytes list"
  feature_cached :: "bool list"
  pending_feature_reports :: bytes
  trace_state :: TraceState

definition kMaxPendingAudioChunks :: nat where "kMaxPendingAudioChunks = 8"
definition kFreshPendingAudioChunks :: nat where "kFreshPendingAudioChunks = 4"
definition kAudioOutputInterval :: int where "kAudioOutputInterval = 10000000"
definition kHapticsOutputBlockedRetry :: int where "kHapticsOutputBlockedRetry = 2000000"
definition kUsbInputMuteButtonOffset :: nat where "kUsbInputMuteButtonOffset = 10"
definition kUsbInputHeadsetOffset :: nat where "kUsbInputHeadsetOffset = 54"
definition kUsbInputHeadphonesPluggedMask :: u8 where "kUsbInputHeadphonesPluggedMask = 0x01"
definition kUsbInputMicPluggedMask :: u8 where "kUsbInputMicPluggedMask = 0x02"
definition kUsbInputMuteButtonMask :: u8 where "kUsbInputMuteButtonMask = 0x04"
definition kTestCommandReportId :: u8 where "kTestCommandReportId = 0x80"
definition kTestCommandResultReportId :: u8 where "kTestCommandResultReportId = 0x81"
definition kTestCommandCompleteStatus :: u8 where "kTestCommandCompleteStatus = 0x02"
definition kTestCommandAudioDevice :: u8 where "kTestCommandAudioDevice = 0x06"
definition kTestCommandWaveoutPrepare :: u8 where "kTestCommandWaveoutPrepare = 0x04"
definition kTestCommandWaveoutControl :: u8 where "kTestCommandWaveoutControl = 0x02"
definition kTestCommandSpeakerParam :: u8 where "kTestCommandSpeakerParam = 0x08"
definition kSpeakerWaveoutPeriodFrames :: nat where "kSpeakerWaveoutPeriodFrames = 48"
definition kInitialFeatureReportIds :: bytes where "kInitialFeatureReportIds = [0x09, 0x20, 0x05]"

lemmas linux_consts = kMaxPendingAudioChunks_def kFreshPendingAudioChunks_def kAudioOutputInterval_def
  kHapticsOutputBlockedRetry_def kUsbInputMuteButtonOffset_def kUsbInputHeadsetOffset_def
  kUsbInputHeadphonesPluggedMask_def kUsbInputMicPluggedMask_def kUsbInputMuteButtonMask_def

record ('e, 'd) ctx =
  cx_port :: "('e, 'd) LinuxVirtualPort"
  cx_bt :: BtL2capBackend

definition pget :: "(('e, 'd) LinuxVirtualPort \<Rightarrow> 'a) \<Rightarrow> (('e, 'd) ctx, 'a) action" where
  "pget f = gets (\<lambda>c. f (cx_port c))"

definition pset :: "(('e, 'd) LinuxVirtualPort \<Rightarrow> ('e, 'd) LinuxVirtualPort) \<Rightarrow> (('e, 'd) ctx, unit) action" where
  "pset f = modify (\<lambda>c. c\<lparr>cx_port := f (cx_port c)\<rparr>)"

definition on_bt :: "(BtL2capBackend, 'a) action \<Rightarrow> (('e, 'd) ctx, 'a) action" where
  "on_bt = on_part cx_bt (\<lambda>b c. c\<lparr>cx_bt := b\<rparr>)"

definition on_output :: "(DsOutputState \<Rightarrow> 'a result \<times> DsOutputState) \<Rightarrow> (('e, 'd) ctx, 'a) action" where
  "on_output = on_part (\<lambda>c. output_state (cx_port c))
     (\<lambda>s c. c\<lparr>cx_port := (cx_port c)\<lparr>output_state := s\<rparr>\<rparr>)"

definition count :: "((u64 \<Rightarrow> u64) \<Rightarrow> TraceState \<Rightarrow> TraceState) \<Rightarrow>
    ('e, 'd) LinuxVirtualPort \<Rightarrow> ('e, 'd) LinuxVirtualPort" where
  "count upd p = p\<lparr>trace_state := upd (\<lambda>n. n + 1) (trace_state p)\<rparr>"

section \<open>Frames to the kernel module\<close>

fun frame_attempt :: "string \<Rightarrow> nat \<Rightarrow> sys_write list \<Rightarrow> bool result \<times> sys_write list" where
  "frame_attempt name n [] = (Inr False, [])"
| "frame_attempt name n (Took k # ws) =
     (if k = n then Inr True else Inl (Runtime_error (''short '' @ name @ '' frame write'')), ws)"
| "frame_attempt name n (W_eintr # ws) = frame_attempt name n ws"
| "frame_attempt name n (W_eagain # ws) = (Inr False, ws)"
| "frame_attempt name n (W_enospc # ws) = (Inr False, ws)"
| "frame_attempt name n (W_error err # ws) = (Inl (Runtime_error (''write failed: '' @ err)), ws)"

definition write_vds_frame :: "bytes \<Rightarrow> (('e, 'd) ctx, bool) action" where
  "write_vds_frame bs =
     act_bind (pget (\<lambda>p. frame_attempt (vp_path p) (length bs) (ch_writes (vp_fd p))))
       (\<lambda>res. act_seq (pset (\<lambda>p. p\<lparr>vp_fd := snd (took bs res (vp_fd p))\<rparr>))
         (act_seq (if fst res = Inr False then pset (count dropped_usb_frame_count_update) else ret ())
           (of_result (fst res))))"

definition reply_frame :: "u16 \<Rightarrow> bytes \<Rightarrow> (('e, 'd) ctx, unit) action" where
  "reply_frame type payload =
     act_bind (of_result (frame_bytes type payload))
       (\<lambda>frame. act_seq (write_vds_frame frame) (ret ()))"

definition store_feature :: "bytes \<Rightarrow> ('e, 'd) LinuxVirtualPort \<Rightarrow> ('e, 'd) LinuxVirtualPort" where
  "store_feature report p =
     p\<lparr>feature_cache := (feature_cache p)[unat (report ! 0) := report],
       feature_cached := (feature_cached p)[unat (report ! 0) := True]\<rparr>"

definition cache_feature_report :: "bytes \<Rightarrow> (('e, 'd) ctx, unit) action" where
  "cache_feature_report report =
     (if report = [] then ret ()
      else act_seq (pset (store_feature report))
        (act_bind (pget (\<lambda>p. feature_cache p ! unat (report ! 0)))
          (reply_frame VDS_FRAME_USB_FEATURE_REPLY)))"

section \<open>The Bluetooth state report\<close>

definition state_sent :: "bytes \<Rightarrow> ('e, 'd) LinuxVirtualPort \<Rightarrow> ('e, 'd) LinuxVirtualPort" where
  "state_sent s p = p\<lparr>last_sent_bt_state := Some s, pending_bt_state := None, pending_bt_state_report := None\<rparr>"

definition flush_pending_bt_state_report :: "(('e, 'd) ctx, bool) action" where
  "flush_pending_bt_state_report =
     act_bind (gets cx_port)
       (\<lambda>p. case (pending_bt_state_report p, pending_bt_state p) of
          (Some report, Some s) \<Rightarrow>
            act_bind (on_bt (try_send_output_report report))
              (\<lambda>sent. if sent then act_seq (pset (state_sent s)) (ret True)
                      else act_seq (pset (count blocked_bt_state_count_update)) (ret False))
        | _ \<Rightarrow> ret True)"

definition coalesce :: "('e, 'd) LinuxVirtualPort \<Rightarrow> ('e, 'd) LinuxVirtualPort" where
  "coalesce p =
     (if pending_bt_state p \<noteq> None
      then count coalesced_bt_state_count_update (p\<lparr>pending_bt_state := None, pending_bt_state_report := None\<rparr>)
      else p)"

definition defer_state :: "bytes \<Rightarrow> bytes \<Rightarrow> ('e, 'd) LinuxVirtualPort \<Rightarrow> ('e, 'd) LinuxVirtualPort" where
  "defer_state s packet p =
     (let p1 = (if pending_bt_state p \<noteq> None then count coalesced_bt_state_count_update p else p) in
      (count deferred_bt_state_count_update p1)\<lparr>pending_bt_state := Some s, pending_bt_state_report := Some packet\<rparr>)"

definition forward_bt_state_if_changed :: "(('e, 'd) ctx, unit) action" where
  "forward_bt_state_if_changed =
     act_seq flush_pending_bt_state_report
       (act_bind (gets cx_port)
         (\<lambda>p. let state = ds_state (output_state p) in
            if last_sent_bt_state p = Some state then pset coalesce
            else if pending_bt_state p = Some state then ret ()
            else act_bind (on_output build_bt_state_report)
              (\<lambda>packet. act_bind (on_bt (try_send_output_report packet))
                (\<lambda>sent. if sent then pset (state_sent state) else pset (defer_state state packet)))))"

section \<open>Starting and stopping a port\<close>

definition fresh_extractor :: "('e, 'd) codec \<Rightarrow> 'e PcmAudioExtractor result" where
  "fresh_extractor cd = res_bind (cd_new_encoder cd) (\<lambda>e. new_extractor e kPcmWindowFrames)"

definition reset_extractor :: "('e, 'd) codec \<Rightarrow> (('e, 'd) ctx, unit) action" where
  "reset_extractor cd = act_bind (of_result (fresh_extractor cd)) (\<lambda>x. pset (\<lambda>p. p\<lparr>extractor := x\<rparr>))"

definition reset_waveout_extractor :: "('e, 'd) codec \<Rightarrow> (('e, 'd) ctx, unit) action" where
  "reset_waveout_extractor cd =
     act_bind (of_result (fresh_extractor cd)) (\<lambda>x. pset (\<lambda>p. p\<lparr>waveout_extractor := x\<rparr>))"

definition reset_mic_decoder :: "('e, 'd) codec \<Rightarrow> (('e, 'd) ctx, unit) action" where
  "reset_mic_decoder cd = act_bind (of_result (cd_new_decoder cd)) (\<lambda>d. pset (\<lambda>p. p\<lparr>mic_decoder := d\<rparr>))"

definition reset_fields :: "('e, 'd) LinuxVirtualPort \<Rightarrow> ('e, 'd) LinuxVirtualPort" where
  "reset_fields p =
     p\<lparr>haptics_builder := \<lparr>hb_report_sequence = 0, hb_packet_sequence = 0\<rparr>, output_state := initial_output_state,
       pending_audio_chunks := [], last_sent_bt_state := None, pending_bt_state := None,
       pending_bt_state_report := None, next_haptics_send_time := 0, audio_out_stream_active := False,
       audio_in_stream_active := False, mic_muted := False, mute_button_down := False,
       vp_headset_plugged := False, vp_headset_mic_plugged := False, speaker_waveout_selected := True,
       speaker_waveout_active := False, speaker_waveout_phase := 0, feature_cache := replicate 256 [],
       feature_cached := replicate 256 False, pending_feature_reports := [], trace_state := no_traces\<rparr>"

definition reset_virtual_port :: "('e, 'd) codec \<Rightarrow> (('e, 'd) ctx, unit) action" where
  "reset_virtual_port cd =
     act_seq (reset_extractor cd) (act_seq (reset_waveout_extractor cd)
       (act_seq (reset_mic_decoder cd) (pset reset_fields)))"

text \<open>The outcome of the ioctl is only logged.\<close>

definition disconnect_virtual_port :: "('e, 'd) LinuxVirtualPort \<Rightarrow> ('e, 'd) LinuxVirtualPort" where
  "disconnect_virtual_port p =
     p\<lparr>pending_audio_chunks := [], next_haptics_send_time := 0, audio_out_stream_active := False,
       audio_in_stream_active := False, mic_muted := False, mute_button_down := False,
       speaker_waveout_active := False, speaker_waveout_phase := 0\<rparr>"

text \<open>A port as it is opened (\<open>sync_virtual_ports\<close>).\<close>

definition opened_port ::
  "string \<Rightarrow> channel \<Rightarrow> 'e PcmAudioExtractor \<Rightarrow> 'e PcmAudioExtractor \<Rightarrow> 'd \<Rightarrow> ('e, 'd) LinuxVirtualPort" where
  "opened_port path fd x w d =
     \<lparr>vp_path = path, vp_fd = fd, extractor = x, waveout_extractor = w, mic_decoder = d,
      haptics_builder = \<lparr>hb_report_sequence = 0, hb_packet_sequence = 0\<rparr>, output_state = initial_output_state,
      pending_audio_chunks = [], last_sent_bt_state = None, pending_bt_state = None,
      pending_bt_state_report = None, next_haptics_send_time = 0, audio_out_stream_active = False,
      audio_in_stream_active = False, mic_muted = False, mute_button_down = False,
      vp_headset_plugged = False, vp_headset_mic_plugged = False, speaker_waveout_selected = True,
      speaker_waveout_active = False, speaker_waveout_phase = 0, feature_cache = replicate 256 [],
      feature_cached = replicate 256 False, pending_feature_reports = [], trace_state = no_traces\<rparr>"

section \<open>Frames from the kernel module\<close>

definition route_audio :: "bool \<Rightarrow> ('e, 'd) LinuxVirtualPort \<Rightarrow> ('e, 'd) LinuxVirtualPort" where
  "route_audio active p = p\<lparr>output_state := set_audio_out_stream_active active (vp_headset_plugged p) (output_state p)\<rparr>"

definition forward_if :: "bool \<Rightarrow> (('e, 'd) ctx, unit) action" where
  "forward_if has_bt = (if has_bt then forward_bt_state_if_changed else ret ())"

definition send_mic_state :: "(('e, 'd) ctx, unit) action" where
  "send_mic_state =
     act_bind (gets cx_port)
       (\<lambda>p. act_bind (on_output (build_bt_mic_state_report (audio_in_stream_active p) (mic_muted p)))
         (\<lambda>report. act_seq (on_bt (try_send_output_report report)) (ret ())))"

definition handle_interface_event :: "('e, 'd) codec \<Rightarrow> bool \<Rightarrow> bytes \<Rightarrow> (('e, 'd) ctx, unit) action" where
  "handle_interface_event cd has_bt payload =
     (if length payload \<noteq> 4 then ret ()
      else
        (let altsetting = payload ! 1; interface_type = payload ! 2; active = altsetting \<noteq> 0 in
         if interface_type = VDS_USB_INTERFACE_AUDIO_OUT then
           act_seq (pset (\<lambda>p. p\<lparr>audio_out_stream_active := active\<rparr>))
             (if \<not> active then
                act_seq (pset (\<lambda>p. p\<lparr>pending_audio_chunks := []\<rparr>)) (reset_extractor cd)
              else act_seq (pset (route_audio True)) (forward_if has_bt))
         else if interface_type = VDS_USB_INTERFACE_AUDIO_IN then
           act_seq (pset (\<lambda>p. p\<lparr>audio_in_stream_active := active\<rparr>))
             (act_seq (reset_mic_decoder cd)
               (if has_bt then
                  act_seq send_mic_state
                    (act_bind (on_output (build_bt_mic_report active))
                      (\<lambda>report. act_seq (on_bt (try_send_output_report report)) (ret ())))
                else ret ()))
         else ret ()))"

definition handle_hid_out :: "bool \<Rightarrow> bytes \<Rightarrow> (('e, 'd) ctx, unit) action" where
  "handle_hid_out has_bt payload =
     act_bind (on_output (\<lambda>s. case apply_usb_output_report payload s of (ok, s') \<Rightarrow> (Inr ok, s')))
       (\<lambda>ok. if \<not> ok then ret ()
             else act_seq (act_when (\<lambda>c. audio_out_stream_active (cx_port c) \<or> speaker_waveout_active (cx_port c))
                             (pset (route_audio True)))
                    (forward_if has_bt))"

definition handle_feature_get :: "bool \<Rightarrow> bytes \<Rightarrow> (('e, 'd) ctx, unit) action" where
  "handle_feature_get has_bt payload =
     (case payload of
        [] \<Rightarrow> ret ()
      | report_id # _ \<Rightarrow>
          act_bind (gets cx_port)
            (\<lambda>p. if feature_cached p ! unat report_id
                 then reply_frame VDS_FRAME_USB_FEATURE_REPLY (feature_cache p ! unat report_id)
                 else if has_bt
                 then act_seq (pset (\<lambda>p. p\<lparr>pending_feature_reports := pending_feature_reports p @ [report_id]\<rparr>))
                        (on_bt (send_feature_get report_id))
                 else ret ()))"

text \<open>The commands of the WebHID test page that the daemon serves itself.\<close>

definition waveout_control :: "('e, 'd) codec \<Rightarrow> bool \<Rightarrow> bool \<Rightarrow> (('e, 'd) ctx, unit) action" where
  "waveout_control cd has_bt enable =
     act_bind (pget (\<lambda>p. enable \<and> speaker_waveout_selected p))
       (\<lambda>on. act_seq (pset (\<lambda>p. p\<lparr>speaker_waveout_active := on, speaker_waveout_phase := 0\<rparr>))
         (act_seq (reset_waveout_extractor cd)
           (act_seq (pset (\<lambda>p. (route_audio on p)\<lparr>audio_out_stream_active := on\<rparr>))
             (act_seq (if on then ret () else pset (\<lambda>p. p\<lparr>pending_audio_chunks := []\<rparr>))
               (forward_if has_bt)))))"

definition test_result :: "u8 \<Rightarrow> u8 \<Rightarrow> bytes" where
  "test_result device action' =
     (replicate kUsbInputReportSize 0)
       [0 := kTestCommandResultReportId, 1 := device, 2 := action', 3 := kTestCommandCompleteStatus]"

definition handle_test_command :: "('e, 'd) codec \<Rightarrow> bool \<Rightarrow> bytes \<Rightarrow> (('e, 'd) ctx, unit) action" where
  "handle_test_command cd has_bt payload =
     (let command_offset = (if payload ! 1 = kTestCommandReportId then 2 else 1 :: nat) in
      if length payload > command_offset + 1 then
        (let device = payload ! command_offset; action' = payload ! (command_offset + 1);
             data_offset = command_offset + 2 in
         act_seq (cache_feature_report (test_result device action'))
           (if device = kTestCommandAudioDevice \<and> action' = kTestCommandWaveoutPrepare then
              pset (\<lambda>p. p\<lparr>speaker_waveout_selected := (length payload > data_offset + 2 \<and>
                             payload ! (data_offset + 2) = kTestCommandSpeakerParam)\<rparr>)
            else if device = kTestCommandAudioDevice \<and> action' = kTestCommandWaveoutControl \<and>
                    length payload > data_offset then
              waveout_control cd has_bt (payload ! data_offset \<noteq> 0)
            else ret ()))
      else ret ())"

definition handle_feature_set :: "('e, 'd) codec \<Rightarrow> bool \<Rightarrow> bytes \<Rightarrow> (('e, 'd) ctx, unit) action" where
  "handle_feature_set cd has_bt payload =
     (if payload = [] then ret ()
      else act_seq (if length payload \<ge> 3 \<and> payload ! 0 = kTestCommandReportId
                    then handle_test_command cd has_bt payload else ret ())
             (if has_bt then on_bt (send_feature_set payload) else ret ()))"

definition queue_chunk :: "AudioChunk \<Rightarrow> ('e, 'd) LinuxVirtualPort \<Rightarrow> ('e, 'd) LinuxVirtualPort" where
  "queue_chunk chunk p =
     (let p1 = (if length (pending_audio_chunks p) \<ge> kMaxPendingAudioChunks
                then count queue_dropped_audio_haptics_count_update (count dropped_audio_haptics_count_update
                       (p\<lparr>pending_audio_chunks := tl (pending_audio_chunks p)\<rparr>))
                else p) in
      p1\<lparr>pending_audio_chunks := pending_audio_chunks p1 @ [chunk]\<rparr>)"

definition handle_audio_out :: "('e, 'd) codec \<Rightarrow> bool \<Rightarrow> bytes \<Rightarrow> (('e, 'd) ctx, unit) action" where
  "handle_audio_out cd has_bt payload =
     (if \<not> has_bt then ret ()
      else act_bind (on_part (\<lambda>c. extractor (cx_port c)) (\<lambda>x c. c\<lparr>cx_port := (cx_port c)\<lparr>extractor := x\<rparr>\<rparr>)
                      (push_usb_audio (cd_encode cd) (cd_strerror cd) payload))
             (\<lambda>chunks. for_each chunks (\<lambda>chunk. pset (queue_chunk chunk))))"

definition handle_frame :: "('e, 'd) codec \<Rightarrow> bool \<Rightarrow> u16 \<Rightarrow> bytes \<Rightarrow> (('e, 'd) ctx, unit) action" where
  "handle_frame cd has_bt type payload =
     (if type = VDS_FRAME_USB_INTERFACE then handle_interface_event cd has_bt payload
      else if type = VDS_FRAME_USB_HID_OUT then handle_hid_out has_bt payload
      else if type = VDS_FRAME_USB_FEATURE_GET then handle_feature_get has_bt payload
      else if type = VDS_FRAME_USB_FEATURE_SET then handle_feature_set cd has_bt payload
      else if type = VDS_FRAME_USB_AUDIO_OUT then handle_audio_out cd has_bt payload
      else ret ())"

definition read_port :: "nat \<Rightarrow> (('e, 'd) ctx, sys_read) action" where
  "read_port n = on_part (\<lambda>c. vp_fd (cx_port c)) (\<lambda>f c. c\<lparr>cx_port := (cx_port c)\<lparr>vp_fd := f\<rparr>\<rparr>) (channel_read n)"

definition handle_vds_frame :: "('e, 'd) codec \<Rightarrow> bool \<Rightarrow> (('e, 'd) ctx, bool) action" where
  "handle_vds_frame cd has_bt =
     act_bind (pget vp_path) (\<lambda>path. act_bind (read_port (16 + VDS_FRAME_MAX_PAYLOAD))
       (\<lambda>r. case r of
          R_eintr \<Rightarrow> ret False
        | R_eagain \<Rightarrow> ret False
        | R_error err \<Rightarrow> throw (Runtime_error (path @ '' read failed: '' @ err))
        | Got frame \<Rightarrow>
            (if frame = [] then throw (Runtime_error (path @ '' closed''))
             else if length frame < 16 then throw (Runtime_error (path @ '' short VDS frame header''))
             else
               (let header = parse_header (take 16 frame) in
                if unat (fh_length header) > VDS_FRAME_MAX_PAYLOAD
                then throw (Runtime_error (path @ '' oversized VDS frame''))
                else if length frame \<noteq> 16 + unat (fh_length header)
                then throw (Runtime_error (path @ '' short VDS frame payload''))
                else act_seq (handle_frame cd has_bt (fh_type header) (drop 16 frame)) (ret True)))))"

section \<open>Packets from the controller\<close>

definition input_headset :: "bytes \<Rightarrow> bool" where
  "input_headset report \<longleftrightarrow> report ! kUsbInputHeadsetOffset AND kUsbInputHeadphonesPluggedMask \<noteq> 0"

definition input_headset_mic :: "bytes \<Rightarrow> bool" where
  "input_headset_mic report \<longleftrightarrow> report ! kUsbInputHeadsetOffset AND kUsbInputMicPluggedMask \<noteq> 0"

definition input_mute :: "bytes \<Rightarrow> bool" where
  "input_mute report \<longleftrightarrow> report ! kUsbInputMuteButtonOffset AND kUsbInputMuteButtonMask \<noteq> 0"

definition handle_mic_packet :: "('e, 'd) codec \<Rightarrow> bytes \<Rightarrow> (('e, 'd) ctx, unit) action" where
  "handle_mic_packet cd packet =
     act_seq (pset (count bt_mic_packet_count_update))
       (act_if (\<lambda>c. \<not> audio_in_stream_active (cx_port c)) (pset (count bt_mic_drop_count_update))
         (case bt_mic_opus_payload packet of
            None \<Rightarrow> pset (count bt_mic_decode_fail_count_update)
          | Some payload \<Rightarrow>
              catch
                (act_bind (on_part (\<lambda>c. mic_decoder (cx_port c)) (\<lambda>d c. c\<lparr>cx_port := (cx_port c)\<lparr>mic_decoder := d\<rparr>\<rparr>)
                             (MicAudioDecoder_decode (cd_decode cd) (cd_strerror cd) payload))
                  (\<lambda>pcm. act_seq (reply_frame VDS_FRAME_USB_AUDIO_IN pcm)
                           (pset (count audio_in_forward_count_update))))
                (\<lambda>e. pset (count bt_mic_decode_fail_count_update))))"

text \<open>The buttons and the jack of an input report, before the report itself is passed on.\<close>

definition input_buttons :: "bytes \<Rightarrow> (('e, 'd) ctx, unit) action" where
  "input_buttons report =
     act_bind (gets cx_port)
       (\<lambda>p. let mic_mute_changed = input_mute report \<and> \<not> mute_button_down p;
                headset_mic_changed = input_headset_mic report \<noteq> vp_headset_mic_plugged p in
        act_seq (pset (\<lambda>p. p\<lparr>mic_muted := (if mic_mute_changed then \<not> mic_muted p else mic_muted p),
                              mute_button_down := input_mute report,
                              vp_headset_mic_plugged := input_headset_mic report\<rparr>))
          (if mic_mute_changed \<or> headset_mic_changed \<and> audio_in_stream_active p then send_mic_state else ret ()))"

definition input_headset_route :: "bytes \<Rightarrow> (('e, 'd) ctx, unit) action" where
  "input_headset_route report =
     act_bind (gets cx_port)
       (\<lambda>p. if input_headset report \<noteq> vp_headset_plugged p
            then act_seq (pset (\<lambda>p. p\<lparr>vp_headset_plugged := input_headset report\<rparr>))
                   (if audio_out_stream_active p \<or> speaker_waveout_active p
                    then act_seq (pset (route_audio True)) forward_bt_state_if_changed
                    else ret ())
            else ret ())"

definition hid_in_frame :: "bytes \<Rightarrow> bytes" where
  "hid_in_frame report =
     header_bytes \<lparr>fh_type = VDS_FRAME_USB_HID_IN, fh_flags = 0, fh_length = of_nat (length report),
                   fh_sequence = 0\<rparr> @ report"

definition handle_bt_input :: "('e, 'd) codec \<Rightarrow> (('e, 'd) ctx, bool) action" where
  "handle_bt_input cd =
     act_bind (on_bt read_interrupt_packet)
       (\<lambda>p. case p of
          None \<Rightarrow> ret False
        | Some packet \<Rightarrow>
            (if bt_input_payload_type packet = Audio_payload then act_seq (handle_mic_packet cd packet) (ret True)
             else
               (case bt_input_to_usb_input packet of
                  None \<Rightarrow> ret True
                | Some report \<Rightarrow>
                    act_seq (input_buttons report)
                      (act_seq (input_headset_route report)
                        (act_seq (write_vds_frame (hid_in_frame report)) (ret True))))))"

definition handle_bt_control :: "(('e, 'd) ctx, bool) action" where
  "handle_bt_control =
     act_bind (on_bt read_feature_report)
       (\<lambda>r. case r of
          None \<Rightarrow> ret False
        | Some report \<Rightarrow>
            (if report = [] then ret True
             else act_seq (pset (store_feature report))
               (act_bind (pget pending_feature_reports)
                 (\<lambda>pending. if report ! 0 \<notin> set pending then ret True
                   else act_seq (pset (\<lambda>p. p\<lparr>pending_feature_reports := remove1 (report ! 0) (pending_feature_reports p)\<rparr>))
                          (act_seq (reply_frame VDS_FRAME_USB_FEATURE_REPLY report) (ret True))))))"

section \<open>The first feature reports\<close>

text \<open>
  The outcomes of \<open>poll\<close> on the control channel; without a further one the wait times out.
\<close>

datatype poll_in = Poll_ready | Poll_eintr | Timed_out | Hung_up | Nothing_ready

fun await_feature :: "u8 \<Rightarrow> poll_in list \<Rightarrow> (('e, 'd) ctx, poll_in list) action" where
  "await_feature report_id [] = throw (Runtime_error (''timed out waiting for initial Bluetooth feature report '' @ hex_u8 report_id))"
| "await_feature report_id (p # ps) =
     (case p of
        Poll_eintr \<Rightarrow> await_feature report_id ps
      | Timed_out \<Rightarrow> throw (Runtime_error (''timed out waiting for initial Bluetooth feature report '' @ hex_u8 report_id))
      | Hung_up \<Rightarrow> throw (Runtime_error ''Bluetooth control channel closed during initial feature report fetch'')
      | Nothing_ready \<Rightarrow> await_feature report_id ps
      | Poll_ready \<Rightarrow>
          act_bind (on_bt read_feature_report)
            (\<lambda>r. case r of
               None \<Rightarrow> await_feature report_id ps
             | Some report \<Rightarrow>
                 (if report = [] then await_feature report_id ps
                  else act_seq (cache_feature_report report)
                    (if report ! 0 = report_id then ret ps else await_feature report_id ps))))"

fun fetch_features :: "bytes \<Rightarrow> poll_in list \<Rightarrow> (('e, 'd) ctx, unit) action" where
  "fetch_features [] ps = ret ()"
| "fetch_features (report_id # ids) ps =
     act_seq (on_bt (send_feature_get report_id))
       (act_bind (await_feature report_id ps) (fetch_features ids))"

definition initialize_bt_controller :: "poll_in list \<Rightarrow> (('e, 'd) ctx, unit) action" where
  "initialize_bt_controller = fetch_features kInitialFeatureReportIds"

section \<open>Audio towards the controller\<close>

definition drop_stale :: "('e, 'd) LinuxVirtualPort \<Rightarrow> ('e, 'd) LinuxVirtualPort" where
  "drop_stale p =
     (let n = length (pending_audio_chunks p) - kFreshPendingAudioChunks; k = of_nat n;
          t = trace_state p in
      p\<lparr>pending_audio_chunks := drop n (pending_audio_chunks p),
        trace_state := t\<lparr>dropped_audio_haptics_count := dropped_audio_haptics_count t + k,
          queue_dropped_audio_haptics_count := queue_dropped_audio_haptics_count t + k,
          stale_audio_haptics_count := stale_audio_haptics_count t + k\<rparr>\<rparr>)"

definition chunk_blocked :: "int \<Rightarrow> ('e, 'd) LinuxVirtualPort \<Rightarrow> ('e, 'd) LinuxVirtualPort" where
  "chunk_blocked now p =
     (count blocked_audio_haptics_count_update (count dropped_audio_haptics_count_update p))
       \<lparr>pending_audio_chunks := tl (pending_audio_chunks p),
        next_haptics_send_time := now + kHapticsOutputBlockedRetry\<rparr>"

definition chunk_sent :: "int \<Rightarrow> ('e, 'd) LinuxVirtualPort \<Rightarrow> ('e, 'd) LinuxVirtualPort" where
  "chunk_sent now p =
     (let state = ds_state (output_state p);
          p1 = p\<lparr>pending_audio_chunks := tl (pending_audio_chunks p), last_sent_bt_state := Some state\<rparr>;
          p2 = (if pending_bt_state p1 = Some state
                then p1\<lparr>pending_bt_state := None, pending_bt_state_report := None\<rparr> else p1) in
      p2\<lparr>next_haptics_send_time := now + kAudioOutputInterval\<rparr>)"

text \<open>\<open>now\<close> is the first reading of the clock, \<open>later\<close> the one after a send that was blocked.\<close>

definition flush_pending_audio_chunk :: "int \<Rightarrow> int \<Rightarrow> (('e, 'd) ctx, bool) action" where
  "flush_pending_audio_chunk now later =
     act_bind (gets cx_port)
       (\<lambda>p. if pending_audio_chunks p = [] then ret True
            else if next_haptics_send_time p \<noteq> 0 \<and> now < next_haptics_send_time p then ret True
            else act_seq (pset drop_stale)
              (act_bind (gets cx_port)
                (\<lambda>q. let chunk = hd (pending_audio_chunks q) in
                 act_bind (on_part (\<lambda>c. haptics_builder (cx_port c))
                             (\<lambda>h c. c\<lparr>cx_port := (cx_port c)\<lparr>haptics_builder := h\<rparr>\<rparr>)
                             (build_packet (ch_haptics chunk) (ch_speaker chunk) (ds_state (output_state q)) True
                                (vp_headset_plugged q)))
                   (\<lambda>packet. act_bind (on_bt (try_send_output_report packet))
                      (\<lambda>sent. if sent then act_seq (pset (chunk_sent now)) (ret True)
                              else act_seq (pset (chunk_blocked later)) (ret False))))))"

definition waveout_frame :: "int \<Rightarrow> bytes" where
  "waveout_frame sample =
     (let v = word_of_int sample :: u16; b = [ucast (v AND 0xff), ucast (drop_bit 8 v AND 0xff)] in
      concat (replicate kSpeakerChannels b) @ replicate 4 0)"

definition waveout_pcm :: "(nat \<Rightarrow> int) \<Rightarrow> nat \<Rightarrow> bytes" where
  "waveout_pcm wave phase =
     concat (map (\<lambda>i. waveout_frame (wave ((phase + i) mod kSpeakerWaveoutPeriodFrames))) [0..<kPcmWindowFrames])"

definition enqueue_speaker_waveout_chunk :: "('e, 'd) codec \<Rightarrow> (nat \<Rightarrow> int) \<Rightarrow> (('e, 'd) ctx, unit) action" where
  "enqueue_speaker_waveout_chunk cd wave =
     act_bind (gets cx_port)
       (\<lambda>p. if \<not> speaker_waveout_active p \<or> pending_audio_chunks p \<noteq> [] then ret ()
            else act_seq (pset (\<lambda>p. p\<lparr>speaker_waveout_phase :=
                                     (speaker_waveout_phase p + kPcmWindowFrames) mod kSpeakerWaveoutPeriodFrames\<rparr>))
              (act_bind (on_part (\<lambda>c. waveout_extractor (cx_port c))
                           (\<lambda>x c. c\<lparr>cx_port := (cx_port c)\<lparr>waveout_extractor := x\<rparr>\<rparr>)
                           (push_usb_audio (cd_encode cd) (cd_strerror cd) (waveout_pcm wave (speaker_waveout_phase p))))
                 (\<lambda>chunks. pset (\<lambda>p. p\<lparr>pending_audio_chunks :=
                    pending_audio_chunks p @
                      take (kMaxPendingAudioChunks - length (pending_audio_chunks p)) chunks\<rparr>))))"

definition flush_port_outputs :: "('e, 'd) codec \<Rightarrow> (nat \<Rightarrow> int) \<Rightarrow> int \<Rightarrow> int \<Rightarrow> (('e, 'd) ctx, unit) action" where
  "flush_port_outputs cd wave now later =
     act_bind flush_pending_bt_state_report
       (\<lambda>flushed. if \<not> flushed then ret ()
                  else act_seq (enqueue_speaker_waveout_chunk cd wave)
                         (act_seq (flush_pending_audio_chunk now later) (ret ())))"

end
