(* ===== verification/LinuxPortInv.thy ===== *)
theory LinuxPortInv
  imports LinuxPort
begin

text \<open>
  The invariant of a virtual port of the Linux daemon and its backend, kept by every handler also
  when it throws: bounded queues, a deferred state report that is well formed and differs from
  the last one sent, a consistent feature cache, only sealed output reports on the interrupt channel,
  only feature requests on the control channel, and only well-formed frames to the virtual device.
\<close>

section \<open>Well-formed packets, frames and chunks\<close>

definition good_report :: "bytes \<Rightarrow> bool" where
  "good_report r \<longleftrightarrow> sealed output_crc32 r \<and> length r \<in> {78, 142, 398}"

definition good_packet :: "bytes \<Rightarrow> bool" where
  "good_packet pk \<longleftrightarrow> pk \<noteq> [] \<and> hd pk = 0xa2 \<and> good_report (tl pk)"

text \<open>
  The control channel carries requests for feature reports and feature reports to set. A report of at least
  four bytes is sealed; a shorter one goes out as it is. A packet whose sending failed half-way is there with the
  part that was written.
\<close>

definition good_feature :: "bytes \<Rightarrow> bool" where
  "good_feature pk \<longleftrightarrow> (\<exists>i. pk = [0x43, i]) \<or>
     (\<exists>r. pk = 0x53 # r \<and> r \<noteq> [] \<and> (4 \<le> length r \<longrightarrow> sealed feature_crc32 r))"

definition good_control :: "bytes \<Rightarrow> bool" where
  "good_control pk \<longleftrightarrow> (\<exists>full. prefix pk full \<and> good_feature full)"

definition backend_ok :: "BtL2capBackend \<Rightarrow> bool" where
  "backend_ok b \<longleftrightarrow> list_all good_packet (interrupt_out b) \<and> list_all good_control (control_out b)"

definition good_frame :: "bytes \<Rightarrow> bool" where
  "good_frame f \<longleftrightarrow> 16 \<le> length f \<and> length f \<le> 16 + VDS_FRAME_MAX_PAYLOAD \<and>
     length f = 16 + unat (fh_length (parse_header (take 16 f)))"

definition chunk_ok :: "AudioChunk \<Rightarrow> bool" where
  "chunk_ok c \<longleftrightarrow> length (ch_haptics c) = 64 \<and> length (ch_speaker c) = 200"

text \<open>A state report carries a state.\<close>

definition carries :: "bytes \<Rightarrow> bytes \<Rightarrow> bool" where
  "carries s r \<longleftrightarrow> sealed output_crc32 r \<and> length r = kBtStateReportSize \<and> r ! 0 = VDS_BT_STATE_REPORT_ID \<and>
     take kSetStateSize (drop kBtStateOffset r) = take kSetStateSize s"

definition out_ok :: "DsOutputState \<Rightarrow> bool" where
  "out_ok s \<longleftrightarrow> output_inv s \<and> \<not> headset_mic_plugged s"

lemma carries_good: "carries s r \<Longrightarrow> good_report r"
  by (simp add: carries_def good_report_def kBtStateReportSize_def)

text \<open>A deferred report carries the deferred state, which is not the one sent last.\<close>

fun pending_ok :: "bytes option \<Rightarrow> bytes option \<Rightarrow> bytes option \<Rightarrow> bool" where
  "pending_ok sent None None = True"
| "pending_ok sent (Some s) (Some r) = (carries s r \<and> sent \<noteq> Some s)"
| "pending_ok sent _ _ = False"

definition cache_ok :: "bytes list \<Rightarrow> bool list \<Rightarrow> bool" where
  "cache_ok reports cached \<longleftrightarrow> length reports = 256 \<and> length cached = 256 \<and>
     (\<forall>i < 256. cached ! i \<longrightarrow> reports ! i \<noteq> [] \<and> unat (reports ! i ! 0) = i)"

definition port_ok :: "('e, 'd) LinuxVirtualPort \<Rightarrow> bool" where
  "port_ok p \<longleftrightarrow> out_ok (output_state p) \<and>
     length (pending_audio_chunks p) \<le> 8 \<and> list_all chunk_ok (pending_audio_chunks p) \<and>
     pending_ok (last_sent_bt_state p) (pending_bt_state p) (pending_bt_state_report p) \<and>
     cache_ok (feature_cache p) (feature_cached p) \<and>
     speaker_waveout_phase p < 48 \<and> list_all good_frame (ch_out (vp_fd p))"

definition ctx_ok :: "('e, 'd) ctx \<Rightarrow> bool" where
  "ctx_ok c \<longleftrightarrow> port_ok (cx_port c) \<and> backend_ok (cx_bt c)"

abbreviation keeps_ok :: "(('e, 'd) ctx, 'a) action \<Rightarrow> bool" where
  "keeps_ok m \<equiv> within (\<lambda>c c'. ctx_ok c \<longrightarrow> ctx_ok c') m"

section \<open>Output reports\<close>

lemma out_okD: "out_ok s \<Longrightarrow> length (ds_state s) = 63"
  by (simp add: out_ok_def output_inv_def wf_output_def kDsStateSize_def)

lemma out_ok_ops:
  assumes "out_ok s"
  shows "out_ok (snd (build_bt_state_report s))" "out_ok (snd (build_bt_mic_report a s))"
    "out_ok (snd (build_bt_mic_state_report a m s))" "out_ok (set_audio_out_stream_active a h s)"
    "out_ok (snd (apply_usb_output_report r s))"
proof -
  note inv = assms [unfolded out_ok_def, THEN conjunct1] and len = out_okD [OF assms]
    and plug = assms [unfolded out_ok_def, THEN conjunct2]
  show "out_ok (snd (build_bt_state_report s))" "out_ok (snd (build_bt_mic_report a s))"
    using run_output_op_inv [OF inv, of State_report] run_output_op_inv [OF inv, of "Mic_report a"] plug
    by (simp_all add: out_ok_def) (simp_all add: build_bt_state_report_def build_bt_mic_report_def Let_def)
  show "out_ok (snd (build_bt_mic_state_report a m s))" "out_ok (set_audio_out_stream_active a h s)"
    using run_output_op_inv [OF inv, of "Mic_state a m"] stream_inv [OF inv] plug
    by (simp_all add: out_ok_def mic_state_effect [OF len] stream_effect [OF len])
  show "out_ok (snd (apply_usb_output_report r s))"
    using run_output_op_inv [OF inv, of "Usb_report r"] plug
    by (auto simp: out_ok_def apply_usb_output_report_def apply_update_sel split: option.splits)
qed

lemma initial_out_ok: "out_ok initial_output_state"
  using initial_output_inv by (simp add: out_ok_def initial_output_state_def Let_def)

lemma state_report_carries:
  assumes "out_ok s" "build_bt_state_report s = (Inr r, s')"
  shows "carries (ds_state s) r"
proof -
  from state_report_layout [OF out_okD [OF assms(1)]] assms(2) have "sealed output_crc32 r" "length r = 78"
    "take 3 r = [VDS_BT_STATE_REPORT_ID, push_bit 4 (report_sequence s), 0x10]"
    "take kSetStateSize (drop kBtStateOffset r) = take kSetStateSize (ds_state s)"
    by (auto simp: kBtStateReportSize_def)
  moreover from this have "r ! 0 = VDS_BT_STATE_REPORT_ID" using take3 [of r] by simp
  ultimately show ?thesis by (simp add: carries_def kBtStateReportSize_def)
qed

lemma sealed_output:
  assumes "fill_output_report_checksum r0 = Inr r" "length r0 \<in> {78, 142, 398}"
  shows "good_report r"
  using assms sealed_report [of r0] by (auto simp: good_report_def)

lemma mic_report_good: "build_bt_mic_report a s = (Inr r, s') \<Longrightarrow> good_report r"
  unfolding build_bt_mic_report_def Let_def
  by (drule prod.inject [THEN iffD1], elim conjE, erule sealed_output) (simp add: protocol_consts)

lemma mic_state_report_good: "build_bt_mic_state_report a m s = (Inr r, s') \<Longrightarrow> good_report r"
  unfolding build_bt_mic_state_report_def Let_def
  by (drule prod.inject [THEN iffD1], elim conjE, erule sealed_output) (simp add: protocol_consts)

lemma init_report_good: "build_bt_init_report s = Inr r \<Longrightarrow> length (ds_state s) = 63 \<Longrightarrow> good_report r"
  unfolding build_bt_init_report_def Let_def
  by (erule sealed_output) (simp add: protocol_consts)

lemma haptics_packet_good:
  assumes "build_packet h sp st en plug b = (Inr r, b')" "length h = 64" "length sp = 200" "length st = 63"
  shows "good_report r"
  using haptics_packet_layout [OF assms(2-4), of en plug b] assms(1)
  by (auto simp: good_report_def kBtHapticsReportSize_def)

section \<open>Audio chunks\<close>

lemma consume_frame_chunk: "consume_frame enc se base x = (Inr (Some c), y) \<Longrightarrow> chunk_ok c"
proof -
  have len: "length (resample_haptics_pcm pcm n) = 64" for pcm n
  proof -
    have "length (concat (map (resample_haptics_frame pcm n) fs)) = 2 * length fs" for fs
      by (induction fs) (simp_all add: resample_haptics_frame_def Let_def)
    then show ?thesis
      by (simp add: resample_haptics_pcm_def haptics_frames_def kHapticsSampleSize_def kSpeakerChannels_def)
  qed
  have sp: "length r = 200" if "SpeakerEncoder_encode enc se pcm n e = (Inr r, e')" for pcm n e r e'
    using that by (auto simp: SpeakerEncoder_encode_def kSpeakerOpusSize_def split: prod.splits sum.splits)
  assume "consume_frame enc se base x = (Inr (Some c), y)"
  then show ?thesis
    by (auto simp: consume_frame_def Let_def chunk_ok_def len dest: sp split: if_splits prod.splits sum.splits)
qed

lemma consume_frames_chunks:
  "consume_frames enc se n bs x cs = (Inr cs', y) \<Longrightarrow> list_all chunk_ok cs \<Longrightarrow> list_all chunk_ok cs'"
proof (induction n arbitrary: bs x cs)
  case (Suc n)
  obtain r x' where r: "consume_frame enc se (take kPcmFrameSize bs) x = (r, x')" by fastforce
  with Suc.prems obtain c where c: "r = Inr c" by (cases r) auto
  with r have "case c of None \<Rightarrow> True | Some ch \<Rightarrow> chunk_ok ch"
    by (auto split: option.splits dest: consume_frame_chunk)
  with Suc r c show ?case by (auto split: option.splits)
qed simp

lemma push_loop_chunks:
  "push_loop enc se bs x cs = (Inr cs', y) \<Longrightarrow> list_all chunk_ok cs \<Longrightarrow> list_all chunk_ok cs'"
proof (induction enc se bs x cs rule: push_loop.induct)
  case (1 enc se bs x cs)
  consider (stop) "bs = [] \<or> kPcmFrameSize < pending_frame_pos x"
    | (bulk) "\<not> (bs = [] \<or> kPcmFrameSize < pending_frame_pos x)" "pending_frame_pos x = 0 \<and> length bs \<ge> kPcmFrameSize"
    | (part) "\<not> (bs = [] \<or> kPcmFrameSize < pending_frame_pos x)"
        "\<not> (pending_frame_pos x = 0 \<and> length bs \<ge> kPcmFrameSize)"
    by blast
  then show ?case
  proof cases
    case stop
    with "1.prems" show ?thesis by (subst (asm) push_loop.simps) simp
  next
    case bulk
    obtain r x' where r: "consume_frames enc se (length bs div kPcmFrameSize) bs x cs = (r, x')" by fastforce
    have eq: "push_loop enc se bs x cs = (case r of Inl e \<Rightarrow> (Inl e, x')
        | Inr cs2 \<Rightarrow> push_loop enc se (drop (length bs div kPcmFrameSize * kPcmFrameSize) bs) x' cs2)"
      by (subst push_loop.simps) (simp only: if_not_P [OF bulk(1)] if_P [OF bulk(2)] Let_def r prod.case)
    show ?thesis
    proof (cases r)
      case (Inl e)
      with "1.prems"(1) show ?thesis by (simp add: eq)
    next
      case (Inr cs2)
      with "1.prems"(1) have "push_loop enc se (drop (length bs div kPcmFrameSize * kPcmFrameSize) bs) x' cs2 = (Inr cs', y)"
        by (simp add: eq)
      moreover have "list_all chunk_ok cs2" using consume_frames_chunks r Inr "1.prems"(2) by blast
      ultimately show ?thesis by (rule "1.IH"(1) [OF bulk refl r [symmetric] Inr])
    qed
  next
    case part
    define pos where "pos = pending_frame_pos x"
    define n where "n = min (length bs) (kPcmFrameSize - pos)"
    define x1 where "x1 = x\<lparr>pending_frame := blit pos (take n bs) (pending_frame x), pending_frame_pos := pos + n\<rparr>"
    have eq: "push_loop enc se bs x cs =
       (if pos + n = kPcmFrameSize then
           (case consume_frame enc se (pending_frame x1) x1 of
              (Inl e, x2) \<Rightarrow> (Inl e, x2)
            | (Inr c, x2) \<Rightarrow>
                push_loop enc se (drop n bs) (x2\<lparr>pending_frame_pos := 0\<rparr>)
                  (case c of None \<Rightarrow> cs | Some ch \<Rightarrow> cs @ [ch]))
         else push_loop enc se (drop n bs) x1 cs)"
      unfolding x1_def n_def pos_def by (subst push_loop.simps) (simp only: if_not_P [OF part(1)] if_not_P [OF part(2)] Let_def)
    show ?thesis
    proof (cases "pos + n = kPcmFrameSize")
      case True
      obtain r x2 where r: "consume_frame enc se (pending_frame x1) x1 = (r, x2)" by fastforce
      show ?thesis
      proof (cases r)
        case (Inl e)
        from "1.prems"(1) show ?thesis unfolding eq r Inl if_P [OF True] by simp
      next
        case (Inr c)
        from r Inr have "case c of None \<Rightarrow> True | Some ch \<Rightarrow> chunk_ok ch"
          by (cases c) (simp_all, erule consume_frame_chunk)
        with "1.prems"(2) have cs: "list_all chunk_ok (case c of None \<Rightarrow> cs | Some ch \<Rightarrow> cs @ [ch])"
          by (cases c) simp_all
        from "1.prems"(1) have "push_loop enc se (drop n bs) (x2\<lparr>pending_frame_pos := 0\<rparr>)
            (case c of None \<Rightarrow> cs | Some ch \<Rightarrow> cs @ [ch]) = (Inr cs', y)"
          unfolding eq r Inr if_P [OF True] by (simp only: prod.case sum.case)
        then show ?thesis using cs by (rule "1.IH"(2) [OF part pos_def n_def x1_def refl True r [symmetric] Inr])
      qed
    next
      case False
      from "1.prems"(1) have "push_loop enc se (drop n bs) x1 cs = (Inr cs', y)"
        unfolding eq if_not_P [OF False] .
      then show ?thesis using "1.prems"(2) by (rule "1.IH"(3) [OF part pos_def n_def x1_def refl False])
    qed
  qed
qed

lemma push_usb_audio_chunks: "push_usb_audio enc se bs x = (Inr cs, y) \<Longrightarrow> list_all chunk_ok cs"
  unfolding push_usb_audio_def by (erule push_loop_chunks) simp

section \<open>Rules for the primitives\<close>

lemma port_ok_count [simp]: "port_ok (count u p) = port_ok p"
  by (simp add: count_def port_ok_def)

lemma keeps_pset: "(\<And>p. port_ok p \<Longrightarrow> port_ok (f p)) \<Longrightarrow> keeps_ok (pset f)"
  unfolding pset_def by (rule kept.modify_within) (simp add: ctx_ok_def)

lemma keeps_pget: "keeps_ok (pget f)"
  unfolding pget_def by (rule kept.gets_within)

lemma keeps_on_output: "(\<And>s. out_ok s \<Longrightarrow> out_ok (snd (f s))) \<Longrightarrow> keeps_ok (on_output f)"
  unfolding on_output_def on_part_def within_def
  by (auto simp: ctx_ok_def port_ok_def case_prod_beta)

lemma keeps_on_bt:
  "(\<And>b r b'. m b = (r, b') \<Longrightarrow> backend_ok b \<Longrightarrow> backend_ok b') \<Longrightarrow> keeps_ok (on_bt m)"
  unfolding on_bt_def on_part_def within_def
  by (auto simp: ctx_ok_def case_prod_beta) (metis prod.collapse)

lemma try_send_backend:
  "\<lbrakk>good_report report; try_send_output_report report b = (r, b'); backend_ok b\<rbrakk> \<Longrightarrow> backend_ok b'"
  by (simp add: backend_ok_def try_send_outcome control_out_def good_packet_def hidp_output_packet_def kBtHidpOutputPrefix_def)

lemma keeps_try_send: "good_report r \<Longrightarrow> keeps_ok (on_bt (try_send_output_report r))"
  by (rule keeps_on_bt) (rule try_send_backend)

lemma feature_get_good: "good_feature (feature_get_packet i)"
  by (simp add: feature_get_packet_def good_feature_def kBtHidpGetFeaturePrefix_def)

lemma feature_set_good: "\<lbrakk>feature_set_packet report = Inr packet; packet \<noteq> []\<rbrakk> \<Longrightarrow> good_feature packet"
  using feature_seal.fill_sealed [of report] feature_seal.fill_length [of report]
  by (auto simp: feature_set_packet_def res_bind_def good_feature_def kBtHidpSetFeaturePrefix_def split: if_splits sum.splits)

lemma write_control_backend:
  assumes "on_control (channel_write_full packet) b = (r, b')" "good_feature packet" "backend_ok b"
  shows "backend_ok b'"
proof -
  define ws where "ws = (case ch_fulls (control_ch b) of [] \<Rightarrow> [] | w # _ \<Rightarrow> w)"
  obtain q out where w: "write_full strerror_eagain bt_label kBtWritePollTimeoutMs packet ws = (q, out)" by fastforce
  have "control_out b' = (if out = [] then control_out b else control_out b @ [out])" "interrupt_out b' = interrupt_out b"
    using assms(1) w by (auto simp: on_control_def on_part_def channel_write_full_def ws_def Let_def control_out_def interrupt_out_def)
  moreover have "good_control out" using write_full_prefix [OF w] assms(2) by (auto simp: good_control_def)
  ultimately show ?thesis using assms(3) by (simp add: backend_ok_def)
qed

lemma keeps_control:
  "keeps_ok (on_bt (send_feature_get i))" "keeps_ok (on_bt (send_feature_set bs))" "keeps_ok (on_bt read_feature_report)"
  "keeps_ok (on_bt read_interrupt_packet)"
proof -
  have ch: "ch_out c' = ch_out c" if "channel_read n c = (r, c')" for n c r c'
    using that by (auto simp: channel_read_def split: list.splits sys_read.splits)
  show "keeps_ok (on_bt (send_feature_get i))"
    by (rule keeps_on_bt)
      (auto simp: send_feature_get_def split: if_splits intro: write_control_backend feature_get_good)
  show "keeps_ok (on_bt (send_feature_set bs))"
    using feature_set_packet_ok [of bs]
    by (intro keeps_on_bt)
      (auto simp: send_feature_set_def split: if_splits intro: write_control_backend feature_set_good)
  show "keeps_ok (on_bt read_feature_report)"
    by (rule keeps_on_bt)
      (auto simp: read_feature_report_def act_bind_def on_control_def on_part_def backend_ok_def interrupt_out_def
        control_out_def split: if_splits prod.splits sum.splits sys_read.splits dest: ch)
  show "keeps_ok (on_bt read_interrupt_packet)"
    by (rule keeps_on_bt)
      (auto simp: read_interrupt_packet_def act_bind_def on_interrupt_def on_part_def backend_ok_def interrupt_out_def
        control_out_def split: if_splits prod.splits sum.splits sys_read.splits dest: ch)
qed

lemmas keeps_rules = kept.rules keeps_pset keeps_pget keeps_control keeps_try_send

lemma keeps_gets: "keeps_ok (gets f)"
  by (rule kept.gets_within)

lemma returns_port: "(\<And>p. port_ok p \<Longrightarrow> Q p) \<Longrightarrow> returns ctx_ok (gets cx_port) Q"
  by (rule returns_gets) (simp add: ctx_ok_def)

lemma frame_bytes_good: "frame_bytes t payload = Inr f \<Longrightarrow> good_frame f"
  using header_fields(2) [of "\<lparr>fh_type = t, fh_flags = 0, fh_length = of_nat (length payload), fh_sequence = 0\<rparr>" "[]"]
  by (auto simp: frame_bytes_def good_frame_def parse_header_def VDS_FRAME_MAX_PAYLOAD_def unat_of_nat split: if_splits)

lemma keeps_write_vds_frame: "good_frame f \<Longrightarrow> keeps_ok (write_vds_frame f)"
proof -
  assume f: "good_frame f"
  have "port_ok (p\<lparr>vp_fd := snd (took f res (vp_fd p))\<rparr>)" if "port_ok p" for p :: "('e, 'd) LinuxVirtualPort" and res
    using that f by (auto simp: port_ok_def took_def)
  then show ?thesis unfolding write_vds_frame_def by (intro keeps_rules) simp_all
qed

lemma keeps_reply_frame: "keeps_ok (reply_frame t payload)"
  unfolding reply_frame_def
  by (rule bind_returns_within [where Q = good_frame])
    (auto intro!: keeps_rules keeps_write_vds_frame returnsI frame_bytes_good)

lemma keeps_cache_feature_report: "keeps_ok (cache_feature_report report)"
proof (cases "report = []")
  case False
  have "port_ok (store_feature report p)" if "port_ok p" for p :: "('e, 'd) LinuxVirtualPort"
    using that False unsigned_less [of "report ! 0", where ?'a = nat]
    by (auto simp: store_feature_def port_ok_def cache_ok_def nth_list_update)
  with False show ?thesis
    unfolding cache_feature_report_def by (auto intro!: keeps_rules keeps_reply_frame)
qed (simp add: cache_feature_report_def kept.rules)

section \<open>The state report\<close>

lemma port_ok_state_sent: "port_ok p \<Longrightarrow> port_ok (state_sent s p)"
  and port_ok_coalesce: "port_ok p \<Longrightarrow> port_ok (coalesce p)"
  by (auto simp: state_sent_def coalesce_def count_def port_ok_def)

lemma port_ok_defer:
  "port_ok p \<Longrightarrow> carries s packet \<Longrightarrow> last_sent_bt_state p \<noteq> Some s \<Longrightarrow> port_ok (defer_state s packet p)"
  by (simp add: defer_state_def Let_def count_def port_ok_def)

lemma keeps_flush_pending: "keeps_ok flush_pending_bt_state_report"
  unfolding flush_pending_bt_state_report_def
proof (rule bind_returns_within [OF keeps_gets returns_port])
  fix p :: "('e, 'd) LinuxVirtualPort" assume p: "port_ok p"
  show "keeps_ok (case (pending_bt_state_report p, pending_bt_state p) of
          (Some report, Some s) \<Rightarrow>
            act_bind (on_bt (try_send_output_report report))
              (\<lambda>sent. if sent then act_seq (pset (state_sent s)) (ret True)
                      else act_seq (pset (count blocked_bt_state_count_update)) (ret False))
        | _ \<Rightarrow> ret True)"
  proof (cases "pending_bt_state_report p"; cases "pending_bt_state p")
    fix report s assume rs: "pending_bt_state_report p = Some report" "pending_bt_state p = Some s"
    with p have "good_report report" by (auto simp: port_ok_def intro: carries_good)
    with rs show ?thesis by (auto intro!: keeps_rules port_ok_state_sent)
  qed (auto intro!: keeps_rules)
qed

text \<open>The effect of the two statements that surround a send.\<close>

lemma on_output_effect:
  "on_output f c = (r, c') \<longleftrightarrow> (\<exists>s. f (output_state (cx_port c)) = (r, s) \<and>
     c' = c\<lparr>cx_port := (cx_port c)\<lparr>output_state := s\<rparr>\<rparr>)"
  by (auto simp: on_output_def on_part_def split: prod.splits)

lemma on_bt_effect: "on_bt m c = (r, c') \<longleftrightarrow> (\<exists>b. m (cx_bt c) = (r, b) \<and> c' = c\<lparr>cx_bt := b\<rparr>)"
  by (auto simp: on_bt_def on_part_def split: prod.splits)

lemma pset_apply [simp]: "pset f c = (Inr (), c\<lparr>cx_port := f (cx_port c)\<rparr>)"
  by (simp add: pset_def)

lemma pset_seq [simp]: "act_seq (pset f) n c = n (c\<lparr>cx_port := f (cx_port c)\<rparr>)"
  by (simp add: pset_def)

lemma pget_bind [simp]: "act_bind (pget f) k c = k (f (cx_port c)) c"
  by (simp add: pget_def)

text \<open>Sending a state that differs from the last one sent.\<close>

definition send_state :: "(('e, 'd) ctx, unit) action" where
  "send_state c =
     act_bind (on_output build_bt_state_report)
       (\<lambda>packet. act_bind (on_bt (try_send_output_report packet))
          (\<lambda>sent. if sent then pset (state_sent (ds_state (output_state (cx_port c))))
                  else pset (defer_state (ds_state (output_state (cx_port c))) packet))) c"

lemma forward_unfold:
  "forward_bt_state_if_changed =
     act_seq flush_pending_bt_state_report
       (act_if (\<lambda>c. last_sent_bt_state (cx_port c) = Some (ds_state (output_state (cx_port c)))) (pset coalesce)
         (act_if (\<lambda>c. pending_bt_state (cx_port c) = Some (ds_state (output_state (cx_port c)))) (ret ()) send_state))"
  unfolding forward_bt_state_if_changed_def
  by (rule arg_cong [where f = "act_seq flush_pending_bt_state_report"])
    (simp add: fun_eq_iff send_state_def Let_def)

lemma send_state_effect:
  assumes "ctx_ok c" "send_state c = (r, c')"
  defines "p \<equiv> cx_port c" and "st \<equiv> ds_state (output_state (cx_port c))"
  obtains packet sent b where
    "build_bt_state_report (output_state p) = (Inr packet, (output_state p)\<lparr>report_sequence := next_sequence (report_sequence (output_state p))\<rparr>)"
    "carries st packet" "try_send_output_report packet (cx_bt c) = (sent, b)"
    "cx_bt c' = b" "r = (case sent of Inl e \<Rightarrow> Inl e | Inr _ \<Rightarrow> Inr ())"
    "cx_port c' = (let q = p\<lparr>output_state := (output_state p)\<lparr>report_sequence := next_sequence (report_sequence (output_state p))\<rparr>\<rparr> in
       case sent of Inl e \<Rightarrow> q | Inr True \<Rightarrow> state_sent st q | Inr False \<Rightarrow> defer_state st packet q)"
proof -
  have ok: "out_ok (output_state p)" using assms(1) by (simp add: ctx_ok_def port_ok_def p_def)
  obtain packet where b: "build_bt_state_report (output_state p) =
      (Inr packet, (output_state p)\<lparr>report_sequence := next_sequence (report_sequence (output_state p))\<rparr>)"
    using state_report_layout [OF out_okD [OF ok]] by (auto simp: build_bt_state_report_def Let_def)
  let ?q = "p\<lparr>output_state := (output_state p)\<lparr>report_sequence := next_sequence (report_sequence (output_state p))\<rparr>\<rparr>"
  obtain sent b' where t: "try_send_output_report packet (cx_bt c) = (sent, b')" by fastforce
  have o: "on_output build_bt_state_report c = (Inr packet, c\<lparr>cx_port := ?q\<rparr>)"
    using b by (simp add: on_output_effect p_def)
  have u: "on_bt (try_send_output_report packet) (c\<lparr>cx_port := ?q\<rparr>) = (sent, c\<lparr>cx_port := ?q, cx_bt := b'\<rparr>)"
    using t by (simp add: on_bt_effect)
  from assms(2) have s: "act_bind (on_output build_bt_state_report)
       (\<lambda>packet. act_bind (on_bt (try_send_output_report packet))
          (\<lambda>sent. if sent then pset (state_sent st) else pset (defer_state st packet))) c = (r, c')"
    by (simp only: send_state_def st_def)
  have cr: "carries st packet" using state_report_carries [OF ok b] by (simp add: st_def p_def)
  have "act_bind (on_bt (try_send_output_report packet))
          (\<lambda>sent. if sent then pset (state_sent st) else pset (defer_state st packet)) (c\<lparr>cx_port := ?q\<rparr>) = (r, c')"
    using s by (simp only: act_bind_Inr [where m = "on_output build_bt_state_report", OF o])
  then have e: "(case sent of Inl e \<Rightarrow> (Inl e, c\<lparr>cx_port := ?q, cx_bt := b'\<rparr>)
      | Inr True \<Rightarrow> (Inr (), c\<lparr>cx_port := state_sent st ?q, cx_bt := b'\<rparr>)
      | Inr False \<Rightarrow> (Inr (), c\<lparr>cx_port := defer_state st packet ?q, cx_bt := b'\<rparr>)) = (r, c')"
    by (cases sent) (auto simp: act_bind_def u split: if_splits)
  show ?thesis
    by (rule that [OF b cr t]) (use e in \<open>auto simp: Let_def split: sum.splits bool.splits\<close>)
qed

lemma keeps_send_state:
  assumes "ctx_ok c" "last_sent_bt_state (cx_port c) \<noteq> Some (ds_state (output_state (cx_port c)))"
    "send_state c = (r, c')"
  shows "ctx_ok c'"
proof -
  let ?p = "cx_port c" and ?st = "ds_state (output_state (cx_port c))"
  let ?q = "?p\<lparr>output_state := (output_state ?p)\<lparr>report_sequence := next_sequence (report_sequence (output_state ?p))\<rparr>\<rparr>"
  obtain packet sent b where x:
    "build_bt_state_report (output_state ?p) = (Inr packet, output_state ?q)"
    "carries ?st packet" "try_send_output_report packet (cx_bt c) = (sent, b)" "cx_bt c' = b"
    "cx_port c' = (case sent of Inl e \<Rightarrow> ?q | Inr True \<Rightarrow> state_sent ?st ?q | Inr False \<Rightarrow> defer_state ?st packet ?q)"
    by (rule send_state_effect [OF assms(1,3)]) (auto simp: Let_def)
  from assms(1) have p: "port_ok ?p" "backend_ok (cx_bt c)" by (auto simp: ctx_ok_def)
  then have "out_ok (output_state ?q)"
    using out_ok_ops(1) [of "output_state ?p"] x(1) by (simp add: port_ok_def)
  with p have q: "port_ok ?q" by (simp add: port_ok_def)
  have "last_sent_bt_state ?q \<noteq> Some ?st" using assms(2) by simp
  from port_ok_defer [OF q x(2) this] port_ok_state_sent [OF q, of ?st] q have "port_ok (cx_port c')"
    unfolding x(5) by (auto split: sum.split bool.split)
  moreover have "backend_ok b" using carries_good [OF x(2)] x(3) p(2) by (rule try_send_backend)
  ultimately show ?thesis using x(4) by (simp add: ctx_ok_def)
qed

lemma keeps_forward: "keeps_ok forward_bt_state_if_changed"
  unfolding forward_unfold
proof (intro kept.seq_within keeps_flush_pending keptI)
  fix c c' :: "('e, 'd) ctx" and r assume c: "ctx_ok c"
    and eq: "act_if (\<lambda>c. last_sent_bt_state (cx_port c) = Some (ds_state (output_state (cx_port c)))) (pset coalesce)
       (act_if (\<lambda>c. pending_bt_state (cx_port c) = Some (ds_state (output_state (cx_port c)))) (ret ()) send_state) c = (r, c')"
  with keeps_send_state [OF c] port_ok_coalesce [of "cx_port c"] show "ctx_ok c'"
    by (auto simp: ctx_ok_def split: if_splits)
qed

section \<open>The handlers\<close>

lemma port_ok_route: "port_ok p \<Longrightarrow> port_ok (route_audio a p)"
  using out_ok_ops(4) by (auto simp: route_audio_def port_ok_def)

lemma port_ok_queue_chunk: "port_ok p \<Longrightarrow> chunk_ok chunk \<Longrightarrow> port_ok (queue_chunk chunk p)"
  by (cases "pending_audio_chunks p") (auto simp: queue_chunk_def Let_def count_def port_ok_def kMaxPendingAudioChunks_def)

lemma list_all_drop: "list_all P xs \<Longrightarrow> list_all P (drop n xs)"
  by (metis append_take_drop_id list_all_append)

lemma list_all_tl: "list_all P xs \<Longrightarrow> list_all P (tl xs)"
  by (cases xs) auto

lemma port_ok_chunk_blocked: "port_ok p \<Longrightarrow> port_ok (chunk_blocked now p)"
  and port_ok_drop_stale: "port_ok p \<Longrightarrow> port_ok (drop_stale p)"
  by (auto simp: chunk_blocked_def drop_stale_def Let_def count_def port_ok_def list_all_drop list_all_tl)

lemma port_ok_chunk_sent:
  assumes "port_ok p"
  shows "port_ok (chunk_sent now p)"
proof -
  have "pending_ok (Some st) (if pend = Some st then None else pend) (if pend = Some st then None else rep)"
    if "pending_ok l pend rep" for l pend rep st
    using that by (cases "(l, pend, rep)" rule: pending_ok.cases) auto
  from this [of "last_sent_bt_state p" "pending_bt_state p" "pending_bt_state_report p" "ds_state (output_state p)"] assms
  show ?thesis by (auto simp: chunk_sent_def Let_def port_ok_def list_all_tl split: if_splits)
qed

lemma port_ok_reset: "port_ok p \<Longrightarrow> port_ok (reset_fields p)"
  using initial_out_ok by (simp add: reset_fields_def port_ok_def cache_ok_def)

lemma port_ok_disconnect: "port_ok p \<Longrightarrow> port_ok (disconnect_virtual_port p)"
  by (auto simp: disconnect_virtual_port_def port_ok_def)

lemma keeps_field:
  "(\<And>p. port_ok (f p) = port_ok p) \<Longrightarrow> keeps_ok (pset f)"
  by (rule keeps_pset) simp

lemma port_ok_fields [simp]:
  "port_ok (p\<lparr>extractor := x\<rparr>) = port_ok p" "port_ok (p\<lparr>waveout_extractor := x\<rparr>) = port_ok p"
  "port_ok (p\<lparr>mic_decoder := d\<rparr>) = port_ok p" "port_ok (p\<lparr>haptics_builder := h\<rparr>) = port_ok p"
  "port_ok (p\<lparr>audio_out_stream_active := v\<rparr>) = port_ok p" "port_ok (p\<lparr>audio_in_stream_active := v\<rparr>) = port_ok p"
  "port_ok (p\<lparr>speaker_waveout_selected := v\<rparr>) = port_ok p" "port_ok (p\<lparr>speaker_waveout_active := v\<rparr>) = port_ok p"
  "port_ok (p\<lparr>mic_muted := v\<rparr>) = port_ok p" "port_ok (p\<lparr>mute_button_down := v\<rparr>) = port_ok p"
  "port_ok (p\<lparr>vp_headset_plugged := v\<rparr>) = port_ok p" "port_ok (p\<lparr>vp_headset_mic_plugged := v\<rparr>) = port_ok p"
  "port_ok (p\<lparr>pending_feature_reports := ids\<rparr>) = port_ok p" "port_ok (p\<lparr>next_haptics_send_time := t\<rparr>) = port_ok p"
  by (simp_all add: port_ok_def)

lemma port_ok_clears:
  "port_ok p \<Longrightarrow> port_ok (p\<lparr>pending_audio_chunks := []\<rparr>)"
  "port_ok p \<Longrightarrow> n < 48 \<Longrightarrow> port_ok (p\<lparr>speaker_waveout_phase := n\<rparr>)"
  by (simp_all add: port_ok_def)

lemma keeps_on_part:
  assumes "\<And>c t. ctx_ok c \<Longrightarrow> ctx_ok (put t c)"
  shows "keeps_ok (on_part get put m)"
  using assms by (auto simp: on_part_def within_def case_prod_beta)

lemma keeps_send_report:
  assumes "\<And>s. out_ok s \<Longrightarrow> out_ok (snd (f s))" "\<And>s r s'. f s = (Inr r, s') \<Longrightarrow> good_report r"
  shows "keeps_ok (act_bind (on_output f) (\<lambda>report. act_seq (on_bt (try_send_output_report report)) (ret ())))"
  by (rule bind_returns_within [where Q = good_report])
    (auto intro!: keeps_rules keeps_on_output assms(1) returnsI dest: assms(2) simp: on_output_effect)

lemma keeps_send_mic_state: "keeps_ok send_mic_state"
  unfolding send_mic_state_def
  by (intro kept.bind_within keeps_gets keeps_send_report out_ok_ops mic_state_report_good)

lemma keeps_resets:
  "keeps_ok (reset_extractor cd)" "keeps_ok (reset_waveout_extractor cd)" "keeps_ok (reset_mic_decoder cd)"
  unfolding reset_extractor_def reset_waveout_extractor_def reset_mic_decoder_def
  by (intro keeps_rules; simp)+

lemma keeps_reset_virtual_port: "keeps_ok (reset_virtual_port cd)"
  unfolding reset_virtual_port_def by (intro keeps_rules keeps_resets port_ok_reset)

lemma keeps_forward_if: "keeps_ok (forward_if has_bt)"
  unfolding forward_if_def by (intro keeps_rules keeps_forward)

lemma keeps_interface_event: "keeps_ok (handle_interface_event cd has_bt payload)"
  unfolding handle_interface_event_def Let_def
  by (intro keeps_rules keeps_resets keeps_forward_if keeps_send_mic_state keeps_send_report out_ok_ops
      mic_report_good port_ok_route port_ok_clears) simp_all

lemma keeps_hid_out: "keeps_ok (handle_hid_out has_bt payload)"
proof -
  have "out_ok (snd (case apply_usb_output_report payload s of (ok, s') \<Rightarrow> (Inr ok, s')))" if "out_ok s" for s
    using out_ok_ops(5) [OF that, of payload] by (simp add: case_prod_beta)
  then show ?thesis unfolding handle_hid_out_def
    by (intro keeps_rules keeps_on_output keeps_forward_if port_ok_route)
qed

lemma keeps_feature_get: "keeps_ok (handle_feature_get has_bt payload)"
  unfolding handle_feature_get_def by (intro keeps_rules keeps_reply_frame) simp

lemma keeps_test_command: "keeps_ok (handle_test_command cd has_bt payload)"
  unfolding handle_test_command_def waveout_control_def Let_def
  by (intro keeps_rules keeps_cache_feature_report keeps_resets keeps_forward_if port_ok_clears)
    (simp_all add: port_ok_clears port_ok_route)

lemma keeps_feature_set: "keeps_ok (handle_feature_set cd has_bt payload)"
  unfolding handle_feature_set_def by (intro keeps_rules keeps_test_command)

lemma keeps_for_each:
  assumes "\<And>x. P x \<Longrightarrow> keeps_ok (m x)" "list_all P xs"
  shows "keeps_ok (for_each xs m)"
  using assms(2) by (induction xs) (auto intro!: keeps_rules assms(1))

lemma keeps_push:
  assumes "\<And>c x. ctx_ok c \<Longrightarrow> ctx_ok (put x c)" "\<And>chunks. list_all chunk_ok chunks \<Longrightarrow> keeps_ok (k chunks)"
  shows "keeps_ok (act_bind (on_part get put (push_usb_audio enc se payload)) k)"
proof (rule bind_returns_within [OF keeps_on_part [OF assms(1)] _ assms(2)])
  show "returns ctx_ok (on_part get put (push_usb_audio enc se payload)) (list_all chunk_ok)"
    by (rule returnsI) (auto simp: on_part_def dest: push_usb_audio_chunks split: prod.splits)
qed

lemma keeps_audio_out: "keeps_ok (handle_audio_out cd has_bt payload)"
  unfolding handle_audio_out_def
  by (intro kept.if_within kept.ret_within keeps_push keeps_for_each [where P = chunk_ok] keeps_pset
      port_ok_queue_chunk) (simp_all add: ctx_ok_def)

lemma keeps_handle_frame: "keeps_ok (handle_frame cd has_bt type payload)"
  unfolding handle_frame_def
  by (intro keeps_rules keeps_interface_event keeps_hid_out keeps_feature_get keeps_feature_set keeps_audio_out)

lemma keeps_handle_vds_frame: "keeps_ok (handle_vds_frame cd has_bt)"
proof -
  have rd: "keeps_ok (read_port n)" for n
    unfolding read_port_def on_part_def within_def
    by (auto simp: ctx_ok_def port_ok_def channel_read_def split: prod.splits list.splits sys_read.splits)
  show ?thesis unfolding handle_vds_frame_def Let_def
    by (intro kept.bind_within keeps_pget rd kept.case_read_within kept.if_within kept.throw_within kept.seq_within keeps_handle_frame
        kept.ret_within)
qed

lemma hid_in_frame_good: "length report = 64 \<Longrightarrow> good_frame (hid_in_frame report)"
  by (simp add: hid_in_frame_def good_frame_def VDS_FRAME_MAX_PAYLOAD_def)

lemma usb_input_length: "bt_input_to_usb_input packet = Some report \<Longrightarrow> length report = 64"
  by (auto simp: bt_input_to_usb_input_def protocol_consts split: if_splits)

lemma keeps_mic_packet: "keeps_ok (handle_mic_packet cd packet)"
  unfolding handle_mic_packet_def
  by (intro keeps_rules keeps_on_part keeps_reply_frame) (simp_all add: ctx_ok_def)

lemma keeps_input_buttons: "keeps_ok (input_buttons report)"
  unfolding input_buttons_def Let_def by (intro keeps_rules keeps_send_mic_state) simp

lemma keeps_headset_route: "keeps_ok (input_headset_route report)"
  unfolding input_headset_route_def by (intro keeps_rules keeps_forward port_ok_route) simp

lemma keeps_handle_bt_input: "keeps_ok (handle_bt_input cd)"
proof -
  have rep: "keeps_ok (case bt_input_to_usb_input packet of None \<Rightarrow> ret True
     | Some report \<Rightarrow> act_seq (input_buttons report) (act_seq (input_headset_route report)
         (act_seq (write_vds_frame (hid_in_frame report)) (ret True))))" for packet
    by (cases "bt_input_to_usb_input packet")
      (auto intro!: kept.ret_within kept.seq_within keeps_input_buttons keeps_headset_route keeps_write_vds_frame
        hid_in_frame_good dest: usb_input_length)
  show ?thesis unfolding handle_bt_input_def
    by (rule kept.bind_within [OF keeps_control(4) kept.case_option_within])
      (intro kept.ret_within kept.if_within kept.seq_within keeps_mic_packet rep)+
qed

lemma port_ok_store: "report \<noteq> [] \<Longrightarrow> port_ok p \<Longrightarrow> port_ok (store_feature report p)"
  using unsigned_less [of "report ! 0", where ?'a = nat]
  by (auto simp: store_feature_def port_ok_def cache_ok_def nth_list_update)

lemma keeps_handle_bt_control: "keeps_ok handle_bt_control"
proof -
  have st: "keeps_ok (if report = [] then ret True
     else act_seq (pset (store_feature report)) (act_bind (pget pending_feature_reports) k))"
    if "\<And>x. keeps_ok (k x)" for report k
    using that by (auto intro!: keeps_rules port_ok_store)
  show ?thesis unfolding handle_bt_control_def
    by (rule kept.bind_within [OF keeps_control(3) kept.case_option_within], rule kept.ret_within, rule st)
      (intro keeps_rules keeps_reply_frame, simp)
qed

lemma keeps_await_feature: "keeps_ok (await_feature i ps)"
proof (induction ps)
  case (Cons p ps)
  then show ?case
    by (cases p) (auto intro!: keeps_rules keeps_cache_feature_report simp del: act_apply)
qed (auto intro: keeps_rules simp del: act_apply)

lemma keeps_initialize: "keeps_ok (initialize_bt_controller ps)"
proof -
  have "keeps_ok (fetch_features ids ps)" for ids
    by (induction ids arbitrary: ps) (auto intro!: keeps_rules keeps_await_feature)
  then show ?thesis by (simp add: initialize_bt_controller_def)
qed

lemma keeps_send_chunk:
  assumes "chunk_ok chunk" "length st = 63"
  shows "keeps_ok (act_bind (on_part (\<lambda>c. haptics_builder (cx_port c))
            (\<lambda>h c. c\<lparr>cx_port := (cx_port c)\<lparr>haptics_builder := h\<rparr>\<rparr>)
            (build_packet (ch_haptics chunk) (ch_speaker chunk) st True plugged))
         (\<lambda>packet. act_bind (on_bt (try_send_output_report packet))
            (\<lambda>sent. if sent then act_seq (pset (chunk_sent now)) (ret True)
                    else act_seq (pset (chunk_blocked later)) (ret False))))"
proof (rule bind_returns_within [where Q = good_report])
  show "keeps_ok (on_part (\<lambda>c. haptics_builder (cx_port c)) (\<lambda>h c. c\<lparr>cx_port := (cx_port c)\<lparr>haptics_builder := h\<rparr>\<rparr>)
      (build_packet (ch_haptics chunk) (ch_speaker chunk) st True plugged))"
    by (rule keeps_on_part) (simp add: ctx_ok_def)
  show "returns ctx_ok (on_part (\<lambda>c. haptics_builder (cx_port c)) (\<lambda>h c. c\<lparr>cx_port := (cx_port c)\<lparr>haptics_builder := h\<rparr>\<rparr>)
      (build_packet (ch_haptics chunk) (ch_speaker chunk) st True plugged)) good_report"
    using assms by (intro returnsI) (auto simp: on_part_def chunk_ok_def intro: haptics_packet_good split: prod.splits)
qed (auto intro!: keeps_rules port_ok_chunk_sent port_ok_chunk_blocked)

lemma keeps_flush_audio: "keeps_ok (flush_pending_audio_chunk now later)"
proof (rule keptI)
  fix c c' :: "('e, 'd) ctx" and r
  assume eq: "flush_pending_audio_chunk now later c = (r, c')" and c: "ctx_ok c"
  let ?p = "cx_port c" and ?q = "drop_stale (cx_port c)"
  show "ctx_ok c'"
  proof (cases "pending_audio_chunks ?p = [] \<or> next_haptics_send_time ?p \<noteq> 0 \<and> now < next_haptics_send_time ?p")
    case True
    with eq c show ?thesis by (auto simp: flush_pending_audio_chunk_def split: if_splits)
  next
    case False
    from c have q: "port_ok ?q" by (simp add: ctx_ok_def port_ok_drop_stale)
    moreover have "0 < length (pending_audio_chunks ?p)" using False by simp
    then have "pending_audio_chunks ?q \<noteq> []"
      by (simp add: drop_stale_def Let_def kFreshPendingAudioChunks_def not_le diff_less)
    ultimately have hd: "chunk_ok (hd (pending_audio_chunks ?q))" "length (ds_state (output_state ?q)) = 63"
      by (cases "pending_audio_chunks ?q"; simp add: port_ok_def out_okD)+
    have "ctx_ok (c\<lparr>cx_port := ?q\<rparr>)" using c q by (simp add: ctx_ok_def)
    then show ?thesis
      by (rule keptD [OF keeps_send_chunk [OF hd], rotated])
        (use False eq in \<open>auto simp: flush_pending_audio_chunk_def Let_def\<close>)
  qed
qed

lemma keeps_enqueue_waveout: "keeps_ok (enqueue_speaker_waveout_chunk cd wave)"
proof -
  have "port_ok (p\<lparr>pending_audio_chunks := pending_audio_chunks p @
      take (kMaxPendingAudioChunks - length (pending_audio_chunks p)) chunks\<rparr>)"
    if "port_ok p" "list_all chunk_ok chunks" for p :: "('e, 'd) LinuxVirtualPort" and chunks
    using that by (auto simp: port_ok_def kMaxPendingAudioChunks_def list_all_iff dest: in_set_takeD)
  then show ?thesis unfolding enqueue_speaker_waveout_chunk_def
    by (intro kept.bind_within keeps_gets kept.if_within kept.ret_within kept.seq_within keeps_pset keeps_push)
      (auto simp: ctx_ok_def kSpeakerWaveoutPeriodFrames_def intro: port_ok_clears)
qed

lemma keeps_flush_port_outputs: "keeps_ok (flush_port_outputs cd wave now later)"
  unfolding flush_port_outputs_def
  by (intro keeps_rules keeps_flush_pending keeps_enqueue_waveout keeps_flush_audio)

end
