(* ===== verification/LinuxDaemon.thy ===== *)
theory LinuxDaemon
  imports LinuxPortInv Control
begin

text \<open>
  The Linux daemon above its ports (\<open>src/platform/linux/vdsd.cc\<close>): the controllers it serves,
  the assignment of ports to controllers, incoming Bluetooth channels, the reload of the
  configuration and of the devices, the control socket and the events of the main loop. BlueZ,
  udev, ioctls, \<open>accept\<close>, \<open>open\<close> and the clock are arguments; waiting for the default HID
  owner to let go of a controller changes no state and is left out, as are log records.
\<close>

section \<open>State\<close>

record ControllerRuntime =
  cr_config :: ControllerConfig
  cr_device :: string
  cr_detected_profile :: "u32 option"
  cr_backend :: "BtL2capBackend option"
  cr_pending_control_fd :: "channel option"
  cr_pending_interrupt_fd :: "channel option"
  cr_virtual_connected :: bool
  cr_last_error :: string

record ('e, 'd) daemon =
  dm_ports :: "('e, 'd) LinuxVirtualPort list"
  dm_controllers :: "ControllerRuntime list"
  dm_trace_flags :: u32
  dm_reload_requested :: bool
  dm_epoll_dirty :: bool

definition new_controller :: "ControllerConfig \<Rightarrow> ControllerRuntime" where
  "new_controller config =
     \<lparr>cr_config = config, cr_device = [], cr_detected_profile = None, cr_backend = None,
      cr_pending_control_fd = None, cr_pending_interrupt_fd = None, cr_virtual_connected = False, cr_last_error = []\<rparr>"

text \<open>The assignments that take a controller off its port.\<close>

definition release :: "ControllerRuntime \<Rightarrow> ControllerRuntime" where
  "release c = c\<lparr>cr_backend := None, cr_pending_control_fd := None, cr_pending_interrupt_fd := None,
                  cr_virtual_connected := False, cr_device := []\<rparr>"

definition put_controller :: "nat \<Rightarrow> ControllerRuntime \<Rightarrow> ('e, 'd) daemon \<Rightarrow> ('e, 'd) daemon" where
  "put_controller k c d = d\<lparr>dm_controllers := (dm_controllers d)[k := c]\<rparr>"

definition put_port :: "nat \<Rightarrow> ('e, 'd) LinuxVirtualPort \<Rightarrow> ('e, 'd) daemon \<Rightarrow> ('e, 'd) daemon" where
  "put_port i p d = d\<lparr>dm_ports := (dm_ports d)[i := p]\<rparr>"

definition mark_dirty :: "('e, 'd) daemon \<Rightarrow> ('e, 'd) daemon" where
  "mark_dirty d = d\<lparr>dm_epoll_dirty := True\<rparr>"

section \<open>Ports and controllers\<close>

definition find_port_index :: "('e, 'd) LinuxVirtualPort list \<Rightarrow> string \<Rightarrow> nat option" where
  "find_port_index ports path = find (\<lambda>i. vp_path (ports ! i) = path) [0..<length ports]"

definition present_port_indices :: "('e, 'd) LinuxVirtualPort list \<Rightarrow> u32 list" where
  "present_port_indices ports = List.map_filter (\<lambda>p. port_index_from_path Linux (vp_path p)) ports"

definition controller_uses_port :: "ControllerRuntime \<Rightarrow> bool" where
  "controller_uses_port c \<longleftrightarrow> cr_backend c \<noteq> None \<or> cr_pending_control_fd c \<noteq> None \<or>
     cr_pending_interrupt_fd c \<noteq> None \<or> cr_virtual_connected c"

text \<open>Other controllers are told apart by their place in the list, as the source compares addresses of objects.\<close>

definition others :: "ControllerRuntime list \<Rightarrow> nat \<Rightarrow> ControllerRuntime list" where
  "others cs k = map (\<lambda>j. cs ! j) (filter (\<lambda>j. j \<noteq> k) [0..<length cs])"

definition port_used_by_other_controller :: "ControllerRuntime list \<Rightarrow> nat \<Rightarrow> string \<Rightarrow> bool" where
  "port_used_by_other_controller cs k device \<longleftrightarrow>
     (\<exists>c \<in> set (others cs k). cr_device c = device \<and> controller_uses_port c)"

definition available_port_index :: "('e, 'd) LinuxVirtualPort list \<Rightarrow> ControllerRuntime list \<Rightarrow> nat \<Rightarrow> nat option" where
  "available_port_index ports cs k =
     (let occupied = List.map_filter (\<lambda>c. port_index_from_path Linux (cr_device c))
            (filter controller_uses_port (others cs k)) in
      case select_controller_config_port (cr_config (cs ! k)) (present_port_indices ports) occupied of
        None \<Rightarrow> None
      | Some selected \<Rightarrow>
          find (\<lambda>i. port_index_from_path Linux (vp_path (ports ! i)) = Some selected) [0..<length ports])"

definition controller_for_port :: "ControllerRuntime list \<Rightarrow> string \<Rightarrow> nat option" where
  "controller_for_port cs device =
     find (\<lambda>k. cr_device (cs ! k) = device \<and> controller_uses_port (cs ! k)) [0..<length cs]"

definition controller_for_address :: "ControllerRuntime list \<Rightarrow> string \<Rightarrow> nat option" where
  "controller_for_address cs address = find (\<lambda>k. cfg_address (cr_config (cs ! k)) = address) [0..<length cs]"

definition drop_bt_backend :: "nat \<Rightarrow> nat \<Rightarrow> ('e, 'd) daemon \<Rightarrow> ('e, 'd) daemon" where
  "drop_bt_backend k i d =
     (let c = dm_controllers d ! k in
      if cr_backend c = None \<and> \<not> cr_virtual_connected c then d
      else put_port i (disconnect_virtual_port
               ((dm_ports d ! i)\<lparr>pending_bt_state := None, pending_bt_state_report := None\<rparr>))
             (put_controller k (release c) d))"

section \<open>Incoming channels\<close>

text \<open>
  What the system returns while a controller is brought up: the modalias BlueZ knows, errors of
  the three ioctls, and the polls of the control channel.
\<close>

record link_env =
  le_modalias :: "string \<Rightarrow> string option"
  le_disconnect :: "string option"
  le_profile :: "string option"
  le_connect :: "string option"
  le_polls :: "poll_in list"

definition detect_bluetooth_profile :: "link_env \<Rightarrow> string \<Rightarrow> u32 result" where
  "detect_bluetooth_profile env address =
     (case le_modalias env address of
        None \<Rightarrow> Inl (Runtime_error (''failed to query BlueZ modalias for '' @ address))
      | Some modalias \<Rightarrow>
          (case controller_profile_from_modalias modalias of
             None \<Rightarrow> Inl (Runtime_error (''failed to detect Bluetooth device ID for '' @ address))
           | Some profile \<Rightarrow> usb_profile_from_controller_profile profile))"

definition resolve_config_profile :: "link_env \<Rightarrow> ControllerConfig \<Rightarrow> u32 result" where
  "resolve_config_profile env config =
     (case cfg_profile config of
        Unspecified \<Rightarrow> detect_bluetooth_profile env (cfg_address config)
      | profile \<Rightarrow> usb_profile_from_controller_profile profile)"

definition ioctl_checked :: "string \<Rightarrow> string option \<Rightarrow> (('e, 'd) ctx, unit) action" where
  "ioctl_checked name err =
     (case err of None \<Rightarrow> ret () | Some text \<Rightarrow> throw (Runtime_error (name @ '' failed: '' @ text)))"

definition bring_up :: "('e, 'd) codec \<Rightarrow> link_env \<Rightarrow> (('e, 'd) ctx, unit) action" where
  "bring_up cd env =
     act_seq (reset_virtual_port cd)
       (act_seq (ioctl_checked ''VDS_IOC_DISCONNECT'' (le_disconnect env))
         (act_seq (ioctl_checked ''VDS_IOC_SET_PROFILE'' (le_profile env))
           (act_seq (initialize_bt_controller (le_polls env))
             (act_bind (gets cx_port)
               (\<lambda>p. act_bind (of_result (build_bt_init_report (output_state p)))
                 (\<lambda>report. act_seq (on_bt (send_output_report report))
                   (pset (\<lambda>p. p\<lparr>last_sent_bt_state := Some (ds_state (output_state p))\<rparr>))))))))"

definition candidate_backend :: "ControllerRuntime \<Rightarrow> BtL2capBackend" where
  "candidate_backend c =
     \<lparr>bt_address = cfg_address (cr_config c),
      control_ch = (case cr_pending_control_fd c of None \<Rightarrow> closed_channel | Some ch \<Rightarrow> ch),
      interrupt_ch = (case cr_pending_interrupt_fd c of None \<Rightarrow> closed_channel | Some ch \<Rightarrow> ch)\<rparr>"

definition complete_pending_controller ::
  "('e, 'd) codec \<Rightarrow> link_env \<Rightarrow> (ControllerRuntime \<times> ('e, 'd) LinuxVirtualPort, unit) action" where
  "complete_pending_controller cd env = (\<lambda>(c, p).
     case resolve_config_profile env (cr_config c) of
       Inl e \<Rightarrow> (Inl e, c, p)
     | Inr profile \<Rightarrow>
         (let c1 = c\<lparr>cr_pending_control_fd := None, cr_pending_interrupt_fd := None\<rparr> in
          case bring_up cd env \<lparr>cx_port = p, cx_bt = candidate_backend c\<rparr> of
            (Inl e, x) \<Rightarrow> (Inl e, c1, cx_port x)
          | (Inr _, x) \<Rightarrow>
              (let c2 = c1\<lparr>cr_backend := Some (cx_bt x), cr_detected_profile := Some profile\<rparr> in
               case le_connect env of
                 Some text \<Rightarrow> (Inl (Runtime_error (''VDS_IOC_CONNECT failed: '' @ text)), c2, cx_port x)
               | None \<Rightarrow> (Inr (), c2\<lparr>cr_virtual_connected := True, cr_last_error := []\<rparr>, cx_port x))))"

definition kLinuxVirtualPortProviderUnavailable :: string where
  "kLinuxVirtualPortProviderUnavailable =
     ''vds_hcd kernel module is not loaded or no /dev/vds# ports are available''"

text \<open>The port of a controller that opens a channel: the one it has, or a free one.\<close>

definition assign_port :: "nat \<Rightarrow> ('e, 'd) daemon \<Rightarrow> ControllerRuntime \<times> bool" where
  "assign_port k d =
     (let cs = dm_controllers d; ports = dm_ports d; c = cs ! k in
      if cr_device c \<noteq> [] \<and> find_port_index ports (cr_device c) \<noteq> None \<and>
         \<not> port_used_by_other_controller cs k (cr_device c) then (c, True)
      else if ports = [] then (c\<lparr>cr_last_error := kLinuxVirtualPortProviderUnavailable\<rparr>, False)
      else
        (case available_port_index ports cs k of
           None \<Rightarrow> (c\<lparr>cr_last_error := ''no available virtual port''\<rparr>, False)
         | Some i \<Rightarrow> (c\<lparr>cr_device := vp_path (ports ! i)\<rparr>, True)))"

text \<open>A controller \<open>c\<close> with both channels is brought up on its port; otherwise it waits for the other one.\<close>

definition channels_taken :: "('e, 'd) codec \<Rightarrow> link_env \<Rightarrow> nat \<Rightarrow> ControllerRuntime \<Rightarrow> ('e, 'd) daemon \<Rightarrow> ('e, 'd) daemon" where
  "channels_taken cd env k c d =
     (if cr_pending_control_fd c = None \<or> cr_pending_interrupt_fd c = None then put_controller k c d
      else
        (case find_port_index (dm_ports d) (cr_device c) of
           None \<Rightarrow> put_controller k (c\<lparr>cr_pending_control_fd := None, cr_pending_interrupt_fd := None,
                      cr_device := [], cr_last_error := ''assigned virtual port disappeared''\<rparr>) d
         | Some i \<Rightarrow>
             (case complete_pending_controller cd env (c, dm_ports d ! i) of
                (Inr _, c', p) \<Rightarrow> mark_dirty (put_port i p (put_controller k c' d))
              | (Inl e, c', p) \<Rightarrow>
                  put_port i p (put_controller k ((release c')\<lparr>cr_last_error := what e\<rparr>) d))))"

definition accept_channel ::
  "('e, 'd) codec \<Rightarrow> link_env \<Rightarrow> bool \<Rightarrow> string \<Rightarrow> channel \<Rightarrow> ('e, 'd) daemon \<Rightarrow> ('e, 'd) daemon" where
  "accept_channel cd env control_channel address ch d =
     (case controller_for_address (dm_controllers d) address of
        None \<Rightarrow> d
      | Some k \<Rightarrow>
          if cr_backend (dm_controllers d ! k) \<noteq> None then d
          else
            (case assign_port k d of
               (c, False) \<Rightarrow> put_controller k c d
             | (c, True) \<Rightarrow>
                 channels_taken cd env k
                   (if control_channel then c\<lparr>cr_pending_control_fd := Some ch\<rparr> else c\<lparr>cr_pending_interrupt_fd := Some ch\<rparr>) d))"

text \<open>The loop over the channels that \<open>accept\<close> returns; it ends when there is none, or throws.\<close>

datatype accepted = Accepted string channel link_env | Accept_failed string

fun handle_bt_accept :: "('e, 'd) codec \<Rightarrow> bool \<Rightarrow> accepted list \<Rightarrow> (('e, 'd) daemon, unit) action" where
  "handle_bt_accept cd control_channel [] d = (Inr (), d)"
| "handle_bt_accept cd control_channel (Accept_failed err # as) d = (Inl (Runtime_error (''failed to accept incoming '' @ err)), d)"
| "handle_bt_accept cd control_channel (Accepted address ch env # as) d =
     handle_bt_accept cd control_channel as (accept_channel cd env control_channel address ch d)"

section \<open>Sending\<close>

definition has_pending_bt_output :: "('e, 'd) daemon \<Rightarrow> bool" where
  "has_pending_bt_output d \<longleftrightarrow>
     (\<exists>c \<in> set (dm_controllers d). cr_backend c \<noteq> None \<and>
        (case find_port_index (dm_ports d) (cr_device c) of
           None \<Rightarrow> False
         | Some i \<Rightarrow> (let p = dm_ports d ! i in
             pending_bt_state_report p \<noteq> None \<or> pending_audio_chunks p \<noteq> [] \<or> speaker_waveout_active p)))"

text \<open>The loop of \<open>next_wakeup_timeout_ms\<close>; \<open>now\<close> in nanoseconds.\<close>

fun wakeup_loop :: "('e, 'd) LinuxVirtualPort list \<Rightarrow> int \<Rightarrow> ControllerRuntime list \<Rightarrow> int \<Rightarrow> int" where
  "wakeup_loop ports now [] timeout = timeout"
| "wakeup_loop ports now (c # cs) timeout =
     (if cr_backend c = None then wakeup_loop ports now cs timeout
      else
        (case find_port_index ports (cr_device c) of
           None \<Rightarrow> wakeup_loop ports now cs timeout
         | Some i \<Rightarrow>
             (let next = next_haptics_send_time (ports ! i) in
              if pending_audio_chunks (ports ! i) = [] then wakeup_loop ports now cs timeout
              else if next = 0 \<or> next \<le> now then 0
              else wakeup_loop ports now cs (min timeout (- ((now - next) div 1000000))))))"

definition kPendingOutputPollMs :: int where "kPendingOutputPollMs = 2"

definition next_wakeup_timeout_ms :: "int \<Rightarrow> ('e, 'd) daemon \<Rightarrow> int" where
  "next_wakeup_timeout_ms now d =
     wakeup_loop (dm_ports d) now (dm_controllers d)
       (if has_pending_bt_output d then min 60000 kPendingOutputPollMs else 60000)"

text \<open>An action on the port and the backend of a controller.\<close>

definition run_link :: "nat \<Rightarrow> nat \<Rightarrow> (('e, 'd) ctx, 'a) action \<Rightarrow> (('e, 'd) daemon, 'a) action" where
  "run_link k i m d =
     (let c = dm_controllers d ! k;
          b = (case cr_backend c of None \<Rightarrow> candidate_backend (release c) | Some b \<Rightarrow> b) in
      case m \<lparr>cx_port = dm_ports d ! i, cx_bt = b\<rparr> of
        (r, x) \<Rightarrow> (r, put_port i (cx_port x)
                       (if cr_backend c = None then d else put_controller k (c\<lparr>cr_backend := Some (cx_bt x)\<rparr>) d)))"

text \<open>\<open>catch (error) \{ if (!is_bluetooth_error(error)) throw; drop_bt_backend(...); epoll_dirty = true; \}\<close>\<close>

definition guarded :: "nat \<Rightarrow> nat \<Rightarrow> (('e, 'd) daemon, 'a) action \<Rightarrow> 'a \<Rightarrow> (('e, 'd) daemon, 'a) action" where
  "guarded k i m stop =
     catch m (\<lambda>e. if is_bluetooth_error e then act_seq (modify (\<lambda>d. mark_dirty (drop_bt_backend k i d))) (ret stop)
                  else throw e)"

definition flush_controller :: "('e, 'd) codec \<Rightarrow> (nat \<Rightarrow> int) \<Rightarrow> int \<Rightarrow> int \<Rightarrow> nat \<Rightarrow> (('e, 'd) daemon, unit) action" where
  "flush_controller cd wave now later k =
     act_bind (gets (\<lambda>d. (dm_controllers d ! k, dm_ports d)))
       (\<lambda>(c, ports). if cr_backend c = None then ret ()
          else
            (case find_port_index ports (cr_device c) of
               None \<Rightarrow> modify (\<lambda>d. mark_dirty (put_controller k (release (dm_controllers d ! k)) d))
             | Some i \<Rightarrow> guarded k i (run_link k i (flush_port_outputs cd wave now later)) ()))"

definition flush_pending_outputs :: "('e, 'd) codec \<Rightarrow> (nat \<Rightarrow> int) \<Rightarrow> (nat \<Rightarrow> int \<times> int) \<Rightarrow> (('e, 'd) daemon, unit) action" where
  "flush_pending_outputs cd wave clock =
     act_bind (gets (\<lambda>d. length (dm_controllers d)))
       (\<lambda>n. for_each [0..<n] (\<lambda>k. flush_controller cd wave (fst (clock k)) (snd (clock k)) k))"

section \<open>Reload\<close>

text \<open>A port that was moved out of the vector; its path is empty and its descriptor closed.\<close>

definition moved_from :: "('e, 'd) LinuxVirtualPort \<Rightarrow> ('e, 'd) LinuxVirtualPort" where
  "moved_from p = p\<lparr>vp_path := [], vp_fd := closed_channel\<rparr>"

definition open_port :: "('e, 'd) codec \<Rightarrow> (string \<Rightarrow> channel result) \<Rightarrow> string \<Rightarrow> ('e, 'd) LinuxVirtualPort result" where
  "open_port cd open_fd device =
     res_bind (open_fd device) (\<lambda>fd. res_bind (fresh_extractor cd) (\<lambda>x. res_bind (fresh_extractor cd)
       (\<lambda>w. res_bind (cd_new_decoder cd) (\<lambda>m. Inr (opened_port device fd x w m)))))"

fun sync_loop :: "('e, 'd) codec \<Rightarrow> (string \<Rightarrow> channel result) \<Rightarrow> string list \<Rightarrow> ('e, 'd) LinuxVirtualPort list \<Rightarrow>
    ('e, 'd) LinuxVirtualPort list \<Rightarrow> ('e, 'd) LinuxVirtualPort list result \<times> ('e, 'd) LinuxVirtualPort list" where
  "sync_loop cd open_fd [] ports updated = (Inr updated, ports)"
| "sync_loop cd open_fd (device # devices) ports updated =
     (case find_port_index ports device of
        Some i \<Rightarrow> sync_loop cd open_fd devices (ports[i := moved_from (ports ! i)]) (updated @ [ports ! i])
      | None \<Rightarrow>
          (case open_port cd open_fd device of
             Inl e \<Rightarrow> (Inl e, ports)
           | Inr p \<Rightarrow> sync_loop cd open_fd devices ports (updated @ [p])))"

definition sync_virtual_ports :: "('e, 'd) codec \<Rightarrow> (string \<Rightarrow> channel result) \<Rightarrow> string list \<Rightarrow> (('e, 'd) daemon, unit) action" where
  "sync_virtual_ports cd open_fd devices d =
     (case sync_loop cd open_fd devices (dm_ports d) [] of
        (Inl e, ports) \<Rightarrow> (Inl e, d\<lparr>dm_ports := ports\<rparr>)
      | (Inr updated, _) \<Rightarrow> (Inr (), d\<lparr>dm_ports := updated\<rparr>))"

definition disconnect_at :: "string \<Rightarrow> ('e, 'd) LinuxVirtualPort list \<Rightarrow> ('e, 'd) LinuxVirtualPort list" where
  "disconnect_at device ports =
     (case find_port_index ports device of
        None \<Rightarrow> ports | Some i \<Rightarrow> ports[i := disconnect_virtual_port (ports ! i)])"

text \<open>Controllers whose device is gone lose their port.\<close>

definition lose_device :: "string list \<Rightarrow> nat \<Rightarrow> ('e, 'd) daemon \<Rightarrow> ('e, 'd) daemon" where
  "lose_device devices k d =
     (let c = dm_controllers d ! k in
      if \<not> controller_uses_port c \<or> cr_device c \<in> set devices then d
      else put_controller k (release c) (d\<lparr>dm_ports := disconnect_at (cr_device c) (dm_ports d)\<rparr>))"

text \<open>
  The new list of controllers: each configuration takes over the connection of the first old
  controller with its address and profile that no earlier one took, if the port is still there,
  allowed, and not yet taken.
\<close>

record ('e, 'd) handover =
  ho_old :: "ControllerRuntime list"
  ho_preserved :: "bool list"
  ho_active_devices :: "string list"
  ho_ports :: "('e, 'd) LinuxVirtualPort list"
  ho_next :: "ControllerRuntime list"

definition adopt :: "nat \<Rightarrow> ControllerConfig \<Rightarrow> ('e, 'd) handover \<Rightarrow> ('e, 'd) handover" where
  "adopt j config h =
     (let old = ho_old h ! j;
          present = (cr_device old \<noteq> [] \<and> find_port_index (ho_ports h) (cr_device old) \<noteq> None);
          allowed = (present \<and> controller_config_allows_path Linux config (cr_device old));
          available = (allowed \<and> cr_device old \<notin> set (ho_active_devices h));
          next = (new_controller config)\<lparr>cr_detected_profile := cr_detected_profile old, cr_last_error := cr_last_error old\<rparr> in
      if controller_uses_port old \<and> available then
        h\<lparr>ho_preserved := (ho_preserved h)[j := True], ho_active_devices := ho_active_devices h @ [cr_device old],
          ho_next := ho_next h @ [next\<lparr>cr_device := cr_device old, cr_backend := cr_backend old,
             cr_pending_control_fd := cr_pending_control_fd old,
             cr_pending_interrupt_fd := cr_pending_interrupt_fd old,
             cr_virtual_connected := cr_virtual_connected old\<rparr>]\<rparr>
      else
        h\<lparr>ho_preserved := (ho_preserved h)[j := True],
          ho_ports := (if controller_uses_port old \<and> cr_virtual_connected old \<and> present
                       then disconnect_at (cr_device old) (ho_ports h) else ho_ports h),
          ho_next := ho_next h @ [next]\<rparr>)"

definition take_over :: "ControllerConfig \<Rightarrow> ('e, 'd) handover \<Rightarrow> ('e, 'd) handover" where
  "take_over config h =
     (case find (\<lambda>j. \<not> ho_preserved h ! j \<and> cfg_address (cr_config (ho_old h ! j)) = cfg_address config \<and>
                   cfg_profile (cr_config (ho_old h ! j)) = cfg_profile config) [0..<length (ho_old h)] of
        None \<Rightarrow> h\<lparr>ho_next := ho_next h @ [new_controller config]\<rparr>
      | Some j \<Rightarrow> adopt j config h)"

definition leave_behind :: "nat \<Rightarrow> ('e, 'd) handover \<Rightarrow> ('e, 'd) handover" where
  "leave_behind j h =
     (if \<not> ho_preserved h ! j \<and> cr_virtual_connected (ho_old h ! j)
      then h\<lparr>ho_ports := disconnect_at (cr_device (ho_old h ! j)) (ho_ports h)\<rparr> else h)"

definition hand_over :: "ControllerConfig list \<Rightarrow> ('e, 'd) daemon \<Rightarrow> ('e, 'd) daemon" where
  "hand_over configs d =
     (let n = length (dm_controllers d);
          h0 = \<lparr>ho_old = dm_controllers d, ho_preserved = replicate n False, ho_active_devices = [],
                ho_ports = dm_ports d, ho_next = []\<rparr>;
          h = fold leave_behind [0..<n] (fold take_over configs h0) in
      d\<lparr>dm_ports := ho_ports h, dm_controllers := ho_next h\<rparr>)"

text \<open>\<open>devices\<close> is the sorted list udev reports, \<open>db\<close> what loading the database gives.\<close>

definition reconcile_controller_configs ::
  "('e, 'd) codec \<Rightarrow> (string \<Rightarrow> channel result) \<Rightarrow> string list \<Rightarrow> ConfigDb result \<Rightarrow> (('e, 'd) daemon, unit) action" where
  "reconcile_controller_configs cd open_fd devices db =
     act_seq (modify (\<lambda>d. fold (lose_device devices) [0..<length (dm_controllers d)] d))
       (act_seq (sync_virtual_ports cd open_fd devices)
         (act_bind (of_result db) (\<lambda>db. modify (hand_over (controllers db)))))"

section \<open>The control socket\<close>

definition controller_statuses :: "('e, 'd) daemon \<Rightarrow> VdsdControlControllerStatus list" where
  "controller_statuses d =
     map (\<lambda>c. \<lparr>ccs_address = cfg_address (cr_config c), ccs_connected = cr_virtual_connected c,
               ccs_path = (if cr_virtual_connected c then cr_device c else [])\<rparr>) (dm_controllers d)"

definition port_candidates :: "('e, 'd) daemon \<Rightarrow> VdsdControlPortCandidate list" where
  "port_candidates d =
     List.map_filter (\<lambda>p. map_option (\<lambda>i. \<lparr>pc_port = i, pc_path = vp_path p\<rparr>) (port_index_from_path Linux (vp_path p)))
       (dm_ports d)"

definition port_bindings :: "('e, 'd) daemon \<Rightarrow> VdsdControlPortBinding list" where
  "port_bindings d =
     List.map_filter (\<lambda>c. map_option (\<lambda>i. \<lparr>pb_port = i, pb_address = cfg_address (cr_config c), pb_device_address = []\<rparr>)
         (port_index_from_path Linux (cr_device c)))
       (filter controller_uses_port (dm_controllers d))"

text \<open>One client: its request is at most 255 bytes; the reply and the command's file are returned.\<close>

definition handle_control_client ::
  "string \<Rightarrow> ControllerTarget list result \<Rightarrow> file_view \<Rightarrow> file_view \<Rightarrow> write_outcome \<Rightarrow> ('e, 'd) daemon \<Rightarrow>
   control_result option \<times> ('e, 'd) daemon" where
  "handle_control_client received targets load update outcome d =
     (let buffer = take 255 received in
      if buffer = [] then (None, d)
      else
        (let r = handle_vdsd_control_command False (trim_command buffer)
               \<lparr>env_os = Linux, env_controllers = controller_statuses d,
                env_ports = build_vdsd_control_port_statuses (port_candidates d) (port_bindings d),
                env_targets = targets, env_load = load, env_update = update, env_outcome = outcome\<rparr>
               (dm_trace_flags d) (dm_reload_requested d) in
         (Some r, d\<lparr>dm_trace_flags := trace_flags r, dm_reload_requested := reload_requested r\<rparr>)))"

section \<open>Events\<close>

datatype EventType = Ev_Control | Ev_Port | Ev_BtControl | Ev_BtInterrupt | Ev_BtAcceptControl | Ev_BtAcceptInterrupt | Ev_Udev

fun event_number :: "EventType \<Rightarrow> u64" where
  "event_number Ev_Control = 1"
| "event_number Ev_Port = 2"
| "event_number Ev_BtControl = 3"
| "event_number Ev_BtInterrupt = 4"
| "event_number Ev_BtAcceptControl = 5"
| "event_number Ev_BtAcceptInterrupt = 6"
| "event_number Ev_Udev = 7"

definition encode_event :: "EventType \<Rightarrow> u64 \<Rightarrow> u64" where
  "encode_event type index = push_bit 32 (event_number type) OR ucast (ucast index :: u32)"

definition decode_event :: "u64 \<Rightarrow> u32 \<times> u64" where
  "decode_event data = (ucast (drop_bit 32 data), ucast (ucast data :: u32))"

definition add_epoll_fd :: "int \<Rightarrow> EventType \<Rightarrow> nat \<Rightarrow> (int \<times> u64) list \<Rightarrow> (int \<times> u64) list result" where
  "add_epoll_fd fd type index reg =
     (if fd < 0 then Inl (Runtime_error ''epoll add failed: Bad file descriptor'')
      else Inr (reg @ [(fd, encode_event type (of_nat index))]))"

definition add_ports :: "('e, 'd) LinuxVirtualPort list \<Rightarrow> (int \<times> u64) list \<Rightarrow> (int \<times> u64) list result" where
  "add_ports ports reg =
     foldl (\<lambda>r i. res_bind r (add_epoll_fd (ch_fd (vp_fd (ports ! i))) Ev_Port i)) (Inr reg) [0..<length ports]"

definition add_controllers :: "ControllerRuntime list \<Rightarrow> (int \<times> u64) list \<Rightarrow> (int \<times> u64) list result" where
  "add_controllers cs reg =
     foldl (\<lambda>r k. case cr_backend (cs ! k) of None \<Rightarrow> r
              | Some b \<Rightarrow> res_bind r (\<lambda>reg. res_bind (add_epoll_fd (ch_fd (control_ch b)) Ev_BtControl k reg)
                            (add_epoll_fd (ch_fd (interrupt_ch b)) Ev_BtInterrupt k)))
       (Inr reg) [0..<length cs]"

text \<open>The descriptors a new epoll instance watches; the four listeners are arguments.\<close>

definition rebuild_epoll :: "int \<Rightarrow> int \<Rightarrow> int \<Rightarrow> int \<Rightarrow> ('e, 'd) daemon \<Rightarrow> (int \<times> u64) list result" where
  "rebuild_epoll control_fd monitor_fd control_listener interrupt_listener d =
     res_bind (add_epoll_fd control_fd Ev_Control 0 []) (\<lambda>r1. res_bind (add_epoll_fd monitor_fd Ev_Udev 0 r1)
       (\<lambda>r2. res_bind (add_epoll_fd control_listener Ev_BtAcceptControl 0 r2)
         (\<lambda>r3. res_bind (add_epoll_fd interrupt_listener Ev_BtAcceptInterrupt 0 r3)
           (\<lambda>r4. res_bind (add_ports (dm_ports d) r4) (add_controllers (dm_controllers d))))))"

definition kMaxPortFramesPerWake :: nat where "kMaxPortFramesPerWake = 64"
definition kMaxBtPacketsPerWake :: nat where "kMaxBtPacketsPerWake = 64"

text \<open>Readable and failed, as in the event mask.\<close>

definition unserved_frames :: "('e, 'd) codec \<Rightarrow> nat \<Rightarrow> (('e, 'd) daemon, unit) action" where
  "unserved_frames cd i =
     on_part (\<lambda>d. \<lparr>cx_port = dm_ports d ! i,
                   cx_bt = candidate_backend (new_controller \<lparr>cfg_address = [], cfg_profile = Unspecified, cfg_ports = []\<rparr>)\<rparr>)
       (\<lambda>x. put_port i (cx_port x)) (repeat_while kMaxPortFramesPerWake (handle_vds_frame cd False))"

definition served_frames :: "('e, 'd) codec \<Rightarrow> nat \<Rightarrow> nat \<Rightarrow> (('e, 'd) daemon, unit) action" where
  "served_frames cd k i =
     act_bind (gets (\<lambda>d. cr_backend (dm_controllers d ! k) \<noteq> None))
       (\<lambda>has_bt. repeat_while kMaxPortFramesPerWake (guarded k i (run_link k i (handle_vds_frame cd has_bt)) False))"

definition port_event :: "('e, 'd) codec \<Rightarrow> nat \<Rightarrow> bool \<Rightarrow> bool \<Rightarrow> (('e, 'd) daemon, unit) action" where
  "port_event cd i readable failed =
     act_if (\<lambda>d. i \<ge> length (dm_ports d)) (ret ())
       (act_bind (gets (\<lambda>d. controller_for_port (dm_controllers d) (vp_path (dm_ports d ! i))))
         (\<lambda>controller. act_seq
           (if \<not> readable then ret ()
            else (case controller of None \<Rightarrow> unserved_frames cd i | Some k \<Rightarrow> served_frames cd k i))
           (if failed then modify (\<lambda>d. mark_dirty (d\<lparr>dm_reload_requested := True\<rparr>)) else ret ())))"

definition bt_event :: "nat \<Rightarrow> (('e, 'd) ctx, bool) action \<Rightarrow> bool \<Rightarrow> bool \<Rightarrow> (('e, 'd) daemon, unit) action" where
  "bt_event k handler readable failed =
     act_if (\<lambda>d. k \<ge> length (dm_controllers d) \<or> cr_backend (dm_controllers d ! k) = None) (ret ())
       (act_bind (gets (\<lambda>d. find_port_index (dm_ports d) (cr_device (dm_controllers d ! k))))
         (\<lambda>port. case port of
            None \<Rightarrow> modify (\<lambda>d. mark_dirty (put_controller k
                      ((dm_controllers d ! k)\<lparr>cr_backend := None, cr_virtual_connected := False\<rparr>) d))
          | Some i \<Rightarrow>
              act_seq (if readable then repeat_while kMaxBtPacketsPerWake (guarded k i (run_link k i handler) False) else ret ())
                (if failed then modify (\<lambda>d. mark_dirty (drop_bt_backend k i d)) else ret ())))"

definition disconnect_all :: "('e, 'd) daemon \<Rightarrow> ('e, 'd) daemon" where
  "disconnect_all d =
     d\<lparr>dm_ports := fold (\<lambda>c ports. if cr_virtual_connected c then disconnect_at (cr_device c) ports else ports)
          (dm_controllers d) (dm_ports d),
       dm_controllers := []\<rparr>"

end
