(* ===== verification/LinuxMain.thy ===== *)
theory LinuxMain
  imports LinuxDaemon
begin

text \<open>
  \<open>main\<close> of the Linux daemon (\<open>src/platform/linux/vdsd.cc\<close>): its arguments and one turn of its
  loop. A turn reloads when asked to, rebuilds the epoll set when it is stale, waits, dispatches
  the events and sends what is due; an exception that leaves it ends the daemon with exit code 1.
  What the system returns in the turn (devices, database, \<open>open\<close>, \<open>accept\<close>, the wait, the clock)
  is an argument. Reopening the log on SIGHUP writes only the log and is left out.
\<close>

section \<open>Arguments\<close>

record Options =
  opt_socket :: string
  opt_log_path :: string
  opt_db_path :: string

definition kDefaultControlSocket :: string where "kDefaultControlSocket = ''/run/vdsd.sock''"

lemma common_option_advances: "parse_vdsd_common_option argv i common = Inr (taken, j, common') \<Longrightarrow> i \<le> j"
  by (auto simp: parse_vdsd_common_option_def Let_def split: if_splits)

text \<open>\<open>None\<close> is the exit after the usage text.\<close>

function platform_args :: "string list \<Rightarrow> nat \<Rightarrow> string \<Rightarrow> VdsdCommonOptions \<Rightarrow> (string \<times> VdsdCommonOptions) option result" where
  "platform_args argv i socket common =
     (if i \<ge> length argv then Inr (Some (socket, common))
      else
        (case parse_vdsd_common_option argv i common of
           Inl e \<Rightarrow> Inl e
         | Inr (taken, j, common') \<Rightarrow>
             (if taken then (if help_requested common' then Inr None else platform_args argv (j + 1) socket common')
              else if argv ! i = ''--socket'' then
                (if i + 1 \<ge> length argv then Inl (Runtime_error (argv ! i @ '' requires a value''))
                 else platform_args argv (i + 2) (argv ! (i + 1)) common')
              else Inl (Runtime_error (''unknown argument: '' @ argv ! i)))))"
  by pat_completeness auto
termination
  by (relation "measure (\<lambda>(argv, i, _). length argv - i)")
    (auto dest!: common_option_advances)

definition parse_platform_args :: "string list \<Rightarrow> Options option result" where
  "parse_platform_args argv =
     res_bind (platform_args argv 1 kDefaultControlSocket (default_vdsd_common_options Linux))
       (\<lambda>r. Inr (map_option (\<lambda>(socket, common).
          \<lparr>opt_socket = socket, opt_log_path = log_path common, opt_db_path = db_path common\<rparr>) r))"

section \<open>One event\<close>

text \<open>What \<open>accept4\<close> and \<open>read\<close> return for a client of the control socket.\<close>

datatype client = No_client | Client_accept_failed string | Client_read_failed string | Client_sent string

record client_env =
  ce_targets :: "ControllerTarget list result"
  ce_load :: file_view
  ce_update :: file_view
  ce_outcome :: write_outcome

definition serve_client :: "client \<Rightarrow> client_env \<Rightarrow> (('e, 'd) daemon, unit) action" where
  "serve_client client env =
     (case client of
        No_client \<Rightarrow> ret ()
      | Client_accept_failed err \<Rightarrow> throw (Runtime_error (''accept control client failed: '' @ err))
      | Client_read_failed err \<Rightarrow> throw (Runtime_error (''read control client failed: '' @ err))
      | Client_sent received \<Rightarrow>
          modify (\<lambda>d. snd (handle_control_client received (ce_targets env) (ce_load env) (ce_update env)
            (ce_outcome env) d)))"

text \<open>An event of \<open>epoll_wait\<close> with what the system gives to the handler it starts.\<close>

record event =
  ev_data :: u64
  ev_in :: bool
  ev_err :: bool
  ev_client :: client
  ev_client_env :: client_env
  ev_accepted :: "accepted list"
  ev_drained :: bool

definition listener_failed :: "string \<Rightarrow> event \<Rightarrow> (('e, 'd) daemon, unit) action" where
  "listener_failed message ev = (if ev_err ev then throw (Runtime_error message) else ret ())"

definition is_event :: "EventType \<Rightarrow> u32 \<Rightarrow> bool" where
  "is_event t n \<longleftrightarrow> ucast n = event_number t"

definition dispatch_event :: "('e, 'd) codec \<Rightarrow> event \<Rightarrow> (('e, 'd) daemon, unit) action" where
  "dispatch_event cd ev =
     (let (t, index) = decode_event (ev_data ev); i = unat index in
      if is_event Ev_Control t then
        act_seq (if ev_in ev then serve_client (ev_client ev) (ev_client_env ev) else ret ())
          (listener_failed ''control socket epoll error'' ev)
      else if is_event Ev_BtAcceptControl t \<or> is_event Ev_BtAcceptInterrupt t then
        act_seq (if ev_in ev then handle_bt_accept cd (is_event Ev_BtAcceptControl t) (ev_accepted ev) else ret ())
          (listener_failed ''Bluetooth listener epoll error'' ev)
      else if is_event Ev_Udev t then
        act_seq (if ev_in ev \<and> ev_drained ev then modify (\<lambda>d. mark_dirty (d\<lparr>dm_reload_requested := True\<rparr>)) else ret ())
          (listener_failed ''udev monitor epoll error'' ev)
      else if is_event Ev_Port t then port_event cd i (ev_in ev) (ev_err ev)
      else if is_event Ev_BtControl t then bt_event i handle_bt_control (ev_in ev) (ev_err ev)
      else if is_event Ev_BtInterrupt t then bt_event i (handle_bt_input cd) (ev_in ev) (ev_err ev)
      else bt_event i (ret False) False False)"

section \<open>The loop\<close>

text \<open>The daemon and the descriptors of its epoll instance, if there is one.\<close>

record ('e, 'd) main_state =
  ms_daemon :: "('e, 'd) daemon"
  ms_epoll :: "(int \<times> u64) list option"

datatype wait = Wait_interrupted | Wait_failed string | Wait_timeout | Wait_ready "event list"

record turn =
  tn_devices :: "string list"
  tn_open :: "string \<Rightarrow> channel result"
  tn_db :: "ConfigDb result"
  tn_listeners :: "int \<times> int \<times> int \<times> int"
  tn_wait :: wait
  tn_clock :: "nat \<Rightarrow> int \<times> int"

definition start_state :: "('e, 'd) main_state" where
  "start_state =
     \<lparr>ms_daemon = \<lparr>dm_ports = [], dm_controllers = [], dm_trace_flags = 0, dm_reload_requested = True, dm_epoll_dirty = True\<rparr>,
      ms_epoll = None\<rparr>"

definition on_daemon :: "(('e, 'd) daemon, 'a) action \<Rightarrow> (('e, 'd) main_state, 'a) action" where
  "on_daemon = on_part ms_daemon (\<lambda>d s. s\<lparr>ms_daemon := d\<rparr>)"

text \<open>A failed reload is logged only.\<close>

definition reload_if_requested :: "('e, 'd) codec \<Rightarrow> turn \<Rightarrow> (('e, 'd) daemon, unit) action" where
  "reload_if_requested cd tn =
     act_when dm_reload_requested
       (act_seq (catch (act_seq (reconcile_controller_configs cd (tn_open tn) (tn_devices tn) (tn_db tn)) (modify mark_dirty))
                  (\<lambda>e. ret ()))
          (modify (\<lambda>d. d\<lparr>dm_reload_requested := False\<rparr>)))"

definition refresh_epoll :: "turn \<Rightarrow> (('e, 'd) main_state, unit) action" where
  "refresh_epoll tn =
     act_when (\<lambda>s. dm_epoll_dirty (ms_daemon s) \<or> ms_epoll s = None)
       (case tn_listeners tn of (control_fd, monitor_fd, control_listener, interrupt_listener) \<Rightarrow>
          act_bind (gets ms_daemon)
            (\<lambda>d. act_bind (of_result (rebuild_epoll control_fd monitor_fd control_listener interrupt_listener d))
               (\<lambda>reg. modify (\<lambda>s. s\<lparr>ms_epoll := Some reg, ms_daemon := (ms_daemon s)\<lparr>dm_epoll_dirty := False\<rparr>\<rparr>))))"

definition handle_wait :: "('e, 'd) codec \<Rightarrow> (nat \<Rightarrow> int) \<Rightarrow> turn \<Rightarrow> (('e, 'd) daemon, unit) action" where
  "handle_wait cd wave tn =
     (case tn_wait tn of
        Wait_interrupted \<Rightarrow> ret ()
      | Wait_failed err \<Rightarrow> throw (Runtime_error (''epoll_wait failed: '' @ err))
      | Wait_timeout \<Rightarrow> flush_pending_outputs cd wave (tn_clock tn)
      | Wait_ready events \<Rightarrow>
          act_seq (for_each (take 64 events) (dispatch_event cd)) (flush_pending_outputs cd wave (tn_clock tn)))"

definition main_turn :: "('e, 'd) codec \<Rightarrow> (nat \<Rightarrow> int) \<Rightarrow> turn \<Rightarrow> (('e, 'd) main_state, unit) action" where
  "main_turn cd wave tn =
     act_seq (on_daemon (reload_if_requested cd tn))
       (act_seq (refresh_epoll tn) (on_daemon (handle_wait cd wave tn)))"

end
