(* ===== verification/LinuxDaemonInv.thy ===== *)
theory LinuxDaemonInv
  imports LinuxMain
begin

text \<open>
  The invariant of the Linux daemon and that every operation of it keeps it, also when it throws:
  ports are used by one controller at most, a controller has a Bluetooth backend exactly while its
  virtual device is connected, and ports and backends satisfy the invariant of the port.
\<close>

section \<open>The invariant\<close>

definition exclusive :: "ControllerRuntime list \<Rightarrow> bool" where
  "exclusive cs \<longleftrightarrow> distinct (map cr_device (filter controller_uses_port cs))"

definition fresh_channel :: "channel \<Rightarrow> bool" where
  "fresh_channel ch \<longleftrightarrow> ch_out ch = []"

definition link_ok :: "ControllerRuntime \<Rightarrow> bool" where
  "link_ok c \<longleftrightarrow> (cr_virtual_connected c \<longleftrightarrow> cr_backend c \<noteq> None) \<and>
     (controller_uses_port c \<longrightarrow> cr_device c \<noteq> []) \<and>
     pred_option backend_ok (cr_backend c) \<and> pred_option fresh_channel (cr_pending_control_fd c) \<and>
     pred_option fresh_channel (cr_pending_interrupt_fd c) \<and>
     (cr_backend c \<noteq> None \<longrightarrow> cr_detected_profile c \<noteq> None \<and> cr_pending_control_fd c = None \<and> cr_pending_interrupt_fd c = None)"

definition daemon_ok :: "('e, 'd) daemon \<Rightarrow> bool" where
  "daemon_ok d \<longleftrightarrow> exclusive (dm_controllers d) \<and> list_all link_ok (dm_controllers d) \<and> list_all port_ok (dm_ports d)"

lemma ctx_ok_iff: "ctx_ok x \<longleftrightarrow> port_ok (cx_port x) \<and> backend_ok (cx_bt x)"
  by (simp add: ctx_ok_def)

named_theorems dm_simps

lemma dm_put_simps [dm_simps, simp]:
  "dm_controllers (put_controller k c d) = (dm_controllers d)[k := c]"
  "dm_ports (put_controller k c d) = dm_ports d"
  "dm_controllers (put_port i p d) = dm_controllers d"
  "dm_ports (put_port i p d) = (dm_ports d)[i := p]"
  "dm_controllers (mark_dirty d) = dm_controllers d"
  "dm_ports (mark_dirty d) = dm_ports d"
  by (simp_all add: put_controller_def put_port_def mark_dirty_def)

lemma release_simps [simp]:
  "controller_uses_port (release c) = False" "cr_backend (release c) = None" "cr_device (release c) = []"
  "cr_config (release c) = cr_config c" "controller_uses_port (release c\<lparr>cr_last_error := e\<rparr>) = False"
  by (simp_all add: release_def controller_uses_port_def)

lemma link_ok_release [simp]: "link_ok (release c)" "link_ok ((release c)\<lparr>cr_last_error := e\<rparr>)"
  by (simp_all add: link_ok_def release_def controller_uses_port_def)

lemma link_ok_new [simp]: "link_ok (new_controller config)"
  by (simp add: link_ok_def new_controller_def controller_uses_port_def)

lemma new_unused [simp]: "\<not> controller_uses_port (new_controller config)"
  by (simp add: new_controller_def controller_uses_port_def)

subsection \<open>Updates of one controller or port\<close>

lemma set_others:
  assumes "k < length cs"
  shows "set (others cs k) = set (take k cs @ drop (Suc k) cs)"
proof -
  have "others cs k = map ((!) cs) ([0..<k] @ [Suc k..<length cs])"
    using assms upt_add_eq_append [of 0 k "length cs - k"] upt_rec [of k "length cs"]
    by (simp add: others_def filter_empty_conv)
  also have "\<dots> = take k cs @ drop (Suc k) cs"
    using assms map_nth [of cs] take_map [of k "(!) cs" "[0..<length cs]"] drop_map [of "Suc k" "(!) cs" "[0..<length cs]"]
    by (simp add: min_def)
  finally show ?thesis by simp
qed

lemma exclusive_split:
  "exclusive (xs @ c # ys) \<longleftrightarrow> exclusive (xs @ ys) \<and>
     (controller_uses_port c \<longrightarrow> (\<forall>c' \<in> set (xs @ ys). controller_uses_port c' \<longrightarrow> cr_device c' \<noteq> cr_device c))"
  unfolding exclusive_def by (auto simp: image_iff)

lemma exclusive_at:
  assumes "k < length cs"
  shows "exclusive (cs[k := c]) \<longleftrightarrow> exclusive (take k cs @ drop (Suc k) cs) \<and>
    (controller_uses_port c \<longrightarrow> \<not> port_used_by_other_controller cs k (cr_device c))"
  unfolding upd_conv_take_nth_drop [OF assms] exclusive_split port_used_by_other_controller_def set_others [OF assms]
  by blast

lemma exclusive_update:
  assumes "exclusive cs" "controller_uses_port c \<Longrightarrow> \<not> port_used_by_other_controller cs k (cr_device c)"
  shows "exclusive (cs[k := c])"
proof (cases "k < length cs")
  case True
  with assms exclusive_at [OF True, of "cs ! k"] exclusive_at [OF True, of c] show ?thesis by simp
qed (use assms(1) in \<open>simp add: list_update_beyond not_less\<close>)

lemma exclusive_same:
  assumes "exclusive cs" "controller_uses_port c \<Longrightarrow> controller_uses_port (cs ! k) \<and> cr_device c = cr_device (cs ! k)"
  shows "exclusive (cs[k := c])"
proof (cases "k < length cs")
  case True
  with assms exclusive_at [OF True, of "cs ! k"] exclusive_at [OF True, of c] show ?thesis by auto
qed (use assms(1) in \<open>simp add: list_update_beyond not_less\<close>)

lemma daemon_ok_port: "daemon_ok d \<Longrightarrow> i < length (dm_ports d) \<Longrightarrow> port_ok (dm_ports d ! i)"
  by (simp add: daemon_ok_def list_all_length)

lemma daemon_ok_link: "daemon_ok d \<Longrightarrow> k < length (dm_controllers d) \<Longrightarrow> link_ok (dm_controllers d ! k)"
  by (simp add: daemon_ok_def list_all_length)

lemma list_all_update: "list_all P xs \<Longrightarrow> P x \<Longrightarrow> list_all P (xs[i := x])"
  by (auto simp: list_all_iff dest!: set_update_subset_insert [THEN subsetD])

lemma daemon_ok_put_port: "daemon_ok d \<Longrightarrow> port_ok p \<Longrightarrow> daemon_ok (put_port i p d)"
  by (simp add: daemon_ok_def list_all_update)

lemma daemon_ok_put_controller:
  assumes "daemon_ok d" "link_ok c"
    "controller_uses_port c \<Longrightarrow> controller_uses_port (dm_controllers d ! k) \<and> cr_device c = cr_device (dm_controllers d ! k)"
  shows "daemon_ok (put_controller k c d)"
  using assms by (simp add: daemon_ok_def list_all_update exclusive_same)

lemma daemon_ok_flags [simp]:
  "daemon_ok (mark_dirty d) = daemon_ok d" "daemon_ok (d\<lparr>dm_reload_requested := v\<rparr>) = daemon_ok d"
  "daemon_ok (d\<lparr>dm_trace_flags := w\<rparr>) = daemon_ok d" "daemon_ok (d\<lparr>dm_epoll_dirty := v\<rparr>) = daemon_ok d"
  by (simp_all add: daemon_ok_def mark_dirty_def)

section \<open>Operations on one controller\<close>

lemma daemon_ok_release: "daemon_ok d \<Longrightarrow> daemon_ok (put_controller k (release c) d)"
  by (rule daemon_ok_put_controller) simp_all

lemma pending_cleared: "port_ok p \<Longrightarrow> port_ok (p\<lparr>pending_bt_state := None, pending_bt_state_report := None\<rparr>)"
  by (simp add: port_ok_def)

lemma find_index: "find P [0..<n] = Some i \<Longrightarrow> i < n \<and> P i"
  by (auto simp: find_Some_iff)

lemma find_port_bound: "find_port_index ports path = Some i \<Longrightarrow> i < length ports \<and> vp_path (ports ! i) = path"
  unfolding find_port_index_def by (rule find_index)

lemma daemon_ok_drop:
  assumes "daemon_ok d" "i < length (dm_ports d)"
  shows "daemon_ok (drop_bt_backend k i d)"
proof -
  have "port_ok (disconnect_virtual_port ((dm_ports d ! i)\<lparr>pending_bt_state := None, pending_bt_state_report := None\<rparr>))"
    by (intro port_ok_disconnect pending_cleared daemon_ok_port assms)
  then show ?thesis
    by (simp add: drop_bt_backend_def Let_def assms daemon_ok_put_port daemon_ok_release)
qed

lemma drop_length [simp]:
  "length (dm_ports (drop_bt_backend k i d)) = length (dm_ports d)"
  "length (dm_controllers (drop_bt_backend k i d)) = length (dm_controllers d)"
  by (simp_all add: drop_bt_backend_def Let_def)

text \<open>An event handler works on a port and a controller that exist.\<close>

definition at :: "nat \<Rightarrow> nat \<Rightarrow> ('e, 'd) daemon \<Rightarrow> bool" where
  "at k i d \<longleftrightarrow> daemon_ok d \<and> k < length (dm_controllers d) \<and> i < length (dm_ports d)"

lemma keeps_run_link:
  assumes "keeps_ok m"
  shows "within (\<lambda>d d'. at k i d \<longrightarrow> at k i d') (run_link k i m)"
proof (rule keptI)
  fix d r d' assume run: "run_link k i m d = (r, d')" and d: "at k i d"
  define c where "c = dm_controllers d ! k"
  define b where "b = (case cr_backend c of None \<Rightarrow> candidate_backend (release c) | Some b \<Rightarrow> b)"
  obtain x where x: "m \<lparr>cx_port = dm_ports d ! i, cx_bt = b\<rparr> = (r, x)" and d': "d' = put_port i (cx_port x)
      (if cr_backend c = None then d else put_controller k (c\<lparr>cr_backend := Some (cx_bt x)\<rparr>) d)"
    using run unfolding run_link_def Let_def c_def [symmetric] b_def [symmetric]
    by (cases "m \<lparr>cx_port = dm_ports d ! i, cx_bt = b\<rparr>") auto
  have c: "link_ok c" using d by (auto simp: c_def at_def intro: daemon_ok_link)
  have "backend_ok b"
    using c by (auto simp: b_def link_ok_def candidate_backend_def release_def closed_channel_def backend_ok_def
        interrupt_out_def control_out_def split: option.splits)
  moreover have "port_ok (dm_ports d ! i)" using d by (auto simp: at_def intro: daemon_ok_port)
  ultimately have x_ok: "port_ok (cx_port x)" "backend_ok (cx_bt x)"
    using keptD [OF assms x] by (simp_all add: ctx_ok_iff)
  have "link_ok (c\<lparr>cr_backend := Some (cx_bt x)\<rparr>)" if "cr_backend c \<noteq> None"
    using c that x_ok(2) by (auto simp: link_ok_def controller_uses_port_def)
  then have "daemon_ok d'"
    using d x_ok(1) by (auto simp: d' at_def c_def controller_uses_port_def intro!: daemon_ok_put_port daemon_ok_put_controller)
  with d show "at k i d'" by (simp add: at_def d')
qed

lemma keeps_guarded:
  assumes "within (\<lambda>d d'. at k i d \<longrightarrow> at k i d') m"
  shows "within (\<lambda>d d'. at k i d \<longrightarrow> at k i d') (guarded k i m stop)"
  unfolding guarded_def
  by (intro kept.rules assms kept.modify_within) (simp add: at_def daemon_ok_drop)

lemmas keeps_link = keeps_guarded [OF keeps_run_link]

lemma keeps_where:
  assumes "within (\<lambda>d d'. at k i d \<longrightarrow> at k i d') m" "m d = (r, d')" "daemon_ok d"
    "k < length (dm_controllers d)" "i < length (dm_ports d)"
  shows "daemon_ok d'"
  using keptD [OF assms(1,2)] assms(3-5) by (simp add: at_def)

lemma keeps_flush_controller: "within (\<lambda>d d'. daemon_ok d \<and> k < length (dm_controllers d) \<longrightarrow> daemon_ok d') (flush_controller cd wave now later k)"
proof (rule withinI, rule impI)
  fix d r d' assume run: "flush_controller cd wave now later k d = (r, d')"
    and d: "daemon_ok d \<and> k < length (dm_controllers d)"
  show "daemon_ok d'"
  proof (cases "cr_backend (dm_controllers d ! k) = None")
    case False
    show ?thesis
    proof (cases "find_port_index (dm_ports d) (cr_device (dm_controllers d ! k))")
      case None
      with False run d show ?thesis by (auto simp: flush_controller_def daemon_ok_release)
    next
      case (Some i)
      with False run have "guarded k i (run_link k i (flush_port_outputs cd wave now later)) () d = (r, d')"
        by (auto simp: flush_controller_def)
      from keeps_where [OF keeps_link [OF keeps_flush_port_outputs] this] d find_port_bound [OF Some]
      show ?thesis by simp
    qed
  qed (use run d in \<open>simp add: flush_controller_def\<close>)
qed

text \<open>The number of controllers and of ports only changes at a reload.\<close>

definition shape :: "('e, 'd) daemon \<Rightarrow> nat \<times> nat" where
  "shape d = (length (dm_controllers d), length (dm_ports d))"

lemma shape_simps [simp]:
  "shape (put_controller k c d) = shape d" "shape (put_port i p d) = shape d" "shape (mark_dirty d) = shape d"
  "shape (drop_bt_backend k i d) = shape d" "shape (d\<lparr>dm_reload_requested := v\<rparr>) = shape d"
  by (simp_all add: shape_def)

lemma shape_run_link: "within (\<lambda>d d'. shape d' = shape d) (run_link k i m)"
  by (rule withinI) (auto simp: run_link_def Let_def split: prod.splits if_splits)

lemma shape_guarded:
  "within (\<lambda>d d'. shape d' = shape d) m \<Longrightarrow> within (\<lambda>d d'. shape d' = shape d) (guarded k i m stop)"
  unfolding guarded_def by (intro same.rules same.modify_within) simp_all

lemma shape_flush_controller: "within (\<lambda>d d'. shape d' = shape d) (flush_controller cd wave now later k)"
  unfolding flush_controller_def case_prod_beta
  by (intro same.rules same.modify_within shape_guarded shape_run_link) simp_all

lemma keeps_flush_pending_outputs: "within (\<lambda>d d'. daemon_ok d \<longrightarrow> daemon_ok d') (flush_pending_outputs cd wave clock)"
proof -
  define J where "J n d \<longleftrightarrow> daemon_ok d \<and> length (dm_controllers d) = n" for n and d :: "('a, 'b) daemon"
  have one: "within (\<lambda>d d'. J n d \<longrightarrow> J n d') (flush_controller cd wave now later k)" if "k < n" for n now later k
  proof (rule keptI)
    fix d r d' assume "flush_controller cd wave now later k d = (r, d')" "J n d"
    then show "J n d'"
      using that withinD [OF keeps_flush_controller] sameD [OF shape_flush_controller]
      unfolding J_def shape_def by (metis fst_conv)
  qed
  have all: "within (\<lambda>d d'. J n d \<longrightarrow> J n d') (for_each ks (\<lambda>k. flush_controller cd wave (fst (clock k)) (snd (clock k)) k))"
    if "\<forall>k \<in> set ks. k < n" for n ks
    using that by (induction ks) (auto intro: kept.ret_within kept.seq_within one)
  show ?thesis
    by (rule keptI) (auto simp: flush_pending_outputs_def J_def dest: keptD [OF all, rotated])
qed

lemma seq_daemon_ok:
  assumes "act_seq m n d = (r, d')" "\<And>q t. m d = (q, t) \<Longrightarrow> daemon_ok t" "within (\<lambda>d d'. daemon_ok d \<longrightarrow> daemon_ok d') n"
  shows "daemon_ok d'"
proof (cases rule: act_seq_cases [of m d n])
  case (ok x t)
  with assms(1) have "n t = (r, d')" by simp
  from keptD [OF assms(3) this assms(2) [OF ok(1)]] show ?thesis .
next
  case (thrown e t)
  with assms(1,2) show ?thesis by simp
qed

lemma keeps_unserved_frames:
  assumes "unserved_frames cd i d = (r, d')" "daemon_ok d" "i < length (dm_ports d)"
  shows "daemon_ok d'"
proof -
  obtain q x where x: "repeat_while kMaxPortFramesPerWake (handle_vds_frame cd False)
      \<lparr>cx_port = dm_ports d ! i,
       cx_bt = candidate_backend (new_controller \<lparr>cfg_address = [], cfg_profile = Unspecified, cfg_ports = []\<rparr>)\<rparr> = (q, x)"
    by fastforce
  have "ctx_ok x"
    by (rule keptD [OF kept.repeat_within [OF keeps_handle_vds_frame] x])
      (use assms(2,3) in \<open>simp add: ctx_ok_iff daemon_ok_port candidate_backend_def new_controller_def
        backend_ok_def interrupt_out_def control_out_def closed_channel_def\<close>)
  with x assms(1,2) show ?thesis
    by (auto simp: unserved_frames_def on_part_def ctx_ok_iff intro: daemon_ok_put_port)
qed

lemma keeps_served_frames: "within (\<lambda>d d'. at k i d \<longrightarrow> at k i d') (served_frames cd k i)"
  unfolding served_frames_def by (intro kept.rules keeps_link keeps_handle_vds_frame)

lemma keeps_port_event: "within (\<lambda>d d'. daemon_ok d \<longrightarrow> daemon_ok d') (port_event cd i readable failed)"
proof (rule keptI)
  fix d r d' assume run: "port_event cd i readable failed d = (r, d')" and d: "daemon_ok d"
  let ?controller = "controller_for_port (dm_controllers d) (vp_path (dm_ports d ! i))"
  let ?work = "if \<not> readable then ret () else case ?controller of None \<Rightarrow> unserved_frames cd i | Some k \<Rightarrow> served_frames cd k i"
  let ?last = "if failed then modify (\<lambda>d. mark_dirty (d\<lparr>dm_reload_requested := True\<rparr>)) else ret ()"
  show "daemon_ok d'"
  proof (cases "i \<ge> length (dm_ports d)")
    case False
    show ?thesis
    proof (rule seq_daemon_ok [of ?work ?last])
      show "act_seq ?work ?last d = (r, d')" using run False by (simp add: port_event_def)
      show "within (\<lambda>d d'. daemon_ok d \<longrightarrow> daemon_ok d') ?last"
        by (intro kept.rules kept.modify_within) simp
      show "daemon_ok t" if "?work d = (q, t)" for q t
      proof (cases ?controller)
        case None
        with that d False show ?thesis by (auto split: if_splits elim: keeps_unserved_frames)
      next
        case (Some k)
        then have "k < length (dm_controllers d)"
          using find_index by (auto simp: controller_for_port_def)
        with Some that d False show ?thesis
          by (auto split: if_splits elim: keeps_where [OF keeps_served_frames])
      qed
    qed
  qed (use run d in \<open>simp add: port_event_def\<close>)
qed

lemma keeps_bt_event:
  assumes "keeps_ok handler"
  shows "within (\<lambda>d d'. daemon_ok d \<longrightarrow> daemon_ok d') (bt_event k handler readable failed)"
proof (rule keptI)
  fix d r d' assume run: "bt_event k handler readable failed d = (r, d')" and d: "daemon_ok d"
  let ?c = "dm_controllers d ! k"
  show "daemon_ok d'"
  proof (cases "k \<ge> length (dm_controllers d) \<or> cr_backend ?c = None")
    case False
    then have k: "k < length (dm_controllers d)" "cr_backend ?c \<noteq> None" by auto
    show ?thesis
    proof (cases "find_port_index (dm_ports d) (cr_device ?c)")
      case None
      have "link_ok (?c\<lparr>cr_backend := None, cr_virtual_connected := False\<rparr>)"
        "\<not> controller_uses_port (?c\<lparr>cr_backend := None, cr_virtual_connected := False\<rparr>)"
        using daemon_ok_link [OF d k(1)] k(2) by (auto simp: link_ok_def controller_uses_port_def)
      then have "daemon_ok (put_controller k (?c\<lparr>cr_backend := None, cr_virtual_connected := False\<rparr>) d)"
        by (intro daemon_ok_put_controller d) simp_all
      with None run False show ?thesis by (auto simp: bt_event_def)
    next
      case (Some i)
      let ?work = "act_seq (if readable then repeat_while kMaxBtPacketsPerWake (guarded k i (run_link k i handler) False) else ret ())
        (if failed then modify (\<lambda>d. mark_dirty (drop_bt_backend k i d)) else ret ())"
      have "within (\<lambda>d d'. at k i d \<longrightarrow> at k i d') ?work"
        by (intro kept.rules keeps_link assms kept.modify_within) (simp add: at_def daemon_ok_drop)
      moreover have "?work d = (r, d')" using run Some False by (auto simp: bt_event_def)
      ultimately show ?thesis
        using d k(1) find_port_bound [OF Some] by (auto elim: keeps_where)
    qed
  qed (use run d in \<open>auto simp: bt_event_def\<close>)
qed

section \<open>Bringing a controller up\<close>

lemma pending_same_parts:
  "within (\<lambda>c c'. pending_bt_state (cx_port c') = pending_bt_state (cx_port c)) (on_bt m)"
  "within (\<lambda>c c'. pending_bt_state (cx_port c') = pending_bt_state (cx_port c)) (reply_frame t payload)"
  by (auto simp: within_def on_bt_effect [symmetric] reply_frame_def write_vds_frame_def on_bt_def on_part_def
      act_bind_def act_seq_def of_result_def pget_def pset_def gets_def modify_def count_def
      split: prod.splits sum.splits if_splits)

lemma pending_same_pset:
  "(\<And>p. pending_bt_state (f p) = pending_bt_state p) \<Longrightarrow>
   within (\<lambda>c c'. pending_bt_state (cx_port c') = pending_bt_state (cx_port c)) (pset f)"
  by (simp add: within_def)

lemma pending_same_cache:
  "within (\<lambda>c c'. pending_bt_state (cx_port c') = pending_bt_state (cx_port c)) (cache_feature_report report)"
  unfolding cache_feature_report_def pget_def
  by (intro same.rules pending_same_parts pending_same_pset) (simp add: store_feature_def)

lemma pending_same_await:
  "within (\<lambda>c c'. pending_bt_state (cx_port c') = pending_bt_state (cx_port c)) (await_feature i ps)"
proof (induction ps)
  case (Cons p ps)
  then show ?case
    by (cases p) (auto intro!: same.rules pending_same_parts pending_same_cache simp del: act_apply)
qed (auto intro: same.rules simp del: act_apply)

lemma pending_same_initialize:
  "within (\<lambda>c c'. pending_bt_state (cx_port c') = pending_bt_state (cx_port c)) (initialize_bt_controller ps)"
proof -
  have "within (\<lambda>c c'. pending_bt_state (cx_port c') = pending_bt_state (cx_port c)) (fetch_features ids ps)" for ids
    by (induction ids arbitrary: ps) (auto intro!: same.rules pending_same_parts pending_same_await)
  then show ?thesis by (simp add: initialize_bt_controller_def)
qed

definition clean :: "('e, 'd) ctx \<Rightarrow> bool" where
  "clean c \<longleftrightarrow> ctx_ok c \<and> pending_bt_state (cx_port c) = None"

lemma keeps_clean:
  assumes "keeps_ok m" "within (\<lambda>c c'. pending_bt_state (cx_port c') = pending_bt_state (cx_port c)) m"
  shows "within (\<lambda>c c'. clean c \<longrightarrow> clean c') m"
  using assms by (auto simp: within_def clean_def)

lemma keeps_ioctl: "within (\<lambda>c c'. I c \<longrightarrow> I c') (ioctl_checked name err)"
  by (cases err) (simp_all add: ioctl_checked_def kept.rules)

definition send_init_report :: "(('e, 'd) ctx, unit) action" where
  "send_init_report =
     act_bind (gets cx_port) (\<lambda>p. act_bind (of_result (build_bt_init_report (output_state p)))
       (\<lambda>report. act_seq (on_bt (send_output_report report))
          (pset (\<lambda>p. p\<lparr>last_sent_bt_state := Some (ds_state (output_state p))\<rparr>))))"

text \<open>
  The initial report is sent by a call that may wait and write a part of it before it throws; the
  channels are then closed.
\<close>

definition brought_up :: "'a result \<Rightarrow> ('e, 'd) ctx \<Rightarrow> bool" where
  "brought_up r c \<longleftrightarrow> port_ok (cx_port c) \<and> ((\<exists>x. r = Inr x) \<longrightarrow> backend_ok (cx_bt c))"

lemma send_output_effect:
  assumes "send_output_report report b = (Inr u, b')" "good_report report" "backend_ok b"
  shows "backend_ok b'"
proof (cases "ch_fd (interrupt_ch b) < 0")
  case False
  define ws where "ws = (case ch_fulls (interrupt_ch b) of [] \<Rightarrow> [] | w # _ \<Rightarrow> w)"
  define res where "res = write_full strerror_eagain bt_label kBtWritePollTimeoutMs (hidp_output_packet report) ws"
  have "fst res = Inr ()" and out: "interrupt_out b' =
      (if snd res = [] then interrupt_out b else interrupt_out b @ [snd res])" "control_out b' = control_out b"
    using assms(1) False
    by (auto simp: send_output_report_def on_interrupt_def on_part_def channel_write_full_def ws_def res_def
        interrupt_out_def control_out_def Let_def)
  then have "write_full strerror_eagain bt_label kBtWritePollTimeoutMs (hidp_output_packet report) ws = (Inr (), snd res)"
    by (simp add: res_def prod_eq_iff)
  from write_full_prefix [OF this] have "snd res = hidp_output_packet report" by simp
  with out assms(2,3) show ?thesis
    by (simp add: backend_ok_def good_packet_def hidp_output_packet_def kBtHidpOutputPrefix_def)
qed (use assms in \<open>simp add: send_output_report_def\<close>)

lemma send_init_report_effect:
  assumes "clean c" "send_init_report c = (r, c')"
  shows "brought_up r c'"
proof -
  have c: "port_ok (cx_port c)" "backend_ok (cx_bt c)" "pending_bt_state (cx_port c) = None"
    using assms(1) by (simp_all add: clean_def ctx_ok_iff)
  show ?thesis
  proof (cases "build_bt_init_report (output_state (cx_port c))")
    case (Inl e)
    with assms(2) c show ?thesis by (auto simp: send_init_report_def brought_up_def)
  next
    case (Inr report)
    then have report: "good_report report"
      using c(1) by (auto intro!: init_report_good out_okD simp: port_ok_def)
    obtain q b' where b': "send_output_report report (cx_bt c) = (q, b')" by fastforce
    show ?thesis
    proof (cases q)
      case (Inl e)
      with Inr b' assms(2) c(1) show ?thesis
        by (auto simp: send_init_report_def brought_up_def act_seq_def act_bind_def on_bt_def on_part_def)
    next
      case q: (Inr u)
      have "port_ok ((cx_port c)\<lparr>last_sent_bt_state := Some st\<rparr>)" for st
        using c(1,3) by (auto simp: port_ok_def elim: pending_ok.elims)
      with q Inr b' assms(2) send_output_effect [of report "cx_bt c" u b'] report c(2) show ?thesis
        by (auto simp: send_init_report_def brought_up_def act_seq_def act_bind_def on_bt_def on_part_def pset_def)
    qed
  qed
qed

lemma reset_clean:
  assumes "reset_virtual_port cd c = (Inr u, c')" "ctx_ok c"
  shows "clean c'"
proof -
  have "pending_bt_state (cx_port c') = None"
    using assms(1) by (auto simp: reset_virtual_port_def reset_fields_def elim!: act_seq_InrE)
  with keptD [OF keeps_reset_virtual_port assms] show ?thesis by (simp add: clean_def)
qed

definition brings_up :: "(('e, 'd) ctx, unit) action \<Rightarrow> bool" where
  "brings_up n \<longleftrightarrow> (\<forall>c r c'. clean c \<longrightarrow> n c = (r, c') \<longrightarrow> brought_up r c')"

lemma brings_up_seq:
  assumes "within (\<lambda>c c'. clean c \<longrightarrow> clean c') m" "brings_up n"
  shows "brings_up (act_seq m n)"
  unfolding brings_up_def
proof (intro allI impI)
  fix c r c' assume c: "clean c" and run: "act_seq m n c = (r, c')"
  show "brought_up r c'"
  proof (cases rule: act_seq_cases [of m c n])
    case (ok u t)
    with run have "n t = (r, c')" by simp
    with assms(2) keptD [OF assms(1) ok(1) c] show ?thesis by (simp add: brings_up_def)
  next
    case (thrown e t)
    with run keptD [OF assms(1) thrown(1) c] show ?thesis by (auto simp: clean_def brought_up_def ctx_ok_iff)
  qed
qed

lemma brings_up_report: "brings_up send_init_report"
  by (simp add: brings_up_def send_init_report_effect)

lemma bring_up_effect:
  assumes run: "bring_up cd env c = (r, c')" and c: "ctx_ok c"
  shows "brought_up r c'"
proof -
  define rest where "rest = act_seq (ioctl_checked ''VDS_IOC_DISCONNECT'' (le_disconnect env))
         (act_seq (ioctl_checked ''VDS_IOC_SET_PROFILE'' (le_profile env))
           (act_seq (initialize_bt_controller (le_polls env)) (send_init_report :: (('a, 'b) ctx, unit) action)))"
  have split: "bring_up cd env = act_seq (reset_virtual_port cd) rest"
    by (simp add: bring_up_def rest_def send_init_report_def)
  have rest: "brings_up rest"
    unfolding rest_def
    by (intro brings_up_seq brings_up_report keeps_ioctl keeps_clean keeps_initialize pending_same_initialize)
  show ?thesis
  proof (cases rule: act_seq_cases [of "reset_virtual_port cd" c rest])
    case (ok u t)
    with run have "rest t = (r, c')" by (simp add: split)
    with rest reset_clean [OF ok(1) c] show ?thesis by (simp add: brings_up_def)
  next
    case (thrown e t)
    with run keptD [OF keeps_reset_virtual_port thrown(1) c] show ?thesis
      by (auto simp: split brought_up_def ctx_ok_iff)
  qed
qed

section \<open>Incoming channels\<close>

lemma select_port_loop_free: "select_port_loop ps candidates occupied = Some p \<Longrightarrow> p \<notin> set occupied"
  by (induction ps) (auto split: if_splits)

lemma available_port_free:
  assumes "available_port_index ports cs k = Some i"
  shows "i < length ports" "\<not> port_used_by_other_controller cs k (vp_path (ports ! i))" "vp_path (ports ! i) \<noteq> []"
proof -
  let ?occupied = "List.map_filter (\<lambda>c. port_index_from_path Linux (cr_device c)) (filter controller_uses_port (others cs k))"
  obtain selected where sel: "select_controller_config_port (cr_config (cs ! k)) (present_port_indices ports) ?occupied = Some selected"
    and i: "i < length ports" "port_index_from_path Linux (vp_path (ports ! i)) = Some selected"
    using assms by (auto simp: available_port_index_def Let_def split: option.splits dest!: find_index)
  have "selected \<notin> set ?occupied"
    using sel by (simp add: select_controller_config_port_def select_port_loop_free)
  with i(2) show "\<not> port_used_by_other_controller cs k (vp_path (ports ! i))"
    by (auto simp: port_used_by_other_controller_def List.map_filter_def image_iff)
  show "vp_path (ports ! i) \<noteq> []"
    using i(2) by (auto simp: port_index_from_path_def port_prefixes_def find_Some_iff split: option.splits)
  show "i < length ports" by (rule i(1))
qed

lemma assign_port_free:
  assumes "assign_port k d = (c, True)"
  shows "cr_device c \<noteq> [] \<and> \<not> port_used_by_other_controller (dm_controllers d) k (cr_device c) \<and>
    c = (dm_controllers d ! k)\<lparr>cr_device := cr_device c\<rparr>"
  using assms by (auto simp: assign_port_def Let_def split: if_splits option.splits dest: available_port_free)

lemma assign_port_failed:
  assumes "assign_port k d = (c, False)"
  shows "\<exists>e. c = (dm_controllers d ! k)\<lparr>cr_last_error := e\<rparr>"
  using assms by (auto simp: assign_port_def Let_def split: if_splits option.splits)

lemma daemon_ok_put_free:
  assumes "daemon_ok d" "link_ok c" "\<not> port_used_by_other_controller (dm_controllers d) k (cr_device c)"
  shows "daemon_ok (put_controller k c d)"
  using assms by (simp add: daemon_ok_def list_all_update exclusive_update)

lemma candidate_backend_ok: "link_ok c \<Longrightarrow> backend_ok (candidate_backend c)"
  by (cases "cr_pending_interrupt_fd c"; cases "cr_pending_control_fd c")
    (auto simp: link_ok_def candidate_backend_def backend_ok_def interrupt_out_def control_out_def closed_channel_def fresh_channel_def)

lemma complete_pending_effect:
  assumes "complete_pending_controller cd env (c, p) = (r, c', p')" "link_ok c" "cr_device c \<noteq> []" "port_ok p"
  shows "port_ok p' \<and> cr_device c' = cr_device c \<and> ((\<exists>u. r = Inr u) \<longrightarrow> link_ok c')"
proof (cases "resolve_config_profile env (cr_config c)")
  case (Inr profile)
  obtain q x where x: "bring_up cd env \<lparr>cx_port = p, cx_bt = candidate_backend c\<rparr> = (q, x)" by fastforce
  have "brought_up q x"
    using assms(2,4) by (intro bring_up_effect [OF x]) (simp add: ctx_ok_iff candidate_backend_ok)
  with assms Inr x show ?thesis
    by (cases q) (auto simp: complete_pending_controller_def Let_def brought_up_def link_ok_def
        split: option.splits)
qed (use assms in \<open>auto simp: complete_pending_controller_def\<close>)

lemma channels_taken_ok:
  assumes d: "daemon_ok d" and c: "link_ok c" "cr_device c \<noteq> []" "cr_backend c = None"
    "\<not> port_used_by_other_controller (dm_controllers d) k (cr_device c)"
  shows "daemon_ok (channels_taken cd env k c d)"
proof (cases "cr_pending_control_fd c = None \<or> cr_pending_interrupt_fd c = None")
  case True
  with d c show ?thesis by (simp add: channels_taken_def daemon_ok_put_free)
next
  case False
  show ?thesis
  proof (cases "find_port_index (dm_ports d) (cr_device c)")
    case None
    have "daemon_ok (put_controller k (c\<lparr>cr_pending_control_fd := None, cr_pending_interrupt_fd := None,
        cr_device := [], cr_last_error := e\<rparr>) d)" for e
      using c by (intro daemon_ok_put_controller d) (auto simp: link_ok_def controller_uses_port_def)
    with None False show ?thesis by (auto simp: channels_taken_def)
  next
    case (Some i)
    obtain r c' p where run: "complete_pending_controller cd env (c, dm_ports d ! i) = (r, c', p)"
      by (metis prod_cases3)
    have up: "port_ok p" "cr_device c' = cr_device c" "(\<exists>u. r = Inr u) \<longrightarrow> link_ok c'"
      using complete_pending_effect [OF run c(1,2) daemon_ok_port [OF d]] find_port_bound [OF Some] by simp_all
    have "daemon_ok (put_controller k ((release c')\<lparr>cr_last_error := e\<rparr>) d)" for e
      by (intro daemon_ok_put_controller d) simp_all
    with d c(4) up show ?thesis
      by (cases r) (simp_all add: channels_taken_def False Some run daemon_ok_put_port daemon_ok_put_free)
  qed
qed

lemma accept_channel_ok:
  assumes d: "daemon_ok d" and ch: "fresh_channel ch"
  shows "daemon_ok (accept_channel cd env control_channel address ch d)"
proof (cases "controller_for_address (dm_controllers d) address")
  case None
  with d show ?thesis by (simp add: accept_channel_def)
next
  case (Some k)
  then have k: "k < length (dm_controllers d)" using find_index by (auto simp: controller_for_address_def)
  define c0 where "c0 = dm_controllers d ! k"
  have c0: "link_ok c0" unfolding c0_def by (rule daemon_ok_link [OF d k])
  show ?thesis
  proof (cases "cr_backend c0 = None")
    case True
    obtain c success where assign: "assign_port k d = (c, success)" by fastforce
    show ?thesis
    proof (cases success)
      case False
      with assign obtain e where "c = c0\<lparr>cr_last_error := e\<rparr>"
        unfolding c0_def by (auto dest: assign_port_failed)
      with c0 d have "daemon_ok (put_controller k c d)"
        by (intro daemon_ok_put_controller) (auto simp: link_ok_def controller_uses_port_def c0_def)
      with Some True False assign show ?thesis by (simp add: accept_channel_def c0_def)
    next
      case success: True
      define dev where "dev = cr_device c"
      have c: "dev \<noteq> []" "\<not> port_used_by_other_controller (dm_controllers d) k dev" "c = c0\<lparr>cr_device := dev\<rparr>"
        using assign_port_free [of k d c] assign success by (simp_all add: c0_def dev_def)
      have "daemon_ok (channels_taken cd env k
          (if control_channel then c\<lparr>cr_pending_control_fd := Some ch\<rparr> else c\<lparr>cr_pending_interrupt_fd := Some ch\<rparr>) d)"
        using c0 c(1,2) True ch by (intro channels_taken_ok d) (auto simp: c(3) link_ok_def)
      with Some True success assign show ?thesis by (simp add: accept_channel_def c0_def)
    qed
  qed (use Some d in \<open>simp add: accept_channel_def c0_def\<close>)
qed

fun fresh_accepted :: "accepted \<Rightarrow> bool" where
  "fresh_accepted (Accepted address ch env) = fresh_channel ch"
| "fresh_accepted (Accept_failed e) = True"

lemma keeps_bt_accept:
  "list_all fresh_accepted as \<Longrightarrow> within (\<lambda>d d'. daemon_ok d \<longrightarrow> daemon_ok d') (handle_bt_accept cd control_channel as)"
proof (rule keptI)
  fix d r d' assume "list_all fresh_accepted as" "handle_bt_accept cd control_channel as d = (r, d')" "daemon_ok d"
  then show "daemon_ok d'"
    by (induction cd control_channel as d rule: handle_bt_accept.induct) (auto simp: accept_channel_ok)
qed

section \<open>Reload\<close>

lemma list_all_disconnect_at: "list_all port_ok ports \<Longrightarrow> list_all port_ok (disconnect_at device ports)"
  by (cases "find_port_index ports device")
    (auto simp: disconnect_at_def list_all_length nth_list_update port_ok_disconnect dest!: find_port_bound)

lemma disconnect_at_paths [simp]: "map vp_path (disconnect_at device ports) = map vp_path ports"
  by (auto simp: disconnect_at_def disconnect_virtual_port_def map_update list_update_same_conv split: option.splits
      dest!: find_port_bound)

lemma daemon_ok_lose_device: "daemon_ok d \<Longrightarrow> daemon_ok (lose_device devices k d)"
  by (auto simp: lose_device_def Let_def intro!: daemon_ok_release)
    (simp add: daemon_ok_def list_all_disconnect_at)

lemma daemon_ok_lose_devices: "daemon_ok d \<Longrightarrow> daemon_ok (fold (lose_device devices) ks d)"
  by (induction ks arbitrary: d) (simp_all add: daemon_ok_lose_device)

lemma moved_from_ok: "port_ok p \<Longrightarrow> port_ok (moved_from p)"
  by (simp add: moved_from_def port_ok_def closed_channel_def)

definition fresh_open :: "(string \<Rightarrow> channel result) \<Rightarrow> bool" where
  "fresh_open open_fd \<longleftrightarrow> (\<forall>path ch. open_fd path = Inr ch \<longrightarrow> fresh_channel ch)"

lemma open_port_ok:
  assumes "open_port cd open_fd device = Inr p" "fresh_open open_fd"
  shows "port_ok p \<and> vp_path p = device"
  using assms initial_out_ok
  by (auto simp: open_port_def res_bind_def opened_port_def fresh_open_def fresh_channel_def port_ok_def cache_ok_def
      split: sum.splits)

lemma sync_loop_ok:
  assumes "fresh_open open_fd"
  shows "list_all port_ok ports \<Longrightarrow> list_all port_ok updated \<Longrightarrow>
    (case sync_loop cd open_fd devices ports updated of (r, left) \<Rightarrow>
       list_all port_ok left \<and> (case r of Inl e \<Rightarrow> True
         | Inr new \<Rightarrow> list_all port_ok new \<and> map vp_path new = map vp_path updated @ devices))"
proof (induction devices arbitrary: ports updated)
  case (Cons device devices)
  show ?case
  proof (cases "find_port_index ports device")
    case None
    show ?thesis
    proof (cases "open_port cd open_fd device")
      case (Inl e)
      with None Cons.prems show ?thesis by simp
    next
      case (Inr p)
      from open_port_ok [OF this assms] Cons.prems Cons.IH [of ports "updated @ [p]"] None Inr show ?thesis
        by (simp split: prod.splits sum.splits)
    qed
  next
    case (Some i)
    from find_port_bound [OF this] Cons.prems
    have "port_ok (ports ! i)" "vp_path (ports ! i) = device" by (simp_all add: list_all_length)
    with Cons.prems Cons.IH [of "ports[i := moved_from (ports ! i)]" "updated @ [ports ! i]"] Some show ?thesis
      by (simp add: list_all_update moved_from_ok split: prod.splits sum.splits)
  qed
qed simp

lemma keeps_sync: "fresh_open open_fd \<Longrightarrow> within (\<lambda>d d'. daemon_ok d \<longrightarrow> daemon_ok d') (sync_virtual_ports cd open_fd devices)"
proof (rule keptI)
  fix d r d' assume "fresh_open open_fd" "sync_virtual_ports cd open_fd devices d = (r, d')" "daemon_ok d"
  with sync_loop_ok [of open_fd "dm_ports d" "[]" devices cd] show "daemon_ok d'"
    by (auto simp: sync_virtual_ports_def daemon_ok_def split: prod.splits sum.splits)
qed

subsection \<open>Handing controllers over\<close>

definition handover_ok :: "('e, 'd) handover \<Rightarrow> bool" where
  "handover_ok h \<longleftrightarrow> list_all link_ok (ho_old h) \<and> list_all link_ok (ho_next h) \<and> list_all port_ok (ho_ports h) \<and>
     map cr_device (filter controller_uses_port (ho_next h)) = ho_active_devices h \<and> distinct (ho_active_devices h)"

lemma adopt_ok:
  assumes "handover_ok h" "j < length (ho_old h)"
  shows "handover_ok (adopt j config h)"
proof -
  have "link_ok (ho_old h ! j)" using assms by (simp add: handover_ok_def list_all_length)
  with assms(1) show ?thesis
    by (auto simp: adopt_def Let_def handover_ok_def list_all_disconnect_at link_ok_def new_controller_def
        controller_uses_port_def)
qed

lemma adopt_old [simp]: "ho_old (adopt j config h) = ho_old h"
  by (simp add: adopt_def Let_def)

lemma take_over_ok: "handover_ok h \<Longrightarrow> handover_ok (take_over config h)"
  by (auto simp: take_over_def split: option.splits dest!: find_index intro: adopt_ok) (simp add: handover_ok_def)

lemma take_over_all: "handover_ok h \<Longrightarrow> handover_ok (fold take_over configs h)"
  by (induction configs arbitrary: h) (simp_all add: take_over_ok)

lemma leave_behind_ok: "handover_ok h \<Longrightarrow> handover_ok (leave_behind j h)"
  by (simp add: leave_behind_def handover_ok_def list_all_disconnect_at)

lemma leave_behind_all: "handover_ok h \<Longrightarrow> handover_ok (fold leave_behind js h)"
  by (induction js arbitrary: h) (simp_all add: leave_behind_ok)

lemma hand_over_ok: "daemon_ok d \<Longrightarrow> daemon_ok (hand_over configs d)"
proof -
  let ?h0 = "\<lparr>ho_old = dm_controllers d, ho_preserved = replicate (length (dm_controllers d)) False,
    ho_active_devices = [], ho_ports = dm_ports d, ho_next = []\<rparr>"
  assume "daemon_ok d"
  then have "handover_ok ?h0" by (simp add: handover_ok_def daemon_ok_def)
  then have "handover_ok (fold leave_behind [0..<length (dm_controllers d)] (fold take_over configs ?h0))"
    by (intro leave_behind_all take_over_all)
  then show ?thesis by (simp add: hand_over_def Let_def daemon_ok_def handover_ok_def exclusive_def)
qed

lemma keeps_reconcile:
  "fresh_open open_fd \<Longrightarrow> within (\<lambda>d d'. daemon_ok d \<longrightarrow> daemon_ok d') (reconcile_controller_configs cd open_fd devices db)"
  unfolding reconcile_controller_configs_def
  by (intro kept.rules keeps_sync kept.modify_within) (simp_all add: daemon_ok_lose_devices hand_over_ok)

section \<open>Turns of the main loop\<close>

lemma keeps_serve_client: "within (\<lambda>d d'. daemon_ok d \<longrightarrow> daemon_ok d') (serve_client client env)"
  by (cases client)
    (auto simp: serve_client_def handle_control_client_def Let_def
      intro!: kept.ret_within kept.throw_within kept.modify_within)

definition fresh_event :: "event \<Rightarrow> bool" where
  "fresh_event ev \<longleftrightarrow> list_all fresh_accepted (ev_accepted ev)"

lemma keeps_listener_failed: "within (\<lambda>d d'. daemon_ok d \<longrightarrow> daemon_ok d') (listener_failed message ev)"
  by (simp add: listener_failed_def kept.rules)

lemma keeps_dispatch:
  assumes "fresh_event ev"
  shows "within (\<lambda>d d'. daemon_ok d \<longrightarrow> daemon_ok d') (dispatch_event cd ev)"
  using assms unfolding dispatch_event_def Let_def fresh_event_def case_prod_beta
  by (intro kept.rules keeps_serve_client keeps_listener_failed keeps_bt_accept keeps_port_event keeps_bt_event
      keeps_handle_bt_control keeps_handle_bt_input kept.modify_within) simp_all

fun fresh_wait :: "wait \<Rightarrow> bool" where
  "fresh_wait (Wait_ready events) = list_all fresh_event events"
| "fresh_wait _ = True"

text \<open>Descriptors the system hands out are new: nothing was written to them.\<close>

definition fresh_turn :: "turn \<Rightarrow> bool" where
  "fresh_turn tn \<longleftrightarrow> fresh_open (tn_open tn) \<and> fresh_wait (tn_wait tn)"

lemma keeps_each:
  "list_all P xs \<Longrightarrow> (\<And>x. P x \<Longrightarrow> within (\<lambda>d d'. I d \<longrightarrow> I d') (m x)) \<Longrightarrow>
   within (\<lambda>d d'. I d \<longrightarrow> I d') (for_each xs m)"
  by (induction xs) (auto intro: kept.ret_within kept.seq_within)

lemma keeps_handle_wait:
  assumes "fresh_wait (tn_wait tn)"
  shows "within (\<lambda>d d'. daemon_ok d \<longrightarrow> daemon_ok d') (handle_wait cd wave tn)"
proof (cases "tn_wait tn")
  case (Wait_ready events)
  with assms have "list_all fresh_event (take 64 events)"
    by (auto simp: list_all_iff dest: in_set_takeD)
  with Wait_ready show ?thesis
    by (auto simp: handle_wait_def intro!: kept.seq_within keeps_each keeps_dispatch keeps_flush_pending_outputs)
qed (auto simp: handle_wait_def intro: kept.rules keeps_flush_pending_outputs)

lemma keeps_reload_if_requested:
  assumes "fresh_open (tn_open tn)"
  shows "within (\<lambda>d d'. daemon_ok d \<longrightarrow> daemon_ok d') (reload_if_requested cd tn)"
  unfolding reload_if_requested_def
  by (intro kept.rules keeps_reconcile assms kept.modify_within) simp_all

lemma keeps_on_daemon:
  "within (\<lambda>d d'. daemon_ok d \<longrightarrow> daemon_ok d') m \<Longrightarrow>
   within (\<lambda>s s'. daemon_ok (ms_daemon s) \<longrightarrow> daemon_ok (ms_daemon s')) (on_daemon m)"
  unfolding on_daemon_def by (erule on_part_within) simp

lemma keeps_refresh_epoll: "within (\<lambda>s s'. daemon_ok (ms_daemon s) \<longrightarrow> daemon_ok (ms_daemon s')) (refresh_epoll tn)"
  unfolding refresh_epoll_def case_prod_beta
  by (intro kept.rules kept.modify_within) simp

lemma keeps_main_turn:
  "fresh_turn tn \<Longrightarrow> within (\<lambda>s s'. daemon_ok (ms_daemon s) \<longrightarrow> daemon_ok (ms_daemon s')) (main_turn cd wave tn)"
  unfolding main_turn_def fresh_turn_def
  by (intro kept.rules keeps_on_daemon keeps_reload_if_requested keeps_handle_wait keeps_refresh_epoll) simp_all

end
