(* ===== verification/LinuxPortProps.thy ===== *)
theory LinuxPortProps
  imports LinuxDaemonInv
begin

text \<open>
  Reachable states of a virtual port of the Linux daemon and the properties of its handlers.
\<close>

section \<open>Reachable states\<close>

text \<open>Between two calls the system may queue packets and change what the next calls return.\<close>

definition world_turns :: "channel \<Rightarrow> channel \<Rightarrow> bool" where
  "world_turns a b \<longleftrightarrow> ch_out b = ch_out a"

definition fresh_backend :: "BtL2capBackend \<Rightarrow> bool" where
  "fresh_backend b \<longleftrightarrow> interrupt_out b = [] \<and> control_out b = []"

text \<open>
  The states of a port and of the backend of the controller it serves: the port is opened; a controller is brought up on
  it (\<open>bring_up\<close> is the part of \<open>complete_pending_controller\<close> that touches port and backend: reset, initialisation, the
  initial report and the state recorded as sent), and when that fails the new backend is given up; the handlers of the
  main loop run, and may throw; the backend is dropped with the deferred report (the effect of \<open>drop_bt_backend\<close> on
  the port), or the port is disconnected by a reload.
\<close>

inductive linux_reachable :: "('e, 'd) codec \<Rightarrow> (nat \<Rightarrow> int) \<Rightarrow> ('e, 'd) ctx \<Rightarrow> bool" for cd wave where
  opened: "ch_out fd = [] \<Longrightarrow> fresh_backend b \<Longrightarrow>
    linux_reachable cd wave \<lparr>cx_port = opened_port path fd x w d, cx_bt = b\<rparr>"
| world: "linux_reachable cd wave c \<Longrightarrow> world_turns (vp_fd (cx_port c)) fd \<Longrightarrow>
    world_turns (control_ch (cx_bt c)) (control_ch b) \<Longrightarrow> world_turns (interrupt_ch (cx_bt c)) (interrupt_ch b) \<Longrightarrow>
    linux_reachable cd wave \<lparr>cx_port = (cx_port c)\<lparr>vp_fd := fd\<rparr>, cx_bt = b\<rparr>"
| backend: "linux_reachable cd wave c \<Longrightarrow> fresh_backend b \<Longrightarrow> linux_reachable cd wave (c\<lparr>cx_bt := b\<rparr>)"
| brought: "linux_reachable cd wave c \<Longrightarrow> bring_up cd env c = (Inr u, c') \<Longrightarrow> linux_reachable cd wave c'"
| not_brought: "linux_reachable cd wave c \<Longrightarrow> bring_up cd env c = (Inl e, c') \<Longrightarrow> fresh_backend b \<Longrightarrow>
    linux_reachable cd wave (c'\<lparr>cx_bt := b\<rparr>)"
| frame: "linux_reachable cd wave c \<Longrightarrow> handle_vds_frame cd has_bt c = (r, c') \<Longrightarrow> linux_reachable cd wave c'"
| input: "linux_reachable cd wave c \<Longrightarrow> handle_bt_input cd c = (r, c') \<Longrightarrow> linux_reachable cd wave c'"
| control: "linux_reachable cd wave c \<Longrightarrow> handle_bt_control c = (r, c') \<Longrightarrow> linux_reachable cd wave c'"
| flush: "linux_reachable cd wave c \<Longrightarrow> flush_port_outputs cd wave now later c = (q, c') \<Longrightarrow> linux_reachable cd wave c'"
| dropped: "linux_reachable cd wave c \<Longrightarrow> fresh_backend b \<Longrightarrow>
    linux_reachable cd wave \<lparr>cx_port = disconnect_virtual_port
      ((cx_port c)\<lparr>pending_bt_state := None, pending_bt_state_report := None\<rparr>), cx_bt = b\<rparr>"
| disconnect: "linux_reachable cd wave c \<Longrightarrow>
    linux_reachable cd wave (c\<lparr>cx_port := disconnect_virtual_port (cx_port c)\<rparr>)"

lemma opened_port_ok: "ch_out fd = [] \<Longrightarrow> port_ok (opened_port path fd x w d)"
  using initial_out_ok by (simp add: opened_port_def port_ok_def cache_ok_def)

lemma fresh_backend_ok: "fresh_backend b \<Longrightarrow> backend_ok b"
  by (simp add: fresh_backend_def backend_ok_def)

lemma reachable_ok: "linux_reachable cd wave c \<Longrightarrow> ctx_ok c"
proof (induction rule: linux_reachable.induct)
  case (world c fd b)
  then show ?case by (simp add: ctx_ok_def port_ok_def backend_ok_def world_turns_def interrupt_out_def control_out_def)
next
  case (opened fd b path x w d)
  then show ?case by (simp add: ctx_ok_def opened_port_ok fresh_backend_ok)
next
  case (backend c b)
  then show ?case by (simp add: ctx_ok_def fresh_backend_ok)
next
  case (brought c env u c')
  then show ?case using bring_up_effect [OF brought(2)] by (simp add: brought_up_def ctx_ok_def)
next
  case (not_brought c env e c' b)
  then show ?case using bring_up_effect [OF not_brought(2)] by (simp add: brought_up_def ctx_ok_def fresh_backend_ok)
next
  case (dropped c b)
  then have "port_ok ((cx_port c)\<lparr>pending_bt_state := None, pending_bt_state_report := None\<rparr>)" by (simp add: ctx_ok_def port_ok_def)
  then show ?case using dropped by (simp add: ctx_ok_def port_ok_disconnect fresh_backend_ok)
next
  case (disconnect c)
  then show ?case by (simp add: ctx_ok_def port_ok_disconnect)
qed (blast intro: keptD [OF keeps_handle_vds_frame] keptD [OF keeps_handle_bt_input]
    keptD [OF keeps_handle_bt_control] keptD [OF keeps_flush_port_outputs])+

section \<open>The latest state reaches the controller\<close>

lemma flush_cases:
  assumes "ctx_ok c"
  obtains (idle) "pending_bt_state (cx_port c) = None" "flush_pending_bt_state_report c = (Inr True, c)"
  | (pending) s r q b where "pending_bt_state (cx_port c) = Some s" "pending_bt_state_report (cx_port c) = Some r"
      "carries s r" "try_send_output_report r (cx_bt c) = (q, b)"
      "flush_pending_bt_state_report c = (q, c\<lparr>cx_bt := b, cx_port := (case q of Inl e \<Rightarrow> cx_port c
         | Inr True \<Rightarrow> state_sent s (cx_port c) | Inr False \<Rightarrow> count blocked_bt_state_count_update (cx_port c))\<rparr>)"
proof -
  let ?p = "cx_port c"
  from assms have ok: "pending_ok (last_sent_bt_state ?p) (pending_bt_state ?p) (pending_bt_state_report ?p)"
    by (simp add: ctx_ok_def port_ok_def)
  show thesis
  proof (cases "pending_bt_state ?p")
    case None
    with ok have "pending_bt_state_report ?p = None" by (cases "pending_bt_state_report ?p") auto
    with None idle show thesis by (simp add: flush_pending_bt_state_report_def)
  next
    case (Some s)
    with ok obtain r where r: "pending_bt_state_report ?p = Some r" "carries s r"
      by (cases "pending_bt_state_report ?p") auto
    obtain q b where t: "try_send_output_report r (cx_bt c) = (q, b)" by fastforce
    then have "on_bt (try_send_output_report r) c = (q, c\<lparr>cx_bt := b\<rparr>)" by (simp add: on_bt_effect)
    then have "flush_pending_bt_state_report c = (q, c\<lparr>cx_bt := b, cx_port := (case q of Inl e \<Rightarrow> ?p
         | Inr True \<Rightarrow> state_sent s ?p | Inr False \<Rightarrow> count blocked_bt_state_count_update ?p)\<rparr>)"
      using Some r by (cases q) (auto simp: flush_pending_bt_state_report_def act_bind_def)
    with pending Some r t show thesis by blast
  qed
qed

text \<open>One flush: the deferred report leaves, or everything stays as it was.\<close>

lemma flush_outcome:
  assumes "ctx_ok c" "flush_pending_bt_state_report c = (Inr done', c')"
  shows "ctx_ok c'" "output_state (cx_port c') = output_state (cx_port c)"
    "\<exists>sent. interrupt_out (cx_bt c') = interrupt_out (cx_bt c) @ map hidp_output_packet sent \<and>
       (sent = [] \<and> last_sent_bt_state (cx_port c') = last_sent_bt_state (cx_port c) \<and>
          pending_bt_state (cx_port c') = pending_bt_state (cx_port c) \<and>
          (done' \<longleftrightarrow> pending_bt_state (cx_port c) = None) \<or>
        (\<exists>s r. sent = [r] \<and> done' \<and> carries s r \<and> pending_bt_state (cx_port c) = Some s \<and>
          last_sent_bt_state (cx_port c') = Some s \<and> pending_bt_state (cx_port c') = None))"
proof -
  show "ctx_ok c'" using keptD [OF keeps_flush_pending assms(2,1)] .
  have "output_state (cx_port c') = output_state (cx_port c) \<and>
    (\<exists>sent. interrupt_out (cx_bt c') = interrupt_out (cx_bt c) @ map hidp_output_packet sent \<and>
       (sent = [] \<and> last_sent_bt_state (cx_port c') = last_sent_bt_state (cx_port c) \<and>
          pending_bt_state (cx_port c') = pending_bt_state (cx_port c) \<and>
          (done' \<longleftrightarrow> pending_bt_state (cx_port c) = None) \<or>
        (\<exists>s r. sent = [r] \<and> done' \<and> carries s r \<and> pending_bt_state (cx_port c) = Some s \<and>
          last_sent_bt_state (cx_port c') = Some s \<and> pending_bt_state (cx_port c') = None)))"
    using assms(1)
  proof (cases rule: flush_cases)
    case idle
    with assms(2) show ?thesis by (intro conjI exI [of _ "[]"]) auto
  next
    case (pending s r q b)
    from pending(5) assms(2) have q: "q = Inr done'" by simp
    show ?thesis
    proof (cases done')
      case True
      with pending q assms(2) show ?thesis
        by (intro conjI exI [of _ "[r]"]) (auto simp: try_send_outcome [OF pending(4)] state_sent_def)
    next
      case False
      with pending q assms(2) show ?thesis
        by (intro conjI exI [of _ "[]"]) (auto simp: try_send_outcome [OF pending(4)] count_def)
    qed
  qed
  then show "output_state (cx_port c') = output_state (cx_port c)"
    "\<exists>sent. interrupt_out (cx_bt c') = interrupt_out (cx_bt c) @ map hidp_output_packet sent \<and>
       (sent = [] \<and> last_sent_bt_state (cx_port c') = last_sent_bt_state (cx_port c) \<and>
          pending_bt_state (cx_port c') = pending_bt_state (cx_port c) \<and>
          (done' \<longleftrightarrow> pending_bt_state (cx_port c) = None) \<or>
        (\<exists>s r. sent = [r] \<and> done' \<and> carries s r \<and> pending_bt_state (cx_port c) = Some s \<and>
          last_sent_bt_state (cx_port c') = Some s \<and> pending_bt_state (cx_port c') = None))"
    by blast+
qed

text \<open>The statements after the flush.\<close>

definition forward_rest :: "(('e, 'd) ctx, unit) action" where
  "forward_rest =
     act_if (\<lambda>c. last_sent_bt_state (cx_port c) = Some (ds_state (output_state (cx_port c)))) (pset coalesce)
       (act_if (\<lambda>c. pending_bt_state (cx_port c) = Some (ds_state (output_state (cx_port c)))) (ret ()) send_state)"

lemma forward_rest_outcome:
  assumes "ctx_ok c" "forward_rest c = (Inr (), c')"
  defines "st \<equiv> ds_state (output_state (cx_port c))"
  shows "ds_state (output_state (cx_port c')) = st \<and>
    (last_sent_bt_state (cx_port c') = Some st \<and> pending_bt_state (cx_port c') = None \<or>
     last_sent_bt_state (cx_port c') \<noteq> Some st \<and> pending_bt_state (cx_port c') = Some st) \<and>
    (\<exists>sent. interrupt_out (cx_bt c') = interrupt_out (cx_bt c) @ map hidp_output_packet sent \<and>
       (sent = [] \<and> last_sent_bt_state (cx_port c') = last_sent_bt_state (cx_port c) \<or>
        (\<exists>r. sent = [r] \<and> carries st r \<and> last_sent_bt_state (cx_port c) \<noteq> Some st \<and>
           last_sent_bt_state (cx_port c') = Some st)))"
proof -
  let ?p = "cx_port c"
  consider (same) "last_sent_bt_state ?p = Some st" | (pend) "last_sent_bt_state ?p \<noteq> Some st" "pending_bt_state ?p = Some st"
    | (send) "last_sent_bt_state ?p \<noteq> Some st" "send_state c = (Inr (), c')"
    using assms by (auto simp: forward_rest_def split: if_splits)
  then show ?thesis
  proof cases
    case same
    with assms(2) have "c' = c\<lparr>cx_port := coalesce ?p\<rparr>" by (simp add: forward_rest_def st_def)
    with same show ?thesis by (intro conjI exI [of _ "[]"]) (auto simp: coalesce_def count_def st_def)
  next
    case pend
    with assms(2) have "c' = c" by (simp add: forward_rest_def st_def)
    with pend show ?thesis by (intro conjI exI [of _ "[]"]) (auto simp: st_def)
  next
    case send
    obtain packet sent b where x: "carries st packet" "try_send_output_report packet (cx_bt c) = (sent, b)"
      "cx_bt c' = b" "Inr () = (case sent of Inl e \<Rightarrow> Inl e | Inr _ \<Rightarrow> Inr ())"
      "cx_port c' = (let q = ?p\<lparr>output_state := (output_state ?p)\<lparr>report_sequence := next_sequence (report_sequence (output_state ?p))\<rparr>\<rparr> in
         case sent of Inl e \<Rightarrow> q | Inr True \<Rightarrow> state_sent st q | Inr False \<Rightarrow> defer_state st packet q)"
      by (rule send_state_effect [OF assms(1) send(2), folded st_def]) blast
    from x(4) obtain ok where ok: "sent = Inr ok" by (cases sent) auto
    show ?thesis
    proof (cases ok)
      case True
      with x ok send(1) show ?thesis
        by (intro conjI exI [of _ "[packet]"]) (auto simp: try_send_outcome [OF x(2)] state_sent_def Let_def st_def)
    next
      case False
      with x ok send(1) show ?thesis
        by (intro conjI exI [of _ "[]"])
          (auto simp: try_send_outcome [OF x(2)] defer_state_def count_def Let_def st_def)
    qed
  qed
qed

lemma forward_split: "forward_bt_state_if_changed = act_seq flush_pending_bt_state_report forward_rest"
  by (simp only: forward_unfold forward_rest_def)

lemma try_send_accepted:
  assumes "0 \<le> ch_fd (interrupt_ch b)" "ch_writes (interrupt_ch b) = Took (Suc (length r)) # ws"
  shows "\<exists>b'. try_send_output_report r b = (Inr True, b') \<and> 0 \<le> ch_fd (interrupt_ch b') \<and> ch_writes (interrupt_ch b') = ws \<and>
    interrupt_out b' = interrupt_out b @ [hidp_output_packet r]"
  using assms
  by (simp add: try_send_output_report_def on_interrupt_def on_part_def try_write_packet_def took_def
      hidp_output_packet_def interrupt_out_def)

lemma flush_accepted:
  assumes "ctx_ok c" "0 \<le> ch_fd (interrupt_ch (cx_bt c))" "ch_writes (interrupt_ch (cx_bt c)) = Took 79 # ws"
  obtains c' where "flush_pending_bt_state_report c = (Inr True, c')"
    "0 \<le> ch_fd (interrupt_ch (cx_bt c'))" "ws = tl (ch_writes (interrupt_ch (cx_bt c'))) \<or> ws = ch_writes (interrupt_ch (cx_bt c'))"
    "ch_writes (interrupt_ch (cx_bt c')) = (if pending_bt_state (cx_port c) = None then Took 79 # ws else ws)"
  using assms(1)
proof (cases rule: flush_cases)
  case idle
  with that assms show thesis by simp
next
  case (pending s r q b)
  from pending(3) have "length r = 78" by (simp add: carries_def kBtStateReportSize_def)
  with try_send_accepted [of "cx_bt c" r ws] assms(2,3) pending(4) have "q = Inr True" "0 \<le> ch_fd (interrupt_ch b)"
    "ch_writes (interrupt_ch b) = ws" by auto
  with that pending show thesis by simp
qed

lemma forward_gets_through:
  assumes "ctx_ok c" "0 \<le> ch_fd (interrupt_ch (cx_bt c))"
    "ch_writes (interrupt_ch (cx_bt c)) = Took 79 # Took 79 # ws"
  shows "\<exists>c'. forward_bt_state_if_changed c = (Inr (), c') \<and>
    last_sent_bt_state (cx_port c') = Some (ds_state (output_state (cx_port c))) \<and> pending_bt_state (cx_port c') = None"
proof -
  obtain c1 where c1: "flush_pending_bt_state_report c = (Inr True, c1)" "0 \<le> ch_fd (interrupt_ch (cx_bt c1))"
    "ch_writes (interrupt_ch (cx_bt c1)) = (if pending_bt_state (cx_port c) = None then Took 79 # Took 79 # ws else Took 79 # ws)"
    by (rule flush_accepted [OF assms])
  note f = flush_outcome [OF assms(1) c1(1)]
  obtain ws' where w: "ch_writes (interrupt_ch (cx_bt c1)) = Took 79 # ws'" using c1(3) by (cases "pending_bt_state (cx_port c)") auto
  from f(3) have p1: "pending_bt_state (cx_port c1) = None" by auto
  let ?st = "ds_state (output_state (cx_port c1))"
  have "\<exists>c'. forward_rest c1 = (Inr (), c') \<and> last_sent_bt_state (cx_port c') = Some ?st \<and> pending_bt_state (cx_port c') = None"
  proof (cases "last_sent_bt_state (cx_port c1) = Some ?st")
    case True
    then show ?thesis using p1 by (simp add: forward_rest_def coalesce_def)
  next
    case False
    obtain q c2 where s: "send_state c1 = (q, c2)" by fastforce
    obtain packet sent b where x: "carries ?st packet" "try_send_output_report packet (cx_bt c1) = (sent, b)"
      "q = (case sent of Inl e \<Rightarrow> Inl e | Inr _ \<Rightarrow> Inr ())"
      "cx_port c2 = (let q = (cx_port c1)\<lparr>output_state := (output_state (cx_port c1))\<lparr>report_sequence :=
           next_sequence (report_sequence (output_state (cx_port c1)))\<rparr>\<rparr> in
         case sent of Inl e \<Rightarrow> q | Inr True \<Rightarrow> state_sent ?st q | Inr False \<Rightarrow> defer_state ?st packet q)"
      by (rule send_state_effect [OF f(1) s]) blast
    from x(1) have "length packet = 78" by (simp add: carries_def kBtStateReportSize_def)
    with try_send_accepted [of "cx_bt c1" packet ws'] c1(2) w x(2) have "sent = Inr True" by auto
    with x(3,4) s False p1 show ?thesis
      by (auto simp: forward_rest_def state_sent_def Let_def)
  qed
  with c1(1) f(2) show ?thesis
    by (simp add: forward_split act_seq_def act_bind_Inr [where m = flush_pending_bt_state_report])
qed

text \<open>What forwarding a change promises.\<close>

definition forwarded :: "('e, 'd) ctx \<Rightarrow> ('e, 'd) ctx \<Rightarrow> bool" where
  "forwarded c c' \<longleftrightarrow>
     (let st = ds_state (output_state (cx_port c)) in
       (last_sent_bt_state (cx_port c') = Some st \<and> pending_bt_state (cx_port c') = None \<or>
        last_sent_bt_state (cx_port c') \<noteq> Some st \<and> pending_bt_state (cx_port c') = Some st) \<and>
       (\<exists>sent. interrupt_out (cx_bt c') = interrupt_out (cx_bt c) @ map hidp_output_packet sent \<and>
          (\<forall>r \<in> set sent. carries st r \<or> (\<exists>s. pending_bt_state (cx_port c) = Some s \<and> carries s r)) \<and>
          (if sent = [] then last_sent_bt_state (cx_port c') = last_sent_bt_state (cx_port c)
           else \<exists>s. last_sent_bt_state (cx_port c') = Some s \<and> carries s (last sent)) \<and>
          (last_sent_bt_state (cx_port c) = Some st \<longrightarrow> pending_bt_state (cx_port c) = None \<longrightarrow> sent = [])))"

lemma forward_forwarded:
  assumes ok: "ctx_ok c" and eq: "forward_bt_state_if_changed c = (Inr (), c')"
  shows "forwarded c c'"
proof -
  obtain d c1 where c1: "flush_pending_bt_state_report c = (Inr d, c1)" "forward_rest c1 = (Inr (), c')"
    using eq unfolding forward_split by (rule act_seq_InrE) auto
  note f = flush_outcome [OF ok c1(1)] and g = forward_rest_outcome [OF flush_outcome(1) [OF ok c1(1)] c1(2)]
  let ?st = "ds_state (output_state (cx_port c))"
  from f(2) g have st: "last_sent_bt_state (cx_port c') = Some ?st \<and> pending_bt_state (cx_port c') = None \<or>
     last_sent_bt_state (cx_port c') \<noteq> Some ?st \<and> pending_bt_state (cx_port c') = Some ?st" by simp
  obtain s1 where s1: "interrupt_out (cx_bt c1) = interrupt_out (cx_bt c) @ map hidp_output_packet s1"
    "s1 = [] \<and> last_sent_bt_state (cx_port c1) = last_sent_bt_state (cx_port c) \<or>
     (\<exists>s r. s1 = [r] \<and> carries s r \<and> pending_bt_state (cx_port c) = Some s \<and> last_sent_bt_state (cx_port c1) = Some s)"
    using f(3) by blast
  obtain s2 where s2: "interrupt_out (cx_bt c') = interrupt_out (cx_bt c1) @ map hidp_output_packet s2"
    "s2 = [] \<and> last_sent_bt_state (cx_port c') = last_sent_bt_state (cx_port c1) \<or>
     (\<exists>r. s2 = [r] \<and> carries ?st r \<and> last_sent_bt_state (cx_port c1) \<noteq> Some ?st \<and> last_sent_bt_state (cx_port c') = Some ?st)"
    using g f(2) by auto
  show ?thesis unfolding forwarded_def Let_def
    by (intro conjI st exI [of _ "s1 @ s2"]) (use s1 s2 in auto)
qed

section \<open>Parts of a port that the state report leaves alone\<close>

locale port_view =
  fixes g :: "('e, 'd) LinuxVirtualPort \<Rightarrow> 'x"
  assumes rebuilt: "g (p\<lparr>output_state := s\<rparr>) = g p"
    and sent: "g (p\<lparr>last_sent_bt_state := a\<rparr>) = g p"
    and deferred: "g (p\<lparr>pending_bt_state := a\<rparr>) = g p" "g (p\<lparr>pending_bt_state_report := a\<rparr>) = g p"
    and traced: "g (p\<lparr>trace_state := t\<rparr>) = g p"
begin

abbreviation same_g :: "(('e, 'd) ctx, 'a) action \<Rightarrow> bool" where
  "same_g m \<equiv> within (\<lambda>c c'. g (cx_port c') = g (cx_port c)) m"

lemma pset_same: "(\<And>p. g (f p) = g p) \<Longrightarrow> same_g (pset f)"
  by (simp add: within_def)

lemma output_same: "same_g (on_output f)"
  by (simp add: within_def on_output_def on_part_def case_prod_beta rebuilt)

lemma bt_same: "same_g (on_bt m)"
  by (simp add: within_def on_bt_def on_part_def case_prod_beta)

lemma report_updates: "g (state_sent s p) = g p" "g (coalesce p) = g p" "g (count u p) = g p" "g (defer_state s packet p) = g p"
  by (simp_all add: state_sent_def sent coalesce_def count_def traced deferred defer_state_def Let_def)

lemma flush_same: "same_g flush_pending_bt_state_report"
proof -
  have "same_g (case (a, b) of (Some r, Some s) \<Rightarrow> m r s | _ \<Rightarrow> ret True)"
    if "\<And>r s. same_g (m r s)" for a b and m :: "bytes \<Rightarrow> bytes \<Rightarrow> (('e, 'd) ctx, bool) action"
    using that by (cases a; cases b) (auto intro: same.rules)
  then show ?thesis unfolding flush_pending_bt_state_report_def
    by (intro same.bind_within same.gets_within)
      (auto intro!: same.rules bt_same pset_same simp: report_updates)
qed

lemma forward_same: "same_g forward_bt_state_if_changed"
  unfolding forward_bt_state_if_changed_def Let_def
  by (intro same.rules flush_same output_same bt_same pset_same report_updates)

end

interpretation headset: port_view vp_headset_plugged by unfold_locales simp_all

interpretation clock: port_view next_haptics_send_time by unfold_locales simp_all

section \<open>Buttons\<close>

text \<open>Rising edges of the mute button in a sequence of input reports.\<close>

fun presses :: "bool \<Rightarrow> bool list \<Rightarrow> nat" where
  "presses down [] = 0"
| "presses down (b # bs) = (if b \<and> \<not> down then 1 else 0) + presses b bs"

text \<open>What the buttons of one report leave untouched: the channels of the port and of input.\<close>

definition input_view :: "('e, 'd) ctx \<Rightarrow> bool \<times> bool \<times> channel \<times> sys_read list" where
  "input_view c = (mic_muted (cx_port c), mute_button_down (cx_port c), vp_fd (cx_port c), ch_reads (interrupt_ch (cx_bt c)))"

abbreviation same_view :: "(('e, 'd) ctx, 'a) action \<Rightarrow> bool" where
  "same_view m \<equiv> within (\<lambda>c c'. input_view c' = input_view c) m"

lemma view_pset: "(\<And>p. mic_muted (f p) = mic_muted p \<and> mute_button_down (f p) = mute_button_down p \<and> vp_fd (f p) = vp_fd p) \<Longrightarrow>
    same_view (pset f)"
  by (simp add: within_def input_view_def)

lemma view_on_output: "same_view (on_output f)"
  by (simp add: within_def input_view_def on_output_def on_part_def case_prod_beta)

lemma view_try_send: "same_view (on_bt (try_send_output_report r))"
  by (auto simp: within_def input_view_def on_bt_def on_part_def case_prod_beta try_send_output_report_def
      on_interrupt_def try_write_packet_def took_def)

lemma view_send_mic_state: "same_view send_mic_state"
  unfolding send_mic_state_def by (intro same.rules view_on_output view_try_send)

lemma view_flush: "same_view flush_pending_bt_state_report"
proof -
  have "same_view (case (a, b) of (Some r, Some s) \<Rightarrow> m r s | _ \<Rightarrow> ret True)"
    if "\<And>r s. same_view (m r s)" for a b and m :: "bytes \<Rightarrow> bytes \<Rightarrow> (('e, 'd) ctx, bool) action"
    using that by (cases a; cases b) (auto intro: same.rules)
  then show ?thesis unfolding flush_pending_bt_state_report_def
    by (intro same.bind_within same.gets_within)
      (auto intro!: same.rules view_try_send view_pset simp: state_sent_def count_def)
qed

lemma view_forward: "same_view forward_bt_state_if_changed"
  unfolding forward_bt_state_if_changed_def Let_def
  by (intro same.rules view_flush view_on_output view_try_send view_pset)
    (auto simp: state_sent_def defer_state_def coalesce_def count_def Let_def)

lemma view_headset_route: "same_view (input_headset_route report)"
  unfolding input_headset_route_def
  by (intro same.rules view_forward view_pset) (simp_all add: route_audio_def)

lemma input_buttons_view:
  assumes "input_buttons report c = (Inr (), c')"
  shows "input_view c' = (mic_muted (cx_port c) \<noteq> (input_mute report \<and> \<not> mute_button_down (cx_port c)),
    input_mute report, vp_fd (cx_port c), ch_reads (interrupt_ch (cx_bt c)))"
proof -
  let ?c = "c\<lparr>cx_port := (cx_port c)\<lparr>
     mic_muted := (if input_mute report \<and> \<not> mute_button_down (cx_port c) then \<not> mic_muted (cx_port c) else mic_muted (cx_port c)),
     mute_button_down := input_mute report, vp_headset_mic_plugged := input_headset_mic report\<rparr>\<rparr>"
  have "(if input_mute report \<and> \<not> mute_button_down (cx_port c) \<or>
      input_headset_mic report \<noteq> vp_headset_mic_plugged (cx_port c) \<and> audio_in_stream_active (cx_port c)
      then send_mic_state else ret ()) ?c = (Inr (), c')"
    using assms by (simp add: input_buttons_def Let_def)
  then have "input_view c' = input_view ?c"
    by (rule sameD [rotated]) (intro same.rules view_send_mic_state)
  then show ?thesis by (auto simp: input_view_def)
qed

text \<open>Frames that carry input reports.\<close>

definition is_input_frame :: "bytes \<Rightarrow> bool" where
  "is_input_frame f \<longleftrightarrow> fh_type (parse_header (take 16 f)) = VDS_FRAME_USB_HID_IN"

lemma hid_in_frame_type: "is_input_frame (hid_in_frame report)"
  by (simp add: is_input_frame_def hid_in_frame_def)

lemma write_vds_frame_effect:
  assumes "write_vds_frame f c = (q, c')"
  shows "\<exists>ws. vp_fd (cx_port c') = (vp_fd (cx_port c))\<lparr>ch_writes := ws,
     ch_out := ch_out (vp_fd (cx_port c)) @ (if q = Inr True then [f] else [])\<rparr>"
    "mic_muted (cx_port c') = mic_muted (cx_port c)" "mute_button_down (cx_port c') = mute_button_down (cx_port c)"
    "cx_bt c' = cx_bt c" "output_state (cx_port c') = output_state (cx_port c)"
    "pending_bt_state (cx_port c') = pending_bt_state (cx_port c)"
    "pending_bt_state_report (cx_port c') = pending_bt_state_report (cx_port c)"
    "feature_cache (cx_port c') = feature_cache (cx_port c)" "feature_cached (cx_port c') = feature_cached (cx_port c)"
    "pending_feature_reports (cx_port c') = pending_feature_reports (cx_port c)"
    "last_sent_bt_state (cx_port c') = last_sent_bt_state (cx_port c)"
  using assms by (auto simp: write_vds_frame_def took_def count_def split: if_splits)

text \<open>Steps that only add frames other than input reports.\<close>

definition adds_no_input :: "('e, 'd) ctx \<Rightarrow> ('e, 'd) ctx \<Rightarrow> bool" where
  "adds_no_input c c' \<longleftrightarrow> cx_bt c' = cx_bt c \<and> mic_muted (cx_port c') = mic_muted (cx_port c) \<and>
     mute_button_down (cx_port c') = mute_button_down (cx_port c) \<and>
     (\<exists>out. ch_out (vp_fd (cx_port c')) = ch_out (vp_fd (cx_port c)) @ out \<and> filter is_input_frame out = [])"

interpretation no_input: transition adds_no_input
proof
  fix c d e :: "('e, 'd) ctx"
  show "adds_no_input c c" by (simp add: adds_no_input_def)
  assume "adds_no_input c d" "adds_no_input d e"
  then show "adds_no_input c e" by (fastforce simp: adds_no_input_def)
qed

lemma no_input_pset:
  "(\<And>p. mic_muted (f p) = mic_muted p \<and> mute_button_down (f p) = mute_button_down p \<and> vp_fd (f p) = vp_fd p) \<Longrightarrow>
   within adds_no_input (pset f)"
  by (simp add: within_def adds_no_input_def)

lemma no_input_reply:
  assumes "t \<noteq> VDS_FRAME_USB_HID_IN"
  shows "within adds_no_input (reply_frame t payload)"
proof (rule withinI)
  fix c q c' assume eq: "reply_frame t payload c = (q, c')"
  show "adds_no_input c c'"
  proof (cases "frame_bytes t payload")
    case (Inl e)
    with eq show ?thesis by (simp add: reply_frame_def no_input.refl)
  next
    case (Inr f)
    then have "\<not> is_input_frame f" using assms by (auto simp: frame_bytes_def is_input_frame_def split: if_splits)
    moreover obtain r d where w: "write_vds_frame f c = (r, d)" by fastforce
    moreover from eq Inr w have "c' = d" by (cases r) (auto simp: reply_frame_def act_seq_def act_bind_def)
    ultimately show ?thesis using write_vds_frame_effect [OF w] by (auto simp: adds_no_input_def)
  qed
qed

lemma no_input_mic_packet: "within adds_no_input (handle_mic_packet cd packet)"
proof -
  have "within adds_no_input (on_part (\<lambda>c. mic_decoder (cx_port c)) (\<lambda>d c. c\<lparr>cx_port := (cx_port c)\<lparr>mic_decoder := d\<rparr>\<rparr>) m)"
    for m :: "'d \<Rightarrow> bytes result \<times> 'd"
    by (auto simp: within_def on_part_def adds_no_input_def case_prod_beta)
  then show ?thesis unfolding handle_mic_packet_def
    by (intro no_input.rules no_input_pset no_input_reply) (simp_all add: count_def frame_types)
qed

lemma read_interrupt_next:
  assumes "ch_reads (interrupt_ch (cx_bt c)) = Got packet # rest" "packet \<noteq> []" "length packet \<le> 1024"
  shows "on_bt read_interrupt_packet c =
    (Inr (Some packet), c\<lparr>cx_bt := (cx_bt c)\<lparr>interrupt_ch := (interrupt_ch (cx_bt c))\<lparr>ch_reads := rest\<rparr>\<rparr>\<rparr>)"
  using assms
  by (simp add: on_bt_effect read_interrupt_packet_def act_bind_def on_interrupt_def on_part_def channel_read_def
      kBtReadBufferSize_def)

lemma bt_input_step:
  assumes eq: "handle_bt_input cd c = (Inr b, c')"
    and rd: "ch_reads (interrupt_ch (cx_bt c)) = Got packet # rest" "packet \<noteq> []" "length packet \<le> 1024"
  shows "b" "ch_reads (interrupt_ch (cx_bt c')) = rest"
    "(mic_muted (cx_port c'), mute_button_down (cx_port c')) =
       (case bt_input_to_usb_input packet of None \<Rightarrow> (mic_muted (cx_port c), mute_button_down (cx_port c))
        | Some report \<Rightarrow> (mic_muted (cx_port c) \<noteq> (input_mute report \<and> \<not> mute_button_down (cx_port c)), input_mute report))"
    "\<exists>out. ch_out (vp_fd (cx_port c')) = ch_out (vp_fd (cx_port c)) @ out \<and>
       subseq (filter is_input_frame out)
         (case bt_input_to_usb_input packet of None \<Rightarrow> [] | Some report \<Rightarrow> [hid_in_frame report])"
proof -
  let ?c = "c\<lparr>cx_bt := (cx_bt c)\<lparr>interrupt_ch := (interrupt_ch (cx_bt c))\<lparr>ch_reads := rest\<rparr>\<rparr>\<rparr>"
  let ?R = "b \<and> ch_reads (interrupt_ch (cx_bt c')) = rest \<and>
    (mic_muted (cx_port c'), mute_button_down (cx_port c')) =
       (case bt_input_to_usb_input packet of None \<Rightarrow> (mic_muted (cx_port c), mute_button_down (cx_port c))
        | Some report \<Rightarrow> (mic_muted (cx_port c) \<noteq> (input_mute report \<and> \<not> mute_button_down (cx_port c)), input_mute report)) \<and>
    (\<exists>out. ch_out (vp_fd (cx_port c')) = ch_out (vp_fd (cx_port c)) @ out \<and>
       subseq (filter is_input_frame out)
         (case bt_input_to_usb_input packet of None \<Rightarrow> [] | Some report \<Rightarrow> [hid_in_frame report]))"
  note e = eq [unfolded handle_bt_input_def act_bind_Inr [where m = "on_bt read_interrupt_packet", OF read_interrupt_next [OF rd]]]
  have ?R
  proof (cases "bt_input_payload_type packet = Audio_payload")
    case True
    then have "bt_input_to_usb_input packet = None" by (simp add: bt_input_to_usb_input_def)
    moreover from e True have "act_seq (handle_mic_packet cd packet) (ret True) ?c = (Inr b, c')" by simp
    then obtain u where "handle_mic_packet cd packet ?c = (Inr u, c')" "b"
      by (rule act_seq_InrE) auto
    moreover from this(1) have "adds_no_input ?c c'" by (rule withinD [OF no_input_mic_packet])
    ultimately show ?thesis by (auto simp: adds_no_input_def)
  next
    case False
    show ?thesis
    proof (cases "bt_input_to_usb_input packet")
      case None
      with e False show ?thesis by auto
    next
      case (Some report)
      with e False have s: "act_seq (input_buttons report) (act_seq (input_headset_route report)
          (act_seq (write_vds_frame (hid_in_frame report)) (ret True))) ?c = (Inr b, c')" by simp
      obtain c1 where c1: "input_buttons report ?c = (Inr (), c1)"
        "act_seq (input_headset_route report) (act_seq (write_vds_frame (hid_in_frame report)) (ret True)) c1 = (Inr b, c')"
        using s by (rule act_seq_InrE) auto
      obtain c2 where c2: "input_headset_route report c1 = (Inr (), c2)"
        "act_seq (write_vds_frame (hid_in_frame report)) (ret True) c2 = (Inr b, c')"
        using c1(2) by (rule act_seq_InrE) auto
      obtain w where w: "write_vds_frame (hid_in_frame report) c2 = (Inr w, c')" "b"
        using c2(2) by (rule act_seq_InrE) auto
      have "input_view c2 = (mic_muted (cx_port c) \<noteq> (input_mute report \<and> \<not> mute_button_down (cx_port c)),
          input_mute report, vp_fd (cx_port c), rest)"
        using input_buttons_view [OF c1(1)] sameD [OF view_headset_route c2(1)] by simp
      with write_vds_frame_effect [OF w(1)] w(2) Some show ?thesis
        by (auto simp: input_view_def hid_in_frame_type)
    qed
  qed
  then show "b" "ch_reads (interrupt_ch (cx_bt c')) = rest"
    "(mic_muted (cx_port c'), mute_button_down (cx_port c')) =
       (case bt_input_to_usb_input packet of None \<Rightarrow> (mic_muted (cx_port c), mute_button_down (cx_port c))
        | Some report \<Rightarrow> (mic_muted (cx_port c) \<noteq> (input_mute report \<and> \<not> mute_button_down (cx_port c)), input_mute report))"
    "\<exists>out. ch_out (vp_fd (cx_port c')) = ch_out (vp_fd (cx_port c)) @ out \<and>
       subseq (filter is_input_frame out)
         (case bt_input_to_usb_input packet of None \<Rightarrow> [] | Some report \<Rightarrow> [hid_in_frame report])"
    by blast+
qed

definition input_reports :: "bytes list \<Rightarrow> bytes list" where
  "input_reports packets = List.map_filter bt_input_to_usb_input packets"

lemma bt_inputs:
  assumes "repeat_while n (handle_bt_input cd) c = (Inr (), c')"
    "ch_reads (interrupt_ch (cx_bt c)) = map Got packets @ rest" "n = length packets"
    "list_all (\<lambda>p. p \<noteq> [] \<and> length p \<le> 1024) packets"
  shows "(mic_muted (cx_port c') \<longleftrightarrow> mic_muted (cx_port c) \<noteq>
      odd (presses (mute_button_down (cx_port c)) (map input_mute (input_reports packets)))) \<and>
    ch_reads (interrupt_ch (cx_bt c')) = rest \<and>
    (\<exists>out. ch_out (vp_fd (cx_port c')) = ch_out (vp_fd (cx_port c)) @ out \<and>
       subseq (filter is_input_frame out) (map hid_in_frame (input_reports packets)))"
  using assms
proof (induction packets arbitrary: c n)
  case Nil
  then show ?case by (simp add: input_reports_def)
next
  case (Cons packet packets)
  then obtain m where n: "n = Suc m" "m = length packets" by auto
  from Cons.prems(1) obtain b c1 where c1: "handle_bt_input cd c = (Inr b, c1)"
    "(if b then repeat_while m (handle_bt_input cd) else ret ()) c1 = (Inr (), c')"
    unfolding n(1) repeat_while.simps by (rule act_bind_InrE)
  from Cons.prems(2,4) have rd: "ch_reads (interrupt_ch (cx_bt c)) = Got packet # (map Got packets @ rest)"
    "packet \<noteq> []" "length packet \<le> 1024" by auto
  note step = bt_input_step [OF c1(1) rd]
  obtain out1 where out1: "ch_out (vp_fd (cx_port c1)) = ch_out (vp_fd (cx_port c)) @ out1"
    "subseq (filter is_input_frame out1) (case bt_input_to_usb_input packet of None \<Rightarrow> [] | Some report \<Rightarrow> [hid_in_frame report])"
    using step(4) by blast
  have IH: "(mic_muted (cx_port c') \<longleftrightarrow> mic_muted (cx_port c1) \<noteq>
      odd (presses (mute_button_down (cx_port c1)) (map input_mute (input_reports packets)))) \<and>
    ch_reads (interrupt_ch (cx_bt c')) = rest \<and>
    (\<exists>out. ch_out (vp_fd (cx_port c')) = ch_out (vp_fd (cx_port c1)) @ out \<and>
       subseq (filter is_input_frame out) (map hid_in_frame (input_reports packets)))"
    using Cons.IH [of m c1] c1(2) step(1,2) n(2) Cons.prems(4) by auto
  then obtain out2 where out2: "ch_out (vp_fd (cx_port c')) = ch_out (vp_fd (cx_port c1)) @ out2"
    "subseq (filter is_input_frame out2) (map hid_in_frame (input_reports packets))" by blast
  have split: "map hid_in_frame (input_reports (packet # packets)) =
      (case bt_input_to_usb_input packet of None \<Rightarrow> [] | Some report \<Rightarrow> [hid_in_frame report]) @
      map hid_in_frame (input_reports packets)"
    by (simp add: input_reports_def split: option.splits)
  have "\<exists>out. ch_out (vp_fd (cx_port c')) = ch_out (vp_fd (cx_port c)) @ out \<and>
       subseq (filter is_input_frame out) (map hid_in_frame (input_reports (packet # packets)))"
    unfolding split by (rule exI [of _ "out1 @ out2"]) (simp add: out1 out2 list_emb_append_mono)
  moreover have "mic_muted (cx_port c') \<longleftrightarrow> mic_muted (cx_port c) \<noteq>
      odd (presses (mute_button_down (cx_port c)) (map input_mute (input_reports (packet # packets))))"
    using IH step(3) by (auto simp: input_reports_def split: option.splits)
  ultimately show ?case using IH by blast
qed

section \<open>Pacing of the audio\<close>

text \<open>Handlers other than the flush do not move the time of the next packet.\<close>

abbreviation keeps_clock :: "(('e, 'd) ctx, 'a) action \<Rightarrow> bool" where
  "keeps_clock m \<equiv> within (\<lambda>c c'. next_haptics_send_time (cx_port c') = next_haptics_send_time (cx_port c)) m"

lemma clock_pset: "(\<And>p. next_haptics_send_time (f p) = next_haptics_send_time p) \<Longrightarrow> keeps_clock (pset f)"
  by (simp add: within_def)

lemma clock_parts:
  "keeps_clock (on_output f)" "keeps_clock (on_bt m)" "keeps_clock (pget g)"
  "keeps_clock (on_part (\<lambda>c. extractor (cx_port c)) (\<lambda>x c. c\<lparr>cx_port := (cx_port c)\<lparr>extractor := x\<rparr>\<rparr>) m1)"
  "keeps_clock (on_part (\<lambda>c. mic_decoder (cx_port c)) (\<lambda>x c. c\<lparr>cx_port := (cx_port c)\<lparr>mic_decoder := x\<rparr>\<rparr>) m2)"
  "keeps_clock (on_part (\<lambda>c. vp_fd (cx_port c)) (\<lambda>x c. c\<lparr>cx_port := (cx_port c)\<lparr>vp_fd := x\<rparr>\<rparr>) m3)"
  by (simp_all add: within_def on_output_def on_bt_def on_part_def case_prod_beta pget_def)

lemma clock_write: "keeps_clock (write_vds_frame f)"
  unfolding write_vds_frame_def by (intro same.rules clock_parts clock_pset) (simp_all add: count_def)

lemma clock_reply: "keeps_clock (reply_frame t payload)"
  unfolding reply_frame_def by (intro same.rules clock_write)

lemma clock_resets:
  "keeps_clock (reset_extractor cd)" "keeps_clock (reset_waveout_extractor cd)" "keeps_clock (reset_mic_decoder cd)"
  unfolding reset_extractor_def reset_waveout_extractor_def reset_mic_decoder_def
  by (intro same.rules clock_pset; simp)+

lemmas clock_rules = same.rules clock_parts clock_pset clock_write clock_reply clock.forward_same clock_resets

lemma clock_handle_frame: "keeps_clock (handle_frame cd has_bt t payload)"
  unfolding handle_frame_def handle_interface_event_def handle_hid_out_def handle_feature_get_def handle_feature_set_def
    handle_audio_out_def handle_test_command_def waveout_control_def cache_feature_report_def send_mic_state_def
    forward_if_def Let_def
  by (intro clock_rules) (auto simp: route_audio_def store_feature_def queue_chunk_def count_def Let_def)

lemma clock_handle_vds_frame: "keeps_clock (handle_vds_frame cd has_bt)"
  unfolding handle_vds_frame_def read_port_def Let_def
  by (intro same.rules same.case_read_within clock_parts clock_handle_frame)

lemma clock_handle_bt_input: "keeps_clock (handle_bt_input cd)"
  unfolding handle_bt_input_def handle_mic_packet_def input_buttons_def input_headset_route_def send_mic_state_def Let_def
  by (intro clock_rules) (auto simp: count_def route_audio_def)

lemma clock_handle_bt_control: "keeps_clock handle_bt_control"
  unfolding handle_bt_control_def by (intro clock_rules) (auto simp: store_feature_def)

text \<open>The steps of the daemon on a port between two flushes.\<close>

inductive handler_steps :: "('e, 'd) codec \<Rightarrow> ('e, 'd) ctx \<Rightarrow> ('e, 'd) ctx \<Rightarrow> bool" for cd where
  none: "handler_steps cd c c"
| frame: "handler_steps cd c d \<Longrightarrow> handle_vds_frame cd has_bt d = (r, e) \<Longrightarrow> handler_steps cd c e"
| input: "handler_steps cd c d \<Longrightarrow> handle_bt_input cd d = (r, e) \<Longrightarrow> handler_steps cd c e"
| control: "handler_steps cd c d \<Longrightarrow> handle_bt_control d = (r, e) \<Longrightarrow> handler_steps cd c e"

lemma handler_steps_clock: "handler_steps cd c d \<Longrightarrow> next_haptics_send_time (cx_port d) = next_haptics_send_time (cx_port c)"
  by (induction rule: handler_steps.induct)
    (simp_all add: sameD [OF clock_handle_vds_frame] sameD [OF clock_handle_bt_input] sameD [OF clock_handle_bt_control])

lemma flush_audio_effect:
  assumes "ctx_ok c" "flush_pending_audio_chunk now later c = (Inr ok, c')"
  shows "pending_audio_chunks (cx_port c) = [] \<or> next_haptics_send_time (cx_port c) \<noteq> 0 \<and> now < next_haptics_send_time (cx_port c) \<Longrightarrow>
      ok \<and> c' = c"
    and "\<not> (pending_audio_chunks (cx_port c) = [] \<or> next_haptics_send_time (cx_port c) \<noteq> 0 \<and> now < next_haptics_send_time (cx_port c)) \<Longrightarrow>
      (let q = newest 4 (pending_audio_chunks (cx_port c)) in
       pending_audio_chunks (cx_port c') = tl q \<and>
       next_haptics_send_time (cx_port c') = (if ok then now + 10000000 else later + 2000000) \<and>
       (\<exists>packet. fst (build_packet (ch_haptics (hd q)) (ch_speaker (hd q)) (ds_state (output_state (cx_port c))) True
            (vp_headset_plugged (cx_port c)) (haptics_builder (cx_port c))) = Inr packet \<and>
          interrupt_out (cx_bt c') = interrupt_out (cx_bt c) @ (if ok then [hidp_output_packet packet] else [])))"
proof -
  let ?p = "cx_port c" and ?q = "drop_stale (cx_port c)"
  assume "pending_audio_chunks ?p = [] \<or> next_haptics_send_time ?p \<noteq> 0 \<and> now < next_haptics_send_time ?p"
  with assms(2) show "ok \<and> c' = c" by (auto simp: flush_pending_audio_chunk_def split: if_splits)
next
  let ?p = "cx_port c" and ?q = "drop_stale (cx_port c)"
  assume go: "\<not> (pending_audio_chunks ?p = [] \<or> next_haptics_send_time ?p \<noteq> 0 \<and> now < next_haptics_send_time ?p)"
  have q: "pending_audio_chunks ?q = newest 4 (pending_audio_chunks ?p)" "output_state ?q = output_state ?p"
    "vp_headset_plugged ?q = vp_headset_plugged ?p" "haptics_builder ?q = haptics_builder ?p"
    by (simp_all add: drop_stale_def Let_def newest_def kFreshPendingAudioChunks_def)
  let ?ch = "hd (newest 4 (pending_audio_chunks ?p))"
  obtain r h where b: "build_packet (ch_haptics ?ch) (ch_speaker ?ch) (ds_state (output_state ?p)) True
      (vp_headset_plugged ?p) (haptics_builder ?p) = (r, h)" by fastforce
  let ?c = "c\<lparr>cx_port := ?q\<lparr>haptics_builder := h\<rparr>\<rparr>"
  from assms(2) go b have e: "act_bind (of_result r) (\<lambda>packet. act_bind (on_bt (try_send_output_report packet))
     (\<lambda>sent. if sent then act_seq (pset (chunk_sent now)) (ret True) else act_seq (pset (chunk_blocked later)) (ret False))) ?c
     = (Inr ok, c')"
    by (auto simp: flush_pending_audio_chunk_def Let_def act_bind_def on_part_def q split: if_splits)
  then obtain packet where r: "r = Inr packet" by (cases r) auto
  with e obtain sent d where t: "on_bt (try_send_output_report packet) ?c = (Inr sent, d)"
    "(if sent then act_seq (pset (chunk_sent now)) (ret True) else act_seq (pset (chunk_blocked later)) (ret False)) d = (Inr ok, c')"
    by (auto elim: act_bind_InrE)
  from t(1) obtain bt where bt: "try_send_output_report packet (cx_bt c) = (Inr sent, bt)" "d = ?c\<lparr>cx_bt := bt\<rparr>"
    by (auto simp: on_bt_effect)
  from t(2) bt(2) have c': "ok = sent" "cx_bt c' = bt"
    "cx_port c' = (if sent then chunk_sent now (cx_port ?c) else chunk_blocked later (cx_port ?c))"
    by (auto split: if_splits)
  show "let q = newest 4 (pending_audio_chunks ?p) in
       pending_audio_chunks (cx_port c') = tl q \<and>
       next_haptics_send_time (cx_port c') = (if ok then now + 10000000 else later + 2000000) \<and>
       (\<exists>packet. fst (build_packet (ch_haptics (hd q)) (ch_speaker (hd q)) (ds_state (output_state ?p)) True
            (vp_headset_plugged ?p) (haptics_builder ?p)) = Inr packet \<and>
          interrupt_out (cx_bt c') = interrupt_out (cx_bt c) @ (if ok then [hidp_output_packet packet] else []))"
    unfolding Let_def
  proof (intro conjI exI [of _ packet])
    show "pending_audio_chunks (cx_port c') = tl (newest 4 (pending_audio_chunks ?p))"
      unfolding c'(3) by (simp add: chunk_sent_def chunk_blocked_def count_def Let_def q)
    show "next_haptics_send_time (cx_port c') = (if ok then now + 10000000 else later + 2000000)"
      unfolding c'(3) using c'(1) by (simp add: chunk_sent_def chunk_blocked_def count_def Let_def linux_consts)
    show "fst (build_packet (ch_haptics ?ch) (ch_speaker ?ch) (ds_state (output_state ?p)) True
            (vp_headset_plugged ?p) (haptics_builder ?p)) = Inr packet" using b r by simp
    show "interrupt_out (cx_bt c') = interrupt_out (cx_bt c) @ (if ok then [hidp_output_packet packet] else [])"
      using try_send_outcome(1) [OF bt(1)] c'(1,2) by simp
  qed
qed

lemma audio_flush_returns:
  assumes "ctx_ok c"
    "\<not> (pending_audio_chunks (cx_port c) = [] \<or> next_haptics_send_time (cx_port c) \<noteq> 0 \<and> now < next_haptics_send_time (cx_port c))"
    "0 \<le> ch_fd (interrupt_ch (cx_bt c))" "ch_writes (interrupt_ch (cx_bt c)) = Took 399 # ws"
  shows "\<exists>c'. flush_pending_audio_chunk now later c = (Inr True, c')"
proof -
  let ?p = "cx_port c" and ?q = "drop_stale (cx_port c)"
  have q: "port_ok ?q" using assms(1) by (simp add: ctx_ok_def port_ok_drop_stale)
  have "0 < length (pending_audio_chunks ?p)" using assms(2) by simp
  then have "pending_audio_chunks ?q \<noteq> []" by (simp add: drop_stale_def Let_def kFreshPendingAudioChunks_def not_le)
  with q have hd: "length (ch_haptics (hd (pending_audio_chunks ?q))) = 64" "length (ch_speaker (hd (pending_audio_chunks ?q))) = 200"
    "length (ds_state (output_state ?q)) = 63"
    by (cases "pending_audio_chunks ?q"; simp add: port_ok_def out_okD chunk_ok_def)+
  obtain packet h where b: "build_packet (ch_haptics (hd (pending_audio_chunks ?q))) (ch_speaker (hd (pending_audio_chunks ?q)))
      (ds_state (output_state ?q)) True (vp_headset_plugged ?q) (haptics_builder ?q) = (Inr packet, h)" "length packet = 398"
    using haptics_packet_layout [OF hd, of True "vp_headset_plugged ?q" "haptics_builder ?q"]
    by (metis kBtHapticsReportSize_def prod.collapse)
  let ?c = "c\<lparr>cx_port := ?q\<lparr>haptics_builder := h\<rparr>\<rparr>"
  obtain b' where t: "on_bt (try_send_output_report packet) ?c = (Inr True, ?c\<lparr>cx_bt := b'\<rparr>)"
    using try_send_accepted [of "cx_bt c" packet ws] assms(3,4) b(2) by (auto simp: on_bt_effect)
  from assms(2) b(1) t show ?thesis
    by (auto simp: flush_pending_audio_chunk_def Let_def on_part_def act_bind_def)
qed

interpretation audio_queue: keep_newest 8 "\<lambda>q cs. fold (\<lambda>c q. pending_audio_chunks (queue_chunk c (p\<lparr>pending_audio_chunks := q\<rparr>))) cs q"
  for p :: "('e, 'd) LinuxVirtualPort"
  by (rule keep_newest_fold) (auto simp: queue_chunk_def Let_def newest_snoc count_def kMaxPendingAudioChunks_def tl_append split: list.splits)

section \<open>Feature reports\<close>

lemma feature_get_miss:
  assumes "\<not> feature_cached (cx_port c) ! unat i" "0 \<le> ch_fd (control_ch (cx_bt c))" "ch_fulls (control_ch (cx_bt c)) = []"
  shows "handle_frame cd True VDS_FRAME_USB_FEATURE_GET (i # rest) c =
    (Inr (), c\<lparr>cx_port := (cx_port c)\<lparr>pending_feature_reports := pending_feature_reports (cx_port c) @ [i]\<rparr>,
       cx_bt := (cx_bt c)\<lparr>control_ch := (control_ch (cx_bt c))\<lparr>ch_out := ch_out (control_ch (cx_bt c)) @ [feature_get_packet i]\<rparr>\<rparr>\<rparr>)"
  using assms
  by (simp add: handle_frame_def frame_types handle_feature_get_def on_bt_effect send_feature_get_def on_control_def
      on_part_def channel_write_full_def feature_get_packet_def)

lemma write_vds_frame_taken:
  "ch_writes (vp_fd (cx_port c)) = Took (length f) # ws \<Longrightarrow> write_vds_frame f c =
    (Inr True, c\<lparr>cx_port := (cx_port c)\<lparr>vp_fd := (vp_fd (cx_port c))\<lparr>ch_writes := ws, ch_out := ch_out (vp_fd (cx_port c)) @ [f]\<rparr>\<rparr>\<rparr>)"
  by (simp add: write_vds_frame_def took_def)

lemma reply_frame_taken:
  assumes "frame_bytes t payload = Inr f" "ch_writes (vp_fd (cx_port c)) = Took (length f) # ws"
  shows "reply_frame t payload c =
    (Inr (), c\<lparr>cx_port := (cx_port c)\<lparr>vp_fd := (vp_fd (cx_port c))\<lparr>ch_writes := ws, ch_out := ch_out (vp_fd (cx_port c)) @ [f]\<rparr>\<rparr>\<rparr>)"
  using assms by (simp add: reply_frame_def act_seq_def act_bind_def write_vds_frame_taken)

lemma feature_get_hit:
  assumes "feature_cached (cx_port c) ! unat i" "feature_cache (cx_port c) ! unat i = report"
    "frame_bytes VDS_FRAME_USB_FEATURE_REPLY report = Inr f" "ch_writes (vp_fd (cx_port c)) = Took (length f) # ws"
  shows "handle_frame cd True VDS_FRAME_USB_FEATURE_GET (i # rest) c =
    (Inr (), c\<lparr>cx_port := (cx_port c)\<lparr>vp_fd := (vp_fd (cx_port c))\<lparr>ch_writes := ws, ch_out := ch_out (vp_fd (cx_port c)) @ [f]\<rparr>\<rparr>\<rparr>)"
  using assms reply_frame_taken [OF assms(3,4)]
  by (simp add: handle_frame_def handle_feature_get_def frame_types)

lemma read_feature_next:
  assumes "ch_reads (control_ch (cx_bt c)) = Got (kBtHidpFeaturePrefix # report) # rest" "report \<noteq> []" "length report \<le> 1023"
  shows "on_bt read_feature_report c =
    (Inr (Some report), c\<lparr>cx_bt := (cx_bt c)\<lparr>control_ch := (control_ch (cx_bt c))\<lparr>ch_reads := rest\<rparr>\<rparr>\<rparr>)"
  using assms
  by (cases report) (simp_all add: on_bt_effect read_feature_report_def act_bind_def on_control_def on_part_def channel_read_def
      kBtReadBufferSize_def bt_feature_to_usb_feature_reply_def)

lemma bt_control_reply:
  assumes "ch_reads (control_ch (cx_bt c)) = Got (kBtHidpFeaturePrefix # report) # rest" "report \<noteq> []" "length report \<le> 1023"
    "report ! 0 \<in> set (pending_feature_reports (cx_port c))"
    "frame_bytes VDS_FRAME_USB_FEATURE_REPLY report = Inr f" "ch_writes (vp_fd (cx_port c)) = Took (length f) # ws"
  shows "handle_bt_control c =
    (Inr True, c\<lparr>cx_bt := (cx_bt c)\<lparr>control_ch := (control_ch (cx_bt c))\<lparr>ch_reads := rest\<rparr>\<rparr>,
       cx_port := (store_feature report (cx_port c))\<lparr>
         pending_feature_reports := remove1 (report ! 0) (pending_feature_reports (cx_port c)),
         vp_fd := (vp_fd (cx_port c))\<lparr>ch_writes := ws, ch_out := ch_out (vp_fd (cx_port c)) @ [f]\<rparr>\<rparr>\<rparr>)"
proof -
  let ?d = "c\<lparr>cx_bt := (cx_bt c)\<lparr>control_ch := (control_ch (cx_bt c))\<lparr>ch_reads := rest\<rparr>\<rparr>,
       cx_port := (store_feature report (cx_port c))\<lparr>
         pending_feature_reports := remove1 (report ! 0) (pending_feature_reports (cx_port c))\<rparr>\<rparr>"
  have "reply_frame VDS_FRAME_USB_FEATURE_REPLY report ?d =
     (Inr (), ?d\<lparr>cx_port := (cx_port ?d)\<lparr>vp_fd := (vp_fd (cx_port c))\<lparr>ch_writes := ws, ch_out := ch_out (vp_fd (cx_port c)) @ [f]\<rparr>\<rparr>\<rparr>)"
    using reply_frame_taken [OF assms(5), of ?d ws] assms(6) by (simp add: store_feature_def)
  with assms(2,4) show ?thesis
    unfolding handle_bt_control_def act_bind_Inr [where m = "on_bt read_feature_report", OF read_feature_next [OF assms(1-3)]]
    by (simp add: store_feature_def act_seq_def act_bind_def pget_def)
qed

section \<open>Stale state reports\<close>

lemma mic_state_report_layout:
  assumes "length (ds_state s) = 63"
  shows "\<exists>r. fst (build_bt_mic_state_report a m s) = Inr r \<and> length r = 78 \<and>
    r ! 10 = audio_control_with_output_path (audio_control s) (audio_output_path s) \<and>
    r ! 12 = (if a \<and> \<not> m then power_save_control s AND NOT 0x10 else power_save_control s OR 0x10)"
proof -
  define r0 where "r0 = (replicate kBtStateReportSize 0)
            [0 := VDS_BT_STATE_REPORT_ID, 1 := push_bit 4 (report_sequence s), 2 := 0x10,
             kBtStateOffset := 0xc0, kBtStateOffset + 1 := 0x83, kBtStateOffset + 6 := (if a \<and> \<not> m then mic_volume s else 0),
             kBtStateOffset + 7 := audio_control_with_output_path (audio_control s) (audio_output_path s),
             kBtStateOffset + 8 := (if m then kMuteLedOn else kMuteLedOff),
             kBtStateOffset + 9 := (if a \<and> \<not> m then power_save_control s AND NOT kOutputPowerSaveMicMute
                        else power_save_control s OR kOutputPowerSaveMicMute), kBtStateOffset + 37 := audio_control2 s]"
  have "fst (build_bt_mic_state_report a m s) = fill_output_report_checksum r0"
    by (simp add: build_bt_mic_state_report_def Let_def r0_def byte_ops)
  moreover have "length r0 = 78" "r0 ! 10 = audio_control_with_output_path (audio_control s) (audio_output_path s)"
    "r0 ! 12 = (if a \<and> \<not> m then power_save_control s AND NOT 0x10 else power_save_control s OR 0x10)"
    by (simp_all add: r0_def protocol_consts)
  ultimately show ?thesis using sealed_report [of r0] by auto
qed

lemma send_mic_state_accepted:
  assumes "ctx_ok c" "0 \<le> ch_fd (interrupt_ch (cx_bt c))" "ch_writes (interrupt_ch (cx_bt c)) = Took 79 # ws"
  obtains r s b where "fst (build_bt_mic_state_report (audio_in_stream_active (cx_port c)) (mic_muted (cx_port c)) (output_state (cx_port c))) = Inr r"
    "send_mic_state c = (Inr (), c\<lparr>cx_port := (cx_port c)\<lparr>output_state := s\<rparr>, cx_bt := b\<rparr>)"
    "interrupt_out b = interrupt_out (cx_bt c) @ [hidp_output_packet r]" "0 \<le> ch_fd (interrupt_ch b)"
    "ch_writes (interrupt_ch b) = ws" "ch_reads (interrupt_ch b) = ch_reads (interrupt_ch (cx_bt c))"
proof -
  let ?p = "cx_port c"
  have len: "length (ds_state (output_state ?p)) = 63" using assms(1) by (simp add: ctx_ok_def port_ok_def out_okD)
  obtain r s where r: "build_bt_mic_state_report (audio_in_stream_active ?p) (mic_muted ?p) (output_state ?p) = (Inr r, s)"
    "length r = 78"
    using mic_state_report_layout [OF len] by (metis prod.collapse)
  let ?c = "c\<lparr>cx_port := ?p\<lparr>output_state := s\<rparr>\<rparr>"
  obtain b where b: "try_send_output_report r (cx_bt c) = (Inr True, b)" "0 \<le> ch_fd (interrupt_ch b)"
    "ch_writes (interrupt_ch b) = ws" "interrupt_out b = interrupt_out (cx_bt c) @ [hidp_output_packet r]"
    using try_send_accepted [of "cx_bt c" r ws] assms(2,3) r(2) by auto
  have "on_output (build_bt_mic_state_report (audio_in_stream_active ?p) (mic_muted ?p)) c = (Inr r, ?c)"
    using r(1) by (simp add: on_output_effect)
  moreover have t: "on_bt (try_send_output_report r) ?c = (Inr True, ?c\<lparr>cx_bt := b\<rparr>)"
    using b(1) by (simp add: on_bt_effect)
  ultimately have "send_mic_state c = (Inr (), ?c\<lparr>cx_bt := b\<rparr>)"
    by (simp add: send_mic_state_def act_bind_def act_seq_def)
  moreover have "ch_reads (interrupt_ch b) = ch_reads (interrupt_ch (cx_bt c))"
    using sameD [OF view_try_send t] by (simp add: input_view_def)
  ultimately show thesis using r(1) b by (intro that [where r = r and s = s and b = b]) simp_all
qed

text \<open>A press of the mute button while a state report is deferred.\<close>

lemma mute_press_then_flush:
  assumes ok: "ctx_ok c" and pend: "pending_bt_state (cx_port c) = Some s"
    and ch: "0 \<le> ch_fd (interrupt_ch (cx_bt c))" "ch_writes (interrupt_ch (cx_bt c)) = Took 79 # Took 79 # ws"
      "ch_reads (interrupt_ch (cx_bt c)) = Got packet # rest" "packet \<noteq> []" "length packet \<le> 1024"
    and report: "bt_input_to_usb_input packet = Some report" "input_mute report" "\<not> mute_button_down (cx_port c)"
      "input_headset report = vp_headset_plugged (cx_port c)"
    and port: "ch_writes (vp_fd (cx_port c)) = []"
  obtains c1 c2 mute r where "handle_bt_input cd c = (Inr True, c1)" "flush_pending_bt_state_report c1 = (Inr True, c2)"
    "mic_muted (cx_port c2) = (\<not> mic_muted (cx_port c))"
    "interrupt_out (cx_bt c2) = interrupt_out (cx_bt c) @ [hidp_output_packet mute, hidp_output_packet r]"
    "fst (build_bt_mic_state_report (audio_in_stream_active (cx_port c)) (\<not> mic_muted (cx_port c)) (output_state (cx_port c))) = Inr mute"
    "carries s r" "pending_bt_state (cx_port c2) = None" "last_sent_bt_state (cx_port c2) = Some s"
proof -
  let ?c0 = "c\<lparr>cx_bt := (cx_bt c)\<lparr>interrupt_ch := (interrupt_ch (cx_bt c))\<lparr>ch_reads := rest\<rparr>\<rparr>\<rparr>"
  let ?ca = "?c0\<lparr>cx_port := (cx_port c)\<lparr>mic_muted := \<not> mic_muted (cx_port c), mute_button_down := True,
      vp_headset_mic_plugged := input_headset_mic report\<rparr>\<rparr>"
  have oka: "ctx_ok ?ca" using ok by (simp add: ctx_ok_def backend_ok_def interrupt_out_def control_out_def)
  obtain mute so b where m: "fst (build_bt_mic_state_report (audio_in_stream_active (cx_port c)) (\<not> mic_muted (cx_port c)) (output_state (cx_port c))) = Inr mute"
    "send_mic_state ?ca = (Inr (), ?ca\<lparr>cx_port := (cx_port ?ca)\<lparr>output_state := so\<rparr>, cx_bt := b\<rparr>)"
    "interrupt_out b = interrupt_out (cx_bt c) @ [hidp_output_packet mute]" "0 \<le> ch_fd (interrupt_ch b)"
    "ch_writes (interrupt_ch b) = Took 79 # ws"
    by (rule send_mic_state_accepted [OF oka, of "Took 79 # ws"]) (use ch in \<open>auto simp: interrupt_out_def\<close>)
  let ?cb = "?ca\<lparr>cx_port := (cx_port ?ca)\<lparr>output_state := so\<rparr>, cx_bt := b\<rparr>"
  have "bt_input_payload_type packet \<noteq> Audio_payload" using report(1) by (auto simp: bt_input_to_usb_input_def split: if_splits)
  moreover have "input_buttons report ?c0 = (Inr (), ?cb)"
    using report m(2) by (simp add: input_buttons_def Let_def)
  moreover have "input_headset_route report ?cb = (Inr (), ?cb)"
    using report(4) by (simp add: input_headset_route_def)
  moreover have "fst (write_vds_frame (hid_in_frame report) ?cb) = Inr False"
    using port by (simp add: write_vds_frame_def)
  then obtain c1 where w: "write_vds_frame (hid_in_frame report) ?cb = (Inr False, c1)" by (metis prod.collapse)
  ultimately have h: "handle_bt_input cd c = (Inr True, c1)"
    unfolding handle_bt_input_def act_bind_Inr [where m = "on_bt read_interrupt_packet", OF read_interrupt_next [OF ch(3-5)]]
    using report(1) by (simp add: act_seq_def act_bind_def)
  note e = write_vds_frame_effect [OF w]
  have ok1: "ctx_ok c1" using keptD [OF keeps_handle_bt_input h ok] .
  have p1: "pending_bt_state (cx_port c1) = Some s" using e(6) pend by simp
  obtain c2 where f: "flush_pending_bt_state_report c1 = (Inr True, c2)"
    by (rule flush_accepted [OF ok1, of ws]) (use e(4) m(4,5) in auto)
  note o = flush_outcome [OF ok1 f]
  from o(3) p1 obtain r where r: "interrupt_out (cx_bt c2) = interrupt_out (cx_bt c1) @ [hidp_output_packet r]" "carries s r"
    "pending_bt_state (cx_port c2) = None" "last_sent_bt_state (cx_port c2) = Some s" by auto
  have "mic_muted (cx_port c2) = mic_muted (cx_port c1)"
    using sameD [OF view_flush f] by (simp add: input_view_def)
  then show thesis using that [OF h f _ _ m(1) r(2-4)] r(1) e m(3) by simp
qed

section \<open>A port on the bench\<close>

text \<open>A codec that codes silence, a port just opened, and a deferred state report.\<close>

definition silent_codec :: "(unit, unit) codec" where
  "silent_codec = \<lparr>cd_encode = (\<lambda>e pcm. (Inr [], e)), cd_decode = (\<lambda>d bs. (Inr (replicate 480 0), d)),
     cd_strerror = (\<lambda>_. []), cd_new_encoder = Inr (), cd_new_decoder = Inr ()\<rparr>"

definition bench_extractor :: "unit PcmAudioExtractor" where
  "bench_extractor = \<lparr>speaker_encoder = (), pending_frame = replicate 8 0, speaker_pcm = replicate 1024 0,
     haptics_pcm = replicate 1024 0, pcm_window_frames = 512, pending_frame_pos = 0, pcm_window_frame_pos = 0,
     chunk_has_signal = False, chunk_has_haptics_signal = False\<rparr>"

definition bench_backend :: "sys_write list \<Rightarrow> sys_read list \<Rightarrow> BtL2capBackend" where
  "bench_backend ws rs = \<lparr>bt_address = ''aa:bb:cc:dd:ee:ff'', control_ch = closed_channel,
     interrupt_ch = closed_channel\<lparr>ch_fd := 5, ch_writes := ws, ch_reads := rs\<rparr>\<rparr>"

definition bench :: "channel \<Rightarrow> BtL2capBackend \<Rightarrow> (unit, unit) ctx" where
  "bench fd b = \<lparr>cx_port = opened_port ''/dev/vds0'' fd bench_extractor bench_extractor (), cx_bt = b\<rparr>"

definition audio_on_frame :: bytes where
  "audio_on_frame = header_bytes \<lparr>fh_type = 7, fh_flags = 0, fh_length = 4, fh_sequence = 0\<rparr> @ [1, 1, 1, 0]"

definition mute_packet :: bytes where
  "mute_packet = [0xa1, 0x31, 0x01] @ (replicate 63 0)[9 := 0x04]"

lemma closed_channel_sel [simp]:
  "ch_fd closed_channel = - 1" "ch_writes closed_channel = []" "ch_fulls closed_channel = []"
  "ch_reads closed_channel = []" "ch_out closed_channel = []"
  by (simp_all add: closed_channel_def)

lemma bench_backend_sel [simp]:
  "control_ch (bench_backend ws rs) = closed_channel" "interrupt_out (bench_backend ws rs) = []" "fresh_backend (bench_backend ws rs)"
  "ch_fd (interrupt_ch (bench_backend ws rs)) = 5" "ch_writes (interrupt_ch (bench_backend ws rs)) = ws"
  "ch_reads (interrupt_ch (bench_backend ws rs)) = rs"
  by (simp_all add: bench_backend_def interrupt_out_def control_out_def fresh_backend_def)

lemma bench_reachable: "ch_out fd = [] \<Longrightarrow> fresh_backend b \<Longrightarrow> linux_reachable cd wave (bench fd b)"
  unfolding bench_def by (rule linux_reachable.opened)

lemma forward_blocked:
  assumes "ctx_ok c" "pending_bt_state (cx_port c) = None" "last_sent_bt_state (cx_port c) = None"
    "ch_writes (interrupt_ch (cx_bt c)) = []"
  obtains c' where "forward_bt_state_if_changed c = (Inr (), c')"
    "pending_bt_state (cx_port c') = Some (ds_state (output_state (cx_port c)))"
    "interrupt_out (cx_bt c') = interrupt_out (cx_bt c)"
proof -
  have f: "flush_pending_bt_state_report c = (Inr True, c)"
    using assms(1) by (cases rule: flush_cases) (use assms(2) in auto)
  obtain q c' where s: "send_state c = (q, c')" by fastforce
  obtain packet sent b where x: "try_send_output_report packet (cx_bt c) = (sent, b)" "cx_bt c' = b"
      "q = (case sent of Inl e \<Rightarrow> Inl e | Inr _ \<Rightarrow> Inr ())"
    by (rule send_state_effect [OF assms(1) s]) blast
  have no: "sent = Inr False"
    using x(1) assms(4) by (auto simp: try_send_output_report_def on_interrupt_def on_part_def try_write_packet_def took_def
        split: if_splits)
  with x(3) s f assms have fw: "forward_bt_state_if_changed c = (Inr (), c')"
    by (simp add: forward_split act_seq_def act_bind_def forward_rest_def)
  have out: "interrupt_out (cx_bt c') = interrupt_out (cx_bt c)"
    using try_send_outcome(1) [OF x(1)] x(2) no by simp
  with forward_forwarded [OF assms(1) fw] assms(3)
  have "pending_bt_state (cx_port c') = Some (ds_state (output_state (cx_port c)))"
    by (auto simp: forwarded_def Let_def split: if_splits)
  then show thesis using that fw out by blast
qed

text \<open>The host starts the speaker stream while the channel is full; the state report is deferred.\<close>

definition bench_fd :: channel where
  "bench_fd = closed_channel\<lparr>ch_fd := 4, ch_reads := [Got audio_on_frame]\<rparr>"

definition speaker_state :: bytes where
  "speaker_state = ds_state (set_audio_out_stream_active True False initial_output_state)"

lemma bench_deferred:
  obtains c where "linux_reachable silent_codec wave c" "pending_bt_state (cx_port c) = Some speaker_state"
    "cx_bt c = bench_backend ws rs" "vp_fd (cx_port c) = closed_channel"
    "mic_muted (cx_port c) = False" "mute_button_down (cx_port c) = False" "vp_headset_plugged (cx_port c) = False"
proof -
  let ?c0 = "bench bench_fd (bench_backend [] [])"
  have r0: "linux_reachable silent_codec wave ?c0" by (rule bench_reachable) (simp_all add: bench_fd_def)
  let ?p = "(cx_port ?c0)\<lparr>vp_fd := closed_channel\<lparr>ch_fd := 4, ch_reads := []\<rparr>, audio_out_stream_active := True,
     output_state := set_audio_out_stream_active True False initial_output_state\<rparr>"
  let ?c1 = "?c0\<lparr>cx_port := ?p\<rparr>"
  have ok1: "ctx_ok ?c1"
    using reachable_ok [OF r0] out_ok_ops(4) [OF initial_out_ok] by (simp add: ctx_ok_def port_ok_def bench_fd_def)
  obtain c2 where c2: "forward_bt_state_if_changed ?c1 = (Inr (), c2)"
    "pending_bt_state (cx_port c2) = Some speaker_state" "interrupt_out (cx_bt c2) = []"
    by (rule forward_blocked [OF ok1]) (simp_all add: bench_def opened_port_def speaker_state_def)
  have "input_view c2 = input_view ?c1" by (rule sameD [OF view_forward c2(1)])
  then have v: "mic_muted (cx_port c2) = False" "mute_button_down (cx_port c2) = False" "ch_out (vp_fd (cx_port c2)) = []"
    by (simp_all add: input_view_def bench_def opened_port_def)
  have h: "vp_headset_plugged (cx_port c2) = False"
    using sameD [OF headset.forward_same c2(1)] by (simp add: bench_def opened_port_def)
  have "handle_vds_frame silent_codec True ?c0 = (Inr True, c2)"
    using c2(1)
    by (simp add: handle_vds_frame_def read_port_def on_part_def channel_read_def act_bind_def pget_def bench_def bench_fd_def
        opened_port_def audio_on_frame_def VDS_FRAME_MAX_PAYLOAD_def handle_frame_def frame_types handle_interface_event_def
        VDS_USB_INTERFACE_AUDIO_OUT_def act_seq_def route_audio_def forward_if_def)
  with r0 have "linux_reachable silent_codec wave c2" by (rule linux_reachable.frame)
  then have "linux_reachable silent_codec wave (c2\<lparr>cx_bt := bench_backend ws rs\<rparr>)" by (rule linux_reachable.backend) simp
  then have "linux_reachable silent_codec wave \<lparr>cx_port = (cx_port (c2\<lparr>cx_bt := bench_backend ws rs\<rparr>))\<lparr>vp_fd := closed_channel\<rparr>,
      cx_bt = bench_backend ws rs\<rparr>" by (rule linux_reachable.world) (use v in \<open>simp_all add: world_turns_def\<close>)
  then show thesis by (rule that) (use v h c2 in simp_all)
qed

section \<open>Properties\<close>



text \<open>
  Latest state delivered or pending. After a change of the output state was forwarded, the
  controller has been sent exactly the current state and nothing is pending, or the current state
  is pending because the channel was full; only the deferred and the current state go on the
  wire, each in a sealed report, the last one being the state remembered as sent, and nothing is
  sent when the controller already has the current state. When the channel takes the packets the
  forwarding returns and the current state is sent.
\<close>

theorem latest_state_sent_or_pending:
  assumes "linux_reachable cd wave c"
  shows "(\<forall>c'. forward_bt_state_if_changed c = (Inr (), c') \<longrightarrow> forwarded c c') \<and>
    (0 \<le> ch_fd (interrupt_ch (cx_bt c)) \<longrightarrow>
     (\<forall>ws. ch_writes (interrupt_ch (cx_bt c)) = Took 79 # Took 79 # ws \<longrightarrow>
       (\<exists>c'. forward_bt_state_if_changed c = (Inr (), c') \<and> pending_bt_state (cx_port c') = None \<and>
          last_sent_bt_state (cx_port c') = Some (ds_state (output_state (cx_port c))))))"
  using forward_forwarded [OF reachable_ok [OF assms]] forward_gets_through [OF reachable_ok [OF assms]] by blast

theorem latest_state_sent_or_pending_witness:
  "\<exists>c c' :: (unit, unit) ctx. pending_bt_state (cx_port c) = Some speaker_state \<and>
     forward_bt_state_if_changed c = (Inr (), c') \<and> forwarded c c' \<and>
     last_sent_bt_state (cx_port c') = Some (ds_state (output_state (cx_port c)))"
proof -
  obtain c :: "(unit, unit) ctx" where c: "linux_reachable silent_codec (\<lambda>_. 0) c"
    "pending_bt_state (cx_port c) = Some speaker_state" "cx_bt c = bench_backend [Took 79, Took 79] []"
    by (rule bench_deferred [of "\<lambda>_. 0" "[Took 79, Took 79]" "[]"]) blast
  note t = latest_state_sent_or_pending [OF c(1)]
  from t c(3) obtain c' where "forward_bt_state_if_changed c = (Inr (), c')"
    "last_sent_bt_state (cx_port c') = Some (ds_state (output_state (cx_port c)))" by auto
  with t c(2) show ?thesis by blast
qed

text \<open>
  C18. Buttons and input order. When a batch of packets from the controller is handled without an exception, the
  daemon's mute flag afterwards is its value before, flipped once for each press of the mute button in the batch,
  however long the button is held; all packets are consumed; and the input frames written to the virtual device
  are the input reports of the batch with some possibly left out, in their order and none twice. (What the
  controller's own microphone does depends on the reports sent to it, see \<open>deferred_report_undoes_mute\<close>.)
\<close>

theorem mute_follows_presses:
  assumes "repeat_while (length packets) (handle_bt_input cd) c = (Inr (), c')"
    "ch_reads (interrupt_ch (cx_bt c)) = map Got packets @ rest"
    "list_all (\<lambda>p. p \<noteq> [] \<and> length p \<le> kBtReadBufferSize) packets"
  shows "(mic_muted (cx_port c') \<longleftrightarrow> mic_muted (cx_port c) \<noteq>
      odd (presses (mute_button_down (cx_port c)) (map input_mute (input_reports packets)))) \<and>
    ch_reads (interrupt_ch (cx_bt c')) = rest \<and>
    (\<exists>out. ch_out (vp_fd (cx_port c')) = ch_out (vp_fd (cx_port c)) @ out \<and>
       subseq (filter is_input_frame out) (map hid_in_frame (input_reports packets)))"
  by (rule bt_inputs [OF assms(1,2) refl]) (use assms(3) in \<open>simp add: kBtReadBufferSize_def\<close>)

lemma mute_packet_report:
  obtains report where "bt_input_to_usb_input mute_packet = Some report" "input_mute report" "\<not> input_headset report"
    "\<not> input_headset_mic report"
proof -
  have "bt_input_to_usb_input mute_packet = Some ([0x01] @ (replicate 63 0)[9 := 0x04])" by code_simp
  moreover have "input_mute ([0x01] @ (replicate 63 0)[9 := 0x04])" "\<not> input_headset ([0x01] @ (replicate 63 0)[9 := 0x04])"
    "\<not> input_headset_mic ([0x01] @ (replicate 63 0)[9 := 0x04])"
    by code_simp+
  ultimately show thesis using that by blast
qed

lemma mute_packet_size [simp]: "mute_packet \<noteq> []" "length mute_packet = 66"
  by (simp_all add: mute_packet_def)

theorem mute_follows_presses_witness:
  "\<exists>c c' :: (unit, unit) ctx. repeat_while 1 (handle_bt_input silent_codec) c = (Inr (), c') \<and>
     \<not> mic_muted (cx_port c) \<and> mic_muted (cx_port c')"
proof -
  obtain c :: "(unit, unit) ctx" where c: "linux_reachable silent_codec (\<lambda>_. 0) c"
    "pending_bt_state (cx_port c) = Some speaker_state" "cx_bt c = bench_backend [Took 79, Took 79] [Got mute_packet]"
    "vp_fd (cx_port c) = closed_channel" "\<not> mic_muted (cx_port c)" "\<not> mute_button_down (cx_port c)"
    "\<not> vp_headset_plugged (cx_port c)"
    by (rule bench_deferred [of "\<lambda>_. 0" "[Took 79, Took 79]" "[Got mute_packet]"]) auto
  obtain report where r: "bt_input_to_usb_input mute_packet = Some report" "input_mute report" "\<not> input_headset report"
    by (rule mute_packet_report)
  obtain c1 where c1: "handle_bt_input silent_codec c = (Inr True, c1)"
    by (rule mute_press_then_flush [OF reachable_ok [OF c(1)] c(2), of "[]" mute_packet "[]" report silent_codec])
      (use c r in simp_all)
  then have l: "repeat_while (length [mute_packet]) (handle_bt_input silent_codec) c = (Inr (), c1)"
    by (simp add: act_bind_def)
  have "mic_muted (cx_port c1)"
    using mute_follows_presses [OF l, of "[]"] c r by (simp add: input_reports_def kBtReadBufferSize_def)
  with l c(5) show ?thesis by auto
qed

text \<open>
  Pacing of audio packets. A due flush of the audio queue on a channel that takes packets
  sends one packet, built from the oldest of the four newest chunks, and drops older ones;
  whatever the daemon handles afterwards, no further audio packet leaves before ten milliseconds
  have passed.
\<close>

theorem audio_packets_paced:
  assumes "ctx_ok c" "pending_audio_chunks (cx_port c) \<noteq> []"
    "next_haptics_send_time (cx_port c) \<le> now" "0 < now"
    "0 \<le> ch_fd (interrupt_ch (cx_bt c))" "ch_writes (interrupt_ch (cx_bt c)) = Took 399 # ws"
  shows "\<exists>c1 packet. flush_pending_audio_chunk now later c = (Inr True, c1) \<and>
    (let q = newest kFreshPendingAudioChunks (pending_audio_chunks (cx_port c)) in
     fst (build_packet (ch_haptics (hd q)) (ch_speaker (hd q)) (ds_state (output_state (cx_port c))) True
        (vp_headset_plugged (cx_port c)) (haptics_builder (cx_port c))) = Inr packet \<and>
     pending_audio_chunks (cx_port c1) = tl q) \<and>
    interrupt_out (cx_bt c1) = interrupt_out (cx_bt c) @ [hidp_output_packet packet] \<and>
    (\<forall>c2 now2 later2. handler_steps cd c1 c2 \<longrightarrow> now2 < now + kAudioOutputInterval \<longrightarrow>
       flush_pending_audio_chunk now2 later2 c2 = (Inr True, c2))"
proof -
  let ?p = "cx_port c"
  have go: "\<not> (pending_audio_chunks ?p = [] \<or> next_haptics_send_time ?p \<noteq> 0 \<and> now < next_haptics_send_time ?p)"
    using assms(2,3) by simp
  obtain c1 where f: "flush_pending_audio_chunk now later c = (Inr True, c1)"
    using audio_flush_returns [OF assms(1) go assms(5,6)] by blast
  note e = flush_audio_effect(2) [OF assms(1) f go, unfolded Let_def if_True]
  have "flush_pending_audio_chunk now2 later2 c2 = (Inr True, c2)"
    if "handler_steps cd c1 c2" "now2 < now + kAudioOutputInterval" for c2 now2 later2
  proof -
    from handler_steps_clock [OF that(1)] e that(2) assms(4)
    have "next_haptics_send_time (cx_port c2) \<noteq> 0" "now2 < next_haptics_send_time (cx_port c2)"
      by (simp_all add: kAudioOutputInterval_def)
    then show ?thesis by (simp add: flush_pending_audio_chunk_def)
  qed
  with f e show ?thesis unfolding Let_def kFreshPendingAudioChunks_def by blast
qed

definition silent_chunk :: AudioChunk where
  "silent_chunk = \<lparr>ch_haptics = replicate 64 0, ch_speaker = replicate 200 0, has_signal = False, has_haptics_signal = False\<rparr>"

theorem audio_packets_paced_witness:
  "\<exists>c1 :: (unit, unit) ctx. handler_steps silent_codec c1 c1 \<and> flush_pending_audio_chunk 1005 1006 c1 = (Inr True, c1) \<and>
     pending_audio_chunks (cx_port c1) = [silent_chunk] \<and> length (interrupt_out (cx_bt c1)) = 1"
proof -
  let ?b = "bench closed_channel (bench_backend [Took 399] [])"
  let ?c = "?b\<lparr>cx_port := (cx_port ?b)\<lparr>pending_audio_chunks := [silent_chunk, silent_chunk]\<rparr>\<rparr>"
  have "ctx_ok ?b" by (rule reachable_ok [OF bench_reachable [of _ _ silent_codec "\<lambda>_. 0"]]) simp_all
  then have ok: "ctx_ok ?c" by (simp add: ctx_ok_def port_ok_def chunk_ok_def silent_chunk_def)
  obtain c1 packet where c1: "pending_audio_chunks (cx_port c1) = tl (newest 4 [silent_chunk, silent_chunk])"
    "interrupt_out (cx_bt c1) = interrupt_out (cx_bt ?c) @ [hidp_output_packet packet]"
    "\<forall>c2 now2 later2. handler_steps silent_codec c1 c2 \<longrightarrow> now2 < 1000 + kAudioOutputInterval \<longrightarrow>
       flush_pending_audio_chunk now2 later2 c2 = (Inr True, c2)"
    using audio_packets_paced [OF ok, of 1000 "[]" 1001 silent_codec]
    by (auto simp: bench_def opened_port_def kFreshPendingAudioChunks_def Let_def)
  have "handler_steps silent_codec c1 c1" by (rule handler_steps.none)
  with c1 show ?thesis by (intro exI [of _ c1]) (simp add: bench_def kAudioOutputInterval_def newest_def)
qed

text \<open>
  Feature reports. A request of the host for a feature report that is not cached is passed to
  the controller; the controller's answer reaches the host unchanged and is cached, and the next
  request is answered from the cache without asking the controller again.
\<close>

theorem feature_report_roundtrip:
  assumes "linux_reachable cd wave c" "\<not> feature_cached (cx_port c) ! unat i" "i \<notin> set (pending_feature_reports (cx_port c))"
    "0 \<le> ch_fd (control_ch (cx_bt c))" "ch_fulls (control_ch (cx_bt c)) = []"
    "ch_reads (control_ch (cx_bt c)) = Got (kBtHidpFeaturePrefix # i # contents) # rest" "length contents \<le> 1022"
    "frame_bytes VDS_FRAME_USB_FEATURE_REPLY (i # contents) = Inr f"
    "ch_writes (vp_fd (cx_port c)) = Took (length f) # Took (length f) # ws"
  shows "\<exists>c1 c2 c3. handle_frame cd True VDS_FRAME_USB_FEATURE_GET [i] c = (Inr (), c1) \<and>
    handle_bt_control c1 = (Inr True, c2) \<and> handle_frame cd True VDS_FRAME_USB_FEATURE_GET [i] c2 = (Inr (), c3) \<and>
    control_out (cx_bt c3) = control_out (cx_bt c) @ [feature_get_packet i] \<and>
    ch_out (vp_fd (cx_port c2)) = ch_out (vp_fd (cx_port c)) @ [f] \<and>
    ch_out (vp_fd (cx_port c3)) = ch_out (vp_fd (cx_port c)) @ [f, f] \<and>
    pending_feature_reports (cx_port c3) = pending_feature_reports (cx_port c)"
proof -
  from reachable_ok [OF assms(1)] have len: "length (feature_cache (cx_port c)) = 256" "length (feature_cached (cx_port c)) = 256"
    by (simp_all add: ctx_ok_def port_ok_def cache_ok_def)
  have i: "unat i < 256" using unsigned_less [of i, where ?'a = nat] by simp
  note g1 = feature_get_miss [OF assms(2,4,5), of cd "[]"]
  obtain c1 where c1: "handle_frame cd True VDS_FRAME_USB_FEATURE_GET [i] c = (Inr (), c1)"
    "cx_port c1 = (cx_port c)\<lparr>pending_feature_reports := pending_feature_reports (cx_port c) @ [i]\<rparr>"
    "control_out (cx_bt c1) = control_out (cx_bt c) @ [feature_get_packet i]"
    "ch_reads (control_ch (cx_bt c1)) = ch_reads (control_ch (cx_bt c))"
    using g1 by (simp add: control_out_def)
  obtain c2 where c2: "handle_bt_control c1 = (Inr True, c2)" "control_out (cx_bt c2) = control_out (cx_bt c1)"
    "cx_port c2 = (store_feature (i # contents) (cx_port c1))\<lparr>
         pending_feature_reports := remove1 i (pending_feature_reports (cx_port c1)),
         vp_fd := (vp_fd (cx_port c1))\<lparr>ch_writes := Took (length f) # ws, ch_out := ch_out (vp_fd (cx_port c1)) @ [f]\<rparr>\<rparr>"
    using bt_control_reply [of c1 "i # contents" rest f "Took (length f) # ws"] c1 assms(6-9) by (simp add: control_out_def)
  have hit: "feature_cached (cx_port c2) ! unat i" "feature_cache (cx_port c2) ! unat i = i # contents"
    "ch_writes (vp_fd (cx_port c2)) = Took (length f) # ws"
    using len i c1(2) by (simp_all add: c2(3) store_feature_def)
  obtain c3 where c3: "handle_frame cd True VDS_FRAME_USB_FEATURE_GET [i] c2 = (Inr (), c3)" "cx_bt c3 = cx_bt c2"
    "ch_out (vp_fd (cx_port c3)) = ch_out (vp_fd (cx_port c2)) @ [f]"
    "pending_feature_reports (cx_port c3) = pending_feature_reports (cx_port c2)"
    using feature_get_hit [OF hit(1,2) assms(8) hit(3), of cd "[]"] by simp
  show ?thesis
    by (intro exI [of _ c1] exI [of _ c2] exI [of _ c3])
      (use c1 c2 c3 assms(3) in \<open>simp add: store_feature_def remove1_append\<close>)
qed

theorem feature_report_roundtrip_witness:
  "\<exists>c1 c2 c3 :: (unit, unit) ctx. handle_bt_control c1 = (Inr True, c2) \<and>
     handle_frame silent_codec True VDS_FRAME_USB_FEATURE_GET [0x20] c2 = (Inr (), c3) \<and>
     control_out (cx_bt c3) = [feature_get_packet 0x20] \<and> length (ch_out (vp_fd (cx_port c3))) = 2"
proof -
  let ?bt = "(bench_backend [] [])\<lparr>control_ch := closed_channel\<lparr>ch_fd := 6, ch_reads := [Got [0xa3, 0x20, 7, 7]]\<rparr>\<rparr>"
  let ?fd = "closed_channel\<lparr>ch_fd := 4, ch_writes := [Took 19, Took 19]\<rparr>"
  have r: "linux_reachable silent_codec (\<lambda>_. 0) (bench ?fd ?bt)" by (rule bench_reachable) (simp_all add: fresh_backend_def control_out_def interrupt_out_def bench_backend_def)
  obtain f where f: "frame_bytes VDS_FRAME_USB_FEATURE_REPLY [0x20, 7, 7] = Inr f" "length f = 19"
    by (simp add: frame_bytes_def VDS_FRAME_MAX_PAYLOAD_def)
  have "\<not> feature_cached (cx_port (bench ?fd ?bt)) ! unat (0x20 :: u8)" by (simp add: bench_def opened_port_def)
  then obtain c1 c2 c3 where "handle_bt_control c1 = (Inr True, c2)"
    "handle_frame silent_codec True VDS_FRAME_USB_FEATURE_GET [0x20] c2 = (Inr (), c3)"
    "control_out (cx_bt c3) = control_out ?bt @ [feature_get_packet 0x20]"
    "ch_out (vp_fd (cx_port c3)) = ch_out ?fd @ [f, f]"
    using feature_report_roundtrip [OF r, where i = "0x20" and contents = "[7, 7]" and rest = "[]" and f = f and ws = "[]"] f
    by (auto simp: bench_def opened_port_def kBtHidpFeaturePrefix_def)
  then show ?thesis by (intro exI [of _ c1] exI [of _ c2] exI [of _ c3]) (simp add: control_out_def)
qed

text \<open>
  The headset microphone is never selected. In every reachable state of a port, also when the
  controller has reported a plugged headset microphone, the microphone report that the daemon
  builds selects the internal microphone: the Linux daemon remembers the headset microphone but
  does not pass it to the output state.
\<close>

theorem headset_mic_never_selected:
  assumes "linux_reachable cd wave c"
    "build_bt_mic_state_report active muted (output_state (cx_port c)) = (Inr r, s)"
  shows "r ! (kBtStateOffset + 7) AND kOutputMicSelectMask = kOutputMicSelectInternal"
proof -
  have ok: "out_ok (output_state (cx_port c))" using reachable_ok [OF assms(1)] by (simp add: ctx_ok_def port_ok_def)
  then have "audio_control (output_state (cx_port c)) AND 3 = 1" "audio_output_path (output_state (cx_port c)) AND 0xcf = 0"
    by (simp_all add: out_ok_def output_inv_def)
  then have "audio_control_with_output_path (audio_control (output_state (cx_port c))) (audio_output_path (output_state (cx_port c))) AND 3 = 1"
    unfolding u8_eq_iff audio_control_with_output_path_def kOutputPathMask_def by (auto simp: bit_simps)
  with mic_state_report_layout [OF out_okD [OF ok], of active muted] assms(2) show ?thesis
    by (auto simp: kBtStateOffset_def kOutputMicSelectMask_def kOutputMicSelectInternal_def)
qed

definition headset_packet :: bytes where
  "headset_packet = [0xa1, 0x31, 0x01] @ (replicate 63 0)[53 := 0x02]"

lemma headset_packet_report:
  obtains report where "bt_input_to_usb_input headset_packet = Some report" "\<not> input_mute report"
    "\<not> input_headset report" "input_headset_mic report" "bt_input_payload_type headset_packet \<noteq> Audio_payload"
proof -
  have "bt_input_to_usb_input headset_packet = Some ([0x01] @ (replicate 63 0)[53 := 0x02])" by code_simp
  moreover have "\<not> input_mute ([0x01] @ (replicate 63 0)[53 := 0x02])" "\<not> input_headset ([0x01] @ (replicate 63 0)[53 := 0x02])"
    "input_headset_mic ([0x01] @ (replicate 63 0)[53 := 0x02])" "bt_input_payload_type headset_packet \<noteq> Audio_payload"
    by code_simp+
  ultimately show thesis using that by blast
qed

theorem headset_mic_never_selected_witness:
  "\<exists>(c :: (unit, unit) ctx) r s. linux_reachable silent_codec (\<lambda>_. 0) c \<and> vp_headset_mic_plugged (cx_port c) \<and>
     build_bt_mic_state_report True False (output_state (cx_port c)) = (Inr r, s) \<and> r ! 10 AND 3 = 1"
proof -
  let ?c = "bench closed_channel (bench_backend [] [Got headset_packet])"
  have r: "linux_reachable silent_codec (\<lambda>_. 0) ?c" by (rule bench_reachable) simp_all
  obtain report where p: "bt_input_to_usb_input headset_packet = Some report" "\<not> input_mute report"
    "\<not> input_headset report" "input_headset_mic report" "bt_input_payload_type headset_packet \<noteq> Audio_payload"
    by (rule headset_packet_report)
  have rd: "on_bt read_interrupt_packet ?c = (Inr (Some headset_packet), ?c\<lparr>cx_bt := (cx_bt ?c)\<lparr>interrupt_ch :=
      (interrupt_ch (cx_bt ?c))\<lparr>ch_reads := []\<rparr>\<rparr>\<rparr>)"
    by (rule read_interrupt_next) (simp_all add: bench_def headset_packet_def)
  obtain c1 where c1: "handle_bt_input silent_codec ?c = (Inr True, c1)" "vp_headset_mic_plugged (cx_port c1)"
    unfolding handle_bt_input_def act_bind_Inr [where m = "on_bt read_interrupt_packet", OF rd]
    using p by (simp add: input_buttons_def input_headset_route_def Let_def act_seq_def act_bind_def bench_def opened_port_def
        write_vds_frame_def pget_def took_def count_def)
  have rc: "linux_reachable silent_codec (\<lambda>_. 0) c1" using r c1(1) by (rule linux_reachable.input)
  have "length (ds_state (output_state (cx_port c1))) = 63"
    using reachable_ok [OF rc] by (simp add: ctx_ok_def port_ok_def out_okD)
  then obtain r s where b: "build_bt_mic_state_report True False (output_state (cx_port c1)) = (Inr r, s)"
    using mic_state_report_layout by (metis prod.collapse)
  from headset_mic_never_selected [OF rc b] have "r ! 10 AND 3 = 1"
    by (simp add: kBtStateOffset_def kOutputMicSelectMask_def kOutputMicSelectInternal_def)
  with rc c1(2) b show ?thesis by blast
qed

text \<open>
  A deferred state report undoes a mute. When the mute button is pressed while a state report
  built before the press is still deferred, the daemon sends the mute and then the old report,
  which asks for the unmuted microphone again; the daemon itself takes the microphone for muted.
\<close>

theorem deferred_report_undoes_mute:
  assumes "linux_reachable cd wave c" "pending_bt_state (cx_port c) = Some s"
    and old: "s ! 9 AND kOutputPowerSaveMicMute = 0" "bit (s ! 1) 1"
    and "0 \<le> ch_fd (interrupt_ch (cx_bt c))" "ch_writes (interrupt_ch (cx_bt c)) = Took 79 # Took 79 # ws"
      "ch_reads (interrupt_ch (cx_bt c)) = Got packet # rest" "packet \<noteq> []" "length packet \<le> kBtReadBufferSize"
    and "bt_input_to_usb_input packet = Some report" "input_mute report" "\<not> mute_button_down (cx_port c)"
      "input_headset report = vp_headset_plugged (cx_port c)" "\<not> mic_muted (cx_port c)"
    and "ch_writes (vp_fd (cx_port c)) = []"
  shows "\<exists>c1 c2 mute r. handle_bt_input cd c = (Inr True, c1) \<and> flush_pending_bt_state_report c1 = (Inr True, c2) \<and>
    interrupt_out (cx_bt c2) = interrupt_out (cx_bt c) @ [hidp_output_packet mute, hidp_output_packet r] \<and>
    mute ! (kBtStateOffset + 9) AND kOutputPowerSaveMicMute \<noteq> 0 \<and>
    r ! (kBtStateOffset + 9) AND kOutputPowerSaveMicMute = 0 \<and> bit (r ! (kBtStateOffset + 1)) 1 \<and>
    mic_muted (cx_port c2) \<and> pending_bt_state (cx_port c2) = None"
proof -
  note ok = reachable_ok [OF assms(1)]
  obtain c1 c2 mute r where x: "handle_bt_input cd c = (Inr True, c1)" "flush_pending_bt_state_report c1 = (Inr True, c2)"
    "mic_muted (cx_port c2) = (\<not> mic_muted (cx_port c))"
    "interrupt_out (cx_bt c2) = interrupt_out (cx_bt c) @ [hidp_output_packet mute, hidp_output_packet r]"
    "fst (build_bt_mic_state_report (audio_in_stream_active (cx_port c)) (\<not> mic_muted (cx_port c)) (output_state (cx_port c))) = Inr mute"
    "carries s r" "pending_bt_state (cx_port c2) = None"
    by (rule mute_press_then_flush [OF ok assms(2) assms(5-8), of report cd])
      (use assms(9-15) in \<open>auto simp: kBtReadBufferSize_def\<close>)
  have "length (ds_state (output_state (cx_port c))) = 63" using ok by (simp add: ctx_ok_def port_ok_def out_okD)
  with mic_state_report_layout [of "output_state (cx_port c)" "audio_in_stream_active (cx_port c)" True] x(5) assms(14)
  have "mute ! 12 = power_save_control (output_state (cx_port c)) OR 0x10" by simp
  then have "mute ! 12 AND 0x10 \<noteq> 0" unfolding u8_eq_iff by (auto simp: bit_simps)
  moreover have "take 47 (drop 3 r) ! j = take 47 s ! j" for j using x(6) by (simp add: carries_def kSetStateSize_def kBtStateOffset_def)
  from this [of 9] this [of 1] x(6) have "r ! 12 = s ! 9" "r ! 4 = s ! 1" by (simp_all add: carries_def kBtStateReportSize_def)
  ultimately show ?thesis
    by (intro exI [of _ c1] exI [of _ c2] exI [of _ mute] exI [of _ r])
      (use x old assms(14) in \<open>simp add: kBtStateOffset_def kOutputPowerSaveMicMute_def\<close>)
qed

theorem deferred_report_undoes_mute_witness:
  "\<exists>(c2 :: (unit, unit) ctx) r. mic_muted (cx_port c2) \<and> pending_bt_state (cx_port c2) = None \<and>
     last (interrupt_out (cx_bt c2)) = hidp_output_packet r \<and> r ! 12 AND 0x10 = 0 \<and> bit (r ! 4) 1"
proof -
  obtain c :: "(unit, unit) ctx" where c: "linux_reachable silent_codec (\<lambda>_. 0) c"
    "pending_bt_state (cx_port c) = Some speaker_state" "cx_bt c = bench_backend [Took 79, Took 79] [Got mute_packet]"
    "vp_fd (cx_port c) = closed_channel" "\<not> mic_muted (cx_port c)" "\<not> mute_button_down (cx_port c)"
    "\<not> vp_headset_plugged (cx_port c)"
    by (rule bench_deferred [of "\<lambda>_. 0" "[Took 79, Took 79]" "[Got mute_packet]"]) auto
  obtain report where r: "bt_input_to_usb_input mute_packet = Some report" "input_mute report" "\<not> input_headset report"
    by (rule mute_packet_report)
  have s: "speaker_state ! 9 AND kOutputPowerSaveMicMute = 0" "bit (speaker_state ! 1) 1" by code_simp+
  have "\<exists>c1 c2 mute r. handle_bt_input silent_codec c = (Inr True, c1) \<and> flush_pending_bt_state_report c1 = (Inr True, c2) \<and>
    interrupt_out (cx_bt c2) = interrupt_out (cx_bt c) @ [hidp_output_packet mute, hidp_output_packet r] \<and>
    mute ! (kBtStateOffset + 9) AND kOutputPowerSaveMicMute \<noteq> 0 \<and>
    r ! (kBtStateOffset + 9) AND kOutputPowerSaveMicMute = 0 \<and> bit (r ! (kBtStateOffset + 1)) 1 \<and>
    mic_muted (cx_port c2) \<and> pending_bt_state (cx_port c2) = None"
    by (rule deferred_report_undoes_mute [OF c(1,2) s, of "[]" mute_packet "[]" report])
      (use c r in \<open>simp_all add: kBtReadBufferSize_def\<close>)
  then obtain c2 :: "(unit, unit) ctx" and mute r where "interrupt_out (cx_bt c2) = interrupt_out (cx_bt c) @ [hidp_output_packet mute, hidp_output_packet r]"
    "r ! (kBtStateOffset + 9) AND kOutputPowerSaveMicMute = 0" "bit (r ! (kBtStateOffset + 1)) 1"
    "mic_muted (cx_port c2)" "pending_bt_state (cx_port c2) = None" by blast
  then show ?thesis
    by (intro exI [of _ c2] exI [of _ r]) (simp add: kBtStateOffset_def kOutputPowerSaveMicMute_def)
qed

end
