(* ===== verification/LinuxDaemonProps.thy ===== *)
theory LinuxDaemonProps
  imports LinuxDaemonInv LinuxPortProps
begin

text \<open>
  Properties of the Linux daemon over the turns of its main loop: exclusive ports, what a reload
  establishes and preserves, isolation of Bluetooth failures, the routing of epoll events and the
  bounds of the wait.
\<close>

section \<open>Reachable states\<close>












section \<open>Two controllers on the bench\<close>

text \<open>A daemon with two ports and two configured controllers that have opened their control channels.\<close>

definition pad :: "string \<Rightarrow> ControllerConfig" where
  "pad a = \<lparr>cfg_address = a, cfg_profile = Unspecified, cfg_ports = []\<rparr>"

definition bench_open :: "string \<Rightarrow> channel result" where
  "bench_open path = (if path = ''/dev/vds3'' then Inl (Runtime_error ''failed to open /dev/vds3: Device or resource busy'')
     else Inr (closed_channel\<lparr>ch_fd := 7\<rparr>))"

definition bench_port :: "string \<Rightarrow> (unit, unit) LinuxVirtualPort" where
  "bench_port path = opened_port path (closed_channel\<lparr>ch_fd := 7\<rparr>) bench_extractor bench_extractor ()"

lemma bench_port_simps [simp]:
  "vp_path (bench_port path) = path" "ch_fd (vp_fd (bench_port path)) = 7" "ch_out (vp_fd (bench_port path)) = []"
  by (simp_all add: bench_port_def opened_port_def)

lemma open_bench [simp]:
  "path \<noteq> ''/dev/vds3'' \<Longrightarrow> open_port silent_codec bench_open path = Inr (bench_port path)"
  "open_port silent_codec bench_open ''/dev/vds3'' = Inl (Runtime_error ''failed to open /dev/vds3: Device or resource busy'')"
  by (simp_all add: open_port_def bench_open_def silent_codec_def fresh_extractor_def new_extractor_def bench_port_def
      bench_extractor_def kPcmWindowFrames_def kHapticsDecimation_def kPcmFrameSize_def kSpeakerChannels_def)

definition bench_env :: link_env where
  "bench_env = \<lparr>le_modalias = (\<lambda>_. None), le_disconnect = None, le_profile = None, le_connect = None, le_polls = []\<rparr>"

definition bench_fd9 :: channel where "bench_fd9 = closed_channel\<lparr>ch_fd := 9\<rparr>"

definition accept_event :: "string \<Rightarrow> event" where
  "accept_event a = \<lparr>ev_data = encode_event Ev_BtAcceptControl 0, ev_in = True, ev_err = False, ev_client = No_client,
     ev_client_env = \<lparr>ce_targets = Inr [], ce_load = Inr [], ce_update = Inr [], ce_outcome = Written\<rparr>,
     ev_accepted = [Accepted a bench_fd9 bench_env], ev_drained = False\<rparr>"

definition bench_turn :: "string list \<Rightarrow> event list \<Rightarrow> turn" where
  "bench_turn devices events = \<lparr>tn_devices = devices, tn_open = bench_open, tn_db = Inr \<lparr>controllers = [pad ''a'', pad ''b'']\<rparr>,
     tn_listeners = (3, 4, 5, 6), tn_wait = Wait_ready events, tn_clock = (\<lambda>_. (0, 0))\<rparr>"

definition bench_daemon :: "ControllerRuntime list \<Rightarrow> (unit, unit) daemon" where
  "bench_daemon cs = \<lparr>dm_ports = [bench_port ''/dev/vds0'', bench_port ''/dev/vds1''], dm_controllers = cs,
     dm_trace_flags = 0, dm_reload_requested = False, dm_epoll_dirty = False\<rparr>"



lemma bench_indices [simp]: "port_index_from_path Linux ''/dev/vds0'' = Some 0" "port_index_from_path Linux ''/dev/vds1'' = Some 1"
  by code_simp+


definition waiting :: "string \<Rightarrow> string \<Rightarrow> ControllerRuntime" where
  "waiting a device = (new_controller (pad a))\<lparr>cr_device := device, cr_pending_control_fd := Some bench_fd9\<rparr>"

lemma accept_event_sel [simp]:
  "ev_in (accept_event a) = True" "ev_err (accept_event a) = False" "ev_accepted (accept_event a) = [Accepted a bench_fd9 bench_env]"
  by (simp_all add: accept_event_def)








section \<open>One controller per port\<close>


lemma distinct_map_filter_mono:
  assumes "distinct (map f (filter Q xs))" "\<And>x. x \<in> set xs \<Longrightarrow> P x \<Longrightarrow> Q x"
  shows "distinct (map f (filter P xs))"
  using assms by (induction xs) (auto split: if_splits)




section \<open>A Bluetooth failure stays with its controller\<close>

definition elsewhere :: "nat \<Rightarrow> 'a list \<Rightarrow> 'a option list" where
  "elsewhere k xs = map (\<lambda>j. if j = k then None else Some (xs ! j)) [0..<length xs]"

lemma elsewhere_update [simp]: "elsewhere k (xs[k := x]) = elsewhere k xs"
  by (auto simp: elsewhere_def)

lemma elsewhere_eqD:
  assumes "elsewhere k ys = elsewhere k xs"
  shows "length ys = length xs" "j \<noteq> k \<Longrightarrow> j < length xs \<Longrightarrow> ys ! j = xs ! j"
proof -
  show len: "length ys = length xs" using arg_cong [OF assms, of length] by (simp add: elsewhere_def)
  show "ys ! j = xs ! j" if "j \<noteq> k" "j < length xs"
    using arg_cong [OF assms, of "\<lambda>l. l ! j"] that len by (simp add: elsewhere_def)
qed

definition rest_of :: "nat \<Rightarrow> nat \<Rightarrow> ('e, 'd) daemon \<Rightarrow> ControllerRuntime option list \<times> ('e, 'd) LinuxVirtualPort option list" where
  "rest_of k i d = (elsewhere k (dm_controllers d), elsewhere i (dm_ports d))"

lemma rest_of_simps [simp]:
  "rest_of k i (put_controller k c d) = rest_of k i d" "rest_of k i (put_port i p d) = rest_of k i d"
  "rest_of k i (mark_dirty d) = rest_of k i d" "rest_of k i (drop_bt_backend k i d) = rest_of k i d"
  by (simp_all add: rest_of_def drop_bt_backend_def Let_def)

lemma rest_run_link: "within (\<lambda>d d'. rest_of k i d' = rest_of k i d) (run_link k i m)"
  by (rule withinI) (auto simp: run_link_def Let_def split: prod.splits if_splits)

lemma rest_guarded:
  "within (\<lambda>d d'. rest_of k i d' = rest_of k i d) m \<Longrightarrow> within (\<lambda>d d'. rest_of k i d' = rest_of k i d) (guarded k i m stop)"
  unfolding guarded_def by (intro same.rules same.modify_within) simp_all

lemma throws_guarded: "throws_only (\<lambda>e. \<not> is_bluetooth_error e) (guarded k i m stop)"
  by (auto simp: throws_only_def guarded_def catch_def act_seq_def split: sum.splits prod.splits if_splits)

lemma throws_repeat: "throws_only E m \<Longrightarrow> throws_only E (repeat_while n m)"
  by (induction n) (auto intro!: throws_ret throws_bind)

lemma drop_disconnects: "k < length (dm_controllers d) \<Longrightarrow> cr_backend (dm_controllers (drop_bt_backend k i d) ! k) = None"
  by (simp add: drop_bt_backend_def Let_def)

text \<open>
  An event on a Bluetooth channel of one controller, whatever its handler does, leaves every
  other controller and every other port as they were; no Bluetooth error leaves the handler (so a
  link failure does not end the daemon), and after an error event that returns the controller has no backend.
\<close>

theorem bt_failure_isolated:
  assumes run: "bt_event k handler readable failed d = (r, d')"
  shows "length (dm_controllers d') = length (dm_controllers d) \<and> length (dm_ports d') = length (dm_ports d) \<and>
    (\<forall>j < length (dm_controllers d). j \<noteq> k \<longrightarrow> dm_controllers d' ! j = dm_controllers d ! j) \<and>
    (\<forall>j < length (dm_ports d). vp_path (dm_ports d ! j) \<noteq> cr_device (dm_controllers d ! k) \<longrightarrow>
       dm_ports d' ! j = dm_ports d ! j) \<and>
    (\<forall>e. r = Inl e \<longrightarrow> \<not> is_bluetooth_error e) \<and>
    (failed \<and> r = Inr () \<and> k < length (dm_controllers d) \<longrightarrow> cr_backend (dm_controllers d' ! k) = None)"
proof (cases "k \<ge> length (dm_controllers d) \<or> cr_backend (dm_controllers d ! k) = None")
  case False
  then have k: "k < length (dm_controllers d)" by simp
  show ?thesis
  proof (cases "find_port_index (dm_ports d) (cr_device (dm_controllers d ! k))")
    case None
    with run False show ?thesis by (auto simp: bt_event_def)
  next
    case (Some i)
    let ?first = "if readable then repeat_while kMaxBtPacketsPerWake (guarded k i (run_link k i handler) False) else ret ()"
    let ?last = "if failed then modify (\<lambda>d. mark_dirty (drop_bt_backend k i d)) else ret ()"
    have work: "act_seq ?first ?last d = (r, d')" using run Some False by (auto simp: bt_event_def)
    have "within (\<lambda>d d'. rest_of k i d' = rest_of k i d) (act_seq ?first ?last)"
      by (intro same.rules same.modify_within rest_guarded rest_run_link) simp
    from sameD [OF this work] have rest: "elsewhere k (dm_controllers d') = elsewhere k (dm_controllers d)"
      "elsewhere i (dm_ports d') = elsewhere i (dm_ports d)" by (simp_all add: rest_of_def)
    have "throws_only (\<lambda>e. \<not> is_bluetooth_error e) (act_seq ?first ?last)"
      by (intro throws_rules throws_repeat throws_guarded)
    then have no_bt: "\<forall>e. r = Inl e \<longrightarrow> \<not> is_bluetooth_error e" using work by (auto dest: throws_onlyD)
    have gone: "cr_backend (dm_controllers d' ! k) = None" if "failed" "r = Inr ()"
    proof -
      from work that obtain d1 where "d' = mark_dirty (drop_bt_backend k i d1)"
        by (auto elim!: act_seq_InrE)
      with elsewhere_eqD(1) [OF rest(1)] k show ?thesis by (simp add: drop_disconnects)
    qed
    have "j \<noteq> i" if "vp_path (dm_ports d ! j) \<noteq> cr_device (dm_controllers d ! k)" for j
      using that find_port_bound [OF Some] by auto
    then show ?thesis using elsewhere_eqD [OF rest(1)] elsewhere_eqD [OF rest(2)] no_bt gone by auto
  qed
qed (use run in \<open>auto simp: bt_event_def\<close>)

theorem bt_failure_isolated_witness:
  "\<exists>r d'. bt_event 0 (handle_bt_input silent_codec) True True
       (bench_daemon [(waiting ''a'' ''/dev/vds0'')\<lparr>cr_backend := Some (bench_backend [] [R_error ''reset''])\<rparr>, waiting ''b'' ''/dev/vds1'']) = (r, d') \<and>
     dm_controllers d' ! 1 = waiting ''b'' ''/dev/vds1'' \<and> dm_ports d' ! 1 = bench_port ''/dev/vds1''"
proof -
  let ?d = "bench_daemon [(waiting ''a'' ''/dev/vds0'')\<lparr>cr_backend := Some (bench_backend [] [R_error ''reset''])\<rparr>, waiting ''b'' ''/dev/vds1'']"
  obtain r d' where run: "bt_event 0 (handle_bt_input silent_codec) True True ?d = (r, d')" by fastforce
  have "length (dm_controllers ?d) = 2" "length (dm_ports ?d) = 2" "dm_controllers ?d ! 1 = waiting ''b'' ''/dev/vds1''"
    "dm_ports ?d ! 1 = bench_port ''/dev/vds1''" "cr_device (dm_controllers ?d ! 0) = ''/dev/vds0''"
    by (simp_all add: bench_daemon_def waiting_def)
  with bt_failure_isolated [OF run] run show ?thesis by (intro exI [of _ r] exI [of _ d']) simp
qed

section \<open>The epoll set\<close>

lemma decode_encode:
  assumes "index < 2 ^ 32"
  shows "decode_event (encode_event t (of_nat index)) = (ucast (event_number t), of_nat index)"
proof -
  have "decode_event (encode_event t w) = (ucast (event_number t), take_bit 32 w)" for w
    unfolding decode_event_def encode_event_def
    by (rule prod_eqI; simp only: fst_conv snd_conv; rule bit_word_eqI; auto simp: bit_simps)
  moreover have "take_bit 32 (of_nat index :: u64) = of_nat index"
    using assms by (simp add: word_unat_eq_iff unsigned_take_bit_eq unsigned_of_nat take_bit_nat_eq_self)
  ultimately show ?thesis by simp
qed

text \<open>The descriptor an event of the main loop stands for.\<close>

definition event_fd :: "int \<times> int \<times> int \<times> int \<Rightarrow> ('e, 'd) daemon \<Rightarrow> u32 \<times> u64 \<Rightarrow> int option" where
  "event_fd listeners d source =
     (case (listeners, source) of ((control_fd, monitor_fd, control_listener, interrupt_listener), (t, index)) \<Rightarrow>
        let i = unat index; backend = (\<lambda>f. if i < length (dm_controllers d)
              then map_option (\<lambda>b. ch_fd (f b)) (cr_backend (dm_controllers d ! i)) else None) in
        if is_event Ev_Control t then Some control_fd
        else if is_event Ev_Udev t then Some monitor_fd
        else if is_event Ev_BtAcceptControl t then Some control_listener
        else if is_event Ev_BtAcceptInterrupt t then Some interrupt_listener
        else if is_event Ev_Port t then (if i < length (dm_ports d) then Some (ch_fd (vp_fd (dm_ports d ! i))) else None)
        else if is_event Ev_BtControl t then backend control_ch
        else if is_event Ev_BtInterrupt t then backend interrupt_ch
        else None)"

definition backend_fd :: "('e, 'd) daemon \<Rightarrow> nat \<Rightarrow> (BtL2capBackend \<Rightarrow> channel) \<Rightarrow> int option" where
  "backend_fd d k f = (if k < length (dm_controllers d)
     then map_option (\<lambda>b. ch_fd (f b)) (cr_backend (dm_controllers d ! k)) else None)"

lemma event_fd_encoded:
  assumes "i < 2 ^ 32"
  shows "event_fd (control_fd, monitor_fd, control_listener, interrupt_listener) d (decode_event (encode_event t (of_nat i))) =
    (case t of Ev_Control \<Rightarrow> Some control_fd | Ev_Udev \<Rightarrow> Some monitor_fd | Ev_BtAcceptControl \<Rightarrow> Some control_listener
     | Ev_BtAcceptInterrupt \<Rightarrow> Some interrupt_listener
     | Ev_Port \<Rightarrow> (if i < length (dm_ports d) then Some (ch_fd (vp_fd (dm_ports d ! i))) else None)
     | Ev_BtControl \<Rightarrow> backend_fd d i control_ch | Ev_BtInterrupt \<Rightarrow> backend_fd d i interrupt_ch)"
proof -
  have "unat (of_nat i :: u64) = i" using assms by (simp add: unsigned_of_nat take_bit_nat_eq_self)
  then show ?thesis
    by (cases t) (simp_all add: decode_encode [OF assms] event_fd_def is_event_def Let_def backend_fd_def)
qed

definition routed :: "int \<times> int \<times> int \<times> int \<Rightarrow> ('e, 'd) daemon \<Rightarrow> int \<times> u64 \<Rightarrow> bool" where
  "routed listeners d entry \<longleftrightarrow> fst entry \<ge> 0 \<and> event_fd listeners d (decode_event (snd entry)) = Some (fst entry)"

lemma add_epoll_routed:
  assumes "add_epoll_fd fd t index reg = Inr reg'" "list_all P reg"
    "fd \<ge> 0 \<Longrightarrow> P (fd, encode_event t (of_nat index))"
  shows "list_all P reg'"
  using assms by (auto simp: add_epoll_fd_def split: if_splits)

lemma foldl_res:
  assumes "foldl (\<lambda>r x. step x r) (Inr reg) xs = Inr reg'" "list_all P reg"
    "\<And>x e. step x (Inl e) = Inl e" "\<And>x reg reg'. x \<in> set xs \<Longrightarrow> step x (Inr reg) = Inr reg' \<Longrightarrow> list_all P reg \<Longrightarrow> list_all P reg'"
  shows "list_all P reg'"
  using assms
proof (induction xs arbitrary: reg)
  case (Cons x xs)
  have stuck: "foldl (\<lambda>r x. step x r) (Inl e) ys = Inl e" for e ys
    by (induction ys) (simp_all add: Cons.prems(3))
  show ?case
  proof (cases "step x (Inr reg)")
    case (Inr reg1)
    with Cons show ?thesis by (metis foldl_Cons list.set_intros)
  qed (use Cons.prems(1) stuck in simp)
qed simp

lemma add_ports_routed:
  assumes "add_ports (dm_ports d) reg = Inr reg'" "list_all (routed ls d) reg" "length (dm_ports d) < 2 ^ 32"
  shows "list_all (routed ls d) reg'"
proof (rule foldl_res [OF assms(1) [unfolded add_ports_def] assms(2)])
  fix i reg reg' assume "i \<in> set [0..<length (dm_ports d)]" and reg: "list_all (routed ls d) reg"
    and step: "res_bind (Inr reg) (add_epoll_fd (ch_fd (vp_fd (dm_ports d ! i))) Ev_Port i) = Inr reg'"
  then have i: "i < length (dm_ports d)" by simp
  show "list_all (routed ls d) reg'"
    by (rule add_epoll_routed [OF step [simplified] reg])
      (use i assms(3) in \<open>cases ls, simp add: routed_def event_fd_encoded\<close>)
qed simp

lemma add_controllers_routed:
  assumes "add_controllers (dm_controllers d) reg = Inr reg'" "list_all (routed ls d) reg"
    "length (dm_controllers d) < 2 ^ 32"
  shows "list_all (routed ls d) reg'"
proof (rule foldl_res [OF assms(1) [unfolded add_controllers_def] assms(2)])
  fix k reg reg' assume "k \<in> set [0..<length (dm_controllers d)]" and reg: "list_all (routed ls d) reg"
    and step: "(case cr_backend (dm_controllers d ! k) of None \<Rightarrow> Inr reg
       | Some b \<Rightarrow> res_bind (Inr reg) (\<lambda>reg. res_bind (add_epoll_fd (ch_fd (control_ch b)) Ev_BtControl k reg)
                            (add_epoll_fd (ch_fd (interrupt_ch b)) Ev_BtInterrupt k))) = Inr reg'"
  then have k: "k < length (dm_controllers d)" by simp
  show "list_all (routed ls d) reg'"
  proof (cases "cr_backend (dm_controllers d ! k)")
    case (Some b)
    with step obtain reg1 where s: "add_epoll_fd (ch_fd (control_ch b)) Ev_BtControl k reg = Inr reg1"
      "add_epoll_fd (ch_fd (interrupt_ch b)) Ev_BtInterrupt k reg1 = Inr reg'"
      by (auto simp: res_bind_def split: sum.splits)
    have r: "routed ls d (fd, encode_event t (of_nat k))"
      if "fd \<ge> 0" "t = Ev_BtControl \<and> fd = ch_fd (control_ch b) \<or> t = Ev_BtInterrupt \<and> fd = ch_fd (interrupt_ch b)" for fd t
      using that k assms(3) Some by (cases ls) (auto simp: routed_def event_fd_encoded backend_fd_def)
    show ?thesis
      by (rule add_epoll_routed [OF s(2) add_epoll_routed [OF s(1) reg]]) (auto intro: r)
  qed (use step reg in simp)
qed (simp split: option.splits)

text \<open>
  C26. When the epoll set is rebuilt, every descriptor in it is open and carries data that decodes
  to the source the main loop handles for it: the listener, the port or the channel of the
  controller with that index, which exists. So no event reaches the handler of another port or controller.
\<close>

theorem epoll_events_routed:
  assumes "rebuild_epoll control_fd monitor_fd control_listener interrupt_listener d = Inr reg"
    "length (dm_ports d) < 2 ^ 32" "length (dm_controllers d) < 2 ^ 32" "(fd, data) \<in> set reg"
  shows "fd \<ge> 0 \<and> event_fd (control_fd, monitor_fd, control_listener, interrupt_listener) d (decode_event data) = Some fd"
proof -
  let ?ls = "(control_fd, monitor_fd, control_listener, interrupt_listener)"
  obtain r1 r2 r3 r4 r5 where r: "add_epoll_fd control_fd Ev_Control 0 [] = Inr r1" "add_epoll_fd monitor_fd Ev_Udev 0 r1 = Inr r2"
    "add_epoll_fd control_listener Ev_BtAcceptControl 0 r2 = Inr r3"
    "add_epoll_fd interrupt_listener Ev_BtAcceptInterrupt 0 r3 = Inr r4"
    "add_ports (dm_ports d) r4 = Inr r5" "add_controllers (dm_controllers d) r5 = Inr reg"
    using assms(1) by (auto simp: rebuild_epoll_def res_bind_def split: sum.splits)
  have base: "routed ?ls d (fd, encode_event t (of_nat 0))" if "fd \<ge> 0"
    "(t, fd) \<in> {(Ev_Control, control_fd), (Ev_Udev, monitor_fd), (Ev_BtAcceptControl, control_listener), (Ev_BtAcceptInterrupt, interrupt_listener)}"
    for fd t
    using that event_fd_encoded [of 0 control_fd monitor_fd control_listener interrupt_listener d t]
    by (auto simp: routed_def)
  have "list_all (routed ?ls d) reg"
    by (intro add_controllers_routed [OF r(6)] add_ports_routed [OF r(5)] assms(2,3) add_epoll_routed [OF r(4)]
        add_epoll_routed [OF r(3)] add_epoll_routed [OF r(2)] add_epoll_routed [OF r(1)] base) simp_all
  with assms(4) show ?thesis by (auto simp: list_all_iff routed_def)
qed

theorem epoll_events_routed_witness:
  "event_fd (3, 4, 5, 6) (bench_daemon []) (decode_event (encode_event Ev_Port 1)) = Some 7"
proof -
  have "rebuild_epoll 3 4 5 6 (bench_daemon []) =
      Inr [(3, encode_event Ev_Control 0), (4, encode_event Ev_Udev 0), (5, encode_event Ev_BtAcceptControl 0),
           (6, encode_event Ev_BtAcceptInterrupt 0), (7, encode_event Ev_Port 0), (7, encode_event Ev_Port 1)]"
    by (simp add: rebuild_epoll_def add_epoll_fd_def add_ports_def add_controllers_def bench_daemon_def)
  from epoll_events_routed [OF this, of 7 "encode_event Ev_Port 1"] show ?thesis by (simp add: bench_daemon_def)
qed

section \<open>The wait\<close>

definition audio_due :: "('e, 'd) LinuxVirtualPort list \<Rightarrow> ControllerRuntime \<Rightarrow> int option" where
  "audio_due ports c =
     (if cr_backend c = None then None
      else case find_port_index ports (cr_device c) of None \<Rightarrow> None
        | Some i \<Rightarrow> if pending_audio_chunks (ports ! i) = [] then None else Some (next_haptics_send_time (ports ! i)))"

lemma ceil_ms: "(now :: int) < due \<Longrightarrow>
    0 < - ((now - due) div 1000000) \<and> - ((now - due) div 1000000) * 1000000 < due - now + 1000000"
  using div_mult_mod_eq [of "now - due" 1000000] pos_mod_bound [of 1000000 "now - due"] pos_mod_sign [of 1000000 "now - due"]
  by linarith

lemma wakeup_loop_bounds:
  "0 \<le> timeout \<Longrightarrow> 0 \<le> wakeup_loop ports now cs timeout \<and> wakeup_loop ports now cs timeout \<le> timeout \<and>
    (\<forall>c \<in> set cs. \<forall>next. audio_due ports c = Some next \<longrightarrow>
       wakeup_loop ports now cs timeout * 1000000 < max 0 (next - now) + 1000000)"
proof (induction cs arbitrary: timeout)
  case (Cons c cs)
  show ?case
  proof (cases "audio_due ports c")
    case None
    then have "wakeup_loop ports now (c # cs) timeout = wakeup_loop ports now cs timeout"
      by (auto simp: audio_due_def Let_def split: option.splits if_splits)
    with Cons None show ?thesis by auto
  next
    case (Some due)
    then have step: "wakeup_loop ports now (c # cs) timeout = (if due = 0 \<or> due \<le> now then 0
        else wakeup_loop ports now cs (min timeout (- ((now - due) div 1000000))))"
      by (auto simp: audio_due_def Let_def split: option.splits if_splits)
    show ?thesis
    proof (cases "due = 0 \<or> due \<le> now")
      case True
      with step have "wakeup_loop ports now (c # cs) timeout = 0" by simp
      moreover have "0 < max 0 x + (1000000 :: int)" for x by simp
      ultimately show ?thesis using Cons.prems by (simp del: wakeup_loop.simps)
    next
      case False
      then have w: "wakeup_loop ports now (c # cs) timeout =
          wakeup_loop ports now cs (min timeout (- ((now - due) div 1000000)))" using step by simp
      let ?t = "min timeout (- ((now - due) div 1000000))"
      have ms: "0 < - ((now - due) div 1000000)" "- ((now - due) div 1000000) * 1000000 < due - now + 1000000"
        using False ceil_ms [of now due] by auto
      with Cons.prems have "0 \<le> ?t" by simp
      from Cons.IH [OF this] have ih: "0 \<le> wakeup_loop ports now cs ?t" "wakeup_loop ports now cs ?t \<le> ?t"
        "\<forall>c \<in> set cs. \<forall>next. audio_due ports c = Some next \<longrightarrow> wakeup_loop ports now cs ?t * 1000000 < max 0 (next - now) + 1000000"
        by blast+
      then have "wakeup_loop ports now cs ?t * 1000000 < max 0 (due - now) + 1000000" using ms by linarith
      with ih Some show ?thesis unfolding w by simp
    qed
  qed
qed simp

text \<open>
  The wait of the main loop is between 0 and 60000 ms, at most 2 ms while any output is
  pending, and never more than the milliseconds until the next audio packet of any connected
  controller is due, rounded up: the daemon wakes less than 1 ms late.
\<close>

theorem wakeup_timeout_bounds:
  "0 \<le> next_wakeup_timeout_ms now d \<and> next_wakeup_timeout_ms now d \<le> 60000 \<and>
   (has_pending_bt_output d \<longrightarrow> next_wakeup_timeout_ms now d \<le> 2) \<and>
   (\<forall>c \<in> set (dm_controllers d). \<forall>next. audio_due (dm_ports d) c = Some next \<longrightarrow>
      next_wakeup_timeout_ms now d * 1000000 < max 0 (next - now) + 1000000)"
proof -
  let ?t = "if has_pending_bt_output d then min 60000 kPendingOutputPollMs else 60000"
  have t: "0 \<le> ?t" "?t \<le> 60000" "has_pending_bt_output d \<Longrightarrow> ?t = 2"
    by (simp_all add: kPendingOutputPollMs_def)
  show ?thesis
    using wakeup_loop_bounds [OF t(1), of "dm_ports d" now "dm_controllers d"] t(2,3)
    unfolding next_wakeup_timeout_ms_def by force
qed

definition busy_daemon :: "(unit, unit) daemon" where
  "busy_daemon = (bench_daemon [(waiting ''a'' ''/dev/vds0'')\<lparr>cr_backend := Some (bench_backend [] [])\<rparr>])
     \<lparr>dm_ports := [(bench_port ''/dev/vds0'')\<lparr>pending_audio_chunks := [\<lparr>ch_haptics = [], ch_speaker = [], has_signal = True, has_haptics_signal = True\<rparr>], next_haptics_send_time := 1500000\<rparr>]\<rparr>"

theorem wakeup_timeout_bounds_witness:
  "next_wakeup_timeout_ms 1000000 busy_daemon \<le> 2 \<and> next_wakeup_timeout_ms 1000000 busy_daemon * 1000000 < 1500000"
proof -
  have "has_pending_bt_output busy_daemon"
    by (simp add: has_pending_bt_output_def busy_daemon_def bench_daemon_def waiting_def find_port_index_def)
  moreover have "audio_due (dm_ports busy_daemon) (dm_controllers busy_daemon ! 0) = Some 1500000" "dm_controllers busy_daemon ! 0 \<in> set (dm_controllers busy_daemon)"
    by (simp_all add: audio_due_def busy_daemon_def bench_daemon_def waiting_def find_port_index_def)
  ultimately show ?thesis using wakeup_timeout_bounds [of 1000000 busy_daemon] by fastforce
qed

section \<open>Reload\<close>

definition keep_present :: "string list \<Rightarrow> ControllerRuntime \<Rightarrow> ControllerRuntime" where
  "keep_present devices c = (if controller_uses_port c \<and> cr_device c \<notin> set devices then release c else c)"

lemma lose_device_effect:
  assumes "k < length (dm_controllers d)"
  shows "dm_controllers (lose_device devices k d) = (dm_controllers d)[k := keep_present devices (dm_controllers d ! k)]"
    "map vp_path (dm_ports (lose_device devices k d)) = map vp_path (dm_ports d)"
  by (auto simp: lose_device_def keep_present_def Let_def)

lemma lose_devices_effect:
  assumes "n \<le> length (dm_controllers d)"
  shows "dm_controllers (fold (lose_device devices) [0..<n] d) =
      map (keep_present devices) (take n (dm_controllers d)) @ drop n (dm_controllers d) \<and>
    map vp_path (dm_ports (fold (lose_device devices) [0..<n] d)) = map vp_path (dm_ports d)"
  using assms
proof (induction n)
  case (Suc n)
  let ?d = "fold (lose_device devices) [0..<n] d"
  from Suc have cs: "dm_controllers ?d = map (keep_present devices) (take n (dm_controllers d)) @ drop n (dm_controllers d)"
    and ports: "map vp_path (dm_ports ?d) = map vp_path (dm_ports d)" by simp_all
  have n: "n < length (dm_controllers ?d)" "dm_controllers ?d ! n = dm_controllers d ! n"
    using Suc.prems by (simp_all add: cs nth_append)
  have "(dm_controllers ?d)[n := x] = map (keep_present devices) (take n (dm_controllers d)) @ x # drop (Suc n) (dm_controllers d)" for x
    using Suc.prems by (simp add: cs list_update_append Cons_nth_drop_Suc [symmetric])
  then show ?case
    using lose_device_effect [OF n(1), of devices] n(2) ports Suc.prems by (simp add: take_Suc_conv_app_nth)
qed simp

lemma sync_loop_paths:
  "sync_loop cd open_fd devices ports updated = (Inr new, left) \<Longrightarrow> map vp_path new = map vp_path updated @ devices"
  by (induction devices arbitrary: ports updated)
    (auto simp: open_port_def res_bind_def opened_port_def split: option.splits sum.splits dest!: find_port_bound)

lemma reconcile_cases:
  assumes "reconcile_controller_configs cd open_fd devices db d = (Inr (), d')"
  obtains db' d1 where "db = Inr db'" "d' = hand_over (controllers db') d1"
    "dm_controllers d1 = map (keep_present devices) (dm_controllers d)" "map vp_path (dm_ports d1) = devices"
proof -
  let ?d0 = "fold (lose_device devices) [0..<length (dm_controllers d)] d"
  obtain d1 db' where sync: "sync_virtual_ports cd open_fd devices ?d0 = (Inr (), d1)" and db: "db = Inr db'"
    and d': "d' = hand_over (controllers db') d1"
    using assms unfolding reconcile_controller_configs_def
    by (cases db) (auto elim!: act_seq_InrE)
  from sync obtain new left where "sync_loop cd open_fd devices (dm_ports ?d0) [] = (Inr new, left)"
    and d1: "d1 = ?d0\<lparr>dm_ports := new\<rparr>"
    by (auto simp: sync_virtual_ports_def split: prod.splits sum.splits)
  then have "map vp_path (dm_ports d1) = devices" using sync_loop_paths [of cd open_fd devices "dm_ports ?d0" "[]" new left] by simp
  moreover have "dm_controllers d1 = map (keep_present devices) (dm_controllers d)"
    using lose_devices_effect [of "length (dm_controllers d)" d devices] by (simp add: d1)
  ultimately show ?thesis using that db d' by blast
qed

lemma find_port_present: "map vp_path ports = devices \<Longrightarrow> find_port_index ports device \<noteq> None \<longleftrightarrow> device \<in> set devices"
  by (auto simp: find_port_index_def find_None_iff in_set_conv_nth)

definition placed :: "string list \<Rightarrow> ('e, 'd) handover \<Rightarrow> bool" where
  "placed devices h \<longleftrightarrow> map vp_path (ho_ports h) = devices \<and> distinct (ho_active_devices h) \<and>
     map cr_device (filter controller_uses_port (ho_next h)) = ho_active_devices h \<and>
     list_all (\<lambda>c. controller_uses_port c \<longrightarrow> cr_device c \<in> set devices \<and>
       controller_config_allows_path Linux (cr_config c) (cr_device c)) (ho_next h)"

lemma next_unused: "\<not> controller_uses_port ((new_controller config)\<lparr>cr_detected_profile := p, cr_last_error := e\<rparr>)"
  by (simp add: new_controller_def controller_uses_port_def)

lemma adopt_cases:
  assumes "map vp_path (ho_ports h) = devices" and "old = ho_old h ! j"
  obtains
    (kept) "controller_uses_port old" "cr_device old \<noteq> []" "cr_device old \<in> set devices"
      "controller_config_allows_path Linux config (cr_device old)" "cr_device old \<notin> set (ho_active_devices h)"
      "adopt j config h = h\<lparr>ho_preserved := (ho_preserved h)[j := True],
         ho_active_devices := ho_active_devices h @ [cr_device old], ho_next := ho_next h @ [old\<lparr>cr_config := config\<rparr>]\<rparr>"
  | (fresh) ports c where "controller_uses_port old \<Longrightarrow> cr_device old \<noteq> [] \<Longrightarrow> cr_device old \<in> set devices \<Longrightarrow>
        controller_config_allows_path Linux config (cr_device old) \<Longrightarrow> cr_device old \<in> set (ho_active_devices h)"
      "map vp_path ports = devices" "\<not> controller_uses_port c" "cr_config c = config"
      "adopt j config h = h\<lparr>ho_preserved := (ho_preserved h)[j := True], ho_ports := ports, ho_next := ho_next h @ [c]\<rparr>"
proof -
  let ?present = "cr_device old \<noteq> [] \<and> find_port_index (ho_ports h) (cr_device old) \<noteq> None"
  let ?available = "(?present \<and> controller_config_allows_path Linux config (cr_device old)) \<and> cr_device old \<notin> set (ho_active_devices h)"
  let ?next = "(new_controller config)\<lparr>cr_detected_profile := cr_detected_profile old, cr_last_error := cr_last_error old\<rparr>"
  note found = find_port_present [OF assms(1)]
  show ?thesis
  proof (cases "controller_uses_port old \<and> ?available")
    case True
    have "?next\<lparr>cr_device := cr_device old, cr_backend := cr_backend old, cr_pending_control_fd := cr_pending_control_fd old,
        cr_pending_interrupt_fd := cr_pending_interrupt_fd old, cr_virtual_connected := cr_virtual_connected old\<rparr>
      = old\<lparr>cr_config := config\<rparr>"
      by (simp add: new_controller_def)
    with True kept found show ?thesis by (simp add: adopt_def Let_def assms(2) [symmetric])
  next
    case False
    let ?ports = "if controller_uses_port old \<and> cr_virtual_connected old \<and> ?present
      then disconnect_at (cr_device old) (ho_ports h) else ho_ports h"
    have "adopt j config h = h\<lparr>ho_preserved := (ho_preserved h)[j := True], ho_ports := ?ports, ho_next := ho_next h @ [?next]\<rparr>"
      unfolding adopt_def Let_def assms(2) [symmetric] using False by (simp only: if_False)
    moreover have "map vp_path ?ports = devices" using assms(1) by simp
    moreover have "cr_config ?next = config" by (simp add: new_controller_def)
    ultimately show ?thesis using fresh [of ?ports ?next] False found next_unused by blast
  qed
qed

lemma uses_config [simp]: "controller_uses_port (c\<lparr>cr_config := config\<rparr>) = controller_uses_port c"
  by (simp add: controller_uses_port_def)

lemma adopt_placed:
  assumes "placed devices h"
  shows "placed devices (adopt j config h)"
proof -
  from assms have ports: "map vp_path (ho_ports h) = devices" by (simp add: placed_def)
  show ?thesis
    by (cases rule: adopt_cases [OF ports refl, of j config]) (use assms in \<open>auto simp: placed_def\<close>)
qed

lemma take_over_placed: "placed devices h \<Longrightarrow> placed devices (take_over config h)"
  by (auto simp: take_over_def adopt_placed split: option.splits) (simp add: placed_def)

lemma take_over_next: "\<exists>c. cr_config c = config \<and> ho_next (take_over config h) = ho_next h @ [c]"
  by (auto simp: take_over_def adopt_def Let_def new_controller_def split: option.splits)

lemma take_overs_placed:
  "placed devices h \<Longrightarrow> placed devices (fold take_over configs h) \<and>
   map cr_config (ho_next (fold take_over configs h)) = map cr_config (ho_next h) @ configs"
proof (induction configs arbitrary: h)
  case (Cons config configs)
  obtain c where "cr_config c = config" "ho_next (take_over config h) = ho_next h @ [c]"
    using take_over_next by blast
  with Cons.IH [OF take_over_placed [OF Cons.prems]] show ?case by simp
qed simp

lemma leave_behind_effect [simp]:
  "ho_next (leave_behind j h) = ho_next h" "ho_old (leave_behind j h) = ho_old h"
  "ho_active_devices (leave_behind j h) = ho_active_devices h"
  "map vp_path (ho_ports (leave_behind j h)) = map vp_path (ho_ports h)"
  by (simp_all add: leave_behind_def)

lemma leave_behinds_effect [simp]:
  "ho_next (fold leave_behind js h) = ho_next h"
  "map vp_path (ho_ports (fold leave_behind js h)) = map vp_path (ho_ports h)"
  by (induction js arbitrary: h) simp_all

text \<open>
  C14. A reload that returns, from any state of the daemon, leaves exactly the controllers of the
  database in their order and exactly one port per device present, and every controller that uses
  a port uses one that is present, that its configuration allows, and that no other controller uses.
\<close>

theorem reload_establishes:
  assumes "reconcile_controller_configs cd open_fd devices db d = (Inr (), d')"
  shows "\<exists>db'. db = Inr db' \<and> map cr_config (dm_controllers d') = controllers db' \<and>
    map vp_path (dm_ports d') = devices \<and>
    distinct (map cr_device (filter controller_uses_port (dm_controllers d'))) \<and>
    (\<forall>c \<in> set (dm_controllers d'). controller_uses_port c \<longrightarrow>
       cr_device c \<in> set devices \<and> controller_config_allows_path Linux (cr_config c) (cr_device c))"
proof -
  from assms obtain db' d1 where r: "db = Inr db'" "d' = hand_over (controllers db') d1"
    "dm_controllers d1 = map (keep_present devices) (dm_controllers d)" "map vp_path (dm_ports d1) = devices"
    by (rule reconcile_cases)
  let ?h0 = "\<lparr>ho_old = dm_controllers d1, ho_preserved = replicate (length (dm_controllers d1)) False,
    ho_active_devices = [], ho_ports = dm_ports d1, ho_next = []\<rparr>"
  have "placed devices ?h0" using r(4) by (simp add: placed_def)
  from take_overs_placed [OF this, of "controllers db'"] r(1) show ?thesis
    by (simp add: r(2) hand_over_def Let_def placed_def list_all_iff)
qed

abbreviation both_waiting :: "(unit, unit) daemon" where
  "both_waiting \<equiv> bench_daemon [waiting ''a'' ''/dev/vds0'', waiting ''b'' ''/dev/vds1'']"

abbreviation bench_db :: ConfigDb where
  "bench_db \<equiv> \<lparr>controllers = [pad ''a'', pad ''b'']\<rparr>"

lemma bench_unplug: "\<exists>d'. reconcile_controller_configs silent_codec bench_open [''/dev/vds0''] (Inr bench_db) both_waiting = (Inr (), d')"
  by (simp add: reconcile_controller_configs_def act_seq_def act_bind_def sync_virtual_ports_def bench_daemon_def
      lose_device_def waiting_def new_controller_def controller_uses_port_def find_port_index_def disconnect_at_def put_controller_def)

theorem reload_establishes_witness:
  "\<exists>d'. reconcile_controller_configs silent_codec bench_open [''/dev/vds0''] (Inr bench_db) both_waiting = (Inr (), d') \<and>
     map cr_config (dm_controllers d') = [pad ''a'', pad ''b''] \<and> map vp_path (dm_ports d') = [''/dev/vds0'']"
  using bench_unplug reload_establishes [of silent_codec bench_open "[''/dev/vds0'']" "Inr bench_db" both_waiting] by auto

subsection \<open>Connections survive a reload\<close>

text \<open>After the configurations \<open>pre\<close>: which old controllers were taken over, and whose devices are in use.\<close>

definition taken_by :: "string list \<Rightarrow> ControllerRuntime list \<Rightarrow> ControllerConfig list \<Rightarrow> ('e, 'd) handover \<Rightarrow> bool" where
  "taken_by devices old pre h \<longleftrightarrow> ho_old h = old \<and> length (ho_preserved h) = length old \<and>
     map vp_path (ho_ports h) = devices \<and>
     (\<forall>j < length old. ho_preserved h ! j \<longrightarrow> cfg_address (cr_config (old ! j)) \<in> cfg_address ` set pre) \<and>
     set (ho_active_devices h) \<subseteq> {cr_device (old ! j) |j. j < length old \<and> ho_preserved h ! j \<and> controller_uses_port (old ! j)}"

lemma adopt_taken:
  assumes "taken_by devices old pre h" "j < length old" "cfg_address (cr_config (old ! j)) = cfg_address config"
  shows "taken_by devices old (pre @ [config]) (adopt j config h)"
proof -
  from assms(1) have ports: "map vp_path (ho_ports h) = devices" and old: "old ! j = ho_old h ! j"
    by (simp_all add: taken_by_def)
  show ?thesis
    by (cases rule: adopt_cases [OF ports old, of config])
      (use assms in \<open>auto simp: taken_by_def nth_list_update subset_iff split: if_splits\<close>)
qed

lemma take_over_taken:
  assumes "taken_by devices old pre h"
  shows "taken_by devices old (pre @ [config]) (take_over config h)"
proof (cases "find (\<lambda>j. \<not> ho_preserved h ! j \<and> cfg_address (cr_config (ho_old h ! j)) = cfg_address config \<and>
                   cfg_profile (cr_config (ho_old h ! j)) = cfg_profile config) [0..<length (ho_old h)]")
  case None
  with assms show ?thesis by (auto simp: take_over_def taken_by_def)
next
  case (Some j)
  from find_index [OF this] assms have "j < length old" "cfg_address (cr_config (old ! j)) = cfg_address config"
    by (simp_all add: taken_by_def)
  with adopt_taken [OF assms] Some show ?thesis by (simp add: take_over_def)
qed

lemma take_overs_taken:
  "taken_by devices old pre h \<Longrightarrow> taken_by devices old (pre @ configs) (fold take_over configs h)"
proof (induction configs arbitrary: pre h)
  case (Cons config configs)
  from Cons.IH [OF take_over_taken [OF Cons.prems]] show ?case by simp
qed simp

lemma take_overs_append: "set (ho_next h) \<subseteq> set (ho_next (fold take_over configs h))"
proof (induction configs arbitrary: h)
  case (Cons config configs)
  obtain c where "ho_next (take_over config h) = ho_next h @ [c]" using take_over_next by blast
  with Cons.IH [of "take_over config h"] show ?case by auto
qed simp

lemma exclusive_devices:
  assumes "exclusive cs" "j < length cs" "k < length cs" "j \<noteq> k" "controller_uses_port (cs ! j)" "controller_uses_port (cs ! k)"
  shows "cr_device (cs ! j) \<noteq> cr_device (cs ! k)"
proof -
  have "cs ! j \<in> set (others cs k)" using assms(2,4) by (auto simp: others_def)
  with exclusive_at [OF assms(3), of "cs ! k"] assms show ?thesis by (auto simp: port_used_by_other_controller_def)
qed

lemma take_over_kept:
  assumes taken: "taken_by devices old pre h" and excl: "exclusive old" and addr: "distinct (map (\<lambda>c. cfg_address (cr_config c)) old)"
    and j: "j < length old" "cfg_address (cr_config (old ! j)) = cfg_address config" "cfg_profile (cr_config (old ! j)) = cfg_profile config"
    and new: "cfg_address config \<notin> cfg_address ` set pre"
    and use: "controller_uses_port (old ! j)" "cr_device (old ! j) \<noteq> []" "cr_device (old ! j) \<in> set devices"
      "controller_config_allows_path Linux config (cr_device (old ! j))"
  shows "(old ! j)\<lparr>cr_config := config\<rparr> \<in> set (ho_next (take_over config h))"
proof -
  let ?P = "\<lambda>j. \<not> ho_preserved h ! j \<and> cfg_address (cr_config (ho_old h ! j)) = cfg_address config \<and>
                   cfg_profile (cr_config (ho_old h ! j)) = cfg_profile config"
  have h: "ho_old h = old" "map vp_path (ho_ports h) = devices" using taken by (simp_all add: taken_by_def)
  have free: "\<not> ho_preserved h ! j" using taken j(1,2) new unfolding taken_by_def by metis
  then have "find ?P [0..<length old] \<noteq> None" using j h by (auto simp: find_None_iff)
  then obtain k where k: "find ?P [0..<length old] = Some k" by blast
  from find_index [OF k] j h have "k < length old" "cfg_address (cr_config (old ! k)) = cfg_address (cr_config (old ! j))"
    by simp_all
  with addr j(1) have "k = j" by (simp add: distinct_conv_nth) metis
  moreover have "cr_device (old ! j) \<notin> set (ho_active_devices h)"
  proof
    assume "cr_device (old ! j) \<in> set (ho_active_devices h)"
    with taken obtain m where "cr_device (old ! j) = cr_device (old ! m)" "m < length old" "ho_preserved h ! m"
      "controller_uses_port (old ! m)" unfolding taken_by_def by blast
    with exclusive_devices [OF excl _ j(1) _ _ use(1), of m] free show False by auto
  qed
  ultimately show ?thesis
    using k use by (cases rule: adopt_cases [OF h(2), of "old ! j" j config]) (auto simp: h take_over_def)
qed

lemma exclusive_present: "exclusive cs \<Longrightarrow> exclusive (map (keep_present devices) cs)"
proof -
  assume "exclusive cs"
  moreover have "map cr_device (filter controller_uses_port (map (keep_present devices) cs)) =
      map cr_device (filter (\<lambda>c. controller_uses_port c \<and> cr_device c \<in> set devices) cs)"
    by (induction cs) (auto simp: keep_present_def)
  ultimately show ?thesis by (auto simp: exclusive_def intro: distinct_map_filter_mono)
qed

text \<open>
  C15. A reload does not disturb a controller that stays configured: if its address and profile are
  in the new database, its port is still present and still allowed, it comes out of the reload with
  its port, backend, half-open channels and connection, and only its configuration replaced.
\<close>

theorem reload_keeps_connections:
  assumes run: "reconcile_controller_configs cd open_fd devices (Inr db) d = (Inr (), d')"
    and old: "exclusive (dm_controllers d)" "distinct (map (\<lambda>c. cfg_address (cr_config c)) (dm_controllers d))"
    and new: "distinct (map cfg_address (controllers db))" "config \<in> set (controllers db)"
    and c: "c \<in> set (dm_controllers d)" "controller_uses_port c" "cr_device c \<noteq> []" "cr_device c \<in> set devices"
    and same: "cfg_address config = cfg_address (cr_config c)" "cfg_profile config = cfg_profile (cr_config c)"
    and allowed: "controller_config_allows_path Linux config (cr_device c)"
  shows "c\<lparr>cr_config := config\<rparr> \<in> set (dm_controllers d')"
proof -
  from run obtain d1 where d': "d' = hand_over (controllers db) d1" and ports: "map vp_path (dm_ports d1) = devices"
    and cs1: "dm_controllers d1 = map (keep_present devices) (dm_controllers d)"
    by (rule reconcile_cases) auto
  define cs where "cs = dm_controllers d1"
  obtain k where k: "k < length (dm_controllers d)" "dm_controllers d ! k = c" using c(1) by (auto simp: in_set_conv_nth)
  have csk: "k < length cs" "cs ! k = c" using k c(4) by (simp_all add: cs_def cs1 keep_present_def)
  have addr: "distinct (map (\<lambda>c. cfg_address (cr_config c)) cs)"
    using old(2) by (simp add: cs_def cs1 comp_def keep_present_def if_distrib cong: if_cong)
  from new(2) obtain pre post where split: "controllers db = pre @ config # post" by (meson split_list)
  let ?h0 = "\<lparr>ho_old = cs, ho_preserved = replicate (length cs) False, ho_active_devices = [],
    ho_ports = dm_ports d1, ho_next = []\<rparr>"
  have "taken_by devices cs [] ?h0" using ports by (simp add: taken_by_def)
  from take_overs_taken [OF this, of pre] have taken: "taken_by devices cs pre (fold take_over pre ?h0)" by simp
  have "(cs ! k)\<lparr>cr_config := config\<rparr> \<in> set (ho_next (take_over config (fold take_over pre ?h0)))"
    by (rule take_over_kept [OF taken _ addr csk(1)])
      (use csk same c allowed new(1) old(1) split exclusive_present in \<open>auto simp: cs_def cs1\<close>)
  then have "c\<lparr>cr_config := config\<rparr> \<in> set (ho_next (fold take_over (controllers db) ?h0))"
    using take_overs_append [of "take_over config (fold take_over pre ?h0)" post] by (auto simp: split csk(2))
  then show ?thesis by (simp add: d' hand_over_def Let_def cs_def)
qed

theorem reload_keeps_connections_witness:
  "\<exists>d'. reconcile_controller_configs silent_codec bench_open [''/dev/vds0''] (Inr bench_db) both_waiting = (Inr (), d') \<and>
     waiting ''a'' ''/dev/vds0'' \<in> set (dm_controllers d')"
proof -
  obtain d' where run: "reconcile_controller_configs silent_codec bench_open [''/dev/vds0''] (Inr bench_db) both_waiting = (Inr (), d')"
    using bench_unplug by blast
  have "(waiting ''a'' ''/dev/vds0'')\<lparr>cr_config := pad ''a''\<rparr> \<in> set (dm_controllers d')"
    by (rule reload_keeps_connections [OF run])
      (simp_all add: bench_daemon_def exclusive_def waiting_def new_controller_def controller_uses_port_def pad_def
        controller_config_allows_path_def controller_config_allows_port_def)
  moreover have "(waiting ''a'' ''/dev/vds0'')\<lparr>cr_config := pad ''a''\<rparr> = waiting ''a'' ''/dev/vds0''"
    by (simp add: waiting_def new_controller_def)
  ultimately show ?thesis using run by auto
qed

subsection \<open>A reload that fails half-way\<close>

abbreviation bad_descriptor :: exn where
  "bad_descriptor \<equiv> Runtime_error ''epoll add failed: Bad file descriptor''"

lemma add_epoll_fails: "add_epoll_fd fd t i reg = Inl e \<Longrightarrow> e = bad_descriptor"
  by (simp add: add_epoll_fd_def split: if_splits)

lemma add_ports_closed:
  assumes "i < length ports" "ch_fd (vp_fd (ports ! i)) < 0"
  shows "add_ports ports reg = Inl bad_descriptor"
proof -
  let ?step = "\<lambda>r i. res_bind r (add_epoll_fd (ch_fd (vp_fd (ports ! i))) Ev_Port i)"
  have stuck: "foldl ?step (Inl e) xs = Inl e" for e xs by (induction xs) simp_all
  have "i \<in> set xs \<Longrightarrow> foldl ?step (Inr reg) xs = Inl bad_descriptor" for xs reg
  proof (induction xs arbitrary: reg)
    case (Cons x xs)
    show ?case
    proof (cases "ch_fd (vp_fd (ports ! x)) < 0")
      case True
      then have "?step (Inr reg) x = Inl bad_descriptor" by (simp add: add_epoll_fd_def)
      with stuck show ?thesis by simp
    next
      case False
      then obtain reg' where "?step (Inr reg) x = Inr reg'" by (simp add: add_epoll_fd_def)
      with Cons False assms(2) show ?thesis by auto
    qed
  qed simp
  then show ?thesis using assms(1) by (simp add: add_ports_def)
qed

lemma rebuild_closed:
  assumes "i < length (dm_ports d)" "ch_fd (vp_fd (dm_ports d ! i)) < 0"
  shows "rebuild_epoll control_fd monitor_fd control_listener interrupt_listener d = Inl bad_descriptor"
  using add_ports_closed [OF assms]
  by (auto simp: rebuild_epoll_def res_bind_def split: sum.splits dest: add_epoll_fails)

lemma find_port_paths: "map vp_path ps = map vp_path qs \<Longrightarrow> find_port_index ps path = find_port_index qs path"
proof -
  assume paths: "map vp_path ps = map vp_path qs"
  then have "length ps = length qs" by (rule map_eq_imp_length_eq)
  moreover have "vp_path (ps ! i) = vp_path (qs ! i)" if "i < length qs" for i
    using that paths calculation by (metis nth_map)
  ultimately show ?thesis
    unfolding find_port_index_def by (intro find_cong) auto
qed

lemma sync_half_way:
  assumes "find_port_index ports known = Some i" "find_port_index ports new = None" "new \<noteq> []"
    "open_port cd open_fd new = Inl e"
  shows "sync_loop cd open_fd (known # new # rest) ports updated = (Inl e, ports[i := moved_from (ports ! i)])"
proof -
  have "find_port_index (ports[i := moved_from (ports ! i)]) new = None"
    using assms(2,3) find_port_bound [OF assms(1)]
    by (auto simp: find_port_index_def find_None_iff nth_list_update moved_from_def)
  with assms show ?thesis by simp
qed

text \<open>
  When a device appears that cannot be opened, the reload that its udev event causes does not
  only fail and get logged, as the handler intends: the ports served so far have already been moved
  out of the vector, so the epoll set is rebuilt with a closed descriptor and the daemon exits.
\<close>

theorem failed_reload_ends_daemon:
  assumes "dm_reload_requested (ms_daemon s)" "dm_epoll_dirty (ms_daemon s)"
    "tn_devices tn = known # new # rest" "find_port_index (dm_ports (ms_daemon s)) known \<noteq> None"
    "find_port_index (dm_ports (ms_daemon s)) new = None" "new \<noteq> []" "open_port cd (tn_open tn) new = Inl e"
  shows "\<exists>s'. main_turn cd wave tn s = (Inl bad_descriptor, s')"
proof -
  let ?d = "ms_daemon s"
  define d0 where "d0 = fold (lose_device (tn_devices tn)) [0..<length (dm_controllers ?d)] ?d"
  have paths: "map vp_path (dm_ports d0) = map vp_path (dm_ports ?d)"
    using lose_devices_effect [of "length (dm_controllers ?d)" ?d "tn_devices tn"] by (simp add: d0_def)
  obtain i where i: "find_port_index (dm_ports d0) known = Some i"
    using assms(4) find_port_paths [OF paths, of known] by auto
  have "find_port_index (dm_ports d0) new = None" using assms(5) find_port_paths [OF paths, of new] by simp
  from sync_half_way [OF i this assms(6,7)]
  have "sync_virtual_ports cd (tn_open tn) (tn_devices tn) d0 = (Inl e, d0\<lparr>dm_ports := (dm_ports d0)[i := moved_from (dm_ports d0 ! i)]\<rparr>)"
    by (simp add: sync_virtual_ports_def assms(3))
  then have "reconcile_controller_configs cd (tn_open tn) (tn_devices tn) (tn_db tn) ?d =
      (Inl e, d0\<lparr>dm_ports := (dm_ports d0)[i := moved_from (dm_ports d0 ! i)]\<rparr>)"
    by (simp add: reconcile_controller_configs_def d0_def [symmetric] act_seq_def act_bind_def)
  then have reload: "reload_if_requested cd tn ?d =
      (Inr (), d0\<lparr>dm_ports := (dm_ports d0)[i := moved_from (dm_ports d0 ! i)], dm_reload_requested := False\<rparr>)"
    using assms(1) by (simp add: reload_if_requested_def act_seq_def act_bind_def catch_def)
  have "dm_epoll_dirty d \<Longrightarrow> dm_epoll_dirty (fold (lose_device devices) ks d)" for devices ks and d :: "('a, 'b) daemon"
    by (induction ks arbitrary: d) (simp_all add: lose_device_def Let_def put_controller_def)
  then have dirty: "dm_epoll_dirty d0" using assms(2) by (simp add: d0_def)
  from find_port_bound [OF i] have "ch_fd (vp_fd ((dm_ports d0)[i := moved_from (dm_ports d0 ! i)] ! i)) < 0"
    by (simp add: moved_from_def closed_channel_def)
  with reload dirty find_port_bound [OF i] show ?thesis
    by (auto simp: main_turn_def on_daemon_def on_part_def act_seq_def act_bind_def refresh_epoll_def
        rebuild_closed [of i] split: prod.splits)
qed

theorem failed_reload_ends_daemon_witness:
  "\<exists>s'. main_turn silent_codec (\<lambda>_. 0) (bench_turn [''/dev/vds0'', ''/dev/vds3''] [])
     \<lparr>ms_daemon = both_waiting\<lparr>dm_reload_requested := True, dm_epoll_dirty := True\<rparr>, ms_epoll = None\<rparr> = (Inl bad_descriptor, s')"
  by (rule failed_reload_ends_daemon [where known = "''/dev/vds0''" and new = "''/dev/vds3''" and rest = "[]"])
    (simp_all add: bench_turn_def bench_daemon_def find_port_index_def)

end
