(* ===== verification/HcdUsb.thy ===== *)
theory HcdUsb
  imports UsbDescriptors Protocol Config
begin

text \<open>
  The USB device of the Linux kernel module (\<open>module/vds_usb_core.c\<close>, \<open>module/vds_controller.h\<close>,
  \<open>module/dualsense.c\<close>, \<open>module/dualsense_edge.c\<close>): its state, its descriptors and its answers to
  control requests. The callbacks of \<open>vds_usb_device_ops\<close> are a record of functions on a context.
  Results are the integers of the source, 0 or a negative errno; lengths are natural numbers (the
  buffers of the USB core are far below the 32 bits the source has).
\<close>

section \<open>Errors\<close>

definition ENOENT :: int where "ENOENT = 2"
definition EAGAIN :: int where "EAGAIN = 11"
definition ENOMEM :: int where "ENOMEM = 12"
definition EFAULT :: int where "EFAULT = 14"
definition EBUSY :: int where "EBUSY = 16"
definition EINVAL :: int where "EINVAL = 22"
definition ENOTTY :: int where "ENOTTY = 25"
definition ENOSPC :: int where "ENOSPC = 28"
definition EPIPE :: int where "EPIPE = 32"
definition EOVERFLOW :: int where "EOVERFLOW = 75"
definition EMSGSIZE :: int where "EMSGSIZE = 90"
definition EOPNOTSUPP :: int where "EOPNOTSUPP = 95"
definition ESHUTDOWN :: int where "ESHUTDOWN = 108"
definition EINPROGRESS :: int where "EINPROGRESS = 115"

lemmas errnos = ENOENT_def EAGAIN_def ENOMEM_def EFAULT_def EBUSY_def EINVAL_def ENOTTY_def ENOSPC_def EPIPE_def
  EOVERFLOW_def EMSGSIZE_def EOPNOTSUPP_def ESHUTDOWN_def EINPROGRESS_def

section \<open>Transfers\<close>

datatype pipe_type = PIPE_CONTROL | PIPE_INTERRUPT | PIPE_ISOCHRONOUS | PIPE_BULK

record iso_packet =
  ip_offset :: nat
  ip_length :: nat
  ip_actual_length :: nat
  ip_status :: int

text \<open>A \<open>struct urb\<close>; the buffer, when there is one, has \<open>transfer_buffer_length\<close> bytes.\<close>

record urb =
  u_pipe :: pipe_type
  u_dir_in :: bool
  u_endpoint :: int
  u_setup_packet :: "bytes option"
  u_transfer_buffer :: "bytes option"
  u_transfer_buffer_length :: nat
  u_actual_length :: nat
  u_iso_frame_desc :: "iso_packet list"
  u_error_count :: nat
  u_start_frame :: int

definition overlay :: "bytes \<Rightarrow> nat \<Rightarrow> bytes \<Rightarrow> bytes" where
  "overlay data offset buf = take offset buf @ data @ drop (offset + length data) buf"

record usb_ctrlrequest =
  bRequestType :: u8
  bRequest :: u8
  wValue :: u16
  wIndex :: u16
  wLength :: u16

definition parse_setup :: "bytes \<Rightarrow> usb_ctrlrequest" where
  "parse_setup b = \<lparr>bRequestType = b ! 0, bRequest = b ! 1, wValue = from_le16 (take 2 (drop 2 b)),
     wIndex = from_le16 (take 2 (drop 4 b)), wLength = from_le16 (take 2 (drop 6 b))\<rparr>"

section \<open>Profiles\<close>

definition VDS_CONTROLLER_HID_PACKET_SIZE :: nat where "VDS_CONTROLLER_HID_PACKET_SIZE = 64"
definition VDS_CONTROLLER_NO_AUDIO_FEATURE :: u8 where "VDS_CONTROLLER_NO_AUDIO_FEATURE = 0xff"
definition VDS_USB_NO_INTERFACE :: u8 where "VDS_USB_NO_INTERFACE = 0xff"
definition VDS_USB_NO_ENDPOINT :: u8 where "VDS_USB_NO_ENDPOINT = 0xff"

record vds_controller_profile =
  cp_profile :: u32
  cp_product_id :: u16
  cp_device_version :: u16
  cp_max_packet_size0 :: u8
  cp_num_configurations :: u8
  cp_configuration_value :: u8
  cp_manufacturer :: string
  cp_product :: string
  cp_configuration_descriptor :: bytes
  cp_hid_descriptor :: bytes
  cp_hid_report_descriptor :: bytes
  cp_audio_control_interface :: u8
  cp_audio_out_interface :: u8
  cp_audio_in_interface :: u8
  cp_hid_interface :: u8
  cp_audio_out_endpoint :: u8
  cp_audio_in_endpoint :: u8
  cp_hid_in_endpoint :: u8
  cp_hid_out_endpoint :: u8
  cp_hid_in_interval_us :: int
  cp_speaker_feature_unit :: u8
  cp_mic_feature_unit :: u8

text \<open>The device class, subclass and protocol are 0 in both profiles.\<close>

definition vds_dualsense_profile :: vds_controller_profile where
  "vds_dualsense_profile =
     \<lparr>cp_profile = VDS_PROFILE_DS5, cp_product_id = VDS_DS5_PRODUCT_ID, cp_device_version = VDS_USB_DEVICE_BCD,
      cp_max_packet_size0 = 64, cp_num_configurations = VDS_USB_NUM_CONFIGURATIONS,
      cp_configuration_value = VDS_USB_CONFIGURATION_VALUE, cp_manufacturer = VDS_USB_MANUFACTURER_STRING,
      cp_product = VDS_DS5_USB_PRODUCT_STRING, cp_configuration_descriptor = vds_ds5_usb_configuration_descriptor,
      cp_hid_descriptor = vds_ds5_usb_hid_descriptor, cp_hid_report_descriptor = vds_ds5_usb_hid_report_descriptor,
      cp_audio_control_interface = 0, cp_audio_out_interface = 1, cp_audio_in_interface = 2, cp_hid_interface = 3,
      cp_audio_out_endpoint = VDS_USB_AUDIO_OUT_ENDPOINT, cp_audio_in_endpoint = VDS_USB_AUDIO_IN_ENDPOINT,
      cp_hid_in_endpoint = VDS_USB_HID_IN_ENDPOINT, cp_hid_out_endpoint = VDS_USB_HID_OUT_ENDPOINT,
      cp_hid_in_interval_us = 4000, cp_speaker_feature_unit = 2, cp_mic_feature_unit = 5\<rparr>"

definition vds_dualsense_edge_profile :: vds_controller_profile where
  "vds_dualsense_edge_profile =
     \<lparr>cp_profile = VDS_PROFILE_DSE, cp_product_id = VDS_DSE_PRODUCT_ID, cp_device_version = VDS_USB_DEVICE_BCD,
      cp_max_packet_size0 = 64, cp_num_configurations = VDS_USB_NUM_CONFIGURATIONS,
      cp_configuration_value = VDS_USB_CONFIGURATION_VALUE, cp_manufacturer = VDS_USB_MANUFACTURER_STRING,
      cp_product = VDS_DSE_USB_PRODUCT_STRING, cp_configuration_descriptor = vds_dse_usb_configuration_descriptor,
      cp_hid_descriptor = vds_dse_usb_hid_descriptor, cp_hid_report_descriptor = vds_dse_usb_hid_report_descriptor,
      cp_audio_control_interface = 0, cp_audio_out_interface = 1, cp_audio_in_interface = 2, cp_hid_interface = 3,
      cp_audio_out_endpoint = VDS_USB_AUDIO_OUT_ENDPOINT, cp_audio_in_endpoint = VDS_USB_AUDIO_IN_ENDPOINT,
      cp_hid_in_endpoint = VDS_USB_HID_IN_ENDPOINT, cp_hid_out_endpoint = VDS_USB_HID_OUT_ENDPOINT,
      cp_hid_in_interval_us = 1000, cp_speaker_feature_unit = 2, cp_mic_feature_unit = 5\<rparr>"

definition vds_usb_valid_profile :: "u32 \<Rightarrow> bool" where
  "vds_usb_valid_profile profile \<longleftrightarrow> profile = VDS_PROFILE_DS5 \<or> profile = VDS_PROFILE_DSE"

definition vds_usb_controller_profile_for_profile :: "u32 \<Rightarrow> vds_controller_profile" where
  "vds_usb_controller_profile_for_profile profile =
     (if profile = VDS_PROFILE_DSE then vds_dualsense_edge_profile else vds_dualsense_profile)"

definition vds_controller_audio_feature_index :: "vds_controller_profile \<Rightarrow> u8 \<Rightarrow> nat option" where
  "vds_controller_audio_feature_index profile entity_id =
     (if entity_id = cp_speaker_feature_unit profile then Some 0
      else if cp_mic_feature_unit profile \<noteq> VDS_CONTROLLER_NO_AUDIO_FEATURE \<and> entity_id = cp_mic_feature_unit profile then Some 1
      else None)"

section \<open>The device\<close>

record vds_usb_device =
  ud_profile :: u32
  ud_address :: u8
  ud_configuration :: u8
  ud_audio_out_altsetting :: u8
  ud_audio_in_altsetting :: u8
  ud_hid_idle :: u8
  ud_hid_protocol :: u8
  ud_audio_mute :: bytes
  ud_audio_volume :: "u16 list"
  ud_feature_cache_len :: "nat list"
  ud_feature_cache :: "bytes list"

definition VDS_USB_SPK_VOLUME_MIN :: u16 where "VDS_USB_SPK_VOLUME_MIN = - 25600"
definition VDS_USB_SPK_VOLUME_MAX :: u16 where "VDS_USB_SPK_VOLUME_MAX = 0"
definition VDS_USB_SPK_VOLUME_RES :: u16 where "VDS_USB_SPK_VOLUME_RES = 0x0100"

definition vds_usb_reset_state_locked :: "vds_usb_device \<Rightarrow> vds_usb_device" where
  "vds_usb_reset_state_locked dev =
     dev\<lparr>ud_address := 0, ud_configuration := 0, ud_audio_out_altsetting := 0, ud_audio_in_altsetting := 0,
         ud_hid_idle := 0, ud_hid_protocol := 0, ud_audio_mute := [0, 0],
         ud_audio_volume := [VDS_USB_SPK_VOLUME_MIN, VDS_USB_SPK_VOLUME_MIN], ud_feature_cache_len := replicate 256 0\<rparr>"

definition vds_usb_device_init :: "u32 \<Rightarrow> vds_usb_device" where
  "vds_usb_device_init profile =
     vds_usb_reset_state_locked
       \<lparr>ud_profile = (if vds_usb_valid_profile profile then profile else VDS_PROFILE_DS5), ud_address = 0,
        ud_configuration = 0, ud_audio_out_altsetting = 0, ud_audio_in_altsetting = 0, ud_hid_idle = 0, ud_hid_protocol = 0,
        ud_audio_mute = [0, 0], ud_audio_volume = [0, 0], ud_feature_cache_len = replicate 256 0,
        ud_feature_cache = replicate 256 (replicate 64 0)\<rparr>"

definition vds_usb_device_set_profile :: "u32 \<Rightarrow> vds_usb_device \<Rightarrow> int \<times> vds_usb_device" where
  "vds_usb_device_set_profile profile dev =
     (if \<not> vds_usb_valid_profile profile then (- EINVAL, dev)
      else (0, vds_usb_reset_state_locked (dev\<lparr>ud_profile := profile\<rparr>)))"

definition vds_usb_device_profile :: "vds_usb_device \<Rightarrow> vds_controller_profile" where
  "vds_usb_device_profile dev = vds_usb_controller_profile_for_profile (ud_profile dev)"

definition vds_usb_device_update_feature_reply :: "bytes \<Rightarrow> vds_usb_device \<Rightarrow> int \<times> vds_usb_device" where
  "vds_usb_device_update_feature_reply payload dev =
     (if payload = [] \<or> length payload > VDS_CONTROLLER_HID_PACKET_SIZE then (- EINVAL, dev)
      else (let i = unat (payload ! 0) in
        (0, dev\<lparr>ud_feature_cache := (ud_feature_cache dev)[i := overlay payload 0 (ud_feature_cache dev ! i)],
                ud_feature_cache_len := (ud_feature_cache_len dev)[i := length payload]\<rparr>)))"

definition vds_usb_endpoint_number :: "u8 \<Rightarrow> int" where
  "vds_usb_endpoint_number endpoint_address = uint (endpoint_address AND 0x0f)"

definition vds_usb_device_is_hid_in :: "vds_usb_device \<Rightarrow> int \<Rightarrow> bool" where
  "vds_usb_device_is_hid_in dev endpoint \<longleftrightarrow> endpoint = vds_usb_endpoint_number (cp_hid_in_endpoint (vds_usb_device_profile dev))"

definition vds_usb_device_is_hid_out :: "vds_usb_device \<Rightarrow> int \<Rightarrow> bool" where
  "vds_usb_device_is_hid_out dev endpoint \<longleftrightarrow> endpoint = vds_usb_endpoint_number (cp_hid_out_endpoint (vds_usb_device_profile dev))"

definition vds_usb_device_is_audio_out :: "vds_usb_device \<Rightarrow> int \<Rightarrow> bool" where
  "vds_usb_device_is_audio_out dev endpoint \<longleftrightarrow> endpoint = vds_usb_endpoint_number (cp_audio_out_endpoint (vds_usb_device_profile dev))"

definition vds_usb_device_is_audio_in :: "vds_usb_device \<Rightarrow> int \<Rightarrow> bool" where
  "vds_usb_device_is_audio_in dev endpoint \<longleftrightarrow> cp_audio_in_endpoint (vds_usb_device_profile dev) \<noteq> VDS_USB_NO_ENDPOINT \<and>
     endpoint = vds_usb_endpoint_number (cp_audio_in_endpoint (vds_usb_device_profile dev))"

section \<open>Answers\<close>

definition vds_usb_copy_to_urb :: "bytes \<Rightarrow> urb \<Rightarrow> int \<times> urb" where
  "vds_usb_copy_to_urb data u =
     (let copy_len = min (length data) (u_transfer_buffer_length u) in
      if copy_len \<noteq> 0 \<and> u_transfer_buffer u = None then (- EPIPE, u)
      else (0, u\<lparr>u_transfer_buffer := map_option (overlay (take copy_len data) 0) (u_transfer_buffer u),
                 u_actual_length := copy_len\<rparr>))"

text \<open>The loop over the characters ends when two more bytes would not fit into 255.\<close>

fun string_units :: "string \<Rightarrow> nat \<Rightarrow> bytes" where
  "string_units [] len = []"
| "string_units (c # cs) len = (if len + 2 \<le> 255 then of_char c # 0 # string_units cs (len + 2) else [])"

definition vds_usb_copy_string_descriptor :: "string option \<Rightarrow> urb \<Rightarrow> int \<times> urb" where
  "vds_usb_copy_string_descriptor text u =
     (case text of
        None \<Rightarrow> vds_usb_copy_to_urb [4, 3, 0x09, 0x04] u
      | Some cs \<Rightarrow> (let units = string_units cs 2 in
          vds_usb_copy_to_urb (of_nat (2 + length units) # 3 # units) u))"

definition vds_usb_copy_cached_feature_report :: "u8 \<Rightarrow> vds_usb_device \<Rightarrow> urb \<Rightarrow> int \<times> urb" where
  "vds_usb_copy_cached_feature_report report_id dev u =
     (let report_len = ud_feature_cache_len dev ! unat report_id in
      if report_len = 0 then (- ENOENT, u)
      else vds_usb_copy_to_urb (take report_len (ud_feature_cache dev ! unat report_id)) u)"

text \<open>The callbacks; a context \<open>'c\<close> is what they read and write, the URB is the one being handled.\<close>

record 'c vds_usb_device_ops =
  op_enqueue_frame :: "u16 \<Rightarrow> bytes \<Rightarrow> 'c \<Rightarrow> int \<times> 'c"
  op_defer_feature_get :: "u8 \<Rightarrow> 'c \<Rightarrow> int \<times> 'c"
  op_set_status :: "u32 \<Rightarrow> bool \<Rightarrow> 'c \<Rightarrow> 'c"

type_synonym 'c control_state = "vds_usb_device \<times> urb \<times> 'c"

definition on_urb :: "(urb \<Rightarrow> int \<times> urb) \<Rightarrow> 'c control_state \<Rightarrow> int \<times> 'c control_state" where
  "on_urb f s = (case s of (dev, u, c) \<Rightarrow> case f u of (r, u') \<Rightarrow> (r, dev, u', c))"

definition interface_event_bytes :: "u8 \<Rightarrow> u8 \<Rightarrow> u8 \<Rightarrow> bytes" where
  "interface_event_bytes interface_number altsetting interface_type = [interface_number, altsetting, interface_type, 0]"

definition vds_usb_enqueue_interface_event ::
  "'c vds_usb_device_ops \<Rightarrow> u8 \<Rightarrow> u8 \<Rightarrow> u8 \<Rightarrow> 'c \<Rightarrow> 'c" where
  "vds_usb_enqueue_interface_event ops interface_number altsetting interface_type c =
     snd (op_enqueue_frame ops VDS_FRAME_USB_INTERFACE (interface_event_bytes interface_number altsetting interface_type) c)"

section \<open>Control requests\<close>

definition VDS_STATUS_CONNECTED :: u32 where "VDS_STATUS_CONNECTED = 1"
definition VDS_STATUS_CONFIGURED :: u32 where "VDS_STATUS_CONFIGURED = 2"
definition VDS_STATUS_HID_ENABLED :: u32 where "VDS_STATUS_HID_ENABLED = 4"
definition VDS_STATUS_AUDIO_ENABLED :: u32 where "VDS_STATUS_AUDIO_ENABLED = 8"

lemmas status_flags = VDS_STATUS_CONNECTED_def VDS_STATUS_CONFIGURED_def VDS_STATUS_HID_ENABLED_def
  VDS_STATUS_AUDIO_ENABLED_def

definition UAC_CS_REQ_SET_CUR :: u8 where "UAC_CS_REQ_SET_CUR = 0x01"
definition UAC_CS_REQ_GET_CUR :: u8 where "UAC_CS_REQ_GET_CUR = 0x81"
definition UAC_CS_REQ_GET_MIN :: u8 where "UAC_CS_REQ_GET_MIN = 0x82"
definition UAC_CS_REQ_GET_MAX :: u8 where "UAC_CS_REQ_GET_MAX = 0x83"
definition UAC_CS_REQ_GET_RES :: u8 where "UAC_CS_REQ_GET_RES = 0x84"
definition UAC_FU_CTRL_MUTE :: u8 where "UAC_FU_CTRL_MUTE = 0x01"
definition UAC_FU_CTRL_VOLUME :: u8 where "UAC_FU_CTRL_VOLUME = 0x02"

lemmas uac_requests = UAC_CS_REQ_SET_CUR_def UAC_CS_REQ_GET_CUR_def UAC_CS_REQ_GET_MIN_def UAC_CS_REQ_GET_MAX_def
  UAC_CS_REQ_GET_RES_def UAC_FU_CTRL_MUTE_def UAC_FU_CTRL_VOLUME_def

definition HID_REQ_GET_REPORT :: u8 where "HID_REQ_GET_REPORT = 0x01"
definition HID_REQ_GET_IDLE :: u8 where "HID_REQ_GET_IDLE = 0x02"
definition HID_REQ_GET_PROTOCOL :: u8 where "HID_REQ_GET_PROTOCOL = 0x03"
definition HID_REQ_SET_REPORT :: u8 where "HID_REQ_SET_REPORT = 0x09"
definition HID_REQ_SET_IDLE :: u8 where "HID_REQ_SET_IDLE = 0x0a"
definition HID_REQ_SET_PROTOCOL :: u8 where "HID_REQ_SET_PROTOCOL = 0x0b"
definition HID_REPORT_TYPE_FEATURE :: u8 where "HID_REPORT_TYPE_FEATURE = 0x03"

lemmas hid_requests = HID_REQ_GET_REPORT_def HID_REQ_GET_IDLE_def HID_REQ_GET_PROTOCOL_def HID_REQ_SET_REPORT_def
  HID_REQ_SET_IDLE_def HID_REQ_SET_PROTOCOL_def HID_REPORT_TYPE_FEATURE_def

text \<open>The high and the low byte of a 16-bit field of the setup packet.\<close>

definition high :: "u16 \<Rightarrow> u8" where "high v = ucast (drop_bit 8 v)"
definition low :: "u16 \<Rightarrow> u8" where "low v = ucast (v AND 0xff)"

definition audio_get :: "u8 \<Rightarrow> u8 \<Rightarrow> nat \<Rightarrow> vds_usb_device \<Rightarrow> bytes option" where
  "audio_get selector request i dev =
     (if selector = UAC_FU_CTRL_MUTE then
        (if request = UAC_CS_REQ_GET_CUR then Some [ud_audio_mute dev ! i] else None)
      else if selector = UAC_FU_CTRL_VOLUME then
        (if request = UAC_CS_REQ_GET_CUR then Some (le16 (ud_audio_volume dev ! i))
         else if request = UAC_CS_REQ_GET_MIN then Some (le16 VDS_USB_SPK_VOLUME_MIN)
         else if request = UAC_CS_REQ_GET_MAX then Some (le16 VDS_USB_SPK_VOLUME_MAX)
         else if request = UAC_CS_REQ_GET_RES then Some (le16 VDS_USB_SPK_VOLUME_RES)
         else None)
      else None)"

definition vds_usb_audio_control ::
  "usb_ctrlrequest \<Rightarrow> vds_controller_profile \<Rightarrow> vds_usb_device \<Rightarrow> urb \<Rightarrow> int \<times> vds_usb_device \<times> urb" where
  "vds_usb_audio_control setup profile dev u =
     (let entity_id = high (wIndex setup); intf = low (wIndex setup); selector = high (wValue setup) in
      if intf \<noteq> cp_audio_control_interface profile then (- EPIPE, dev, u)
      else case vds_controller_audio_feature_index profile entity_id of
        None \<Rightarrow> (- EPIPE, dev, u)
      | Some i \<Rightarrow>
          if bRequestType setup AND 0x80 \<noteq> 0 then
            (case audio_get selector (bRequest setup) i dev of
               None \<Rightarrow> (- EPIPE, dev, u)
             | Some data \<Rightarrow> (case vds_usb_copy_to_urb data u of (r, u') \<Rightarrow> (r, dev, u')))
          else (case u_transfer_buffer u of
            None \<Rightarrow> (- EPIPE, dev, u)
          | Some buf \<Rightarrow>
              if bRequest setup \<noteq> UAC_CS_REQ_SET_CUR then (- EPIPE, dev, u)
              else if selector = UAC_FU_CTRL_MUTE \<and> u_transfer_buffer_length u \<ge> 1 then
                (0, dev\<lparr>ud_audio_mute := (ud_audio_mute dev)[i := buf ! 0]\<rparr>, u\<lparr>u_actual_length := 1\<rparr>)
              else if selector = UAC_FU_CTRL_VOLUME \<and> u_transfer_buffer_length u \<ge> 2 then
                (0, dev\<lparr>ud_audio_volume := (ud_audio_volume dev)[i := from_le16 (take 2 buf)]\<rparr>,
                 u\<lparr>u_actual_length := 2\<rparr>)
              else (- EPIPE, dev, u)))"

definition hid_get_report ::
  "'c vds_usb_device_ops \<Rightarrow> usb_ctrlrequest \<Rightarrow> 'c control_state \<Rightarrow> int \<times> 'c control_state" where
  "hid_get_report ops setup s =
     (case s of (dev, u, c) \<Rightarrow>
      let report_id = low (wValue setup) in
      if high (wValue setup) = HID_REPORT_TYPE_FEATURE then
        (case vds_usb_copy_cached_feature_report report_id dev u of
           (r, u') \<Rightarrow>
             if r \<noteq> - ENOENT then (r, dev, u', c)
             else (case op_defer_feature_get ops report_id c of
               (r, c') \<Rightarrow>
                 if r \<noteq> 0 then (r, dev, u', c')
                 else (case op_enqueue_frame ops VDS_FRAME_USB_FEATURE_GET
                         [report_id, low (wLength setup), high (wLength setup)] c' of
                   (r, c'') \<Rightarrow> (if r \<noteq> 0 then r else - EINPROGRESS, dev, u', c''))))
      else on_urb (vds_usb_copy_to_urb (report_id # replicate (VDS_CONTROLLER_HID_PACKET_SIZE - 1) 0)) s)"

definition hid_set_report ::
  "'c vds_usb_device_ops \<Rightarrow> usb_ctrlrequest \<Rightarrow> 'c control_state \<Rightarrow> int \<times> 'c control_state" where
  "hid_set_report ops setup s =
     (case s of (dev, u, c) \<Rightarrow>
      let report_id = low (wValue setup); n = u_transfer_buffer_length u;
          accepted = u\<lparr>u_actual_length := n\<rparr> in
      if high (wValue setup) \<noteq> HID_REPORT_TYPE_FEATURE then (- EPIPE, dev, u, c)
      else if n = 0 then (0, dev, accepted, c)
      else (case u_transfer_buffer u of
        None \<Rightarrow> (- EPIPE, dev, u, c)
      | Some buf \<Rightarrow>
          if n > VDS_CONTROLLER_HID_PACKET_SIZE then (- EPIPE, dev, u, c)
          else (case op_enqueue_frame ops VDS_FRAME_USB_FEATURE_SET (report_id # take n buf) c of
            (r, c') \<Rightarrow> if r \<noteq> 0 then (r, dev, u, c') else (0, dev, accepted, c'))))"

definition vds_usb_hid_control ::
  "'c vds_usb_device_ops \<Rightarrow> usb_ctrlrequest \<Rightarrow> vds_controller_profile \<Rightarrow> 'c control_state \<Rightarrow>
   int \<times> 'c control_state" where
  "vds_usb_hid_control ops setup profile s =
     (case s of (dev, u, c) \<Rightarrow>
      if low (wIndex setup) \<noteq> cp_hid_interface profile then (- EPIPE, s)
      else if bRequest setup = HID_REQ_GET_REPORT then hid_get_report ops setup s
      else if bRequest setup = HID_REQ_SET_REPORT then hid_set_report ops setup s
      else if bRequest setup = HID_REQ_GET_IDLE then on_urb (vds_usb_copy_to_urb [ud_hid_idle dev]) s
      else if bRequest setup = HID_REQ_GET_PROTOCOL then on_urb (vds_usb_copy_to_urb [ud_hid_protocol dev]) s
      else if bRequest setup = HID_REQ_SET_IDLE then (0, dev\<lparr>ud_hid_idle := high (wValue setup)\<rparr>, u, c)
      else if bRequest setup = HID_REQ_SET_PROTOCOL then (0, dev\<lparr>ud_hid_protocol := low (wValue setup)\<rparr>, u, c)
      else (- EPIPE, s))"

section \<open>Standard requests\<close>

text \<open>Values of \<open>linux/usb/ch9.h\<close> and \<open>linux/hid.h\<close>.\<close>

definition USB_REQ_GET_STATUS :: u8 where "USB_REQ_GET_STATUS = 0x00"
definition USB_REQ_CLEAR_FEATURE :: u8 where "USB_REQ_CLEAR_FEATURE = 0x01"
definition USB_REQ_SET_FEATURE :: u8 where "USB_REQ_SET_FEATURE = 0x03"
definition USB_REQ_SET_ADDRESS :: u8 where "USB_REQ_SET_ADDRESS = 0x05"
definition USB_REQ_GET_DESCRIPTOR :: u8 where "USB_REQ_GET_DESCRIPTOR = 0x06"
definition USB_REQ_GET_CONFIGURATION :: u8 where "USB_REQ_GET_CONFIGURATION = 0x08"
definition USB_REQ_SET_CONFIGURATION :: u8 where "USB_REQ_SET_CONFIGURATION = 0x09"
definition USB_REQ_GET_INTERFACE :: u8 where "USB_REQ_GET_INTERFACE = 0x0a"
definition USB_REQ_SET_INTERFACE :: u8 where "USB_REQ_SET_INTERFACE = 0x0b"

lemmas usb_requests = USB_REQ_GET_STATUS_def USB_REQ_CLEAR_FEATURE_def USB_REQ_SET_FEATURE_def
  USB_REQ_SET_ADDRESS_def USB_REQ_GET_DESCRIPTOR_def USB_REQ_GET_CONFIGURATION_def USB_REQ_SET_CONFIGURATION_def
  USB_REQ_GET_INTERFACE_def USB_REQ_SET_INTERFACE_def

definition USB_DT_DEVICE :: u8 where "USB_DT_DEVICE = 0x01"
definition USB_DT_CONFIG :: u8 where "USB_DT_CONFIG = 0x02"
definition USB_DT_STRING :: u8 where "USB_DT_STRING = 0x03"
definition USB_DT_DEVICE_QUALIFIER :: u8 where "USB_DT_DEVICE_QUALIFIER = 0x06"
definition HID_DT_HID :: u8 where "HID_DT_HID = 0x21"
definition HID_DT_REPORT :: u8 where "HID_DT_REPORT = 0x22"

lemmas usb_descriptor_types = USB_DT_DEVICE_def USB_DT_CONFIG_def USB_DT_STRING_def USB_DT_DEVICE_QUALIFIER_def
  HID_DT_HID_def HID_DT_REPORT_def

definition vds_qualifier_desc :: bytes where
  "vds_qualifier_desc = [10, USB_DT_DEVICE_QUALIFIER] @ le16 0x0200 @ [0, 0, 0, 64, 1, 0]"

definition device_desc :: "vds_controller_profile \<Rightarrow> bytes" where
  "device_desc profile =
     [18, USB_DT_DEVICE] @ le16 0x0200 @ [0, 0, 0, cp_max_packet_size0 profile] @ le16 VDS_SONY_VENDOR_ID @
     le16 (cp_product_id profile) @ le16 (cp_device_version profile) @ [1, 2, 0, cp_num_configurations profile]"

definition standard_descriptor :: "usb_ctrlrequest \<Rightarrow> vds_controller_profile \<Rightarrow> urb \<Rightarrow> int \<times> urb" where
  "standard_descriptor setup profile u =
     (let desc_type = high (wValue setup); desc_index = low (wValue setup);
          on_hid = (low (wIndex setup) = cp_hid_interface profile) in
      if desc_type = USB_DT_DEVICE then vds_usb_copy_to_urb (device_desc profile) u
      else if desc_type = USB_DT_CONFIG then vds_usb_copy_to_urb (cp_configuration_descriptor profile) u
      else if desc_type = USB_DT_DEVICE_QUALIFIER then vds_usb_copy_to_urb vds_qualifier_desc u
      else if desc_type = USB_DT_STRING then
        (if desc_index = 0 then vds_usb_copy_string_descriptor None u
         else if desc_index = 1 then vds_usb_copy_string_descriptor (Some (cp_manufacturer profile)) u
         else if desc_index = 2 then vds_usb_copy_string_descriptor (Some (cp_product profile)) u
         else (- EPIPE, u))
      else if desc_type = HID_DT_REPORT then
        (if on_hid then vds_usb_copy_to_urb (cp_hid_report_descriptor profile) u else (- EPIPE, u))
      else if desc_type = HID_DT_HID then
        (if on_hid then vds_usb_copy_to_urb (cp_hid_descriptor profile) u else (- EPIPE, u))
      else (- EPIPE, u))"

definition set_configuration ::
  "'c vds_usb_device_ops \<Rightarrow> usb_ctrlrequest \<Rightarrow> vds_controller_profile \<Rightarrow> 'c control_state \<Rightarrow>
   int \<times> 'c control_state" where
  "set_configuration ops setup profile s =
     (case s of (dev, u, c) \<Rightarrow>
      if wValue setup \<noteq> 0 \<and> wValue setup \<noteq> ucast (cp_configuration_value profile) then (- EPIPE, s)
      else (let dev' = dev\<lparr>ud_configuration := low (wValue setup), ud_audio_out_altsetting := 0,
                           ud_audio_in_altsetting := 0\<rparr>;
                c1 = op_set_status ops (VDS_STATUS_CONFIGURED OR VDS_STATUS_HID_ENABLED)
                       (ud_configuration dev' = cp_configuration_value profile) c in
            (0, dev', u, op_set_status ops VDS_STATUS_AUDIO_ENABLED False c1)))"

definition set_interface ::
  "'c vds_usb_device_ops \<Rightarrow> usb_ctrlrequest \<Rightarrow> vds_controller_profile \<Rightarrow> 'c control_state \<Rightarrow>
   int \<times> 'c control_state" where
  "set_interface ops setup profile s =
     (case s of (dev, u, c) \<Rightarrow>
      let intf = low (wIndex setup); alt = low (wValue setup) in
      if intf = cp_hid_interface profile then
        (if wValue setup \<noteq> 0 then (- EPIPE, s)
         else (0, dev, u, vds_usb_enqueue_interface_event ops (cp_hid_interface profile) 0 VDS_USB_INTERFACE_HID c))
      else if wValue setup > 1 then (- EPIPE, s)
      else if intf = cp_audio_out_interface profile then
        (0, dev\<lparr>ud_audio_out_altsetting := alt\<rparr>, u,
         vds_usb_enqueue_interface_event ops (cp_audio_out_interface profile) alt VDS_USB_INTERFACE_AUDIO_OUT
           (op_set_status ops VDS_STATUS_AUDIO_ENABLED (alt = 1) c))
      else if cp_audio_in_interface profile \<noteq> VDS_USB_NO_INTERFACE \<and> intf = cp_audio_in_interface profile then
        (0, dev\<lparr>ud_audio_in_altsetting := alt\<rparr>, u,
         vds_usb_enqueue_interface_event ops (cp_audio_in_interface profile) alt VDS_USB_INTERFACE_AUDIO_IN c)
      else (- EPIPE, s))"

definition altsetting_of :: "u8 \<Rightarrow> vds_controller_profile \<Rightarrow> vds_usb_device \<Rightarrow> u8 option" where
  "altsetting_of intf profile dev =
     (if intf = cp_audio_out_interface profile then Some (ud_audio_out_altsetting dev)
      else if cp_audio_in_interface profile \<noteq> VDS_USB_NO_INTERFACE \<and> intf = cp_audio_in_interface profile
      then Some (ud_audio_in_altsetting dev)
      else if intf = cp_hid_interface profile then Some 0
      else None)"

definition vds_usb_standard_control ::
  "'c vds_usb_device_ops \<Rightarrow> usb_ctrlrequest \<Rightarrow> vds_controller_profile \<Rightarrow> 'c control_state \<Rightarrow>
   int \<times> 'c control_state" where
  "vds_usb_standard_control ops setup profile s =
     (case s of (dev, u, c) \<Rightarrow>
      if bRequest setup = USB_REQ_GET_DESCRIPTOR then on_urb (standard_descriptor setup profile) s
      else if bRequest setup = USB_REQ_SET_ADDRESS then (0, dev\<lparr>ud_address := ucast (wValue setup AND 0x7f)\<rparr>, u, c)
      else if bRequest setup = USB_REQ_SET_CONFIGURATION then set_configuration ops setup profile s
      else if bRequest setup = USB_REQ_GET_CONFIGURATION then on_urb (vds_usb_copy_to_urb [ud_configuration dev]) s
      else if bRequest setup = USB_REQ_SET_INTERFACE then set_interface ops setup profile s
      else if bRequest setup = USB_REQ_GET_INTERFACE then
        (case altsetting_of (low (wIndex setup)) profile dev of
           None \<Rightarrow> (- EPIPE, s)
         | Some alt \<Rightarrow> on_urb (vds_usb_copy_to_urb [alt]) s)
      else if bRequest setup = USB_REQ_GET_STATUS then on_urb (vds_usb_copy_to_urb (le16 0)) s
      else if bRequest setup = USB_REQ_CLEAR_FEATURE \<or> bRequest setup = USB_REQ_SET_FEATURE then (0, s)
      else (- EPIPE, s))"

definition vds_usb_device_control_urb :: "'c vds_usb_device_ops \<Rightarrow> 'c control_state \<Rightarrow> int \<times> 'c control_state" where
  "vds_usb_device_control_urb ops s =
     (case s of (dev, u, c) \<Rightarrow> case u_setup_packet u of
        None \<Rightarrow> (- EPIPE, s)
      | Some packet \<Rightarrow>
          let profile = vds_usb_device_profile dev; setup = parse_setup packet;
              u' = u\<lparr>u_actual_length := 0\<rparr>; type = bRequestType setup AND 0x60 in
          if type = 0 then vds_usb_standard_control ops setup profile (dev, u', c)
          else if type = 0x20 \<and> bRequestType setup AND 0x1f = 1 then
            (if low (wIndex setup) = cp_hid_interface profile
             then vds_usb_hid_control ops setup profile (dev, u', c)
             else (case vds_usb_audio_control setup profile dev u' of (r, dev', u'') \<Rightarrow> (r, dev', u'', c)))
          else (- EPIPE, dev, u', c))"

end
