(* ===== verification/Hcd.thy ===== *)
theory Hcd
  imports HcdUsb FrameIo
begin

text \<open>
  The virtual host controller of the Linux kernel module (\<open>module/vds_hcd_core.c\<close>): the frame device
  \<open>/dev/vdsN\<close>, the queues of URBs, the giveback thread, the root hub, and the set-up of the module.

  A context of the source is found by the submission it belongs to: \<open>hd_contexts dev u\<close> is the context of
  submission \<open>u\<close> together with its URB, and \<open>None\<close> once it is freed. The queues hold submissions. Each
  section under the spin lock is one function; a function made of several sections is their composition,
  and the sections of \<open>vds_urb_enqueue\<close> and of the giveback thread are also definitions of their own, for
  the interleavings. \<open>hd_fault\<close> records an access to a freed context or an entry linked into two queues.
  Memory allocations take their outcome from \<open>hd_allocs\<close> (they succeed when the list is used up), times are
  nanoseconds, and what the USB core answers is an argument.
\<close>

section \<open>State\<close>

definition VDS_AUDIO_IN_BYTES_PER_MS :: nat where "VDS_AUDIO_IN_BYTES_PER_MS = 192"
definition VDS_AUDIO_OUT_BYTES_PER_MS :: nat where "VDS_AUDIO_OUT_BYTES_PER_MS = 384"
definition VDS_AUDIO_IN_QUEUE_MAX_BYTES :: nat where "VDS_AUDIO_IN_QUEUE_MAX_BYTES = 192 * 100"

record vds_event =
  ev_header :: vds_frame_header
  ev_payload :: bytes

record vds_audio_packet =
  ap_offset :: nat
  ap_payload :: bytes

datatype vds_urb_context_state =
    VDS_URB_ACTIVE | VDS_URB_PENDING_HID_IN | VDS_URB_PENDING_FEATURE_GET | VDS_URB_PENDING_GIVEBACK | VDS_URB_GIVING_BACK

text \<open>\<open>uc_hcpriv\<close> says that the URB's \<open>hcpriv\<close> points to the context.\<close>

record vds_urb_context =
  uc_urb :: urb
  uc_hcpriv :: bool
  uc_ready_time :: int
  uc_status :: int
  uc_feature_report_id :: u8
  uc_state :: vds_urb_context_state
  uc_deliver_iso_out :: bool
  uc_deliver_iso_in :: bool

datatype root_hub_call = Resume_root_hub | Poll_rh_status

record vds_hcd_dev =
  hd_contexts :: "nat \<rightharpoonup> vds_urb_context"
  hd_events :: "vds_event list"
  hd_pending_hid_in :: "nat list"
  hd_pending_feature_get :: "nat list"
  hd_completed_urbs :: "nat list"
  hd_input_packets :: "bytes list"
  hd_audio_in_packets :: "vds_audio_packet list"
  hd_frames_to_user :: u64
  hd_frames_from_user :: u64
  hd_next_sequence :: u64
  hd_next_iso_out_ready :: int
  hd_next_iso_in_ready :: int
  hd_next_hid_in_ready :: int
  hd_event_count :: u32
  hd_status_flags :: u32
  hd_port_status :: u32
  hd_stopping :: bool
  hd_opened :: bool
  hd_input_packet_count :: u32
  hd_audio_in_packet_count :: u32
  hd_audio_in_queued_bytes :: u32
  hd_usb :: vds_usb_device
  hd_allocs :: "bool list"
  hd_given_back :: "(nat \<times> urb \<times> int) list"
  hd_root_hub :: "root_hub_call list"
  hd_fault :: bool

definition kmalloc :: "vds_hcd_dev \<Rightarrow> bool \<times> vds_hcd_dev" where
  "kmalloc dev = (case hd_allocs dev of [] \<Rightarrow> (True, dev) | b # bs \<Rightarrow> (b, dev\<lparr>hd_allocs := bs\<rparr>))"

definition vds_context :: "vds_hcd_dev \<Rightarrow> nat \<Rightarrow> vds_urb_context" where
  "vds_context dev u = the (hd_contexts dev u)"

definition change_context :: "nat \<Rightarrow> (vds_urb_context \<Rightarrow> vds_urb_context) \<Rightarrow> vds_hcd_dev \<Rightarrow> vds_hcd_dev" where
  "change_context u f dev = dev\<lparr>hd_contexts := (hd_contexts dev)(u := map_option f (hd_contexts dev u))\<rparr>"

definition vds_status_set_locked :: "u32 \<Rightarrow> bool \<Rightarrow> vds_hcd_dev \<Rightarrow> vds_hcd_dev" where
  "vds_status_set_locked flags enabled dev =
     dev\<lparr>hd_status_flags := (if enabled then hd_status_flags dev OR flags else hd_status_flags dev AND NOT flags)\<rparr>"

section \<open>Frames to user space\<close>

definition vds_enqueue_frame :: "u16 \<Rightarrow> bytes \<Rightarrow> vds_hcd_dev \<Rightarrow> int \<times> vds_hcd_dev" where
  "vds_enqueue_frame type payload dev =
     (if length payload > VDS_FRAME_MAX_PAYLOAD then (- EMSGSIZE, dev)
      else case kmalloc dev of (ok, dev) \<Rightarrow>
        if \<not> ok then (- ENOMEM, dev)
        else if hd_stopping dev then (- ESHUTDOWN, dev)
        else if hd_event_count dev \<ge> 16384 then (- ENOSPC, dev)
        else (let header = \<lparr>fh_type = type, fh_flags = 0, fh_length = of_nat (length payload),
                            fh_sequence = hd_next_sequence dev\<rparr> in
          (0, dev\<lparr>hd_next_sequence := hd_next_sequence dev + 1,
                  hd_events := hd_events dev @ [\<lparr>ev_header = header, ev_payload = payload\<rparr>],
                  hd_event_count := hd_event_count dev + 1,
                  hd_frames_to_user := hd_frames_to_user dev + 1\<rparr>)))"

text \<open>An entry that is on another queue when it is linked corrupts both.\<close>

definition on_queue :: "vds_hcd_dev \<Rightarrow> nat \<Rightarrow> bool" where
  "on_queue dev u \<longleftrightarrow> u \<in> set (hd_pending_hid_in dev) \<or> u \<in> set (hd_pending_feature_get dev) \<or>
     u \<in> set (hd_completed_urbs dev)"

definition vds_usb_defer_feature_get :: "nat \<Rightarrow> u8 \<Rightarrow> vds_hcd_dev \<Rightarrow> int \<times> vds_hcd_dev" where
  "vds_usb_defer_feature_get u report_id dev =
     (case hd_contexts dev u of
        None \<Rightarrow> (- EINVAL, dev)
      | Some context \<Rightarrow>
          if \<not> uc_hcpriv context then (- EINVAL, dev)
          else if hd_stopping dev then (- ESHUTDOWN, dev)
          else (let dev' = change_context u (\<lambda>c. c\<lparr>uc_feature_report_id := report_id,
                                                   uc_state := VDS_URB_PENDING_FEATURE_GET\<rparr>) dev in
            (0, dev'\<lparr>hd_pending_feature_get := hd_pending_feature_get dev @ [u],
                     hd_fault := hd_fault dev \<or> on_queue dev u\<rparr>)))"

definition vds_usb_ops :: "nat \<Rightarrow> vds_hcd_dev vds_usb_device_ops" where
  "vds_usb_ops u = \<lparr>op_enqueue_frame = vds_enqueue_frame, op_defer_feature_get = vds_usb_defer_feature_get u,
                    op_set_status = vds_status_set_locked\<rparr>"

text \<open>
  \<open>vds_read\<close>: \<open>Read_wait\<close> when the caller sleeps. \<open>signal\<close> says that a signal ends the wait, \<open>fault\<close> that
  the copy to user space fails.
\<close>

datatype read_result = Read_wait | Read_done int bytes

definition ERESTARTSYS :: int where "ERESTARTSYS = 512"

definition vds_read_ready :: "vds_hcd_dev \<Rightarrow> bool" where
  "vds_read_ready dev \<longleftrightarrow> hd_stopping dev \<or> hd_events dev \<noteq> []"

definition vds_read :: "bool \<Rightarrow> bool \<Rightarrow> bool \<Rightarrow> nat \<Rightarrow> vds_hcd_dev \<Rightarrow> read_result \<times> vds_hcd_dev" where
  "vds_read nonblock signal fault count dev =
     (if nonblock \<and> hd_events dev = [] \<and> \<not> hd_stopping dev then (Read_done (- EAGAIN) [], dev)
      else if \<not> vds_read_ready dev then (if signal then Read_done (- ERESTARTSYS) [] else Read_wait, dev)
      else case hd_events dev of
        [] \<Rightarrow> (Read_done (if hd_stopping dev then - ESHUTDOWN else - EAGAIN) [], dev)
      | event # events \<Rightarrow>
          let frame_size = 16 + unat (fh_length (ev_header event)) in
          if count < frame_size then (Read_done (- EMSGSIZE) [], dev)
          else (let dev' = dev\<lparr>hd_events := events, hd_event_count := hd_event_count dev - 1\<rparr> in
            if fault then (Read_done (- EFAULT) [], dev')
            else (Read_done (int frame_size) (header_bytes (ev_header event) @ ev_payload event), dev')))"

definition EPOLLIN :: u32 where "EPOLLIN = 0x1"
definition EPOLLOUT :: u32 where "EPOLLOUT = 0x4"
definition EPOLLHUP :: u32 where "EPOLLHUP = 0x10"
definition EPOLLRDNORM :: u32 where "EPOLLRDNORM = 0x40"
definition EPOLLWRNORM :: u32 where "EPOLLWRNORM = 0x100"

definition vds_poll :: "vds_hcd_dev \<Rightarrow> u32" where
  "vds_poll dev = EPOLLOUT OR EPOLLWRNORM OR (if hd_events dev \<noteq> [] then EPOLLIN OR EPOLLRDNORM else 0) OR
     (if hd_stopping dev then EPOLLHUP else 0)"

definition vds_pop_input_packet_locked :: "vds_hcd_dev \<Rightarrow> bytes option \<times> vds_hcd_dev" where
  "vds_pop_input_packet_locked dev =
     (case hd_input_packets dev of
        [] \<Rightarrow> (None, dev)
      | packet # packets \<Rightarrow> (Some packet, dev\<lparr>hd_input_packets := packets,
                                              hd_input_packet_count := hd_input_packet_count dev - 1\<rparr>))"

section \<open>Completed URBs\<close>

text \<open>Before the first timed entry; before the first timed entry that is ready later.\<close>

fun insert_untimed :: "(nat \<Rightarrow> int) \<Rightarrow> nat \<Rightarrow> nat list \<Rightarrow> nat list" where
  "insert_untimed ready u [] = [u]"
| "insert_untimed ready u (pos # queue) =
     (if ready pos \<noteq> 0 then u # pos # queue else pos # insert_untimed ready u queue)"

fun insert_timed :: "(nat \<Rightarrow> int) \<Rightarrow> nat \<Rightarrow> nat list \<Rightarrow> nat list" where
  "insert_timed ready u [] = [u]"
| "insert_timed ready u (pos # queue) =
     (if ready pos \<noteq> 0 \<and> ready pos > ready u then u # pos # queue else pos # insert_timed ready u queue)"

definition ready_time :: "vds_hcd_dev \<Rightarrow> nat \<Rightarrow> int" where
  "ready_time dev u = uc_ready_time (vds_context dev u)"

definition vds_queue_urb_giveback_locked :: "nat \<Rightarrow> int \<Rightarrow> vds_hcd_dev \<Rightarrow> bool \<times> vds_hcd_dev" where
  "vds_queue_urb_giveback_locked u status dev =
     (if uc_state (vds_context dev u) \<in> {VDS_URB_PENDING_GIVEBACK, VDS_URB_GIVING_BACK} then (False, dev)
      else (let dev' = change_context u (\<lambda>c. c\<lparr>uc_status := status, uc_state := VDS_URB_PENDING_GIVEBACK,
                                               uc_hcpriv := True\<rparr>) dev;
                insert = (if ready_time dev u = 0 then insert_untimed else insert_timed) in
        (True, dev'\<lparr>hd_pending_hid_in := filter (\<lambda>v. v \<noteq> u) (hd_pending_hid_in dev),
                    hd_pending_feature_get := filter (\<lambda>v. v \<noteq> u) (hd_pending_feature_get dev),
                    hd_completed_urbs := insert (ready_time dev) u (hd_completed_urbs dev)\<rparr>)))"

fun queue_each :: "int \<Rightarrow> nat list \<Rightarrow> vds_hcd_dev \<Rightarrow> bool \<times> vds_hcd_dev" where
  "queue_each status [] dev = (False, dev)"
| "queue_each status (u # us) dev =
     (case vds_queue_urb_giveback_locked u status dev of (wake, dev) \<Rightarrow>
      case queue_each status us dev of (wake', dev) \<Rightarrow> (wake \<or> wake', dev))"

definition vds_cancel_pending_urbs_locked :: "int \<Rightarrow> vds_hcd_dev \<Rightarrow> bool \<times> vds_hcd_dev" where
  "vds_cancel_pending_urbs_locked status dev =
     (case queue_each status (hd_pending_hid_in dev) dev of (wake, dev) \<Rightarrow>
      case queue_each status (hd_pending_feature_get dev) dev of (wake', dev) \<Rightarrow> (wake \<or> wake', dev))"

definition vds_flush_buffered_frames_locked :: "vds_hcd_dev \<Rightarrow> vds_hcd_dev" where
  "vds_flush_buffered_frames_locked dev =
     dev\<lparr>hd_input_packets := [], hd_input_packet_count := 0, hd_audio_in_packets := [], hd_audio_in_packet_count := 0,
         hd_audio_in_queued_bytes := 0, hd_events := [], hd_event_count := 0\<rparr>"

section \<open>Isochronous transfers\<close>

definition in_buffer :: "urb \<Rightarrow> iso_packet \<Rightarrow> bool" where
  "in_buffer u desc \<longleftrightarrow> \<not> (ip_offset desc > u_transfer_buffer_length u \<or>
     ip_length desc > u_transfer_buffer_length u - ip_offset desc)"

text \<open>
  The chunk of \<open>vds_iso_out_urb\<close> is its offset and its length; \<open>next_offset\<close> of the source is their sum.
  What the loop returns: the descriptors, the errors, the amount, and the last chunk.
\<close>

type_synonym chunk = "nat \<times> nat"

definition send_chunk :: "bytes \<Rightarrow> chunk \<Rightarrow> vds_hcd_dev \<Rightarrow> vds_hcd_dev" where
  "send_chunk buf chunk dev =
     snd (vds_enqueue_frame VDS_FRAME_USB_AUDIO_OUT (take (snd chunk) (drop (fst chunk) buf)) dev)"

definition extend_chunk :: "bytes \<Rightarrow> iso_packet \<Rightarrow> chunk option \<Rightarrow> vds_hcd_dev \<Rightarrow> chunk option \<times> vds_hcd_dev" where
  "extend_chunk buf desc chunk dev =
     (let n = ip_length desc; here = (ip_offset desc, n) in
      if n = 0 then (chunk, dev)
      else case chunk of
        None \<Rightarrow> (Some here, dev)
      | Some (start, len) \<Rightarrow>
          if ip_offset desc = start + len \<and> len + n \<le> VDS_FRAME_MAX_PAYLOAD then (Some (start, len + n), dev)
          else (Some here, send_chunk buf (start, len) dev))"

fun iso_out_loop :: "urb \<Rightarrow> bytes \<Rightarrow> iso_packet list \<Rightarrow> chunk option \<Rightarrow> vds_hcd_dev \<Rightarrow>
    iso_packet list \<times> nat \<times> nat \<times> chunk option \<times> vds_hcd_dev" where
  "iso_out_loop u buf [] chunk dev = ([], 0, 0, chunk, dev)"
| "iso_out_loop u buf (desc # descs) chunk dev =
     (if \<not> in_buffer u desc then
        (case iso_out_loop u buf descs chunk dev of (ds, errors, amount, chunk', dev') \<Rightarrow>
          (desc\<lparr>ip_status := - EOVERFLOW, ip_actual_length := 0\<rparr> # ds, Suc errors, amount, chunk', dev'))
      else
        (case extend_chunk buf desc chunk dev of (chunk1, dev1) \<Rightarrow>
         case iso_out_loop u buf descs chunk1 dev1 of (ds, errors, amount, chunk', dev') \<Rightarrow>
           (desc\<lparr>ip_status := 0, ip_actual_length := ip_length desc\<rparr> # ds, errors, ip_length desc + amount, chunk', dev')))"

definition vds_iso_out_urb :: "urb \<Rightarrow> vds_hcd_dev \<Rightarrow> int \<times> urb \<times> vds_hcd_dev" where
  "vds_iso_out_urb u dev =
     (case u_transfer_buffer u of
        None \<Rightarrow> (- EPIPE, u, dev)
      | Some buf \<Rightarrow>
          (case iso_out_loop u buf (u_iso_frame_desc u) None dev of (ds, errors, amount, chunk, dev') \<Rightarrow>
            (0, u\<lparr>u_error_count := errors, u_iso_frame_desc := ds, u_actual_length := amount\<rparr>,
             (case chunk of None \<Rightarrow> dev' | Some c \<Rightarrow> send_chunk buf c dev'))))"

text \<open>
  The loop of \<open>vds_fill_audio_in_locked\<close>, on the packets, the bytes still wanted and the two counters. A
  packet that is not used up ends it, since then the wanted bytes are there.
\<close>

fun fill_audio :: "vds_audio_packet list \<Rightarrow> nat \<Rightarrow> u32 \<Rightarrow> u32 \<Rightarrow> bytes \<times> vds_audio_packet list \<times> u32 \<times> u32" where
  "fill_audio [] n queued count = (replicate n 0, [], queued, count)"
| "fill_audio (packet # packets) n queued count =
     (if n = 0 then ([], packet # packets, queued, count)
      else
        (let available = length (ap_payload packet) - ap_offset packet;
             copy_len = min n available;
             piece = take copy_len (drop (ap_offset packet) (ap_payload packet));
             queued' = (if queued > of_nat copy_len then queued - of_nat copy_len else 0) in
         if ap_offset packet + copy_len = length (ap_payload packet) then
           (case fill_audio packets (n - copy_len) queued' (count - 1) of (data, r) \<Rightarrow> (piece @ data, r))
         else (piece, packet\<lparr>ap_offset := ap_offset packet + copy_len\<rparr> # packets, queued', count)))"

definition vds_fill_audio_in_locked :: "nat \<Rightarrow> vds_hcd_dev \<Rightarrow> bytes \<times> vds_hcd_dev" where
  "vds_fill_audio_in_locked n dev =
     (case fill_audio (hd_audio_in_packets dev) n (hd_audio_in_queued_bytes dev) (hd_audio_in_packet_count dev) of
        (data, packets, queued, count) \<Rightarrow>
          (data, dev\<lparr>hd_audio_in_packets := packets, hd_audio_in_queued_bytes := queued,
                     hd_audio_in_packet_count := count\<rparr>))"

fun iso_in_loop :: "urb \<Rightarrow> iso_packet list \<Rightarrow> bytes \<Rightarrow> vds_hcd_dev \<Rightarrow>
    iso_packet list \<times> nat \<times> nat \<times> bytes \<times> vds_hcd_dev" where
  "iso_in_loop u [] buf dev = ([], 0, 0, buf, dev)"
| "iso_in_loop u (desc # descs) buf dev =
     (if \<not> in_buffer u desc then
        (case iso_in_loop u descs buf dev of (ds, errors, amount, buf', dev') \<Rightarrow>
          (desc\<lparr>ip_status := - EOVERFLOW, ip_actual_length := 0\<rparr> # ds, Suc errors, amount, buf', dev'))
      else
        (let n = min (ip_length desc) VDS_AUDIO_IN_BYTES_PER_MS in
         case vds_fill_audio_in_locked n dev of (data, dev1) \<Rightarrow>
         case iso_in_loop u descs (overlay data (ip_offset desc) buf) dev1 of (ds, errors, amount, buf', dev') \<Rightarrow>
           (desc\<lparr>ip_status := 0, ip_actual_length := n\<rparr> # ds, errors, n + amount, buf', dev')))"

definition vds_iso_in_urb :: "urb \<Rightarrow> vds_hcd_dev \<Rightarrow> int \<times> urb \<times> vds_hcd_dev" where
  "vds_iso_in_urb u dev =
     (case u_transfer_buffer u of
        None \<Rightarrow> (- EPIPE, u, dev)
      | Some buf \<Rightarrow>
          (case iso_in_loop u (u_iso_frame_desc u) buf dev of (ds, errors, amount, buf', dev') \<Rightarrow>
            (0, u\<lparr>u_error_count := errors, u_iso_frame_desc := ds, u_actual_length := amount,
                  u_transfer_buffer := Some buf'\<rparr>, dev')))"

section \<open>The giveback thread\<close>

text \<open>
  One turn of the loop is the section under the lock, \<open>vds_giveback_take\<close>, and, when it took a URB, the
  rest, \<open>vds_giveback_finish\<close>. The thread waits on an empty queue and sleeps until the first entry is ready.
\<close>

datatype giveback = Giveback_wait | Giveback_sleep int | Giveback_take nat

definition ktime_us_delta :: "int \<Rightarrow> int \<Rightarrow> int" where
  "ktime_us_delta later earlier = c_div (later - earlier) 1000"

definition vds_giveback_take :: "int \<Rightarrow> vds_hcd_dev \<Rightarrow> giveback \<times> vds_hcd_dev" where
  "vds_giveback_take now dev =
     (case hd_completed_urbs dev of
        [] \<Rightarrow> (Giveback_wait, dev)
      | u # us \<Rightarrow>
          if ready_time dev u \<noteq> 0 \<and> ktime_us_delta (ready_time dev u) now > 0
          then (Giveback_sleep (ready_time dev u), dev)
          else (Giveback_take u,
                (change_context u (\<lambda>c. c\<lparr>uc_state := VDS_URB_GIVING_BACK, uc_hcpriv := False\<rparr>) dev)\<lparr>hd_completed_urbs := us\<rparr>))"

definition vds_giveback_finish :: "nat \<Rightarrow> vds_hcd_dev \<Rightarrow> vds_hcd_dev" where
  "vds_giveback_finish u dev =
     (let context = vds_context dev u;
          (status1, urb1, dev1) =
            (if uc_status context = 0 \<and> uc_deliver_iso_out context then vds_iso_out_urb (uc_urb context) dev
             else (uc_status context, uc_urb context, dev));
          (status2, urb2, dev2) =
            (if status1 = 0 \<and> uc_deliver_iso_in context then vds_iso_in_urb urb1 dev1
             else (status1, urb1, dev1)) in
      dev2\<lparr>hd_given_back := hd_given_back dev2 @ [(u, urb2, status2)],
           hd_contexts := (hd_contexts dev2)(u := None)\<rparr>)"

definition vds_giveback_turn :: "int \<Rightarrow> vds_hcd_dev \<Rightarrow> vds_hcd_dev" where
  "vds_giveback_turn now dev =
     (case vds_giveback_take now dev of
        (Giveback_take u, dev') \<Rightarrow> vds_giveback_finish u dev'
      | (_, dev') \<Rightarrow> dev')"

section \<open>Frames from user space\<close>

definition vds_fill_hid_in_urb :: "bytes \<Rightarrow> urb \<Rightarrow> urb" where
  "vds_fill_hid_in_urb payload u =
     (let copy_len = min (length payload) (u_transfer_buffer_length u) in
      u\<lparr>u_transfer_buffer := map_option (overlay (take copy_len payload) 0) (u_transfer_buffer u),
        u_actual_length := copy_len\<rparr>)"

definition set_urb :: "nat \<Rightarrow> urb \<Rightarrow> vds_hcd_dev \<Rightarrow> vds_hcd_dev" where
  "set_urb u urb dev = change_context u (\<lambda>c. c\<lparr>uc_urb := urb\<rparr>) dev"

definition vds_schedule_hid_in_giveback_locked :: "int \<Rightarrow> nat \<Rightarrow> vds_hcd_dev \<Rightarrow> vds_hcd_dev" where
  "vds_schedule_hid_in_giveback_locked now u dev =
     (let base = (if hd_next_hid_in_ready dev > now then hd_next_hid_in_ready dev else now);
          ready = base + cp_hid_in_interval_us (vds_usb_device_profile (hd_usb dev)) * 1000 in
      (change_context u (\<lambda>c. c\<lparr>uc_ready_time := ready\<rparr>) dev)\<lparr>hd_next_hid_in_ready := ready\<rparr>)"

definition vds_complete_pending_input_locked :: "int \<Rightarrow> bytes \<Rightarrow> vds_hcd_dev \<Rightarrow> bool \<times> vds_hcd_dev" where
  "vds_complete_pending_input_locked now payload dev =
     (case hd_pending_hid_in dev of
        [] \<Rightarrow> (False, dev)
      | u # us \<Rightarrow>
          (True, snd (vds_queue_urb_giveback_locked u 0
             (vds_schedule_hid_in_giveback_locked now u
               (set_urb u (vds_fill_hid_in_urb payload (uc_urb (vds_context dev u))) dev)))))"

definition vds_queue_input_packet_locked :: "bytes \<Rightarrow> vds_hcd_dev \<Rightarrow> int \<times> vds_hcd_dev" where
  "vds_queue_input_packet_locked payload dev =
     (if hd_input_packets dev \<noteq> [] then
        (0, dev\<lparr>hd_input_packets := (hd_input_packets dev)[length (hd_input_packets dev) - 1 := payload]\<rparr>)
      else case kmalloc dev of (ok, dev) \<Rightarrow>
        if \<not> ok then (- ENOMEM, dev)
        else (0, dev\<lparr>hd_input_packets := hd_input_packets dev @ [payload],
                     hd_input_packet_count := hd_input_packet_count dev + 1\<rparr>))"

definition vds_write_input_frame :: "int \<Rightarrow> bytes \<Rightarrow> vds_hcd_dev \<Rightarrow> int \<times> vds_hcd_dev" where
  "vds_write_input_frame now payload dev =
     (if payload = [] \<or> length payload > VDS_CONTROLLER_HID_PACKET_SIZE then (- EINVAL, dev)
      else
        (let (ret, dev') =
           (if hd_stopping dev then (- ESHUTDOWN, dev)
            else case vds_complete_pending_input_locked now payload dev of
              (completed, dev') \<Rightarrow> if completed then (0, dev') else vds_queue_input_packet_locked payload dev') in
         (ret, if ret = 0 then dev'\<lparr>hd_frames_from_user := hd_frames_from_user dev' + 1\<rparr> else dev')))"

definition vds_fill_feature_urb :: "bytes \<Rightarrow> urb \<Rightarrow> int \<times> urb" where
  "vds_fill_feature_urb payload u =
     (let copy_len = min (length payload) (u_transfer_buffer_length u) in
      if copy_len \<noteq> 0 \<and> u_transfer_buffer u = None then (- EPIPE, u)
      else (0, u\<lparr>u_transfer_buffer := map_option (overlay (take copy_len payload) 0) (u_transfer_buffer u),
                 u_actual_length := copy_len\<rparr>))"

fun complete_replies :: "bytes \<Rightarrow> nat list \<Rightarrow> vds_hcd_dev \<Rightarrow> vds_hcd_dev" where
  "complete_replies payload [] dev = dev"
| "complete_replies payload (u # us) dev =
     (if uc_feature_report_id (vds_context dev u) \<noteq> payload ! 0 then complete_replies payload us dev
      else case vds_fill_feature_urb payload (uc_urb (vds_context dev u)) of (status, urb) \<Rightarrow>
        complete_replies payload us (snd (vds_queue_urb_giveback_locked u status (set_urb u urb dev))))"

definition vds_complete_pending_feature_replies_locked :: "bytes \<Rightarrow> vds_hcd_dev \<Rightarrow> vds_hcd_dev" where
  "vds_complete_pending_feature_replies_locked payload dev = complete_replies payload (hd_pending_feature_get dev) dev"

definition vds_write_feature_reply :: "bytes \<Rightarrow> vds_hcd_dev \<Rightarrow> int \<times> vds_hcd_dev" where
  "vds_write_feature_reply payload dev =
     (case vds_usb_device_update_feature_reply payload (hd_usb dev) of
        (ret, usb) \<Rightarrow>
          (let dev = dev\<lparr>hd_usb := usb\<rparr> in
           if ret \<noteq> 0 then (ret, dev)
           else if hd_stopping dev then (- ESHUTDOWN, dev)
           else (let dev' = vds_complete_pending_feature_replies_locked payload dev in
                 (0, dev'\<lparr>hd_frames_from_user := hd_frames_from_user dev' + 1\<rparr>))))"

text \<open>The loop that makes room: the packets, the bytes queued and their count.\<close>

fun drop_oldest :: "u32 \<Rightarrow> vds_audio_packet list \<Rightarrow> u32 \<Rightarrow> u32 \<Rightarrow> vds_audio_packet list \<times> u32 \<times> u32" where
  "drop_oldest n [] queued count = ([], queued, count)"
| "drop_oldest n (oldest # packets) queued count =
     (if queued + n > of_nat VDS_AUDIO_IN_QUEUE_MAX_BYTES then
        (let available = of_nat (length (ap_payload oldest) - ap_offset oldest) in
         drop_oldest n packets (if queued > available then queued - available else 0) (count - 1))
      else (oldest # packets, queued, count))"

definition vds_write_audio_in_frame :: "bytes \<Rightarrow> vds_hcd_dev \<Rightarrow> int \<times> vds_hcd_dev" where
  "vds_write_audio_in_frame payload dev =
     (if payload = [] then (- EINVAL, dev)
      else case kmalloc dev of (ok, dev) \<Rightarrow>
        if \<not> ok then (- ENOMEM, dev)
        else if hd_stopping dev then (- ESHUTDOWN, dev)
        else (case drop_oldest (of_nat (length payload)) (hd_audio_in_packets dev) (hd_audio_in_queued_bytes dev)
                     (hd_audio_in_packet_count dev) of
          (packets, queued, count) \<Rightarrow>
            (0, dev\<lparr>hd_audio_in_packets := packets @ [\<lparr>ap_offset = 0, ap_payload = payload\<rparr>],
                    hd_audio_in_packet_count := count + 1,
                    hd_audio_in_queued_bytes := queued + of_nat (length payload),
                    hd_frames_from_user := hd_frames_from_user dev + 1\<rparr>)))"

text \<open>
  \<open>vds_write\<close>: \<open>fault\<close> says that the copy of the header fails, \<open>dup\<close> is 0 or the error of \<open>memdup_user\<close>.
\<close>

definition vds_write :: "int \<Rightarrow> bool \<Rightarrow> int \<Rightarrow> bytes \<Rightarrow> vds_hcd_dev \<Rightarrow> int \<times> vds_hcd_dev" where
  "vds_write now fault dup buf dev =
     (if length buf < 16 then (- EINVAL, dev)
      else if hd_stopping dev then (- ESHUTDOWN, dev)
      else if fault then (- EFAULT, dev)
      else
        (let header = parse_header buf; payload = drop 16 buf in
         if unat (fh_length header) > VDS_FRAME_MAX_PAYLOAD \<or> length buf \<noteq> 16 + unat (fh_length header) then (- EINVAL, dev)
         else if fh_flags header \<noteq> 0 then (- EINVAL, dev)
         else if fh_type header \<notin> {VDS_FRAME_USB_HID_IN, VDS_FRAME_USB_FEATURE_REPLY, VDS_FRAME_USB_AUDIO_IN}
         then (- EINVAL, dev)
         else if fh_length header \<noteq> 0 \<and> dup \<noteq> 0 then (dup, dev)
         else (case (if fh_type header = VDS_FRAME_USB_HID_IN then vds_write_input_frame now payload dev
                     else if fh_type header = VDS_FRAME_USB_FEATURE_REPLY then vds_write_feature_reply payload dev
                     else vds_write_audio_in_frame payload dev) of
           (ret, dev') \<Rightarrow> (if ret \<noteq> 0 then ret else int (length buf), dev'))))"

section \<open>Connection\<close>

definition USB_PORT_STAT_CONNECTION :: u32 where "USB_PORT_STAT_CONNECTION = 0x1"
definition USB_PORT_STAT_ENABLE :: u32 where "USB_PORT_STAT_ENABLE = 0x2"
definition USB_PORT_STAT_RESET :: u32 where "USB_PORT_STAT_RESET = 0x10"
definition USB_PORT_STAT_POWER :: u32 where "USB_PORT_STAT_POWER = 0x100"
definition USB_PORT_STAT_HIGH_SPEED :: u32 where "USB_PORT_STAT_HIGH_SPEED = 0x400"
definition C_CONNECTION :: u32 where "C_CONNECTION = 0x10000"
definition C_RESET :: u32 where "C_RESET = 0x100000"
definition PORT_C_MASK :: u32 where "PORT_C_MASK = 0x1f0000"

lemmas port_bits = USB_PORT_STAT_CONNECTION_def USB_PORT_STAT_ENABLE_def USB_PORT_STAT_RESET_def USB_PORT_STAT_POWER_def
  USB_PORT_STAT_HIGH_SPEED_def C_CONNECTION_def C_RESET_def PORT_C_MASK_def

definition notify_root_hub :: "root_hub_call list \<Rightarrow> vds_hcd_dev \<Rightarrow> vds_hcd_dev" where
  "notify_root_hub calls dev = dev\<lparr>hd_root_hub := hd_root_hub dev @ calls\<rparr>"

definition was_connected :: "vds_hcd_dev \<Rightarrow> bool" where
  "was_connected dev \<longleftrightarrow> hd_port_status dev AND USB_PORT_STAT_CONNECTION \<noteq> 0"

definition connect_locked :: "vds_hcd_dev \<Rightarrow> vds_hcd_dev" where
  "connect_locked dev =
     vds_status_set_locked VDS_STATUS_CONNECTED True
       (dev\<lparr>hd_port_status := hd_port_status dev OR USB_PORT_STAT_POWER OR USB_PORT_STAT_CONNECTION OR
              (if was_connected dev then 0 else C_CONNECTION)\<rparr>)"

definition disconnect_locked :: "vds_hcd_dev \<Rightarrow> vds_hcd_dev" where
  "disconnect_locked dev =
     (let port_status = (hd_port_status dev AND NOT (USB_PORT_STAT_CONNECTION OR USB_PORT_STAT_ENABLE OR
             USB_PORT_STAT_HIGH_SPEED)) OR (if was_connected dev then C_CONNECTION else 0);
          dev1 = vds_flush_buffered_frames_locked
            (snd (vds_cancel_pending_urbs_locked (- ESHUTDOWN) (dev\<lparr>hd_port_status := port_status\<rparr>))) in
      vds_status_set_locked
        (VDS_STATUS_CONNECTED OR VDS_STATUS_CONFIGURED OR VDS_STATUS_HID_ENABLED OR VDS_STATUS_AUDIO_ENABLED) False
        (dev1\<lparr>hd_next_iso_out_ready := 0, hd_next_iso_in_ready := 0, hd_next_hid_in_ready := 0\<rparr>))"

definition vds_set_connection :: "bool \<Rightarrow> vds_hcd_dev \<Rightarrow> vds_hcd_dev" where
  "vds_set_connection connected dev =
     (if hd_stopping dev then dev
      else notify_root_hub [Resume_root_hub, Poll_rh_status]
        (if connected then connect_locked dev
         else (let dev' = disconnect_locked dev in dev'\<lparr>hd_usb := vds_usb_reset_state_locked (hd_usb dev')\<rparr>)))"

text \<open>The commands of \<open>vds_ioctl\<close>; \<open>SET_PROFILE\<close> with its profile and polling rate mode.\<close>

datatype vds_ioc = VDS_IOC_GET_STATUS | VDS_IOC_GET_DRIVER_INFO | VDS_IOC_SET_PROFILE u32 u32 | VDS_IOC_CONNECT |
  VDS_IOC_DISCONNECT | VDS_IOC_OTHER

definition status_bytes :: "vds_hcd_dev \<Rightarrow> bytes" where
  "status_bytes dev = le32 (hd_status_flags dev) @ le32 (ud_profile (hd_usb dev)) @ le64 (hd_frames_to_user dev) @
     le64 (hd_frames_from_user dev)"

definition driver_info_bytes :: "string \<Rightarrow> bytes" where
  "driver_info_bytes version =
     (let text = map of_char (take 63 version) in le32 1 @ le32 72 @ text @ replicate (64 - length text) 0)"

definition set_profile :: "u32 \<Rightarrow> u32 \<Rightarrow> vds_hcd_dev \<Rightarrow> int \<times> vds_hcd_dev" where
  "set_profile profile polling_rate_mode dev =
     (if polling_rate_mode \<noteq> 0 then (- EOPNOTSUPP, dev)
      else if hd_status_flags dev AND VDS_STATUS_CONNECTED \<noteq> 0 then (- EBUSY, dev)
      else case vds_usb_device_set_profile profile (hd_usb dev) of (ret, usb) \<Rightarrow>
        if ret \<noteq> 0 then (ret, dev)
        else (0, vds_status_set_locked (VDS_STATUS_CONFIGURED OR VDS_STATUS_HID_ENABLED OR VDS_STATUS_AUDIO_ENABLED) False
                   (dev\<lparr>hd_usb := usb\<rparr>)))"

definition vds_ioctl :: "string \<Rightarrow> bool \<Rightarrow> vds_ioc \<Rightarrow> vds_hcd_dev \<Rightarrow> int \<times> bytes \<times> vds_hcd_dev" where
  "vds_ioctl version fault cmd dev =
     (if cmd \<noteq> VDS_IOC_GET_STATUS \<and> cmd \<noteq> VDS_IOC_GET_DRIVER_INFO \<and> hd_stopping dev then (- ESHUTDOWN, [], dev)
      else case cmd of
        VDS_IOC_GET_STATUS \<Rightarrow> if fault then (- EFAULT, [], dev) else (0, status_bytes dev, dev)
      | VDS_IOC_GET_DRIVER_INFO \<Rightarrow> if fault then (- EFAULT, [], dev) else (0, driver_info_bytes version, dev)
      | VDS_IOC_SET_PROFILE profile polling_rate_mode \<Rightarrow>
          if fault then (- EFAULT, [], dev)
          else (case set_profile profile polling_rate_mode dev of (ret, dev') \<Rightarrow> (ret, [], dev'))
      | VDS_IOC_CONNECT \<Rightarrow> (0, [], vds_set_connection True dev)
      | VDS_IOC_DISCONNECT \<Rightarrow> (0, [], vds_set_connection False dev)
      | VDS_IOC_OTHER \<Rightarrow> (- ENOTTY, [], dev))"

definition vds_open :: "vds_hcd_dev \<Rightarrow> int \<times> vds_hcd_dev" where
  "vds_open dev = (if hd_opened dev then (- EBUSY, dev) else (0, dev\<lparr>hd_opened := True\<rparr>))"

definition vds_release :: "vds_hcd_dev \<Rightarrow> vds_hcd_dev" where
  "vds_release dev =
     (let disconnect = hd_status_flags dev AND VDS_STATUS_CONNECTED \<noteq> 0; dev' = dev\<lparr>hd_opened := False\<rparr> in
      if disconnect then vds_set_connection False dev' else dev')"

section \<open>URBs\<close>

definition iso_duration_us :: "bool \<Rightarrow> iso_packet list \<Rightarrow> u32" where
  "iso_duration_us input descs =
     (let amount = sum_list (map (\<lambda>desc. of_nat (if input then min (ip_length desc) VDS_AUDIO_IN_BYTES_PER_MS
                                                else ip_length desc)) descs) :: u32;
          bytes_per_ms = (if input then VDS_AUDIO_IN_BYTES_PER_MS else VDS_AUDIO_OUT_BYTES_PER_MS) in
      if amount \<noteq> 0 then max (of_nat ((unat amount * 1000 + (bytes_per_ms - 1)) div bytes_per_ms)) 1000
      else max (of_nat (length descs)) 1 * 1000)"

definition vds_schedule_iso_giveback :: "int \<Rightarrow> bool \<Rightarrow> nat \<Rightarrow> vds_hcd_dev \<Rightarrow> vds_hcd_dev" where
  "vds_schedule_iso_giveback now input u dev =
     (let duration_us = iso_duration_us input (u_iso_frame_desc (uc_urb (vds_context dev u)));
          next_ready = (if input then hd_next_iso_in_ready dev else hd_next_iso_out_ready dev);
          base = (if next_ready > now then next_ready else now);
          ready = base + uint duration_us * 1000;
          dev' = change_context u (\<lambda>c. c\<lparr>uc_urb := (uc_urb c)\<lparr>u_start_frame := cast_s32 (base div 1000000)\<rparr>,
                                         uc_ready_time := ready\<rparr>) dev in
      if input then dev'\<lparr>hd_next_iso_in_ready := ready\<rparr> else dev'\<lparr>hd_next_iso_out_ready := ready\<rparr>)"

definition vds_interrupt_out_urb :: "nat \<Rightarrow> vds_hcd_dev \<Rightarrow> int \<times> vds_hcd_dev" where
  "vds_interrupt_out_urb u dev =
     (let urb = uc_urb (vds_context dev u); n = u_transfer_buffer_length urb in
      if n = 0 then (0, set_urb u (urb\<lparr>u_actual_length := 0\<rparr>) dev)
      else case u_transfer_buffer urb of
        None \<Rightarrow> (- EPIPE, dev)
      | Some buf \<Rightarrow>
          if n > VDS_CONTROLLER_HID_PACKET_SIZE then (- EPIPE, dev)
          else (0, set_urb u (urb\<lparr>u_actual_length := n\<rparr>) (snd (vds_enqueue_frame VDS_FRAME_USB_HID_OUT (take n buf) dev))))"

definition vds_interrupt_in_urb :: "int \<Rightarrow> nat \<Rightarrow> vds_hcd_dev \<Rightarrow> int \<times> vds_hcd_dev" where
  "vds_interrupt_in_urb now u dev =
     (case vds_pop_input_packet_locked dev of
        (Some packet, dev') \<Rightarrow>
          (0, vds_schedule_hid_in_giveback_locked now u
                (set_urb u (vds_fill_hid_in_urb packet (uc_urb (vds_context dev u))) dev'))
      | (None, dev') \<Rightarrow>
          (- EINPROGRESS, (change_context u (\<lambda>c. c\<lparr>uc_state := VDS_URB_PENDING_HID_IN\<rparr>) dev')\<lparr>
             hd_pending_hid_in := hd_pending_hid_in dev' @ [u], hd_fault := hd_fault dev' \<or> on_queue dev' u\<rparr>))"

text \<open>\<open>vds_urb_enqueue\<close> up to the point where the URB is linked; \<open>link\<close> is what \<open>usb_hcd_link_urb_to_ep\<close> returns.\<close>

definition new_context :: "urb \<Rightarrow> vds_urb_context" where
  "new_context urb = \<lparr>uc_urb = urb, uc_hcpriv = True, uc_ready_time = 0, uc_status = 0, uc_feature_report_id = 0,
     uc_state = VDS_URB_ACTIVE, uc_deliver_iso_out = False, uc_deliver_iso_in = False\<rparr>"

definition vds_urb_link :: "int \<Rightarrow> nat \<Rightarrow> urb \<Rightarrow> vds_hcd_dev \<Rightarrow> int \<times> vds_hcd_dev" where
  "vds_urb_link link u urb dev =
     (case kmalloc dev of (ok, dev) \<Rightarrow>
        if \<not> ok then (- ENOMEM, dev)
        else if hd_stopping dev then (- ESHUTDOWN, dev)
        else if link \<noteq> 0 then (link, dev)
        else (0, dev\<lparr>hd_contexts := (hd_contexts dev)(u \<mapsto> new_context urb)\<rparr>))"

definition control_urb :: "nat \<Rightarrow> vds_hcd_dev \<Rightarrow> int \<times> vds_hcd_dev" where
  "control_urb u dev =
     (case vds_usb_device_control_urb (vds_usb_ops u) (hd_usb dev, uc_urb (vds_context dev u), dev) of
        (ret, usb, urb, dev') \<Rightarrow> (ret, set_urb u urb (dev'\<lparr>hd_usb := usb\<rparr>)))"

definition iso_urb :: "int \<Rightarrow> nat \<Rightarrow> vds_hcd_dev \<Rightarrow> int \<times> vds_hcd_dev" where
  "iso_urb now u dev =
     (let urb = uc_urb (vds_context dev u) in
      if \<not> u_dir_in urb \<and> vds_usb_device_is_audio_out (hd_usb dev) (u_endpoint urb) then
        (if u_transfer_buffer urb = None then (- EPIPE, dev)
         else (0, vds_schedule_iso_giveback now False u (change_context u (\<lambda>c. c\<lparr>uc_deliver_iso_out := True\<rparr>) dev)))
      else if u_dir_in urb \<and> vds_usb_device_is_audio_in (hd_usb dev) (u_endpoint urb) then
        (if u_transfer_buffer urb = None then (- EPIPE, dev)
         else (0, vds_schedule_iso_giveback now True u (change_context u (\<lambda>c. c\<lparr>uc_deliver_iso_in := True\<rparr>) dev)))
      else (- EPIPE, dev))"

definition interrupt_urb :: "int \<Rightarrow> nat \<Rightarrow> vds_hcd_dev \<Rightarrow> int \<times> vds_hcd_dev" where
  "interrupt_urb now u dev =
     (let urb = uc_urb (vds_context dev u) in
      if u_dir_in urb \<and> vds_usb_device_is_hid_in (hd_usb dev) (u_endpoint urb) then vds_interrupt_in_urb now u dev
      else if \<not> u_dir_in urb \<and> vds_usb_device_is_hid_out (hd_usb dev) (u_endpoint urb) then vds_interrupt_out_urb u dev
      else (- EPIPE, dev))"

text \<open>
  The rest of \<open>vds_urb_enqueue\<close>: \<open>vds_urb_switch\<close> is the switch on the pipe, with the schedule of a timed
  transfer, and \<open>vds_urb_handle\<close> the switch and the queueing for giveback.
\<close>

definition vds_urb_switch :: "int \<Rightarrow> nat \<Rightarrow> vds_hcd_dev \<Rightarrow> int \<times> vds_hcd_dev" where
  "vds_urb_switch now u dev =
     (case u_pipe (uc_urb (vds_context dev u)) of
        PIPE_CONTROL \<Rightarrow> control_urb u dev
      | PIPE_INTERRUPT \<Rightarrow> interrupt_urb now u dev
      | PIPE_ISOCHRONOUS \<Rightarrow> iso_urb now u dev
      | PIPE_BULK \<Rightarrow> (- EPIPE, dev))"

definition vds_urb_handle :: "int \<Rightarrow> nat \<Rightarrow> vds_hcd_dev \<Rightarrow> vds_hcd_dev" where
  "vds_urb_handle now u dev =
     (if hd_contexts dev u = None then dev\<lparr>hd_fault := True\<rparr>
      else case vds_urb_switch now u dev of
        (ret, dev') \<Rightarrow>
          if ret = - EINPROGRESS then dev' else snd (vds_queue_urb_giveback_locked u ret dev'))"

definition vds_urb_enqueue :: "int \<Rightarrow> int \<Rightarrow> nat \<Rightarrow> urb \<Rightarrow> vds_hcd_dev \<Rightarrow> int \<times> vds_hcd_dev" where
  "vds_urb_enqueue now link u urb dev =
     (case vds_urb_link link u urb dev of
        (ret, dev') \<Rightarrow> if ret \<noteq> 0 then (ret, dev') else (0, vds_urb_handle now u dev'))"

text \<open>\<open>check\<close> is what \<open>usb_hcd_check_unlink_urb\<close> returns.\<close>

definition vds_urb_dequeue :: "int \<Rightarrow> nat \<Rightarrow> int \<Rightarrow> vds_hcd_dev \<Rightarrow> int \<times> vds_hcd_dev" where
  "vds_urb_dequeue check u status dev =
     (if check \<noteq> 0 then (check, dev)
      else case hd_contexts dev u of
        None \<Rightarrow> (0, dev)
      | Some context \<Rightarrow>
          if \<not> uc_hcpriv context then (0, dev)
          else if uc_state context = VDS_URB_PENDING_GIVEBACK then
            (0, change_context u (\<lambda>c. c\<lparr>uc_status := status, uc_ready_time := 0\<rparr>) dev)
          else (0, snd (vds_queue_urb_giveback_locked u status dev)))"

definition vds_get_frame_number :: "int \<Rightarrow> int" where
  "vds_get_frame_number now = cast_s32 (now div 1000000)"

section \<open>The root hub\<close>

definition vds_hub_descriptor :: bytes where
  "vds_hub_descriptor = [9, 0x29, 1] @ le16 1 @ [0, 0, 0, 0xff, 0, 0, 0, 0, 0, 0]"

definition vds_hub_status_data :: "vds_hcd_dev \<Rightarrow> nat \<times> bytes" where
  "vds_hub_status_data dev = (if hd_port_status dev AND PORT_C_MASK \<noteq> 0 then (1, [2]) else (0, []))"

definition ClearHubFeature :: u16 where "ClearHubFeature = 0x2001"
definition GetHubDescriptor :: u16 where "GetHubDescriptor = 0xa006"
definition GetHubStatus :: u16 where "GetHubStatus = 0xa000"
definition GetPortStatus :: u16 where "GetPortStatus = 0xa300"
definition ClearPortFeature :: u16 where "ClearPortFeature = 0x2301"
definition SetPortFeature :: u16 where "SetPortFeature = 0x2303"
definition USB_PORT_FEAT_ENABLE :: u16 where "USB_PORT_FEAT_ENABLE = 1"
definition USB_PORT_FEAT_RESET :: u16 where "USB_PORT_FEAT_RESET = 4"
definition USB_PORT_FEAT_POWER :: u16 where "USB_PORT_FEAT_POWER = 8"

lemmas hub_requests = ClearHubFeature_def GetHubDescriptor_def GetHubStatus_def GetPortStatus_def ClearPortFeature_def
  SetPortFeature_def USB_PORT_FEAT_ENABLE_def USB_PORT_FEAT_RESET_def USB_PORT_FEAT_POWER_def

text \<open>The change features C_CONNECTION, C_ENABLE, C_SUSPEND, C_OVER_CURRENT and C_RESET are 16 to 20.\<close>

definition clear_port_feature :: "u16 \<Rightarrow> u32 \<Rightarrow> u32 option" where
  "clear_port_feature feature status =
     (if feature = USB_PORT_FEAT_ENABLE then Some (status AND NOT USB_PORT_STAT_ENABLE)
      else if feature = USB_PORT_FEAT_POWER then Some (status AND NOT USB_PORT_STAT_POWER)
      else if 16 \<le> feature \<and> feature \<le> 20 then Some (status AND NOT (push_bit (unat feature) 1))
      else None)"

definition set_port_feature :: "u16 \<Rightarrow> u32 \<Rightarrow> u32 option" where
  "set_port_feature feature status =
     (if feature = USB_PORT_FEAT_POWER then Some (status OR USB_PORT_STAT_POWER)
      else if feature = USB_PORT_FEAT_RESET then
        Some (if status AND USB_PORT_STAT_CONNECTION \<noteq> 0
              then (status AND NOT USB_PORT_STAT_RESET) OR USB_PORT_STAT_ENABLE OR USB_PORT_STAT_HIGH_SPEED OR C_RESET
              else status)
      else None)"

definition port_update :: "u16 \<Rightarrow> (u32 \<Rightarrow> u32 option) \<Rightarrow> vds_hcd_dev \<Rightarrow> int \<times> bytes \<times> vds_hcd_dev" where
  "port_update index f dev =
     (if index \<noteq> 1 then (- EPIPE, [], dev)
      else case f (hd_port_status dev) of
        None \<Rightarrow> (- EPIPE, [], dev)
      | Some status \<Rightarrow> (0, [], dev\<lparr>hd_port_status := status\<rparr>))"

definition vds_hub_control :: "u16 \<Rightarrow> u16 \<Rightarrow> u16 \<Rightarrow> vds_hcd_dev \<Rightarrow> int \<times> bytes \<times> vds_hcd_dev" where
  "vds_hub_control type_req feature index dev =
     (case (if type_req = ClearHubFeature then (0, [], dev)
            else if type_req = GetHubDescriptor then (0, vds_hub_descriptor, dev)
            else if type_req = GetHubStatus then (0, le32 0, dev)
            else if type_req = GetPortStatus then
              (if index \<noteq> 1 then (- EPIPE, [], dev)
               else (0, le16 (ucast (hd_port_status dev)) @ le16 (ucast (drop_bit 16 (hd_port_status dev))), dev))
            else if type_req = ClearPortFeature then port_update index (clear_port_feature feature) dev
            else if type_req = SetPortFeature then port_update index (set_port_feature feature) dev
            else (- EPIPE, [], dev)) of
       (ret, buf, dev') \<Rightarrow> (ret, buf, if ret = 0 then notify_root_hub [Poll_rh_status] dev' else dev'))"

section \<open>Life of the controller\<close>

definition vds_hcd_start :: "vds_hcd_dev \<Rightarrow> vds_hcd_dev" where
  "vds_hcd_start dev =
     vds_status_set_locked VDS_STATUS_CONNECTED False
       (dev\<lparr>hd_stopping := False, hd_next_iso_out_ready := 0, hd_next_iso_in_ready := 0, hd_next_hid_in_ready := 0,
            hd_port_status := USB_PORT_STAT_POWER\<rparr>)"

definition vds_hcd_stop :: "vds_hcd_dev \<Rightarrow> vds_hcd_dev" where
  "vds_hcd_stop dev =
     (vds_flush_buffered_frames_locked (snd (vds_cancel_pending_urbs_locked (- ESHUTDOWN) (dev\<lparr>hd_stopping := True\<rparr>))))
       \<lparr>hd_status_flags := 0\<rparr>"

text \<open>The private data as \<open>vds_hcd_probe\<close> sets it up.\<close>

definition probed :: "bool list \<Rightarrow> vds_hcd_dev" where
  "probed allocs =
     \<lparr>hd_contexts = Map.empty, hd_events = [], hd_pending_hid_in = [], hd_pending_feature_get = [],
      hd_completed_urbs = [], hd_input_packets = [], hd_audio_in_packets = [], hd_frames_to_user = 0,
      hd_frames_from_user = 0, hd_next_sequence = 0, hd_next_iso_out_ready = 0, hd_next_iso_in_ready = 0,
      hd_next_hid_in_ready = 0, hd_event_count = 0, hd_status_flags = 0, hd_port_status = 0, hd_stopping = False,
      hd_opened = False, hd_input_packet_count = 0, hd_audio_in_packet_count = 0, hd_audio_in_queued_bytes = 0,
      hd_usb = vds_usb_device_init VDS_PROFILE_DS5, hd_allocs = allocs, hd_given_back = [], hd_root_hub = [],
      hd_fault = False\<rparr>"

text \<open>
  \<open>vds_hcd_probe\<close> and the module's entry and exit: the calls they make, in order, from the results of the
  calls. \<open>created\<close> is whether \<open>usb_create_hcd\<close> returns a controller.
\<close>

datatype kernel_call = Create_hcd | Run_thread | Add_hcd | Register_misc | Deregister_misc | Remove_hcd | Stop_thread | Put_hcd |
  Register_driver | Unregister_driver | Register_device nat | Unregister_device nat

definition vds_hcd_probe :: "bool \<Rightarrow> int \<Rightarrow> int \<Rightarrow> int \<Rightarrow> int \<times> kernel_call list" where
  "vds_hcd_probe created thread added registered =
     (if \<not> created then (- ENOMEM, [])
      else if thread \<noteq> 0 then (thread, [Create_hcd, Put_hcd])
      else if added \<noteq> 0 then (added, [Create_hcd, Run_thread, Stop_thread, Put_hcd])
      else if registered \<noteq> 0 then (registered, [Create_hcd, Run_thread, Add_hcd, Remove_hcd, Stop_thread, Put_hcd])
      else (0, [Create_hcd, Run_thread, Add_hcd, Register_misc]))"

definition vds_hcd_remove :: "kernel_call list" where
  "vds_hcd_remove = [Deregister_misc, Remove_hcd, Stop_thread, Put_hcd]"

text \<open>The registration loop: the devices it registered, and the error that ended it.\<close>

fun register_devices :: "(nat \<Rightarrow> int) \<Rightarrow> nat list \<Rightarrow> int \<times> nat list" where
  "register_devices result [] = (0, [])"
| "register_devices result (i # is) =
     (if result i \<noteq> 0 then (result i, [])
      else case register_devices result is of (ret, ds) \<Rightarrow> (ret, i # ds))"

definition vds_hcd_init :: "u32 \<Rightarrow> int \<Rightarrow> bool \<Rightarrow> (nat \<Rightarrow> int) \<Rightarrow> int \<times> nat list \<times> kernel_call list" where
  "vds_hcd_init max_port driver ok result =
     (if max_port < 1 \<or> max_port > 4 then (- EINVAL, [], [])
      else if driver \<noteq> 0 then (driver, [], [])
      else if \<not> ok then (- ENOMEM, [], [Register_driver, Unregister_driver])
      else case register_devices result [0..<unat max_port] of (ret, ds) \<Rightarrow>
        if ret \<noteq> 0
        then (ret, [], Register_driver # map Register_device ds @ map Unregister_device (rev ds) @ [Unregister_driver])
        else (0, ds, Register_driver # map Register_device ds))"

definition vds_hcd_exit :: "nat list \<Rightarrow> kernel_call list" where
  "vds_hcd_exit ds = map Unregister_device (rev ds) @ [Unregister_driver]"

end
