(* ===== verification/HcdInv.thy ===== *)
theory HcdInv
  imports Hcd
begin

text \<open>
  The invariant of the virtual host controller and that every operation keeps it. Its parts are stated on
  the fields they are about: the frames for user space, the buffered input, the buffered microphone audio,
  the state of the USB device, and the URBs on their queues.
\<close>

section \<open>Parts of the invariant\<close>

definition event_ok :: "vds_event \<Rightarrow> bool" where
  "event_ok e \<longleftrightarrow> fh_flags (ev_header e) = 0 \<and> unat (fh_length (ev_header e)) = length (ev_payload e) \<and>
     length (ev_payload e) \<le> VDS_FRAME_MAX_PAYLOAD"

definition numbered :: "u64 \<Rightarrow> vds_event list \<Rightarrow> bool" where
  "numbered following events \<longleftrightarrow>
     (\<forall>i < length events. fh_sequence (ev_header (events ! i)) = following - of_nat (length events - i))"

definition frames_ok :: "vds_event list \<Rightarrow> u32 \<Rightarrow> u64 \<Rightarrow> u64 \<Rightarrow> bool" where
  "frames_ok events count following sent \<longleftrightarrow> unat count = length events \<and> length events \<le> 16384 \<and>
     list_all event_ok events \<and> numbered following events \<and> sent = following"

definition input_ok :: "bytes list \<Rightarrow> u32 \<Rightarrow> bool" where
  "input_ok packets count \<longleftrightarrow> unat count = length packets \<and> length packets \<le> 1 \<and>
     list_all (\<lambda>p. 0 < length p \<and> length p \<le> VDS_CONTROLLER_HID_PACKET_SIZE) packets"

definition available :: "vds_audio_packet \<Rightarrow> nat" where
  "available packet = length (ap_payload packet) - ap_offset packet"

definition audio_packet_ok :: "vds_audio_packet \<Rightarrow> bool" where
  "audio_packet_ok packet \<longleftrightarrow> ap_offset packet < length (ap_payload packet) \<and>
     length (ap_payload packet) \<le> VDS_FRAME_MAX_PAYLOAD"

definition audio_sum :: "vds_audio_packet list \<Rightarrow> nat" where
  "audio_sum packets = sum_list (map available packets)"

definition audio_ok :: "vds_audio_packet list \<Rightarrow> u32 \<Rightarrow> u32 \<Rightarrow> bool" where
  "audio_ok packets queued count \<longleftrightarrow> list_all audio_packet_ok packets \<and> unat queued = audio_sum packets \<and>
     audio_sum packets \<le> VDS_AUDIO_IN_QUEUE_MAX_BYTES \<and> unat count = length packets"

definition usb_ok :: "vds_usb_device \<Rightarrow> bool" where
  "usb_ok usb \<longleftrightarrow> vds_usb_valid_profile (ud_profile usb) \<and> length (ud_audio_mute usb) = 2 \<and>
     length (ud_audio_volume usb) = 2 \<and> length (ud_feature_cache usb) = 256 \<and> length (ud_feature_cache_len usb) = 256 \<and>
     list_all (\<lambda>c. length c = VDS_CONTROLLER_HID_PACKET_SIZE) (ud_feature_cache usb) \<and>
     list_all (\<lambda>n. n \<le> VDS_CONTROLLER_HID_PACKET_SIZE) (ud_feature_cache_len usb)"

text \<open>
  A submission is on a queue exactly when its context is in the state of that queue; \<open>active\<close> are the
  submissions \<open>vds_urb_enqueue\<close> is working on.
\<close>

definition in_state :: "(nat \<rightharpoonup> vds_urb_context) \<Rightarrow> vds_urb_context_state \<Rightarrow> nat set" where
  "in_state C s = {u. \<exists>c. C u = Some c \<and> uc_state c = s}"

definition ready_of :: "(nat \<rightharpoonup> vds_urb_context) \<Rightarrow> nat \<Rightarrow> int" where
  "ready_of C u = uc_ready_time (the (C u))"

definition timed :: "(nat \<Rightarrow> int) \<Rightarrow> nat list \<Rightarrow> int list" where
  "timed ready queue = filter (\<lambda>t. t \<noteq> 0) (map ready queue)"

text \<open>The size of a URB's buffer, and that the buffer has the length the URB says.\<close>

definition urb_size :: "urb \<Rightarrow> nat option \<times> nat" where
  "urb_size u = (map_option length (u_transfer_buffer u), u_transfer_buffer_length u)"

definition urb_fits :: "urb \<Rightarrow> bool" where
  "urb_fits u \<longleftrightarrow> (\<forall>buf. u_transfer_buffer u = Some buf \<longrightarrow> length buf = u_transfer_buffer_length u)"

definition sizes :: "vds_hcd_dev \<Rightarrow> nat \<rightharpoonup> nat option \<times> nat" where
  "sizes dev u = map_option (\<lambda>c. urb_size (uc_urb c)) (hd_contexts dev u)"

definition context_ok :: "vds_urb_context \<Rightarrow> bool" where
  "context_ok c \<longleftrightarrow> (uc_hcpriv c \<longleftrightarrow> uc_state c \<noteq> VDS_URB_GIVING_BACK) \<and>
     (uc_deliver_iso_out c \<or> uc_deliver_iso_in c \<longrightarrow> u_transfer_buffer (uc_urb c) \<noteq> None) \<and> urb_fits (uc_urb c)"

definition urbs_ok :: "nat set \<Rightarrow> (nat \<rightharpoonup> vds_urb_context) \<Rightarrow> nat list \<Rightarrow> nat list \<Rightarrow> nat list \<Rightarrow> bool" where
  "urbs_ok active C hid feature completed \<longleftrightarrow>
     distinct hid \<and> distinct feature \<and> distinct completed \<and>
     set hid = in_state C VDS_URB_PENDING_HID_IN \<and> set feature = in_state C VDS_URB_PENDING_FEATURE_GET \<and>
     set completed = in_state C VDS_URB_PENDING_GIVEBACK \<and> in_state C VDS_URB_ACTIVE = active \<and>
     (\<forall>u c. C u = Some c \<longrightarrow> context_ok c) \<and> sorted (timed (ready_of C) completed)"

definition hcd_ok :: "nat set \<Rightarrow> vds_hcd_dev \<Rightarrow> bool" where
  "hcd_ok active dev \<longleftrightarrow>
     frames_ok (hd_events dev) (hd_event_count dev) (hd_next_sequence dev) (hd_frames_to_user dev) \<and>
     input_ok (hd_input_packets dev) (hd_input_packet_count dev) \<and>
     audio_ok (hd_audio_in_packets dev) (hd_audio_in_queued_bytes dev) (hd_audio_in_packet_count dev) \<and>
     usb_ok (hd_usb dev) \<and>
     urbs_ok active (hd_contexts dev) (hd_pending_hid_in dev) (hd_pending_feature_get dev) (hd_completed_urbs dev) \<and>
     \<not> hd_fault dev"

section \<open>The queue of completed URBs\<close>

lemma ready_time_of [simp]: "ready_time dev = ready_of (hd_contexts dev)"
  by (simp add: fun_eq_iff ready_time_def ready_of_def vds_context_def)

lemma insert_untimed_set [simp]: "set (insert_untimed ready u queue) = insert u (set queue)"
  by (induction queue) auto

lemma insert_timed_set [simp]: "set (insert_timed ready u queue) = insert u (set queue)"
  by (induction queue) auto

lemma insert_untimed_distinct [simp]: "distinct (insert_untimed ready u queue) \<longleftrightarrow> distinct queue \<and> u \<notin> set queue"
  by (induction queue) auto

lemma insert_timed_distinct [simp]: "distinct (insert_timed ready u queue) \<longleftrightarrow> distinct queue \<and> u \<notin> set queue"
  by (induction queue) auto

lemma timed_simps [simp]:
  "timed ready [] = []"
  "timed ready (u # us) = (if ready u = 0 then timed ready us else ready u # timed ready us)"
  by (simp_all add: timed_def)

lemma timed_cong: "(\<And>v. v \<in> set queue \<Longrightarrow> ready v = ready' v) \<Longrightarrow> timed ready queue = timed ready' queue"
  by (induction queue) auto

lemma timed_set: "t \<in> set (timed ready queue) \<longleftrightarrow> t \<noteq> 0 \<and> (\<exists>v \<in> set queue. t = ready v)"
  by (auto simp: timed_def)

lemma insert_untimed_timed: "ready u = 0 \<Longrightarrow> timed ready (insert_untimed ready u queue) = timed ready queue"
  by (induction queue) auto

lemma insert_timed_sorted:
  "\<lbrakk>ready u \<noteq> 0; sorted (timed ready queue)\<rbrakk> \<Longrightarrow> sorted (timed ready (insert_timed ready u queue))"
proof (induction queue)
  case (Cons pos queue)
  show ?case
  proof (cases "ready pos = 0")
    case True
    then show ?thesis using Cons by simp
  next
    case False
    have "timed ready (pos # queue) = ready pos # timed ready queue" using False by simp
    moreover have "ready pos \<le> t" if "ready pos \<le> ready u" "t \<in> set (timed ready (insert_timed ready u queue))" for t
      using that Cons.prems False by (auto simp: timed_set Ball_def)
    ultimately show ?thesis using Cons False by (auto simp: not_less intro: order_trans less_imp_le)
  qed
qed simp

lemma change_context_sel [simp]:
  "hd_contexts (change_context u f dev) = (hd_contexts dev)(u := map_option f (hd_contexts dev u))"
  "hd_events (change_context u f dev) = hd_events dev"
  "hd_event_count (change_context u f dev) = hd_event_count dev"
  "hd_next_sequence (change_context u f dev) = hd_next_sequence dev"
  "hd_frames_to_user (change_context u f dev) = hd_frames_to_user dev"
  "hd_frames_from_user (change_context u f dev) = hd_frames_from_user dev"
  "hd_input_packets (change_context u f dev) = hd_input_packets dev"
  "hd_input_packet_count (change_context u f dev) = hd_input_packet_count dev"
  "hd_audio_in_packets (change_context u f dev) = hd_audio_in_packets dev"
  "hd_audio_in_queued_bytes (change_context u f dev) = hd_audio_in_queued_bytes dev"
  "hd_audio_in_packet_count (change_context u f dev) = hd_audio_in_packet_count dev"
  "hd_usb (change_context u f dev) = hd_usb dev"
  "hd_pending_hid_in (change_context u f dev) = hd_pending_hid_in dev"
  "hd_pending_feature_get (change_context u f dev) = hd_pending_feature_get dev"
  "hd_completed_urbs (change_context u f dev) = hd_completed_urbs dev"
  "hd_fault (change_context u f dev) = hd_fault dev"
  "hd_stopping (change_context u f dev) = hd_stopping dev"
  "hd_given_back (change_context u f dev) = hd_given_back dev"
  "hd_status_flags (change_context u f dev) = hd_status_flags dev"
  "hd_port_status (change_context u f dev) = hd_port_status dev"
  "hd_next_hid_in_ready (change_context u f dev) = hd_next_hid_in_ready dev"
  "hd_next_iso_in_ready (change_context u f dev) = hd_next_iso_in_ready dev"
  "hd_next_iso_out_ready (change_context u f dev) = hd_next_iso_out_ready dev"
  "hd_allocs (change_context u f dev) = hd_allocs dev"
  "hd_opened (change_context u f dev) = hd_opened dev"
  "hd_root_hub (change_context u f dev) = hd_root_hub dev"
  by (simp_all add: change_context_def)

lemma in_state_update [simp]:
  "in_state (C(u := None)) s = in_state C s - {u}"
  "in_state (C(u \<mapsto> c)) s = (if uc_state c = s then insert u (in_state C s) else in_state C s - {u})"
  by (auto simp: in_state_def)

lemma ready_of_update [simp]: "v \<noteq> u \<Longrightarrow> ready_of (C(u := x)) v = ready_of C v" "ready_of (C(u \<mapsto> c)) u = uc_ready_time c"
  by (simp_all add: ready_of_def)

lemma in_stateI: "C u = Some c \<Longrightarrow> u \<in> in_state C s \<longleftrightarrow> uc_state c = s"
  by (simp add: in_state_def)

text \<open>A URB that waits, or that is being worked on, goes to the completed ones.\<close>

definition settled :: "vds_urb_context_state \<Rightarrow> bool" where
  "settled s \<longleftrightarrow> s \<in> {VDS_URB_PENDING_GIVEBACK, VDS_URB_GIVING_BACK}"

lemma completed_sorted:
  assumes s: "sorted (timed (ready_of C) completed)" and u: "u \<notin> set completed" "C u = Some c"
    and r: "uc_ready_time c' = uc_ready_time c"
  shows "sorted (timed (ready_of (C(u \<mapsto> c'))) ((if uc_ready_time c = 0 then insert_untimed else insert_timed) (ready_of C) u completed))"
proof -
  have e: "ready_of (C(u \<mapsto> c')) = ready_of C"
    using u r by (auto simp: ready_of_def fun_eq_iff)
  have "ready_of C u = uc_ready_time c" using u by (simp add: ready_of_def)
  then show ?thesis unfolding e using s by (auto simp: insert_untimed_timed intro: insert_timed_sorted)
qed

lemma urbs_ok_complete:
  assumes ok: "urbs_ok active C hid feature completed" and c: "C u = Some c" "\<not> settled (uc_state c)"
    and q: "uc_state c' = VDS_URB_PENDING_GIVEBACK" "uc_hcpriv c'" "uc_ready_time c' = uc_ready_time c"
    "uc_urb c' = uc_urb c" "uc_deliver_iso_out c' = uc_deliver_iso_out c" "uc_deliver_iso_in c' = uc_deliver_iso_in c"
  shows "urbs_ok (active - {u}) (C(u \<mapsto> c')) (filter (\<lambda>v. v \<noteq> u) hid) (filter (\<lambda>v. v \<noteq> u) feature)
    ((if uc_ready_time c = 0 then insert_untimed else insert_timed) (ready_of C) u completed)"
proof -
  have n: "u \<notin> set completed" using ok c by (auto simp: urbs_ok_def in_stateI settled_def)
  have "sorted (timed (ready_of C) completed)" using ok by (simp add: urbs_ok_def)
  from completed_sorted [OF this n c(1) q(3)] show ?thesis
    using ok c q n by (auto simp: urbs_ok_def context_ok_def)
qed

section \<open>Fields the invariant is not about\<close>

lemma hcd_ok_neutral [simp]:
  "hcd_ok active (dev\<lparr>hd_allocs := a\<rparr>) = hcd_ok active dev"
  "hcd_ok active (dev\<lparr>hd_frames_from_user := n\<rparr>) = hcd_ok active dev"
  "hcd_ok active (dev\<lparr>hd_next_iso_out_ready := t\<rparr>) = hcd_ok active dev"
  "hcd_ok active (dev\<lparr>hd_next_iso_in_ready := t\<rparr>) = hcd_ok active dev"
  "hcd_ok active (dev\<lparr>hd_next_hid_in_ready := t\<rparr>) = hcd_ok active dev"
  "hcd_ok active (dev\<lparr>hd_status_flags := f\<rparr>) = hcd_ok active dev"
  "hcd_ok active (dev\<lparr>hd_port_status := f\<rparr>) = hcd_ok active dev"
  "hcd_ok active (dev\<lparr>hd_stopping := b\<rparr>) = hcd_ok active dev"
  "hcd_ok active (dev\<lparr>hd_opened := b\<rparr>) = hcd_ok active dev"
  "hcd_ok active (dev\<lparr>hd_given_back := g\<rparr>) = hcd_ok active dev"
  "hcd_ok active (dev\<lparr>hd_root_hub := c\<rparr>) = hcd_ok active dev"
  by (simp_all add: hcd_ok_def)

lemma hcd_ok_status [simp]: "hcd_ok active (vds_status_set_locked flags enabled dev) = hcd_ok active dev"
  by (simp add: vds_status_set_locked_def)

lemma hcd_ok_notify [simp]: "hcd_ok active (notify_root_hub calls dev) = hcd_ok active dev"
  by (simp add: notify_root_hub_def)

lemma kmalloc_cases:
  obtains ok allocs where "kmalloc dev = (ok, dev\<lparr>hd_allocs := allocs\<rparr>)"
proof (cases "hd_allocs dev")
  case Nil
  then have "kmalloc dev = (True, dev\<lparr>hd_allocs := []\<rparr>)" by (cases dev) (simp add: kmalloc_def)
  then show ?thesis by (rule that)
next
  case (Cons b bs)
  then show ?thesis by (intro that) (simp add: kmalloc_def)
qed

section \<open>Frames to user space\<close>

lemma frames_ok_push:
  assumes "frames_ok events count following sent" "count < 16384" "event_ok e" "fh_sequence (ev_header e) = following"
  shows "frames_ok (events @ [e]) (count + 1) (following + 1) (sent + 1)"
proof -
  have "unat (count + 1) = unat count + 1"
    using assms(2) by (simp add: word_less_nat_alt unat_word_ariths)
  moreover have "numbered (following + 1) (events @ [e])"
    using assms by (auto simp: frames_ok_def numbered_def nth_append less_Suc_eq Suc_diff_le)
  moreover have "length events < 16384" using assms by (simp add: frames_ok_def word_less_nat_alt)
  ultimately show ?thesis using assms by (simp add: frames_ok_def)
qed

lemma frames_ok_pop:
  assumes "frames_ok (e # events) count following sent"
  shows "frames_ok events (count - 1) following sent"
proof -
  have "0 < count" "unat count = Suc (length events)"
    using assms by (auto simp: frames_ok_def word_less_nat_alt)
  then have "unat (count - 1) = length events" by (simp add: unat_minus_one word_neq_0_conv)
  moreover have "numbered following events"
    using assms by (auto simp: frames_ok_def numbered_def dest!: spec [of _ "Suc _"])
  ultimately show ?thesis using assms by (simp add: frames_ok_def)
qed

lemma frames_ok_flush: "frames_ok events count following sent \<Longrightarrow> frames_ok [] 0 following sent"
  by (simp add: frames_ok_def numbered_def)

lemma event_ok_new:
  "length payload \<le> VDS_FRAME_MAX_PAYLOAD \<Longrightarrow>
   event_ok \<lparr>ev_header = \<lparr>fh_type = type, fh_flags = 0, fh_length = of_nat (length payload), fh_sequence = s\<rparr>,
             ev_payload = payload\<rparr>"
  by (simp add: event_ok_def VDS_FRAME_MAX_PAYLOAD_def unat_of_nat take_bit_nat_eq_self)

lemma keeps_enqueue_frame: "hcd_ok active dev \<Longrightarrow> hcd_ok active (snd (vds_enqueue_frame type payload dev))"
proof -
  assume ok: "hcd_ok active dev"
  obtain b allocs where k: "kmalloc dev = (b, dev\<lparr>hd_allocs := allocs\<rparr>)" by (rule kmalloc_cases)
  show ?thesis
    using ok k by (auto simp: vds_enqueue_frame_def hcd_ok_def Let_def not_le not_less
        intro!: frames_ok_push event_ok_new)
qed

lemma keeps_read: "hcd_ok active dev \<Longrightarrow> hcd_ok active (snd (vds_read nonblock signal fault count dev))"
  by (auto simp: vds_read_def hcd_ok_def Let_def split: list.split intro: frames_ok_pop)

section \<open>Input and microphone\<close>

lemma input_ok_pop: "input_ok (p # ps) count \<Longrightarrow> input_ok ps (count - 1)"
  by (auto simp: input_ok_def unat_minus_one word_neq_0_conv word_less_nat_alt)

lemma keeps_pop_input: "hcd_ok active dev \<Longrightarrow> hcd_ok active (snd (vds_pop_input_packet_locked dev))"
  by (auto simp: vds_pop_input_packet_locked_def hcd_ok_def split: list.split intro: input_ok_pop)

lemma input_ok_single:
  "\<lbrakk>input_ok packets count; payload \<noteq> []; length payload \<le> VDS_CONTROLLER_HID_PACKET_SIZE\<rbrakk> \<Longrightarrow>
   if packets = [] then input_ok [payload] (count + 1)
   else input_ok (packets[length packets - 1 := payload]) count"
  by (cases packets) (auto simp: input_ok_def unat_word_ariths)

lemma keeps_queue_input:
  assumes ok: "hcd_ok active dev" and p: "payload \<noteq> []" "length payload \<le> VDS_CONTROLLER_HID_PACKET_SIZE"
  shows "hcd_ok active (snd (vds_queue_input_packet_locked payload dev))"
proof -
  obtain b allocs where "kmalloc dev = (b, dev\<lparr>hd_allocs := allocs\<rparr>)" by (rule kmalloc_cases)
  moreover have "if hd_input_packets dev = [] then input_ok [payload] (hd_input_packet_count dev + 1)
      else input_ok ((hd_input_packets dev)[length (hd_input_packets dev) - 1 := payload]) (hd_input_packet_count dev)"
    using ok p by (intro input_ok_single) (auto simp: hcd_ok_def)
  ultimately show ?thesis using ok by (auto simp: vds_queue_input_packet_locked_def hcd_ok_def split: if_splits)
qed

lemma audio_sum_simps [simp]:
  "audio_sum [] = 0" "audio_sum (p # ps) = available p + audio_sum ps" "audio_sum (ps @ qs) = audio_sum ps + audio_sum qs"
  by (simp_all add: audio_sum_def)

lemma saturating_minus:
  "\<lbrakk>unat q = a + b; a < 2 ^ 32\<rbrakk> \<Longrightarrow> unat (if q > of_nat a then q - of_nat a else 0 :: u32) = b"
  by (auto simp: word_less_nat_alt not_less unat_sub_if' unat_of_nat take_bit_nat_eq_self)

lemma saturating_bound:
  "\<lbrakk>audio_packet_ok p; k \<le> available p\<rbrakk> \<Longrightarrow> k < 2 ^ 32"
  by (auto simp: audio_packet_ok_def available_def VDS_FRAME_MAX_PAYLOAD_def)

lemma count_minus: "unat (count :: u32) = Suc n \<Longrightarrow> unat (count - 1) = n"
proof -
  assume n: "unat count = Suc n"
  then have "count \<noteq> 0" by auto
  with n show ?thesis by (simp add: unat_minus_one)
qed

text \<open>The bytes waiting, as one stream: what the queue of packets stands for.\<close>

definition pcm :: "vds_audio_packet list \<Rightarrow> bytes" where
  "pcm packets = concat (map (\<lambda>p. drop (ap_offset p) (ap_payload p)) packets)"

lemma pcm_simps [simp]:
  "pcm [] = []" "pcm (p # ps) = drop (ap_offset p) (ap_payload p) @ pcm ps" "pcm (ps @ qs) = pcm ps @ pcm qs"
  by (simp_all add: pcm_def)

lemma length_pcm [simp]: "length (pcm packets) = audio_sum packets"
  by (induction packets) (auto simp: available_def)

lemma fill_audio_spec:
  assumes "list_all audio_packet_ok packets" "unat queued = audio_sum packets" "unat count = length packets"
    "fill_audio packets n queued count = (data, packets', queued', count')"
  shows "data = take n (pcm packets) @ replicate (n - audio_sum packets) 0 \<and> pcm packets' = drop n (pcm packets) \<and>
    list_all audio_packet_ok packets' \<and> unat queued' = audio_sum packets' \<and> unat count' = length packets'"
  using assms
proof (induction packets n queued count arbitrary: data packets' queued' count' rule: fill_audio.induct)
  case (2 packet packets n queued count)
  define k where "k = min n (available packet)"
  define q where "q = (if queued > of_nat k then queued - of_nat k else 0)"
  have p: "audio_packet_ok packet" using 2 by simp
  have b: "k < 2 ^ 32" using p by (rule saturating_bound) (simp add: k_def)
  have "unat queued = k + (available packet - k + audio_sum packets)" using 2 by (simp add: k_def)
  then have q_val: "unat q = available packet - k + audio_sum packets" unfolding q_def using b by (rule saturating_minus)
  have step: "n \<noteq> 0 \<Longrightarrow> fill_audio (packet # packets) n queued count =
      (if ap_offset packet + k = length (ap_payload packet) then
         (case fill_audio packets (n - k) q (count - 1) of
            (data, r) \<Rightarrow> (take k (drop (ap_offset packet) (ap_payload packet)) @ data, r))
       else (take k (drop (ap_offset packet) (ap_payload packet)),
             packet\<lparr>ap_offset := ap_offset packet + k\<rparr> # packets, q, count))"
    by (simp only: fill_audio.simps Let_def k_def q_def available_def if_False)
  consider (none) "n = 0" | (all) "n \<noteq> 0" "available packet \<le> n" | (part) "n \<noteq> 0" "n < available packet" by linarith
  then show ?case
  proof cases
    case none
    then show ?thesis using 2 by auto
  next
    case all
    have k: "k = available packet" "ap_offset packet + k = length (ap_payload packet)"
      using all p by (auto simp: k_def available_def audio_packet_ok_def)
    obtain d where d: "fill_audio packets (n - k) q (count - 1) = (d, packets', queued', count')"
      "data = drop (ap_offset packet) (ap_payload packet) @ d"
      using 2(5) all k by (auto simp del: fill_audio.simps simp: step available_def split: prod.splits)
    show ?thesis using 2(1) [OF all(1) refl refl refl refl, folded available_def, folded k_def, folded q_def, of d] all k d q_val 2(2-4)
      by (auto simp: available_def count_minus)
  next
    case part
    have k: "k = n" "ap_offset packet + k \<noteq> length (ap_payload packet)" "ap_offset packet + n < length (ap_payload packet)"
      using part p by (auto simp: k_def available_def audio_packet_ok_def)
    have e: "data = take n (drop (ap_offset packet) (ap_payload packet))"
      "packets' = packet\<lparr>ap_offset := ap_offset packet + n\<rparr> # packets" "queued' = q" "count' = count"
      using 2(5) part k by (auto simp del: fill_audio.simps simp: step)
    show ?thesis using e k part q_val 2(2-4)
      by (auto simp: audio_packet_ok_def available_def add.commute)
  qed
qed (auto simp: Let_def)

lemma audio_ok_fill:
  assumes "audio_ok packets queued count" "fill_audio packets n queued count = (data, packets', queued', count')"
  shows "data = take n (pcm packets) @ replicate (n - audio_sum packets) 0" "pcm packets' = drop n (pcm packets)"
    "audio_ok packets' queued' count'"
proof -
  from assms have spec: "data = take n (pcm packets) @ replicate (n - audio_sum packets) 0 \<and> pcm packets' = drop n (pcm packets) \<and>
      list_all audio_packet_ok packets' \<and> unat queued' = audio_sum packets' \<and> unat count' = length packets'"
    by (intro fill_audio_spec) (auto simp: audio_ok_def)
  then show "data = take n (pcm packets) @ replicate (n - audio_sum packets) 0" "pcm packets' = drop n (pcm packets)"
    by blast+
  have "audio_sum packets' = audio_sum packets - n" using spec by (metis length_drop length_pcm)
  then show "audio_ok packets' queued' count'" using spec assms(1) by (auto simp: audio_ok_def)
qed

lemma drop_oldest_spec:
  assumes "list_all audio_packet_ok packets" "unat queued = audio_sum packets" "unat count = length packets"
    "audio_sum packets \<le> VDS_AUDIO_IN_QUEUE_MAX_BYTES" "n \<le> VDS_FRAME_MAX_PAYLOAD"
    "drop_oldest (of_nat n) packets queued count = (packets', queued', count')"
  shows "(\<exists>dropped. packets = dropped @ packets') \<and> unat queued' = audio_sum packets' \<and> unat count' = length packets' \<and>
    audio_sum packets' + n \<le> VDS_AUDIO_IN_QUEUE_MAX_BYTES"
  using assms
proof (induction packets arbitrary: queued count)
  case Nil
  then show ?case by (auto simp: VDS_FRAME_MAX_PAYLOAD_def VDS_AUDIO_IN_QUEUE_MAX_BYTES_def)
next
  case (Cons p packets)
  define q where "q = (if queued > of_nat (available p) then queued - of_nat (available p) else 0)"
  have b: "available p < 2 ^ 32" using Cons.prems(1) saturating_bound by auto
  have q: "unat q = audio_sum packets" unfolding q_def using Cons.prems b by (intro saturating_minus) simp_all
  have n: "unat (of_nat n :: u32) = n" "unat (queued + of_nat n) = audio_sum (p # packets) + n"
    using Cons.prems by (auto simp: VDS_FRAME_MAX_PAYLOAD_def VDS_AUDIO_IN_QUEUE_MAX_BYTES_def unat_word_ariths
        unat_of_nat take_bit_nat_eq_self)
  have full: "queued + of_nat n > of_nat VDS_AUDIO_IN_QUEUE_MAX_BYTES \<longleftrightarrow>
      audio_sum (p # packets) + n > VDS_AUDIO_IN_QUEUE_MAX_BYTES"
    using n by (simp add: word_less_nat_alt VDS_AUDIO_IN_QUEUE_MAX_BYTES_def)
  have step: "drop_oldest (of_nat n) (p # packets) queued count =
      (if audio_sum (p # packets) + n > VDS_AUDIO_IN_QUEUE_MAX_BYTES
       then drop_oldest (of_nat n) packets q (count - 1) else (p # packets, queued, count))"
    unfolding drop_oldest.simps full q_def available_def Let_def ..
  show ?case
  proof (cases "audio_sum (p # packets) + n > VDS_AUDIO_IN_QUEUE_MAX_BYTES")
    case True
    then have "drop_oldest (of_nat n) packets q (count - 1) = (packets', queued', count')"
      using Cons.prems(6) by (simp only: step if_True)
    then have "(\<exists>dropped. packets = dropped @ packets') \<and> unat queued' = audio_sum packets' \<and> unat count' = length packets' \<and>
        audio_sum packets' + n \<le> VDS_AUDIO_IN_QUEUE_MAX_BYTES"
      using Cons.prems q by (intro Cons.IH) (auto simp: count_minus)
    then show ?thesis by (metis append_Cons)
  next
    case False
    then show ?thesis using Cons.prems step by auto
  qed
qed

lemma keeps_write_audio_in:
  assumes ok: "hcd_ok active dev" and n: "length payload \<le> VDS_FRAME_MAX_PAYLOAD"
  shows "hcd_ok active (snd (vds_write_audio_in_frame payload dev))"
proof -
  obtain b allocs where k: "kmalloc dev = (b, dev\<lparr>hd_allocs := allocs\<rparr>)" by (rule kmalloc_cases)
  obtain packets queued count where d: "drop_oldest (of_nat (length payload)) (hd_audio_in_packets dev)
      (hd_audio_in_queued_bytes dev) (hd_audio_in_packet_count dev) = (packets, queued, count)" by (metis prod_cases3)
  have a: "audio_ok (hd_audio_in_packets dev) (hd_audio_in_queued_bytes dev) (hd_audio_in_packet_count dev)"
    using ok by (simp add: hcd_ok_def)
  have spec: "(\<exists>dropped. hd_audio_in_packets dev = dropped @ packets) \<and> unat queued = audio_sum packets \<and>
      unat count = length packets \<and> audio_sum packets + length payload \<le> VDS_AUDIO_IN_QUEUE_MAX_BYTES"
    using a n d by (intro drop_oldest_spec) (auto simp: audio_ok_def)
  have l: "length packets \<le> audio_sum packets" if "list_all audio_packet_ok packets" for packets
    using that by (induction packets) (auto simp: audio_packet_ok_def available_def)
  have "audio_ok (packets @ [\<lparr>ap_offset = 0, ap_payload = payload\<rparr>]) (queued + of_nat (length payload)) (count + 1)"
    if "payload \<noteq> []"
    using spec a n that l [of packets]
    by (auto simp: audio_ok_def audio_packet_ok_def available_def VDS_FRAME_MAX_PAYLOAD_def VDS_AUDIO_IN_QUEUE_MAX_BYTES_def
        unat_word_ariths unat_of_nat take_bit_nat_eq_self)
  then show ?thesis using ok k d by (auto simp: vds_write_audio_in_frame_def hcd_ok_def)
qed

lemma keeps_fill_audio: "hcd_ok active dev \<Longrightarrow> hcd_ok active (snd (vds_fill_audio_in_locked n dev))"
  by (auto simp: vds_fill_audio_in_locked_def hcd_ok_def split: prod.split intro: audio_ok_fill)

lemma keeps_iso_chunk: "hcd_ok active dev \<Longrightarrow> hcd_ok active (send_chunk buf chunk dev)"
  unfolding send_chunk_def by (rule keeps_enqueue_frame)

lemma keeps_extend_chunk: "hcd_ok active dev \<Longrightarrow> hcd_ok active (snd (extend_chunk buf desc chunk dev))"
  by (auto simp: extend_chunk_def Let_def keeps_iso_chunk split: option.split)

lemma keeps_iso_out_loop:
  "\<lbrakk>iso_out_loop u buf descs chunk dev = (ds, errors, amount, chunk', dev'); hcd_ok active dev\<rbrakk> \<Longrightarrow> hcd_ok active dev'"
proof (induction descs arbitrary: chunk dev ds errors amount chunk' dev')
  case (Cons desc descs)
  then show ?case using keeps_extend_chunk [of active dev buf desc chunk]
    by (auto split: if_splits prod.splits)
qed simp

lemma keeps_iso_in_loop:
  "\<lbrakk>iso_in_loop u descs buf dev = (ds, errors, amount, buf', dev'); hcd_ok active dev\<rbrakk> \<Longrightarrow> hcd_ok active dev'"
proof (induction descs arbitrary: buf dev ds errors amount buf' dev')
  case (Cons desc descs)
  then show ?case
    using keeps_fill_audio [of active dev "min (ip_length desc) VDS_AUDIO_IN_BYTES_PER_MS"]
    by (auto simp: Let_def split: if_splits prod.splits)
qed simp

lemma keeps_iso_out: "\<lbrakk>vds_iso_out_urb u dev = (r, u', dev'); hcd_ok active dev\<rbrakk> \<Longrightarrow> hcd_ok active dev'"
  by (auto simp: vds_iso_out_urb_def keeps_iso_chunk dest: keeps_iso_out_loop split: option.splits prod.splits)

lemma keeps_iso_in: "\<lbrakk>vds_iso_in_urb u dev = (r, u', dev'); hcd_ok active dev\<rbrakk> \<Longrightarrow> hcd_ok active dev'"
  by (auto simp: vds_iso_in_urb_def dest: keeps_iso_in_loop split: option.splits prod.splits)

section \<open>URBs on their queues\<close>

lemma timed_filter: "sorted (timed ready queue) \<Longrightarrow> sorted (timed ready (filter P queue))"
  by (induction queue) (auto simp: timed_set, force simp: timed_set)

lemma timed_zeroed:
  assumes "sorted (timed ready queue)" "ready' u = 0" "\<And>v. v \<noteq> u \<Longrightarrow> ready' v = ready v"
  shows "sorted (timed ready' queue)"
proof -
  have "timed ready' queue = timed ready (filter (\<lambda>v. v \<noteq> u) queue)"
    using assms(2,3) by (induction queue) auto
  then show ?thesis using assms(1) by (simp add: timed_filter)
qed

text \<open>A change to one context that leaves its state alone.\<close>

lemma keeps_change_context:
  assumes ok: "hcd_ok active dev"
    and f: "\<And>c. hd_contexts dev u = Some c \<Longrightarrow> uc_state (f c) = uc_state c \<and> context_ok (f c)"
    and r: "u \<notin> set (hd_completed_urbs dev) \<or> (\<forall>c. uc_ready_time (f c) = uc_ready_time c) \<or> (\<forall>c. uc_ready_time (f c) = 0)"
  shows "hcd_ok active (change_context u f dev)"
proof (cases "hd_contexts dev u")
  case None
  then show ?thesis using ok by (simp add: hcd_ok_def fun_upd_idem)
next
  case (Some c)
  have urbs: "urbs_ok active (hd_contexts dev) (hd_pending_hid_in dev) (hd_pending_feature_get dev) (hd_completed_urbs dev)"
    using ok by (simp add: hcd_ok_def)
  have st: "in_state ((hd_contexts dev)(u \<mapsto> f c)) s = in_state (hd_contexts dev) s" for s
    using Some f [OF Some] by (auto simp: in_state_def)
  have "sorted (timed (ready_of (hd_contexts dev)) (hd_completed_urbs dev))" using urbs by (simp add: urbs_ok_def)
  then have "sorted (timed (ready_of ((hd_contexts dev)(u \<mapsto> f c))) (hd_completed_urbs dev))"
    using r
  proof (elim disjE)
    assume a: "sorted (timed (ready_of (hd_contexts dev)) (hd_completed_urbs dev))" and n: "u \<notin> set (hd_completed_urbs dev)"
    have "timed (ready_of ((hd_contexts dev)(u \<mapsto> f c))) (hd_completed_urbs dev) =
        timed (ready_of (hd_contexts dev)) (hd_completed_urbs dev)"
      using n by (intro timed_cong ready_of_update) auto
    then show ?thesis using a by simp
  next
    assume a: "sorted (timed (ready_of (hd_contexts dev)) (hd_completed_urbs dev))"
      and n: "\<forall>c. uc_ready_time (f c) = uc_ready_time c"
    have "ready_of ((hd_contexts dev)(u \<mapsto> f c)) = ready_of (hd_contexts dev)"
      using n Some by (auto simp: ready_of_def fun_eq_iff)
    then show ?thesis using a by simp
  next
    assume a: "sorted (timed (ready_of (hd_contexts dev)) (hd_completed_urbs dev))" and n: "\<forall>c. uc_ready_time (f c) = 0"
    then show ?thesis by (rule_tac timed_zeroed [where u = u, OF a]) auto
  qed
  then have "urbs_ok active ((hd_contexts dev)(u \<mapsto> f c)) (hd_pending_hid_in dev) (hd_pending_feature_get dev)
      (hd_completed_urbs dev)"
    using urbs f [OF Some] unfolding urbs_ok_def st by simp
  then show ?thesis using ok Some by (simp add: hcd_ok_def)
qed

lemma completed_iff:
  "hcd_ok active dev \<Longrightarrow> u \<in> set (hd_completed_urbs dev) \<longleftrightarrow> (\<exists>c. hd_contexts dev u = Some c \<and> uc_state c = VDS_URB_PENDING_GIVEBACK)"
  by (simp add: hcd_ok_def urbs_ok_def in_state_def)

lemma active_iff:
  "hcd_ok active dev \<Longrightarrow> u \<in> active \<longleftrightarrow> (\<exists>c. hd_contexts dev u = Some c \<and> uc_state c = VDS_URB_ACTIVE)"
  by (auto simp: hcd_ok_def urbs_ok_def in_state_def)

lemma context_ok_of: "\<lbrakk>hcd_ok active dev; hd_contexts dev u = Some c\<rbrakk> \<Longrightarrow> context_ok c"
  by (simp add: hcd_ok_def urbs_ok_def)

lemma not_on_queue: "\<lbrakk>hcd_ok active dev; u \<in> active\<rbrakk> \<Longrightarrow> \<not> on_queue dev u"
  by (auto simp: on_queue_def hcd_ok_def urbs_ok_def in_state_def)

lemma keeps_queue_giveback:
  assumes ok: "hcd_ok active dev" and c: "hd_contexts dev u = Some c"
  shows "hcd_ok (active - {u}) (snd (vds_queue_urb_giveback_locked u status dev))"
proof (cases "settled (uc_state c)")
  case True
  then have "u \<notin> active" using ok c by (auto simp: active_iff settled_def)
  then show ?thesis using ok c True by (simp add: vds_queue_urb_giveback_locked_def vds_context_def settled_def)
next
  case False
  have r: "ready_of (hd_contexts dev) u = uc_ready_time c" using c by (simp add: ready_of_def)
  show ?thesis
    using ok False c urbs_ok_complete [of _ "hd_contexts dev", OF _ c False, where c' = "c\<lparr>uc_status := status,
        uc_state := VDS_URB_PENDING_GIVEBACK, uc_hcpriv := True\<rparr>"]
    by (auto simp: vds_queue_urb_giveback_locked_def Let_def hcd_ok_def vds_context_def settled_def r)
qed

text \<open>What queueing for giveback leaves alone.\<close>

lemma queue_giveback_sel [simp]:
  "sizes (snd (vds_queue_urb_giveback_locked u status dev)) = sizes dev"
  "hd_stopping (snd (vds_queue_urb_giveback_locked u status dev)) = hd_stopping dev"
  "hd_given_back (snd (vds_queue_urb_giveback_locked u status dev)) = hd_given_back dev"
  "hd_usb (snd (vds_queue_urb_giveback_locked u status dev)) = hd_usb dev"
  "hd_events (snd (vds_queue_urb_giveback_locked u status dev)) = hd_events dev"
  "hd_status_flags (snd (vds_queue_urb_giveback_locked u status dev)) = hd_status_flags dev"
  "hd_port_status (snd (vds_queue_urb_giveback_locked u status dev)) = hd_port_status dev"
  by (auto simp: vds_queue_urb_giveback_locked_def Let_def sizes_def fun_eq_iff option.map_comp comp_def)

lemma dom_sizes: "dom (hd_contexts dev) = dom (sizes dev)"
  by (auto simp: sizes_def dom_def)

lemma queue_giveback_pending:
  "\<lbrakk>hd_contexts dev u = Some c; \<not> settled (uc_state c)\<rbrakk> \<Longrightarrow>
   hd_pending_hid_in (snd (vds_queue_urb_giveback_locked u status dev)) = filter (\<lambda>v. v \<noteq> u) (hd_pending_hid_in dev) \<and>
   hd_pending_feature_get (snd (vds_queue_urb_giveback_locked u status dev)) = filter (\<lambda>v. v \<noteq> u) (hd_pending_feature_get dev)"
  by (simp add: vds_queue_urb_giveback_locked_def Let_def vds_context_def settled_def)

lemma queue_each_snd [simp]:
  "snd (queue_each status [] dev) = dev"
  "snd (queue_each status (u # us) dev) = snd (queue_each status us (snd (vds_queue_urb_giveback_locked u status dev)))"
  by (simp_all split: prod.split)

declare queue_each.simps [simp del]

lemma queue_each_sel [simp]:
  "sizes (snd (queue_each status us dev)) = sizes dev"
  "hd_stopping (snd (queue_each status us dev)) = hd_stopping dev"
  "hd_given_back (snd (queue_each status us dev)) = hd_given_back dev"
  "hd_usb (snd (queue_each status us dev)) = hd_usb dev"
  "hd_events (snd (queue_each status us dev)) = hd_events dev"
  "hd_status_flags (snd (queue_each status us dev)) = hd_status_flags dev"
  "hd_port_status (snd (queue_each status us dev)) = hd_port_status dev"
  by (induction us arbitrary: dev) simp_all

lemma keeps_queue_each:
  "\<lbrakk>hcd_ok active dev; set us \<subseteq> dom (hd_contexts dev)\<rbrakk> \<Longrightarrow> hcd_ok (active - set us) (snd (queue_each status us dev))"
proof (induction us arbitrary: active dev)
  case (Cons u us)
  obtain c where "hd_contexts dev u = Some c" using Cons.prems by auto
  then have "hcd_ok (active - {u}) (snd (vds_queue_urb_giveback_locked u status dev))"
    by (rule keeps_queue_giveback [OF Cons.prems(1)])
  then have "hcd_ok (active - {u} - set us) (snd (queue_each status (u # us) dev))"
    using Cons.prems(2) by (simp add: Cons.IH dom_sizes)
  moreover have "active - {u} - set us = active - set (u # us)" by auto
  ultimately show ?case by simp
qed simp

lemma queue_giveback_pending_sets:
  assumes ok: "hcd_ok active dev" and c: "hd_contexts dev u = Some c"
  shows "set (hd_pending_hid_in (snd (vds_queue_urb_giveback_locked u status dev))) = set (hd_pending_hid_in dev) - {u}"
    "set (hd_pending_feature_get (snd (vds_queue_urb_giveback_locked u status dev))) = set (hd_pending_feature_get dev) - {u}"
proof -
  have n: "u \<notin> set (hd_pending_hid_in dev)" "u \<notin> set (hd_pending_feature_get dev)" if "settled (uc_state c)"
    using ok c that by (auto simp: hcd_ok_def urbs_ok_def in_state_def settled_def)
  have same: "snd (vds_queue_urb_giveback_locked u status dev) = dev" if "settled (uc_state c)"
    using that c by (simp add: vds_queue_urb_giveback_locked_def vds_context_def settled_def)
  show "set (hd_pending_hid_in (snd (vds_queue_urb_giveback_locked u status dev))) = set (hd_pending_hid_in dev) - {u}"
    "set (hd_pending_feature_get (snd (vds_queue_urb_giveback_locked u status dev))) = set (hd_pending_feature_get dev) - {u}"
    using n same queue_giveback_pending [OF c, of status] by (cases "settled (uc_state c)"; auto)+
qed

lemma queue_each_pending:
  "\<lbrakk>hcd_ok active dev; set us \<subseteq> dom (hd_contexts dev)\<rbrakk> \<Longrightarrow>
   set (hd_pending_hid_in (snd (queue_each status us dev))) = set (hd_pending_hid_in dev) - set us \<and>
   set (hd_pending_feature_get (snd (queue_each status us dev))) = set (hd_pending_feature_get dev) - set us"
proof (induction us arbitrary: active dev)
  case (Cons u us)
  obtain c where c: "hd_contexts dev u = Some c" using Cons.prems by auto
  have "hcd_ok (active - {u}) (snd (vds_queue_urb_giveback_locked u status dev))"
    by (rule keeps_queue_giveback [OF Cons.prems(1) c])
  from Cons.IH [OF this] show ?case
    using Cons.prems(2) queue_giveback_pending_sets [OF Cons.prems(1) c, of status] by (auto simp: dom_sizes)
qed simp

lemma cancel_pending_snd:
  "snd (vds_cancel_pending_urbs_locked status dev) =
     (let d = snd (queue_each status (hd_pending_hid_in dev) dev) in snd (queue_each status (hd_pending_feature_get d) d))"
  by (simp add: vds_cancel_pending_urbs_locked_def split: prod.split)

lemma keeps_cancel_pending:
  assumes "hcd_ok active dev"
  shows "hcd_ok active (snd (vds_cancel_pending_urbs_locked status dev))"
    "hd_pending_hid_in (snd (vds_cancel_pending_urbs_locked status dev)) = []"
    "hd_pending_feature_get (snd (vds_cancel_pending_urbs_locked status dev)) = []"
proof -
  define d where "d = snd (queue_each status (hd_pending_hid_in dev) dev)"
  have sub: "set (hd_pending_hid_in dev) \<subseteq> dom (hd_contexts dev)" "active - set (hd_pending_hid_in dev) = active"
    using assms by (auto simp: hcd_ok_def urbs_ok_def in_state_def)
  have ok: "hcd_ok active d" using keeps_queue_each [OF assms sub(1), of status] sub(2) by (simp add: d_def)
  have hid: "set (hd_pending_hid_in d) = {}"
    using queue_each_pending [OF assms sub(1), of status] by (simp add: d_def)
  have sub': "set (hd_pending_feature_get d) \<subseteq> dom (hd_contexts d)" "active - set (hd_pending_feature_get d) = active"
    using ok by (auto simp: hcd_ok_def urbs_ok_def in_state_def)
  show "hcd_ok active (snd (vds_cancel_pending_urbs_locked status dev))"
    using keeps_queue_each [OF ok sub'(1), of status] sub'(2) by (simp add: cancel_pending_snd flip: d_def)
  show "hd_pending_hid_in (snd (vds_cancel_pending_urbs_locked status dev)) = []"
    "hd_pending_feature_get (snd (vds_cancel_pending_urbs_locked status dev)) = []"
    using queue_each_pending [OF ok sub'(1), of status] hid by (simp_all add: cancel_pending_snd Let_def flip: d_def)
qed

lemma cancel_pending_sel [simp]:
  "sizes (snd (vds_cancel_pending_urbs_locked status dev)) = sizes dev"
  "hd_stopping (snd (vds_cancel_pending_urbs_locked status dev)) = hd_stopping dev"
  "hd_given_back (snd (vds_cancel_pending_urbs_locked status dev)) = hd_given_back dev"
  "hd_usb (snd (vds_cancel_pending_urbs_locked status dev)) = hd_usb dev"
  "hd_status_flags (snd (vds_cancel_pending_urbs_locked status dev)) = hd_status_flags dev"
  "hd_port_status (snd (vds_cancel_pending_urbs_locked status dev)) = hd_port_status dev"
  by (simp_all add: cancel_pending_snd Let_def)

lemma keeps_flush: "hcd_ok active dev \<Longrightarrow> hcd_ok active (vds_flush_buffered_frames_locked dev)"
  by (auto simp: vds_flush_buffered_frames_locked_def hcd_ok_def input_ok_def audio_ok_def intro: frames_ok_flush)

end
