(* ===== verification/HcdSteps.thy ===== *)
theory HcdSteps
  imports HcdInv
begin

text \<open>
  Every operation of the virtual host controller keeps the invariant and the buffers of the URBs it holds;
  the controller's runs, with the URBs it has accepted, and what holds in all of them.
\<close>

section \<open>Filling a URB\<close>

lemma length_overlay [simp]: "offset + length data \<le> length buf \<Longrightarrow> length (overlay data offset buf) = length buf"
  by (simp add: overlay_def)

lemma overlay_in [simp]:
  "offset + length data \<le> length buf \<Longrightarrow> take (length data) (drop offset (overlay data offset buf)) = data"
  by (simp add: overlay_def)

lemma urb_fits_size: "\<lbrakk>urb_fits u; urb_size u' = urb_size u\<rbrakk> \<Longrightarrow> urb_fits u'"
  by (cases "u_transfer_buffer u") (auto simp: urb_fits_def urb_size_def)

lemma buffer_size: "urb_size u' = urb_size u \<Longrightarrow> u_transfer_buffer u' = None \<longleftrightarrow> u_transfer_buffer u = None"
  by (auto simp: urb_size_def)

lemma copy_to_urb_size: "urb_fits u \<Longrightarrow> urb_size (snd (vds_usb_copy_to_urb data u)) = urb_size u"
  by (cases "u_transfer_buffer u") (auto simp: vds_usb_copy_to_urb_def Let_def urb_size_def urb_fits_def)

lemma fill_hid_in_size: "urb_fits u \<Longrightarrow> urb_size (vds_fill_hid_in_urb data u) = urb_size u"
  by (cases "u_transfer_buffer u") (auto simp: vds_fill_hid_in_urb_def Let_def urb_size_def urb_fits_def)

lemma fill_feature_size: "urb_fits u \<Longrightarrow> urb_size (snd (vds_fill_feature_urb data u)) = urb_size u"
  by (cases "u_transfer_buffer u") (auto simp: vds_fill_feature_urb_def Let_def urb_size_def urb_fits_def)

lemma urb_size_neutral [simp]:
  "urb_size (u\<lparr>u_actual_length := n\<rparr>) = urb_size u"
  "urb_size (u\<lparr>u_start_frame := f\<rparr>) = urb_size u"
  "urb_size (u\<lparr>u_error_count := e\<rparr>) = urb_size u"
  "urb_size (u\<lparr>u_iso_frame_desc := ds\<rparr>) = urb_size u"
  by (simp_all add: urb_size_def)

lemma urb_fits_neutral [simp]: "urb_fits (u\<lparr>u_actual_length := n\<rparr>) = urb_fits u"
  by (simp add: urb_fits_def)

section \<open>Operations that hold the URBs\<close>

text \<open>\<open>same_urbs\<close>: the URBs the controller holds, with the sizes of their buffers, and those it gave back.\<close>

definition same_urbs :: "vds_hcd_dev \<Rightarrow> vds_hcd_dev \<Rightarrow> bool" where
  "same_urbs dev dev' \<longleftrightarrow> sizes dev' = sizes dev \<and> hd_given_back dev' = hd_given_back dev"

lemma sizes_neutral [simp]:
  "sizes (dev\<lparr>hd_allocs := x0\<rparr>) = sizes dev"
  "sizes (dev\<lparr>hd_frames_from_user := x1\<rparr>) = sizes dev"
  "sizes (dev\<lparr>hd_frames_to_user := x2\<rparr>) = sizes dev"
  "sizes (dev\<lparr>hd_next_sequence := x3\<rparr>) = sizes dev"
  "sizes (dev\<lparr>hd_next_iso_out_ready := x4\<rparr>) = sizes dev"
  "sizes (dev\<lparr>hd_next_iso_in_ready := x5\<rparr>) = sizes dev"
  "sizes (dev\<lparr>hd_next_hid_in_ready := x6\<rparr>) = sizes dev"
  "sizes (dev\<lparr>hd_status_flags := x7\<rparr>) = sizes dev"
  "sizes (dev\<lparr>hd_port_status := x8\<rparr>) = sizes dev"
  "sizes (dev\<lparr>hd_stopping := x9\<rparr>) = sizes dev"
  "sizes (dev\<lparr>hd_opened := x10\<rparr>) = sizes dev"
  "sizes (dev\<lparr>hd_given_back := x11\<rparr>) = sizes dev"
  "sizes (dev\<lparr>hd_root_hub := x12\<rparr>) = sizes dev"
  "sizes (dev\<lparr>hd_usb := x13\<rparr>) = sizes dev"
  "sizes (dev\<lparr>hd_fault := x14\<rparr>) = sizes dev"
  "sizes (dev\<lparr>hd_events := x15\<rparr>) = sizes dev"
  "sizes (dev\<lparr>hd_event_count := x16\<rparr>) = sizes dev"
  "sizes (dev\<lparr>hd_pending_hid_in := x17\<rparr>) = sizes dev"
  "sizes (dev\<lparr>hd_pending_feature_get := x18\<rparr>) = sizes dev"
  "sizes (dev\<lparr>hd_completed_urbs := x19\<rparr>) = sizes dev"
  by (simp_all add: fun_eq_iff sizes_def)

lemma same_urbs_refl [simp]: "same_urbs dev dev"
  by (simp add: same_urbs_def)

lemma same_urbs_trans: "\<lbrakk>same_urbs a b; same_urbs b c\<rbrakk> \<Longrightarrow> same_urbs a c"
  by (simp add: same_urbs_def)

lemma same_urbs_contexts: "\<lbrakk>hd_contexts dev' = hd_contexts dev; hd_given_back dev' = hd_given_back dev\<rbrakk> \<Longrightarrow> same_urbs dev dev'"
  by (simp add: same_urbs_def sizes_def fun_eq_iff)

lemma same_urbs_change:
  "(\<And>c. hd_contexts dev u = Some c \<Longrightarrow> urb_size (uc_urb (f c)) = urb_size (uc_urb c)) \<Longrightarrow> same_urbs dev (change_context u f dev)"
  by (auto simp: same_urbs_def sizes_def fun_eq_iff option.map_comp comp_def intro: option.map_cong0)

lemma same_urbs_queue [simp]: "same_urbs dev (snd (vds_queue_urb_giveback_locked u status dev))"
  by (simp add: same_urbs_def)

lemma same_urbs_cancel [simp]: "same_urbs dev (snd (vds_cancel_pending_urbs_locked status dev))"
  by (simp add: same_urbs_def)

lemma enqueue_frame_sel [simp]:
  "hd_contexts (snd (vds_enqueue_frame type payload dev)) = hd_contexts dev"
  "hd_given_back (snd (vds_enqueue_frame type payload dev)) = hd_given_back dev"
  "hd_usb (snd (vds_enqueue_frame type payload dev)) = hd_usb dev"
  "hd_pending_hid_in (snd (vds_enqueue_frame type payload dev)) = hd_pending_hid_in dev"
  "hd_pending_feature_get (snd (vds_enqueue_frame type payload dev)) = hd_pending_feature_get dev"
  "hd_completed_urbs (snd (vds_enqueue_frame type payload dev)) = hd_completed_urbs dev"
  "hd_audio_in_packets (snd (vds_enqueue_frame type payload dev)) = hd_audio_in_packets dev"
  "hd_stopping (snd (vds_enqueue_frame type payload dev)) = hd_stopping dev"
  by (auto simp: vds_enqueue_frame_def Let_def kmalloc_def split: list.split)

lemma enqueue_frame_result: "fst (vds_enqueue_frame type payload dev) \<in> {0, - EMSGSIZE, - ENOMEM, - ESHUTDOWN, - ENOSPC}"
  by (auto simp: vds_enqueue_frame_def Let_def split: prod.split)

lemma status_sel [simp]:
  "hd_contexts (vds_status_set_locked flags enabled dev) = hd_contexts dev"
  "hd_given_back (vds_status_set_locked flags enabled dev) = hd_given_back dev"
  "hd_usb (vds_status_set_locked flags enabled dev) = hd_usb dev"
  "hd_pending_hid_in (vds_status_set_locked flags enabled dev) = hd_pending_hid_in dev"
  "hd_pending_feature_get (vds_status_set_locked flags enabled dev) = hd_pending_feature_get dev"
  "hd_completed_urbs (vds_status_set_locked flags enabled dev) = hd_completed_urbs dev"
  "hd_stopping (vds_status_set_locked flags enabled dev) = hd_stopping dev"
  by (simp_all add: vds_status_set_locked_def)

lemma fill_audio_sel [simp]:
  "hd_contexts (snd (vds_fill_audio_in_locked n dev)) = hd_contexts dev"
  "hd_given_back (snd (vds_fill_audio_in_locked n dev)) = hd_given_back dev"
  "hd_usb (snd (vds_fill_audio_in_locked n dev)) = hd_usb dev"
  "hd_events (snd (vds_fill_audio_in_locked n dev)) = hd_events dev"
  by (auto simp: vds_fill_audio_in_locked_def split: prod.split)

lemma fill_audio_length: "hcd_ok active dev \<Longrightarrow> length (fst (vds_fill_audio_in_locked n dev)) = n"
  by (auto simp: vds_fill_audio_in_locked_def hcd_ok_def split: prod.split dest: audio_ok_fill(1))

lemma extend_chunk_sel [simp]:
  "hd_contexts (snd (extend_chunk buf desc chunk dev)) = hd_contexts dev"
  "hd_given_back (snd (extend_chunk buf desc chunk dev)) = hd_given_back dev"
  by (auto simp: extend_chunk_def Let_def send_chunk_def split: option.split)

lemma iso_out_loop_sel:
  "iso_out_loop u buf descs chunk dev = (ds, errors, amount, chunk', dev') \<Longrightarrow>
   hd_contexts dev' = hd_contexts dev \<and> hd_given_back dev' = hd_given_back dev"
proof (induction descs arbitrary: chunk dev ds errors amount chunk' dev')
  case (Cons desc descs)
  obtain chunk1 dev1 where e: "extend_chunk buf desc chunk dev = (chunk1, dev1)" by fastforce
  have "hd_contexts dev1 = hd_contexts dev" "hd_given_back dev1 = hd_given_back dev"
    using extend_chunk_sel [of buf desc chunk dev] unfolding e by simp_all
  then show ?case using Cons by (auto simp: e split: if_splits prod.splits)
qed simp

lemma iso_in_loop_sel:
  "\<lbrakk>iso_in_loop u descs buf dev = (ds, errors, amount, buf', dev'); hcd_ok active dev; length buf = u_transfer_buffer_length u\<rbrakk> \<Longrightarrow>
   hd_contexts dev' = hd_contexts dev \<and> hd_given_back dev' = hd_given_back dev \<and> length buf' = length buf"
proof (induction descs arbitrary: buf dev ds errors amount buf' dev')
  case (Cons desc descs)
  show ?case
  proof (cases "in_buffer u desc")
    case False
    then show ?thesis using Cons by (auto split: prod.splits)
  next
    case True
    define n where "n = min (ip_length desc) VDS_AUDIO_IN_BYTES_PER_MS"
    obtain data dev1 where f: "vds_fill_audio_in_locked n dev = (data, dev1)" by fastforce
    have d: "hcd_ok active dev1" "length data = n" "hd_contexts dev1 = hd_contexts dev" "hd_given_back dev1 = hd_given_back dev"
      using keeps_fill_audio [OF Cons.prems(2), of n] fill_audio_length [OF Cons.prems(2), of n] fill_audio_sel [of n dev] f
      by simp_all
    then have l: "length (overlay data (ip_offset desc) buf) = length buf"
      using True Cons.prems(3) by (intro length_overlay) (auto simp: in_buffer_def n_def)
    obtain ds1 errors1 amount1 where
      "iso_in_loop u descs (overlay data (ip_offset desc) buf) dev1 = (ds1, errors1, amount1, buf', dev')"
      using Cons.prems(1) True f by (auto simp: Let_def simp flip: n_def split: prod.splits)
    from Cons.IH [OF this d(1)] show ?thesis using l Cons.prems(3) d by simp
  qed
qed simp

lemma iso_out_sel:
  "vds_iso_out_urb u dev = (r, u', dev') \<Longrightarrow>
   hd_contexts dev' = hd_contexts dev \<and> hd_given_back dev' = hd_given_back dev \<and> urb_size u' = urb_size u"
  by (auto simp: vds_iso_out_urb_def send_chunk_def dest: iso_out_loop_sel split: option.splits prod.splits)

lemma iso_in_sel:
  "\<lbrakk>vds_iso_in_urb u dev = (r, u', dev'); hcd_ok active dev; urb_fits u\<rbrakk> \<Longrightarrow>
   hd_contexts dev' = hd_contexts dev \<and> hd_given_back dev' = hd_given_back dev \<and> urb_size u' = urb_size u"
  by (auto simp: vds_iso_in_urb_def urb_size_def urb_fits_def dest: iso_in_loop_sel
      split: option.splits prod.splits)

section \<open>The giveback thread\<close>

lemma keeps_take:
  assumes ok: "hcd_ok active dev" and t: "vds_giveback_take now dev = (g, dev')"
  shows "hcd_ok active dev' \<and> same_urbs dev dev' \<and>
    (\<forall>u. g = Giveback_take u \<longrightarrow> (\<exists>c. hd_contexts dev' u = Some c \<and> uc_state c = VDS_URB_GIVING_BACK))"
proof (cases "hd_completed_urbs dev")
  case Nil
  then show ?thesis using ok t by (auto simp: vds_giveback_take_def)
next
  case (Cons u us)
  obtain c where c: "hd_contexts dev u = Some c" "uc_state c = VDS_URB_PENDING_GIVEBACK"
    using completed_iff [OF ok, of u] Cons by auto
  define c' where "c' = c\<lparr>uc_state := VDS_URB_GIVING_BACK, uc_hcpriv := False\<rparr>"
  have urbs: "urbs_ok active (hd_contexts dev) (hd_pending_hid_in dev) (hd_pending_feature_get dev) (u # us)"
    using ok Cons by (simp add: hcd_ok_def)
  have "timed (ready_of ((hd_contexts dev)(u \<mapsto> c'))) us = timed (ready_of (hd_contexts dev)) us"
    using urbs by (intro timed_cong ready_of_update) (auto simp: urbs_ok_def)
  then have "sorted (timed (ready_of ((hd_contexts dev)(u \<mapsto> c'))) us)" using urbs by (auto simp: urbs_ok_def split: if_splits)
  then have "urbs_ok active ((hd_contexts dev)(u \<mapsto> c')) (hd_pending_hid_in dev) (hd_pending_feature_get dev) us"
    using urbs c by (auto simp: urbs_ok_def c'_def context_ok_def in_state_def)
  then have "hcd_ok active ((change_context u (\<lambda>c. c\<lparr>uc_state := VDS_URB_GIVING_BACK, uc_hcpriv := False\<rparr>) dev)\<lparr>hd_completed_urbs := us\<rparr>)"
    using ok c by (simp add: hcd_ok_def c'_def)
  moreover have "same_urbs dev ((change_context u (\<lambda>c. c\<lparr>uc_state := VDS_URB_GIVING_BACK, uc_hcpriv := False\<rparr>) dev)\<lparr>hd_completed_urbs := us\<rparr>)"
    using c by (auto simp: same_urbs_def sizes_def fun_eq_iff)
  ultimately show ?thesis using t ok Cons c by (auto simp: vds_giveback_take_def split: if_splits)
qed

text \<open>The rest of the turn frees the context and hands over the URB, its buffer of the same size.\<close>

lemma keeps_finish:
  assumes ok: "hcd_ok active dev" and c: "hd_contexts dev u = Some c" "uc_state c = VDS_URB_GIVING_BACK"
  shows "hcd_ok active (vds_giveback_finish u dev) \<and>
    (\<exists>urb status. hd_given_back (vds_giveback_finish u dev) = hd_given_back dev @ [(u, urb, status)] \<and>
       urb_size urb = urb_size (uc_urb c)) \<and>
    hd_contexts (vds_giveback_finish u dev) = (hd_contexts dev)(u := None)"
proof -
  have fits: "urb_fits (uc_urb c)" using context_ok_of [OF ok c(1)] by (simp add: context_ok_def)
  obtain s1 urb1 dev1 where one: "(if uc_status c = 0 \<and> uc_deliver_iso_out c then vds_iso_out_urb (uc_urb c) dev
      else (uc_status c, uc_urb c, dev)) = (s1, urb1, dev1)" by (metis prod_cases3)
  have d1: "hcd_ok active dev1" "hd_contexts dev1 = hd_contexts dev" "hd_given_back dev1 = hd_given_back dev"
    "urb_size urb1 = urb_size (uc_urb c)"
    using one ok iso_out_sel [of "uc_urb c" dev s1 urb1 dev1] keeps_iso_out [of "uc_urb c" dev s1 urb1 dev1 active]
    by (auto split: if_splits)
  obtain s2 urb2 dev2 where two: "(if s1 = 0 \<and> uc_deliver_iso_in c then vds_iso_in_urb urb1 dev1
      else (s1, urb1, dev1)) = (s2, urb2, dev2)" by (metis prod_cases3)
  have d2: "hcd_ok active dev2" "hd_contexts dev2 = hd_contexts dev" "hd_given_back dev2 = hd_given_back dev"
    "urb_size urb2 = urb_size (uc_urb c)"
    using two d1 iso_in_sel [of urb1 dev1 s2 urb2 dev2 active] keeps_iso_in [of urb1 dev1 s2 urb2 dev2 active]
      urb_fits_size [OF fits, of urb1] by (auto split: if_splits)
  have f: "vds_giveback_finish u dev = dev2\<lparr>hd_given_back := hd_given_back dev2 @ [(u, urb2, s2)],
      hd_contexts := (hd_contexts dev2)(u := None)\<rparr>"
    using c by (simp add: vds_giveback_finish_def vds_context_def Let_def one two)
  have urbs: "urbs_ok active (hd_contexts dev) (hd_pending_hid_in dev2) (hd_pending_feature_get dev2) (hd_completed_urbs dev2)"
    using d2 by (simp add: hcd_ok_def)
  then have n: "u \<notin> set (hd_completed_urbs dev2)" using c by (auto simp: urbs_ok_def in_state_def)
  have "timed (ready_of ((hd_contexts dev)(u := None))) (hd_completed_urbs dev2) =
      timed (ready_of (hd_contexts dev)) (hd_completed_urbs dev2)"
    using n by (intro timed_cong ready_of_update) auto
  moreover have "u \<notin> in_state (hd_contexts dev) s" if "s \<noteq> VDS_URB_GIVING_BACK" for s
    using c that by (auto simp: in_state_def)
  ultimately have "urbs_ok active ((hd_contexts dev)(u := None)) (hd_pending_hid_in dev2) (hd_pending_feature_get dev2)
      (hd_completed_urbs dev2)"
    using urbs by (auto simp: urbs_ok_def)
  then show ?thesis using d2 by (auto simp: f hcd_ok_def)
qed

section \<open>Frames from user space\<close>

lemma keeps_set_urb:
  assumes ok: "hcd_ok active dev" and s: "\<And>c. hd_contexts dev u = Some c \<Longrightarrow> urb_size urb = urb_size (uc_urb c)"
  shows "hcd_ok active (set_urb u urb dev)" "same_urbs dev (set_urb u urb dev)"
proof -
  show "hcd_ok active (set_urb u urb dev)"
    unfolding set_urb_def using ok
  proof (rule keeps_change_context)
    fix c assume c: "hd_contexts dev u = Some c"
    have "urb_fits urb" using urb_fits_size [OF _ s [OF c]] context_ok_of [OF ok c] by (simp add: context_ok_def)
    then show "uc_state (c\<lparr>uc_urb := urb\<rparr>) = uc_state c \<and> context_ok (c\<lparr>uc_urb := urb\<rparr>)"
      using context_ok_of [OF ok c] buffer_size [OF s [OF c]] by (simp add: context_ok_def)
  qed simp
  show "same_urbs dev (set_urb u urb dev)" unfolding set_urb_def by (rule same_urbs_change) (simp add: s)
qed

lemma keeps_schedule_hid:
  assumes ok: "hcd_ok active dev" and n: "u \<notin> set (hd_completed_urbs dev)"
  shows "hcd_ok active (vds_schedule_hid_in_giveback_locked now u dev)"
    "same_urbs dev (vds_schedule_hid_in_giveback_locked now u dev)"
proof -
  show "hcd_ok active (vds_schedule_hid_in_giveback_locked now u dev)"
    unfolding vds_schedule_hid_in_giveback_locked_def Let_def hcd_ok_neutral
    using ok n by (intro keeps_change_context) (auto dest: context_ok_of simp: context_ok_def)
  show "same_urbs dev (vds_schedule_hid_in_giveback_locked now u dev)"
    using same_urbs_change [of dev u "\<lambda>c. c\<lparr>uc_ready_time := r\<rparr>" for r]
    by (simp add: vds_schedule_hid_in_giveback_locked_def Let_def same_urbs_def)
qed

lemma set_urb_sel [simp]:
  "hd_completed_urbs (set_urb u urb dev) = hd_completed_urbs dev"
  "hd_pending_hid_in (set_urb u urb dev) = hd_pending_hid_in dev"
  "hd_pending_feature_get (set_urb u urb dev) = hd_pending_feature_get dev"
  "hd_usb (set_urb u urb dev) = hd_usb dev"
  "hd_stopping (set_urb u urb dev) = hd_stopping dev"
  by (simp_all add: set_urb_def)

lemma keeps_complete_input:
  assumes ok: "hcd_ok active dev" and u: "u \<in> set (hd_pending_hid_in dev)"
  shows "hcd_ok active (snd (vds_queue_urb_giveback_locked u 0 (vds_schedule_hid_in_giveback_locked now u
     (set_urb u (vds_fill_hid_in_urb payload (uc_urb (vds_context dev u))) dev))))" (is "hcd_ok _ (snd (vds_queue_urb_giveback_locked u 0 ?d))")
    and "same_urbs dev (snd (vds_queue_urb_giveback_locked u 0 (vds_schedule_hid_in_giveback_locked now u
     (set_urb u (vds_fill_hid_in_urb payload (uc_urb (vds_context dev u))) dev))))"
proof -
  obtain c where c: "hd_contexts dev u = Some c" "uc_state c = VDS_URB_PENDING_HID_IN"
    using ok u by (auto simp: hcd_ok_def urbs_ok_def in_state_def)
  let ?s = "set_urb u (vds_fill_hid_in_urb payload (uc_urb (vds_context dev u))) dev"
  have s: "hcd_ok active ?s" "same_urbs dev ?s"
    using c fill_hid_in_size [of "uc_urb c" payload] context_ok_of [OF ok c(1)]
    by (auto intro!: keeps_set_urb ok simp: vds_context_def context_ok_def)
  have "u \<notin> set (hd_completed_urbs ?s)" "u \<notin> active" using completed_iff [OF ok] active_iff [OF ok] c by auto
  then have d: "hcd_ok active ?d" "same_urbs dev ?d" "active - {u} = active"
    using keeps_schedule_hid [OF s(1)] s(2) by (auto intro: same_urbs_trans)
  have "hd_contexts ?d u \<noteq> None" using c by (simp add: vds_schedule_hid_in_giveback_locked_def set_urb_def Let_def)
  then show "hcd_ok active (snd (vds_queue_urb_giveback_locked u 0 ?d))"
    using keeps_queue_giveback [OF d(1)] d(3) by (metis not_None_eq)
  show "same_urbs dev (snd (vds_queue_urb_giveback_locked u 0 ?d))" using d(2) same_urbs_queue by (rule same_urbs_trans)
qed

lemma keeps_write_input:
  assumes ok: "hcd_ok active dev"
  shows "hcd_ok active (snd (vds_write_input_frame now payload dev)) \<and> same_urbs dev (snd (vds_write_input_frame now payload dev))"
proof (cases "payload = [] \<or> length payload > VDS_CONTROLLER_HID_PACKET_SIZE \<or> hd_stopping dev")
  case True
  then show ?thesis using ok by (auto simp: vds_write_input_frame_def errnos)
next
  case False
  show ?thesis
  proof (cases "hd_pending_hid_in dev")
    case Nil
    have "hcd_ok active (snd (vds_queue_input_packet_locked payload dev))" using False by (intro keeps_queue_input ok) auto
    moreover have "same_urbs dev (snd (vds_queue_input_packet_locked payload dev))"
      by (rule same_urbs_contexts) (auto simp: vds_queue_input_packet_locked_def kmalloc_def split: list.split)
    ultimately show ?thesis using False Nil
      by (auto simp: vds_write_input_frame_def vds_complete_pending_input_locked_def same_urbs_def split: prod.split)
  next
    case (Cons u us)
    then show ?thesis using False keeps_complete_input [OF ok, of u now payload]
      by (auto simp: vds_write_input_frame_def vds_complete_pending_input_locked_def same_urbs_def)
  qed
qed

lemma keeps_complete_replies:
  "\<lbrakk>hcd_ok active dev; set us \<subseteq> dom (hd_contexts dev); set us \<inter> active = {}\<rbrakk> \<Longrightarrow>
   hcd_ok active (complete_replies payload us dev) \<and> same_urbs dev (complete_replies payload us dev)"
proof (induction us arbitrary: dev)
  case (Cons u us)
  obtain c where c: "hd_contexts dev u = Some c" using Cons.prems by auto
  obtain status urb where f: "vds_fill_feature_urb payload (uc_urb c) = (status, urb)" by fastforce
  define d where "d = snd (vds_queue_urb_giveback_locked u status (set_urb u urb dev))"
  have "urb_size urb = urb_size (uc_urb c)"
    using fill_feature_size [of "uc_urb c" payload] context_ok_of [OF Cons.prems(1) c] f by (simp add: context_ok_def)
  then have s: "hcd_ok active (set_urb u urb dev)" "same_urbs dev (set_urb u urb dev)"
    using c by (auto intro!: keeps_set_urb Cons.prems)
  have "hcd_ok (active - {u}) d"
    unfolding d_def using s(1) by (rule keeps_queue_giveback) (simp add: set_urb_def c)
  moreover have "active - {u} = active" using Cons.prems by auto
  ultimately have d: "hcd_ok active d" "same_urbs dev d"
    using s(2) same_urbs_queue unfolding d_def by (auto intro: same_urbs_trans)
  then have "dom (hd_contexts d) = dom (hd_contexts dev)" by (simp add: same_urbs_def dom_sizes)
  then have "hcd_ok active (complete_replies payload us d) \<and> same_urbs dev (complete_replies payload us d)"
    using Cons.IH [OF d(1)] Cons.prems d(2) by (auto intro: same_urbs_trans)
  then show ?case using Cons c f by (simp add: vds_context_def d_def)
qed simp

lemma hcd_ok_usb: "\<lbrakk>hcd_ok active dev; usb_ok usb\<rbrakk> \<Longrightarrow> hcd_ok active (dev\<lparr>hd_usb := usb\<rparr>)"
  by (simp add: hcd_ok_def)

lemma usb_ok_of: "hcd_ok active dev \<Longrightarrow> usb_ok (hd_usb dev)"
  by (simp add: hcd_ok_def)

lemma usb_ok_reply:
  assumes "usb_ok usb"
  shows "usb_ok (snd (vds_usb_device_update_feature_reply payload usb))"
proof -
  have "length (overlay payload 0 (ud_feature_cache usb ! i)) = VDS_CONTROLLER_HID_PACKET_SIZE"
    if "length payload \<le> VDS_CONTROLLER_HID_PACKET_SIZE" "i < 256" for i
    using assms that by (simp add: usb_ok_def list_all_length)
  moreover have "unat (payload ! 0) < 256" using unsigned_less [of "payload ! 0"] by simp
  ultimately show ?thesis
    using assms by (auto simp: vds_usb_device_update_feature_reply_def Let_def usb_ok_def list_all_length nth_list_update)
qed

lemma keeps_write_feature_reply:
  assumes ok: "hcd_ok active dev"
  shows "hcd_ok active (snd (vds_write_feature_reply payload dev)) \<and> same_urbs dev (snd (vds_write_feature_reply payload dev))"
proof -
  obtain ret usb where r: "vds_usb_device_update_feature_reply payload (hd_usb dev) = (ret, usb)" by fastforce
  have ok': "hcd_ok active (dev\<lparr>hd_usb := usb\<rparr>)"
    using usb_ok_reply [OF usb_ok_of [OF ok], of payload] r by (intro hcd_ok_usb ok) simp
  have sub: "set (hd_pending_feature_get dev) \<subseteq> dom (hd_contexts dev)" "set (hd_pending_feature_get dev) \<inter> active = {}"
    using ok by (auto simp: hcd_ok_def urbs_ok_def in_state_def)
  have "hcd_ok active (complete_replies payload (hd_pending_feature_get dev) (dev\<lparr>hd_usb := usb\<rparr>)) \<and>
      same_urbs (dev\<lparr>hd_usb := usb\<rparr>) (complete_replies payload (hd_pending_feature_get dev) (dev\<lparr>hd_usb := usb\<rparr>))"
    using ok' by (rule keeps_complete_replies) (use sub in simp_all)
  then show ?thesis using ok' r
    by (auto simp: vds_write_feature_reply_def Let_def vds_complete_pending_feature_replies_locked_def same_urbs_def)
qed

lemma keeps_write:
  assumes ok: "hcd_ok active dev"
  shows "hcd_ok active (snd (vds_write now fault dup buf dev)) \<and> same_urbs dev (snd (vds_write now fault dup buf dev))"
proof -
  have a: "same_urbs dev (snd (vds_write_audio_in_frame (drop 16 buf) dev))"
    by (rule same_urbs_contexts) (auto simp: vds_write_audio_in_frame_def kmalloc_def split: list.split prod.split)
  have "hcd_ok active (snd (vds_write_audio_in_frame (drop 16 buf) dev))"
    if "unat (fh_length (parse_header buf)) \<le> VDS_FRAME_MAX_PAYLOAD" "length buf = 16 + unat (fh_length (parse_header buf))"
    using that by (intro keeps_write_audio_in ok) simp
  then show ?thesis
    using ok a keeps_write_input [OF ok, of now "drop 16 buf"] keeps_write_feature_reply [OF ok, of "drop 16 buf"]
    by (auto simp: vds_write_def Let_def split: prod.split)
qed

section \<open>Connection\<close>

lemma usb_ok_reset: "usb_ok usb \<Longrightarrow> usb_ok (vds_usb_reset_state_locked usb)"
  by (auto simp: usb_ok_def vds_usb_reset_state_locked_def list_all_length)

lemma usb_ok_set_profile: "usb_ok usb \<Longrightarrow> usb_ok (snd (vds_usb_device_set_profile profile usb))"
  by (auto simp: vds_usb_device_set_profile_def intro!: usb_ok_reset) (simp add: usb_ok_def)

lemma flush_sel [simp]:
  "sizes (vds_flush_buffered_frames_locked dev) = sizes dev"
  "hd_contexts (vds_flush_buffered_frames_locked dev) = hd_contexts dev"
  "hd_given_back (vds_flush_buffered_frames_locked dev) = hd_given_back dev"
  "hd_pending_hid_in (vds_flush_buffered_frames_locked dev) = hd_pending_hid_in dev"
  "hd_pending_feature_get (vds_flush_buffered_frames_locked dev) = hd_pending_feature_get dev"
  "hd_usb (vds_flush_buffered_frames_locked dev) = hd_usb dev"
  "hd_stopping (vds_flush_buffered_frames_locked dev) = hd_stopping dev"
  by (auto simp: vds_flush_buffered_frames_locked_def sizes_def fun_eq_iff)

lemma keeps_disconnect_locked:
  assumes "hcd_ok active dev"
  shows "hcd_ok active (disconnect_locked dev)" "same_urbs dev (disconnect_locked dev)"
    "hd_pending_hid_in (disconnect_locked dev) = []" "hd_pending_feature_get (disconnect_locked dev) = []"
    "hd_usb (disconnect_locked dev) = hd_usb dev"
proof -
  define d where "d = dev\<lparr>hd_port_status := (hd_port_status dev AND NOT (USB_PORT_STAT_CONNECTION OR USB_PORT_STAT_ENABLE OR
             USB_PORT_STAT_HIGH_SPEED)) OR (if was_connected dev then C_CONNECTION else 0)\<rparr>"
  have d: "hcd_ok active d" "same_urbs dev d" "hd_usb d = hd_usb dev" using assms by (simp_all add: d_def same_urbs_def)
  show "hcd_ok active (disconnect_locked dev)" "same_urbs dev (disconnect_locked dev)"
    "hd_pending_hid_in (disconnect_locked dev) = []" "hd_pending_feature_get (disconnect_locked dev) = []"
    "hd_usb (disconnect_locked dev) = hd_usb dev"
    using keeps_cancel_pending [OF d(1), of "- ESHUTDOWN"] keeps_flush d
    unfolding disconnect_locked_def Let_def d_def [symmetric]
    by (simp_all add: same_urbs_def)
       (simp_all add: vds_status_set_locked_def sizes_def fun_eq_iff)
qed

lemma keeps_set_connection:
  assumes "hcd_ok active dev"
  shows "hcd_ok active (vds_set_connection connected dev) \<and> same_urbs dev (vds_set_connection connected dev)"
proof -
  have "hcd_ok active (connect_locked dev)" "same_urbs dev (connect_locked dev)"
    using assms by (simp_all add: connect_locked_def vds_status_set_locked_def same_urbs_def)
  moreover have "hcd_ok active ((disconnect_locked dev)\<lparr>hd_usb := vds_usb_reset_state_locked (hd_usb (disconnect_locked dev))\<rparr>)"
    using keeps_disconnect_locked [OF assms] usb_ok_of [OF assms] by (simp add: hcd_ok_usb usb_ok_reset)
  ultimately show ?thesis using assms keeps_disconnect_locked [OF assms]
    by (auto simp: vds_set_connection_def Let_def same_urbs_def notify_root_hub_def)
qed

lemma keeps_vds_ioctl:
  assumes "hcd_ok active dev" "vds_ioctl version fault cmd dev = (r, out, dev')"
  shows "hcd_ok active dev' \<and> same_urbs dev dev'"
proof -
  have "hcd_ok active (snd (set_profile profile mode dev)) \<and> same_urbs dev (snd (set_profile profile mode dev))" for profile mode
    using usb_ok_set_profile [OF usb_ok_of [OF assms(1)], of profile] assms(1)
    by (auto simp: set_profile_def vds_status_set_locked_def same_urbs_def hcd_ok_usb split: prod.split)
  then show ?thesis using assms keeps_set_connection [OF assms(1)]
    by (auto simp: vds_ioctl_def split: if_splits vds_ioc.splits prod.splits) (metis snd_conv)+
qed

lemma keeps_release: "hcd_ok active dev \<Longrightarrow> hcd_ok active (vds_release dev) \<and> same_urbs dev (vds_release dev)"
  using keeps_set_connection [of active "dev\<lparr>hd_opened := False\<rparr>" False] by (auto simp: vds_release_def Let_def same_urbs_def)

lemma keeps_stop:
  assumes "hcd_ok active dev"
  shows "hcd_ok active (vds_hcd_stop dev)" "same_urbs dev (vds_hcd_stop dev)"
    "hd_pending_hid_in (vds_hcd_stop dev) = []" "hd_pending_feature_get (vds_hcd_stop dev) = []" "hd_stopping (vds_hcd_stop dev)"
proof -
  have "hcd_ok active (dev\<lparr>hd_stopping := True\<rparr>)" using assms by simp
  from keeps_cancel_pending [OF this, of "- ESHUTDOWN"]
  show "hcd_ok active (vds_hcd_stop dev)" "same_urbs dev (vds_hcd_stop dev)"
    "hd_pending_hid_in (vds_hcd_stop dev) = []" "hd_pending_feature_get (vds_hcd_stop dev) = []" "hd_stopping (vds_hcd_stop dev)"
    by (simp_all add: vds_hcd_stop_def keeps_flush same_urbs_def)
qed

lemma keeps_hub_control:
  "\<lbrakk>hcd_ok active dev; vds_hub_control type_req feature index dev = (r, out, dev')\<rbrakk> \<Longrightarrow> hcd_ok active dev' \<and> same_urbs dev dev'"
  by (auto simp: vds_hub_control_def port_update_def same_urbs_def notify_root_hub_def split: if_splits option.splits)

end
