(* ===== verification/HcdRuns.thy ===== *)
theory HcdRuns
  imports HcdSteps
begin

text \<open>
  The runs of the virtual host controller. The device of \<open>vds_usb_core.c\<close> meets the controller through the
  callbacks of \<open>vds_usb_device_ops\<close>; the locale states what it relies on, and the controller's own
  callbacks are an instance. \<open>hcd_reach\<close> are the states the controller gets to, with the URBs it accepted.
\<close>

section \<open>The callbacks of the USB device\<close>

text \<open>
  \<open>idle\<close> and \<open>deferred\<close> are two invariants of the controller: that the URB in hand is not on a queue, and
  that it waits for a feature report. Only \<open>-EINPROGRESS\<close> tells the controller that the URB waits.
\<close>

lemma usb_ok_neutral [simp]:
  "usb_ok (dev\<lparr>ud_configuration := v\<rparr>) = usb_ok dev"
  "usb_ok (dev\<lparr>ud_audio_out_altsetting := v\<rparr>) = usb_ok dev"
  "usb_ok (dev\<lparr>ud_audio_in_altsetting := v\<rparr>) = usb_ok dev"
  "usb_ok (dev\<lparr>ud_address := v\<rparr>) = usb_ok dev"
  "usb_ok (dev\<lparr>ud_hid_idle := v\<rparr>) = usb_ok dev"
  "usb_ok (dev\<lparr>ud_hid_protocol := v\<rparr>) = usb_ok dev"
  by (simp_all add: usb_ok_def)

lemma usb_ok_audio:
  "usb_ok dev \<Longrightarrow> usb_ok (dev\<lparr>ud_audio_mute := (ud_audio_mute dev)[i := m]\<rparr>)"
  "usb_ok dev \<Longrightarrow> usb_ok (dev\<lparr>ud_audio_volume := (ud_audio_volume dev)[i := v]\<rparr>)"
  by (simp_all add: usb_ok_def)

locale usb_callbacks =
  fixes ops :: "'c vds_usb_device_ops" and idle :: "'c \<Rightarrow> bool" and deferred :: "'c \<Rightarrow> bool"
  assumes enqueue_idle: "idle c \<Longrightarrow> idle (snd (op_enqueue_frame ops type payload c))"
    and enqueue_deferred: "deferred c \<Longrightarrow> deferred (snd (op_enqueue_frame ops type payload c))"
    and enqueue_result: "fst (op_enqueue_frame ops type payload c) \<noteq> - EINPROGRESS"
    and status_idle: "idle c \<Longrightarrow> idle (op_set_status ops flags enabled c)"
    and defer_get: "\<lbrakk>idle c; op_defer_feature_get ops report_id c = (r, c')\<rbrakk> \<Longrightarrow>
      (r = 0 \<and> deferred c') \<or> (r \<noteq> 0 \<and> r \<noteq> - EINPROGRESS \<and> idle c')"
begin

definition answered :: "urb \<Rightarrow> int \<times> 'c control_state \<Rightarrow> bool" where
  "answered u res \<longleftrightarrow> (case res of (r, dev, u', c) \<Rightarrow>
     usb_ok dev \<and> urb_size u' = urb_size u \<and> (if r = - EINPROGRESS then deferred c else idle c \<or> deferred c))"

lemma answered_error: "\<lbrakk>usb_ok dev; idle c\<rbrakk> \<Longrightarrow> answered u (- EPIPE, dev, u, c)"
  by (simp add: answered_def errnos)

lemma answered_ok: "\<lbrakk>usb_ok dev; idle c; urb_size u' = urb_size u\<rbrakk> \<Longrightarrow> answered u (0, dev, u', c)"
  by (simp add: answered_def errnos)

lemma answered_copy:
  "\<lbrakk>usb_ok dev; urb_fits u; idle c\<rbrakk> \<Longrightarrow> answered u (on_urb (vds_usb_copy_to_urb data) (dev, u, c))"
  using copy_to_urb_size [of u data]
  by (auto simp: answered_def on_urb_def errnos split: prod.split)
     (auto simp: vds_usb_copy_to_urb_def Let_def errnos split: if_splits)

lemma answered_string:
  "\<lbrakk>usb_ok dev; urb_fits u; idle c\<rbrakk> \<Longrightarrow> answered u (on_urb (vds_usb_copy_string_descriptor text) (dev, u, c))"
  using answered_copy by (cases "text") (simp_all add: vds_usb_copy_string_descriptor_def Let_def on_urb_def)

lemma answered_descriptor:
  assumes "usb_ok dev" "urb_fits u" "idle c"
  shows "answered u (on_urb (standard_descriptor setup profile) (dev, u, c))"
  using answered_copy [OF assms] answered_string [OF assms] answered_error [OF assms(1,3)]
  by (auto simp: standard_descriptor_def Let_def on_urb_def)

lemma answered_get_report:
  assumes ok: "usb_ok dev" "urb_fits u" "idle c"
  shows "answered u (hid_get_report ops setup (dev, u, c))"
proof -
  let ?id = "low (wValue setup)"
  have cached: "vds_usb_copy_cached_feature_report ?id dev u =
      (if ud_feature_cache_len dev ! unat ?id = 0 then (- ENOENT, u)
       else vds_usb_copy_to_urb (take (ud_feature_cache_len dev ! unat ?id) (ud_feature_cache dev ! unat ?id)) u)"
    by (simp add: vds_usb_copy_cached_feature_report_def Let_def)
  have hit: "fst (vds_usb_copy_to_urb data u) \<noteq> - ENOENT" for data
    by (auto simp: vds_usb_copy_to_urb_def Let_def errnos)
  obtain r c1 where d: "op_defer_feature_get ops ?id c = (r, c1)" by fastforce
  let ?f = "op_enqueue_frame ops VDS_FRAME_USB_FEATURE_GET [?id, low (wLength setup), high (wLength setup)] c1"
  have "answered u (case ?f of (r, c2) \<Rightarrow> (if r \<noteq> 0 then r else - EINPROGRESS, dev, u, c2))" if "r = 0"
    using that defer_get [OF ok(3) d] enqueue_deferred [of c1] enqueue_result ok
    by (auto simp: answered_def split: prod.split) (metis snd_conv)+
  moreover have "answered u (r, dev, u, c1)" if "r \<noteq> 0"
    using that defer_get [OF ok(3) d] ok by (auto simp: answered_def)
  ultimately have miss: "answered u (if r \<noteq> 0 then (r, dev, u, c1)
      else case ?f of (r, c2) \<Rightarrow> (if r \<noteq> 0 then r else - EINPROGRESS, dev, u, c2))" by simp
  have copy: "answered u (case vds_usb_copy_to_urb data u of (r, u') \<Rightarrow> (r, dev, u', c))" for data
    using answered_copy [OF ok, of data] by (simp add: on_urb_def)
  show ?thesis
  proof (cases "ud_feature_cache_len dev ! unat ?id = 0")
    case True
    then show ?thesis using miss answered_copy [OF ok] d by (simp add: hid_get_report_def Let_def cached)
  next
    case False
    let ?data = "take (ud_feature_cache_len dev ! unat ?id) (ud_feature_cache dev ! unat ?id)"
    obtain r' u' where c: "vds_usb_copy_to_urb ?data u = (r', u')" by fastforce
    have "r' \<noteq> - ENOENT" "answered u (r', dev, u', c)" using hit [of ?data] copy [of ?data] c by simp_all
    then show ?thesis using False c answered_copy [OF ok] by (simp add: hid_get_report_def Let_def cached)
  qed
qed

lemma answered_set_report:
  assumes ok: "usb_ok dev" "idle c"
  shows "answered u (hid_set_report ops setup (dev, u, c))"
  using ok enqueue_idle [OF ok(2)] enqueue_result
  by (auto simp: hid_set_report_def Let_def answered_def errnos split: option.split prod.split) (metis fst_conv snd_conv)+

lemma answered_hid:
  assumes ok: "usb_ok dev" "urb_fits u" "idle c"
  shows "answered u (vds_usb_hid_control ops setup profile (dev, u, c))"
  using answered_get_report [OF ok] answered_set_report [OF ok(1,3)] answered_copy [OF ok] answered_error [OF ok(1,3)] ok
  by (auto simp: vds_usb_hid_control_def intro!: answered_ok)

lemma answered_audio:
  assumes ok: "usb_ok dev" "urb_fits u" "idle c"
  shows "answered u (case vds_usb_audio_control setup profile dev u of (r, dev', u') \<Rightarrow> (r, dev', u', c))"
proof -
  have copy: "answered u (case case vds_usb_copy_to_urb data u of (r, u') \<Rightarrow> (r, dev, u') of (r, dev', u') \<Rightarrow> (r, dev', u', c))" for data
    using answered_copy [OF ok, of data] by (simp add: on_urb_def split: prod.splits)
  have set_mute: "answered u (0, dev\<lparr>ud_audio_mute := (ud_audio_mute dev)[i := m]\<rparr>, u\<lparr>u_actual_length := 1\<rparr>, c)" for i m
    using ok by (intro answered_ok usb_ok_audio) simp_all
  have set_volume: "answered u (0, dev\<lparr>ud_audio_volume := (ud_audio_volume dev)[i := v]\<rparr>, u\<lparr>u_actual_length := 2\<rparr>, c)" for i v
    using ok by (intro answered_ok usb_ok_audio) simp_all
  show ?thesis
    unfolding vds_usb_audio_control_def Let_def
    using answered_error [OF ok(1,3), of u] copy set_mute set_volume
    by (simp split: option.split del: One_nat_def)
qed

lemma answered_standard:
  assumes ok: "usb_ok dev" "urb_fits u" "idle c"
  shows "answered u (vds_usb_standard_control ops setup profile (dev, u, c))"
proof -
  have "answered u (set_configuration ops setup profile (dev, u, c))"
    using ok by (auto simp: set_configuration_def Let_def intro!: answered_ok answered_error status_idle)
  moreover have "answered u (set_interface ops setup profile (dev, u, c))"
    using ok by (auto simp: set_interface_def Let_def vds_usb_enqueue_interface_event_def
        intro!: answered_ok answered_error status_idle enqueue_idle)
  ultimately show ?thesis
    using answered_descriptor [OF ok] answered_copy [OF ok] answered_error [OF ok(1,3)] ok
    by (auto simp: vds_usb_standard_control_def intro!: answered_ok split: option.split)
qed

lemma control_answered:
  assumes "usb_ok dev" "urb_fits u" "idle c" "vds_usb_device_control_urb ops (dev, u, c) = (r, dev', u', c')"
  shows "usb_ok dev' \<and> urb_size u' = urb_size u \<and> (if r = - EINPROGRESS then deferred c' else idle c' \<or> deferred c')"
proof -
  let ?u = "u\<lparr>u_actual_length := 0\<rparr>"
  have fits: "urb_fits ?u" using assms by simp
  have eq: "answered ?u res = answered u res" for res by (simp add: answered_def)
  have "answered u (vds_usb_device_control_urb ops (dev, u, c))"
    using answered_standard [OF assms(1) fits assms(3), unfolded eq] answered_hid [OF assms(1) fits assms(3), unfolded eq]
      answered_audio [OF assms(1) fits assms(3), unfolded eq] answered_error [OF assms(1,3)]
      answered_error [OF assms(1,3), of ?u, unfolded eq]
    by (auto simp: vds_usb_device_control_urb_def Let_def split: option.split prod.splits)
  then show ?thesis using assms(4) by (simp add: answered_def)
qed

end

section \<open>URBs\<close>

lemma sizes_carried: "\<lbrakk>same_urbs dev dev'; hd_contexts dev' u = Some c'; hd_contexts dev u = Some c\<rbrakk> \<Longrightarrow> urb_size (uc_urb c') = urb_size (uc_urb c)"
  by (auto simp: same_urbs_def sizes_def fun_eq_iff dest!: spec [of _ u])

lemma held_carried: "\<lbrakk>same_urbs dev dev'; hd_contexts dev u = Some c\<rbrakk> \<Longrightarrow> \<exists>c'. hd_contexts dev' u = Some c'"
  by (auto simp: same_urbs_def sizes_def fun_eq_iff dest!: spec [of _ u])

text \<open>The URB in hand goes to one of the queues of those that wait.\<close>

lemma urbs_ok_wait:
  assumes ok: "urbs_ok active C hid feature completed" and c: "C u = Some c" "uc_state c = VDS_URB_ACTIVE"
    and s: "uc_state c' = VDS_URB_PENDING_HID_IN \<and> hid' = hid @ [u] \<and> feature' = feature \<or>
      uc_state c' = VDS_URB_PENDING_FEATURE_GET \<and> hid' = hid \<and> feature' = feature @ [u]"
    and k: "context_ok c'"
  shows "urbs_ok (active - {u}) (C(u \<mapsto> c')) hid' feature' completed"
proof -
  have n: "u \<notin> set hid" "u \<notin> set feature" "u \<notin> set completed" using ok c by (auto simp: urbs_ok_def in_stateI)
  have "timed (ready_of (C(u \<mapsto> c'))) completed = timed (ready_of C) completed"
    using n by (intro timed_cong ready_of_update) auto
  then show ?thesis using ok c s k n by (auto simp: urbs_ok_def)
qed

lemma active_context:
  assumes "hcd_ok active dev" "u \<in> active"
  obtains c where "hd_contexts dev u = Some c" "uc_state c = VDS_URB_ACTIVE" "context_ok c" "uc_hcpriv c" "urb_fits (uc_urb c)"
proof -
  obtain c where c: "hd_contexts dev u = Some c" "uc_state c = VDS_URB_ACTIVE" using active_iff [OF assms(1)] assms(2) by auto
  then show ?thesis using that context_ok_of [OF assms(1) c(1)] by (simp add: context_ok_def)
qed

lemma keeps_defer:
  assumes ok: "hcd_ok active dev" "u \<in> active" and d: "vds_usb_defer_feature_get u report_id dev = (r, dev')"
  shows "(r = 0 \<and> hcd_ok (active - {u}) dev' \<and> u \<in> set (hd_pending_feature_get dev')) \<or> (r \<noteq> 0 \<and> r \<noteq> - EINPROGRESS \<and> dev' = dev)"
    "same_urbs dev dev'"
proof -
  obtain c where c: "hd_contexts dev u = Some c" "uc_state c = VDS_URB_ACTIVE" "context_ok c" "uc_hcpriv c"
    using ok by (rule active_context)
  let ?c = "c\<lparr>uc_feature_report_id := report_id, uc_state := VDS_URB_PENDING_FEATURE_GET\<rparr>"
  have "urbs_ok (active - {u}) ((hd_contexts dev)(u \<mapsto> ?c)) (hd_pending_hid_in dev) (hd_pending_feature_get dev @ [u])
      (hd_completed_urbs dev)"
    using ok(1) c by (intro urbs_ok_wait [where c = c]) (auto simp: hcd_ok_def context_ok_def)
  then show "(r = 0 \<and> hcd_ok (active - {u}) dev' \<and> u \<in> set (hd_pending_feature_get dev')) \<or> (r \<noteq> 0 \<and> r \<noteq> - EINPROGRESS \<and> dev' = dev)"
    using d c ok not_on_queue [OF ok] by (auto simp: vds_usb_defer_feature_get_def Let_def hcd_ok_def errnos split: if_splits)
  show "same_urbs dev dev'"
    using d c same_urbs_change [of dev u "\<lambda>c. c\<lparr>uc_feature_report_id := report_id, uc_state := VDS_URB_PENDING_FEATURE_GET\<rparr>"]
    by (auto simp: vds_usb_defer_feature_get_def Let_def same_urbs_def split: if_splits)
qed

interpretation callbacks: usb_callbacks "vds_usb_ops u" "\<lambda>dev. hcd_ok active dev \<and> u \<in> active \<and> same_urbs before dev"
  "\<lambda>dev. hcd_ok (active - {u}) dev \<and> u \<in> set (hd_pending_feature_get dev) \<and> same_urbs before dev" for u active before
proof unfold_locales
  fix c :: vds_hcd_dev and type payload flags enabled report_id r c'
  have frame: "same_urbs c (snd (vds_enqueue_frame type payload c))" by (rule same_urbs_contexts) simp_all
  show "hcd_ok active c \<and> u \<in> active \<and> same_urbs before c \<Longrightarrow>
      hcd_ok active (snd (op_enqueue_frame (vds_usb_ops u) type payload c)) \<and> u \<in> active \<and>
      same_urbs before (snd (op_enqueue_frame (vds_usb_ops u) type payload c))"
    using frame by (auto simp: vds_usb_ops_def keeps_enqueue_frame intro: same_urbs_trans)
  show "hcd_ok (active - {u}) c \<and> u \<in> set (hd_pending_feature_get c) \<and> same_urbs before c \<Longrightarrow>
      hcd_ok (active - {u}) (snd (op_enqueue_frame (vds_usb_ops u) type payload c)) \<and>
      u \<in> set (hd_pending_feature_get (snd (op_enqueue_frame (vds_usb_ops u) type payload c))) \<and>
      same_urbs before (snd (op_enqueue_frame (vds_usb_ops u) type payload c))"
    using frame by (auto simp: vds_usb_ops_def keeps_enqueue_frame intro: same_urbs_trans)
  show "fst (op_enqueue_frame (vds_usb_ops u) type payload c) \<noteq> - EINPROGRESS"
    using enqueue_frame_result [of type payload c] by (auto simp: vds_usb_ops_def errnos)
  have "same_urbs c (vds_status_set_locked flags enabled c)" by (rule same_urbs_contexts) simp_all
  then show "hcd_ok active c \<and> u \<in> active \<and> same_urbs before c \<Longrightarrow>
      hcd_ok active (op_set_status (vds_usb_ops u) flags enabled c) \<and> u \<in> active \<and>
      same_urbs before (op_set_status (vds_usb_ops u) flags enabled c)"
    by (auto simp: vds_usb_ops_def intro: same_urbs_trans)
  show "\<lbrakk>hcd_ok active c \<and> u \<in> active \<and> same_urbs before c; op_defer_feature_get (vds_usb_ops u) report_id c = (r, c')\<rbrakk> \<Longrightarrow>
      r = 0 \<and> hcd_ok (active - {u}) c' \<and> u \<in> set (hd_pending_feature_get c') \<and> same_urbs before c' \<or>
      r \<noteq> 0 \<and> r \<noteq> - EINPROGRESS \<and> hcd_ok active c' \<and> u \<in> active \<and> same_urbs before c'"
    using keeps_defer [of active c u report_id r c'] by (auto simp: vds_usb_ops_def intro: same_urbs_trans)
qed

text \<open>What each kind of transfer leaves: a URB that waits, or one that can be queued for giveback.\<close>

definition handled :: "nat set \<Rightarrow> nat \<Rightarrow> vds_hcd_dev \<Rightarrow> int \<times> vds_hcd_dev \<Rightarrow> bool" where
  "handled active u dev res \<longleftrightarrow> (case res of (r, dev') \<Rightarrow> same_urbs dev dev' \<and>
     (if r = - EINPROGRESS then hcd_ok (active - {u}) dev' else hcd_ok active dev' \<or> hcd_ok (active - {u}) dev'))"

lemma handled_control:
  assumes ok: "hcd_ok active dev" "u \<in> active"
  shows "handled active u dev (control_urb u dev)"
proof -
  obtain c where c: "hd_contexts dev u = Some c" "urb_fits (uc_urb c)" using ok by (rule active_context)
  obtain r usb urb dev1 where k: "vds_usb_device_control_urb (vds_usb_ops u) (hd_usb dev, uc_urb c, dev) = (r, usb, urb, dev1)"
    by (metis prod_cases4)
  have i: "hcd_ok active dev \<and> u \<in> active \<and> same_urbs dev dev" using ok by simp
  have res: "usb_ok usb" "urb_size urb = urb_size (uc_urb c)" "same_urbs dev dev1"
    "if r = - EINPROGRESS then hcd_ok (active - {u}) dev1 else hcd_ok active dev1 \<or> hcd_ok (active - {u}) dev1"
    using callbacks.control_answered [OF usb_ok_of [OF ok(1)] c(2) i k] by (auto split: if_splits)
  have keep: "hcd_ok A (set_urb u urb (dev1\<lparr>hd_usb := usb\<rparr>)) \<and> same_urbs dev (set_urb u urb (dev1\<lparr>hd_usb := usb\<rparr>))"
    if "hcd_ok A dev1" for A
  proof -
    have s: "urb_size urb = urb_size (uc_urb c')" if "hd_contexts (dev1\<lparr>hd_usb := usb\<rparr>) u = Some c'" for c'
      using sizes_carried [OF res(3) _ c(1)] that res(2) by simp
    have "hcd_ok A (dev1\<lparr>hd_usb := usb\<rparr>)" using that res(1) by (rule hcd_ok_usb)
    from keeps_set_urb [OF this s] res(3) show ?thesis by (auto simp: same_urbs_def)
  qed
  show ?thesis using res(4) keep c k by (auto simp: handled_def control_urb_def vds_context_def split: if_splits)
qed

lemma handled_error: "hcd_ok active dev \<Longrightarrow> handled active u dev (- EPIPE, dev)"
  by (simp add: handled_def errnos)

lemma handled_ok: "\<lbrakk>hcd_ok active dev'; same_urbs dev dev'\<rbrakk> \<Longrightarrow> handled active u dev (0, dev')"
  by (simp add: handled_def errnos)

lemma handled_interrupt_out:
  assumes ok: "hcd_ok active dev" "u \<in> active"
  shows "handled active u dev (vds_interrupt_out_urb u dev)"
proof -
  obtain c where c: "hd_contexts dev u = Some c" "urb_fits (uc_urb c)" using ok by (rule active_context)
  have keep: "hcd_ok active (set_urb u ((uc_urb c)\<lparr>u_actual_length := n\<rparr>) d) \<and>
      same_urbs dev (set_urb u ((uc_urb c)\<lparr>u_actual_length := n\<rparr>) d)" if "hcd_ok active d" "hd_contexts d = hd_contexts dev"
      "hd_given_back d = hd_given_back dev" for n d
    using keeps_set_urb [OF that(1), of u "(uc_urb c)\<lparr>u_actual_length := n\<rparr>"] c that(2,3) same_urbs_contexts [OF that(2,3)]
    by (auto intro: same_urbs_trans)
  show ?thesis using c keep [OF ok(1) refl refl] keep [OF keeps_enqueue_frame [OF ok(1)]] handled_error [OF ok(1)]
    by (auto simp: vds_interrupt_out_urb_def vds_context_def Let_def intro!: handled_ok split: option.split)
qed

lemma pop_input_sel [simp]:
  "hd_contexts (snd (vds_pop_input_packet_locked dev)) = hd_contexts dev"
  "hd_given_back (snd (vds_pop_input_packet_locked dev)) = hd_given_back dev"
  "hd_completed_urbs (snd (vds_pop_input_packet_locked dev)) = hd_completed_urbs dev"
  by (auto simp: vds_pop_input_packet_locked_def split: list.split)

lemma handled_interrupt_in:
  assumes ok: "hcd_ok active dev" "u \<in> active"
  shows "handled active u dev (vds_interrupt_in_urb now u dev)"
proof -
  obtain c where c: "hd_contexts dev u = Some c" "uc_state c = VDS_URB_ACTIVE" "context_ok c" "uc_hcpriv c" "urb_fits (uc_urb c)"
    using ok by (rule active_context)
  obtain p d where p: "vds_pop_input_packet_locked dev = (p, d)" by fastforce
  have d: "hcd_ok active d" "hd_contexts d = hd_contexts dev" "hd_given_back d = hd_given_back dev" "same_urbs dev d"
    using keeps_pop_input [OF ok(1)] pop_input_sel [of dev] p by (auto intro: same_urbs_contexts)
  have n: "\<not> on_queue d u" using not_on_queue [OF d(1) ok(2)] .
  show ?thesis
  proof (cases p)
    case None
    let ?c = "c\<lparr>uc_state := VDS_URB_PENDING_HID_IN\<rparr>"
    have "urbs_ok (active - {u}) ((hd_contexts d)(u \<mapsto> ?c)) (hd_pending_hid_in d @ [u]) (hd_pending_feature_get d)
        (hd_completed_urbs d)"
      using d c by (intro urbs_ok_wait [where c = c]) (auto simp: hcd_ok_def context_ok_def)
    moreover have "same_urbs dev (change_context u (\<lambda>c. c\<lparr>uc_state := VDS_URB_PENDING_HID_IN\<rparr>) d)"
      using d(4) same_urbs_change [of d u "\<lambda>c. c\<lparr>uc_state := VDS_URB_PENDING_HID_IN\<rparr>"] by (auto intro: same_urbs_trans)
    ultimately show ?thesis using d c n None p
      by (simp add: handled_def vds_interrupt_in_urb_def hcd_ok_def same_urbs_def)
  next
    case (Some packet)
    have "urb_size (vds_fill_hid_in_urb packet (uc_urb c)) = urb_size (uc_urb c)" using c(5) by (rule fill_hid_in_size)
    then have s: "hcd_ok active (set_urb u (vds_fill_hid_in_urb packet (uc_urb c)) d)"
      "same_urbs dev (set_urb u (vds_fill_hid_in_urb packet (uc_urb c)) d)"
      using keeps_set_urb [OF d(1), of u "vds_fill_hid_in_urb packet (uc_urb c)"] c d(2,4) by (auto intro: same_urbs_trans)
    have "u \<notin> set (hd_completed_urbs (set_urb u (vds_fill_hid_in_urb packet (uc_urb c)) d))" using n by (simp add: on_queue_def)
    from keeps_schedule_hid [OF s(1) this, of now] show ?thesis using Some p c s(2)
      by (auto simp: vds_interrupt_in_urb_def vds_context_def intro!: handled_ok intro: same_urbs_trans)
  qed
qed

lemma keeps_schedule_iso:
  assumes ok: "hcd_ok active dev" and n: "u \<notin> set (hd_completed_urbs dev)"
  shows "hcd_ok active (vds_schedule_iso_giveback now input u dev)" "same_urbs dev (vds_schedule_iso_giveback now input u dev)"
proof -
  let ?f = "\<lambda>base ready c. c\<lparr>uc_urb := (uc_urb c)\<lparr>u_start_frame := base\<rparr>, uc_ready_time := ready\<rparr>"
  have "hcd_ok active (change_context u (?f base ready) dev)" "same_urbs dev (change_context u (?f base ready) dev)" for base ready
    using ok n by (auto intro!: keeps_change_context same_urbs_change dest: context_ok_of simp: context_ok_def urb_fits_def)
  then show "hcd_ok active (vds_schedule_iso_giveback now input u dev)" "same_urbs dev (vds_schedule_iso_giveback now input u dev)"
    by (simp_all add: vds_schedule_iso_giveback_def Let_def same_urbs_def)
qed

lemma handled_iso:
  assumes ok: "hcd_ok active dev" "u \<in> active"
  shows "handled active u dev (iso_urb now u dev)"
proof -
  obtain c where c: "hd_contexts dev u = Some c" "uc_state c = VDS_URB_ACTIVE" "context_ok c" using ok by (rule active_context)
  have n: "u \<notin> set (hd_completed_urbs (change_context u f dev))" for f using not_on_queue [OF ok] by (simp add: on_queue_def)
  have keep: "hcd_ok active (change_context u f dev)" "same_urbs dev (change_context u f dev)"
    if "u_transfer_buffer (uc_urb c) \<noteq> None" "f \<in> {uc_deliver_iso_out_update (\<lambda>_. True), uc_deliver_iso_in_update (\<lambda>_. True)}" for f
    using that c ok(1) by (auto intro!: keeps_change_context same_urbs_change simp: context_ok_def)
  have "handled active u dev (0, vds_schedule_iso_giveback now input u (change_context u f dev))"
    if "u_transfer_buffer (uc_urb c) \<noteq> None" "f \<in> {uc_deliver_iso_out_update (\<lambda>_. True), uc_deliver_iso_in_update (\<lambda>_. True)}" for f input
    using keeps_schedule_iso [OF keep(1) [OF that] n, of now input] keep(2) [OF that] by (intro handled_ok) (auto intro: same_urbs_trans)
  then show ?thesis using c handled_error [OF ok(1)] by (auto simp: iso_urb_def Let_def vds_context_def)
qed

lemma handled_switch:
  assumes ok: "hcd_ok active dev" "u \<in> active"
  shows "handled active u dev (vds_urb_switch now u dev)"
  using handled_control [OF ok] handled_iso [OF ok] handled_interrupt_in [OF ok] handled_interrupt_out [OF ok] handled_error [OF ok(1)]
  by (auto simp: vds_urb_switch_def interrupt_urb_def Let_def split: pipe_type.split)

text \<open>
  After the switch the URB is on a queue of waiting URBs, or it is still active and can be queued for giveback.
  A request for a feature report whose frame could not be queued is on a queue and is queued for giveback as well.
\<close>

lemma keeps_switch:
  assumes ok: "hcd_ok active dev" "u \<in> active" and r: "vds_urb_switch now u dev = (ret, dev')"
  shows "same_urbs dev dev'"
    and "ret = - EINPROGRESS \<Longrightarrow> hcd_ok (active - {u}) dev'"
    and "\<lbrakk>ret \<noteq> - EINPROGRESS; hd_contexts dev' u = Some c; uc_state c = VDS_URB_ACTIVE\<rbrakk> \<Longrightarrow> hcd_ok active dev'"
    and "ret \<noteq> - EINPROGRESS \<Longrightarrow> hcd_ok (active - {u}) (snd (vds_queue_urb_giveback_locked u ret dev'))"
proof -
  obtain c0 where c: "hd_contexts dev u = Some c0" using ok by (rule active_context)
  have h: "same_urbs dev dev'" "if ret = - EINPROGRESS then hcd_ok (active - {u}) dev' else hcd_ok active dev' \<or> hcd_ok (active - {u}) dev'"
    using handled_switch [OF ok, of now] by (simp_all add: r handled_def)
  obtain c' where c': "hd_contexts dev' u = Some c'" using held_carried [OF h(1) c] by blast
  show "same_urbs dev dev'" by (rule h(1))
  show "hcd_ok (active - {u}) dev'" if "ret = - EINPROGRESS" using h(2) that by simp
  show "hcd_ok active dev'" if "ret \<noteq> - EINPROGRESS" "hd_contexts dev' u = Some c" "uc_state c = VDS_URB_ACTIVE"
    using h(2) that active_iff [of "active - {u}" dev' u] by auto
  show "hcd_ok (active - {u}) (snd (vds_queue_urb_giveback_locked u ret dev'))" if "ret \<noteq> - EINPROGRESS"
    using h(2) that keeps_queue_giveback [OF _ c', of active ret] keeps_queue_giveback [OF _ c', of "active - {u}" ret] by auto
qed

lemma keeps_link:
  assumes ok: "hcd_ok active dev" and u: "hd_contexts dev u = None" "urb_fits urb" and l: "vds_urb_link link u urb dev = (r, dev')"
  shows "(r \<noteq> 0 \<and> hcd_ok active dev' \<and> same_urbs dev dev') \<or>
    (r = 0 \<and> hcd_ok (insert u active) dev' \<and> sizes dev' = (sizes dev)(u \<mapsto> urb_size urb) \<and> hd_given_back dev' = hd_given_back dev)"
proof -
  obtain b allocs where k: "kmalloc dev = (b, dev\<lparr>hd_allocs := allocs\<rparr>)" by (rule kmalloc_cases)
  have urbs: "urbs_ok active (hd_contexts dev) (hd_pending_hid_in dev) (hd_pending_feature_get dev) (hd_completed_urbs dev)"
    using ok by (simp add: hcd_ok_def)
  have n: "u \<notin> in_state (hd_contexts dev) s" for s using u by (simp add: in_state_def)
  have "timed (ready_of ((hd_contexts dev)(u \<mapsto> new_context urb))) (hd_completed_urbs dev) =
      timed (ready_of (hd_contexts dev)) (hd_completed_urbs dev)"
    using urbs n by (intro timed_cong ready_of_update) (auto simp: urbs_ok_def)
  then have "urbs_ok (insert u active) ((hd_contexts dev)(u \<mapsto> new_context urb)) (hd_pending_hid_in dev)
      (hd_pending_feature_get dev) (hd_completed_urbs dev)"
    using urbs n u(2) by (auto simp: urbs_ok_def new_context_def context_ok_def)
  then show ?thesis using l k ok u
    by (auto simp: vds_urb_link_def same_urbs_def hcd_ok_def sizes_def fun_eq_iff new_context_def errnos split: if_splits)
qed

lemma keeps_dequeue:
  assumes ok: "hcd_ok active dev" and u: "u \<notin> active"
  shows "hcd_ok active (snd (vds_urb_dequeue check u status dev)) \<and> same_urbs dev (snd (vds_urb_dequeue check u status dev))"
proof (cases "hd_contexts dev u")
  case None
  then show ?thesis using ok by (simp add: vds_urb_dequeue_def)
next
  case (Some c)
  let ?f = "\<lambda>c. c\<lparr>uc_status := status, uc_ready_time := 0\<rparr>"
  have "hcd_ok active (change_context u ?f dev)" "same_urbs dev (change_context u ?f dev)"
    using ok Some by (auto intro!: keeps_change_context same_urbs_change dest: context_ok_of simp: context_ok_def)
  then show ?thesis using Some ok u keeps_queue_giveback [OF ok Some, of status] by (simp add: vds_urb_dequeue_def)
qed

section \<open>Runs\<close>

text \<open>
  \<open>hcd_reach A W dev\<close>: the controller is in state \<open>dev\<close>, \<open>A\<close> are the URBs it accepted so far, with the sizes of
  their buffers, and \<open>W\<close> the submissions under way. Every submission has a number of its own.

  The steps, which may follow each other in any order: a submission is one step up to the point where the URB is
  linked and the lock is given up (\<open>reach_link\<close>), one for the switch on its pipe, and one for queueing it for giveback
  (\<open>reach_queue\<close>), so that other submissions, the giveback thread and every call of user space can come between
  them; a turn of the giveback thread is a step under the lock (\<open>reach_take\<close>) and one for the rest; every other call
  is one step. Two runs the code allows are left out. A URB is not unlinked while its own submission is under way
  (\<open>reach_dequeue\<close> requires \<open>W u = None\<close>): what happens then is the theorem \<open>unlink_during_submission\<close>. And a request
  for a feature report that was put on the queue of waiting requests, but whose frame could not be queued, is queued
  for giveback in the same step (\<open>reach_refused\<close>).
\<close>

datatype submission = Sub_linked | Sub_handled int

inductive hcd_reach :: "(nat \<rightharpoonup> nat option \<times> nat) \<Rightarrow> (nat \<rightharpoonup> submission) \<Rightarrow> vds_hcd_dev \<Rightarrow> bool" where
  reach_start: "hcd_reach Map.empty Map.empty (vds_hcd_start (probed allocs))"
| reach_open: "hcd_reach A W dev \<Longrightarrow> hcd_reach A W (snd (vds_open dev))"
| reach_release: "hcd_reach A W dev \<Longrightarrow> hcd_reach A W (vds_release dev)"
| reach_read: "hcd_reach A W dev \<Longrightarrow> hcd_reach A W (snd (vds_read nonblock signal fault count dev))"
| reach_write: "hcd_reach A W dev \<Longrightarrow> hcd_reach A W (snd (vds_write now fault dup buf dev))"
| reach_ioctl: "\<lbrakk>hcd_reach A W dev; vds_ioctl version fault cmd dev = (r, out, dev')\<rbrakk> \<Longrightarrow> hcd_reach A W dev'"
| reach_not_linked: "\<lbrakk>hcd_reach A W dev; A u = None; urb_fits urb; vds_urb_link link u urb dev = (r, dev'); r \<noteq> 0\<rbrakk> \<Longrightarrow>
    hcd_reach A W dev'"
| reach_link: "\<lbrakk>hcd_reach A W dev; A u = None; urb_fits urb; vds_urb_link link u urb dev = (0, dev')\<rbrakk> \<Longrightarrow>
    hcd_reach (A(u \<mapsto> urb_size urb)) (W(u \<mapsto> Sub_linked)) dev'"
| reach_waits: "\<lbrakk>hcd_reach A W dev; W u = Some Sub_linked; vds_urb_switch now u dev = (- EINPROGRESS, dev')\<rbrakk> \<Longrightarrow>
    hcd_reach A (W(u := None)) dev'"
| reach_handled: "\<lbrakk>hcd_reach A W dev; W u = Some Sub_linked; vds_urb_switch now u dev = (ret, dev'); ret \<noteq> - EINPROGRESS;
    hd_contexts dev' u = Some c; uc_state c = VDS_URB_ACTIVE\<rbrakk> \<Longrightarrow> hcd_reach A (W(u \<mapsto> Sub_handled ret)) dev'"
| reach_refused: "\<lbrakk>hcd_reach A W dev; W u = Some Sub_linked; vds_urb_switch now u dev = (ret, dev'); ret \<noteq> - EINPROGRESS;
    hd_contexts dev' u = Some c; uc_state c \<noteq> VDS_URB_ACTIVE\<rbrakk> \<Longrightarrow>
    hcd_reach A (W(u := None)) (snd (vds_queue_urb_giveback_locked u ret dev'))"
| reach_queue: "\<lbrakk>hcd_reach A W dev; W u = Some (Sub_handled ret)\<rbrakk> \<Longrightarrow>
    hcd_reach A (W(u := None)) (snd (vds_queue_urb_giveback_locked u ret dev))"
| reach_dequeue: "\<lbrakk>hcd_reach A W dev; W u = None\<rbrakk> \<Longrightarrow> hcd_reach A W (snd (vds_urb_dequeue check u status dev))"
| reach_take: "\<lbrakk>hcd_reach A W dev; vds_giveback_take now dev = (g, dev')\<rbrakk> \<Longrightarrow> hcd_reach A W dev'"
| reach_finish: "\<lbrakk>hcd_reach A W dev; hd_contexts dev u = Some c; uc_state c = VDS_URB_GIVING_BACK\<rbrakk> \<Longrightarrow>
    hcd_reach A W (vds_giveback_finish u dev)"
| reach_hub: "\<lbrakk>hcd_reach A W dev; vds_hub_control type_req feature index dev = (r, out, dev')\<rbrakk> \<Longrightarrow> hcd_reach A W dev'"
| reach_stop: "hcd_reach A W dev \<Longrightarrow> hcd_reach A W (vds_hcd_stop dev)"

definition returned :: "vds_hcd_dev \<Rightarrow> nat \<rightharpoonup> nat option \<times> nat" where
  "returned dev = map_of (map (\<lambda>(u, urb, status). (u, urb_size urb)) (hd_given_back dev))"

definition account :: "(nat \<rightharpoonup> nat option \<times> nat) \<Rightarrow> vds_hcd_dev \<Rightarrow> bool" where
  "account A dev \<longleftrightarrow> distinct (map fst (hd_given_back dev)) \<and> dom (sizes dev) \<inter> dom (returned dev) = {} \<and>
     A = sizes dev ++ returned dev"

lemma dom_returned: "dom (returned dev) = fst ` set (hd_given_back dev)"
  by (force simp: returned_def dom_map_of_conv_image_fst)

lemma account_same_urbs: "\<lbrakk>account A dev; same_urbs dev dev'\<rbrakk> \<Longrightarrow> account A dev'"
  by (simp add: account_def same_urbs_def returned_def)

lemma account_link:
  assumes "account A dev" "A u = None" "sizes dev' = (sizes dev)(u \<mapsto> z)" "hd_given_back dev' = hd_given_back dev"
  shows "account (A(u \<mapsto> z)) dev'"
proof -
  have "returned dev' = returned dev" "returned dev u = None" "sizes dev u = None"
    using assms by (auto simp: returned_def account_def map_add_None)
  moreover from this have "u \<notin> dom (returned dev)" by auto
  ultimately show ?thesis using assms by (auto simp: account_def map_add_upd_left)
qed

lemma account_finish:
  assumes a: "account A dev" and c: "hd_contexts dev u = Some c" and s: "urb_size urb = urb_size (uc_urb c)"
    and g: "hd_given_back dev' = hd_given_back dev @ [(u, urb, status)]" "hd_contexts dev' = (hd_contexts dev)(u := None)"
  shows "account A dev'"
proof -
  have u: "sizes dev u = Some (urb_size urb)" using c s by (simp add: sizes_def)
  then have "u \<in> dom (sizes dev)" by auto
  then have n: "returned dev u = None" using a by (auto simp: account_def)
  have sz: "sizes dev' = (sizes dev)(u := None)" using g by (auto simp: sizes_def fun_eq_iff)
  have rt: "returned dev' = (returned dev)(u \<mapsto> urb_size urb)"
    using g n by (auto simp: returned_def map_add_def fun_eq_iff split: option.split)
  have "u \<notin> fst ` set (hd_given_back dev)" using n dom_returned [of dev] by (metis domIff)
  then have "distinct (map fst (hd_given_back dev'))" using a g by (auto simp: account_def)
  moreover have "dom (sizes dev') \<inter> dom (returned dev') = {}" using a by (auto simp: sz rt account_def)
  moreover have "A = sizes dev' ++ returned dev'"
    using a u n by (auto simp: sz rt account_def map_add_def fun_eq_iff split: option.split)
  ultimately show ?thesis by (simp add: account_def)
qed

lemma probed_ok: "hcd_ok {} (vds_hcd_start (probed allocs)) \<and> account Map.empty (vds_hcd_start (probed allocs))"
  by (auto simp: vds_hcd_start_def probed_def vds_status_set_locked_def hcd_ok_def frames_ok_def numbered_def input_ok_def
      audio_ok_def usb_ok_def vds_usb_device_init_def vds_usb_reset_state_locked_def vds_usb_valid_profile_def list_all_length
      urbs_ok_def in_state_def account_def sizes_def returned_def VDS_CONTROLLER_HID_PACKET_SIZE_def fun_eq_iff)

lemma dom_upd_None: "dom (W(u := None)) = dom W - {u}"
  by simp

theorem reach_ok: "hcd_reach A W dev \<Longrightarrow> hcd_ok (dom W) dev \<and> account A dev"
proof (induction rule: hcd_reach.induct)
  case (reach_start allocs)
  show ?case using probed_ok by simp
next
  case (reach_open A W dev)
  moreover have "same_urbs dev (snd (vds_open dev))" by (simp add: vds_open_def same_urbs_def)
  ultimately show ?case by (auto simp: vds_open_def intro: account_same_urbs)
next
  case (reach_release A W dev)
  then show ?case using keeps_release by (blast intro: account_same_urbs)
next
  case (reach_read A W dev nonblock signal fault count)
  have "same_urbs dev (snd (vds_read nonblock signal fault count dev))"
    by (rule same_urbs_contexts) (auto simp: vds_read_def Let_def split: list.split)
  then show ?case using reach_read keeps_read by (blast intro: account_same_urbs)
next
  case (reach_write A W dev now fault dup buf)
  then show ?case using keeps_write by (blast intro: account_same_urbs)
next
  case (reach_ioctl A W dev version fault cmd r out dev')
  then show ?case using keeps_vds_ioctl by (blast intro: account_same_urbs)
next
  case (reach_not_linked A W dev u urb link r dev')
  have "hd_contexts dev u = None" using reach_not_linked by (auto simp: account_def sizes_def map_add_None)
  then show ?case using keeps_link [OF _ _ reach_not_linked(3,4), of "dom W"] reach_not_linked by (blast intro: account_same_urbs)
next
  case (reach_link A W dev u urb link dev')
  have "hd_contexts dev u = None" using reach_link by (auto simp: account_def sizes_def map_add_None)
  then have l: "hcd_ok (insert u (dom W)) dev'" "sizes dev' = (sizes dev)(u \<mapsto> urb_size urb)" "hd_given_back dev' = hd_given_back dev"
    using keeps_link [OF _ _ reach_link(3,4), of "dom W"] reach_link.IH by auto
  moreover have "account (A(u \<mapsto> urb_size urb)) dev'" using l reach_link by (intro account_link) auto
  moreover have "dom (W(u \<mapsto> Sub_linked)) = insert u (dom W)" by auto
  ultimately show ?case by (simp only: simp_thms)
next
  case (reach_waits A W dev u now dev')
  then have "u \<in> dom W" by blast
  then show ?case unfolding dom_upd_None using keeps_switch(1,2) [OF _ _ reach_waits(3)] reach_waits.IH by (blast intro: account_same_urbs)
next
  case (reach_handled A W dev u now ret dev' c)
  then have u: "u \<in> dom W" by blast
  then have D: "dom (W(u \<mapsto> Sub_handled ret)) = dom W" by auto
  show ?case unfolding D using keeps_switch(1,3) [OF _ u reach_handled(3)] reach_handled by (blast intro: account_same_urbs)
next
  case (reach_refused A W dev u now ret dev' c)
  then have u: "u \<in> dom W" by blast
  have "same_urbs dev (snd (vds_queue_urb_giveback_locked u ret dev'))"
    using keeps_switch(1) [OF _ u reach_refused(3)] reach_refused.IH same_urbs_queue by (blast intro: same_urbs_trans)
  then show ?case unfolding dom_upd_None using keeps_switch(4) [OF _ u reach_refused(3)] reach_refused by (blast intro: account_same_urbs)
next
  case (reach_queue A W dev u ret)
  then obtain c where "hd_contexts dev u = Some c" using active_iff [of "dom W" dev u] by blast
  then show ?case unfolding dom_upd_None
    using keeps_queue_giveback [of "dom W" dev u c ret] reach_queue.IH same_urbs_queue by (blast intro: account_same_urbs)
next
  case (reach_dequeue A W dev u check status)
  then show ?case using keeps_dequeue [of "dom W" dev u check status] by (blast intro: account_same_urbs)
next
  case (reach_take A W dev now g dev')
  then show ?case using keeps_take by (blast intro: account_same_urbs)
next
  case (reach_finish A W dev u c)
  then show ?case using keeps_finish [of "dom W" dev u c] by (blast intro: account_finish)
next
  case (reach_hub A W dev type_req feature index r out dev')
  then show ?case using keeps_hub_control by (blast intro: account_same_urbs)
next
  case (reach_stop A W dev)
  then show ?case using keeps_stop [of "dom W" dev] by (blast intro: account_same_urbs)
qed

text \<open>A submission that nothing comes between: \<open>vds_urb_enqueue\<close> from its beginning to its end.\<close>

lemma reach_enqueue:
  assumes d: "hcd_reach A W dev" "A u = None" "urb_fits urb" and e: "vds_urb_enqueue now link u urb dev = (0, dev')"
  shows "hcd_reach (A(u \<mapsto> urb_size urb)) W dev'"
proof -
  obtain r1 d1 where "vds_urb_link link u urb dev = (r1, d1)" by fastforce
  then have l: "vds_urb_link link u urb dev = (0, d1)" and dev': "dev' = vds_urb_handle now u d1"
    using e by (auto simp: vds_urb_enqueue_def split: if_splits)
  let ?A = "A(u \<mapsto> urb_size urb)" and ?W = "W(u \<mapsto> Sub_linked)"
  have d1: "hcd_reach ?A ?W d1" using d l by (rule reach_link)
  have ok: "hcd_ok (dom ?W) d1" "u \<in> dom ?W" "?W u = Some Sub_linked" using reach_ok [OF d1] by auto
  have "hd_contexts dev u = None" using reach_ok [OF d(1)] d(2) by (auto simp: account_def sizes_def map_add_None)
  then have "u \<notin> dom W" using reach_ok [OF d(1)] active_iff [of "dom W" dev u] by auto
  then have W: "?W(u := None) = W" "W(u := None) = W" by auto
  obtain ret d2 where s: "vds_urb_switch now u d1 = (ret, d2)" by fastforce
  obtain c1 where c1: "hd_contexts d1 u = Some c1" using ok(1,2) by (rule active_context)
  obtain c where c: "hd_contexts d2 u = Some c" using held_carried [OF keeps_switch(1) [OF ok(1,2) s] c1] by blast
  consider "ret = - EINPROGRESS" | "ret \<noteq> - EINPROGRESS" "uc_state c = VDS_URB_ACTIVE" | "ret \<noteq> - EINPROGRESS" "uc_state c \<noteq> VDS_URB_ACTIVE"
    by blast
  then show ?thesis
  proof cases
    case 1
    then have "vds_urb_switch now u d1 = (- EINPROGRESS, d2)" using s by simp
    from reach_waits [OF d1 ok(3) this, unfolded W] show ?thesis using 1 s c1 by (simp add: dev' vds_urb_handle_def)
  next
    case 2
    have "hcd_reach ?A ((?W(u \<mapsto> Sub_handled ret))(u := None)) (snd (vds_queue_urb_giveback_locked u ret d2))"
      using reach_handled [OF d1 ok(3) s 2(1) c 2(2)] by (rule reach_queue) simp
    then show ?thesis using 2 s c1 unfolding fun_upd_upd W by (simp add: dev' vds_urb_handle_def)
  next
    case 3
    from reach_refused [OF d1 ok(3) s 3(1) c 3(2), unfolded W] show ?thesis using 3 s c1 by (simp add: dev' vds_urb_handle_def)
  qed
qed

end
