(* ===== verification/HcdProps.thy ===== *)
theory HcdProps
  imports HcdRuns
begin

text \<open>
  What the kernel module guarantees: its invariant, that every accepted URB is given back once and with a
  buffer of its size, that stopping drains the queues, the order of the audio in both directions and its
  pacing, the round trip of feature reports, and what an unlink in the middle of a submission does.
\<close>

section \<open>Concrete transfers\<close>

definition poll_urb :: urb where
  "poll_urb = \<lparr>u_pipe = PIPE_INTERRUPT, u_dir_in = True, u_endpoint = 4, u_setup_packet = None,
     u_transfer_buffer = Some (replicate 64 0), u_transfer_buffer_length = 64, u_actual_length = 0,
     u_iso_frame_desc = [], u_error_count = 0, u_start_frame = 0\<rparr>"

definition fresh_hcd :: vds_hcd_dev where
  "fresh_hcd = vds_hcd_start (probed [])"

definition polled_hcd :: vds_hcd_dev where
  "polled_hcd = snd (vds_urb_enqueue 5 0 7 poll_urb fresh_hcd)"

lemma fresh_reach: "hcd_reach Map.empty Map.empty fresh_hcd"
  unfolding fresh_hcd_def by (rule reach_start)

lemma poll_urb_fits: "urb_fits poll_urb"
  by (simp add: urb_fits_def poll_urb_def)

lemmas fresh_defs = fresh_hcd_def vds_hcd_start_def probed_def vds_status_set_locked_def vds_usb_device_init_def
  vds_usb_reset_state_locked_def

lemma hid_endpoint: "vds_usb_device_is_hid_in (hd_usb fresh_hcd) 4"
  by (simp add: fresh_defs vds_usb_device_is_hid_in_def vds_usb_device_profile_def vds_usb_controller_profile_for_profile_def
      vds_usb_valid_profile_def VDS_PROFILE_DSE_def VDS_PROFILE_DS5_def vds_dualsense_profile_def vds_usb_endpoint_number_def
      VDS_USB_HID_IN_ENDPOINT_def)

lemma fresh_sel [simp]:
  "hd_contexts fresh_hcd = Map.empty" "hd_pending_hid_in fresh_hcd = []" "hd_pending_feature_get fresh_hcd = []"
  "hd_completed_urbs fresh_hcd = []" "hd_given_back fresh_hcd = []" "hd_stopping fresh_hcd = False" "hd_allocs fresh_hcd = []"
  "hd_input_packets fresh_hcd = []" "hd_fault fresh_hcd = False" "hd_events fresh_hcd = []" "hd_event_count fresh_hcd = 0"
  by (simp_all add: fresh_defs)

definition polling_context :: vds_urb_context where
  "polling_context = (new_context poll_urb)\<lparr>uc_state := VDS_URB_PENDING_HID_IN\<rparr>"

lemma polled_hcd_eq: "polled_hcd = fresh_hcd\<lparr>hd_contexts := [7 \<mapsto> polling_context], hd_pending_hid_in := [7]\<rparr>"
  and polled_enqueue: "vds_urb_enqueue 5 0 7 poll_urb fresh_hcd = (0, polled_hcd)"
proof -
  have l: "vds_urb_link 0 7 poll_urb fresh_hcd = (0, fresh_hcd\<lparr>hd_contexts := [7 \<mapsto> new_context poll_urb]\<rparr>)"
    by (simp add: vds_urb_link_def kmalloc_def)
  have u: "u_dir_in poll_urb" "u_endpoint poll_urb = 4" "u_pipe poll_urb = PIPE_INTERRUPT" by (simp_all add: poll_urb_def)
  have h: "vds_urb_handle 5 7 (fresh_hcd\<lparr>hd_contexts := [7 \<mapsto> new_context poll_urb]\<rparr>) =
      fresh_hcd\<lparr>hd_contexts := [7 \<mapsto> polling_context], hd_pending_hid_in := [7]\<rparr>"
    using hid_endpoint u
    by (simp add: vds_urb_handle_def vds_urb_switch_def vds_context_def new_context_def interrupt_urb_def vds_interrupt_in_urb_def Let_def
        vds_pop_input_packet_locked_def change_context_def on_queue_def polling_context_def)
  show "polled_hcd = fresh_hcd\<lparr>hd_contexts := [7 \<mapsto> polling_context], hd_pending_hid_in := [7]\<rparr>"
    using l h by (simp add: polled_hcd_def vds_urb_enqueue_def)
  show "vds_urb_enqueue 5 0 7 poll_urb fresh_hcd = (0, polled_hcd)" using l by (simp add: polled_hcd_def vds_urb_enqueue_def)
qed

lemma polled_reach: "hcd_reach [7 \<mapsto> (Some 64, 64)] Map.empty polled_hcd"
  using reach_enqueue [OF fresh_reach _ poll_urb_fits polled_enqueue] by (simp add: urb_size_def poll_urb_def)

text \<open>A second poll that was linked and whose submission is still under way.\<close>

definition busy_hcd :: vds_hcd_dev where
  "busy_hcd = snd (vds_urb_link 0 9 poll_urb polled_hcd)"

lemma busy_reach: "hcd_reach [7 \<mapsto> (Some 64, 64), 9 \<mapsto> (Some 64, 64)] [9 \<mapsto> Sub_linked] busy_hcd"
proof -
  have "vds_urb_link 0 9 poll_urb polled_hcd = (0, busy_hcd)" by (simp add: busy_hcd_def vds_urb_link_def kmalloc_def polled_hcd_eq)
  from reach_link [OF polled_reach _ poll_urb_fits this] show ?thesis by (simp add: urb_size_def poll_urb_def)
qed

section \<open>Invariant\<close>

text \<open>
  C1. In every state of \<open>hcd_reach\<close>, where the steps of several submissions (linking, the switch on the pipe, queueing
  for giveback), the two steps of the giveback thread and whole calls of user space follow each other in any order,
  no URB is unlinked during its own submission, and nothing comes between the refusal of a deferred feature request and
  its giveback: the counters are the
  lengths of the queues; at most 16384 frames wait for user space, none longer than 4096 bytes, numbered without a
  gap; at most one input report and 19200 bytes of microphone audio are buffered; no freed context was used and no
  entry linked twice; every URB it holds is on exactly the queue its state names, once; the active ones are those whose
  submission is under way; and the timed completions are in the order of their times.
\<close>

theorem hcd_invariant:
  assumes "hcd_reach A W dev"
  shows "unat (hd_event_count dev) = length (hd_events dev) \<and> length (hd_events dev) \<le> 16384 \<and>
    (\<forall>i < length (hd_events dev). length (ev_payload (hd_events dev ! i)) \<le> VDS_FRAME_MAX_PAYLOAD \<and>
       fh_sequence (ev_header (hd_events dev ! i)) = hd_next_sequence dev - of_nat (length (hd_events dev) - i)) \<and>
    unat (hd_input_packet_count dev) = length (hd_input_packets dev) \<and> length (hd_input_packets dev) \<le> 1 \<and>
    unat (hd_audio_in_queued_bytes dev) = audio_sum (hd_audio_in_packets dev) \<and>
    audio_sum (hd_audio_in_packets dev) \<le> VDS_AUDIO_IN_QUEUE_MAX_BYTES \<and>
    \<not> hd_fault dev \<and>
    distinct (hd_pending_hid_in dev @ hd_pending_feature_get dev @ hd_completed_urbs dev) \<and>
    (\<forall>u c. hd_contexts dev u = Some c \<longrightarrow>
       (u \<in> set (hd_pending_hid_in dev) \<longleftrightarrow> uc_state c = VDS_URB_PENDING_HID_IN) \<and>
       (u \<in> set (hd_pending_feature_get dev) \<longleftrightarrow> uc_state c = VDS_URB_PENDING_FEATURE_GET) \<and>
       (u \<in> set (hd_completed_urbs dev) \<longleftrightarrow> uc_state c = VDS_URB_PENDING_GIVEBACK)) \<and>
    dom W = {u. \<exists>c. hd_contexts dev u = Some c \<and> uc_state c = VDS_URB_ACTIVE} \<and>
    sorted (timed (ready_time dev) (hd_completed_urbs dev))"
proof -
  define D where "D = dom W"
  have ok: "hcd_ok D dev" using reach_ok [OF assms] by (simp only: D_def simp_thms)
  have "event_ok (hd_events dev ! i)" if "i < length (hd_events dev)" for i
    using ok that by (auto simp: hcd_ok_def frames_ok_def list_all_length)
  then show ?thesis
    unfolding D_def [symmetric] using ok by (auto simp: hcd_ok_def frames_ok_def event_ok_def numbered_def input_ok_def audio_ok_def urbs_ok_def in_state_def)
qed

theorem hcd_invariant_witness:
  "hcd_reach [7 \<mapsto> (Some 64, 64), 9 \<mapsto> (Some 64, 64)] [9 \<mapsto> Sub_linked] busy_hcd \<and> \<not> hd_fault busy_hcd \<and>
   dom [9 :: nat \<mapsto> Sub_linked] = {u. \<exists>c. hd_contexts busy_hcd u = Some c \<and> uc_state c = VDS_URB_ACTIVE}"
  using hcd_invariant [OF busy_reach] by (intro conjI busy_reach; elim conjE)

text \<open>
  C2. In every state of \<open>hcd_reach\<close> (the steps of submissions, giveback and calls in any order, with the two
  exceptions named there: no URB is unlinked during its own submission, and a deferred feature request whose frame is
  refused is queued for giveback at once) every URB the controller accepted is either held or was given back, never both and never given
  back twice, and the buffer of a held or returned URB has the size it was submitted with: nothing is written
  outside it.
\<close>

theorem hcd_urbs_accounted:
  assumes "hcd_reach A W dev"
  shows "distinct (map fst (hd_given_back dev)) \<and> dom (hd_contexts dev) \<inter> fst ` set (hd_given_back dev) = {} \<and>
    dom A = dom (hd_contexts dev) \<union> fst ` set (hd_given_back dev) \<and>
    (\<forall>u c. hd_contexts dev u = Some c \<longrightarrow> A u = Some (urb_size (uc_urb c))) \<and>
    (\<forall>(u, urb, status) \<in> set (hd_given_back dev). A u = Some (urb_size urb))"
proof -
  have a: "account A dev" using reach_ok [OF assms] by blast
  have held: "A u = Some (urb_size (uc_urb c))" if "hd_contexts dev u = Some c" for u c
  proof -
    have "sizes dev u = Some (urb_size (uc_urb c))" using that by (simp add: sizes_def)
    moreover from this have "u \<in> dom (sizes dev)" by auto
    then have "returned dev u = None" using a by (auto simp: account_def)
    ultimately show ?thesis using a by (simp add: account_def map_add_def)
  qed
  have given: "A u = Some (urb_size urb)" if "(u, urb, status) \<in> set (hd_given_back dev)" for u urb status
  proof -
    have "distinct (map fst (map (\<lambda>(u, urb, status). (u, urb_size urb)) (hd_given_back dev)))"
      using a by (simp add: account_def comp_def case_prod_unfold)
    moreover have "(u, urb_size urb) \<in> set (map (\<lambda>(u, urb, status). (u, urb_size urb)) (hd_given_back dev))" using that by force
    ultimately have "returned dev u = Some (urb_size urb)" by (simp add: returned_def)
    then show ?thesis using a by (simp add: account_def)
  qed
  show ?thesis using a held given dom_returned [of dev] by (auto simp: account_def simp flip: dom_sizes)
qed

theorem hcd_urbs_accounted_witness:
  "hcd_reach [7 \<mapsto> (Some 64, 64), 9 \<mapsto> (Some 64, 64)] [9 \<mapsto> Sub_linked] busy_hcd \<and>
   dom [7 \<mapsto> (Some (64 :: nat), 64 :: nat), 9 \<mapsto> (Some 64, 64)] = dom (hd_contexts busy_hcd) \<union> fst ` set (hd_given_back busy_hcd)"
  using hcd_urbs_accounted [OF busy_reach] by (intro conjI busy_reach) (elim conjE)

section \<open>Draining\<close>

lemma queue_giving:
  "in_state (hd_contexts (snd (vds_queue_urb_giveback_locked u status dev))) VDS_URB_GIVING_BACK =
   in_state (hd_contexts dev) VDS_URB_GIVING_BACK"
  by (cases "hd_contexts dev u") (auto simp: vds_queue_urb_giveback_locked_def Let_def vds_context_def in_state_def)

lemma queue_each_giving:
  "in_state (hd_contexts (snd (queue_each status us dev))) VDS_URB_GIVING_BACK = in_state (hd_contexts dev) VDS_URB_GIVING_BACK"
  by (induction us arbitrary: dev) (simp_all add: queue_giving)

lemma stop_giving:
  "in_state (hd_contexts (vds_hcd_stop dev)) VDS_URB_GIVING_BACK = in_state (hd_contexts dev) VDS_URB_GIVING_BACK"
  by (simp add: vds_hcd_stop_def cancel_pending_snd Let_def queue_each_giving)

lemma c_div_nonpos: "a \<le> 0 \<Longrightarrow> c_div a 1000 \<le> 0"
  by (auto simp: c_div_def sgn_if)

lemma turn_gives_back:
  assumes ok: "hcd_ok active dev" and q: "hd_completed_urbs dev = u # us" and due: "ready_time dev u \<le> now"
  shows "hcd_ok active (vds_giveback_turn now dev)" "hd_contexts (vds_giveback_turn now dev) = (hd_contexts dev)(u := None)"
    "fst ` set (hd_given_back (vds_giveback_turn now dev)) = insert u (fst ` set (hd_given_back dev))"
proof -
  define d where "d = (change_context u (\<lambda>c. c\<lparr>uc_state := VDS_URB_GIVING_BACK, uc_hcpriv := False\<rparr>) dev)\<lparr>hd_completed_urbs := us\<rparr>"
  have t: "vds_giveback_take now dev = (Giveback_take u, d)"
    using q due c_div_nonpos [of "ready_time dev u - now"] by (auto simp: vds_giveback_take_def ktime_us_delta_def d_def)
  from keeps_take [OF ok t] obtain c where d: "hcd_ok active d" "hd_contexts d u = Some c" "uc_state c = VDS_URB_GIVING_BACK" "same_urbs dev d"
    by blast
  have "vds_giveback_turn now dev = vds_giveback_finish u d" by (simp add: vds_giveback_turn_def t)
  moreover have "(hd_contexts d)(u := None) = (hd_contexts dev)(u := None)" by (simp add: d_def)
  ultimately show "hcd_ok active (vds_giveback_turn now dev)" "hd_contexts (vds_giveback_turn now dev) = (hd_contexts dev)(u := None)"
    "fst ` set (hd_given_back (vds_giveback_turn now dev)) = insert u (fst ` set (hd_given_back dev))"
    using keeps_finish [OF d(1-3)] d(4) by (auto simp: same_urbs_def)
qed

lemma drains:
  assumes "hcd_ok active dev" "\<And>u. u \<in> set (hd_completed_urbs dev) \<Longrightarrow> ready_time dev u \<le> now"
  shows "(let d = (vds_giveback_turn now ^^ length (hd_completed_urbs dev)) dev in
    dom (hd_contexts d) = dom (hd_contexts dev) - set (hd_completed_urbs dev) \<and>
    fst ` set (hd_given_back d) = set (hd_completed_urbs dev) \<union> fst ` set (hd_given_back dev) \<and> hcd_ok active d)"
  using assms
proof (induction "length (hd_completed_urbs dev)" arbitrary: dev)
  case (Suc n)
  then obtain u us where q: "hd_completed_urbs dev = u # us" by (cases "hd_completed_urbs dev") auto
  let ?d = "vds_giveback_turn now dev"
  have d: "hcd_ok active ?d" "hd_contexts ?d = (hd_contexts dev)(u := None)"
    "fst ` set (hd_given_back ?d) = insert u (fst ` set (hd_given_back dev))"
    using turn_gives_back [OF Suc.prems(1) q] Suc.prems(2) q by simp_all
  have s: "set (hd_completed_urbs ?d) = set us" and "distinct (hd_completed_urbs ?d)" and us: "distinct us" "u \<notin> set us"
    using d(1,2) Suc.prems(1) q by (auto simp: hcd_ok_def urbs_ok_def)
  then have l: "n = length (hd_completed_urbs ?d)"
    using Suc.hyps(2) q by (metis distinct_card length_Cons nat.inject)
  have "ready_time ?d v \<le> now" if "v \<in> set (hd_completed_urbs ?d)" for v
    using Suc.prems(2) [of v] that s us q d(2) by (auto simp: ready_of_def)
  from Suc.hyps(1) [OF l d(1) this]
  have "dom (hd_contexts ((vds_giveback_turn now ^^ n) ?d)) = dom (hd_contexts dev) - {u} - set us \<and>
      fst ` set (hd_given_back ((vds_giveback_turn now ^^ n) ?d)) = set us \<union> insert u (fst ` set (hd_given_back dev)) \<and>
      hcd_ok active ((vds_giveback_turn now ^^ n) ?d)"
    using s d by (simp add: Let_def l [symmetric])
  moreover have "(vds_giveback_turn now ^^ length (hd_completed_urbs dev)) dev = (vds_giveback_turn now ^^ n) ?d"
    by (simp add: Suc.hyps(2) [symmetric] funpow_swap1)
  ultimately show ?case using q by auto
qed (simp add: Let_def)

text \<open>
  C8. Stopping drains the controller, under three conditions: the giveback thread is not in the middle of a URB when
  the controller is stopped, the thread runs as many turns as URBs are completed then, and it runs them at a time at
  which the scheduled ones are due. After these turns the controller holds exactly the URBs whose submission is still
  under way, and every other URB it ever accepted has been given back; when no submission is under way, none is held.
\<close>

theorem hcd_stop_drains:
  assumes "hcd_reach A W dev" "\<forall>u c. hd_contexts dev u = Some c \<longrightarrow> uc_state c \<noteq> VDS_URB_GIVING_BACK"
    and "\<forall>u c. hd_contexts (vds_hcd_stop dev) u = Some c \<longrightarrow> uc_ready_time c \<le> now"
  shows "(let d = (vds_giveback_turn now ^^ length (hd_completed_urbs (vds_hcd_stop dev))) (vds_hcd_stop dev) in
    dom (hd_contexts d) = dom W \<and> fst ` set (hd_given_back d) = dom A - dom W \<and> hd_stopping (vds_hcd_stop dev))"
proof -
  let ?s = "vds_hcd_stop dev"
  have ok: "hcd_ok (dom W) dev" using reach_ok [OF assms(1)] by blast
  have s: "hcd_ok (dom W) ?s" "same_urbs dev ?s" "hd_pending_hid_in ?s = []" "hd_pending_feature_get ?s = []" "hd_stopping ?s"
    by (rule keeps_stop [OF ok])+
  have "in_state (hd_contexts ?s) VDS_URB_GIVING_BACK = in_state (hd_contexts dev) VDS_URB_GIVING_BACK"
    by (rule stop_giving)
  then have none: "uc_state c \<noteq> VDS_URB_GIVING_BACK" if "hd_contexts ?s u = Some c" for u c
    using assms(2) that by (auto simp: in_state_def)
  have all: "dom (hd_contexts ?s) = set (hd_completed_urbs ?s) \<union> dom W"
  proof (intro set_eqI iffI)
    fix u assume "u \<in> dom (hd_contexts ?s)"
    then obtain c where c: "hd_contexts ?s u = Some c" by auto
    have "uc_state c \<noteq> VDS_URB_PENDING_HID_IN" "uc_state c \<noteq> VDS_URB_PENDING_FEATURE_GET"
      using s c by (auto simp: hcd_ok_def urbs_ok_def in_state_def)
    then have "uc_state c = VDS_URB_PENDING_GIVEBACK \<or> uc_state c = VDS_URB_ACTIVE" using none [OF c] by (cases "uc_state c") auto
    then show "u \<in> set (hd_completed_urbs ?s) \<union> dom W" using completed_iff [OF s(1)] active_iff [OF s(1)] c by blast
  qed (use completed_iff [OF s(1)] active_iff [OF s(1)] in blast)
  have apart: "set (hd_completed_urbs ?s) \<inter> dom W = {}"
  proof (rule equals0I)
    fix u assume "u \<in> set (hd_completed_urbs ?s) \<inter> dom W"
    then obtain c c' where "hd_contexts ?s u = Some c" "uc_state c = VDS_URB_PENDING_GIVEBACK" "hd_contexts ?s u = Some c'"
      "uc_state c' = VDS_URB_ACTIVE" using completed_iff [OF s(1)] active_iff [OF s(1)] by blast
    then show False by simp
  qed
  have due: "ready_time ?s u \<le> now" if "u \<in> set (hd_completed_urbs ?s)" for u
  proof -
    have "u \<in> dom (hd_contexts ?s)" using all that by simp
    then obtain c where "hd_contexts ?s u = Some c" by auto
    then show ?thesis using assms(3) by (auto simp: ready_of_def)
  qed
  have acc: "account A ?s" using reach_ok [OF assms(1)] s(2) by (blast intro: account_same_urbs)
  have "dom A = dom (hd_contexts ?s) \<union> fst ` set (hd_given_back ?s)" "dom (hd_contexts ?s) \<inter> fst ` set (hd_given_back ?s) = {}"
    using acc dom_returned [of ?s] by (auto simp: account_def simp flip: dom_sizes)
  then show ?thesis using drains [OF s(1) due] all apart s(5) by (auto simp: Let_def)
qed

lemma stopped_polled:
  "hd_contexts (vds_hcd_stop polled_hcd) = [7 \<mapsto> polling_context\<lparr>uc_status := - ESHUTDOWN, uc_state := VDS_URB_PENDING_GIVEBACK,
     uc_hcpriv := True\<rparr>]"
  by (simp add: vds_hcd_stop_def cancel_pending_snd Let_def polled_hcd_eq vds_queue_urb_giveback_locked_def vds_context_def
      polling_context_def new_context_def change_context_def fun_eq_iff)

theorem hcd_stop_drains_witness:
  "hcd_reach [7 \<mapsto> (Some 64, 64)] Map.empty polled_hcd \<and>
   (let d = (vds_giveback_turn 9 ^^ length (hd_completed_urbs (vds_hcd_stop polled_hcd))) (vds_hcd_stop polled_hcd) in
    dom (hd_contexts d) = dom (Map.empty :: nat \<rightharpoonup> submission) \<and>
    fst ` set (hd_given_back d) = dom [7 :: nat \<mapsto> (Some (64 :: nat), 64 :: nat)] - dom (Map.empty :: nat \<rightharpoonup> submission) \<and>
    hd_stopping (vds_hcd_stop polled_hcd))"
proof (intro conjI polled_reach)
  have "uc_state c \<noteq> VDS_URB_GIVING_BACK" if "hd_contexts polled_hcd u = Some c" for u c
    using that by (auto simp: polled_hcd_eq polling_context_def split: if_splits)
  moreover have "uc_ready_time c \<le> 9" if "hd_contexts (vds_hcd_stop polled_hcd) u = Some c" for u c
    using that by (auto simp: stopped_polled polling_context_def new_context_def split: if_splits)
  ultimately show "let d = (vds_giveback_turn 9 ^^ length (hd_completed_urbs (vds_hcd_stop polled_hcd))) (vds_hcd_stop polled_hcd) in
      dom (hd_contexts d) = dom (Map.empty :: nat \<rightharpoonup> submission) \<and>
      fst ` set (hd_given_back d) = dom [7 :: nat \<mapsto> (Some (64 :: nat), 64 :: nat)] - dom (Map.empty :: nat \<rightharpoonup> submission) \<and>
      hd_stopping (vds_hcd_stop polled_hcd)"
    by (intro hcd_stop_drains [OF polled_reach]) blast+
qed

section \<open>Audio to the controller\<close>

text \<open>The bytes of the descriptors that lie in the buffer, in their order.\<close>

definition descriptor_bytes :: "urb \<Rightarrow> bytes \<Rightarrow> iso_packet list \<Rightarrow> bytes" where
  "descriptor_bytes u buf descs =
     concat (map (\<lambda>d. take (ip_length d) (drop (ip_offset d) buf)) (filter (in_buffer u) descs))"

definition chunk_bytes :: "bytes \<Rightarrow> chunk option \<Rightarrow> bytes" where
  "chunk_bytes buf chunk = (case chunk of None \<Rightarrow> [] | Some (start, len) \<Rightarrow> take len (drop start buf))"

definition event_bytes :: "vds_event list \<Rightarrow> bytes" where
  "event_bytes events = concat (map ev_payload events)"

text \<open>Nothing is refused: no allocation fails, the controller runs, and the queue has room.\<close>

definition accepts_frames :: "nat \<Rightarrow> vds_hcd_dev \<Rightarrow> bool" where
  "accepts_frames n dev \<longleftrightarrow> hd_allocs dev = [] \<and> \<not> hd_stopping dev \<and> unat (hd_event_count dev) + n \<le> 16384"

lemma enqueue_accepted:
  assumes "accepts_frames (Suc n) dev" "length payload \<le> VDS_FRAME_MAX_PAYLOAD"
  shows "\<exists>e. ev_payload e = payload \<and> fh_type (ev_header e) = type \<and>
      hd_events (snd (vds_enqueue_frame type payload dev)) = hd_events dev @ [e]"
    and "accepts_frames n (snd (vds_enqueue_frame type payload dev))" and "fst (vds_enqueue_frame type payload dev) = 0"
proof -
  have c: "\<not> hd_event_count dev \<ge> 16384" using assms by (simp add: accepts_frames_def word_le_nat_alt)
  have "unat (hd_event_count dev + 1) = unat (hd_event_count dev) + 1"
    using assms by (simp add: accepts_frames_def unat_word_ariths)
  then show "\<exists>e. ev_payload e = payload \<and> fh_type (ev_header e) = type \<and>
      hd_events (snd (vds_enqueue_frame type payload dev)) = hd_events dev @ [e]"
    "accepts_frames n (snd (vds_enqueue_frame type payload dev))" "fst (vds_enqueue_frame type payload dev) = 0"
    using assms c by (simp_all add: vds_enqueue_frame_def kmalloc_def accepts_frames_def Let_def)
qed

lemma extend_chunk_bytes:
  assumes a: "accepts_frames (Suc n) dev" and c: "\<forall>s l. chunk = Some (s, l) \<longrightarrow> s + l \<le> length buf \<and> l \<le> VDS_FRAME_MAX_PAYLOAD"
    and d: "ip_offset desc + ip_length desc \<le> length buf" "ip_length desc \<le> VDS_FRAME_MAX_PAYLOAD"
    and e: "extend_chunk buf desc chunk dev = (chunk1, dev1)"
  shows "\<exists>new. hd_events dev1 = hd_events dev @ new \<and> list_all (\<lambda>e. fh_type (ev_header e) = VDS_FRAME_USB_AUDIO_OUT) new \<and>
      event_bytes new @ chunk_bytes buf chunk1 = chunk_bytes buf chunk @ take (ip_length desc) (drop (ip_offset desc) buf)"
    and "accepts_frames n dev1" and "\<forall>s l. chunk1 = Some (s, l) \<longrightarrow> s + l \<le> length buf \<and> l \<le> VDS_FRAME_MAX_PAYLOAD"
proof -
  have less: "accepts_frames n dev" using a by (simp add: accepts_frames_def)
  have join: "take len (drop start buf) @ take k (drop (start + len) buf) = take (len + k) (drop start buf)" for start len k
    by (simp add: take_add) (simp add: add.commute)
  show "\<exists>new. hd_events dev1 = hd_events dev @ new \<and> list_all (\<lambda>e. fh_type (ev_header e) = VDS_FRAME_USB_AUDIO_OUT) new \<and>
      event_bytes new @ chunk_bytes buf chunk1 = chunk_bytes buf chunk @ take (ip_length desc) (drop (ip_offset desc) buf)"
  proof (cases "(\<exists>s l. chunk = Some (s, l) \<and> dev1 = send_chunk buf (s, l) dev \<and>
      chunk1 = Some (ip_offset desc, ip_length desc))")
    case True
    then obtain s l where s: "chunk = Some (s, l)" "dev1 = send_chunk buf (s, l) dev" "chunk1 = Some (ip_offset desc, ip_length desc)"
      by blast
    have "length (take l (drop s buf)) \<le> VDS_FRAME_MAX_PAYLOAD" using c s by auto
    from enqueue_accepted(1) [OF a this, of VDS_FRAME_USB_AUDIO_OUT] obtain e where
      "ev_payload e = take l (drop s buf)" "fh_type (ev_header e) = VDS_FRAME_USB_AUDIO_OUT" "hd_events dev1 = hd_events dev @ [e]"
      by (auto simp: s send_chunk_def)
    then show ?thesis by (intro exI [of _ "[e]"]) (simp add: s event_bytes_def chunk_bytes_def)
  next
    case False
    then show ?thesis using e join
      by (intro exI [of _ "[]"])
         (auto simp: extend_chunk_def Let_def event_bytes_def chunk_bytes_def split: if_splits option.splits)
  qed
  show "accepts_frames n dev1"
    using e less c enqueue_accepted(2) [OF a] by (auto simp: extend_chunk_def Let_def send_chunk_def split: if_splits option.splits)
  show "\<forall>s l. chunk1 = Some (s, l) \<longrightarrow> s + l \<le> length buf \<and> l \<le> VDS_FRAME_MAX_PAYLOAD"
    using e c d by (auto simp: extend_chunk_def Let_def split: if_splits option.splits)
qed

definition chunk_ok :: "bytes \<Rightarrow> chunk option \<Rightarrow> bool" where
  "chunk_ok buf chunk \<longleftrightarrow> (\<forall>s l. chunk = Some (s, l) \<longrightarrow> s + l \<le> length buf \<and> l \<le> VDS_FRAME_MAX_PAYLOAD)"

lemma iso_out_loop_bytes:
  assumes "iso_out_loop u buf descs chunk dev = (ds, errors, amount, chunk', dev')" "length buf = u_transfer_buffer_length u"
    "accepts_frames (length descs + n) dev" "chunk_ok buf chunk"
    "\<And>d. \<lbrakk>d \<in> set descs; in_buffer u d\<rbrakk> \<Longrightarrow> ip_length d \<le> VDS_FRAME_MAX_PAYLOAD"
  shows "(\<exists>new. hd_events dev' = hd_events dev @ new \<and> list_all (\<lambda>e. fh_type (ev_header e) = VDS_FRAME_USB_AUDIO_OUT) new \<and>
      event_bytes new @ chunk_bytes buf chunk' = chunk_bytes buf chunk @ descriptor_bytes u buf descs) \<and>
    accepts_frames n dev' \<and> chunk_ok buf chunk' \<and> amount = length (descriptor_bytes u buf descs) \<and>
    errors = length (filter (\<lambda>d. \<not> in_buffer u d) descs)"
  using assms
proof (induction descs arbitrary: chunk dev ds errors amount)
  case Nil
  then show ?case by (auto simp: event_bytes_def descriptor_bytes_def)
next
  case (Cons desc descs)
  show ?case
  proof (cases "in_buffer u desc")
    case False
    obtain ds1 errors1 amount1 where l: "iso_out_loop u buf descs chunk dev = (ds1, errors1, amount1, chunk', dev')"
      "amount = amount1" "errors = Suc errors1" using Cons.prems(1) False by (auto split: prod.splits)
    have "accepts_frames (length descs + n) dev" using Cons.prems(3) by (simp add: accepts_frames_def)
    from Cons.IH [OF l(1) Cons.prems(2) this Cons.prems(4)] show ?thesis
      using Cons.prems(5) False l by (simp add: descriptor_bytes_def)
  next
    case True
    obtain chunk1 dev1 where e: "extend_chunk buf desc chunk dev = (chunk1, dev1)" by fastforce
    have d: "ip_offset desc + ip_length desc \<le> length buf" "ip_length desc \<le> VDS_FRAME_MAX_PAYLOAD"
      using True Cons.prems(2,5) by (auto simp: in_buffer_def)
    have a: "accepts_frames (Suc (length descs + n)) dev" using Cons.prems(3) by simp
    note ext = extend_chunk_bytes [OF a Cons.prems(4) [unfolded chunk_ok_def] d e, folded chunk_ok_def]
    obtain ds1 errors1 amount1 where l: "iso_out_loop u buf descs chunk1 dev1 = (ds1, errors1, amount1, chunk', dev')"
      "amount = ip_length desc + amount1" "errors = errors1" using Cons.prems(1) True e by (auto split: prod.splits)
    have len: "length (take (ip_length desc) (drop (ip_offset desc) buf)) = ip_length desc" using d by simp
    from Cons.IH [OF l(1) Cons.prems(2) ext(2,3) Cons.prems(5)] obtain new where
      new: "hd_events dev' = hd_events dev1 @ new" "list_all (\<lambda>e. fh_type (ev_header e) = VDS_FRAME_USB_AUDIO_OUT) new"
        "event_bytes new @ chunk_bytes buf chunk' = chunk_bytes buf chunk1 @ descriptor_bytes u buf descs"
      and more: "accepts_frames n dev'" "chunk_ok buf chunk'" "amount1 = length (descriptor_bytes u buf descs)"
        "errors1 = length (filter (\<lambda>d. \<not> in_buffer u d) descs)" by auto
    obtain first where first: "hd_events dev1 = hd_events dev @ first"
      "list_all (\<lambda>e. fh_type (ev_header e) = VDS_FRAME_USB_AUDIO_OUT) first"
      "event_bytes first @ chunk_bytes buf chunk1 = chunk_bytes buf chunk @ take (ip_length desc) (drop (ip_offset desc) buf)"
      using ext(1) by blast
    have "event_bytes (first @ new) @ chunk_bytes buf chunk' = event_bytes first @ chunk_bytes buf chunk1 @ descriptor_bytes u buf descs"
      using new(3) by (simp add: event_bytes_def)
    also have "\<dots> = chunk_bytes buf chunk @ descriptor_bytes u buf (desc # descs)"
      using first(3) True by (simp add: descriptor_bytes_def flip: append_assoc)
    finally have "event_bytes (first @ new) @ chunk_bytes buf chunk' = chunk_bytes buf chunk @ descriptor_bytes u buf (desc # descs)" .
    then show ?thesis using first new more l len True
      by (intro conjI exI [of _ "first @ new"]) (auto simp: descriptor_bytes_def)
  qed
qed

text \<open>
  C9. Playback reaches user space in order and whole while nothing is refused: when an isochronous OUT URB is delivered,
  the controller is running, no allocation fails, the frame queue has room for one frame more than the URB has
  descriptors, and no descriptor in the buffer is longer than 4096 bytes, the frames it queues behind those
  already waiting are audio frames whose payloads, one after the other, are the bytes of the descriptors that lie
  in the buffer; the others are counted as errors and contribute nothing.
\<close>

theorem iso_out_in_order:
  assumes "u_transfer_buffer u = Some buf" "length buf = u_transfer_buffer_length u"
    "accepts_frames (length (u_iso_frame_desc u) + 1) dev"
    "\<forall>d \<in> set (u_iso_frame_desc u). in_buffer u d \<longrightarrow> ip_length d \<le> VDS_FRAME_MAX_PAYLOAD"
  shows "\<exists>u' dev' new. vds_iso_out_urb u dev = (0, u', dev') \<and> hd_events dev' = hd_events dev @ new \<and>
    (\<forall>e \<in> set new. fh_type (ev_header e) = VDS_FRAME_USB_AUDIO_OUT) \<and>
    concat (map ev_payload new) = descriptor_bytes u buf (u_iso_frame_desc u) \<and>
    u_actual_length u' = length (descriptor_bytes u buf (u_iso_frame_desc u)) \<and>
    u_error_count u' = length (filter (\<lambda>d. \<not> in_buffer u d) (u_iso_frame_desc u))"
proof -
  obtain ds errors amount chunk dev1 where l: "iso_out_loop u buf (u_iso_frame_desc u) None dev = (ds, errors, amount, chunk, dev1)"
    by (metis prod_cases5)
  have "chunk_ok buf None" by (simp add: chunk_ok_def)
  from iso_out_loop_bytes [OF l assms(2,3) this] assms(4) obtain new where
    new: "hd_events dev1 = hd_events dev @ new" "list_all (\<lambda>e. fh_type (ev_header e) = VDS_FRAME_USB_AUDIO_OUT) new"
      "event_bytes new @ chunk_bytes buf chunk = descriptor_bytes u buf (u_iso_frame_desc u)"
    and more: "accepts_frames 1 dev1" "chunk_ok buf chunk" "amount = length (descriptor_bytes u buf (u_iso_frame_desc u))"
      "errors = length (filter (\<lambda>d. \<not> in_buffer u d) (u_iso_frame_desc u))"
    by (auto simp: chunk_bytes_def)
  show ?thesis
  proof (cases chunk)
    case None
    then show ?thesis using l new more assms(1)
      by (auto simp: vds_iso_out_urb_def event_bytes_def chunk_bytes_def list_all_iff)
  next
    case (Some c)
    obtain s k where c: "c = (s, k)" by fastforce
    have "length (take k (drop s buf)) \<le> VDS_FRAME_MAX_PAYLOAD" using more(2) Some c by (auto simp: chunk_ok_def)
    from enqueue_accepted(1) [OF _ this, of 0 dev1 VDS_FRAME_USB_AUDIO_OUT] more(1) obtain e where
      e: "ev_payload e = take k (drop s buf)" "fh_type (ev_header e) = VDS_FRAME_USB_AUDIO_OUT"
        "hd_events (send_chunk buf c dev1) = hd_events dev1 @ [e]" by (auto simp: send_chunk_def c)
    then show ?thesis using l new more assms(1) Some c
      by (intro exI [of _ "u\<lparr>u_error_count := errors, u_iso_frame_desc := ds, u_actual_length := amount\<rparr>"]
          exI [of _ "send_chunk buf c dev1"] exI [of _ "new @ [e]"])
         (auto simp: vds_iso_out_urb_def event_bytes_def chunk_bytes_def list_all_iff)
  qed
qed

definition playback_urb :: urb where
  "playback_urb = poll_urb\<lparr>u_pipe := PIPE_ISOCHRONOUS, u_dir_in := False, u_endpoint := 1,
     u_transfer_buffer := Some [1, 2, 3, 4], u_transfer_buffer_length := 4,
     u_iso_frame_desc := [\<lparr>ip_offset = 0, ip_length = 2, ip_actual_length = 0, ip_status = 0\<rparr>,
                          \<lparr>ip_offset = 3, ip_length = 9, ip_actual_length = 0, ip_status = 0\<rparr>,
                          \<lparr>ip_offset = 2, ip_length = 2, ip_actual_length = 0, ip_status = 0\<rparr>]\<rparr>"

theorem iso_out_in_order_witness:
  "\<exists>u' dev' new. vds_iso_out_urb playback_urb fresh_hcd = (0, u', dev') \<and> hd_events dev' = new \<and>
    concat (map ev_payload new) = [1, 2, 3, 4] \<and> u_actual_length u' = 4 \<and> u_error_count u' = 1"
proof -
  have a: "accepts_frames (length (u_iso_frame_desc playback_urb) + 1) fresh_hcd"
    by (simp add: accepts_frames_def playback_urb_def)
  have d: "\<forall>d \<in> set (u_iso_frame_desc playback_urb). in_buffer playback_urb d \<longrightarrow> ip_length d \<le> VDS_FRAME_MAX_PAYLOAD"
    by (simp add: playback_urb_def VDS_FRAME_MAX_PAYLOAD_def)
  have "descriptor_bytes playback_urb [1, 2, 3, 4] (u_iso_frame_desc playback_urb) = [1, 2, 3, 4]"
    "length (filter (\<lambda>d. \<not> in_buffer playback_urb d) (u_iso_frame_desc playback_urb)) = 1"
    by (simp_all add: descriptor_bytes_def playback_urb_def in_buffer_def)
  then show ?thesis using iso_out_in_order [OF _ _ a d, of "[1, 2, 3, 4]"] by (auto simp: playback_urb_def)
qed

section \<open>Audio from the microphone\<close>

lemma drop_oldest_fits:
  assumes "unat queued + n \<le> VDS_AUDIO_IN_QUEUE_MAX_BYTES"
  shows "drop_oldest (of_nat n) packets queued count = (packets, queued, count)"
proof (cases packets)
  case (Cons p ps)
  have "unat (of_nat n :: u32) = n" "unat (queued + of_nat n) = unat queued + n"
    using assms by (auto simp: VDS_AUDIO_IN_QUEUE_MAX_BYTES_def unat_word_ariths unat_of_nat take_bit_nat_eq_self)
  then have "\<not> queued + of_nat n > of_nat VDS_AUDIO_IN_QUEUE_MAX_BYTES"
    using assms by (simp add: word_less_nat_alt VDS_AUDIO_IN_QUEUE_MAX_BYTES_def)
  then show ?thesis by (simp add: Cons)
qed simp

text \<open>
  The buffered microphone audio is a queue of bytes. A transfer of \<open>n\<close> bytes takes the oldest \<open>n\<close> and is
  filled up with silence when there are fewer; a frame from user space is appended, after the oldest audio was
  dropped as far as 19200 bytes require it, and none is dropped while the frame fits.
\<close>

theorem microphone_is_fifo:
  assumes "hcd_reach A W dev"
  shows "(case vds_fill_audio_in_locked n dev of (data, dev') \<Rightarrow>
      data = take n (pcm (hd_audio_in_packets dev)) @ replicate (n - length (pcm (hd_audio_in_packets dev))) 0 \<and>
      pcm (hd_audio_in_packets dev') = drop n (pcm (hd_audio_in_packets dev))) \<and>
    (payload \<noteq> [] \<and> length payload \<le> VDS_FRAME_MAX_PAYLOAD \<and> hd_allocs dev = [] \<and> \<not> hd_stopping dev \<longrightarrow>
      (case vds_write_audio_in_frame payload dev of (ret, dev') \<Rightarrow> ret = 0 \<and>
        (\<exists>k. pcm (hd_audio_in_packets dev') = drop k (pcm (hd_audio_in_packets dev)) @ payload \<and>
           (length (pcm (hd_audio_in_packets dev)) + length payload \<le> VDS_AUDIO_IN_QUEUE_MAX_BYTES \<longrightarrow> k = 0)) \<and>
        length (pcm (hd_audio_in_packets dev')) \<le> VDS_AUDIO_IN_QUEUE_MAX_BYTES))"
proof (intro conjI impI)
  have a: "audio_ok (hd_audio_in_packets dev) (hd_audio_in_queued_bytes dev) (hd_audio_in_packet_count dev)"
    using reach_ok [OF assms] by (simp add: hcd_ok_def)
  show "case vds_fill_audio_in_locked n dev of (data, dev') \<Rightarrow>
      data = take n (pcm (hd_audio_in_packets dev)) @ replicate (n - length (pcm (hd_audio_in_packets dev))) 0 \<and>
      pcm (hd_audio_in_packets dev') = drop n (pcm (hd_audio_in_packets dev))"
    using audio_ok_fill [OF a] by (auto simp: vds_fill_audio_in_locked_def split: prod.split)
  assume p: "payload \<noteq> [] \<and> length payload \<le> VDS_FRAME_MAX_PAYLOAD \<and> hd_allocs dev = [] \<and> \<not> hd_stopping dev"
  obtain packets queued count where d: "drop_oldest (of_nat (length payload)) (hd_audio_in_packets dev)
      (hd_audio_in_queued_bytes dev) (hd_audio_in_packet_count dev) = (packets, queued, count)" by (metis prod_cases3)
  obtain dropped where s: "hd_audio_in_packets dev = dropped @ packets" "audio_sum packets + length payload \<le> VDS_AUDIO_IN_QUEUE_MAX_BYTES"
    using drop_oldest_spec [OF _ _ _ _ _ d] a p by (auto simp: audio_ok_def)
  have fits: "packets = hd_audio_in_packets dev" if "audio_sum (hd_audio_in_packets dev) + length payload \<le> VDS_AUDIO_IN_QUEUE_MAX_BYTES"
    using drop_oldest_fits [of "hd_audio_in_queued_bytes dev" "length payload"] that a d by (auto simp: audio_ok_def)
  have "\<exists>k. pcm packets = drop k (pcm (hd_audio_in_packets dev)) \<and>
      (audio_sum (hd_audio_in_packets dev) + length payload \<le> VDS_AUDIO_IN_QUEUE_MAX_BYTES \<longrightarrow> k = 0)"
  proof (cases "audio_sum (hd_audio_in_packets dev) + length payload \<le> VDS_AUDIO_IN_QUEUE_MAX_BYTES")
    case True
    then show ?thesis using fits by (intro exI [of _ 0]) simp
  next
    case False
    then show ?thesis using s(1) by (intro exI [of _ "audio_sum dropped"]) simp
  qed
  then show "case vds_write_audio_in_frame payload dev of (ret, dev') \<Rightarrow> ret = 0 \<and>
        (\<exists>k. pcm (hd_audio_in_packets dev') = drop k (pcm (hd_audio_in_packets dev)) @ payload \<and>
           (length (pcm (hd_audio_in_packets dev)) + length payload \<le> VDS_AUDIO_IN_QUEUE_MAX_BYTES \<longrightarrow> k = 0)) \<and>
        length (pcm (hd_audio_in_packets dev')) \<le> VDS_AUDIO_IN_QUEUE_MAX_BYTES"
    using p d s(2) by (auto simp: vds_write_audio_in_frame_def kmalloc_def available_def)
qed

theorem microphone_is_fifo_witness:
  "hcd_reach Map.empty Map.empty fresh_hcd \<and>
   (case vds_write_audio_in_frame [5, 6, 7] fresh_hcd of (ret, dev') \<Rightarrow> ret = 0 \<and>
      (\<exists>k. pcm (hd_audio_in_packets dev') = drop k (pcm (hd_audio_in_packets fresh_hcd)) @ [5, 6, 7]))"
  using microphone_is_fifo [OF fresh_reach, of 0 "[5, 6, 7]"] fresh_reach
  by (auto simp: VDS_FRAME_MAX_PAYLOAD_def split: prod.splits)

section \<open>Pacing\<close>

text \<open>
  The completion of an isochronous URB is paced by the audio it carries: the time it is given, in microseconds,
  is never shorter than its bytes last at 384 bytes per millisecond (192 from the microphone), at most one
  microsecond or the minimum of one millisecond longer, and it starts when the previous one of its direction ends.
\<close>

theorem iso_real_time:
  assumes "amount = sum_list (map (\<lambda>d. if input then min (ip_length d) 192 else ip_length d) descs)"
    and "0 < amount" "amount < 2 ^ 29"
    and "u_iso_frame_desc (uc_urb c) = descs" "hd_contexts dev u = Some c"
    and "rate = (if input then 192 else 384)" "d = unat (iso_duration_us input descs)"
  shows "amount * 1000 \<le> d * rate \<and> (d * rate < amount * 1000 + rate \<or> d = 1000) \<and>
    ready_time (vds_schedule_iso_giveback now input u dev) u =
      max (if input then hd_next_iso_in_ready dev else hd_next_iso_out_ready dev) now + int d * 1000 \<and>
    (if input then hd_next_iso_in_ready (vds_schedule_iso_giveback now input u dev)
     else hd_next_iso_out_ready (vds_schedule_iso_giveback now input u dev)) =
      ready_time (vds_schedule_iso_giveback now input u dev) u"
proof -
  define t :: u32 where "t = sum_list (map (\<lambda>d. of_nat (if input then min (ip_length d) VDS_AUDIO_IN_BYTES_PER_MS else ip_length d)) descs)"
  have "t = of_nat amount"
    unfolding t_def assms(1) VDS_AUDIO_IN_BYTES_PER_MS_def by (induction descs) simp_all
  then have u: "unat t = amount" using assms(3) by (simp add: unat_of_nat take_bit_nat_eq_self)
  then have t: "unat t = amount" "t \<noteq> 0" using assms(2) by auto
  define q where "q = (amount * 1000 + (rate - 1)) div rate"
  have r: "0 < rate" using assms(6) by simp
  have "q < 2 ^ 32" using assms(3,6) by (auto simp: q_def)
  then have "unat (of_nat q :: u32) = q" by (simp add: unat_of_nat take_bit_nat_eq_self)
  then have "unat (max (of_nat q :: u32) 1000) = max q 1000" by (simp add: max_def word_le_nat_alt)
  moreover have "iso_duration_us input descs = max (of_nat q) 1000"
    using t assms(6) by (simp add: iso_duration_us_def Let_def t_def [symmetric] q_def VDS_AUDIO_IN_BYTES_PER_MS_def VDS_AUDIO_OUT_BYTES_PER_MS_def)
  ultimately have d: "d = max q 1000" using assms(7) by simp
  have "amount * 1000 \<le> q * rate" "q * rate < amount * 1000 + rate"
    using r div_mult_mod_eq [of "amount * 1000 + (rate - 1)" rate] mod_less_divisor [OF r, of "amount * 1000 + (rate - 1)"]
    unfolding q_def by linarith+
  moreover have "q * rate \<le> d * rate" using d by simp
  moreover from calculation have "amount * 1000 \<le> d * rate" by linarith
  moreover have "d * rate < amount * 1000 + rate \<or> d = 1000" using d \<open>q * rate < amount * 1000 + rate\<close> by (auto simp: max_def)
  moreover have "ready_time (vds_schedule_iso_giveback now input u dev) u =
      max (if input then hd_next_iso_in_ready dev else hd_next_iso_out_ready dev) now + int d * 1000"
    "(if input then hd_next_iso_in_ready (vds_schedule_iso_giveback now input u dev)
     else hd_next_iso_out_ready (vds_schedule_iso_giveback now input u dev)) =
      ready_time (vds_schedule_iso_giveback now input u dev) u"
    using assms(4,5,7) by (simp_all add: vds_schedule_iso_giveback_def Let_def vds_context_def ready_of_def max_def)
  ultimately show ?thesis by simp
qed

theorem iso_real_time_witness:
  "let dev = fresh_hcd\<lparr>hd_contexts := [7 \<mapsto> new_context (playback_urb\<lparr>u_iso_frame_desc := [\<lparr>ip_offset = 0, ip_length = 768,
       ip_actual_length = 0, ip_status = 0\<rparr>]\<rparr>)]\<rparr> in
   ready_time (vds_schedule_iso_giveback 5 False 7 dev) 7 =
     max (hd_next_iso_out_ready dev) 5 + int (unat (iso_duration_us False [\<lparr>ip_offset = 0, ip_length = 768,
       ip_actual_length = 0, ip_status = 0\<rparr>])) * 1000"
  using iso_real_time [of 768 False "[\<lparr>ip_offset = 0, ip_length = 768, ip_actual_length = 0, ip_status = 0\<rparr>]"
      "new_context (playback_urb\<lparr>u_iso_frame_desc := [\<lparr>ip_offset = 0, ip_length = 768, ip_actual_length = 0, ip_status = 0\<rparr>]\<rparr>)"
      "fresh_hcd\<lparr>hd_contexts := [7 \<mapsto> new_context (playback_urb\<lparr>u_iso_frame_desc := [\<lparr>ip_offset = 0, ip_length = 768,
       ip_actual_length = 0, ip_status = 0\<rparr>]\<rparr>)]\<rparr>" 7 384 _ 5]
  by (simp add: Let_def new_context_def)

section \<open>Feature reports\<close>

lemma queue_giveback_context:
  "\<lbrakk>hd_contexts dev u = Some c; \<not> settled (uc_state c)\<rbrakk> \<Longrightarrow>
   hd_contexts (snd (vds_queue_urb_giveback_locked u status dev)) =
     (hd_contexts dev)(u \<mapsto> c\<lparr>uc_status := status, uc_state := VDS_URB_PENDING_GIVEBACK, uc_hcpriv := True\<rparr>)"
  by (simp add: vds_queue_urb_giveback_locked_def Let_def vds_context_def settled_def)

lemma queue_giveback_other:
  "v \<noteq> u \<Longrightarrow> hd_contexts (snd (vds_queue_urb_giveback_locked u status dev)) v = hd_contexts dev v"
  by (simp add: vds_queue_urb_giveback_locked_def Let_def)

lemma complete_replies_other: "v \<notin> set us \<Longrightarrow> hd_contexts (complete_replies payload us dev) v = hd_contexts dev v"
  by (induction us arbitrary: dev) (auto simp: queue_giveback_other set_urb_def split: prod.split)

lemma complete_replies_completes:
  assumes "u \<in> set us" "distinct us" "hd_contexts dev u = Some c" "uc_state c = VDS_URB_PENDING_FEATURE_GET"
    "uc_feature_report_id c = payload ! 0" "vds_fill_feature_urb payload (uc_urb c) = (status, urb)"
  shows "hd_contexts (complete_replies payload us dev) u =
    Some (c\<lparr>uc_urb := urb, uc_status := status, uc_state := VDS_URB_PENDING_GIVEBACK, uc_hcpriv := True\<rparr>)"
  using assms
proof (induction us arbitrary: dev)
  case (Cons v us)
  show ?case
  proof (cases "v = u")
    case True
    have "hd_contexts (set_urb u urb dev) u = Some (c\<lparr>uc_urb := urb\<rparr>)" using Cons.prems by (simp add: set_urb_def)
    then have "hd_contexts (snd (vds_queue_urb_giveback_locked u status (set_urb u urb dev))) u =
        Some (c\<lparr>uc_urb := urb, uc_status := status, uc_state := VDS_URB_PENDING_GIVEBACK, uc_hcpriv := True\<rparr>)"
      using Cons.prems by (subst queue_giveback_context) (auto simp: settled_def)
    then show ?thesis using Cons.prems True by (simp add: vds_context_def complete_replies_other)
  next
    case False
    have "hd_contexts (snd (vds_queue_urb_giveback_locked v status' (set_urb v urb' dev))) u = Some c" for status' urb'
      using False Cons.prems by (simp add: queue_giveback_other set_urb_def)
    then show ?thesis using Cons False by (auto split: prod.split)
  qed
qed simp

lemma complete_replies_usb [simp]: "hd_usb (complete_replies payload us dev) = hd_usb dev"
  by (induction us arbitrary: dev) (auto split: prod.split)

text \<open>
  A feature report makes the round trip: when user space replies with a report of at most 64 bytes, every URB that
  waits for it is completed without error and carries the report, as far as its buffer reaches; from then on a
  request for the same report is answered at once with the same bytes.
\<close>

theorem feature_reply_round_trip:
  assumes reach: "hcd_reach A W dev" and c: "hd_contexts dev u = Some c" "uc_state c = VDS_URB_PENDING_FEATURE_GET"
    "uc_feature_report_id c = payload ! 0"
    and p: "payload \<noteq> []" "length payload \<le> VDS_CONTROLLER_HID_PACKET_SIZE" "\<not> hd_stopping dev"
    and b: "u_transfer_buffer (uc_urb c) \<noteq> None"
    and w: "u_transfer_buffer w = Some wbuf" "length wbuf = u_transfer_buffer_length w"
  shows "case vds_write_feature_reply payload dev of (ret, dev') \<Rightarrow> ret = 0 \<and>
    (\<exists>c' buf'. hd_contexts dev' u = Some c' \<and> u \<in> set (hd_completed_urbs dev') \<and> uc_status c' = 0 \<and>
       u_transfer_buffer (uc_urb c') = Some buf' \<and>
       take (u_actual_length (uc_urb c')) buf' = take (u_transfer_buffer_length (uc_urb c)) payload) \<and>
    (\<exists>w' wbuf'. vds_usb_copy_cached_feature_report (payload ! 0) (hd_usb dev') w = (0, w') \<and> u_transfer_buffer w' = Some wbuf' \<and>
       take (u_actual_length w') wbuf' = take (u_transfer_buffer_length w) payload)"
proof -
  have ok: "hcd_ok (dom W) dev" using reach_ok [OF reach] by blast
  obtain usb where r: "vds_usb_device_update_feature_reply payload (hd_usb dev) = (0, usb)"
    using p by (simp add: vds_usb_device_update_feature_reply_def Let_def)
  define d where "d = complete_replies payload (hd_pending_feature_get dev) (dev\<lparr>hd_usb := usb\<rparr>)"
  have wr: "vds_write_feature_reply payload dev = (0, d\<lparr>hd_frames_from_user := hd_frames_from_user d + 1\<rparr>)"
    using r p by (simp add: vds_write_feature_reply_def Let_def vds_complete_pending_feature_replies_locked_def d_def)
  obtain buf where buf: "u_transfer_buffer (uc_urb c) = Some buf" "length buf = u_transfer_buffer_length (uc_urb c)"
    using b context_ok_of [OF ok c(1)] by (auto simp: context_ok_def urb_fits_def)
  define k where "k = min (length payload) (u_transfer_buffer_length (uc_urb c))"
  have fill: "vds_fill_feature_urb payload (uc_urb c) = (0, (uc_urb c)\<lparr>u_transfer_buffer := Some (overlay (take k payload) 0 buf),
      u_actual_length := k\<rparr>)" using buf by (simp add: vds_fill_feature_urb_def Let_def k_def)
  have "u \<in> set (hd_pending_feature_get dev)" "distinct (hd_pending_feature_get dev)"
    using ok c by (auto simp: hcd_ok_def urbs_ok_def in_state_def)
  from complete_replies_completes [OF this, of "dev\<lparr>hd_usb := usb\<rparr>", OF _ c(2,3) fill]
  have u: "hd_contexts d u = Some (c\<lparr>uc_urb := (uc_urb c)\<lparr>u_transfer_buffer := Some (overlay (take k payload) 0 buf),
      u_actual_length := k\<rparr>, uc_status := 0, uc_state := VDS_URB_PENDING_GIVEBACK, uc_hcpriv := True\<rparr>)"
    using c(1) by (simp add: d_def)
  have "hcd_ok (dom W) d" using keeps_write_feature_reply [OF ok, of payload] by (simp add: wr)
  then have "u \<in> set (hd_completed_urbs d)" using u completed_iff by fastforce
  moreover have "take k (overlay (take k payload) 0 buf) = take (u_transfer_buffer_length (uc_urb c)) payload"
    by (simp add: overlay_def k_def min_def)
  moreover have "\<exists>w' wbuf'. vds_usb_copy_cached_feature_report (payload ! 0) (hd_usb d) w = (0, w') \<and> u_transfer_buffer w' = Some wbuf' \<and>
       take (u_actual_length w') wbuf' = take (u_transfer_buffer_length w) payload"
  proof -
    have "unat (payload ! 0) < 256" using unsigned_less [of "payload ! 0"] by simp
    moreover have "usb_ok (hd_usb dev)" by (rule usb_ok_of [OF ok])
    ultimately have cache: "ud_feature_cache_len usb ! unat (payload ! 0) = length payload"
      "take (length payload) (ud_feature_cache usb ! unat (payload ! 0)) = payload"
      using r p by (auto simp: vds_usb_device_update_feature_reply_def Let_def usb_ok_def overlay_def)
    show ?thesis using cache p w
      by (simp add: d_def vds_usb_copy_cached_feature_report_def Let_def vds_usb_copy_to_urb_def overlay_def min_def)
  qed
  ultimately show ?thesis using u by (simp add: wr)
qed

definition feature_urb :: urb where
  "feature_urb = poll_urb\<lparr>u_pipe := PIPE_CONTROL, u_endpoint := 0, u_setup_packet := Some [0xa1, 1, 5, 3, 3, 0, 64, 0]\<rparr>"

definition asked_hcd :: vds_hcd_dev where
  "asked_hcd = snd (vds_urb_enqueue 5 0 7 feature_urb fresh_hcd)"

lemma feature_setup: "parse_setup [0xa1, 1, 5, 3, 3, 0, 64, 0] =
    \<lparr>bRequestType = 0xa1, bRequest = HID_REQ_GET_REPORT, wValue = 0x305, wIndex = 3, wLength = 64\<rparr>"
  by (simp add: parse_setup_def from_le16_def hid_requests)

lemma fresh_usb: "vds_usb_device_profile (hd_usb fresh_hcd) = vds_dualsense_profile" "ud_feature_cache_len (hd_usb fresh_hcd) = replicate 256 0"
  by (simp_all add: fresh_defs vds_usb_device_profile_def vds_usb_controller_profile_for_profile_def vds_usb_valid_profile_def
      VDS_PROFILE_DSE_def VDS_PROFILE_DS5_def)

lemma asked_fields:
  "hd_contexts asked_hcd 7 = Some ((new_context (feature_urb\<lparr>u_actual_length := 0\<rparr>))\<lparr>uc_state := VDS_URB_PENDING_FEATURE_GET,
     uc_feature_report_id := 5\<rparr>)"
  "vds_urb_enqueue 5 0 7 feature_urb fresh_hcd = (0, asked_hcd)" "\<not> hd_stopping asked_hcd"
  "map ev_payload (hd_events asked_hcd) = [[5, 64, 0]]"
proof -
  let ?d = "fresh_hcd\<lparr>hd_contexts := [7 \<mapsto> new_context feature_urb]\<rparr>"
  have l: "vds_urb_link 0 7 feature_urb fresh_hcd = (0, ?d)" by (simp add: vds_urb_link_def kmalloc_def)
  have w: "high 0x305 = HID_REPORT_TYPE_FEATURE" "low 0x305 = 5" "low 3 = 3" "low 64 = 64" "high 64 = 0"
    by (simp_all add: high_def low_def hid_requests)
  have "cp_hid_interface vds_dualsense_profile = 3" by (simp add: vds_dualsense_profile_def)
  then have c: "vds_usb_device_control_urb (vds_usb_ops 7) (hd_usb fresh_hcd, feature_urb, ?d) =
      hid_get_report (vds_usb_ops 7) (parse_setup [0xa1, 1, 5, 3, 3, 0, 64, 0])
        (hd_usb fresh_hcd, feature_urb\<lparr>u_actual_length := 0\<rparr>, ?d)"
    by (simp add: vds_usb_device_control_urb_def feature_urb_def Let_def feature_setup fresh_usb w vds_usb_hid_control_def)
  have u: "u_pipe feature_urb = PIPE_CONTROL" by (simp add: feature_urb_def)
  have h: "asked_hcd = vds_urb_handle 5 7 ?d" using l by (simp add: asked_hcd_def vds_urb_enqueue_def)
  show "vds_urb_enqueue 5 0 7 feature_urb fresh_hcd = (0, asked_hcd)" using l by (simp add: asked_hcd_def vds_urb_enqueue_def)
  show "hd_contexts asked_hcd 7 = Some ((new_context (feature_urb\<lparr>u_actual_length := 0\<rparr>))\<lparr>uc_state := VDS_URB_PENDING_FEATURE_GET,
      uc_feature_report_id := 5\<rparr>)" "\<not> hd_stopping asked_hcd" "map ev_payload (hd_events asked_hcd) = [[5, 64, 0]]"
    unfolding h using c u
    by (simp_all add: vds_urb_handle_def vds_urb_switch_def control_urb_def vds_context_def new_context_def feature_setup hid_get_report_def w Let_def
        vds_usb_copy_cached_feature_report_def fresh_usb vds_usb_ops_def vds_usb_defer_feature_get_def vds_enqueue_frame_def
        kmalloc_def VDS_FRAME_MAX_PAYLOAD_def set_urb_def change_context_def word_le_nat_alt)
qed

lemma asked_reach: "hcd_reach [7 \<mapsto> (Some 64, 64)] Map.empty asked_hcd"
proof -
  have "urb_fits feature_urb" by (simp add: urb_fits_def feature_urb_def poll_urb_def)
  from reach_enqueue [OF fresh_reach _ this asked_fields(2)] show ?thesis by (simp add: urb_size_def feature_urb_def poll_urb_def)
qed

theorem feature_reply_round_trip_witness:
  "case vds_write_feature_reply [5, 1, 2] asked_hcd of (ret, dev') \<Rightarrow> ret = 0 \<and> 7 \<in> set (hd_completed_urbs dev') \<and>
    fst (vds_usb_copy_cached_feature_report 5 (hd_usb dev') poll_urb) = 0"
  using feature_reply_round_trip [OF asked_reach asked_fields(1), where payload = "[5, 1, 2]" and w = poll_urb and wbuf = "replicate 64 0"]
    asked_fields(3)
  by (auto simp: new_context_def feature_urb_def poll_urb_def VDS_CONTROLLER_HID_PACKET_SIZE_def split: prod.splits)

section \<open>An unlink in the middle of a submission\<close>

text \<open>
  C27. \<open>vds_urb_enqueue\<close> gives up the lock between linking the URB and queueing it. When the URB is unlinked in
  between and the giveback thread runs, the thread frees the context and the submission goes on with freed
  memory; when the thread does not run yet and the URB polls for input, the submission links an entry that is
  already on the queue of completed URBs.
\<close>

theorem unlink_during_submission:
  "let linked = snd (vds_urb_link 0 7 urb fresh_hcd); unlinked = snd (vds_urb_dequeue 0 7 status linked) in
   \<not> hd_fault (vds_giveback_turn now unlinked) \<and> hd_fault (vds_urb_handle now 7 (vds_giveback_turn now unlinked)) \<and>
   hd_fault (vds_urb_handle now 7 (snd (vds_urb_dequeue 0 7 status (snd (vds_urb_link 0 7 poll_urb fresh_hcd)))))"
proof -
  have l: "snd (vds_urb_link 0 7 v fresh_hcd) = fresh_hcd\<lparr>hd_contexts := [7 \<mapsto> new_context v]\<rparr>" for v
    by (simp add: vds_urb_link_def kmalloc_def)
  have d: "snd (vds_urb_dequeue 0 7 status (fresh_hcd\<lparr>hd_contexts := [7 \<mapsto> new_context v]\<rparr>)) =
      fresh_hcd\<lparr>hd_contexts := [7 \<mapsto> (new_context v)\<lparr>uc_status := status, uc_state := VDS_URB_PENDING_GIVEBACK\<rparr>], hd_completed_urbs := [7]\<rparr>" for v
    by (simp add: vds_urb_dequeue_def new_context_def vds_queue_urb_giveback_locked_def vds_context_def Let_def ready_of_def
        change_context_def)
  have g: "hd_contexts (vds_giveback_turn now (fresh_hcd\<lparr>hd_contexts := [7 \<mapsto> (new_context v)\<lparr>uc_status := status,
      uc_state := VDS_URB_PENDING_GIVEBACK\<rparr>], hd_completed_urbs := [7]\<rparr>)) 7 = None \<and>
      \<not> hd_fault (vds_giveback_turn now (fresh_hcd\<lparr>hd_contexts := [7 \<mapsto> (new_context v)\<lparr>uc_status := status,
      uc_state := VDS_URB_PENDING_GIVEBACK\<rparr>], hd_completed_urbs := [7]\<rparr>))" for v
    by (simp add: vds_giveback_turn_def vds_giveback_take_def ready_of_def new_context_def vds_giveback_finish_def vds_context_def Let_def)
  have p: "hd_fault (vds_urb_handle now 7 (fresh_hcd\<lparr>hd_contexts := [7 \<mapsto> (new_context poll_urb)\<lparr>uc_status := status,
      uc_state := VDS_URB_PENDING_GIVEBACK\<rparr>], hd_completed_urbs := [7]\<rparr>))"
    using hid_endpoint
    by (simp add: vds_urb_handle_def vds_urb_switch_def vds_context_def new_context_def interrupt_urb_def vds_interrupt_in_urb_def Let_def
        vds_pop_input_packet_locked_def on_queue_def poll_urb_def)
  show ?thesis unfolding Let_def l d using g [of urb] p by (simp add: vds_urb_handle_def)
qed

end
