(* ===== verification/HcdLinks.thy ===== *)
theory HcdLinks
  imports HcdProps LinuxDaemonProps Usbip
begin

text \<open>
  The kernel module beside the rest of the program: the frames it exchanges with the daemon
  (\<open>platform/linux/vdsd.cc\<close>), its descriptors beside those of the USB/IP port, and the devices it registers.
\<close>

section \<open>Frames between the module and the daemon\<close>

lemma parse_frame: "parse_header (header_bytes h @ payload) = h"
proof -
  have "parse_header (header_bytes h @ payload) = parse_header (header_bytes h)"
    by (simp add: parse_header_def header_bytes_def)
  then show ?thesis by simp
qed

lemma length_header [simp]: "length (header_bytes h) = 16"
  by (simp add: header_bytes_def)

lemma header_nonempty [simp]: "header_bytes h \<noteq> []"
  using length_header [of h] by (metis list.size(3) zero_neq_numeral)

text \<open>
  C28. The daemon handles what the module queued: in every state of \<open>hcd_reach\<close>, a read of the daemon's size
  returns the oldest waiting frame and removes it, and when the daemon receives those bytes it neither reports an
  error nor misreads them, but runs its handler on the type and the payload the module queued.
\<close>

theorem module_frame_handled:
  assumes "hcd_reach A W dev" "hd_events dev = e # es" "ch_reads (vp_fd (cx_port c)) = Got (header_bytes (ev_header e) @ ev_payload e) # rs"
  shows "\<exists>dev'. vds_read nonblock signal False (16 + VDS_FRAME_MAX_PAYLOAD) dev =
      (Read_done (16 + int (length (ev_payload e))) (header_bytes (ev_header e) @ ev_payload e), dev') \<and> hd_events dev' = es \<and>
    handle_vds_frame cd has_bt c = act_seq (handle_frame cd has_bt (fh_type (ev_header e)) (ev_payload e)) (ret True)
      (c\<lparr>cx_port := (cx_port c)\<lparr>vp_fd := (vp_fd (cx_port c))\<lparr>ch_reads := rs\<rparr>\<rparr>\<rparr>)"
proof -
  have e: "unat (fh_length (ev_header e)) = length (ev_payload e)" "length (ev_payload e) \<le> VDS_FRAME_MAX_PAYLOAD"
    using reach_ok [OF assms(1)] assms(2) by (auto simp: hcd_ok_def frames_ok_def event_ok_def)
  let ?c = "c\<lparr>cx_port := (cx_port c)\<lparr>vp_fd := (vp_fd (cx_port c))\<lparr>ch_reads := rs\<rparr>\<rparr>\<rparr>"
  let ?f = "header_bytes (ev_header e) @ ev_payload e"
  have r: "read_port (16 + VDS_FRAME_MAX_PAYLOAD) c = (Inr (Got ?f), ?c)"
    using assms(3) e(2) by (simp add: read_port_def on_part_def channel_read_def)
  have h: "parse_header (take 16 ?f) = ev_header e" by (simp add: parse_frame [of "ev_header e" "[]", simplified])
  have "handle_vds_frame cd has_bt c = act_seq (handle_frame cd has_bt (fh_type (ev_header e)) (ev_payload e)) (ret True) ?c"
    unfolding handle_vds_frame_def using e
    by (simp add: act_bind_def pget_def r h Let_def del: take_append)
  then show ?thesis using assms(2) e by (auto simp: vds_read_def vds_read_ready_def Let_def)
qed

theorem module_frame_handled_witness:
  "\<exists>dev'. vds_read True False False (16 + VDS_FRAME_MAX_PAYLOAD) asked_hcd =
      (Read_done 19 (header_bytes (ev_header (hd (hd_events asked_hcd))) @ [5, 64, 0]), dev') \<and> hd_events dev' = []"
proof -
  obtain e where e: "hd_events asked_hcd = [e]" "ev_payload e = [5, 64, 0]" using asked_fields(4) by auto
  have "ch_reads (vp_fd (cx_port (\<lparr>cx_port = (cx_port (c :: (unit, unit) ctx))\<lparr>vp_fd := closed_channel\<lparr>ch_reads :=
      [Got (header_bytes (ev_header e) @ ev_payload e)]\<rparr>\<rparr>, cx_bt = cx_bt c\<rparr>))) = Got (header_bytes (ev_header e) @ ev_payload e) # []" for c
    by simp
  from module_frame_handled [OF asked_reach e(1) this, of True False] e show ?thesis by simp blast
qed

text \<open>
  Which frames of the daemon the module takes: while the controller runs and has memory, a non-empty input report,
  feature report or microphone frame that the daemon can build is taken whole, unless it is an input or feature
  report of more than 64 bytes; such a frame is refused with \<open>EINVAL\<close>, and the daemon's write ends with an
  exception that is not a Bluetooth one.
\<close>

theorem module_accepts:
  assumes f: "frame_bytes type payload = Inr f" "payload \<noteq> []"
    and t: "type \<in> {VDS_FRAME_USB_HID_IN, VDS_FRAME_USB_FEATURE_REPLY, VDS_FRAME_USB_AUDIO_IN}"
    and d: "\<not> hd_stopping dev" "hd_allocs dev = []"
    and w: "ch_writes (vp_fd (cx_port c)) = W_error err # ws"
  shows "fst (vds_write now False 0 f dev) =
      (if type = VDS_FRAME_USB_AUDIO_IN \<or> length payload \<le> VDS_CONTROLLER_HID_PACKET_SIZE then int (length f) else - EINVAL) \<and>
    fst (write_vds_frame f c) = Inl (Runtime_error (''write failed: '' @ err)) \<and>
    \<not> is_bluetooth_error (Runtime_error (''write failed: '' @ err))"
proof -
  have h: "f = header_bytes \<lparr>fh_type = type, fh_flags = 0, fh_length = of_nat (length payload), fh_sequence = 0\<rparr> @ payload"
    and l: "length payload \<le> VDS_FRAME_MAX_PAYLOAD" using f(1) by (auto simp: frame_bytes_def split: if_splits)
  have n: "unat (of_nat (length payload) :: u32) = length payload"
    using l by (simp add: VDS_FRAME_MAX_PAYLOAD_def unat_of_nat take_bit_nat_eq_self)
  have "(of_nat (length payload) :: u32) \<noteq> 0" using n f(2) by (metis length_0_conv unat_0)
  moreover have "fst (vds_write_input_frame now payload dev) =
      (if length payload \<le> VDS_CONTROLLER_HID_PACKET_SIZE then 0 else - EINVAL)"
    using d f(2) by (auto simp: vds_write_input_frame_def vds_complete_pending_input_locked_def vds_queue_input_packet_locked_def
        kmalloc_def split: list.split)
  moreover have "fst (vds_write_feature_reply payload dev) =
      (if length payload \<le> VDS_CONTROLLER_HID_PACKET_SIZE then 0 else - EINVAL)"
    using d f(2) by (auto simp: vds_write_feature_reply_def vds_usb_device_update_feature_reply_def Let_def errnos)
  moreover have "fst (vds_write_audio_in_frame payload dev) = 0"
    using d f(2) by (auto simp: vds_write_audio_in_frame_def kmalloc_def split: prod.split)
  ultimately have "fst (vds_write now False 0 f dev) =
      (if type = VDS_FRAME_USB_AUDIO_IN \<or> length payload \<le> VDS_CONTROLLER_HID_PACKET_SIZE then int (length f) else - EINVAL)"
    using t d l n by (cases "length payload \<le> VDS_CONTROLLER_HID_PACKET_SIZE")
      (auto simp: h vds_write_def parse_frame Let_def frame_types errnos split: prod.split)
  moreover have "\<not> is_bluetooth_error (Runtime_error (''write failed: '' @ err))" by (simp add: is_bluetooth_error_def)
  ultimately show ?thesis using w by (simp add: write_vds_frame_def act_bind_def act_seq_def pget_def pset_def)
qed

theorem module_accepts_witness:
  "fst (vds_write 5 False 0 (header_bytes \<lparr>fh_type = VDS_FRAME_USB_FEATURE_REPLY, fh_flags = 0, fh_length = 65, fh_sequence = 0\<rparr> @
     replicate 65 1) fresh_hcd) = - EINVAL"
proof -
  let ?c = "\<lparr>cx_port = (cx_port (undefined :: (unit, unit) ctx))\<lparr>vp_fd := closed_channel\<lparr>ch_writes := [W_error ''EINVAL'']\<rparr>\<rparr>,
    cx_bt = cx_bt (undefined :: (unit, unit) ctx)\<rparr>"
  have f: "frame_bytes VDS_FRAME_USB_FEATURE_REPLY (replicate 65 1) = Inr (header_bytes \<lparr>fh_type = VDS_FRAME_USB_FEATURE_REPLY,
      fh_flags = 0, fh_length = 65, fh_sequence = 0\<rparr> @ replicate 65 1)"
    by (simp add: frame_bytes_def VDS_FRAME_MAX_PAYLOAD_def)
  have "ch_writes (vp_fd (cx_port ?c)) = W_error ''EINVAL'' # []" by simp
  from module_accepts [OF f _ _ _ _ this, of fresh_hcd 5] show ?thesis
    by (simp add: frame_types VDS_CONTROLLER_HID_PACKET_SIZE_def)
qed

section \<open>Descriptors\<close>

lemma string_units_all: "2 * length cs + len \<le> 255 \<Longrightarrow> string_units cs len = concat (map (\<lambda>c. [of_char c, 0]) cs)"
  by (induction cs arbitrary: len) auto

lemma copy_to_urb_result:
  assumes "u_transfer_buffer u = Some buf" "length buf = u_transfer_buffer_length u"
  shows "\<exists>u' buf'. vds_usb_copy_to_urb data u = (0, u') \<and> u_transfer_buffer u' = Some buf' \<and>
    take (u_actual_length u') buf' = take (u_transfer_buffer_length u) data"
  using assms by (auto simp: vds_usb_copy_to_urb_def Let_def overlay_def min_def)

lemma copy_string_result:
  assumes "u_transfer_buffer u = Some buf" "length buf = u_transfer_buffer_length u" "length cs \<le> 126"
  shows "\<exists>u' buf'. vds_usb_copy_string_descriptor (Some cs) u = (0, u') \<and> u_transfer_buffer u' = Some buf' \<and>
    take (u_actual_length u') buf' = take (u_transfer_buffer_length u) (build_string_descriptor cs)"
proof -
  have "build_string_descriptor cs = of_nat (2 + length (string_units cs 2)) # 3 # string_units cs 2"
    using assms(3) by (simp add: build_string_descriptor_def string_units_all)
  then show ?thesis using copy_to_urb_result [OF assms(1,2)] by (simp add: vds_usb_copy_string_descriptor_def Let_def)
qed

lemma device_desc_tables:
  "device_desc vds_dualsense_profile = vds_ds5_usb_device_descriptor"
  "device_desc vds_dualsense_edge_profile = vds_dse_usb_device_descriptor"
  by (simp_all add: device_desc_def vds_dualsense_profile_def vds_dualsense_edge_profile_def vds_ds5_usb_device_descriptor_def
      vds_dse_usb_device_descriptor_def le16_def VDS_SONY_VENDOR_ID_def VDS_DS5_PRODUCT_ID_def VDS_DSE_PRODUCT_ID_def
      VDS_USB_DEVICE_BCD_def VDS_USB_NUM_CONFIGURATIONS_def USB_DT_DEVICE_def)

lemma low_ucast: "low v = ucast v"
proof -
  have "low v = ucast (take_bit 8 v)" by (simp add: low_def take_bit_eq_mask mask_eq_exp_minus_1)
  then show ?thesis by (intro bit_word_eqI) (auto simp: bit_simps)
qed

lemma dse_profile [simp]: "UsbDescriptors.VDS_PROFILE_DSE = Config.VDS_PROFILE_DSE"
  by (simp add: UsbDescriptors.VDS_PROFILE_DSE_def Config.VDS_PROFILE_DSE_def)

text \<open>
  The two front ends present the same device. For both profiles, a host that asks the kernel module for the device,
  configuration, HID, report, language or string descriptors gets, up to the length it asked for, byte for byte
  what the USB/IP port answers to the same request.
\<close>

theorem front_ends_agree:
  assumes "profile \<in> {VDS_PROFILE_DS5, VDS_PROFILE_DSE}" "p = vds_usb_controller_profile_for_profile profile"
    and buf: "u_transfer_buffer u = Some buf" "length buf = u_transfer_buffer_length u"
    and "bRequest setup = USB_REQ_GET_DESCRIPTOR" "low (wIndex setup) = 3"
    and "high (wValue setup) \<in> {0x01, 0x02, 0x21, 0x22} \<or> high (wValue setup) = 0x03 \<and> low (wValue setup) \<in> {0, 1, 2}"
  shows "\<exists>u' buf'. vds_usb_standard_control ops setup p (dev, u, c) = (0, dev, u', c) \<and> u_transfer_buffer u' = Some buf' \<and>
    take (u_actual_length u') buf' = get_descriptor profile (wValue setup) (u_transfer_buffer_length u)"
proof -
  note copy = copy_to_urb_result [OF buf]
  have s: "\<exists>u' buf'. vds_usb_copy_string_descriptor (Some cs) u = (0, u') \<and> u_transfer_buffer u' = Some buf' \<and>
      take (u_actual_length u') buf' = take (u_transfer_buffer_length u) (build_string_descriptor cs)"
    if "cs \<in> {VDS_USB_MANUFACTURER_STRING, VDS_DS5_USB_PRODUCT_STRING, VDS_DSE_USB_PRODUCT_STRING}" for cs
    using that by (intro copy_string_result [OF buf])
      (auto simp: VDS_USB_MANUFACTURER_STRING_def VDS_DS5_USB_PRODUCT_STRING_def VDS_DSE_USB_PRODUCT_STRING_def)
  have p: "p = (if profile = VDS_PROFILE_DSE then vds_dualsense_edge_profile else vds_dualsense_profile)"
    using assms(1,2) by (auto simp: vds_usb_controller_profile_for_profile_def VDS_PROFILE_DS5_def VDS_PROFILE_DSE_def)
  have f: "cp_hid_interface p = 3" "cp_manufacturer p = VDS_USB_MANUFACTURER_STRING"
    "cp_product p = (if profile = VDS_PROFILE_DSE then VDS_DSE_USB_PRODUCT_STRING else VDS_DS5_USB_PRODUCT_STRING)"
    "device_desc p = pd_device (descriptors_for_profile profile)"
    "cp_configuration_descriptor p = pd_config (descriptors_for_profile profile)"
    "cp_hid_descriptor p = pd_hid (descriptors_for_profile profile)"
    "cp_hid_report_descriptor p = pd_hid_report (descriptors_for_profile profile)"
    by (simp_all add: p descriptors_for_profile_def device_desc_tables)
       (simp_all add: vds_dualsense_profile_def vds_dualsense_edge_profile_def)
  have g: "get_descriptor profile (wValue setup) n =
      (if high (wValue setup) = 0x01 then take n (device_desc p)
       else if high (wValue setup) = 0x02 then take n (cp_configuration_descriptor p)
       else if high (wValue setup) = 0x21 then take n (cp_hid_descriptor p)
       else if high (wValue setup) = 0x22 then take n (cp_hid_report_descriptor p)
       else if high (wValue setup) = 0x03 then take n (if low (wValue setup) = 0 then build_langid_descriptor
         else if low (wValue setup) = 1 then build_string_descriptor (cp_manufacturer p)
         else if low (wValue setup) = 2 then build_string_descriptor (cp_product p) else [])
       else [])" for n
    by (simp add: get_descriptor_def Let_def f high_def low_ucast)
  have "\<exists>u' buf'. standard_descriptor setup p u = (0, u') \<and> u_transfer_buffer u' = Some buf' \<and>
      take (u_actual_length u') buf' = get_descriptor profile (wValue setup) (u_transfer_buffer_length u)"
    using assms(6,7) copy s f(1-3) unfolding g
    by (auto simp: standard_descriptor_def Let_def usb_descriptor_types vds_usb_copy_string_descriptor_def build_langid_descriptor_def)
  then show ?thesis using assms(5) by (auto simp: vds_usb_standard_control_def on_urb_def)
qed

theorem front_ends_agree_witness:
  "\<exists>u' buf'. vds_usb_standard_control (vds_usb_ops 7) \<lparr>bRequestType = 0x80, bRequest = USB_REQ_GET_DESCRIPTOR, wValue = 0x302,
      wIndex = 3, wLength = 64\<rparr> vds_dualsense_profile (hd_usb fresh_hcd, poll_urb, fresh_hcd) = (0, hd_usb fresh_hcd, u', fresh_hcd) \<and>
    u_transfer_buffer u' = Some buf' \<and> take (u_actual_length u') buf' = get_descriptor VDS_PROFILE_DS5 0x302 64"
  using front_ends_agree [of VDS_PROFILE_DS5 vds_dualsense_profile poll_urb "replicate 64 0"
      "\<lparr>bRequestType = 0x80, bRequest = USB_REQ_GET_DESCRIPTOR, wValue = 0x302, wIndex = 3, wLength = 64\<rparr>"
      "vds_usb_ops 7" "hd_usb fresh_hcd" fresh_hcd]
  by (simp add: poll_urb_def high_def low_def vds_usb_controller_profile_for_profile_def VDS_PROFILE_DS5_def Config.VDS_PROFILE_DSE_def)

section \<open>Plugging\<close>

text \<open>The flags as powers of two, so that tests and updates become statements on bits.\<close>

lemma port_exps:
  "USB_PORT_STAT_CONNECTION = 2 ^ 0" "USB_PORT_STAT_ENABLE = 2 ^ 1" "USB_PORT_STAT_RESET = 2 ^ 4" "USB_PORT_STAT_POWER = 2 ^ 8"
  "USB_PORT_STAT_HIGH_SPEED = 2 ^ 10" "C_CONNECTION = 2 ^ 16" "C_RESET = 2 ^ 20"
  by (simp_all add: port_bits)

lemma status_exps:
  "VDS_STATUS_CONNECTED = 2 ^ 0" "VDS_STATUS_CONFIGURED = 2 ^ 1" "VDS_STATUS_HID_ENABLED = 2 ^ 2" "VDS_STATUS_AUDIO_ENABLED = 2 ^ 3"
  by (simp_all add: status_flags)

lemma bit_and_nonzero: "\<lbrakk>bit v n; bit w n\<rbrakk> \<Longrightarrow> v AND w \<noteq> (0 :: 'a :: len word)"
  by (metis bit_and_iff bit_0_eq bot_apply bot_bool_def)

lemma change_mask: "bit PORT_C_MASK 16"
  by (simp add: PORT_C_MASK_def)

text \<open>
  Plugging and unplugging as the host sees it: after a connect the root hub reports a change, and the reset that
  follows enables the port at high speed; a disconnect drops what was buffered, empties the queues of waiting URBs,
  clears the connection and all status flags of the device and leaves no port enabled, and a profile can be set
  again; while the device is connected it cannot.
\<close>

theorem plug_cycle:
  assumes "hcd_reach A W dev" "\<not> hd_stopping dev"
    and "plugged = vds_set_connection True dev" "reset = snd (snd (vds_hub_control SetPortFeature USB_PORT_FEAT_RESET 1 plugged))"
    and "unplugged = vds_set_connection False reset"
  shows "(hd_port_status dev AND USB_PORT_STAT_CONNECTION = 0 \<longrightarrow> vds_hub_status_data plugged = (1, [2])) \<and>
    hd_port_status reset AND USB_PORT_STAT_ENABLE \<noteq> 0 \<and> hd_port_status reset AND USB_PORT_STAT_HIGH_SPEED \<noteq> 0 \<and>
    (\<forall>profile. fst (set_profile profile 0 reset) = - EBUSY) \<and>
    hd_port_status unplugged AND (USB_PORT_STAT_CONNECTION OR USB_PORT_STAT_ENABLE) = 0 \<and>
    vds_hub_status_data unplugged = (1, [2]) \<and> hd_events unplugged = [] \<and> hd_pending_hid_in unplugged = [] \<and>
    hd_pending_feature_get unplugged = [] \<and> ud_configuration (hd_usb unplugged) = 0 \<and>
    hd_status_flags unplugged AND (VDS_STATUS_CONNECTED OR VDS_STATUS_CONFIGURED OR VDS_STATUS_HID_ENABLED OR VDS_STATUS_AUDIO_ENABLED) = 0 \<and>
    (\<forall>profile \<in> {VDS_PROFILE_DS5, VDS_PROFILE_DSE}. fst (set_profile profile 0 unplugged) = 0)"
proof -
  have ok: "hcd_ok (dom W) dev" using reach_ok [OF assms(1)] by blast
  have ok_p: "hcd_ok (dom W) plugged" using keeps_set_connection [OF ok] assms(3) by blast
  have p: "hd_port_status plugged = hd_port_status dev OR USB_PORT_STAT_POWER OR USB_PORT_STAT_CONNECTION OR
      (if was_connected dev then 0 else C_CONNECTION)" "hd_status_flags plugged = hd_status_flags dev OR VDS_STATUS_CONNECTED"
    "\<not> hd_stopping plugged"
    using assms(2,3) by (simp_all add: vds_set_connection_def connect_locked_def notify_root_hub_def vds_status_set_locked_def)
  have on: "bit (hd_port_status plugged) 0" by (simp add: p port_exps bit_simps)
  define r where "r = (hd_port_status plugged AND NOT USB_PORT_STAT_RESET) OR USB_PORT_STAT_ENABLE OR USB_PORT_STAT_HIGH_SPEED OR C_RESET"
  have reset: "reset = notify_root_hub [Poll_rh_status] (plugged\<lparr>hd_port_status := r\<rparr>)"
    using on by (simp add: assms(4) vds_hub_control_def port_update_def set_port_feature_def hub_requests r_def port_exps
        and_exp_eq_0_iff_not_bit [of _ 0, simplified])
  have ok_r: "hcd_ok (dom W) reset" "\<not> hd_stopping reset" "hd_port_status reset = r" "hd_status_flags reset = hd_status_flags plugged"
    using ok_p p(3) by (simp_all add: reset, simp_all add: notify_root_hub_def)
  note u = keeps_disconnect_locked [OF ok_r(1)]
  have un: "unplugged = notify_root_hub [Resume_root_hub, Poll_rh_status]
      ((disconnect_locked reset)\<lparr>hd_usb := vds_usb_reset_state_locked (hd_usb (disconnect_locked reset))\<rparr>)"
    using ok_r(2) by (simp add: assms(5) vds_set_connection_def Let_def)
  have conn: "was_connected reset" "bit r 0" "bit r 1" "bit r 10"
    using on ok_r(3) by (simp_all add: was_connected_def r_def port_exps bit_simps and_exp_eq_0_iff_not_bit [of _ 0, simplified])
  have up: "hd_port_status unplugged = r AND NOT (USB_PORT_STAT_CONNECTION OR USB_PORT_STAT_ENABLE OR USB_PORT_STAT_HIGH_SPEED) OR C_CONNECTION"
    "hd_events unplugged = []" "hd_status_flags unplugged = hd_status_flags reset AND NOT (VDS_STATUS_CONNECTED OR VDS_STATUS_CONFIGURED OR
      VDS_STATUS_HID_ENABLED OR VDS_STATUS_AUDIO_ENABLED)"
    using conn(1) ok_r(3)
    by (simp_all add: un notify_root_hub_def disconnect_locked_def Let_def vds_status_set_locked_def vds_flush_buffered_frames_locked_def)
  have changed: "hd_port_status plugged AND PORT_C_MASK \<noteq> 0" if "hd_port_status dev AND USB_PORT_STAT_CONNECTION = 0"
    using that by (intro bit_and_nonzero [OF _ change_mask]) (simp add: p was_connected_def port_exps bit_simps)
  have changed': "hd_port_status unplugged AND PORT_C_MASK \<noteq> 0"
    by (intro bit_and_nonzero [OF _ change_mask]) (simp add: up port_exps bit_simps)
  have "hd_port_status unplugged AND (USB_PORT_STAT_CONNECTION OR USB_PORT_STAT_ENABLE) = 0"
    by (simp add: up port_bits bit.conj_disj_distrib2 and.assoc)
  moreover have "hd_status_flags unplugged AND (VDS_STATUS_CONNECTED OR VDS_STATUS_CONFIGURED OR VDS_STATUS_HID_ENABLED OR VDS_STATUS_AUDIO_ENABLED) = 0"
    by (rule bit_word_eqI) (auto simp: up bit_simps)
  moreover have "hd_status_flags unplugged AND VDS_STATUS_CONNECTED = 0"
    by (rule bit_word_eqI) (auto simp: up bit_simps)
  moreover have "hd_status_flags reset AND VDS_STATUS_CONNECTED \<noteq> 0"
    by (rule bit_and_nonzero [of _ 0]) (simp_all add: ok_r(4) p status_exps bit_simps)
  moreover have "hd_port_status reset AND USB_PORT_STAT_ENABLE \<noteq> 0" "hd_port_status reset AND USB_PORT_STAT_HIGH_SPEED \<noteq> 0"
    using conn ok_r(3) by (simp_all add: port_exps bit_and_nonzero [of _ 1] bit_and_nonzero [of _ 10] bit_simps)
  moreover have "hd_pending_hid_in unplugged = []" "hd_pending_feature_get unplugged = []" "ud_configuration (hd_usb unplugged) = 0"
    using u by (simp_all add: un notify_root_hub_def vds_usb_reset_state_locked_def)
  ultimately show ?thesis using changed changed' up(2)
    by (auto simp: vds_hub_status_data_def set_profile_def vds_usb_device_set_profile_def vds_usb_valid_profile_def errnos)
qed

theorem plug_cycle_witness:
  "hd_port_status (snd (snd (vds_hub_control SetPortFeature USB_PORT_FEAT_RESET 1 (vds_set_connection True fresh_hcd)))) AND
     USB_PORT_STAT_ENABLE \<noteq> 0"
  using plug_cycle [OF fresh_reach _ refl refl refl] by simp

section \<open>Registration\<close>

definition balanced :: "kernel_call list \<Rightarrow> bool" where
  "balanced calls \<longleftrightarrow> count_list calls Register_driver = count_list calls Unregister_driver \<and>
     (\<forall>i. count_list calls (Register_device i) = count_list calls (Unregister_device i)) \<and>
     count_list calls Create_hcd = count_list calls Put_hcd \<and> count_list calls Run_thread = count_list calls Stop_thread \<and>
     count_list calls Add_hcd = count_list calls Remove_hcd \<and> count_list calls Register_misc = count_list calls Deregister_misc"

lemma count_register [simp]:
  "count_list (map Register_device ds) (Register_device i) = count_list ds i"
  "count_list (map Unregister_device ds) (Unregister_device i) = count_list ds i"
  "count_list (map Register_device ds) (Unregister_device i) = 0"
  "count_list (map Unregister_device ds) (Register_device i) = 0"
  "c \<notin> range Register_device \<Longrightarrow> count_list (map Register_device ds) c = 0"
  "c \<notin> range Unregister_device \<Longrightarrow> count_list (map Unregister_device ds) c = 0"
  by (induction ds) auto

lemma register_devices_all: "register_devices result is = (0, ds) \<Longrightarrow> ds = is"
  by (induction "is" arbitrary: ds) (auto split: if_splits prod.splits)

text \<open>
  Loading the module either succeeds with one device per port, numbered from 0, or leaves nothing registered: whatever
  call fails, every driver, device, controller, thread and file set up before is taken down again; and removing
  the module or a device undoes exactly what loading it did. A port count outside 1 to 4 is refused before any call.
\<close>

theorem registration_undone:
  "(case vds_hcd_init max_port driver ok result of (res, ds, calls) \<Rightarrow>
      if res = 0 then ds = [0..<unat max_port] \<and> 1 \<le> unat max_port \<and> unat max_port \<le> 4 \<and> balanced (calls @ vds_hcd_exit ds)
      else ds = [] \<and> balanced calls) \<and>
   (case vds_hcd_probe created thread added registered of (res, calls) \<Rightarrow>
      if res = 0 then balanced (calls @ vds_hcd_remove) else balanced calls)"
proof -
  obtain res ds where r: "register_devices result [0..<unat max_port] = (res, ds)" by fastforce
  have m: "max_port < 1 \<longleftrightarrow> unat max_port < 1" "max_port > 4 \<longleftrightarrow> unat max_port > 4"
    by (simp_all only: word_less_nat_alt) simp_all
  have undone: "balanced (Register_driver # map Register_device ds @ vds_hcd_exit ds)" for ds
    by (auto simp: balanced_def vds_hcd_exit_def rev_map [symmetric] image_iff)
  have "balanced [Register_driver, Unregister_driver]" "balanced []" by (auto simp: balanced_def)
  then have "case vds_hcd_init max_port driver ok result of (res, ds, calls) \<Rightarrow>
      if res = 0 then ds = [0..<unat max_port] \<and> 1 \<le> unat max_port \<and> unat max_port \<le> 4 \<and> balanced (calls @ vds_hcd_exit ds)
      else ds = [] \<and> balanced calls"
    using undone [of ds] register_devices_all [of result "[0..<unat max_port]" ds] r
    unfolding vds_hcd_init_def m by (auto simp: errnos vds_hcd_exit_def)
  moreover have "case vds_hcd_probe created thread added registered of (res, calls) \<Rightarrow>
      if res = 0 then balanced (calls @ vds_hcd_remove) else balanced calls"
    by (simp add: vds_hcd_probe_def vds_hcd_remove_def balanced_def errnos)
  ultimately show ?thesis by blast
qed

end
