(* ===== verification/NtStatus.thy ===== *)
theory NtStatus
  imports VdsPrelude
begin

text \<open>
  The vocabulary of the Windows kernel that the two drivers share: \<open>NTSTATUS\<close> values with
  the test \<open>NT_SUCCESS\<close>, wide strings, the ASCII case folding both drivers spell out, and
  the I/O control codes of \<open>uapi/vds.h\<close>.
\<close>

type_synonym NTSTATUS = u32
type_synonym wide = "u16 list"

definition NT_SUCCESS :: "NTSTATUS \<Rightarrow> bool" where
  "NT_SUCCESS status \<longleftrightarrow> \<not> bit status 31"

definition STATUS_SUCCESS :: NTSTATUS where "STATUS_SUCCESS = 0"
definition STATUS_PENDING :: NTSTATUS where "STATUS_PENDING = 0x103"
definition STATUS_BUFFER_OVERFLOW :: NTSTATUS where "STATUS_BUFFER_OVERFLOW = 0x80000005"
definition STATUS_DEVICE_BUSY :: NTSTATUS where "STATUS_DEVICE_BUSY = 0x80000011"
definition STATUS_INVALID_PARAMETER :: NTSTATUS where "STATUS_INVALID_PARAMETER = 0xC000000D"
definition STATUS_NO_SUCH_DEVICE :: NTSTATUS where "STATUS_NO_SUCH_DEVICE = 0xC000000E"
definition STATUS_INVALID_DEVICE_REQUEST :: NTSTATUS where "STATUS_INVALID_DEVICE_REQUEST = 0xC0000010"
definition STATUS_ACCESS_DENIED :: NTSTATUS where "STATUS_ACCESS_DENIED = 0xC0000022"
definition STATUS_BUFFER_TOO_SMALL :: NTSTATUS where "STATUS_BUFFER_TOO_SMALL = 0xC0000023"
definition STATUS_DELETE_PENDING :: NTSTATUS where "STATUS_DELETE_PENDING = 0xC0000056"
definition STATUS_INSUFFICIENT_RESOURCES :: NTSTATUS where "STATUS_INSUFFICIENT_RESOURCES = 0xC000009A"
definition STATUS_DEVICE_NOT_READY :: NTSTATUS where "STATUS_DEVICE_NOT_READY = 0xC00000A3"
definition STATUS_NOT_SUPPORTED :: NTSTATUS where "STATUS_NOT_SUPPORTED = 0xC00000BB"
definition STATUS_CANCELLED :: NTSTATUS where "STATUS_CANCELLED = 0xC0000120"
definition STATUS_INVALID_DEVICE_STATE :: NTSTATUS where "STATUS_INVALID_DEVICE_STATE = 0xC0000184"
definition STATUS_INVALID_BUFFER_SIZE :: NTSTATUS where "STATUS_INVALID_BUFFER_SIZE = 0xC0000206"
definition STATUS_RETRY :: NTSTATUS where "STATUS_RETRY = 0xC000022D"

named_theorems status_defs \<open>values of the status codes\<close>

lemmas [status_defs] = STATUS_SUCCESS_def STATUS_PENDING_def STATUS_BUFFER_OVERFLOW_def
  STATUS_DEVICE_BUSY_def STATUS_INVALID_PARAMETER_def STATUS_NO_SUCH_DEVICE_def
  STATUS_INVALID_DEVICE_REQUEST_def STATUS_ACCESS_DENIED_def STATUS_BUFFER_TOO_SMALL_def
  STATUS_DELETE_PENDING_def STATUS_INSUFFICIENT_RESOURCES_def STATUS_DEVICE_NOT_READY_def
  STATUS_NOT_SUPPORTED_def STATUS_CANCELLED_def STATUS_INVALID_DEVICE_STATE_def
  STATUS_INVALID_BUFFER_SIZE_def STATUS_RETRY_def

lemma nt_success [simp]:
  "NT_SUCCESS STATUS_SUCCESS" "NT_SUCCESS STATUS_PENDING"
  "\<not> NT_SUCCESS STATUS_BUFFER_OVERFLOW" "\<not> NT_SUCCESS STATUS_DEVICE_BUSY"
  "\<not> NT_SUCCESS STATUS_INVALID_PARAMETER" "\<not> NT_SUCCESS STATUS_NO_SUCH_DEVICE"
  "\<not> NT_SUCCESS STATUS_INVALID_DEVICE_REQUEST" "\<not> NT_SUCCESS STATUS_ACCESS_DENIED"
  "\<not> NT_SUCCESS STATUS_BUFFER_TOO_SMALL" "\<not> NT_SUCCESS STATUS_DELETE_PENDING"
  "\<not> NT_SUCCESS STATUS_INSUFFICIENT_RESOURCES" "\<not> NT_SUCCESS STATUS_DEVICE_NOT_READY"
  "\<not> NT_SUCCESS STATUS_NOT_SUPPORTED" "\<not> NT_SUCCESS STATUS_CANCELLED"
  "\<not> NT_SUCCESS STATUS_INVALID_DEVICE_STATE" "\<not> NT_SUCCESS STATUS_INVALID_BUFFER_SIZE"
  "\<not> NT_SUCCESS STATUS_RETRY"
  by (simp_all add: NT_SUCCESS_def status_defs)

text \<open>A wide string literal, without its terminator.\<close>

definition wide :: "string \<Rightarrow> wide" where
  "wide s = map of_char s"

definition narrow :: "string \<Rightarrow> bytes" where
  "narrow s = map of_char s"

text \<open>The drivers fold the letters A to Z only.\<close>

definition ascii_lower :: "'a :: len word \<Rightarrow> 'a word" where
  "ascii_lower c = (if 65 \<le> c \<and> c \<le> 90 then c - 65 + 97 else c)"

definition VDS_WIN_CTL_CODE :: "u32 \<Rightarrow> u32 \<Rightarrow> u32 \<Rightarrow> u32 \<Rightarrow> u32" where
  "VDS_WIN_CTL_CODE device_type function_code transfer access =
     push_bit 16 device_type OR push_bit 14 access OR push_bit 2 function_code OR transfer"

definition VDS_IOCTL_GET_DRIVER_INFO :: u32 where
  "VDS_IOCTL_GET_DRIVER_INFO = VDS_WIN_CTL_CODE 0x22 0x800 0 1"
definition VDS_IOCTL_GET_PORT_INFO :: u32 where
  "VDS_IOCTL_GET_PORT_INFO = VDS_WIN_CTL_CODE 0x22 0x802 0 1"
definition VDS_IOCTL_BIND_PORT :: u32 where
  "VDS_IOCTL_BIND_PORT = VDS_WIN_CTL_CODE 0x22 0x803 0 (1 OR 2)"
definition VDS_IOCTL_UNBIND_PORT :: u32 where
  "VDS_IOCTL_UNBIND_PORT = VDS_WIN_CTL_CODE 0x22 0x804 0 (1 OR 2)"
definition VDS_FILTER_IOCTL_GET_DEVICES :: u32 where
  "VDS_FILTER_IOCTL_GET_DEVICES = VDS_WIN_CTL_CODE 0x22 0x900 0 1"
definition VDS_FILTER_IOCTL_WAIT_DEVICE_CHANGE :: u32 where
  "VDS_FILTER_IOCTL_WAIT_DEVICE_CHANGE = VDS_WIN_CTL_CODE 0x22 0x901 0 (1 OR 2)"
definition VDS_IOCTL_GET_AUDIO_STATS :: u32 where
  "VDS_IOCTL_GET_AUDIO_STATS = VDS_WIN_CTL_CODE 0x22 0x801 0 1"

text \<open>
  \<open>struct vds_driver_info\<close> as both drivers fill it: zeroed, then version, size and the version
  text of the build (at most 63 characters, by the static assertion of the drivers).
\<close>

definition driver_info :: "string \<Rightarrow> bytes" where
  "driver_info version = le32 1 @ le32 72 @ blit 0 (narrow version @ [0]) (replicate 64 0)"

definition VDS_MIN_PORT_COUNT :: u32 where "VDS_MIN_PORT_COUNT = 1"
definition VDS_MAX_PORT_COUNT :: u32 where "VDS_MAX_PORT_COUNT = 4"

text \<open>The control codes are pairwise different, so that the dispatchers' tests are exclusive.\<close>

lemma ioctl_distinct [simp]:
  "distinct [VDS_IOCTL_GET_DRIVER_INFO, VDS_IOCTL_GET_PORT_INFO, VDS_IOCTL_BIND_PORT, VDS_IOCTL_UNBIND_PORT,
     VDS_FILTER_IOCTL_GET_DEVICES, VDS_FILTER_IOCTL_WAIT_DEVICE_CHANGE, VDS_IOCTL_GET_AUDIO_STATS]"
  by (simp add: VDS_IOCTL_GET_DRIVER_INFO_def VDS_IOCTL_GET_PORT_INFO_def VDS_IOCTL_BIND_PORT_def
      VDS_IOCTL_UNBIND_PORT_def VDS_FILTER_IOCTL_GET_DEVICES_def VDS_FILTER_IOCTL_WAIT_DEVICE_CHANGE_def
      VDS_IOCTL_GET_AUDIO_STATS_def VDS_WIN_CTL_CODE_def)

end
