(* ===== verification/WinFilter.thy ===== *)
theory WinFilter
  imports NtStatus UsbDescriptors Config
begin

text \<open>
  The Windows filter driver \<open>windrv/vds_filter/vds_filter.c\<close>. It attaches to the HID stacks of
  physical controllers, recognises them by their instance ids, keeps every process but the
  daemon and its control tool away from them, and tells the daemon through a control device
  which controllers are present and when that changes.

  \<open>VDS_FILTER_EXTENSION\<close> is the record of one device object; \<open>filter_driver\<close> collects the
  globals of the file (device list, wait queue, generation counter, control device) together
  with the object manager's symbolic links and the log of what became of each IRP. Answers of
  the kernel (statuses, property values, attached stack) are arguments. The cancel-safe queue
  is used through its callbacks: insertion tests the generation, removal takes the head.
\<close>

section \<open>Text\<close>

text \<open>\<open>NULL\<close> is \<open>None\<close>; C strings are lists without the terminator.\<close>

definition VdsAsciiEqualInsensitive :: "bytes option \<Rightarrow> bytes option \<Rightarrow> bool" where
  "VdsAsciiEqualInsensitive left right =
     (case (left, right) of
        (Some l, Some r) \<Rightarrow> map ascii_lower l = map ascii_lower r
      | _ \<Rightarrow> False)"

text \<open>The arrays of 18 characters are compared up to the first terminator.\<close>

fun VdsAddressEqual :: "bytes \<Rightarrow> bytes \<Rightarrow> bool" where
  "VdsAddressEqual (l # ls) (r # rs) =
     (if ascii_lower l \<noteq> ascii_lower r then False
      else if ascii_lower l = 0 then True
      else VdsAddressEqual ls rs)"
| "VdsAddressEqual _ _ = True"

definition VdsWideHexValue :: "u16 \<Rightarrow> int" where
  "VdsWideHexValue v =
     (if 48 \<le> v \<and> v \<le> 57 then uint v - 48
      else if 97 \<le> v \<and> v \<le> 102 then uint v - 97 + 10
      else if 65 \<le> v \<and> v \<le> 70 then uint v - 65 + 10
      else - 1)"

definition VdsLowerHexChar :: "u16 \<Rightarrow> u8" where
  "VdsLowerHexChar v =
     (if 48 \<le> v \<and> v \<le> 57 then ucast v
      else if 97 \<le> v \<and> v \<le> 102 then ucast v
      else ucast (v - 65 + 97))"

text \<open>
  The comparison loops. Reading past the last character of the text yields the terminator,
  which differs from every character of a literal and stops the loop.
\<close>

fun wide_prefix :: "wide \<Rightarrow> wide \<Rightarrow> bool" where
  "wide_prefix text [] = True"
| "wide_prefix [] (p # ps) = (ascii_lower 0 = ascii_lower p \<and> wide_prefix [] ps)"
| "wide_prefix (t # ts) (p # ps) = (ascii_lower t = ascii_lower p \<and> wide_prefix ts ps)"

fun wide_within :: "wide \<Rightarrow> wide \<Rightarrow> bool" where
  "wide_within [] needle = False"
| "wide_within (t # ts) needle = (wide_prefix (t # ts) needle \<or> wide_within ts needle)"

definition VdsWideContainsInsensitive :: "wide option \<Rightarrow> wide option \<Rightarrow> bool" where
  "VdsWideContainsInsensitive text needle =
     (case (text, needle) of
        (Some t, Some n) \<Rightarrow> n \<noteq> [] \<and> wide_within t n
      | _ \<Rightarrow> False)"

definition VdsWideStartsWithInsensitive :: "wide option \<Rightarrow> wide option \<Rightarrow> bool" where
  "VdsWideStartsWithInsensitive text start =
     (case (text, start) of (Some t, Some p) \<Rightarrow> wide_prefix t p | _ \<Rightarrow> False)"

section \<open>Bluetooth addresses in instance ids\<close>

definition zero_address :: bytes where
  "zero_address = replicate 18 0"

text \<open>The address array written from a run of twelve digits.\<close>

definition format_address :: "wide \<Rightarrow> bytes" where
  "format_address run =
     concat (map (\<lambda>k. VdsLowerHexChar (run ! (2 * k)) # VdsLowerHexChar (run ! (2 * k + 1)) #
                      (if k \<noteq> 5 then [58] else [])) [0..<6]) @ [0]"

text \<open>
  The scan of \<open>VdsParseBluetoothAddress\<close>: the run buffer keeps the first twelve digits while
  the length goes on counting, braces open and close a GUID, and any other character ends a
  run; the terminator ends the last one.
\<close>

definition end_run :: "wide \<Rightarrow> nat \<Rightarrow> bytes \<times> bool \<Rightarrow> bytes \<times> bool" where
  "end_run run len res = (if len = 12 then (format_address run, True) else res)"

fun scan_address :: "wide \<Rightarrow> bool \<Rightarrow> wide \<Rightarrow> nat \<Rightarrow> bytes \<times> bool \<Rightarrow> bytes \<times> bool" where
  "scan_address [] inside run len res = end_run run len res"
| "scan_address (v # vs) inside run len res =
     (if v = 0x7B then scan_address vs True run 0 res
      else if v = 0x7D then scan_address vs False run 0 res
      else if \<not> inside \<and> VdsWideHexValue v \<ge> 0 then
        scan_address vs inside (if len < 12 then take len run @ [v] else run) (len + 1) res
      else scan_address vs inside run 0 (end_run run len res))"

definition VdsParseBluetoothAddress :: "wide \<Rightarrow> bytes \<times> bool" where
  "VdsParseBluetoothAddress instance_id = scan_address instance_id False [] 0 (zero_address, False)"

section \<open>State\<close>

record VDS_FILTER_EXTENSION =
  is_control :: bool
  listed :: bool
  report_target :: bool
  provide_hid_strings :: bool
  symbolic_link_created :: bool
  lower_device :: nat
  fx_profile :: u32
  product_string :: "wide option"
  fx_address :: bytes
  device_name :: wide
  symbolic_name :: wide

text \<open>A mapped output buffer of a direct-I/O request, or the reason there is none.\<close>

datatype mdl = No_mdl | Unmappable | Mapped

text \<open>\<open>RequestorMode\<close> is \<open>ir_user\<close>; the image names are those of the requesting process, if it is found, and of the current one.\<close>

record irp =
  ir_id :: nat
  ir_user :: bool
  ir_process_image :: "bytes option"
  ir_current_image :: "bytes option"
  ir_code :: u32
  ir_input_length :: u32
  ir_output_length :: u32
  ir_buffer :: bytes
  ir_mdl :: mdl

text \<open>
  What becomes of an IRP: it is completed (status, information, output bytes), passed on to the
  lower driver for good, or lent to it and taken back by the completion routine.
\<close>

datatype io_event =
    Completed (io_irp: nat) NTSTATUS nat bytes
  | Forwarded (io_irp: nat) nat
  | Lent (io_irp: nat) nat

record filter_driver =
  fd_devices :: "nat \<rightharpoonup> VDS_FILTER_EXTENSION"
  vds_device_list :: "nat list"
  vds_device_wait_irps :: "irp list"
  vds_control_device :: "nat option"
  vds_device_generation :: u32
  vds_next_filter_instance :: u32
  fd_links :: "wide \<rightharpoonup> wide"
  fd_log :: "io_event list"

definition fd_emit :: "io_event \<Rightarrow> filter_driver \<Rightarrow> filter_driver" where
  "fd_emit e fd = fd\<lparr>fd_log := fd_log fd @ [e]\<rparr>"

definition put_extension :: "nat \<Rightarrow> VDS_FILTER_EXTENSION \<Rightarrow> filter_driver \<Rightarrow> filter_driver" where
  "put_extension d x fd = fd\<lparr>fd_devices := (fd_devices fd)(d \<mapsto> x)\<rparr>"

section \<open>The wait queue\<close>

definition VDS_FILTER_DEVICE_CHANGE_VERSION :: u32 where "VDS_FILTER_DEVICE_CHANGE_VERSION = 1"
definition VDS_FILTER_DEVICE_LIST_VERSION :: u32 where "VDS_FILTER_DEVICE_LIST_VERSION = 1"
definition VDS_FILTER_MAX_DEVICES :: nat where "VDS_FILTER_MAX_DEVICES = 8"

definition change_bytes :: "u32 \<Rightarrow> bytes" where
  "change_bytes generation = le32 VDS_FILTER_DEVICE_CHANGE_VERSION @ le32 16 @ le32 generation @ le32 0"

definition VdsCompleteDeviceChangeIrp :: "irp \<Rightarrow> NTSTATUS \<Rightarrow> u32 \<Rightarrow> filter_driver \<Rightarrow> filter_driver" where
  "VdsCompleteDeviceChangeIrp i status generation fd =
     fd_emit (if NT_SUCCESS status then Completed (ir_id i) status 16 (change_bytes generation)
              else Completed (ir_id i) status 0 []) fd"

text \<open>The generation a waiting IRP asked about, in its system buffer.\<close>

definition irp_version :: "irp \<Rightarrow> u32" where "irp_version i = from_le32 (take 4 (ir_buffer i))"
definition irp_size :: "irp \<Rightarrow> u32" where "irp_size i = from_le32 (take 4 (drop 4 (ir_buffer i)))"
definition irp_generation :: "irp \<Rightarrow> u32" where "irp_generation i = from_le32 (take 4 (drop 8 (ir_buffer i)))"

definition VdsWaitQueueInsertIrpEx :: "irp \<Rightarrow> u32 option \<Rightarrow> filter_driver \<Rightarrow> NTSTATUS \<times> filter_driver" where
  "VdsWaitQueueInsertIrpEx i context fd =
     (case context of
        None \<Rightarrow> (STATUS_RETRY, fd)
      | Some generation \<Rightarrow>
          if generation \<noteq> vds_device_generation fd then (STATUS_RETRY, fd)
          else (STATUS_SUCCESS, fd\<lparr>vds_device_wait_irps := vds_device_wait_irps fd @ [i]\<rparr>))"

definition VdsWaitQueueRemoveIrp :: "irp \<Rightarrow> filter_driver \<Rightarrow> filter_driver" where
  "VdsWaitQueueRemoveIrp i fd = fd\<lparr>vds_device_wait_irps := remove1 i (vds_device_wait_irps fd)\<rparr>"

definition VdsWaitQueuePeekNextIrp :: "filter_driver \<Rightarrow> irp option" where
  "VdsWaitQueuePeekNextIrp fd = (case vds_device_wait_irps fd of [] \<Rightarrow> None | i # _ \<Rightarrow> Some i)"

definition VdsWaitQueueCompleteCanceledIrp :: "irp \<Rightarrow> filter_driver \<Rightarrow> filter_driver" where
  "VdsWaitQueueCompleteCanceledIrp i fd = VdsCompleteDeviceChangeIrp i STATUS_CANCELLED 0 fd"

definition VdsCurrentDeviceGeneration :: "filter_driver \<Rightarrow> u32" where
  "VdsCurrentDeviceGeneration fd = vds_device_generation fd"

text \<open>One turn of the completion loop: the head of the queue is removed and completed.\<close>

definition drain_one :: "NTSTATUS \<Rightarrow> u32 \<Rightarrow> filter_driver \<Rightarrow> filter_driver option" where
  "drain_one status generation fd =
     (case VdsWaitQueuePeekNextIrp fd of
        None \<Rightarrow> None
      | Some i \<Rightarrow> Some (VdsCompleteDeviceChangeIrp i status generation (VdsWaitQueueRemoveIrp i fd)))"

lemma drain_one_shrinks:
  "drain_one status generation fd = Some fd' \<Longrightarrow>
   length (vds_device_wait_irps fd') < length (vds_device_wait_irps fd)"
  by (auto simp: drain_one_def VdsWaitQueuePeekNextIrp_def VdsCompleteDeviceChangeIrp_def fd_emit_def
      VdsWaitQueueRemoveIrp_def split: list.splits)

function VdsCompleteDeviceWaitQueue :: "NTSTATUS \<Rightarrow> u32 \<Rightarrow> filter_driver \<Rightarrow> filter_driver" where
  "VdsCompleteDeviceWaitQueue status generation fd =
     (case drain_one status generation fd of
        None \<Rightarrow> fd
      | Some fd' \<Rightarrow> VdsCompleteDeviceWaitQueue status generation fd')"
  by pat_completeness auto
termination
  by (relation "measure (\<lambda>(_, _, fd). length (vds_device_wait_irps fd))") (auto dest: drain_one_shrinks)

declare VdsCompleteDeviceWaitQueue.simps [simp del]

text \<open>The increment under the queue's lock, and the notification that follows it with the loop.\<close>

definition bump_generation :: "filter_driver \<Rightarrow> filter_driver" where
  "bump_generation fd = fd\<lparr>vds_device_generation := vds_device_generation fd + 1\<rparr>"

definition VdsNotifyDeviceListChanged :: "filter_driver \<Rightarrow> filter_driver" where
  "VdsNotifyDeviceListChanged fd =
     (let fd1 = bump_generation fd in VdsCompleteDeviceWaitQueue STATUS_SUCCESS (vds_device_generation fd1) fd1)"

section \<open>Recognising devices\<close>

definition VdsCallerIsAllowed :: "irp \<Rightarrow> bool" where
  "VdsCallerIsAllowed i =
     (if \<not> ir_user i then True
      else (let image_name = (case ir_process_image i of Some n \<Rightarrow> Some n | None \<Rightarrow> ir_current_image i) in
        VdsAsciiEqualInsensitive image_name (Some (narrow ''vdsd.exe'')) \<or>
        VdsAsciiEqualInsensitive image_name (Some (narrow ''vdsctl.exe''))))"

text \<open>The two property queries: the size first, then the value into a pool allocation.\<close>

record property_query =
  pq_status :: NTSTATUS
  pq_required :: u32
  pq_allocated :: bool
  pq_status2 :: NTSTATUS
  pq_value :: wide

definition VdsReadDeviceStringProperty :: "property_query \<Rightarrow> wide option" where
  "VdsReadDeviceStringProperty q =
     (if pq_status q \<noteq> STATUS_BUFFER_TOO_SMALL \<or> pq_required q = 0 then None
      else if \<not> pq_allocated q then None
      else if \<not> NT_SUCCESS (pq_status2 q) then None
      else Some (pq_value q))"

definition profile_reset :: "VDS_FILTER_EXTENSION \<Rightarrow> VDS_FILTER_EXTENSION" where
  "profile_reset x = x\<lparr>fx_profile := VDS_PROFILE_DS5, report_target := False, provide_hid_strings := False,
     product_string := None, fx_address := zero_address\<rparr>"

definition bluetooth_hid_collection :: "wide \<Rightarrow> bool" where
  "bluetooth_hid_collection instance_id \<longleftrightarrow>
     VdsWideStartsWithInsensitive (Some instance_id)
       (Some (wide (''hid'' @ [CHR 0x5C] @ ''{00001124-0000-1000-8000-00805f9b34fb}_vid&0002054c_pid&''))) \<and>
     (\<not> VdsWideContainsInsensitive (Some instance_id) (Some (wide ''&col'')) \<or>
      VdsWideContainsInsensitive (Some instance_id) (Some (wide ''&col01'')))"

definition VdsReadPhysicalDeviceProfile ::
  "property_query \<Rightarrow> property_query \<Rightarrow> VDS_FILTER_EXTENSION \<Rightarrow> VDS_FILTER_EXTENSION" where
  "VdsReadPhysicalDeviceProfile instance_query parent_query x =
     (let x = profile_reset x in
      case VdsReadDeviceStringProperty instance_query of
        None \<Rightarrow> x
      | Some instance_id \<Rightarrow>
          if VdsWideStartsWithInsensitive (Some instance_id)
               (Some (wide (''hid'' @ [CHR 0x5C] @ ''vid_054c&pid_0df2&mi_03''))) then
            x\<lparr>fx_profile := VDS_PROFILE_DSE, provide_hid_strings := True,
              product_string := Some (wide ''DualSense Edge Wireless Controller'')\<rparr>
          else if VdsWideStartsWithInsensitive (Some instance_id)
               (Some (wide (''hid'' @ [CHR 0x5C] @ ''vid_054c&pid_0ce6&mi_03''))) then
            x\<lparr>fx_profile := VDS_PROFILE_DS5, provide_hid_strings := True,
              product_string := Some (wide ''DualSense Wireless Controller'')\<rparr>
          else
            (let x = x\<lparr>report_target := bluetooth_hid_collection instance_id\<rparr>;
                 x = (if VdsWideContainsInsensitive (Some instance_id) (Some (wide ''pid&0df2''))
                      then x\<lparr>fx_profile := VDS_PROFILE_DSE\<rparr> else x);
                 x = x\<lparr>fx_address := fst (VdsParseBluetoothAddress instance_id)\<rparr> in
             if fx_address x ! 0 \<noteq> 0 then x
             else case VdsReadDeviceStringProperty parent_query of
               None \<Rightarrow> x
             | Some parent_id \<Rightarrow> x\<lparr>fx_address := fst (VdsParseBluetoothAddress parent_id)\<rparr>))"

definition VdsPhysicalAccessRestricted :: "VDS_FILTER_EXTENSION \<Rightarrow> bool" where
  "VdsPhysicalAccessRestricted x \<longleftrightarrow> report_target x \<or> fx_address x ! 0 \<noteq> 0"

definition VdsUpdateDeviceListMembership :: "nat \<Rightarrow> filter_driver \<Rightarrow> bool \<times> filter_driver" where
  "VdsUpdateDeviceListMembership d fd =
     (case fd_devices fd d of
        None \<Rightarrow> (False, fd)
      | Some x \<Rightarrow>
          (let should_list = report_target x \<or> fx_address x ! 0 \<noteq> 0 in
           if should_list \<and> \<not> listed x then
             (True, put_extension d (x\<lparr>listed := True\<rparr>) (fd\<lparr>vds_device_list := vds_device_list fd @ [d]\<rparr>))
           else if \<not> should_list \<and> listed x then
             (True, put_extension d (x\<lparr>listed := False\<rparr>) (fd\<lparr>vds_device_list := removeAll d (vds_device_list fd)\<rparr>))
           else (False, fd)))"

section \<open>Symbolic links\<close>

definition VdsDeleteSymbolicLink :: "nat \<Rightarrow> filter_driver \<Rightarrow> filter_driver" where
  "VdsDeleteSymbolicLink d fd =
     (case fd_devices fd d of
        None \<Rightarrow> fd
      | Some x \<Rightarrow>
          if \<not> symbolic_link_created x then fd
          else put_extension d (x\<lparr>symbolic_link_created := False, symbolic_name := []\<rparr>)
                 (fd\<lparr>fd_links := (fd_links fd)(symbolic_name x := None)\<rparr>))"

text \<open>The loop over the first 17 characters that skips colons and stops after twelve.\<close>

fun compact :: "bytes \<Rightarrow> nat \<Rightarrow> wide" where
  "compact [] room = []"
| "compact (c # cs) room =
     (if room = 0 then []
      else if c = 58 \<or> c = 0 then compact cs room
      else ucast c # compact cs (room - 1))"

definition compact_address :: "bytes \<Rightarrow> wide" where
  "compact_address address = compact (take 17 address) 12"

definition filter_link_name :: "wide \<Rightarrow> wide" where
  "filter_link_name compacted =
     wide ([CHR 0x5C] @ ''DosDevices'' @ [CHR 0x5C] @ ''vds_filter_'') @ compacted"

definition VdsUpdateSymbolicLink :: "NTSTATUS \<Rightarrow> nat \<Rightarrow> filter_driver \<Rightarrow> filter_driver" where
  "VdsUpdateSymbolicLink link_status d fd =
     (case fd_devices fd d of
        None \<Rightarrow> fd
      | Some x \<Rightarrow>
          if symbolic_link_created x \<or> \<not> report_target x \<or> fx_address x ! 0 = 0 then fd
          else if length (compact_address (fx_address x)) \<noteq> 12 then fd
          else (let name = filter_link_name (compact_address (fx_address x));
                    fd = fd\<lparr>fd_links := (fd_links fd)(name := None)\<rparr> in
            if NT_SUCCESS link_status then
              put_extension d (x\<lparr>symbolic_link_created := True, symbolic_name := name\<rparr>)
                (fd\<lparr>fd_links := (fd_links fd)(name \<mapsto> device_name x)\<rparr>)
            else put_extension d (x\<lparr>symbolic_name := []\<rparr>) fd))"

section \<open>Completing requests\<close>

definition VdsCompleteIrp_filter :: "irp \<Rightarrow> NTSTATUS \<Rightarrow> filter_driver \<Rightarrow> NTSTATUS \<times> filter_driver" where
  "VdsCompleteIrp_filter i status fd = (status, fd_emit (Completed (ir_id i) status 0 []) fd)"

definition wide_bytes :: "wide \<Rightarrow> bytes" where
  "wide_bytes s = concat (map le16 (s @ [0]))"

text \<open>The output buffer after the string was copied and its last character overwritten.\<close>

definition string_output :: "wide \<Rightarrow> nat \<Rightarrow> bytes" where
  "string_output s n =
     blit (2 * (n div 2 - 1)) [0, 0] (blit 0 (take (min n (length (wide_bytes s))) (wide_bytes s)) (replicate n 0))"

definition VdsCompleteStringIoctl :: "irp \<Rightarrow> wide option \<Rightarrow> filter_driver \<Rightarrow> NTSTATUS \<times> filter_driver" where
  "VdsCompleteStringIoctl i string fd =
     (case string of
        None \<Rightarrow> VdsCompleteIrp_filter i STATUS_BUFFER_TOO_SMALL fd
      | Some s \<Rightarrow>
          if unat (ir_output_length i) < 2 \<or> ir_mdl i = No_mdl then
            VdsCompleteIrp_filter i STATUS_BUFFER_TOO_SMALL fd
          else if ir_mdl i = Unmappable then VdsCompleteIrp_filter i STATUS_INSUFFICIENT_RESOURCES fd
          else (let n = unat (ir_output_length i) in
            (STATUS_SUCCESS,
             fd_emit (Completed (ir_id i) STATUS_SUCCESS (min n (length (wide_bytes s))) (string_output s n)) fd)))"

section \<open>The device list\<close>

record vds_filter_device_info =
  fi_profile :: u32
  fi_address :: bytes
  fi_flags :: u16

definition VDS_FILTER_DEVICE_PRESENT :: u16 where "VDS_FILTER_DEVICE_PRESENT = 1"
definition VDS_FILTER_DEVICE_REPORT_TARGET :: u16 where "VDS_FILTER_DEVICE_REPORT_TARGET = 2"
definition VDS_FILTER_DEVICE_ACCESS_RESTRICTED :: u16 where "VDS_FILTER_DEVICE_ACCESS_RESTRICTED = 4"

definition VdsDeviceListContainsAddress :: "vds_filter_device_info list \<Rightarrow> bytes \<Rightarrow> bool" where
  "VdsDeviceListContainsAddress list address = list_ex (\<lambda>e. VdsAddressEqual (fi_address e) address) list"

definition device_info :: "VDS_FILTER_EXTENSION \<Rightarrow> vds_filter_device_info" where
  "device_info item =
     \<lparr>fi_profile = fx_profile item, fi_address = fx_address item,
      fi_flags = VDS_FILTER_DEVICE_PRESENT OR
        (if report_target item then VDS_FILTER_DEVICE_REPORT_TARGET else 0) OR
        (if report_target item \<or> fx_address item ! 0 \<noteq> 0 then VDS_FILTER_DEVICE_ACCESS_RESTRICTED else 0)\<rparr>"

definition VdsAppendDeviceListEntry ::
  "vds_filter_device_info list \<Rightarrow> VDS_FILTER_EXTENSION \<Rightarrow> vds_filter_device_info list" where
  "VdsAppendDeviceListEntry list item =
     (if length list \<ge> VDS_FILTER_MAX_DEVICES \<or>
         (fx_address item ! 0 \<noteq> 0 \<and> VdsDeviceListContainsAddress list (fx_address item)) then list
      else list @ [device_info item])"

text \<open>One pass over the device list, for the report targets or for the others.\<close>

fun list_pass :: "bool \<Rightarrow> VDS_FILTER_EXTENSION list \<Rightarrow> vds_filter_device_info list \<Rightarrow> vds_filter_device_info list" where
  "list_pass target [] out = out"
| "list_pass target (item # items) out =
     (if length out < VDS_FILTER_MAX_DEVICES then
        list_pass target items (if report_target item = target then VdsAppendDeviceListEntry out item else out)
      else out)"

definition listed_items :: "filter_driver \<Rightarrow> VDS_FILTER_EXTENSION list" where
  "listed_items fd = List.map_filter (fd_devices fd) (vds_device_list fd)"

definition list_devices :: "filter_driver \<Rightarrow> vds_filter_device_info list" where
  "list_devices fd = list_pass False (listed_items fd) (list_pass True (listed_items fd) [])"

definition info_bytes :: "vds_filter_device_info \<Rightarrow> bytes" where
  "info_bytes e = le32 (fi_profile e) @ fi_address e @ le16 (fi_flags e)"

definition device_list_bytes :: "filter_driver \<Rightarrow> bytes" where
  "device_list_bytes fd =
     le32 VDS_FILTER_DEVICE_LIST_VERSION @ le32 208 @ le32 (of_nat (length (list_devices fd))) @
     le32 (vds_device_generation fd) @ concat (map info_bytes (list_devices fd)) @
     replicate (192 - 24 * length (list_devices fd)) 0"

section \<open>Dispatch routines\<close>

text \<open>
  Each routine gets the device object, the IRP and the status with which the lower driver
  answers, should the IRP be passed on to it.
\<close>

definition VdsPassThrough ::
  "NTSTATUS \<Rightarrow> VDS_FILTER_EXTENSION \<Rightarrow> irp \<Rightarrow> filter_driver \<Rightarrow> NTSTATUS \<times> filter_driver" where
  "VdsPassThrough lower x i fd =
     (if is_control x then VdsCompleteIrp_filter i STATUS_INVALID_DEVICE_REQUEST fd
      else (lower, fd_emit (Forwarded (ir_id i) (lower_device x)) fd))"

definition VdsDispatchCreate ::
  "NTSTATUS \<Rightarrow> VDS_FILTER_EXTENSION \<Rightarrow> irp \<Rightarrow> filter_driver \<Rightarrow> NTSTATUS \<times> filter_driver" where
  "VdsDispatchCreate lower x i fd =
     (if is_control x then
        (if \<not> VdsCallerIsAllowed i then VdsCompleteIrp_filter i STATUS_ACCESS_DENIED fd
         else VdsCompleteIrp_filter i STATUS_SUCCESS fd)
      else if VdsPhysicalAccessRestricted x \<and> \<not> VdsCallerIsAllowed i then
        VdsCompleteIrp_filter i STATUS_ACCESS_DENIED fd
      else VdsPassThrough lower x i fd)"

definition VdsDispatchPhysicalDeviceControl ::
  "NTSTATUS \<Rightarrow> VDS_FILTER_EXTENSION \<Rightarrow> irp \<Rightarrow> filter_driver \<Rightarrow> NTSTATUS \<times> filter_driver" where
  "VdsDispatchPhysicalDeviceControl lower x i fd =
     (if \<not> is_control x \<and> VdsPhysicalAccessRestricted x \<and> \<not> VdsCallerIsAllowed i then
        VdsCompleteIrp_filter i STATUS_ACCESS_DENIED fd
      else VdsPassThrough lower x i fd)"

definition VdsDispatchClose ::
  "NTSTATUS \<Rightarrow> VDS_FILTER_EXTENSION \<Rightarrow> irp \<Rightarrow> filter_driver \<Rightarrow> NTSTATUS \<times> filter_driver" where
  "VdsDispatchClose lower x i fd =
     (if is_control x then VdsCompleteIrp_filter i STATUS_SUCCESS fd
      else if VdsPhysicalAccessRestricted x \<and> ir_user i \<and> \<not> VdsCallerIsAllowed i then
        VdsCompleteIrp_filter i STATUS_SUCCESS fd
      else VdsPassThrough lower x i fd)"

definition VDS_HID_OUT_CTL_CODE :: "u32 \<Rightarrow> u32" where
  "VDS_HID_OUT_CTL_CODE n = VDS_WIN_CTL_CODE 0x0b n 2 0"

definition VDS_IOCTL_HID_GET_MANUFACTURER_STRING :: u32 where
  "VDS_IOCTL_HID_GET_MANUFACTURER_STRING = VDS_HID_OUT_CTL_CODE 110"
definition VDS_IOCTL_HID_GET_PRODUCT_STRING :: u32 where
  "VDS_IOCTL_HID_GET_PRODUCT_STRING = VDS_HID_OUT_CTL_CODE 111"
definition VDS_IOCTL_HID_GET_SERIALNUMBER_STRING :: u32 where
  "VDS_IOCTL_HID_GET_SERIALNUMBER_STRING = VDS_HID_OUT_CTL_CODE 112"

definition get_driver_info :: "string \<Rightarrow> irp \<Rightarrow> filter_driver \<Rightarrow> NTSTATUS \<times> filter_driver" where
  "get_driver_info version i fd =
     (if unat (ir_output_length i) < 72 then VdsCompleteIrp_filter i STATUS_BUFFER_TOO_SMALL fd
      else (STATUS_SUCCESS, fd_emit (Completed (ir_id i) STATUS_SUCCESS 72 (driver_info version)) fd))"

definition get_devices :: "irp \<Rightarrow> filter_driver \<Rightarrow> NTSTATUS \<times> filter_driver" where
  "get_devices i fd =
     (if unat (ir_output_length i) < 208 then VdsCompleteIrp_filter i STATUS_BUFFER_TOO_SMALL fd
      else (STATUS_SUCCESS, fd_emit (Completed (ir_id i) STATUS_SUCCESS 208 (device_list_bytes fd)) fd))"

text \<open>
  Waiting for a change: the tests that answer at once, and the insertion into the queue with
  its second look at the generation. \<open>None\<close> says that the IRP goes on to the insertion.
\<close>

definition wait_check :: "irp \<Rightarrow> filter_driver \<Rightarrow> (NTSTATUS \<times> filter_driver) option" where
  "wait_check i fd =
     (if unat (ir_input_length i) < 16 \<or> unat (ir_output_length i) < 16 then
        Some (VdsCompleteIrp_filter i STATUS_BUFFER_TOO_SMALL fd)
      else if irp_version i \<noteq> VDS_FILTER_DEVICE_CHANGE_VERSION \<or> irp_size i \<noteq> 16 then
        Some (VdsCompleteIrp_filter i STATUS_INVALID_PARAMETER fd)
      else if irp_generation i \<noteq> VdsCurrentDeviceGeneration fd then
        Some (STATUS_SUCCESS, VdsCompleteDeviceChangeIrp i STATUS_SUCCESS (VdsCurrentDeviceGeneration fd) fd)
      else None)"

definition wait_insert :: "irp \<Rightarrow> filter_driver \<Rightarrow> NTSTATUS \<times> filter_driver" where
  "wait_insert i fd =
     (case VdsWaitQueueInsertIrpEx i (Some (irp_generation i)) fd of (status, fd) \<Rightarrow>
      if status = STATUS_RETRY then
        (STATUS_PENDING, VdsCompleteDeviceChangeIrp i STATUS_SUCCESS (VdsCurrentDeviceGeneration fd) fd)
      else if \<not> NT_SUCCESS status then (STATUS_PENDING, snd (VdsCompleteIrp_filter i status fd))
      else (STATUS_PENDING, fd))"

definition wait_device_change :: "irp \<Rightarrow> filter_driver \<Rightarrow> NTSTATUS \<times> filter_driver" where
  "wait_device_change i fd = (case wait_check i fd of Some r \<Rightarrow> r | None \<Rightarrow> wait_insert i fd)"

definition VdsDispatchDeviceControl ::
  "string \<Rightarrow> NTSTATUS \<Rightarrow> VDS_FILTER_EXTENSION \<Rightarrow> irp \<Rightarrow> filter_driver \<Rightarrow> NTSTATUS \<times> filter_driver" where
  "VdsDispatchDeviceControl version lower x i fd =
     (if \<not> is_control x then
        (if provide_hid_strings x \<and> ir_code i = VDS_IOCTL_HID_GET_PRODUCT_STRING then
           VdsCompleteStringIoctl i (product_string x) fd
         else if provide_hid_strings x \<and> ir_code i = VDS_IOCTL_HID_GET_MANUFACTURER_STRING then
           VdsCompleteStringIoctl i (Some (wide ''Sony Interactive Entertainment'')) fd
         else if provide_hid_strings x \<and> ir_code i = VDS_IOCTL_HID_GET_SERIALNUMBER_STRING then
           VdsCompleteStringIoctl i (Some (wide ''000000000000'')) fd
         else VdsDispatchPhysicalDeviceControl lower x i fd)
      else if ir_code i = VDS_IOCTL_GET_DRIVER_INFO then get_driver_info version i fd
      else if ir_code i = VDS_FILTER_IOCTL_GET_DEVICES then get_devices i fd
      else if ir_code i = VDS_FILTER_IOCTL_WAIT_DEVICE_CHANGE then wait_device_change i fd
      else VdsCompleteIrp_filter i STATUS_INVALID_DEVICE_REQUEST fd)"

text \<open>The lower driver's answer to an IRP that is waited for: at once, or after \<open>STATUS_PENDING\<close>.\<close>

definition awaited :: "NTSTATUS \<Rightarrow> NTSTATUS \<Rightarrow> NTSTATUS" where
  "awaited answer later = (if answer = STATUS_PENDING then later else answer)"

datatype pnp_minor = IRP_MN_START_DEVICE | IRP_MN_REMOVE_DEVICE | IRP_MN_OTHER

record filter_env =
  fe_lower :: NTSTATUS
  fe_later :: NTSTATUS
  fe_instance :: property_query
  fe_parent :: property_query
  fe_link :: NTSTATUS

definition start_device :: "filter_env \<Rightarrow> nat \<Rightarrow> VDS_FILTER_EXTENSION \<Rightarrow> filter_driver \<Rightarrow> filter_driver" where
  "start_device env d x fd =
     (let fd = put_extension d (VdsReadPhysicalDeviceProfile (fe_instance env) (fe_parent env) x) fd in
      case VdsUpdateDeviceListMembership d fd of (list_changed, fd) \<Rightarrow>
        (let fd = VdsUpdateSymbolicLink (fe_link env) d fd in
         if list_changed \<or> (case fd_devices fd d of Some x \<Rightarrow> listed x | None \<Rightarrow> False)
         then VdsNotifyDeviceListChanged fd else fd))"

text \<open>The removal from the list under its lock, and with the notification that follows.\<close>

definition unlist_locked :: "nat \<Rightarrow> VDS_FILTER_EXTENSION \<Rightarrow> filter_driver \<Rightarrow> filter_driver" where
  "unlist_locked d x fd =
     (if listed x then put_extension d (x\<lparr>listed := False\<rparr>) (fd\<lparr>vds_device_list := removeAll d (vds_device_list fd)\<rparr>)
      else fd)"

definition unlist_device :: "nat \<Rightarrow> VDS_FILTER_EXTENSION \<Rightarrow> filter_driver \<Rightarrow> filter_driver" where
  "unlist_device d x fd = (if listed x then VdsNotifyDeviceListChanged (unlist_locked d x fd) else fd)"

definition IoDeleteDevice :: "nat \<Rightarrow> filter_driver \<Rightarrow> filter_driver" where
  "IoDeleteDevice d fd = fd\<lparr>fd_devices := (fd_devices fd)(d := None)\<rparr>"

definition VdsDispatchPnp ::
  "filter_env \<Rightarrow> pnp_minor \<Rightarrow> nat \<Rightarrow> VDS_FILTER_EXTENSION \<Rightarrow> irp \<Rightarrow> filter_driver \<Rightarrow> NTSTATUS \<times> filter_driver" where
  "VdsDispatchPnp env minor d x i fd =
     (if is_control x then VdsCompleteIrp_filter i STATUS_INVALID_DEVICE_REQUEST fd
      else case minor of
        IRP_MN_START_DEVICE \<Rightarrow>
          (let fd = fd_emit (Lent (ir_id i) (lower_device x)) fd;
               status = awaited (fe_lower env) (fe_later env);
               fd = (if NT_SUCCESS status then start_device env d x fd else fd) in
           (status, fd_emit (Completed (ir_id i) status 0 []) fd))
      | IRP_MN_REMOVE_DEVICE \<Rightarrow>
          (let fd = VdsDeleteSymbolicLink d (unlist_device d x fd);
               fd = fd_emit (Lent (ir_id i) (lower_device x)) fd;
               status = awaited (fe_lower env) (fe_later env);
               fd = IoDeleteDevice d fd in
           (status, fd_emit (Completed (ir_id i) status 0 []) fd))
      | IRP_MN_OTHER \<Rightarrow> VdsPassThrough (fe_lower env) x i fd)"

definition VdsDispatchPower ::
  "NTSTATUS \<Rightarrow> VDS_FILTER_EXTENSION \<Rightarrow> irp \<Rightarrow> filter_driver \<Rightarrow> NTSTATUS \<times> filter_driver" where
  "VdsDispatchPower lower x i fd =
     (if is_control x then VdsCompleteIrp_filter i STATUS_SUCCESS fd
      else (lower, fd_emit (Forwarded (ir_id i) (lower_device x)) fd))"

section \<open>Devices come and go\<close>

definition long_text :: "u32 \<Rightarrow> string" where
  "long_text v = (if sint v < 0 then CHR ''-'' # nat_text (nat (- sint v)) else nat_text (nat (sint v)))"

definition hid_device_name :: "u32 \<Rightarrow> wide" where
  "hid_device_name n = wide ([CHR 0x5C] @ ''Device'' @ [CHR 0x5C] @ ''VdsFilterHid'' @ long_text n)"

definition fresh_extension :: VDS_FILTER_EXTENSION where
  "fresh_extension = \<lparr>is_control = False, listed = False, report_target = False, provide_hid_strings = False,
     symbolic_link_created = False, lower_device = 0, fx_profile = 0, product_string = None,
     fx_address = zero_address, device_name = [], symbolic_name = []\<rparr>"

text \<open>
  \<open>IoCreateDevice\<close> answers with a status and the device object, \<open>IoAttachDeviceToDeviceStack\<close>
  with the device below, if any.
\<close>

definition VdsAddDevice ::
  "filter_env \<Rightarrow> NTSTATUS \<Rightarrow> nat \<Rightarrow> nat option \<Rightarrow> filter_driver \<Rightarrow> NTSTATUS \<times> filter_driver" where
  "VdsAddDevice env created d attached fd =
     (let instance_index = vds_next_filter_instance fd;
          fd = fd\<lparr>vds_next_filter_instance := instance_index + 1\<rparr> in
      if \<not> NT_SUCCESS created then (created, fd)
      else (let x = fresh_extension\<lparr>device_name := hid_device_name instance_index\<rparr>;
                x = VdsReadPhysicalDeviceProfile (fe_instance env) (fe_parent env) x in
        case attached of
          None \<Rightarrow> (STATUS_NO_SUCH_DEVICE, IoDeleteDevice d (put_extension d x fd))
        | Some below \<Rightarrow>
            (case VdsUpdateDeviceListMembership d (put_extension d (x\<lparr>lower_device := below\<rparr>) fd) of
               (changed, fd) \<Rightarrow>
                 (STATUS_SUCCESS,
                  VdsUpdateSymbolicLink (fe_link env) d (if changed then VdsNotifyDeviceListChanged fd else fd)))))"

definition VDS_FILTER_DEVICE_NAME :: wide where
  "VDS_FILTER_DEVICE_NAME = wide ([CHR 0x5C] @ ''Device'' @ [CHR 0x5C] @ ''VdsFilter'')"
definition VDS_FILTER_SYMBOLIC_NAME :: wide where
  "VDS_FILTER_SYMBOLIC_NAME = wide ([CHR 0x5C] @ ''DosDevices'' @ [CHR 0x5C] @ ''vds_filter'')"

definition VdsCreateControlDevice_filter ::
  "NTSTATUS \<Rightarrow> nat \<Rightarrow> NTSTATUS \<Rightarrow> filter_driver \<Rightarrow> NTSTATUS \<times> filter_driver" where
  "VdsCreateControlDevice_filter created d link_status fd =
     (let fd = fd\<lparr>fd_links := (fd_links fd)(VDS_FILTER_SYMBOLIC_NAME := None)\<rparr> in
      if \<not> NT_SUCCESS created then (created, fd)
      else (let fd = (put_extension d (fresh_extension\<lparr>is_control := True\<rparr>) fd)\<lparr>vds_control_device := Some d\<rparr> in
        if \<not> NT_SUCCESS link_status then (link_status, (IoDeleteDevice d fd)\<lparr>vds_control_device := None\<rparr>)
        else (STATUS_SUCCESS,
              fd\<lparr>fd_links := (fd_links fd)(VDS_FILTER_SYMBOLIC_NAME \<mapsto> VDS_FILTER_DEVICE_NAME)\<rparr>)))"

definition VdsUnload :: "filter_driver \<Rightarrow> filter_driver" where
  "VdsUnload fd =
     (case vds_control_device fd of
        None \<Rightarrow> fd
      | Some d \<Rightarrow>
          (let fd = VdsCompleteDeviceWaitQueue STATUS_DELETE_PENDING (VdsCurrentDeviceGeneration fd) fd;
               fd = fd\<lparr>fd_links := (fd_links fd)(VDS_FILTER_SYMBOLIC_NAME := None)\<rparr> in
           (IoDeleteDevice d fd)\<lparr>vds_control_device := None\<rparr>))"

text \<open>The loaded image: globals are zero, the object manager keeps the links of earlier runs.\<close>

definition loaded_filter :: "(wide \<rightharpoonup> wide) \<Rightarrow> filter_driver" where
  "loaded_filter links = \<lparr>fd_devices = Map.empty, vds_device_list = [], vds_device_wait_irps = [],
     vds_control_device = None, vds_device_generation = 0, vds_next_filter_instance = 0, fd_links = links,
     fd_log = []\<rparr>"

definition DriverEntry_filter ::
  "NTSTATUS \<Rightarrow> NTSTATUS \<Rightarrow> nat \<Rightarrow> NTSTATUS \<Rightarrow> filter_driver \<Rightarrow> NTSTATUS \<times> filter_driver" where
  "DriverEntry_filter csq_status created d link_status fd =
     (let fd = fd\<lparr>vds_device_list := [], vds_device_wait_irps := [], vds_device_generation := 1\<rparr> in
      if \<not> NT_SUCCESS csq_status then (csq_status, fd)
      else case VdsCreateControlDevice_filter created d link_status fd of (status, fd) \<Rightarrow>
        if \<not> NT_SUCCESS status then (status, fd) else (STATUS_SUCCESS, fd))"

text \<open>The dispatch table that \<open>DriverEntry\<close> fills.\<close>

datatype irp_major =
    IRP_MJ_CREATE | IRP_MJ_CLOSE | IRP_MJ_CLEANUP | IRP_MJ_DEVICE_CONTROL
  | IRP_MJ_INTERNAL_DEVICE_CONTROL | IRP_MJ_PNP pnp_minor | IRP_MJ_POWER | IRP_MJ_OTHER

definition MajorFunction ::
  "string \<Rightarrow> filter_env \<Rightarrow> irp_major \<Rightarrow> nat \<Rightarrow> VDS_FILTER_EXTENSION \<Rightarrow> irp \<Rightarrow> filter_driver \<Rightarrow> NTSTATUS \<times> filter_driver" where
  "MajorFunction version env major d x i fd =
     (case major of
        IRP_MJ_CREATE \<Rightarrow> VdsDispatchCreate (fe_lower env) x i fd
      | IRP_MJ_CLOSE \<Rightarrow> VdsDispatchClose (fe_lower env) x i fd
      | IRP_MJ_CLEANUP \<Rightarrow> VdsDispatchClose (fe_lower env) x i fd
      | IRP_MJ_DEVICE_CONTROL \<Rightarrow> VdsDispatchDeviceControl version (fe_lower env) x i fd
      | IRP_MJ_INTERNAL_DEVICE_CONTROL \<Rightarrow> VdsDispatchPhysicalDeviceControl (fe_lower env) x i fd
      | IRP_MJ_PNP minor \<Rightarrow> VdsDispatchPnp env minor d x i fd
      | IRP_MJ_POWER \<Rightarrow> VdsDispatchPower (fe_lower env) x i fd
      | IRP_MJ_OTHER \<Rightarrow> VdsPassThrough (fe_lower env) x i fd)"

end
