(* ===== verification/WinFilterInv.thy ===== *)
theory WinFilterInv
  imports WinFilter "HOL-Library.Multiset"
begin

text \<open>
  Lemmas on the filter driver: the address parser against a reference definition, the type
  of device extensions and the invariant of the driver's globals, what becomes of IRPs, the
  wait queue under interleaving (\<open>filter_reach\<close>), and the passes that build the device list.
\<close>

section \<open>Addresses\<close>

text \<open>
  Reference: the positions of the addresses, without a scan. An address is a maximal run of exactly
  twelve hexadecimal digits; the brace before it, when there is one, is a closing one; and it is not directly
  followed by a brace.
\<close>

definition hex_digit :: "u16 \<Rightarrow> bool" where
  "hex_digit v \<longleftrightarrow> VdsWideHexValue v \<ge> 0"

definition brace :: "u16 \<Rightarrow> bool" where
  "brace v \<longleftrightarrow> v = 0x7B \<or> v = 0x7D"

text \<open>After the text \<open>p\<close> the scan is outside braces: there is no brace in it, or the last one closes.\<close>

definition outside :: "wide \<Rightarrow> bool" where
  "outside p \<longleftrightarrow> filter brace p = [] \<or> last (filter brace p) = 0x7D"

definition address_at :: "wide \<Rightarrow> nat \<Rightarrow> bool" where
  "address_at w n \<longleftrightarrow> n + 12 \<le> length w \<and> (\<forall>k < 12. hex_digit (w ! (n + k))) \<and> outside (take n w) \<and>
     (n = 0 \<or> \<not> hex_digit (w ! (n - 1))) \<and>
     (n + 12 = length w \<or> \<not> hex_digit (w ! (n + 12)) \<and> \<not> brace (w ! (n + 12)))"

lemma brace_not_hex [simp]: "brace v \<Longrightarrow> \<not> hex_digit v"
  by (auto simp: brace_def hex_digit_def VdsWideHexValue_def)

lemma outside_simps:
  "outside []" "outside (p @ [v]) \<longleftrightarrow> (if brace v then v = 0x7D else outside p)"
  "list_all hex_digit r \<Longrightarrow> outside (p @ r) \<longleftrightarrow> outside p"
proof -
  show "list_all hex_digit r \<Longrightarrow> outside (p @ r) \<longleftrightarrow> outside p"
    by (induction r rule: rev_induct) (auto simp: outside_def)
qed (auto simp: outside_def)

lemma address_in_run:
  assumes w: "w = p @ r @ s" and r: "list_all hex_digit r" and s: "s = [] \<or> \<not> hex_digit (hd s)"
    and n: "length p \<le> n" "n \<le> length p + length r" and a: "address_at w n"
  shows "n = length p \<and> length r = 12 \<and> (s = [] \<or> \<not> brace (hd s))"
proof -
  have hex: "hex_digit (w ! k)" if "length p \<le> k" "k < length p + length r" for k
    using that r by (simp add: w nth_append list_all_length)
  have follow: "s \<noteq> [] \<Longrightarrow> w ! (length p + length r) = hd s" by (simp add: w nth_append hd_conv_nth)
  have n': "n = length p"
  proof (rule ccontr)
    assume "n \<noteq> length p"
    then have "hex_digit (w ! (n - 1))" "n \<noteq> 0" using n by (auto intro!: hex)
    then show False using a by (simp add: address_at_def)
  qed
  have l: "length r \<ge> 12"
  proof (rule ccontr)
    assume *: "\<not> length r \<ge> 12"
    then have "s \<noteq> []" using a n' by (auto simp: address_at_def w)
    moreover have "hex_digit (w ! (length p + length r))" using a n' * by (simp add: address_at_def)
    ultimately show False using follow s by simp
  qed
  have "length r = 12"
  proof (rule ccontr)
    assume "length r \<noteq> 12"
    then have "n + 12 < length p + length r" using l n' by simp
    then have "hex_digit (w ! (n + 12))" "n + 12 \<noteq> length w" using hex [of "n + 12"] n by (simp_all add: w)
    then show False using a by (simp add: address_at_def)
  qed
  then show ?thesis using a n' follow by (auto simp: address_at_def w nth_append hd_conv_nth)
qed

lemma address_of_run:
  assumes w: "w = p @ r @ s" and r: "list_all hex_digit r" "length r = 12" and s: "s = [] \<or> \<not> hex_digit (hd s) \<and> \<not> brace (hd s)"
    and p: "outside p" "p = [] \<or> \<not> hex_digit (last p)"
  shows "address_at w (length p)" "take 12 (drop (length p) w) = r"
proof -
  show "take 12 (drop (length p) w) = r" using r(2) by (simp add: w)
  have "s \<noteq> [] \<Longrightarrow> w ! (length p + 12) = hd s" using r(2) by (simp add: w nth_append hd_conv_nth)
  moreover have "hex_digit (w ! (length p + k))" if "k < 12" for k using that r by (simp add: w nth_append list_all_length)
  moreover have "p \<noteq> [] \<Longrightarrow> w ! (length p - 1) = last p" by (simp add: w nth_append last_conv_nth)
  ultimately show "address_at w (length p)" using s p r(2) by (auto simp: address_at_def w)
qed

text \<open>The positions of the addresses; \<open>last_address\<close>: the result is that of the last one from position \<open>from\<close> on, or \<open>res\<close>.\<close>

definition addresses :: "wide \<Rightarrow> nat list" where
  "addresses w = filter (address_at w) [0..<length w]"

definition last_address :: "wide \<Rightarrow> nat \<Rightarrow> bytes \<times> bool \<Rightarrow> bytes \<times> bool \<Rightarrow> bool" where
  "last_address w from res out \<longleftrightarrow>
     (\<exists>n \<ge> from. address_at w n \<and> (\<forall>m > n. \<not> address_at w m) \<and> out = (format_address (take 12 (drop n w)), True)) \<or>
     (\<forall>n \<ge> from. \<not> address_at w n) \<and> out = res"

lemma last_address_none: "(\<And>n. from \<le> n \<Longrightarrow> \<not> address_at w n) \<Longrightarrow> last_address w from res res"
  by (simp add: last_address_def)

lemma last_address_one:
  "from \<le> n \<Longrightarrow> address_at w n \<Longrightarrow> (\<And>m. n < m \<Longrightarrow> \<not> address_at w m) \<Longrightarrow>
   last_address w from res (format_address (take 12 (drop n w)), True)"
  unfolding last_address_def by blast

lemma last_address_skip:
  assumes "last_address w k res out" "from \<le> k" "\<And>n. from \<le> n \<Longrightarrow> n < k \<Longrightarrow> \<not> address_at w n"
  shows "last_address w from res out"
  using assms(1) unfolding last_address_def
proof (elim disjE exE conjE)
  fix n
  assume n: "k \<le> n" "address_at w n" "\<forall>m>n. \<not> address_at w m" "out = (format_address (take 12 (drop n w)), True)"
  then have "from \<le> n" using assms(2) by simp
  with n show "(\<exists>n\<ge>from. address_at w n \<and> (\<forall>m>n. \<not> address_at w m) \<and> out = (format_address (take 12 (drop n w)), True)) \<or>
    (\<forall>n\<ge>from. \<not> address_at w n) \<and> out = res" by blast
next
  assume "\<forall>n\<ge>k. \<not> address_at w n" "out = res"
  then show "(\<exists>n\<ge>from. address_at w n \<and> (\<forall>m>n. \<not> address_at w m) \<and> out = (format_address (take 12 (drop n w)), True)) \<or>
    (\<forall>n\<ge>from. \<not> address_at w n) \<and> out = res" using assms(3) by (meson not_le)
qed

lemma last_address_found:
  assumes out: "last_address w k (format_address (take 12 (drop n w)), True) out" and n: "address_at w n" "n < k"
    and skip: "\<And>m. n < m \<Longrightarrow> m < k \<Longrightarrow> \<not> address_at w m"
  shows "last_address w n res out"
proof (cases "\<exists>m \<ge> k. address_at w m")
  case True
  then have "last_address w k res out" using out by (auto simp: last_address_def)
  then obtain m where "k \<le> m" "address_at w m" "\<forall>j>m. \<not> address_at w j" "out = (format_address (take 12 (drop m w)), True)"
    using True unfolding last_address_def by blast
  then show ?thesis using n(2) by (auto intro: last_address_one)
next
  case False
  then have "\<not> address_at w m" if "n < m" for m using that skip by (meson not_le)
  moreover have "out = (format_address (take 12 (drop n w)), True)" using False out unfolding last_address_def by blast
  ultimately show ?thesis using n(1) by (auto intro: last_address_one)
qed

lemma address_at_bound: "address_at w n \<Longrightarrow> n + 12 \<le> length w"
  by (simp add: address_at_def)

lemma scan_address_empty: "scan_address vs b ys 0 res = scan_address vs b [] 0 res"
proof -
  have "scan_address vs b ys 0 res = scan_address vs b zs 0 res" for ys zs
    by (induction vs arbitrary: b res) (auto simp: end_run_def)
  then show ?thesis .
qed

lemmas scan_address_run_empty = scan_address_empty [where ys = "take 12 r" for r]

text \<open>The run that ends with the text, and the run that ends at a character which is no digit.\<close>

lemma last_address_at_end:
  assumes w: "w = p @ r" and r: "list_all hex_digit r" and p: "r \<noteq> [] \<Longrightarrow> outside p" "r \<noteq> [] \<Longrightarrow> p = [] \<or> \<not> hex_digit (last p)"
  shows "last_address w (length p) res (end_run (take 12 r) (length r) res)"
proof -
  have run: "n = length p \<and> length r = 12" if "length p \<le> n" "address_at w n" for n
    using address_in_run [of w p r "[]" n] w r that address_at_bound [OF that(2)] by simp
  show ?thesis
  proof (cases "length r = 12")
    case True
    then have "r \<noteq> []" by auto
    then have a: "address_at w (length p)" "take 12 (drop (length p) w) = r"
      using address_of_run [of w p r "[]"] w r p True by auto
    have "\<not> address_at w m" if "m > length p" for m using run [of m] that by auto
    then show ?thesis using True last_address_one [OF order_refl a(1), of res] a(2) by (simp add: end_run_def)
  next
    case False
    then have "\<not> address_at w n" if "length p \<le> n" for n using run that by blast
    then show ?thesis using False by (simp add: end_run_def last_address_none)
  qed
qed

lemma last_address_run_ends:
  assumes w: "w = p @ r @ v # vs" and r: "list_all hex_digit r" and v: "\<not> brace v" "outside p \<Longrightarrow> \<not> hex_digit v"
    and p: "r \<noteq> [] \<Longrightarrow> outside p" "r \<noteq> [] \<Longrightarrow> p = [] \<or> \<not> hex_digit (last p)"
    and out: "last_address w (length p + length r + 1) (end_run (take 12 r) (length r) res) out"
  shows "last_address w (length p) res out"
proof (cases "length r = 12")
  case True
  then have "r \<noteq> []" by auto
  then have o: "outside p" "\<not> hex_digit v" and l: "p = [] \<or> \<not> hex_digit (last p)" using p v(2) by auto
  have a: "address_at w (length p)" "take 12 (drop (length p) w) = r"
    using address_of_run [OF w r True] o l v by auto
  show ?thesis
  proof (rule last_address_found [where k = "length p + length r + 1"])
    show "\<not> address_at w m" if "length p < m" "m < length p + length r + 1" for m
      using address_in_run [OF w r, of m] that o by auto
  qed (use out a True in \<open>auto simp: end_run_def\<close>)
next
  case False
  then have "last_address w (length p + length r + 1) res out" using out by (simp add: end_run_def)
  then show ?thesis
  proof (rule last_address_skip)
    show "\<not> address_at w n" if n: "length p \<le> n" "n < length p + length r + 1" for n
    proof (cases "outside p")
      case True
      then show ?thesis using address_in_run [OF w r, of n] n v False by auto
    next
      case o: False
      then have "r = []" using p(1) by blast
      then have "n = length p" using n by simp
      then show ?thesis using o by (auto simp: address_at_def w)
    qed
  qed simp
qed

lemma scan_address_last:
  assumes "w = p @ r @ vs" "list_all hex_digit r" "outside p \<longleftrightarrow> \<not> inside" "inside \<Longrightarrow> r = []"
    and "inside \<or> p = [] \<or> \<not> hex_digit (last p)"
  shows "last_address w (length p) res (scan_address vs inside (take 12 r) (length r) res)"
  using assms
proof (induction vs arbitrary: p r inside res)
  case Nil
  then have "last_address w (length p) res (end_run (take 12 r) (length r) res)" by (intro last_address_at_end) auto
  then show ?case by simp
next
  case (Cons v vs)
  let ?p = "p @ r @ [v]"
  have w: "w = ?p @ [] @ vs" using Cons.prems(1) by simp
  have o: "outside ?p \<longleftrightarrow> (if brace v then v = 0x7D else outside p)"
    using outside_simps(2) [of "p @ r" v] outside_simps(3) [OF Cons.prems(2), of p] by simp
  consider (brace) "brace v" | (digit) "\<not> brace v" "\<not> inside" "hex_digit v" | (other) "\<not> brace v" "\<not> (\<not> inside \<and> hex_digit v)"
    by blast
  then show ?case
  proof cases
    case brace
    then have "last_address w (length ?p) res (scan_address vs (v = 0x7B) [] 0 res)"
      using Cons.IH [of ?p "[]" "v = 0x7B" res] w o by (auto simp: brace_def)
    then have "last_address w (length p) res (scan_address vs (v = 0x7B) [] 0 res)"
    proof (rule last_address_skip)
      show "\<not> address_at w n" if "length p \<le> n" "n < length ?p" for n
        using address_in_run [OF Cons.prems(1,2), of n] that brace brace_not_hex [OF brace] by auto
    qed simp
    then show ?thesis using brace by (auto simp: brace_def scan_address_run_empty)
  next
    case digit
    have "last_address w (length p) res (scan_address vs inside (take 12 (r @ [v])) (length (r @ [v])) res)"
      using Cons.prems digit by (intro Cons.IH) auto
    moreover have "(if length r < 12 then take (length r) (take 12 r) @ [v] else take 12 r) = take 12 (r @ [v])"
      by (simp add: min_def)
    ultimately show ?thesis using digit by (simp add: brace_def hex_digit_def)
  next
    case other
    have "last_address w (length ?p) res' (scan_address vs inside [] 0 res')" for res'
      using Cons.IH [of ?p "[]" inside res'] Cons.prems other w o by auto
    then have "last_address w (length p) res (scan_address vs inside [] 0 (end_run (take 12 r) (length r) res))"
      using Cons.prems other by (intro last_address_run_ends [of w p r v vs]) auto
    then show ?thesis using other by (auto simp: brace_def hex_digit_def scan_address_run_empty)
  qed
qed

lemma last_filter_upt:
  assumes "P n" "n < k" "\<And>m. n < m \<Longrightarrow> \<not> P m"
  shows "filter P [0..<k] \<noteq> [] \<and> last (filter P [0..<k]) = n"
proof -
  have "[0..<k] = [0..<n] @ n # [Suc n..<k]" using assms(2) upt_add_eq_append [of 0 n "k - n"] by (simp add: upt_conv_Cons)
  moreover have "filter P [Suc n..<k] = []" using assms(3) by (auto simp: filter_empty_conv)
  ultimately show ?thesis using assms(1) by simp
qed

lemma parse_address_last: "last_address w 0 (zero_address, False) (VdsParseBluetoothAddress w)"
  using scan_address_last [of w "[]" "[]" w False] by (simp add: VdsParseBluetoothAddress_def outside_simps)


lemma parse_address_positions:
  "VdsParseBluetoothAddress w =
     (if addresses w = [] then (zero_address, False)
      else (format_address (take 12 (drop (last (addresses w)) w)), True))"
  using parse_address_last [of w] unfolding last_address_def
proof (elim disjE exE conjE)
  fix n
  assume n: "address_at w n" "\<forall>m>n. \<not> address_at w m"
    "VdsParseBluetoothAddress w = (format_address (take 12 (drop n w)), True)"
  have "n < length w" using address_at_bound [OF n(1)] by simp
  then show ?thesis using last_filter_upt [of "address_at w" n "length w"] n by (simp add: addresses_def)
next
  assume "\<forall>n\<ge>0. \<not> address_at w n" "VdsParseBluetoothAddress w = (zero_address, False)"
  then show ?thesis by (simp add: addresses_def)
qed

lemma addresses_digits:
  assumes "n \<in> set (addresses w)"
  shows "length (take 12 (drop n w)) = 12" "list_all (\<lambda>v. VdsWideHexValue v \<ge> 0) (take 12 (drop n w))"
  using assms by (auto simp: addresses_def address_at_def list_all_length hex_digit_def)

definition hex_char :: "u8 \<Rightarrow> bool" where
  "hex_char c \<longleftrightarrow> (48 \<le> c \<and> c \<le> 57) \<or> (97 \<le> c \<and> c \<le> 102)"

definition mac_text :: "bytes \<Rightarrow> bool" where
  "mac_text a \<longleftrightarrow> length a = 18 \<and> a ! 17 = 0 \<and>
     list_all (\<lambda>k. if k mod 3 = 2 then a ! k = 58 else hex_char (a ! k)) [0..<17]"

lemma hex_digit_cases:
  assumes "VdsWideHexValue v \<ge> 0"
  shows "v \<in> {48,49,50,51,52,53,54,55,56,57,97,98,99,100,101,102,65,66,67,68,69,70}"
proof -
  have digits: "x \<in> {48,49,50,51,52,53,54,55,56,57}" if "48 \<le> x" "x \<le> 57" for x :: int using that by simp presburger
  have lower: "x \<in> {97,98,99,100,101,102}" if "97 \<le> x" "x \<le> 102" for x :: int using that by simp presburger
  have upper: "x \<in> {65,66,67,68,69,70}" if "65 \<le> x" "x \<le> 70" for x :: int using that by simp presburger
  have "(48 \<le> uint v \<and> uint v \<le> 57) \<or> (97 \<le> uint v \<and> uint v \<le> 102) \<or> (65 \<le> uint v \<and> uint v \<le> 70)"
    using assms by (auto simp: VdsWideHexValue_def word_le_def split: if_splits)
  then have "uint v \<in> {48,49,50,51,52,53,54,55,56,57,97,98,99,100,101,102,65,66,67,68,69,70}"
    using digits lower upper by blast
  moreover have "v = word_of_int (uint v)" by simp
  ultimately have "v \<in> word_of_int ` {48,49,50,51,52,53,54,55,56,57,97,98,99,100,101,102,65,66,67,68,69,70}" by (metis imageI)
  then show ?thesis by (simp only: image_insert image_empty of_int_numeral)
qed

lemma hex_digit_elim:
  assumes "VdsWideHexValue v \<ge> 0"
  obtains "v = 48" | "v = 49" | "v = 50" | "v = 51" | "v = 52" | "v = 53" | "v = 54" | "v = 55" | "v = 56" | "v = 57" | "v = 97" | "v = 98" | "v = 99" | "v = 100" | "v = 101" | "v = 102" | "v = 65" | "v = 66" | "v = 67" | "v = 68" | "v = 69" | "v = 70"
  using hex_digit_cases [OF assms] by (auto simp only: insert_iff empty_iff)

lemma hex_char_lower: "VdsWideHexValue v \<ge> 0 \<Longrightarrow> hex_char (VdsLowerHexChar v)"
  by (elim hex_digit_elim) (simp_all add: hex_char_def VdsLowerHexChar_def)

lemma format_address_unfold:
  "format_address run = [VdsLowerHexChar (run ! 0), VdsLowerHexChar (run ! 1), 58,
     VdsLowerHexChar (run ! 2), VdsLowerHexChar (run ! 3), 58, VdsLowerHexChar (run ! 4), VdsLowerHexChar (run ! 5), 58,
     VdsLowerHexChar (run ! 6), VdsLowerHexChar (run ! 7), 58, VdsLowerHexChar (run ! 8), VdsLowerHexChar (run ! 9), 58,
     VdsLowerHexChar (run ! 10), VdsLowerHexChar (run ! 11), 0]"
  by (simp add: format_address_def upt_rec)

lemma format_address_mac:
  assumes "length run = 12" "list_all (\<lambda>v. VdsWideHexValue v \<ge> 0) run"
  shows "mac_text (format_address run)"
proof -
  have "\<And>k. k < 12 \<Longrightarrow> hex_char (VdsLowerHexChar (run ! k))"
    using assms hex_char_lower by (simp add: list_all_length)
  then show ?thesis
    by (simp add: mac_text_def format_address_unfold upt_rec)
qed

lemma hex_char_bounds: "hex_char c \<Longrightarrow> c \<noteq> 0 \<and> c \<noteq> 58"
  by (auto simp: hex_char_def)

lemma mac_text_nonzero: "mac_text a \<Longrightarrow> a ! 0 \<noteq> 0"
  by (auto simp: mac_text_def upt_rec dest: hex_char_bounds)

lemma parse_address_cases:
  "VdsParseBluetoothAddress w = (zero_address, False) \<or>
   (mac_text (fst (VdsParseBluetoothAddress w)) \<and> snd (VdsParseBluetoothAddress w))"
proof (cases "addresses w = []")
  case True
  then show ?thesis by (simp add: parse_address_positions)
next
  case False
  then have "last (addresses w) \<in> set (addresses w)" by simp
  from addresses_digits [OF this] False show ?thesis
    by (simp add: parse_address_positions format_address_mac)
qed

lemma VdsLowerHexChar_wide: "VdsWideHexValue v \<ge> 0 \<Longrightarrow> (ucast (VdsLowerHexChar v) :: u16) = ascii_lower v"
  by (elim hex_digit_elim) (simp_all add: ascii_lower_def VdsLowerHexChar_def)

section \<open>The operations in closed form\<close>

definition change_event :: "NTSTATUS \<Rightarrow> u32 \<Rightarrow> irp \<Rightarrow> io_event" where
  "change_event status g i =
     (if NT_SUCCESS status then Completed (ir_id i) status 16 (change_bytes g) else Completed (ir_id i) status 0 [])"

lemma drain_one_eq:
  "drain_one status g fd =
     (case vds_device_wait_irps fd of [] \<Rightarrow> None
      | i # rest \<Rightarrow> Some (fd\<lparr>vds_device_wait_irps := rest, fd_log := fd_log fd @ [change_event status g i]\<rparr>))"
  by (simp add: drain_one_def VdsWaitQueuePeekNextIrp_def VdsCompleteDeviceChangeIrp_def change_event_def fd_emit_def
      VdsWaitQueueRemoveIrp_def split: list.split)

lemma drain_all:
  "VdsCompleteDeviceWaitQueue status g fd =
     fd\<lparr>vds_device_wait_irps := [], fd_log := fd_log fd @ map (change_event status g) (vds_device_wait_irps fd)\<rparr>"
proof (induction "vds_device_wait_irps fd" arbitrary: fd)
  case Nil
  then show ?case by (subst VdsCompleteDeviceWaitQueue.simps) (simp add: drain_one_eq flip: Nil)
next
  case (Cons i rest)
  then show ?case by (subst VdsCompleteDeviceWaitQueue.simps) (simp add: drain_one_eq flip: Cons(2))
qed

lemma notify_eq:
  "VdsNotifyDeviceListChanged fd =
     fd\<lparr>vds_device_generation := vds_device_generation fd + 1, vds_device_wait_irps := [],
        fd_log := fd_log fd @ map (change_event STATUS_SUCCESS (vds_device_generation fd + 1)) (vds_device_wait_irps fd)\<rparr>"
  by (simp add: VdsNotifyDeviceListChanged_def bump_generation_def drain_all Let_def)

section \<open>Types of extensions\<close>

definition extension_ok :: "VDS_FILTER_EXTENSION \<Rightarrow> bool" where
  "extension_ok x \<longleftrightarrow>
     (fx_address x = zero_address \<or> mac_text (fx_address x)) \<and>
     (fx_profile x = VDS_PROFILE_DS5 \<or> fx_profile x = VDS_PROFILE_DSE) \<and>
     provide_hid_strings x = (product_string x \<noteq> None) \<and>
     (provide_hid_strings x \<longrightarrow> \<not> VdsPhysicalAccessRestricted x) \<and>
     (is_control x \<longrightarrow> \<not> VdsPhysicalAccessRestricted x) \<and>
     (symbolic_link_created x \<longrightarrow> length (symbolic_name x) = 35 \<and> take 23 (symbolic_name x) = filter_link_name [])"

lemma zero_address_nth [simp]: "zero_address ! 0 = 0" "length zero_address = 18"
  by (simp_all add: zero_address_def)

lemma parse_address_ok:
  "fst (VdsParseBluetoothAddress w) = zero_address \<or> mac_text (fst (VdsParseBluetoothAddress w))"
  using parse_address_cases [of w] by auto

lemma profile_reset_sel [simp]:
  "fx_address (profile_reset x) = zero_address" "fx_profile (profile_reset x) = VDS_PROFILE_DS5"
  "provide_hid_strings (profile_reset x) = False" "product_string (profile_reset x) = None"
  "report_target (profile_reset x) = False" "is_control (profile_reset x) = is_control x"
  "symbolic_link_created (profile_reset x) = symbolic_link_created x" "symbolic_name (profile_reset x) = symbolic_name x"
  "listed (profile_reset x) = listed x" "device_name (profile_reset x) = device_name x"
  "lower_device (profile_reset x) = lower_device x"
  by (simp_all add: profile_reset_def)

lemma read_profile_keeps [simp]:
  "is_control (VdsReadPhysicalDeviceProfile q r x) = is_control x"
  "listed (VdsReadPhysicalDeviceProfile q r x) = listed x"
  "symbolic_link_created (VdsReadPhysicalDeviceProfile q r x) = symbolic_link_created x"
  "symbolic_name (VdsReadPhysicalDeviceProfile q r x) = symbolic_name x"
  "device_name (VdsReadPhysicalDeviceProfile q r x) = device_name x"
  "lower_device (VdsReadPhysicalDeviceProfile q r x) = lower_device x"
  by (simp_all add: VdsReadPhysicalDeviceProfile_def Let_def split: option.split)

lemma read_profile_address:
  "fx_address (VdsReadPhysicalDeviceProfile q r x) = zero_address \<or> mac_text (fx_address (VdsReadPhysicalDeviceProfile q r x))"
  using parse_address_ok by (auto simp: VdsReadPhysicalDeviceProfile_def Let_def split: option.split)

lemma read_profile_strings:
  "provide_hid_strings (VdsReadPhysicalDeviceProfile q r x) = (product_string (VdsReadPhysicalDeviceProfile q r x) \<noteq> None)"
  "provide_hid_strings (VdsReadPhysicalDeviceProfile q r x) \<Longrightarrow> \<not> VdsPhysicalAccessRestricted (VdsReadPhysicalDeviceProfile q r x)"
  "fx_profile (VdsReadPhysicalDeviceProfile q r x) = VDS_PROFILE_DS5 \<or> fx_profile (VdsReadPhysicalDeviceProfile q r x) = VDS_PROFILE_DSE"
  by (auto simp: VdsReadPhysicalDeviceProfile_def VdsPhysicalAccessRestricted_def Let_def split: option.splits if_splits)

lemma read_profile_ok:
  "extension_ok x \<Longrightarrow> \<not> is_control x \<Longrightarrow> extension_ok (VdsReadPhysicalDeviceProfile q r x)"
  using read_profile_address [of q r x] read_profile_strings [of q r x] by (simp add: extension_ok_def)

lemma fresh_extension_ok [simp]:
  "extension_ok fresh_extension" "\<not> listed fresh_extension" "\<not> VdsPhysicalAccessRestricted fresh_extension"
  "extension_ok (fresh_extension\<lparr>is_control := True\<rparr>)" "\<not> VdsPhysicalAccessRestricted (fresh_extension\<lparr>is_control := True\<rparr>)"
  "extension_ok (fresh_extension\<lparr>device_name := n\<rparr>)" "\<not> is_control fresh_extension"
  by (simp_all add: extension_ok_def fresh_extension_def VdsPhysicalAccessRestricted_def VDS_PROFILE_DS5_def)

lemma extension_ok_update [simp]:
  "extension_ok (x\<lparr>listed := b\<rparr>) = extension_ok x" "extension_ok (x\<lparr>lower_device := n\<rparr>) = extension_ok x"
  by (simp_all add: extension_ok_def VdsPhysicalAccessRestricted_def)

lemma restricted_update [simp]:
  "VdsPhysicalAccessRestricted (x\<lparr>listed := b\<rparr>) = VdsPhysicalAccessRestricted x"
  "VdsPhysicalAccessRestricted (x\<lparr>lower_device := n\<rparr>) = VdsPhysicalAccessRestricted x"
  "VdsPhysicalAccessRestricted (x\<lparr>symbolic_link_created := c, symbolic_name := w\<rparr>) = VdsPhysicalAccessRestricted x"
  "VdsPhysicalAccessRestricted (x\<lparr>symbolic_link_created := c\<rparr>) = VdsPhysicalAccessRestricted x"
  "VdsPhysicalAccessRestricted (x\<lparr>symbolic_name := w\<rparr>) = VdsPhysicalAccessRestricted x"
  by (simp_all add: VdsPhysicalAccessRestricted_def)

section \<open>The invariant of the driver\<close>

text \<open>
  \<open>R\<close> are the devices whose extension or list entry is being changed: for these alone it is left open whether they
  are listed exactly if they are restricted.
\<close>

definition driver_ok :: "nat set \<Rightarrow> filter_driver \<Rightarrow> bool" where
  "driver_ok R fd \<longleftrightarrow>
     distinct (vds_device_list fd) \<and>
     (\<forall>d. d \<in> set (vds_device_list fd) \<longleftrightarrow> (\<exists>x. fd_devices fd d = Some x \<and> listed x)) \<and>
     (\<forall>d x. fd_devices fd d = Some x \<longrightarrow>
        extension_ok x \<and> (d \<notin> R \<longrightarrow> (listed x \<longleftrightarrow> VdsPhysicalAccessRestricted x)) \<and> (is_control x \<longrightarrow> \<not> listed x) \<and>
        (is_control x \<longleftrightarrow> vds_control_device fd = Some d)) \<and>
     (\<forall>d. vds_control_device fd = Some d \<longrightarrow> d \<in> dom (fd_devices fd))"

text \<open>Parts of the state that the invariant reads.\<close>

lemma driver_ok_cong:
  assumes "fd_devices fd' = fd_devices fd" "vds_device_list fd' = vds_device_list fd"
    "vds_control_device fd' = vds_control_device fd"
  shows "driver_ok R fd' = driver_ok R fd"
  by (simp add: driver_ok_def assms)

lemma driver_ok_mono: "driver_ok R fd \<Longrightarrow> R \<subseteq> R' \<Longrightarrow> driver_ok R' fd"
  by (simp add: driver_ok_def) blast

lemma driver_ok_emit [simp]: "driver_ok R (fd_emit e fd) = driver_ok R fd"
  by (rule driver_ok_cong) (simp_all add: fd_emit_def)

lemma driver_ok_notify [simp]: "driver_ok R (VdsNotifyDeviceListChanged fd) = driver_ok R fd"
  by (rule driver_ok_cong) (simp_all add: notify_eq)

lemma driver_ok_links [simp]: "driver_ok R (fd\<lparr>fd_links := l\<rparr>) = driver_ok R fd"
  by (rule driver_ok_cong) simp_all

lemma driver_ok_instance [simp]: "driver_ok R (fd\<lparr>vds_next_filter_instance := n\<rparr>) = driver_ok R fd"
  by (rule driver_ok_cong) simp_all

lemma driver_ok_complete [simp]: "driver_ok R (snd (VdsCompleteIrp_filter i st fd)) = driver_ok R fd"
  by (simp add: VdsCompleteIrp_filter_def)

lemma driver_ok_change [simp]: "driver_ok R (VdsCompleteDeviceChangeIrp i st g fd) = driver_ok R fd"
  by (simp add: VdsCompleteDeviceChangeIrp_def)

text \<open>
  A device whose extension was replaced is listed again as it should be: the list operation
  restores the invariant from a state that may break it at this one device.
\<close>

lemma driver_ok_put:
  assumes ok: "driver_ok R fd"
    and x: "extension_ok x" "d \<notin> R' \<Longrightarrow> listed x = VdsPhysicalAccessRestricted x" "\<not> is_control x" "vds_control_device fd \<noteq> Some d"
    and R: "R - {d} \<subseteq> R'"
    and l: "distinct l" "\<And>e. e \<in> set l \<longleftrightarrow> (if e = d then listed x else e \<in> set (vds_device_list fd))"
  shows "driver_ok R' (put_extension d x (fd\<lparr>vds_device_list := l\<rparr>))"
  unfolding driver_ok_def put_extension_def
proof (intro conjI allI impI)
  fix e
  show "e \<in> set (vds_device_list (fd\<lparr>vds_device_list := l, fd_devices := (fd_devices (fd\<lparr>vds_device_list := l\<rparr>))(d \<mapsto> x)\<rparr>)) \<longleftrightarrow>
    (\<exists>y. fd_devices (fd\<lparr>vds_device_list := l, fd_devices := (fd_devices (fd\<lparr>vds_device_list := l\<rparr>))(d \<mapsto> x)\<rparr>) e = Some y \<and> listed y)"
    using ok l(2) [of e] by (cases "e = d") (auto simp: driver_ok_def)
next
  fix e y
  assume e: "fd_devices (fd\<lparr>vds_device_list := l, fd_devices := (fd_devices (fd\<lparr>vds_device_list := l\<rparr>))(d \<mapsto> x)\<rparr>) e = Some y" "e \<notin> R'"
  then have "e \<noteq> d \<Longrightarrow> e \<notin> R" using R by blast
  then show "listed y = VdsPhysicalAccessRestricted y" using ok x e by (cases "e = d") (auto simp: driver_ok_def)
qed (use ok x l(1) in \<open>auto simp: driver_ok_def split: if_splits\<close>)

lemma membership_restores:
  assumes ok: "driver_ok R fd"
    and x: "extension_ok x" "\<not> is_control x" "vds_control_device fd \<noteq> Some d"
    and l: "listed x = (d \<in> set (vds_device_list fd))"
  shows "driver_ok (R - {d}) (snd (VdsUpdateDeviceListMembership d (put_extension d x fd)))"
proof -
  have dist: "distinct (vds_device_list fd)" using ok by (simp add: driver_ok_def)
  have eq: "VdsUpdateDeviceListMembership d (put_extension d x fd) =
    (if VdsPhysicalAccessRestricted x \<and> \<not> listed x then
       (True, put_extension d (x\<lparr>listed := True\<rparr>) (fd\<lparr>vds_device_list := vds_device_list fd @ [d]\<rparr>))
     else if \<not> VdsPhysicalAccessRestricted x \<and> listed x then
       (True, put_extension d (x\<lparr>listed := False\<rparr>) (fd\<lparr>vds_device_list := removeAll d (vds_device_list fd)\<rparr>))
     else (False, put_extension d x (fd\<lparr>vds_device_list := vds_device_list fd\<rparr>)))"
    by (simp add: VdsUpdateDeviceListMembership_def put_extension_def VdsPhysicalAccessRestricted_def Let_def)
  have "driver_ok (R - {d}) (put_extension d (x\<lparr>listed := True\<rparr>) (fd\<lparr>vds_device_list := vds_device_list fd @ [d]\<rparr>))"
    if "VdsPhysicalAccessRestricted x" "\<not> listed x"
    by (rule driver_ok_put [OF ok]) (use ok x l that dist in auto)
  moreover have "driver_ok (R - {d}) (put_extension d (x\<lparr>listed := False\<rparr>) (fd\<lparr>vds_device_list := removeAll d (vds_device_list fd)\<rparr>))"
    if "\<not> VdsPhysicalAccessRestricted x" "listed x"
    by (rule driver_ok_put [OF ok]) (use ok x l that dist in \<open>auto simp: distinct_removeAll\<close>)
  moreover have "driver_ok (R - {d}) (put_extension d x (fd\<lparr>vds_device_list := vds_device_list fd\<rparr>))"
    if "VdsPhysicalAccessRestricted x = listed x"
    by (rule driver_ok_put [OF ok]) (use ok x l that dist in auto)
  ultimately show ?thesis unfolding eq by auto
qed

lemma driver_ok_same_shape:
  assumes ok: "driver_ok R fd" and d: "fd_devices fd d = Some x"
    and y: "extension_ok y" "listed y = listed x" "is_control y = is_control x"
      "VdsPhysicalAccessRestricted y = VdsPhysicalAccessRestricted x"
  shows "driver_ok R (put_extension d y fd)"
  using ok d y by (auto simp: driver_ok_def put_extension_def)

lemma length_compact: "length (compact cs n) \<le> n"
  by (induction cs n rule: compact.induct) auto

lemma link_name_shape: "length c = 12 \<Longrightarrow> length (filter_link_name c) = 35 \<and> take 23 (filter_link_name c) = filter_link_name []"
  by (simp add: filter_link_name_def wide_def)

lemma driver_ok_update_link:
  "driver_ok R fd \<Longrightarrow> driver_ok R (VdsUpdateSymbolicLink st d fd)"
proof -
  assume ok: "driver_ok R fd"
  show ?thesis
  proof (cases "fd_devices fd d")
    case None
    with ok show ?thesis by (simp add: VdsUpdateSymbolicLink_def)
  next
    case (Some x)
    then have x: "extension_ok x" using ok by (auto simp: driver_ok_def)
    have put: "driver_ok R (put_extension d y (fd\<lparr>fd_links := l\<rparr>))"
      if "extension_ok y" "listed y = listed x" "is_control y = is_control x"
        "VdsPhysicalAccessRestricted y = VdsPhysicalAccessRestricted x" for y l
      by (rule driver_ok_same_shape) (use ok Some that in auto)
    have "extension_ok (x\<lparr>symbolic_link_created := True, symbolic_name := filter_link_name c\<rparr>)" if "length c = 12" for c
      using x link_name_shape [OF that] by (simp add: extension_ok_def)
    moreover have "extension_ok (x\<lparr>symbolic_name := []\<rparr>)" if "\<not> symbolic_link_created x"
      using x that by (simp add: extension_ok_def)
    ultimately show ?thesis
      using ok put by (simp add: VdsUpdateSymbolicLink_def Some Let_def)
  qed
qed

lemma driver_ok_delete_link: "driver_ok R fd \<Longrightarrow> driver_ok R (VdsDeleteSymbolicLink d fd)"
proof -
  assume ok: "driver_ok R fd"
  show ?thesis
  proof (cases "fd_devices fd d")
    case None
    with ok show ?thesis by (simp add: VdsDeleteSymbolicLink_def)
  next
    case (Some x)
    then have "extension_ok x" using ok by (auto simp: driver_ok_def)
    then have "extension_ok (x\<lparr>symbolic_link_created := False, symbolic_name := []\<rparr>)" by (simp add: extension_ok_def)
    then show ?thesis
      using ok Some driver_ok_same_shape [of R "fd\<lparr>fd_links := l\<rparr>" d x for l]
      by (simp add: VdsDeleteSymbolicLink_def)
  qed
qed

lemma driver_ok_control: "driver_ok R fd \<Longrightarrow> fd_devices fd d = Some x \<Longrightarrow> is_control x = (vds_control_device fd = Some d)"
  by (simp add: driver_ok_def)

lemma driver_ok_listed: "driver_ok R fd \<Longrightarrow> fd_devices fd d = Some x \<Longrightarrow> listed x = (d \<in> set (vds_device_list fd))"
  by (auto simp: driver_ok_def)

lemma driver_ok_ext: "driver_ok R fd \<Longrightarrow> fd_devices fd d = Some x \<Longrightarrow> extension_ok x"
  by (simp add: driver_ok_def)

lemma start_device_ok:
  assumes "driver_ok R fd" "fd_devices fd d = Some x" "\<not> is_control x"
  shows "driver_ok (R - {d}) (start_device env d x fd)"
proof -
  let ?x = "VdsReadPhysicalDeviceProfile (fe_instance env) (fe_parent env) x"
  have "driver_ok (R - {d}) (snd (VdsUpdateDeviceListMembership d (put_extension d ?x fd)))"
  proof (rule membership_restores)
    show "vds_control_device fd \<noteq> Some d" using assms driver_ok_control by blast
    show "listed ?x = (d \<in> set (vds_device_list fd))" using driver_ok_listed [OF assms(1,2)] by simp
  qed (use assms driver_ok_ext read_profile_ok in auto)
  then show ?thesis
    by (auto simp: start_device_def Let_def driver_ok_update_link split: prod.splits)
qed

lemma delete_device_ok:
  assumes "driver_ok R fd" "d \<notin> set (vds_device_list fd)" "vds_control_device fd \<noteq> Some d"
  shows "driver_ok (R - {d}) (IoDeleteDevice d fd)"
proof -
  have "e \<in> set (vds_device_list fd) \<longleftrightarrow> (\<exists>x. ((fd_devices fd)(d := None)) e = Some x \<and> listed x)" for e
    using assms by (auto simp: driver_ok_def)
  with assms show ?thesis
    by (auto simp: driver_ok_def IoDeleteDevice_def)
qed

lemma unlist_device_ok:
  assumes ok: "driver_ok R fd" and d: "fd_devices fd d = Some x" and c: "\<not> is_control x"
  shows "driver_ok R (put_extension d (x\<lparr>listed := False, report_target := False, fx_address := zero_address, provide_hid_strings := False, product_string := None\<rparr>)
     (fd\<lparr>vds_device_list := removeAll d (vds_device_list fd)\<rparr>))"
proof (rule driver_ok_put)
  show "extension_ok (x\<lparr>listed := False, report_target := False, fx_address := zero_address, provide_hid_strings := False, product_string := None\<rparr>)"
    using driver_ok_ext [OF ok d] by (auto simp: extension_ok_def VdsPhysicalAccessRestricted_def)
  show "vds_control_device fd \<noteq> Some d" using assms driver_ok_control by blast
  show "distinct (removeAll d (vds_device_list fd))" using ok by (simp add: driver_ok_def distinct_removeAll)
qed (use assms in \<open>auto simp: VdsPhysicalAccessRestricted_def\<close>)

text \<open>Removal: what the device's extension says no longer matters once the object is gone.\<close>

lemma delete_put [simp]: "IoDeleteDevice d (put_extension d x fd) = IoDeleteDevice d fd"
  by (simp add: IoDeleteDevice_def put_extension_def)

lemma driver_ok_removed:
  assumes ok: "driver_ok R fd" and d: "fd_devices fd d = Some x" and c: "\<not> is_control x"
  shows "driver_ok (R - {d}) (IoDeleteDevice d (fd\<lparr>vds_device_list := removeAll d (vds_device_list fd)\<rparr>))"
proof -
  let ?fd = "put_extension d (x\<lparr>listed := False, report_target := False, fx_address := zero_address, provide_hid_strings := False, product_string := None\<rparr>)
     (fd\<lparr>vds_device_list := removeAll d (vds_device_list fd)\<rparr>)"
  have "driver_ok (R - {d}) (IoDeleteDevice d ?fd)"
    using unlist_device_ok [OF assms] driver_ok_control [OF ok d] c by (intro delete_device_ok) (auto simp: put_extension_def)
  then show ?thesis by (simp only: delete_put)
qed

lemma remove_shape:
  assumes "driver_ok R fd" "fd_devices fd d = Some x"
  shows "fd_devices (IoDeleteDevice d (fd_emit e (VdsDeleteSymbolicLink d (unlist_device d x fd)))) = (fd_devices fd)(d := None)"
    "vds_device_list (IoDeleteDevice d (fd_emit e (VdsDeleteSymbolicLink d (unlist_device d x fd)))) = removeAll d (vds_device_list fd)"
    "vds_control_device (IoDeleteDevice d (fd_emit e (VdsDeleteSymbolicLink d (unlist_device d x fd)))) = vds_control_device fd"
  using driver_ok_listed [OF assms] assms(2)
  by (auto simp: IoDeleteDevice_def fd_emit_def VdsDeleteSymbolicLink_def unlist_device_def unlist_locked_def put_extension_def notify_eq
      split: option.split)

lemma dispatch_ok:
  assumes ok: "driver_ok R fd" and d: "fd_devices fd d = Some x"
  shows "driver_ok R (snd (MajorFunction version env major d x i fd))"
proof -
  have pass: "driver_ok R (snd (VdsPassThrough st x i fd))" for st
    using ok by (simp add: VdsPassThrough_def)
  have string: "driver_ok R (snd (VdsCompleteStringIoctl i s fd))" for s
    using ok by (simp add: VdsCompleteStringIoctl_def Let_def split: option.split)
  have wait: "driver_ok R (snd (wait_device_change i fd))"
    using ok driver_ok_cong [of "fd\<lparr>vds_device_wait_irps := w\<rparr>" fd for w]
    by (auto simp: wait_device_change_def wait_check_def wait_insert_def VdsWaitQueueInsertIrpEx_def
        split: option.split if_splits)
  have start: "driver_ok R (start_device env d x (fd_emit e fd))" if "\<not> is_control x" for e
    by (rule driver_ok_mono [OF start_device_ok [where R = R]]) (use ok d that in \<open>auto simp: fd_emit_def driver_ok_def\<close>)
  have gone: "driver_ok R (IoDeleteDevice d (fd_emit e (VdsDeleteSymbolicLink d (unlist_device d x fd))))" if "\<not> is_control x" for e
    using driver_ok_mono [OF driver_ok_removed [OF ok d that], of R, OF Diff_subset]
    by (rule driver_ok_cong [THEN iffD1, rotated -1]) (simp_all only: remove_shape [OF ok d], simp_all add: IoDeleteDevice_def)
  show ?thesis
  proof (cases major)
    case (IRP_MJ_PNP minor)
    then show ?thesis
      using ok pass start gone by (cases minor) (simp_all add: MajorFunction_def VdsDispatchPnp_def Let_def)
  qed (use ok pass string wait in \<open>simp_all add: MajorFunction_def VdsDispatchCreate_def VdsDispatchClose_def
      VdsDispatchDeviceControl_def VdsDispatchPhysicalDeviceControl_def VdsDispatchPower_def get_driver_info_def get_devices_def\<close>)
qed

lemma add_device_ok:
  assumes ok: "driver_ok R fd" and d: "d \<notin> dom (fd_devices fd)"
  shows "driver_ok R (snd (VdsAddDevice env created d attached fd))"
proof -
  let ?fd = "fd\<lparr>vds_next_filter_instance := vds_next_filter_instance fd + 1\<rparr>"
  let ?x = "VdsReadPhysicalDeviceProfile (fe_instance env) (fe_parent env)
    (fresh_extension\<lparr>device_name := hid_device_name (vds_next_filter_instance fd)\<rparr>)"
  have no: "d \<notin> set (vds_device_list fd)" "vds_control_device fd \<noteq> Some d"
    using assms by (auto simp: driver_ok_def)
  have "driver_ok R (snd (VdsUpdateDeviceListMembership d (put_extension d (?x\<lparr>lower_device := below\<rparr>) ?fd)))" for below
    by (rule driver_ok_mono [OF membership_restores [where R = R]]) (use ok no read_profile_ok in auto)
  moreover have "driver_ok R (IoDeleteDevice d ?fd)"
    by (rule driver_ok_mono [OF delete_device_ok [where R = R]]) (use ok no in auto)
  ultimately show ?thesis
    using ok by (auto simp: VdsAddDevice_def Let_def driver_ok_update_link case_prod_unfold split: option.split)
qed

lemma drain_all_ok [simp]: "driver_ok R (VdsCompleteDeviceWaitQueue st g fd) = driver_ok R fd"
  by (rule driver_ok_cong) (simp_all add: drain_all)

lemma drain_all_control [simp]: "vds_control_device (VdsCompleteDeviceWaitQueue st g fd) = vds_control_device fd"
  by (simp add: drain_all)

lemma unload_ok: "driver_ok R fd \<Longrightarrow> driver_ok R (VdsUnload fd)"
proof -
  assume ok: "driver_ok R fd"
  have "driver_ok R ((IoDeleteDevice d fd')\<lparr>vds_control_device := None\<rparr>)"
    if "driver_ok R fd'" "vds_control_device fd' = Some d" for d fd'
  proof -
    have "\<not> listed x" if "fd_devices fd' d = Some x" for x
      using \<open>driver_ok R fd'\<close> \<open>vds_control_device fd' = Some d\<close> that by (auto simp: driver_ok_def extension_ok_def)
    then have "e \<in> set (vds_device_list fd') \<longleftrightarrow> (\<exists>x. ((fd_devices fd')(d := None)) e = Some x \<and> listed x)" for e
      using \<open>driver_ok R fd'\<close> by (auto simp: driver_ok_def)
    with that show ?thesis
      by (auto simp: driver_ok_def IoDeleteDevice_def)
  qed
  with ok show ?thesis
    by (simp add: VdsUnload_def Let_def split: option.split)
qed

lemma entry_ok:
  assumes "DriverEntry_filter csq created d link (loaded_filter links) = (status, fd)" "NT_SUCCESS status"
  shows "driver_ok R fd" "vds_device_wait_irps fd = []" "fd_log fd = []"
  using assms
  by (auto simp: DriverEntry_filter_def VdsCreateControlDevice_filter_def loaded_filter_def put_extension_def Let_def
      driver_ok_def split: if_splits prod.splits)

section \<open>What becomes of IRPs\<close>

fun answered :: "io_event \<Rightarrow> bool" where
  "answered (Lent _ _) = False"
| "answered _ = True"

text \<open>The IRPs the driver has finished with or keeps in the wait queue.\<close>

definition irps_of :: "filter_driver \<Rightarrow> nat multiset" where
  "irps_of fd = mset (map io_irp (filter answered (fd_log fd))) + mset (map ir_id (vds_device_wait_irps fd))"

lemma change_event_simps [simp]: "answered (change_event st g i)" "io_irp (change_event st g i) = ir_id i"
  by (simp_all add: change_event_def)

lemma filter_change_events [simp]: "filter answered (map (change_event st g) is) = map (change_event st g) is"
  by (induction "is") auto

lemma irps_of_simps [simp]:
  "irps_of (fd_emit e fd) = irps_of fd + (if answered e then {#io_irp e#} else {#})"
  "irps_of (put_extension d x fd) = irps_of fd"
  "irps_of (fd\<lparr>fd_links := l\<rparr>) = irps_of fd"
  "irps_of (fd\<lparr>vds_device_list := ds\<rparr>) = irps_of fd"
  "irps_of (fd\<lparr>vds_next_filter_instance := n\<rparr>) = irps_of fd"
  "irps_of (fd\<lparr>vds_control_device := c\<rparr>) = irps_of fd"
  "irps_of (IoDeleteDevice d fd) = irps_of fd"
  "irps_of (bump_generation fd) = irps_of fd"
  by (simp_all add: irps_of_def fd_emit_def put_extension_def IoDeleteDevice_def bump_generation_def)

lemma irps_of_drain [simp]: "irps_of (VdsCompleteDeviceWaitQueue st g fd) = irps_of fd"
  by (simp add: irps_of_def drain_all o_def)

lemma irps_of_notify [simp]: "irps_of (VdsNotifyDeviceListChanged fd) = irps_of fd"
  by (simp add: VdsNotifyDeviceListChanged_def Let_def)

lemma irps_of_operations [simp]:
  "irps_of (snd (VdsUpdateDeviceListMembership d fd)) = irps_of fd"
  "irps_of (VdsUpdateSymbolicLink st d fd) = irps_of fd"
  "irps_of (VdsDeleteSymbolicLink d fd) = irps_of fd"
  "irps_of (unlist_device d x fd) = irps_of fd"
  "irps_of (snd (VdsCompleteIrp_filter i st fd)) = add_mset (ir_id i) (irps_of fd)"
  "irps_of (VdsCompleteDeviceChangeIrp i st g fd) = add_mset (ir_id i) (irps_of fd)"
  "irps_of (snd (VdsPassThrough lower x i fd)) = add_mset (ir_id i) (irps_of fd)"
  "irps_of (snd (VdsCompleteStringIoctl i s fd)) = add_mset (ir_id i) (irps_of fd)"
  by (simp_all add: VdsUpdateDeviceListMembership_def VdsUpdateSymbolicLink_def VdsDeleteSymbolicLink_def
      unlist_device_def unlist_locked_def VdsCompleteIrp_filter_def VdsCompleteDeviceChangeIrp_def VdsPassThrough_def
      VdsCompleteStringIoctl_def Let_def split: option.split)

lemma irps_of_start [simp]: "irps_of (start_device env d x fd) = irps_of fd"
  by (simp add: start_device_def Let_def case_prod_unfold)

lemma irps_of_insert: "irps_of (snd (wait_insert i fd)) = add_mset (ir_id i) (irps_of fd)"
  by (simp add: wait_insert_def VdsWaitQueueInsertIrpEx_def STATUS_RETRY_def STATUS_SUCCESS_def NT_SUCCESS_def)
    (simp add: irps_of_def)

lemma irps_of_dispatch:
  "irps_of (snd (MajorFunction version env major d x i fd)) = add_mset (ir_id i) (irps_of fd)"
proof -
  have wait: "irps_of (snd (wait_device_change i fd)) = add_mset (ir_id i) (irps_of fd)"
    by (auto simp: wait_device_change_def wait_check_def irps_of_insert split: option.split if_splits)
  show ?thesis
  proof (cases major)
    case (IRP_MJ_PNP minor)
    then show ?thesis by (cases minor) (simp_all add: MajorFunction_def VdsDispatchPnp_def Let_def)
  qed (simp_all add: wait MajorFunction_def VdsDispatchCreate_def VdsDispatchClose_def VdsDispatchDeviceControl_def
      VdsDispatchPhysicalDeviceControl_def VdsDispatchPower_def get_driver_info_def get_devices_def)
qed

section \<open>Waiting IRPs are up to date\<close>

definition fresh_waits :: "filter_driver \<Rightarrow> bool" where
  "fresh_waits fd \<longleftrightarrow> (\<forall>i \<in> set (vds_device_wait_irps fd). irp_generation i = vds_device_generation fd)"

text \<open>An operation leaves queue and generation alone, or empties the queue.\<close>

definition quiet :: "filter_driver \<Rightarrow> filter_driver \<Rightarrow> bool" where
  "quiet fd fd' \<longleftrightarrow> vds_device_wait_irps fd' = [] \<or>
     (vds_device_wait_irps fd' = vds_device_wait_irps fd \<and> vds_device_generation fd' = vds_device_generation fd)"

lemma quiet_fresh: "quiet fd fd' \<Longrightarrow> fresh_waits fd \<Longrightarrow> fresh_waits fd'"
  by (auto simp: quiet_def fresh_waits_def)

lemma quiet_trans [trans]: "quiet a b \<Longrightarrow> quiet b c \<Longrightarrow> quiet a c"
  by (auto simp: quiet_def)

lemma quiet_simps [simp]:
  "quiet fd fd"
  "quiet fd (fd_emit e fd') = quiet fd fd'"
  "quiet fd (put_extension d x fd') = quiet fd fd'"
  "quiet fd (fd'\<lparr>fd_links := l\<rparr>) = quiet fd fd'"
  "quiet fd (fd'\<lparr>vds_device_list := ds\<rparr>) = quiet fd fd'"
  "quiet fd (fd'\<lparr>vds_next_filter_instance := n\<rparr>) = quiet fd fd'"
  "quiet fd (fd'\<lparr>vds_control_device := c\<rparr>) = quiet fd fd'"
  "quiet fd (IoDeleteDevice d fd') = quiet fd fd'"
  "quiet fd (VdsNotifyDeviceListChanged fd')"
  "quiet fd (VdsCompleteDeviceWaitQueue st g fd')"
  by (simp_all add: quiet_def fd_emit_def put_extension_def IoDeleteDevice_def notify_eq drain_all)

lemma quiet_operations [simp]:
  "quiet fd (snd (VdsUpdateDeviceListMembership d fd')) = quiet fd fd'"
  "quiet fd (VdsUpdateSymbolicLink st d fd') = quiet fd fd'"
  "quiet fd (VdsDeleteSymbolicLink d fd') = quiet fd fd'"
  "quiet fd fd' \<Longrightarrow> quiet fd (unlist_device d x fd')"
  "quiet fd (snd (VdsCompleteIrp_filter i st fd')) = quiet fd fd'"
  "quiet fd (VdsCompleteDeviceChangeIrp i st g fd') = quiet fd fd'"
  "quiet fd (snd (VdsPassThrough lower x i fd')) = quiet fd fd'"
  "quiet fd (snd (VdsCompleteStringIoctl i s fd')) = quiet fd fd'"
  by (simp_all add: VdsUpdateDeviceListMembership_def VdsUpdateSymbolicLink_def VdsDeleteSymbolicLink_def
      unlist_device_def unlist_locked_def VdsCompleteIrp_filter_def VdsCompleteDeviceChangeIrp_def VdsPassThrough_def
      VdsCompleteStringIoctl_def Let_def split: option.split)

lemma quiet_start: "quiet fd fd' \<Longrightarrow> quiet fd (start_device env d x fd')"
  by (simp add: start_device_def Let_def case_prod_unfold)

lemma quiet_add: "quiet fd (snd (VdsAddDevice env created d attached fd))"
  by (simp add: VdsAddDevice_def Let_def case_prod_unfold split: option.split)

lemma insert_fresh: "fresh_waits fd \<Longrightarrow> fresh_waits (snd (wait_insert i fd))"
proof -
  assume fresh: "fresh_waits fd"
  show ?thesis
  proof (cases "irp_generation i = vds_device_generation fd")
    case True
    with fresh show ?thesis
      by (auto simp: wait_insert_def VdsWaitQueueInsertIrpEx_def STATUS_RETRY_def STATUS_SUCCESS_def fresh_waits_def NT_SUCCESS_def)
  next
    case False
    have "quiet fd (snd (wait_insert i fd))"
      using False by (simp add: wait_insert_def VdsWaitQueueInsertIrpEx_def)
    then show ?thesis using fresh quiet_fresh by blast
  qed
qed

lemma dispatch_fresh:
  assumes "fresh_waits fd"
  shows "fresh_waits (snd (MajorFunction version env major d x i fd))"
proof -
  have wait: "fresh_waits (snd (wait_device_change i fd))"
    using insert_fresh [OF assms] quiet_fresh [OF _ assms]
    by (auto simp: wait_device_change_def wait_check_def split: option.split if_splits)
  have pnp: "quiet fd (snd (VdsDispatchPnp env minor d x i fd))" for minor
    by (cases minor) (simp_all add: VdsDispatchPnp_def Let_def quiet_start)
  have control: "fresh_waits (snd (VdsDispatchDeviceControl version st x i fd))" for st
    using wait quiet_fresh [OF _ assms]
    by (simp add: VdsDispatchDeviceControl_def VdsDispatchPhysicalDeviceControl_def get_driver_info_def get_devices_def)
  show ?thesis
    using control quiet_fresh [OF _ assms] pnp
    by (cases major) (simp_all add: MajorFunction_def VdsDispatchCreate_def VdsDispatchClose_def
        VdsDispatchPhysicalDeviceControl_def VdsDispatchPower_def)
qed

section \<open>Interleavings\<close>

text \<open>
  The driver with its threads: notifications between the increment of the generation and the
  end of the completion loop, wait requests between the first look at the generation and
  the insertion, and starts, removals and additions of devices between their sections.

  A dispatch routine or \<open>VdsAddDevice\<close> that nothing interrupts is one step. A wait request and a notification may
  also proceed in their single critical sections, and so may the handlers that change a device, with anything in
  between: a start clears the fields of the extension, reads them anew, updates the list under its lock, updates the
  symbolic link, notifies, and completes its IRP; a removal takes the device off the list under the lock, notifies,
  deletes the link, and deletes the device object; an addition creates the device with its fields read, updates the
  list, notifies, and makes the link. The system delivers at most one start, removal or addition per device at a
  time. The single fields of an extension are written together.
\<close>

datatype pnp_step =
    Start_cleared | Start_read | Start_listed bool | Start_linked bool | Start_notified
  | Remove_unlisted bool | Remove_notified | Remove_unlinked
  | Add_attached | Add_listed bool | Add_notified

record pnp_task =
  pt_device :: nat
  pt_irp :: "nat option"
  pt_status :: NTSTATUS
  pt_step :: pnp_step

record filter_sys =
  fs_driver :: filter_driver
  fs_notifiers :: "u32 list"
  fs_checked :: "irp list"
  fs_pnp :: "pnp_task list"
  fs_submitted :: "nat list"

definition notify_begins :: "filter_sys \<Rightarrow> filter_sys" where
  "notify_begins s = s\<lparr>fs_driver := bump_generation (fs_driver s),
     fs_notifiers := fs_notifiers s @ [vds_device_generation (bump_generation (fs_driver s))]\<rparr>"

definition pnp_next :: "pnp_task \<Rightarrow> pnp_step \<Rightarrow> filter_sys \<Rightarrow> filter_sys" where
  "pnp_next t step s = s\<lparr>fs_pnp := remove1 t (fs_pnp s) @ [t\<lparr>pt_step := step\<rparr>]\<rparr>"

definition pnp_done :: "pnp_task \<Rightarrow> filter_sys \<Rightarrow> filter_sys" where
  "pnp_done t s = s\<lparr>fs_pnp := remove1 t (fs_pnp s)\<rparr>"

text \<open>Devices that a start, a removal or an addition is working on.\<close>

definition pnp_devices :: "filter_sys \<Rightarrow> nat set" where
  "pnp_devices s = pt_device ` set (fs_pnp s)"

inductive filter_reach :: "filter_sys \<Rightarrow> bool" where
  Entry: "DriverEntry_filter csq created d link_status (loaded_filter links) = (status, fd) \<Longrightarrow> NT_SUCCESS status \<Longrightarrow>
    filter_reach \<lparr>fs_driver = fd, fs_notifiers = [], fs_checked = [], fs_pnp = [], fs_submitted = []\<rparr>"
| Add_device: "filter_reach s \<Longrightarrow> d \<notin> dom (fd_devices (fs_driver s)) \<Longrightarrow> d \<notin> pnp_devices s \<Longrightarrow>
    filter_reach (s\<lparr>fs_driver := snd (VdsAddDevice env created d attached (fs_driver s))\<rparr>)"
| Dispatch: "filter_reach s \<Longrightarrow> fd_devices (fs_driver s) d = Some x \<Longrightarrow> ir_id i \<notin> set (fs_submitted s) \<Longrightarrow>
    major \<in> {IRP_MJ_PNP IRP_MN_START_DEVICE, IRP_MJ_PNP IRP_MN_REMOVE_DEVICE} \<longrightarrow> d \<notin> pnp_devices s \<Longrightarrow>
    filter_reach (s\<lparr>fs_driver := snd (MajorFunction version env major d x i (fs_driver s)), fs_submitted := fs_submitted s @ [ir_id i]\<rparr>)"
| Start_clears: "filter_reach s \<Longrightarrow> fd_devices (fs_driver s) d = Some x \<Longrightarrow> \<not> is_control x \<Longrightarrow> d \<notin> pnp_devices s \<Longrightarrow>
    n \<notin> set (fs_submitted s) \<Longrightarrow> NT_SUCCESS status \<Longrightarrow>
    filter_reach (s\<lparr>fs_driver := put_extension d (profile_reset x) (fd_emit (Lent (n) (lower_device x)) (fs_driver s)),
      fs_pnp := fs_pnp s @ [\<lparr>pt_device = d, pt_irp = Some (n), pt_status = status, pt_step = Start_cleared\<rparr>],
      fs_submitted := fs_submitted s @ [n]\<rparr>)"
| Start_reads: "filter_reach s \<Longrightarrow> t \<in> set (fs_pnp s) \<Longrightarrow> pt_step t = Start_cleared \<Longrightarrow>
    fd_devices (fs_driver s) (pt_device t) = Some x \<Longrightarrow> \<not> is_control x \<Longrightarrow>
    filter_reach (pnp_next t Start_read (s\<lparr>fs_driver :=
      put_extension (pt_device t) (VdsReadPhysicalDeviceProfile instance_query parent_query x) (fs_driver s)\<rparr>))"
| Start_lists: "filter_reach s \<Longrightarrow> t \<in> set (fs_pnp s) \<Longrightarrow> pt_step t = Start_read \<Longrightarrow>
    fd_devices (fs_driver s) (pt_device t) = Some x \<Longrightarrow> \<not> is_control x \<Longrightarrow>
    VdsUpdateDeviceListMembership (pt_device t) (fs_driver s) = (changed, fd) \<Longrightarrow>
    filter_reach (pnp_next t (Start_listed changed) (s\<lparr>fs_driver := fd\<rparr>))"
| Start_links: "filter_reach s \<Longrightarrow> t \<in> set (fs_pnp s) \<Longrightarrow> pt_step t = Start_listed changed \<Longrightarrow>
    filter_reach (pnp_next t (Start_linked changed) (s\<lparr>fs_driver := VdsUpdateSymbolicLink link_status (pt_device t) (fs_driver s)\<rparr>))"
| Start_notifies: "filter_reach s \<Longrightarrow> t \<in> set (fs_pnp s) \<Longrightarrow> pt_step t = Start_linked changed \<Longrightarrow>
    fd_devices (fs_driver s) (pt_device t) = Some x \<Longrightarrow>
    filter_reach (pnp_next t Start_notified (if changed \<or> listed x then notify_begins s else s))"
| Start_completes: "filter_reach s \<Longrightarrow> t \<in> set (fs_pnp s) \<Longrightarrow> pt_step t = Start_notified \<Longrightarrow> pt_irp t = Some i \<Longrightarrow>
    filter_reach (pnp_done t (s\<lparr>fs_driver := fd_emit (Completed i (pt_status t) 0 []) (fs_driver s)\<rparr>))"
| Remove_unlists: "filter_reach s \<Longrightarrow> fd_devices (fs_driver s) d = Some x \<Longrightarrow> \<not> is_control x \<Longrightarrow> d \<notin> pnp_devices s \<Longrightarrow>
    n \<notin> set (fs_submitted s) \<Longrightarrow>
    filter_reach (s\<lparr>fs_driver := unlist_locked d x (fs_driver s),
      fs_pnp := fs_pnp s @ [\<lparr>pt_device = d, pt_irp = Some (n), pt_status = status, pt_step = Remove_unlisted (listed x)\<rparr>],
      fs_submitted := fs_submitted s @ [n]\<rparr>)"
| Remove_notifies: "filter_reach s \<Longrightarrow> t \<in> set (fs_pnp s) \<Longrightarrow> pt_step t = Remove_unlisted was_listed \<Longrightarrow>
    filter_reach (pnp_next t Remove_notified (if was_listed then notify_begins s else s))"
| Remove_unlinks: "filter_reach s \<Longrightarrow> t \<in> set (fs_pnp s) \<Longrightarrow> pt_step t = Remove_notified \<Longrightarrow>
    filter_reach (pnp_next t Remove_unlinked (s\<lparr>fs_driver := VdsDeleteSymbolicLink (pt_device t) (fs_driver s)\<rparr>))"
| Remove_completes: "filter_reach s \<Longrightarrow> t \<in> set (fs_pnp s) \<Longrightarrow> pt_step t = Remove_unlinked \<Longrightarrow> pt_irp t = Some i \<Longrightarrow>
    fd_devices (fs_driver s) (pt_device t) = Some x \<Longrightarrow> \<not> is_control x \<Longrightarrow>
    filter_reach (pnp_done t (s\<lparr>fs_driver := fd_emit (Completed i (pt_status t) 0 [])
      (IoDeleteDevice (pt_device t) (fd_emit (Lent i (lower_device x)) (fs_driver s)))\<rparr>))"
| Add_attaches: "filter_reach s \<Longrightarrow> d \<notin> dom (fd_devices (fs_driver s)) \<Longrightarrow> d \<notin> pnp_devices s \<Longrightarrow>
    x = VdsReadPhysicalDeviceProfile instance_query parent_query
      (fresh_extension\<lparr>device_name := hid_device_name (vds_next_filter_instance (fs_driver s))\<rparr>) \<Longrightarrow>
    filter_reach (s\<lparr>fs_driver := put_extension d (x\<lparr>lower_device := below\<rparr>)
        ((fs_driver s)\<lparr>vds_next_filter_instance := vds_next_filter_instance (fs_driver s) + 1\<rparr>),
      fs_pnp := fs_pnp s @ [\<lparr>pt_device = d, pt_irp = None, pt_status = STATUS_SUCCESS, pt_step = Add_attached\<rparr>]\<rparr>)"
| Add_lists: "filter_reach s \<Longrightarrow> t \<in> set (fs_pnp s) \<Longrightarrow> pt_step t = Add_attached \<Longrightarrow>
    fd_devices (fs_driver s) (pt_device t) = Some x \<Longrightarrow> \<not> is_control x \<Longrightarrow>
    VdsUpdateDeviceListMembership (pt_device t) (fs_driver s) = (changed, fd) \<Longrightarrow>
    filter_reach (pnp_next t (Add_listed changed) (s\<lparr>fs_driver := fd\<rparr>))"
| Add_notifies: "filter_reach s \<Longrightarrow> t \<in> set (fs_pnp s) \<Longrightarrow> pt_step t = Add_listed changed \<Longrightarrow>
    filter_reach (pnp_next t Add_notified (if changed then notify_begins s else s))"
| Add_links: "filter_reach s \<Longrightarrow> t \<in> set (fs_pnp s) \<Longrightarrow> pt_step t = Add_notified \<Longrightarrow> pt_irp t = None \<Longrightarrow>
    filter_reach (pnp_done t (s\<lparr>fs_driver := VdsUpdateSymbolicLink link_status (pt_device t) (fs_driver s)\<rparr>))"
| Wait_check: "filter_reach s \<Longrightarrow> ir_id i \<notin> set (fs_submitted s) \<Longrightarrow> wait_check i (fs_driver s) = None \<Longrightarrow>
    filter_reach (s\<lparr>fs_checked := fs_checked s @ [i], fs_submitted := fs_submitted s @ [ir_id i]\<rparr>)"
| Wait_insert: "filter_reach s \<Longrightarrow> i \<in> set (fs_checked s) \<Longrightarrow>
    filter_reach (s\<lparr>fs_driver := snd (wait_insert i (fs_driver s)), fs_checked := remove1 i (fs_checked s)\<rparr>)"
| Notify: "filter_reach s \<Longrightarrow> filter_reach (notify_begins s)"
| Drain: "filter_reach s \<Longrightarrow> g \<in> set (fs_notifiers s) \<Longrightarrow> drain_one STATUS_SUCCESS g (fs_driver s) = Some fd \<Longrightarrow>
    filter_reach (s\<lparr>fs_driver := fd\<rparr>)"
| Drained: "filter_reach s \<Longrightarrow> g \<in> set (fs_notifiers s) \<Longrightarrow> drain_one STATUS_SUCCESS g (fs_driver s) = None \<Longrightarrow>
    filter_reach (s\<lparr>fs_notifiers := remove1 g (fs_notifiers s)\<rparr>)"
| Cancel: "filter_reach s \<Longrightarrow> i \<in> set (vds_device_wait_irps (fs_driver s)) \<Longrightarrow>
    filter_reach (s\<lparr>fs_driver := VdsWaitQueueCompleteCanceledIrp i (VdsWaitQueueRemoveIrp i (fs_driver s))\<rparr>)"
| Unload: "filter_reach s \<Longrightarrow> filter_reach (s\<lparr>fs_driver := VdsUnload (fs_driver s)\<rparr>)"

text \<open>The steps at which the extension or the list entry of the device is not yet, or no longer, settled.\<close>

fun removing :: "pnp_step \<Rightarrow> bool" where
  "removing (Remove_unlisted b) = True"
| "removing Remove_notified = True"
| "removing Remove_unlinked = True"
| "removing step = False"

definition unsettled :: "pnp_step \<Rightarrow> bool" where
  "unsettled step \<longleftrightarrow> step = Start_cleared \<or> step = Start_read \<or> step = Add_attached \<or> removing step"

definition changing_of :: "pnp_task list \<Rightarrow> nat set" where
  "changing_of ps = pt_device ` {t \<in> set ps. unsettled (pt_step t)}"

definition changing :: "filter_sys \<Rightarrow> nat set" where
  "changing s = changing_of (fs_pnp s)"

definition task_irps :: "pnp_task \<Rightarrow> nat list" where
  "task_irps t = (case pt_irp t of None \<Rightarrow> [] | Some i \<Rightarrow> [i])"

definition pnp_irps :: "filter_sys \<Rightarrow> nat list" where
  "pnp_irps s = concat (map task_irps (fs_pnp s))"

text \<open>One task per device, and a device that is being removed stays off the list.\<close>

definition tasks_ok :: "pnp_task list \<Rightarrow> nat set \<Rightarrow> bool" where
  "tasks_ok ps L \<longleftrightarrow> distinct (map pt_device ps) \<and> (\<forall>t \<in> set ps. removing (pt_step t) \<longrightarrow> pt_device t \<notin> L)"

definition sys_ok :: "filter_sys \<Rightarrow> bool" where
  "sys_ok s \<longleftrightarrow> driver_ok (changing s) (fs_driver s) \<and> tasks_ok (fs_pnp s) (set (vds_device_list (fs_driver s))) \<and>
     (fs_notifiers s = [] \<longrightarrow> fresh_waits (fs_driver s)) \<and>
     mset (fs_submitted s) = irps_of (fs_driver s) + mset (map ir_id (fs_checked s)) + mset (pnp_irps s) \<and> distinct (fs_submitted s)"

lemma fs_sel [simp]:
  "fs_driver (pnp_next t st s) = fs_driver s" "fs_notifiers (pnp_next t st s) = fs_notifiers s"
  "fs_checked (pnp_next t st s) = fs_checked s" "fs_submitted (pnp_next t st s) = fs_submitted s"
  "fs_pnp (pnp_next t st s) = remove1 t (fs_pnp s) @ [t\<lparr>pt_step := st\<rparr>]"
  "fs_driver (pnp_done t s) = fs_driver s" "fs_notifiers (pnp_done t s) = fs_notifiers s"
  "fs_checked (pnp_done t s) = fs_checked s" "fs_submitted (pnp_done t s) = fs_submitted s"
  "fs_pnp (pnp_done t s) = remove1 t (fs_pnp s)"
  "fs_driver (notify_begins s) = bump_generation (fs_driver s)" "fs_notifiers (notify_begins s) \<noteq> []"
  "fs_checked (notify_begins s) = fs_checked s" "fs_submitted (notify_begins s) = fs_submitted s"
  "fs_pnp (notify_begins s) = fs_pnp s"
  by (simp_all add: pnp_next_def pnp_done_def notify_begins_def)

lemma changing_append [simp]:
  "changing_of (ps @ qs) = changing_of ps \<union> changing_of qs" "changing_of [] = {}"
  "changing_of [t] = (if unsettled (pt_step t) then {pt_device t} else {})"
  by (auto simp: changing_of_def)

lemma changing_remove:
  "changing_of ps - {pt_device t} \<subseteq> changing_of (remove1 t ps)"
  "\<not> unsettled (pt_step t) \<Longrightarrow> changing_of ps \<subseteq> changing_of (remove1 t ps)"
proof -
  have keep: "pt_device u \<in> changing_of (remove1 t ps)" if "u \<in> set ps" "unsettled (pt_step u)" "u \<noteq> t" for u
    using that unfolding changing_of_def by (intro imageI) (simp add: in_set_remove1)
  show "changing_of ps - {pt_device t} \<subseteq> changing_of (remove1 t ps)"
    using keep by (subst changing_of_def) blast
  show "changing_of ps \<subseteq> changing_of (remove1 t ps)" if "\<not> unsettled (pt_step t)"
    using keep that by (subst changing_of_def) blast
qed

lemma tasks_ok_list: "\<lbrakk>tasks_ok ps L; \<forall>d \<in> L'. d \<in> L \<or> d \<notin> pt_device ` set ps\<rbrakk> \<Longrightarrow> tasks_ok ps L'"
  by (auto simp: tasks_ok_def)

lemma tasks_ok_subset: "\<lbrakk>tasks_ok ps L; L' \<subseteq> L\<rbrakk> \<Longrightarrow> tasks_ok ps L'"
  by (auto simp: tasks_ok_def)

lemma tasks_ok_add:
  "\<lbrakk>tasks_ok ps L; pt_device t \<notin> pt_device ` set ps; removing (pt_step t) \<longrightarrow> pt_device t \<notin> L'; L' \<subseteq> L\<rbrakk> \<Longrightarrow> tasks_ok (ps @ [t]) L'"
  by (auto simp: tasks_ok_def)

lemma tasks_ok_remove:
  assumes "tasks_ok ps L" "t \<in> set ps" "\<forall>d \<in> L'. d \<in> L \<or> d = pt_device t"
  shows "tasks_ok (remove1 t ps) L'" "pt_device t \<notin> pt_device ` set (remove1 t ps)"
proof -
  obtain xs ys where ps: "ps = xs @ t # ys" "t \<notin> set xs" using split_list_first [OF assms(2)] by blast
  then have r: "remove1 t ps = xs @ ys" by (simp add: remove1_append)
  show *: "pt_device t \<notin> pt_device ` set (remove1 t ps)" unfolding r using assms(1) by (auto simp: ps(1) tasks_ok_def)
  have "pt_device u \<notin> L'" if "u \<in> set (remove1 t ps)" "removing (pt_step u)" for u
  proof -
    have "pt_device u \<notin> L" using assms(1) that set_remove1_subset [of t ps] by (auto simp: tasks_ok_def)
    moreover have "pt_device u \<noteq> pt_device t" using that(1) * by (metis imageI)
    ultimately show ?thesis using assms(3) by blast
  qed
  moreover have "distinct (map pt_device (remove1 t ps))" unfolding r using assms(1) by (auto simp: ps(1) tasks_ok_def)
  ultimately show "tasks_ok (remove1 t ps) L'" by (simp add: tasks_ok_def)
qed

lemma tasks_ok_next:
  assumes "tasks_ok ps L" "t \<in> set ps" "\<forall>d \<in> L'. d \<in> L \<or> (d = pt_device t \<and> \<not> removing st)"
    and "removing st \<longrightarrow> removing (pt_step t)"
  shows "tasks_ok (remove1 t ps @ [t\<lparr>pt_step := st\<rparr>]) L'"
proof -
  have r: "tasks_ok (remove1 t ps) L'" "pt_device t \<notin> pt_device ` set (remove1 t ps)"
    using tasks_ok_remove [OF assms(1,2), of L'] assms(3) by blast+
  moreover have "removing st \<longrightarrow> pt_device t \<notin> L'" using assms by (auto simp: tasks_ok_def)
  ultimately show ?thesis by (intro tasks_ok_add [of _ L']) auto
qed

lemma irps_remove:
  "t \<in> set ps \<Longrightarrow> mset (concat (map task_irps ps)) = mset (task_irps t) + mset (concat (map task_irps (remove1 t ps)))"
  by (induction ps) auto

lemma task_irps_sel [simp]:
  "task_irps (t\<lparr>pt_step := st\<rparr>) = task_irps t" "task_irps \<lparr>pt_device = d, pt_irp = None, pt_status = status, pt_step = st\<rparr> = []"
  "task_irps \<lparr>pt_device = d, pt_irp = Some n, pt_status = status, pt_step = st\<rparr> = [n]"
  by (simp_all add: task_irps_def)

lemma unsettled_simps [simp]:
  "unsettled Start_cleared" "unsettled Start_read" "unsettled Add_attached" "\<not> unsettled (Start_listed b)" "\<not> unsettled (Start_linked b)"
  "\<not> unsettled Start_notified" "\<not> unsettled (Add_listed b)" "\<not> unsettled Add_notified" "unsettled (Remove_unlisted b)"
  "unsettled Remove_notified" "unsettled Remove_unlinked"
  by (simp_all add: unsettled_def)

lemma driver_ok_wait [simp]: "driver_ok R (fd\<lparr>vds_device_wait_irps := w\<rparr>) = driver_ok R fd"
  by (rule driver_ok_cong) simp_all

lemma driver_ok_bump [simp]: "driver_ok R (bump_generation fd) = driver_ok R fd"
  by (rule driver_ok_cong) (simp_all add: bump_generation_def)

lemma driver_ok_insert [simp]: "driver_ok R (snd (wait_insert i fd)) = driver_ok R fd"
  by (simp add: wait_insert_def VdsWaitQueueInsertIrpEx_def STATUS_RETRY_def STATUS_SUCCESS_def NT_SUCCESS_def)

lemma mset_ids_remove1:
  "i \<in> set is \<Longrightarrow> add_mset (ir_id i) (image_mset ir_id (mset is - {#i#})) = image_mset ir_id (mset is)"
  by (metis image_mset_add_mset insert_DiffM set_mset_mset)

lemma drain_one_Some:
  assumes "drain_one STATUS_SUCCESS g fd = Some fd'"
  shows "driver_ok R fd' = driver_ok R fd" "irps_of fd' = irps_of fd" "fresh_waits fd \<Longrightarrow> fresh_waits fd'"
    "vds_device_list fd' = vds_device_list fd"
proof -
  obtain i rest where e: "vds_device_wait_irps fd = i # rest"
    "fd' = fd\<lparr>vds_device_wait_irps := rest, fd_log := fd_log fd @ [change_event STATUS_SUCCESS g i]\<rparr>"
    using assms by (auto simp: drain_one_eq split: list.splits)
  show "driver_ok R fd' = driver_ok R fd" by (rule driver_ok_cong) (simp_all add: e)
  show "irps_of fd' = irps_of fd" by (simp add: irps_of_def e)
  show "fresh_waits fd \<Longrightarrow> fresh_waits fd'" by (simp add: fresh_waits_def e)
  show "vds_device_list fd' = vds_device_list fd" by (simp add: e)
qed

lemma cancel_facts:
  assumes "i \<in> set (vds_device_wait_irps fd)"
  shows "irps_of (VdsWaitQueueCompleteCanceledIrp i (VdsWaitQueueRemoveIrp i fd)) = irps_of fd"
    "fresh_waits fd \<Longrightarrow> fresh_waits (VdsWaitQueueCompleteCanceledIrp i (VdsWaitQueueRemoveIrp i fd))"
  using set_remove1_subset [of i "vds_device_wait_irps fd"] mset_ids_remove1 [OF assms]
  by (auto simp: VdsWaitQueueCompleteCanceledIrp_def VdsWaitQueueRemoveIrp_def irps_of_def
      VdsCompleteDeviceChangeIrp_def fresh_waits_def fd_emit_def)

lemma driver_ok_cancel [simp]: "driver_ok R (VdsWaitQueueCompleteCanceledIrp i (VdsWaitQueueRemoveIrp i fd)) = driver_ok R fd"
  by (simp add: VdsWaitQueueCompleteCanceledIrp_def VdsWaitQueueRemoveIrp_def)

lemma device_lists [simp]:
  "vds_device_list (fd_emit e fd) = vds_device_list fd" "vds_device_list (put_extension d x fd) = vds_device_list fd"
  "vds_device_list (IoDeleteDevice d fd) = vds_device_list fd" "vds_device_list (bump_generation fd) = vds_device_list fd"
  "vds_device_list (VdsUpdateSymbolicLink st d fd) = vds_device_list fd" "vds_device_list (VdsDeleteSymbolicLink d fd) = vds_device_list fd"
  "vds_device_list (VdsNotifyDeviceListChanged fd) = vds_device_list fd"
  "vds_device_list (VdsCompleteDeviceWaitQueue status g fd) = vds_device_list fd"
  "vds_device_list (snd (wait_insert i fd)) = vds_device_list fd" "vds_device_list (VdsUnload fd) = vds_device_list fd"
  "vds_device_list (VdsWaitQueueCompleteCanceledIrp i (VdsWaitQueueRemoveIrp i fd)) = vds_device_list fd"
  by (auto simp: fd_emit_def put_extension_def IoDeleteDevice_def bump_generation_def VdsUpdateSymbolicLink_def Let_def
      VdsDeleteSymbolicLink_def notify_eq drain_all wait_insert_def VdsWaitQueueInsertIrpEx_def VdsUnload_def STATUS_RETRY_def
      STATUS_SUCCESS_def VdsWaitQueueCompleteCanceledIrp_def VdsWaitQueueRemoveIrp_def VdsCompleteDeviceChangeIrp_def NT_SUCCESS_def
      split: option.split)

lemma emit_control: "vds_control_device (fd_emit e fd) = vds_control_device fd"
  by (simp add: fd_emit_def)

lemma membership_list: "set (vds_device_list (snd (VdsUpdateDeviceListMembership d fd))) \<subseteq> insert d (set (vds_device_list fd))"
  by (auto simp: VdsUpdateDeviceListMembership_def Let_def split: option.splits)

lemma unlist_list: "set (vds_device_list (unlist_locked d x fd)) \<subseteq> set (vds_device_list fd)"
  by (auto simp: unlist_locked_def)

lemma add_list: "set (vds_device_list (snd (VdsAddDevice env created d attached fd))) \<subseteq> insert d (set (vds_device_list fd))"
  using membership_list [of d "put_extension d x (fd\<lparr>vds_next_filter_instance := n\<rparr>)" for x n]
  by (auto simp: VdsAddDevice_def Let_def case_prod_unfold split: option.split)

lemma dispatch_list:
  "set (vds_device_list (snd (MajorFunction version env major d x i fd))) \<subseteq>
     (if major = IRP_MJ_PNP IRP_MN_START_DEVICE then insert d else id) (set (vds_device_list fd))"
proof -
  have pass: "vds_device_list (snd (VdsPassThrough st x i fd)) = vds_device_list fd" for st
    by (simp add: VdsPassThrough_def VdsCompleteIrp_filter_def)
  have string: "vds_device_list (snd (VdsCompleteStringIoctl i s fd)) = vds_device_list fd" for s
    by (simp add: VdsCompleteIrp_filter_def VdsCompleteStringIoctl_def Let_def split: option.split)
  have complete: "vds_device_list (snd (VdsCompleteIrp_filter i st fd)) = vds_device_list fd" for st
    by (simp add: VdsCompleteIrp_filter_def)
  have wait: "vds_device_list (snd (wait_device_change i fd)) = vds_device_list fd"
    by (auto simp: wait_device_change_def wait_check_def VdsCompleteIrp_filter_def VdsCompleteDeviceChangeIrp_def split: option.split if_splits)
  have start: "set (vds_device_list (start_device env d x (fd_emit e fd))) \<subseteq> insert d (set (vds_device_list fd))" for e
    using membership_list [of d "put_extension d y (fd_emit e fd)" for y] by (simp add: start_device_def Let_def case_prod_unfold)
  have gone: "set (vds_device_list (unlist_device d x fd)) \<subseteq> set (vds_device_list fd)"
    using unlist_list [of d x fd] by (simp add: unlist_device_def)
  show ?thesis
  proof (cases major)
    case (IRP_MJ_PNP minor)
    then show ?thesis using start gone
      by (cases minor) (auto simp: MajorFunction_def VdsDispatchPnp_def Let_def pass complete)
  qed (simp_all add: MajorFunction_def VdsDispatchCreate_def VdsDispatchClose_def VdsDispatchDeviceControl_def
      VdsDispatchPhysicalDeviceControl_def VdsDispatchPower_def get_driver_info_def get_devices_def pass string complete wait)
qed

text \<open>What the single sections of a start, a removal and an addition keep.\<close>

lemma driver_ok_extension:
  assumes ok: "driver_ok R fd" and d: "fd_devices fd d = Some x" "\<not> is_control x"
    and y: "extension_ok y" "listed y = listed x" "is_control y = is_control x"
  shows "driver_ok (insert d R) (put_extension d y fd)"
proof -
  have "driver_ok (insert d R) (put_extension d y (fd\<lparr>vds_device_list := vds_device_list fd\<rparr>))"
    by (rule driver_ok_put [OF ok]) (use ok d y in \<open>auto simp: driver_ok_def\<close>)
  then show ?thesis by simp
qed

lemma profile_reset_ok: "\<lbrakk>extension_ok x; \<not> is_control x\<rbrakk> \<Longrightarrow> extension_ok (profile_reset x)"
  by (simp add: extension_ok_def VdsPhysicalAccessRestricted_def)

lemma membership_section:
  assumes ok: "driver_ok R fd" and d: "fd_devices fd d = Some x" "\<not> is_control x"
    and m: "VdsUpdateDeviceListMembership d fd = (changed, fd')"
  shows "driver_ok (R - {d}) fd'"
proof -
  have p: "put_extension d x fd = fd" using d(1) by (simp add: put_extension_def fun_upd_idem)
  have "driver_ok (R - {d}) (snd (VdsUpdateDeviceListMembership d (put_extension d x fd)))"
    by (rule membership_restores [OF ok]) (use ok d driver_ok_ext driver_ok_control driver_ok_listed in auto)
  then show ?thesis by (simp add: p m)
qed

lemma unlist_section:
  assumes ok: "driver_ok R fd" and d: "fd_devices fd d = Some x" "\<not> is_control x"
  shows "driver_ok (insert d R) (unlist_locked d x fd)" "d \<notin> set (vds_device_list (unlist_locked d x fd))"
proof -
  have "driver_ok (insert d R) (put_extension d (x\<lparr>listed := False\<rparr>) (fd\<lparr>vds_device_list := removeAll d (vds_device_list fd)\<rparr>))"
    by (rule driver_ok_put [OF ok]) (use ok d driver_ok_ext [OF ok d(1)] driver_ok_control [OF ok d(1)] in
        \<open>auto simp: driver_ok_def distinct_removeAll\<close>)
  then show "driver_ok (insert d R) (unlist_locked d x fd)"
    using driver_ok_mono [OF ok subset_insertI] by (simp add: unlist_locked_def)
  show "d \<notin> set (vds_device_list (unlist_locked d x fd))"
    using driver_ok_listed [OF ok d(1)] by (simp add: unlist_locked_def)
qed

lemma attach_section:
  assumes ok: "driver_ok R fd" and d: "d \<notin> dom (fd_devices fd)" and x: "extension_ok x" "\<not> is_control x" "\<not> listed x"
  shows "driver_ok (insert d R) (put_extension d x (fd\<lparr>vds_next_filter_instance := n\<rparr>))"
proof -
  have "driver_ok (insert d R) (put_extension d x (fd\<lparr>vds_next_filter_instance := n, vds_device_list := vds_device_list fd\<rparr>))"
    by (rule driver_ok_put [of R "fd\<lparr>vds_next_filter_instance := n\<rparr>", simplified])
      (use assms in \<open>auto simp: driver_ok_def\<close>)
  then show ?thesis by simp
qed

lemma quiet_sections [simp]:
  "quiet fd (unlist_locked d x fd') = quiet fd fd'" "quiet fd (VdsDeleteSymbolicLink d fd') = quiet fd fd'"
  by (simp_all add: unlist_locked_def)

lemma irps_of_unlist [simp]: "irps_of (unlist_locked d x fd) = irps_of fd"
  by (simp add: unlist_locked_def)

lemma sys_ok_next:
  assumes s: "sys_ok s" and t: "t \<in> set (fs_pnp s)"
    and fd: "driver_ok (changing s - {pt_device t}) fd \<or> (driver_ok (changing s) fd \<and> (unsettled (pt_step t) \<longrightarrow> unsettled st))"
      "quiet (fs_driver s) fd" "irps_of fd = irps_of (fs_driver s)"
    and L: "\<forall>d \<in> set (vds_device_list fd). d \<in> set (vds_device_list (fs_driver s)) \<or> (d = pt_device t \<and> \<not> removing st)"
      "removing st \<longrightarrow> removing (pt_step t)"
  shows "sys_ok (pnp_next t st (s\<lparr>fs_driver := fd\<rparr>))"
proof -
  have "changing s - {pt_device t} \<subseteq> changing_of (remove1 t (fs_pnp s) @ [t\<lparr>pt_step := st\<rparr>])"
    using changing_remove(1) [where ps = "fs_pnp s" and t = t] by (auto simp: changing_def)
  moreover have "changing s \<subseteq> changing_of (remove1 t (fs_pnp s) @ [t\<lparr>pt_step := st\<rparr>])" if "unsettled (pt_step t) \<longrightarrow> unsettled st"
    using that changing_remove [where ps = "fs_pnp s" and t = t] by (cases "unsettled (pt_step t)") (auto simp: changing_def)
  ultimately have "driver_ok (changing_of (remove1 t (fs_pnp s) @ [t\<lparr>pt_step := st\<rparr>])) fd"
    using fd(1) driver_ok_mono by blast
  moreover have "tasks_ok (remove1 t (fs_pnp s) @ [t\<lparr>pt_step := st\<rparr>]) (set (vds_device_list fd))"
    using s t L by (intro tasks_ok_next) (auto simp: sys_ok_def)
  ultimately show ?thesis
    using s irps_remove [OF t] fd(2,3) quiet_fresh by (simp add: sys_ok_def changing_def pnp_irps_def)
qed

lemma sys_ok_done:
  assumes s: "sys_ok s" and t: "t \<in> set (fs_pnp s)"
    and fd: "driver_ok (changing s - {pt_device t}) fd \<or> (driver_ok (changing s) fd \<and> \<not> unsettled (pt_step t))"
      "quiet (fs_driver s) fd" "irps_of fd = irps_of (fs_driver s) + mset (task_irps t)"
    and L: "set (vds_device_list fd) \<subseteq> set (vds_device_list (fs_driver s))"
  shows "sys_ok (pnp_done t (s\<lparr>fs_driver := fd\<rparr>))"
proof -
  have "driver_ok (changing_of (remove1 t (fs_pnp s))) fd"
    using fd(1) driver_ok_mono changing_remove [where ps = "fs_pnp s" and t = t] by (auto simp: changing_def)
  moreover have "tasks_ok (remove1 t (fs_pnp s)) (set (vds_device_list fd))"
    using s t L by (intro tasks_ok_remove(1)) (auto simp: sys_ok_def)
  ultimately show ?thesis
    using s irps_remove [OF t] fd(2,3) quiet_fresh by (simp add: sys_ok_def changing_def pnp_irps_def)
qed

lemma sys_ok_new:
  assumes s: "sys_ok s" and t: "pt_device t \<notin> pnp_devices s" "unsettled (pt_step t)" "set (task_irps t) \<inter> set (fs_submitted s) = {}"
    and fd: "driver_ok (insert (pt_device t) (changing s)) fd" "quiet (fs_driver s) fd" "irps_of fd = irps_of (fs_driver s)"
    and L: "set (vds_device_list fd) \<subseteq> set (vds_device_list (fs_driver s))" "removing (pt_step t) \<longrightarrow> pt_device t \<notin> set (vds_device_list fd)"
  shows "sys_ok (s\<lparr>fs_driver := fd, fs_pnp := fs_pnp s @ [t], fs_submitted := fs_submitted s @ task_irps t\<rparr>)"
proof -
  have "tasks_ok (fs_pnp s @ [t]) (set (vds_device_list fd))"
    using s t L by (intro tasks_ok_add) (auto simp: sys_ok_def pnp_devices_def)
  moreover have "distinct (task_irps t)" by (simp add: task_irps_def split: option.split)
  ultimately show ?thesis
    using s t fd quiet_fresh by (auto simp: sys_ok_def changing_def pnp_irps_def Un_commute [of "changing_of (fs_pnp s)"])
qed

lemma sys_ok_notify: "sys_ok s \<Longrightarrow> sys_ok (notify_begins s)"
  by (simp add: sys_ok_def changing_def pnp_irps_def)

lemma sys_ok_notified:
  assumes "sys_ok s" "t \<in> set (fs_pnp s)" "unsettled (pt_step t) \<longrightarrow> unsettled st" "removing st \<longrightarrow> removing (pt_step t)"
  shows "sys_ok (pnp_next t st (if b then notify_begins s else s))"
proof -
  let ?s = "if b then notify_begins s else s"
  have n: "sys_ok ?s" "t \<in> set (fs_pnp ?s)" using assms(1,2) sys_ok_notify by auto
  then have "sys_ok (pnp_next t st (?s\<lparr>fs_driver := fs_driver ?s\<rparr>))"
    using assms(3,4) by (intro sys_ok_next [OF n]) (auto simp: sys_ok_def)
  then show ?thesis by simp
qed

lemma sys_ok_reach: "filter_reach s \<Longrightarrow> sys_ok s"
proof (induction rule: filter_reach.induct)
  case (Entry csq created d link_status links status fd)
  then show ?case using entry_ok [OF Entry.hyps] by (simp add: sys_ok_def fresh_waits_def irps_of_def tasks_ok_def pnp_irps_def)
next
  case (Add_device s d env created attached)
  have "tasks_ok (fs_pnp s) (set (vds_device_list (snd (VdsAddDevice env created d attached (fs_driver s)))))"
    using Add_device(4) add_list [of env created d attached "fs_driver s"] Add_device(3) unfolding sys_ok_def pnp_devices_def
    by (elim conjE) (erule tasks_ok_list, blast)
  then show ?case
    using Add_device add_device_ok [of "changing s" "fs_driver s" d] quiet_fresh [OF quiet_add]
    by (simp add: sys_ok_def changing_def pnp_irps_def VdsAddDevice_def Let_def case_prod_unfold split: option.split)
next
  case (Dispatch s d x i major version env)
  have "tasks_ok (fs_pnp s) (set (vds_device_list (snd (MajorFunction version env major d x i (fs_driver s)))))"
    using Dispatch(5) dispatch_list [of version env major d x i "fs_driver s"] Dispatch(4) unfolding sys_ok_def pnp_devices_def
    by (elim conjE) (erule tasks_ok_list, auto split: if_splits)
  then show ?case
    using Dispatch dispatch_ok dispatch_fresh by (simp add: sys_ok_def changing_def pnp_irps_def irps_of_dispatch)
next
  case (Wait_insert s i)
  then show ?case
    using mset_ids_remove1 [of i "fs_checked s"] by (simp add: sys_ok_def changing_def pnp_irps_def irps_of_insert insert_fresh)
next
  case (Drained s g)
  then show ?case
    by (auto simp: sys_ok_def changing_def pnp_irps_def drain_one_eq fresh_waits_def split: list.splits)
next
  case (Unload s)
  have "quiet (fs_driver s) (VdsUnload (fs_driver s))" "irps_of (VdsUnload (fs_driver s)) = irps_of (fs_driver s)"
    by (simp_all add: VdsUnload_def Let_def split: option.split)
  with Unload show ?case using quiet_fresh unload_ok by (simp add: sys_ok_def changing_def pnp_irps_def)
next
  case (Start_clears s d x n status)
  let ?t = "\<lparr>pt_device = d, pt_irp = Some n, pt_status = status, pt_step = Start_cleared\<rparr>"
  have "driver_ok (insert d (changing s)) (put_extension d (profile_reset x) (fd_emit e (fs_driver s)))" for e
    by (rule driver_ok_extension [where x = x])
      (use Start_clears profile_reset_ok driver_ok_ext in \<open>auto simp: sys_ok_def fd_emit_def driver_ok_def\<close>)
  then show ?case using Start_clears sys_ok_new [of s ?t "put_extension d (profile_reset x) (fd_emit e (fs_driver s))" for e] by simp
next
  case (Start_reads s t x q r)
  have d: "pt_device t \<in> changing s" using Start_reads by (auto simp: changing_def changing_of_def)
  have "driver_ok (insert (pt_device t) (changing s)) (put_extension (pt_device t) (VdsReadPhysicalDeviceProfile q r x) (fs_driver s))"
    by (rule driver_ok_extension [where x = x])
      (use Start_reads read_profile_ok driver_ok_ext in \<open>auto simp: sys_ok_def\<close>)
  then show ?case using Start_reads by (intro sys_ok_next) (auto simp: insert_absorb [OF d])
next
  case (Start_lists s t x changed fd)
  have ok: "driver_ok (changing s) (fs_driver s)" using Start_lists by (simp add: sys_ok_def)
  have fd: "fd = snd (VdsUpdateDeviceListMembership (pt_device t) (fs_driver s))" using Start_lists by simp
  have q: "quiet (fs_driver s) fd" "irps_of fd = irps_of (fs_driver s)"
    "set (vds_device_list fd) \<subseteq> insert (pt_device t) (set (vds_device_list (fs_driver s)))"
    using membership_list [of "pt_device t" "fs_driver s"] by (simp_all add: fd)
  show ?case
    using Start_lists.IH Start_lists.hyps(2,3) membership_section [OF ok Start_lists(4-6)] q by (intro sys_ok_next) auto
next
  case (Start_links s t changed link_status)
  then show ?case by (intro sys_ok_next) (auto simp: sys_ok_def driver_ok_update_link)
next
  case (Start_notifies s t changed x)
  then show ?case by (intro sys_ok_notified) auto
next
  case (Start_completes s t i)
  then show ?case by (intro sys_ok_done) (auto simp: sys_ok_def task_irps_def)
next
  case (Remove_unlists s d x n status)
  let ?t = "\<lparr>pt_device = d, pt_irp = Some n, pt_status = status, pt_step = Remove_unlisted (listed x)\<rparr>"
  have ok: "driver_ok (changing s) (fs_driver s)" using Remove_unlists by (simp add: sys_ok_def)
  show ?case
    using Remove_unlists sys_ok_new [of s ?t "unlist_locked d x (fs_driver s)"] unlist_section [OF ok Remove_unlists(2,3)] unlist_list [of d x "fs_driver s"]
    by simp
next
  case (Remove_notifies s t was_listed)
  then show ?case by (intro sys_ok_notified) auto
next
  case (Remove_unlinks s t)
  then show ?case by (intro sys_ok_next) (auto simp: sys_ok_def driver_ok_delete_link)
next
  case (Remove_completes s t i x)
  have ok: "driver_ok (changing s) (fs_driver s)" using Remove_completes by (simp add: sys_ok_def)
  have "driver_ok (changing s - {pt_device t}) (IoDeleteDevice (pt_device t) (fd_emit e (fs_driver s)))" for e
    by (rule delete_device_ok)
      (use ok Remove_completes driver_ok_control [OF ok Remove_completes(5)] in \<open>auto simp: sys_ok_def tasks_ok_def emit_control\<close>)
  then show ?case using Remove_completes by (intro sys_ok_done) (auto simp: task_irps_def)
next
  case (Add_attaches s d x q r below)
  let ?t = "\<lparr>pt_device = d, pt_irp = None, pt_status = STATUS_SUCCESS, pt_step = Add_attached\<rparr>"
  let ?fd = "put_extension d (x\<lparr>lower_device := below\<rparr>) ((fs_driver s)\<lparr>vds_next_filter_instance := vds_next_filter_instance (fs_driver s) + 1\<rparr>)"
  have ok: "driver_ok (changing s) (fs_driver s)" using Add_attaches by (simp add: sys_ok_def)
  have "driver_ok (insert d (changing s)) ?fd"
    by (rule attach_section [OF ok]) (use Add_attaches read_profile_ok in auto)
  then show ?case using Add_attaches sys_ok_new [of s ?t ?fd] by simp
next
  case (Add_lists s t x changed fd)
  have ok: "driver_ok (changing s) (fs_driver s)" using Add_lists by (simp add: sys_ok_def)
  have fd: "fd = snd (VdsUpdateDeviceListMembership (pt_device t) (fs_driver s))" using Add_lists by simp
  have q: "quiet (fs_driver s) fd" "irps_of fd = irps_of (fs_driver s)"
    "set (vds_device_list fd) \<subseteq> insert (pt_device t) (set (vds_device_list (fs_driver s)))"
    using membership_list [of "pt_device t" "fs_driver s"] by (simp_all add: fd)
  show ?case
    using Add_lists.IH Add_lists.hyps(2,3) membership_section [OF ok Add_lists(4-6)] q by (intro sys_ok_next) auto
next
  case (Add_notifies s t changed)
  then show ?case by (intro sys_ok_notified) auto
next
  case (Add_links s t link_status)
  then show ?case by (intro sys_ok_done) (auto simp: sys_ok_def task_irps_def driver_ok_update_link)
next
  case (Notify s)
  from Notify.IH show ?case by (rule sys_ok_notify)
qed (simp_all add: sys_ok_def changing_def pnp_irps_def drain_one_Some cancel_facts)

lemmas reach_driver_ok = sys_ok_reach [unfolded sys_ok_def, THEN conjunct1]
lemmas reach_fresh = sys_ok_reach [unfolded sys_ok_def, THEN conjunct2, THEN conjunct2, THEN conjunct1]
lemmas reach_account = sys_ok_reach [unfolded sys_ok_def, THEN conjunct2, THEN conjunct2, THEN conjunct2]

section \<open>The device list\<close>

definition other_address :: "vds_filter_device_info \<Rightarrow> vds_filter_device_info \<Rightarrow> bool" where
  "other_address a b \<longleftrightarrow> fi_address b ! 0 = 0 \<or> \<not> VdsAddressEqual (fi_address a) (fi_address b)"

definition represented :: "vds_filter_device_info list \<Rightarrow> VDS_FILTER_EXTENSION \<Rightarrow> bool" where
  "represented out x \<longleftrightarrow> device_info x \<in> set out \<or> (fx_address x ! 0 \<noteq> 0 \<and> VdsDeviceListContainsAddress out (fx_address x))"

lemma represented_append: "represented out x \<Longrightarrow> represented (out @ added) x"
  by (auto simp: represented_def VdsDeviceListContainsAddress_def)

lemma append_entry_facts:
  assumes "length out \<le> VDS_FILTER_MAX_DEVICES" "sorted_wrt other_address out"
  shows "length (VdsAppendDeviceListEntry out x) \<le> VDS_FILTER_MAX_DEVICES"
    "sorted_wrt other_address (VdsAppendDeviceListEntry out x)"
    "represented (VdsAppendDeviceListEntry out x) x \<or> length (VdsAppendDeviceListEntry out x) = VDS_FILTER_MAX_DEVICES"
    "VdsAppendDeviceListEntry out x = out \<or> VdsAppendDeviceListEntry out x = out @ [device_info x]"
  using assms
  by (auto simp: VdsAppendDeviceListEntry_def sorted_wrt_append other_address_def device_info_def represented_def
      VdsDeviceListContainsAddress_def list_ex_iff)

lemma list_pass_prefix:
  "\<exists>added. list_pass target items out = out @ added \<and> set added \<subseteq> device_info ` {x \<in> set items. report_target x = target}"
proof (induction items arbitrary: out)
  case (Cons x items)
  let ?next = "if report_target x = target then VdsAppendDeviceListEntry out x else out"
  obtain added where m: "list_pass target items ?next = ?next @ added"
    "set added \<subseteq> device_info ` {x \<in> set items. report_target x = target}"
    using Cons.IH by blast
  show ?case
  proof (cases "VDS_FILTER_MAX_DEVICES \<le> length out \<or> ?next = out")
    case True
    with m show ?thesis by (intro exI [of _ "if length out < VDS_FILTER_MAX_DEVICES then added else []"]) auto
  next
    case False
    then have "?next = out @ [device_info x]" "report_target x = target"
      by (auto simp: VdsAppendDeviceListEntry_def split: if_splits)
    with m False show ?thesis by (intro exI [of _ "device_info x # added"]) auto
  qed
qed simp

lemma list_pass_facts:
  assumes "length out \<le> VDS_FILTER_MAX_DEVICES" "sorted_wrt other_address out"
  shows "length (list_pass target items out) \<le> VDS_FILTER_MAX_DEVICES \<and>
    sorted_wrt other_address (list_pass target items out) \<and>
    (\<forall>x \<in> set items. report_target x = target \<longrightarrow>
       represented (list_pass target items out) x \<or> length (list_pass target items out) = VDS_FILTER_MAX_DEVICES)"
  using assms
proof (induction items arbitrary: out)
  case (Cons x items)
  let ?next = "if report_target x = target then VdsAppendDeviceListEntry out x else out"
  have n: "length ?next \<le> VDS_FILTER_MAX_DEVICES" "sorted_wrt other_address ?next"
    using append_entry_facts(1,2) [OF Cons.prems] Cons.prems by auto
  obtain added where m: "list_pass target items ?next = ?next @ added"
    using list_pass_prefix by blast
  have "represented (?next @ added) x \<or> length (?next @ added) = VDS_FILTER_MAX_DEVICES" if "report_target x = target"
    using append_entry_facts(3) [OF Cons.prems, of x] that represented_append Cons.IH [OF n] m by fastforce
  with Cons.IH [OF n] m Cons.prems show ?case by auto
qed simp

lemma flags_target: "fi_flags (device_info x) AND VDS_FILTER_DEVICE_REPORT_TARGET \<noteq> 0 \<longleftrightarrow> report_target x"
  by (simp add: device_info_def VDS_FILTER_DEVICE_REPORT_TARGET_def VDS_FILTER_DEVICE_PRESENT_def
      VDS_FILTER_DEVICE_ACCESS_RESTRICTED_def)

lemma set_listed_items: "set (listed_items fd) = {x. \<exists>d \<in> set (vds_device_list fd). fd_devices fd d = Some x}"
proof -
  have "set (List.map_filter f ds) = {x. \<exists>d \<in> set ds. f d = Some x}" for f :: "nat \<Rightarrow> VDS_FILTER_EXTENSION option" and ds
    by (induction ds) (auto simp: List.map_filter_def split: option.splits)
  then show ?thesis by (simp add: listed_items_def)
qed

lemma list_devices_split:
  "\<exists>ts os. list_devices fd = ts @ os \<and> set ts \<subseteq> device_info ` {x \<in> set (listed_items fd). report_target x} \<and>
     set os \<subseteq> device_info ` {x \<in> set (listed_items fd). \<not> report_target x}"
proof -
  obtain ts where ts: "list_pass True (listed_items fd) [] = [] @ ts"
    "set ts \<subseteq> device_info ` {x \<in> set (listed_items fd). report_target x = True}"
    using list_pass_prefix by blast
  obtain os where "list_pass False (listed_items fd) ts = ts @ os"
    "set os \<subseteq> device_info ` {x \<in> set (listed_items fd). report_target x = False}"
    using list_pass_prefix by blast
  with ts show ?thesis by (auto simp: list_devices_def)
qed

lemma list_devices_facts:
  "length (list_devices fd) \<le> VDS_FILTER_MAX_DEVICES \<and> sorted_wrt other_address (list_devices fd) \<and>
   (\<forall>x \<in> set (listed_items fd). represented (list_devices fd) x \<or> length (list_devices fd) = VDS_FILTER_MAX_DEVICES)"
proof -
  let ?ts = "list_pass True (listed_items fd) []"
  have 1: "length ?ts \<le> VDS_FILTER_MAX_DEVICES \<and> sorted_wrt other_address ?ts \<and>
    (\<forall>x \<in> set (listed_items fd). report_target x = True \<longrightarrow> represented ?ts x \<or> length ?ts = VDS_FILTER_MAX_DEVICES)"
    by (rule list_pass_facts) (simp_all add: VDS_FILTER_MAX_DEVICES_def)
  then have 2: "length (list_devices fd) \<le> VDS_FILTER_MAX_DEVICES \<and> sorted_wrt other_address (list_devices fd) \<and>
    (\<forall>x \<in> set (listed_items fd). report_target x = False \<longrightarrow>
       represented (list_devices fd) x \<or> length (list_devices fd) = VDS_FILTER_MAX_DEVICES)"
    unfolding list_devices_def by (intro list_pass_facts) auto
  obtain os where "list_devices fd = ?ts @ os" unfolding list_devices_def using list_pass_prefix by blast
  with 1 2 show ?thesis using represented_append by fastforce
qed

lemma length_mac_or_zero: "extension_ok x \<Longrightarrow> length (fx_address x) = 18"
  by (auto simp: extension_ok_def mac_text_def)

lemma length_concat_const: "(\<And>x. x \<in> set xs \<Longrightarrow> length (f x) = n) \<Longrightarrow> length (concat (map f xs)) = n * length xs"
  by (induction xs) auto

lemma device_list_bytes_length:
  assumes "driver_ok R fd"
  shows "length (device_list_bytes fd) = 208"
proof -
  obtain ts os where "list_devices fd = ts @ os" "set ts \<union> set os \<subseteq> device_info ` set (listed_items fd)"
    using list_devices_split [of fd] by blast
  then have "length (info_bytes e) = 24" if "e \<in> set (list_devices fd)" for e
    using that length_mac_or_zero driver_ok_ext [OF assms]
    by (fastforce simp: info_bytes_def device_info_def set_listed_items)
  then have "length (concat (map info_bytes (list_devices fd))) = 24 * length (list_devices fd)"
    by (rule length_concat_const)
  with list_devices_facts [of fd] show ?thesis
    by (simp add: device_list_bytes_def VDS_FILTER_MAX_DEVICES_def)
qed

end
