(* ===== verification/WinFilterProps.thy ===== *)
theory WinFilterProps
  imports WinFilterInv
begin

text \<open>
  The properties of the filter driver: the type invariant of device extensions, access
  control, the wait queue, the answers to IRPs, the device list, the address parser, and two
  defects.
\<close>

section \<open>A controller in the field\<close>

text \<open>A Bluetooth HID collection whose address is found in the id of its parent.\<close>

definition answered_with :: "string \<Rightarrow> property_query" where
  "answered_with s = \<lparr>pq_status = STATUS_BUFFER_TOO_SMALL, pq_required = of_nat (2 * length s + 2), pq_allocated = True,
     pq_status2 = STATUS_SUCCESS, pq_value = wide s\<rparr>"

definition pad_env :: filter_env where
  "pad_env = \<lparr>fe_lower = STATUS_SUCCESS, fe_later = STATUS_SUCCESS,
     fe_instance = answered_with (''HID'' @ [CHR 0x5C] @ ''{00001124-0000-1000-8000-00805F9B34FB}_VID&0002054C_PID&0CE6'' @
       [CHR 0x5C] @ ''8&1F5E3B6A&0&0000''),
     fe_parent = answered_with (''BTHENUM'' @ [CHR 0x5C] @ ''{00001124-0000-1000-8000-00805F9B34FB}_VID&0002054C_PID&0CE6'' @
       [CHR 0x5C] @ ''7&2B0E4D61&0&A0AB51C2D3E4_C00000000''),
     fe_link = STATUS_SUCCESS\<rparr>"

lemmas pad_defs = wide_def narrow_def pad_env_def answered_with_def VdsWideStartsWithInsensitive_def
  VdsWideContainsInsensitive_def ascii_lower_def

lemma pad_instance:
  "VdsReadDeviceStringProperty (fe_instance pad_env) = Some (pq_value (fe_instance pad_env))"
  "VdsReadDeviceStringProperty (fe_parent pad_env) = Some (pq_value (fe_parent pad_env))"
  by (simp_all add: VdsReadDeviceStringProperty_def pad_env_def answered_with_def)

lemma pad_collection: "bluetooth_hid_collection (pq_value (fe_instance pad_env))"
  unfolding bluetooth_hid_collection_def
  by (intro conjI disjI1) (simp_all add: pad_defs)

lemma pad_tests:
  "\<not> VdsWideStartsWithInsensitive (Some (pq_value (fe_instance pad_env))) (Some (wide (''hid'' @ [CHR 0x5C] @ ''vid_054c&pid_0df2&mi_03'')))"
  "\<not> VdsWideStartsWithInsensitive (Some (pq_value (fe_instance pad_env))) (Some (wide (''hid'' @ [CHR 0x5C] @ ''vid_054c&pid_0ce6&mi_03'')))"
  "\<not> VdsWideContainsInsensitive (Some (pq_value (fe_instance pad_env))) (Some (wide ''pid&0df2''))"
  by (simp_all add: pad_defs)

lemma pad_addresses:
  "fst (VdsParseBluetoothAddress (pq_value (fe_instance pad_env))) = zero_address"
  "fst (VdsParseBluetoothAddress (pq_value (fe_parent pad_env))) = narrow ''a0:ab:51:c2:d3:e4'' @ [0]"
  by (simp_all add: pad_defs VdsParseBluetoothAddress_def end_run_def VdsWideHexValue_def format_address_unfold
      VdsLowerHexChar_def)

lemma pad_profile:
  "VdsReadPhysicalDeviceProfile (fe_instance pad_env) (fe_parent pad_env) x =
     (profile_reset x)\<lparr>report_target := True, fx_address := narrow ''a0:ab:51:c2:d3:e4'' @ [0]\<rparr>"
proof -
  have "VdsReadPhysicalDeviceProfile (fe_instance pad_env) (fe_parent pad_env) x =
    (let y = (profile_reset x)\<lparr>report_target := True\<rparr>; y = y\<lparr>fx_address := zero_address\<rparr> in
     if fx_address y ! 0 \<noteq> 0 then y else y\<lparr>fx_address := narrow ''a0:ab:51:c2:d3:e4'' @ [0]\<rparr>)"
    by (simp only: VdsReadPhysicalDeviceProfile_def pad_instance pad_collection pad_tests pad_addresses Let_def option.case if_False)
  then show ?thesis by simp
qed

lemma pad_link [simp]: "fe_link pad_env = STATUS_SUCCESS"
  by (simp add: pad_env_def)

definition pad_listed :: filter_driver where
  "pad_listed = snd (VdsAddDevice pad_env STATUS_SUCCESS 1 (Some 9)
     (snd (DriverEntry_filter STATUS_SUCCESS STATUS_SUCCESS 0 STATUS_SUCCESS (loaded_filter Map.empty))))"

definition pad_sys :: filter_sys where
  "pad_sys = \<lparr>fs_driver = pad_listed, fs_notifiers = [], fs_checked = [], fs_pnp = [], fs_submitted = []\<rparr>"

definition entered :: filter_driver where
  "entered = snd (DriverEntry_filter STATUS_SUCCESS STATUS_SUCCESS 0 STATUS_SUCCESS (loaded_filter Map.empty))"

lemma entered_eq:
  "DriverEntry_filter STATUS_SUCCESS STATUS_SUCCESS 0 STATUS_SUCCESS (loaded_filter Map.empty) = (STATUS_SUCCESS, entered)"
  "fd_devices entered = [0 \<mapsto> fresh_extension\<lparr>is_control := True\<rparr>]" "vds_device_list entered = []"
  "vds_device_wait_irps entered = []" "vds_device_generation entered = 1" "fd_log entered = []"
  "vds_next_filter_instance entered = 0"
  by (simp_all add: entered_def DriverEntry_filter_def VdsCreateControlDevice_filter_def loaded_filter_def put_extension_def Let_def)

lemma pad_reach: "filter_reach pad_sys"
proof -
  have "filter_reach \<lparr>fs_driver = entered, fs_notifiers = [], fs_checked = [], fs_pnp = [], fs_submitted = []\<rparr>"
    by (rule filter_reach.Entry [OF entered_eq(1)]) simp
  from filter_reach.Add_device [OF this, of 1 pad_env STATUS_SUCCESS "Some 9"]
  show ?thesis by (simp add: pad_sys_def pad_listed_def entered_eq pnp_devices_def)
qed

lemma compact_pad: "compact_address (narrow ''a0:ab:51:c2:d3:e4'' @ [0]) = wide ''a0ab51c2d3e4''"
  by (simp add: compact_address_def narrow_def wide_def)

definition pad_extension :: VDS_FILTER_EXTENSION where
  "pad_extension = fresh_extension\<lparr>device_name := hid_device_name 0, report_target := True, listed := True, lower_device := 9,
     fx_address := narrow ''a0:ab:51:c2:d3:e4'' @ [0], symbolic_link_created := True,
     symbolic_name := filter_link_name (wide ''a0ab51c2d3e4'')\<rparr>"

lemma pad_listed_facts:
  "fd_devices pad_listed = [0 \<mapsto> fresh_extension\<lparr>is_control := True\<rparr>, 1 \<mapsto> pad_extension]" "vds_device_list pad_listed = [1]"
  "vds_device_generation pad_listed = 2" "vds_device_wait_irps pad_listed = []" "fd_log pad_listed = []"
  by (simp_all add: pad_listed_def entered_eq VdsAddDevice_def pad_profile VdsUpdateDeviceListMembership_def put_extension_def
      Let_def notify_eq VdsUpdateSymbolicLink_def compact_pad pad_extension_def profile_reset_def fresh_extension_def
      VDS_PROFILE_DS5_def)
    (simp_all add: wide_def narrow_def)

lemma pad_extension_facts:
  "VdsPhysicalAccessRestricted pad_extension" "\<not> is_control pad_extension" "lower_device pad_extension = 9" "report_target pad_extension"
  by (simp_all add: pad_extension_def fresh_extension_def VdsPhysicalAccessRestricted_def)

definition stranger :: "nat \<Rightarrow> irp" where
  "stranger n = \<lparr>ir_id = n, ir_user = True, ir_process_image = Some (narrow ''steam.exe''), ir_current_image = None, ir_code = 0,
     ir_input_length = 0, ir_output_length = 0, ir_buffer = [], ir_mdl = No_mdl\<rparr>"

lemma stranger_denied [simp]: "\<not> VdsCallerIsAllowed (stranger n)" "ir_user (stranger n)" "ir_id (stranger n) = n"
  by (simp_all add: stranger_def VdsCallerIsAllowed_def VdsAsciiEqualInsensitive_def narrow_def)

section \<open>Types, access control and answers\<close>



lemma caller_refused:
  assumes "ir_user i" "ir_process_image i = Some name" "map ascii_lower name \<notin> {narrow ''vdsd.exe'', narrow ''vdsctl.exe''}"
  shows "\<not> VdsCallerIsAllowed i"
proof -
  have "map ascii_lower (narrow ''vdsd.exe'') = narrow ''vdsd.exe''" "map ascii_lower (narrow ''vdsctl.exe'') = narrow ''vdsctl.exe''"
    by (simp_all add: narrow_def ascii_lower_def)
  with assms show ?thesis by (simp add: VdsCallerIsAllowed_def VdsAsciiEqualInsensitive_def)
qed

text \<open>
  C6. Access control, for the five major functions that check the caller. In every state of \<open>filter_reach\<close>, a
  user-mode request to open or control a device whose extension is restricted at that moment (directly, or as an
  internal control request), by a process whose image name is known and is another one than the daemon's or the control
  tool's, is answered with \<open>STATUS_ACCESS_DENIED\<close>: the lower driver never sees it and nothing else of the driver's
  state changes. Its close and cleanup requests do not reach the lower driver either. Nothing is stated of the other
  major functions, such as reads and writes, which are passed on unchecked, of a caller whose image is not known, or of
  the moment in which a restart has cleared the identity of the device (\<open>filter_restart_window\<close>).
\<close>

theorem filter_denies_others:
  assumes "filter_reach s" "fd_devices (fs_driver s) d = Some x" "VdsPhysicalAccessRestricted x"
    and "ir_user i" "ir_process_image i = Some name" "map ascii_lower name \<notin> {narrow ''vdsd.exe'', narrow ''vdsctl.exe''}"
  shows "(major \<in> {IRP_MJ_CREATE, IRP_MJ_DEVICE_CONTROL, IRP_MJ_INTERNAL_DEVICE_CONTROL} \<longrightarrow>
      MajorFunction version env major d x i (fs_driver s) =
        (STATUS_ACCESS_DENIED, fd_emit (Completed (ir_id i) STATUS_ACCESS_DENIED 0 []) (fs_driver s))) \<and>
    (major \<in> {IRP_MJ_CLOSE, IRP_MJ_CLEANUP} \<longrightarrow>
      MajorFunction version env major d x i (fs_driver s) =
        (STATUS_SUCCESS, fd_emit (Completed (ir_id i) STATUS_SUCCESS 0 []) (fs_driver s)))"
proof -
  have x: "\<not> is_control x" "\<not> provide_hid_strings x"
    using driver_ok_ext [OF reach_driver_ok [OF assms(1)] assms(2)] assms(3) by (auto simp: extension_ok_def)
  then show ?thesis
    using assms(3,4) caller_refused [OF assms(4-6)]
    by (auto simp: MajorFunction_def VdsDispatchCreate_def VdsDispatchDeviceControl_def VdsDispatchPhysicalDeviceControl_def
        VdsDispatchClose_def VdsCompleteIrp_filter_def)
qed

theorem filter_denies_others_witness:
  "MajorFunction ''1'' pad_env IRP_MJ_CREATE 1 pad_extension (stranger 7) pad_listed =
     (STATUS_ACCESS_DENIED, fd_emit (Completed 7 STATUS_ACCESS_DENIED 0 []) pad_listed)"
  using filter_denies_others [OF pad_reach, of 1 pad_extension "stranger 7" "narrow ''steam.exe''" IRP_MJ_CREATE "''1''" pad_env]
    pad_extension_facts(1)
  by (simp add: pad_sys_def pad_listed_facts stranger_def narrow_def ascii_lower_def)

text \<open>
  C30. Every IRP is answered once. In every reachable state the IRPs submitted so far are,
  each exactly once, completed or passed on to the lower driver, or kept in the wait queue,
  or on their way into it, or in the hands of a start or a removal that is under way.
\<close>

theorem filter_irps_once:
  assumes "filter_reach s"
  shows "distinct (map io_irp (filter answered (fd_log (fs_driver s))) @
      map ir_id (vds_device_wait_irps (fs_driver s)) @ map ir_id (fs_checked s) @ pnp_irps s) \<and>
    set (fs_submitted s) = set (map io_irp (filter answered (fd_log (fs_driver s))) @
      map ir_id (vds_device_wait_irps (fs_driver s)) @ map ir_id (fs_checked s) @ pnp_irps s)"
proof -
  let ?all = "map io_irp (filter answered (fd_log (fs_driver s))) @
      map ir_id (vds_device_wait_irps (fs_driver s)) @ map ir_id (fs_checked s) @ pnp_irps s"
  have "mset (fs_submitted s) = mset ?all" "distinct (fs_submitted s)"
    using reach_account [OF assms] by (simp_all add: irps_of_def)
  then show ?thesis by (metis mset_eq_imp_distinct_iff mset_eq_setD)
qed

text \<open>A request of the daemon to be told when generation \<open>g\<close> is over.\<close>

definition wait_for :: "nat \<Rightarrow> u32 \<Rightarrow> irp" where
  "wait_for n g = \<lparr>ir_id = n, ir_user = True, ir_process_image = Some (narrow ''vdsd.exe''), ir_current_image = None,
     ir_code = VDS_FILTER_IOCTL_WAIT_DEVICE_CHANGE, ir_input_length = 16, ir_output_length = 16,
     ir_buffer = change_bytes g, ir_mdl = No_mdl\<rparr>"

lemma wait_for_fields [simp]: "irp_version (wait_for n g) = 1" "irp_size (wait_for n g) = 16" "irp_generation (wait_for n g) = g"
  "ir_id (wait_for n g) = n"
  by (simp_all add: irp_version_def irp_size_def irp_generation_def wait_for_def change_bytes_def
      VDS_FILTER_DEVICE_CHANGE_VERSION_def)

definition waiting_sys :: filter_sys where
  "waiting_sys = pad_sys\<lparr>fs_driver := pad_listed\<lparr>vds_device_wait_irps := [wait_for 5 2]\<rparr>, fs_submitted := [5]\<rparr>"

lemma waiting_reach: "filter_reach waiting_sys"
proof -
  have "wait_check (wait_for 5 2) pad_listed = None"
    by (simp add: wait_check_def VdsCurrentDeviceGeneration_def pad_listed_facts VDS_FILTER_DEVICE_CHANGE_VERSION_def)
      (simp add: wait_for_def)
  then have "filter_reach (pad_sys\<lparr>fs_checked := [wait_for 5 2], fs_submitted := [5]\<rparr>)"
    using filter_reach.Wait_check [OF pad_reach, of "wait_for 5 2"] by (simp add: pad_sys_def)
  from filter_reach.Wait_insert [OF this, of "wait_for 5 2"] show ?thesis
    by (simp add: pad_sys_def waiting_sys_def wait_insert_def VdsWaitQueueInsertIrpEx_def pad_listed_facts status_defs NT_SUCCESS_def)
qed

theorem filter_irps_once_witness:
  "set (fs_submitted waiting_sys) = {5} \<and> map ir_id (vds_device_wait_irps (fs_driver waiting_sys)) = [5]"
  using filter_irps_once [OF waiting_reach] by (simp add: waiting_sys_def pad_sys_def pad_listed_facts pnp_irps_def)

text \<open>
  C31. No notification is lost. However wait requests, notifications and cancellations
  interleave, an IRP that waits in the queue although the generation it asked about is over
  has a notification under way that will answer it; when no notification is under way, every
  waiting IRP asked about the current generation. A notification itself empties the queue
  and answers each waiting IRP, in order, with the new generation.
\<close>

theorem filter_no_lost_notification:
  assumes "filter_reach s"
  shows "(i \<in> set (vds_device_wait_irps (fs_driver s)) \<and> irp_generation i \<noteq> vds_device_generation (fs_driver s) \<longrightarrow>
      fs_notifiers s \<noteq> []) \<and>
    vds_device_wait_irps (VdsNotifyDeviceListChanged (fs_driver s)) = [] \<and>
    fd_log (VdsNotifyDeviceListChanged (fs_driver s)) = fd_log (fs_driver s) @
      map (\<lambda>i. Completed (ir_id i) STATUS_SUCCESS 16 (change_bytes (vds_device_generation (fs_driver s) + 1)))
        (vds_device_wait_irps (fs_driver s))"
  using reach_fresh [OF assms] by (auto simp: fresh_waits_def notify_eq change_event_def)

theorem filter_no_lost_notification_witness:
  "irp_generation (wait_for 5 2) = vds_device_generation (fs_driver waiting_sys) \<and>
   fd_log (VdsNotifyDeviceListChanged (fs_driver waiting_sys)) = [Completed 5 STATUS_SUCCESS 16 (change_bytes 3)]"
  using filter_no_lost_notification [OF waiting_reach, of "wait_for 5 2"]
  by (simp add: waiting_sys_def pad_sys_def pad_listed_facts)

section \<open>What the daemon reads\<close>

text \<open>
  The device list. The reply to \<open>VDS_FILTER_IOCTL_GET_DEVICES\<close> has 208 bytes and at most
  eight entries; the report targets come first; no address occurs twice; and every listed
  device is in the reply, itself or by an entry with its address, unless the reply is full.
\<close>

theorem filter_device_list:
  assumes "filter_reach s"
  defines "out \<equiv> list_devices (fs_driver s)"
  shows "length (device_list_bytes (fs_driver s)) = 208 \<and> length out \<le> 8 \<and> sorted_wrt other_address out \<and>
    (\<exists>ts os. out = ts @ os \<and> list_all (\<lambda>e. fi_flags e AND VDS_FILTER_DEVICE_REPORT_TARGET \<noteq> 0) ts \<and>
       list_all (\<lambda>e. fi_flags e AND VDS_FILTER_DEVICE_REPORT_TARGET = 0) os) \<and>
    list_all (\<lambda>d. represented out (the (fd_devices (fs_driver s) d)) \<or> length out = 8) (vds_device_list (fs_driver s))"
proof -
  have ok: "driver_ok (changing s) (fs_driver s)" by (rule reach_driver_ok [OF assms(1)])
  obtain ts os where "out = ts @ os" "set ts \<subseteq> device_info ` {x \<in> set (listed_items (fs_driver s)). report_target x}"
    "set os \<subseteq> device_info ` {x \<in> set (listed_items (fs_driver s)). \<not> report_target x}"
    using list_devices_split unfolding out_def by blast
  moreover from this have "list_all (\<lambda>e. fi_flags e AND VDS_FILTER_DEVICE_REPORT_TARGET \<noteq> 0) ts"
    "list_all (\<lambda>e. fi_flags e AND VDS_FILTER_DEVICE_REPORT_TARGET = 0) os"
    using flags_target by (auto simp: list_all_iff)
  moreover have "the (fd_devices (fs_driver s) d) \<in> set (listed_items (fs_driver s))" if "d \<in> set (vds_device_list (fs_driver s))" for d
    using that ok by (auto simp: set_listed_items driver_ok_def)
  ultimately show ?thesis
    using list_devices_facts [of "fs_driver s"] device_list_bytes_length [OF ok] unfolding out_def
    by (auto simp: VDS_FILTER_MAX_DEVICES_def list_all_iff)
qed

lemma pad_list_devices: "list_devices pad_listed = [device_info pad_extension]"
  using pad_extension_facts
  by (simp add: list_devices_def listed_items_def List.map_filter_def pad_listed_facts VdsAppendDeviceListEntry_def
      VDS_FILTER_MAX_DEVICES_def VdsDeviceListContainsAddress_def)

theorem filter_device_list_witness:
  "represented [device_info pad_extension] pad_extension \<and> length (device_list_bytes pad_listed) = 208"
  using filter_device_list [OF pad_reach] by (simp add: pad_sys_def pad_listed_facts pad_list_devices)

lemma compact_zero [simp]: "compact cs 0 = []"
  by (cases cs) auto

lemma compact_pair:
  "hex_char a \<Longrightarrow> hex_char b \<Longrightarrow> compact (a # b # 58 # cs) (Suc (Suc n)) = ucast a # ucast b # compact cs n"
  "hex_char a \<Longrightarrow> hex_char b \<Longrightarrow> compact [a, b] (Suc (Suc n)) = [ucast a, ucast b]"
  by (auto dest: hex_char_bounds)

lemma compact_format:
  assumes "length run = 12" "list_all (\<lambda>v. VdsWideHexValue v \<ge> 0) run"
  shows "compact_address (format_address run) = map ascii_lower run"
proof -
  obtain a b c d e f g h i j k l where run: "run = [a, b, c, d, e, f, g, h, i, j, k, l]"
    using assms(1) by (auto simp: length_Suc_conv numeral_eq_Suc)
  let ?h = "VdsLowerHexChar"
  have "compact_address (format_address run) = compact [?h a, ?h b, 58, ?h c, ?h d, 58, ?h e, ?h f, 58,
      ?h g, ?h h, 58, ?h i, ?h j, 58, ?h k, ?h l] (Suc (Suc (Suc (Suc (Suc (Suc (Suc (Suc (Suc (Suc (Suc (Suc 0))))))))))))"
    by (simp add: compact_address_def format_address_unfold run numeral_eq_Suc del: compact.simps)
  also have "\<dots> = map ascii_lower run"
    using assms(2) by (simp add: run compact_pair hex_char_lower VdsLowerHexChar_wide del: compact.simps)
  finally show ?thesis .
qed

text \<open>
  C32. The address parser. In an instance id an address is a maximal run of exactly twelve hexadecimal digits that
  stands outside braces (the last brace before it, if any, is a closing one) and is not directly followed by a brace:
  the code drops a run that a brace ends. The scan, with its bounded buffer and its single pass, returns the last
  address of the text, formatted, and reports that there is none exactly when the text has none. Every address it could
  return is formatted to a well-formed one, and dropping the colons again (as the name of the symbolic link does) gives
  the digits in lower case.
\<close>

theorem filter_address_parser:
  "VdsParseBluetoothAddress instance_id =
     (if addresses instance_id = [] then (zero_address, False)
      else (format_address (take 12 (drop (last (addresses instance_id)) instance_id)), True)) \<and>
   list_all (\<lambda>n. mac_text (format_address (take 12 (drop n instance_id))) \<and>
     compact_address (format_address (take 12 (drop n instance_id))) = map ascii_lower (take 12 (drop n instance_id)))
     (addresses instance_id)"
  using parse_address_positions [of instance_id] addresses_digits [of _ instance_id]
  by (auto simp: list_all_iff intro!: format_address_mac compact_format)

lemma addresses_evaluated:
  "addresses (wide ''{0}_A0AB51C2D3E4'') = [4]" "addresses (wide ''A0AB51C2D3E4{0}'') = []"
  by code_simp+

theorem filter_address_parser_witness:
  "VdsParseBluetoothAddress (wide ''{0}_A0AB51C2D3E4'') = (narrow ''a0:ab:51:c2:d3:e4'' @ [0], True) \<and>
   VdsParseBluetoothAddress (wide ''A0AB51C2D3E4{0}'') = (zero_address, False)"
proof -
  have "format_address (take 12 (drop 4 (wide ''{0}_A0AB51C2D3E4''))) = narrow ''a0:ab:51:c2:d3:e4'' @ [0]"
    by code_simp
  then show ?thesis
    using filter_address_parser [THEN conjunct1, of "wide ''{0}_A0AB51C2D3E4''"]
      filter_address_parser [THEN conjunct1, of "wide ''A0AB51C2D3E4{0}''"]
    by (simp only: addresses_evaluated if_True if_False last.simps list.distinct simp_thms)
qed

section \<open>Two defects\<close>

text \<open>
  C33. Restarting opens a window in the access control. From every reachable state, when a restricted device that no
  other start, removal or addition is working on is started again and the lower driver succeeds, the driver gets to
  a state in which the device is still on the list of restricted devices but its identity is cleared, since the fields
  are cleared before they are read anew and no lock is held: a request to open the device by a caller that was refused
  before the restart is then passed on to the lower driver.
\<close>

theorem filter_restart_window:
  assumes "filter_reach s" "fd_devices (fs_driver s) d = Some x" "VdsPhysicalAccessRestricted x" "d \<notin> pnp_devices s"
    and "n \<notin> set (fs_submitted s)" "ir_user i" "\<not> VdsCallerIsAllowed i"
  shows "fst (MajorFunction version env IRP_MJ_CREATE d x i (fs_driver s)) = STATUS_ACCESS_DENIED \<and>
    (\<exists>s' y. filter_reach s' \<and> fd_devices (fs_driver s') d = Some y \<and> d \<in> set (vds_device_list (fs_driver s')) \<and>
       fs_submitted s' = fs_submitted s @ [n] \<and>
       MajorFunction version env IRP_MJ_CREATE d y i (fs_driver s') =
         (fe_lower env, fd_emit (Forwarded (ir_id i) (lower_device x)) (fs_driver s')))"
proof -
  have x: "\<not> is_control x" "\<not> provide_hid_strings x"
    using driver_ok_ext [OF reach_driver_ok [OF assms(1)] assms(2)] assms(3) by (auto simp: extension_ok_def)
  have "d \<notin> changing s" using assms(4) by (auto simp: changing_def changing_of_def pnp_devices_def)
  then have "d \<in> set (vds_device_list (fs_driver s))"
    using reach_driver_ok [OF assms(1)] assms(2,3) by (auto simp: driver_ok_def)
  moreover have "MajorFunction version env IRP_MJ_CREATE d (profile_reset x) i fd =
      (fe_lower env, fd_emit (Forwarded (ir_id i) (lower_device x)) fd)" for fd
    using x by (simp add: MajorFunction_def VdsDispatchCreate_def VdsPassThrough_def VdsPhysicalAccessRestricted_def)
  moreover have "NT_SUCCESS STATUS_SUCCESS" by (simp add: NT_SUCCESS_def STATUS_SUCCESS_def)
  note filter_reach.Start_clears [OF assms(1,2) x(1) assms(4,5) this]
  ultimately show ?thesis
    using assms(3,6,7) x
    by (intro conjI exI [of _ "s\<lparr>fs_driver := put_extension d (profile_reset x) (fd_emit (Lent n (lower_device x)) (fs_driver s)),
      fs_pnp := fs_pnp s @ [\<lparr>pt_device = d, pt_irp = Some n, pt_status = STATUS_SUCCESS, pt_step = Start_cleared\<rparr>],
      fs_submitted := fs_submitted s @ [n]\<rparr>"] exI [of _ "profile_reset x"])
      (auto simp: MajorFunction_def VdsDispatchCreate_def VdsCompleteIrp_filter_def put_extension_def fd_emit_def)
qed

theorem filter_restart_window_witness:
  "\<exists>s' y. filter_reach s' \<and> fd_devices (fs_driver s') 1 = Some y \<and>
     snd (MajorFunction ''1'' pad_env IRP_MJ_CREATE 1 y (stranger 7) (fs_driver s')) =
       fd_emit (Forwarded 7 9) (fs_driver s')"
proof -
  have "fd_devices (fs_driver pad_sys) 1 = Some pad_extension" "1 \<notin> pnp_devices pad_sys" "6 \<notin> set (fs_submitted pad_sys)"
    by (simp_all add: pad_sys_def pad_listed_facts pnp_devices_def)
  from filter_restart_window [OF pad_reach this(1) pad_extension_facts(1) this(2,3) stranger_denied(2,1), of "''1''" pad_env 7]
  show ?thesis using pad_extension_facts(3) by auto
qed

text \<open>
  C40. Two device objects of one controller share the name of the symbolic link. When the
  second takes the name over and the first is then removed, the removal deletes the link of
  the second, which stays present, restricted, and marked as having its link.
\<close>

definition twin_listed :: filter_driver where
  "twin_listed = snd (VdsAddDevice pad_env STATUS_SUCCESS 2 (Some 10) pad_listed)"

theorem filter_link_of_twin_deleted:
  "fd_links twin_listed (filter_link_name (wide ''a0ab51c2d3e4'')) = Some (hid_device_name 1) \<and>
   (let fd = snd (MajorFunction version pad_env (IRP_MJ_PNP IRP_MN_REMOVE_DEVICE) 1 pad_extension (stranger n) twin_listed) in
    (\<exists>x. fd_devices fd 2 = Some x \<and> symbolic_link_created x \<and> symbolic_name x = filter_link_name (wide ''a0ab51c2d3e4'')) \<and>
    fd_links fd (filter_link_name (wide ''a0ab51c2d3e4'')) = None)"
proof -
  have inst: "vds_next_filter_instance pad_listed = 1"
    by (simp add: pad_listed_def entered_eq VdsAddDevice_def pad_profile VdsUpdateDeviceListMembership_def put_extension_def
      Let_def notify_eq VdsUpdateSymbolicLink_def)
  have twin: "fd_links twin_listed (filter_link_name (wide ''a0ab51c2d3e4'')) = Some (hid_device_name 1) \<and>
    (\<exists>x. fd_devices twin_listed 2 = Some x \<and> symbolic_link_created x \<and> symbolic_name x = filter_link_name (wide ''a0ab51c2d3e4'')) \<and>
    fd_devices twin_listed 1 = Some pad_extension"
    by (simp add: twin_listed_def VdsAddDevice_def pad_profile VdsUpdateDeviceListMembership_def put_extension_def Let_def
        notify_eq VdsUpdateSymbolicLink_def compact_pad pad_listed_facts inst profile_reset_def fresh_extension_def)
      (simp add: wide_def narrow_def)
  have pad: "listed pad_extension" "symbolic_link_created pad_extension"
    "symbolic_name pad_extension = filter_link_name (wide ''a0ab51c2d3e4'')" "\<not> is_control pad_extension"
    by (simp_all add: pad_extension_def fresh_extension_def)
  from twin show ?thesis
    by (auto simp: MajorFunction_def VdsDispatchPnp_def Let_def pad unlist_device_def unlist_locked_def notify_eq put_extension_def
        VdsDeleteSymbolicLink_def IoDeleteDevice_def fd_emit_def)
qed

end
