(* ===== verification/UdePort.thy ===== *)
theory UdePort
  imports NtStatus FrameIo UsbDescriptors Config
begin

text \<open>
  One port of the Windows bus driver \<open>windrv/vds_usb/vds_usb.c\<close>: \<open>VDS_PORT_STATE\<close> with the
  ring of frames for the daemon, the cached HID input and feature reports, the ring of
  microphone audio and the alternate settings; the control requests on endpoint zero; and
  the sample statistics. Spin locks protect single fields and are left out. Requests that
  wait for frames are the manual queue \<open>control_read_queue\<close>, oldest first, each with its
  output buffer or the status with which the buffer cannot be had. What is completed is
  returned as a list of events.
\<close>

section \<open>Constants\<close>

definition VDS_AUDIO_IN_CHANNELS :: nat where "VDS_AUDIO_IN_CHANNELS = 2"
definition VDS_PCM_CHANNELS :: nat where "VDS_PCM_CHANNELS = 4"
definition VDS_IN_BYTES_PER_MS :: nat where "VDS_IN_BYTES_PER_MS = 192"
definition VDS_CONTROL_RING_SIZE :: nat where "VDS_CONTROL_RING_SIZE = 256 * 1024"
definition VDS_AUDIO_IN_RING_SIZE :: nat where "VDS_AUDIO_IN_RING_SIZE = 65536"
definition VDS_HID_FEATURE_REPORT_SIZE :: nat where "VDS_HID_FEATURE_REPORT_SIZE = 64"
definition VDS_USB_DESCRIPTOR_TYPE_STRING :: u8 where "VDS_USB_DESCRIPTOR_TYPE_STRING = 0x03"
definition VDS_USB_DESCRIPTOR_TYPE_HID :: u8 where "VDS_USB_DESCRIPTOR_TYPE_HID = 0x21"
definition VDS_USB_DESCRIPTOR_TYPE_HID_REPORT :: u8 where "VDS_USB_DESCRIPTOR_TYPE_HID_REPORT = 0x22"
definition VDS_USB_REQUEST_GET_DESCRIPTOR :: u8 where "VDS_USB_REQUEST_GET_DESCRIPTOR = 0x06"
definition VDS_USB_REQUEST_GET_INTERFACE :: u8 where "VDS_USB_REQUEST_GET_INTERFACE = 0x0a"
definition VDS_USB_REQUEST_SET_INTERFACE :: u8 where "VDS_USB_REQUEST_SET_INTERFACE = 0x0b"
definition VDS_USB_HID_GET_REPORT :: u8 where "VDS_USB_HID_GET_REPORT = 0x01"
definition VDS_USB_HID_GET_IDLE :: u8 where "VDS_USB_HID_GET_IDLE = 0x02"
definition VDS_USB_HID_GET_PROTOCOL :: u8 where "VDS_USB_HID_GET_PROTOCOL = 0x03"
definition VDS_USB_HID_SET_REPORT :: u8 where "VDS_USB_HID_SET_REPORT = 0x09"
definition VDS_USB_HID_SET_IDLE :: u8 where "VDS_USB_HID_SET_IDLE = 0x0a"
definition VDS_USB_HID_SET_PROTOCOL :: u8 where "VDS_USB_HID_SET_PROTOCOL = 0x0b"
definition VDS_USB_AUDIO_SET_CUR :: u8 where "VDS_USB_AUDIO_SET_CUR = 0x01"
definition VDS_USB_AUDIO_GET_CUR :: u8 where "VDS_USB_AUDIO_GET_CUR = 0x81"
definition VDS_USB_AUDIO_GET_MIN :: u8 where "VDS_USB_AUDIO_GET_MIN = 0x82"
definition VDS_USB_AUDIO_GET_MAX :: u8 where "VDS_USB_AUDIO_GET_MAX = 0x83"
definition VDS_USB_AUDIO_GET_RES :: u8 where "VDS_USB_AUDIO_GET_RES = 0x84"
definition VDS_USB_AUDIO_CONTROL_MUTE :: u8 where "VDS_USB_AUDIO_CONTROL_MUTE = 0x01"
definition VDS_USB_AUDIO_CONTROL_VOLUME :: u8 where "VDS_USB_AUDIO_CONTROL_VOLUME = 0x02"
definition VDS_USB_HID_REPORT_TYPE_INPUT :: u8 where "VDS_USB_HID_REPORT_TYPE_INPUT = 0x01"
definition VDS_USB_HID_REPORT_TYPE_OUTPUT :: u8 where "VDS_USB_HID_REPORT_TYPE_OUTPUT = 0x02"
definition VDS_USB_HID_REPORT_TYPE_FEATURE :: u8 where "VDS_USB_HID_REPORT_TYPE_FEATURE = 0x03"
definition VDS_USB_AUDIO_CONTROL_INTERFACE :: u8 where "VDS_USB_AUDIO_CONTROL_INTERFACE = 0"
definition VDS_USB_HID_INTERFACE :: u8 where "VDS_USB_HID_INTERFACE = 3"
definition VDS_USB_SPEAKER_FEATURE_UNIT :: u8 where "VDS_USB_SPEAKER_FEATURE_UNIT = 2"
definition VDS_USB_MIC_FEATURE_UNIT :: u8 where "VDS_USB_MIC_FEATURE_UNIT = 5"

section \<open>State\<close>

record read_request =
  rq_id :: nat
  rq_buffer :: "NTSTATUS + nat"

record VDS_PORT_STATE =
  usb_device_init :: bool
  usb_device :: "nat option"
  default_endpoint :: "nat option"
  audio_out_endpoint :: "nat option"
  audio_in_endpoint :: "nat option"
  hid_in_endpoint :: "nat option"
  hid_out_endpoint :: "nat option"
  usb_device_plugged :: bool
  usb_profile :: u32
  usb_profile_valid :: bool
  ps_profile :: u32
  bound :: bool
  bound_file :: "nat option"
  control_read_queue :: "read_request list option"
  control_ring_head :: nat
  control_ring_size :: nat
  frame_sequence :: u64
  control_ring :: bytes
  last_hid_input :: bytes
  have_last_hid_input :: bool
  feature_cache :: "u8 \<Rightarrow> bytes"
  feature_cache_valid :: "u8 \<Rightarrow> bool"
  audio_in_ring_head :: nat
  audio_in_ring_size :: nat
  audio_in_ring :: bytes
  interface_altsetting :: "u8 list"

datatype urb_result = Usbd_status u32 | Nt_status NTSTATUS

datatype ude_event =
    Request_done (ev_request: nat) NTSTATUS bytes
  | Urb_done (ev_request: nat) nat urb_result
  | Write_done (ev_request: nat) nat
  | Purge_done nat

text \<open>A zeroed port, and \<open>VdsInitializePortState\<close> on it: the sticks rest in the middle.\<close>

definition zero_port :: VDS_PORT_STATE where
  "zero_port = \<lparr>usb_device_init = False, usb_device = None, default_endpoint = None, audio_out_endpoint = None,
     audio_in_endpoint = None, hid_in_endpoint = None, hid_out_endpoint = None, usb_device_plugged = False, usb_profile = 0,
     usb_profile_valid = False, ps_profile = 0, bound = False, bound_file = None, control_read_queue = None,
     control_ring_head = 0, control_ring_size = 0, frame_sequence = 0, control_ring = replicate VDS_CONTROL_RING_SIZE 0,
     last_hid_input = replicate 64 0, have_last_hid_input = False, feature_cache = (\<lambda>_. replicate 64 0),
     feature_cache_valid = (\<lambda>_. False), audio_in_ring_head = 0, audio_in_ring_size = 0,
     audio_in_ring = replicate VDS_AUDIO_IN_RING_SIZE 0, interface_altsetting = [0, 0, 0, 0]\<rparr>"

definition VdsInitializePortState :: "VDS_PORT_STATE \<Rightarrow> VDS_PORT_STATE" where
  "VdsInitializePortState p =
     p\<lparr>last_hid_input := [VDS_USB_INPUT_REPORT_ID, 0x80, 0x80, 0x80, 0x80] @ replicate (kUsbInputReportSize - 5) 0,
       have_last_hid_input := True\<rparr>"

definition VdsIsValidProfile :: "u32 \<Rightarrow> bool" where
  "VdsIsValidProfile profile \<longleftrightarrow> profile = VDS_PROFILE_DS5 \<or> profile = VDS_PROFILE_DSE"

section \<open>The ring of frames\<close>

definition VdsControlRingWriteLocked :: "bytes \<Rightarrow> VDS_PORT_STATE \<Rightarrow> VDS_PORT_STATE" where
  "VdsControlRingWriteLocked bs p =
     (let tail = (control_ring_head p + control_ring_size p) mod VDS_CONTROL_RING_SIZE;
          first = min (length bs) (VDS_CONTROL_RING_SIZE - tail);
          ring = blit tail (take first bs) (control_ring p);
          ring = (if length bs > first then blit 0 (drop first bs) ring else ring) in
      p\<lparr>control_ring := ring, control_ring_size := control_ring_size p + length bs\<rparr>)"

definition VdsControlRingReadLocked :: "nat \<Rightarrow> VDS_PORT_STATE \<Rightarrow> bytes \<times> VDS_PORT_STATE" where
  "VdsControlRingReadLocked n p =
     (let n = min n (control_ring_size p);
          first = min n (VDS_CONTROL_RING_SIZE - control_ring_head p);
          bs = take first (drop (control_ring_head p) (control_ring p)) @
               (if n > first then take (n - first) (control_ring p) else []) in
      (bs, p\<lparr>control_ring_head := (control_ring_head p + n) mod VDS_CONTROL_RING_SIZE,
             control_ring_size := control_ring_size p - n\<rparr>))"

text \<open>The loop that hands frames to waiting read requests.\<close>

fun serve_reads :: "read_request list \<Rightarrow> VDS_PORT_STATE \<Rightarrow> ude_event list \<times> VDS_PORT_STATE" where
  "serve_reads [] p = ([], p\<lparr>control_read_queue := Some []\<rparr>)"
| "serve_reads (r # rs) p =
     (if control_ring_size p = 0 then ([], p\<lparr>control_read_queue := Some (r # rs)\<rparr>)
      else case rq_buffer r of
        Inl status \<Rightarrow> (case serve_reads rs p of (evs, p) \<Rightarrow> (Request_done (rq_id r) status [] # evs, p))
      | Inr n \<Rightarrow>
          (case VdsControlRingReadLocked n p of (bs, p) \<Rightarrow>
           case serve_reads rs p of (evs, p) \<Rightarrow> (Request_done (rq_id r) STATUS_SUCCESS bs # evs, p)))"

definition VdsCompleteControlReadRequests :: "VDS_PORT_STATE \<Rightarrow> ude_event list \<times> VDS_PORT_STATE" where
  "VdsCompleteControlReadRequests p =
     (case control_read_queue p of None \<Rightarrow> ([], p) | Some rs \<Rightarrow> serve_reads rs p)"

text \<open>\<open>VdsQueueFrame\<close> on a port that exists; the device checks the index.\<close>

definition queue_frame :: "u16 \<Rightarrow> bytes \<Rightarrow> VDS_PORT_STATE \<Rightarrow> NTSTATUS \<times> ude_event list \<times> VDS_PORT_STATE" where
  "queue_frame frame_type payload p =
     (if length payload > VDS_FRAME_MAX_PAYLOAD then (STATUS_INVALID_BUFFER_SIZE, [], p)
      else if 16 + length payload > VDS_CONTROL_RING_SIZE then (STATUS_INVALID_BUFFER_SIZE, [], p)
      else if 16 + length payload > VDS_CONTROL_RING_SIZE - control_ring_size p then (STATUS_BUFFER_OVERFLOW, [], p)
      else (let p = p\<lparr>frame_sequence := frame_sequence p + 1\<rparr>;
                header = \<lparr>fh_type = frame_type, fh_flags = 0, fh_length = of_nat (length payload),
                          fh_sequence = frame_sequence p\<rparr>;
                p = VdsControlRingWriteLocked (header_bytes header) p;
                p = (if payload \<noteq> [] then VdsControlRingWriteLocked payload p else p) in
            case VdsCompleteControlReadRequests p of (evs, p) \<Rightarrow> (STATUS_SUCCESS, evs, p)))"

definition usb_interface_event :: "u8 \<Rightarrow> u8 \<Rightarrow> u8 \<Rightarrow> bytes" where
  "usb_interface_event interface_number alt_setting interface_type = [interface_number, alt_setting, interface_type, 0]"

section \<open>Cached reports\<close>

definition VdsUpdateFeatureCache :: "bytes option \<Rightarrow> nat \<Rightarrow> VDS_PORT_STATE \<Rightarrow> VDS_PORT_STATE" where
  "VdsUpdateFeatureCache payload payload_size p =
     (case payload of
        None \<Rightarrow> p
      | Some bs \<Rightarrow>
          if payload_size = 0 then p
          else p\<lparr>feature_cache := (feature_cache p)(bs ! 0 :=
                   blit 0 (take (min payload_size VDS_HID_FEATURE_REPORT_SIZE) bs) (replicate VDS_HID_FEATURE_REPORT_SIZE 0)),
                 feature_cache_valid := (feature_cache_valid p)(bs ! 0 := True)\<rparr>)"

definition VdsFeatureCacheValid :: "u8 \<Rightarrow> VDS_PORT_STATE \<Rightarrow> bool" where
  "VdsFeatureCacheValid report_id p = feature_cache_valid p report_id"

text \<open>The copies into a transfer buffer return the count and the buffer afterwards.\<close>

definition VdsCopyFeatureReport :: "u8 \<Rightarrow> nat \<Rightarrow> bytes option \<Rightarrow> VDS_PORT_STATE \<Rightarrow> nat \<times> bytes option" where
  "VdsCopyFeatureReport report_id n buffer p =
     (case buffer of
        None \<Rightarrow> (0, None)
      | Some b \<Rightarrow>
          if n = 0 then (0, Some b)
          else (let copy_size = min n VDS_HID_FEATURE_REPORT_SIZE;
                    b = blit 0 (replicate copy_size 0) b;
                    b = b[0 := report_id];
                    b = (if feature_cache_valid p report_id then blit 0 (take copy_size (feature_cache p report_id)) b else b) in
                (copy_size, Some b)))"

definition VdsCopyInputReport :: "nat \<Rightarrow> bytes option \<Rightarrow> VDS_PORT_STATE \<Rightarrow> nat \<times> bytes option" where
  "VdsCopyInputReport n buffer p =
     (case buffer of
        None \<Rightarrow> (0, None)
      | Some b \<Rightarrow>
          if n = 0 then (0, Some b)
          else (let copy_size = min n kUsbInputReportSize in
                (copy_size, Some (blit 0 (take copy_size (last_hid_input p)) b))))"

definition VdsStoreInputReport :: "bytes \<Rightarrow> VDS_PORT_STATE \<Rightarrow> VDS_PORT_STATE" where
  "VdsStoreInputReport payload p =
     (if payload = [] then p
      else p\<lparr>last_hid_input :=
               (blit 0 (take (min (length payload) kUsbInputReportSize) payload) (replicate kUsbInputReportSize 0))
                 [0 := VDS_USB_INPUT_REPORT_ID],
             have_last_hid_input := True\<rparr>)"

section \<open>The ring of microphone audio\<close>

definition VdsAudioInRingWriteLocked :: "bytes \<Rightarrow> VDS_PORT_STATE \<Rightarrow> VDS_PORT_STATE" where
  "VdsAudioInRingWriteLocked payload p =
     (let (payload, p) =
            (if length payload \<ge> VDS_AUDIO_IN_RING_SIZE
             then (drop (length payload - VDS_AUDIO_IN_RING_SIZE) payload, p\<lparr>audio_in_ring_head := 0, audio_in_ring_size := 0\<rparr>)
             else (payload, p));
          free_size = VDS_AUDIO_IN_RING_SIZE - audio_in_ring_size p;
          p = (if length payload > free_size then
                 p\<lparr>audio_in_ring_head := (audio_in_ring_head p + (length payload - free_size)) mod VDS_AUDIO_IN_RING_SIZE,
                   audio_in_ring_size := audio_in_ring_size p - (length payload - free_size)\<rparr>
               else p);
          tail = (audio_in_ring_head p + audio_in_ring_size p) mod VDS_AUDIO_IN_RING_SIZE;
          first = min (length payload) (VDS_AUDIO_IN_RING_SIZE - tail);
          ring = blit tail (take first payload) (audio_in_ring p);
          ring = (if length payload > first then blit 0 (drop first payload) ring else ring) in
      p\<lparr>audio_in_ring := ring, audio_in_ring_size := audio_in_ring_size p + length payload\<rparr>)"

definition VdsStoreAudioInPcm :: "bytes \<Rightarrow> VDS_PORT_STATE \<Rightarrow> VDS_PORT_STATE" where
  "VdsStoreAudioInPcm payload p = (if payload = [] then p else VdsAudioInRingWriteLocked payload p)"

definition VdsResetAudioInPcm :: "VDS_PORT_STATE \<Rightarrow> VDS_PORT_STATE" where
  "VdsResetAudioInPcm p = p\<lparr>audio_in_ring_head := 0, audio_in_ring_size := 0\<rparr>"

definition VdsAudioInRingReadLocked :: "nat \<Rightarrow> VDS_PORT_STATE \<Rightarrow> bytes \<times> VDS_PORT_STATE" where
  "VdsAudioInRingReadLocked n p =
     (let n = min n (audio_in_ring_size p);
          first = min n (VDS_AUDIO_IN_RING_SIZE - audio_in_ring_head p);
          bs = take first (drop (audio_in_ring_head p) (audio_in_ring p)) @
               (if n > first then take (n - first) (audio_in_ring p) else []) in
      (bs, p\<lparr>audio_in_ring_head := (audio_in_ring_head p + n) mod VDS_AUDIO_IN_RING_SIZE,
             audio_in_ring_size := audio_in_ring_size p - n\<rparr>))"

text \<open>\<open>VdsCopyAudioInPcm\<close>: the bytes written over the buffer, silence included, and how many were audio.\<close>

definition VdsCopyAudioInPcm :: "nat \<Rightarrow> VDS_PORT_STATE \<Rightarrow> bytes \<times> nat \<times> VDS_PORT_STATE" where
  "VdsCopyAudioInPcm n p =
     (if n = 0 then ([], 0, p)
      else case VdsAudioInRingReadLocked n p of (bs, p) \<Rightarrow> (bs @ replicate (n - length bs) 0, length bs, p))"

section \<open>Sample statistics\<close>

definition sample_at :: "bytes \<Rightarrow> nat \<Rightarrow> int" where
  "sample_at bs k = sint (from_le16 (take 2 (drop (2 * k) bs)))"

definition channel_peak :: "nat \<Rightarrow> nat \<Rightarrow> bytes \<Rightarrow> nat \<Rightarrow> int" where
  "channel_peak channels frames bs channel =
     fold (\<lambda>frame peak. let m = \<bar>sample_at bs (frame * channels + channel)\<bar> in if m > peak then m else peak) [0..<frames] 0"

text \<open>
  Samples of the first frame and peaks per channel, of \<open>n\<close> bytes; \<open>None\<close> when the buffer is too
  short and the statistics stay. The two recording routines differ in the channel count.
\<close>

definition pcm_statistics :: "nat \<Rightarrow> bytes \<Rightarrow> nat \<Rightarrow> (int list \<times> int list) option" where
  "pcm_statistics channels bs n =
     (if n < 2 * channels then None
      else Some (map (sample_at bs) [0..<channels], map (channel_peak channels (n div (2 * channels)) bs) [0..<channels]))"

definition VdsRecordAudioInPcmSamples :: "bytes option \<Rightarrow> nat \<Rightarrow> int list \<times> int list \<Rightarrow> int list \<times> int list" where
  "VdsRecordAudioInPcmSamples buffer n old =
     (case buffer of
        None \<Rightarrow> old
      | Some bs \<Rightarrow> (case pcm_statistics VDS_AUDIO_IN_CHANNELS bs n of None \<Rightarrow> old | Some new \<Rightarrow> new))"

section \<open>Control requests\<close>

record setup_packet =
  sp_request_type :: u8
  sp_request :: u8
  sp_value :: u16
  sp_index :: u16
  sp_length :: u16

definition lo :: "u16 \<Rightarrow> u8" where "lo v = ucast v"
definition hi :: "u16 \<Rightarrow> u8" where "hi v = ucast (drop_bit 8 v)"

definition device_to_host :: "setup_packet \<Rightarrow> bool" where
  "device_to_host s = bit (sp_request_type s) 7"

text \<open>Type: 0 standard, 1 class. Recipient: 0 device, 1 interface, 2 endpoint.\<close>

definition bm_type :: "setup_packet \<Rightarrow> u8" where "bm_type s = drop_bit 5 (sp_request_type s) AND 3"
definition bm_recipient :: "setup_packet \<Rightarrow> u8" where "bm_recipient s = sp_request_type s AND 3"

definition VdsCopyControlResponse :: "bytes \<Rightarrow> u16 \<Rightarrow> bytes option \<Rightarrow> nat \<times> bytes option" where
  "VdsCopyControlResponse response requested buffer =
     (case buffer of
        None \<Rightarrow> (0, None)
      | Some b \<Rightarrow>
          if b = [] then (0, Some b)
          else (let n = min (min (length b) (unat requested)) (length response) in (n, Some (blit 0 (take n response) b))))"

text \<open>The 255-byte descriptor on the stack, filled while two more bytes fit.\<close>

fun descriptor_units :: "string \<Rightarrow> nat \<Rightarrow> bytes" where
  "descriptor_units [] n = []"
| "descriptor_units (c # cs) n = (if n + 2 > 255 then [] else [of_char c, 0] @ descriptor_units cs (n + 2))"

definition VdsCopyStringDescriptor :: "string option \<Rightarrow> u16 \<Rightarrow> bytes option \<Rightarrow> nat \<times> bytes option" where
  "VdsCopyStringDescriptor string requested buffer =
     (case string of
        None \<Rightarrow> VdsCopyControlResponse vds_usb_language_descriptor requested buffer
      | Some s \<Rightarrow>
          (let units = descriptor_units s 2 in
           VdsCopyControlResponse ([of_nat (2 + length units), VDS_USB_DESCRIPTOR_TYPE_STRING] @ units) requested buffer))"

definition VdsProductStringForProfile :: "u32 \<Rightarrow> string" where
  "VdsProductStringForProfile profile = (if profile = VDS_PROFILE_DS5 then VDS_DS5_USB_PRODUCT_STRING else VDS_DSE_USB_PRODUCT_STRING)"

definition VdsDeviceDescriptorForProfile :: "u32 \<Rightarrow> bytes" where
  "VdsDeviceDescriptorForProfile profile =
     (if profile = VDS_PROFILE_DS5 then vds_ds5_usb_device_descriptor else vds_dse_usb_device_descriptor)"

definition VdsConfigurationDescriptorForProfile :: "u32 \<Rightarrow> bytes" where
  "VdsConfigurationDescriptorForProfile profile =
     (if profile = VDS_PROFILE_DS5 then vds_ds5_usb_configuration_descriptor else vds_dse_usb_configuration_descriptor)"

definition VdsHidDescriptorForProfile :: "u32 \<Rightarrow> bytes" where
  "VdsHidDescriptorForProfile profile =
     (if profile = VDS_PROFILE_DS5 then vds_ds5_usb_hid_descriptor else vds_dse_usb_hid_descriptor)"

definition VdsHidReportDescriptorForProfile :: "u32 \<Rightarrow> bytes" where
  "VdsHidReportDescriptorForProfile profile =
     (if profile = VDS_PROFILE_DS5 then vds_ds5_usb_hid_report_descriptor else vds_dse_usb_hid_report_descriptor)"

text \<open>\<open>None\<close> is the return value \<open>FALSE\<close>.\<close>

definition VdsHandleAudioClassControl :: "setup_packet \<Rightarrow> bytes option \<Rightarrow> (nat \<times> bytes option) option" where
  "VdsHandleAudioClassControl s buffer =
     (let entity_id = hi (sp_index s); interface_number = lo (sp_index s); control_selector = hi (sp_value s);
          transfer_length = (case buffer of None \<Rightarrow> 0 | Some b \<Rightarrow> length b) in
      if bm_type s \<noteq> 1 \<or> bm_recipient s \<noteq> 1 \<or> interface_number \<noteq> VDS_USB_AUDIO_CONTROL_INTERFACE \<or>
         (entity_id \<noteq> VDS_USB_SPEAKER_FEATURE_UNIT \<and> entity_id \<noteq> VDS_USB_MIC_FEATURE_UNIT) then None
      else if \<not> device_to_host s then
        (if sp_request s = VDS_USB_AUDIO_SET_CUR then Some (min transfer_length (unat (sp_length s)), buffer) else None)
      else if control_selector = VDS_USB_AUDIO_CONTROL_MUTE then
        (if sp_request s \<noteq> VDS_USB_AUDIO_GET_CUR then None
         else Some (VdsCopyControlResponse [0] (sp_length s) buffer))
      else if control_selector = VDS_USB_AUDIO_CONTROL_VOLUME then
        (if sp_request s = VDS_USB_AUDIO_GET_CUR \<or> sp_request s = VDS_USB_AUDIO_GET_MAX then
           Some (VdsCopyControlResponse [0x00, 0x00] (sp_length s) buffer)
         else if sp_request s = VDS_USB_AUDIO_GET_MIN then Some (VdsCopyControlResponse [0x00, 0x80] (sp_length s) buffer)
         else if sp_request s = VDS_USB_AUDIO_GET_RES then Some (VdsCopyControlResponse [0x00, 0x01] (sp_length s) buffer)
         else None)
      else None)"

text \<open>
  Class requests to the HID interface. \<open>GET_REPORT\<close> of a feature that is not cached asks the
  daemon for it and answers with what there is.
\<close>

type_synonym control_reply = "NTSTATUS \<times> nat \<times> bytes option \<times> ude_event list \<times> VDS_PORT_STATE"

definition buffer_length :: "bytes option \<Rightarrow> nat" where
  "buffer_length buffer = (case buffer of None \<Rightarrow> 0 | Some b \<Rightarrow> length b)"

definition set_first :: "u8 \<Rightarrow> bytes option \<Rightarrow> bytes option" where
  "set_first v buffer = map_option (\<lambda>b. b[0 := v]) buffer"

definition hid_class_request :: "setup_packet \<Rightarrow> bytes option \<Rightarrow> VDS_PORT_STATE \<Rightarrow> control_reply" where
  "hid_class_request s buffer p =
     (let report_id = lo (sp_value s); report_type = hi (sp_value s);
          n = min (buffer_length buffer) (unat (sp_length s)) in
      if sp_request s = VDS_USB_HID_GET_REPORT \<and> device_to_host s then
        (if report_type = VDS_USB_HID_REPORT_TYPE_INPUT then
           (case VdsCopyInputReport n buffer p of (count, b) \<Rightarrow> (STATUS_SUCCESS, count, b, [], p))
         else if report_type = VDS_USB_HID_REPORT_TYPE_FEATURE then
           (let (evs, p) = (if VdsFeatureCacheValid report_id p then ([], p)
                            else snd (queue_frame VDS_FRAME_USB_FEATURE_GET [report_id] p)) in
            case VdsCopyFeatureReport report_id n buffer p of (count, b) \<Rightarrow> (STATUS_SUCCESS, count, b, evs, p))
         else if report_type = VDS_USB_HID_REPORT_TYPE_OUTPUT \<and> buffer_length buffer > 0 then
           (STATUS_SUCCESS, n, set_first report_id buffer, [], p)
         else (STATUS_SUCCESS, 0, buffer, [], p))
      else if sp_request s = VDS_USB_HID_SET_REPORT \<and> \<not> device_to_host s then
        (let payload = (case buffer of None \<Rightarrow> [] | Some b \<Rightarrow> take n b);
             (evs, p) =
               (if report_type = VDS_USB_HID_REPORT_TYPE_FEATURE then
                  snd (queue_frame VDS_FRAME_USB_FEATURE_SET payload (VdsUpdateFeatureCache buffer n p))
                else if report_type = VDS_USB_HID_REPORT_TYPE_OUTPUT then snd (queue_frame VDS_FRAME_USB_HID_OUT payload p)
                else ([], p)) in
         (STATUS_SUCCESS, n, buffer, evs, p))
      else if sp_request s = VDS_USB_HID_GET_IDLE \<or> sp_request s = VDS_USB_HID_GET_PROTOCOL then
        (if buffer_length buffer > 0 then (STATUS_SUCCESS, 1, set_first 0 buffer, [], p)
         else (STATUS_SUCCESS, 0, buffer, [], p))
      else (STATUS_SUCCESS, 0, buffer, [], p))"

text \<open>The last resort: an endpoint may be asked for the sampling frequency, 48000 Hz.\<close>

definition other_request :: "setup_packet \<Rightarrow> bytes option \<Rightarrow> nat \<times> bytes option" where
  "other_request s buffer =
     (let n = min (buffer_length buffer) (unat (sp_length s)) in
      if buffer_length buffer = 0 then (0, buffer)
      else if device_to_host s \<and> bm_type s = 1 \<and> bm_recipient s = 2 \<and> hi (sp_value s) = 0x01 \<and> n \<ge> 3 then
        (3, map_option (blit 0 [0x80, 0xbb, 0x00]) buffer)
      else (n, buffer))"

definition string_request :: "setup_packet \<Rightarrow> bytes option \<Rightarrow> VDS_PORT_STATE \<Rightarrow> nat \<times> bytes option" where
  "string_request s buffer p =
     (let k = lo (sp_value s) in
      if k = 0 then VdsCopyStringDescriptor None (sp_length s) buffer
      else if k = 1 then VdsCopyStringDescriptor (Some VDS_USB_MANUFACTURER_STRING) (sp_length s) buffer
      else if k = 2 then VdsCopyStringDescriptor (Some (VdsProductStringForProfile (ps_profile p))) (sp_length s) buffer
      else (0, buffer))"

definition hid_descriptor_request :: "setup_packet \<Rightarrow> bytes option \<Rightarrow> VDS_PORT_STATE \<Rightarrow> nat \<times> bytes option" where
  "hid_descriptor_request s buffer p =
     (if hi (sp_value s) = VDS_USB_DESCRIPTOR_TYPE_HID_REPORT then
        VdsCopyControlResponse (VdsHidReportDescriptorForProfile (ps_profile p)) (sp_length s) buffer
      else if hi (sp_value s) = VDS_USB_DESCRIPTOR_TYPE_HID then
        VdsCopyControlResponse (VdsHidDescriptorForProfile (ps_profile p)) (sp_length s) buffer
      else (0, buffer))"

text \<open>The part of \<open>VdsEvtControlUrb\<close> that answers a request on a port that exists.\<close>

definition ude_control_request :: "setup_packet \<Rightarrow> bytes option \<Rightarrow> VDS_PORT_STATE \<Rightarrow> control_reply" where
  "ude_control_request s buffer p =
     (let interface_number = lo (sp_index s);
          buffer = (if device_to_host s
                    then map_option (\<lambda>b. blit 0 (replicate (min (length b) (unat (sp_length s))) 0) b) buffer else buffer);
          simple = (\<lambda>(n, b). (STATUS_SUCCESS, n, b, [], p)) in
      if device_to_host s \<and> bm_type s = 0 \<and> sp_request s = VDS_USB_REQUEST_GET_DESCRIPTOR \<and>
         hi (sp_value s) = VDS_USB_DESCRIPTOR_TYPE_STRING then simple (string_request s buffer p)
      else if device_to_host s \<and> bm_type s = 0 \<and> bm_recipient s = 1 \<and> sp_request s = VDS_USB_REQUEST_GET_INTERFACE then
        (if unat interface_number \<ge> length (interface_altsetting p) then (STATUS_INVALID_PARAMETER, 0, buffer, [], p)
         else simple (VdsCopyControlResponse [interface_altsetting p ! unat interface_number] (sp_length s) buffer))
      else if \<not> device_to_host s \<and> bm_type s = 0 \<and> bm_recipient s = 1 \<and> sp_request s = VDS_USB_REQUEST_SET_INTERFACE then
        (if unat interface_number \<ge> length (interface_altsetting p) then (STATUS_INVALID_PARAMETER, 0, buffer, [], p)
         else (STATUS_SUCCESS, 0, buffer, [],
               p\<lparr>interface_altsetting := (interface_altsetting p)[unat interface_number := lo (sp_value s)]\<rparr>))
      else if device_to_host s \<and> bm_type s = 0 \<and> bm_recipient s = 1 \<and> sp_request s = VDS_USB_REQUEST_GET_DESCRIPTOR \<and>
         interface_number = VDS_USB_HID_INTERFACE then simple (hid_descriptor_request s buffer p)
      else if bm_type s = 1 \<and> bm_recipient s = 1 \<and> interface_number = VDS_USB_HID_INTERFACE then hid_class_request s buffer p
      else case VdsHandleAudioClassControl s buffer of
        Some r \<Rightarrow> simple r
      | None \<Rightarrow> simple (other_request s buffer))"

end
