(* ===== verification/UdeRings.thy ===== *)
theory UdeRings
  imports UdePort Queues
begin

text \<open>
  The two ring buffers of a port as queues of bytes. \<open>ring_window\<close> reads a window of a ring,
  wrapping around; the locale \<open>byte_queue\<close> states what a client may rely on (reading takes
  the oldest bytes), with the facts about sequences of reads proved once, and is
  interpreted by the frame ring and by the microphone ring, whose write operations append
  resp. append and drop the oldest bytes.
\<close>

section \<open>Windows of a ring\<close>

definition ring_window :: "nat \<Rightarrow> nat \<Rightarrow> 'a list \<Rightarrow> 'a list" where
  "ring_window h n buf = map (\<lambda>i. buf ! ((h + i) mod length buf)) [0..<n]"

definition ring_put :: "nat \<Rightarrow> 'a list \<Rightarrow> 'a list \<Rightarrow> 'a list" where
  "ring_put t bs buf =
     (let first = min (length bs) (length buf - t); ring = blit t (take first bs) buf in
      if length bs > first then blit 0 (drop first bs) ring else ring)"

definition ring_get :: "nat \<Rightarrow> nat \<Rightarrow> 'a list \<Rightarrow> 'a list" where
  "ring_get h n buf =
     (let first = min n (length buf - h) in
      take first (drop h buf) @ (if n > first then take (n - first) buf else []))"

lemma length_ring_window [simp]: "length (ring_window h n buf) = n"
  by (simp add: ring_window_def)

lemma ring_window_0 [simp]: "ring_window h 0 buf = []"
  by (simp add: ring_window_def)

lemma length_ring_put [simp]: "t < length buf \<Longrightarrow> length bs \<le> length buf \<Longrightarrow> length (ring_put t bs buf) = length buf"
  by (auto simp: ring_put_def Let_def min_def)

text \<open>Every cell is at some distance from the tail.\<close>

lemma nth_ring_put:
  assumes "t < length buf" "length bs \<le> length buf" "k < length buf"
  shows "ring_put t bs buf ! ((t + k) mod length buf) = (if k < length bs then bs ! k else buf ! ((t + k) mod length buf))"
proof (cases "t + k < length buf")
  case True
  then show ?thesis
    using assms by (auto simp: ring_put_def Let_def nth_blit min_def nth_append)
next
  case False
  define j where "j = t + k - length buf"
  have j: "(t + k) mod length buf = j" "j < t" "j < length buf" "k = j + (length buf - t)"
    using assms False by (auto simp: j_def le_mod_geq)
  show ?thesis
  proof (cases "length bs > length buf - t")
    case True
    then have "ring_put t bs buf = blit 0 (drop (length buf - t) bs) (blit t (take (length buf - t) bs) buf)"
      by (simp add: ring_put_def Let_def min_def)
    moreover have "length (blit t (take (length buf - t) bs) buf) = length buf" using assms True by simp
    ultimately show ?thesis
      using assms True j by (auto simp: nth_blit nth_drop add.commute)
  next
    case False
    then have "ring_put t bs buf = blit t bs buf" by (simp add: ring_put_def Let_def min_def)
    with False show ?thesis using assms j by (auto simp: nth_blit)
  qed
qed

lemma ring_window_put:
  assumes "h < length buf" "n + length bs \<le> length buf"
  shows "ring_window h (n + length bs) (ring_put ((h + n) mod length buf) bs buf) = ring_window h n buf @ bs"
proof (rule nth_equalityI)
  let ?c = "length buf" and ?t = "(h + n) mod length buf"
  have t: "?t < ?c" "length bs \<le> ?c" using assms by (auto intro!: mod_less_divisor)
  have put: "ring_put ?t bs buf ! ((h + n + k) mod ?c) = (if k < length bs then bs ! k else buf ! ((h + n + k) mod ?c))"
    if "k < ?c" for k
    using nth_ring_put [OF t that] by (simp add: mod_add_left_eq)
  fix i assume "i < length (ring_window h (n + length bs) (ring_put ?t bs buf))"
  then have i: "i < n + length bs" by simp
  have len: "length (ring_put ?t bs buf) = ?c" using t by simp
  show "ring_window h (n + length bs) (ring_put ?t bs buf) ! i = (ring_window h n buf @ bs) ! i"
  proof (cases "i < n")
    case True
    have e: "(h + n + (i + ?c - n)) mod ?c = (h + i) mod ?c"
    proof -
      have "h + n + (i + ?c - n) = h + i + ?c" using assms True by simp
      then show ?thesis by (simp only: mod_add_self2)
    qed
    have "\<not> i + ?c - n < length bs" "i + ?c - n < ?c" using True assms by auto
    then show ?thesis
      using put [of "i + ?c - n"] True i len by (simp add: ring_window_def nth_append e)
  next
    case False
    then have "i - n < ?c" "h + n + (i - n) = h + i" "i - n < length bs" using i assms by auto
    then show ?thesis
      using put [of "i - n"] False i len by (simp add: ring_window_def nth_append)
  qed
qed simp

lemma ring_get_window:
  assumes "h < length buf" "n \<le> length buf"
  shows "ring_get h n buf = ring_window h n buf"
proof (rule nth_equalityI)
  show "length (ring_get h n buf) = length (ring_window h n buf)"
    using assms by (auto simp: ring_get_def Let_def min_def)
  fix i assume "i < length (ring_get h n buf)"
  then have "i < n" using assms by (auto simp: ring_get_def Let_def min_def split: if_splits)
  moreover have "(h + i) mod length buf = (if h + i < length buf then h + i else h + i - length buf)"
    using assms \<open>i < n\<close> by (auto simp: le_mod_geq)
  ultimately show "ring_get h n buf ! i = ring_window h n buf ! i"
    using assms by (auto simp: ring_get_def ring_window_def Let_def min_def nth_append algebra_simps)
qed

lemma ring_window_split:
  assumes "h < length buf" "m \<le> n"
  shows "ring_window h m buf = take m (ring_window h n buf)"
    "ring_window ((h + m) mod length buf) (n - m) buf = drop m (ring_window h n buf)"
  using assms
  by (auto simp: ring_window_def take_map drop_map mod_add_left_eq add.assoc intro!: nth_equalityI)

section \<open>Queues of bytes\<close>

locale byte_queue =
  fixes ok :: "'s \<Rightarrow> bool" and contents :: "'s \<Rightarrow> bytes" and take_out :: "nat \<Rightarrow> 's \<Rightarrow> bytes \<times> 's"
  assumes take_out: "ok s \<Longrightarrow> take_out n s = (bs, s') \<Longrightarrow>
    ok s' \<and> bs = take n (contents s) \<and> contents s' = drop n (contents s)"
begin

primrec take_all :: "nat list \<Rightarrow> 's \<Rightarrow> bytes \<times> 's" where
  "take_all [] s = ([], s)"
| "take_all (n # ns) s = (case take_out n s of (bs, s) \<Rightarrow> case take_all ns s of (cs, s) \<Rightarrow> (bs @ cs, s))"

text \<open>However reads are sized, together they yield the queue's bytes in order.\<close>

lemma take_all: "ok s \<Longrightarrow> take_all ns s = (bs, s') \<Longrightarrow>
  ok s' \<and> bs = take (sum_list ns) (contents s) \<and> contents s' = drop (sum_list ns) (contents s)"
proof (induction ns arbitrary: s bs)
  case (Cons n ns)
  obtain cs s1 where 1: "take_out n s = (cs, s1)" by fastforce
  obtain ds where 2: "take_all ns s1 = (ds, s')" "bs = cs @ ds"
    using Cons.prems(2) 1 by (auto split: prod.splits)
  show ?case
    using take_out [OF Cons.prems(1) 1] Cons.IH [OF _ 2(1)] 2(2)
    by (auto simp: take_add add.commute)
qed simp

lemma contents_split: "ok s \<Longrightarrow> take_out n s = (bs, s') \<Longrightarrow> bs @ contents s' = contents s"
  using take_out by fastforce

lemma short_read: "ok s \<Longrightarrow> take_out n s = (bs, s') \<Longrightarrow> length bs < n \<Longrightarrow> contents s' = []"
  using take_out by fastforce

end

section \<open>The frame ring\<close>

definition control_ok :: "VDS_PORT_STATE \<Rightarrow> bool" where
  "control_ok p \<longleftrightarrow> length (control_ring p) = VDS_CONTROL_RING_SIZE \<and> control_ring_head p < VDS_CONTROL_RING_SIZE \<and>
     control_ring_size p \<le> VDS_CONTROL_RING_SIZE"

definition control_bytes :: "VDS_PORT_STATE \<Rightarrow> bytes" where
  "control_bytes p = ring_window (control_ring_head p) (control_ring_size p) (control_ring p)"

lemma control_write_eq:
  "length (control_ring p) = VDS_CONTROL_RING_SIZE \<Longrightarrow>
   VdsControlRingWriteLocked bs p =
     p\<lparr>control_ring := ring_put ((control_ring_head p + control_ring_size p) mod VDS_CONTROL_RING_SIZE) bs (control_ring p),
       control_ring_size := control_ring_size p + length bs\<rparr>"
  by (simp add: VdsControlRingWriteLocked_def ring_put_def Let_def)

lemma control_write:
  assumes "control_ok p" "control_ring_size p + length bs \<le> VDS_CONTROL_RING_SIZE"
  shows "control_ok (VdsControlRingWriteLocked bs p)"
    "control_bytes (VdsControlRingWriteLocked bs p) = control_bytes p @ bs"
proof -
  have r: "length (control_ring p) = VDS_CONTROL_RING_SIZE" "control_ring_head p < length (control_ring p)"
    "control_ring_size p + length bs \<le> length (control_ring p)"
    using assms by (auto simp: control_ok_def)
  then show "control_ok (VdsControlRingWriteLocked bs p)"
    using assms by (simp add: control_write_eq control_ok_def)
  show "control_bytes (VdsControlRingWriteLocked bs p) = control_bytes p @ bs"
    using ring_window_put [OF r(2,3)] r(1) by (simp add: control_write_eq control_bytes_def)
qed

interpretation frames: byte_queue control_ok control_bytes VdsControlRingReadLocked
proof
  fix p n bs p'
  assume ok: "control_ok p" and r: "VdsControlRingReadLocked n p = (bs, p')"
  let ?n = "min n (control_ring_size p)"
  have h: "control_ring_head p < length (control_ring p)" "?n \<le> length (control_ring p)" "?n \<le> control_ring_size p"
    and len: "length (control_ring p) = VDS_CONTROL_RING_SIZE"
    using ok by (auto simp: control_ok_def)
  have bs: "bs = ring_get (control_ring_head p) ?n (control_ring p)"
    and p': "p' = p\<lparr>control_ring_head := (control_ring_head p + ?n) mod VDS_CONTROL_RING_SIZE,
                 control_ring_size := control_ring_size p - ?n\<rparr>"
    using r len by (auto simp: VdsControlRingReadLocked_def ring_get_def Let_def)
  have "control_ok p'" using ok by (auto simp: p' control_ok_def VDS_CONTROL_RING_SIZE_def)
  moreover have "bs = take ?n (control_bytes p)"
    using ring_get_window [OF h(1,2)] ring_window_split(1) [OF h(1,3)] by (simp add: bs control_bytes_def)
  moreover have "control_bytes p' = drop ?n (control_bytes p)"
    using ring_window_split(2) [OF h(1,3)] len by (simp add: p' control_bytes_def)
  moreover have "length (control_bytes p) = control_ring_size p" by (simp add: control_bytes_def)
  ultimately show "control_ok p' \<and> bs = take n (control_bytes p) \<and> control_bytes p' = drop n (control_bytes p)"
    by (auto simp: min_def)
qed

section \<open>The microphone ring\<close>

definition mic_ok :: "VDS_PORT_STATE \<Rightarrow> bool" where
  "mic_ok p \<longleftrightarrow> length (audio_in_ring p) = VDS_AUDIO_IN_RING_SIZE \<and> audio_in_ring_head p < VDS_AUDIO_IN_RING_SIZE \<and>
     audio_in_ring_size p \<le> VDS_AUDIO_IN_RING_SIZE"

definition audio_bytes :: "VDS_PORT_STATE \<Rightarrow> bytes" where
  "audio_bytes p = ring_window (audio_in_ring_head p) (audio_in_ring_size p) (audio_in_ring p)"

lemma length_audio_bytes [simp]: "length (audio_bytes p) = audio_in_ring_size p"
  by (simp add: audio_bytes_def)

interpretation microphone: byte_queue mic_ok audio_bytes VdsAudioInRingReadLocked
proof
  fix p n bs p'
  assume ok: "mic_ok p" and r: "VdsAudioInRingReadLocked n p = (bs, p')"
  let ?n = "min n (audio_in_ring_size p)"
  have h: "audio_in_ring_head p < length (audio_in_ring p)" "?n \<le> length (audio_in_ring p)" "?n \<le> audio_in_ring_size p"
    and len: "length (audio_in_ring p) = VDS_AUDIO_IN_RING_SIZE"
    using ok by (auto simp: mic_ok_def)
  have bs: "bs = ring_get (audio_in_ring_head p) ?n (audio_in_ring p)"
    and p': "p' = p\<lparr>audio_in_ring_head := (audio_in_ring_head p + ?n) mod VDS_AUDIO_IN_RING_SIZE,
                 audio_in_ring_size := audio_in_ring_size p - ?n\<rparr>"
    using r len by (auto simp: VdsAudioInRingReadLocked_def ring_get_def Let_def)
  have "mic_ok p'" using ok by (auto simp: p' mic_ok_def VDS_AUDIO_IN_RING_SIZE_def)
  moreover have "bs = take ?n (audio_bytes p)"
    using ring_get_window [OF h(1,2)] ring_window_split(1) [OF h(1,3)] by (simp add: bs audio_bytes_def)
  moreover have "audio_bytes p' = drop ?n (audio_bytes p)"
    using ring_window_split(2) [OF h(1,3)] len by (simp add: p' audio_bytes_def)
  ultimately show "mic_ok p' \<and> bs = take n (audio_bytes p) \<and> audio_bytes p' = drop n (audio_bytes p)"
    by (auto simp: min_def)
qed

text \<open>The plain append, once there is room.\<close>

definition audio_append :: "bytes \<Rightarrow> VDS_PORT_STATE \<Rightarrow> VDS_PORT_STATE" where
  "audio_append bs p =
     p\<lparr>audio_in_ring := ring_put ((audio_in_ring_head p + audio_in_ring_size p) mod VDS_AUDIO_IN_RING_SIZE) bs (audio_in_ring p),
       audio_in_ring_size := audio_in_ring_size p + length bs\<rparr>"

lemma audio_append:
  assumes "mic_ok p" "audio_in_ring_size p + length bs \<le> VDS_AUDIO_IN_RING_SIZE"
  shows "mic_ok (audio_append bs p)" "audio_bytes (audio_append bs p) = audio_bytes p @ bs"
proof -
  have r: "length (audio_in_ring p) = VDS_AUDIO_IN_RING_SIZE" "audio_in_ring_head p < length (audio_in_ring p)"
    "audio_in_ring_size p + length bs \<le> length (audio_in_ring p)"
    using assms by (auto simp: mic_ok_def)
  then show "mic_ok (audio_append bs p)"
    using assms by (simp add: audio_append_def mic_ok_def)
  show "audio_bytes (audio_append bs p) = audio_bytes p @ bs"
    using ring_window_put [OF r(2,3)] r(1) by (simp add: audio_append_def audio_bytes_def)
qed

definition audio_drop :: "nat \<Rightarrow> VDS_PORT_STATE \<Rightarrow> VDS_PORT_STATE" where
  "audio_drop d p = p\<lparr>audio_in_ring_head := (audio_in_ring_head p + d) mod VDS_AUDIO_IN_RING_SIZE,
     audio_in_ring_size := audio_in_ring_size p - d\<rparr>"

lemma audio_drop:
  assumes "mic_ok p" "d \<le> audio_in_ring_size p"
  shows "mic_ok (audio_drop d p)" "audio_bytes (audio_drop d p) = drop d (audio_bytes p)"
proof -
  have h: "audio_in_ring_head p < length (audio_in_ring p)" and len: "length (audio_in_ring p) = VDS_AUDIO_IN_RING_SIZE"
    using assms by (auto simp: mic_ok_def)
  show "mic_ok (audio_drop d p)"
    using assms by (auto simp: audio_drop_def mic_ok_def VDS_AUDIO_IN_RING_SIZE_def)
  show "audio_bytes (audio_drop d p) = drop d (audio_bytes p)"
    using ring_window_split(2) [OF h assms(2)] len by (simp add: audio_drop_def audio_bytes_def)
qed

lemma audio_write_eq:
  assumes "mic_ok p"
  shows "VdsAudioInRingWriteLocked payload p =
    (let payload' = newest VDS_AUDIO_IN_RING_SIZE payload;
         p' = (if length payload \<ge> VDS_AUDIO_IN_RING_SIZE then VdsResetAudioInPcm p else p);
         free = VDS_AUDIO_IN_RING_SIZE - audio_in_ring_size p' in
     audio_append payload' (if length payload' > free then audio_drop (length payload' - free) p' else p'))"
proof (cases "length payload \<ge> VDS_AUDIO_IN_RING_SIZE")
  case True
  then show ?thesis
    using assms by (simp add: VdsAudioInRingWriteLocked_def audio_append_def VdsResetAudioInPcm_def newest_def ring_put_def
        Let_def mic_ok_def)
next
  case False
  show ?thesis
  proof (cases "length payload > VDS_AUDIO_IN_RING_SIZE - audio_in_ring_size p")
    case True
    have len: "length (audio_in_ring (audio_drop d p)) = VDS_AUDIO_IN_RING_SIZE" for d
      using assms by (simp add: mic_ok_def audio_drop_def)
    have new: "newest VDS_AUDIO_IN_RING_SIZE payload = payload" using False by (simp add: newest_all)
    have short: "(VDS_AUDIO_IN_RING_SIZE \<le> length payload) = False"
      "(VDS_AUDIO_IN_RING_SIZE - audio_in_ring_size p < length payload) = True" using False True by simp_all
    show ?thesis
      by (simp only: VdsAudioInRingWriteLocked_def audio_append_def audio_drop_def [symmetric] ring_put_def Let_def new short
          if_True if_False prod.case len)
  next
    case no: False
    with False show ?thesis
      using assms by (simp add: VdsAudioInRingWriteLocked_def audio_append_def newest_def ring_put_def
          Let_def mic_ok_def)
  qed
qed

text \<open>Writing keeps the newest bytes of what was there and what is new.\<close>

lemma audio_write:
  assumes ok: "mic_ok p"
  shows "mic_ok (VdsAudioInRingWriteLocked payload p)"
    "audio_bytes (VdsAudioInRingWriteLocked payload p) = newest VDS_AUDIO_IN_RING_SIZE (audio_bytes p @ payload)"
proof -
  let ?c = "VDS_AUDIO_IN_RING_SIZE" and ?new = "newest VDS_AUDIO_IN_RING_SIZE payload"
  let ?p = "if length payload \<ge> ?c then VdsResetAudioInPcm p else p"
  let ?d = "length ?new - (?c - audio_in_ring_size ?p)"
  let ?q = "if length ?new > ?c - audio_in_ring_size ?p then audio_drop ?d ?p else ?p"
  have p: "mic_ok ?p" using ok by (auto simp: mic_ok_def VdsResetAudioInPcm_def VDS_AUDIO_IN_RING_SIZE_def)
  then have sz: "audio_in_ring_size ?p \<le> ?c" by (auto simp: mic_ok_def split: if_splits)
  have d: "?d \<le> audio_in_ring_size ?p" by simp
  have q: "mic_ok ?q" "audio_bytes ?q = drop ?d (audio_bytes ?p)"
    using audio_drop [OF p d] p by auto
  have "length (audio_bytes ?q) = audio_in_ring_size ?p - ?d" unfolding q(2) by simp
  then have room: "audio_in_ring_size ?q + length ?new \<le> ?c" using sz by auto
  have w: "VdsAudioInRingWriteLocked payload p = audio_append ?new ?q"
    unfolding audio_write_eq [OF ok] Let_def ..
  show "mic_ok (VdsAudioInRingWriteLocked payload p)"
    unfolding w by (rule audio_append(1) [OF q(1) room])
  have "audio_bytes (VdsAudioInRingWriteLocked payload p) = drop ?d (audio_bytes ?p) @ ?new"
    unfolding w audio_append(2) [OF q(1) room] q(2) ..
  also have "\<dots> = newest ?c (audio_bytes p @ payload)"
  proof (cases "length payload \<ge> ?c")
    case True
    then have "audio_bytes ?p = []" by (simp add: VdsResetAudioInPcm_def audio_bytes_def)
    with True show ?thesis by (simp add: newest_def)
  next
    case False
    then show ?thesis using sz by (simp add: newest_def add.commute)
  qed
  finally show "audio_bytes (VdsAudioInRingWriteLocked payload p) = newest ?c (audio_bytes p @ payload)" .
qed

end
