(* ===== verification/Ude.thy ===== *)
theory Ude
  imports UdeRings
begin

text \<open>
  The Windows bus driver \<open>windrv/vds_usb/vds_usb.c\<close> as a whole: the device context with its
  ports and statistics, endpoints with their I/O queues, and URBs that are completed later by
  a timer. The handlers of the endpoints follow in \<open>UdeUrbs\<close>; endpoint configuration, the USB
  child device of a port and the control devices in \<open>UdeControl\<close>.

  Handles of the framework are numbers, its objects are maps from numbers to contexts; its
  answers (statuses, allocations) are arguments. A timer is armed until it fires; its
  callback has two critical sections, and so has the flush of an endpoint, which is why both
  are given as two definitions and a composition.
\<close>

section \<open>Statistics\<close>

datatype vds_stat =
    Control_urb_count | Last_control_bm_request | Last_control_b_request | Last_control_w_value | Last_control_w_index
  | Last_control_w_length | Last_control_bytes_completed | Iso_out_request_count | Iso_out_byte_count
  | Iso_in_request_count | Iso_in_byte_count | Audio_in_write_frame_count | Audio_in_write_byte_count
  | Audio_in_read_byte_count | Audio_in_zero_byte_count | Last_pcm_frame_count | Non_iso_urb_count | Last_iso_packets
  | Last_iso_length | Last_non_iso_function | Endpoint_reset_count | Endpoint_start_count | Endpoint_purge_count
  | Configure_count | Configure_endpoint_count | Configure_release_count | Last_configure_type | Last_interface
  | Last_alt_setting | Configure_history_sequence | Async_urb_complete_count | Async_urb_forward_failure_count
  | Delayed_iso_urb_count | Delayed_iso_urb_complete_count | Delayed_iso_urb_timer_failure_count
  | Endpoint_queue_refresh_count | Endpoint_queue_refresh_failure_count | Endpoint_release_delay_count
  | Endpoint_release_delay_complete_count | Endpoint_release_delay_timer_failure_count | Endpoint_purge_complete_count
  | Delayed_pending_count u8 | Purge_pending_count u8 | Purge_work_count u8 | Purge_complete_count u8

text \<open>
  The last four stand for the counters that exist for the audio out, audio in and HID in
  endpoints; the routines that count them ignore other endpoints.
\<close>

definition counted_endpoint :: "u8 \<Rightarrow> bool" where
  "counted_endpoint a \<longleftrightarrow> a = VDS_USB_AUDIO_OUT_ENDPOINT \<or> a = VDS_USB_AUDIO_IN_ENDPOINT \<or> a = VDS_USB_HID_IN_ENDPOINT"

section \<open>State\<close>

record VDS_CONFIGURE_RECORD =
  cr_sequence :: u32
  cr_configure_type :: u32
  cr_interface_number :: u32
  cr_alt_setting :: u32
  cr_endpoints_to_configure :: u32
  cr_released_endpoints :: u32
  cr_configure_endpoint_addresses :: u32
  cr_released_endpoint_addresses :: u32

datatype urb_handler = Control_handler | Iso_out_handler | Iso_in_handler | Hid_in_handler | Hid_out_handler

record VDS_UDECX_ENDPOINT_CONTEXT =
  ep_port_index :: nat
  ep_queue :: "nat option"
  ep_address :: u8
  ep_queue_released :: bool
  ep_handler :: urb_handler

record VDS_ENDPOINT_QUEUE_CONTEXT =
  qc_port_index :: nat
  qc_address :: u8
  qc_handler :: urb_handler
  qc_request_count :: u32
  qc_byte_count :: u64
  delayed_timer :: "nat option"
  delayed_request :: "nat option"

record VDS_DELAYED_URB =
  dl_queue :: nat
  dl_port_index :: nat
  dl_request :: nat
  dl_bytes :: nat
  dl_result :: urb_result
  dl_frame :: "(u16 \<times> bytes) option"
  dl_due_time :: int
  dl_armed :: bool

record ude =
  max_port :: u32
  port_state :: "VDS_PORT_STATE list"
  stats :: "vds_stat \<Rightarrow> u32"
  configure_history :: "VDS_CONFIGURE_RECORD list"
  last_pcm :: "int list \<times> int list"
  last_audio_in_write :: "int list \<times> int list"
  last_audio_in_read :: "int list \<times> int list"
  control_devices :: "bool list"
  du_endpoints :: "nat \<rightharpoonup> VDS_UDECX_ENDPOINT_CONTEXT"
  du_queues :: "nat \<rightharpoonup> VDS_ENDPOINT_QUEUE_CONTEXT"
  du_timers :: "nat \<rightharpoonup> VDS_DELAYED_URB"
  du_next :: nat
  du_log :: "ude_event list"

definition stat_add :: "vds_stat \<Rightarrow> u32 \<Rightarrow> ude \<Rightarrow> ude" where
  "stat_add k v d = d\<lparr>stats := (stats d)(k := stats d k + v)\<rparr>"

definition stat_set :: "vds_stat \<Rightarrow> u32 \<Rightarrow> ude \<Rightarrow> ude" where
  "stat_set k v d = d\<lparr>stats := (stats d)(k := v)\<rparr>"

abbreviation stat_inc :: "vds_stat \<Rightarrow> ude \<Rightarrow> ude" where
  "stat_inc k \<equiv> stat_add k 1"

definition du_emit :: "ude_event list \<Rightarrow> ude \<Rightarrow> ude" where
  "du_emit evs d = d\<lparr>du_log := du_log d @ evs\<rparr>"

definition put_port_state :: "nat \<Rightarrow> VDS_PORT_STATE \<Rightarrow> ude \<Rightarrow> ude" where
  "put_port_state i p d = d\<lparr>port_state := (port_state d)[i := p]\<rparr>"

definition put_queue :: "nat \<Rightarrow> VDS_ENDPOINT_QUEUE_CONTEXT \<Rightarrow> ude \<Rightarrow> ude" where
  "put_queue q c d = d\<lparr>du_queues := (du_queues d)(q \<mapsto> c)\<rparr>"

definition put_endpoint :: "nat \<Rightarrow> VDS_UDECX_ENDPOINT_CONTEXT \<Rightarrow> ude \<Rightarrow> ude" where
  "put_endpoint e c d = d\<lparr>du_endpoints := (du_endpoints d)(e \<mapsto> c)\<rparr>"

definition VdsAdjustEndpointDelayedPending :: "u8 \<Rightarrow> u32 \<Rightarrow> ude \<Rightarrow> ude" where
  "VdsAdjustEndpointDelayedPending a delta d = (if counted_endpoint a then stat_add (Delayed_pending_count a) delta d else d)"

definition VdsIncrementEndpointPurgePending :: "u8 \<Rightarrow> ude \<Rightarrow> ude" where
  "VdsIncrementEndpointPurgePending a d = (if counted_endpoint a then stat_inc (Purge_pending_count a) d else d)"

definition VdsIncrementEndpointPurgeWork :: "u8 \<Rightarrow> ude \<Rightarrow> ude" where
  "VdsIncrementEndpointPurgeWork a d = (if counted_endpoint a then stat_inc (Purge_work_count a) d else d)"

definition VdsIncrementEndpointPurgeComplete :: "u8 \<Rightarrow> ude \<Rightarrow> ude" where
  "VdsIncrementEndpointPurgeComplete a d =
     (let d = stat_inc Endpoint_purge_complete_count d in
      if counted_endpoint a then stat_inc (Purge_complete_count a) d else d)"

section \<open>Frames for the daemon\<close>

definition VdsPortReadyForIo :: "nat \<Rightarrow> ude \<Rightarrow> bool" where
  "VdsPortReadyForIo i d = (if i \<ge> unat (max_port d) then False else bound (port_state d ! i))"

definition VdsQueueFrame :: "nat \<Rightarrow> u16 \<Rightarrow> bytes \<Rightarrow> ude \<Rightarrow> NTSTATUS \<times> ude" where
  "VdsQueueFrame i frame_type payload d =
     (if length payload > VDS_FRAME_MAX_PAYLOAD then (STATUS_INVALID_BUFFER_SIZE, d)
      else if 16 + length payload > VDS_CONTROL_RING_SIZE then (STATUS_INVALID_BUFFER_SIZE, d)
      else if i \<ge> unat (max_port d) then (STATUS_DEVICE_NOT_READY, d)
      else case queue_frame frame_type payload (port_state d ! i) of
        (status, evs, p) \<Rightarrow> (status, du_emit evs (put_port_state i p d)))"

definition VdsQueueInterfaceEvent :: "nat \<Rightarrow> u8 \<Rightarrow> u8 \<Rightarrow> u8 \<Rightarrow> ude \<Rightarrow> ude" where
  "VdsQueueInterfaceEvent i interface_number alt_setting interface_type d =
     snd (VdsQueueFrame i VDS_FRAME_USB_INTERFACE (usb_interface_event interface_number alt_setting interface_type) d)"

section \<open>Completing URBs, now or later\<close>

definition urb_status :: "u32 \<Rightarrow> NTSTATUS \<Rightarrow> bool \<Rightarrow> urb_result" where
  "urb_status usbd nt with_usbd = (if with_usbd then Usbd_status usbd else Nt_status nt)"

definition VdsCompleteUrbAsync :: "nat \<Rightarrow> nat \<Rightarrow> urb_result \<Rightarrow> ude \<Rightarrow> ude" where
  "VdsCompleteUrbAsync request bytes_completed result d =
     stat_inc Async_urb_complete_count (du_emit [Urb_done request bytes_completed result] d)"

definition VdsCompleteDelayedUrb :: "VDS_DELAYED_URB \<Rightarrow> ude \<Rightarrow> ude" where
  "VdsCompleteDelayedUrb t d =
     (let d = (case dl_frame t of None \<Rightarrow> d | Some (ty, payload) \<Rightarrow> snd (VdsQueueFrame (dl_port_index t) ty payload d)) in
      VdsCompleteUrbAsync (dl_request t) (dl_bytes t) (dl_result t) d)"

text \<open>The timer callback: it frees the slot of its queue if it still holds this timer, then completes.\<close>

definition timer_release :: "nat \<Rightarrow> VDS_DELAYED_URB \<Rightarrow> ude \<Rightarrow> ude" where
  "timer_release timer t d =
     (case du_queues d (dl_queue t) of
        None \<Rightarrow> d
      | Some c \<Rightarrow>
          if delayed_timer c = Some timer then
            VdsAdjustEndpointDelayedPending (qc_address c) (- 1)
              (put_queue (dl_queue t) (c\<lparr>delayed_timer := None, delayed_request := None\<rparr>) d)
          else d)"

definition timer_finish :: "nat \<Rightarrow> VDS_DELAYED_URB \<Rightarrow> ude \<Rightarrow> ude" where
  "timer_finish timer t d =
     (let d = VdsCompleteDelayedUrb t (stat_inc Delayed_iso_urb_complete_count d) in
      d\<lparr>du_timers := (du_timers d)(timer := None)\<rparr>)"

definition VdsEvtDelayedUrbCompletionTimer :: "nat \<Rightarrow> VDS_DELAYED_URB \<Rightarrow> ude \<Rightarrow> ude" where
  "VdsEvtDelayedUrbCompletionTimer timer t d = timer_finish timer t (timer_release timer t d)"

definition VdsCompleteUrbAfterDelay ::
  "NTSTATUS \<Rightarrow> nat \<Rightarrow> nat \<Rightarrow> nat \<Rightarrow> urb_result \<Rightarrow> nat \<Rightarrow> u16 \<Rightarrow> bytes option \<Rightarrow> nat \<Rightarrow> ude \<Rightarrow> bool \<times> ude" where
  "VdsCompleteUrbAfterDelay timer_status q request bytes_completed result delay_us frame_type payload n d =
     (case du_queues d q of
        None \<Rightarrow> (False, d)
      | Some c \<Rightarrow>
          if n > VDS_FRAME_MAX_PAYLOAD then
            (False, stat_inc Delayed_iso_urb_timer_failure_count d)
          else if \<not> NT_SUCCESS timer_status then (False, stat_inc Delayed_iso_urb_timer_failure_count d)
          else if delayed_timer c \<noteq> None then
            (False, stat_inc Delayed_iso_urb_timer_failure_count (d\<lparr>du_next := du_next d + 1\<rparr>))
          else
            (let timer = du_next d;
                 t = \<lparr>dl_queue = q, dl_port_index = qc_port_index c, dl_request = request, dl_bytes = bytes_completed,
                      dl_result = result,
                      dl_frame = (case payload of Some b \<Rightarrow> if n > 0 then Some (frame_type, take n b) else None | None \<Rightarrow> None),
                      dl_due_time = - (int delay_us * 10), dl_armed = True\<rparr>;
                 d = d\<lparr>du_next := du_next d + 1, du_timers := (du_timers d)(timer \<mapsto> t)\<rparr>;
                 d = put_queue q (c\<lparr>delayed_timer := Some timer, delayed_request := Some request\<rparr>) d;
                 d = VdsAdjustEndpointDelayedPending (qc_address c) 1 d in
             (True, stat_inc Delayed_iso_urb_count d)))"

text \<open>
  Flushing: the slot is emptied first; the URB is then completed if the timer could be
  stopped, else its callback completes it.
\<close>

definition flush_take :: "nat \<Rightarrow> ude \<Rightarrow> nat option \<times> ude" where
  "flush_take q d =
     (case du_queues d q of
        None \<Rightarrow> (None, d)
      | Some c \<Rightarrow>
          (case delayed_timer c of
             None \<Rightarrow> (None, d)
           | Some timer \<Rightarrow>
               (Some timer,
                VdsIncrementEndpointPurgePending (qc_address c)
                  (VdsAdjustEndpointDelayedPending (qc_address c) (- 1)
                    (put_queue q (c\<lparr>delayed_timer := None, delayed_request := None\<rparr>) d)))))"

definition flush_stop :: "nat \<Rightarrow> u8 \<Rightarrow> ude \<Rightarrow> ude" where
  "flush_stop timer address d =
     VdsIncrementEndpointPurgeComplete address
       (case du_timers d timer of
          None \<Rightarrow> d
        | Some t \<Rightarrow>
            if dl_armed t then
              (let d = VdsIncrementEndpointPurgeWork address d;
                   d = VdsCompleteDelayedUrb t (stat_inc Delayed_iso_urb_complete_count d) in
               d\<lparr>du_timers := (du_timers d)(timer := None)\<rparr>)
            else d)"

definition VdsFlushDelayedEndpointUrb :: "nat \<Rightarrow> ude \<Rightarrow> ude" where
  "VdsFlushDelayedEndpointUrb q d =
     (case flush_take q d of
        (None, d) \<Rightarrow> d
      | (Some timer, d) \<Rightarrow> flush_stop timer (case du_queues d q of Some c \<Rightarrow> qc_address c | None \<Rightarrow> 0) d)"

section \<open>Endpoint callbacks\<close>

definition VdsEvtEndpointReset :: "nat \<Rightarrow> ude \<Rightarrow> ude" where
  "VdsEvtEndpointReset request d = du_emit [Request_done request STATUS_SUCCESS []] (stat_inc Endpoint_reset_count d)"

definition VdsEvtEndpointStart :: "ude \<Rightarrow> ude" where
  "VdsEvtEndpointStart d = stat_inc Endpoint_start_count d"

text \<open>\<open>WdfIoQueuePurge\<close> calls back when the queue has no request left; \<open>True\<close> says that this is outstanding.\<close>

definition VdsEvtEndpointPurge :: "nat \<Rightarrow> ude \<Rightarrow> bool \<times> ude" where
  "VdsEvtEndpointPurge e d =
     (case du_endpoints d e of
        None \<Rightarrow> (False, d)
      | Some c \<Rightarrow>
          (let d = stat_inc Endpoint_purge_count d in
           case ep_queue c of
             Some q \<Rightarrow> (True, VdsIncrementEndpointPurgePending (ep_address c) (VdsFlushDelayedEndpointUrb q d))
           | None \<Rightarrow> (False, du_emit [Purge_done e] d)))"

definition VdsEvtEndpointQueuePurgeComplete :: "nat \<Rightarrow> u8 \<Rightarrow> ude \<Rightarrow> ude" where
  "VdsEvtEndpointQueuePurgeComplete e address d = du_emit [Purge_done e] (VdsIncrementEndpointPurgeComplete address d)"

definition VdsCreateEndpointQueue :: "NTSTATUS \<Rightarrow> nat \<Rightarrow> u8 \<Rightarrow> urb_handler \<Rightarrow> ude \<Rightarrow> (NTSTATUS + nat) \<times> ude" where
  "VdsCreateEndpointQueue queue_status i address handler d =
     (if \<not> NT_SUCCESS queue_status then (Inl queue_status, d)
      else (Inr (du_next d),
            put_queue (du_next d) \<lparr>qc_port_index = i, qc_address = address, qc_handler = handler, qc_request_count = 0,
              qc_byte_count = 0, delayed_timer = None, delayed_request = None\<rparr> (d\<lparr>du_next := du_next d + 1\<rparr>)))"

definition VdsAssignFreshEndpointQueue :: "NTSTATUS \<Rightarrow> nat \<Rightarrow> ude \<Rightarrow> NTSTATUS \<times> ude" where
  "VdsAssignFreshEndpointQueue queue_status e d =
     (case du_endpoints d e of
        None \<Rightarrow> (STATUS_INVALID_PARAMETER, d)
      | Some c \<Rightarrow>
          (case VdsCreateEndpointQueue queue_status (ep_port_index c) (ep_address c) (ep_handler c) d of
             (Inl status, d) \<Rightarrow> (status, stat_inc Endpoint_queue_refresh_failure_count d)
           | (Inr q, d) \<Rightarrow>
               (STATUS_SUCCESS,
                stat_inc Endpoint_queue_refresh_count (put_endpoint e (c\<lparr>ep_queue := Some q, ep_queue_released := False\<rparr>) d))))"

text \<open>Answers to the creation of an endpoint: allocation, creation, and creation of its queue.\<close>

record endpoint_answers =
  ea_allocated :: bool
  ea_created :: NTSTATUS
  ea_queue :: NTSTATUS

definition VdsCreateSimpleEndpoint ::
  "endpoint_answers \<Rightarrow> nat \<Rightarrow> u8 \<Rightarrow> urb_handler \<Rightarrow> ude \<Rightarrow> (NTSTATUS + nat) \<times> ude" where
  "VdsCreateSimpleEndpoint a i address handler d =
     (if \<not> ea_allocated a then (Inl STATUS_INSUFFICIENT_RESOURCES, d)
      else if \<not> NT_SUCCESS (ea_created a) then (Inl (ea_created a), d)
      else (let e = du_next d;
                d = put_endpoint e \<lparr>ep_port_index = i, ep_queue = None, ep_address = address, ep_queue_released = False,
                      ep_handler = handler\<rparr> (d\<lparr>du_next := du_next d + 1\<rparr>) in
            case VdsAssignFreshEndpointQueue (ea_queue a) e d of (status, d) \<Rightarrow>
              (if NT_SUCCESS status then Inr e else Inl status, d)))"

end
