(* ===== verification/UdeUrbs.thy ===== *)
theory UdeUrbs
  imports Ude
begin

text \<open>
  The handlers of the endpoints of the bus driver: control requests, isochronous audio in
  both directions, and HID reports.
\<close>

section \<open>Requests\<close>

text \<open>
  A request carries the control code, the URB (none for a null pointer) and the buffer that
  \<open>UdecxUrbRetrieveBuffer\<close> yields, or the status with which it fails. An isochronous URB has
  its transfer buffer (mapped if need be), the length and the packets with offset, length
  and status.
\<close>

record iso_entry =
  ie_offset :: nat
  ie_length :: nat
  ie_status :: u32

record iso_transfer =
  it_buffer :: "bytes option"
  it_length :: nat
  it_packets :: "iso_entry list"
  it_asap :: bool
  it_start_frame :: u32

datatype usb_urb = Iso_urb iso_transfer | Other_urb u32

record urb_request =
  ur_id :: nat
  ur_submit :: bool
  ur_urb :: "usb_urb option"
  ur_buffer :: "NTSTATUS + bytes"
  ur_setup :: "NTSTATUS + setup_packet"

definition USBD_STATUS_SUCCESS :: u32 where "USBD_STATUS_SUCCESS = 0"
definition USBD_STATUS_DATA_OVERRUN :: u32 where "USBD_STATUS_DATA_OVERRUN = 0xC0000008"
definition vds_iso_out_delay_max_us :: nat where "vds_iso_out_delay_max_us = 20000"
definition vds_iso_out_delay_slack_compensation_us :: nat where "vds_iso_out_delay_slack_compensation_us = 300"
definition vds_endpoint_release_delay_ms :: nat where "vds_endpoint_release_delay_ms = 0"

definition fail_urb :: "urb_request \<Rightarrow> NTSTATUS \<Rightarrow> ude \<Rightarrow> ude" where
  "fail_urb r status d = VdsCompleteUrbAsync (ur_id r) 0 (Nt_status status) d"

definition note_request :: "nat \<Rightarrow> nat \<Rightarrow> ude \<Rightarrow> ude" where
  "note_request q n d =
     (case du_queues d q of
        None \<Rightarrow> d
      | Some c \<Rightarrow> put_queue q (c\<lparr>qc_request_count := qc_request_count c + 1, qc_byte_count := qc_byte_count c + of_nat n\<rparr>) d)"

section \<open>Endpoint zero\<close>

definition record_control :: "setup_packet \<Rightarrow> nat \<Rightarrow> ude \<Rightarrow> ude" where
  "record_control s n d =
     stat_set Last_control_bytes_completed (of_nat n)
       (stat_set Last_control_w_length (ucast (sp_length s)) (stat_set Last_control_w_index (ucast (sp_index s))
         (stat_set Last_control_w_value (ucast (sp_value s)) (stat_set Last_control_b_request (ucast (sp_request s))
           (stat_set Last_control_bm_request (ucast (sp_request_type s)) (stat_inc Control_urb_count d))))))"

text \<open>The second result is the transfer buffer as the host sees it after completion.\<close>

definition VdsEvtControlUrb :: "nat \<Rightarrow> urb_request \<Rightarrow> ude \<Rightarrow> bytes option \<times> ude" where
  "VdsEvtControlUrb q r d =
     (case du_queues d q of
        None \<Rightarrow> (None, d)
      | Some c \<Rightarrow>
          (let buffer = (case ur_buffer r of Inl _ \<Rightarrow> None | Inr b \<Rightarrow> Some b); i = qc_port_index c in
           if \<not> ur_submit r then (buffer, fail_urb r STATUS_INVALID_DEVICE_REQUEST d)
           else case ur_setup r of
             Inl status \<Rightarrow> (buffer, fail_urb r status d)
           | Inr s \<Rightarrow>
               if i \<ge> unat (max_port d) then (buffer, fail_urb r STATUS_DEVICE_NOT_READY d)
               else case ude_control_request s buffer (port_state d ! i) of
                 (status, n, b, evs, p) \<Rightarrow>
                   (b, du_emit [Urb_done (ur_id r) n (if NT_SUCCESS status then Usbd_status USBD_STATUS_SUCCESS else Nt_status status)]
                         (record_control s n (du_emit evs (put_port_state i p d))))))"

section \<open>Isochronous audio\<close>

definition VdsIsoTransferBuffer :: "usb_urb option \<Rightarrow> bytes option" where
  "VdsIsoTransferBuffer u = (case u of Some (Iso_urb t) \<Rightarrow> it_buffer t | _ \<Rightarrow> None)"

definition VdsRecordIsoPcmSamples :: "iso_transfer \<Rightarrow> ude \<Rightarrow> ude" where
  "VdsRecordIsoPcmSamples t d =
     (case it_buffer t of
        None \<Rightarrow> d
      | Some bs \<Rightarrow>
          (case pcm_statistics VDS_PCM_CHANNELS bs (it_length t) of
             None \<Rightarrow> d
           | Some new \<Rightarrow> (stat_set Last_pcm_frame_count (of_nat (it_length t div (2 * VDS_PCM_CHANNELS))) d)\<lparr>last_pcm := new\<rparr>))"

definition iso_out_delay_us :: "nat \<Rightarrow> nat" where
  "iso_out_delay_us packets =
     (let delay = unat (of_nat packets * 1000 :: u32);
          delay = (if delay = 0 then 1000 else delay);
          delay = min delay vds_iso_out_delay_max_us in
      if delay > 1000 + vds_iso_out_delay_slack_compensation_us then delay - vds_iso_out_delay_slack_compensation_us else delay)"

text \<open>Packet lengths follow from the offsets.\<close>

fun iso_out_packets :: "nat \<Rightarrow> iso_entry list \<Rightarrow> iso_entry list" where
  "iso_out_packets n [] = []"
| "iso_out_packets n (e # es) =
     (let next_offset = (case es of [] \<Rightarrow> n | f # _ \<Rightarrow> ie_offset f) in
      e\<lparr>ie_length := (if next_offset > ie_offset e then next_offset - ie_offset e else 0), ie_status := USBD_STATUS_SUCCESS\<rparr> #
      iso_out_packets n es)"

definition VdsEvtIsoOutUrb :: "NTSTATUS \<Rightarrow> nat \<Rightarrow> urb_request \<Rightarrow> ude \<Rightarrow> usb_urb option \<times> ude" where
  "VdsEvtIsoOutUrb timer_status q r d =
     (case du_queues d q of
        None \<Rightarrow> (ur_urb r, d)
      | Some c \<Rightarrow>
          if \<not> ur_submit r then (ur_urb r, fail_urb r STATUS_INVALID_DEVICE_REQUEST d)
          else case ur_urb r of
            Some (Iso_urb t) \<Rightarrow>
              (let d = note_request q (it_length t) d;
                   d = stat_add Iso_out_byte_count (of_nat (it_length t)) (stat_inc Iso_out_request_count d);
                   d = stat_set Last_iso_length (of_nat (it_length t))
                         (stat_set Last_iso_packets (of_nat (length (it_packets t))) d);
                   buffer = VdsIsoTransferBuffer (ur_urb r);
                   d = VdsRecordIsoPcmSamples t d;
                   t' = t\<lparr>it_packets := iso_out_packets (it_length t) (it_packets t)\<rparr> in
               case VdsCompleteUrbAfterDelay timer_status q (ur_id r) (it_length t) (Usbd_status USBD_STATUS_SUCCESS)
                      (iso_out_delay_us (length (it_packets t))) VDS_FRAME_USB_AUDIO_OUT buffer (it_length t) d of
                 (True, d) \<Rightarrow> (Some (Iso_urb t'), d)
               | (False, d) \<Rightarrow>
                   (let d = (case buffer of Some b \<Rightarrow> (if it_length t > 0
                               then snd (VdsQueueFrame (qc_port_index c) VDS_FRAME_USB_AUDIO_OUT (take (it_length t) b) d) else d) | None \<Rightarrow> d) in
                    (Some (Iso_urb t'), VdsCompleteUrbAsync (ur_id r) (it_length t) (Usbd_status USBD_STATUS_SUCCESS) d)))
          | u \<Rightarrow>
              (let d = (case u of Some (Other_urb f) \<Rightarrow> stat_set Last_non_iso_function f (stat_inc Non_iso_urb_count d) | _ \<Rightarrow> d) in
               case ur_buffer r of
                 Inr b \<Rightarrow> (u, VdsCompleteUrbAsync (ur_id r) (length b) (Nt_status STATUS_SUCCESS) (note_request q (length b) d))
               | Inl _ \<Rightarrow> (u, VdsCompleteUrbAsync (ur_id r) 0 (Nt_status STATUS_SUCCESS) d)))"

text \<open>
  The loop over the packets of an IN transfer, with the transfer buffer, its mirror (the
  buffer of \<open>UdecxUrbRetrieveBuffer\<close> if that is another one), the port, and the sums of the
  bytes completed and read.
\<close>

record iso_in_state =
  is_buffer :: "bytes option"
  is_mirror :: "bytes option"
  is_port :: VDS_PORT_STATE
  is_completed :: nat
  is_read :: nat

definition iso_in_fill :: "nat \<Rightarrow> nat \<Rightarrow> iso_in_state \<Rightarrow> iso_in_state" where
  "iso_in_fill offset packet_capacity x =
     (case is_buffer x of
        None \<Rightarrow> x
      | Some b \<Rightarrow>
          (let audio_length = min packet_capacity VDS_IN_BYTES_PER_MS in
           case VdsCopyAudioInPcm audio_length (is_port x) of (bs, got, p) \<Rightarrow>
             (let b = blit offset bs b;
                  b = (if audio_length < packet_capacity
                       then blit (offset + audio_length) (replicate (packet_capacity - audio_length) 0) b else b) in
              x\<lparr>is_buffer := Some b, is_port := p, is_read := is_read x + got\<rparr>)))"

definition iso_in_copy :: "nat \<Rightarrow> nat \<Rightarrow> iso_in_state \<Rightarrow> iso_in_state" where
  "iso_in_copy offset packet_capacity x =
     (case (is_mirror x, is_buffer x) of
        (Some m, Some b) \<Rightarrow>
          if offset < length m then
            x\<lparr>is_mirror := Some (blit offset (take (min packet_capacity (length m - offset)) (drop offset b)) m)\<rparr>
          else x
      | _ \<Rightarrow> x)"

definition iso_in_packet :: "nat \<Rightarrow> nat \<Rightarrow> iso_entry \<Rightarrow> iso_in_state \<Rightarrow> iso_entry \<times> iso_in_state" where
  "iso_in_packet n next e x =
     (if ie_offset e > n then (e\<lparr>ie_length := 0, ie_status := USBD_STATUS_DATA_OVERRUN\<rparr>, x)
      else (let next_offset = min next n;
                packet_capacity = (if next_offset > ie_offset e then next_offset - ie_offset e else 0);
                audio_length = min packet_capacity VDS_IN_BYTES_PER_MS;
                x = iso_in_copy (ie_offset e) packet_capacity (iso_in_fill (ie_offset e) packet_capacity x) in
            (e\<lparr>ie_length := audio_length, ie_status := USBD_STATUS_SUCCESS\<rparr>, x\<lparr>is_completed := is_completed x + audio_length\<rparr>)))"

fun iso_in_packets :: "nat \<Rightarrow> iso_entry list \<Rightarrow> iso_in_state \<Rightarrow> iso_entry list \<times> iso_in_state" where
  "iso_in_packets n [] x = ([], x)"
| "iso_in_packets n (e # es) x =
     (case iso_in_packet n (case es of [] \<Rightarrow> n | f # _ \<Rightarrow> ie_offset f) e x of (e, x) \<Rightarrow>
      case iso_in_packets n es x of (es, x) \<Rightarrow> (e # es, x))"

definition iso_in_delay_us :: "u32 \<Rightarrow> iso_transfer \<Rightarrow> nat" where
  "iso_in_delay_us current_frame t =
     (let frame_delay = (if \<not> it_asap t \<and> sint (it_start_frame t - current_frame) > 0
                         then it_start_frame t - current_frame else 0);
          delay = (frame_delay + of_nat (length (it_packets t))) * 1000 in
      min (max (unat delay) 1000) vds_iso_out_delay_max_us)"

text \<open>The transfer buffer, its length and the mirror; without a transfer buffer the other one is filled.\<close>

definition iso_in_buffers :: "iso_transfer \<Rightarrow> bytes option \<Rightarrow> bytes option \<times> nat \<times> bytes option" where
  "iso_in_buffers t mirror =
     (case (it_buffer t, mirror) of
        (None, Some m) \<Rightarrow> (Some m, min (it_length t) (length m), None)
      | (b, m) \<Rightarrow> (b, it_length t, m))"

definition VdsEvtIsoInUrb :: "NTSTATUS \<Rightarrow> u32 \<Rightarrow> nat \<Rightarrow> urb_request \<Rightarrow> ude \<Rightarrow> usb_urb option \<times> bytes option \<times> ude" where
  "VdsEvtIsoInUrb timer_status current_frame q r d =
     (case du_queues d q of
        None \<Rightarrow> (ur_urb r, None, d)
      | Some c \<Rightarrow>
          if \<not> ur_submit r then (ur_urb r, None, fail_urb r STATUS_INVALID_DEVICE_REQUEST d)
          else case ur_urb r of
            Some (Iso_urb t) \<Rightarrow>
              (let i = qc_port_index c in
               if i \<ge> unat (max_port d) then (ur_urb r, None, fail_urb r STATUS_DEVICE_NOT_READY d)
               else
                 (let mirror = (case ur_buffer r of Inr m \<Rightarrow> Some m | Inl _ \<Rightarrow> None);
                      (buffer, n, mirror) = iso_in_buffers t mirror in
                  case iso_in_packets n (it_packets t)
                         \<lparr>is_buffer = buffer, is_mirror = mirror, is_port = port_state d ! i, is_completed = 0, is_read = 0\<rparr> of
                    (packets, x) \<Rightarrow>
                      (let d = put_port_state i (is_port x) d;
                           d = note_request q (is_completed x) d;
                           d = d\<lparr>last_audio_in_read := VdsRecordAudioInPcmSamples (is_buffer x) n (last_audio_in_read d)\<rparr>;
                           d = stat_add Iso_in_byte_count (of_nat (is_completed x)) (stat_inc Iso_in_request_count d);
                           d = stat_set Last_iso_length (of_nat n) (stat_set Last_iso_packets (of_nat (length (it_packets t))) d);
                           d = stat_add Audio_in_zero_byte_count (of_nat (is_completed x) - of_nat (is_read x))
                                 (stat_add Audio_in_read_byte_count (of_nat (is_read x)) d);
                           t' = t\<lparr>it_buffer := (if it_buffer t = None then None else is_buffer x), it_packets := packets,
                                  it_length := is_completed x\<rparr>;
                           out = (if it_buffer t = None then is_buffer x else is_mirror x) in
                       case VdsCompleteUrbAfterDelay timer_status q (ur_id r) (is_completed x) (Usbd_status USBD_STATUS_SUCCESS)
                              (iso_in_delay_us current_frame t) 0 None 0 d of
                         (True, d) \<Rightarrow> (Some (Iso_urb t'), out, d)
                       | (False, d) \<Rightarrow>
                           (Some (Iso_urb t'), out, VdsCompleteUrbAsync (ur_id r) (is_completed x) (Usbd_status USBD_STATUS_SUCCESS) d))))
          | u \<Rightarrow>
              (u, None, VdsCompleteUrbAsync (ur_id r) 0 (Nt_status STATUS_SUCCESS)
                 (stat_set Last_non_iso_function (case u of Some (Other_urb f) \<Rightarrow> f | _ \<Rightarrow> 0xffffffff)
                   (stat_inc Non_iso_urb_count d))))"

section \<open>HID reports\<close>

definition VdsEvtHidOutUrb :: "nat \<Rightarrow> urb_request \<Rightarrow> ude \<Rightarrow> ude" where
  "VdsEvtHidOutUrb q r d =
     (case du_queues d q of
        None \<Rightarrow> d
      | Some c \<Rightarrow>
          if \<not> ur_submit r then fail_urb r STATUS_INVALID_DEVICE_REQUEST d
          else case ur_buffer r of
            Inl status \<Rightarrow> fail_urb r status d
          | Inr b \<Rightarrow>
              (let d = note_request q (length b) d;
                   d = (if length b > 0 then snd (VdsQueueFrame (qc_port_index c) VDS_FRAME_USB_HID_OUT b d) else d) in
               VdsCompleteUrbAsync (ur_id r) (length b) (Usbd_status USBD_STATUS_SUCCESS) d))"

definition VdsEvtHidInUrb :: "NTSTATUS \<Rightarrow> nat \<Rightarrow> urb_request \<Rightarrow> ude \<Rightarrow> bytes option \<times> ude" where
  "VdsEvtHidInUrb timer_status q r d =
     (case du_queues d q of
        None \<Rightarrow> (None, d)
      | Some c \<Rightarrow>
          if \<not> ur_submit r then (None, fail_urb r STATUS_INVALID_DEVICE_REQUEST d)
          else case ur_buffer r of
            Inl status \<Rightarrow> (None, fail_urb r status d)
          | Inr b \<Rightarrow>
              if qc_port_index c \<ge> unat (max_port d) then (Some b, fail_urb r STATUS_DEVICE_NOT_READY d)
              else (case VdsCopyInputReport (length b) (Some b) (port_state d ! qc_port_index c) of
                (n, out) \<Rightarrow>
                  (case VdsCompleteUrbAfterDelay timer_status q (ur_id r) n (Usbd_status USBD_STATUS_SUCCESS) 4 0 None 0
                          (note_request q n d) of
                     (True, d) \<Rightarrow> (out, d)
                   | (False, d) \<Rightarrow> (out, VdsCompleteUrbAsync (ur_id r) n (Usbd_status USBD_STATUS_SUCCESS) d))))"

end
