(* ===== verification/UdeControl.thy ===== *)
theory UdeControl
  imports UdeUrbs
begin

text \<open>
  The rest of the bus driver: configuration of endpoints, the USB child device of a port
  (created, plugged, deleted), and the control devices \<open>vds0\<close> to \<open>vds3\<close> with their requests
  (bind, unbind, port and driver information, statistics, read, write, cleanup), and the
  initialisation of the device.
\<close>

section \<open>Configuring endpoints\<close>

record configure_params =
  cp_type :: u32
  cp_interface :: u32
  cp_setting :: u32
  cp_configure :: "nat list"
  cp_release :: "nat list"

definition VDS_CONFIGURE_HISTORY_SIZE :: nat where "VDS_CONFIGURE_HISTORY_SIZE = 8"

definition UdecxEndpointsConfigureTypeInterfaceSettingChange :: u32 where
  "UdecxEndpointsConfigureTypeInterfaceSettingChange = 2"

definition interface_setting_change :: "configure_params \<Rightarrow> bool" where
  "interface_setting_change c \<longleftrightarrow> cp_type c = UdecxEndpointsConfigureTypeInterfaceSettingChange"

definition address_of :: "nat \<Rightarrow> ude \<Rightarrow> u8" where
  "address_of e d = (case du_endpoints d e of Some c \<Rightarrow> ep_address c | None \<Rightarrow> 0)"

text \<open>The addresses of the first four endpoints in the bytes of one word.\<close>

definition packed_addresses :: "nat list \<Rightarrow> ude \<Rightarrow> u32" where
  "packed_addresses es d =
     fold (\<lambda>k w. w OR push_bit (8 * k) (ucast (address_of (es ! k) d))) [0..<min 4 (length es)] 0"

fun release_endpoints :: "nat list \<Rightarrow> ude \<Rightarrow> ude" where
  "release_endpoints [] d = d"
| "release_endpoints (e # es) d =
     (case du_endpoints d e of
        None \<Rightarrow> release_endpoints es d
      | Some c \<Rightarrow>
          (let d = (case ep_queue c of Some q \<Rightarrow> VdsFlushDelayedEndpointUrb q d | None \<Rightarrow> d) in
           release_endpoints es (put_endpoint e (c\<lparr>ep_queue_released := True\<rparr>) d)))"

fun refresh_endpoints :: "(nat \<Rightarrow> NTSTATUS) \<Rightarrow> nat list \<Rightarrow> ude \<Rightarrow> NTSTATUS \<times> ude" where
  "refresh_endpoints answers [] d = (STATUS_SUCCESS, d)"
| "refresh_endpoints answers (e # es) d =
     (case du_endpoints d e of
        None \<Rightarrow> refresh_endpoints answers es d
      | Some c \<Rightarrow>
          if ep_queue_released c \<or> ep_queue c = None then
            (case VdsAssignFreshEndpointQueue (answers e) e d of (status, d) \<Rightarrow>
               if \<not> NT_SUCCESS status then (status, d) else refresh_endpoints answers es d)
          else refresh_endpoints answers es d)"

definition set_altsetting :: "nat \<Rightarrow> nat \<Rightarrow> u8 \<Rightarrow> ude \<Rightarrow> ude" where
  "set_altsetting i k v d =
     (let p = port_state d ! i in put_port_state i (p\<lparr>interface_altsetting := (interface_altsetting p)[k := v]\<rparr>) d)"

definition record_configure :: "configure_params \<Rightarrow> ude \<Rightarrow> ude" where
  "record_configure c d =
     (let d = stat_set Last_alt_setting (cp_setting c) (stat_set Last_interface (cp_interface c)
                (stat_set Last_configure_type (cp_type c)
                  (stat_add Configure_release_count (of_nat (length (cp_release c)))
                    (stat_add Configure_endpoint_count (of_nat (length (cp_configure c))) (stat_inc Configure_count d)))));
          d = stat_inc Configure_history_sequence d;
          s = stats d Configure_history_sequence in
      d\<lparr>configure_history := (configure_history d)[unat (s - 1) mod VDS_CONFIGURE_HISTORY_SIZE :=
          \<lparr>cr_sequence = s, cr_configure_type = cp_type c, cr_interface_number = cp_interface c, cr_alt_setting = cp_setting c,
           cr_endpoints_to_configure = of_nat (length (cp_configure c)), cr_released_endpoints = of_nat (length (cp_release c)),
           cr_configure_endpoint_addresses = packed_addresses (cp_configure c) d,
           cr_released_endpoint_addresses = packed_addresses (cp_release c) d\<rparr>]\<rparr>)"

definition announce_audio_out :: "nat \<Rightarrow> configure_params \<Rightarrow> bool \<Rightarrow> bool \<Rightarrow> ude \<Rightarrow> ude" where
  "announce_audio_out i c configured released d =
     (if released \<and> \<not> configured then
        VdsQueueInterfaceEvent i 1 0 VDS_USB_INTERFACE_AUDIO_OUT (set_altsetting i 1 0 d)
      else if interface_setting_change c \<and> cp_interface c = 1 then
        VdsQueueInterfaceEvent i 1 (ucast (cp_setting c)) VDS_USB_INTERFACE_AUDIO_OUT d
      else d)"

definition announce_audio_in :: "nat \<Rightarrow> configure_params \<Rightarrow> bool \<Rightarrow> bool \<Rightarrow> ude \<Rightarrow> ude" where
  "announce_audio_in i c configured released d =
     (if released \<and> \<not> configured then
        VdsQueueInterfaceEvent i 2 0 VDS_USB_INTERFACE_AUDIO_IN (set_altsetting i 2 0 d)
      else if interface_setting_change c \<and> cp_interface c = 2 then
        VdsQueueInterfaceEvent i 2 (ucast (cp_setting c)) VDS_USB_INTERFACE_AUDIO_IN d
      else if configured then
        VdsQueueInterfaceEvent i 2 1 VDS_USB_INTERFACE_AUDIO_IN (set_altsetting i 2 1 d)
      else d)"

definition VdsEvtEndpointsConfigure :: "(nat \<Rightarrow> NTSTATUS) \<Rightarrow> nat \<Rightarrow> nat \<Rightarrow> configure_params \<Rightarrow> ude \<Rightarrow> ude" where
  "VdsEvtEndpointsConfigure answers i request c d =
     (let d = record_configure c d;
          d = (if interface_setting_change c \<and> unat (cp_interface c) < length (interface_altsetting (port_state d ! i))
               then set_altsetting i (unat (cp_interface c)) (ucast (cp_setting c)) d else d);
          has = (\<lambda>a es. \<exists>e \<in> set es. address_of e d = a);
          out_configured = has VDS_USB_AUDIO_OUT_ENDPOINT (cp_configure c);
          in_configured = has VDS_USB_AUDIO_IN_ENDPOINT (cp_configure c);
          out_released = has VDS_USB_AUDIO_OUT_ENDPOINT (cp_release c);
          in_released = has VDS_USB_AUDIO_IN_ENDPOINT (cp_release c);
          d = release_endpoints (cp_release c) d in
      case refresh_endpoints answers (cp_configure c) d of (status, d) \<Rightarrow>
        if \<not> NT_SUCCESS status then du_emit [Request_done request status []] d
        else (let d = announce_audio_out i c out_configured out_released d;
                  d = announce_audio_in i c in_configured in_released d;
                  d = (if interface_setting_change c \<and> cp_interface c = 3 then
                         VdsQueueInterfaceEvent i (ucast (cp_interface c)) (ucast (cp_setting c)) VDS_USB_INTERFACE_HID d
                       else d) in
              du_emit [Request_done request STATUS_SUCCESS []] d))"

section \<open>The USB child device\<close>

record child_answers =
  ca_init :: bool
  ca_stage :: "nat \<Rightarrow> NTSTATUS"
  ca_endpoint :: "u8 \<Rightarrow> endpoint_answers"
  ca_plug_in :: NTSTATUS
  ca_plug_out :: NTSTATUS

definition VdsAddStringDescriptor :: "NTSTATUS \<Rightarrow> string \<Rightarrow> NTSTATUS" where
  "VdsAddStringDescriptor answer s = (if length s \<ge> 128 then STATUS_BUFFER_TOO_SMALL else answer)"

definition VdsDeleteUsbChildDevice :: "child_answers \<Rightarrow> nat \<Rightarrow> ude \<Rightarrow> NTSTATUS \<times> ude" where
  "VdsDeleteUsbChildDevice a i d =
     (if i \<ge> unat (max_port d) then (STATUS_DEVICE_NOT_READY, d)
      else (let p = port_state d ! i in
        case usb_device p of
          None \<Rightarrow> (STATUS_SUCCESS, d)
        | Some u \<Rightarrow>
            if \<not> NT_SUCCESS (ca_plug_out a) then (ca_plug_out a, d)
            else (STATUS_SUCCESS,
                  put_port_state i (p\<lparr>usb_device := None, default_endpoint := None, audio_out_endpoint := None,
                    audio_in_endpoint := None, hid_in_endpoint := None, hid_out_endpoint := None,
                    usb_device_plugged := False, usb_profile := 0, usb_profile_valid := False\<rparr>) d)))"

text \<open>The endpoints in the order of their creation, each with the field that keeps its handle.\<close>

definition child_endpoints :: "(u8 \<times> urb_handler \<times> (nat option \<Rightarrow> VDS_PORT_STATE \<Rightarrow> VDS_PORT_STATE)) list" where
  "child_endpoints =
     [(0x00, Control_handler, \<lambda>e. default_endpoint_update (\<lambda>_. e)),
      (VDS_USB_AUDIO_OUT_ENDPOINT, Iso_out_handler, \<lambda>e. audio_out_endpoint_update (\<lambda>_. e)),
      (VDS_USB_AUDIO_IN_ENDPOINT, Iso_in_handler, \<lambda>e. audio_in_endpoint_update (\<lambda>_. e)),
      (VDS_USB_HID_IN_ENDPOINT, Hid_in_handler, \<lambda>e. hid_in_endpoint_update (\<lambda>_. e)),
      (VDS_USB_HID_OUT_ENDPOINT, Hid_out_handler, \<lambda>e. hid_out_endpoint_update (\<lambda>_. e))]"

fun create_endpoints ::
  "child_answers \<Rightarrow> nat \<Rightarrow> (u8 \<times> urb_handler \<times> (nat option \<Rightarrow> VDS_PORT_STATE \<Rightarrow> VDS_PORT_STATE)) list \<Rightarrow> ude \<Rightarrow> NTSTATUS \<times> ude" where
  "create_endpoints a i [] d = (STATUS_SUCCESS, d)"
| "create_endpoints a i ((address, handler, keep) # es) d =
     (case VdsCreateSimpleEndpoint (ca_endpoint a address) i address handler d of
        (Inl status, d) \<Rightarrow> (status, d)
      | (Inr e, d) \<Rightarrow> create_endpoints a i es (put_port_state i (keep (Some e) (port_state d ! i)) d))"

text \<open>The first failing stage ends the creation; the init object stays with the port until the device exists.\<close>

definition first_failure :: "NTSTATUS list \<Rightarrow> NTSTATUS option" where
  "first_failure ss = List.find (\<lambda>s. \<not> NT_SUCCESS s) ss"

definition create_child :: "child_answers \<Rightarrow> u32 \<Rightarrow> nat \<Rightarrow> ude \<Rightarrow> NTSTATUS \<times> ude" where
  "create_child a profile i d =
     (let p = port_state d ! i in
      if \<not> ca_init a then (STATUS_INSUFFICIENT_RESOURCES, put_port_state i (p\<lparr>usb_device_init := False\<rparr>) d)
      else (let d = put_port_state i (p\<lparr>usb_device_init := True\<rparr>) d in
        case first_failure [ca_stage a 0x101, ca_stage a 0x102, ca_stage a 0x103,
               VdsAddStringDescriptor (ca_stage a 0x104) VDS_USB_MANUFACTURER_STRING,
               VdsAddStringDescriptor (ca_stage a 0x105) (VdsProductStringForProfile profile), ca_stage a 0x106] of
          Some status \<Rightarrow> (status, d)
        | None \<Rightarrow>
            (let d = put_port_state i (p\<lparr>usb_device_init := False, usb_device := Some (du_next d)\<rparr>) (d\<lparr>du_next := du_next d + 1\<rparr>) in
             case create_endpoints a i child_endpoints d of (status, d) \<Rightarrow>
               if \<not> NT_SUCCESS status then (status, d)
               else (STATUS_SUCCESS,
                     put_port_state i ((port_state d ! i)\<lparr>usb_profile := profile, usb_profile_valid := True\<rparr>) d))))"

definition VdsCreateUsbChildDevice :: "child_answers \<Rightarrow> nat \<Rightarrow> ude \<Rightarrow> NTSTATUS \<times> ude" where
  "VdsCreateUsbChildDevice a i d =
     (if i \<ge> unat (max_port d) then (STATUS_DEVICE_NOT_READY, d)
      else (let p = port_state d ! i;
                profile = (if VdsIsValidProfile (ps_profile p) then ps_profile p else VDS_PROFILE_DSE) in
        if usb_device p \<noteq> None then
          (if usb_profile_valid p \<and> usb_profile p = profile then (STATUS_SUCCESS, d)
           else case VdsDeleteUsbChildDevice a i d of (status, d) \<Rightarrow>
             if \<not> NT_SUCCESS status then (status, d) else create_child a profile i d)
        else create_child a profile i d))"

definition VdsPlugUsbChildDevice :: "child_answers \<Rightarrow> nat \<Rightarrow> ude \<Rightarrow> NTSTATUS \<times> ude" where
  "VdsPlugUsbChildDevice a i d =
     (if i \<ge> unat (max_port d) then (STATUS_DEVICE_NOT_READY, d)
      else case VdsCreateUsbChildDevice a i d of (status, d) \<Rightarrow>
        if \<not> NT_SUCCESS status then (status, d)
        else if usb_device_plugged (port_state d ! i) then (STATUS_SUCCESS, d)
        else if NT_SUCCESS (ca_plug_in a) then
          (ca_plug_in a, put_port_state i ((port_state d ! i)\<lparr>usb_device_plugged := True\<rparr>) d)
        else (ca_plug_in a, d))"

section \<open>The control device\<close>

text \<open>A request that has no data to return, and one that does.\<close>

definition done_with :: "nat \<Rightarrow> NTSTATUS \<Rightarrow> ude \<Rightarrow> ude" where
  "done_with request status d = du_emit [Request_done request status []] d"

definition VDS_PORT_INFO_VERSION :: u32 where "VDS_PORT_INFO_VERSION = 2"
definition VDS_PORT_BIND_VERSION :: u32 where "VDS_PORT_BIND_VERSION = 1"
definition VDS_PORT_INFO_ENABLED :: u32 where "VDS_PORT_INFO_ENABLED = 1"
definition VDS_PORT_INFO_ACTIVE :: u32 where "VDS_PORT_INFO_ACTIVE = 2"
definition VDS_PORT_INFO_USB_PLUGGED :: u32 where "VDS_PORT_INFO_USB_PLUGGED = 4"
definition VDS_PORT_INFO_BOUND :: u32 where "VDS_PORT_INFO_BOUND = 8"
definition VDS_PORT_INFO_PROFILE_VALID :: u32 where "VDS_PORT_INFO_PROFILE_VALID = 16"
definition VDS_PORT_INFO_USB_PROFILE_VALID :: u32 where "VDS_PORT_INFO_USB_PROFILE_VALID = 32"

definition port_flags :: "nat \<Rightarrow> ude \<Rightarrow> u32" where
  "port_flags i d =
     (let p = port_state d ! i in
      (if i < unat (max_port d) then VDS_PORT_INFO_ENABLED else 0) OR
      (if bound p then VDS_PORT_INFO_BOUND OR VDS_PORT_INFO_PROFILE_VALID else 0) OR
      (if bound p then VDS_PORT_INFO_ACTIVE else 0) OR
      (if usb_device_plugged p then VDS_PORT_INFO_USB_PLUGGED else 0) OR
      (if usb_profile_valid p then VDS_PORT_INFO_USB_PROFILE_VALID else 0))"

definition VdsCompletePortInfo :: "NTSTATUS \<Rightarrow> nat \<Rightarrow> nat \<Rightarrow> ude \<Rightarrow> ude" where
  "VdsCompletePortInfo output_status i request d =
     (if \<not> NT_SUCCESS output_status then done_with request output_status d
      else (let p = port_state d ! i in
        du_emit [Request_done request STATUS_SUCCESS
          (le32 VDS_PORT_INFO_VERSION @ le32 28 @ le32 (of_nat i) @ le32 (max_port d) @ le32 (port_flags i d) @
           le32 (ps_profile p) @ le32 (usb_profile p))] d))"

definition VdsCompleteDriverInfo :: "NTSTATUS \<Rightarrow> string \<Rightarrow> nat \<Rightarrow> ude \<Rightarrow> ude" where
  "VdsCompleteDriverInfo output_status version request d =
     (if \<not> NT_SUCCESS output_status then done_with request output_status d
      else du_emit [Request_done request STATUS_SUCCESS (driver_info version)] d)"

record vds_port_bind =
  pb_version :: u32
  pb_size :: u32
  pb_profile :: u32

definition VdsBindPort :: "child_answers \<Rightarrow> nat \<Rightarrow> nat \<Rightarrow> NTSTATUS + vds_port_bind \<Rightarrow> nat option \<Rightarrow> ude \<Rightarrow> ude" where
  "VdsBindPort a i request input file d =
     (if i \<ge> unat (max_port d) then done_with request STATUS_DEVICE_NOT_READY d
      else case input of
        Inl status \<Rightarrow> done_with request status d
      | Inr b \<Rightarrow>
          if pb_version b \<noteq> VDS_PORT_BIND_VERSION \<or> pb_size b \<noteq> 16 \<or> \<not> VdsIsValidProfile (pb_profile b) then
            done_with request STATUS_INVALID_PARAMETER d
          else case file of
            None \<Rightarrow> done_with request STATUS_INVALID_DEVICE_STATE d
          | Some f \<Rightarrow>
              (let p = port_state d ! i in
               if bound p \<and> bound_file p \<noteq> Some f then done_with request STATUS_DEVICE_BUSY d
               else (let p = p\<lparr>ps_profile := pb_profile b, bound := True, bound_file := Some f\<rparr>;
                         d = put_port_state i (VdsResetAudioInPcm p) d in
                 case VdsPlugUsbChildDevice a i d of (status, d) \<Rightarrow>
                   if \<not> NT_SUCCESS status then
                     (let p = port_state d ! i in
                      done_with request status
                        (if bound_file p = Some f then put_port_state i (p\<lparr>bound := False, bound_file := None\<rparr>) d else d))
                   else done_with request STATUS_SUCCESS d)))"

definition VdsUnbindPort :: "child_answers \<Rightarrow> nat \<Rightarrow> nat \<Rightarrow> nat option \<Rightarrow> ude \<Rightarrow> ude" where
  "VdsUnbindPort a i request file d =
     (if i \<ge> unat (max_port d) then done_with request STATUS_DEVICE_NOT_READY d
      else case file of
        None \<Rightarrow> done_with request STATUS_INVALID_DEVICE_STATE d
      | Some f \<Rightarrow>
          (let p = port_state d ! i in
           if bound p \<and> bound_file p \<noteq> Some f then done_with request STATUS_ACCESS_DENIED d
           else case VdsDeleteUsbChildDevice a i (put_port_state i (VdsResetAudioInPcm (p\<lparr>bound := False, bound_file := None\<rparr>)) d) of
             (status, d) \<Rightarrow> done_with request status d))"

text \<open>A read of \<open>length\<close> bytes; the framework forwards it to the queue of waiting reads.\<close>

definition VdsEvtControlRead :: "NTSTATUS \<Rightarrow> nat \<Rightarrow> nat \<Rightarrow> read_request \<Rightarrow> ude \<Rightarrow> ude" where
  "VdsEvtControlRead forward_status i n r d =
     (if n = 0 then done_with (rq_id r) STATUS_INVALID_BUFFER_SIZE d
      else if \<not> VdsPortReadyForIo i d then done_with (rq_id r) STATUS_DEVICE_NOT_READY d
      else if \<not> NT_SUCCESS forward_status then done_with (rq_id r) forward_status d
      else (let p = port_state d ! i;
                p = p\<lparr>control_read_queue := map_option (\<lambda>rs. rs @ [r]) (control_read_queue p)\<rparr> in
            case VdsCompleteControlReadRequests p of (evs, p) \<Rightarrow> du_emit evs (put_port_state i p d)))"

text \<open>One frame of a write, and the loop over the frames.\<close>

definition accept_frame :: "nat \<Rightarrow> u16 \<Rightarrow> bytes \<Rightarrow> ude \<Rightarrow> ude" where
  "accept_frame i frame_type payload d =
     (let p = port_state d ! i in
      if frame_type = VDS_FRAME_USB_HID_IN then put_port_state i (VdsStoreInputReport payload p) d
      else if frame_type = VDS_FRAME_USB_FEATURE_REPLY then
        put_port_state i (VdsUpdateFeatureCache (Some payload) (length payload) p) d
      else if frame_type = VDS_FRAME_USB_AUDIO_IN then
        (let d = stat_add Audio_in_write_byte_count (of_nat (length payload)) (stat_inc Audio_in_write_frame_count d);
             d = d\<lparr>last_audio_in_write := VdsRecordAudioInPcmSamples (Some payload) (length payload) (last_audio_in_write d)\<rparr> in
         put_port_state i (VdsStoreAudioInPcm payload p) d)
      else d)"

function write_loop :: "nat \<Rightarrow> bytes \<Rightarrow> ude \<Rightarrow> NTSTATUS \<times> ude" where
  "write_loop i bs d =
     (if length bs < 16 then (STATUS_SUCCESS, d)
      else (let h = parse_header (take 16 bs); n = unat (fh_length h) in
        if n > VDS_FRAME_MAX_PAYLOAD then (STATUS_INVALID_BUFFER_SIZE, d)
        else if 16 + n > length bs then (STATUS_INVALID_BUFFER_SIZE, d)
        else write_loop i (drop (16 + n) bs) (accept_frame i (fh_type h) (take n (drop 16 bs)) d)))"
  by pat_completeness auto
termination
  by (relation "measure (\<lambda>(_, bs, _). length bs)") auto

declare write_loop.simps [simp del]

definition VdsEvtControlWrite :: "nat \<Rightarrow> nat \<Rightarrow> nat \<Rightarrow> NTSTATUS + bytes \<Rightarrow> ude \<Rightarrow> ude" where
  "VdsEvtControlWrite i request n input d =
     (if n < 16 then done_with request STATUS_INVALID_BUFFER_SIZE d
      else case input of
        Inl status \<Rightarrow> done_with request status d
      | Inr bs \<Rightarrow>
          if \<not> VdsPortReadyForIo i d then done_with request STATUS_DEVICE_NOT_READY d
          else case write_loop i bs d of (status, d) \<Rightarrow>
            if NT_SUCCESS status then du_emit [Write_done request (length bs)] d else done_with request status d)"

definition VdsEvtControlFileCleanup :: "nat \<Rightarrow> nat \<Rightarrow> ude \<Rightarrow> ude" where
  "VdsEvtControlFileCleanup i f d =
     (if i \<ge> unat (max_port d) then d
      else (let p = port_state d ! i in
        if bound p \<and> bound_file p = Some f
        then put_port_state i (VdsResetAudioInPcm (p\<lparr>bound := False, bound_file := None\<rparr>)) d else d))"

text \<open>\<open>struct _VDS_AUDIO_STATS\<close>, word by word.\<close>

definition history_words :: "VDS_CONFIGURE_RECORD \<Rightarrow> u32 list" where
  "history_words c = [cr_sequence c, cr_configure_type c, cr_interface_number c, cr_alt_setting c, cr_endpoints_to_configure c,
     cr_released_endpoints c, cr_configure_endpoint_addresses c, cr_released_endpoint_addresses c]"

definition endpoint_stats :: "u8 \<Rightarrow> vds_stat list" where
  "endpoint_stats a = [Delayed_pending_count a, Purge_pending_count a, Purge_work_count a, Purge_complete_count a]"

definition stats_words :: "ude \<Rightarrow> u32 list" where
  "stats_words d =
     map (stats d) [Control_urb_count, Last_control_bm_request, Last_control_b_request, Last_control_w_value,
       Last_control_w_index, Last_control_w_length, Last_control_bytes_completed, Iso_out_request_count, Iso_out_byte_count,
       Iso_in_request_count, Iso_in_byte_count, Audio_in_write_frame_count, Audio_in_write_byte_count,
       Audio_in_read_byte_count, Audio_in_zero_byte_count] @
     [of_nat (audio_in_ring_size (port_state d ! 0)), stats d Last_pcm_frame_count] @
     map of_int (fst (last_pcm d)) @ map of_int (snd (last_pcm d)) @
     map (stats d) [Non_iso_urb_count, Last_iso_packets, Last_iso_length, Last_non_iso_function, Endpoint_reset_count,
       Endpoint_start_count, Endpoint_purge_count, Configure_count, Configure_endpoint_count, Configure_release_count,
       Last_configure_type, Last_interface, Last_alt_setting, Configure_history_sequence] @
     concat (map history_words (configure_history d)) @
     map (stats d) [Async_urb_complete_count, Async_urb_forward_failure_count, Delayed_iso_urb_count,
       Delayed_iso_urb_complete_count, Delayed_iso_urb_timer_failure_count, Endpoint_queue_refresh_count,
       Endpoint_queue_refresh_failure_count, Endpoint_release_delay_count, Endpoint_release_delay_complete_count,
       Endpoint_release_delay_timer_failure_count] @
     map of_int (fst (last_audio_in_write d)) @ map of_int (snd (last_audio_in_write d)) @
     map of_int (fst (last_audio_in_read d)) @ map of_int (snd (last_audio_in_read d)) @
     map (stats d) (Endpoint_purge_complete_count # endpoint_stats VDS_USB_AUDIO_OUT_ENDPOINT @
       endpoint_stats VDS_USB_AUDIO_IN_ENDPOINT @ endpoint_stats VDS_USB_HID_IN_ENDPOINT)"

definition VdsCompleteAudioStats :: "NTSTATUS \<Rightarrow> nat \<Rightarrow> ude \<Rightarrow> ude" where
  "VdsCompleteAudioStats output_status request d =
     (if \<not> NT_SUCCESS output_status then done_with request output_status d
      else du_emit [Request_done request STATUS_SUCCESS (concat (map le32 (stats_words d)))] d)"

text \<open>A control request with what the framework answers when its buffers are asked for.\<close>

record control_call =
  cc_request :: nat
  cc_code :: u32
  cc_output :: NTSTATUS
  cc_input :: "NTSTATUS + vds_port_bind"
  cc_file :: "nat option"

definition VdsEvtControlDeviceControl :: "string \<Rightarrow> child_answers \<Rightarrow> nat \<Rightarrow> control_call \<Rightarrow> ude \<Rightarrow> ude" where
  "VdsEvtControlDeviceControl version a i c d =
     (if cc_code c = VDS_IOCTL_GET_DRIVER_INFO then VdsCompleteDriverInfo (cc_output c) version (cc_request c) d
      else if cc_code c = VDS_IOCTL_GET_AUDIO_STATS then
        (if i \<noteq> 0 then done_with (cc_request c) STATUS_DEVICE_NOT_READY d
         else VdsCompleteAudioStats (cc_output c) (cc_request c) d)
      else if cc_code c = VDS_IOCTL_GET_PORT_INFO then VdsCompletePortInfo (cc_output c) i (cc_request c) d
      else if cc_code c = VDS_IOCTL_BIND_PORT then VdsBindPort a i (cc_request c) (cc_input c) (cc_file c) d
      else if cc_code c = VDS_IOCTL_UNBIND_PORT then VdsUnbindPort a i (cc_request c) (cc_file c) d
      else done_with (cc_request c) STATUS_INVALID_DEVICE_REQUEST d)"

text \<open>The default queue of the bus device; \<open>handled\<close> is the answer of the class extension, which then completes the request.\<close>

definition VdsEvtIoDeviceControl :: "bool \<Rightarrow> control_call \<Rightarrow> ude \<Rightarrow> ude" where
  "VdsEvtIoDeviceControl handled c d =
     (if cc_code c = VDS_IOCTL_GET_AUDIO_STATS then VdsCompleteAudioStats (cc_output c) (cc_request c) d
      else if handled then d
      else done_with (cc_request c) STATUS_INVALID_DEVICE_REQUEST d)"

section \<open>Initialisation and teardown\<close>

text \<open>The registry value \<open>MaxPort\<close>: the key may be missing, the value may be missing or out of range.\<close>

definition VdsReadMaxPort :: "NTSTATUS \<Rightarrow> NTSTATUS \<Rightarrow> u32 \<Rightarrow> u32" where
  "VdsReadMaxPort open_status query_status v =
     (if \<not> NT_SUCCESS open_status then VDS_MAX_PORT_COUNT
      else if \<not> NT_SUCCESS query_status then VDS_MAX_PORT_COUNT
      else if v < VDS_MIN_PORT_COUNT \<or> v > VDS_MAX_PORT_COUNT then VDS_MAX_PORT_COUNT
      else v)"

definition zero_ude :: ude where
  "zero_ude = \<lparr>max_port = 0, port_state = replicate 4 zero_port, stats = (\<lambda>_. 0),
     configure_history = replicate 8 \<lparr>cr_sequence = 0, cr_configure_type = 0, cr_interface_number = 0, cr_alt_setting = 0,
       cr_endpoints_to_configure = 0, cr_released_endpoints = 0, cr_configure_endpoint_addresses = 0,
       cr_released_endpoint_addresses = 0\<rparr>,
     last_pcm = ([0, 0, 0, 0], [0, 0, 0, 0]), last_audio_in_write = ([0, 0], [0, 0]), last_audio_in_read = ([0, 0], [0, 0]),
     control_devices = [False, False, False, False], du_endpoints = Map.empty, du_queues = Map.empty, du_timers = Map.empty,
     du_next = 0, du_log = []\<rparr>"

text \<open>
  Control devices in the order of their ports; each creation may fail at one of five calls.
  The queue of waiting reads exists from the third call on.
\<close>

definition VdsCreateControlDevice_ude :: "bool \<Rightarrow> (nat \<Rightarrow> NTSTATUS) \<Rightarrow> nat \<Rightarrow> ude \<Rightarrow> NTSTATUS \<times> ude" where
  "VdsCreateControlDevice_ude allocated answer i d =
     (if \<not> allocated then (STATUS_INSUFFICIENT_RESOURCES, d)
      else if \<not> NT_SUCCESS (answer 0) then (answer 0, d)
      else if \<not> NT_SUCCESS (answer 1) then (answer 1, d)
      else if \<not> NT_SUCCESS (answer 2) then (answer 2, d)
      else (let d = put_port_state i ((port_state d ! i)\<lparr>control_read_queue := Some []\<rparr>) d in
        if \<not> NT_SUCCESS (answer 3) then (answer 3, d)
        else if \<not> NT_SUCCESS (answer 4) then (answer 4, d)
        else (STATUS_SUCCESS, d\<lparr>control_devices := (control_devices d)[i := True]\<rparr>)))"

fun create_control_devices :: "(nat \<Rightarrow> bool \<times> (nat \<Rightarrow> NTSTATUS)) \<Rightarrow> nat list \<Rightarrow> ude \<Rightarrow> NTSTATUS \<times> ude" where
  "create_control_devices answers [] d = (STATUS_SUCCESS, d)"
| "create_control_devices answers (i # is) d =
     (case VdsCreateControlDevice_ude (fst (answers i)) (snd (answers i)) i d of (status, d) \<Rightarrow>
        if \<not> NT_SUCCESS status then (status, d) else create_control_devices answers is d)"

definition VdsCreateControlDevices :: "(nat \<Rightarrow> bool \<times> (nat \<Rightarrow> NTSTATUS)) \<Rightarrow> ude \<Rightarrow> NTSTATUS \<times> ude" where
  "VdsCreateControlDevices answers d = create_control_devices answers [0..<unat VDS_MAX_PORT_COUNT] d"

text \<open>The answers of the framework by the stage numbers of the code.\<close>

definition VdsEvtDeviceAdd ::
  "(nat \<Rightarrow> NTSTATUS) \<Rightarrow> u32 \<Rightarrow> (nat \<Rightarrow> bool \<times> (nat \<Rightarrow> NTSTATUS)) \<Rightarrow> NTSTATUS \<times> ude" where
  "VdsEvtDeviceAdd stage registry answers =
     (if \<not> NT_SUCCESS (stage 2) then (stage 2, zero_ude)
      else if \<not> NT_SUCCESS (stage 4) then (stage 4, zero_ude)
      else (let d = zero_ude\<lparr>max_port := registry, port_state := map VdsInitializePortState (port_state zero_ude)\<rparr> in
        case first_failure [stage 5, stage 6, stage 7, stage 8] of
          Some status \<Rightarrow> (status, d)
        | None \<Rightarrow>
            (case VdsCreateControlDevices answers d of (status, d) \<Rightarrow>
               if \<not> NT_SUCCESS status then (status, d)
               else if \<not> NT_SUCCESS (stage 10) then (stage 10, d)
               else (STATUS_SUCCESS, d))))"

definition VdsEvtDeviceContextCleanup :: "ude \<Rightarrow> ude" where
  "VdsEvtDeviceContextCleanup d =
     d\<lparr>control_devices := map (\<lambda>_. False) (control_devices d),
       port_state := map (usb_device_init_update (\<lambda>_. False)) (port_state d)\<rparr>"

end
