(* ===== verification/UdeInv.thy ===== *)
theory UdeInv
  imports UdeControl
begin

text \<open>
  The invariant of a port of the bus driver, with the lemmas that every operation on a port
  keeps it, and what readers of the frame ring get.
\<close>

section \<open>Ports\<close>

definition no_reader_waits :: "VDS_PORT_STATE \<Rightarrow> bool" where
  "no_reader_waits p \<longleftrightarrow> control_ring_size p = 0 \<or> control_read_queue p = None \<or> control_read_queue p = Some []"

definition child_ok :: "VDS_PORT_STATE \<Rightarrow> bool" where
  "child_ok p \<longleftrightarrow> (usb_device_plugged p \<longrightarrow> usb_profile_valid p) \<and>
     (usb_profile_valid p \<longrightarrow> usb_device p \<noteq> None \<and> VdsIsValidProfile (usb_profile p) \<and> default_endpoint p \<noteq> None \<and>
        audio_out_endpoint p \<noteq> None \<and> audio_in_endpoint p \<noteq> None \<and> hid_in_endpoint p \<noteq> None \<and> hid_out_endpoint p \<noteq> None)"

definition report_ok :: "VDS_PORT_STATE \<Rightarrow> bool" where
  "report_ok p \<longleftrightarrow> length (last_hid_input p) = 64 \<and> last_hid_input p ! 0 = VDS_USB_INPUT_REPORT_ID \<and>
     (\<forall>r. length (feature_cache p r) = 64) \<and> length (interface_altsetting p) = 4"

definition uport_ok :: "VDS_PORT_STATE \<Rightarrow> bool" where
  "uport_ok p \<longleftrightarrow> control_ok p \<and> mic_ok p \<and> report_ok p \<and> child_ok p \<and> no_reader_waits p \<and> (bound p \<longleftrightarrow> bound_file p \<noteq> None)"

text \<open>Everything but the frame ring and its readers.\<close>

definition same_rest :: "VDS_PORT_STATE \<Rightarrow> VDS_PORT_STATE \<Rightarrow> bool" where
  "same_rest p p' \<longleftrightarrow> (\<exists>h s b q. p' = p\<lparr>control_ring_head := h, control_ring_size := s, control_ring := b, control_read_queue := q\<rparr>)"

lemma same_rest_refl [simp]: "same_rest p p"
  unfolding same_rest_def
  by (rule exI [of _ "control_ring_head p"], rule exI [of _ "control_ring_size p"], rule exI [of _ "control_ring p"],
      rule exI [of _ "control_read_queue p"]) simp

lemma same_rest_trans: "same_rest p q \<Longrightarrow> same_rest q r \<Longrightarrow> same_rest p r"
proof -
  assume "same_rest p q" "same_rest q r"
  then obtain h s b w h' s' b' w' where
    "q = p\<lparr>control_ring_head := h, control_ring_size := s, control_ring := b, control_read_queue := w\<rparr>"
    "r = q\<lparr>control_ring_head := h', control_ring_size := s', control_ring := b', control_read_queue := w'\<rparr>"
    unfolding same_rest_def by blast
  then have "r = p\<lparr>control_ring_head := h', control_ring_size := s', control_ring := b', control_read_queue := w'\<rparr>" by simp
  then show "same_rest p r" unfolding same_rest_def by blast
qed

lemma same_rest_port:
  "same_rest p p' \<Longrightarrow> mic_ok p' = mic_ok p \<and> report_ok p' = report_ok p \<and> child_ok p' = child_ok p \<and>
     bound p' = bound p \<and> bound_file p' = bound_file p \<and> frame_sequence p' = frame_sequence p"
  by (auto simp: same_rest_def mic_ok_def report_ok_def child_ok_def)

lemma same_rest_intro:
  "same_rest p (p\<lparr>control_ring_head := h, control_ring_size := s\<rparr>)"
  "same_rest p (p\<lparr>control_read_queue := q\<rparr>)"
  "same_rest p (p\<lparr>control_ring := b, control_ring_size := s\<rparr>)"
proof -
  show "same_rest p (p\<lparr>control_ring_head := h, control_ring_size := s\<rparr>)"
    unfolding same_rest_def
    by (rule exI [of _ h], rule exI [of _ s], rule exI [of _ "control_ring p"], rule exI [of _ "control_read_queue p"]) simp
  show "same_rest p (p\<lparr>control_read_queue := q\<rparr>)"
    unfolding same_rest_def
    by (rule exI [of _ "control_ring_head p"], rule exI [of _ "control_ring_size p"], rule exI [of _ "control_ring p"],
        rule exI [of _ q]) simp
  show "same_rest p (p\<lparr>control_ring := b, control_ring_size := s\<rparr>)"
    unfolding same_rest_def
    by (rule exI [of _ "control_ring_head p"], rule exI [of _ s], rule exI [of _ b], rule exI [of _ "control_read_queue p"]) simp
qed

lemma same_rest_write: "same_rest p (VdsControlRingWriteLocked bs p)"
  by (simp add: VdsControlRingWriteLocked_def Let_def same_rest_intro)

lemma same_rest_if: "same_rest p q \<Longrightarrow> same_rest p r \<Longrightarrow> same_rest p (if b then r else q)"
  by simp

lemma same_rest_read: "VdsControlRingReadLocked n p = (bs, p') \<Longrightarrow> same_rest p p'"
  by (auto simp: VdsControlRingReadLocked_def Let_def same_rest_intro)

lemma control_ok_queue [simp]:
  "control_ok (p\<lparr>control_read_queue := q\<rparr>) = control_ok p" "control_bytes (p\<lparr>control_read_queue := q\<rparr>) = control_bytes p"
  "control_ok (p\<lparr>frame_sequence := n\<rparr>) = control_ok p" "control_bytes (p\<lparr>frame_sequence := n\<rparr>) = control_bytes p"
  by (simp_all add: control_ok_def control_bytes_def)

lemma length_control_bytes [simp]: "length (control_bytes p) = control_ring_size p"
  by (simp add: control_bytes_def)

text \<open>The bytes that a list of events hands to readers, in order.\<close>

fun delivered :: "ude_event list \<Rightarrow> bytes" where
  "delivered [] = []"
| "delivered (Request_done r s bs # evs) = bs @ delivered evs"
| "delivered (_ # evs) = delivered evs"

lemma delivered_append [simp]: "delivered (xs @ ys) = delivered xs @ delivered ys"
  by (induction xs rule: delivered.induct) auto

fun urb_ids :: "ude_event list \<Rightarrow> nat list" where
  "urb_ids [] = []"
| "urb_ids (Urb_done r n s # evs) = r # urb_ids evs"
| "urb_ids (_ # evs) = urb_ids evs"

lemma urb_ids_append [simp]: "urb_ids (xs @ ys) = urb_ids xs @ urb_ids ys"
  by (induction xs rule: urb_ids.induct) auto

lemma serve_reads:
  assumes "control_ok p" "serve_reads rs p = (evs, p')"
  shows "control_ok p'" "delivered evs @ control_bytes p' = control_bytes p" "same_rest p p'" "urb_ids evs = []"
    "no_reader_waits p'" "control_read_queue p' \<noteq> None"
proof -
  have "control_ok p' \<and> delivered evs @ control_bytes p' = control_bytes p \<and> same_rest p p' \<and> urb_ids evs = [] \<and>
    no_reader_waits p' \<and> control_read_queue p' \<noteq> None"
    using assms
  proof (induction rs arbitrary: p evs)
    case Nil
    then show ?case by (auto simp: no_reader_waits_def same_rest_intro)
  next
    case (Cons r rs)
    show ?case
    proof (cases "control_ring_size p = 0")
      case True
      with Cons.prems show ?thesis by (auto simp: no_reader_waits_def same_rest_intro)
    next
      case False
      show ?thesis
      proof (cases "rq_buffer r")
        case (Inl status)
        obtain evs' where "serve_reads rs p = (evs', p')" "evs = Request_done (rq_id r) status [] # evs'"
          using Cons.prems(2) False Inl by (auto split: prod.splits)
        with Cons.IH [OF Cons.prems(1)] show ?thesis by auto
      next
        case (Inr n)
        obtain bs p1 where r: "VdsControlRingReadLocked n p = (bs, p1)" by fastforce
        obtain evs' where e: "serve_reads rs p1 = (evs', p')" "evs = Request_done (rq_id r) STATUS_SUCCESS bs # evs'"
          using Cons.prems(2) False Inr r by (auto split: prod.splits)
        have "control_ok p1" using frames.take_out [OF Cons.prems(1) r] by simp
        with Cons.IH [OF this e(1)] frames.contents_split [OF Cons.prems(1) r] same_rest_read [OF r] e(2)
        show ?thesis by (auto intro: same_rest_trans)
      qed
    qed
  qed
  then show "control_ok p'" "delivered evs @ control_bytes p' = control_bytes p" "same_rest p p'" "urb_ids evs = []"
    "no_reader_waits p'" "control_read_queue p' \<noteq> None" by auto
qed

lemma complete_reads:
  assumes "control_ok p" "VdsCompleteControlReadRequests p = (evs, p')"
  shows "control_ok p'" "delivered evs @ control_bytes p' = control_bytes p" "same_rest p p'" "urb_ids evs = []" "no_reader_waits p'"
    "(control_read_queue p' = None) = (control_read_queue p = None)"
proof -
  have "control_ok p' \<and> delivered evs @ control_bytes p' = control_bytes p \<and> same_rest p p' \<and> urb_ids evs = [] \<and>
    no_reader_waits p' \<and> (control_read_queue p' = None) = (control_read_queue p = None)"
  proof (cases "control_read_queue p")
    case None
    with assms show ?thesis by (auto simp: VdsCompleteControlReadRequests_def no_reader_waits_def)
  next
    case (Some rs)
    then have s: "serve_reads rs p = (evs, p')" using assms(2) by (simp add: VdsCompleteControlReadRequests_def)
    from serve_reads [OF assms(1) s] Some show ?thesis by simp
  qed
  then show "control_ok p'" "delivered evs @ control_bytes p' = control_bytes p" "same_rest p p'" "urb_ids evs = []"
    "no_reader_waits p'" "(control_read_queue p' = None) = (control_read_queue p = None)" by simp_all
qed

text \<open>The bytes of the frame that \<open>queue_frame\<close> would add.\<close>

definition next_frame :: "u16 \<Rightarrow> bytes \<Rightarrow> VDS_PORT_STATE \<Rightarrow> bytes" where
  "next_frame ty payload p =
     header_bytes \<lparr>fh_type = ty, fh_flags = 0, fh_length = of_nat (length payload), fh_sequence = frame_sequence p + 1\<rparr> @ payload"

definition frame_fits :: "bytes \<Rightarrow> VDS_PORT_STATE \<Rightarrow> bool" where
  "frame_fits payload p \<longleftrightarrow> length payload \<le> VDS_FRAME_MAX_PAYLOAD \<and> control_ring_size p + 16 + length payload \<le> VDS_CONTROL_RING_SIZE"

lemma queue_frame:
  assumes "control_ok p" "queue_frame ty payload p = (status, evs, p')"
  shows "frame_fits payload p \<Longrightarrow> status = STATUS_SUCCESS \<and> control_ok p' \<and> no_reader_waits p' \<and> urb_ids evs = [] \<and>
      delivered evs @ control_bytes p' = control_bytes p @ next_frame ty payload p \<and>
      same_rest (p\<lparr>frame_sequence := frame_sequence p + 1\<rparr>) p' \<and> (control_read_queue p' = None) = (control_read_queue p = None)"
    and "\<not> frame_fits payload p \<Longrightarrow> \<not> NT_SUCCESS status \<and> evs = [] \<and> p' = p"
proof -
  assume fits: "frame_fits payload p"
  let ?p = "p\<lparr>frame_sequence := frame_sequence p + 1\<rparr>"
  let ?h = "header_bytes \<lparr>fh_type = ty, fh_flags = 0, fh_length = of_nat (length payload), fh_sequence = frame_sequence p + 1\<rparr>"
  let ?q = "VdsControlRingWriteLocked ?h ?p"
  let ?r = "if payload \<noteq> [] then VdsControlRingWriteLocked payload ?q else ?q"
  have "control_ring_size ?p + length ?h \<le> VDS_CONTROL_RING_SIZE" using fits by (simp add: frame_fits_def)
  then have q: "control_ok ?q" "control_bytes ?q = control_bytes p @ ?h"
    using control_write [of ?p ?h] assms(1) by simp_all
  have sq: "control_ring_size ?q = control_ring_size p + 16" by (simp add: VdsControlRingWriteLocked_def Let_def)
  have r: "control_ok ?r" "control_bytes ?r = control_bytes p @ next_frame ty payload p"
    using control_write [OF q(1), of payload] q fits sq by (auto simp: frame_fits_def next_frame_def)
  have s: "same_rest ?p ?r"
    by (rule same_rest_if [OF same_rest_write same_rest_trans [OF same_rest_write same_rest_write]])
  have g: "\<not> length payload > VDS_FRAME_MAX_PAYLOAD" "\<not> 16 + length payload > VDS_CONTROL_RING_SIZE"
    "\<not> 16 + length payload > VDS_CONTROL_RING_SIZE - control_ring_size p"
    using fits by (auto simp: frame_fits_def)
  have "queue_frame ty payload p = (case VdsCompleteControlReadRequests ?r of (evs, p) \<Rightarrow> (STATUS_SUCCESS, evs, p))"
    using g by (simp add: queue_frame_def Let_def)
  then have c: "VdsCompleteControlReadRequests ?r = (evs, p')" and st: "status = STATUS_SUCCESS"
    using assms(2) by (auto split: prod.splits)
  have "control_read_queue ?r = control_read_queue p" by (simp add: VdsControlRingWriteLocked_def Let_def)
  with complete_reads [OF r(1) c] r(2) s st
  show "status = STATUS_SUCCESS \<and> control_ok p' \<and> no_reader_waits p' \<and> urb_ids evs = [] \<and>
      delivered evs @ control_bytes p' = control_bytes p @ next_frame ty payload p \<and>
      same_rest ?p p' \<and> (control_read_queue p' = None) = (control_read_queue p = None)"
    using same_rest_trans by auto
next
  assume "\<not> frame_fits payload p"
  then show "\<not> NT_SUCCESS status \<and> evs = [] \<and> p' = p"
    using assms by (auto simp: queue_frame_def frame_fits_def control_ok_def split: if_splits)
qed

lemma uport_ok_queue_frame:
  assumes ok: "uport_ok p" and q: "queue_frame ty payload p = (status, evs, p')"
  shows "uport_ok p'" "urb_ids evs = []"
proof -
  have c: "control_ok p" using ok by (simp add: uport_ok_def)
  have "uport_ok p' \<and> urb_ids evs = []"
  proof (cases "frame_fits payload p")
    case True
    note f = queue_frame(1) [OF c q True]
    have "same_rest (p\<lparr>frame_sequence := frame_sequence p + 1\<rparr>) p'" using f by simp
    from same_rest_port [OF this] f ok show ?thesis
      by (simp add: uport_ok_def mic_ok_def report_ok_def child_ok_def)
  next
    case False
    from queue_frame(2) [OF c q False] ok show ?thesis by simp
  qed
  then show "uport_ok p'" "urb_ids evs = []" by simp_all
qed

text \<open>The other changes to a port.\<close>

lemma report_okI: "length (last_hid_input p) = 64 \<Longrightarrow> last_hid_input p ! 0 = VDS_USB_INPUT_REPORT_ID \<Longrightarrow>
  (\<And>r. length (feature_cache p r) = 64) \<Longrightarrow> length (interface_altsetting p) = 4 \<Longrightarrow> report_ok p"
  by (simp add: report_ok_def)

lemma uport_ok_feature: "uport_ok p \<Longrightarrow> uport_ok (VdsUpdateFeatureCache payload n p)"
  by (auto simp: VdsUpdateFeatureCache_def uport_ok_def control_ok_def mic_ok_def report_ok_def child_ok_def
      no_reader_waits_def VDS_HID_FEATURE_REPORT_SIZE_def split: option.splits)

lemma uport_ok_input: "uport_ok p \<Longrightarrow> uport_ok (VdsStoreInputReport payload p)"
  by (auto simp: VdsStoreInputReport_def uport_ok_def control_ok_def mic_ok_def report_ok_def child_ok_def
      no_reader_waits_def kUsbInputReportSize_def)

lemma uport_ok_audio_ring:
  "uport_ok p \<Longrightarrow> mic_ok (p\<lparr>audio_in_ring_head := h, audio_in_ring_size := s, audio_in_ring := b\<rparr>) \<Longrightarrow>
   uport_ok (p\<lparr>audio_in_ring_head := h, audio_in_ring_size := s, audio_in_ring := b\<rparr>)"
  by (simp add: uport_ok_def control_ok_def report_ok_def child_ok_def no_reader_waits_def)

definition audio_only :: "VDS_PORT_STATE \<Rightarrow> VDS_PORT_STATE \<Rightarrow> bool" where
  "audio_only p p' \<longleftrightarrow> (\<exists>h s b. p' = p\<lparr>audio_in_ring_head := h, audio_in_ring_size := s, audio_in_ring := b\<rparr>)"

lemma uport_ok_audio_only: "audio_only p p' \<Longrightarrow> uport_ok p \<Longrightarrow> mic_ok p' \<Longrightarrow> uport_ok p'"
  using uport_ok_audio_ring by (auto simp: audio_only_def)

lemma audio_only_reset: "audio_only p (VdsResetAudioInPcm p)"
  unfolding VdsResetAudioInPcm_def audio_only_def
  by (rule exI [of _ 0], rule exI [of _ 0], rule exI [of _ "audio_in_ring p"]) simp

lemma mic_ok_reset: "mic_ok p \<Longrightarrow> mic_ok (VdsResetAudioInPcm p)"
  by (simp add: VdsResetAudioInPcm_def mic_ok_def VDS_AUDIO_IN_RING_SIZE_def)

lemma uport_ok_reset: "uport_ok p \<Longrightarrow> uport_ok (VdsResetAudioInPcm p)"
  using uport_ok_audio_only [OF audio_only_reset] mic_ok_reset by (auto simp: uport_ok_def)

lemma audio_only_trans: "audio_only p q \<Longrightarrow> audio_only q r \<Longrightarrow> audio_only p r"
proof -
  assume "audio_only p q" "audio_only q r"
  then obtain h s b h' s' b' where "q = p\<lparr>audio_in_ring_head := h, audio_in_ring_size := s, audio_in_ring := b\<rparr>"
    "r = q\<lparr>audio_in_ring_head := h', audio_in_ring_size := s', audio_in_ring := b'\<rparr>"
    unfolding audio_only_def by blast
  then have "r = p\<lparr>audio_in_ring_head := h', audio_in_ring_size := s', audio_in_ring := b'\<rparr>" by simp
  then show "audio_only p r" unfolding audio_only_def by blast
qed

lemma audio_only_parts: "audio_only p p" "audio_only p (audio_append bs p)" "audio_only p (audio_drop n p)"
proof -
  show "audio_only p p"
    unfolding audio_only_def
    by (rule exI [of _ "audio_in_ring_head p"], rule exI [of _ "audio_in_ring_size p"], rule exI [of _ "audio_in_ring p"]) simp
  show "audio_only p (audio_append bs p)"
    unfolding audio_only_def audio_append_def
    by (rule exI [of _ "audio_in_ring_head p"], rule exI [of _ "audio_in_ring_size p + length bs"],
        rule exI [of _ "ring_put ((audio_in_ring_head p + audio_in_ring_size p) mod VDS_AUDIO_IN_RING_SIZE) bs (audio_in_ring p)"]) simp
  show "audio_only p (audio_drop n p)"
    unfolding audio_only_def audio_drop_def
    by (rule exI [of _ "(audio_in_ring_head p + n) mod VDS_AUDIO_IN_RING_SIZE"], rule exI [of _ "audio_in_ring_size p - n"],
        rule exI [of _ "audio_in_ring p"]) simp
qed

lemma audio_only_if: "audio_only p q \<Longrightarrow> audio_only p r \<Longrightarrow> audio_only p (if b then q else r)"
  by simp

lemma audio_only_write: "mic_ok p \<Longrightarrow> audio_only p (VdsAudioInRingWriteLocked payload p)"
  unfolding audio_write_eq Let_def
  by (intro audio_only_trans [OF audio_only_if [OF audio_only_trans [OF audio_only_if [OF audio_only_reset audio_only_parts(1)]
        audio_only_parts(3)] audio_only_if [OF audio_only_reset audio_only_parts(1)]] audio_only_parts(2)])

lemma uport_ok_store: "uport_ok p \<Longrightarrow> uport_ok (VdsStoreAudioInPcm payload p)"
  using uport_ok_audio_only [OF audio_only_write] audio_write(1)
  by (auto simp: VdsStoreAudioInPcm_def uport_ok_def)

lemma audio_only_read: "VdsAudioInRingReadLocked n p = (bs, p') \<Longrightarrow> audio_only p p'"
  unfolding VdsAudioInRingReadLocked_def audio_only_def Let_def
  by (rule exI [of _ "audio_in_ring_head p'"], rule exI [of _ "audio_in_ring_size p'"], rule exI [of _ "audio_in_ring p'"]) auto

lemma uport_ok_copy: "uport_ok p \<Longrightarrow> VdsCopyAudioInPcm n p = (bs, got, p') \<Longrightarrow> uport_ok p'"
  using uport_ok_audio_only [OF audio_only_read] microphone.take_out
  by (auto simp: VdsCopyAudioInPcm_def uport_ok_def split: if_splits prod.splits)

lemma uport_ok_altsetting: "uport_ok p \<Longrightarrow> uport_ok (p\<lparr>interface_altsetting := (interface_altsetting p)[k := v]\<rparr>)"
  by (auto simp: uport_ok_def control_ok_def mic_ok_def report_ok_def child_ok_def no_reader_waits_def)

lemma uport_ok_init: "uport_ok p \<Longrightarrow> uport_ok (p\<lparr>usb_device_init := b\<rparr>)"
  by (simp add: uport_ok_def control_ok_def mic_ok_def report_ok_def child_ok_def no_reader_waits_def)

lemma uport_ok_profile: "uport_ok p \<Longrightarrow> uport_ok (p\<lparr>ps_profile := b\<rparr>)"
  by (simp add: uport_ok_def control_ok_def mic_ok_def report_ok_def child_ok_def no_reader_waits_def)

lemma uport_ok_bind: "uport_ok p \<Longrightarrow> uport_ok (p\<lparr>bound := (f \<noteq> None), bound_file := f\<rparr>)"
  by (simp add: uport_ok_def control_ok_def mic_ok_def report_ok_def child_ok_def no_reader_waits_def)

lemma uport_ok_zero: "uport_ok (VdsInitializePortState zero_port)"
  by (simp add: uport_ok_def control_ok_def mic_ok_def report_ok_def child_ok_def no_reader_waits_def
      VdsInitializePortState_def zero_port_def VDS_CONTROL_RING_SIZE_def VDS_AUDIO_IN_RING_SIZE_def kUsbInputReportSize_def)

text \<open>Control requests.\<close>

lemma uport_ok_hid_class:
  assumes ok: "uport_ok p" and r: "hid_class_request s buffer p = (status, n, b, evs, p')"
  shows "uport_ok p' \<and> urb_ids evs = []"
proof -
  have q: "uport_ok p2 \<and> urb_ids evs = []" if "uport_ok p1" "snd (queue_frame ty payload p1) = (evs, p2)" for ty payload p1 evs p2
    using uport_ok_queue_frame [OF that(1), of ty payload] that(2) by (cases "queue_frame ty payload p1") auto
  show ?thesis
    using r ok
    by (auto simp: hid_class_request_def Let_def case_prod_unfold split: if_splits
        dest: q [OF ok] q [OF uport_ok_feature [OF ok]])
qed

lemma uport_ok_control:
  assumes ok: "uport_ok p" and r: "ude_control_request s buffer p = (status, n, b, evs, p')"
  shows "uport_ok p'" "urb_ids evs = []"
proof -
  have "uport_ok p' \<and> urb_ids evs = []"
    using r ok uport_ok_hid_class [OF ok] uport_ok_altsetting [OF ok]
    by (auto simp: ude_control_request_def Let_def case_prod_unfold split: if_splits option.splits)
  then show "uport_ok p'" "urb_ids evs = []" by simp_all
qed

end
