(* ===== verification/UdeSteps.thy ===== *)
theory UdeSteps
  imports UdeInv "HOL-Library.Multiset"
begin

text \<open>
  The bus device: its ports and the account of its URBs. \<open>calm\<close> relates two states between
  which the invariant of the ports is kept and no URB, timer or slot of a queue changes; it
  is reflexive and transitive and most of the driver is calm. What is not calm is proved to
  keep the account: each URB that was submitted is completed or belongs to one timer.
\<close>

section \<open>Calm steps\<close>

definition ports_ok :: "ude \<Rightarrow> bool" where
  "ports_ok d \<longleftrightarrow> 1 \<le> unat (max_port d) \<and> unat (max_port d) \<le> 4 \<and> length (port_state d) = 4 \<and>
     (\<forall>i < 4. uport_ok (port_state d ! i))"

definition slot :: "ude \<Rightarrow> nat \<Rightarrow> nat option" where
  "slot d q = (case du_queues d q of None \<Rightarrow> None | Some c \<Rightarrow> delayed_timer c)"

definition unmoved :: "ude \<Rightarrow> ude \<Rightarrow> bool" where
  "unmoved d d' \<longleftrightarrow> du_timers d' = du_timers d \<and> urb_ids (du_log d') = urb_ids (du_log d) \<and> du_next d \<le> du_next d' \<and>
     max_port d' = max_port d \<and>
     (\<forall>q. du_queues d q \<noteq> None \<longrightarrow> du_queues d' q \<noteq> None) \<and>
     (\<forall>q. du_queues d' q \<noteq> None \<longrightarrow> du_queues d q \<noteq> None \<or> du_next d \<le> q \<and> q < du_next d') \<and>
     (\<forall>q. q < du_next d \<longrightarrow> slot d' q = slot d q)"

definition calm :: "ude \<Rightarrow> ude \<Rightarrow> bool" where
  "calm d d' \<longleftrightarrow> (ports_ok d \<longrightarrow> ports_ok d' \<and> unmoved d d')"

lemma calm_refl [simp, intro]: "calm d d"
  by (simp add: calm_def unmoved_def)

lemma unmoved_trans:
  assumes "unmoved d1 d2" "unmoved d2 d3"
  shows "unmoved d1 d3"
  unfolding unmoved_def
proof (intro conjI allI impI)
  fix q
  show "du_queues d3 q \<noteq> None \<Longrightarrow> du_queues d1 q \<noteq> None \<or> du_next d1 \<le> q \<and> q < du_next d3"
    using assms unfolding unmoved_def by (meson le_trans less_le_trans)
qed (use assms in \<open>auto simp: unmoved_def\<close>)

lemma calm_trans [trans]: "calm d1 d2 \<Longrightarrow> calm d2 d3 \<Longrightarrow> calm d1 d3"
  unfolding calm_def using unmoved_trans by blast

lemma calmD: "calm d d' \<Longrightarrow> ports_ok d \<Longrightarrow> ports_ok d'" "calm d d' \<Longrightarrow> ports_ok d \<Longrightarrow> unmoved d d'"
  by (simp_all add: calm_def)

lemma calmI: "(ports_ok d \<Longrightarrow> calm d d') \<Longrightarrow> calm d d'"
  by (simp add: calm_def)

lemmas calm_defs = calm_def unmoved_def ports_ok_def slot_def

lemma calm_stat [simp, intro]: "calm d (stat_add k v d)" "calm d (stat_set k v d)"
  by (simp_all add: calm_defs stat_add_def stat_set_def)

lemma calm_emit: "urb_ids evs = [] \<Longrightarrow> calm d (du_emit evs d)"
  by (simp add: calm_defs du_emit_def)

lemma calm_port: "(i < 4 \<Longrightarrow> uport_ok (port_state d ! i) \<Longrightarrow> uport_ok p) \<Longrightarrow> calm d (put_port_state i p d)"
  by (cases "i < 4") (auto simp: calm_defs put_port_state_def nth_list_update list_update_beyond)

lemma calm_queue: "du_queues d q = Some c \<Longrightarrow> delayed_timer c' = delayed_timer c \<Longrightarrow> calm d (put_queue q c' d)"
  by (auto simp: calm_defs put_queue_def)

lemma calm_new_queue: "delayed_timer c = None \<Longrightarrow> calm d (put_queue (du_next d) c (d\<lparr>du_next := du_next d + 1\<rparr>))"
  by (auto simp: calm_defs put_queue_def)

lemma calm_endpoint [simp, intro]: "calm d (put_endpoint e c d)"
  by (simp add: calm_defs put_endpoint_def)

lemma calm_fields [simp, intro]:
  "calm d (d\<lparr>du_next := Suc (du_next d)\<rparr>)" "calm d (d\<lparr>last_pcm := x\<rparr>)" "calm d (d\<lparr>last_audio_in_write := x\<rparr>)"
  "calm d (d\<lparr>last_audio_in_read := x\<rparr>)" "calm d (d\<lparr>configure_history := h\<rparr>)" "calm d (d\<lparr>control_devices := cs\<rparr>)"
  by (auto simp: calm_defs)

text \<open>The same after another calm step, so that compositions are proved from the outside in.\<close>

lemma calm_after_stat [simp]: "calm d e \<Longrightarrow> calm d (stat_add k v e)" "calm d e \<Longrightarrow> calm d (stat_set k v e)"
  using calm_trans calm_stat by blast+

lemma calm_after_fields [simp]:
  "calm d e \<Longrightarrow> calm d (e\<lparr>last_pcm := x\<rparr>)" "calm d e \<Longrightarrow> calm d (e\<lparr>last_audio_in_write := x\<rparr>)"
  "calm d e \<Longrightarrow> calm d (e\<lparr>last_audio_in_read := x\<rparr>)" "calm d e \<Longrightarrow> calm d (e\<lparr>configure_history := h\<rparr>)"
  "calm d e \<Longrightarrow> calm d (put_endpoint f c e)"
  using calm_trans calm_fields calm_endpoint by blast+

lemma calm_after_emit: "calm d e \<Longrightarrow> urb_ids evs = [] \<Longrightarrow> calm d (du_emit evs e)"
  using calm_trans calm_emit by blast

lemma calm_done [simp]: "calm d e \<Longrightarrow> calm d (done_with r status e)"
  unfolding done_with_def by (rule calm_after_emit) simp_all

lemma calm_counters [simp]:
  "calm d e \<Longrightarrow> calm d (VdsAdjustEndpointDelayedPending a v e)"
  "calm d e \<Longrightarrow> calm d (VdsIncrementEndpointPurgePending a e)"
  "calm d e \<Longrightarrow> calm d (VdsIncrementEndpointPurgeWork a e)"
  "calm d e \<Longrightarrow> calm d (VdsIncrementEndpointPurgeComplete a e)"
  by (simp_all add: VdsAdjustEndpointDelayedPending_def VdsIncrementEndpointPurgePending_def
      VdsIncrementEndpointPurgeWork_def VdsIncrementEndpointPurgeComplete_def Let_def)

lemma ports_ok_port: "ports_ok d \<Longrightarrow> i < unat (max_port d) \<Longrightarrow> uport_ok (port_state d ! i)"
  by (simp add: ports_ok_def)

lemma calm_frame: "calm d (snd (VdsQueueFrame i ty payload d))"
proof (rule calmI)
  assume ok: "ports_ok d"
  show "calm d (snd (VdsQueueFrame i ty payload d))"
  proof (cases "i < unat (max_port d)")
    case True
    obtain status evs p where q: "queue_frame ty payload (port_state d ! i) = (status, evs, p)" by (metis prod_cases3)
    note f = uport_ok_queue_frame [OF ports_ok_port [OF ok True] q]
    have "calm d (du_emit evs (put_port_state i p d))" using f by (intro calm_after_emit calm_port)
    then show ?thesis by (simp add: VdsQueueFrame_def q)
  qed (simp add: VdsQueueFrame_def)
qed

lemma calm_after_frame: "calm d e \<Longrightarrow> calm d (snd (VdsQueueFrame i ty payload e))"
  using calm_trans calm_frame by blast

lemma calm_interface_event [simp]: "calm d e \<Longrightarrow> calm d (VdsQueueInterfaceEvent i n a ty e)"
  unfolding VdsQueueInterfaceEvent_def by (rule calm_after_frame)

lemma calm_note: "calm d (note_request q n d)"
  by (auto simp: note_request_def intro: calm_queue split: option.splits)

lemma calm_after_note: "calm d e \<Longrightarrow> calm d (note_request q n e)"
  using calm_trans calm_note by blast

lemma calm_record_control: "calm d e \<Longrightarrow> calm d (record_control s n e)"
  by (simp add: record_control_def)

lemma calm_record_pcm: "calm d e \<Longrightarrow> calm d (VdsRecordIsoPcmSamples t e)"
  by (simp add: VdsRecordIsoPcmSamples_def split: option.splits)

lemma calm_record_configure: "calm d (record_configure c d)"
  by (simp add: record_configure_def Let_def)

lemma calm_altsetting: "calm d e \<Longrightarrow> calm d (set_altsetting i k v e)"
proof -
  assume "calm d e"
  also have "calm e (set_altsetting i k v e)" unfolding set_altsetting_def Let_def by (rule calm_port) (rule uport_ok_altsetting)
  finally show ?thesis .
qed

lemma calm_announce: "calm d e \<Longrightarrow> calm d (announce_audio_out i c x y e)" "calm d e \<Longrightarrow> calm d (announce_audio_in i c x y e)"
  by (simp_all add: announce_audio_out_def announce_audio_in_def calm_altsetting)

section \<open>The account of URBs\<close>

text \<open>
  \<open>F\<close> and \<open>R\<close> are the timers whose callbacks run, before and after their first section, \<open>L\<close>
  those that a flush has taken and not yet stopped, \<open>S\<close> the URBs submitted so far.
\<close>

definition ude_urbs_ok :: "nat list \<Rightarrow> nat list \<Rightarrow> nat list \<Rightarrow> nat list \<Rightarrow> ude \<Rightarrow> bool" where
  "ude_urbs_ok F R L S d \<longleftrightarrow>
     finite (dom (du_timers d)) \<and> (\<forall>t \<in> dom (du_timers d). t < du_next d) \<and> (\<forall>q \<in> dom (du_queues d). q < du_next d) \<and>
     mset S = mset (urb_ids (du_log d)) + image_mset (\<lambda>t. dl_request (the (du_timers d t))) (mset_set (dom (du_timers d))) \<and>
     distinct (F @ R) \<and> (\<forall>t. t \<in> set (F @ R) \<longleftrightarrow> (\<exists>x. du_timers d t = Some x \<and> \<not> dl_armed x)) \<and>
     (\<forall>t x. du_timers d t = Some x \<longrightarrow> dl_armed x \<longrightarrow> t \<in> set L \<or> slot d (dl_queue x) = Some t)"

definition pending :: "ude \<Rightarrow> nat multiset" where
  "pending d = image_mset (\<lambda>t. dl_request (the (du_timers d t))) (mset_set (dom (du_timers d)))"

lemma ude_urbs_okD:
  assumes "ude_urbs_ok F R L S d"
  shows "finite (dom (du_timers d))" "du_timers d t = Some x \<Longrightarrow> t < du_next d" "du_queues d q = Some c \<Longrightarrow> q < du_next d"
    "mset S = mset (urb_ids (du_log d)) + pending d" "distinct (F @ R)"
    "t \<in> set (F @ R) \<longleftrightarrow> (\<exists>x. du_timers d t = Some x \<and> \<not> dl_armed x)"
    "du_timers d t = Some x \<Longrightarrow> dl_armed x \<Longrightarrow> t \<in> set L \<or> slot d (dl_queue x) = Some t"
  using assms unfolding ude_urbs_ok_def pending_def by blast+

lemma ude_urbs_okI:
  assumes "finite (dom (du_timers d))" "\<And>t x. du_timers d t = Some x \<Longrightarrow> t < du_next d"
    "\<And>q c. du_queues d q = Some c \<Longrightarrow> q < du_next d"
    "mset S = mset (urb_ids (du_log d)) + pending d" "distinct (F @ R)"
    "\<And>t. t \<in> set (F @ R) \<longleftrightarrow> (\<exists>x. du_timers d t = Some x \<and> \<not> dl_armed x)"
    "\<And>t x. du_timers d t = Some x \<Longrightarrow> dl_armed x \<Longrightarrow> t \<in> set L \<or> slot d (dl_queue x) = Some t"
  shows "ude_urbs_ok F R L S d"
  using assms unfolding ude_urbs_ok_def pending_def by blast

lemma ude_urbs_ok_unmoved:
  assumes "ude_urbs_ok F R L S d" "unmoved d d'"
  shows "ude_urbs_ok F R L S d'"
proof -
  note u = ude_urbs_okD [OF assms(1)]
  have e: "du_timers d' = du_timers d" "urb_ids (du_log d') = urb_ids (du_log d)" "du_next d \<le> du_next d'"
    using assms(2) by (simp_all add: unmoved_def)
  have pe: "pending d' = pending d" by (simp add: pending_def e(1))
  have s: "slot d' q = Some t" if "slot d q = Some t" for q t
  proof -
    have "q < du_next d" using that u(3) by (auto simp: slot_def split: option.splits)
    with that assms(2) show ?thesis by (simp add: unmoved_def)
  qed
  show ?thesis
  proof (rule ude_urbs_okI)
    fix t x assume "du_timers d' t = Some x"
    then show "t < du_next d'" using u(2) e by (metis less_le_trans)
  next
    fix q c assume q: "du_queues d' q = Some c"
    then consider "du_queues d q \<noteq> None" | "q < du_next d'" using assms(2) by (auto simp: unmoved_def)
    then show "q < du_next d'" using u(3) e(3) by cases fastforce+
  next
    fix t x assume "du_timers d' t = Some x" "dl_armed x"
    then show "t \<in> set L \<or> slot d' (dl_queue x) = Some t" using u(7) s e(1) by metis
  qed (use u(1,4,5,6) e pe in \<open>simp_all\<close>)
qed

lemma ude_urbs_ok_emit: "ude_urbs_ok F R L S d \<Longrightarrow> ude_urbs_ok F R L (S @ urb_ids evs) (du_emit evs d)"
  by (auto simp: ude_urbs_ok_def du_emit_def slot_def)

text \<open>Both invariants together.\<close>

definition accounted :: "nat list \<Rightarrow> nat list \<Rightarrow> nat list \<Rightarrow> nat list \<Rightarrow> ude \<Rightarrow> bool" where
  "accounted F R L S d \<longleftrightarrow> ports_ok d \<and> ude_urbs_ok F R L S d"

lemma accounted_calm: "accounted F R L S d \<Longrightarrow> calm d d' \<Longrightarrow> accounted F R L S d'"
  using ude_urbs_ok_unmoved by (auto simp: accounted_def calm_def)

lemma ports_ok_emit [simp]: "ports_ok (du_emit evs d) = ports_ok d"
  by (simp add: ports_ok_def du_emit_def)

lemma accounted_complete: "accounted F R L S d \<Longrightarrow> accounted F R L (S @ [r]) (VdsCompleteUrbAsync r n status d)"
proof -
  assume "accounted F R L S d"
  then have "accounted F R L (S @ [r]) (du_emit [Urb_done r n status] d)"
    using ude_urbs_ok_emit [of F R L S d "[Urb_done r n status]"] by (simp add: accounted_def)
  then show ?thesis unfolding VdsCompleteUrbAsync_def by (rule accounted_calm) simp
qed

lemma accounted_fail: "accounted F R L S d \<Longrightarrow> accounted F R L (S @ [ur_id r]) (fail_urb r status d)"
  unfolding fail_urb_def by (rule accounted_complete)

text \<open>An URB given to a timer.\<close>

lemma pending_insert:
  assumes "finite (dom (du_timers d))" "du_timers d t = None" "du_timers d' = (du_timers d)(t \<mapsto> x)"
  shows "pending d' = add_mset (dl_request x) (pending d)"
proof -
  have "image_mset (\<lambda>k. dl_request (the (((du_timers d)(t \<mapsto> x)) k))) (mset_set (dom (du_timers d))) =
      image_mset (\<lambda>k. dl_request (the (du_timers d k))) (mset_set (dom (du_timers d)))"
    using assms(1,2) by (intro image_mset_cong) auto
  moreover have "t \<notin> dom (du_timers d)" using assms(2) by auto
  ultimately show ?thesis using assms(1) by (simp add: pending_def assms(3))
qed

lemma pending_remove:
  assumes "finite (dom (du_timers d))" "du_timers d t = Some x" "du_timers d' = (du_timers d)(t := None)"
  shows "pending d = add_mset (dl_request x) (pending d')"
proof -
  have "du_timers d = (du_timers d')(t \<mapsto> x)" using assms(2,3) by auto
  moreover have "finite (dom (du_timers d'))" "du_timers d' t = None" using assms(1,3) by simp_all
  ultimately show ?thesis by (intro pending_insert)
qed

lemma ude_urbs_ok_arm:
  assumes u: "ude_urbs_ok F R L S d" and c: "du_queues d q = Some c" "delayed_timer c = None"
    and x: "dl_queue x = q" "dl_armed x" and c': "delayed_timer c' = Some (du_next d)"
    and e: "e = put_queue q c' (d\<lparr>du_next := du_next d + 1, du_timers := (du_timers d)(du_next d \<mapsto> x)\<rparr>)"
  shows "ude_urbs_ok F R L (S @ [dl_request x]) e"
proof -
  note k = ude_urbs_okD [OF u]
  have fresh: "du_timers d (du_next d) = None" using k(2) by fastforce
  have te: "du_timers e = (du_timers d)(du_next d \<mapsto> x)" "urb_ids (du_log e) = urb_ids (du_log d)" "du_next e = Suc (du_next d)"
    "du_queues e = (du_queues d)(q \<mapsto> c')"
    by (simp_all add: e put_queue_def)
  have sl: "slot e k = Some j" if "slot d k = Some j" for k j
    using that c by (auto simp: slot_def te split: if_splits)
  show ?thesis
  proof (rule ude_urbs_okI)
    show "mset (S @ [dl_request x]) = mset (urb_ids (du_log e)) + pending e"
      using k(4) pending_insert [OF k(1) fresh te(1)] te(2) by simp
    show "t < du_next e" if "du_timers e t = Some y" for t y
      using that k(2) [of t y] by (auto simp: te split: if_splits)
    show "j < du_next e" if "du_queues e j = Some y" for j y
      using that k(3) [of j y] k(3) [OF c(1)] by (auto simp: te split: if_splits)
    show "t \<in> set (F @ R) \<longleftrightarrow> (\<exists>x. du_timers e t = Some x \<and> \<not> dl_armed x)" for t
      using k(6) [of t] fresh x unfolding te(1) by auto
    show "t \<in> set L \<or> slot e (dl_queue y) = Some t" if t: "du_timers e t = Some y" "dl_armed y" for t y
    proof (cases "t = du_next d")
      case True
      then have "y = x" using t(1) unfolding te(1) by simp
      then show ?thesis using True x c' by (simp add: slot_def te)
    next
      case False
      then show ?thesis using t k(7) [of t y] sl unfolding te(1) by auto
    qed
  qed (use k(1,5) te in \<open>simp_all\<close>)
qed

lemma accounted_delay:
  assumes a: "accounted F R L S d" and c: "du_queues d q = Some c"
    and r: "VdsCompleteUrbAfterDelay ts q r n status delay ty payload m d = (b, d')"
  shows "b \<Longrightarrow> accounted F R L (S @ [r]) d'" "\<not> b \<Longrightarrow> accounted F R L S d'"
proof -
  assume b
  let ?x = "\<lparr>dl_queue = q, dl_port_index = qc_port_index c, dl_request = r, dl_bytes = n, dl_result = status,
    dl_frame = (case payload of Some b \<Rightarrow> if m > 0 then Some (ty, take m b) else None | None \<Rightarrow> None),
    dl_due_time = - (int delay * 10), dl_armed = True\<rparr>"
  let ?e = "put_queue q (c\<lparr>delayed_timer := Some (du_next d), delayed_request := Some r\<rparr>)
    (d\<lparr>du_next := du_next d + 1, du_timers := (du_timers d)(du_next d \<mapsto> ?x)\<rparr>)"
  have free: "delayed_timer c = None"
    and d': "d' = stat_inc Delayed_iso_urb_count (VdsAdjustEndpointDelayedPending (qc_address c) 1 ?e)"
    using \<open>b\<close> r c by (auto simp: VdsCompleteUrbAfterDelay_def Let_def split: if_splits)
  have "ude_urbs_ok F R L S d" and p: "ports_ok d" using a by (simp_all add: accounted_def)
  from ude_urbs_ok_arm [OF this(1) c free _ _ _ refl, of ?x] have "ude_urbs_ok F R L (S @ [r]) ?e" by simp
  moreover have "ports_ok ?e" using p by (simp add: ports_ok_def put_queue_def)
  ultimately have "accounted F R L (S @ [r]) ?e" by (simp add: accounted_def)
  then show "accounted F R L (S @ [r]) d'" unfolding d' by (rule accounted_calm) simp
next
  assume "\<not> b"
  then have "calm d d'" using r c by (auto simp: VdsCompleteUrbAfterDelay_def Let_def split: if_splits)
  with a show "accounted F R L S d'" by (rule accounted_calm)
qed

section \<open>Timers and flushes\<close>

text \<open>The framework calls the callback of a timer: from then on it cannot be stopped.\<close>

definition timer_fire :: "nat \<Rightarrow> ude \<Rightarrow> ude" where
  "timer_fire timer d =
     (case du_timers d timer of
        None \<Rightarrow> d
      | Some x \<Rightarrow> d\<lparr>du_timers := (du_timers d)(timer \<mapsto> x\<lparr>dl_armed := False\<rparr>)\<rparr>)"

lemma pending_fire: "pending (timer_fire t d) = pending d"
  by (auto simp: pending_def timer_fire_def insert_absorb domI split: option.splits intro!: image_mset_cong)

lemma accounted_fire:
  assumes a: "accounted F R L S d" and t: "du_timers d t = Some x" "dl_armed x"
  shows "accounted (t # F) R L S (timer_fire t d)"
proof -
  have u: "ude_urbs_ok F R L S d" using a by (simp add: accounted_def)
  note k = ude_urbs_okD [OF u]
  let ?e = "timer_fire t d"
  have e: "du_timers ?e = (du_timers d)(t \<mapsto> x\<lparr>dl_armed := False\<rparr>)" "du_log ?e = du_log d" "du_next ?e = du_next d"
    "du_queues ?e = du_queues d"
    using t by (simp_all add: timer_fire_def)
  have "t \<notin> set (F @ R)" using k(6) [of t] t by simp
  then have "ude_urbs_ok (t # F) R L S ?e"
    using k(1) k(2) [OF t(1)] k(4,5) k(2) k(3) k(6) k(7)
    by (intro ude_urbs_okI) (auto simp: e slot_def pending_fire split: if_splits)
  then show ?thesis using a t by (simp add: accounted_def ports_ok_def timer_fire_def)
qed

text \<open>The first section of the callback empties the slot if it is still its own.\<close>

lemma ude_urbs_ok_clear:
  assumes u: "ude_urbs_ok F R L S d" and c: "du_queues d q = Some c" "delayed_timer c = Some t" and c': "delayed_timer c' = None"
    and L: "set L \<subseteq> set L'" and t: "t \<in> set L' \<or> t \<in> set (F @ R)"
  shows "ude_urbs_ok F R L' S (put_queue q c' d)"
proof -
  note k = ude_urbs_okD [OF u]
  let ?e = "put_queue q c' d"
  have e: "du_timers ?e = du_timers d" "du_log ?e = du_log d" "du_next ?e = du_next d" "du_queues ?e = (du_queues d)(q \<mapsto> c')"
    by (simp_all add: put_queue_def)
  show ?thesis
  proof (rule ude_urbs_okI)
    fix j x assume j: "du_timers ?e j = Some x" "dl_armed x"
    then have "j \<in> set L \<or> slot d (dl_queue x) = Some j" using k(7) e(1) by simp
    moreover have "j \<notin> set (F @ R)" using j k(6) [of j] e(1) by simp
    ultimately show "j \<in> set L' \<or> slot ?e (dl_queue x) = Some j"
      using L t c by (auto simp: slot_def e split: if_splits)
  next
    show "j < du_next ?e" if "du_queues ?e j = Some y" for j y
      using that k(3) [of j y] k(3) [OF c(1)] by (auto simp: e split: if_splits)
  qed (use k in \<open>auto simp: e pending_def\<close>)
qed

lemma ports_ok_put_queue [simp]: "ports_ok (put_queue q c d) = ports_ok d"
  by (simp add: ports_ok_def put_queue_def)

lemma ude_urbs_ok_lists:
  "ude_urbs_ok F R L S d \<Longrightarrow> distinct (F' @ R') \<Longrightarrow> set (F' @ R') = set (F @ R) \<Longrightarrow> ude_urbs_ok F' R' L S d"
  unfolding ude_urbs_ok_def by metis

lemma accounted_release:
  assumes a: "accounted F R L S d" and t: "t \<in> set F" "du_timers d t = Some x"
  shows "accounted (remove1 t F) (t # R) L S (timer_release t x d)"
proof -
  have u: "ude_urbs_ok F R L S d" and p: "ports_ok d" using a by (simp_all add: accounted_def)
  have "distinct (F @ R)" using ude_urbs_okD(5) [OF u] .
  then have lists: "distinct (remove1 t F @ t # R)" "set (remove1 t F @ t # R) = set (F @ R)" using t(1) by auto
  have "accounted F R L S (timer_release t x d)"
  proof (cases "slot d (dl_queue x) = Some t")
    case False
    then show ?thesis using a by (auto simp: timer_release_def slot_def split: option.splits)
  next
    case True
    then obtain c where c: "du_queues d (dl_queue x) = Some c" "delayed_timer c = Some t"
      by (auto simp: slot_def split: option.splits)
    have "accounted F R L S (put_queue (dl_queue x) (c\<lparr>delayed_timer := None, delayed_request := None\<rparr>) d)"
      using ude_urbs_ok_clear [OF u c, of _ L] t(1) p by (simp add: accounted_def)
    then have "accounted F R L S (VdsAdjustEndpointDelayedPending (qc_address c) (- 1)
        (put_queue (dl_queue x) (c\<lparr>delayed_timer := None, delayed_request := None\<rparr>) d))"
      by (rule accounted_calm) simp
    then show ?thesis by (simp add: timer_release_def c)
  qed
  then show ?thesis using ude_urbs_ok_lists [OF _ lists] by (simp add: accounted_def)
qed

text \<open>Completing the URB of a timer and deleting the timer.\<close>

lemma ude_urbs_ok_settle:
  assumes u: "ude_urbs_ok F R L S d" and t: "du_timers d t = Some x"
    and e: "du_timers e = (du_timers d)(t := None)" "urb_ids (du_log e) = urb_ids (du_log d) @ [dl_request x]"
      "du_next e = du_next d" "du_queues e = du_queues d"
    and lists: "distinct (F' @ R')" "set (F' @ R') = set (F @ R) - {t}" "set L - {t} \<subseteq> set L'"
  shows "ude_urbs_ok F' R' L' S e"
proof -
  note k = ude_urbs_okD [OF u]
  show ?thesis
  proof (rule ude_urbs_okI)
    show "mset S = mset (urb_ids (du_log e)) + pending e"
      using k(4) pending_remove [OF k(1) t e(1)] e(2) by simp
    show "j \<in> set (F' @ R') \<longleftrightarrow> (\<exists>x. du_timers e j = Some x \<and> \<not> dl_armed x)" for j
      using k(6) [of j] lists(2) by (auto simp: e(1))
    show "j \<in> set L' \<or> slot e (dl_queue y) = Some j" if "du_timers e j = Some y" "dl_armed y" for j y
      using that k(7) [of j y] lists(3) by (auto simp: e slot_def split: if_splits)
  qed (use k lists(1) in \<open>auto simp: e split: if_splits\<close>)
qed

lemma accounted_settle:
  assumes a: "accounted F R L S d" and t: "du_timers d t = Some x" and calm: "calm d d1"
    and lists: "distinct (F' @ R')" "set (F' @ R') = set (F @ R) - {t}" "set L - {t} \<subseteq> set L'"
  shows "accounted F' R' L' S ((VdsCompleteDelayedUrb x d1)\<lparr>du_timers := (du_timers (VdsCompleteDelayedUrb x d1))(t := None)\<rparr>)"
proof -
  define d2 where "d2 = (case dl_frame x of None \<Rightarrow> d1 | Some (ty, payload) \<Rightarrow> snd (VdsQueueFrame (dl_port_index x) ty payload d1))"
  have "calm d d2" using calm calm_after_frame by (auto simp: d2_def split: option.splits)
  with a have a2: "accounted F R L S d2" by (rule accounted_calm)
  have "unmoved d d2" using \<open>calm d d2\<close> a by (simp add: accounted_def calm_def)
  then have t2: "du_timers d2 t = Some x" using t by (simp add: unmoved_def)
  let ?e = "(du_emit [Urb_done (dl_request x) (dl_bytes x) (dl_result x)] d2)\<lparr>du_timers := (du_timers d2)(t := None)\<rparr>"
  have u2: "ude_urbs_ok F R L S d2" using a2 by (simp add: accounted_def)
  have "ude_urbs_ok F' R' L' S ?e" by (rule ude_urbs_ok_settle [OF u2 t2 _ _ _ _ lists]) (simp_all add: du_emit_def)
  then have "accounted F' R' L' S ?e" using a2 by (simp add: accounted_def ports_ok_def du_emit_def)
  then have "accounted F' R' L' S (stat_inc Async_urb_complete_count ?e)" by (rule accounted_calm) simp
  moreover have "(VdsCompleteDelayedUrb x d1)\<lparr>du_timers := (du_timers (VdsCompleteDelayedUrb x d1))(t := None)\<rparr> =
      stat_inc Async_urb_complete_count ?e"
    by (simp add: VdsCompleteDelayedUrb_def VdsCompleteUrbAsync_def d2_def [symmetric] stat_add_def du_emit_def)
  ultimately show ?thesis by simp
qed

lemma accounted_finish:
  assumes a: "accounted F R L S d" and t: "t \<in> set R" "du_timers d t = Some x"
  shows "accounted F (remove1 t R) L S (timer_finish t x d)"
proof -
  have "ude_urbs_ok F R L S d" using a by (simp add: accounted_def)
  then have "distinct (F @ R)" by (rule ude_urbs_okD(5))
  then have "distinct (F @ remove1 t R)" "set (F @ remove1 t R) = set (F @ R) - {t}" using t(1) by auto
  from accounted_settle [OF a t(2) calm_stat(1) this] show ?thesis by (simp add: timer_finish_def Let_def)
qed

lemma accounted_flush_take:
  assumes a: "accounted F R L S d" and f: "flush_take q d = (x, d')"
  shows "accounted F R (case x of None \<Rightarrow> L | Some t \<Rightarrow> t # L) S d'"
proof (cases x)
  case None
  then show ?thesis using a f by (auto simp: flush_take_def split: option.splits)
next
  case (Some t)
  then obtain c where c: "du_queues d q = Some c" "delayed_timer c = Some t"
    and d': "d' = VdsIncrementEndpointPurgePending (qc_address c) (VdsAdjustEndpointDelayedPending (qc_address c) (- 1)
      (put_queue q (c\<lparr>delayed_timer := None, delayed_request := None\<rparr>) d))"
    using f by (auto simp: flush_take_def split: option.splits)
  have "accounted F R (t # L) S (put_queue q (c\<lparr>delayed_timer := None, delayed_request := None\<rparr>) d)"
    using ude_urbs_ok_clear [OF _ c, of F R L S _ "t # L"] a by (simp add: accounted_def subset_insertI)
  then have "accounted F R (t # L) S d'" unfolding d' by (rule accounted_calm) simp
  then show ?thesis by (simp add: Some)
qed

lemma accounted_flush_stop:
  assumes a: "accounted F R L S d" and L: "set L - {t} \<subseteq> set L'"
  shows "accounted F R L' S (flush_stop t address d)"
proof -
  have u: "ude_urbs_ok F R L S d" and p: "ports_ok d" using a by (simp_all add: accounted_def)
  note k = ude_urbs_okD [OF u]
  define e where "e = (case du_timers d t of
      None \<Rightarrow> d
    | Some x \<Rightarrow>
        if dl_armed x then
          (let d = VdsIncrementEndpointPurgeWork address d;
               d = VdsCompleteDelayedUrb x (stat_inc Delayed_iso_urb_complete_count d) in
           d\<lparr>du_timers := (du_timers d)(t := None)\<rparr>)
        else d)"
  have "accounted F R L' S e"
  proof (cases "\<exists>x. du_timers d t = Some x \<and> dl_armed x")
    case True
    then obtain x where x: "du_timers d t = Some x" "dl_armed x" by blast
    then have "t \<notin> set (F @ R)" using k(6) [of t] by simp
    then have l: "set (F @ R) = set (F @ R) - {t}" by auto
    show ?thesis
      using accounted_settle [OF a x(1) _ k(5) l L, of "stat_inc Delayed_iso_urb_complete_count (VdsIncrementEndpointPurgeWork address d)"] x
      by (simp add: e_def Let_def)
  next
    case False
    then have "ude_urbs_ok F R L' S d"
      using k L by (intro ude_urbs_okI) (auto, metis False insert_Diff_single insert_iff subset_iff)
    moreover have "e = d" using False by (auto simp: e_def split: option.splits)
    ultimately show ?thesis using p by (simp add: accounted_def)
  qed
  then have "accounted F R L' S (VdsIncrementEndpointPurgeComplete address e)" by (rule accounted_calm) simp
  then show ?thesis by (simp add: flush_stop_def e_def)
qed

lemma accounted_flush: "accounted F R L S d \<Longrightarrow> accounted F R L S (VdsFlushDelayedEndpointUrb q d)"
proof -
  assume a: "accounted F R L S d"
  obtain x d1 where f: "flush_take q d = (x, d1)" by fastforce
  note b = accounted_flush_take [OF a f]
  show ?thesis
  proof (cases x)
    case None
    then show ?thesis using b f by (simp add: VdsFlushDelayedEndpointUrb_def)
  next
    case (Some t)
    with b have "accounted F R (t # L) S d1" by simp
    then have "accounted F R L S (flush_stop t address d1)" for address by (rule accounted_flush_stop) auto
    then show ?thesis using f Some by (simp add: VdsFlushDelayedEndpointUrb_def)
  qed
qed

end
