(* ===== verification/UdeReach.thy ===== *)
theory UdeReach
  imports UdeSteps
begin

text \<open>
  Every handler of the bus driver keeps the account, and so does every sequence of the steps of the
  handlers, timers and flushes: the step relation of the driver, its reachable
  states, and the invariant on them.
\<close>

section \<open>URB handlers\<close>

lemma accounted_control_urb:
  assumes a: "accounted F R L S d" and c: "du_queues d q = Some c"
  shows "accounted F R L (S @ [ur_id r]) (snd (VdsEvtControlUrb q r d))"
proof (cases "ur_submit r \<and> (\<exists>s. ur_setup r = Inr s) \<and> qc_port_index c < unat (max_port d)")
  case True
  then obtain s where s: "ur_submit r" "ur_setup r = Inr s" "qc_port_index c < unat (max_port d)" by blast
  let ?b = "case ur_buffer r of Inl _ \<Rightarrow> None | Inr b \<Rightarrow> Some b"
  obtain status n b evs p where cr: "ude_control_request s ?b (port_state d ! qc_port_index c) = (status, n, b, evs, p)"
    by (metis prod_cases5)
  have "ports_ok d" using a by (simp add: accounted_def)
  note ok = uport_ok_control [OF ports_ok_port [OF this s(3)] cr]
  let ?e = "record_control s n (du_emit evs (put_port_state (qc_port_index c) p d))"
  have "calm d ?e" using ok by (intro calm_record_control calm_after_emit calm_port)
  then have "accounted F R L S ?e" using a by (rule accounted_calm [rotated])
  then have "ude_urbs_ok F R L (S @ [ur_id r]) (du_emit [Urb_done (ur_id r) n st] ?e)" "ports_ok ?e" for st
    using ude_urbs_ok_emit [of F R L S ?e "[Urb_done (ur_id r) n st]"] by (simp_all add: accounted_def)
  then show ?thesis using s c cr by (simp add: VdsEvtControlUrb_def Let_def accounted_def)
next
  case False
  then show ?thesis using c accounted_fail [OF a, of r] by (auto simp: VdsEvtControlUrb_def Let_def split: sum.splits)
qed

lemma accounted_delayed_or_now:
  assumes a: "accounted F R L S d" and c: "du_queues d q = Some c"
    and r: "VdsCompleteUrbAfterDelay ts q r n status delay ty payload k d = (b, d1)"
    and e: "e = (if b then d1 else VdsCompleteUrbAsync r m st d2)" and calm: "calm d1 d2"
  shows "accounted F R L (S @ [r]) e"
  using accounted_delay [OF a c r] accounted_complete accounted_calm [OF _ calm] e by simp

lemma note_request_queue: "du_queues d q = Some c \<Longrightarrow> \<exists>c'. du_queues (note_request q n d) q = Some c' \<and> qc_port_index c' = qc_port_index c"
  by (simp add: note_request_def put_queue_def)

lemma stat_queues [simp]: "du_queues (stat_add k v d) = du_queues d" "du_queues (stat_set k v d) = du_queues d"
  "du_queues (put_port_state i p d) = du_queues d"
  by (simp_all add: stat_add_def stat_set_def put_port_state_def)

lemma record_pcm_queues [simp]: "du_queues (VdsRecordIsoPcmSamples t d) = du_queues d"
  by (simp add: VdsRecordIsoPcmSamples_def split: option.splits)

lemma accounted_iso_out_urb:
  assumes a: "accounted F R L S d" and c: "du_queues d q = Some c"
  shows "accounted F R L (S @ [ur_id r]) (snd (VdsEvtIsoOutUrb ts q r d))"
proof (cases "ur_submit r")
  case False
  then show ?thesis using c accounted_fail [OF a, of r] by (simp add: VdsEvtIsoOutUrb_def)
next
  case sub: True
  show ?thesis
  proof (cases "\<exists>t. ur_urb r = Some (Iso_urb t)")
    case True
    then obtain t where t: "ur_urb r = Some (Iso_urb t)" by blast
    define e where "e = VdsRecordIsoPcmSamples t (stat_set Last_iso_length (of_nat (it_length t))
      (stat_set Last_iso_packets (of_nat (length (it_packets t))) (stat_add Iso_out_byte_count (of_nat (it_length t))
        (stat_inc Iso_out_request_count (note_request q (it_length t) d)))))"
    let ?b = "VdsIsoTransferBuffer (ur_urb r)"
    obtain b d1 where dl: "VdsCompleteUrbAfterDelay ts q (ur_id r) (it_length t) (Usbd_status USBD_STATUS_SUCCESS)
        (iso_out_delay_us (length (it_packets t))) VDS_FRAME_USB_AUDIO_OUT ?b (it_length t) e = (b, d1)" by fastforce
    let ?f = "case ?b of Some x \<Rightarrow> (if it_length t > 0
        then snd (VdsQueueFrame (qc_port_index c) VDS_FRAME_USB_AUDIO_OUT (take (it_length t) x) d1) else d1) | None \<Rightarrow> d1"
    have "calm d e" unfolding e_def by (intro calm_record_pcm) (simp add: calm_note)
    then have ae: "accounted F R L S e" by (rule accounted_calm [OF a])
    obtain c' where ce: "du_queues e q = Some c'" using note_request_queue [OF c] by (auto simp: e_def)
    have cf: "calm d1 ?f" by (auto simp: calm_frame split: option.splits)
    have "snd (VdsEvtIsoOutUrb ts q r d) =
        (if b then d1 else VdsCompleteUrbAsync (ur_id r) (it_length t) (Usbd_status USBD_STATUS_SUCCESS) ?f)"
      using sub c dl by (simp add: VdsEvtIsoOutUrb_def t Let_def e_def split: bool.splits)
    from accounted_delayed_or_now [OF ae ce dl this cf] show ?thesis .
  next
    case False
    define e where "e = (case ur_urb r of Some (Other_urb f) \<Rightarrow> stat_set Last_non_iso_function f (stat_inc Non_iso_urb_count d) | _ \<Rightarrow> d)"
    have "calm d e" by (simp add: e_def split: option.splits usb_urb.splits)
    then have "accounted F R L S e" "accounted F R L S (note_request q n e)" for n
      using accounted_calm [OF a] calm_after_note by blast+
    note acc = this [THEN accounted_complete]
    have "snd (VdsEvtIsoOutUrb ts q r d) =
        (case ur_buffer r of
           Inr b \<Rightarrow> VdsCompleteUrbAsync (ur_id r) (length b) (Nt_status STATUS_SUCCESS) (note_request q (length b) e)
         | Inl _ \<Rightarrow> VdsCompleteUrbAsync (ur_id r) 0 (Nt_status STATUS_SUCCESS) e)"
      using sub c False by (auto simp: VdsEvtIsoOutUrb_def Let_def e_def split: option.splits usb_urb.splits sum.splits)
    then show ?thesis using acc by (simp split: sum.splits)
  qed
qed

lemma uport_ok_iso_in_fill: "uport_ok (is_port x) \<Longrightarrow> uport_ok (is_port (iso_in_fill offset capacity x))"
proof (cases "is_buffer x")
  case (Some b)
  assume ok: "uport_ok (is_port x)"
  obtain bs got p where c: "VdsCopyAudioInPcm (min capacity VDS_IN_BYTES_PER_MS) (is_port x) = (bs, got, p)" by (metis prod_cases3)
  from uport_ok_copy [OF ok this] show ?thesis by (simp add: iso_in_fill_def Some Let_def c)
qed (simp add: iso_in_fill_def)

lemma is_port_copy [simp]: "is_port (iso_in_copy offset capacity x) = is_port x"
  by (simp add: iso_in_copy_def split: option.splits)

lemma uport_ok_iso_in_packet: "uport_ok (is_port x) \<Longrightarrow> uport_ok (is_port (snd (iso_in_packet n nx e x)))"
  by (simp add: iso_in_packet_def Let_def uport_ok_iso_in_fill del: min_less_iff_conj)

lemma uport_ok_iso_in_packets: "uport_ok (is_port x) \<Longrightarrow> uport_ok (is_port (snd (iso_in_packets n es x)))"
proof (induction es arbitrary: x)
  case (Cons e es)
  have "uport_ok (is_port (snd (iso_in_packet n (case es of [] \<Rightarrow> n | f # _ \<Rightarrow> ie_offset f) e x)))"
    using Cons.prems by (rule uport_ok_iso_in_packet)
  then show ?case using Cons.IH by (simp add: case_prod_unfold)
qed simp

lemma accounted_iso_in_urb:
  assumes a: "accounted F R L S d" and c: "du_queues d q = Some c"
  shows "accounted F R L (S @ [ur_id r]) (snd (snd (VdsEvtIsoInUrb ts frame q r d)))"
proof (cases "\<exists>t. ur_submit r \<and> ur_urb r = Some (Iso_urb t) \<and> qc_port_index c < unat (max_port d)")
  case True
  then obtain t where t: "ur_submit r" "ur_urb r = Some (Iso_urb t)" "qc_port_index c < unat (max_port d)" by blast
  let ?i = "qc_port_index c"
  let ?m = "case ur_buffer r of Inr m \<Rightarrow> Some m | Inl _ \<Rightarrow> None"
  obtain buffer n mirror where bnm: "iso_in_buffers t ?m = (buffer, n, mirror)" by (metis prod_cases3)
  obtain packets x where px: "iso_in_packets n (it_packets t)
      \<lparr>is_buffer = buffer, is_mirror = mirror, is_port = port_state d ! ?i, is_completed = 0, is_read = 0\<rparr> = (packets, x)" by fastforce
  have "ports_ok d" using a by (simp add: accounted_def)
  then have p: "uport_ok (is_port x)"
    using uport_ok_iso_in_packets [of "\<lparr>is_buffer = buffer, is_mirror = mirror, is_port = port_state d ! ?i, is_completed = 0, is_read = 0\<rparr>"
        n "it_packets t"] ports_ok_port t(3) px by simp
  define e0 where "e0 = note_request q (is_completed x) (put_port_state ?i (is_port x) d)"
  define e where "e = stat_add Audio_in_zero_byte_count (of_nat (is_completed x) - of_nat (is_read x))
    (stat_add Audio_in_read_byte_count (of_nat (is_read x)) (stat_set Last_iso_length (of_nat n)
      (stat_set Last_iso_packets (of_nat (length (it_packets t))) (stat_add Iso_in_byte_count (of_nat (is_completed x))
        (stat_inc Iso_in_request_count
          (e0\<lparr>last_audio_in_read := VdsRecordAudioInPcmSamples (is_buffer x) n (last_audio_in_read e0)\<rparr>))))))"
  have "calm d e0" unfolding e0_def using p by (intro calm_after_note calm_port)
  then have "calm d e" by (simp add: e_def)
  then have ae: "accounted F R L S e" by (rule accounted_calm [OF a])
  have "du_queues (put_port_state ?i (is_port x) d) q = Some c" using c by simp
  from note_request_queue [OF this] obtain c' where ce: "du_queues e q = Some c'" by (auto simp: e_def e0_def)
  obtain b d1 where dl: "VdsCompleteUrbAfterDelay ts q (ur_id r) (is_completed x) (Usbd_status USBD_STATUS_SUCCESS)
      (iso_in_delay_us frame t) 0 None 0 e = (b, d1)" by fastforce
  have "snd (snd (VdsEvtIsoInUrb ts frame q r d)) =
      (if b then d1 else VdsCompleteUrbAsync (ur_id r) (is_completed x) (Usbd_status USBD_STATUS_SUCCESS) d1)"
    using t c by (simp add: VdsEvtIsoInUrb_def bnm px dl [unfolded e_def e0_def] Let_def split: bool.splits)
  from accounted_delayed_or_now [OF ae ce dl this calm_refl] show ?thesis .
next
  case False
  define e where "e = stat_set Last_non_iso_function (case ur_urb r of Some (Other_urb f) \<Rightarrow> f | _ \<Rightarrow> 0xffffffff) (stat_inc Non_iso_urb_count d)"
  have "calm d e" by (simp add: e_def)
  then have "accounted F R L S e" by (rule accounted_calm [OF a])
  from accounted_complete [OF this, of "ur_id r"] accounted_fail [OF a, of r] False show ?thesis
    using c by (auto simp: VdsEvtIsoInUrb_def e_def Let_def split: option.splits usb_urb.splits)
qed

lemma accounted_hid_out_urb:
  assumes a: "accounted F R L S d" and c: "du_queues d q = Some c"
  shows "accounted F R L (S @ [ur_id r]) (VdsEvtHidOutUrb q r d)"
proof (cases "\<exists>b. ur_submit r \<and> ur_buffer r = Inr b")
  case True
  then obtain b where b: "ur_submit r" "ur_buffer r = Inr b" by blast
  let ?n = "note_request q (length b) d"
  have "calm d (if length b > 0 then snd (VdsQueueFrame (qc_port_index c) VDS_FRAME_USB_HID_OUT b ?n) else ?n)"
    using calm_note calm_after_frame by simp
  from accounted_complete [OF accounted_calm [OF a this], of "ur_id r"] show ?thesis
    using b c by (simp add: VdsEvtHidOutUrb_def Let_def)
next
  case False
  then show ?thesis using c accounted_fail [OF a, of r] by (auto simp: VdsEvtHidOutUrb_def split: sum.splits)
qed

lemma accounted_hid_in_urb:
  assumes a: "accounted F R L S d" and c: "du_queues d q = Some c"
  shows "accounted F R L (S @ [ur_id r]) (snd (VdsEvtHidInUrb ts q r d))"
proof (cases "\<exists>b. ur_submit r \<and> ur_buffer r = Inr b \<and> qc_port_index c < unat (max_port d)")
  case True
  then obtain b where b: "ur_submit r" "ur_buffer r = Inr b" "qc_port_index c < unat (max_port d)" by blast
  obtain n out where no: "VdsCopyInputReport (length b) (Some b) (port_state d ! qc_port_index c) = (n, out)" by fastforce
  have ae: "accounted F R L S (note_request q n d)" using accounted_calm [OF a calm_note] .
  from note_request_queue [OF c] obtain c' where ce: "du_queues (note_request q n d) q = Some c'" by blast
  obtain k d1 where dl: "VdsCompleteUrbAfterDelay ts q (ur_id r) n (Usbd_status USBD_STATUS_SUCCESS) 4 0 None 0
      (note_request q n d) = (k, d1)" by fastforce
  have "snd (VdsEvtHidInUrb ts q r d) =
      (if k then d1 else VdsCompleteUrbAsync (ur_id r) n (Usbd_status USBD_STATUS_SUCCESS) d1)"
    using b c by (simp add: VdsEvtHidInUrb_def no dl split: bool.splits)
  from accounted_delayed_or_now [OF ae ce dl this calm_refl] show ?thesis .
next
  case False
  then show ?thesis using c accounted_fail [OF a, of r] by (auto simp: VdsEvtHidInUrb_def split: sum.splits)
qed

section \<open>Endpoints\<close>

lemma accounted_purge: "accounted F R L S d \<Longrightarrow> accounted F R L S (snd (VdsEvtEndpointPurge e d))"
proof -
  assume a: "accounted F R L S d"
  let ?d = "stat_inc Endpoint_purge_count d"
  have b: "accounted F R L S ?d" by (rule accounted_calm [OF a]) simp
  have 1: "accounted F R L S (VdsIncrementEndpointPurgePending x (VdsFlushDelayedEndpointUrb q ?d))" for x q
    by (rule accounted_calm [OF accounted_flush [OF b, of q]]) simp
  have 2: "accounted F R L S (du_emit [Purge_done e] ?d)" by (rule accounted_calm [OF b]) (simp add: calm_emit)
  show ?thesis using a 1 2 by (simp add: VdsEvtEndpointPurge_def Let_def split: option.splits)
qed

lemma calm_purge_complete: "calm d (VdsEvtEndpointQueuePurgeComplete e a d)"
  unfolding VdsEvtEndpointQueuePurgeComplete_def by (intro calm_after_emit) simp_all

lemma calm_assign: "calm d (snd (VdsAssignFreshEndpointQueue st e d))"
  by (auto simp: VdsAssignFreshEndpointQueue_def VdsCreateEndpointQueue_def split: option.splits
      intro!: calm_after_stat calm_after_fields calm_new_queue [simplified])

lemma calm_simple_endpoint: "calm d (snd (VdsCreateSimpleEndpoint a i address h d))"
proof -
  let ?c = "\<lparr>ep_port_index = i, ep_queue = None, ep_address = address, ep_queue_released = False, ep_handler = h\<rparr>"
  have "calm d (put_endpoint (du_next d) ?c (d\<lparr>du_next := Suc (du_next d)\<rparr>))" by simp
  also have "calm \<dots> (snd (VdsAssignFreshEndpointQueue (ea_queue a) (du_next d) \<dots>))" by (rule calm_assign)
  finally show ?thesis by (simp add: VdsCreateSimpleEndpoint_def Let_def case_prod_unfold)
qed

lemma accounted_release_endpoints: "accounted F R L S d \<Longrightarrow> accounted F R L S (release_endpoints es d)"
proof (induction es d rule: release_endpoints.induct)
  case (2 e es d)
  have "accounted F R L S (put_endpoint e c (case q of Some q \<Rightarrow> VdsFlushDelayedEndpointUrb q d | None \<Rightarrow> d))" for c q
    using accounted_flush [OF "2.prems"] "2.prems" accounted_calm [OF _ calm_endpoint] by (cases q) auto
  then show ?case using 2 by (auto simp: Let_def split: option.splits)
qed simp

lemma calm_refresh: "calm d (snd (refresh_endpoints answers es d))"
proof (induction answers es d rule: refresh_endpoints.induct)
  case (2 answers e es d)
  obtain st d1 where a: "VdsAssignFreshEndpointQueue (answers e) e d = (st, d1)" by fastforce
  have "calm d d1" using calm_assign [of d "answers e" e] a by simp
  then show ?case using 2 a calm_trans by (auto split: option.splits)
qed simp

lemma accounted_configure: "accounted F R L S d \<Longrightarrow> accounted F R L S (VdsEvtEndpointsConfigure answers i r c d)"
proof -
  assume a: "accounted F R L S d"
  define d1 where "d1 = record_configure c d"
  define d2 where "d2 = (if interface_setting_change c \<and> unat (cp_interface c) < length (interface_altsetting (port_state d1 ! i))
               then set_altsetting i (unat (cp_interface c)) (ucast (cp_setting c)) d1 else d1)"
  obtain st d4 where d4: "refresh_endpoints answers (cp_configure c) (release_endpoints (cp_release c) d2) = (st, d4)" by fastforce
  have "calm d d2" by (simp add: d2_def d1_def calm_altsetting calm_record_configure)
  then have "accounted F R L S (release_endpoints (cp_release c) d2)"
    by (intro accounted_release_endpoints accounted_calm [OF a])
  then have a4: "accounted F R L S d4"
    using calm_refresh [of "release_endpoints (cp_release c) d2" answers "cp_configure c"] d4 accounted_calm by fastforce
  let ?e = "VdsEvtEndpointsConfigure answers i r c d"
  have "calm d4 ?e"
    unfolding VdsEvtEndpointsConfigure_def Let_def d1_def [symmetric] d2_def [symmetric] d4 prod.case
    by (auto intro!: calm_after_emit calm_interface_event calm_announce)
  with a4 show ?thesis by (rule accounted_calm)
qed

section \<open>The child device\<close>

lemma uport_ok_no_child:
  "uport_ok p \<Longrightarrow> uport_ok (p\<lparr>usb_device := None, default_endpoint := None, audio_out_endpoint := None,
     audio_in_endpoint := None, hid_in_endpoint := None, hid_out_endpoint := None,
     usb_device_plugged := False, usb_profile := 0, usb_profile_valid := False\<rparr>)"
  by (simp add: uport_ok_def control_ok_def mic_ok_def report_ok_def child_ok_def no_reader_waits_def)

lemma calm_delete: "calm d (snd (VdsDeleteUsbChildDevice a i d))"
  by (auto simp: VdsDeleteUsbChildDevice_def Let_def split: option.splits intro!: calm_port uport_ok_no_child)

lemma deleted: "VdsDeleteUsbChildDevice a i d = (status, d') \<Longrightarrow> NT_SUCCESS status \<Longrightarrow> ports_ok d \<Longrightarrow> i < unat (max_port d) \<Longrightarrow>
  usb_device (port_state d' ! i) = None"
  by (auto simp: VdsDeleteUsbChildDevice_def Let_def put_port_state_def ports_ok_def split: option.splits if_splits)

lemma port_state_assign [simp]: "port_state (snd (VdsAssignFreshEndpointQueue st e d)) = port_state d"
  by (simp add: VdsAssignFreshEndpointQueue_def VdsCreateEndpointQueue_def stat_add_def put_endpoint_def put_queue_def
      split: option.splits)

lemma port_state_simple [simp]: "port_state (snd (VdsCreateSimpleEndpoint a i address h d)) = port_state d"
  by (simp add: VdsCreateSimpleEndpoint_def Let_def case_prod_unfold put_endpoint_def)

text \<open>Endpoint creation sets the fields it is told to keep, one after the other.\<close>

definition keeper_ok :: "(nat option \<Rightarrow> VDS_PORT_STATE \<Rightarrow> VDS_PORT_STATE) \<Rightarrow> bool" where
  "keeper_ok keep \<longleftrightarrow> (\<forall>e p. uport_ok p \<longrightarrow> uport_ok (keep (Some e) p))"

lemma create_endpoints:
  assumes "create_endpoints a i es d = (status, d')" and "\<forall>x \<in> set es. keeper_ok (snd (snd x))"
  shows "calm d d' \<and> (NT_SUCCESS status \<longrightarrow> i < length (port_state d) \<longrightarrow>
    (\<exists>ids. length ids = length es \<and>
      port_state d' ! i = fold (\<lambda>((_, _, keep), e). keep (Some e)) (zip es ids) (port_state d ! i)))"
  using assms
proof (induction es arbitrary: d)
  case (Cons x es)
  obtain address h keep where x: "x = (address, h, keep)" by (metis prod_cases3)
  obtain res d1 where c: "VdsCreateSimpleEndpoint (ca_endpoint a address) i address h d = (res, d1)" by fastforce
  have d1: "calm d d1" "port_state d1 = port_state d"
    using calm_simple_endpoint [of d "ca_endpoint a address" i address h]
      port_state_simple [of "ca_endpoint a address" i address h d] c by simp_all
  show ?case
  proof (cases res)
    case (Inl st)
    have "\<not> NT_SUCCESS st"
      using c Inl by (auto simp: VdsCreateSimpleEndpoint_def Let_def split: if_splits prod.splits)
    then show ?thesis using Cons.prems(1) c d1 Inl by (simp add: x)
  next
    case (Inr e)
    let ?d2 = "put_port_state i (keep (Some e) (port_state d1 ! i)) d1"
    have ce: "create_endpoints a i es ?d2 = (status, d')" using Cons.prems(1) c Inr by (simp add: x)
    have k: "keeper_ok keep" "\<forall>x \<in> set es. keeper_ok (snd (snd x))" using Cons.prems(2) by (simp_all add: x)
    then have "calm d1 ?d2" by (intro calm_port) (simp add: keeper_ok_def)
    note ih = Cons.IH [OF ce k(2)]
    have cm: "calm d d'" using d1(1) \<open>calm d1 ?d2\<close> ih calm_trans by auto
    have "\<exists>ids. length ids = length (x # es) \<and>
        port_state d' ! i = fold (\<lambda>((_, _, keep), e). keep (Some e)) (zip (x # es) ids) (port_state d ! i)"
      if s: "NT_SUCCESS status" "i < length (port_state d)"
    proof -
      obtain ids where "length ids = length es"
        "port_state d' ! i = fold (\<lambda>((_, _, keep), e). keep (Some e)) (zip es ids) (port_state ?d2 ! i)"
        using ih s d1(2) by (auto simp: put_port_state_def)
      moreover have "port_state ?d2 ! i = keep (Some e) (port_state d ! i)" using s d1(2) by (simp add: put_port_state_def)
      ultimately show ?thesis by (intro exI [of _ "e # ids"]) (simp add: x)
    qed
    then show ?thesis using cm by blast
  qed
qed simp

lemma uport_ok_endpoints:
  "uport_ok p \<Longrightarrow> uport_ok (p\<lparr>default_endpoint := Some e\<rparr>)" "uport_ok p \<Longrightarrow> uport_ok (p\<lparr>audio_out_endpoint := Some e\<rparr>)"
  "uport_ok p \<Longrightarrow> uport_ok (p\<lparr>audio_in_endpoint := Some e\<rparr>)" "uport_ok p \<Longrightarrow> uport_ok (p\<lparr>hid_in_endpoint := Some e\<rparr>)"
  "uport_ok p \<Longrightarrow> uport_ok (p\<lparr>hid_out_endpoint := Some e\<rparr>)"
  by (simp_all add: uport_ok_def control_ok_def mic_ok_def report_ok_def child_ok_def no_reader_waits_def)

lemma keeper_ok_child: "\<forall>x \<in> set child_endpoints. keeper_ok (snd (snd x))"
  by (simp add: child_endpoints_def keeper_ok_def uport_ok_endpoints)

lemma uport_ok_created:
  "uport_ok p \<Longrightarrow> usb_device p = None \<Longrightarrow> uport_ok (p\<lparr>usb_device_init := b, usb_device := u\<rparr>)"
  by (auto simp: uport_ok_def control_ok_def mic_ok_def report_ok_def child_ok_def no_reader_waits_def)

lemma calm_create_child:
  assumes none: "usb_device (port_state d ! i) = None" and prof: "VdsIsValidProfile profile" and i: "i < unat (max_port d)"
  shows "calm d (snd (create_child a profile i d))"
proof (rule calmI)
  assume ok: "ports_ok d"
  then have i4: "i < length (port_state d)" "i < 4" and p: "uport_ok (port_state d ! i)" using i by (auto simp: ports_ok_def)
  let ?p = "port_state d ! i"
  have c0: "calm d (put_port_state i (?p\<lparr>usb_device_init := b\<rparr>) d)" for b by (intro calm_port uport_ok_init)
  let ?d0 = "put_port_state i (?p\<lparr>usb_device_init := True\<rparr>) d"
  let ?d1 = "put_port_state i (?p\<lparr>usb_device_init := False, usb_device := Some (du_next ?d0)\<rparr>) (?d0\<lparr>du_next := du_next ?d0 + 1\<rparr>)"
  have "calm ?d0 (?d0\<lparr>du_next := du_next ?d0 + 1\<rparr>)" using calm_fields(1) by simp
  moreover have "calm (?d0\<lparr>du_next := du_next ?d0 + 1\<rparr>) ?d1" using uport_ok_created [OF p none] by (intro calm_port)
  ultimately have c1: "calm d ?d1" using c0 calm_trans by meson
  obtain st d2 where d2: "create_endpoints a i child_endpoints ?d1 = (st, d2)" by fastforce
  note ce = create_endpoints [OF d2 keeper_ok_child]
  have c2: "calm d d2" using c1 ce calm_trans by blast
  have p1: "port_state ?d1 ! i = ?p\<lparr>usb_device_init := False, usb_device := Some (du_next ?d0)\<rparr>"
    using i4 by (simp add: put_port_state_def)
  have c3: "calm d (put_port_state i ((port_state d2 ! i)\<lparr>usb_profile := profile, usb_profile_valid := True\<rparr>) d2)" if st: "NT_SUCCESS st"
  proof -
    obtain ids where ids: "length ids = length child_endpoints"
      "port_state d2 ! i = fold (\<lambda>((_, _, keep), e). keep (Some e)) (zip child_endpoints ids) (port_state ?d1 ! i)"
      using ce st i4 by (auto simp: put_port_state_def)
    have "length ids = Suc (Suc (Suc (Suc (Suc 0))))" using ids(1) by (simp add: child_endpoints_def)
    then obtain e1 e2 e3 e4 e5 where "ids = [e1, e2, e3, e4, e5]"
      by (auto simp: length_Suc_conv)
    then have "uport_ok (port_state d2 ! i) \<Longrightarrow> uport_ok ((port_state d2 ! i)\<lparr>usb_profile := profile, usb_profile_valid := True\<rparr>)"
      using ids(2) p1 prof
      by (simp add: child_endpoints_def uport_ok_def control_ok_def mic_ok_def report_ok_def child_ok_def no_reader_waits_def)
    then have "calm d2 (put_port_state i ((port_state d2 ! i)\<lparr>usb_profile := profile, usb_profile_valid := True\<rparr>) d2)"
      by (intro calm_port)
    with c2 show ?thesis by (rule calm_trans)
  qed
  show "calm d (snd (create_child a profile i d))"
    unfolding create_child_def Let_def using c0 c2 c3 d2 by (auto split: option.splits)
qed

lemma calm_create: "calm d (snd (VdsCreateUsbChildDevice a i d))"
proof (rule calmI)
  assume ok: "ports_ok d"
  show ?thesis
  proof (cases "i < unat (max_port d)")
    case True
    let ?profile = "if VdsIsValidProfile (ps_profile (port_state d ! i)) then ps_profile (port_state d ! i) else VDS_PROFILE_DSE"
    have prof: "VdsIsValidProfile ?profile" by (simp add: VdsIsValidProfile_def)
    obtain st d1 where d1: "VdsDeleteUsbChildDevice a i d = (st, d1)" by fastforce
    have c1: "calm d d1" using calm_delete [of d a i] d1 by simp
    have "max_port d1 = max_port d" using calmD(2) [OF c1 ok] by (simp add: unmoved_def)
    then have c2: "calm d (snd (create_child a ?profile i d1))" if "NT_SUCCESS st"
      using calm_trans [OF c1 calm_create_child] deleted [OF d1 that ok True] prof True by simp
    have c3: "calm d (snd (create_child a ?profile i d))" if "usb_device (port_state d ! i) = None"
      using calm_create_child [OF that prof True] .
    show ?thesis
      unfolding VdsCreateUsbChildDevice_def Let_def d1 prod.case using True c1 c2 c3 by auto
  qed (simp add: VdsCreateUsbChildDevice_def)
qed

lemma create_endpoints_length: "length (port_state (snd (create_endpoints a i es d))) = length (port_state d)"
proof (induction a i es d rule: create_endpoints.induct)
  case (2 a i address handler keep es d)
  obtain r d1 where c: "VdsCreateSimpleEndpoint (ca_endpoint a address) i address handler d = (r, d1)" by fastforce
  have "port_state d1 = port_state d" using port_state_simple [of "ca_endpoint a address" i address handler d] c by simp
  then show ?case using 2 [OF c [symmetric]] by (cases r) (simp_all add: c put_port_state_def)
qed simp

lemma child_valid: "create_child a profile i d = (st, d') \<Longrightarrow> NT_SUCCESS st \<Longrightarrow> i < length (port_state d) \<Longrightarrow>
  usb_profile_valid (port_state d' ! i)"
proof -
  assume c: "create_child a profile i d = (st, d')" "NT_SUCCESS st" "i < length (port_state d)"
  let ?d1 = "put_port_state i ((port_state d ! i)\<lparr>usb_device_init := False, usb_device := Some (du_next d)\<rparr>)
      ((put_port_state i ((port_state d ! i)\<lparr>usb_device_init := True\<rparr>) d)\<lparr>du_next := du_next d + 1\<rparr>)"
  obtain s2 d2 where d2: "create_endpoints a i child_endpoints ?d1 = (s2, d2)" by fastforce
  have "length (port_state d2) = length (port_state ?d1)"
    using create_endpoints_length [of a i child_endpoints ?d1] d2 by simp
  then have "i < length (port_state d2)" using c(3) by (simp add: put_port_state_def)
  moreover have "d' = put_port_state i ((port_state d2 ! i)\<lparr>usb_profile := profile, usb_profile_valid := True\<rparr>) d2"
    using c(1,2) d2 unfolding create_child_def first_failure_def Let_def
    by (auto simp: find_Some_iff put_port_state_def split: option.splits if_splits prod.splits)
  ultimately show ?thesis by (simp add: put_port_state_def)
qed

lemma created_valid:
  assumes c: "VdsCreateUsbChildDevice a i d = (st, d')" "NT_SUCCESS st" "i < unat (max_port d)" and ok: "ports_ok d"
  shows "usb_profile_valid (port_state d' ! i)"
proof -
  obtain s1 d1 where d1: "VdsDeleteUsbChildDevice a i d = (s1, d1)" by fastforce
  have "calm d d1" using calm_delete [of d a i] d1 by simp
  then have "ports_ok d1" using ok by (simp add: calm_def)
  then have "i < length (port_state d)" "i < length (port_state d1)" using ok c(3) by (auto simp: ports_ok_def)
  then show ?thesis
    using c d1 child_valid by (auto simp: VdsCreateUsbChildDevice_def Let_def split: if_splits)
qed

lemma calm_plug: "calm d (snd (VdsPlugUsbChildDevice a i d))"
proof (rule calmI)
  assume ok: "ports_ok d"
  obtain st d1 where d1: "VdsCreateUsbChildDevice a i d = (st, d1)" by fastforce
  have c1: "calm d d1" using calm_create [of d a i] d1 by simp
  have valid: "usb_profile_valid (port_state d1 ! i)" if "NT_SUCCESS st" "i < unat (max_port d)"
    using that d1 created_valid [OF d1 that ok] by simp
  have "uport_ok (p\<lparr>usb_device_plugged := True\<rparr>)" if "uport_ok p" "usb_profile_valid p" for p
    using that by (simp add: uport_ok_def control_ok_def mic_ok_def report_ok_def child_ok_def no_reader_waits_def)
  then have "calm d (put_port_state i ((port_state d1 ! i)\<lparr>usb_device_plugged := True\<rparr>) d1)" if "NT_SUCCESS st" "i < unat (max_port d)"
    using valid [OF that] by (intro calm_trans [OF c1] calm_port)
  then show ?thesis using c1 d1 by (auto simp: VdsPlugUsbChildDevice_def)
qed

section \<open>The control device\<close>

lemma uport_ok_bound_to:
  "uport_ok p \<Longrightarrow> uport_ok (VdsResetAudioInPcm (p\<lparr>ps_profile := x, bound := True, bound_file := Some f\<rparr>))"
  "uport_ok p \<Longrightarrow> uport_ok (VdsResetAudioInPcm (p\<lparr>bound := False, bound_file := None\<rparr>))"
  "uport_ok p \<Longrightarrow> uport_ok (p\<lparr>bound := False, bound_file := None\<rparr>)"
  using uport_ok_bind [OF uport_ok_profile, of p "Some f" x] uport_ok_bind [of p None] uport_ok_reset by auto

lemma calm_bind: "calm d (VdsBindPort a i r input f d)"
proof -
  have main: "calm d (case VdsPlugUsbChildDevice a i (put_port_state i (VdsResetAudioInPcm
        ((port_state d ! i)\<lparr>ps_profile := x, bound := True, bound_file := Some g\<rparr>)) d) of (status, d) \<Rightarrow>
      if \<not> NT_SUCCESS status then
        (let p = port_state d ! i in
         done_with r status (if bound_file p = Some g then put_port_state i (p\<lparr>bound := False, bound_file := None\<rparr>) d else d))
      else done_with r STATUS_SUCCESS d)" for x g
  proof -
    let ?d1 = "put_port_state i (VdsResetAudioInPcm ((port_state d ! i)\<lparr>ps_profile := x, bound := True, bound_file := Some g\<rparr>)) d"
    obtain st d2 where d2: "VdsPlugUsbChildDevice a i ?d1 = (st, d2)" by fastforce
    have "calm d ?d1" by (intro calm_port uport_ok_bound_to(1))
    then have c2: "calm d d2" using calm_plug [of ?d1 a i] d2 calm_trans by fastforce
    have "calm d2 (put_port_state i ((port_state d2 ! i)\<lparr>bound := False, bound_file := None\<rparr>) d2)"
      by (intro calm_port uport_ok_bound_to(3))
    then show ?thesis using c2 calm_trans by (simp add: d2 Let_def)
  qed
  show ?thesis
    using main unfolding VdsBindPort_def Let_def by (auto split: sum.splits option.splits)
qed

lemma calm_unbind: "calm d (VdsUnbindPort a i r f d)"
proof -
  let ?d1 = "put_port_state i (VdsResetAudioInPcm ((port_state d ! i)\<lparr>bound := False, bound_file := None\<rparr>)) d"
  have "calm d ?d1" by (intro calm_port uport_ok_bound_to(2))
  then have "calm d (snd (VdsDeleteUsbChildDevice a i ?d1))" using calm_delete calm_trans by blast
  then show ?thesis
    by (auto simp: VdsUnbindPort_def Let_def split: option.splits prod.splits)
qed

lemma calm_read: "calm d (VdsEvtControlRead st i n r d)"
proof (rule calmI)
  assume ok: "ports_ok d"
  show "calm d (VdsEvtControlRead st i n r d)"
  proof (cases "VdsPortReadyForIo i d")
    case True
    then have p: "uport_ok (port_state d ! i)" using ports_ok_port [OF ok, of i] by (simp add: VdsPortReadyForIo_def split: if_splits)
    let ?p = "(port_state d ! i)\<lparr>control_read_queue := map_option (\<lambda>rs. rs @ [r]) (control_read_queue (port_state d ! i))\<rparr>"
    obtain evs p' where e: "VdsCompleteControlReadRequests ?p = (evs, p')" by fastforce
    have cp: "control_ok ?p" using p by (simp add: uport_ok_def)
    note c = complete_reads [OF cp e]
    have "uport_ok p'"
      using same_rest_port [OF c(3)] c p by (simp add: uport_ok_def mic_ok_def report_ok_def child_ok_def)
    then have "calm d (du_emit evs (put_port_state i p' d))" using c(4) by (intro calm_after_emit calm_port)
    then show ?thesis by (simp add: VdsEvtControlRead_def Let_def e)
  qed (simp add: VdsEvtControlRead_def)
qed

lemma calm_accept: "calm d (accept_frame i ty payload d)"
proof -
  have h: "calm d (put_port_state i (VdsStoreInputReport payload (port_state d ! i)) d)" by (intro calm_port uport_ok_input)
  have f: "calm d (put_port_state i (VdsUpdateFeatureCache (Some payload) (length payload) (port_state d ! i)) d)"
    by (intro calm_port uport_ok_feature)
  have a: "calm d (put_port_state i (VdsStoreAudioInPcm payload (port_state d ! i)) e)" if "calm d e" "port_state e = port_state d" for e
    using that by (intro calm_trans [OF that(1)] calm_port uport_ok_store) simp
  have s: "port_state (stat_add k v e) = port_state e" for k v e by (simp add: stat_add_def)
  show ?thesis
    unfolding accept_frame_def Let_def using h f by (auto intro!: a simp: s)
qed

lemma calm_write_loop: "calm d (snd (write_loop i bs d))"
proof (induction i bs d rule: write_loop.induct)
  case (1 i bs d)
  let ?h = "parse_header (take 16 bs)"
  let ?d = "accept_frame i (fh_type ?h) (take (unat (fh_length ?h)) (drop 16 bs)) d"
  show ?case
  proof (cases "length bs < 16 \<or> unat (fh_length ?h) > VDS_FRAME_MAX_PAYLOAD \<or> 16 + unat (fh_length ?h) > length bs")
    case True
    then show ?thesis by (auto simp: write_loop.simps [of i bs d] Let_def)
  next
    case False
    then have "calm ?d (snd (write_loop i (drop (16 + unat (fh_length ?h)) bs) ?d))" using 1 [OF _ refl refl] by simp
    with calm_accept have "calm d (snd (write_loop i (drop (16 + unat (fh_length ?h)) bs) ?d))" by (rule calm_trans)
    then show ?thesis using False by (simp add: write_loop.simps [of i bs d] Let_def)
  qed
qed

lemma calm_write: "calm d (VdsEvtControlWrite i r n input d)"
  using calm_write_loop [of d i]
  by (auto simp: VdsEvtControlWrite_def case_prod_unfold split: sum.splits intro!: calm_after_emit)

lemma calm_cleanup: "calm d (VdsEvtControlFileCleanup i f d)"
  by (auto simp: VdsEvtControlFileCleanup_def Let_def intro!: calm_port uport_ok_bound_to(2))

lemma calm_control: "calm d (VdsEvtControlDeviceControl version a i c d)"
  by (auto simp: VdsEvtControlDeviceControl_def VdsCompleteDriverInfo_def VdsCompleteAudioStats_def VdsCompletePortInfo_def
      Let_def calm_bind calm_unbind intro!: calm_emit)

lemma calm_io_control: "calm d (VdsEvtIoDeviceControl handled c d)"
  by (auto simp: VdsEvtIoDeviceControl_def VdsCompleteAudioStats_def intro!: calm_emit)

section \<open>The start\<close>

lemma calm_create_control: "calm d (snd (VdsCreateControlDevice_ude b answer i d))"
proof -
  have "uport_ok p \<Longrightarrow> uport_ok (p\<lparr>control_read_queue := Some []\<rparr>)" for p
    by (simp add: uport_ok_def control_ok_def mic_ok_def report_ok_def child_ok_def no_reader_waits_def)
  then have "calm d (put_port_state i ((port_state d ! i)\<lparr>control_read_queue := Some []\<rparr>) d)" by (intro calm_port)
  then show ?thesis using calm_trans [OF _ calm_fields(6)] by (auto simp: VdsCreateControlDevice_ude_def Let_def)
qed

lemma calm_create_controls: "calm d (snd (create_control_devices answers js d))"
proof (induction js arbitrary: d)
  case (Cons j js)
  show ?case
    using Cons calm_create_control [of d "fst (answers j)" "snd (answers j)" j] calm_trans
    by (auto simp: case_prod_unfold)
qed simp

lemma VdsReadMaxPort_range: "1 \<le> unat (VdsReadMaxPort o1 o2 v) \<and> unat (VdsReadMaxPort o1 o2 v) \<le> 4"
  by (auto simp: VdsReadMaxPort_def VDS_MAX_PORT_COUNT_def VDS_MIN_PORT_COUNT_def word_less_nat_alt)

lemma accounted_start:
  assumes "1 \<le> unat n" "unat n \<le> 4"
  shows "accounted [] [] [] [] (zero_ude\<lparr>max_port := n, port_state := map VdsInitializePortState (port_state zero_ude)\<rparr>)"
  using assms uport_ok_zero
  by (auto simp: accounted_def ports_ok_def ude_urbs_ok_def zero_ude_def)

lemma accounted_device_add:
  assumes "VdsEvtDeviceAdd stage (VdsReadMaxPort o1 o2 v) answers = (STATUS_SUCCESS, d)"
    and "NT_SUCCESS (stage 2)" "NT_SUCCESS (stage 4)"
  shows "accounted [] [] [] [] d"
proof -
  let ?d = "zero_ude\<lparr>max_port := VdsReadMaxPort o1 o2 v, port_state := map VdsInitializePortState (port_state zero_ude)\<rparr>"
  have a: "accounted [] [] [] [] ?d" using accounted_start VdsReadMaxPort_range by blast
  have "accounted [] [] [] [] (snd (VdsCreateControlDevices answers ?d))"
    unfolding VdsCreateControlDevices_def by (rule accounted_calm [OF a calm_create_controls])
  with a assms show ?thesis by (auto simp: VdsEvtDeviceAdd_def Let_def split: option.splits prod.splits if_splits)
qed

section \<open>Runs of the driver\<close>

text \<open>
  The granularity of the step relation. Firing, release and finish of a timer and the two sections of a flush are
  steps of their own. Each handler of the framework and each request of the daemon is one step, also where the
  code takes a lock more than once: the frame written by \<open>VdsQueueFrame\<close> and the reads completed after it
  (\<open>VdsCompleteControlReadRequests\<close>) form one step, and so do the entry in the slot of the queue and the start of
  the timer at the end of \<open>VdsCompleteUrbAfterDelay\<close>. Runs in which two calls for the same port overlap inside these
  functions are not among the reachable states.
\<close>

text \<open>The framework hands an URB to the handler of the queue it arrives on.\<close>

definition dispatch_urb :: "NTSTATUS \<Rightarrow> u32 \<Rightarrow> nat \<Rightarrow> urb_request \<Rightarrow> ude \<Rightarrow> ude" where
  "dispatch_urb timer_status current_frame q r d =
     (case du_queues d q of
        None \<Rightarrow> d
      | Some c \<Rightarrow>
          (case qc_handler c of
             Control_handler \<Rightarrow> snd (VdsEvtControlUrb q r d)
           | Iso_out_handler \<Rightarrow> snd (VdsEvtIsoOutUrb timer_status q r d)
           | Iso_in_handler \<Rightarrow> snd (snd (VdsEvtIsoInUrb timer_status current_frame q r d))
           | Hid_in_handler \<Rightarrow> snd (VdsEvtHidInUrb timer_status q r d)
           | Hid_out_handler \<Rightarrow> VdsEvtHidOutUrb q r d))"

text \<open>It cancels a read that still waits, for instance when its file is closed.\<close>

definition cancel_read :: "nat \<Rightarrow> read_request \<Rightarrow> ude \<Rightarrow> ude" where
  "cancel_read i r d =
     (let p = port_state d ! i in
      done_with (rq_id r) STATUS_CANCELLED
        (put_port_state i (p\<lparr>control_read_queue := map_option (remove1 r) (control_read_queue p)\<rparr>) d))"

record ude_sys =
  us_dev :: ude
  us_fired :: "nat list"
  us_released :: "nat list"
  us_flushing :: "nat list"
  us_submitted :: "nat list"

inductive ude_step :: "ude_sys \<Rightarrow> ude_sys \<Rightarrow> bool" where
  Urb: "du_queues (us_dev s) q \<noteq> None \<Longrightarrow> ur_id r \<notin> set (us_submitted s) \<Longrightarrow>
    ude_step s (s\<lparr>us_dev := dispatch_urb ts frame q r (us_dev s), us_submitted := us_submitted s @ [ur_id r]\<rparr>)"
| Fire: "du_timers (us_dev s) t = Some x \<Longrightarrow> dl_armed x \<Longrightarrow>
    ude_step s (s\<lparr>us_dev := timer_fire t (us_dev s), us_fired := t # us_fired s\<rparr>)"
| Release: "t \<in> set (us_fired s) \<Longrightarrow> du_timers (us_dev s) t = Some x \<Longrightarrow>
    ude_step s (s\<lparr>us_dev := timer_release t x (us_dev s), us_fired := remove1 t (us_fired s), us_released := t # us_released s\<rparr>)"
| Finish: "t \<in> set (us_released s) \<Longrightarrow> du_timers (us_dev s) t = Some x \<Longrightarrow>
    ude_step s (s\<lparr>us_dev := timer_finish t x (us_dev s), us_released := remove1 t (us_released s)\<rparr>)"
| Flush_take: "flush_take q (us_dev s) = (Some t, d) \<Longrightarrow>
    ude_step s (s\<lparr>us_dev := d, us_flushing := t # us_flushing s\<rparr>)"
| Flush_stop: "t \<in> set (us_flushing s) \<Longrightarrow>
    ude_step s (s\<lparr>us_dev := flush_stop t address (us_dev s), us_flushing := remove1 t (us_flushing s)\<rparr>)"
| Purge: "ude_step s (s\<lparr>us_dev := snd (VdsEvtEndpointPurge e (us_dev s))\<rparr>)"
| Purged: "ude_step s (s\<lparr>us_dev := VdsEvtEndpointQueuePurgeComplete e address (us_dev s)\<rparr>)"
| Reset: "ude_step s (s\<lparr>us_dev := VdsEvtEndpointReset request (us_dev s)\<rparr>)"
| Start: "ude_step s (s\<lparr>us_dev := VdsEvtEndpointStart (us_dev s)\<rparr>)"
| Configure: "ude_step s (s\<lparr>us_dev := VdsEvtEndpointsConfigure answers i request c (us_dev s)\<rparr>)"
| Control: "ude_step s (s\<lparr>us_dev := VdsEvtControlDeviceControl version a i call (us_dev s)\<rparr>)"
| Io_control: "ude_step s (s\<lparr>us_dev := VdsEvtIoDeviceControl handled call (us_dev s)\<rparr>)"
| Read: "ude_step s (s\<lparr>us_dev := VdsEvtControlRead status i n rr (us_dev s)\<rparr>)"
| Write: "ude_step s (s\<lparr>us_dev := VdsEvtControlWrite i request n input (us_dev s)\<rparr>)"
| Cleanup: "ude_step s (s\<lparr>us_dev := VdsEvtControlFileCleanup i f (us_dev s)\<rparr>)"
| Cancel: "ude_step s (s\<lparr>us_dev := cancel_read i rr (us_dev s)\<rparr>)"

definition ude_started :: "ude \<Rightarrow> ude_sys" where
  "ude_started d = \<lparr>us_dev = d, us_fired = [], us_released = [], us_flushing = [], us_submitted = []\<rparr>"

inductive ude_reach :: "ude_sys \<Rightarrow> bool" where
  Added: "VdsEvtDeviceAdd stage (VdsReadMaxPort open_status query_status v) answers = (STATUS_SUCCESS, d) \<Longrightarrow>
    NT_SUCCESS (stage 2) \<Longrightarrow> NT_SUCCESS (stage 4) \<Longrightarrow> ude_reach (ude_started d)"
| Stepped: "ude_reach s \<Longrightarrow> ude_step s s' \<Longrightarrow> ude_reach s'"

definition sys_accounted :: "ude_sys \<Rightarrow> bool" where
  "sys_accounted s \<longleftrightarrow> accounted (us_fired s) (us_released s) (us_flushing s) (us_submitted s) (us_dev s) \<and>
     distinct (us_submitted s)"

lemma accounted_dispatch:
  assumes a: "accounted F R L S d" and q: "du_queues d q \<noteq> None"
  shows "accounted F R L (S @ [ur_id r]) (dispatch_urb ts frame q r d)"
proof -
  obtain c where c: "du_queues d q = Some c" using q by blast
  show ?thesis
    using accounted_control_urb [OF a c] accounted_iso_out_urb [OF a c] accounted_iso_in_urb [OF a c]
      accounted_hid_in_urb [OF a c] accounted_hid_out_urb [OF a c]
    by (simp add: dispatch_urb_def c split: urb_handler.splits)
qed

lemma calm_cancel: "calm d (cancel_read i r d)"
proof -
  have "uport_ok (p\<lparr>control_read_queue := map_option (remove1 r) (control_read_queue p)\<rparr>)" if "uport_ok p" for p
    using that by (auto simp: uport_ok_def control_ok_def mic_ok_def report_ok_def child_ok_def no_reader_waits_def)
  then show ?thesis unfolding cancel_read_def Let_def by (intro calm_done calm_port)
qed

lemma calm_callbacks: "calm d (VdsEvtEndpointReset r d)" "calm d (VdsEvtEndpointStart d)"
  by (simp_all add: VdsEvtEndpointReset_def VdsEvtEndpointStart_def calm_after_emit)

lemmas calm_handlers = calm_purge_complete calm_callbacks calm_control calm_io_control calm_read calm_write calm_cleanup calm_cancel

lemma sys_accounted_step: "ude_step s s' \<Longrightarrow> sys_accounted s \<Longrightarrow> sys_accounted s'"
proof (induction rule: ude_step.induct)
  case (Urb s q r ts frame)
  then show ?case by (simp add: sys_accounted_def accounted_dispatch)
next
  case (Flush_take q s t d)
  then show ?case using accounted_flush_take [OF _ Flush_take(1)] by (fastforce simp: sys_accounted_def)
next
  case (Flush_stop t s address)
  have "x \<in> set (remove1 t xs)" if "x \<in> set xs" "x \<noteq> t" for x and xs :: "nat list"
    using that by (simp add: in_set_remove1)
  then have "set (us_flushing s) - {t} \<subseteq> set (remove1 t (us_flushing s))" by blast
  from accounted_flush_stop [OF _ this] Flush_stop show ?case by (simp add: sys_accounted_def)
qed (auto simp: sys_accounted_def accounted_fire accounted_release accounted_finish accounted_purge accounted_configure
    intro!: accounted_calm [OF _ calm_handlers(1)] accounted_calm [OF _ calm_handlers(2)] accounted_calm [OF _ calm_handlers(3)]
      accounted_calm [OF _ calm_handlers(4)] accounted_calm [OF _ calm_handlers(5)] accounted_calm [OF _ calm_handlers(6)]
      accounted_calm [OF _ calm_handlers(7)] accounted_calm [OF _ calm_handlers(8)] accounted_calm [OF _ calm_handlers(9)])

lemma sys_accounted_reach: "ude_reach s \<Longrightarrow> sys_accounted s"
proof (induction rule: ude_reach.induct)
  case (Added stage o1 o2 v answers d)
  then show ?case using accounted_device_add by (simp add: sys_accounted_def ude_started_def)
next
  case (Stepped s s')
  then show ?case using sys_accounted_step by blast
qed

end
