(* ===== verification/UdeProps.thy ===== *)
theory UdeProps
  imports UdeReach
begin

text \<open>
  What the bus driver guarantees: the invariant of its ports and that each URB is completed
  once and can be completed, in every reachable state; the streams of frames in both
  directions; the microphone ring as a queue; exclusive binding; bounds of transfers; and
  two defects.
\<close>

section \<open>A driver in use\<close>

text \<open>The driver after a successful start, after a daemon has bound port 0, and with a poll for input that waits.\<close>

definition fresh_port :: VDS_PORT_STATE where
  "fresh_port = (VdsInitializePortState zero_port)\<lparr>control_read_queue := Some []\<rparr>"

definition added :: ude where
  "added = zero_ude\<lparr>max_port := 4, port_state := replicate 4 fresh_port, control_devices := [True, True, True, True]\<rparr>"

definition all_well :: child_answers where
  "all_well = \<lparr>ca_init = True, ca_stage = (\<lambda>_. STATUS_SUCCESS),
     ca_endpoint = (\<lambda>_. \<lparr>ea_allocated = True, ea_created = STATUS_SUCCESS, ea_queue = STATUS_SUCCESS\<rparr>),
     ca_plug_in = STATUS_SUCCESS, ca_plug_out = STATUS_SUCCESS\<rparr>"

definition bind_call :: control_call where
  "bind_call = \<lparr>cc_request = 1, cc_code = VDS_IOCTL_BIND_PORT, cc_output = STATUS_SUCCESS,
     cc_input = Inr \<lparr>pb_version = 1, pb_size = 16, pb_profile = VDS_PROFILE_DS5\<rparr>, cc_file = Some 7\<rparr>"

definition in_use :: ude where
  "in_use = VdsEvtControlDeviceControl [] all_well 0 bind_call added"

definition poll_request :: urb_request where
  "poll_request = \<lparr>ur_id = 40, ur_submit = True, ur_urb = None, ur_buffer = Inr (replicate 64 0), ur_setup = Inl STATUS_INVALID_PARAMETER\<rparr>"

definition polled :: ude_sys where
  "polled = (ude_started in_use)\<lparr>us_dev := dispatch_urb STATUS_SUCCESS 0 8 poll_request in_use, us_submitted := [40]\<rparr>"

lemma upt_ports: "[0..<unat VDS_MAX_PORT_COUNT] = [0, Suc 0, Suc (Suc 0), Suc (Suc (Suc 0))]"
  by (simp add: VDS_MAX_PORT_COUNT_def upt_rec)

lemma replicate_4: "replicate 4 x = [x, x, x, x]"
  by (simp add: numeral_eq_Suc)

lemma replicate_2: "replicate 2 x = [x, x]"
  by (simp add: numeral_eq_Suc)

lemma max_port_4: "VdsReadMaxPort STATUS_SUCCESS STATUS_SUCCESS 4 = 4"
  by (simp add: VdsReadMaxPort_def VDS_MAX_PORT_COUNT_def VDS_MIN_PORT_COUNT_def)

lemma add_succeeds: "VdsEvtDeviceAdd (\<lambda>_. STATUS_SUCCESS) (VdsReadMaxPort STATUS_SUCCESS STATUS_SUCCESS 4) (\<lambda>_. (True, \<lambda>_. STATUS_SUCCESS)) = (STATUS_SUCCESS, added)"
  unfolding max_port_4 VdsEvtDeviceAdd_def VdsCreateControlDevices_def upt_ports
  by (simp add: VdsCreateControlDevice_ude_def first_failure_def Let_def zero_ude_def put_port_state_def added_def fresh_port_def replicate_4)

lemma reach_added: "ude_reach (ude_started added)"
  using ude_reach.Added [OF add_succeeds] by simp

lemma reach_in_use: "ude_reach (ude_started in_use)"
  using ude_reach.Stepped [OF reach_added ude_step.Control [of _ "[]" all_well 0 bind_call]]
  by (simp add: ude_started_def in_use_def)

lemma added_fields [simp]: "max_port added = 4" "du_next added = 0" "du_queues added = Map.empty" "du_timers added = Map.empty"
  "port_state added ! 0 = fresh_port" "length (port_state added) = 4" "du_endpoints added = Map.empty" "du_log added = []"
  by (simp_all add: added_def zero_ude_def)

lemma fresh_fields [simp]: "usb_device fresh_port = None" "bound fresh_port = False" "bound_file fresh_port = None"
  "usb_device_plugged fresh_port = False"
  by (simp_all add: fresh_port_def zero_port_def VdsInitializePortState_def)

lemma all_well_fields [simp]: "ca_init all_well" "ca_stage all_well k = STATUS_SUCCESS" "ca_plug_in all_well = STATUS_SUCCESS"
  "ea_allocated (ca_endpoint all_well a)" "ea_created (ca_endpoint all_well a) = STATUS_SUCCESS" "ea_queue (ca_endpoint all_well a) = STATUS_SUCCESS"
  by (simp_all add: all_well_def)

lemma bind_reaches: "VdsEvtControlDeviceControl v a i bind_call d = VdsBindPort a i 1 (cc_input bind_call) (Some 7) d"
  by (simp add: VdsEvtControlDeviceControl_def bind_call_def VDS_IOCTL_BIND_PORT_def VDS_IOCTL_GET_DRIVER_INFO_def
      VDS_IOCTL_GET_AUDIO_STATS_def VDS_IOCTL_GET_PORT_INFO_def VDS_WIN_CTL_CODE_def)

lemma simple_endpoint:
  "VdsCreateSimpleEndpoint (ca_endpoint all_well k) i address h d =
     (Inr (du_next d), stat_inc Endpoint_queue_refresh_count (d\<lparr>du_next := du_next d + 2,
        du_endpoints := (du_endpoints d)(du_next d \<mapsto> \<lparr>ep_port_index = i, ep_queue = Some (du_next d + 1), ep_address = address,
          ep_queue_released = False, ep_handler = h\<rparr>),
        du_queues := (du_queues d)(du_next d + 1 \<mapsto> \<lparr>qc_port_index = i, qc_address = address, qc_handler = h, qc_request_count = 0,
          qc_byte_count = 0, delayed_timer = None, delayed_request = None\<rparr>)\<rparr>))"
  by (simp add: VdsCreateSimpleEndpoint_def VdsAssignFreshEndpointQueue_def VdsCreateEndpointQueue_def Let_def put_endpoint_def
      put_queue_def stat_add_def)

lemma no_failure: "first_failure [ca_stage all_well 0x101, ca_stage all_well 0x102, ca_stage all_well 0x103,
    VdsAddStringDescriptor (ca_stage all_well 0x104) VDS_USB_MANUFACTURER_STRING,
    VdsAddStringDescriptor (ca_stage all_well 0x105) (VdsProductStringForProfile VDS_PROFILE_DS5), ca_stage all_well 0x106] = None"
  by (simp add: first_failure_def VdsAddStringDescriptor_def VdsProductStringForProfile_def VDS_USB_MANUFACTURER_STRING_def
      VDS_DS5_USB_PRODUCT_STRING_def)

lemma in_use_fields:
  "max_port in_use = 4" "bound (port_state in_use ! 0)" "bound_file (port_state in_use ! 0) = Some 7" "length (port_state in_use) = 4"
  "du_queues in_use 4 = Some \<lparr>qc_port_index = 0, qc_address = VDS_USB_AUDIO_OUT_ENDPOINT, qc_handler = Iso_out_handler,
     qc_request_count = 0, qc_byte_count = 0, delayed_timer = None, delayed_request = None\<rparr>"
  "du_queues in_use 8 = Some \<lparr>qc_port_index = 0, qc_address = VDS_USB_HID_IN_ENDPOINT, qc_handler = Hid_in_handler,
     qc_request_count = 0, qc_byte_count = 0, delayed_timer = None, delayed_request = None\<rparr>"
  "du_timers in_use = Map.empty" "urb_ids (du_log in_use) = []" "du_next in_use = 11"
  unfolding in_use_def bind_reaches
  by (simp_all add: bind_call_def VdsBindPort_def VDS_PORT_BIND_VERSION_def VdsIsValidProfile_def Let_def
      VdsPlugUsbChildDevice_def VdsCreateUsbChildDevice_def create_child_def no_failure [simplified] child_endpoints_def simple_endpoint
      put_port_state_def VdsResetAudioInPcm_def stat_add_def done_with_def du_emit_def)

lemma ports_ok_in_use: "ports_ok in_use"
  using sys_accounted_reach [OF reach_in_use] by (simp add: sys_accounted_def accounted_def ude_started_def)

lemma ready_in_use: "VdsPortReadyForIo 0 in_use"
  by (simp add: VdsPortReadyForIo_def in_use_fields)

lemma reach_polled: "ude_reach polled"
proof -
  have "du_queues (us_dev (ude_started in_use)) 8 \<noteq> None" by (simp add: ude_started_def in_use_fields)
  from ude_reach.Stepped [OF reach_in_use ude_step.Urb [OF this, of poll_request STATUS_SUCCESS 0]]
  show ?thesis by (simp add: ude_started_def polled_def poll_request_def)
qed

lemma polled_fields: "us_submitted polled = [40]" "urb_ids (du_log (us_dev polled)) = []" "dom (du_timers (us_dev polled)) = {11}"
  by (simp_all add: polled_def poll_request_def ude_started_def dispatch_urb_def in_use_fields VdsEvtHidInUrb_def VdsCopyInputReport_def
      kUsbInputReportSize_def VdsCompleteUrbAfterDelay_def note_request_def put_queue_def Let_def stat_add_def
      VdsAdjustEndpointDelayedPending_def VDS_FRAME_MAX_PAYLOAD_def)

section \<open>Frames for the daemon\<close>

datatype frame_op = Queue_frame u16 bytes | Read_frames nat read_request

fun frame_op_run :: "nat \<Rightarrow> frame_op \<Rightarrow> ude \<Rightarrow> ude" where
  "frame_op_run i (Queue_frame ty payload) d = snd (VdsQueueFrame i ty payload d)"
| "frame_op_run i (Read_frames n r) d = VdsEvtControlRead STATUS_SUCCESS i n r d"

text \<open>The frames that were taken, in order, and the bytes they make with their sequence numbers.\<close>

fun taken_frames :: "nat \<Rightarrow> frame_op list \<Rightarrow> ude \<Rightarrow> (u16 \<times> bytes) list" where
  "taken_frames i [] d = []"
| "taken_frames i (x # xs) d =
     (case x of
        Queue_frame ty payload \<Rightarrow> if NT_SUCCESS (fst (VdsQueueFrame i ty payload d)) then [(ty, payload)] else []
      | Read_frames n r \<Rightarrow> []) @ taken_frames i xs (frame_op_run i x d)"

fun frame_stream :: "u64 \<Rightarrow> (u16 \<times> bytes) list \<Rightarrow> bytes" where
  "frame_stream n [] = []"
| "frame_stream n ((ty, payload) # fs) =
     header_bytes \<lparr>fh_type = ty, fh_flags = 0, fh_length = of_nat (length payload), fh_sequence = n + 1\<rparr> @ payload @
     frame_stream (n + 1) fs"

lemma delivered_emit [simp]: "delivered (du_log (du_emit evs d)) = delivered (du_log d) @ delivered evs"
  by (simp add: du_emit_def)

lemma put_port_state_simps [simp]:
  "du_log (put_port_state i p d) = du_log d" "max_port (put_port_state i p d) = max_port d"
  "i < length (port_state d) \<Longrightarrow> port_state (put_port_state i p d) ! i = p"
  "length (port_state (put_port_state i p d)) = length (port_state d)"
  "port_state (du_emit evs d) = port_state d" "max_port (du_emit evs d) = max_port d"
  by (simp_all add: put_port_state_def du_emit_def)

text \<open>What is read and what still waits, in order.\<close>

definition frame_output :: "nat \<Rightarrow> ude \<Rightarrow> bytes" where
  "frame_output i d = delivered (du_log d) @ control_bytes (port_state d ! i)"

lemma frame_output_queue:
  assumes ok: "ports_ok d" and i: "i < unat (max_port d)" and q: "VdsQueueFrame i ty payload d = (status, d')"
  shows "frame_output i d' = frame_output i d @
      (if NT_SUCCESS status then next_frame ty payload (port_state d ! i) else [])"
    "frame_sequence (port_state d' ! i) = (if NT_SUCCESS status then 1 else 0) + frame_sequence (port_state d ! i)"
proof -
  let ?p = "port_state d ! i"
  have c: "control_ok ?p" using ports_ok_port [OF ok i] by (simp add: uport_ok_def)
  have l: "i < length (port_state d)" using ok i by (simp add: ports_ok_def)
  obtain st evs p where f: "queue_frame ty payload ?p = (st, evs, p)" by (metis prod_cases3)
  have "frame_output i d' = frame_output i d @ (if NT_SUCCESS status then next_frame ty payload ?p else []) \<and>
    frame_sequence (port_state d' ! i) = (if NT_SUCCESS status then 1 else 0) + frame_sequence ?p"
  proof (cases "frame_fits payload ?p")
    case True
    note g = queue_frame(1) [OF c f True]
    have q': "status = STATUS_SUCCESS" "d' = du_emit evs (put_port_state i p d)"
      using q f g True i by (auto simp: VdsQueueFrame_def frame_fits_def split: if_splits)
    have "same_rest (?p\<lparr>frame_sequence := frame_sequence ?p + 1\<rparr>) p" using g by blast
    then have "frame_sequence p = frame_sequence ?p + 1" by (auto simp: same_rest_def)
    with g q' l show ?thesis by (simp add: frame_output_def)
  next
    case False
    note g = queue_frame(2) [OF c f False]
    have n: "\<not> NT_SUCCESS status" using q f g by (auto simp: VdsQueueFrame_def split: if_splits)
    have "d' = d \<or> d' = du_emit evs (put_port_state i p d)" using q f by (auto simp: VdsQueueFrame_def split: if_splits)
    moreover have "put_port_state i ?p d = d" by (simp add: put_port_state_def)
    ultimately have "d' = d" using g by (auto simp: du_emit_def)
    with n show ?thesis by simp
  qed
  then show "frame_output i d' = frame_output i d @ (if NT_SUCCESS status then next_frame ty payload ?p else [])"
    "frame_sequence (port_state d' ! i) = (if NT_SUCCESS status then 1 else 0) + frame_sequence ?p" by blast+
qed

lemma frame_output_read:
  assumes ok: "ports_ok d" and i: "i < unat (max_port d)"
  shows "frame_output i (VdsEvtControlRead st i n r d) = frame_output i d"
    "frame_sequence (port_state (VdsEvtControlRead st i n r d) ! i) = frame_sequence (port_state d ! i)"
proof -
  let ?p = "(port_state d ! i)\<lparr>control_read_queue := map_option (\<lambda>rs. rs @ [r]) (control_read_queue (port_state d ! i))\<rparr>"
  have c: "control_ok ?p" using ports_ok_port [OF ok i] by (simp add: uport_ok_def)
  have l: "i < length (port_state d)" using ok i by (simp add: ports_ok_def)
  obtain evs p where e: "VdsCompleteControlReadRequests ?p = (evs, p)" by fastforce
  note f = complete_reads [OF c e]
  have "frame_sequence p = frame_sequence (port_state d ! i)" using f(3) by (auto simp: same_rest_def)
  with f(2) l show "frame_output i (VdsEvtControlRead st i n r d) = frame_output i d"
    "frame_sequence (port_state (VdsEvtControlRead st i n r d) ! i) = frame_sequence (port_state d ! i)"
    by (simp_all add: VdsEvtControlRead_def done_with_def frame_output_def Let_def e)
qed

lemma frame_op_calm: "calm d (frame_op_run i x d)"
  by (cases x) (simp_all add: calm_frame calm_read)

text \<open>
  C7. The daemon reads a stream: however reads and frames are interleaved on a port, what its readers have got
  followed by what the ring holds is what it was before followed by the frames taken since, complete, in
  order and with consecutive sequence numbers. A frame that was refused leaves no byte. (A frame is queued together
  with the completion of the reads that wait for it, as one operation.)
\<close>

theorem ude_frames_in_order:
  assumes "ports_ok d" "i < unat (max_port d)"
  shows "delivered (du_log (fold (frame_op_run i) xs d)) @ control_bytes (port_state (fold (frame_op_run i) xs d) ! i) =
    delivered (du_log d) @ control_bytes (port_state d ! i) @ frame_stream (frame_sequence (port_state d ! i)) (taken_frames i xs d)"
proof -
  have "frame_output i (fold (frame_op_run i) xs d) =
      frame_output i d @ frame_stream (frame_sequence (port_state d ! i)) (taken_frames i xs d)"
    using assms
  proof (induction xs arbitrary: d)
    case (Cons x xs)
    let ?d = "frame_op_run i x d"
    have ok: "ports_ok ?d" "i < unat (max_port ?d)"
      using frame_op_calm [of d i x] Cons.prems by (auto simp: calm_def unmoved_def)
    note ih = Cons.IH [OF ok]
    show ?case
    proof (cases x)
      case (Queue_frame ty payload)
      obtain st d' where q: "VdsQueueFrame i ty payload d = (st, d')" by fastforce
      then have "?d = d'" by (simp add: Queue_frame)
      with ih frame_output_queue [OF Cons.prems q] q show ?thesis by (simp add: Queue_frame next_frame_def add.commute)
    next
      case (Read_frames n r)
      with ih frame_output_read [OF Cons.prems, of STATUS_SUCCESS n r] show ?thesis by simp
    qed
  qed simp
  then show ?thesis by (simp add: frame_output_def)
qed

theorem ude_frames_in_order_witness:
  "ports_ok in_use \<and> 0 < unat (max_port in_use) \<and>
   (let xs = [Queue_frame VDS_FRAME_USB_HID_OUT [2, 1], Read_frames 10 \<lparr>rq_id = 5, rq_buffer = Inr 10\<rparr>]; d = fold (frame_op_run 0) xs in_use in
    delivered (du_log d) @ control_bytes (port_state d ! 0) =
    delivered (du_log in_use) @ control_bytes (port_state in_use ! 0) @ frame_stream (frame_sequence (port_state in_use ! 0)) (taken_frames 0 xs in_use))"
  using ude_frames_in_order [OF ports_ok_in_use, of 0 "[Queue_frame VDS_FRAME_USB_HID_OUT [2, 1], Read_frames 10 \<lparr>rq_id = 5, rq_buffer = Inr 10\<rparr>]"]
    ports_ok_in_use in_use_fields(1) by (simp only: Let_def) simp

section \<open>Frames from the daemon\<close>

lemma parse_header_append: "parse_header (take 16 (header_bytes h @ bs)) = h"
  by simp

lemma write_loop_framed:
  assumes "length payload \<le> VDS_FRAME_MAX_PAYLOAD"
  shows "write_loop i (framed (ty, payload) @ rest) d = write_loop i rest (accept_frame i ty payload d)"
proof -
  have n: "unat (of_nat (length payload) :: u32) = length payload"
    using assms by (simp add: VDS_FRAME_MAX_PAYLOAD_def unsigned_of_nat take_bit_nat_eq_self)
  show ?thesis
    using assms
    by (subst write_loop.simps) (simp add: framed_def frame_of_def Let_def n)
qed

text \<open>
  C36. What the daemon writes is what the driver takes: when the port is bound, a write of one or more frames in the format of
  \<open>write_handle_frame\<close> is accepted as a whole, and the port has then received each payload under its
  type, in order.
\<close>

theorem ude_write_accepts_frames:
  assumes "VdsPortReadyForIo i d" "ms \<noteq> []" "\<forall>m \<in> set ms. length (snd m) \<le> VDS_FRAME_MAX_PAYLOAD"
  shows "VdsEvtControlWrite i request (length (concat (map framed ms))) (Inr (concat (map framed ms))) d =
    du_emit [Write_done request (length (concat (map framed ms)))] (fold (\<lambda>(ty, payload). accept_frame i ty payload) ms d)"
proof -
  have w: "write_loop i (concat (map framed xs)) e = (STATUS_SUCCESS, fold (\<lambda>(ty, payload). accept_frame i ty payload) xs e)"
    if "\<forall>m \<in> set xs. length (snd m) \<le> VDS_FRAME_MAX_PAYLOAD" for xs e
    using that
  proof (induction xs arbitrary: e)
    case Nil
    then show ?case by (simp add: write_loop.simps)
  next
    case (Cons x xs)
    then show ?case using write_loop_framed [of "snd x" i "fst x"] by (cases x) auto
  qed
  obtain m ms' where "ms = m # ms'" using assms(2) by (cases ms) auto
  then have "\<not> length (concat (map framed ms)) < 16" by (simp add: framed_def)
  with assms(1) w [OF assms(3)] show ?thesis by (simp add: VdsEvtControlWrite_def)
qed

theorem ude_write_accepts_frames_witness:
  "VdsPortReadyForIo 0 in_use \<and>
   VdsEvtControlWrite 0 3 18 (Inr (framed (VDS_FRAME_USB_AUDIO_IN, [7, 8]))) in_use =
     du_emit [Write_done 3 18] (accept_frame 0 VDS_FRAME_USB_AUDIO_IN [7, 8] in_use)"
  using ude_write_accepts_frames [OF ready_in_use, of "[(VDS_FRAME_USB_AUDIO_IN, [7, 8])]" 3] ready_in_use
  by (simp add: VDS_FRAME_MAX_PAYLOAD_def framed_def)

section \<open>The microphone\<close>

datatype mic_op = Store_pcm bytes | Copy_pcm nat | Reset_pcm

fun mic_run :: "mic_op list \<Rightarrow> VDS_PORT_STATE \<Rightarrow> bytes list \<times> VDS_PORT_STATE" where
  "mic_run [] p = ([], p)"
| "mic_run (Store_pcm bs # xs) p = mic_run xs (VdsStoreAudioInPcm bs p)"
| "mic_run (Reset_pcm # xs) p = mic_run xs (VdsResetAudioInPcm p)"
| "mic_run (Copy_pcm n # xs) p =
     (case VdsCopyAudioInPcm n p of (bs, _, p) \<Rightarrow> case mic_run xs p of (outs, p) \<Rightarrow> (bs # outs, p))"

text \<open>The specification: a queue that keeps its newest 65536 bytes and reads silence when it is empty.\<close>

fun mic_spec :: "mic_op list \<Rightarrow> bytes \<Rightarrow> bytes list \<times> bytes" where
  "mic_spec [] q = ([], q)"
| "mic_spec (Store_pcm bs # xs) q = mic_spec xs (newest 65536 (q @ bs))"
| "mic_spec (Reset_pcm # xs) q = mic_spec xs []"
| "mic_spec (Copy_pcm n # xs) q =
     (case mic_spec xs (drop n q) of (outs, q') \<Rightarrow> ((take n q @ replicate (n - length q) 0) # outs, q'))"

lemma mic_copy:
  assumes "mic_ok p" "VdsCopyAudioInPcm n p = (bs, got, p')"
  shows "mic_ok p'" "bs = take n (audio_bytes p) @ replicate (n - length (audio_bytes p)) 0" "audio_bytes p' = drop n (audio_bytes p)"
    "got = min n (length (audio_bytes p))" "length bs = n"
proof -
  obtain cs q where r: "VdsAudioInRingReadLocked n p = (cs, q)" by fastforce
  note m = microphone.take_out [OF assms(1) r]
  have "mic_ok p' \<and> bs = take n (audio_bytes p) @ replicate (n - length (audio_bytes p)) 0 \<and> audio_bytes p' = drop n (audio_bytes p) \<and>
    got = min n (length (audio_bytes p))"
  proof (cases "n = 0")
    case True
    with assms show ?thesis by (simp add: VdsCopyAudioInPcm_def)
  next
    case False
    with assms(2) r m show ?thesis by (auto simp: VdsCopyAudioInPcm_def min_def)
  qed
  then show "mic_ok p'" "bs = take n (audio_bytes p) @ replicate (n - length (audio_bytes p)) 0"
    "audio_bytes p' = drop n (audio_bytes p)" "got = min n (length (audio_bytes p))" by auto
  then show "length bs = n" by simp
qed

lemma mic_store: "mic_ok p \<Longrightarrow> mic_ok (VdsStoreAudioInPcm bs p) \<and> audio_bytes (VdsStoreAudioInPcm bs p) = newest 65536 (audio_bytes p @ bs)"
  using audio_write [of p bs] by (auto simp: VdsStoreAudioInPcm_def VDS_AUDIO_IN_RING_SIZE_def mic_ok_def newest_all)

text \<open>
  C35. The microphone ring refines a queue of bytes: whatever is stored, read and reset, in any order and in any
  amounts, the host gets what the queue would give, silence included, although the code keeps the bytes in a
  ring of fixed size that wraps and overwrites.
\<close>

theorem ude_microphone_refines_queue:
  assumes "mic_ok p"
  shows "fst (mic_run xs p) = fst (mic_spec xs (audio_bytes p)) \<and> audio_bytes (snd (mic_run xs p)) = snd (mic_spec xs (audio_bytes p)) \<and>
    mic_ok (snd (mic_run xs p))"
  using assms
proof (induction xs arbitrary: p)
  case (Cons x xs)
  show ?case
  proof (cases x)
    case (Store_pcm bs)
    with Cons.IH mic_store [OF Cons.prems, of bs] show ?thesis by simp
  next
    case Reset_pcm
    have "audio_bytes (VdsResetAudioInPcm p) = []" by (simp add: VdsResetAudioInPcm_def audio_bytes_def)
    with Reset_pcm Cons.IH [OF mic_ok_reset [OF Cons.prems]] show ?thesis by simp
  next
    case (Copy_pcm n)
    obtain bs got p' where c: "VdsCopyAudioInPcm n p = (bs, got, p')" by (metis prod_cases3)
    note m = mic_copy [OF Cons.prems c]
    have "fst (mic_run xs p') = fst (mic_spec xs (drop n (audio_bytes p))) \<and>
        audio_bytes (snd (mic_run xs p')) = snd (mic_spec xs (drop n (audio_bytes p))) \<and> mic_ok (snd (mic_run xs p'))"
      using Cons.IH [OF m(1)] m(3) by simp
    then show ?thesis using m(2) by (simp add: Copy_pcm c case_prod_unfold)
  qed
qed simp

theorem ude_microphone_refines_queue_witness:
  "mic_ok fresh_port \<and> fst (mic_run [Store_pcm [1, 2, 3], Copy_pcm 2, Copy_pcm 3] fresh_port) = [[1, 2], [3, 0, 0]]"
proof -
  have p: "mic_ok fresh_port" "audio_bytes fresh_port = []"
    by (simp_all add: fresh_port_def mic_ok_def VdsInitializePortState_def zero_port_def VDS_AUDIO_IN_RING_SIZE_def audio_bytes_def)
  have spec: "fst (mic_spec [Store_pcm [1, 2, 3], Copy_pcm 2, Copy_pcm 3] []) = [[1, 2], [3, 0, 0]]"
    by (simp add: newest_def replicate_2)
  then show ?thesis
    using ude_microphone_refines_queue [OF p(1), of "[Store_pcm [1, 2, 3], Copy_pcm 2, Copy_pcm 3]"] p
    by (simp only: p(2) spec)
qed

section \<open>Isochronous transfers to the host\<close>

definition within :: "nat \<Rightarrow> iso_entry \<Rightarrow> iso_entry \<Rightarrow> bool" where
  "within n e e' \<longleftrightarrow> ie_offset e' = ie_offset e \<and> ie_length e' \<le> 192 \<and>
     (if ie_offset e > n then ie_length e' = 0 \<and> ie_status e' = USBD_STATUS_DATA_OVERRUN
      else ie_offset e + ie_length e' \<le> n \<and> ie_status e' = USBD_STATUS_SUCCESS)"

definition same_buffers :: "iso_in_state \<Rightarrow> iso_in_state \<Rightarrow> bool" where
  "same_buffers x x' \<longleftrightarrow> map_option length (is_buffer x') = map_option length (is_buffer x) \<and>
     map_option length (is_mirror x') = map_option length (is_mirror x)"

definition fits :: "nat \<Rightarrow> iso_in_state \<Rightarrow> bool" where
  "fits n x \<longleftrightarrow> uport_ok (is_port x) \<and> (case is_buffer x of None \<Rightarrow> True | Some b \<Rightarrow> n \<le> length b) \<and> is_read x \<le> is_completed x"

lemma iso_in_fill_fits:
  assumes f: "fits n x" and c: "offset + capacity \<le> n" and x': "x' = iso_in_fill offset capacity x"
  shows "uport_ok (is_port x')" "same_buffers x x'" "is_completed x' = is_completed x"
    "is_read x' \<le> is_completed x' + min capacity VDS_IN_BYTES_PER_MS"
proof -
  have "uport_ok (is_port x') \<and> same_buffers x x' \<and> is_completed x' = is_completed x \<and>
    is_read x' \<le> is_completed x' + min capacity VDS_IN_BYTES_PER_MS"
  proof (cases "is_buffer x")
    case None
    with f show ?thesis by (simp add: x' iso_in_fill_def fits_def same_buffers_def)
  next
    case (Some b)
    define a where "a = min capacity VDS_IN_BYTES_PER_MS"
    have le: "a \<le> capacity" by (simp add: a_def)
    have ok: "uport_ok (is_port x)" "n \<le> length b" using f Some by (simp_all add: fits_def)
    obtain bs got p where cp: "VdsCopyAudioInPcm a (is_port x) = (bs, got, p)" by (metis prod_cases3)
    have "mic_ok (is_port x)" using ok(1) by (simp add: uport_ok_def)
    note m = mic_copy [OF this cp]
    have bs: "length bs = a" "got \<le> a" using m(5) min.cobounded1 unfolding m(4) by blast+
    have l1: "offset + length bs \<le> length b" using bs(1) c ok(2) le by simp
    then have "length (blit offset bs b) = length b" by simp
    moreover have "offset + a + length (replicate (capacity - a) (0::u8)) \<le> length b" using c ok(2) le by simp
    ultimately have "length (blit (offset + a) (replicate (capacity - a) 0) (blit offset bs b)) = length b" by simp
    with l1 uport_ok_copy [OF ok(1) cp] bs(2) f show ?thesis
      by (simp add: x' iso_in_fill_def Some a_def [symmetric] cp Let_def same_buffers_def fits_def)
  qed
  then show "uport_ok (is_port x')" "same_buffers x x'" "is_completed x' = is_completed x"
    "is_read x' \<le> is_completed x' + min capacity VDS_IN_BYTES_PER_MS" by simp_all
qed

lemma same_buffers_copy: "same_buffers x (iso_in_copy offset capacity x)"
  by (auto simp: same_buffers_def iso_in_copy_def split: option.splits)

lemma iso_in_copy_fields [simp]:
  "is_completed (iso_in_copy o' c x) = is_completed x" "is_read (iso_in_copy o' c x) = is_read x"
  by (simp_all add: iso_in_copy_def split: option.splits)

lemma same_buffers_trans: "same_buffers x y \<Longrightarrow> same_buffers y z \<Longrightarrow> same_buffers x z"
  by (simp add: same_buffers_def)

lemma same_buffers_completed: "same_buffers x (y\<lparr>is_completed := k\<rparr>) = same_buffers x y"
  by (simp add: same_buffers_def)

lemma fits_same: "fits n x \<Longrightarrow> same_buffers x y \<Longrightarrow> uport_ok (is_port y) \<Longrightarrow> is_read y \<le> is_completed y \<Longrightarrow> fits n y"
  by (auto simp: fits_def same_buffers_def split: option.splits)

lemma iso_in_packet_fits:
  assumes f: "fits n x" and p: "iso_in_packet n nx e x = (e', x')"
  shows "within n e e'" "same_buffers x x'" "fits n x'"
proof -
  have "within n e e' \<and> same_buffers x x' \<and> fits n x'"
  proof (cases "ie_offset e > n")
    case True
    with p f show ?thesis by (auto simp: iso_in_packet_def within_def same_buffers_def USBD_STATUS_DATA_OVERRUN_def)
  next
    case False
    define cap where "cap = (if min nx n > ie_offset e then min nx n - ie_offset e else 0)"
    define y where "y = iso_in_fill (ie_offset e) cap x"
    define z where "z = iso_in_copy (ie_offset e) cap y"
    let ?a = "min cap VDS_IN_BYTES_PER_MS"
    have c: "ie_offset e + cap \<le> n" using False by (auto simp: cap_def)
    note g = iso_in_fill_fits [OF f c y_def]
    have r: "e' = e\<lparr>ie_length := ?a, ie_status := USBD_STATUS_SUCCESS\<rparr>" "x' = z\<lparr>is_completed := is_completed z + ?a\<rparr>"
      using p False by (simp_all add: iso_in_packet_def Let_def z_def y_def cap_def split: if_splits)
    have b: "same_buffers x x'"
      using same_buffers_trans [OF g(2) same_buffers_copy] by (simp add: r(2) z_def same_buffers_completed)
    have "uport_ok (is_port x')" "is_read x' \<le> is_completed x'" using g by (simp_all add: r(2) z_def)
    with fits_same [OF f b] b c False show ?thesis
      by (auto simp: r(1) within_def VDS_IN_BYTES_PER_MS_def)
  qed
  then show "within n e e'" "same_buffers x x'" "fits n x'" by simp_all
qed

text \<open>
  C37. An isochronous transfer to the host stays in its buffers: with packets at any offsets, each packet that
  lies in the transfer gets at most 192 bytes and ends in it, each other one is refused; the buffer and its
  mirror keep their sizes (nothing is written beyond them), no more bytes are counted as read than are
  delivered; and the completion is delayed by 1 to 20 milliseconds whatever start frame the host asks for.
\<close>

theorem ude_iso_in_bounds:
  assumes "uport_ok (is_port x)" "case is_buffer x of None \<Rightarrow> True | Some b \<Rightarrow> n \<le> length b" "is_read x \<le> is_completed x"
    and "iso_in_packets n es x = (es', x')"
  shows "list_all2 (within n) es es' \<and> map_option length (is_buffer x') = map_option length (is_buffer x) \<and>
    map_option length (is_mirror x') = map_option length (is_mirror x) \<and> is_read x' \<le> is_completed x' \<and>
    1000 \<le> iso_in_delay_us frame t \<and> iso_in_delay_us frame t \<le> 20000"
proof -
  have "fits n x" using assms(1-3) by (simp add: fits_def)
  then have "list_all2 (within n) es es' \<and> same_buffers x x' \<and> fits n x'"
    using assms(4)
  proof (induction es arbitrary: x es')
    case Nil
    then show ?case by (simp add: same_buffers_def)
  next
    case (Cons e es)
    let ?nx = "case es of [] \<Rightarrow> n | f # _ \<Rightarrow> ie_offset f"
    obtain e1 x1 where 1: "iso_in_packet n ?nx e x = (e1, x1)" by fastforce
    obtain es1 where 2: "iso_in_packets n es x1 = (es1, x')" "es' = e1 # es1"
      using Cons.prems(2) 1 by (auto split: prod.splits)
    note p = iso_in_packet_fits [OF Cons.prems(1) 1]
    from Cons.IH [OF p(3) 2(1)] p 2(2) show ?case using same_buffers_trans by auto
  qed
  moreover have "1000 \<le> iso_in_delay_us frame t \<and> iso_in_delay_us frame t \<le> 20000"
    by (simp add: iso_in_delay_us_def Let_def vds_iso_out_delay_max_us_def)
  ultimately show ?thesis by (simp add: same_buffers_def fits_def)
qed

theorem ude_iso_in_bounds_witness:
  "let x = \<lparr>is_buffer = Some (replicate 400 7), is_mirror = None, is_port = fresh_port, is_completed = 0, is_read = 0\<rparr>;
       es = [\<lparr>ie_offset = 0, ie_length = 0, ie_status = 0\<rparr>, \<lparr>ie_offset = 200, ie_length = 0, ie_status = 0\<rparr>] in
   uport_ok fresh_port \<and> list_all2 (within 400) es (fst (iso_in_packets 400 es x)) \<and>
   map_option length (is_buffer (snd (iso_in_packets 400 es x))) = Some 400"
proof -
  let ?x = "\<lparr>is_buffer = Some (replicate 400 7), is_mirror = None, is_port = fresh_port, is_completed = 0, is_read = 0\<rparr>"
  let ?es = "[\<lparr>ie_offset = 0, ie_length = 0, ie_status = 0\<rparr>, \<lparr>ie_offset = 200, ie_length = 0, ie_status = 0\<rparr>]"
  have p: "uport_ok fresh_port"
    using sys_accounted_reach [OF reach_added] by (auto simp: sys_accounted_def accounted_def ude_started_def ports_ok_def dest: spec [of _ 0])
  have 1: "uport_ok (is_port ?x)" "case is_buffer ?x of None \<Rightarrow> True | Some b \<Rightarrow> 400 \<le> length b" "is_read ?x \<le> is_completed ?x"
    using p by simp_all
  from ude_iso_in_bounds [OF 1 prod.collapse [symmetric], of ?es] p show ?thesis by (simp only: Let_def) simp
qed

section \<open>Reachable states\<close>

text \<open>
  C5. In every state the driver reaches, each of its four ports is in order: both rings lie in their arrays, no
  read waits while frames are there, the cached input report is a full report with its identifier, a plugged
  child device has a valid profile and its five endpoints, and a port is bound exactly while a file holds it.
  The driver has one to four ports.
\<close>

theorem ude_ports_invariant:
  assumes "ude_reach s" "i < 4" "p = port_state (us_dev s) ! i"
  shows "1 \<le> unat (max_port (us_dev s)) \<and> unat (max_port (us_dev s)) \<le> 4 \<and>
    length (control_ring p) = 262144 \<and> control_ring_head p < 262144 \<and> control_ring_size p \<le> 262144 \<and>
    length (audio_in_ring p) = 65536 \<and> audio_in_ring_head p < 65536 \<and> audio_in_ring_size p \<le> 65536 \<and>
    (control_ring_size p = 0 \<or> control_read_queue p = None \<or> control_read_queue p = Some []) \<and>
    length (last_hid_input p) = 64 \<and> last_hid_input p ! 0 = VDS_USB_INPUT_REPORT_ID \<and>
    (usb_device_plugged p \<longrightarrow> usb_device p \<noteq> None \<and> VdsIsValidProfile (usb_profile p) \<and> default_endpoint p \<noteq> None \<and>
       audio_out_endpoint p \<noteq> None \<and> audio_in_endpoint p \<noteq> None \<and> hid_in_endpoint p \<noteq> None \<and> hid_out_endpoint p \<noteq> None) \<and>
    (bound p \<longleftrightarrow> bound_file p \<noteq> None)"
proof -
  have "ports_ok (us_dev s)" using sys_accounted_reach [OF assms(1)] by (simp add: sys_accounted_def accounted_def)
  then have "uport_ok p" "1 \<le> unat (max_port (us_dev s))" "unat (max_port (us_dev s)) \<le> 4" using assms(2,3) by (simp_all add: ports_ok_def)
  then show ?thesis
    by (simp add: uport_ok_def control_ok_def mic_ok_def report_ok_def child_ok_def no_reader_waits_def
        VDS_CONTROL_RING_SIZE_def VDS_AUDIO_IN_RING_SIZE_def)
qed

theorem ude_ports_invariant_witness:
  "ude_reach polled \<and> length (control_ring (port_state (us_dev polled) ! 0)) = 262144"
  using ude_ports_invariant [OF reach_polled, of 0 "port_state (us_dev polled) ! 0"] reach_polled by simp

text \<open>
  C3. Every URB is completed at most once and none is lost, however the handlers (each one step), the timer callbacks
  with their two sections, the flushes with their two sections and the requests of the daemon follow each other: the URBs
  submitted so far are those completed and those that a timer holds; such a timer is in the slot of its
  queue or taken by a flush as long as it is armed, and its callback runs once it is not.
\<close>

theorem ude_urbs_once:
  assumes "ude_reach s"
  shows "distinct (urb_ids (du_log (us_dev s))) \<and>
    mset (us_submitted s) = mset (urb_ids (du_log (us_dev s))) + pending (us_dev s) \<and>
    (\<forall>t x. du_timers (us_dev s) t = Some x \<longrightarrow>
      (if dl_armed x then t \<in> set (us_flushing s) \<or> slot (us_dev s) (dl_queue x) = Some t
       else t \<in> set (us_fired s @ us_released s)))"
proof -
  have a: "ude_urbs_ok (us_fired s) (us_released s) (us_flushing s) (us_submitted s) (us_dev s)" "distinct (us_submitted s)"
    using sys_accounted_reach [OF assms] by (simp_all add: sys_accounted_def accounted_def)
  note k = ude_urbs_okD [OF a(1)]
  obtain ps where "mset ps = pending (us_dev s)" using ex_mset by blast
  then have "mset (us_submitted s) = mset (urb_ids (du_log (us_dev s)) @ ps)" using k(4) by simp
  from mset_eq_imp_distinct_iff [OF this] a(2) have "distinct (urb_ids (du_log (us_dev s)))" by simp
  then show ?thesis using k(4,6,7) by auto
qed

theorem ude_urbs_once_witness:
  "ude_reach polled \<and> us_submitted polled = [40] \<and> urb_ids (du_log (us_dev polled)) = [] \<and> pending (us_dev polled) = {#40#}"
  using ude_urbs_once [OF reach_polled] reach_polled by (simp add: polled_fields)

text \<open>A timer, whatever its stage, can run to its end; the others are not touched.\<close>

lemma timers_frame [simp]: "du_timers (snd (VdsQueueFrame i ty payload d)) = du_timers d"
  by (simp add: VdsQueueFrame_def put_port_state_def du_emit_def split: prod.splits)

lemma timers_simps [simp]:
  "du_timers (stat_add k v d) = du_timers d" "du_timers (du_emit evs d) = du_timers d"
  "du_timers (put_queue q c d) = du_timers d" "du_timers (VdsAdjustEndpointDelayedPending a n d) = du_timers d"
  by (simp_all add: stat_add_def du_emit_def put_queue_def VdsAdjustEndpointDelayedPending_def)

lemma timers_release [simp]: "du_timers (timer_release t x d) = du_timers d"
  by (simp add: timer_release_def split: option.splits)

lemma timers_finish [simp]: "du_timers (timer_finish t x d) = (du_timers d)(t := None)"
  by (simp add: timer_finish_def VdsCompleteDelayedUrb_def VdsCompleteUrbAsync_def Let_def split: option.splits prod.splits)

text \<open>The steps of the timers alone: a due timer fires, and its callback goes through its two sections.\<close>

inductive timer_step :: "ude_sys \<Rightarrow> ude_sys \<Rightarrow> bool" where
  Timer_fires: "du_timers (us_dev s) t = Some x \<Longrightarrow> dl_armed x \<Longrightarrow>
    timer_step s (s\<lparr>us_dev := timer_fire t (us_dev s), us_fired := t # us_fired s\<rparr>)"
| Timer_releases: "t \<in> set (us_fired s) \<Longrightarrow> du_timers (us_dev s) t = Some x \<Longrightarrow>
    timer_step s (s\<lparr>us_dev := timer_release t x (us_dev s), us_fired := remove1 t (us_fired s), us_released := t # us_released s\<rparr>)"
| Timer_finishes: "t \<in> set (us_released s) \<Longrightarrow> du_timers (us_dev s) t = Some x \<Longrightarrow>
    timer_step s (s\<lparr>us_dev := timer_finish t x (us_dev s), us_released := remove1 t (us_released s)\<rparr>)"

text \<open>What the timers have left to do: three steps for one that is armed, two or one for a callback that runs.\<close>

definition timers_armed :: "ude \<Rightarrow> nat set" where
  "timers_armed d = {t. \<exists>x. du_timers d t = Some x \<and> dl_armed x}"

definition timer_work :: "ude_sys \<Rightarrow> nat" where
  "timer_work s = 3 * card (timers_armed (us_dev s)) + 2 * length (us_fired s) + length (us_released s)"

lemma timer_step_ude: "timer_step s s' \<Longrightarrow> ude_step s s' \<and> us_submitted s' = us_submitted s"
  by (induction rule: timer_step.induct) (auto intro: ude_step.Fire ude_step.Release ude_step.Finish)

lemma timers_armed_simps:
  "timers_armed (timer_release t x d) = timers_armed d" "timers_armed (timer_finish t x d) = timers_armed d - {t}"
  "timers_armed (timer_fire t d) = timers_armed d - {t}"
  by (auto simp: timers_armed_def timer_fire_def split: option.splits if_splits)

lemma timer_step_work:
  assumes "timer_step s s'" "finite (timers_armed (us_dev s))"
  shows "timer_work s' < timer_work s"
  using assms
proof (induction rule: timer_step.induct)
  case (Timer_fires s t x)
  then have "t \<in> timers_armed (us_dev s)" by (auto simp: timers_armed_def)
  then show ?case using Timer_fires(3) card_Diff1_less [of "timers_armed (us_dev s)" t]
    by (simp add: timer_work_def timers_armed_simps)
next
  case (Timer_releases t s x)
  then obtain k where "length (us_fired s) = Suc k" by (cases "us_fired s") auto
  then show ?case using Timer_releases by (simp add: timer_work_def timers_armed_simps length_remove1)
next
  case (Timer_finishes t s x)
  have "card (timers_armed (us_dev s) - {t}) \<le> card (timers_armed (us_dev s))"
    using Timer_finishes(3) by (intro card_mono) auto
  moreover obtain k where "length (us_released s) = Suc k" using Timer_finishes(1) by (cases "us_released s") auto
  ultimately show ?case using Timer_finishes(1) by (simp add: timer_work_def timers_armed_simps length_remove1)
qed

lemma reach_urbs_ok:
  "ude_reach s \<Longrightarrow> ude_urbs_ok (us_fired s) (us_released s) (us_flushing s) (us_submitted s) (us_dev s)"
  using sys_accounted_reach by (simp add: sys_accounted_def accounted_def)

lemma reach_timer_step: "ude_reach s \<Longrightarrow> timer_step s s' \<Longrightarrow> ude_reach s' \<and> us_submitted s' = us_submitted s \<and> timer_work s' < timer_work s"
proof -
  assume r: "ude_reach s" and t: "timer_step s s'"
  have "timers_armed (us_dev s) \<subseteq> dom (du_timers (us_dev s))" by (auto simp: timers_armed_def)
  then have "finite (timers_armed (us_dev s))" using ude_urbs_okD(1) [OF reach_urbs_ok [OF r]] finite_subset by blast
  then show ?thesis using timer_step_ude [OF t] timer_step_work [OF t] Stepped [OF r] by blast
qed

lemma reach_timer_steps:
  "(timer_step ^^ n) s s' \<Longrightarrow> ude_reach s \<Longrightarrow> ude_reach s' \<and> us_submitted s' = us_submitted s \<and> n + timer_work s' \<le> timer_work s"
proof (induction n arbitrary: s')
  case (Suc n)
  then obtain s1 where "(timer_step ^^ n) s s1" "timer_step s1 s'" by (auto elim: relcomppE)
  then show ?case using Suc.IH [of s1] Suc.prems(2) reach_timer_step [of s1 s'] by auto
qed simp

text \<open>As long as an URB is outstanding a timer can step: the account leaves no timer in any other stage.\<close>

lemma timer_can_step:
  assumes "ude_reach s" "mset (urb_ids (du_log (us_dev s))) \<noteq> mset (us_submitted s)"
  shows "\<exists>s'. timer_step s s'"
proof -
  note u = ude_urbs_okD [OF reach_urbs_ok [OF assms(1)]]
  have "pending (us_dev s) \<noteq> {#}" using u(4) assms(2) by auto
  then have "dom (du_timers (us_dev s)) \<noteq> {}" by (auto simp: pending_def)
  then obtain t x where t: "du_timers (us_dev s) t = Some x" by (metis domD ex_in_conv)
  show ?thesis
  proof (cases "dl_armed x")
    case True
    then show ?thesis using Timer_fires [OF t] by blast
  next
    case False
    then have "t \<in> set (us_fired s) \<or> t \<in> set (us_released s)" using u(6) [of t] t by auto
    then show ?thesis using Timer_releases [OF _ t] Timer_finishes [OF _ t] by blast
  qed
qed

lemma timers_complete:
  "ude_reach s \<Longrightarrow> \<exists>s'. timer_step\<^sup>*\<^sup>* s s' \<and> mset (urb_ids (du_log (us_dev s'))) = mset (us_submitted s)"
proof (induction "timer_work s" arbitrary: s rule: less_induct)
  case less
  show ?case
  proof (cases "mset (urb_ids (du_log (us_dev s))) = mset (us_submitted s)")
    case False
    then obtain s1 where "timer_step s s1" using timer_can_step less.prems by blast
    then show ?thesis
      using less.hyps [of s1] reach_timer_step [OF less.prems, of s1] by (metis converse_rtranclp_into_rtranclp)
  qed blast
qed

text \<open>
  C34. No URB can be stuck, and no flush, unplug or new request is needed: from every reachable state the timers
  alone (\<open>timer_step\<close>: a timer fires, and the two sections of its callback) lead to a state in which every URB submitted
  so far has been completed, and exactly once. They cannot miss it either: every run of the timers alone ends, after at
  most \<open>timer_work\<close> steps, and it can be continued as long as an URB is not completed.
\<close>

theorem ude_urbs_completable:
  assumes "ude_reach s"
  shows "(\<exists>s'. timer_step\<^sup>*\<^sup>* s s' \<and> mset (urb_ids (du_log (us_dev s'))) = mset (us_submitted s)) \<and>
    (\<forall>n s'. (timer_step ^^ n) s s' \<longrightarrow> n \<le> timer_work s \<and> us_submitted s' = us_submitted s \<and>
      (mset (urb_ids (du_log (us_dev s'))) = mset (us_submitted s) \<or> (\<exists>s''. timer_step s' s'')))"
proof (intro conjI allI impI)
  fix n s'
  assume "(timer_step ^^ n) s s'"
  note r = reach_timer_steps [OF this assms]
  show "n \<le> timer_work s" "us_submitted s' = us_submitted s" using r by simp_all
  show "mset (urb_ids (du_log (us_dev s'))) = mset (us_submitted s) \<or> (\<exists>s''. timer_step s' s'')"
    using timer_can_step [of s'] r by auto
qed (rule timers_complete [OF assms])

theorem ude_urbs_completable_witness:
  "ude_reach polled \<and> urb_ids (du_log (us_dev polled)) = [] \<and> (\<exists>s. timer_step\<^sup>*\<^sup>* polled s \<and> urb_ids (du_log (us_dev s)) = [40])"
  using ude_urbs_completable [OF reach_polled] reach_polled by (auto simp: polled_fields)

section \<open>Binding\<close>

text \<open>
  C38. A bound port belongs to the file that bound it: requests of another file to bind or unbind it fail and the
  driver stays as it is but for the answer, and closing another file changes nothing.
\<close>

theorem ude_binding_exclusive:
  assumes "ude_reach s" "i < unat (max_port (us_dev s))" "bound_file (port_state (us_dev s) ! i) = Some f" "g \<noteq> f"
  shows "VdsBindPort a i request (Inr b) (Some g) (us_dev s) =
      done_with request (if pb_version b = VDS_PORT_BIND_VERSION \<and> pb_size b = 16 \<and> VdsIsValidProfile (pb_profile b)
        then STATUS_DEVICE_BUSY else STATUS_INVALID_PARAMETER) (us_dev s) \<and>
    VdsUnbindPort a i request (Some g) (us_dev s) = done_with request STATUS_ACCESS_DENIED (us_dev s) \<and>
    VdsEvtControlFileCleanup i g (us_dev s) = us_dev s"
proof -
  have "ports_ok (us_dev s)" using sys_accounted_reach [OF assms(1)] by (simp add: sys_accounted_def accounted_def)
  from ports_ok_port [OF this assms(2)] have "bound (port_state (us_dev s) ! i)" using assms(3) by (simp add: uport_ok_def)
  with assms show ?thesis by (auto simp: VdsBindPort_def VdsUnbindPort_def VdsEvtControlFileCleanup_def Let_def)
qed

theorem ude_binding_exclusive_witness:
  "ude_reach (ude_started in_use) \<and> bound_file (port_state in_use ! 0) = Some 7 \<and>
   VdsUnbindPort all_well 0 9 (Some 8) in_use = done_with 9 STATUS_ACCESS_DENIED in_use"
  using ude_binding_exclusive [OF reach_in_use, of 0 7 8 all_well 9] reach_in_use by (simp add: ude_started_def in_use_fields)

section \<open>Defects\<close>

text \<open>
  C39. An URB of audio for the speaker that is longer than the payload of a frame (4096 bytes, a little more than ten
  milliseconds of four channels) is completed at once and successfully, without the delay that paces the host,
  and its audio is lost: no frame is queued and no timer is started.
\<close>

theorem ude_long_audio_lost:
  assumes "du_queues d q = Some c" "ur_submit r" "ur_urb r = Some (Iso_urb t)" "it_length t > 4096"
    "it_buffer t = Some b" "length b = it_length t"
  shows "du_log (snd (VdsEvtIsoOutUrb ts q r d)) = du_log d @ [Urb_done (ur_id r) (it_length t) (Usbd_status USBD_STATUS_SUCCESS)] \<and>
    port_state (snd (VdsEvtIsoOutUrb ts q r d)) = port_state d \<and> du_timers (snd (VdsEvtIsoOutUrb ts q r d)) = du_timers d"
  using assms
  by (simp add: VdsEvtIsoOutUrb_def VdsCompleteUrbAfterDelay_def VDS_FRAME_MAX_PAYLOAD_def Let_def note_request_def
      VdsRecordIsoPcmSamples_def VdsIsoTransferBuffer_def VdsCompleteUrbAsync_def VdsQueueFrame_def pcm_statistics_def
      stat_add_def stat_set_def put_queue_def du_emit_def VDS_PCM_CHANNELS_def)

theorem ude_long_audio_lost_witness:
  "let t = \<lparr>it_buffer = Some (replicate 4224 1), it_length = 4224, it_packets = replicate 11 \<lparr>ie_offset = 0, ie_length = 384, ie_status = 0\<rparr>,
            it_asap = True, it_start_frame = 0\<rparr>;
       r = \<lparr>ur_id = 50, ur_submit = True, ur_urb = Some (Iso_urb t), ur_buffer = Inl STATUS_INVALID_PARAMETER, ur_setup = Inl STATUS_INVALID_PARAMETER\<rparr> in
   du_queues in_use 4 \<noteq> None \<and>
   du_log (snd (VdsEvtIsoOutUrb STATUS_SUCCESS 4 r in_use)) = du_log in_use @ [Urb_done 50 4224 (Usbd_status USBD_STATUS_SUCCESS)]"
proof -
  let ?t = "\<lparr>it_buffer = Some (replicate 4224 1), it_length = 4224, it_packets = replicate 11 \<lparr>ie_offset = 0, ie_length = 384, ie_status = 0\<rparr>,
            it_asap = True, it_start_frame = 0\<rparr>"
  let ?r = "\<lparr>ur_id = 50, ur_submit = True, ur_urb = Some (Iso_urb ?t), ur_buffer = Inl STATUS_INVALID_PARAMETER, ur_setup = Inl STATUS_INVALID_PARAMETER\<rparr>"
  have h: "ur_submit ?r" "ur_urb ?r = Some (Iso_urb ?t)" "it_length ?t > 4096" "it_buffer ?t = Some (replicate 4224 1)"
    "length (replicate 4224 (1::u8)) = it_length ?t" by simp_all
  from ude_long_audio_lost [OF in_use_fields(5) h, of STATUS_SUCCESS] in_use_fields(5) show ?thesis
    unfolding Let_def by (simp only: urb_request.simps iso_transfer.simps) simp
qed

text \<open>Creating, plugging and deleting the child device leaves the frame ring alone.\<close>

definition same_frames :: "nat \<Rightarrow> ude \<Rightarrow> ude \<Rightarrow> bool" where
  "same_frames i d d' \<longleftrightarrow> length (port_state d') = length (port_state d) \<and>
     control_bytes (port_state d' ! i) = control_bytes (port_state d ! i)"

lemma same_frames_refl [simp]: "same_frames i d d"
  by (simp add: same_frames_def)

lemma same_frames_trans: "same_frames i d1 d2 \<Longrightarrow> same_frames i d2 d3 \<Longrightarrow> same_frames i d1 d3"
  by (simp add: same_frames_def)

lemma same_frames_put:
  "control_bytes p = control_bytes (port_state d ! i) \<Longrightarrow> same_frames i d (put_port_state i p d)"
  by (cases "i < length (port_state d)") (simp_all add: same_frames_def put_port_state_def list_update_beyond)

lemma control_bytes_fields [simp]:
  "control_bytes (p\<lparr>usb_device_init := b\<rparr>) = control_bytes p" "control_bytes (p\<lparr>usb_device := u\<rparr>) = control_bytes p"
  "control_bytes (p\<lparr>default_endpoint := e\<rparr>) = control_bytes p" "control_bytes (p\<lparr>audio_out_endpoint := e\<rparr>) = control_bytes p"
  "control_bytes (p\<lparr>audio_in_endpoint := e\<rparr>) = control_bytes p" "control_bytes (p\<lparr>hid_in_endpoint := e\<rparr>) = control_bytes p"
  "control_bytes (p\<lparr>hid_out_endpoint := e\<rparr>) = control_bytes p" "control_bytes (p\<lparr>usb_device_plugged := b\<rparr>) = control_bytes p"
  "control_bytes (p\<lparr>usb_profile := k\<rparr>) = control_bytes p" "control_bytes (p\<lparr>usb_profile_valid := b\<rparr>) = control_bytes p"
  "control_bytes (p\<lparr>ps_profile := k\<rparr>) = control_bytes p" "control_bytes (p\<lparr>bound := b\<rparr>) = control_bytes p"
  "control_bytes (p\<lparr>bound_file := f\<rparr>) = control_bytes p" "control_bytes (VdsResetAudioInPcm p) = control_bytes p"
  by (simp_all add: control_bytes_def VdsResetAudioInPcm_def)

lemma same_frames_delete: "same_frames i d (snd (VdsDeleteUsbChildDevice a i d))"
  by (simp add: VdsDeleteUsbChildDevice_def Let_def same_frames_put split: option.splits)

lemma same_frames_endpoints:
  "\<forall>x \<in> set es. \<forall>e p. control_bytes (snd (snd x) e p) = control_bytes p \<Longrightarrow> same_frames i d (snd (create_endpoints a i es d))"
proof (induction a i es d rule: create_endpoints.induct)
  case (2 a i address handler keep es d)
  obtain r d1 where c: "VdsCreateSimpleEndpoint (ca_endpoint a address) i address handler d = (r, d1)" by fastforce
  have "port_state d1 = port_state d" using port_state_simple [of "ca_endpoint a address" i address handler d] c by simp
  then have d1: "same_frames i d d1" by (simp add: same_frames_def)
  show ?case
  proof (cases r)
    case (Inl st)
    then show ?thesis using d1 by (simp add: c)
  next
    case (Inr e)
    let ?d2 = "put_port_state i (keep (Some e) (port_state d1 ! i)) d1"
    have "control_bytes (keep (Some e) p) = control_bytes p" for p using "2.prems" by simp
    then have "same_frames i d1 ?d2" by (intro same_frames_put)
    then have "same_frames i d ?d2" using d1 same_frames_trans by blast
    moreover have "\<forall>x \<in> set es. \<forall>e p. control_bytes (snd (snd x) e p) = control_bytes p" using "2.prems" by simp
    from "2.IH" [OF c [symmetric] Inr this] have "same_frames i ?d2 (snd (create_endpoints a i es ?d2))" .
    ultimately have "same_frames i d (snd (create_endpoints a i es ?d2))" by (rule same_frames_trans)
    then show ?thesis by (simp only: create_endpoints.simps c Inr prod.case sum.case)
  qed
qed simp

lemma same_frames_create_child: "same_frames i d (snd (create_child a profile i d))"
proof -
  let ?p = "port_state d ! i"
  let ?d0 = "put_port_state i (?p\<lparr>usb_device_init := True\<rparr>) d"
  let ?d1 = "put_port_state i (?p\<lparr>usb_device_init := False, usb_device := Some (du_next ?d0)\<rparr>) (?d0\<lparr>du_next := du_next ?d0 + 1\<rparr>)"
  have 0: "same_frames i d (put_port_state i (?p\<lparr>usb_device_init := b\<rparr>) d)" for b by (simp add: same_frames_put)
  have n: "same_frames i ?d0 (?d0\<lparr>du_next := k\<rparr>)" for k by (simp add: same_frames_def)
  have "control_bytes (port_state ?d0 ! i) = control_bytes ?p" using 0 [of True] by (simp add: same_frames_def)
  then have "same_frames i (?d0\<lparr>du_next := du_next ?d0 + 1\<rparr>) ?d1" by (intro same_frames_put) simp
  with 0 n have 1: "same_frames i d ?d1" by (meson same_frames_trans)
  obtain st d2 where d2: "create_endpoints a i child_endpoints ?d1 = (st, d2)" by fastforce
  have "same_frames i ?d1 d2"
    using same_frames_endpoints [of child_endpoints i ?d1 a] d2 by (simp add: child_endpoints_def)
  with 1 have 2: "same_frames i d d2" by (rule same_frames_trans)
  moreover have "same_frames i d2 (put_port_state i ((port_state d2 ! i)\<lparr>usb_profile := profile, usb_profile_valid := True\<rparr>) d2)"
    by (simp add: same_frames_put)
  ultimately have 3: "same_frames i d (put_port_state i ((port_state d2 ! i)\<lparr>usb_profile := profile, usb_profile_valid := True\<rparr>) d2)"
    by (rule same_frames_trans)
  show ?thesis unfolding create_child_def Let_def using 0 2 3 d2 by (auto split: option.splits)
qed

lemma same_frames_plug: "same_frames i d (snd (VdsPlugUsbChildDevice a i d))"
proof -
  have c: "same_frames i d (snd (VdsCreateUsbChildDevice a i d))"
    using same_frames_delete [of i d a] same_frames_create_child same_frames_trans
    by (auto simp: VdsCreateUsbChildDevice_def Let_def case_prod_unfold)
  then have "same_frames i d (put_port_state i ((port_state (snd (VdsCreateUsbChildDevice a i d)) ! i)\<lparr>usb_device_plugged := True\<rparr>)
      (snd (VdsCreateUsbChildDevice a i d)))"
    by (rule same_frames_trans) (simp add: same_frames_put)
  with c show ?thesis by (simp add: VdsPlugUsbChildDevice_def case_prod_unfold)
qed

text \<open>
  C40. Frames outlive the binding they were queued for: when the file that holds a port is closed and another file
  binds the port, the microphone ring has been emptied but the frame ring still holds the bytes that the first
  file had not read, so the second one reads them first, possibly from the middle of a frame. Closing the file
  also leaves the child device plugged.
\<close>

theorem ude_frames_outlive_binding:
  assumes "bound_file (port_state d ! i) = Some f" "bound (port_state d ! i)" "i < unat (max_port d)" "i < length (port_state d)"
    and "VdsIsValidProfile (pb_profile b)" "pb_version b = VDS_PORT_BIND_VERSION" "pb_size b = 16"
    and "d1 = VdsEvtControlFileCleanup i f d" "d2 = VdsBindPort a i request (Inr b) (Some g) d1"
  shows "control_bytes (port_state d2 ! i) = control_bytes (port_state d ! i) \<and> audio_bytes (port_state d1 ! i) = [] \<and>
    usb_device_plugged (port_state d1 ! i) = usb_device_plugged (port_state d ! i)"
proof -
  have d1: "d1 = put_port_state i (VdsResetAudioInPcm ((port_state d ! i)\<lparr>bound := False, bound_file := None\<rparr>)) d"
    using assms(1-3,8) by (simp add: VdsEvtControlFileCleanup_def Let_def)
  let ?d = "put_port_state i (VdsResetAudioInPcm ((port_state d1 ! i)\<lparr>ps_profile := pb_profile b, bound := True, bound_file := Some g\<rparr>)) d1"
  obtain st d3 where d3: "VdsPlugUsbChildDevice a i ?d = (st, d3)" by fastforce
  have 1: "same_frames i d d1" unfolding d1 by (simp add: same_frames_put)
  have "same_frames i d1 ?d" by (simp add: same_frames_put)
  moreover have "same_frames i ?d d3" using same_frames_plug [of i ?d a] d3 by simp
  moreover have "same_frames i d3 (done_with request s d3)"
    "same_frames i d3 (done_with request s (put_port_state i ((port_state d3 ! i)\<lparr>bound := False, bound_file := None\<rparr>) d3))" for s
    using same_frames_put [of "(port_state d3 ! i)\<lparr>bound := False, bound_file := None\<rparr>" d3 i]
    by (simp_all add: done_with_def same_frames_def)
  moreover have "\<not> bound (port_state d1 ! i)" "max_port d1 = max_port d"
    using assms(4) by (simp_all add: d1 VdsResetAudioInPcm_def)
  ultimately have "same_frames i d1 d2"
    using assms(3,5-7,9) d3 by (auto simp: VdsBindPort_def Let_def intro: same_frames_trans)
  with 1 have "same_frames i d d2" by (rule same_frames_trans)
  then show ?thesis using assms(4) by (simp add: same_frames_def d1 VdsResetAudioInPcm_def audio_bytes_def)
qed

theorem ude_frames_outlive_binding_witness:
  "let d1 = VdsEvtControlFileCleanup 0 7 in_use;
       d2 = VdsBindPort all_well 0 9 (Inr \<lparr>pb_version = VDS_PORT_BIND_VERSION, pb_size = 16, pb_profile = VDS_PROFILE_DS5\<rparr>) (Some 8) d1 in
   bound_file (port_state in_use ! 0) = Some 7 \<and> control_bytes (port_state d2 ! 0) = control_bytes (port_state in_use ! 0)"
proof -
  let ?b = "\<lparr>pb_version = VDS_PORT_BIND_VERSION, pb_size = 16, pb_profile = VDS_PROFILE_DS5\<rparr>"
  have h: "0 < unat (max_port in_use)" "0 < length (port_state in_use)" "VdsIsValidProfile (pb_profile ?b)"
    "pb_version ?b = VDS_PORT_BIND_VERSION" "pb_size ?b = 16"
    by (simp_all add: in_use_fields VdsIsValidProfile_def)
  from ude_frames_outlive_binding [OF in_use_fields(3,2) h refl refl, of all_well 9 8] in_use_fields(3) show ?thesis
    unfolding Let_def by (simp only:)
qed

end
