(* ===== verification/Spec2Isabelle.thy ===== *)
theory Spec2Isabelle
  imports Vdsctl Usbip LinuxDaemonProps HcdLinks WinFilterProps UdeProps
begin

text \<open>
  \<^bold>\<open>vDS.\<close> The program makes a DualSense controller that is paired over Bluetooth appear as a
  controller that is plugged in over USB, with its audio devices. A daemon (\<open>vdsd\<close>) reads
  reports from the Bluetooth controller and passes them as frames to a virtual USB device; what
  the host writes to the virtual device (HID output reports, feature requests, PCM audio) comes
  back as frames and is turned into Bluetooth reports. There are three virtual devices: the host
  controller of a Linux kernel module, a USB/IP server, and a bus driver for Windows; a filter
  driver for Windows hides the physical controllers from other programs. A utility (\<open>vdsctl\<close>)
  talks to the daemon over a local socket, one JSON object a line.

  \<^bold>\<open>The theories.\<close> Paths are relative to \<open>src/\<close> of the repository's root.

  \<^item> \<open>VdsPrelude\<close>, \<open>Queues\<close>, \<open>Action\<close>, \<open>NtStatus\<close>: machine integers as words, exceptions as values,
    byte buffers and integer encodings, the bounded queues that give up their oldest elements,
    actions on a state that may throw, status codes of the Windows kernel.
  \<^item> \<open>Jsonl\<close> (\<open>src/jsonl.cc\<close>), \<open>VdsText\<close> (\<open>src/vds_common.cc\<close>), \<open>Config\<close> (\<open>src/vds_config.cc\<close>,
    \<open>vds_profile.hh\<close>), \<open>Log\<close> (\<open>src/vds_log.cc\<close>), \<open>Control\<close> (\<open>src/vdsd_common.cc\<close>), \<open>Vdsctl\<close>
    (\<open>src/vdsctl_common.cc\<close>): the controller database as a file and as a map, port selection,
    the commands of the daemon and of the utility, and both together.
  \<^item> \<open>Crc\<close>, \<open>Protocol\<close>, \<open>Audio\<close> (\<open>src/vds_protocol.cc\<close>): checksums of reports against polynomial
    division, the output state that merges USB reports into Bluetooth reports, resampling and
    segmentation of the audio stream. The Opus codec is a parameter, the record \<open>codec\<close>.
  \<^item> \<open>FrameIo\<close> (\<open>src/platform/win32/vds_io.cc\<close>, \<open>linux/vds_io.cc\<close>): frames on byte streams that
    arrive in arbitrary pieces.
  \<^item> \<open>UsbDescriptors\<close>, \<open>Gain\<close>, \<open>UsbipPort\<close>, \<open>Usbip\<close> (\<open>include/vds/ds5_usb.h\<close>,
    \<open>src/platform/win32/vds_usbip.cc\<close>): the USB identity, the volume controls, the state of a
    USB/IP port under its locks, the sessions of the server.
  \<^item> \<open>L2cap\<close>, \<open>LinuxPort\<close>, \<open>LinuxDaemon\<close>, \<open>LinuxMain\<close> (\<open>src/platform/linux/vds_bt.cc\<close>, \<open>vdsd.cc\<close>): the
    Bluetooth channels, one virtual port, the controllers of the daemon, one turn of its main
    loop. Their invariants are in \<open>LinuxPortInv\<close> and \<open>LinuxDaemonInv\<close>, the properties in
    \<open>LinuxPortProps\<close> and \<open>LinuxDaemonProps\<close>.
  \<^item> \<open>HcdUsb\<close>, \<open>Hcd\<close> (\<open>module/vds_usb_core.c\<close>, \<open>vds_hcd_core.c\<close>, \<open>vds_controller.h\<close>): the USB device and
    the host controller of the kernel module. \<open>HcdInv\<close> and \<open>HcdSteps\<close> prove its invariant,
    \<open>HcdRuns\<close> its runs, \<open>HcdProps\<close> the properties, \<open>HcdLinks\<close> what it shares with the daemon and
    the USB/IP port.
  \<^item> \<open>WinFilter\<close>, \<open>WinFilterInv\<close>, \<open>WinFilterProps\<close> (\<open>windrv/vds_filter/vds_filter.c\<close>): the filter
    driver for Windows.
  \<^item> \<open>UdePort\<close>, \<open>Ude\<close>, \<open>UdeUrbs\<close>, \<open>UdeControl\<close> (\<open>windrv/vds_usb/vds_usb.c\<close>): the bus driver for
    Windows; \<open>UdeRings\<close>, \<open>UdeInv\<close>, \<open>UdeSteps\<close> and \<open>UdeReach\<close> hold its rings as queues, the invariant
    of its ports, the account of its URBs and its runs, \<open>UdeProps\<close> the properties.

  \<^bold>\<open>How the code is read.\<close> A struct is a record with the names of the source (with a prefix where
  two clash), an enumeration a datatype, a fixed-width integer a word, an operation one
  definition that takes the state and returns it. What the environment answers (system calls,
  the USB core, the Windows frameworks, time) is an argument. Exceptions and error codes are
  values. A section under one lock is atomic. What a driver completes or
  sends is appended to a log in the state, so that \<open>exactly once\<close> and \<open>in order\<close> are statements
  about lists.

  \<^bold>\<open>Interleaving.\<close> Four inductive relations say how the operations of a part follow each other. They are finer than
  the calls of the code and in places coarser than its locks; what is proved holds for the runs they have.
  \<^item> \<open>hcd_reach\<close> (kernel module): a submission has three steps (the URB is linked; the switch on its pipe; it is queued
    for giveback), a turn of the giveback thread has two, every other call is one. It leaves out two runs: an URB
    that is unlinked during its own submission, where the code goes wrong (\<open>unlink_during_submission\<close>), and anything
    between the refusal of a deferred feature request and its giveback.
  \<^item> \<open>filter_reach\<close> (filter driver): a start, a removal and an addition of a device go through their sections one by one
    (\<open>pnp_step\<close>), and so do a wait, a notification, the drain of the wait queue and a cancellation; the other requests are
    one step. The fields that \<open>VdsReadPhysicalDeviceProfile\<close> clears are cleared together, and those it reads are
    set together.
  \<^item> \<open>ude_reach\<close> (bus driver): a timer fires, releases its slot and finishes in three steps, a flush takes the timer and
    stops it in two; each handler of the framework and each request of the daemon is one step, also where
    \<open>VdsQueueFrame\<close>, \<open>VdsCompleteControlReadRequests\<close> and \<open>VdsCompleteUrbAfterDelay\<close> take a lock more than once.
  \<^item> \<open>linux_reachable\<close> and the turns of \<open>LinuxMain\<close> (Linux daemon, which has one thread): every handler of the main
    loop, also when it throws, the bring-up of a controller on a port, the loss of its backend, and disconnection.

  \<^bold>\<open>Interfaces.\<close> Locales state what one part relies on in another: the exact readers and writers
  of streams (\<open>exact_reader\<close>, \<open>exact_writer\<close>), the database behind its file (\<open>address_map\<close>), the gate
  of reconnections (\<open>retry_gate\<close>), reports closed by a checksum (\<open>report_seal\<close>), relations that
  actions keep (\<open>transition\<close>), views of a port (\<open>port_view\<close>), transfers that leave the rest of a port
  alone (\<open>transfer_stable\<close>), the callbacks of the kernel module's USB device (\<open>usb_callbacks\<close>), bounded
  queues (\<open>keep_newest\<close>) and the byte queues behind both rings of the bus driver (\<open>byte_queue\<close>). Each
  is interpreted on the model's own definitions where they are defined.

  \<^bold>\<open>What is shown.\<close>
  \<^item> Invariants of the database file, of the output state, of a USB/IP port, of the Linux port
    and daemon (with what they send on both Bluetooth channels), of the kernel module, of the filter's device
    extensions and of the bus driver's ports, each kept by every step, errors included.
  \<^item> No URB or IRP is lost or completed twice in the runs above (kernel module, filter, bus driver), and a transfer of
    the USB/IP server has exactly one reply when its handler lets the session continue.
  \<^item> Streams keep their order and their bytes: frames through pieces of any size, isochronous
    audio in both directions, the frame ring and the microphone ring of the bus driver.
  \<^item> Reference definitions: CRC-32 by division, port selection by its specification, the database
    as a finite map, the address parser of the filter, agreement of the two descriptor front ends.
  \<^item> Progress: stopping the kernel module drains its queues, but for submissions under way; no notification of the
    filter is lost; from every reachable state of the bus driver the timers alone complete every URB, in a bounded
    number of steps.
  \<^item> Bounds: pacing of audio, queues, buffers that are never left.
  \<^item> Commands end to end: what the utility sends is what the daemon does.
  \<^item> Defects, as theorems about the code as it is: a late feature reply that answers another
    request, a deferred report that undoes a mute, a failed reload that ends the daemon, an unlink
    during submission after which freed memory is used, a window in which the filter lets strangers in, an ignored
    detach that cancels a reload another command asked for, a symbolic
    link deleted under its owner, audio that the bus driver loses when a transfer is long, frames
    that outlive the binding they were meant for.

  \<^bold>\<open>Fuel and bounds.\<close> Loops are structural recursion or have a termination proof; the loops that wait
  for input recurse on the list of what arrives. Runs are inductive relations and have no bound.
  Where a width matters (sequence numbers, delays, packet counts, generations) the model keeps it.

  \<^bold>\<open>Not modelled.\<close> The Windows daemon and its Bluetooth backend (\<open>src/platform/win32/vdsd.cc\<close>,
  \<open>vds_bt.cc\<close>): they repeat the logic of the Linux daemon around overlapped I/O, notifications and
  services, and nearly every line is a call of a library that is not in the repository. The
  wrappers of file system, D-Bus and udev, whose answers are arguments here. The installer, the
  tray program, scripts and generated files. Of the bus driver: the tables of the USB bus
  interface, the completion DPC and the delayed completion of a configuration, which no call
  reaches, and debug output. Of the logger and the USB/IP server: output streams, threads and
  sockets themselves. Memory allocation by the C++ library does not fail.
\<close>

end
